(* ===== verification/Bytes.thy ===== *)
theory Bytes
  imports Prelude
begin

text \<open>
  The byte layer of \<open>include/usbipdcpp/network.h\<close> and \<open>utils/utils.h\<close>: host
  integers in memory, \<open>ntoh\<close>, \<open>hton\<close> and \<open>htole\<close>, the variadic serialisers
  \<open>to_network_array\<close>, \<open>to_network_data\<close>, \<open>vector_append_to_net\<close> and
  \<open>vector_append_to_le\<close>, and the readers over a TCP socket.

  The variadic templates take a list of values of type \<open>net_field\<close>; a reader takes the
  list of the types it fills (\<open>net_spec\<close>). The endianness of the host
  (\<open>is_little_endian()\<close>) is an argument of every function that looks at memory.
\<close>

section \<open>Words and their bytes\<close>

text \<open>The bytes of a word, least significant first, and back.\<close>

definition le_bytes :: "'a::len word \<Rightarrow> data" where
  "le_bytes w = map (\<lambda>i. ucast (drop_bit (8 * i) w)) [0..<LENGTH('a) div 8]"

fun word_of_le :: "data \<Rightarrow> 'a::len word" where
  "word_of_le [] = 0"
| "word_of_le (b # bs) = ucast b OR push_bit 8 (word_of_le bs)"

lemma length_le_bytes [simp]: "length (le_bytes (w :: 'a::len word)) = LENGTH('a) div 8"
  by (simp add: le_bytes_def)

lemma bit_word_of_le:
  "bit (word_of_le bs :: 'a::len word) n \<longleftrightarrow>
     n < LENGTH('a) \<and> n div 8 < length bs \<and> bit (bs ! (n div 8)) (n mod 8)"
proof (induction bs arbitrary: n)
  case Nil
  then show ?case by simp
next
  case (Cons b bs)
  show ?case
  proof (cases "n < 8")
    case True
    then show ?thesis
      by (auto simp: bit_or_iff bit_push_bit_iff bit_ucast_iff bit_imp_le_length)
  next
    case False
    define m where "m = n - 8"
    have n: "n = m + 8" using False by (simp add: m_def)
    have "\<not> bit b n" using False bit_imp_le_length[of b n] by auto
    moreover have "(m + 8) div 8 = Suc (m div 8)" by simp
    ultimately show ?thesis
      using Cons[of m] by (auto simp: n bit_or_iff bit_push_bit_iff bit_ucast_iff)
  qed
qed

lemma word_of_le_le_bytes [simp]:
  assumes "8 dvd LENGTH('a)"
  shows "word_of_le (le_bytes (w :: 'a::len word)) = w"
proof (rule bit_word_eqI)
  fix n assume n: "n < LENGTH('a)"
  with assms have "n div 8 < LENGTH('a) div 8"
    by (metis div_less_mono zero_less_numeral dvd_div_mult_self less_mult_imp_div_less)
  moreover have "n mod 8 < 8" by simp
  moreover have "8 * (n div 8) + n mod 8 = n" by simp
  ultimately show "bit (word_of_le (le_bytes w) :: 'a word) n = bit w n"
    using n by (simp add: bit_word_of_le le_bytes_def bit_ucast_iff bit_drop_bit_eq)
qed

lemma le_bytes_word_of_le [simp]:
  assumes "LENGTH('a::len) = 8 * length bs"
  shows "le_bytes (word_of_le bs :: 'a word) = bs"
proof (rule nth_equalityI)
  show "length (le_bytes (word_of_le bs :: 'a word)) = length bs" using assms by simp
next
  fix i assume "i < length (le_bytes (word_of_le bs :: 'a word))"
  then have i: "i < length bs" using assms by simp
  show "le_bytes (word_of_le bs :: 'a word) ! i = bs ! i"
  proof (rule bit_word_eqI)
    fix n assume "n < LENGTH(8)"
    then have n: "n < 8" by simp
    have "(8 * i + n) div 8 = i" "(8 * i + n) mod 8 = n" using n by auto
    moreover have "8 * i + n < LENGTH('a)" using i n assms by simp
    ultimately show "bit (le_bytes (word_of_le bs :: 'a word) ! i) n = bit (bs ! i) n"
      using i n assms
      by (simp add: le_bytes_def bit_ucast_iff bit_drop_bit_eq bit_word_of_le)
  qed
qed

section \<open>Host byte order\<close>

text \<open>How the host keeps an integer in memory (\<open>memcpy\<close> from \<open>&x\<close>).\<close>

definition mem_bytes :: "bool \<Rightarrow> 'a::len word \<Rightarrow> data" where
  "mem_bytes le w = (if le then le_bytes w else rev (le_bytes w))"

definition word_of_mem :: "bool \<Rightarrow> data \<Rightarrow> 'a::len word" where
  "word_of_mem le bs = word_of_le (if le then bs else rev bs)"

definition byteswap :: "'a::len word \<Rightarrow> 'a word" where
  "byteswap w = word_of_le (rev (le_bytes w))"

definition ntoh :: "bool \<Rightarrow> 'a::len word \<Rightarrow> 'a word" where
  "ntoh le num = (if le then byteswap num else num)"

definition hton :: "bool \<Rightarrow> 'a::len word \<Rightarrow> 'a word" where
  "hton le num = ntoh le num"

definition htole :: "bool \<Rightarrow> 'a::len word \<Rightarrow> 'a word" where
  "htole le num = (if le then num else byteswap num)"

text \<open>Big-endian bytes, the reference for network order.\<close>

definition be_bytes :: "'a::len word \<Rightarrow> data" where
  "be_bytes w = rev (le_bytes w)"

lemma length_be_bytes [simp]: "length (be_bytes (w :: 'a::len word)) = LENGTH('a) div 8"
  by (simp add: be_bytes_def)

lemma mem_bytes_hton:
  assumes "8 dvd LENGTH('a)"
  shows "mem_bytes le (hton le (w :: 'a::len word)) = be_bytes w"
proof -
  have "LENGTH('a) = 8 * length (rev (le_bytes w))" using assms by simp
  then show ?thesis
    by (simp add: mem_bytes_def hton_def ntoh_def byteswap_def be_bytes_def)
qed

lemma mem_bytes_htole:
  assumes "8 dvd LENGTH('a)"
  shows "mem_bytes le (htole le (w :: 'a::len word)) = le_bytes w"
proof -
  have "LENGTH('a) = 8 * length (rev (le_bytes w))" using assms by simp
  then show ?thesis
    by (simp add: mem_bytes_def htole_def byteswap_def)
qed

lemma ntoh_word_of_mem:
  assumes "8 dvd LENGTH('a::len)" and "8 * length bs = LENGTH('a)"
  shows "ntoh le (word_of_mem le bs :: 'a word) = word_of_le (rev bs)"
  using assms by (auto simp: ntoh_def word_of_mem_def byteswap_def)

end
