(* ===== verification/Network.thy ===== *)
theory Network
  imports Bytes
begin

text \<open>
  Serialisation and socket access of \<open>include/usbipdcpp/network.h\<close>: the variadic
  serialisers as folds over a list of fields that fill a buffer at a running offset, the
  readers as functions on the receive side of a TCP socket, and the interface
  \<open>byte_codec\<close> that every serialisable structure of the protocol implements.
\<close>

section \<open>The socket\<close>

text \<open>
  \<open>std::system_error\<close> codes the sources distinguish. \<open>Asio_eof\<close> is
  \<open>asio::error::eof\<close>, \<open>Asio_failed\<close> any other socket error.
\<close>

datatype sys_error = Asio_eof | Asio_failed | Errc_protocol_error | Errc_no_buffer_space | Errc_invalid_argument

text \<open>
  The receive side holds the bytes that will arrive before the connection ends and the error
  a blocking read reports once they are used up.
\<close>

record tcp_in =
  rx :: data
  rx_end :: sys_error

type_synonym 'a reader = "tcp_in \<Rightarrow> sys_error + ('a \<times> tcp_in)"

definition asio_read :: "nat \<Rightarrow> data reader" where
  "asio_read n s =
     (if n \<le> length (rx s) then Inr (take n (rx s), s\<lparr>rx := drop n (rx s)\<rparr>)
      else Inl (rx_end s))"

definition rd_return :: "'a \<Rightarrow> 'a reader" where
  "rd_return x s = Inr (x, s)"

definition rd_throw :: "sys_error \<Rightarrow> 'a reader" where
  "rd_throw e s = Inl e"

definition rd_bind :: "'a reader \<Rightarrow> ('a \<Rightarrow> 'b reader) \<Rightarrow> 'b reader" where
  "rd_bind m f s = (case m s of Inl e \<Rightarrow> Inl e | Inr (x, s') \<Rightarrow> f x s')"

lemmas reader_defs = rd_return_def rd_throw_def rd_bind_def

text \<open>
  The send side: what the peer got so far, and how many more bytes it takes before the
  connection breaks (\<open>None\<close>: it never breaks). A failing write may deliver a prefix.
\<close>

record tcp_out =
  tx :: data
  tx_room :: "nat option"

definition asio_write :: "data \<Rightarrow> tcp_out \<Rightarrow> sys_error option \<times> tcp_out" where
  "asio_write bs w =
     (case tx_room w of
        None \<Rightarrow> (None, w\<lparr>tx := tx w @ bs\<rparr>)
      | Some k \<Rightarrow>
          if length bs \<le> k
          then (None, w\<lparr>tx := tx w @ bs, tx_room := Some (k - length bs)\<rparr>)
          else (Some Asio_failed, w\<lparr>tx := tx w @ take k bs, tx_room := Some 0\<rparr>))"

lemma asio_write_ok:
  "asio_write bs w = (None, w') \<Longrightarrow> tx w' = tx w @ bs"
  by (auto simp: asio_write_def split: option.splits if_splits)

lemma asio_write_unbounded [simp]:
  "tx_room w = None \<Longrightarrow> asio_write bs w = (None, w\<lparr>tx := tx w @ bs\<rparr>)"
  by (simp add: asio_write_def)

section \<open>Fields\<close>

datatype net_field = F8 u8 | F16 u16 | F32 u32 | FArr data

datatype net_spec = R8 | R16 | R32 | RArr nat

text \<open>\<open>calculate_total_size_with_array\<close> and \<open>calculate_data_total_size_with_range\<close>.\<close>

fun spec_size :: "net_spec \<Rightarrow> nat" where
  "spec_size R8 = 1"
| "spec_size R16 = 2"
| "spec_size R32 = 4"
| "spec_size (RArr n) = n"

fun spec_of :: "net_field \<Rightarrow> net_spec" where
  "spec_of (F8 _) = R8"
| "spec_of (F16 _) = R16"
| "spec_of (F32 _) = R32"
| "spec_of (FArr bs) = RArr (length bs)"

definition calculate_total_size :: "net_spec list \<Rightarrow> nat" where
  "calculate_total_size specs = sum_list (map spec_size specs)"

text \<open>What one \<open>process(arg)\<close> call copies into the buffer: the memory of the swapped
  integer, or the array itself.\<close>

fun net_bytes :: "bool \<Rightarrow> net_field \<Rightarrow> data" where
  "net_bytes le (F8 x) = mem_bytes le (hton le x)"
| "net_bytes le (F16 x) = mem_bytes le (hton le x)"
| "net_bytes le (F32 x) = mem_bytes le (hton le x)"
| "net_bytes le (FArr bs) = bs"

fun le_field_bytes :: "bool \<Rightarrow> net_field \<Rightarrow> data" where
  "le_field_bytes le (F8 x) = mem_bytes le (htole le x)"
| "le_field_bytes le (F16 x) = mem_bytes le (htole le x)"
| "le_field_bytes le (F32 x) = mem_bytes le (htole le x)"
| "le_field_bytes le (FArr bs) = bs"

text \<open>The loop \<open>(process(args), ...)\<close>: copy each argument at the running offset.\<close>

fun fill_buffer :: "(net_field \<Rightarrow> data) \<Rightarrow> net_field list \<Rightarrow> nat \<Rightarrow> data \<Rightarrow> data" where
  "fill_buffer enc [] off buf = buf"
| "fill_buffer enc (a # as) off buf =
     fill_buffer enc as (off + length (enc a)) (memcpy_at off (enc a) buf)"

text \<open>\<open>to_network_array\<close> and \<open>to_network_data\<close>; the vector forms grow an existing
  buffer by the total size first.\<close>

definition to_network_array_on :: "bool \<Rightarrow> net_field list \<Rightarrow> data" where
  "to_network_array_on le args =
     fill_buffer (net_bytes le) args 0
       (replicate (calculate_total_size (map spec_of args)) 0)"

definition to_network_data_on :: "bool \<Rightarrow> net_field list \<Rightarrow> data" where
  "to_network_data_on le args =
     fill_buffer (net_bytes le) args 0
       (replicate (calculate_total_size (map spec_of args)) 0)"

definition vector_append_to_net_on :: "bool \<Rightarrow> data \<Rightarrow> net_field list \<Rightarrow> data" where
  "vector_append_to_net_on le vec args =
     fill_buffer (net_bytes le) args (length vec)
       (vec @ replicate (calculate_total_size (map spec_of args)) 0)"

definition vector_append_to_le_on :: "bool \<Rightarrow> data \<Rightarrow> net_field list \<Rightarrow> data" where
  "vector_append_to_le_on le vec args =
     fill_buffer (le_field_bytes le) args (length vec)
       (vec @ replicate (calculate_total_size (map spec_of args)) 0)"

text \<open>\<open>array_add_padding<padding>\<close>: a zeroed larger array with the source copied in front.\<close>

definition array_add_padding :: "nat \<Rightarrow> data \<Rightarrow> data" where
  "array_add_padding padding arr = memcpy_at 0 arr (replicate (length arr + padding) 0)"

section \<open>Serialisation is concatenation of big-endian (little-endian) fields\<close>

fun be_field :: "net_field \<Rightarrow> data" where
  "be_field (F8 x) = [x]"
| "be_field (F16 x) = be_bytes x"
| "be_field (F32 x) = be_bytes x"
| "be_field (FArr bs) = bs"

fun le_field :: "net_field \<Rightarrow> data" where
  "le_field (F8 x) = [x]"
| "le_field (F16 x) = le_bytes x"
| "le_field (F32 x) = le_bytes x"
| "le_field (FArr bs) = bs"

lemma le_bytes_u8 [simp]: "le_bytes (x :: u8) = [x]"
  by (simp add: le_bytes_def)

lemma net_bytes_be: "net_bytes le = be_field"
proof
  show "net_bytes le f = be_field f" for f
    by (cases f) (simp_all add: mem_bytes_hton, simp add: be_bytes_def)
qed

lemma le_field_bytes_le: "le_field_bytes le = le_field"
proof
  show "le_field_bytes le f = le_field f" for f
    by (cases f) (simp_all add: mem_bytes_htole)
qed

lemma length_be_field [simp]: "length (be_field f) = spec_size (spec_of f)"
  by (cases f) simp_all

lemma length_le_field [simp]: "length (le_field f) = spec_size (spec_of f)"
  by (cases f) simp_all

lemma calculate_total_size_simps [simp]:
  "calculate_total_size [] = 0"
  "calculate_total_size (s # ss) = spec_size s + calculate_total_size ss"
  by (simp_all add: calculate_total_size_def)

lemma fill_buffer_concat:
  assumes "\<And>a. length (enc a) = spec_size (spec_of a)"
    and "off + calculate_total_size (map spec_of args) = length buf"
  shows "fill_buffer enc args off buf = take off buf @ concat (map enc args)"
  using assms(2)
proof (induction args arbitrary: off buf)
  case Nil
  then show ?case by simp
next
  case (Cons a args)
  have fits: "off + length (enc a) \<le> length buf" using Cons.prems assms(1) by simp
  then have "off + length (enc a) + calculate_total_size (map spec_of args)
      = length (memcpy_at off (enc a) buf)"
    using Cons.prems assms(1) by simp
  with Cons.IH fits show ?case by (simp add: take_memcpy_at)
qed

lemma to_network_data_on_eq: "to_network_data_on le args = concat (map be_field args)"
proof -
  have "fill_buffer (net_bytes le) args 0 (replicate n 0) = concat (map (net_bytes le) args)"
    if "n = calculate_total_size (map spec_of args)" for n
    using that by (subst fill_buffer_concat) (simp_all add: net_bytes_be)
  then show ?thesis by (simp add: to_network_data_on_def net_bytes_be)
qed

lemma to_network_array_on_eq: "to_network_array_on le args = concat (map be_field args)"
  using to_network_data_on_eq by (simp add: to_network_data_on_def to_network_array_on_def)

lemma vector_append_to_net_on_eq:
  "vector_append_to_net_on le vec args = vec @ concat (map be_field args)"
  unfolding vector_append_to_net_on_def
  by (subst fill_buffer_concat) (simp_all add: net_bytes_be)

lemma vector_append_to_le_on_eq:
  "vector_append_to_le_on le vec args = vec @ concat (map le_field args)"
  unfolding vector_append_to_le_on_def
  by (subst fill_buffer_concat) (simp_all add: le_field_bytes_le)

lemma array_add_padding_eq [simp]: "array_add_padding p arr = arr @ replicate p 0"
  by (simp add: array_add_padding_def memcpy_at_def)

text \<open>
  The host order is irrelevant by the equations above, so the structures of the protocol use
  the serialisers of a little-endian host.
\<close>

definition to_network_data :: "net_field list \<Rightarrow> data" where
  "to_network_data = to_network_data_on True"

definition to_network_array :: "net_field list \<Rightarrow> data" where
  "to_network_array = to_network_array_on True"

definition vector_append_to_net :: "data \<Rightarrow> net_field list \<Rightarrow> data" where
  "vector_append_to_net = vector_append_to_net_on True"

definition vector_append_to_le :: "data \<Rightarrow> net_field list \<Rightarrow> data" where
  "vector_append_to_le = vector_append_to_le_on True"

lemma to_network_data_eq [simp]: "to_network_data args = concat (map be_field args)"
  by (simp add: to_network_data_def to_network_data_on_eq)

lemma to_network_array_eq [simp]: "to_network_array args = concat (map be_field args)"
  by (simp add: to_network_array_def to_network_array_on_eq)

lemma vector_append_to_net_eq [simp]:
  "vector_append_to_net vec args = vec @ concat (map be_field args)"
  by (simp add: vector_append_to_net_def vector_append_to_net_on_eq)

lemma vector_append_to_le_eq [simp]:
  "vector_append_to_le vec args = vec @ concat (map le_field args)"
  by (simp add: vector_append_to_le_def vector_append_to_le_on_eq)

section \<open>Readers\<close>

text \<open>The field a reader takes from its buffer: the integer copied from the bytes and
  swapped by \<open>ntoh\<close>, or the array.\<close>

fun field_at :: "bool \<Rightarrow> net_spec \<Rightarrow> nat \<Rightarrow> data \<Rightarrow> net_field" where
  "field_at le R8 off buf = F8 (ntoh le (word_of_mem le (take 1 (drop off buf))))"
| "field_at le R16 off buf = F16 (ntoh le (word_of_mem le (take 2 (drop off buf))))"
| "field_at le R32 off buf = F32 (ntoh le (word_of_mem le (take 4 (drop off buf))))"
| "field_at le (RArr n) off buf = FArr (take n (drop off buf))"

fun unpack_fields :: "bool \<Rightarrow> net_spec list \<Rightarrow> nat \<Rightarrow> data \<Rightarrow> net_field list" where
  "unpack_fields le [] off buf = []"
| "unpack_fields le (r # rs) off buf =
     field_at le r off buf # unpack_fields le rs (off + spec_size r) buf"

text \<open>\<open>unsigned_integral_and_array_read_from_socket<padding>\<close> (and, with no arrays and no
  padding, \<open>unsigned_integral_read_from_socket\<close>): one blocking read of everything, then
  the fields in order; the padding bytes are read and dropped.\<close>

definition read_all_fields_on :: "bool \<Rightarrow> nat \<Rightarrow> net_spec list \<Rightarrow> net_field list reader" where
  "read_all_fields_on le padding specs =
     rd_bind (asio_read (calculate_total_size specs + padding))
       (\<lambda>buf. rd_return (unpack_fields le specs 0 buf))"

text \<open>\<open>data_read_from_socket\<close>: one blocking read per argument.\<close>

fun data_read_from_socket_on :: "bool \<Rightarrow> net_spec list \<Rightarrow> net_field list reader" where
  "data_read_from_socket_on le [] = rd_return []"
| "data_read_from_socket_on le (r # rs) =
     rd_bind (asio_read (spec_size r)) (\<lambda>buf.
     rd_bind (data_read_from_socket_on le rs) (\<lambda>fs.
     rd_return (field_at le r 0 buf # fs)))"

definition unsigned_integral_and_array_read_from_socket ::
    "nat \<Rightarrow> net_spec list \<Rightarrow> net_field list reader" where
  "unsigned_integral_and_array_read_from_socket = read_all_fields_on True"

definition data_read_from_socket :: "net_spec list \<Rightarrow> net_field list reader" where
  "data_read_from_socket = data_read_from_socket_on True"

definition read_u8 :: "u8 reader" where
  "read_u8 = rd_bind (asio_read 1) (\<lambda>b. rd_return (ntoh True (word_of_mem True b)))"

definition read_u16 :: "u16 reader" where
  "read_u16 = rd_bind (asio_read 2) (\<lambda>b. rd_return (ntoh True (word_of_mem True b)))"

definition read_u32 :: "u32 reader" where
  "read_u32 = rd_bind (asio_read 4) (\<lambda>b. rd_return (ntoh True (word_of_mem True b)))"

text \<open>The out-parameters of a reader, by position.\<close>

fun as8 :: "net_field \<Rightarrow> u8" where
  "as8 (F8 x) = x"
| "as8 _ = 0"

fun as16 :: "net_field \<Rightarrow> u16" where
  "as16 (F16 x) = x"
| "as16 _ = 0"

fun as32 :: "net_field \<Rightarrow> u32" where
  "as32 (F32 x) = x"
| "as32 _ = 0"

fun as_arr :: "net_field \<Rightarrow> data" where
  "as_arr (FArr x) = x"
| "as_arr _ = []"

text \<open>Reading back what was written.\<close>

lemma asio_read_append:
  "length bs = n \<Longrightarrow> rx s = bs @ rest \<Longrightarrow> asio_read n s = Inr (bs, s\<lparr>rx := rest\<rparr>)"
  by (simp add: asio_read_def)

lemma ntoh_be_bytes:
  assumes "8 dvd LENGTH('a::len)"
  shows "ntoh le (word_of_mem le (be_bytes (w :: 'a word))) = w"
  using assms by (simp add: ntoh_word_of_mem be_bytes_def)

lemma field_at_be_field:
  assumes "drop off buf = be_field f @ rest"
  shows "field_at le (spec_of f) off buf = f"
proof (cases f)
  case (F8 x)
  have "be_bytes x = [x]" by (simp add: be_bytes_def)
  with F8 assms ntoh_be_bytes[of le x] show ?thesis by simp
qed (use assms in \<open>simp_all add: ntoh_be_bytes\<close>)

lemma unpack_fields_concat:
  assumes "drop off buf = concat (map be_field fs) @ rest"
  shows "unpack_fields le (map spec_of fs) off buf = fs"
  using assms
proof (induction fs arbitrary: off)
  case (Cons f fs)
  have head: "field_at le (spec_of f) off buf = f"
    using Cons.prems by (intro field_at_be_field) simp
  have "drop (off + spec_size (spec_of f)) buf
      = drop (spec_size (spec_of f)) (drop off buf)" by (simp add: add.commute)
  also have "\<dots> = concat (map be_field fs) @ rest" using Cons.prems by simp
  finally show ?case using Cons.IH head by simp
qed simp

lemma length_concat_be_field:
  "length (concat (map be_field fs)) = calculate_total_size (map spec_of fs)"
  by (induction fs) simp_all

lemma read_all_fields_on_roundtrip:
  assumes "specs = map spec_of fs" and "length pad = padding"
    and "rx s = concat (map be_field fs) @ pad @ rest"
  shows "read_all_fields_on le padding specs s = Inr (fs, s\<lparr>rx := rest\<rparr>)"
proof -
  let ?buf = "concat (map be_field fs) @ pad"
  have "asio_read (calculate_total_size specs + padding) s = Inr (?buf, s\<lparr>rx := rest\<rparr>)"
    using assms by (intro asio_read_append) (simp_all add: length_concat_be_field)
  moreover have "unpack_fields le specs 0 ?buf = fs"
    using unpack_fields_concat[of 0 ?buf fs pad le] assms(1) by simp
  ultimately show ?thesis
    by (simp add: read_all_fields_on_def reader_defs)
qed

lemma data_read_from_socket_on_roundtrip:
  assumes "rx s = concat (map be_field fs) @ rest"
  shows "data_read_from_socket_on le (map spec_of fs) s = Inr (fs, s\<lparr>rx := rest\<rparr>)"
  using assms
proof (induction fs arbitrary: s)
  case Nil
  then have "s\<lparr>rx := rest\<rparr> = s" by simp
  then show ?case by (simp add: reader_defs)
next
  case (Cons f fs)
  let ?s1 = "s\<lparr>rx := concat (map be_field fs) @ rest\<rparr>"
  have "asio_read (spec_size (spec_of f)) s = Inr (be_field f, ?s1)"
    using Cons.prems by (intro asio_read_append) simp_all
  moreover have "field_at le (spec_of f) 0 (be_field f) = f"
    by (rule field_at_be_field[where rest = "[]"]) simp
  ultimately show ?case using Cons.IH[of ?s1] by (simp add: reader_defs)
qed

lemma read_u8_roundtrip: "rx s = x # rest \<Longrightarrow> read_u8 s = Inr (x, s\<lparr>rx := rest\<rparr>)"
  using field_at_be_field[of 0 "[x]" "F8 x" "[]" True]
  by (simp add: read_u8_def reader_defs asio_read_append[where bs = "[x]"])

lemma read_u16_roundtrip: "rx s = be_bytes x @ rest \<Longrightarrow> read_u16 s = Inr (x, s\<lparr>rx := rest\<rparr>)"
  using asio_read_append[of "be_bytes x" 2 s rest]
  by (simp add: read_u16_def reader_defs ntoh_be_bytes)

lemma read_u32_roundtrip: "rx s = be_bytes x @ rest \<Longrightarrow> read_u32 s = Inr (x, s\<lparr>rx := rest\<rparr>)"
  using asio_read_append[of "be_bytes x" 4 s rest]
  by (simp add: read_u32_def reader_defs ntoh_be_bytes)

section \<open>The interface of a serialisable structure\<close>

text \<open>
  The concept \<open>Serializable\<close>: a structure has \<open>to_bytes\<close> and
  \<open>from_socket\<close>. The law every pair keeps is that reading consumes exactly the bytes
  written and gives the structure back, for the values \<open>wf\<close> describes; \<open>view\<close> is
  what of the structure the wire carries.
\<close>

fun read_many :: "nat \<Rightarrow> 'a reader \<Rightarrow> 'a list reader" where
  "read_many 0 rd = rd_return []"
| "read_many (Suc n) rd =
     rd_bind rd (\<lambda>x. rd_bind (read_many n rd) (\<lambda>xs. rd_return (x # xs)))"

locale byte_codec =
  fixes to_bytes :: "'a \<Rightarrow> data"
    and from_socket :: "'a reader"
    and wf :: "'a \<Rightarrow> bool"
    and view :: "'a \<Rightarrow> 'a"
  assumes read_back:
    "wf x \<Longrightarrow> rx s = to_bytes x @ rest \<Longrightarrow> from_socket s = Inr (view x, s\<lparr>rx := rest\<rparr>)"
begin

lemma read_many_back:
  assumes "\<forall>x \<in> set xs. wf x" and "rx s = concat (map to_bytes xs) @ rest"
  shows "read_many (length xs) from_socket s = Inr (map view xs, s\<lparr>rx := rest\<rparr>)"
  using assms
proof (induction xs arbitrary: s)
  case Nil
  then have "s\<lparr>rx := rest\<rparr> = s" by simp
  then show ?case by (simp add: reader_defs)
next
  case (Cons x xs)
  let ?s1 = "s\<lparr>rx := concat (map to_bytes xs) @ rest\<rparr>"
  have "from_socket s = Inr (view x, ?s1)" using Cons.prems by (intro read_back) simp_all
  with Cons show ?case by (simp add: reader_defs)
qed

end

locale fixed_byte_codec = byte_codec +
  fixes wire_size :: nat
  assumes size_to_bytes: "length (to_bytes x) = wire_size"
begin

lemma length_concat_to_bytes: "length (concat (map to_bytes xs)) = wire_size * length xs"
  by (induction xs) (simp_all add: size_to_bytes)

end

section \<open>Properties\<close>

text \<open>C40: Whatever the byte order of the host, the variadic serialisers produce the fields one
  after the other in network order, \<open>vector_append_to_net\<close> behind what the vector held
  before, and \<open>vector_append_to_le\<close> in little-endian order.\<close>

theorem serialisers_host_independent:
  "to_network_data_on le args = concat (map be_field args) \<and>
   to_network_array_on le args = concat (map be_field args) \<and>
   vector_append_to_net_on le vec args = vec @ concat (map be_field args) \<and>
   vector_append_to_le_on le vec args = vec @ concat (map le_field args)"
  by (simp add: to_network_data_on_eq to_network_array_on_eq vector_append_to_net_on_eq
      vector_append_to_le_on_eq)

text \<open>Reading back with the field types of what a host of any byte order wrote gives the same
  fields on a host of any byte order, consumes exactly those bytes and the padding, and
  leaves the rest of the stream in place, for the one-read and for the
  read-per-field routine.\<close>

theorem fields_roundtrip:
  assumes "rx s = to_network_data_on le fs @ pad @ rest"
  shows "read_all_fields_on le' (length pad) (map spec_of fs) s = Inr (fs, s\<lparr>rx := rest\<rparr>) \<and>
    data_read_from_socket_on le' (map spec_of fs) s = Inr (fs, s\<lparr>rx := pad @ rest\<rparr>)"
  using assms
  by (auto intro!: read_all_fields_on_roundtrip[where pad = pad] data_read_from_socket_on_roundtrip
      simp: to_network_data_on_eq)

theorem fields_roundtrip_witness:
  "read_all_fields_on False 1 [R8, R32, RArr 2]
     \<lparr>rx = to_network_data_on True [F8 7, F32 0xDEADBEEF, FArr [1, 2]] @ [0] @ [9], rx_end = Asio_eof\<rparr>
   = Inr ([F8 7, F32 0xDEADBEEF, FArr [1, 2]], \<lparr>rx = [9], rx_end = Asio_eof\<rparr>)"
  using fields_roundtrip[of "\<lparr>rx = to_network_data_on True [F8 7, F32 0xDEADBEEF, FArr [1, 2]]
      @ [0] @ [9], rx_end = Asio_eof\<rparr>" True "[F8 7, F32 0xDEADBEEF, FArr [1, 2]]" "[0]" "[9]" False]
  by (simp add: numeral_2_eq_2)

end
