(* ===== verification/Setup_Packet.thy ===== *)
theory Setup_Packet
  imports Network
begin

text \<open>
  The enumerations of \<open>include/usbipdcpp/constant.h\<close> and the eight-byte control setup
  packet of \<open>include/usbipdcpp/SetupPacket.h\<close>. An enumeration is a datatype with the
  source's enumerators; the code of an enumerator is the integer the source gives it, and
  casting an integer that has no enumerator falls into the \<open>default\<close> branch of every
  switch, which the decoding functions show as \<open>None\<close>.
\<close>

section \<open>Enumerations\<close>

datatype UsbSpeed =
  Speed_Unknown | Speed_Low | Speed_Full | Speed_High | Speed_Wireless | Speed_Super
| Speed_SuperPlus

fun speed_code :: "UsbSpeed \<Rightarrow> u32" where
  "speed_code Speed_Unknown = 0"
| "speed_code Speed_Low = 1"
| "speed_code Speed_Full = 2"
| "speed_code Speed_High = 3"
| "speed_code Speed_Wireless = 4"
| "speed_code Speed_Super = 5"
| "speed_code Speed_SuperPlus = 6"

definition speed_of :: "u32 \<Rightarrow> UsbSpeed option" where
  "speed_of c =
     (if c = 0 then Some Speed_Unknown else if c = 1 then Some Speed_Low
      else if c = 2 then Some Speed_Full else if c = 3 then Some Speed_High
      else if c = 4 then Some Speed_Wireless else if c = 5 then Some Speed_Super
      else if c = 6 then Some Speed_SuperPlus else None)"

datatype EndpointAttributes = EA_Control | EA_Isochronous | EA_Bulk | EA_Interrupt

fun ep_attr_code :: "EndpointAttributes \<Rightarrow> u8" where
  "ep_attr_code EA_Control = 0"
| "ep_attr_code EA_Isochronous = 1"
| "ep_attr_code EA_Bulk = 2"
| "ep_attr_code EA_Interrupt = 3"

datatype StandardRequest =
  GetStatus | ClearFeature | SetFeature | SetAddress | GetDescriptor | SetDescriptor
| GetConfiguration | SetConfiguration | GetInterface | SetInterface | SynchFrame

fun standard_request_code :: "StandardRequest \<Rightarrow> u8" where
  "standard_request_code GetStatus = 0"
| "standard_request_code ClearFeature = 1"
| "standard_request_code SetFeature = 3"
| "standard_request_code SetAddress = 5"
| "standard_request_code GetDescriptor = 6"
| "standard_request_code SetDescriptor = 7"
| "standard_request_code GetConfiguration = 8"
| "standard_request_code SetConfiguration = 9"
| "standard_request_code GetInterface = 10"
| "standard_request_code SetInterface = 11"
| "standard_request_code SynchFrame = 12"

definition standard_request_of :: "u8 \<Rightarrow> StandardRequest option" where
  "standard_request_of c =
     (if c = 0 then Some GetStatus else if c = 1 then Some ClearFeature
      else if c = 3 then Some SetFeature else if c = 5 then Some SetAddress
      else if c = 6 then Some GetDescriptor else if c = 7 then Some SetDescriptor
      else if c = 8 then Some GetConfiguration else if c = 9 then Some SetConfiguration
      else if c = 10 then Some GetInterface else if c = 11 then Some SetInterface
      else if c = 12 then Some SynchFrame else None)"

datatype RequestRecipient = RR_Device | RR_Interface | RR_Endpoint | RR_Other

fun recipient_code :: "RequestRecipient \<Rightarrow> u8" where
  "recipient_code RR_Device = 0"
| "recipient_code RR_Interface = 1"
| "recipient_code RR_Endpoint = 2"
| "recipient_code RR_Other = 3"

definition recipient_of :: "u8 \<Rightarrow> RequestRecipient option" where
  "recipient_of c =
     (if c = 0 then Some RR_Device else if c = 1 then Some RR_Interface
      else if c = 2 then Some RR_Endpoint else if c = 3 then Some RR_Other else None)"

datatype DescriptorType =
  DT_Device | DT_Configuration | DT_String | DT_Interface | DT_Endpoint
| DT_DeviceQualifier | DT_OtherSpeedConfiguration | DT_InterfacePower | DT_OTG | DT_Debug
| DT_InterfaceAssociation | DT_BOS

fun descriptor_type_code :: "DescriptorType \<Rightarrow> u8" where
  "descriptor_type_code DT_Device = 1"
| "descriptor_type_code DT_Configuration = 2"
| "descriptor_type_code DT_String = 3"
| "descriptor_type_code DT_Interface = 4"
| "descriptor_type_code DT_Endpoint = 5"
| "descriptor_type_code DT_DeviceQualifier = 6"
| "descriptor_type_code DT_OtherSpeedConfiguration = 7"
| "descriptor_type_code DT_InterfacePower = 8"
| "descriptor_type_code DT_OTG = 9"
| "descriptor_type_code DT_Debug = 10"
| "descriptor_type_code DT_InterfaceAssociation = 11"
| "descriptor_type_code DT_BOS = 15"

text \<open>\<open>RequestType\<close> (bits 5 and 6 of \<open>bmRequestType\<close>) and \<open>PortFeat::Reset\<close>.\<close>

definition RequestType_Standard :: u8 where "RequestType_Standard = 0x00"
definition RequestType_Class :: u8 where "RequestType_Class = 0x20"
definition PortFeat_Reset :: u8 where "PortFeat_Reset = 4"

lemma standard_request_of_code [simp]: "standard_request_of (standard_request_code r) = Some r"
  by (cases r) (simp_all add: standard_request_of_def)

lemma recipient_of_code [simp]: "recipient_of (recipient_code r) = Some r"
  by (cases r) (simp_all add: recipient_of_def)

lemma speed_of_code [simp]: "speed_of (speed_code v) = Some v"
  by (cases v) (simp_all add: speed_of_def)

section \<open>The setup packet\<close>

record SetupPacket =
  sp_request_type :: u8
  sp_request :: u8
  sp_value :: u16
  sp_index :: u16
  sp_length :: u16

definition setup_to_bytes :: "SetupPacket \<Rightarrow> data" where
  "setup_to_bytes p =
     [sp_request_type p, sp_request p,
      ucast (sp_value p AND 0xFF), ucast (drop_bit 8 (sp_value p)),
      ucast (sp_index p AND 0xFF), ucast (drop_bit 8 (sp_index p)),
      ucast (sp_length p AND 0xFF), ucast (drop_bit 8 (sp_length p))]"

definition setup_parse :: "data \<Rightarrow> SetupPacket" where
  "setup_parse b =
     \<lparr>sp_request_type = b ! 0,
      sp_request = b ! 1,
      sp_value = push_bit 8 (ucast (b ! 3)) OR ucast (b ! 2),
      sp_index = push_bit 8 (ucast (b ! 5)) OR ucast (b ! 4),
      sp_length = push_bit 8 (ucast (b ! 7)) OR ucast (b ! 6)\<rparr>"

definition setup_from_socket :: "SetupPacket reader" where
  "setup_from_socket =
     rd_bind (data_read_from_socket [RArr 8]) (\<lambda>fs.
       case fs of [FArr b] \<Rightarrow> rd_return (setup_parse b) | _ \<Rightarrow> rd_throw Asio_failed)"

definition USB_ENDPOINT_HALT :: u8 where "USB_ENDPOINT_HALT = 0"
definition USB_TYPE_MASK :: u8 where "USB_TYPE_MASK = 0x60"
definition USB_RECIP_MASK :: u8 where "USB_RECIP_MASK = 0x1F"

definition calc_request_type :: "SetupPacket \<Rightarrow> u8" where
  "calc_request_type p = sp_request_type p AND USB_TYPE_MASK"

definition calc_standard_request :: "SetupPacket \<Rightarrow> u8" where
  "calc_standard_request p = sp_request p"

definition calc_recipient :: "SetupPacket \<Rightarrow> u8" where
  "calc_recipient p = sp_request_type p AND USB_RECIP_MASK"

definition is_clear_halt_cmd :: "SetupPacket \<Rightarrow> bool" where
  "is_clear_halt_cmd p \<longleftrightarrow>
     sp_request p = standard_request_code ClearFeature \<and>
     sp_request_type p = recipient_code RR_Endpoint \<and>
     sp_value p = ucast USB_ENDPOINT_HALT"

definition is_set_interface_cmd :: "SetupPacket \<Rightarrow> bool" where
  "is_set_interface_cmd p \<longleftrightarrow>
     sp_request p = standard_request_code SetInterface \<and>
     sp_request_type p = recipient_code RR_Interface"

definition is_set_configuration_cmd :: "SetupPacket \<Rightarrow> bool" where
  "is_set_configuration_cmd p \<longleftrightarrow>
     sp_request p = standard_request_code SetConfiguration \<and>
     sp_request_type p = recipient_code RR_Device"

definition setup_is_out :: "SetupPacket \<Rightarrow> bool" where
  "setup_is_out p \<longleftrightarrow> (sp_request_type p AND 0x80) = 0 \<or> sp_length p = 0"

definition setup_is_in :: "SetupPacket \<Rightarrow> bool" where
  "setup_is_in p \<longleftrightarrow> \<not> setup_is_out p"

definition calc_ep0_address :: "SetupPacket \<Rightarrow> u8" where
  "calc_ep0_address p = (if setup_is_out p then 0x00 else 0x80)"

definition is_reset_device_cmd :: "SetupPacket \<Rightarrow> bool" where
  "is_reset_device_cmd p \<longleftrightarrow>
     sp_request p = standard_request_code SetFeature \<and>
     sp_request_type p = (RequestType_Class OR recipient_code RR_Other) \<and>
     sp_value p = ucast PortFeat_Reset"

subsection \<open>Encoding and decoding\<close>

lemma u16_from_halves:
  "push_bit 8 (ucast (ucast (drop_bit 8 v) :: u8)) OR ucast (ucast (v AND 0xFF) :: u8) = (v :: u16)"
proof (rule bit_word_eqI)
  fix n assume "n < LENGTH(16)"
  then have "n < 16" by simp
  moreover have "bit (0xFF :: u16) n \<longleftrightarrow> n < 8"
    using bit_mask_iff[where 'a = "16 word", of 8 n] \<open>n < 16\<close> by (simp add: mask_eq_exp_minus_1)
  ultimately show "bit (push_bit 8 (ucast (ucast (drop_bit 8 v) :: u8))
      OR ucast (ucast (v AND 0xFF) :: u8) :: u16) n = bit v n"
    by (auto simp: bit_or_iff bit_and_iff bit_push_bit_iff bit_ucast_iff bit_drop_bit_eq)
qed

lemma u8_halves_of_u16:
  "ucast ((push_bit 8 (ucast h) OR ucast l :: u16) AND 0xFF) = (l :: u8)"
  "ucast (drop_bit 8 (push_bit 8 (ucast h) OR ucast l :: u16)) = (h :: u8)"
proof -
  have m: "bit (0xFF :: int) n \<longleftrightarrow> n < 8" for n
    using bit_mask_iff[where 'a = int, of 8 n] by (simp add: mask_eq_exp_minus_1)
  show "ucast ((push_bit 8 (ucast h) OR ucast l :: u16) AND 0xFF) = l"
    by (rule bit_word_eqI)
       (auto simp: bit_or_iff bit_and_iff bit_push_bit_iff bit_ucast_iff m)
  show "ucast (drop_bit 8 (push_bit 8 (ucast h) OR ucast l :: u16)) = h"
    by (rule bit_word_eqI)
       (auto simp: bit_or_iff bit_push_bit_iff bit_ucast_iff bit_drop_bit_eq
         dest: bit_imp_le_length)
qed

lemma setup_parse_to_bytes [simp]: "setup_parse (setup_to_bytes p) = p"
  by (simp add: setup_parse_def setup_to_bytes_def u16_from_halves nth_Cons')

lemma length_setup_to_bytes [simp]: "length (setup_to_bytes p) = 8"
  by (simp add: setup_to_bytes_def)

lemma list_8_conv:
  "length b = 8 \<Longrightarrow> b = [b ! 0, b ! 1, b ! 2, b ! 3, b ! 4, b ! 5, b ! 6, b ! 7]"
  by (auto simp: list_eq_iff_nth_eq nth_Cons' less_Suc_eq numeral_eq_Suc)

lemma setup_to_bytes_parse: "length b = 8 \<Longrightarrow> setup_to_bytes (setup_parse b) = b"
  by (subst list_8_conv) (simp_all add: setup_to_bytes_def setup_parse_def u8_halves_of_u16
        del: drop_bit_or)

subsection \<open>Properties\<close>

text \<open>Encoding a setup packet and parsing the eight bytes gives the packet back, and every eight
  bytes are the encoding of the packet they parse to.\<close>

theorem setup_packet_bijection:
  "setup_parse (setup_to_bytes p) = p \<and> length (setup_to_bytes p) = 8 \<and>
   (\<forall>b. length b = 8 \<longrightarrow> setup_to_bytes (setup_parse b) = b)"
  by (simp add: setup_to_bytes_parse)

theorem setup_packet_bijection_witness:
  "setup_to_bytes (setup_parse [0x80, 6, 0, 1, 0, 0, 18, 0]) = [0x80, 6, 0, 1, 0, 0, 18, 0]"
  using setup_packet_bijection by simp

end
