(* ===== verification/Usb_Device.thy ===== *)
theory Usb_Device
  imports Setup_Packet
begin

text \<open>
  The device model: \<open>Version.h\<close>, \<open>Endpoint.h\<close>, \<open>Interface.h\<close>,
  \<open>Interface.cpp\<close>, \<open>Device.h\<close> and \<open>Device.cpp\<close>. A handler (a
  \<open>shared_ptr\<close> to an object of another component) is an identifier, absent when the
  pointer is null. Strings are byte strings (\<open>std::string\<close> may hold any byte).
  A structure the sources create uninitialised and fill field by field starts out zeroed.
\<close>

section \<open>Version numbers\<close>

record Version =
  v_major :: u8
  v_minor :: u8
  v_patch :: u8

definition version_of_bcd :: "u16 \<Rightarrow> Version" where
  "version_of_bcd bcd =
     \<lparr>v_major = ucast (drop_bit 8 bcd), v_minor = ucast (drop_bit 4 bcd AND 0xF),
      v_patch = ucast (bcd AND 0xF)\<rparr>"

definition version_to_bcd :: "Version \<Rightarrow> u16" where
  "version_to_bcd v =
     push_bit 8 (ucast (v_major v)) OR push_bit 4 (ucast (v_minor v)) OR ucast (v_patch v)"

definition version_ok :: "Version \<Rightarrow> bool" where
  "version_ok v \<longleftrightarrow> v_minor v < 16 \<and> v_patch v < 16"

lemma bit_0xF_int: "bit (0xF :: int) n \<longleftrightarrow> n < 4"
  using bit_mask_iff[where 'a = int, of 4 n] by (simp add: mask_eq_exp_minus_1)

lemma version_to_bcd_of_bcd [simp]: "version_to_bcd (version_of_bcd bcd) = bcd"
proof (rule bit_word_eqI)
  fix n assume "n < LENGTH(16)"
  then have "n < 16" by simp
  consider "n < 4" | "4 \<le> n" "n < 8" | "8 \<le> n" by linarith
  then show "bit (version_to_bcd (version_of_bcd bcd)) n = bit bcd n"
    using \<open>n < 16\<close>
    by cases (auto simp: version_to_bcd_def version_of_bcd_def bit_or_iff bit_and_iff
        bit_push_bit_iff bit_ucast_iff bit_drop_bit_eq bit_0xF_int)
qed

lemma u8_nibble_bit:
  assumes "(x :: u8) < 16" and "bit x n"
  shows "n < 4"
proof -
  have "unat x < 2 ^ 4" using assms(1) by (simp add: word_less_nat_alt)
  then have "take_bit 4 (unat x) = unat x" by (simp add: take_bit_nat_eq_self)
  then have "take_bit 4 x = x" by (metis unsigned_take_bit_eq unsigned_word_eqI)
  with assms(2) show ?thesis by (metis bit_take_bit_iff)
qed

lemma version_of_bcd_to_bcd:
  assumes "version_ok v"
  shows "version_of_bcd (version_to_bcd v) = v"
proof -
  have mi: "bit (v_minor v) n \<Longrightarrow> n < 4" and pa: "bit (v_patch v) n \<Longrightarrow> n < 4" for n
    using assms u8_nibble_bit by (auto simp: version_ok_def)
  have mi': "bit (v_minor v) (n - 4) \<Longrightarrow> n < 8" for n using mi by fastforce
  let ?b = "version_to_bcd v"
  have a: "ucast (drop_bit 8 ?b) = v_major v"
    by (rule bit_word_eqI)
       (auto simp: version_to_bcd_def bit_or_iff bit_push_bit_iff bit_ucast_iff bit_drop_bit_eq
         simp del: drop_bit_or dest: mi pa)
  have b: "ucast (drop_bit 4 ?b AND 0xF) = v_minor v"
    by (rule bit_word_eqI)
       (auto simp: version_to_bcd_def bit_or_iff bit_and_iff bit_push_bit_iff bit_ucast_iff
         bit_drop_bit_eq bit_0xF_int simp del: drop_bit_or dest: mi pa)
  have c: "ucast (?b AND 0xF) = v_patch v"
    by (rule bit_word_eqI)
       (auto simp: version_to_bcd_def bit_or_iff bit_and_iff bit_push_bit_iff bit_ucast_iff
         bit_0xF_int simp del: drop_bit_or dest: mi pa)
  from a b c show ?thesis by (simp add: version_of_bcd_def)
qed

section \<open>Endpoints\<close>

fun max_packet_size_limit :: "UsbSpeed \<Rightarrow> EndpointAttributes \<Rightarrow> u16" where
  "max_packet_size_limit Speed_Low type =
     (if type = EA_Interrupt \<or> type = EA_Control then 8 else 0)"
| "max_packet_size_limit Speed_Full type =
     (case type of EA_Control \<Rightarrow> 64 | EA_Interrupt \<Rightarrow> 64 | EA_Bulk \<Rightarrow> 64 | EA_Isochronous \<Rightarrow> 1023)"
| "max_packet_size_limit Speed_High type =
     (case type of EA_Control \<Rightarrow> 64 | EA_Interrupt \<Rightarrow> 1024 | EA_Bulk \<Rightarrow> 512
      | EA_Isochronous \<Rightarrow> 1024)"
| "max_packet_size_limit Speed_Super type = (case type of EA_Control \<Rightarrow> 512 | _ \<Rightarrow> 1024)"
| "max_packet_size_limit Speed_SuperPlus type = (case type of EA_Control \<Rightarrow> 512 | _ \<Rightarrow> 1024)"
| "max_packet_size_limit _ type = 0"

definition ep0_max_packet_size :: "UsbSpeed \<Rightarrow> u16" where
  "ep0_max_packet_size speed = max_packet_size_limit speed EA_Control"

record UsbEndpoint =
  ep_address :: u8
  ep_attributes :: u8
  ep_max_packet_size :: u16
  ep_interval :: u8

definition default_endpoint :: UsbEndpoint where
  "default_endpoint =
     \<lparr>ep_address = 0, ep_attributes = 0, ep_max_packet_size = 0, ep_interval = 0\<rparr>"

datatype EpDirection = Dir_In | Dir_Out

definition ep_direction :: "UsbEndpoint \<Rightarrow> EpDirection" where
  "ep_direction e = (if ep_address e AND 0x80 \<noteq> 0 then Dir_In else Dir_Out)"

definition ep_is_in :: "UsbEndpoint \<Rightarrow> bool" where
  "ep_is_in e \<longleftrightarrow> ep_direction e = Dir_In"

definition ep_is_ep0 :: "UsbEndpoint \<Rightarrow> bool" where
  "ep_is_ep0 e \<longleftrightarrow> ep_address e AND 0x7F = 0"

definition get_ep0_in :: "u16 \<Rightarrow> UsbEndpoint" where
  "get_ep0_in mps =
     \<lparr>ep_address = 0x80, ep_attributes = ep_attr_code EA_Control, ep_max_packet_size = mps,
      ep_interval = 0\<rparr>"

definition get_ep0_out :: "u16 \<Rightarrow> UsbEndpoint" where
  "get_ep0_out mps =
     \<lparr>ep_address = 0x00, ep_attributes = ep_attr_code EA_Control, ep_max_packet_size = mps,
      ep_interval = 0\<rparr>"

section \<open>Interfaces\<close>

record IadDesc =
  iad_bLength :: u8
  iad_bDescriptorType :: u8
  iad_bFirstInterface :: u8
  iad_bInterfaceCount :: u8
  iad_bFunctionClass :: u8
  iad_bFunctionSubClass :: u8
  iad_bFunctionProtocol :: u8
  iad_iFunction :: u8

definition IadDesc_make :: "u8 \<Rightarrow> u8 \<Rightarrow> u8 \<Rightarrow> u8 \<Rightarrow> u8 \<Rightarrow> IadDesc" where
  "IadDesc_make n cls sub prot ifn =
     \<lparr>iad_bLength = 8, iad_bDescriptorType = descriptor_type_code DT_InterfaceAssociation,
      iad_bFirstInterface = 0, iad_bInterfaceCount = n, iad_bFunctionClass = cls,
      iad_bFunctionSubClass = sub, iad_bFunctionProtocol = prot, iad_iFunction = ifn\<rparr>"

record UsbInterface =
  interface_class :: u8
  interface_subclass :: u8
  interface_protocol :: u8
  interface_number :: u8
  interface_association_descriptor :: "IadDesc option"
  current_altsetting :: u8
  endpoints :: "UsbEndpoint list list"
  if_handler :: "nat option"

definition default_interface :: UsbInterface where
  "default_interface =
     \<lparr>interface_class = 0, interface_subclass = 0, interface_protocol = 0,
      interface_number = 0, interface_association_descriptor = None, current_altsetting = 0,
      endpoints = [], if_handler = None\<rparr>"

definition current_endpoints :: "UsbInterface \<Rightarrow> UsbEndpoint list" where
  "current_endpoints i =
     (if endpoints i = [] then []
      else endpoints i !
        (if unat (current_altsetting i) < length (endpoints i)
         then unat (current_altsetting i) else 0))"

definition interface_to_bytes :: "UsbInterface \<Rightarrow> data" where
  "interface_to_bytes i =
     (replicate 4 0)[0 := interface_class i, 1 := interface_subclass i,
                     2 := interface_protocol i]"

text \<open>\<open>from_socket\<close> overwrites three fields of an existing interface.\<close>

definition interface_from_socket :: "UsbInterface \<Rightarrow> UsbInterface reader" where
  "interface_from_socket i =
     rd_bind read_u8 (\<lambda>c. rd_bind read_u8 (\<lambda>sc. rd_bind read_u8 (\<lambda>p. rd_bind read_u8 (\<lambda>_.
       rd_return (i\<lparr>interface_class := c, interface_subclass := sc, interface_protocol := p\<rparr>)))))"

definition interface_eq :: "UsbInterface \<Rightarrow> UsbInterface \<Rightarrow> bool" where
  "interface_eq a b \<longleftrightarrow>
     interface_class a = interface_class b \<and> interface_subclass a = interface_subclass b \<and>
     interface_protocol a = interface_protocol b"

text \<open>What the four bytes of an interface carry.\<close>

definition interface_wire :: "UsbInterface \<Rightarrow> UsbInterface" where
  "interface_wire i =
     default_interface\<lparr>interface_class := interface_class i,
       interface_subclass := interface_subclass i, interface_protocol := interface_protocol i\<rparr>"

lemma interface_to_bytes_eq:
  "interface_to_bytes i = [interface_class i, interface_subclass i, interface_protocol i, 0]"
  by (simp add: interface_to_bytes_def numeral_eq_Suc)

interpretation interface_codec: fixed_byte_codec
  interface_to_bytes "interface_from_socket default_interface" "\<lambda>_. True" interface_wire 4
proof unfold_locales
  fix x and s :: tcp_in and rest :: data
  assume "rx s = interface_to_bytes x @ rest"
  then show "interface_from_socket default_interface s = Inr (interface_wire x, s\<lparr>rx := rest\<rparr>)"
    by (simp add: interface_to_bytes_eq interface_from_socket_def reader_defs
        read_u8_roundtrip interface_wire_def)
qed (simp add: interface_to_bytes_eq)

lemma interface_eq_wire: "interface_eq (interface_wire i) i"
  by (simp add: interface_eq_def interface_wire_def)

section \<open>Strings in fixed buffers\<close>

definition str_bytes :: "string \<Rightarrow> data" where
  "str_bytes s = map (\<lambda>c. of_nat (of_char c)) s"

definition bytes_str :: "data \<Rightarrow> string" where
  "bytes_str b = map (\<lambda>x. char_of (unat x)) b"

text \<open>A zeroed array of \<open>n\<close> bytes into which at most \<open>n - 1\<close> bytes are copied.\<close>

definition string_buffer :: "nat \<Rightarrow> string \<Rightarrow> data" where
  "string_buffer n s = memcpy_at 0 (take (min (length s) (n - 1)) (str_bytes s)) (replicate n 0)"

definition strnlen :: "data \<Rightarrow> nat \<Rightarrow> nat" where
  "strnlen b n = length (takeWhile (\<lambda>x. x \<noteq> 0) (take n b))"

definition buffer_string :: "data \<Rightarrow> string" where
  "buffer_string b = bytes_str (take (strnlen b (length b)) b)"

definition c_string_fits :: "nat \<Rightarrow> string \<Rightarrow> bool" where
  "c_string_fits n s \<longleftrightarrow> length s < n \<and> CHR 0x00 \<notin> set s"

lemma length_str_bytes [simp]: "length (str_bytes s) = length s"
  by (simp add: str_bytes_def)

lemma bytes_str_str_bytes [simp]: "bytes_str (str_bytes s) = s"
  by (simp add: bytes_str_def str_bytes_def unat_of_nat o_def)

lemma length_string_buffer [simp]: "0 < n \<Longrightarrow> length (string_buffer n s) = n"
  by (simp add: string_buffer_def)

lemma string_buffer_eq:
  "length s < n \<Longrightarrow> string_buffer n s = str_bytes s @ replicate (n - length s) 0"
  by (simp add: string_buffer_def memcpy_at_def)

lemma char_byte_zero: "(of_nat (of_char c) :: u8) = 0 \<longleftrightarrow> c = CHR 0x00"
proof
  assume "(of_nat (of_char c) :: u8) = 0"
  then have "unat (of_nat (of_char c) :: u8) = 0" by simp
  then have "(of_char c :: nat) = 0" by (simp add: unat_of_nat)
  also have "\<dots> = of_char (CHR 0x00)" by simp
  finally show "c = CHR 0x00" by (simp only: of_char_eq_iff)
qed simp

lemma buffer_string_string_buffer:
  assumes "c_string_fits n s"
  shows "buffer_string (string_buffer n s) = s"
proof -
  have nz: "\<forall>x \<in> set (str_bytes s). x \<noteq> 0"
    using assms by (auto simp: str_bytes_def c_string_fits_def char_byte_zero)
  have "takeWhile (\<lambda>x. x \<noteq> 0) (replicate m (0 :: u8)) = []" for m by (cases m) simp_all
  then have "takeWhile (\<lambda>x. x \<noteq> 0) (str_bytes s @ replicate (n - length s) 0) = str_bytes s"
    using nz by (subst takeWhile_append2) simp_all
  then show ?thesis
    using assms by (simp add: buffer_string_def strnlen_def string_buffer_eq c_string_fits_def)
qed

section \<open>Devices\<close>

record UsbDevice =
  ud_path :: string
  ud_busid :: string
  ud_bus_num :: u32
  ud_dev_num :: u32
  ud_speed :: u32
  ud_vendor_id :: u16
  ud_product_id :: u16
  ud_device_bcd :: Version
  ud_device_class :: u8
  ud_device_subclass :: u8
  ud_device_protocol :: u8
  ud_configuration_value :: u8
  ud_num_configurations :: u8
  ud_interfaces :: "UsbInterface list"
  ud_ep0_in :: UsbEndpoint
  ud_ep0_out :: UsbEndpoint
  ud_handler :: "nat option"

definition default_device :: UsbDevice where
  "default_device =
     \<lparr>ud_path = [], ud_busid = [], ud_bus_num = 0, ud_dev_num = 0, ud_speed = 0,
      ud_vendor_id = 0, ud_product_id = 0,
      ud_device_bcd = \<lparr>v_major = 0, v_minor = 0, v_patch = 0\<rparr>,
      ud_device_class = 0, ud_device_subclass = 0, ud_device_protocol = 0,
      ud_configuration_value = 0, ud_num_configurations = 0, ud_interfaces = [],
      ud_ep0_in = default_endpoint, ud_ep0_out = default_endpoint, ud_handler = None\<rparr>"

definition assign_interface_numbers :: "UsbDevice \<Rightarrow> UsbDevice" where
  "assign_interface_numbers d =
     d\<lparr>ud_interfaces := map (\<lambda>(i, intf). intf\<lparr>interface_number := of_nat i\<rparr>)
         (List.enumerate 0 (ud_interfaces d))\<rparr>"

text \<open>\<open>find_interfaces_by_number<N>\<close>: a pointer to an interface is its index.\<close>

definition find_interfaces_by_number :: "nat \<Rightarrow> u8 \<Rightarrow> UsbDevice \<Rightarrow> nat option list" where
  "find_interfaces_by_number N first d =
     fold (\<lambda>(i, intf) result.
            let num = interface_number intf in
            if num \<ge> first \<and> unat num - unat first < N
            then result[unat num - unat first := Some i] else result)
       (List.enumerate 0 (ud_interfaces d)) (replicate N None)"

definition UsbDevice_make ::
    "string \<Rightarrow> u16 \<Rightarrow> u16 \<Rightarrow> UsbInterface list \<Rightarrow> u32 \<Rightarrow> u32 \<Rightarrow> u8 \<Rightarrow> string \<Rightarrow> UsbSpeed \<Rightarrow>
     Version \<Rightarrow> u8 \<Rightarrow> u8 \<Rightarrow> u8 \<Rightarrow> u8 \<Rightarrow> UsbDevice" where
  "UsbDevice_make busid vid pid intfs bus_num dev_num cls path speed bcd sub prot conf nconf =
     \<lparr>ud_path = (if path = [] then ''/usbipdcpp/'' @ busid else path), ud_busid = busid,
      ud_bus_num = bus_num, ud_dev_num = dev_num, ud_speed = speed_code speed,
      ud_vendor_id = vid, ud_product_id = pid, ud_device_bcd = bcd, ud_device_class = cls,
      ud_device_subclass = sub, ud_device_protocol = prot, ud_configuration_value = conf,
      ud_num_configurations = nconf, ud_interfaces = intfs,
      ud_ep0_in = get_ep0_in (ep0_max_packet_size speed),
      ud_ep0_out = get_ep0_out (ep0_max_packet_size speed), ud_handler = None\<rparr>"

definition device_fields :: "UsbDevice \<Rightarrow> net_field list" where
  "device_fields d =
     [FArr (string_buffer 256 (ud_path d)), FArr (string_buffer 32 (ud_busid d)),
      F32 (ud_bus_num d), F32 (ud_dev_num d), F32 (ud_speed d),
      F16 (ud_vendor_id d), F16 (ud_product_id d), F16 (version_to_bcd (ud_device_bcd d)),
      F8 (ud_device_class d), F8 (ud_device_subclass d), F8 (ud_device_protocol d),
      F8 (ud_configuration_value d), F8 (ud_num_configurations d),
      F8 (of_nat (length (ud_interfaces d)))]"

definition device_specs :: "net_spec list" where
  "device_specs =
     [RArr 256, RArr 32, R32, R32, R32, R16, R16, R16, R8, R8, R8, R8, R8, R8]"

definition bytes_without_interfaces_num :: nat where
  "bytes_without_interfaces_num = calculate_total_size device_specs"

definition to_bytes_without_interfaces :: "UsbDevice \<Rightarrow> data" where
  "to_bytes_without_interfaces d = to_network_array (device_fields d)"

definition device_to_bytes :: "UsbDevice \<Rightarrow> data" where
  "device_to_bytes d = to_bytes_without_interfaces d"

definition to_bytes_with_interfaces :: "UsbDevice \<Rightarrow> data" where
  "to_bytes_with_interfaces d =
     fold (\<lambda>i result. result @ interface_to_bytes i) (ud_interfaces d)
       (to_network_data [FArr (to_bytes_without_interfaces d)])"

definition resize_interfaces :: "nat \<Rightarrow> UsbInterface list \<Rightarrow> UsbInterface list" where
  "resize_interfaces n is = take n is @ replicate (n - length is) default_interface"

definition device_from_socket :: "UsbDevice \<Rightarrow> UsbDevice reader" where
  "device_from_socket d =
     rd_bind (unsigned_integral_and_array_read_from_socket 0 device_specs) (\<lambda>fs.
       rd_return (d\<lparr>
         ud_path := buffer_string (as_arr (fs ! 0)),
         ud_busid := buffer_string (as_arr (fs ! 1)),
         ud_bus_num := as32 (fs ! 2), ud_dev_num := as32 (fs ! 3), ud_speed := as32 (fs ! 4),
         ud_vendor_id := as16 (fs ! 5), ud_product_id := as16 (fs ! 6),
         ud_device_bcd := version_of_bcd (as16 (fs ! 7)),
         ud_device_class := as8 (fs ! 8), ud_device_subclass := as8 (fs ! 9),
         ud_device_protocol := as8 (fs ! 10), ud_configuration_value := as8 (fs ! 11),
         ud_num_configurations := as8 (fs ! 12),
         ud_interfaces := resize_interfaces (unat (as8 (fs ! 13))) (ud_interfaces d)\<rparr>))"

fun find_ep_in_interfaces ::
    "u8 \<Rightarrow> UsbInterface list \<Rightarrow> (UsbEndpoint \<times> UsbInterface option) option" where
  "find_ep_in_interfaces ep [] = None"
| "find_ep_in_interfaces ep (intf # is) =
     (case find (\<lambda>e. ep_address e = ep) (current_endpoints intf) of
        Some e \<Rightarrow> Some (e, Some intf)
      | None \<Rightarrow> find_ep_in_interfaces ep is)"

definition find_ep :: "UsbDevice \<Rightarrow> u8 \<Rightarrow> (UsbEndpoint \<times> UsbInterface option) option" where
  "find_ep d ep =
     (if ep = ep_address (ud_ep0_in d) then Some (ud_ep0_in d, None)
      else if ep = ep_address (ud_ep0_out d) then Some (ud_ep0_out d, None)
      else find_ep_in_interfaces ep (ud_interfaces d))"

definition device_eq :: "UsbDevice \<Rightarrow> UsbDevice \<Rightarrow> bool" where
  "device_eq a b \<longleftrightarrow>
     ud_path a = ud_path b \<and> ud_busid a = ud_busid b \<and> ud_bus_num a = ud_bus_num b \<and>
     ud_dev_num a = ud_dev_num b \<and> ud_speed a = ud_speed b \<and>
     ud_vendor_id a = ud_vendor_id b \<and> ud_product_id a = ud_product_id b \<and>
     version_to_bcd (ud_device_bcd a) = version_to_bcd (ud_device_bcd b) \<and>
     ud_device_class a = ud_device_class b \<and> ud_device_subclass a = ud_device_subclass b \<and>
     ud_device_protocol a = ud_device_protocol b \<and>
     ud_configuration_value a = ud_configuration_value b \<and>
     ud_num_configurations a = ud_num_configurations b \<and>
     list_all2 interface_eq (ud_interfaces a) (ud_interfaces b)"

subsection \<open>Serialisation of a device\<close>

definition device_wire_ok :: "UsbDevice \<Rightarrow> bool" where
  "device_wire_ok d \<longleftrightarrow>
     c_string_fits 256 (ud_path d) \<and> c_string_fits 32 (ud_busid d) \<and>
     length (ud_interfaces d) < 256"

text \<open>What the fixed part of a device carries: everything but the interface bodies, the
  endpoint-0 descriptions and the handler.\<close>

definition device_wire :: "UsbDevice \<Rightarrow> UsbDevice" where
  "device_wire d =
     d\<lparr>ud_device_bcd := version_of_bcd (version_to_bcd (ud_device_bcd d)),
       ud_interfaces := replicate (length (ud_interfaces d)) default_interface,
       ud_ep0_in := default_endpoint, ud_ep0_out := default_endpoint, ud_handler := None\<rparr>"

lemma specs_of_device_fields [simp]: "map spec_of (device_fields d) = device_specs"
  by (simp add: device_fields_def device_specs_def)

lemma bytes_without_interfaces_num_312: "bytes_without_interfaces_num = 312"
  by (simp add: bytes_without_interfaces_num_def device_specs_def)

lemma length_to_bytes_without_interfaces [simp]: "length (to_bytes_without_interfaces d) = 312"
  using length_concat_be_field[of "device_fields d"] bytes_without_interfaces_num_312
  by (simp add: to_bytes_without_interfaces_def bytes_without_interfaces_num_def)

lemma fold_append_concat: "fold (\<lambda>i r. r @ f i) xs acc = acc @ concat (map f xs)"
  by (induction xs arbitrary: acc) simp_all

lemma to_bytes_with_interfaces_eq:
  "to_bytes_with_interfaces d =
     to_bytes_without_interfaces d @ concat (map interface_to_bytes (ud_interfaces d))"
  by (simp add: to_bytes_with_interfaces_def fold_append_concat)

lemma length_to_bytes_with_interfaces:
  "length (to_bytes_with_interfaces d) = 312 + 4 * length (ud_interfaces d)"
  by (simp add: to_bytes_with_interfaces_eq interface_codec.length_concat_to_bytes)

lemma device_from_socket_roundtrip:
  assumes "device_wire_ok d" and "rx s = device_to_bytes d @ rest"
  shows "device_from_socket default_device s = Inr (device_wire d, s\<lparr>rx := rest\<rparr>)"
proof -
  have "unsigned_integral_and_array_read_from_socket 0 device_specs s
      = Inr (device_fields d, s\<lparr>rx := rest\<rparr>)"
    unfolding unsigned_integral_and_array_read_from_socket_def
    by (rule read_all_fields_on_roundtrip[where pad = "[]"])
       (use assms(2) in \<open>simp_all add: device_to_bytes_def to_bytes_without_interfaces_def\<close>)
  moreover have "unat (of_nat (length (ud_interfaces d)) :: u8) = length (ud_interfaces d)"
    using assms(1) by (simp add: device_wire_ok_def unat_of_nat)
  ultimately show ?thesis
    using assms(1)
    by (simp add: device_from_socket_def reader_defs device_fields_def device_wire_ok_def
        buffer_string_string_buffer resize_interfaces_def device_wire_def default_device_def)
qed

interpretation device_codec: fixed_byte_codec
  device_to_bytes "device_from_socket default_device" device_wire_ok device_wire 312
  by unfold_locales (simp_all add: device_from_socket_roundtrip device_to_bytes_def)

subsection \<open>Endpoint lookup\<close>

lemma find_ep_in_interfaces_Some:
  "find_ep_in_interfaces ep is = Some (e, mi) \<Longrightarrow>
   \<exists>i \<in> set is. mi = Some i \<and> e \<in> set (current_endpoints i) \<and> ep_address e = ep"
  by (induction "is") (auto split: option.splits dest: find_SomeD)

lemma find_ep_in_interfaces_None:
  "find_ep_in_interfaces ep is = None \<longleftrightarrow>
   (\<forall>i \<in> set is. \<forall>e \<in> set (current_endpoints i). ep_address e \<noteq> ep)"
  by (induction "is") (auto split: option.splits dest: find_SomeD find_NoneD)

lemma find_ep_None:
  "find_ep d ep = None \<longleftrightarrow>
   ep \<noteq> ep_address (ud_ep0_in d) \<and> ep \<noteq> ep_address (ud_ep0_out d) \<and>
   (\<forall>i \<in> set (ud_interfaces d). \<forall>e \<in> set (current_endpoints i). ep_address e \<noteq> ep)"
  by (auto simp: find_ep_def find_ep_in_interfaces_None)

lemma find_ep_address: "find_ep d ep = Some (e, mi) \<Longrightarrow> ep_address e = ep"
  by (auto simp: find_ep_def split: if_splits dest: find_ep_in_interfaces_Some)

lemma current_endpoints_subset:
  "set (current_endpoints i) \<subseteq> \<Union> (set (map set (endpoints i)))"
  by (auto simp: current_endpoints_def split: if_splits intro!: bexI[of _ "endpoints i ! _"])

section \<open>Properties\<close>

text \<open>C39: The fixed part of a device has 312 bytes and the part with interfaces 4 more per interface.
  Reading the fixed part into a fresh device gives back every field the wire carries,
  with as many blank interfaces as the device has; the version survives as its
  16-bit BCD code. The strings must fit their buffers with the terminator and contain no NUL, and
  there must be fewer than 256 interfaces.\<close>

theorem device_roundtrip:
  assumes "device_wire_ok d"
  shows "length (device_to_bytes d) = 312 \<and>
    length (to_bytes_with_interfaces d) = 312 + 4 * length (ud_interfaces d) \<and>
    device_from_socket default_device \<lparr>rx = device_to_bytes d @ rest, rx_end = e\<rparr> =
      Inr (device_wire d, \<lparr>rx = rest, rx_end = e\<rparr>) \<and>
    version_to_bcd (ud_device_bcd (device_wire d)) = version_to_bcd (ud_device_bcd d)"
  using device_from_socket_roundtrip[OF assms, of "\<lparr>rx = device_to_bytes d @ rest, rx_end = e\<rparr>" rest]
  by (simp add: length_to_bytes_with_interfaces device_to_bytes_def device_wire_def)

definition sample_device :: UsbDevice where
  "sample_device =
     UsbDevice_make ''1-1'' 0x1234 0x5678 [default_interface] 1 1 0 [] Speed_Full
       \<lparr>v_major = 0, v_minor = 1, v_patch = 0\<rparr> 0 0 1 1"

theorem device_roundtrip_witness:
  "device_from_socket default_device \<lparr>rx = device_to_bytes sample_device @ [7], rx_end = Asio_eof\<rparr> =
     Inr (device_wire sample_device, \<lparr>rx = [7], rx_end = Asio_eof\<rparr>)"
  using device_roundtrip[of sample_device "[7]" Asio_eof]
  by (simp add: sample_device_def UsbDevice_make_def device_wire_ok_def c_string_fits_def)

text \<open>\<open>find_ep\<close> returns an endpoint with the address asked for, which is endpoint 0 of
  the device (then without an interface, the IN side first) or, only for other addresses, an endpoint of the current alternate setting of the
  interface it returns; it returns nothing exactly when no such endpoint exists.\<close>

theorem find_ep_correct:
  "(case find_ep d ep of
      None \<Rightarrow> ep \<noteq> ep_address (ud_ep0_in d) \<and> ep \<noteq> ep_address (ud_ep0_out d) \<and>
        (\<forall>i \<in> set (ud_interfaces d). \<forall>e \<in> set (current_endpoints i). ep_address e \<noteq> ep)
    | Some (e, None) \<Rightarrow> ep_address e = ep \<and>
        e = (if ep = ep_address (ud_ep0_in d) then ud_ep0_in d else ud_ep0_out d)
    | Some (e, Some i) \<Rightarrow> ep_address e = ep \<and> i \<in> set (ud_interfaces d) \<and>
        e \<in> set (current_endpoints i) \<and>
        ep \<noteq> ep_address (ud_ep0_in d) \<and> ep \<noteq> ep_address (ud_ep0_out d))"
proof (cases "find_ep d ep")
  case None
  then show ?thesis using find_ep_None[of d ep] by simp
next
  case (Some x)
  then show ?thesis
    by (cases x)
       (auto simp: find_ep_def split: if_splits option.splits dest: find_ep_in_interfaces_Some)
qed

theorem find_ep_correct_witness:
  "ep_address (fst (the (find_ep sample_device 0x80))) = 0x80"
  using find_ep_correct[where d = sample_device and ep = "0x80"]
  by (simp add: sample_device_def UsbDevice_make_def find_ep_def current_endpoints_def
      default_interface_def get_ep0_in_def get_ep0_out_def)

text \<open>A BCD version code survives the conversion to a version and back, and a version survives
  the conversion to BCD and back when minor and patch are single digits of four bits.\<close>

theorem version_bcd_roundtrip:
  "version_to_bcd (version_of_bcd bcd) = bcd \<and>
   (version_ok v \<longrightarrow> version_of_bcd (version_to_bcd v) = v)"
  by (simp add: version_of_bcd_to_bcd)

theorem version_bcd_roundtrip_witness:
  "version_of_bcd (version_to_bcd \<lparr>v_major = 2, v_minor = 1, v_patch = 15\<rparr>)
     = \<lparr>v_major = 2, v_minor = 1, v_patch = 15\<rparr>"
  using version_bcd_roundtrip[of 0 "\<lparr>v_major = 2, v_minor = 1, v_patch = 15\<rparr>"]
  by (simp add: version_ok_def)

end
