(* ===== verification/Transfer_Op.thy ===== *)
theory Transfer_Op
  imports Usb_Device
begin

text \<open>
  Transfers and the operators that allocate, fill, send and receive them:
  \<open>UsbIpHeaderBasic\<close>, \<open>UsbIpIsoPacketDescriptor\<close>, \<open>GenericTransfer\<close> and
  \<open>TransferHandle\<close> of \<open>protocol.h\<close>, the virtual class
  \<open>TransferOperator\<close>, \<open>GenericTransferOperator.cpp\<close> and the per-endpoint routing of
  \<open>VirtualDeviceTransferOperator.cpp\<close>.

  A virtual call is a field of the record \<open>TransferOperator\<close>. The transfer object behind
  the \<open>void *\<close> is the type parameter, so a handle is the object itself: a
  \<open>TransferHandle\<close> is move-only and the object has one owner at any time
  (theory \<open>Transfer_Handle\<close>). An access outside a buffer is the outcome
  \<open>None\<close>, apart from every error the code reports.
\<close>

section \<open>Header and ISO descriptors\<close>

record UsbIpHeaderBasic =
  h_command :: u32
  h_seqnum :: u32
  h_devid :: u32
  h_direction :: u32
  h_ep :: u32

definition UsbIpDirection_Out :: u32 where "UsbIpDirection_Out = 0"
definition UsbIpDirection_In :: u32 where "UsbIpDirection_In = 1"

definition header_to_bytes :: "UsbIpHeaderBasic \<Rightarrow> data" where
  "header_to_bytes h =
     to_network_array [F32 (h_command h), F32 (h_seqnum h), F32 (h_devid h),
                       F32 (h_direction h), F32 (h_ep h)]"

definition header_from_socket :: "UsbIpHeaderBasic \<Rightarrow> UsbIpHeaderBasic reader" where
  "header_from_socket h =
     rd_bind (unsigned_integral_and_array_read_from_socket 0 [R32, R32, R32, R32]) (\<lambda>fs.
       rd_return (h\<lparr>h_seqnum := as32 (fs ! 0), h_devid := as32 (fs ! 1),
                    h_direction := as32 (fs ! 2), h_ep := as32 (fs ! 3)\<rparr>))"

definition get_server_header :: "u32 \<Rightarrow> u32 \<Rightarrow> UsbIpHeaderBasic" where
  "get_server_header cmd seqnum =
     \<lparr>h_command = cmd, h_seqnum = seqnum, h_devid = 0, h_direction = 0, h_ep = 0\<rparr>"

definition set_as_server :: "UsbIpHeaderBasic \<Rightarrow> UsbIpHeaderBasic" where
  "set_as_server h = h\<lparr>h_devid := 0, h_direction := 0, h_ep := 0\<rparr>"

record UsbIpIsoPacketDescriptor =
  iso_offset :: u32
  iso_length :: u32
  iso_actual_length :: u32
  iso_status :: u32

definition default_iso :: UsbIpIsoPacketDescriptor where
  "default_iso = \<lparr>iso_offset = 0, iso_length = 0, iso_actual_length = 0, iso_status = 0\<rparr>"

definition iso_to_bytes :: "UsbIpIsoPacketDescriptor \<Rightarrow> data" where
  "iso_to_bytes d =
     to_network_array [F32 (iso_offset d), F32 (iso_length d), F32 (iso_actual_length d),
                       F32 (iso_status d)]"

definition iso_from_socket :: "UsbIpIsoPacketDescriptor reader" where
  "iso_from_socket =
     rd_bind (unsigned_integral_and_array_read_from_socket 0 [R32, R32, R32, R32]) (\<lambda>fs.
       rd_return \<lparr>iso_offset = as32 (fs ! 0), iso_length = as32 (fs ! 1),
                  iso_actual_length = as32 (fs ! 2), iso_status = as32 (fs ! 3)\<rparr>)"

lemma length_header_to_bytes [simp]: "length (header_to_bytes h) = 20"
  by (simp add: header_to_bytes_def)

interpretation iso_codec: fixed_byte_codec iso_to_bytes iso_from_socket "\<lambda>_. True" id 16
proof unfold_locales
  fix x and s :: tcp_in and rest :: data
  assume s: "rx s = iso_to_bytes x @ rest"
  let ?fs = "[F32 (iso_offset x), F32 (iso_length x), F32 (iso_actual_length x), F32 (iso_status x)]"
  have "unsigned_integral_and_array_read_from_socket 0 [R32, R32, R32, R32] s
      = Inr (?fs, s\<lparr>rx := rest\<rparr>)"
    unfolding unsigned_integral_and_array_read_from_socket_def
    by (rule read_all_fields_on_roundtrip[where pad = "[]"])
       (use s in \<open>simp_all add: iso_to_bytes_def\<close>)
  then show "iso_from_socket s = Inr (id x, s\<lparr>rx := rest\<rparr>)"
    by (simp add: iso_from_socket_def reader_defs)
qed (simp add: iso_to_bytes_def)

section \<open>The operator interface\<close>

record 'tr TransferOperator =
  alloc_transfer_handle :: "nat \<Rightarrow> nat \<Rightarrow> UsbIpHeaderBasic \<Rightarrow> SetupPacket \<Rightarrow> 'tr option"
  get_actual_length :: "'tr \<Rightarrow> nat"
  set_transfer_data :: "'tr \<Rightarrow> data \<Rightarrow> nat \<Rightarrow> nat \<times> 'tr"
  get_transfer_data :: "'tr \<Rightarrow> data option"
  transfer_is_in :: "'tr \<Rightarrow> bool"
  send_transfer_data :: "'tr \<Rightarrow> nat \<Rightarrow> tcp_out \<Rightarrow> (sys_error option \<times> tcp_out) option"
  recv_transfer_data :: "'tr \<Rightarrow> nat \<Rightarrow> tcp_in \<Rightarrow> (sys_error + ('tr \<times> tcp_in)) option"

text \<open>\<open>get_transfer_data\<close> gives the bytes the C++ call appends to its out-parameter,
  \<open>None\<close> when it reports \<open>supported = false\<close> (the base class default).\<close>

datatype 'tr transfer_op =
  Leaf_op "'tr TransferOperator"
| VirtualDevice_op "u8 \<rightharpoonup> 'tr TransferOperator" "'tr TransferOperator"

fun get_operator_for_ep :: "'tr transfer_op \<Rightarrow> u8 \<Rightarrow> 'tr TransferOperator" where
  "get_operator_for_ep (Leaf_op p) ep = p"
| "get_operator_for_ep (VirtualDevice_op ep_operators generic_op) ep =
     (case ep_operators ep of Some p \<Rightarrow> p | None \<Rightarrow> generic_op)"

definition restore_real_ep :: "UsbIpHeaderBasic \<Rightarrow> u8" where
  "restore_real_ep h =
     (if h_direction h = UsbIpDirection_In then ucast (h_ep h) OR 0x80 else ucast (h_ep h))"

definition vdto_alloc_transfer_handle ::
    "(u8 \<rightharpoonup> 'tr TransferOperator) \<Rightarrow> 'tr TransferOperator \<Rightarrow> nat \<Rightarrow> nat \<Rightarrow>
     UsbIpHeaderBasic \<Rightarrow> SetupPacket \<Rightarrow> 'tr option" where
  "vdto_alloc_transfer_handle eps generic_op len niso h sp =
     alloc_transfer_handle (get_operator_for_ep (VirtualDevice_op eps generic_op)
       (restore_real_ep h)) len niso h sp"

section \<open>The generic operator\<close>

record GenericTransfer =
  gt_data :: data
  gt_iso_descriptors :: "UsbIpIsoPacketDescriptor list"
  gt_actual_length :: nat
  gt_data_offset :: nat
  gt_is_in :: bool

definition slice :: "nat \<Rightarrow> nat \<Rightarrow> 'a list \<Rightarrow> 'a list option" where
  "slice off len xs = (if off + len \<le> length xs then Some (take len (drop off xs)) else None)"

definition generic_alloc ::
    "nat \<Rightarrow> nat \<Rightarrow> UsbIpHeaderBasic \<Rightarrow> SetupPacket \<Rightarrow> GenericTransfer option" where
  "generic_alloc len niso h sp =
     Some \<lparr>gt_data = replicate len 0, gt_iso_descriptors = replicate niso default_iso,
           gt_actual_length = 0, gt_data_offset = 0,
           gt_is_in = (h_direction h = UsbIpDirection_In)\<rparr>"

definition generic_set_transfer_data ::
    "GenericTransfer \<Rightarrow> data \<Rightarrow> nat \<Rightarrow> nat \<times> GenericTransfer" where
  "generic_set_transfer_data t d max_length =
     (let send_len = min (length d) max_length
      in (send_len, t\<lparr>gt_data := take send_len d, gt_actual_length := send_len\<rparr>))"

definition generic_get_transfer_data :: "GenericTransfer \<Rightarrow> data option" where
  "generic_get_transfer_data t = Some (gt_data t)"

definition generic_get_iso_descriptor ::
    "GenericTransfer \<Rightarrow> nat \<Rightarrow> UsbIpIsoPacketDescriptor option" where
  "generic_get_iso_descriptor t i =
     (if i < length (gt_iso_descriptors t) then Some (gt_iso_descriptors t ! i) else None)"

definition generic_set_iso_descriptor ::
    "GenericTransfer \<Rightarrow> nat \<Rightarrow> UsbIpIsoPacketDescriptor \<Rightarrow> GenericTransfer option" where
  "generic_set_iso_descriptor t i d =
     (if i < length (gt_iso_descriptors t)
      then Some (t\<lparr>gt_iso_descriptors := (gt_iso_descriptors t)[i := d]\<rparr>) else None)"

text \<open>The data slices of the ISO packets, in packet order.\<close>

fun iso_slices :: "data \<Rightarrow> UsbIpIsoPacketDescriptor list \<Rightarrow> data option" where
  "iso_slices d [] = Some []"
| "iso_slices d (p # ps) =
     (case slice (unat (iso_offset p)) (unat (iso_actual_length p)) d of
        None \<Rightarrow> None
      | Some b \<Rightarrow> map_option (\<lambda>bs. b @ bs) (iso_slices d ps))"

definition generic_send ::
    "GenericTransfer \<Rightarrow> nat \<Rightarrow> tcp_out \<Rightarrow> (sys_error option \<times> tcp_out) option" where
  "generic_send t len w =
     (if gt_iso_descriptors t = []
      then (if 0 < len
            then map_option (\<lambda>b. asio_write b w) (slice (gt_data_offset t) len (gt_data t))
            else Some (None, w))
      else map_option
             (\<lambda>b. asio_write (b @ concat (map iso_to_bytes (gt_iso_descriptors t))) w)
             (if 0 < len then iso_slices (gt_data t) (gt_iso_descriptors t) else Some []))"

definition generic_recv ::
    "GenericTransfer \<Rightarrow> nat \<Rightarrow> tcp_in \<Rightarrow> (sys_error + (GenericTransfer \<times> tcp_in)) option" where
  "generic_recv t len s =
     (if length (gt_data t) < len then None
      else Some (
        rd_bind (if 0 < len
                 then rd_bind (asio_read len) (\<lambda>b. rd_return (memcpy_at 0 b (gt_data t)))
                 else rd_return (gt_data t)) (\<lambda>d.
        rd_bind (read_many (length (gt_iso_descriptors t)) iso_from_socket) (\<lambda>isos.
        rd_return (t\<lparr>gt_data := d, gt_iso_descriptors := isos\<rparr>))) s))"

definition GenericTransferOperator :: "GenericTransfer TransferOperator" where
  "GenericTransferOperator =
     \<lparr>alloc_transfer_handle = generic_alloc, get_actual_length = gt_actual_length,
      set_transfer_data = generic_set_transfer_data,
      get_transfer_data = generic_get_transfer_data, transfer_is_in = gt_is_in,
      send_transfer_data = generic_send, recv_transfer_data = generic_recv\<rparr>"

section \<open>Transfer handles as values\<close>

record 'tr TransferHandle =
  th_handle :: "'tr option"
  th_op :: "'tr transfer_op option"

definition TransferHandle_empty :: "'tr TransferHandle" where
  "TransferHandle_empty = \<lparr>th_handle = None, th_op = None\<rparr>"

definition th_set_operator :: "'tr transfer_op \<Rightarrow> 'tr TransferHandle \<Rightarrow> 'tr TransferHandle" where
  "th_set_operator p h = h\<lparr>th_op := Some p\<rparr>"

definition th_set_handle ::
    "'tr \<Rightarrow> 'tr TransferOperator \<Rightarrow> 'tr TransferHandle \<Rightarrow> 'tr TransferHandle" where
  "th_set_handle t p h = h\<lparr>th_handle := Some t, th_op := Some (Leaf_op p)\<rparr>"

section \<open>The contracts of a leaf operator\<close>

text \<open>
  What decoding relies on: an allocated transfer has at least the requested buffer and the packet count, the data
  stage that the protocol layer reads into it (nothing, or the whole buffer) stays inside the
  buffer, and receiving keeps its shape.
\<close>

locale transfer_receiver =
  fixes tr_op :: "'tr TransferOperator"
    and capacity :: "'tr \<Rightarrow> nat"
    and packets :: "'tr \<Rightarrow> nat"
  assumes alloc_capacity:
    "alloc_transfer_handle tr_op len niso h sp = Some t \<Longrightarrow> len \<le> capacity t \<and> packets t = niso"
    and recv_allocated:
    "alloc_transfer_handle tr_op len niso h sp = Some t \<Longrightarrow> n = 0 \<or> n = len \<Longrightarrow>
       recv_transfer_data tr_op t n s \<noteq> None"
    and recv_capacity:
    "recv_transfer_data tr_op t len s = Some (Inr (t', s')) \<Longrightarrow>
       capacity t' = capacity t \<and> packets t' = packets t"

text \<open>
  What answering relies on beyond that: the transfer knows its direction from the request on, every read that
  fits stays inside the buffer, and a response that was filled by \<open>set_transfer_data\<close> can be sent with the
  length that call returned. \<open>plain\<close> holds of transfers without ISO packets whose data starts at
  the beginning of the buffer.
\<close>

locale transfer_operator =
  fixes tr_op :: "'tr TransferOperator"
    and capacity :: "'tr \<Rightarrow> nat"
    and packets :: "'tr \<Rightarrow> nat"
    and plain :: "'tr \<Rightarrow> bool"
  assumes alloc_shape:
    "alloc_transfer_handle tr_op len niso h sp = Some t \<Longrightarrow>
       capacity t = len \<and> packets t = niso \<and>
       transfer_is_in tr_op t = (h_direction h = UsbIpDirection_In) \<and> (niso = 0 \<longrightarrow> plain t)"
    and recv_in_bounds: "len \<le> capacity t \<Longrightarrow> recv_transfer_data tr_op t len s \<noteq> None"
    and recv_shape:
    "recv_transfer_data tr_op t len s = Some (Inr (t', s')) \<Longrightarrow>
       capacity t' = capacity t \<and> packets t' = packets t \<and>
       transfer_is_in tr_op t' = transfer_is_in tr_op t \<and> plain t' = plain t"
    and set_data:
    "plain t \<Longrightarrow> set_transfer_data tr_op t d m = (n, t') \<Longrightarrow>
       n = min (length d) m \<and> plain t' \<and>
       transfer_is_in tr_op t' = transfer_is_in tr_op t \<and>
       send_transfer_data tr_op t' n w =
         Some (if n = 0 then (None, w) else asio_write (take n d) w)"
    and send_nothing: "plain t \<Longrightarrow> send_transfer_data tr_op t 0 w = Some (None, w)"

sublocale transfer_operator \<subseteq> transfer_receiver tr_op capacity packets
proof unfold_locales
  fix len niso h sp t n s
  assume t: "alloc_transfer_handle tr_op len niso h sp = Some t" and n: "n = 0 \<or> n = len"
  have "capacity t = len" using alloc_shape[OF t] by blast
  then have "n \<le> capacity t" using n by auto
  then show "recv_transfer_data tr_op t n s \<noteq> None" by (rule recv_in_bounds)
qed (use alloc_shape recv_shape in auto)

lemma generic_op_simps [simp]:
  "alloc_transfer_handle GenericTransferOperator = generic_alloc"
  "get_actual_length GenericTransferOperator = gt_actual_length"
  "set_transfer_data GenericTransferOperator = generic_set_transfer_data"
  "get_transfer_data GenericTransferOperator = generic_get_transfer_data"
  "transfer_is_in GenericTransferOperator = gt_is_in"
  "send_transfer_data GenericTransferOperator = generic_send"
  "recv_transfer_data GenericTransferOperator = generic_recv"
  by (simp_all add: GenericTransferOperator_def)

lemma read_many_length: "read_many n rd s = Inr (xs, s') \<Longrightarrow> length xs = n"
  by (induction n arbitrary: s xs s') (auto simp: reader_defs split: sum.splits)

lemma asio_read_length: "asio_read n s = Inr (b, s') \<Longrightarrow> length b = n"
  by (auto simp: asio_read_def split: if_splits)

definition generic_plain :: "GenericTransfer \<Rightarrow> bool" where
  "generic_plain t \<longleftrightarrow> gt_iso_descriptors t = [] \<and> gt_data_offset t = 0"

lemma generic_recv_shape:
  assumes "generic_recv t len s = Some (Inr (t', s'))"
  shows "length (gt_data t') = length (gt_data t)"
    and "length (gt_iso_descriptors t') = length (gt_iso_descriptors t)"
    and "gt_is_in t' = gt_is_in t" and "gt_data_offset t' = gt_data_offset t"
  using assms
  by (auto simp: generic_recv_def reader_defs memcpy_at_def
      split: if_splits sum.splits dest!: asio_read_length read_many_length)

interpretation generic_operator: transfer_operator
  GenericTransferOperator "\<lambda>t. length (gt_data t)" "\<lambda>t. length (gt_iso_descriptors t)"
  generic_plain
proof unfold_locales
  fix t t' len s s'
  assume "recv_transfer_data GenericTransferOperator t len s = Some (Inr (t', s'))"
  then show "length (gt_data t') = length (gt_data t) \<and>
      length (gt_iso_descriptors t') = length (gt_iso_descriptors t) \<and>
      transfer_is_in GenericTransferOperator t' = transfer_is_in GenericTransferOperator t \<and>
      generic_plain t' = generic_plain t"
    using generic_recv_shape[of t len s t' s']
    by (auto simp: generic_plain_def simp flip: length_0_conv)
qed (auto simp: generic_alloc_def generic_recv_def generic_plain_def
      generic_set_transfer_data_def generic_send_def slice_def Let_def)

end
