(* ===== verification/Transfer_Handle.thy ===== *)
theory Transfer_Handle
  imports Prelude
begin

text \<open>
  Ownership of transfer objects through \<open>TransferHandle\<close> (\<open>protocol.h\<close>,
  \<open>protocol.cpp\<close> lines 15 to 53). The memory holds named \<open>TransferHandle\<close> objects
  with their two pointers, the log of the \<open>free_transfer_handle\<close> calls, the raw pointers a
  caller holds (from an allocation or from \<open>release()\<close>) and the next fresh address. Null
  pointers are \<open>None\<close>. The operations are those of the class; the step relation gives each
  the precondition its documentation states.
\<close>

section \<open>The class\<close>

record handle_obj =
  obj_handle :: "nat option"
  obj_op :: "nat option"

record handle_mem =
  objs :: "nat \<rightharpoonup> handle_obj"
  frees :: "(nat \<times> nat) list"
  raw :: "nat set"
  fresh :: nat

definition null_obj :: handle_obj where
  "null_obj = \<lparr>obj_handle = None, obj_op = None\<rparr>"

definition obj_at :: "handle_mem \<Rightarrow> nat \<Rightarrow> handle_obj" where
  "obj_at m x = (case objs m x of Some obj \<Rightarrow> obj | None \<Rightarrow> null_obj)"

definition th_reset :: "nat \<Rightarrow> handle_mem \<Rightarrow> handle_mem" where
  "th_reset x m =
     (let m' = (case (obj_handle (obj_at m x), obj_op (obj_at m x)) of
                  (Some p, Some f) \<Rightarrow> m\<lparr>frees := frees m @ [(f, p)]\<rparr>
                | _ \<Rightarrow> m)
      in m'\<lparr>objs := (objs m')(x \<mapsto> null_obj)\<rparr>)"

definition th_ctor :: "nat \<Rightarrow> nat option \<Rightarrow> nat option \<Rightarrow> handle_mem \<Rightarrow> handle_mem" where
  "th_ctor x p f m = m\<lparr>objs := (objs m)(x \<mapsto> \<lparr>obj_handle = p, obj_op = f\<rparr>)\<rparr>"

definition th_move_ctor :: "nat \<Rightarrow> nat \<Rightarrow> handle_mem \<Rightarrow> handle_mem" where
  "th_move_ctor x y m = m\<lparr>objs := (objs m)(x \<mapsto> obj_at m y, y \<mapsto> null_obj)\<rparr>"

definition th_move_assign :: "nat \<Rightarrow> nat \<Rightarrow> handle_mem \<Rightarrow> handle_mem" where
  "th_move_assign x y m =
     (if x \<noteq> y
      then (let m1 = th_reset x m
            in m1\<lparr>objs := (objs m1)(x \<mapsto> obj_at m1 y, y \<mapsto> null_obj)\<rparr>)
      else m)"

definition th_destroy :: "nat \<Rightarrow> handle_mem \<Rightarrow> handle_mem" where
  "th_destroy x m = (let m1 = th_reset x m in m1\<lparr>objs := (objs m1)(x := None)\<rparr>)"

definition th_release :: "nat \<Rightarrow> handle_mem \<Rightarrow> nat option \<times> handle_mem" where
  "th_release x m = (obj_handle (obj_at m x), m\<lparr>objs := (objs m)(x \<mapsto> null_obj)\<rparr>)"

definition th_obj_set_operator :: "nat \<Rightarrow> nat option \<Rightarrow> handle_mem \<Rightarrow> handle_mem" where
  "th_obj_set_operator x f m = m\<lparr>objs := (objs m)(x \<mapsto> (obj_at m x)\<lparr>obj_op := f\<rparr>)\<rparr>"

definition th_obj_set_handle :: "nat \<Rightarrow> nat option \<Rightarrow> nat option \<Rightarrow> handle_mem \<Rightarrow> handle_mem" where
  "th_obj_set_handle x p f m =
     m\<lparr>objs := (objs m)(x \<mapsto> (obj_at m x)\<lparr>obj_handle := p, obj_op := f\<rparr>)\<rparr>"

section \<open>Use of handles\<close>

text \<open>
  A raw pointer comes from \<open>alloc_transfer_handle\<close> (fresh) or \<open>release()\<close>; it goes into
  one handle, with its operator, or is freed by hand. \<open>set_handle\<close> is called on a handle
  that holds no transfer (it does not free), and a handle that holds a transfer keeps an operator.
\<close>

inductive handle_step :: "handle_mem \<Rightarrow> handle_mem \<Rightarrow> bool" where
  alloc: "handle_step m (m\<lparr>raw := insert (fresh m) (raw m), fresh := Suc (fresh m)\<rparr>)"
| free_raw: "p \<in> raw m \<Longrightarrow> handle_step m (m\<lparr>raw := raw m - {p}, frees := frees m @ [(f, p)]\<rparr>)"
| ctor_null: "objs m x = None \<Longrightarrow> handle_step m (th_ctor x None f m)"
| ctor: "objs m x = None \<Longrightarrow> p \<in> raw m \<Longrightarrow>
    handle_step m ((th_ctor x (Some p) (Some f) m)\<lparr>raw := raw m - {p}\<rparr>)"
| move_ctor: "objs m x = None \<Longrightarrow> objs m y \<noteq> None \<Longrightarrow> handle_step m (th_move_ctor x y m)"
| move_assign: "objs m x \<noteq> None \<Longrightarrow> objs m y \<noteq> None \<Longrightarrow> handle_step m (th_move_assign x y m)"
| reset: "objs m x \<noteq> None \<Longrightarrow> handle_step m (th_reset x m)"
| destroy: "objs m x \<noteq> None \<Longrightarrow> handle_step m (th_destroy x m)"
| release: "objs m x \<noteq> None \<Longrightarrow> th_release x m = (mp, m') \<Longrightarrow>
    handle_step m (m'\<lparr>raw := raw m \<union> set_option mp\<rparr>)"
| set_operator: "objs m x \<noteq> None \<Longrightarrow> handle_step m (th_obj_set_operator x (Some f) m)"
| set_handle: "objs m x \<noteq> None \<Longrightarrow> obj_handle (obj_at m x) = None \<Longrightarrow> p \<in> raw m \<Longrightarrow>
    handle_step m ((th_obj_set_handle x (Some p) (Some f) m)\<lparr>raw := raw m - {p}\<rparr>)"

definition handle_init :: handle_mem where
  "handle_init = \<lparr>objs = Map.empty, frees = [], raw = {}, fresh = 0\<rparr>"

definition owns :: "handle_mem \<Rightarrow> nat \<Rightarrow> nat \<Rightarrow> bool" where
  "owns m x p \<longleftrightarrow> obj_handle (obj_at m x) = Some p"

definition freed :: "handle_mem \<Rightarrow> nat set" where
  "freed m = snd ` set (frees m)"

text \<open>Every transfer allocated so far is in exactly one place: one handle, a raw pointer of the
  caller, or the log of freed transfers, where it occurs once.\<close>

definition placed ::
    "(nat \<Rightarrow> nat \<Rightarrow> bool) \<Rightarrow> (nat \<Rightarrow> bool) \<Rightarrow> nat set \<Rightarrow> nat list \<Rightarrow> nat \<Rightarrow> bool" where
  "placed own has_op rw log n \<longleftrightarrow>
     (\<forall>x y p. own x p \<longrightarrow> own y p \<longrightarrow> x = y) \<and> (\<forall>x p. own x p \<longrightarrow> has_op x) \<and>
     (\<forall>x p. own x p \<longrightarrow> p \<notin> rw \<and> p \<notin> set log) \<and>
     rw \<inter> set log = {} \<and> distinct log \<and>
     (\<forall>p. p < n \<longleftrightarrow> p \<in> rw \<or> p \<in> set log \<or> (\<exists>x. own x p))"

definition handle_inv :: "handle_mem \<Rightarrow> bool" where
  "handle_inv m \<longleftrightarrow>
     placed (owns m) (\<lambda>x. obj_op (obj_at m x) \<noteq> None) (raw m) (map snd (frees m)) (fresh m)"

text \<open>The moves of a transfer between places.\<close>

lemma placedI:
  assumes "\<And>x y p. own x p \<Longrightarrow> own y p \<Longrightarrow> x = y" and "\<And>x p. own x p \<Longrightarrow> has_op x"
    and "\<And>x p. own x p \<Longrightarrow> p \<notin> rw" and "\<And>x p. own x p \<Longrightarrow> p \<notin> set log"
    and "\<And>p. p \<in> rw \<Longrightarrow> p \<notin> set log" and "distinct log"
    and "\<And>p. p < n \<longleftrightarrow> p \<in> rw \<or> p \<in> set log \<or> (\<exists>x. own x p)"
  shows "placed own has_op rw log n"
  using assms unfolding placed_def by (intro conjI) (simp_all, blast+)

lemma placedD:
  assumes "placed own has_op rw log n"
  shows "own x p \<Longrightarrow> own y p \<Longrightarrow> x = y" and "own x p \<Longrightarrow> has_op x"
    and "own x p \<Longrightarrow> p \<notin> rw" and "own x p \<Longrightarrow> p \<notin> set log"
    and "p \<in> rw \<Longrightarrow> p \<notin> set log" and "distinct log"
    and "p < n \<longleftrightarrow> p \<in> rw \<or> p \<in> set log \<or> (\<exists>x. own x p)"
  using assms unfolding placed_def by (simp_all, blast+)

lemma placed_alloc:
  assumes "placed own has_op rw log n"
  shows "placed own has_op (insert n rw) log (Suc n)"
proof -
  note d = placedD[OF assms]
  have "n \<notin> rw" "n \<notin> set log" "\<not> own x n" for x using d(7)[of n] by auto
  then show ?thesis
    using d by (intro placedI) (simp_all add: less_Suc_eq, blast+)
qed

lemma placed_free_raw:
  assumes "placed own has_op rw log n" "p \<in> rw"
  shows "placed own has_op (rw - {p}) (log @ [p]) n"
proof -
  note d = placedD[OF assms(1)]
  show ?thesis using d assms(2) by (intro placedI) (simp_all, blast+)
qed

lemma placed_free_owned:
  assumes inv: "placed own has_op rw log n" and x: "own x p"
    and own': "\<And>y q. own' y q \<longleftrightarrow> own y q \<and> q \<noteq> p" and op': "\<And>y q. own' y q \<Longrightarrow> has_op' y"
  shows "placed own' has_op' rw (log @ [p]) n"
proof -
  note d = placedD[OF inv]
  have p: "p \<notin> rw" "p \<notin> set log" "p < n" using d(3,4)[OF x] d(7)[of p] x by blast+
  show ?thesis
    by (rule placedI) (use d p own' op' in \<open>simp_all, blast+\<close>)
qed

lemma placed_give_raw:
  assumes inv: "placed own has_op rw log n" and x: "own x p"
    and own': "\<And>y q. own' y q \<longleftrightarrow> own y q \<and> q \<noteq> p" and op': "\<And>y q. own' y q \<Longrightarrow> has_op' y"
  shows "placed own' has_op' (insert p rw) log n"
proof -
  note d = placedD[OF inv]
  have p: "p \<notin> rw" "p \<notin> set log" "p < n" using d(3,4)[OF x] d(7)[of p] x by blast+
  show ?thesis
    by (rule placedI) (use d p own' op' in \<open>simp_all, blast+\<close>)
qed

lemma placed_take_raw:
  assumes inv: "placed own has_op rw log n" and r: "p \<in> rw" and free: "\<And>q. \<not> own x q"
    and own': "\<And>y q. own' y q \<longleftrightarrow> own y q \<or> y = x \<and> q = p"
    and op': "\<And>y q. own' y q \<Longrightarrow> has_op' y"
  shows "placed own' has_op' (rw - {p}) log n"
proof -
  note d = placedD[OF inv]
  have p: "p \<notin> set log" "p < n" "\<not> own y p" for y
    using d(5)[OF r] d(7)[of p] r d(3)[of y p] by blast+
  show ?thesis
    by (rule placedI) (use d p own' op' r in \<open>simp_all, blast+\<close>)
qed

lemma placed_move:
  assumes inv: "placed own has_op rw log n"
    and own': "\<And>z q. own' z q \<longleftrightarrow> own (f z) q \<and> P z"
    and inj: "\<And>y z. P y \<Longrightarrow> P z \<Longrightarrow> f y = f z \<Longrightarrow> y = z"
    and onto: "\<And>y q. own y q \<Longrightarrow> \<exists>z. P z \<and> f z = y"
    and op': "\<And>y q. own' y q \<Longrightarrow> has_op' y"
  shows "placed own' has_op' rw log n"
proof -
  note d = placedD[OF inv]
  have ex: "(\<exists>z. own' z q) \<longleftrightarrow> (\<exists>y. own y q)" for q
    using own' onto by metis
  have "y = z" if "own' y q" "own' z q" for y z q
    using that own' inj d(1)[of "f y" q "f z"] by simp
  moreover have "q \<notin> rw" "q \<notin> set log" if "own' y q" for y q
    using that own' d(3,4)[of "f y" q] by simp_all
  ultimately show ?thesis
    using d(5-7) op' unfolding ex[symmetric] by (intro placedI) simp_all
qed

lemmas handle_op_defs = th_reset_def th_ctor_def th_move_ctor_def th_move_assign_def
  th_destroy_def th_release_def th_obj_set_operator_def th_obj_set_handle_def

lemma obj_at_upd [simp]:
  "obj_at (m\<lparr>objs := f\<rparr>) x = (case f x of Some obj \<Rightarrow> obj | None \<Rightarrow> null_obj)"
  "obj_at (m\<lparr>frees := l\<rparr>) x = obj_at m x"
  "obj_at (m\<lparr>raw := r\<rparr>) x = obj_at m x"
  "obj_at (m\<lparr>fresh := n\<rparr>) x = obj_at m x"
  by (simp_all add: obj_at_def)

lemma handle_obj_upd:
  "(r :: handle_obj)\<lparr>obj_handle := p, obj_op := f\<rparr> = \<lparr>obj_handle = p, obj_op = f\<rparr>"
  by (cases r) simp

lemma null_obj_sel [simp]: "obj_handle null_obj = None" "obj_op null_obj = None"
  by (simp_all add: null_obj_def)

lemma owns_upd [simp]:
  "owns (m\<lparr>frees := l\<rparr>) = owns m" "owns (m\<lparr>raw := r\<rparr>) = owns m" "owns (m\<lparr>fresh := n\<rparr>) = owns m"
  by (simp_all add: owns_def fun_eq_iff)

text \<open>What a reset leaves behind.\<close>

lemma reset_obj_at [simp]:
  "obj_at (th_reset x m) z = (if z = x then null_obj else obj_at m z)"
  by (auto simp: th_reset_def Let_def obj_at_def split: option.splits)

lemma reset_owns: "owns (th_reset x m) y p \<longleftrightarrow> y \<noteq> x \<and> owns m y p"
  by (auto simp: owns_def)

lemma reset_other [simp]: "raw (th_reset x m) = raw m" "fresh (th_reset x m) = fresh m"
  by (auto simp: th_reset_def Let_def split: option.splits)

lemma owned_has_op: "handle_inv m \<Longrightarrow> owns m x p \<Longrightarrow> obj_op (obj_at m x) \<noteq> None"
  by (auto simp: handle_inv_def placed_def)

lemma reset_frees:
  assumes "handle_inv m"
  shows "map snd (frees (th_reset x m)) = (case obj_handle (obj_at m x) of
      None \<Rightarrow> map snd (frees m) | Some p \<Rightarrow> map snd (frees m) @ [p])"
proof (cases "obj_handle (obj_at m x)")
  case (Some p)
  then have "owns m x p" by (simp add: owns_def)
  from owned_has_op[OF assms this] Some show ?thesis
    by (auto simp: th_reset_def Let_def)
qed (simp add: th_reset_def Let_def)

lemma handle_inv_reset:
  assumes "handle_inv m"
  shows "handle_inv (th_reset x m)"
proof -
  have inv: "placed (owns m) (\<lambda>x. obj_op (obj_at m x) \<noteq> None) (raw m) (map snd (frees m)) (fresh m)"
    using assms by (simp add: handle_inv_def)
  have ops: "owns (th_reset x m) y q \<Longrightarrow> obj_op (obj_at (th_reset x m) y) \<noteq> None" for y q
    using owned_has_op[OF assms, of y q] by (simp add: reset_owns)
  show ?thesis
  proof (cases "obj_handle (obj_at m x)")
    case None
    then have "\<not> owns m x q" for q by (simp add: owns_def)
    then have "owns (th_reset x m) = owns m" by (auto simp: reset_owns fun_eq_iff)
    with None show ?thesis
      using placedD[OF inv] ops reset_frees[OF assms, of x] unfolding handle_inv_def
      by (intro placedI) simp_all
  next
    case (Some p)
    then have own: "owns m x p" by (simp add: owns_def)
    have "owns m x q \<longleftrightarrow> q = p" for q using Some by (auto simp: owns_def)
    then have "owns (th_reset x m) y q \<longleftrightarrow> owns m y q \<and> q \<noteq> p" for y q
      using placedD(1)[OF inv own] by (auto simp: reset_owns)
    then show ?thesis
      using placed_free_owned[OF inv own _ ops] reset_frees[OF assms, of x] Some
      by (simp add: handle_inv_def)
  qed
qed

lemma handle_inv_moved:
  assumes inv: "handle_inv m" and x: "obj_handle (obj_at m x) = None" and "x \<noteq> y"
    and m': "objs m' = (objs m)(x \<mapsto> obj_at m y, y \<mapsto> null_obj)"
      "raw m' = raw m" "frees m' = frees m" "fresh m' = fresh m"
  shows "handle_inv m'"
proof -
  let ?f = "\<lambda>z. if z = x then y else z"
  have at: "obj_at m' z = (if z = y then null_obj else obj_at m (?f z))" for z
    using m'(1) \<open>x \<noteq> y\<close> by (simp add: obj_at_def)
  have own: "owns m' z q \<longleftrightarrow> owns m (?f z) q \<and> z \<noteq> y" for z q
    by (simp add: owns_def at)
  have onto: "owns m z q \<Longrightarrow> \<exists>w. w \<noteq> y \<and> ?f w = z" for z q
    using x \<open>x \<noteq> y\<close> by (intro exI[of _ "if z = y then x else z"]) (auto simp: owns_def)
  have ops: "owns m' z q \<Longrightarrow> obj_op (obj_at m' z) \<noteq> None" for z q
    using owned_has_op[OF inv, of "?f z" q] by (auto simp: own at split: if_splits)
  show ?thesis
    using placed_move[OF inv[unfolded handle_inv_def], of "owns m'" ?f "\<lambda>z. z \<noteq> y",
        OF own _ onto ops] m'
    by (auto simp: handle_inv_def split: if_splits)
qed

lemma handle_inv_taken:
  assumes inv: "handle_inv m" and "p \<in> raw m" and x: "obj_handle (obj_at m x) = None"
    and m': "objs m' = (objs m)(x \<mapsto> \<lparr>obj_handle = Some p, obj_op = Some f\<rparr>)"
      "raw m' = raw m - {p}" "frees m' = frees m" "fresh m' = fresh m"
  shows "handle_inv m'"
proof -
  have at: "obj_at m' z = (if z = x then \<lparr>obj_handle = Some p, obj_op = Some f\<rparr> else obj_at m z)"
    for z using m'(1) by (simp add: obj_at_def)
  have own: "owns m' z q \<longleftrightarrow> owns m z q \<or> z = x \<and> q = p" for z q
    using x by (auto simp: owns_def at)
  have ops: "owns m' z q \<Longrightarrow> obj_op (obj_at m' z) \<noteq> None" for z q
    using owned_has_op[OF inv, of z q] by (auto simp: own at)
  have "\<not> owns m x q" for q using x by (simp add: owns_def)
  from placed_take_raw[OF inv[unfolded handle_inv_def] \<open>p \<in> raw m\<close> this own ops] m'
  show ?thesis by (simp add: handle_inv_def)
qed

lemma handle_inv_same:
  assumes inv: "handle_inv m" and "\<And>z. obj_handle (obj_at m' z) = obj_handle (obj_at m z)"
    and "\<And>z. obj_handle (obj_at m z) \<noteq> None \<Longrightarrow> obj_op (obj_at m z) \<noteq> None \<Longrightarrow>
      obj_op (obj_at m' z) \<noteq> None"
    and m': "raw m' = raw m" "frees m' = frees m" "fresh m' = fresh m"
  shows "handle_inv m'"
proof -
  have "owns m' = owns m" using assms(2) by (simp add: owns_def fun_eq_iff)
  then show ?thesis
    using placedD[OF inv[unfolded handle_inv_def]] m' assms(3) unfolding handle_inv_def
    by (intro placedI) (auto simp: owns_def)
qed

lemma handle_inv_release:
  assumes inv: "handle_inv m" and "th_release x m = (mp, m')"
  shows "handle_inv (m'\<lparr>raw := raw m \<union> set_option mp\<rparr>)"
proof (cases mp)
  case None
  show ?thesis
    using assms None by (intro handle_inv_same[OF inv]) (auto simp: th_release_def obj_at_def)
next
  case (Some p)
  let ?m = "m'\<lparr>raw := raw m \<union> set_option mp\<rparr>"
  have x: "obj_handle (obj_at m x) = Some p" and m': "m' = m\<lparr>objs := (objs m)(x \<mapsto> null_obj)\<rparr>"
    using assms(2) Some by (auto simp: th_release_def)
  then have own: "owns m x p" and only: "owns m x q \<longleftrightarrow> q = p" for q by (auto simp: owns_def)
  have at: "obj_at ?m z = (if z = x then null_obj else obj_at m z)" for z
    by (simp add: m' obj_at_def)
  then have "owns ?m z q \<longleftrightarrow> z \<noteq> x \<and> owns m z q" for z q by (simp add: owns_def)
  then have own': "owns ?m z q \<longleftrightarrow> owns m z q \<and> q \<noteq> p" for z q
    using placedD(1)[OF inv[unfolded handle_inv_def] own, of z] only by auto
  have ops: "owns ?m z q \<Longrightarrow> obj_op (obj_at ?m z) \<noteq> None" for z q
    unfolding at using owned_has_op[OF inv, of z q] own' only by (cases "z = x") simp_all
  show ?thesis
    using placed_give_raw[OF inv[unfolded handle_inv_def] own own' ops] Some
    by (simp add: handle_inv_def m')
qed

text \<open>Every step keeps the invariant.\<close>

lemma handle_inv_init: "handle_inv handle_init"
  by (simp add: handle_inv_def handle_init_def placed_def owns_def obj_at_def)

lemma obj_at_None: "objs m x = None \<Longrightarrow> obj_at m x = null_obj"
  by (simp add: obj_at_def)

lemma handle_inv_move_assign:
  assumes "handle_inv m"
  shows "handle_inv (th_move_assign x y m)"
proof (cases "x = y")
  case False
  then have "th_move_assign x y m = (th_reset x m)\<lparr>objs :=
      (objs (th_reset x m))(x \<mapsto> obj_at (th_reset x m) y, y \<mapsto> null_obj)\<rparr>"
    by (simp add: th_move_assign_def Let_def)
  moreover have "handle_inv \<dots>"
    by (rule handle_inv_moved[OF handle_inv_reset[OF assms, of x] _ False]) simp_all
  ultimately show ?thesis by simp
qed (simp add: th_move_assign_def assms)

lemma destroy_obj_at: "obj_at (th_destroy x m) z = obj_at (th_reset x m) z"
proof (cases "z = x")
  case False
  then show ?thesis by (simp add: th_destroy_def Let_def flip: obj_at_def)
qed (simp add: th_destroy_def Let_def)

lemma handle_inv_destroy:
  assumes "handle_inv m"
  shows "handle_inv (th_destroy x m)"
  by (rule handle_inv_same[OF handle_inv_reset[OF assms, of x]])
     (simp_all add: destroy_obj_at, simp_all add: th_destroy_def Let_def)

lemma handle_step_inv: "handle_step m m' \<Longrightarrow> handle_inv m \<Longrightarrow> handle_inv m'"
proof (induction rule: handle_step.induct)
  case (alloc m)
  then show ?case
    using placed_alloc by (simp add: handle_inv_def)
next
  case (free_raw p m f)
  then show ?case
    using placed_free_raw by (simp add: handle_inv_def)
next
  case (ctor_null m x f)
  then show ?case
    by (intro handle_inv_same[OF ctor_null.prems]) (auto simp: th_ctor_def obj_at_def)
next
  case (ctor m x p f)
  then show ?case
    using handle_inv_taken[OF ctor.prems ctor.hyps(2), of x _ f]
    by (simp add: th_ctor_def obj_at_None)
next
  case (move_ctor m x y)
  then show ?case
    by (cases "x = y")
       (auto simp: th_move_ctor_def obj_at_None intro!: handle_inv_moved[OF move_ctor.prems])
next
  case (set_operator m x f)
  then show ?case
    by (intro handle_inv_same[OF set_operator.prems]) (auto simp: th_obj_set_operator_def obj_at_def)
next
  case (set_handle m x p f)
  then show ?case
    using handle_inv_taken[OF set_handle.prems set_handle.hyps(3) set_handle.hyps(2), of _ f]
    by (simp add: th_obj_set_handle_def handle_obj_upd)
next
  case (release m x mp m')
  show ?case by (rule handle_inv_release[OF release.prems release.hyps(2)])
qed (simp_all add: handle_inv_move_assign handle_inv_reset handle_inv_destroy)

lemma handle_reachable_inv: "handle_step\<^sup>*\<^sup>* handle_init m \<Longrightarrow> handle_inv m"
  by (induction rule: rtranclp_induct) (auto intro: handle_inv_init handle_step_inv)

section \<open>Properties\<close>

text \<open>C7: However \<open>TransferHandle\<close> objects are created, moved, assigned, reset, released and
  destroyed (within the documented rules of use), no transfer is freed twice, a transfer
  held by a handle has not been freed and has one owner, and no transfer is lost: each one
  allocated is in one handle, a raw pointer of the caller, or freed.\<close>

theorem transfer_handle_ownership:
  assumes "handle_step\<^sup>*\<^sup>* handle_init m"
  shows "distinct (map snd (frees m)) \<and>
    (\<forall>x y p. owns m x p \<longrightarrow> owns m y p \<longrightarrow> x = y) \<and>
    (\<forall>x p. owns m x p \<longrightarrow> p \<notin> snd ` set (frees m)) \<and>
    (\<forall>p. p < fresh m \<longrightarrow> p \<in> raw m \<or> p \<in> snd ` set (frees m) \<or> (\<exists>x. owns m x p))"
proof -
  note d = placedD[OF handle_reachable_inv[OF assms, unfolded handle_inv_def]]
  have s: "set (map snd (frees m)) = snd ` set (frees m)" by simp
  show ?thesis
    using d(1,6) d(4)[unfolded s] d(7)[unfolded s] by (intro conjI allI impI) blast+
qed

theorem transfer_handle_ownership_witness:
  "distinct (map snd (frees (th_destroy 1 (th_move_ctor 1 0
     ((th_ctor 0 (Some 0) (Some 5) (handle_init\<lparr>raw := {0}, fresh := 1\<rparr>))\<lparr>raw := {}\<rparr>)))))"
proof -
  let ?m1 = "handle_init\<lparr>raw := {0}, fresh := 1\<rparr>"
  let ?m2 = "(th_ctor 0 (Some 0) (Some 5) ?m1)\<lparr>raw := {}\<rparr>"
  have "handle_step handle_init ?m1"
    using handle_step.alloc[of handle_init] by (simp add: handle_init_def)
  moreover have "handle_step ?m1 ?m2"
    using handle_step.ctor[of ?m1 0 0 5] by (simp add: handle_init_def)
  moreover have "handle_step ?m2 (th_move_ctor 1 0 ?m2)"
    by (rule handle_step.move_ctor) (simp_all add: th_ctor_def handle_init_def)
  moreover have "handle_step (th_move_ctor 1 0 ?m2) (th_destroy 1 (th_move_ctor 1 0 ?m2))"
    by (rule handle_step.destroy) (simp add: th_move_ctor_def)
  ultimately have "handle_step\<^sup>*\<^sup>* handle_init (th_destroy 1 (th_move_ctor 1 0 ?m2))"
    by (rule rtranclp.rtrancl_into_rtrancl[OF rtranclp.rtrancl_into_rtrancl[OF
          rtranclp.rtrancl_into_rtrancl[OF r_into_rtranclp]]])
  from transfer_handle_ownership[OF this] show ?thesis by simp
qed

end
