(* ===== verification/Protocol.thy ===== *)
theory Protocol
  imports Transfer_Op Transfer_Handle
begin

text \<open>
  The messages of \<open>protocol.h\<close> and \<open>protocol.cpp\<close>: the requests and replies of the
  operation phase (device list, import) and of the URB phase (submit, unlink), with
  their serialisation, the checks \<open>UsbIpCmdSubmit::from_socket\<close> makes on untrusted
  input, and the two dispatchers \<open>get_op_from_socket\<close> and
  \<open>get_cmd_from_socket\<close>. An exception is the left side of the result.
\<close>

section \<open>Constants and error codes\<close>

definition USBIPDCPP_MAX_TRANSFER_BUFFER_SIZE :: nat where
  "USBIPDCPP_MAX_TRANSFER_BUFFER_SIZE = 16 * 1024 * 1024"
definition USBIPDCPP_MAX_ISO_PACKETS :: nat where "USBIPDCPP_MAX_ISO_PACKETS = 1024"
definition USBIP_VERSION :: u16 where "USBIP_VERSION = 0x0111"
definition OP_REQ_DEVLIST :: u16 where "OP_REQ_DEVLIST = 0x8005"
definition OP_REP_DEVLIST :: u16 where "OP_REP_DEVLIST = 0x0005"
definition OP_REQ_IMPORT :: u16 where "OP_REQ_IMPORT = 0x8003"
definition OP_REP_IMPORT :: u16 where "OP_REP_IMPORT = 0x0003"
definition USBIP_CMD_SUBMIT :: u32 where "USBIP_CMD_SUBMIT = 1"
definition USBIP_CMD_UNLINK :: u32 where "USBIP_CMD_UNLINK = 2"
definition USBIP_RET_SUBMIT :: u32 where "USBIP_RET_SUBMIT = 3"
definition USBIP_RET_UNLINK :: u32 where "USBIP_RET_UNLINK = 4"

lemmas protocol_consts = USBIP_VERSION_def OP_REQ_DEVLIST_def OP_REP_DEVLIST_def
  OP_REQ_IMPORT_def OP_REP_IMPORT_def USBIP_CMD_SUBMIT_def USBIP_CMD_UNLINK_def
  USBIP_RET_SUBMIT_def USBIP_RET_UNLINK_def

datatype ErrorType =
  Err_OK | UNKNOWN_VERSION | UNKNOWN_CMD | PROTOCOL_ERROR | NO_DEVICE | SOCKET_EOF | SOCKET_ERR
| INTERNAL_ERROR | INVALID_ARG | UNIMPLEMENTED | TRANSFER_ERROR

fun error_message :: "ErrorType \<Rightarrow> string" where
  "error_message Err_OK = ''OK''"
| "error_message UNKNOWN_VERSION = ''Unknown UsbIp Version''"
| "error_message UNKNOWN_CMD = ''Unknown Command''"
| "error_message PROTOCOL_ERROR = ''Protocol Error''"
| "error_message NO_DEVICE = ''No Device''"
| "error_message SOCKET_EOF = ''Connection closed by peer''"
| "error_message SOCKET_ERR = ''Connection err''"
| "error_message INTERNAL_ERROR = ''Internal Error''"
| "error_message INVALID_ARG = ''Invalid Argument''"
| "error_message UNIMPLEMENTED = ''Unimplemented''"
| "error_message TRANSFER_ERROR = ''Transfer Error''"

datatype OperationStatuType = OpSt_OK | OpSt_NA | OpSt_DevBusy | OpSt_DevError | OpSt_NoDev | OpSt_Error

fun op_status_code :: "OperationStatuType \<Rightarrow> u32" where
  "op_status_code OpSt_OK = 0"
| "op_status_code OpSt_NA = 1"
| "op_status_code OpSt_DevBusy = 2"
| "op_status_code OpSt_DevError = 3"
| "op_status_code OpSt_NoDev = 4"
| "op_status_code OpSt_Error = 5"

datatype UrbStatusType =
  StatusOK | StatusECONNRESET | StatusEPIPE | StatusESHUTDOWN | StatusENODEV | StatusENOENT
| StatusETIMEDOUT | StatusEEOVERFLOW

fun urb_status_code :: "UrbStatusType \<Rightarrow> u32" where
  "urb_status_code StatusOK = 0"
| "urb_status_code StatusECONNRESET = - 104"
| "urb_status_code StatusEPIPE = - 32"
| "urb_status_code StatusESHUTDOWN = - 108"
| "urb_status_code StatusENODEV = - 19"
| "urb_status_code StatusENOENT = - 2"
| "urb_status_code StatusETIMEDOUT = - 110"
| "urb_status_code StatusEEOVERFLOW = - 75"

section \<open>Operation phase: requests\<close>

record OpReqDevlist =
  rqd_status :: u32

record OpReqImport =
  rqi_status :: u32
  rqi_busid :: data

definition op_req_devlist_to_bytes :: "OpReqDevlist \<Rightarrow> data" where
  "op_req_devlist_to_bytes r =
     to_network_array [F16 USBIP_VERSION, F16 OP_REQ_DEVLIST, F32 (rqd_status r)]"

definition op_req_devlist_from_socket :: "OpReqDevlist reader" where
  "op_req_devlist_from_socket = rd_bind read_u32 (\<lambda>st. rd_return \<lparr>rqd_status = st\<rparr>)"

definition op_req_import_to_bytes :: "OpReqImport \<Rightarrow> data" where
  "op_req_import_to_bytes r =
     to_network_array [F16 USBIP_VERSION, F16 OP_REQ_IMPORT, F32 (rqi_status r),
                       FArr (rqi_busid r)]"

definition op_req_import_from_socket :: "OpReqImport reader" where
  "op_req_import_from_socket =
     rd_bind (data_read_from_socket [R32, RArr 32]) (\<lambda>fs.
       rd_return \<lparr>rqi_status = as32 (fs ! 0), rqi_busid = as_arr (fs ! 1)\<rparr>)"

datatype OpCmdVariant = Req_Devlist OpReqDevlist | Req_Import OpReqImport

text \<open>The handlers of \<open>asio::system_error\<close>.\<close>

definition classify_error :: "sys_error \<Rightarrow> ErrorType" where
  "classify_error e = (if e = Asio_eof then SOCKET_EOF else SOCKET_ERR)"

fun catch_system_error :: "sys_error + 'a \<Rightarrow> ErrorType + 'a" where
  "catch_system_error (Inl e) = Inl (classify_error e)"
| "catch_system_error (Inr r) = Inr r"

definition get_op_from_socket :: "tcp_in \<Rightarrow> ErrorType + (OpCmdVariant \<times> tcp_in)" where
  "get_op_from_socket s =
     (case read_u16 s of
        Inl e \<Rightarrow> Inl (classify_error e)
      | Inr (version, s1) \<Rightarrow>
          if version \<noteq> 0 \<and> version \<noteq> USBIP_VERSION then Inl UNKNOWN_VERSION
          else (case read_u16 s1 of
              Inl e \<Rightarrow> Inl (classify_error e)
            | Inr (opc, s2) \<Rightarrow>
                if opc = OP_REQ_DEVLIST
                then catch_system_error
                  (rd_bind op_req_devlist_from_socket (\<lambda>r. rd_return (Req_Devlist r)) s2)
                else if opc = OP_REQ_IMPORT
                then catch_system_error
                  (rd_bind op_req_import_from_socket (\<lambda>r. rd_return (Req_Import r)) s2)
                else Inl UNKNOWN_CMD))"

section \<open>Operation phase: replies\<close>

record OpRepDevlist =
  rpd_status :: u32
  rpd_device_count :: u32
  rpd_devices :: "UsbDevice list"

definition op_rep_devlist_head :: "OpRepDevlist \<Rightarrow> data" where
  "op_rep_devlist_head r =
     to_network_data [F16 USBIP_VERSION, F16 OP_REP_DEVLIST, F32 (rpd_status r),
                      F32 (rpd_device_count r)]"

definition op_rep_devlist_to_bytes :: "OpRepDevlist \<Rightarrow> data" where
  "op_rep_devlist_to_bytes r =
     fold (\<lambda>d result. result @ to_bytes_with_interfaces d) (rpd_devices r)
       (op_rep_devlist_head r)"

text \<open>\<open>to_socket\<close> writes piece by piece; a later write overwrites the error code of an
  earlier one.\<close>

definition op_rep_devlist_to_socket :: "OpRepDevlist \<Rightarrow> tcp_out \<Rightarrow> sys_error option \<times> tcp_out" where
  "op_rep_devlist_to_socket r w =
     fold (\<lambda>d (ec, w). asio_write (to_bytes_with_interfaces d) w) (rpd_devices r)
       (asio_write (op_rep_devlist_head r) w)"

fun read_interfaces :: "UsbInterface list \<Rightarrow> UsbInterface list reader" where
  "read_interfaces [] = rd_return []"
| "read_interfaces (i # is) =
     rd_bind (interface_from_socket i) (\<lambda>i'.
     rd_bind (read_interfaces is) (\<lambda>is'. rd_return (i' # is')))"

definition read_device_with_interfaces :: "UsbDevice reader" where
  "read_device_with_interfaces =
     rd_bind (device_from_socket default_device) (\<lambda>d.
     rd_bind (read_interfaces (ud_interfaces d)) (\<lambda>is.
     rd_return (d\<lparr>ud_interfaces := is\<rparr>)))"

definition op_rep_devlist_from_socket :: "OpRepDevlist reader" where
  "op_rep_devlist_from_socket =
     rd_bind (data_read_from_socket [R32, R32]) (\<lambda>fs.
     rd_bind (read_many (unat (as32 (fs ! 1))) read_device_with_interfaces) (\<lambda>ds.
     rd_return \<lparr>rpd_status = as32 (fs ! 0), rpd_device_count = as32 (fs ! 1),
                rpd_devices = ds\<rparr>))"

definition op_rep_devlist_create_from_devices :: "UsbDevice list \<Rightarrow> OpRepDevlist" where
  "op_rep_devlist_create_from_devices ds =
     \<lparr>rpd_status = 0, rpd_device_count = of_nat (length ds), rpd_devices = ds\<rparr>"

record OpRepImport =
  rpi_status :: u32
  rpi_device :: "UsbDevice option"

definition op_rep_import_head :: "OpRepImport \<Rightarrow> data" where
  "op_rep_import_head r =
     to_network_data [F16 USBIP_VERSION, F16 OP_REP_IMPORT, F32 (rpi_status r)]"

definition op_rep_import_to_bytes :: "OpRepImport \<Rightarrow> data" where
  "op_rep_import_to_bytes r =
     (case (rpi_status r = 0, rpi_device r) of
        (True, Some d) \<Rightarrow> vector_append_to_net (op_rep_import_head r) [FArr (device_to_bytes d)]
      | _ \<Rightarrow> op_rep_import_head r)"

definition op_rep_import_to_socket :: "OpRepImport \<Rightarrow> tcp_out \<Rightarrow> sys_error option \<times> tcp_out" where
  "op_rep_import_to_socket r w =
     (if rpi_status r = 0
      then (case rpi_device r of
              Some d \<Rightarrow> asio_write (op_rep_import_head r @ device_to_bytes d) w
            | None \<Rightarrow> asio_write (op_rep_import_head r) w)
      else asio_write (op_rep_import_head r) w)"

definition op_rep_import_from_socket :: "OpRepImport reader" where
  "op_rep_import_from_socket =
     rd_bind (data_read_from_socket [R32]) (\<lambda>fs.
       if as32 (fs ! 0) = 0
       then rd_bind (device_from_socket default_device) (\<lambda>d.
              rd_return \<lparr>rpi_status = 0, rpi_device = Some d\<rparr>)
       else rd_return \<lparr>rpi_status = as32 (fs ! 0), rpi_device = None\<rparr>)"

definition op_rep_import_on_failure_with_status :: "u32 \<Rightarrow> OpRepImport" where
  "op_rep_import_on_failure_with_status st = \<lparr>rpi_status = st, rpi_device = None\<rparr>"

definition op_rep_import_on_failure :: OpRepImport where
  "op_rep_import_on_failure = op_rep_import_on_failure_with_status (op_status_code OpSt_NA)"

definition op_rep_import_on_success :: "UsbDevice \<Rightarrow> OpRepImport" where
  "op_rep_import_on_success d = \<lparr>rpi_status = op_status_code OpSt_OK, rpi_device = Some d\<rparr>"

section \<open>URB phase: commands\<close>

record 'tr UsbIpCmdSubmit =
  cs_header :: UsbIpHeaderBasic
  cs_transfer_flags :: u32
  cs_transfer_buffer_length :: u32
  cs_start_frame :: u32
  cs_number_of_packets :: u32
  cs_interval :: u32
  cs_setup :: SetupPacket
  cs_transfer :: "'tr TransferHandle"

definition cmd_submit_fixed_specs :: "net_spec list" where
  "cmd_submit_fixed_specs = [R32, R32, R32, R32, R32, R32, R32, R32, R32, RArr 8]"

definition cmd_submit_head :: "'tr UsbIpCmdSubmit \<Rightarrow> data" where
  "cmd_submit_head c =
     to_network_array [FArr (header_to_bytes (cs_header c)), F32 (cs_transfer_flags c),
       F32 (cs_transfer_buffer_length c), F32 (cs_start_frame c), F32 (cs_number_of_packets c),
       F32 (cs_interval c), FArr (setup_to_bytes (cs_setup c))]"

definition cmd_submit_to_socket ::
    "'tr UsbIpCmdSubmit \<Rightarrow> tcp_out \<Rightarrow> (sys_error option \<times> tcp_out) option" where
  "cmd_submit_to_socket c w =
     (case asio_write (cmd_submit_head c) w of
        (Some e, w1) \<Rightarrow> Some (Some e, w1)
      | (None, w1) \<Rightarrow>
          (case th_handle (cs_transfer c) of
             None \<Rightarrow> Some (None, w1)
           | Some t \<Rightarrow>
               (case th_op (cs_transfer c) of
                  Some (Leaf_op p) \<Rightarrow>
                    send_transfer_data p t
                      (if transfer_is_in p t then 0 else unat (cs_transfer_buffer_length c)) w1
                | _ \<Rightarrow> None)))"

definition cmd_submit_num_iso :: "u32 \<Rightarrow> nat" where
  "cmd_submit_num_iso n = (if n \<noteq> 0 \<and> n \<noteq> 0xFFFFFFFF then unat n else 0)"

text \<open>The part of \<open>from_socket\<close> after the fixed fields are read: the three checks, the
  allocation and the data stage. The handle starts with the routing operator set.\<close>

definition cmd_submit_finish ::
    "'tr transfer_op \<Rightarrow> net_field list \<Rightarrow> tcp_in \<Rightarrow>
     (sys_error + ('tr UsbIpCmdSubmit \<times> tcp_in)) option" where
  "cmd_submit_finish routing_op fs s =
     (let header = \<lparr>h_command = USBIP_CMD_SUBMIT, h_seqnum = as32 (fs ! 0), h_devid = as32 (fs ! 1),
                    h_direction = as32 (fs ! 2), h_ep = as32 (fs ! 3)\<rparr>;
          tbl = as32 (fs ! 5); packets = as32 (fs ! 7); setup = setup_parse (as_arr (fs ! 9))
      in if h_ep header > 0x7F then Some (Inl Errc_protocol_error)
      else if unat tbl > USBIPDCPP_MAX_TRANSFER_BUFFER_SIZE then Some (Inl Errc_no_buffer_space)
      else if packets \<noteq> 0xFFFFFFFF \<and> unat packets > USBIPDCPP_MAX_ISO_PACKETS
      then Some (Inl Errc_no_buffer_space)
      else
        (let leaf_op = get_operator_for_ep routing_op (restore_real_ep header)
         in case alloc_transfer_handle leaf_op (unat tbl) (cmd_submit_num_iso packets) header setup of
              None \<Rightarrow> Some (Inl Errc_no_buffer_space)
            | Some t \<Rightarrow>
                (case recv_transfer_data leaf_op t
                        (if h_direction header = UsbIpDirection_In then 0 else unat tbl) s of
                   None \<Rightarrow> None
                 | Some (Inl e) \<Rightarrow> Some (Inl e)
                 | Some (Inr (t', s')) \<Rightarrow>
                     Some (Inr (\<lparr>cs_header = header, cs_transfer_flags = as32 (fs ! 4),
                            cs_transfer_buffer_length = tbl, cs_start_frame = as32 (fs ! 6),
                            cs_number_of_packets = packets, cs_interval = as32 (fs ! 8),
                            cs_setup = setup,
                            cs_transfer = th_set_handle t' leaf_op
                              (th_set_operator routing_op TransferHandle_empty)\<rparr>, s')))))"

definition cmd_submit_from_socket ::
    "'tr transfer_op \<Rightarrow> tcp_in \<Rightarrow> (sys_error + ('tr UsbIpCmdSubmit \<times> tcp_in)) option" where
  "cmd_submit_from_socket routing_op s =
     (case unsigned_integral_and_array_read_from_socket 0 cmd_submit_fixed_specs s of
        Inl e \<Rightarrow> Some (Inl e)
      | Inr (fs, s') \<Rightarrow> cmd_submit_finish routing_op fs s')"

record UsbIpCmdUnlink =
  cu_header :: UsbIpHeaderBasic
  cu_unlink_seqnum :: u32

definition cmd_unlink_to_bytes :: "UsbIpCmdUnlink \<Rightarrow> data" where
  "cmd_unlink_to_bytes c =
     array_add_padding 24
       (to_network_array [FArr (header_to_bytes (cu_header c)), F32 (cu_unlink_seqnum c)])"

definition cmd_unlink_from_socket :: "UsbIpCmdUnlink reader" where
  "cmd_unlink_from_socket =
     rd_bind (unsigned_integral_and_array_read_from_socket 24 [R32, R32, R32, R32, R32]) (\<lambda>fs.
       rd_return \<lparr>cu_header = \<lparr>h_command = USBIP_CMD_UNLINK, h_seqnum = as32 (fs ! 0),
                    h_devid = as32 (fs ! 1), h_direction = as32 (fs ! 2), h_ep = as32 (fs ! 3)\<rparr>,
                  cu_unlink_seqnum = as32 (fs ! 4)\<rparr>)"

datatype 'tr CmdVariant = Cmd_Submit "'tr UsbIpCmdSubmit" | Cmd_Unlink UsbIpCmdUnlink

definition get_cmd_from_socket ::
    "'tr transfer_op \<Rightarrow> tcp_in \<Rightarrow> (ErrorType + ('tr CmdVariant \<times> tcp_in)) option" where
  "get_cmd_from_socket handler_op s =
     (case read_u32 s of
        Inl e \<Rightarrow> Some (Inl (classify_error e))
      | Inr (cmd, s1) \<Rightarrow>
          if cmd = USBIP_CMD_SUBMIT
          then (case cmd_submit_from_socket handler_op s1 of
                  None \<Rightarrow> None
                | Some (Inl e) \<Rightarrow> Some (Inl (classify_error e))
                | Some (Inr (c, s')) \<Rightarrow> Some (Inr (Cmd_Submit c, s')))
          else if cmd = USBIP_CMD_UNLINK
          then Some (catch_system_error
                 (rd_bind cmd_unlink_from_socket (\<lambda>c. rd_return (Cmd_Unlink c)) s1))
          else Some (Inl UNKNOWN_CMD))"

section \<open>URB phase: responses\<close>

record 'tr UsbIpRetSubmit =
  rs_header :: UsbIpHeaderBasic
  rs_status :: u32
  rs_actual_length :: u32
  rs_start_frame :: u32
  rs_number_of_packets :: u32
  rs_error_count :: u32
  rs_transfer :: "'tr TransferHandle"

definition ret_submit_head :: "'tr UsbIpRetSubmit \<Rightarrow> data" where
  "ret_submit_head r =
     array_add_padding 8
       (to_network_array [FArr (header_to_bytes (rs_header r)), F32 (rs_status r),
          F32 (rs_actual_length r), F32 (rs_start_frame r), F32 (rs_number_of_packets r),
          F32 (rs_error_count r)])"

definition ret_submit_to_socket ::
    "'tr UsbIpRetSubmit \<Rightarrow> tcp_out \<Rightarrow> (sys_error option \<times> tcp_out) option" where
  "ret_submit_to_socket r w =
     (case th_handle (rs_transfer r) of
        Some t \<Rightarrow>
          if rs_actual_length r > 0 \<or> rs_number_of_packets r > 0
          then (case asio_write (ret_submit_head r) w of
                  (Some e, w1) \<Rightarrow> Some (Some e, w1)
                | (None, w1) \<Rightarrow>
                    (case th_op (rs_transfer r) of
                       Some (Leaf_op p) \<Rightarrow>
                         send_transfer_data p t
                           (if transfer_is_in p t then unat (rs_actual_length r) else 0) w1
                     | _ \<Rightarrow> None))
          else Some (asio_write (ret_submit_head r) w)
      | None \<Rightarrow> Some (asio_write (ret_submit_head r) w))"

definition ret_submit_from_socket :: "'tr TransferHandle \<Rightarrow> 'tr UsbIpRetSubmit reader" where
  "ret_submit_from_socket th =
     rd_bind (unsigned_integral_and_array_read_from_socket 8
                [R32, R32, R32, R32, R32, R32, R32, R32, R32]) (\<lambda>fs.
       rd_return \<lparr>rs_header = \<lparr>h_command = USBIP_RET_SUBMIT, h_seqnum = as32 (fs ! 0),
                    h_devid = as32 (fs ! 1), h_direction = as32 (fs ! 2), h_ep = as32 (fs ! 3)\<rparr>,
                  rs_status = as32 (fs ! 4), rs_actual_length = as32 (fs ! 5),
                  rs_start_frame = as32 (fs ! 6), rs_number_of_packets = as32 (fs ! 7),
                  rs_error_count = as32 (fs ! 8), rs_transfer = th\<rparr>)"

definition create_ret_submit ::
    "u32 \<Rightarrow> u32 \<Rightarrow> u32 \<Rightarrow> u32 \<Rightarrow> u32 \<Rightarrow> 'tr TransferHandle \<Rightarrow> 'tr UsbIpRetSubmit" where
  "create_ret_submit seqnum status actual_length start_frame number_of_packets transfer =
     \<lparr>rs_header = get_server_header USBIP_RET_SUBMIT seqnum, rs_status = status,
      rs_actual_length = actual_length, rs_start_frame = start_frame,
      rs_number_of_packets = number_of_packets, rs_error_count = 0, rs_transfer = transfer\<rparr>"

definition create_ret_submit_ok_without_data :: "u32 \<Rightarrow> u32 \<Rightarrow> 'tr UsbIpRetSubmit" where
  "create_ret_submit_ok_without_data seqnum actual_length =
     \<lparr>rs_header = get_server_header USBIP_RET_SUBMIT seqnum, rs_status = urb_status_code StatusOK,
      rs_actual_length = actual_length, rs_start_frame = 0, rs_number_of_packets = 0,
      rs_error_count = 0, rs_transfer = TransferHandle_empty\<rparr>"

definition create_ret_submit_with_status_and_no_data ::
    "u32 \<Rightarrow> u32 \<Rightarrow> u32 \<Rightarrow> 'tr UsbIpRetSubmit" where
  "create_ret_submit_with_status_and_no_data seqnum status actual_length =
     \<lparr>rs_header = get_server_header USBIP_RET_SUBMIT seqnum, rs_status = status,
      rs_actual_length = actual_length, rs_start_frame = 0, rs_number_of_packets = 0,
      rs_error_count = 0, rs_transfer = TransferHandle_empty\<rparr>"

definition create_ret_submit_with_status_and_no_iso ::
    "u32 \<Rightarrow> u32 \<Rightarrow> u32 \<Rightarrow> 'tr TransferHandle \<Rightarrow> 'tr UsbIpRetSubmit" where
  "create_ret_submit_with_status_and_no_iso seqnum status actual_length transfer =
     \<lparr>rs_header = get_server_header USBIP_RET_SUBMIT seqnum, rs_status = status,
      rs_actual_length = actual_length, rs_start_frame = 0, rs_number_of_packets = 0,
      rs_error_count = 0, rs_transfer = transfer\<rparr>"

definition create_ret_submit_epipe_no_iso ::
    "u32 \<Rightarrow> u32 \<Rightarrow> 'tr TransferHandle \<Rightarrow> 'tr UsbIpRetSubmit" where
  "create_ret_submit_epipe_no_iso seqnum =
     create_ret_submit_with_status_and_no_iso seqnum (urb_status_code StatusEPIPE)"

definition create_ret_submit_epipe_without_data :: "u32 \<Rightarrow> u32 \<Rightarrow> 'tr UsbIpRetSubmit" where
  "create_ret_submit_epipe_without_data seqnum actual_length =
     \<lparr>rs_header = get_server_header USBIP_RET_SUBMIT seqnum,
      rs_status = urb_status_code StatusEPIPE, rs_actual_length = actual_length,
      rs_start_frame = 0, rs_number_of_packets = 0, rs_error_count = 0,
      rs_transfer = TransferHandle_empty\<rparr>"

definition create_ret_submit_ok_with_no_iso ::
    "u32 \<Rightarrow> u32 \<Rightarrow> 'tr TransferHandle \<Rightarrow> 'tr UsbIpRetSubmit" where
  "create_ret_submit_ok_with_no_iso seqnum =
     create_ret_submit_with_status_and_no_iso seqnum (urb_status_code StatusOK)"

record UsbIpRetUnlink =
  ru_header :: UsbIpHeaderBasic
  ru_status :: u32

definition ret_unlink_to_bytes :: "UsbIpRetUnlink \<Rightarrow> data" where
  "ret_unlink_to_bytes r =
     array_add_padding 24
       (to_network_array [FArr (header_to_bytes (ru_header r)), F32 (ru_status r)])"

definition ret_unlink_from_socket :: "UsbIpRetUnlink reader" where
  "ret_unlink_from_socket =
     rd_bind (unsigned_integral_and_array_read_from_socket 24 [R32, R32, R32, R32, R32]) (\<lambda>fs.
       rd_return \<lparr>ru_header = \<lparr>h_command = USBIP_RET_UNLINK, h_seqnum = as32 (fs ! 0),
                    h_devid = as32 (fs ! 1), h_direction = as32 (fs ! 2), h_ep = as32 (fs ! 3)\<rparr>,
                  ru_status = as32 (fs ! 4)\<rparr>)"

definition create_ret_unlink :: "u32 \<Rightarrow> u32 \<Rightarrow> UsbIpRetUnlink" where
  "create_ret_unlink seqnum status =
     \<lparr>ru_header = get_server_header USBIP_RET_UNLINK seqnum, ru_status = status\<rparr>"

definition create_ret_unlink_success :: "u32 \<Rightarrow> UsbIpRetUnlink" where
  "create_ret_unlink_success seqnum =
     \<lparr>ru_header = get_server_header USBIP_RET_UNLINK seqnum,
      ru_status = urb_status_code StatusOK\<rparr>"

datatype 'tr RetVariant = Ret_Submit "'tr UsbIpRetSubmit" | Ret_Unlink UsbIpRetUnlink

end
