(* ===== verification/Protocol_Props.thy ===== *)
theory Protocol_Props
  imports Protocol
begin

text \<open>
  Facts about the protocol layer: what an accepted \<open>CMD_SUBMIT\<close> guarantees, that parsing
  stays inside the buffers it allocates, the round trips of the messages, and the length of
  a response on the wire.
\<close>

section \<open>Reading fixed parts\<close>

lemma read_fields_roundtrip:
  assumes "specs = map spec_of fs" and "length pad = padding"
    and "rx s = concat (map be_field fs) @ pad @ rest"
  shows "unsigned_integral_and_array_read_from_socket padding specs s = Inr (fs, s\<lparr>rx := rest\<rparr>)"
  unfolding unsigned_integral_and_array_read_from_socket_def
  by (rule read_all_fields_on_roundtrip[OF assms])

definition header_tail :: "UsbIpHeaderBasic \<Rightarrow> net_field list" where
  "header_tail h = [F32 (h_seqnum h), F32 (h_devid h), F32 (h_direction h), F32 (h_ep h)]"

lemma header_to_bytes_split:
  "header_to_bytes h = be_bytes (h_command h) @ concat (map be_field (header_tail h))"
  by (simp add: header_to_bytes_def header_tail_def)

lemma read_header_command:
  assumes "rx s = header_to_bytes h @ rest"
  shows "read_u32 s = Inr (h_command h, s\<lparr>rx := concat (map be_field (header_tail h)) @ rest\<rparr>)"
  using assms by (intro read_u32_roundtrip) (simp add: header_to_bytes_split)

lemma cmd_unlink_read:
  assumes "h_command (cu_header c) = USBIP_CMD_UNLINK"
    and "rx s = concat (map be_field (header_tail (cu_header c))) @ be_bytes (cu_unlink_seqnum c)
           @ replicate 24 0 @ rest"
  shows "cmd_unlink_from_socket s = Inr (c, s\<lparr>rx := rest\<rparr>)"
proof -
  have "unsigned_integral_and_array_read_from_socket 24 [R32, R32, R32, R32, R32] s
     = Inr (header_tail (cu_header c) @ [F32 (cu_unlink_seqnum c)], s\<lparr>rx := rest\<rparr>)"
    using assms(2)
    by (intro read_fields_roundtrip[where pad = "replicate 24 0"]) (simp_all add: header_tail_def)
  then show ?thesis
    using assms(1) by (simp add: cmd_unlink_from_socket_def reader_defs header_tail_def)
qed

lemma ret_unlink_read:
  assumes "h_command (ru_header r) = USBIP_RET_UNLINK"
    and "rx s = concat (map be_field (header_tail (ru_header r))) @ be_bytes (ru_status r)
           @ replicate 24 0 @ rest"
  shows "ret_unlink_from_socket s = Inr (r, s\<lparr>rx := rest\<rparr>)"
proof -
  have "unsigned_integral_and_array_read_from_socket 24 [R32, R32, R32, R32, R32] s
     = Inr (header_tail (ru_header r) @ [F32 (ru_status r)], s\<lparr>rx := rest\<rparr>)"
    using assms(2)
    by (intro read_fields_roundtrip[where pad = "replicate 24 0"]) (simp_all add: header_tail_def)
  then show ?thesis
    using assms(1) by (simp add: ret_unlink_from_socket_def reader_defs header_tail_def)
qed

lemma ret_submit_read:
  assumes "h_command (rs_header r) = USBIP_RET_SUBMIT"
    and "rx s = concat (map be_field (header_tail (rs_header r) @
           [F32 (rs_status r), F32 (rs_actual_length r), F32 (rs_start_frame r),
            F32 (rs_number_of_packets r), F32 (rs_error_count r)])) @ replicate 8 0 @ rest"
  shows "ret_submit_from_socket (rs_transfer r) s = Inr (r, s\<lparr>rx := rest\<rparr>)"
proof -
  have "unsigned_integral_and_array_read_from_socket 8
          [R32, R32, R32, R32, R32, R32, R32, R32, R32] s
     = Inr (header_tail (rs_header r) @ [F32 (rs_status r), F32 (rs_actual_length r),
         F32 (rs_start_frame r), F32 (rs_number_of_packets r), F32 (rs_error_count r)],
         s\<lparr>rx := rest\<rparr>)"
    using assms(2)
    by (intro read_fields_roundtrip[where pad = "replicate 8 0"]) (simp_all add: header_tail_def)
  then show ?thesis
    using assms(1) by (simp add: ret_submit_from_socket_def reader_defs header_tail_def)
qed

text \<open>
  The peer of a message that starts with the common header reads the command code first and
  then the rest; as codecs these messages have 48 bytes.
\<close>

definition after_command :: "'a reader \<Rightarrow> 'a reader" where
  "after_command rd = rd_bind read_u32 (\<lambda>_. rd)"

interpretation cmd_unlink_codec: fixed_byte_codec
  cmd_unlink_to_bytes "after_command cmd_unlink_from_socket"
  "\<lambda>c. h_command (cu_header c) = USBIP_CMD_UNLINK" id 48
  by unfold_locales
     (simp_all add: cmd_unlink_to_bytes_def after_command_def reader_defs read_header_command
       cmd_unlink_read)

interpretation ret_unlink_codec: fixed_byte_codec
  ret_unlink_to_bytes "after_command ret_unlink_from_socket"
  "\<lambda>c. h_command (ru_header c) = USBIP_RET_UNLINK" id 48
  by unfold_locales
     (simp_all add: ret_unlink_to_bytes_def after_command_def reader_defs read_header_command
       ret_unlink_read)

lemma length_ret_submit_head [simp]: "length (ret_submit_head r) = 48"
  by (simp add: ret_submit_head_def)

lemma ret_submit_head_read:
  assumes "h_command (rs_header r) = USBIP_RET_SUBMIT" and "rx s = ret_submit_head r @ rest"
  shows "after_command (ret_submit_from_socket (rs_transfer r)) s = Inr (r, s\<lparr>rx := rest\<rparr>)"
  using assms
  by (simp add: ret_submit_head_def after_command_def reader_defs read_header_command
      ret_submit_read)

lemma get_cmd_unlink:
  assumes "h_command (cu_header c) = USBIP_CMD_UNLINK" and "rx s = cmd_unlink_to_bytes c @ rest"
  shows "get_cmd_from_socket p s = Some (Inr (Cmd_Unlink c, s\<lparr>rx := rest\<rparr>))"
  using assms
  by (simp add: get_cmd_from_socket_def cmd_unlink_to_bytes_def read_header_command
      cmd_unlink_read reader_defs USBIP_CMD_UNLINK_def USBIP_CMD_SUBMIT_def)

section \<open>CMD_SUBMIT\<close>

definition cmd_submit_wf :: "'tr UsbIpCmdSubmit \<Rightarrow> bool" where
  "cmd_submit_wf c \<longleftrightarrow>
     h_command (cs_header c) = USBIP_CMD_SUBMIT \<and> h_ep (cs_header c) \<le> 0x7F \<and>
     unat (cs_transfer_buffer_length c) \<le> USBIPDCPP_MAX_TRANSFER_BUFFER_SIZE \<and>
     (cs_number_of_packets c = 0xFFFFFFFF \<or>
      unat (cs_number_of_packets c) \<le> USBIPDCPP_MAX_ISO_PACKETS)"

lemma cmd_submit_finish_wf:
  assumes "cmd_submit_finish rop fs s = Some (Inr (c, s'))"
  shows "cmd_submit_wf c \<and>
    th_op (cs_transfer c) = Some (Leaf_op (get_operator_for_ep rop (restore_real_ep (cs_header c)))) \<and>
    th_handle (cs_transfer c) \<noteq> None"
  using assms
  by (auto simp: cmd_submit_finish_def cmd_submit_wf_def Let_def th_set_handle_def not_less
      split: if_splits option.splits sum.splits)

lemma cmd_submit_from_socket_wf:
  assumes "cmd_submit_from_socket rop s = Some (Inr (c, s'))"
  shows "cmd_submit_wf c \<and>
    th_op (cs_transfer c) = Some (Leaf_op (get_operator_for_ep rop (restore_real_ep (cs_header c)))) \<and>
    th_handle (cs_transfer c) \<noteq> None"
  using assms by (auto simp: cmd_submit_from_socket_def split: sum.splits dest!: cmd_submit_finish_wf)

lemma cmd_submit_finish_None:
  assumes "cmd_submit_finish rop fs s = None"
  shows "\<exists>lop len niso h sp t d. lop = get_operator_for_ep rop (restore_real_ep h) \<and>
    alloc_transfer_handle lop len niso h sp = Some t \<and>
    recv_transfer_data lop t (if d then 0 else len) s = None"
proof -
  let ?h = "\<lparr>h_command = USBIP_CMD_SUBMIT, h_seqnum = as32 (fs ! 0), h_devid = as32 (fs ! 1),
      h_direction = as32 (fs ! 2), h_ep = as32 (fs ! 3)\<rparr>"
  let ?lop = "get_operator_for_ep rop (restore_real_ep ?h)"
  let ?len = "unat (as32 (fs ! 5))"
  obtain t where "alloc_transfer_handle ?lop ?len (cmd_submit_num_iso (as32 (fs ! 7))) ?h
        (setup_parse (as_arr (fs ! 9))) = Some t"
    and "recv_transfer_data ?lop t
        (if h_direction ?h = UsbIpDirection_In then 0 else ?len) s = None"
    using assms unfolding cmd_submit_finish_def Let_def
    by (force split: if_split_asm option.split_asm sum.split_asm)
  then show ?thesis by blast
qed

context transfer_receiver
begin

lemma cmd_submit_finish_in_bounds:
  assumes "\<And>ep. get_operator_for_ep rop ep = tr_op"
  shows "cmd_submit_finish rop fs s \<noteq> None"
proof
  assume "cmd_submit_finish rop fs s = None"
  then obtain len niso h sp t d where t: "alloc_transfer_handle tr_op len niso h sp = Some t"
    and "recv_transfer_data tr_op t (if d then 0 else len) s = None"
    using cmd_submit_finish_None assms by metis
  then show False using recv_allocated[OF t, of "if d then 0 else len" s] by (cases d) auto
qed

lemma get_cmd_in_bounds:
  assumes "\<And>ep. get_operator_for_ep rop ep = tr_op"
  shows "get_cmd_from_socket rop s \<noteq> None"
proof -
  have "cmd_submit_from_socket rop s1 \<noteq> None" for s1
    using cmd_submit_finish_in_bounds[OF assms]
    by (auto simp: cmd_submit_from_socket_def split: sum.splits)
  then show ?thesis
    by (auto simp: get_cmd_from_socket_def simp del: not_None_eq
        split: sum.splits option.splits)
qed

end

context transfer_operator
begin

lemma cmd_submit_transfer_shape:
  assumes "\<And>ep. get_operator_for_ep rop ep = tr_op"
    and "cmd_submit_finish rop fs s = Some (Inr (c, s'))"
  shows "\<exists>t. th_handle (cs_transfer c) = Some t \<and>
    capacity t = unat (cs_transfer_buffer_length c) \<and>
    packets t = cmd_submit_num_iso (cs_number_of_packets c) \<and>
    transfer_is_in tr_op t = (h_direction (cs_header c) = UsbIpDirection_In)"
  using assms(2) unfolding cmd_submit_finish_def assms(1) Let_def
  by (auto simp: th_set_handle_def split: if_split_asm option.split_asm sum.split_asm
      dest!: alloc_shape recv_shape)

end

text \<open>A submitted OUT transfer without ISO packets comes back with its data.\<close>

definition out_submit :: "GenericTransfer UsbIpCmdSubmit \<Rightarrow> data \<Rightarrow> bool" where
  "out_submit c d \<longleftrightarrow>
     cmd_submit_wf c \<and> h_direction (cs_header c) \<noteq> UsbIpDirection_In \<and>
     cmd_submit_num_iso (cs_number_of_packets c) = 0 \<and>
     unat (cs_transfer_buffer_length c) = length d \<and>
     (\<exists>t. cs_transfer c = \<lparr>th_handle = Some t, th_op = Some (Leaf_op GenericTransferOperator)\<rparr> \<and>
       t = \<lparr>gt_data = d, gt_iso_descriptors = [], gt_actual_length = 0, gt_data_offset = 0,
            gt_is_in = False\<rparr>)"

lemma cmd_submit_to_socket_out:
  assumes "out_submit c d" and "tx_room w = None"
  shows "cmd_submit_to_socket c w = Some (None, w\<lparr>tx := tx w @ cmd_submit_head c @ d\<rparr>)"
  using assms
  by (auto simp: out_submit_def cmd_submit_to_socket_def generic_send_def slice_def)

definition cmd_submit_fields :: "'tr UsbIpCmdSubmit \<Rightarrow> net_field list" where
  "cmd_submit_fields c = header_tail (cs_header c) @
     [F32 (cs_transfer_flags c), F32 (cs_transfer_buffer_length c), F32 (cs_start_frame c),
      F32 (cs_number_of_packets c), F32 (cs_interval c), FArr (setup_to_bytes (cs_setup c))]"

lemma cmd_submit_finish_out:
  assumes "out_submit c d" and "rx s = d @ rest"
    and "\<And>ep. get_operator_for_ep rop ep = GenericTransferOperator"
  shows "cmd_submit_finish rop (cmd_submit_fields c) s = Some (Inr (c, s\<lparr>rx := rest\<rparr>))"
proof -
  obtain h where h: "cs_header c = h" by simp
  have eta: "\<lparr>h_command = h_command h, h_seqnum = h_seqnum h, h_devid = h_devid h,
      h_direction = h_direction h, h_ep = h_ep h\<rparr> = h" by simp
  have rd: "0 < length d \<Longrightarrow> asio_read (length d) s = Inr (d, s\<lparr>rx := rest\<rparr>)"
    using assms(2) by (intro asio_read_append) simp_all
  have rd0: "d = [] \<Longrightarrow> s\<lparr>rx := rest\<rparr> = s" using assms(2) by simp
  show ?thesis
    using assms(1) rd rd0 h
    by (cases "d = []")
       (auto simp: out_submit_def cmd_submit_wf_def cmd_submit_finish_def cmd_submit_fields_def
         header_tail_def assms(3) generic_alloc_def generic_recv_def reader_defs
         th_set_handle_def th_set_operator_def TransferHandle_empty_def Let_def memcpy_at_def)
qed

lemma get_cmd_submit_out:
  assumes "out_submit c d" and "rx s = cmd_submit_head c @ d @ rest"
    and "\<And>ep. get_operator_for_ep rop ep = GenericTransferOperator"
  shows "get_cmd_from_socket rop s = Some (Inr (Cmd_Submit c, s\<lparr>rx := rest\<rparr>))"
proof -
  let ?s1 = "s\<lparr>rx := concat (map be_field (cmd_submit_fields c)) @ d @ rest\<rparr>"
  have cmd: "h_command (cs_header c) = USBIP_CMD_SUBMIT"
    using assms(1) by (simp add: out_submit_def cmd_submit_wf_def)
  have "read_u32 s = Inr (USBIP_CMD_SUBMIT, ?s1)"
    using assms(2) cmd
      read_header_command[of s "cs_header c"
        "concat (map be_field (drop 4 (cmd_submit_fields c))) @ d @ rest"]
    by (simp add: cmd_submit_head_def cmd_submit_fields_def header_tail_def)
  moreover have "unsigned_integral_and_array_read_from_socket 0 cmd_submit_fixed_specs ?s1
      = Inr (cmd_submit_fields c, s\<lparr>rx := d @ rest\<rparr>)"
    using read_fields_roundtrip[of cmd_submit_fixed_specs "cmd_submit_fields c" "[]" 0 ?s1 "d @ rest"]
    by (simp add: cmd_submit_fields_def cmd_submit_fixed_specs_def header_tail_def)
  ultimately show ?thesis
    using cmd_submit_finish_out[OF assms(1) _ assms(3), of "s\<lparr>rx := d @ rest\<rparr>" rest]
    by (simp add: get_cmd_from_socket_def cmd_submit_from_socket_def)
qed

section \<open>RET_SUBMIT\<close>

text \<open>The number of data bytes of the ISO packets.\<close>

definition iso_total :: "UsbIpIsoPacketDescriptor list \<Rightarrow> nat" where
  "iso_total ps = sum_list (map (\<lambda>p. unat (iso_actual_length p)) ps)"

definition iso_in_bounds :: "data \<Rightarrow> UsbIpIsoPacketDescriptor list \<Rightarrow> bool" where
  "iso_in_bounds d ps \<longleftrightarrow>
     list_all (\<lambda>p. unat (iso_offset p) + unat (iso_actual_length p) \<le> length d) ps"

lemma iso_slices_length:
  "iso_in_bounds d ps \<Longrightarrow> \<exists>b. iso_slices d ps = Some b \<and> length b = iso_total ps"
  by (induction ps) (auto simp: iso_in_bounds_def iso_total_def slice_def)

text \<open>Bytes a response carries after its 48-byte head, by what the peer knows of the
  transfer.\<close>

definition ret_submit_payload :: "GenericTransfer UsbIpRetSubmit \<Rightarrow> nat" where
  "ret_submit_payload r =
     (case th_handle (rs_transfer r) of
        None \<Rightarrow> 0
      | Some t \<Rightarrow>
          if rs_actual_length r = 0 \<and> rs_number_of_packets r = 0 then 0
          else (if gt_is_in t \<and> 0 < rs_actual_length r
                then (if gt_iso_descriptors t = [] then unat (rs_actual_length r)
                      else iso_total (gt_iso_descriptors t)) else 0)
             + 16 * length (gt_iso_descriptors t))"

definition ret_submit_sendable :: "GenericTransfer UsbIpRetSubmit \<Rightarrow> bool" where
  "ret_submit_sendable r \<longleftrightarrow>
     (case th_handle (rs_transfer r) of
        None \<Rightarrow> True
      | Some t \<Rightarrow> th_op (rs_transfer r) = Some (Leaf_op GenericTransferOperator) \<and>
          (gt_is_in t \<longrightarrow> 0 < rs_actual_length r \<longrightarrow>
             (if gt_iso_descriptors t = []
              then gt_data_offset t + unat (rs_actual_length r) \<le> length (gt_data t)
              else iso_in_bounds (gt_data t) (gt_iso_descriptors t))))"

lemma generic_send_length:
  assumes "tx_room w = None"
    and "0 < n \<Longrightarrow> (if gt_iso_descriptors t = [] then gt_data_offset t + n \<le> length (gt_data t)
                  else iso_in_bounds (gt_data t) (gt_iso_descriptors t))"
  shows "\<exists>w'. generic_send t n w = Some (None, w') \<and>
    length (tx w') = length (tx w) +
      (if 0 < n then (if gt_iso_descriptors t = [] then n else iso_total (gt_iso_descriptors t))
       else 0) + 16 * length (gt_iso_descriptors t)"
proof (cases "gt_iso_descriptors t = []")
  case True
  with assms show ?thesis by (auto simp: generic_send_def slice_def)
next
  case False
  have "0 < n \<Longrightarrow> \<exists>b. iso_slices (gt_data t) (gt_iso_descriptors t) = Some b \<and>
      length b = iso_total (gt_iso_descriptors t)"
    using assms(2) False by (intro iso_slices_length) simp
  with False assms(1) show ?thesis
    by (auto simp: generic_send_def iso_codec.length_concat_to_bytes)
qed

lemma ret_submit_wire_length:
  assumes "ret_submit_sendable r" and "tx_room w = None"
  shows "\<exists>w'. ret_submit_to_socket r w = Some (None, w') \<and>
    length (tx w') = length (tx w) + 48 + ret_submit_payload r"
proof (cases "th_handle (rs_transfer r)")
  case None
  with assms show ?thesis by (simp add: ret_submit_to_socket_def ret_submit_payload_def)
next
  case (Some t)
  let ?n = "if gt_is_in t then unat (rs_actual_length r) else 0"
  let ?w = "w\<lparr>tx := tx w @ ret_submit_head r\<rparr>"
  have pos: "0 < ?n \<longleftrightarrow> gt_is_in t \<and> 0 < rs_actual_length r"
    by (simp add: word_less_nat_alt)
  have "\<exists>w'. generic_send t ?n ?w = Some (None, w') \<and>
    length (tx w') = length (tx ?w) +
      (if 0 < ?n then (if gt_iso_descriptors t = [] then ?n else iso_total (gt_iso_descriptors t))
       else 0) + 16 * length (gt_iso_descriptors t)"
    using assms Some by (intro generic_send_length) (auto simp: ret_submit_sendable_def word_less_nat_alt)
  with Some assms show ?thesis
    unfolding pos
    by (auto simp: ret_submit_to_socket_def ret_submit_payload_def ret_submit_sendable_def
        word_neq_0_conv split: if_splits)
qed

section \<open>Device list\<close>

definition device_wire_full :: "UsbDevice \<Rightarrow> UsbDevice" where
  "device_wire_full d = (device_wire d)\<lparr>ud_interfaces := map interface_wire (ud_interfaces d)\<rparr>"

lemma read_interfaces_replicate:
  "read_interfaces (replicate n i) = read_many n (interface_from_socket i)"
  by (induction n) simp_all

interpretation device_list_codec: byte_codec
  to_bytes_with_interfaces read_device_with_interfaces device_wire_ok device_wire_full
proof unfold_locales
  fix d and s :: tcp_in and rest :: data
  assume wf: "device_wire_ok d" and s: "rx s = to_bytes_with_interfaces d @ rest"
  let ?s1 = "s\<lparr>rx := concat (map interface_to_bytes (ud_interfaces d)) @ rest\<rparr>"
  have "device_from_socket default_device s = Inr (device_wire d, ?s1)"
    using wf s by (intro device_codec.read_back) (simp_all add: to_bytes_with_interfaces_eq device_to_bytes_def)
  moreover have "read_many (length (ud_interfaces d)) (interface_from_socket default_interface) ?s1
      = Inr (map interface_wire (ud_interfaces d), s\<lparr>rx := rest\<rparr>)"
    using interface_codec.read_many_back[of "ud_interfaces d" ?s1 rest] by simp
  ultimately show "read_device_with_interfaces s = Inr (device_wire_full d, s\<lparr>rx := rest\<rparr>)"
    by (simp add: read_device_with_interfaces_def reader_defs device_wire_full_def
        device_wire_def read_interfaces_replicate)
qed

lemma device_eq_wire_full: "device_eq (device_wire_full d) d"
  by (simp add: device_eq_def device_wire_full_def device_wire_def list_all2_conv_all_nth
      interface_eq_wire)

lemma op_rep_devlist_to_bytes_eq:
  "op_rep_devlist_to_bytes r =
     op_rep_devlist_head r @ concat (map to_bytes_with_interfaces (rpd_devices r))"
  by (simp add: op_rep_devlist_to_bytes_def fold_append_concat)

lemma devlist_fold_write:
  assumes "tx_room w = None"
  shows "fold (\<lambda>d (ec, w). asio_write (to_bytes_with_interfaces d) w) ds (None, w) =
    (None, w\<lparr>tx := tx w @ concat (map to_bytes_with_interfaces ds)\<rparr>)"
  using assms by (induction ds arbitrary: w) simp_all

lemma op_rep_devlist_to_socket_eq:
  "tx_room w = None \<Longrightarrow>
   op_rep_devlist_to_socket r w = (None, w\<lparr>tx := tx w @ op_rep_devlist_to_bytes r\<rparr>)"
  by (simp add: op_rep_devlist_to_socket_def op_rep_devlist_to_bytes_eq devlist_fold_write)

text \<open>What the peer does with a device list reply: version and command, then the reply.\<close>

definition client_read_devlist :: "OpRepDevlist reader" where
  "client_read_devlist =
     rd_bind read_u16 (\<lambda>_. rd_bind read_u16 (\<lambda>_. op_rep_devlist_from_socket))"

lemma devlist_roundtrip:
  assumes "\<forall>d \<in> set ds. device_wire_ok d" and "length ds < 2 ^ 32"
    and "rx s = op_rep_devlist_to_bytes (op_rep_devlist_create_from_devices ds) @ rest"
  shows "client_read_devlist s =
    Inr (\<lparr>rpd_status = 0, rpd_device_count = of_nat (length ds),
          rpd_devices = map device_wire_full ds\<rparr>, s\<lparr>rx := rest\<rparr>)"
proof -
  let ?bs = "concat (map to_bytes_with_interfaces ds)"
  let ?n = "of_nat (length ds) :: u32"
  let ?s2 = "s\<lparr>rx := be_bytes (0 :: u32) @ be_bytes ?n @ ?bs @ rest\<rparr>"
  have s: "rx s = be_bytes USBIP_VERSION @ be_bytes OP_REP_DEVLIST @ rx ?s2"
    using assms(3)
    by (simp add: op_rep_devlist_to_bytes_eq op_rep_devlist_create_from_devices_def
        op_rep_devlist_head_def)
  have "data_read_from_socket [R32, R32] ?s2 = Inr ([F32 0, F32 ?n], s\<lparr>rx := ?bs @ rest\<rparr>)"
    using data_read_from_socket_on_roundtrip[of ?s2 "[F32 0, F32 ?n]" "?bs @ rest" True]
    by (simp add: data_read_from_socket_def)
  moreover have "unat ?n = length ds"
    using assms(2) by (simp add: unat_of_nat)
  moreover have "read_many (length ds) read_device_with_interfaces (s\<lparr>rx := ?bs @ rest\<rparr>)
      = Inr (map device_wire_full ds, s\<lparr>rx := rest\<rparr>)"
    using device_list_codec.read_many_back[of ds "s\<lparr>rx := ?bs @ rest\<rparr>" rest] assms(1) by simp
  ultimately have "op_rep_devlist_from_socket ?s2 =
    Inr (\<lparr>rpd_status = 0, rpd_device_count = ?n, rpd_devices = map device_wire_full ds\<rparr>,
      s\<lparr>rx := rest\<rparr>)"
    by (simp add: op_rep_devlist_from_socket_def reader_defs)
  moreover have "read_u16 s = Inr (USBIP_VERSION, s\<lparr>rx := be_bytes OP_REP_DEVLIST @ rx ?s2\<rparr>)"
    by (rule read_u16_roundtrip[OF s])
  moreover have "read_u16 (s\<lparr>rx := be_bytes OP_REP_DEVLIST @ rx ?s2\<rparr>) = Inr (OP_REP_DEVLIST, ?s2)"
    by (subst read_u16_roundtrip[of _ OP_REP_DEVLIST "rx ?s2"]) simp_all
  ultimately show ?thesis by (simp add: client_read_devlist_def reader_defs)
qed

section \<open>Properties\<close>

text \<open>C2: A \<open>CMD_SUBMIT\<close> that is accepted has an endpoint number of at most 0x7F, a buffer
  length of at most 16 MiB and at most 1024 ISO packets (or the non-ISO marker), and its
  handle is bound to the operator registered for its real endpoint address.\<close>

theorem cmd_submit_accepted:
  assumes "get_cmd_from_socket rop s = Some (Inr (Cmd_Submit c, s'))"
  shows "h_ep (cs_header c) \<le> 0x7F \<and>
    unat (cs_transfer_buffer_length c) \<le> 16 * 1024 * 1024 \<and>
    (cs_number_of_packets c = 0xFFFFFFFF \<or> unat (cs_number_of_packets c) \<le> 1024) \<and>
    th_handle (cs_transfer c) \<noteq> None \<and>
    th_op (cs_transfer c) = Some (Leaf_op (get_operator_for_ep rop (restore_real_ep (cs_header c))))"
proof -
  obtain s1 where "cmd_submit_from_socket rop s1 = Some (Inr (c, s'))"
    using assms by (auto simp: get_cmd_from_socket_def reader_defs
        split: sum.splits if_splits option.splits elim!: catch_system_error.elims)
  from cmd_submit_from_socket_wf[OF this] show ?thesis
    by (simp add: cmd_submit_wf_def USBIPDCPP_MAX_TRANSFER_BUFFER_SIZE_def
        USBIPDCPP_MAX_ISO_PACKETS_def)
qed

definition sample_submit :: "GenericTransfer UsbIpCmdSubmit" where
  "sample_submit =
     \<lparr>cs_header = \<lparr>h_command = USBIP_CMD_SUBMIT, h_seqnum = 1, h_devid = 2, h_direction = 0, h_ep = 1\<rparr>,
      cs_transfer_flags = 0, cs_transfer_buffer_length = 2, cs_start_frame = 0,
      cs_number_of_packets = 0xFFFFFFFF, cs_interval = 0,
      cs_setup = \<lparr>sp_request_type = 0, sp_request = 0, sp_value = 0, sp_index = 0, sp_length = 0\<rparr>,
      cs_transfer = \<lparr>th_handle = Some \<lparr>gt_data = [7, 8], gt_iso_descriptors = [],
          gt_actual_length = 0, gt_data_offset = 0, gt_is_in = False\<rparr>,
        th_op = Some (Leaf_op GenericTransferOperator)\<rparr>\<rparr>"

lemma sample_submit_out: "out_submit sample_submit [7, 8]"
  by (simp add: sample_submit_def out_submit_def cmd_submit_wf_def cmd_submit_num_iso_def
      USBIPDCPP_MAX_TRANSFER_BUFFER_SIZE_def UsbIpDirection_In_def)

theorem cmd_submit_accepted_witness:
  "h_ep (cs_header sample_submit) \<le> 0x7F"
  using cmd_submit_accepted[OF get_cmd_submit_out[OF sample_submit_out,
      of "\<lparr>rx = cmd_submit_head sample_submit @ [7, 8] @ [], rx_end = Asio_eof\<rparr>" "[]"
      "Leaf_op GenericTransferOperator"]]
  by simp

text \<open>C1: Parsing any byte stream into a command never writes outside the transfer buffer it
  allocated, when the endpoints of the device use the generic operator, directly or through the
  routing operator of a virtual device.\<close>

theorem get_cmd_memory_safe:
  assumes "ran eps \<subseteq> {GenericTransferOperator}"
  shows "get_cmd_from_socket (VirtualDevice_op eps GenericTransferOperator) s \<noteq> None \<and>
    get_cmd_from_socket (Leaf_op GenericTransferOperator) s \<noteq> None"
proof -
  have "get_operator_for_ep (VirtualDevice_op eps GenericTransferOperator) ep = GenericTransferOperator" for ep
    using assms by (auto simp: ran_def split: option.splits)
  then show ?thesis
    using generic_operator.get_cmd_in_bounds[of "VirtualDevice_op eps GenericTransferOperator" s]
      generic_operator.get_cmd_in_bounds[of "Leaf_op GenericTransferOperator" s] by simp
qed

theorem get_cmd_memory_safe_witness:
  "get_cmd_from_socket (VirtualDevice_op [2 \<mapsto> GenericTransferOperator] GenericTransferOperator)
     \<lparr>rx = [0, 0, 0, 1], rx_end = Asio_eof\<rparr> \<noteq> None"
  using get_cmd_memory_safe[of "[2 \<mapsto> GenericTransferOperator]"
      "\<lparr>rx = [0, 0, 0, 1], rx_end = Asio_eof\<rparr>"] by simp

text \<open>C3: An OUT submit without ISO packets that a client writes to the socket is read back by the
  server as the same command with the same data, and the stream continues right after it.\<close>

theorem cmd_submit_out_roundtrip:
  assumes "out_submit c d"
  shows "cmd_submit_to_socket c \<lparr>tx = [], tx_room = None\<rparr> =
      Some (None, \<lparr>tx = cmd_submit_head c @ d, tx_room = None\<rparr>) \<and>
    get_cmd_from_socket (Leaf_op GenericTransferOperator)
        \<lparr>rx = (cmd_submit_head c @ d) @ rest, rx_end = e\<rparr> =
      Some (Inr (Cmd_Submit c, \<lparr>rx = rest, rx_end = e\<rparr>))"
  using cmd_submit_to_socket_out[OF assms, of "\<lparr>tx = [], tx_room = None\<rparr>"]
    get_cmd_submit_out[OF assms, of "\<lparr>rx = (cmd_submit_head c @ d) @ rest, rx_end = e\<rparr>" rest
      "Leaf_op GenericTransferOperator"]
  by simp

theorem cmd_submit_out_roundtrip_witness:
  "get_cmd_from_socket (Leaf_op GenericTransferOperator)
     \<lparr>rx = (cmd_submit_head sample_submit @ [7, 8]) @ [1], rx_end = Asio_eof\<rparr> =
   Some (Inr (Cmd_Submit sample_submit, \<lparr>rx = [1], rx_end = Asio_eof\<rparr>))"
  using cmd_submit_out_roundtrip[OF sample_submit_out] by simp

text \<open>UNLINK commands and both kinds of responses have 48-byte heads and are read back as they
  were written, the rest of the stream untouched.\<close>

theorem unlink_and_ret_roundtrip:
  assumes "h_command (cu_header c) = USBIP_CMD_UNLINK" and "h_command (ru_header u) = USBIP_RET_UNLINK"
    and "h_command (rs_header r) = USBIP_RET_SUBMIT"
  shows "length (cmd_unlink_to_bytes c) = 48 \<and> length (ret_unlink_to_bytes u) = 48 \<and>
    length (ret_submit_head r) = 48 \<and>
    get_cmd_from_socket p \<lparr>rx = cmd_unlink_to_bytes c @ rest, rx_end = e\<rparr> =
      Some (Inr (Cmd_Unlink c, \<lparr>rx = rest, rx_end = e\<rparr>)) \<and>
    after_command ret_unlink_from_socket \<lparr>rx = ret_unlink_to_bytes u @ rest, rx_end = e\<rparr> =
      Inr (u, \<lparr>rx = rest, rx_end = e\<rparr>) \<and>
    after_command (ret_submit_from_socket (rs_transfer r)) \<lparr>rx = ret_submit_head r @ rest, rx_end = e\<rparr> =
      Inr (r, \<lparr>rx = rest, rx_end = e\<rparr>)"
  using get_cmd_unlink[OF assms(1), of "\<lparr>rx = cmd_unlink_to_bytes c @ rest, rx_end = e\<rparr>" rest p]
    ret_unlink_codec.read_back[OF assms(2), of "\<lparr>rx = ret_unlink_to_bytes u @ rest, rx_end = e\<rparr>" rest]
    ret_submit_head_read[OF assms(3), of "\<lparr>rx = ret_submit_head r @ rest, rx_end = e\<rparr>" rest]
  by (simp add: cmd_unlink_codec.size_to_bytes ret_unlink_codec.size_to_bytes)

theorem unlink_and_ret_roundtrip_witness:
  "after_command ret_unlink_from_socket
     \<lparr>rx = ret_unlink_to_bytes (create_ret_unlink_success 9) @ [], rx_end = Asio_eof\<rparr> =
   Inr (create_ret_unlink_success 9, \<lparr>rx = [], rx_end = Asio_eof\<rparr>)"
  using unlink_and_ret_roundtrip[of
      "\<lparr>cu_header = get_server_header USBIP_CMD_UNLINK 1, cu_unlink_seqnum = 5\<rparr>"
      "create_ret_unlink_success 9" "create_ret_submit_epipe_without_data 3 0 :: GenericTransfer UsbIpRetSubmit"
      "Leaf_op GenericTransferOperator" "[]" Asio_eof]
  by (simp add: get_server_header_def create_ret_unlink_success_def
      create_ret_submit_epipe_without_data_def)

text \<open>A response whose transfer holds the data it announces is sent completely: 48 bytes of
  head, the IN data (the actual length, or the sum of the ISO packets' actual lengths), and
  16 bytes per ISO descriptor; OUT transfers and responses without transfer send no data.\<close>

theorem ret_submit_wire_size:
  assumes "ret_submit_sendable r" and "tx_room w = None"
  shows "\<exists>w'. ret_submit_to_socket r w = Some (None, w') \<and>
    length (tx w') = length (tx w) + 48 + ret_submit_payload r"
  using ret_submit_wire_length[OF assms] .

theorem ret_submit_wire_size_witness:
  "\<exists>w'. ret_submit_to_socket (create_ret_submit_ok_without_data 3 64 :: GenericTransfer UsbIpRetSubmit)
      \<lparr>tx = [], tx_room = None\<rparr> = Some (None, w') \<and> length (tx w') = 48"
  using ret_submit_wire_size[of "create_ret_submit_ok_without_data 3 64" "\<lparr>tx = [], tx_room = None\<rparr>"]
  by (simp add: ret_submit_sendable_def ret_submit_payload_def create_ret_submit_ok_without_data_def
      TransferHandle_empty_def)

text \<open>The device list reply the server sends for its devices is read by the client as a list of
  the same length whose devices are equal to the server's in the sense of
  \<open>UsbDevice::operator==\<close>, interfaces included; the two serialisations
  (\<open>to_bytes\<close> and \<open>to_socket\<close>) agree.\<close>

theorem devlist_reply_roundtrip:
  assumes "\<forall>d \<in> set ds. device_wire_ok d" and "length ds < 2 ^ 32"
  shows "let r = op_rep_devlist_create_from_devices ds
    in op_rep_devlist_to_socket r \<lparr>tx = [], tx_room = None\<rparr> =
         (None, \<lparr>tx = op_rep_devlist_to_bytes r, tx_room = None\<rparr>) \<and>
       (\<exists>r'. client_read_devlist \<lparr>rx = op_rep_devlist_to_bytes r @ rest, rx_end = e\<rparr> =
           Inr (r', \<lparr>rx = rest, rx_end = e\<rparr>) \<and>
         rpd_status r' = 0 \<and> list_all2 device_eq (rpd_devices r') ds)"
  using devlist_roundtrip[OF assms, of "\<lparr>rx = op_rep_devlist_to_bytes
      (op_rep_devlist_create_from_devices ds) @ rest, rx_end = e\<rparr>" rest]
    op_rep_devlist_to_socket_eq[of "\<lparr>tx = [], tx_room = None\<rparr>" "op_rep_devlist_create_from_devices ds"]
  by (simp add: Let_def list_all2_conv_all_nth device_eq_wire_full)

theorem devlist_reply_roundtrip_witness:
  "\<exists>r'. client_read_devlist \<lparr>rx = op_rep_devlist_to_bytes
       (op_rep_devlist_create_from_devices [sample_device]) @ [], rx_end = Asio_eof\<rparr> =
     Inr (r', \<lparr>rx = [], rx_end = Asio_eof\<rparr>) \<and> list_all2 device_eq (rpd_devices r') [sample_device]"
proof -
  have "device_wire_ok sample_device"
    by (simp add: sample_device_def UsbDevice_make_def device_wire_ok_def c_string_fits_def)
  then show ?thesis
    using devlist_reply_roundtrip[of "[sample_device]" "[]" Asio_eof] by (auto simp: Let_def)
qed

end
