(* ===== verification/Slot_Containers.thy ===== *)
theory Slot_Containers
  imports Prelude
begin

text \<open>
  \<open>utils/ReuseMap.h\<close> and \<open>utils/ReuseSet.h\<close>: a vector of slots searched linearly,
  where erasing marks a slot free and inserting reuses the first free slot. They refine a
  finite map and a finite set. The sessions keep their bookkeeping in them, through the interfaces
  \<open>slot_map\<close> and \<open>slot_set\<close>.
\<close>

section \<open>Search loops\<close>

text \<open>The index at which a loop \<open>for (auto &slot : slots_) if (P(slot)) return ...\<close> stops.\<close>

fun find_idx :: "('a \<Rightarrow> bool) \<Rightarrow> 'a list \<Rightarrow> nat option" where
  "find_idx P [] = None"
| "find_idx P (x # xs) = (if P x then Some 0 else map_option Suc (find_idx P xs))"

lemma find_idx_Some: "find_idx P xs = Some i \<Longrightarrow> i < length xs \<and> P (xs ! i)"
  by (induction xs arbitrary: i) (auto split: if_splits)

lemma find_idx_None: "find_idx P xs = None \<longleftrightarrow> (\<forall>x \<in> set xs. \<not> P x)"
  by (induction xs) auto

lemma filter_at:
  assumes "i < length xs"
  shows "filter P xs =
    filter P (take i xs) @ (if P (xs ! i) then [xs ! i] else []) @ filter P (drop (Suc i) xs)"
  using assms by (subst id_take_nth_drop[OF assms]) simp

lemma filter_upd:
  assumes "i < length xs"
  shows "filter P (xs[i := y]) =
    filter P (take i xs) @ (if P y then [y] else []) @ filter P (drop (Suc i) xs)"
  using assms by (simp add: upd_conv_take_nth_drop)

lemma map_of_insert_mid:
  "k \<notin> fst ` set xs \<Longrightarrow> map_of (xs @ (k, v) # ys) = (map_of (xs @ ys))(k \<mapsto> v)"
  by (induction xs) (auto simp: fun_upd_twist)

lemma map_of_delete_mid:
  assumes "k \<notin> fst ` set xs" and "k \<notin> fst ` set ys"
  shows "map_of (xs @ ys) = (map_of (xs @ (k, v) # ys))(k := None)"
proof -
  have "map_of (xs @ ys) k = None" using assms by (auto simp: map_of_eq_None_iff)
  then show ?thesis
    by (simp add: map_of_insert_mid[OF assms(1)] fun_upd_idem del: map_of_append)
qed

section \<open>Maps\<close>

record ('k, 'v) map_slot =
  ms_key :: 'k
  ms_value :: 'v
  ms_occupied :: bool

record ('k, 'v) ReuseMap =
  rm_slots :: "('k, 'v) map_slot list"
  rm_size :: nat

definition rm_empty :: "('k, 'v) ReuseMap" where
  "rm_empty = \<lparr>rm_slots = [], rm_size = 0\<rparr>"

definition rm_index :: "'k \<Rightarrow> ('k, 'v) ReuseMap \<Rightarrow> nat option" where
  "rm_index k m = find_idx (\<lambda>s. ms_occupied s \<and> ms_key s = k) (rm_slots m)"

text \<open>The result of \<open>insert\<close> is the slot whose value the returned pointer points to.\<close>

definition rm_insert :: "'k \<Rightarrow> 'v \<Rightarrow> ('k, 'v) ReuseMap \<Rightarrow> nat \<times> ('k, 'v) ReuseMap" where
  "rm_insert k v m =
     (case rm_index k m of
        Some i \<Rightarrow> (i, m)
      | None \<Rightarrow>
          (let new = \<lparr>ms_key = k, ms_value = v, ms_occupied = True\<rparr>
           in case find_idx (\<lambda>s. \<not> ms_occupied s) (rm_slots m) of
                Some i \<Rightarrow> (i, m\<lparr>rm_slots := (rm_slots m)[i := new], rm_size := rm_size m + 1\<rparr>)
              | None \<Rightarrow> (length (rm_slots m),
                  m\<lparr>rm_slots := rm_slots m @ [new], rm_size := rm_size m + 1\<rparr>)))"

definition rm_find :: "'k \<Rightarrow> ('k, 'v) ReuseMap \<Rightarrow> 'v option" where
  "rm_find k m = map_option (\<lambda>i. ms_value (rm_slots m ! i)) (rm_index k m)"

definition rm_erase :: "'k \<Rightarrow> ('k, 'v) ReuseMap \<Rightarrow> bool \<times> ('k, 'v) ReuseMap" where
  "rm_erase k m =
     (case rm_index k m of
        Some i \<Rightarrow> (True, m\<lparr>rm_slots := (rm_slots m)[i := (rm_slots m ! i)\<lparr>ms_occupied := False\<rparr>],
                         rm_size := rm_size m - 1\<rparr>)
      | None \<Rightarrow> (False, m))"

definition rm_clear :: "('k, 'v) ReuseMap \<Rightarrow> ('k, 'v) ReuseMap" where
  "rm_clear m =
     m\<lparr>rm_slots := map (\<lambda>s. s\<lparr>ms_occupied := False\<rparr>) (rm_slots m), rm_size := 0\<rparr>"

text \<open>The calls \<open>for_each\<close> makes, in order.\<close>

definition rm_for_each :: "('k, 'v) ReuseMap \<Rightarrow> ('k \<times> 'v) list" where
  "rm_for_each m = map (\<lambda>s. (ms_key s, ms_value s)) (filter ms_occupied (rm_slots m))"

definition rm_is_empty :: "('k, 'v) ReuseMap \<Rightarrow> bool" where
  "rm_is_empty m \<longleftrightarrow> rm_size m = 0"

definition rm_inv :: "('k, 'v) ReuseMap \<Rightarrow> bool" where
  "rm_inv m \<longleftrightarrow> distinct (map fst (rm_for_each m)) \<and> rm_size m = length (rm_for_each m)"

definition rm_abs :: "('k, 'v) ReuseMap \<Rightarrow> 'k \<rightharpoonup> 'v" where
  "rm_abs m = map_of (rm_for_each m)"

lemma rm_index_Some:
  assumes "rm_index k m = Some i"
  shows "i < length (rm_slots m)" and "ms_occupied (rm_slots m ! i)" and "ms_key (rm_slots m ! i) = k"
  using find_idx_Some[OF assms[unfolded rm_index_def]] by auto

lemma rm_index_None: "rm_index k m = None \<longleftrightarrow> k \<notin> fst ` set (rm_for_each m)"
  by (auto simp: rm_index_def find_idx_None rm_for_each_def image_image)

lemma rm_find_abs:
  assumes "rm_inv m"
  shows "rm_find k m = rm_abs m k"
proof (cases "rm_index k m")
  case None
  then have "rm_abs m k = None" by (simp add: rm_index_None rm_abs_def map_of_eq_None_iff)
  with None show ?thesis by (simp add: rm_find_def)
next
  case (Some i)
  note i = rm_index_Some[OF Some]
  have "(k, ms_value (rm_slots m ! i)) \<in> set (rm_for_each m)"
    using i by (auto simp: rm_for_each_def intro!: image_eqI[of _ _ "rm_slots m ! i"])
  with assms Some show ?thesis
    by (simp add: rm_find_def rm_abs_def rm_inv_def)
qed

lemma rm_insert_new:
  assumes inv: "rm_inv m" and k: "rm_index k m = None" and ins: "rm_insert k v m = (i, m')"
  shows "rm_inv m' \<and> rm_abs m' = (rm_abs m)(k \<mapsto> v)"
proof -
  have fresh: "k \<notin> fst ` set (rm_for_each m)" using k by (simp add: rm_index_None)
  have "\<exists>xs ys. rm_for_each m = xs @ ys \<and> rm_for_each m' = xs @ (k, v) # ys \<and>
      rm_size m' = rm_size m + 1"
  proof (cases "find_idx (\<lambda>s. \<not> ms_occupied s) (rm_slots m)")
    case None
    with k ins show ?thesis
      by (intro exI[of _ "rm_for_each m"] exI[of _ "[]"])
         (auto simp: rm_insert_def Let_def rm_for_each_def)
  next
    case (Some j)
    note j = find_idx_Some[OF Some]
    let ?f = "map (\<lambda>s. (ms_key s, ms_value s)) \<circ> filter ms_occupied"
    show ?thesis
      using k ins Some j
      by (intro exI[of _ "?f (take j (rm_slots m))"] exI[of _ "?f (drop (Suc j) (rm_slots m))"])
         (auto simp: rm_insert_def Let_def rm_for_each_def filter_upd filter_at[of j "rm_slots m"])
  qed
  then obtain xs ys where "rm_for_each m = xs @ ys" "rm_for_each m' = xs @ (k, v) # ys"
      "rm_size m' = rm_size m + 1" by blast
  then show ?thesis
    using inv fresh
    by (auto simp: rm_inv_def rm_abs_def image_Un map_of_insert_mid simp del: map_of_append)
qed

lemma rm_erase_abs:
  assumes inv: "rm_inv m" and er: "rm_erase k m = (b, m')"
  shows "rm_inv m'" and "rm_abs m' = (rm_abs m)(k := None)" and "b \<longleftrightarrow> k \<in> dom (rm_abs m)"
proof -
  have "rm_inv m' \<and> rm_abs m' = (rm_abs m)(k := None) \<and> (b \<longleftrightarrow> k \<in> dom (rm_abs m))"
  proof (cases "rm_index k m")
    case None
    then have "k \<notin> dom (rm_abs m)" by (simp add: rm_index_None rm_abs_def dom_map_of_conv_image_fst)
    with None inv er show ?thesis by (auto simp: rm_erase_def fun_eq_iff domIff)
  next
    case (Some j)
    note j = rm_index_Some[OF Some]
    let ?f = "map (\<lambda>s. (ms_key s, ms_value s)) \<circ> filter ms_occupied"
    let ?xs = "?f (take j (rm_slots m))" and ?ys = "?f (drop (Suc j) (rm_slots m))"
    have "rm_for_each m = ?xs @ (k, ms_value (rm_slots m ! j)) # ?ys"
      using j by (simp add: rm_for_each_def filter_at[of j "rm_slots m"])
    moreover have "rm_for_each m' = ?xs @ ?ys" "rm_size m' = rm_size m - 1" "b"
      using er Some j by (auto simp: rm_erase_def rm_for_each_def filter_upd)
    ultimately obtain xs ys v where "rm_for_each m = xs @ (k, v) # ys" "rm_for_each m' = xs @ ys"
      "rm_size m' = rm_size m - 1" "b" by blast
    with inv map_of_delete_mid[of k xs ys v] show ?thesis
      by (auto simp: rm_inv_def rm_abs_def dom_map_of_conv_image_fst simp del: map_of_append)
  qed
  then show "rm_inv m'" and "rm_abs m' = (rm_abs m)(k := None)" and "b \<longleftrightarrow> k \<in> dom (rm_abs m)"
    by auto
qed

lemma rm_clear_abs: "rm_inv (rm_clear m)" "rm_abs (rm_clear m) = Map.empty"
  by (auto simp: rm_inv_def rm_abs_def rm_clear_def rm_for_each_def filter_map o_def)

lemma rm_size_card: "rm_inv m \<Longrightarrow> rm_size m = card (dom (rm_abs m))"
  by (simp add: rm_inv_def rm_abs_def dom_map_of_conv_image_fst distinct_card flip: set_map)

text \<open>The interface the clients rely on.\<close>

locale slot_map =
  fixes empty :: 'm
    and insert :: "'k \<Rightarrow> 'v \<Rightarrow> 'm \<Rightarrow> 'm"
    and find :: "'k \<Rightarrow> 'm \<Rightarrow> 'v option"
    and erase :: "'k \<Rightarrow> 'm \<Rightarrow> 'm"
    and inv :: "'m \<Rightarrow> bool"
  assumes inv_empty: "inv empty" and find_empty: "find k empty = None"
    and inv_insert: "inv m \<Longrightarrow> inv (insert k v m)"
    and find_insert: "inv m \<Longrightarrow> find k' (insert k v m) =
      (if k' = k \<and> find k m = None then Some v else find k' m)"
    and inv_erase: "inv m \<Longrightarrow> inv (erase k m)"
    and find_erase: "inv m \<Longrightarrow> find k' (erase k m) = (if k' = k then None else find k' m)"
begin

lemma insert_erase_find:
  assumes "inv m" and "find k m = None"
  shows "find k' (erase k (insert k v m)) = find k' m"
  using assms by (simp add: find_erase inv_insert find_insert)

lemma fold_insert_inv: "inv m \<Longrightarrow> inv (fold (\<lambda>(k, v). insert k v) kvs m)"
  by (induction kvs arbitrary: m) (auto simp: inv_insert)

lemma first_insert_wins:
  "inv m \<Longrightarrow> find k (insert k v2 (insert k v1 m)) = find k (insert k v1 m)"
  by (simp add: find_insert inv_insert)

end

interpretation reuse_map: slot_map rm_empty "\<lambda>k v m. snd (rm_insert k v m)" rm_find
  "\<lambda>k m. snd (rm_erase k m)" rm_inv
proof unfold_locales
  show "rm_inv rm_empty" by (simp add: rm_inv_def rm_empty_def rm_for_each_def)
  show "rm_find k rm_empty = None" for k by (simp add: rm_find_def rm_index_def rm_empty_def)
next
  fix m :: "('a, 'b) ReuseMap" and k v k'
  assume inv: "rm_inv m"
  have old: "snd (rm_insert k v m) = m" if "rm_index k m \<noteq> None"
    using that by (auto simp: rm_insert_def)
  have new: "rm_inv (snd (rm_insert k v m)) \<and> rm_abs (snd (rm_insert k v m)) = (rm_abs m)(k \<mapsto> v)"
    if "rm_index k m = None"
    using rm_insert_new[OF inv that] by (metis prod.collapse)
  show inv': "rm_inv (snd (rm_insert k v m))" using old new inv by (cases "rm_index k m = None") auto
  have "rm_find k m = None \<longleftrightarrow> rm_index k m = None" by (simp add: rm_find_def)
  then show "rm_find k' (snd (rm_insert k v m)) =
      (if k' = k \<and> rm_find k m = None then Some v else rm_find k' m)"
    using old new inv inv' by (cases "rm_index k m = None") (auto simp: rm_find_abs)
next
  fix m :: "('a, 'b) ReuseMap" and k k'
  assume inv: "rm_inv m"
  show "rm_inv (snd (rm_erase k m))"
    using rm_erase_abs(1)[OF inv] by (metis prod.collapse)
  moreover have "rm_abs (snd (rm_erase k m)) = (rm_abs m)(k := None)"
    using rm_erase_abs(2)[OF inv] by (metis prod.collapse)
  ultimately show "rm_find k' (snd (rm_erase k m)) = (if k' = k then None else rm_find k' m)"
    using inv by (simp add: rm_find_abs)
qed

section \<open>Sets\<close>

record 'k set_slot =
  ss_key :: 'k
  ss_occupied :: bool

record 'k ReuseSet =
  rset_slots :: "'k set_slot list"
  rset_size :: nat

definition rset_empty :: "'k ReuseSet" where
  "rset_empty = \<lparr>rset_slots = [], rset_size = 0\<rparr>"

definition rset_index :: "'k \<Rightarrow> 'k ReuseSet \<Rightarrow> nat option" where
  "rset_index k m = find_idx (\<lambda>s. ss_occupied s \<and> ss_key s = k) (rset_slots m)"

definition rset_insert :: "'k \<Rightarrow> 'k ReuseSet \<Rightarrow> bool \<times> 'k ReuseSet" where
  "rset_insert k m =
     (case rset_index k m of
        Some i \<Rightarrow> (False, m)
      | None \<Rightarrow>
          (let new = \<lparr>ss_key = k, ss_occupied = True\<rparr>
           in case find_idx (\<lambda>s. \<not> ss_occupied s) (rset_slots m) of
                Some i \<Rightarrow> (True, m\<lparr>rset_slots := (rset_slots m)[i := new], rset_size := rset_size m + 1\<rparr>)
              | None \<Rightarrow> (True, m\<lparr>rset_slots := rset_slots m @ [new], rset_size := rset_size m + 1\<rparr>)))"

definition rset_contains :: "'k \<Rightarrow> 'k ReuseSet \<Rightarrow> bool" where
  "rset_contains k m \<longleftrightarrow> rset_index k m \<noteq> None"

definition rset_erase :: "'k \<Rightarrow> 'k ReuseSet \<Rightarrow> bool \<times> 'k ReuseSet" where
  "rset_erase k m =
     (case rset_index k m of
        Some i \<Rightarrow> (True, m\<lparr>rset_slots := (rset_slots m)[i := (rset_slots m ! i)\<lparr>ss_occupied := False\<rparr>],
                         rset_size := rset_size m - 1\<rparr>)
      | None \<Rightarrow> (False, m))"

definition rset_for_each :: "'k ReuseSet \<Rightarrow> 'k list" where
  "rset_for_each m = map ss_key (filter ss_occupied (rset_slots m))"

definition rset_clear :: "'k ReuseSet \<Rightarrow> 'k ReuseSet" where
  "rset_clear m =
     m\<lparr>rset_slots := map (\<lambda>s. s\<lparr>ss_occupied := False\<rparr>) (rset_slots m), rset_size := 0\<rparr>"

definition rset_inv :: "'k ReuseSet \<Rightarrow> bool" where
  "rset_inv m \<longleftrightarrow> distinct (rset_for_each m) \<and> rset_size m = length (rset_for_each m)"

definition rset_abs :: "'k ReuseSet \<Rightarrow> 'k set" where
  "rset_abs m = set (rset_for_each m)"

lemma rset_index_Some:
  assumes "rset_index k m = Some i"
  shows "i < length (rset_slots m)" and "ss_occupied (rset_slots m ! i)"
    and "ss_key (rset_slots m ! i) = k"
  using find_idx_Some[OF assms[unfolded rset_index_def]] by auto

lemma rset_contains_abs: "rset_contains k m \<longleftrightarrow> k \<in> rset_abs m"
proof -
  have "rset_index k m = None \<longleftrightarrow> k \<notin> rset_abs m"
    by (auto simp: rset_index_def find_idx_None rset_abs_def rset_for_each_def)
  then show ?thesis by (auto simp: rset_contains_def)
qed

lemma rset_insert_abs:
  assumes inv: "rset_inv m" and ins: "rset_insert k m = (b, m')"
  shows "rset_inv m' \<and> rset_abs m' = insert k (rset_abs m) \<and> (b \<longleftrightarrow> k \<notin> rset_abs m)"
proof (cases "rset_index k m")
  case None
  then have fresh: "k \<notin> set (rset_for_each m)"
    using rset_contains_abs[of k m] by (simp add: rset_contains_def rset_abs_def)
  have "\<exists>xs ys. rset_for_each m = xs @ ys \<and> rset_for_each m' = xs @ k # ys \<and>
      rset_size m' = rset_size m + 1 \<and> b"
  proof (cases "find_idx (\<lambda>s. \<not> ss_occupied s) (rset_slots m)")
    case N: None
    with None ins show ?thesis
      by (intro exI[of _ "rset_for_each m"] exI[of _ "[]"])
         (auto simp: rset_insert_def Let_def rset_for_each_def)
  next
    case (Some j)
    note j = find_idx_Some[OF Some]
    let ?f = "map ss_key \<circ> filter ss_occupied"
    show ?thesis
      using None ins Some j
      by (intro exI[of _ "?f (take j (rset_slots m))"] exI[of _ "?f (drop (Suc j) (rset_slots m))"])
         (auto simp: rset_insert_def Let_def rset_for_each_def filter_upd filter_at[of j "rset_slots m"])
  qed
  then obtain xs ys where "rset_for_each m = xs @ ys" "rset_for_each m' = xs @ k # ys"
      "rset_size m' = rset_size m + 1" "b" by blast
  with inv fresh show ?thesis by (auto simp: rset_inv_def rset_abs_def)
next
  case (Some i)
  then have "k \<in> rset_abs m" using rset_contains_abs[of k m] by (simp add: rset_contains_def)
  with Some inv ins show ?thesis by (auto simp: rset_insert_def)
qed

lemma rset_erase_abs:
  assumes inv: "rset_inv m" and er: "rset_erase k m = (b, m')"
  shows "rset_inv m' \<and> rset_abs m' = rset_abs m - {k} \<and> (b \<longleftrightarrow> k \<in> rset_abs m)"
proof (cases "rset_index k m")
  case None
  then have "k \<notin> rset_abs m" using rset_contains_abs[of k m] by (simp add: rset_contains_def)
  with None inv er show ?thesis by (auto simp: rset_erase_def)
next
  case (Some j)
  note j = rset_index_Some[OF Some]
  let ?f = "map ss_key \<circ> filter ss_occupied"
  let ?xs = "?f (take j (rset_slots m))" and ?ys = "?f (drop (Suc j) (rset_slots m))"
  have "rset_for_each m = ?xs @ k # ?ys"
    using j by (simp add: rset_for_each_def filter_at[of j "rset_slots m"])
  moreover have "rset_for_each m' = ?xs @ ?ys" "rset_size m' = rset_size m - 1" "b"
    using er Some j by (auto simp: rset_erase_def rset_for_each_def filter_upd)
  ultimately obtain xs ys where "rset_for_each m = xs @ k # ys" "rset_for_each m' = xs @ ys"
      "rset_size m' = rset_size m - 1" "b" by blast
  with inv show ?thesis by (auto simp: rset_inv_def rset_abs_def)
qed

locale slot_set =
  fixes empty :: 'm
    and insert :: "'k \<Rightarrow> 'm \<Rightarrow> bool \<times> 'm"
    and contains :: "'k \<Rightarrow> 'm \<Rightarrow> bool"
    and erase :: "'k \<Rightarrow> 'm \<Rightarrow> bool \<times> 'm"
    and inv :: "'m \<Rightarrow> bool"
  assumes inv_empty: "inv empty" and contains_empty: "\<not> contains k empty"
    and inv_insert: "inv m \<Longrightarrow> inv (snd (insert k m))"
    and insert_new: "inv m \<Longrightarrow> fst (insert k m) \<longleftrightarrow> \<not> contains k m"
    and contains_insert: "inv m \<Longrightarrow> contains k' (snd (insert k m)) \<longleftrightarrow> k' = k \<or> contains k' m"
    and inv_erase: "inv m \<Longrightarrow> inv (snd (erase k m))"
    and erase_found: "inv m \<Longrightarrow> fst (erase k m) \<longleftrightarrow> contains k m"
    and contains_erase: "inv m \<Longrightarrow> contains k' (snd (erase k m)) \<longleftrightarrow> k' \<noteq> k \<and> contains k' m"

interpretation reuse_set: slot_set rset_empty rset_insert rset_contains rset_erase rset_inv
proof unfold_locales
  show "rset_inv rset_empty" by (simp add: rset_inv_def rset_empty_def rset_for_each_def)
  show "\<not> rset_contains k rset_empty" for k
    by (simp add: rset_contains_def rset_index_def rset_empty_def)
next
  fix m :: "'a ReuseSet" and k k'
  assume inv: "rset_inv m"
  note ins = rset_insert_abs[OF inv, of k "fst (rset_insert k m)" "snd (rset_insert k m)"]
  note er = rset_erase_abs[OF inv, of k "fst (rset_erase k m)" "snd (rset_erase k m)"]
  show "rset_inv (snd (rset_insert k m))" "fst (rset_insert k m) \<longleftrightarrow> \<not> rset_contains k m"
    "rset_contains k' (snd (rset_insert k m)) \<longleftrightarrow> k' = k \<or> rset_contains k' m"
    using ins by (simp_all add: rset_contains_abs)
  show "rset_inv (snd (rset_erase k m))" "fst (rset_erase k m) \<longleftrightarrow> rset_contains k m"
    "rset_contains k' (snd (rset_erase k m)) \<longleftrightarrow> k' \<noteq> k \<and> rset_contains k' m"
    using er by (auto simp: rset_contains_abs)
qed

section \<open>Properties\<close>

text \<open>\<open>ReuseMap\<close> behaves as a finite map under every sequence of insertions and erasures: the
  slot array keeps its invariant, \<open>size()\<close> is the number of keys, \<open>insert\<close> keeps an
  existing value, \<open>erase\<close> removes the key and reports whether it was there,
  \<open>find\<close> looks it up and \<open>for_each\<close> visits every pair once.\<close>

theorem reuse_map_refines_map:
  assumes "rm_inv m"
  shows "rm_find k m = rm_abs m k \<and> rm_size m = card (dom (rm_abs m)) \<and>
    map_of (rm_for_each m) = rm_abs m \<and> distinct (map fst (rm_for_each m)) \<and>
    rm_inv (snd (rm_insert k v m)) \<and>
    rm_abs (snd (rm_insert k v m)) = (if k \<in> dom (rm_abs m) then rm_abs m else (rm_abs m)(k \<mapsto> v)) \<and>
    rm_inv (snd (rm_erase k m)) \<and> rm_abs (snd (rm_erase k m)) = (rm_abs m)(k := None) \<and>
    (fst (rm_erase k m) \<longleftrightarrow> k \<in> dom (rm_abs m)) \<and>
    rm_inv (rm_clear m) \<and> rm_abs (rm_clear m) = Map.empty"
proof -
  have idx: "rm_index k m = None \<longleftrightarrow> k \<notin> dom (rm_abs m)"
    by (simp add: rm_index_None rm_abs_def dom_map_of_conv_image_fst)
  have "rm_abs (snd (rm_insert k v m)) = (if k \<in> dom (rm_abs m) then rm_abs m else (rm_abs m)(k \<mapsto> v))"
  proof (cases "rm_index k m")
    case None
    with rm_insert_new[OF assms None] idx show ?thesis by (metis prod.collapse)
  next
    case (Some i)
    with idx show ?thesis by (simp add: rm_insert_def)
  qed
  moreover have "distinct (map fst (rm_for_each m))" using assms by (simp add: rm_inv_def)
  moreover note rm_erase_abs[OF assms, of k "fst (rm_erase k m)" "snd (rm_erase k m)"]
  ultimately show ?thesis
    using rm_find_abs[OF assms] rm_size_card[OF assms] reuse_map.inv_insert[OF assms]
      rm_clear_abs[of m] by (simp add: rm_abs_def)
qed

theorem reuse_map_refines_map_witness:
  "rm_abs (snd (rm_insert (1 :: nat) (5 :: nat) rm_empty)) = [1 \<mapsto> 5]"
  using reuse_map_refines_map[OF reuse_map.inv_empty, of "1 :: nat" "5 :: nat"]
  by (simp add: rm_abs_def rm_empty_def rm_for_each_def)

text \<open>\<open>ReuseSet\<close> behaves as a finite set in the same way.\<close>

theorem reuse_set_refines_set:
  assumes "rset_inv m"
  shows "(rset_contains k m \<longleftrightarrow> k \<in> rset_abs m) \<and>
    rset_inv (snd (rset_insert k m)) \<and> rset_abs (snd (rset_insert k m)) = insert k (rset_abs m) \<and>
    (fst (rset_insert k m) \<longleftrightarrow> k \<notin> rset_abs m) \<and>
    rset_inv (snd (rset_erase k m)) \<and> rset_abs (snd (rset_erase k m)) = rset_abs m - {k} \<and>
    (fst (rset_erase k m) \<longleftrightarrow> k \<in> rset_abs m)"
  using rset_insert_abs[OF assms, of k "fst (rset_insert k m)" "snd (rset_insert k m)"]
    rset_erase_abs[OF assms, of k "fst (rset_erase k m)" "snd (rset_erase k m)"]
  by (simp add: rset_contains_abs)

theorem reuse_set_refines_set_witness:
  "rset_abs (snd (rset_insert (3 :: nat) rset_empty)) = {3}"
  using reuse_set_refines_set[OF reuse_set.inv_empty, of "3 :: nat"]
  by (simp add: rset_abs_def rset_empty_def rset_for_each_def)

end
