(* ===== verification/Ring_Buffer.thy ===== *)
theory Ring_Buffer
  imports Slot_Containers
begin

text \<open>
  \<open>utils/RingBuffer.h\<close> and \<open>RingBuffer.cpp\<close>: a byte queue of bounded capacity in a
  lazily allocated circular array. It implements the interface \<open>byte_fifo\<close>, a bounded
  queue that accepts a prefix of what is written and gives bytes back in order.
\<close>

section \<open>The interface\<close>

datatype fifo_op = Fifo_write data | Fifo_read nat

locale byte_fifo =
  fixes fifo_write :: "data \<Rightarrow> 'b \<Rightarrow> nat \<times> 'b"
    and fifo_read :: "nat \<Rightarrow> 'b \<Rightarrow> data \<times> 'b"
    and contents :: "'b \<Rightarrow> data"
    and capacity :: "'b \<Rightarrow> nat"
    and inv :: "'b \<Rightarrow> bool"
  assumes write_inv: "inv b \<Longrightarrow> inv (snd (fifo_write d b))"
    and write_contents: "inv b \<Longrightarrow> contents (snd (fifo_write d b)) =
      contents b @ take (capacity b - length (contents b)) d"
    and write_count: "inv b \<Longrightarrow> fst (fifo_write d b) = min (length d) (capacity b - length (contents b))"
    and write_capacity: "inv b \<Longrightarrow> capacity (snd (fifo_write d b)) = capacity b"
    and read_inv: "inv b \<Longrightarrow> inv (snd (fifo_read n b))"
    and read_data: "inv b \<Longrightarrow> fst (fifo_read n b) = take n (contents b)"
    and read_contents: "inv b \<Longrightarrow> contents (snd (fifo_read n b)) = drop n (contents b)"
    and read_capacity: "inv b \<Longrightarrow> capacity (snd (fifo_read n b)) = capacity b"
    and within: "inv b \<Longrightarrow> length (contents b) \<le> capacity b"
begin

text \<open>A run of operations: the bytes accepted and the bytes delivered.\<close>

fun run :: "fifo_op list \<Rightarrow> 'b \<Rightarrow> data \<times> data \<times> 'b" where
  "run [] b = ([], [], b)"
| "run (Fifo_write d # ops) b =
     (case fifo_write d b of (n, b') \<Rightarrow>
        (case run ops b' of (acc, out, b'') \<Rightarrow> (take n d @ acc, out, b'')))"
| "run (Fifo_read k # ops) b =
     (case fifo_read k b of (d, b') \<Rightarrow>
        (case run ops b' of (acc, out, b'') \<Rightarrow> (acc, d @ out, b'')))"

lemma run_conserves:
  assumes "inv b" and "run ops b = (acc, out, b')"
  shows "inv b' \<and> contents b @ acc = out @ contents b'"
  using assms
proof (induction ops arbitrary: b acc out b')
  case (Cons x ops)
  show ?case
  proof (cases x)
    case (Fifo_write d)
    obtain n b1 where w: "fifo_write d b = (n, b1)" by fastforce
    obtain a2 o2 b2 where r: "run ops b1 = (a2, o2, b2)" by (metis surj_pair)
    have n: "take (capacity b - length (contents b)) d = take n d"
      using write_count[OF Cons.prems(1), of d] w by (simp add: min_def)
    have "inv b1" "contents b1 = contents b @ take n d"
      using write_inv[OF Cons.prems(1), of d] write_contents[OF Cons.prems(1), of d] w n by simp_all
    with Cons.IH[OF _ r] Cons.prems(2) Fifo_write w r show ?thesis by auto
  next
    case (Fifo_read k)
    obtain d b1 where w: "fifo_read k b = (d, b1)" by fastforce
    obtain a2 o2 b2 where r: "run ops b1 = (a2, o2, b2)" by (metis surj_pair)
    have "inv b1" and "contents b = d @ contents b1"
      using read_inv[OF Cons.prems(1), of k] read_data[OF Cons.prems(1), of k]
        read_contents[OF Cons.prems(1), of k] w by simp_all
    with Cons.IH[OF _ r] Cons.prems(2) Fifo_read w r show ?thesis by auto
  qed
qed simp

end

section \<open>The circular array\<close>

record RingBuffer =
  rb_buffer :: data
  rb_capacity :: nat
  rb_head :: nat
  rb_tail :: nat
  rb_count :: nat

definition RingBuffer_new :: "nat \<Rightarrow> RingBuffer" where
  "RingBuffer_new cap =
     \<lparr>rb_buffer = [], rb_capacity = cap, rb_head = 0, rb_tail = 0, rb_count = 0\<rparr>"

text \<open>The bodies of the copy loops.\<close>

definition rb_put :: "u8 \<Rightarrow> RingBuffer \<Rightarrow> RingBuffer" where
  "rb_put x r = r\<lparr>rb_buffer := (rb_buffer r)[rb_tail r := x],
                  rb_tail := (rb_tail r + 1) mod rb_capacity r, rb_count := rb_count r + 1\<rparr>"

definition rb_write :: "data \<Rightarrow> RingBuffer \<Rightarrow> nat \<times> RingBuffer" where
  "rb_write d r =
     (if rb_capacity r = 0 then (0, r)
      else
        (let to_write = min (length d) (rb_capacity r - rb_count r);
             r1 = (if length (rb_buffer r) < rb_capacity r
                   then r\<lparr>rb_buffer := rb_buffer r @
                            replicate (rb_capacity r - length (rb_buffer r)) 0\<rparr>
                   else r)
         in (to_write, fold rb_put (take to_write d) r1)))"

fun rb_read_loop :: "nat \<Rightarrow> RingBuffer \<Rightarrow> data \<times> RingBuffer" where
  "rb_read_loop 0 r = ([], r)"
| "rb_read_loop (Suc n) r =
     (case rb_read_loop n (r\<lparr>rb_head := (rb_head r + 1) mod rb_capacity r,
                             rb_count := rb_count r - 1\<rparr>) of
        (d, r') \<Rightarrow> (rb_buffer r ! rb_head r # d, r'))"

definition rb_read :: "nat \<Rightarrow> RingBuffer \<Rightarrow> data \<times> RingBuffer" where
  "rb_read max_size r = rb_read_loop (min max_size (rb_count r)) r"

fun rb_peek_loop :: "nat \<Rightarrow> nat \<Rightarrow> RingBuffer \<Rightarrow> data" where
  "rb_peek_loop 0 pos r = []"
| "rb_peek_loop (Suc n) pos r =
     rb_buffer r ! pos # rb_peek_loop n ((pos + 1) mod rb_capacity r) r"

definition rb_peek :: "nat \<Rightarrow> RingBuffer \<Rightarrow> data" where
  "rb_peek max_size r = rb_peek_loop (min max_size (rb_count r)) (rb_head r) r"

definition rb_available :: "RingBuffer \<Rightarrow> nat" where
  "rb_available r = rb_capacity r - rb_count r"

definition rb_is_empty :: "RingBuffer \<Rightarrow> bool" where
  "rb_is_empty r \<longleftrightarrow> rb_count r = 0"

definition rb_full :: "RingBuffer \<Rightarrow> bool" where
  "rb_full r \<longleftrightarrow> rb_count r = rb_capacity r"

definition rb_clear :: "RingBuffer \<Rightarrow> RingBuffer" where
  "rb_clear r = r\<lparr>rb_head := 0, rb_tail := 0, rb_count := 0\<rparr>"

definition rb_resize :: "nat \<Rightarrow> RingBuffer \<Rightarrow> RingBuffer" where
  "rb_resize new_capacity r =
     (if new_capacity = 0
      then \<lparr>rb_buffer = [], rb_capacity = 0, rb_head = 0, rb_tail = 0, rb_count = 0\<rparr>
      else
        (let old_data = fst (rb_read (rb_count r) r);
             r1 = \<lparr>rb_buffer = replicate new_capacity 0, rb_capacity = new_capacity,
                   rb_head = 0, rb_tail = 0, rb_count = 0\<rparr>
         in if old_data \<noteq> []
            then snd (rb_write (take (min (length old_data) new_capacity) old_data) r1)
            else r1))"

definition rb_inv :: "RingBuffer \<Rightarrow> bool" where
  "rb_inv r \<longleftrightarrow>
     rb_count r \<le> rb_capacity r \<and> length (rb_buffer r) \<le> rb_capacity r \<and>
     (0 < rb_count r \<longrightarrow> length (rb_buffer r) = rb_capacity r) \<and>
     (0 < rb_capacity r \<longrightarrow>
        rb_head r < rb_capacity r \<and> rb_tail r = (rb_head r + rb_count r) mod rb_capacity r)"

definition rb_contents :: "RingBuffer \<Rightarrow> data" where
  "rb_contents r =
     map (\<lambda>i. rb_buffer r ! ((rb_head r + i) mod rb_capacity r)) [0..<rb_count r]"

lemma length_rb_contents [simp]: "length (rb_contents r) = rb_count r"
  by (simp add: rb_contents_def)

lemma mod_window_inj:
  assumes "(h + i) mod n = (h + j) mod n" and "i < n" and "j < (n :: nat)"
  shows "i = j"
proof -
  have "i = j" if "(h + i) mod n = (h + j) mod n" "i < n" "j < n" "i \<le> j" for i j :: nat
  proof -
    have "n dvd j - i" using that mod_eq_dvd_iff_nat[of "h + i" "h + j" n] by simp
    with that show ?thesis by (metis dvd_imp_le le_antisym less_imp_diff_less not_le zero_less_diff)
  qed
  with assms show ?thesis by (metis nat_le_linear)
qed

lemma rb_put_spec:
  assumes "rb_inv r" and "rb_count r < rb_capacity r" and "length (rb_buffer r) = rb_capacity r"
  shows "rb_inv (rb_put x r) \<and> rb_contents (rb_put x r) = rb_contents r @ [x]"
proof
  have t: "rb_tail r = (rb_head r + rb_count r) mod rb_capacity r"
    and t': "rb_tail r < rb_capacity r" using assms by (auto simp: rb_inv_def)
  show "rb_inv (rb_put x r)"
    using assms t by (auto simp: rb_inv_def rb_put_def mod_Suc_eq)
  have "(rb_head r + i) mod rb_capacity r \<noteq> rb_tail r" if "i < rb_count r" for i
    using mod_window_inj[of "rb_head r" i "rb_capacity r" "rb_count r"] that assms(2) t by auto
  then have "(rb_buffer r)[rb_tail r := x] ! ((rb_head r + i) mod rb_capacity r) =
      rb_buffer r ! ((rb_head r + i) mod rb_capacity r)" if "i < rb_count r" for i
    using that by (metis nth_list_update_neq)
  then show "rb_contents (rb_put x r) = rb_contents r @ [x]"
    using t t' assms(3) by (simp add: rb_contents_def rb_put_def)
qed

lemma rb_put_sel [simp]:
  "rb_count (rb_put x r) = rb_count r + 1" "rb_capacity (rb_put x r) = rb_capacity r"
  "length (rb_buffer (rb_put x r)) = length (rb_buffer r)"
  by (simp_all add: rb_put_def)

lemma rb_fold_put:
  assumes "rb_inv r" and "rb_count r + length d \<le> rb_capacity r"
    and "length (rb_buffer r) = rb_capacity r"
  shows "rb_inv (fold rb_put d r) \<and> rb_contents (fold rb_put d r) = rb_contents r @ d \<and>
    rb_capacity (fold rb_put d r) = rb_capacity r"
  using assms
proof (induction d arbitrary: r)
  case (Cons x d)
  then show ?case using rb_put_spec[of r x] Cons.IH[of "rb_put x r"] by simp
qed simp

definition rb_ensure :: "RingBuffer \<Rightarrow> RingBuffer" where
  "rb_ensure r =
     (if length (rb_buffer r) < rb_capacity r
      then r\<lparr>rb_buffer := rb_buffer r @ replicate (rb_capacity r - length (rb_buffer r)) 0\<rparr>
      else r)"

lemma rb_ensure_spec:
  assumes "rb_inv r"
  shows "rb_inv (rb_ensure r)" "rb_contents (rb_ensure r) = rb_contents r"
    "length (rb_buffer (rb_ensure r)) = rb_capacity r" "rb_capacity (rb_ensure r) = rb_capacity r"
    "rb_count (rb_ensure r) = rb_count r"
  using assms by (auto simp: rb_ensure_def rb_inv_def rb_contents_def)

lemma rb_write_eq:
  "rb_write d r =
     (if rb_capacity r = 0 then (0, r)
      else (min (length d) (rb_capacity r - rb_count r),
            fold rb_put (take (rb_capacity r - rb_count r) d) (rb_ensure r)))"
proof -
  have "take (min (length d) n) d = take n d" for n by (simp add: min_def)
  then show ?thesis by (simp add: rb_write_def Let_def rb_ensure_def)
qed

lemma rb_write_spec:
  assumes "rb_inv r"
  shows "rb_inv (snd (rb_write d r))"
    and "rb_contents (snd (rb_write d r)) = rb_contents r @ take (rb_capacity r - rb_count r) d"
    and "rb_capacity (snd (rb_write d r)) = rb_capacity r"
proof -
  have le: "rb_count r \<le> rb_capacity r" using assms by (simp add: rb_inv_def)
  note e = rb_ensure_spec[OF assms]
  have "rb_inv (fold rb_put (take (rb_capacity r - rb_count r) d) (rb_ensure r)) \<and>
      rb_contents (fold rb_put (take (rb_capacity r - rb_count r) d) (rb_ensure r)) =
        rb_contents (rb_ensure r) @ take (rb_capacity r - rb_count r) d \<and>
      rb_capacity (fold rb_put (take (rb_capacity r - rb_count r) d) (rb_ensure r)) =
        rb_capacity (rb_ensure r)"
    using le e by (intro rb_fold_put) auto
  then show "rb_inv (snd (rb_write d r))"
    and "rb_contents (snd (rb_write d r)) = rb_contents r @ take (rb_capacity r - rb_count r) d"
    and "rb_capacity (snd (rb_write d r)) = rb_capacity r"
    using assms e by (simp_all add: rb_write_eq)
qed

lemma rb_read_loop_spec:
  assumes "rb_inv r" and "n \<le> rb_count r"
  shows "fst (rb_read_loop n r) = take n (rb_contents r) \<and> rb_inv (snd (rb_read_loop n r)) \<and>
    rb_contents (snd (rb_read_loop n r)) = drop n (rb_contents r) \<and>
    rb_capacity (snd (rb_read_loop n r)) = rb_capacity r"
  using assms
proof (induction n arbitrary: r)
  case (Suc n)
  let ?r = "r\<lparr>rb_head := (rb_head r + 1) mod rb_capacity r, rb_count := rb_count r - 1\<rparr>"
  have cap: "0 < rb_capacity r" "0 < rb_count r" and h: "rb_head r < rb_capacity r"
    using Suc.prems by (auto simp: rb_inv_def)
  obtain c where c: "rb_count r = Suc c" using cap by (cases "rb_count r") auto
  have inv: "rb_inv ?r"
    using Suc.prems cap by (auto simp: rb_inv_def c mod_simps)
  have con: "rb_contents r = rb_buffer r ! rb_head r # rb_contents ?r"
    using cap h map_upt_Suc[of "\<lambda>i. rb_buffer r ! ((rb_head r + i) mod rb_capacity r)" "rb_count r - 1"]
    by (simp add: rb_contents_def mod_simps)
  have "n \<le> rb_count ?r" using Suc.prems by simp
  from Suc.IH[OF inv this] con show ?case by (simp add: case_prod_beta)
qed simp

lemma rb_peek_loop_eq:
  "rb_peek_loop n pos r = map (\<lambda>i. rb_buffer r ! ((pos + i) mod rb_capacity r)) [0..<n]"
  if "pos < rb_capacity r" for n pos
  using that
proof (induction n arbitrary: pos)
  case (Suc n)
  then show ?case
    using map_upt_Suc[of "\<lambda>i. rb_buffer r ! ((pos + i) mod rb_capacity r)" n]
    by (simp add: mod_simps)
qed simp

lemma rb_read_spec:
  assumes "rb_inv r"
  shows "fst (rb_read n r) = take n (rb_contents r)" and "rb_inv (snd (rb_read n r))"
    and "rb_contents (snd (rb_read n r)) = drop n (rb_contents r)"
    and "rb_capacity (snd (rb_read n r)) = rb_capacity r"
  using rb_read_loop_spec[OF assms, of "min n (rb_count r)"]
  by (simp_all add: rb_read_def min_def split: if_splits)

lemma rb_peek_spec:
  assumes "rb_inv r"
  shows "rb_peek n r = take n (rb_contents r)"
proof (cases "rb_count r = 0")
  case False
  then have "rb_head r < rb_capacity r" using assms by (auto simp: rb_inv_def)
  then show ?thesis
    by (simp add: rb_peek_def rb_peek_loop_eq rb_contents_def take_map min_def)
qed (simp add: rb_peek_def rb_contents_def)

lemma rb_new_inv: "rb_inv (RingBuffer_new n)" "rb_contents (RingBuffer_new n) = []"
  by (simp_all add: rb_inv_def RingBuffer_new_def rb_contents_def)

lemma rb_clear_spec: "rb_inv r \<Longrightarrow> rb_inv (rb_clear r)" "rb_contents (rb_clear r) = []"
  by (auto simp: rb_inv_def rb_clear_def rb_contents_def)

lemma rb_resize_spec:
  assumes "rb_inv r"
  shows "rb_inv (rb_resize n r)" and "rb_contents (rb_resize n r) = take n (rb_contents r)"
    and "rb_capacity (rb_resize n r) = n"
proof -
  define r1 where "r1 = \<lparr>rb_buffer = replicate n 0, rb_capacity = n, rb_head = 0, rb_tail = 0,
    rb_count = 0\<rparr>"
  have r1: "rb_inv r1" "rb_contents r1 = []" "rb_capacity r1 = n" "rb_count r1 = 0"
    by (auto simp: r1_def rb_inv_def rb_contents_def)
  have old: "fst (rb_read (rb_count r) r) = rb_contents r"
    using rb_read_spec(1)[OF assms, of "rb_count r"] by simp
  have "rb_resize n r = (if n = 0 then r1 else if rb_contents r \<noteq> []
      then snd (rb_write (take (min (rb_count r) n) (rb_contents r)) r1) else r1)"
    by (simp add: rb_resize_def r1_def old Let_def)
  then show "rb_inv (rb_resize n r)" "rb_contents (rb_resize n r) = take n (rb_contents r)"
    "rb_capacity (rb_resize n r) = n"
    using r1 rb_write_spec[OF r1(1), of "take (min (rb_count r) n) (rb_contents r)"]
    by (auto simp: min_def)
qed

interpretation ring: byte_fifo rb_write rb_read rb_contents rb_capacity rb_inv
proof unfold_locales
  fix b :: RingBuffer and d n
  assume inv: "rb_inv b"
  show "rb_inv (snd (rb_write d b))" "rb_capacity (snd (rb_write d b)) = rb_capacity b"
    using rb_write_spec[OF inv] by simp_all
  show "rb_contents (snd (rb_write d b)) =
      rb_contents b @ take (rb_capacity b - length (rb_contents b)) d"
    using rb_write_spec[OF inv] by simp
  show "fst (rb_write d b) = min (length d) (rb_capacity b - length (rb_contents b))"
    by (simp add: rb_write_eq)
  show "rb_inv (snd (rb_read n b))" "fst (rb_read n b) = take n (rb_contents b)"
    "rb_contents (snd (rb_read n b)) = drop n (rb_contents b)"
    "rb_capacity (snd (rb_read n b)) = rb_capacity b"
    using rb_read_spec[OF inv] by simp_all
  show "length (rb_contents b) \<le> rb_capacity b" using inv by (simp add: rb_inv_def)
qed

section \<open>Properties\<close>

text \<open>The ring buffer is a bounded byte queue: a write accepts as many bytes as there is space
  for and appends them, a read and a peek give the oldest bytes in order, the fill never exceeds the
  capacity, and changing the capacity keeps the oldest bytes that fit.\<close>

theorem ring_buffer_fifo:
  assumes "rb_inv r"
  shows "fst (rb_write d r) = min (length d) (rb_capacity r - rb_count r) \<and>
    rb_contents (snd (rb_write d r)) = rb_contents r @ take (fst (rb_write d r)) d \<and>
    rb_inv (snd (rb_write d r)) \<and>
    fst (rb_read n r) = take n (rb_contents r) \<and> rb_peek n r = take n (rb_contents r) \<and>
    rb_contents (snd (rb_read n r)) = drop n (rb_contents r) \<and> rb_inv (snd (rb_read n r)) \<and>
    length (rb_contents r) = rb_count r \<and> rb_count r \<le> rb_capacity r \<and>
    rb_inv (rb_resize k r) \<and> rb_contents (rb_resize k r) = take k (rb_contents r)"
proof -
  have n: "fst (rb_write d r) = min (length d) (rb_capacity r - rb_count r)"
    using ring.write_count[OF assms, of d] by simp
  then have "take (fst (rb_write d r)) d = take (rb_capacity r - rb_count r) d"
    by (simp add: min_def)
  then show ?thesis
    using rb_write_spec[OF assms, of d] rb_read_spec[OF assms, of n] rb_peek_spec[OF assms, of n]
      rb_resize_spec[OF assms, of k] n assms by (simp add: rb_inv_def)
qed

theorem ring_buffer_fifo_witness:
  "fst (rb_read 9 (snd (rb_write [1, 2, 3, 4] (RingBuffer_new 3)))) = [1, 2, 3]"
proof -
  have inv: "rb_inv (snd (rb_write [1, 2, 3, 4] (RingBuffer_new 3)))"
    using ring_buffer_fifo[OF rb_new_inv(1)] by blast
  show ?thesis
    using ring_buffer_fifo[OF inv, of "[]" 9] ring_buffer_fifo[OF rb_new_inv(1)[of 3], of "[1, 2, 3, 4]"]
    by (simp add: rb_new_inv RingBuffer_new_def rb_contents_def)
qed

end
