(* ===== verification/In_Channel.thy ===== *)
theory In_Channel
  imports Protocol Ring_Buffer "HOL-Library.Multiset"
begin

text \<open>
  \<open>virtual_device/InEndpointChannel.h\<close>: pairing of the host's IN requests with the data
  the device produces. The CRTP base class is a set of functions over a record
  \<open>in_ops\<close> of the operations a derived class provides; \<open>MessageInChannel\<close> and
  \<open>ByteStreamInChannel\<close> supply theirs. Every operation runs under both locks of the
  channel and is one atomic step; a blocking call releases the lock while it waits, so its
  model takes a list of interferences: what other threads did to the channel before
  each wake-up, and whether the wait timed out.
\<close>

section \<open>The request queue\<close>

record 'tr Request =
  req_seqnum :: u32
  req_length :: u32
  req_transfer :: "'tr TransferHandle"

text \<open>
  \<open>std::unordered_map\<close> leaves the iteration order open. The model keeps the queues in a
  list and puts a new endpoint in front; the properties speak of one endpoint or of all
  requests together and do not depend on the order.
\<close>

type_synonym 'tr EndpointRequestQueue = "(u8 \<times> 'tr Request list) list"

fun erq_has :: "u8 \<Rightarrow> 'tr EndpointRequestQueue \<Rightarrow> bool" where
  "erq_has ep [] = False"
| "erq_has ep ((e, q) # qs) = (e = ep \<or> erq_has ep qs)"

fun erq_get :: "u8 \<Rightarrow> 'tr EndpointRequestQueue \<Rightarrow> 'tr Request list" where
  "erq_get ep [] = []"
| "erq_get ep ((e, q) # qs) = (if e = ep then q else erq_get ep qs)"

fun erq_put :: "u8 \<Rightarrow> 'tr Request list \<Rightarrow> 'tr EndpointRequestQueue \<Rightarrow> 'tr EndpointRequestQueue" where
  "erq_put ep q' [] = []"
| "erq_put ep q' ((e, q) # qs) = (if e = ep then (e, q') # qs else (e, q) # erq_put ep q' qs)"

definition erq_enqueue :: "u8 \<Rightarrow> 'tr Request \<Rightarrow> 'tr EndpointRequestQueue \<Rightarrow> 'tr EndpointRequestQueue" where
  "erq_enqueue ep r qs =
     (if erq_has ep qs then erq_put ep (erq_get ep qs @ [r]) qs else (ep, [r]) # qs)"

definition erq_dequeue ::
    "u8 \<Rightarrow> 'tr EndpointRequestQueue \<Rightarrow> ('tr Request \<times> 'tr EndpointRequestQueue) option" where
  "erq_dequeue ep qs =
     (case erq_get ep qs of [] \<Rightarrow> None | r # rs \<Rightarrow> Some (r, erq_put ep rs qs))"

fun erq_dequeue_any ::
    "'tr EndpointRequestQueue \<Rightarrow> ((u8 \<times> 'tr Request) \<times> 'tr EndpointRequestQueue) option" where
  "erq_dequeue_any [] = None"
| "erq_dequeue_any ((e, []) # qs) =
     map_option (\<lambda>(x, qs'). (x, (e, []) # qs')) (erq_dequeue_any qs)"
| "erq_dequeue_any ((e, r # rs) # qs) = Some ((e, r), (e, rs) # qs)"

definition erq_peek :: "u8 \<Rightarrow> 'tr EndpointRequestQueue \<Rightarrow> 'tr Request option" where
  "erq_peek ep qs = (case erq_get ep qs of [] \<Rightarrow> None | r # _ \<Rightarrow> Some r)"

definition erq_empty :: "u8 \<Rightarrow> 'tr EndpointRequestQueue \<Rightarrow> bool" where
  "erq_empty ep qs \<longleftrightarrow> erq_get ep qs = []"

definition erq_size :: "u8 \<Rightarrow> 'tr EndpointRequestQueue \<Rightarrow> nat" where
  "erq_size ep qs = length (erq_get ep qs)"

fun erq_cancel_by_seqnum :: "u32 \<Rightarrow> 'tr EndpointRequestQueue \<Rightarrow> bool \<times> 'tr EndpointRequestQueue" where
  "erq_cancel_by_seqnum s [] = (False, [])"
| "erq_cancel_by_seqnum s ((e, q) # qs) =
     (if \<exists>r \<in> set q. req_seqnum r = s then (True, (e, remove_first (\<lambda>r. req_seqnum r = s) q) # qs)
      else (case erq_cancel_by_seqnum s qs of (b, qs') \<Rightarrow> (b, (e, q) # qs')))"

text \<open>All pending requests, in iteration order.\<close>

definition erq_all :: "'tr EndpointRequestQueue \<Rightarrow> 'tr Request list" where
  "erq_all qs = concat (map snd qs)"

lemma erq_all_simps [simp]: "erq_all [] = []" "erq_all ((e, q) # qs) = q @ erq_all qs"
  by (simp_all add: erq_all_def)

lemma erq_dequeue_any_None: "erq_dequeue_any qs = None \<longleftrightarrow> erq_all qs = []"
  by (induction qs rule: erq_dequeue_any.induct) auto

lemma erq_dequeue_any_Some:
  "erq_dequeue_any qs = Some ((e, r), qs') \<Longrightarrow> erq_all qs = r # erq_all qs'"
  by (induction qs arbitrary: qs' rule: erq_dequeue_any.induct) auto

text \<open>Each endpoint has one queue.\<close>

fun erq_wf :: "'tr EndpointRequestQueue \<Rightarrow> bool" where
  "erq_wf [] = True"
| "erq_wf ((e, q) # qs) = (\<not> erq_has e qs \<and> erq_wf qs)"

lemma erq_dequeue_any_has:
  "erq_dequeue_any qs = Some ((e, r), qs') \<Longrightarrow> erq_has e qs \<and> erq_has ep qs' = erq_has ep qs"
  by (induction qs arbitrary: qs' rule: erq_dequeue_any.induct) auto

lemma erq_get_notin: "\<not> erq_has ep qs \<Longrightarrow> erq_get ep qs = []"
  by (induction qs) auto

lemma erq_dequeue_any_get:
  "erq_dequeue_any qs = Some ((e, r), qs') \<Longrightarrow> erq_wf qs \<Longrightarrow>
   erq_wf qs' \<and> erq_get ep qs = (if ep = e then r # erq_get ep qs' else erq_get ep qs')"
proof (induction qs arbitrary: qs' rule: erq_dequeue_any.induct)
  case (2 e' qs)
  then obtain qs'' where q: "erq_dequeue_any qs = Some ((e, r), qs'')" "qs' = (e', []) # qs''" by auto
  with 2 have "erq_wf qs''"
    "erq_get ep qs = (if ep = e then r # erq_get ep qs'' else erq_get ep qs'')" by auto
  with erq_dequeue_any_has[OF q(1)] q(2) 2(3) show ?case by auto
qed (auto simp: erq_get_notin)

lemma erq_put_has [simp]: "erq_has e (erq_put ep q qs) = erq_has e qs"
  by (induction qs) (auto split: if_splits)

lemma erq_put_wf [simp]: "erq_wf (erq_put ep q qs) = erq_wf qs"
  by (induction qs) (auto split: if_splits)

lemma erq_get_put [simp]:
  "erq_get ep (erq_put e q qs) = (if ep = e \<and> erq_has e qs then q else erq_get ep qs)"
  by (induction qs) auto

lemma erq_get_enqueue:
  "erq_get ep (erq_enqueue e r qs) = (if ep = e then erq_get ep qs @ [r] else erq_get ep qs)"
  by (auto simp: erq_enqueue_def erq_get_notin)

lemma mset_erq_put:
  "erq_has ep qs \<Longrightarrow>
   mset (erq_all (erq_put ep q qs)) + mset (erq_get ep qs) = mset (erq_all qs) + mset q"
  by (induction qs) (auto simp: ac_simps)

lemma mset_erq_enqueue: "mset (erq_all (erq_enqueue ep r qs)) = add_mset r (mset (erq_all qs))"
  using mset_erq_put[of ep qs "erq_get ep qs @ [r]"] by (auto simp: erq_enqueue_def)

lemma erq_enqueue_wf: "erq_wf qs \<Longrightarrow> erq_wf (erq_enqueue ep r qs)"
  by (auto simp: erq_enqueue_def)

lemma erq_get_in: "erq_get ep qs \<noteq> [] \<Longrightarrow> erq_has ep qs"
  using erq_get_notin by fastforce

lemma erq_dequeue_spec:
  assumes "erq_dequeue ep qs = Some (r, qs')"
  shows "mset (erq_all qs) = add_mset r (mset (erq_all qs'))" and "erq_wf qs' = erq_wf qs"
    and "erq_get ep qs = r # erq_get ep qs'" and "e \<noteq> ep \<Longrightarrow> erq_get e qs' = erq_get e qs"
proof -
  obtain rs where g: "erq_get ep qs = r # rs" and q: "qs' = erq_put ep rs qs"
    using assms by (auto simp: erq_dequeue_def split: list.splits)
  have h: "erq_has ep qs" using g by (intro erq_get_in) simp
  show "mset (erq_all qs) = add_mset r (mset (erq_all qs'))"
    using mset_erq_put[OF h, of rs] by (simp add: g q)
  show "erq_wf qs' = erq_wf qs" "erq_get ep qs = r # erq_get ep qs'"
    "e \<noteq> ep \<Longrightarrow> erq_get e qs' = erq_get e qs"
    using h by (simp_all add: g q)
qed

lemma mset_remove_first:
  "\<exists>x \<in> set xs. P x \<Longrightarrow> \<exists>x. P x \<and> mset xs = add_mset x (mset (remove_first P xs))"
  by (induction xs) auto

lemma erq_cancel_has: "erq_cancel_by_seqnum s qs = (b, qs') \<Longrightarrow> erq_has e qs' = erq_has e qs"
  by (induction s qs arbitrary: b qs' rule: erq_cancel_by_seqnum.induct)
     (auto split: if_splits prod.splits)

lemma erq_cancel_wf: "erq_cancel_by_seqnum s qs = (b, qs') \<Longrightarrow> erq_wf qs' = erq_wf qs"
  by (induction s qs arbitrary: b qs' rule: erq_cancel_by_seqnum.induct)
     (auto split: if_splits prod.splits simp: erq_cancel_has)

lemma erq_cancel_size: "erq_cancel_by_seqnum s qs = (b, qs') \<Longrightarrow> erq_size e qs' \<le> erq_size e qs"
  by (induction s qs arbitrary: b qs' rule: erq_cancel_by_seqnum.induct)
     (auto split: if_splits prod.splits simp: erq_size_def length_remove_first)

lemma erq_cancel_found:
  "erq_cancel_by_seqnum s qs = (b, qs') \<Longrightarrow> b \<longleftrightarrow> (\<exists>r \<in> set (erq_all qs). req_seqnum r = s)"
  by (induction s qs arbitrary: b qs' rule: erq_cancel_by_seqnum.induct)
     (auto split: if_splits prod.splits)

lemma erq_cancel_mset:
  "erq_cancel_by_seqnum s qs = (b, qs') \<Longrightarrow>
   (if b then \<exists>r. req_seqnum r = s \<and> mset (erq_all qs) = add_mset r (mset (erq_all qs'))
    else qs' = qs)"
proof (induction s qs arbitrary: b qs' rule: erq_cancel_by_seqnum.induct)
  case (2 s e q qs)
  show ?case
  proof (cases "\<exists>r \<in> set q. req_seqnum r = s")
    case True
    with mset_remove_first[of q "\<lambda>r. req_seqnum r = s"] 2(2) show ?thesis by auto
  next
    case False
    with 2 show ?thesis by (fastforce split: prod.splits if_splits)
  qed
qed simp

section \<open>The channel\<close>

text \<open>
  What a derived class provides, all called under the locks: \<open>buffer_empty\<close>,
  \<open>buffer_clear\<close>, the data \<open>try_send_one\<close> takes for a request of a given length,
  \<open>try_pull_data\<close>, and the data \<open>send_pulled_locked\<close> sends of pulled data, with
  the buffer it leaves.
\<close>

record 'b in_ops =
  io_empty :: "'b \<Rightarrow> bool"
  io_clear :: "'b \<Rightarrow> 'b"
  io_next :: "u32 \<Rightarrow> 'b \<Rightarrow> data \<times> 'b"
  io_pull :: "u32 \<Rightarrow> 'b \<Rightarrow> data"
  io_pulled :: "u32 \<Rightarrow> data \<Rightarrow> 'b \<Rightarrow> data \<times> 'b"

record ('b, 'tr) in_channel =
  ic_buffer :: 'b
  ic_requests :: "'tr EndpointRequestQueue"
  ic_max_requests :: nat
  ic_disconnected :: bool
  ic_responder :: "nat option"
  ic_sent :: "'tr UsbIpRetSubmit list"

definition in_channel_new :: "'b \<Rightarrow> ('b, 'tr) in_channel" where
  "in_channel_new b =
     \<lparr>ic_buffer = b, ic_requests = [], ic_max_requests = 0, ic_disconnected = True,
      ic_responder = None, ic_sent = []\<rparr>"

text \<open>\<open>transfer.get_operator()->set_transfer_data(transfer.get(), data, length)\<close>; the
  routing operator inherits the default, which takes nothing. A queued handle is never null.\<close>

definition fill_transfer :: "'tr TransferHandle \<Rightarrow> data \<Rightarrow> nat \<Rightarrow> nat \<times> 'tr TransferHandle" where
  "fill_transfer th d len =
     (case (th_handle th, th_op th) of
        (Some t, Some (Leaf_op p)) \<Rightarrow>
          (case set_transfer_data p t d len of (n, t') \<Rightarrow> (n, th\<lparr>th_handle := Some t'\<rparr>))
      | _ \<Rightarrow> (0, th))"

definition ic_submit :: "'tr UsbIpRetSubmit \<Rightarrow> ('b, 'tr) in_channel \<Rightarrow> ('b, 'tr) in_channel" where
  "ic_submit r c = c\<lparr>ic_sent := ic_sent c @ [r]\<rparr>"

definition ic_reply :: "u32 \<Rightarrow> u32 \<Rightarrow> 'tr TransferHandle \<Rightarrow> data \<Rightarrow> ('b, 'tr) in_channel \<Rightarrow>
    ('b, 'tr) in_channel" where
  "ic_reply seqnum len th d c =
     (case fill_transfer th d (unat len) of (written, th') \<Rightarrow>
        ic_submit (create_ret_submit_ok_with_no_iso seqnum (of_nat written) th') c)"

definition ic_try_send_one :: "'b in_ops \<Rightarrow> u32 \<Rightarrow> u32 \<Rightarrow> 'tr TransferHandle \<Rightarrow>
    ('b, 'tr) in_channel \<Rightarrow> ('b, 'tr) in_channel" where
  "ic_try_send_one ops seqnum len th c =
     (case io_next ops len (ic_buffer c) of (d, b') \<Rightarrow>
        ic_reply seqnum len th d (c\<lparr>ic_buffer := b'\<rparr>))"

definition ic_send_pulled :: "'b in_ops \<Rightarrow> u32 \<Rightarrow> u32 \<Rightarrow> 'tr TransferHandle \<Rightarrow> data \<Rightarrow>
    ('b, 'tr) in_channel \<Rightarrow> ('b, 'tr) in_channel" where
  "ic_send_pulled ops seqnum len th pulled c =
     (case io_pulled ops len pulled (ic_buffer c) of (d, b') \<Rightarrow>
        ic_reply seqnum len th d (c\<lparr>ic_buffer := b'\<rparr>))"

definition ic_reply_empty :: "u32 \<Rightarrow> ('b, 'tr) in_channel \<Rightarrow> ('b, 'tr) in_channel" where
  "ic_reply_empty seqnum c = ic_submit (create_ret_submit_ok_without_data seqnum 0) c"

lemma ic_submit_sel [simp]:
  "ic_requests (ic_submit r c) = ic_requests c" "ic_buffer (ic_submit r c) = ic_buffer c"
  "ic_max_requests (ic_submit r c) = ic_max_requests c"
  "ic_disconnected (ic_submit r c) = ic_disconnected c"
  "ic_sent (ic_submit r c) = ic_sent c @ [r]"
  by (simp_all add: ic_submit_def)

lemma ic_try_send_one_requests [simp]: "ic_requests (ic_try_send_one ops s l th c) = ic_requests c"
  by (simp add: ic_try_send_one_def ic_reply_def split: prod.splits)

function (sequential) ic_try_send_pending :: "'b in_ops \<Rightarrow> ('b, 'tr) in_channel \<Rightarrow> ('b, 'tr) in_channel" where
  "ic_try_send_pending ops c =
     (if io_empty ops (ic_buffer c) then c
      else (case erq_dequeue_any (ic_requests c) of
              None \<Rightarrow> c
            | Some ((ep, r), qs) \<Rightarrow>
                ic_try_send_pending ops
                  (ic_try_send_one ops (req_seqnum r) (req_length r) (req_transfer r)
                     (c\<lparr>ic_requests := qs\<rparr>))))"
  by pat_completeness auto
termination
  by (relation "measure (\<lambda>(ops, c). length (erq_all (ic_requests c)))")
     (auto dest: erq_dequeue_any_Some)

declare ic_try_send_pending.simps [simp del]

definition ic_on_new_connection :: "'b in_ops \<Rightarrow> nat option \<Rightarrow> ('b, 'tr) in_channel \<Rightarrow>
    ('b, 'tr) in_channel" where
  "ic_on_new_connection ops session c =
     c\<lparr>ic_responder := (case session of Some s \<Rightarrow> Some s | None \<Rightarrow> ic_responder c),
       ic_disconnected := False, ic_buffer := io_clear ops (ic_buffer c)\<rparr>"

definition ic_evict :: "u8 \<Rightarrow> ('b, 'tr) in_channel \<Rightarrow> ('b, 'tr) in_channel" where
  "ic_evict ep c =
     (if ic_max_requests c \<noteq> 0 \<and> ic_max_requests c \<le> erq_size ep (ic_requests c)
      then (case erq_dequeue ep (ic_requests c) of
              Some (r, qs) \<Rightarrow> ic_reply_empty (req_seqnum r) (c\<lparr>ic_requests := qs\<rparr>)
            | None \<Rightarrow> c)
      else c)"

definition ic_enqueue :: "u8 \<Rightarrow> 'tr Request \<Rightarrow> ('b, 'tr) in_channel \<Rightarrow> ('b, 'tr) in_channel" where
  "ic_enqueue ep r c = c\<lparr>ic_requests := erq_enqueue ep r (ic_requests c)\<rparr>"

definition ic_on_in_request :: "'b in_ops \<Rightarrow> u8 \<Rightarrow> u32 \<Rightarrow> u32 \<Rightarrow> 'tr TransferHandle \<Rightarrow>
    ('b, 'tr) in_channel \<Rightarrow> ('b, 'tr) in_channel" where
  "ic_on_in_request ops ep seqnum len th c =
     (if ic_disconnected c then c
      else if erq_empty ep (ic_requests c) \<and> \<not> io_empty ops (ic_buffer c)
      then ic_try_send_one ops seqnum len th c
      else
        (let pulled = (if erq_empty ep (ic_requests c) then io_pull ops len (ic_buffer c) else [])
         in if pulled \<noteq> []
            then ic_try_send_pending ops (ic_send_pulled ops seqnum len th pulled c)
            else ic_try_send_pending ops
                   (ic_enqueue ep \<lparr>req_seqnum = seqnum, req_length = len, req_transfer = th\<rparr>
                      (ic_evict ep c))))"

definition ic_set_max_pending_requests :: "nat \<Rightarrow> ('b, 'tr) in_channel \<Rightarrow> ('b, 'tr) in_channel" where
  "ic_set_max_pending_requests n c = c\<lparr>ic_max_requests := n\<rparr>"

definition ic_cancel_pending :: "u32 \<Rightarrow> ('b, 'tr) in_channel \<Rightarrow> bool \<times> ('b, 'tr) in_channel" where
  "ic_cancel_pending s c =
     (case erq_cancel_by_seqnum s (ic_requests c) of (b, qs) \<Rightarrow> (b, c\<lparr>ic_requests := qs\<rparr>))"

definition ic_on_disconnection :: "'b in_ops \<Rightarrow> ('b, 'tr) in_channel \<Rightarrow> ('b, 'tr) in_channel" where
  "ic_on_disconnection ops c =
     c\<lparr>ic_disconnected := True, ic_buffer := io_clear ops (ic_buffer c), ic_requests := []\<rparr>"

section \<open>Message mode\<close>

record MessageBuffer =
  mb_pending :: "data list"
  mb_max :: nat

definition mb_push_locked :: "data \<Rightarrow> MessageBuffer \<Rightarrow> MessageBuffer" where
  "mb_push_locked d b =
     b\<lparr>mb_pending := (if mb_max b \<noteq> 0 \<and> mb_max b \<le> length (mb_pending b)
                     then tl (mb_pending b) else mb_pending b) @ [d]\<rparr>"

definition mb_next :: "u32 \<Rightarrow> MessageBuffer \<Rightarrow> data \<times> MessageBuffer" where
  "mb_next len b =
     (take (unat len) (hd (mb_pending b)), b\<lparr>mb_pending := tl (mb_pending b)\<rparr>)"

definition message_ops :: "MessageBuffer in_ops" where
  "message_ops =
     \<lparr>io_empty = (\<lambda>b. mb_pending b = []), io_clear = (\<lambda>b. b\<lparr>mb_pending := []\<rparr>),
      io_next = mb_next, io_pull = (\<lambda>_ _. []),
      io_pulled = (\<lambda>len pulled b. mb_next len (mb_push_locked pulled b))\<rparr>"

type_synonym 'tr MessageInChannel = "(MessageBuffer, 'tr) in_channel"

definition mb_full :: "MessageBuffer \<Rightarrow> bool" where
  "mb_full b \<longleftrightarrow> mb_max b \<noteq> 0 \<and> mb_max b \<le> length (mb_pending b)"

definition msg_push_and_send :: "data \<Rightarrow> 'tr MessageInChannel \<Rightarrow> 'tr MessageInChannel" where
  "msg_push_and_send d c =
     ic_try_send_pending message_ops (c\<lparr>ic_buffer := mb_push_locked d (ic_buffer c)\<rparr>)"

definition msg_push :: "data \<Rightarrow> bool \<Rightarrow> 'tr MessageInChannel \<Rightarrow> bool \<times> 'tr MessageInChannel" where
  "msg_push d drop_oldest c =
     (if ic_disconnected c then (False, c)
      else if \<not> drop_oldest \<and> mb_full (ic_buffer c) then (False, c)
      else (True, msg_push_and_send d c))"

definition msg_push_after_wait :: "data \<Rightarrow> 'tr MessageInChannel \<Rightarrow> bool \<times> 'tr MessageInChannel" where
  "msg_push_after_wait d c =
     (if ic_disconnected c then (False, c)
      else if mb_full (ic_buffer c) then (False, c)
      else (True, msg_push_and_send d c))"

text \<open>\<open>push_blocking\<close>; the result is \<open>None\<close> while the call still waits.\<close>

fun msg_push_blocking :: "data \<Rightarrow> nat \<Rightarrow> (('tr MessageInChannel \<Rightarrow> 'tr MessageInChannel) \<times> bool) list \<Rightarrow>
    'tr MessageInChannel \<Rightarrow> (bool \<times> 'tr MessageInChannel) option" where
  "msg_push_blocking d timeout_ms [] c =
     (if mb_full (ic_buffer c) then (if ic_disconnected c then Some (False, c) else None)
      else Some (msg_push_after_wait d c))"
| "msg_push_blocking d timeout_ms ((others, timed_out) # env) c =
     (if mb_full (ic_buffer c)
      then (if ic_disconnected c then Some (False, c)
            else if timeout_ms \<noteq> 0 \<and> timed_out then Some (msg_push_after_wait d (others c))
            else msg_push_blocking d timeout_ms env (others c))
      else Some (msg_push_after_wait d c))"

definition msg_set_max_pending_messages :: "nat \<Rightarrow> 'tr MessageInChannel \<Rightarrow> 'tr MessageInChannel" where
  "msg_set_max_pending_messages n c = c\<lparr>ic_buffer := (ic_buffer c)\<lparr>mb_max := n\<rparr>\<rparr>"

section \<open>Byte-stream mode\<close>

record ByteBuffer =
  bb_ring :: RingBuffer
  bb_pull :: "(u32 \<Rightarrow> data) option"

definition bb_write :: "data \<Rightarrow> ByteBuffer \<Rightarrow> nat \<times> ByteBuffer" where
  "bb_write d b = (case rb_write d (bb_ring b) of (n, r) \<Rightarrow> (n, b\<lparr>bb_ring := r\<rparr>))"

definition bb_next :: "u32 \<Rightarrow> ByteBuffer \<Rightarrow> data \<times> ByteBuffer" where
  "bb_next len b =
     (case rb_read (min (rb_count (bb_ring b)) (unat len)) (bb_ring b) of
        (d, r) \<Rightarrow> (d, b\<lparr>bb_ring := r\<rparr>))"

definition bb_pulled :: "u32 \<Rightarrow> data \<Rightarrow> ByteBuffer \<Rightarrow> data \<times> ByteBuffer" where
  "bb_pulled len pulled b =
     (let send_len = min (length pulled) (unat len)
      in (take send_len pulled,
          if send_len < length pulled then snd (bb_write (drop send_len pulled) b) else b))"

definition stream_ops :: "ByteBuffer in_ops" where
  "stream_ops =
     \<lparr>io_empty = (\<lambda>b. rb_is_empty (bb_ring b)),
      io_clear = (\<lambda>b. b\<lparr>bb_ring := rb_clear (bb_ring b)\<rparr>),
      io_next = bb_next,
      io_pull = (\<lambda>len b. case bb_pull b of Some f \<Rightarrow> f len | None \<Rightarrow> []),
      io_pulled = bb_pulled\<rparr>"

type_synonym 'tr ByteStreamInChannel = "(ByteBuffer, 'tr) in_channel"

definition bs_put :: "data \<Rightarrow> 'tr ByteStreamInChannel \<Rightarrow> nat \<times> 'tr ByteStreamInChannel" where
  "bs_put d c = (case bb_write d (ic_buffer c) of (n, b) \<Rightarrow> (n, c\<lparr>ic_buffer := b\<rparr>))"

definition bs_write_nb :: "data \<Rightarrow> 'tr ByteStreamInChannel \<Rightarrow> nat \<times> 'tr ByteStreamInChannel" where
  "bs_write_nb d c =
     (if ic_disconnected c then (0, c)
      else (case bs_put d c of (n, c') \<Rightarrow> (n, ic_try_send_pending stream_ops c')))"

definition bs_full :: "'tr ByteStreamInChannel \<Rightarrow> bool" where
  "bs_full c \<longleftrightarrow> rb_available (bb_ring (ic_buffer c)) = 0"

text \<open>The inner wait of \<open>write\<close>: the channel when it ends and what is left of the
  interferences; \<open>None\<close> while it still waits.\<close>

fun bs_wait :: "nat \<Rightarrow> (('tr ByteStreamInChannel \<Rightarrow> 'tr ByteStreamInChannel) \<times> bool) list \<Rightarrow>
    'tr ByteStreamInChannel \<Rightarrow>
    ('tr ByteStreamInChannel \<times> (('tr ByteStreamInChannel \<Rightarrow> 'tr ByteStreamInChannel) \<times> bool) list) option"
where
  "bs_wait timeout_ms [] c =
     (if bs_full c \<and> \<not> ic_disconnected c then None else Some (c, []))"
| "bs_wait timeout_ms ((others, timed_out) # env) c =
     (if bs_full c \<and> \<not> ic_disconnected c
      then (if timeout_ms \<noteq> 0 \<and> timed_out then Some (others c, env)
            else bs_wait timeout_ms env (others c))
      else Some (c, (others, timed_out) # env))"

text \<open>Between two critical sections of one \<open>write\<close> other threads may run.\<close>

definition bs_gap :: "(('c \<Rightarrow> 'c) \<times> bool) list \<Rightarrow> 'c \<Rightarrow> 'c \<times> (('c \<Rightarrow> 'c) \<times> bool) list" where
  "bs_gap env c = (case env of [] \<Rightarrow> (c, []) | (others, _) # env' \<Rightarrow> (others c, env'))"

text \<open>Phase 1 up to the write: the channel with space for at least one byte, or the end of
  the call.\<close>

definition bs_reserve :: "nat \<Rightarrow> (('tr ByteStreamInChannel \<Rightarrow> 'tr ByteStreamInChannel) \<times> bool) list \<Rightarrow>
    'tr ByteStreamInChannel \<Rightarrow>
    ('tr ByteStreamInChannel \<times> (('tr ByteStreamInChannel \<Rightarrow> 'tr ByteStreamInChannel) \<times> bool) list) option"
where
  "bs_reserve timeout_ms env c =
     (if ic_disconnected c then Some (c, env)
      else if bs_full c then bs_wait timeout_ms env (ic_try_send_pending stream_ops c)
      else Some (c, env))"

lemma bs_put_progress: "\<not> bs_full c \<Longrightarrow> d \<noteq> [] \<Longrightarrow> bs_put d c = (n, c') \<Longrightarrow> 0 < n"
  by (auto simp: bs_full_def bs_put_def bb_write_def rb_available_def rb_write_eq split: prod.splits
      if_splits)

function (sequential) bs_write :: "data \<Rightarrow> nat \<Rightarrow>
    (('tr ByteStreamInChannel \<Rightarrow> 'tr ByteStreamInChannel) \<times> bool) list \<Rightarrow>
    'tr ByteStreamInChannel \<Rightarrow> nat \<Rightarrow> (nat \<times> 'tr ByteStreamInChannel) option" where
  "bs_write d timeout_ms env c total_written =
     (if d = [] then Some (total_written, c)
      else (case bs_reserve timeout_ms env c of
              None \<Rightarrow> None
            | Some (c1, env1) \<Rightarrow>
                if ic_disconnected c1 \<or> bs_full c1 then Some (total_written, c1)
                else (case bs_put d c1 of (n, c2) \<Rightarrow>
                      (case bs_gap env1 c2 of (c3, env3) \<Rightarrow>
                      (case bs_gap env3 (ic_try_send_pending stream_ops c3) of (c4, env4) \<Rightarrow>
                         bs_write (drop n d) timeout_ms env4 c4 (total_written + n))))))"
  by pat_completeness auto
termination
  by (relation "measure (\<lambda>(d, _). length d)") (auto dest: bs_put_progress[OF _ _ sym])

declare bs_write.simps [simp del]

definition bs_set_capacity :: "nat \<Rightarrow> 'tr ByteStreamInChannel \<Rightarrow> 'tr ByteStreamInChannel" where
  "bs_set_capacity n c = c\<lparr>ic_buffer := (ic_buffer c)\<lparr>bb_ring := rb_resize n (bb_ring (ic_buffer c))\<rparr>\<rparr>"

definition bs_set_pull_callback :: "(u32 \<Rightarrow> data) option \<Rightarrow> 'tr ByteStreamInChannel \<Rightarrow> 'tr ByteStreamInChannel" where
  "bs_set_pull_callback f c = c\<lparr>ic_buffer := (ic_buffer c)\<lparr>bb_pull := f\<rparr>\<rparr>"

section \<open>Invariants of the channel\<close>

text \<open>Data and requests never wait for each other.\<close>

definition ic_idle :: "'b in_ops \<Rightarrow> ('b, 'tr) in_channel \<Rightarrow> bool" where
  "ic_idle ops c \<longleftrightarrow> io_empty ops (ic_buffer c) \<or> erq_all (ic_requests c) = []"

text \<open>The requests of one endpoint stay within the configured bound.\<close>

definition ic_bounded :: "('b, 'tr) in_channel \<Rightarrow> bool" where
  "ic_bounded c \<longleftrightarrow> erq_wf (ic_requests c) \<and>
     (ic_max_requests c \<noteq> 0 \<longrightarrow> (\<forall>ep. erq_size ep (ic_requests c) \<le> ic_max_requests c))"

text \<open>The sequence numbers the channel is responsible for: pending or answered.\<close>

definition ic_account :: "('b, 'tr) in_channel \<Rightarrow> u32 multiset" where
  "ic_account c =
     image_mset req_seqnum (mset (erq_all (ic_requests c))) +
     image_mset (\<lambda>r. h_seqnum (rs_header r)) (mset (ic_sent c))"

lemma ic_reply_sel [simp]:
  "ic_requests (ic_reply s l th d c) = ic_requests c" "ic_buffer (ic_reply s l th d c) = ic_buffer c"
  "ic_max_requests (ic_reply s l th d c) = ic_max_requests c"
  "ic_disconnected (ic_reply s l th d c) = ic_disconnected c"
  by (simp_all add: ic_reply_def split: prod.splits)

lemma ic_try_send_one_sel [simp]:
  "ic_max_requests (ic_try_send_one ops s l th c) = ic_max_requests c"
  "ic_disconnected (ic_try_send_one ops s l th c) = ic_disconnected c"
  by (simp_all add: ic_try_send_one_def split: prod.splits)

lemma ic_account_reply:
  "ic_account (ic_reply s l th d c) = add_mset s (ic_account c)"
  by (simp add: ic_reply_def ic_account_def create_ret_submit_ok_with_no_iso_def
      create_ret_submit_with_status_and_no_iso_def get_server_header_def split: prod.splits)

lemma ic_account_buffer [simp]: "ic_account (c\<lparr>ic_buffer := b\<rparr>) = ic_account c"
  by (simp add: ic_account_def)

lemma ic_account_try_send_one:
  "ic_account (ic_try_send_one ops s l th c) = add_mset s (ic_account c)"
  by (simp add: ic_try_send_one_def ic_account_reply split: prod.splits)

lemma ic_account_dequeued:
  assumes "erq_dequeue_any (ic_requests c) = Some ((ep, r), qs)"
  shows "ic_account c = add_mset (req_seqnum r) (ic_account (c\<lparr>ic_requests := qs\<rparr>))"
  using erq_dequeue_any_Some[OF assms] by (simp add: ic_account_def)

lemma ic_try_send_pending_idle: "ic_idle ops (ic_try_send_pending ops c)"
proof (induction ops c rule: ic_try_send_pending.induct)
  case (1 ops c)
  then show ?case
    by (subst ic_try_send_pending.simps)
       (auto simp: ic_idle_def erq_dequeue_any_None split: option.splits)
qed

lemma ic_try_send_pending_account: "ic_account (ic_try_send_pending ops c) = ic_account c"
proof (induction ops c rule: ic_try_send_pending.induct)
  case (1 ops c)
  then show ?case
    by (subst ic_try_send_pending.simps)
       (auto simp: ic_account_try_send_one ic_account_dequeued split: option.splits)
qed

lemma ic_try_send_pending_sel [simp]:
  "ic_max_requests (ic_try_send_pending ops c) = ic_max_requests c"
  "ic_disconnected (ic_try_send_pending ops c) = ic_disconnected c"
  by (induction ops c rule: ic_try_send_pending.induct;
      subst ic_try_send_pending.simps; auto split: option.splits)+

lemma ic_bounded_mono:
  assumes "ic_bounded c" and "erq_wf (ic_requests c')" and "ic_max_requests c' = ic_max_requests c"
    and "\<And>e. erq_size e (ic_requests c') \<le> erq_size e (ic_requests c)"
  shows "ic_bounded c'"
  using assms(1-3) le_trans[OF assms(4)] by (auto simp: ic_bounded_def)

lemma ic_try_send_pending_bounded: "ic_bounded c \<Longrightarrow> ic_bounded (ic_try_send_pending ops c)"
proof (induction ops c rule: ic_try_send_pending.induct)
  case (1 ops c)
  have step: "ic_bounded (c\<lparr>ic_requests := qs\<rparr>)"
    if "erq_dequeue_any (ic_requests c) = Some ((ep, r), qs)" for ep r qs
  proof -
    have wf: "erq_wf (ic_requests c)" using 1 by (simp add: ic_bounded_def)
    have "erq_size e qs \<le> erq_size e (ic_requests c)" for e
      using erq_dequeue_any_get[OF that wf, of e] by (simp add: erq_size_def)
    then show ?thesis
      using erq_dequeue_any_get[OF that wf] by (intro ic_bounded_mono[OF 1(2)]) simp_all
  qed
  have "ic_bounded (ic_try_send_one ops s l th c') = ic_bounded c'" for s l th and c' :: "('a, 'b) in_channel"
    by (simp add: ic_bounded_def)
  with 1 step show ?case
    by (subst ic_try_send_pending.simps) (auto split: option.splits)
qed

lemma ic_evict_enqueue_bounded:
  assumes "ic_bounded c"
  shows "ic_bounded (ic_enqueue ep r (ic_evict ep c))"
proof (cases "ic_max_requests c \<noteq> 0 \<and> ic_max_requests c \<le> erq_size ep (ic_requests c)")
  case True
  then have "erq_get ep (ic_requests c) \<noteq> []" by (auto simp: erq_size_def)
  then obtain r0 qs where d: "erq_dequeue ep (ic_requests c) = Some (r0, qs)"
    by (cases "erq_get ep (ic_requests c)") (auto simp: erq_dequeue_def)
  note dq = erq_dequeue_spec[OF d]
  have "erq_size e (erq_enqueue ep r qs) \<le> erq_size e (ic_requests c)" for e
    using dq(3) dq(4)[of e] by (auto simp: erq_size_def erq_get_enqueue)
  with True d dq(2) assms show ?thesis
    by (intro ic_bounded_mono[OF assms])
       (simp_all add: ic_bounded_def ic_enqueue_def ic_evict_def ic_reply_empty_def erq_enqueue_wf)
next
  case False
  with assms show ?thesis
    by (auto simp: ic_bounded_def ic_enqueue_def ic_evict_def erq_size_def erq_get_enqueue
        erq_enqueue_wf)
qed

lemma ic_account_evict: "ic_account (ic_evict ep c) = ic_account c"
  by (auto simp: ic_evict_def ic_reply_empty_def ic_account_def ic_submit_def
      create_ret_submit_ok_without_data_def get_server_header_def split: option.splits
      dest!: erq_dequeue_spec(1))

lemma ic_account_enqueue: "ic_account (ic_enqueue ep r c) = add_mset (req_seqnum r) (ic_account c)"
  by (simp add: ic_enqueue_def ic_account_def mset_erq_enqueue)

lemma ic_on_in_request_account:
  "\<not> ic_disconnected c \<Longrightarrow>
   ic_account (ic_on_in_request ops ep s l th c) = add_mset s (ic_account c)"
  by (auto simp: ic_on_in_request_def Let_def ic_account_try_send_one ic_try_send_pending_account
      ic_account_enqueue ic_account_evict ic_send_pulled_def ic_account_reply split: prod.splits)

lemma ic_on_in_request_bounded:
  assumes "ic_bounded c"
  shows "ic_bounded (ic_on_in_request ops ep s l th c)"
proof -
  have "ic_bounded (ic_send_pulled ops s l th d c)" for d
    using assms by (simp add: ic_send_pulled_def ic_bounded_def split: prod.splits)
  moreover have "ic_bounded (ic_try_send_one ops s l th c)" using assms by (simp add: ic_bounded_def)
  ultimately show ?thesis
    using assms by (auto simp: ic_on_in_request_def Let_def
        intro!: ic_try_send_pending_bounded ic_evict_enqueue_bounded)
qed

lemma ic_on_in_request_idle:
  assumes "ic_idle ops c"
  shows "ic_idle ops (ic_on_in_request ops ep s l th c)"
  using assms
  by (auto simp: ic_on_in_request_def Let_def ic_try_send_pending_idle) (auto simp: ic_idle_def)

lemma ic_cancel_pending_spec:
  assumes "ic_cancel_pending s c = (b, c')"
  shows "ic_idle ops c \<Longrightarrow> ic_idle ops c'" and "ic_bounded c \<Longrightarrow> ic_bounded c'"
    and "b \<longleftrightarrow> s \<in># image_mset req_seqnum (mset (erq_all (ic_requests c)))"
    and "ic_account c = (if b then add_mset s (ic_account c') else ic_account c')"
    and "ic_sent c' = ic_sent c"
proof -
  obtain qs where q: "erq_cancel_by_seqnum s (ic_requests c) = (b, qs)" and c': "c' = c\<lparr>ic_requests := qs\<rparr>"
    using assms by (auto simp: ic_cancel_pending_def split: prod.splits)
  show "b \<longleftrightarrow> s \<in># image_mset req_seqnum (mset (erq_all (ic_requests c)))"
    using erq_cancel_found[OF q] by auto
  show "ic_account c = (if b then add_mset s (ic_account c') else ic_account c')"
    using erq_cancel_mset[OF q] by (auto simp: ic_account_def c')
  show "ic_idle ops c'" if "ic_idle ops c"
    using that erq_cancel_mset[OF q] by (auto simp: ic_idle_def c' split: if_splits)
  show "ic_bounded c'" if "ic_bounded c"
    using that erq_cancel_size[OF q] erq_cancel_wf[OF q]
    by (intro ic_bounded_mono[OF that]) (simp_all add: ic_bounded_def c')
  show "ic_sent c' = ic_sent c" by (simp add: c')
qed

section \<open>Runs of a channel\<close>

text \<open>
  The atomic steps: connection, disconnection, a host request, an UNLINK, and a producer that
  changes the buffer and then serves the pending requests. \<open>produce\<close> is what the
  derived class's producers may do to the buffer.
\<close>

inductive ic_step :: "'b in_ops \<Rightarrow> ('b \<Rightarrow> 'b \<Rightarrow> bool) \<Rightarrow> ('b, 'tr) in_channel \<Rightarrow>
    ('b, 'tr) in_channel \<Rightarrow> bool" for ops produce where
  connect: "ic_step ops produce c (ic_on_new_connection ops session c)"
| disconnect: "ic_step ops produce c (ic_on_disconnection ops c)"
| request: "ic_step ops produce c (ic_on_in_request ops ep s l th c)"
| unlink: "ic_step ops produce c (snd (ic_cancel_pending s c))"
| produced: "\<not> ic_disconnected c \<Longrightarrow> produce (ic_buffer c) b \<Longrightarrow>
    ic_step ops produce c (ic_try_send_pending ops (c\<lparr>ic_buffer := b\<rparr>))"

locale in_channel_buffer =
  fixes ops :: "'b in_ops" and produce :: "'b \<Rightarrow> 'b \<Rightarrow> bool"
  assumes clear_empty: "io_empty ops (io_clear ops b)"
begin

lemma step_keeps:
  assumes "ic_step ops produce c c'" and "ic_idle ops c" and "ic_bounded c"
  shows "ic_idle ops c' \<and> ic_bounded c'"
  using assms(1)
proof (cases rule: ic_step.cases)
  case (unlink s)
  then show ?thesis
    using ic_cancel_pending_spec(1,2)[of s c "fst (ic_cancel_pending s c)"] assms by simp
next
  case (produced b)
  have "ic_bounded (c\<lparr>ic_buffer := b\<rparr>)" using assms(3) by (simp add: ic_bounded_def)
  with produced show ?thesis
    using ic_try_send_pending_bounded by (simp add: ic_try_send_pending_idle)
next
  case (request ep s l th)
  then show ?thesis using assms by (simp add: ic_on_in_request_idle ic_on_in_request_bounded)
qed (use assms in \<open>auto simp: ic_on_new_connection_def ic_on_disconnection_def ic_idle_def ic_bounded_def clear_empty
      erq_size_def\<close>)

lemma run_keeps:
  assumes "(ic_step ops produce)\<^sup>*\<^sup>* c c'" and "ic_idle ops c" and "ic_bounded c"
  shows "ic_idle ops c' \<and> ic_bounded c'"
  using assms by (induction rule: rtranclp_induct) (auto dest: step_keeps)

end

definition mb_produce :: "MessageBuffer \<Rightarrow> MessageBuffer \<Rightarrow> bool" where
  "mb_produce b b' \<longleftrightarrow> (\<exists>d. b' = mb_push_locked d b)"

definition bb_produce :: "ByteBuffer \<Rightarrow> ByteBuffer \<Rightarrow> bool" where
  "bb_produce b b' \<longleftrightarrow> (\<exists>d. b' = snd (bb_write d b))"

interpretation message_channel: in_channel_buffer message_ops mb_produce
  by unfold_locales (simp add: message_ops_def)

interpretation stream_channel: in_channel_buffer stream_ops bb_produce
  by unfold_locales (simp add: stream_ops_def rb_clear_def rb_is_empty_def)

lemma msg_push_step:
  assumes "msg_push d drop_oldest c = (True, c')"
  shows "ic_step message_ops mb_produce c c'"
proof -
  have "ic_step message_ops mb_produce c
      (ic_try_send_pending message_ops (c\<lparr>ic_buffer := mb_push_locked d (ic_buffer c)\<rparr>))"
    using assms by (intro produced) (auto simp: msg_push_def mb_produce_def split: if_splits)
  then show ?thesis
    using assms by (auto simp: msg_push_def msg_push_and_send_def split: if_splits)
qed

lemma bs_write_nb_step:
  assumes "bs_write_nb d c = (n, c')" and "\<not> ic_disconnected c"
  shows "ic_step stream_ops bb_produce c c'"
proof -
  have "ic_step stream_ops bb_produce c
      (ic_try_send_pending stream_ops (c\<lparr>ic_buffer := snd (bb_write d (ic_buffer c))\<rparr>))"
    using assms by (intro produced) (auto simp: bb_produce_def)
  then show ?thesis
    using assms by (auto simp: bs_write_nb_def bs_put_def split: prod.splits)
qed

section \<open>Message buffers stay bounded\<close>

definition mb_inv :: "MessageBuffer \<Rightarrow> bool" where
  "mb_inv b \<longleftrightarrow> (mb_max b \<noteq> 0 \<longrightarrow> length (mb_pending b) \<le> mb_max b)"

lemma mb_push_locked_inv: "mb_inv b \<Longrightarrow> mb_inv (mb_push_locked d b)"
  by (auto simp: mb_inv_def mb_push_locked_def)

lemma mb_next_inv: "mb_inv b \<Longrightarrow> mb_inv (snd (mb_next len b))"
  by (auto simp: mb_inv_def mb_next_def)

lemma msg_try_send_pending_inv:
  "mb_inv (ic_buffer c) \<Longrightarrow> mb_inv (ic_buffer (ic_try_send_pending message_ops c))"
proof (induction message_ops c rule: ic_try_send_pending.induct)
  case (1 c)
  have "mb_inv (ic_buffer (ic_try_send_one message_ops s l th c'))"
    if "ic_buffer c' = ic_buffer c" for s l th and c' :: "'a MessageInChannel"
    using 1(2) mb_next_inv[of "ic_buffer c" l] that
    by (auto simp: ic_try_send_one_def message_ops_def split: prod.splits)
  with 1 show ?case
    by (subst ic_try_send_pending.simps) (auto split: option.splits)
qed

lemma msg_push_inv:
  "mb_inv (ic_buffer c) \<Longrightarrow> mb_inv (ic_buffer (snd (msg_push d drop_oldest c)))"
  by (auto simp: msg_push_def msg_push_and_send_def mb_push_locked_inv
      intro!: msg_try_send_pending_inv)

section \<open>Bytes of a stream channel\<close>

definition handle_ok :: "GenericTransfer TransferHandle \<Rightarrow> bool" where
  "handle_ok th \<longleftrightarrow>
     th_handle th \<noteq> None \<and> th_op th = Some (Leaf_op GenericTransferOperator)"

text \<open>The payload a response carries to the host.\<close>

definition resp_data :: "GenericTransfer UsbIpRetSubmit \<Rightarrow> data" where
  "resp_data r =
     (case th_handle (rs_transfer r) of
        Some t \<Rightarrow> take (unat (rs_actual_length r)) (gt_data t) | None \<Rightarrow> [])"

definition bs_stream :: "GenericTransfer ByteStreamInChannel \<Rightarrow> data" where
  "bs_stream c = concat (map resp_data (ic_sent c)) @ rb_contents (bb_ring (ic_buffer c))"

definition bs_ok :: "GenericTransfer ByteStreamInChannel \<Rightarrow> bool" where
  "bs_ok c \<longleftrightarrow> rb_inv (bb_ring (ic_buffer c)) \<and>
     (\<forall>r \<in> set (erq_all (ic_requests c)). handle_ok (req_transfer r))"

lemma ic_reply_data:
  assumes "handle_ok th"
  shows "\<exists>r. ic_reply s l th d c = ic_submit r c \<and> resp_data r = take (unat l) d"
proof -
  obtain t where t: "th_handle th = Some t" using assms by (auto simp: handle_ok_def)
  let ?n = "min (length d) (unat l)"
  have "?n < 2 ^ 32" using unsigned_less[of l, where ?'a = nat] by simp
  then have "unat (of_nat ?n :: u32) = ?n" by (simp add: unat_of_nat)
  then show ?thesis
    using assms t
    by (auto simp: ic_reply_def fill_transfer_def handle_ok_def generic_set_transfer_data_def
        Let_def resp_data_def create_ret_submit_ok_with_no_iso_def
        create_ret_submit_with_status_and_no_iso_def min_def)
qed

lemma bb_next_spec:
  assumes "rb_inv (bb_ring b)" and "bb_next len b = (d, b')"
  shows "rb_contents (bb_ring b) = d @ rb_contents (bb_ring b')" and "rb_inv (bb_ring b')"
    and "length d \<le> unat len"
proof -
  let ?k = "min (rb_count (bb_ring b)) (unat len)"
  have "bb_ring b' = snd (rb_read ?k (bb_ring b))" "d = fst (rb_read ?k (bb_ring b))"
    using assms(2) by (auto simp: bb_next_def split: prod.splits)
  with rb_read_spec[OF assms(1), of ?k] show "rb_contents (bb_ring b) = d @ rb_contents (bb_ring b')"
    "rb_inv (bb_ring b')" "length d \<le> unat len" by simp_all
qed

lemma bs_send_one_stream:
  assumes "bs_ok c" and "handle_ok th"
  shows "bs_ok (ic_try_send_one stream_ops s l th c) \<and>
    bs_stream (ic_try_send_one stream_ops s l th c) = bs_stream c"
proof -
  obtain d b' where n: "bb_next l (ic_buffer c) = (d, b')" by fastforce
  obtain r where r: "ic_reply s l th d (c\<lparr>ic_buffer := b'\<rparr>) = ic_submit r (c\<lparr>ic_buffer := b'\<rparr>)"
    "resp_data r = take (unat l) d" using ic_reply_data[OF assms(2)] by blast
  have inv: "rb_inv (bb_ring (ic_buffer c))" using assms(1) by (simp add: bs_ok_def)
  have "ic_try_send_one stream_ops s l th c = ic_submit r (c\<lparr>ic_buffer := b'\<rparr>)"
    using n r(1) by (simp add: ic_try_send_one_def stream_ops_def)
  with bb_next_spec[OF inv n] r(2) assms(1) show ?thesis
    by (simp add: bs_ok_def bs_stream_def)
qed

lemma bs_pending_stream:
  fixes c :: "GenericTransfer ByteStreamInChannel"
  assumes "bs_ok c"
  shows "bs_ok (ic_try_send_pending stream_ops c) \<and>
    bs_stream (ic_try_send_pending stream_ops c) = bs_stream c"
  using assms
proof (induction "stream_ops" c rule: ic_try_send_pending.induct)
  case (1 c)
  have step: "bs_ok c' \<and> bs_stream c' = bs_stream c"
    if "erq_dequeue_any (ic_requests c) = Some ((ep, r), qs)"
      and "c' = ic_try_send_one stream_ops (req_seqnum r) (req_length r) (req_transfer r)
        (c\<lparr>ic_requests := qs\<rparr>)" for ep r qs c'
  proof -
    have "bs_ok (c\<lparr>ic_requests := qs\<rparr>)" "handle_ok (req_transfer r)"
      using 1(2) erq_dequeue_any_Some[OF that(1)] by (auto simp: bs_ok_def)
    from bs_send_one_stream[OF this] that(2) show ?thesis by (simp add: bs_stream_def)
  qed
  show ?case
  proof (cases "io_empty stream_ops (ic_buffer c) \<or> erq_dequeue_any (ic_requests c) = None")
    case True
    then show ?thesis using 1(2) by (subst (1 2) ic_try_send_pending.simps) auto
  next
    case False
    then obtain ep r qs where d: "erq_dequeue_any (ic_requests c) = Some ((ep, r), qs)" by auto
    let ?c = "ic_try_send_one stream_ops (req_seqnum r) (req_length r) (req_transfer r)
        (c\<lparr>ic_requests := qs\<rparr>)"
    have "ic_try_send_pending stream_ops c = ic_try_send_pending stream_ops ?c"
      using False d by (subst ic_try_send_pending.simps) simp
    with 1(1)[of "((ep, r), qs)" "(ep, r)" qs ep r] False d step[OF d refl] show ?thesis by simp
  qed
qed

lemma bs_put_stream:
  assumes "bs_ok c" and "bs_put d c = (n, c')"
  shows "bs_ok c' \<and> bs_stream c' = bs_stream c @ take n d \<and>
    n = min (length d) (rb_available (bb_ring (ic_buffer c)))"
proof -
  let ?r = "bb_ring (ic_buffer c)"
  have inv: "rb_inv ?r" using assms(1) by (simp add: bs_ok_def)
  have c': "c' = c\<lparr>ic_buffer := (ic_buffer c)\<lparr>bb_ring := snd (rb_write d ?r)\<rparr>\<rparr>"
    and n: "n = fst (rb_write d ?r)"
    using assms(2) by (auto simp: bs_put_def bb_write_def split: prod.splits)
  have "n = min (length d) (rb_capacity ?r - rb_count ?r)" using ring.write_count[OF inv, of d] n by simp
  moreover from this have "take (rb_capacity ?r - rb_count ?r) d = take n d" by (simp add: min_def)
  ultimately show ?thesis
    using rb_write_spec[OF inv, of d] assms(1) c' by (simp add: bs_ok_def bs_stream_def rb_available_def)
qed

lemma bs_write_nb_stream:
  assumes "bs_ok c" and "bs_write_nb d c = (n, c')"
  shows "bs_ok c' \<and> bs_stream c' = bs_stream c @ take n d"
proof (cases "ic_disconnected c")
  case False
  obtain m c1 where p: "bs_put d c = (m, c1)" by fastforce
  then have "n = m" "c' = ic_try_send_pending stream_ops c1"
    using assms(2) False by (auto simp: bs_write_nb_def)
  with bs_put_stream[OF assms(1) p] bs_pending_stream[of c1] show ?thesis by simp
qed (use assms in \<open>simp add: bs_write_nb_def\<close>)

lemma bs_evict_enqueue_stream:
  assumes "bs_ok c" and "handle_ok (req_transfer r)"
  shows "bs_ok (ic_enqueue ep r (ic_evict ep c)) \<and>
    bs_stream (ic_enqueue ep r (ic_evict ep c)) = bs_stream c"
proof -
  have ev: "bs_ok (ic_evict ep c) \<and> bs_stream (ic_evict ep c) = bs_stream c"
  proof (cases "ic_max_requests c \<noteq> 0 \<and> ic_max_requests c \<le> erq_size ep (ic_requests c)")
    case True
    show ?thesis
    proof (cases "erq_dequeue ep (ic_requests c)")
      case (Some x)
      then obtain r0 qs where d: "erq_dequeue ep (ic_requests c) = Some (r0, qs)" by (cases x) auto
      have "set (erq_all qs) \<subseteq> set (erq_all (ic_requests c))"
        using erq_dequeue_spec(1)[OF d] by (metis set_mset_add_mset_insert set_mset_mset subset_insertI)
      with True d assms(1) show ?thesis
        by (auto simp: ic_evict_def bs_ok_def bs_stream_def ic_reply_empty_def resp_data_def
            create_ret_submit_ok_without_data_def TransferHandle_empty_def)
    qed (use True assms(1) in \<open>simp add: ic_evict_def\<close>)
  qed (use assms(1) in \<open>auto simp: ic_evict_def\<close>)
  have "set (erq_all (erq_enqueue ep r qs)) = insert r (set (erq_all qs))" for qs :: "GenericTransfer EndpointRequestQueue"
    by (metis mset_erq_enqueue set_mset_add_mset_insert set_mset_mset)
  with ev assms(2) show ?thesis
    by (auto simp: ic_enqueue_def bs_ok_def bs_stream_def)
qed

lemma bs_request_stream:
  assumes "bs_ok c" and "handle_ok th" and "bb_pull (ic_buffer c) = None"
  shows "bs_ok (ic_on_in_request stream_ops ep s l th c) \<and>
    bs_stream (ic_on_in_request stream_ops ep s l th c) = bs_stream c"
proof -
  let ?r = "\<lparr>req_seqnum = s, req_length = l, req_transfer = th\<rparr>"
  have e: "bs_ok (ic_enqueue ep ?r (ic_evict ep c)) \<and>
      bs_stream (ic_enqueue ep ?r (ic_evict ep c)) = bs_stream c"
    using assms by (intro bs_evict_enqueue_stream) simp_all
  have "io_pull stream_ops l (ic_buffer c) = []" using assms(3) by (simp add: stream_ops_def)
  with e bs_pending_stream[of "ic_enqueue ep ?r (ic_evict ep c)"] bs_send_one_stream[OF assms(1,2)] assms(1)
  show ?thesis by (simp add: ic_on_in_request_def Let_def)
qed

lemma bs_write_stream:
  "bs_ok c \<Longrightarrow> bs_write d timeout_ms [] c t = Some (n, c') \<Longrightarrow>
   bs_ok c' \<and> t \<le> n \<and> bs_stream c' = bs_stream c @ take (n - t) d"
proof (induction "length d" arbitrary: d c t rule: less_induct)
  case less
  note ok = less.prems(1)
  show ?case
  proof (cases "d = []")
    case True
    then show ?thesis using less.prems by (subst (asm) bs_write.simps) simp
  next
    case False
    from less.prems(2) False obtain c1 env1 where r: "bs_reserve timeout_ms [] c = Some (c1, env1)"
      by (subst (asm) bs_write.simps) (auto split: option.splits)
    have c1: "bs_ok c1" "bs_stream c1 = bs_stream c" "env1 = []"
      using r ok bs_pending_stream[OF ok] by (auto simp: bs_reserve_def split: if_splits)
    show ?thesis
    proof (cases "ic_disconnected c1 \<or> bs_full c1")
      case True
      then show ?thesis using less.prems(2) False r c1 by (subst (asm) bs_write.simps) auto
    next
      case nf: False
      obtain m c2 where p: "bs_put d c1 = (m, c2)" by fastforce
      have m: "0 < m" using bs_put_progress[OF _ False p] nf by simp
      note c2 = bs_put_stream[OF c1(1) p]
      have c3: "bs_ok (ic_try_send_pending stream_ops c2)"
        "bs_stream (ic_try_send_pending stream_ops c2) = bs_stream c2"
        using bs_pending_stream[of c2] c2 by simp_all
      have rec: "bs_write (drop m d) timeout_ms [] (ic_try_send_pending stream_ops c2) (t + m) = Some (n, c')"
        using less.prems(2) False r c1(3) nf p by (subst (asm) bs_write.simps) (simp add: bs_gap_def)
      have "length (drop m d) < length d" using m False by simp
      from less.hyps[OF this c3(1) rec] have ih: "bs_ok c'" "t + m \<le> n"
        "bs_stream c' = bs_stream c2 @ take (n - (t + m)) (drop m d)" using c3(2) by simp_all
      have "m \<le> length d" using c2 by simp
      then have "take m d @ take (n - (t + m)) (drop m d) = take (n - t) d"
        using ih(2) take_add[of m "n - (t + m)" d] by simp
      with ih c2 c1(2) show ?thesis by simp
    qed
  qed
qed

section \<open>Properties\<close>

text \<open>C10: In every run of an IN channel from its initial state (of either kind, with any bound set
  before), data and requests never wait for each other: after each operation the buffer is
  empty or no request is pending; and no endpoint has more pending requests than the configured
  bound.\<close>

theorem in_channel_never_stuck:
  fixes mc :: "'tr MessageInChannel" and bc :: "'tr ByteStreamInChannel"
  assumes "(ic_step message_ops mb_produce)\<^sup>*\<^sup>* (ic_set_max_pending_requests n (in_channel_new mb)) mc"
    and "(ic_step stream_ops bb_produce)\<^sup>*\<^sup>* (ic_set_max_pending_requests n (in_channel_new bb)) bc"
  shows "ic_idle message_ops mc \<and> ic_bounded mc \<and> ic_idle stream_ops bc \<and> ic_bounded bc"
  using message_channel.run_keeps[OF assms(1)] stream_channel.run_keeps[OF assms(2)]
  by (simp add: ic_idle_def ic_bounded_def in_channel_new_def ic_set_max_pending_requests_def
      erq_size_def)

theorem in_channel_never_stuck_witness:
  "ic_idle message_ops (ic_on_new_connection message_ops (Some 1)
     (ic_set_max_pending_requests 2 (in_channel_new \<lparr>mb_pending = [], mb_max = 4\<rparr>)
        :: GenericTransfer MessageInChannel))"
proof -
  let ?c = "ic_set_max_pending_requests 2 (in_channel_new \<lparr>mb_pending = [], mb_max = 4\<rparr>)
    :: GenericTransfer MessageInChannel"
  have "(ic_step message_ops mb_produce)\<^sup>*\<^sup>* ?c (ic_on_new_connection message_ops (Some 1) ?c)"
    by (rule r_into_rtranclp) (rule ic_step.connect)
  from in_channel_never_stuck[OF this rtranclp.rtrancl_refl] show ?thesis by simp
qed

text \<open>C11: A request that reaches a connected IN channel is accounted for exactly once: it is pending
  or it has been answered, never both and never twice; UNLINK removes a pending request
  and answers nothing, and reports success exactly when the request was pending.\<close>

theorem in_channel_request_once:
  assumes "\<not> ic_disconnected c"
  shows "ic_account (ic_on_in_request ops ep s l th c) = add_mset s (ic_account c) \<and>
    (case ic_cancel_pending q c of (b, c') \<Rightarrow>
       (b \<longleftrightarrow> q \<in># image_mset req_seqnum (mset (erq_all (ic_requests c)))) \<and>
       ic_account c = (if b then add_mset q (ic_account c') else ic_account c') \<and>
       ic_sent c' = ic_sent c)"
  using ic_on_in_request_account[OF assms] ic_cancel_pending_spec(3-5)[of q c]
  by (auto split: prod.splits)

theorem in_channel_request_once_witness:
  "ic_account (ic_on_in_request message_ops 0x81 7 64 TransferHandle_empty
     (ic_on_new_connection message_ops (Some 1) (in_channel_new \<lparr>mb_pending = [], mb_max = 0\<rparr>)
        :: GenericTransfer MessageInChannel)) = {#7#}"
  using in_channel_request_once[of "ic_on_new_connection message_ops (Some 1)
      (in_channel_new \<lparr>mb_pending = [], mb_max = 0\<rparr>) :: GenericTransfer MessageInChannel" message_ops
      "0x81" 7 64 TransferHandle_empty 0]
  by (simp add: ic_on_new_connection_def in_channel_new_def ic_account_def)



text \<open>A message channel's buffer never exceeds its bound whatever is pushed, and a refused push
  (disconnected, or full with \<open>drop_oldest\<close> off) changes nothing.\<close>

theorem message_channel_bounded:
  assumes "mb_inv (ic_buffer c)"
  shows "mb_inv (ic_buffer (snd (msg_push d drop_oldest c))) \<and>
    (fst (msg_push d drop_oldest c) \<longleftrightarrow>
       \<not> ic_disconnected c \<and> (drop_oldest \<or> \<not> mb_full (ic_buffer c))) \<and>
    (\<not> fst (msg_push d drop_oldest c) \<longrightarrow> snd (msg_push d drop_oldest c) = c)"
  using msg_push_inv[OF assms] by (auto simp: msg_push_def)

theorem message_channel_bounded_witness:
  "\<not> fst (msg_push [1] False (in_channel_new \<lparr>mb_pending = [[0]], mb_max = 1\<rparr>
     :: GenericTransfer MessageInChannel))"
  using message_channel_bounded[of "in_channel_new \<lparr>mb_pending = [[0]], mb_max = 1\<rparr>
     :: GenericTransfer MessageInChannel" "[1]" False]
  by (simp add: in_channel_new_def mb_inv_def)

end
