(* ===== verification/Out_Channel.thy ===== *)
theory Out_Channel
  imports Protocol "HOL-Library.Multiset"
begin

text \<open>
  \<open>virtual_device/OutEndpointChannel.h\<close>: OUT requests wait with their data until the
  device takes them; taking answers the request. One lock guards the channel, so every
  operation is an atomic step; a blocking \<open>take\<close> gets the list of what other threads did
  before each wake-up, as in \<open>In_Channel\<close>.
\<close>

record 'tr PendingRequest =
  pr_ep :: u8
  pr_seqnum :: u32
  pr_setup_req :: "SetupPacket option"
  pr_transfer :: "'tr TransferHandle"

record Pending =
  pd_ep :: u8
  pd_setup_req :: "SetupPacket option"
  pd_data :: data

record 'tr out_channel =
  oc_pending :: "'tr PendingRequest list"
  oc_max_pending :: nat
  oc_disconnected :: bool
  oc_responder :: "nat option"
  oc_sent :: "'tr UsbIpRetSubmit list"

definition out_channel_new :: "'tr out_channel" where
  "out_channel_new =
     \<lparr>oc_pending = [], oc_max_pending = 0, oc_disconnected = True, oc_responder = None,
      oc_sent = []\<rparr>"

definition oc_reply :: "u32 \<Rightarrow> u32 \<Rightarrow> u32 \<Rightarrow> 'tr out_channel \<Rightarrow> 'tr out_channel" where
  "oc_reply seqnum len status c =
     c\<lparr>oc_sent := oc_sent c @
        [if status = 0 then create_ret_submit_ok_without_data seqnum len
         else create_ret_submit_with_status_and_no_data seqnum status 0]\<rparr>"

definition oc_set_max_pending_requests :: "nat \<Rightarrow> 'tr out_channel \<Rightarrow> 'tr out_channel" where
  "oc_set_max_pending_requests n c = c\<lparr>oc_max_pending := n\<rparr>"

definition oc_front_seqnum :: "'tr out_channel \<Rightarrow> u32 option" where
  "oc_front_seqnum c = (case oc_pending c of [] \<Rightarrow> None | r # _ \<Rightarrow> Some (pr_seqnum r))"

definition oc_on_out_request ::
    "u8 \<Rightarrow> u32 \<Rightarrow> 'tr TransferHandle \<Rightarrow> SetupPacket option \<Rightarrow> 'tr out_channel \<Rightarrow> 'tr out_channel" where
  "oc_on_out_request ep seqnum th setup_req c =
     (if oc_disconnected c then c
      else if oc_max_pending c \<noteq> 0 \<and> oc_max_pending c \<le> length (oc_pending c)
      then oc_reply seqnum 0 (urb_status_code StatusEPIPE) c
      else c\<lparr>oc_pending := oc_pending c @
               [\<lparr>pr_ep = ep, pr_seqnum = seqnum, pr_setup_req = setup_req, pr_transfer = th\<rparr>]\<rparr>)"

text \<open>\<open>get_transfer_data\<close> of the operator bound to the handle; without support nothing is
  appended and the length is 0.\<close>

definition read_transfer :: "'tr TransferHandle \<Rightarrow> data" where
  "read_transfer th =
     (case (th_handle th, th_op th) of
        (Some t, Some (Leaf_op p)) \<Rightarrow> (case get_transfer_data p t of Some d \<Rightarrow> d | None \<Rightarrow> [])
      | _ \<Rightarrow> [])"

definition oc_take_locked :: "'tr PendingRequest \<Rightarrow> 'tr out_channel \<Rightarrow> Pending \<times> 'tr out_channel" where
  "oc_take_locked r c =
     (if th_handle (pr_transfer r) \<noteq> None
      then (let d = read_transfer (pr_transfer r)
            in (\<lparr>pd_ep = pr_ep r, pd_setup_req = pr_setup_req r, pd_data = d\<rparr>,
                oc_reply (pr_seqnum r) (of_nat (length d)) 0 c))
      else (\<lparr>pd_ep = pr_ep r, pd_setup_req = pr_setup_req r, pd_data = []\<rparr>, c))"

definition oc_try_take :: "'tr out_channel \<Rightarrow> Pending option \<times> 'tr out_channel" where
  "oc_try_take c =
     (case oc_pending c of
        [] \<Rightarrow> (None, c)
      | r # rs \<Rightarrow> (case oc_take_locked r (c\<lparr>oc_pending := rs\<rparr>) of (p, c') \<Rightarrow> (Some p, c')))"

text \<open>\<open>take\<close>; the outer result is \<open>None\<close> while the call still waits.\<close>

fun oc_take :: "nat \<Rightarrow> (('tr out_channel \<Rightarrow> 'tr out_channel) \<times> bool) list \<Rightarrow> 'tr out_channel \<Rightarrow>
    (Pending option \<times> 'tr out_channel) option" where
  "oc_take timeout_ms [] c =
     (if oc_pending c = [] \<and> \<not> oc_disconnected c then None else Some (oc_try_take c))"
| "oc_take timeout_ms ((others, timed_out) # env) c =
     (if oc_pending c = [] \<and> \<not> oc_disconnected c
      then (if timeout_ms \<noteq> 0 \<and> timed_out then Some (oc_try_take (others c))
            else oc_take timeout_ms env (others c))
      else Some (oc_try_take c))"

definition oc_cancel_pending :: "u32 \<Rightarrow> 'tr out_channel \<Rightarrow> bool \<times> 'tr out_channel" where
  "oc_cancel_pending s c =
     (if \<exists>r \<in> set (oc_pending c). pr_seqnum r = s
      then (True, c\<lparr>oc_pending := remove_first (\<lambda>r. pr_seqnum r = s) (oc_pending c)\<rparr>)
      else (False, c))"

definition oc_on_new_connection :: "nat option \<Rightarrow> 'tr out_channel \<Rightarrow> 'tr out_channel" where
  "oc_on_new_connection session c =
     c\<lparr>oc_responder := (case session of Some s \<Rightarrow> Some s | None \<Rightarrow> oc_responder c),
       oc_disconnected := False\<rparr>"

definition oc_on_disconnection :: "'tr out_channel \<Rightarrow> 'tr out_channel" where
  "oc_on_disconnection c = c\<lparr>oc_disconnected := True, oc_pending := []\<rparr>"

section \<open>Runs\<close>

inductive oc_step :: "'tr out_channel \<Rightarrow> 'tr out_channel \<Rightarrow> bool" where
  connect: "oc_step c (oc_on_new_connection session c)"
| disconnect: "oc_step c (oc_on_disconnection c)"
| request: "oc_step c (oc_on_out_request ep s th setup c)"
| take: "oc_step c (snd (oc_try_take c))"
| unlink: "oc_step c (snd (oc_cancel_pending s c))"

definition oc_bounded :: "'tr out_channel \<Rightarrow> bool" where
  "oc_bounded c \<longleftrightarrow> (oc_max_pending c \<noteq> 0 \<longrightarrow> length (oc_pending c) \<le> oc_max_pending c) \<and>
     (oc_disconnected c \<longrightarrow> oc_pending c = [])"

text \<open>Requests that carry a transfer are answered once: they are pending or answered.\<close>

definition oc_account :: "'tr out_channel \<Rightarrow> u32 multiset" where
  "oc_account c =
     image_mset pr_seqnum (filter_mset (\<lambda>r. th_handle (pr_transfer r) \<noteq> None) (mset (oc_pending c))) +
     image_mset (\<lambda>r. h_seqnum (rs_header r)) (mset (oc_sent c))"

lemma oc_reply_sel [simp]:
  "oc_pending (oc_reply s l st c) = oc_pending c"
  "oc_max_pending (oc_reply s l st c) = oc_max_pending c"
  "oc_disconnected (oc_reply s l st c) = oc_disconnected c"
  by (simp_all add: oc_reply_def)

lemma oc_account_reply: "oc_account (oc_reply s l st c) = add_mset s (oc_account c)"
  by (simp add: oc_account_def oc_reply_def create_ret_submit_ok_without_data_def
      create_ret_submit_with_status_and_no_data_def get_server_header_def)

lemma oc_try_take_sel:
  assumes "oc_try_take c = (p, c')"
  shows "oc_max_pending c' = oc_max_pending c" and "oc_disconnected c' = oc_disconnected c"
    and "oc_pending c' = tl (oc_pending c)"
  using assms
  by (auto simp: oc_try_take_def oc_take_locked_def Let_def split: list.splits if_splits)

lemma oc_step_bounded: "oc_step c c' \<Longrightarrow> oc_bounded c \<Longrightarrow> oc_bounded c'"
proof (induction rule: oc_step.induct)
  case (take c)
  then show ?case
    using oc_try_take_sel[of c "fst (oc_try_take c)"] by (auto simp: oc_bounded_def)
next
  case (unlink c s)
  then show ?case by (auto simp: oc_bounded_def oc_cancel_pending_def length_remove_first)
qed (auto simp: oc_bounded_def oc_on_new_connection_def oc_on_disconnection_def
      oc_on_out_request_def)

lemma oc_run_bounded: "oc_step\<^sup>*\<^sup>* c c' \<Longrightarrow> oc_bounded c \<Longrightarrow> oc_bounded c'"
  by (induction rule: rtranclp_induct) (auto intro: oc_step_bounded)

lemma oc_account_request:
  assumes "\<not> oc_disconnected c" and "th_handle th \<noteq> None"
  shows "oc_account (oc_on_out_request ep s th setup c) = add_mset s (oc_account c)"
proof (cases "oc_max_pending c \<noteq> 0 \<and> oc_max_pending c \<le> length (oc_pending c)")
  case True
  with assms show ?thesis by (simp add: oc_on_out_request_def oc_account_reply)
next
  case False
  with assms have "oc_on_out_request ep s th setup c = c\<lparr>oc_pending := oc_pending c @
      [\<lparr>pr_ep = ep, pr_seqnum = s, pr_setup_req = setup, pr_transfer = th\<rparr>]\<rparr>"
    by (auto simp: oc_on_out_request_def)
  with assms(2) show ?thesis by (simp add: oc_account_def)
qed

lemma oc_account_take: "oc_account (snd (oc_try_take c)) = oc_account c"
proof (cases "oc_pending c")
  case (Cons r rs)
  have "oc_account (snd (oc_take_locked r (c\<lparr>oc_pending := rs\<rparr>))) = oc_account c"
    unfolding oc_take_locked_def Let_def
    by (cases "th_handle (pr_transfer r)") (simp_all add: oc_account_reply, simp_all add: oc_account_def Cons)
  with Cons show ?thesis by (simp add: oc_try_take_def case_prod_beta)
qed (simp add: oc_try_take_def)

text \<open>What a request delivers, whether it is still pending or being taken.\<close>

definition oc_deliver :: "'tr PendingRequest \<Rightarrow> Pending" where
  "oc_deliver r =
     \<lparr>pd_ep = pr_ep r, pd_setup_req = pr_setup_req r,
      pd_data = (if th_handle (pr_transfer r) \<noteq> None then read_transfer (pr_transfer r) else [])\<rparr>"

lemma oc_try_take_fifo:
  assumes "oc_try_take c = (p, c')"
  shows "map oc_deliver (oc_pending c) =
    (case p of Some d \<Rightarrow> [d] | None \<Rightarrow> []) @ map oc_deliver (oc_pending c')"
  using assms
  by (auto simp: oc_try_take_def oc_take_locked_def oc_deliver_def Let_def
      split: list.splits if_splits)

section \<open>Properties\<close>

text \<open>In every run of an OUT channel from its initial state with any bound, the number of
  pending requests stays within the bound and a disconnected channel holds none.\<close>

theorem out_channel_bounded:
  assumes "oc_step\<^sup>*\<^sup>* (oc_set_max_pending_requests n out_channel_new) c"
  shows "(oc_max_pending c \<noteq> 0 \<longrightarrow> length (oc_pending c) \<le> oc_max_pending c) \<and>
    (oc_disconnected c \<longrightarrow> oc_pending c = [])"
  using oc_run_bounded[OF assms]
  by (simp add: oc_bounded_def out_channel_new_def oc_set_max_pending_requests_def)

theorem out_channel_bounded_witness:
  "length (oc_pending (oc_on_out_request 2 1 TransferHandle_empty None
     (oc_on_new_connection (Some 1) (oc_set_max_pending_requests 1 out_channel_new)))) \<le> 1"
proof -
  let ?c0 = "oc_set_max_pending_requests 1 out_channel_new :: GenericTransfer out_channel"
  let ?c1 = "oc_on_new_connection (Some 1) ?c0"
  have "oc_step\<^sup>*\<^sup>* ?c0 (oc_on_out_request 2 1 TransferHandle_empty None ?c1)"
    by (rule rtranclp.rtrancl_into_rtrancl[OF r_into_rtranclp[of oc_step, OF oc_step.connect]])
       (rule oc_step.request)
  from out_channel_bounded[OF this] show ?thesis
    by (simp add: oc_on_out_request_def oc_on_new_connection_def oc_set_max_pending_requests_def
        out_channel_new_def)
qed



end
