(* ===== verification/Pools.thy ===== *)
theory Pools
  imports Slot_Containers
begin

text \<open>
  The two pools of \<open>utils/\<close>: \<open>ObjectPool.h\<close>, a fixed set of preallocated objects
  handed out through a stack of free indices, and \<open>StringPool.h\<close>, the string descriptors
  of a device under indices 1 to 255. A pointer is a natural number, the null pointer 0;
  comparison of pointers is comparison of numbers.
\<close>

section \<open>Object pool\<close>

record ObjectPool =
  op_pool :: "(nat \<times> bool) list"
  op_free_stack :: "nat list"
  op_free_top :: nat

text \<open>The constructor gets the objects \<open>LifeManager::create()\<close> returned.\<close>

definition ObjectPool_new :: "nat list \<Rightarrow> ObjectPool" where
  "ObjectPool_new created =
     \<lparr>op_pool = sort_key fst (map (\<lambda>p. (p, False)) created),
      op_free_stack = [0..<length created], op_free_top = length created\<rparr>"

definition pool_alloc :: "ObjectPool \<Rightarrow> nat \<times> ObjectPool" where
  "pool_alloc p =
     (if op_free_top p = 0 then (0, p)
      else
        (let top = op_free_top p - 1; index = op_free_stack p ! top; obj = fst (op_pool p ! index)
         in (obj, p\<lparr>op_pool := (op_pool p)[index := (obj, True)], op_free_top := top\<rparr>)))"

text \<open>\<open>std::lower_bound\<close>: the first position whose pointer is not below the argument.\<close>

definition pool_lower_bound :: "nat \<Rightarrow> (nat \<times> bool) list \<Rightarrow> nat" where
  "pool_lower_bound obj es = length (takeWhile (\<lambda>e. fst e < obj) es)"

definition pool_free :: "nat \<Rightarrow> ObjectPool \<Rightarrow> bool \<times> ObjectPool" where
  "pool_free obj p =
     (if obj = 0 then (False, p)
      else
        (let it = pool_lower_bound obj (op_pool p)
         in if it = length (op_pool p) \<or> fst (op_pool p ! it) \<noteq> obj then (False, p)
            else if \<not> snd (op_pool p ! it) then (False, p)
            else (True, p\<lparr>op_pool := (op_pool p)[it := (obj, False)],
                          op_free_stack := (op_free_stack p)[op_free_top p := it],
                          op_free_top := op_free_top p + 1\<rparr>)))"

definition pool_available :: "ObjectPool \<Rightarrow> nat" where
  "pool_available p = op_free_top p"

text \<open>\<open>clear()\<close>, with the objects it passes to \<open>LifeManager::destroy\<close>.\<close>

definition pool_clear :: "ObjectPool \<Rightarrow> nat list \<times> ObjectPool" where
  "pool_clear p =
     (filter (\<lambda>q. q \<noteq> 0) (map fst (op_pool p)),
      p\<lparr>op_pool := map (\<lambda>e. if fst e \<noteq> 0 then (0, False) else e) (op_pool p),
        op_free_top := 0\<rparr>)"

definition pool_reset :: "ObjectPool \<Rightarrow> ObjectPool" where
  "pool_reset p =
     p\<lparr>op_pool := map (\<lambda>e. (fst e, False)) (op_pool p),
       op_free_stack := [0..<length (op_pool p)], op_free_top := length (op_pool p)\<rparr>"

definition pool_objects :: "ObjectPool \<Rightarrow> nat set" where
  "pool_objects p = fst ` set (op_pool p)"

definition pool_in_use :: "ObjectPool \<Rightarrow> nat set" where
  "pool_in_use p = {q. (q, True) \<in> set (op_pool p)}"

definition free_indices :: "ObjectPool \<Rightarrow> nat set" where
  "free_indices p = {i. i < length (op_pool p) \<and> \<not> snd (op_pool p ! i)}"

definition pool_inv :: "ObjectPool \<Rightarrow> bool" where
  "pool_inv p \<longleftrightarrow>
     sorted (map fst (op_pool p)) \<and> distinct (map fst (op_pool p)) \<and> 0 \<notin> pool_objects p \<and>
     length (op_free_stack p) = length (op_pool p) \<and> op_free_top p \<le> length (op_pool p) \<and>
     distinct (take (op_free_top p) (op_free_stack p)) \<and>
     set (take (op_free_top p) (op_free_stack p)) = free_indices p"

lemma pool_new_inv:
  assumes "distinct created" and "0 \<notin> set created"
  shows "pool_inv (ObjectPool_new created)" and "pool_in_use (ObjectPool_new created) = {}"
    and "pool_objects (ObjectPool_new created) = set created"
proof -
  let ?es = "sort_key fst (map (\<lambda>p. (p, False)) created)"
  have s: "set ?es = (\<lambda>p. (p, False)) ` set created" by simp
  have d: "distinct (map fst ?es)" using assms(1) by (simp add: distinct_map inj_on_def)
  have "i < length created \<Longrightarrow> \<not> snd (?es ! i)" for i
    using nth_mem[of i ?es] s by auto
  then show "pool_inv (ObjectPool_new created)"
    using d assms(2) by (auto simp: pool_inv_def ObjectPool_new_def pool_objects_def free_indices_def)
  show "pool_in_use (ObjectPool_new created) = {}"
    "pool_objects (ObjectPool_new created) = set created"
    by (auto simp: pool_in_use_def pool_objects_def ObjectPool_new_def image_image)
qed

lemma free_top_count:
  assumes "pool_inv p"
  shows "op_free_top p + card (pool_in_use p) = length (op_pool p)"
proof -
  have "card (free_indices p) = op_free_top p"
    using assms distinct_card[of "take (op_free_top p) (op_free_stack p)"] by (simp add: pool_inv_def)
  moreover have "pool_in_use p = fst ` {e \<in> set (op_pool p). snd e}"
    by (force simp: pool_in_use_def)
  moreover have "inj_on fst {e \<in> set (op_pool p). snd e}"
    using assms by (auto simp: pool_inv_def distinct_map inj_on_def)
  moreover have "card {e \<in> set (op_pool p). snd e} = length (filter snd (op_pool p))"
    using assms distinct_card[of "filter snd (op_pool p)"] distinct_filter[of "op_pool p" snd]
    by (simp add: pool_inv_def distinct_map)
  moreover have "card (free_indices p) = length (filter (\<lambda>e. \<not> snd e) (op_pool p))"
    by (simp add: free_indices_def length_filter_conv_card)
  ultimately show ?thesis
    using sum_length_filter_compl[of snd "op_pool p"] by (simp add: card_image)
qed

text \<open>Flipping the flag of one entry.\<close>

lemma map_fst_flip: "i < length es \<Longrightarrow> map fst (es[i := (fst (es ! i), b)]) = map fst es"
  by (simp add: map_update list_update_same_conv)

lemma in_use_flip:
  assumes "distinct (map fst es)" and "i < length es"
  shows "{q. (q, True) \<in> set (es[i := (fst (es ! i), b)])} =
    (if b then insert (fst (es ! i)) {q. (q, True) \<in> set es}
     else {q. (q, True) \<in> set es} - {fst (es ! i)})"
proof -
  obtain q f where e: "es ! i = (q, f)" by fastforce
  obtain xs ys where es: "es = xs @ (q, f) # ys" and i: "length xs = i"
    using id_take_nth_drop[OF assms(2)] e assms(2) by (metis length_take min.absorb4)
  have "q \<notin> fst ` set xs" "q \<notin> fst ` set ys" using assms(1) by (auto simp: es)
  then show ?thesis by (auto simp: es e i[symmetric] image_iff)
qed

lemma free_indices_flip:
  assumes "i < length (op_pool p)" and "op_pool p' = (op_pool p)[i := (q, b)]"
  shows "free_indices p' = (if b then free_indices p - {i} else insert i (free_indices p))"
  using assms by (auto simp: free_indices_def nth_list_update)

lemma pool_alloc_spec:
  assumes inv: "pool_inv p" and al: "pool_alloc p = (obj, p')" and top: "op_free_top p \<noteq> 0"
  shows "pool_inv p' \<and> pool_objects p' = pool_objects p \<and> obj \<noteq> 0 \<and>
    obj \<in> pool_objects p - pool_in_use p \<and> pool_in_use p' = insert obj (pool_in_use p)"
proof -
  obtain t where t: "op_free_top p = Suc t" using top by (cases "op_free_top p") auto
  define i where "i = op_free_stack p ! t"
  let ?es = "op_pool p"
  have len: "t < length (op_free_stack p)" using inv t by (simp add: pool_inv_def)
  then have st: "take (Suc t) (op_free_stack p) = take t (op_free_stack p) @ [i]"
    by (simp add: take_Suc_conv_app_nth i_def)
  then have i: "i \<in> free_indices p" and it: "i \<notin> set (take t (op_free_stack p))"
    and rest: "set (take t (op_free_stack p)) = free_indices p - {i}"
    using inv by (auto simp: pool_inv_def t)
  then have il: "i < length ?es" and nu: "\<not> snd (?es ! i)" by (auto simp: free_indices_def)
  have p': "obj = fst (?es ! i)" "op_pool p' = ?es[i := (fst (?es ! i), True)]"
    "op_free_stack p' = op_free_stack p" "op_free_top p' = t"
    using al by (auto simp: pool_alloc_def t Let_def i_def)
  have mf: "map fst (op_pool p') = map fst ?es" using il p' by (simp add: map_fst_flip)
  then have objs: "pool_objects p' = pool_objects p"
    by (metis pool_objects_def set_map)
  have d: "distinct (map fst ?es)" using inv by (simp add: pool_inv_def)
  have "pool_inv p'"
    using inv mf objs st rest it len p'(3,4) free_indices_flip[OF il p'(2)] il p'(2)
    by (auto simp: pool_inv_def t)
  moreover have ob: "obj \<in> pool_objects p" using il p'(1) by (auto simp: pool_objects_def)
  moreover have "obj \<noteq> 0" using ob inv unfolding pool_inv_def by metis
  moreover have "obj \<notin> pool_in_use p"
  proof
    assume "obj \<in> pool_in_use p"
    then obtain j where "j < length ?es" "?es ! j = (obj, True)"
      by (auto simp: pool_in_use_def in_set_conv_nth)
    moreover from this have "j = i"
      using nth_eq_iff_index_eq[OF d, of j i] il p'(1) by simp
    ultimately show False using nu by simp
  qed
  moreover have "pool_in_use p' = insert obj (pool_in_use p)"
    using in_use_flip[OF d il, of True] p'(1,2) by (simp add: pool_in_use_def)
  ultimately show ?thesis using objs by simp
qed

lemma pool_lower_bound_found:
  assumes "sorted (map fst es)" and "distinct (map fst es)" and "i < length es" and "fst (es ! i) = obj"
  shows "pool_lower_bound obj es = i"
proof -
  have "fst (es ! j) < obj" if "j < i" for j
  proof -
    have "fst (es ! j) \<le> fst (es ! i)" using sorted_nth_mono[OF assms(1), of j i] that assms(3) by simp
    moreover have "fst (es ! j) \<noteq> fst (es ! i)"
      using nth_eq_iff_index_eq[OF assms(2), of j i] that assms(3) by simp
    ultimately show ?thesis using assms(4) by simp
  qed
  then have "takeWhile (\<lambda>e. fst e < obj) es = take i es"
    using assms(3,4) by (intro takeWhile_eq_take_P_nth) simp_all
  then show ?thesis using assms(3) by (simp add: pool_lower_bound_def)
qed

lemma pool_free_fails:
  assumes inv: "pool_inv p" and "obj \<notin> pool_in_use p"
  shows "pool_free obj p = (False, p)"
proof -
  let ?it = "pool_lower_bound obj (op_pool p)"
  have "?it \<le> length (op_pool p)" by (simp add: pool_lower_bound_def length_takeWhile_le)
  then consider "?it = length (op_pool p)" | "?it < length (op_pool p)" by linarith
  then show ?thesis
  proof cases
    case 2
    then have "op_pool p ! ?it \<noteq> (obj, True)"
      using assms(2) nth_mem[OF 2] unfolding pool_in_use_def by (metis mem_Collect_eq)
    then show ?thesis by (cases "op_pool p ! ?it") (auto simp: pool_free_def Let_def)
  qed (simp add: pool_free_def Let_def)
qed

lemma pool_free_succeeds:
  assumes inv: "pool_inv p" and use: "obj \<in> pool_in_use p" and fr: "pool_free obj p = (b, p')"
  shows "b \<and> pool_inv p' \<and> pool_objects p' = pool_objects p \<and> pool_in_use p' = pool_in_use p - {obj}"
proof -
  let ?es = "op_pool p"
  obtain i where i: "i < length ?es" "?es ! i = (obj, True)"
    using use by (auto simp: pool_in_use_def in_set_conv_nth)
  have d: "distinct (map fst ?es)" and "sorted (map fst ?es)" using inv by (simp_all add: pool_inv_def)
  then have lb: "pool_lower_bound obj ?es = i" using pool_lower_bound_found i by simp
  have "obj \<in> pool_objects p" using use by (force simp: pool_objects_def pool_in_use_def)
  then have nz: "obj \<noteq> 0" using inv unfolding pool_inv_def by metis
  have "pool_in_use p \<subseteq> fst ` set ?es" by (force simp: pool_in_use_def)
  then have "card (pool_in_use p) > 0"
    using use finite_subset by (subst card_gt_0_iff) blast
  then have top: "op_free_top p < length ?es" using free_top_count[OF inv] by linarith
  have p': "b" "op_pool p' = ?es[i := (fst (?es ! i), False)]"
    "op_free_stack p' = (op_free_stack p)[op_free_top p := i]" "op_free_top p' = Suc (op_free_top p)"
    using fr lb i nz by (auto simp: pool_free_def Let_def)
  have mf: "map fst (op_pool p') = map fst ?es" unfolding p'(2) using i by (intro map_fst_flip)
  then have objs: "pool_objects p' = pool_objects p" by (metis pool_objects_def set_map)
  have st: "take (op_free_top p') (op_free_stack p') = take (op_free_top p) (op_free_stack p) @ [i]"
    using p' top inv by (simp add: take_Suc_conv_app_nth pool_inv_def)
  have "i \<notin> free_indices p" using i by (simp add: free_indices_def)
  then have "pool_inv p'"
    using inv mf objs st p'(3,4) free_indices_flip[OF i(1) p'(2)] top p'(2)
    by (auto simp: pool_inv_def)
  moreover have "pool_in_use p' = pool_in_use p - {obj}"
    using in_use_flip[OF d i(1), of False] p'(2) i by (simp add: pool_in_use_def)
  ultimately show ?thesis using p'(1) objs by simp
qed

lemma pool_reset_spec:
  assumes "pool_inv p"
  shows "pool_inv (pool_reset p)" and "pool_in_use (pool_reset p) = {}"
    and "pool_objects (pool_reset p) = pool_objects p"
  using assms
  by (auto simp: pool_inv_def pool_reset_def pool_objects_def free_indices_def pool_in_use_def
      image_image o_def)

text \<open>\<open>clear()\<close> destroys every object exactly once; afterwards nothing can be allocated or freed.\<close>

lemma pool_clear_spec:
  assumes inv: "pool_inv p" and "pool_clear p = (destroyed, p')"
  shows "distinct destroyed" and "set destroyed = pool_objects p"
    and "pool_alloc p' = (0, p')" and "pool_free obj p' = (False, p')"
proof -
  have nz: "\<forall>e \<in> set (op_pool p). fst e \<noteq> 0" using inv by (force simp: pool_inv_def pool_objects_def)
  have p': "destroyed = filter (\<lambda>q. q \<noteq> 0) (map fst (op_pool p))"
    "op_free_top p' = 0" "op_pool p' = map (\<lambda>e. (0, False)) (op_pool p)"
    using assms(2) nz by (auto simp: pool_clear_def)
  show "distinct destroyed" using inv p'(1) by (auto simp: pool_inv_def)
  show "set destroyed = pool_objects p" using p'(1) nz by (auto simp: pool_objects_def)
  show "pool_alloc p' = (0, p')" by (simp add: pool_alloc_def p')
  have "obj \<noteq> 0 \<Longrightarrow> pool_lower_bound obj (op_pool p') = length (op_pool p')"
    by (simp add: pool_lower_bound_def p' takeWhile_eq_all_conv[THEN iffD2])
  then show "pool_free obj p' = (False, p')" by (auto simp: pool_free_def Let_def)
qed

section \<open>String pool\<close>

type_synonym wstring = "u32 list"

datatype pool_error = Pool_no_buffer_space | Pool_invalid_argument

type_synonym StringPool = "u8 \<rightharpoonup> wstring"

text \<open>\<open>new_string\<close>: the loop over a 16-bit index from 1 to 255.\<close>

function new_string_loop :: "u16 \<Rightarrow> wstring \<Rightarrow> StringPool \<Rightarrow> pool_error + (u8 \<times> StringPool)" where
  "new_string_loop index str sp =
     (if index \<le> 255
      then (if sp (ucast index) = None then Inr (ucast index, sp(ucast index \<mapsto> str))
            else new_string_loop (index + 1) str sp)
      else Inl Pool_no_buffer_space)"
  by pat_completeness auto
termination
  by (relation "measure (\<lambda>(index, _). 256 - unat index)")
     (auto simp: word_le_nat_alt unat_word_ariths)

declare new_string_loop.simps [simp del]

definition new_string :: "wstring \<Rightarrow> StringPool \<Rightarrow> pool_error + (u8 \<times> StringPool)" where
  "new_string str sp = new_string_loop 1 str sp"

definition get_string :: "u8 \<Rightarrow> StringPool \<Rightarrow> wstring option" where
  "get_string index sp = sp index"

definition change_string :: "u8 \<Rightarrow> wstring \<Rightarrow> StringPool \<Rightarrow> pool_error + StringPool" where
  "change_string index str sp =
     (if sp index = None then Inl Pool_invalid_argument else Inr (sp(index \<mapsto> str)))"

definition remove_string :: "u8 \<Rightarrow> StringPool \<Rightarrow> StringPool" where
  "remove_string index sp = sp(index := None)"

lemma new_string_loop_spec:
  assumes "1 \<le> index" and "index \<le> 256"
  shows "case new_string_loop index str sp of
      Inl e \<Rightarrow> \<forall>i. index \<le> i \<longrightarrow> i \<le> 255 \<longrightarrow> sp (ucast i) \<noteq> None
    | Inr (k, sp') \<Rightarrow> k \<noteq> 0 \<and> sp k = None \<and> sp' = sp(k \<mapsto> str)"
  using assms
proof (induction index str sp rule: new_string_loop.induct)
  case (1 index str sp)
  show ?case
  proof (cases "index \<le> 255 \<and> sp (ucast index) \<noteq> None")
    case True
    have nx: "1 \<le> index + 1" "index + 1 \<le> 256"
      using True by (auto simp: word_le_nat_alt unat_word_ariths)
    have eq: "new_string_loop index str sp = new_string_loop (index + 1) str sp"
      using True by (subst new_string_loop.simps) auto
    have "index \<le> i \<Longrightarrow> i = index \<or> index + 1 \<le> i" for i
      using True by (auto simp: word_le_nat_alt unat_word_ariths word_unat_eq_iff)
    with 1(1)[OF _ _ nx] True show ?thesis
      unfolding eq by (auto split: sum.splits)
  next
    case False
    show ?thesis
    proof (cases "index \<le> 255")
      case True
      have "(ucast index :: u8) \<noteq> 0"
        using True 1(2) by (auto simp: word_le_nat_alt word_unat_eq_iff unsigned_ucast_eq take_bit_eq_mod)
      with True False show ?thesis by (subst new_string_loop.simps) simp
    next
      case gt: False
      then have "\<not> (index \<le> i \<and> i \<le> 255)" for i by (meson order_trans)
      with gt show ?thesis by (subst new_string_loop.simps) auto
    qed
  qed
qed

lemma new_string_spec:
  "case new_string str sp of
     Inl e \<Rightarrow> \<forall>k. k \<noteq> 0 \<longrightarrow> sp k \<noteq> None
   | Inr (k, sp') \<Rightarrow> k \<noteq> 0 \<and> sp k = None \<and> sp' = sp(k \<mapsto> str)"
proof -
  have "\<exists>i :: u16. 1 \<le> i \<and> i \<le> 255 \<and> ucast i = k" if "k \<noteq> 0" for k :: u8
  proof (intro exI[of _ "ucast k"] conjI)
    have lt: "unat k < 256" using unsigned_less[of k, where ?'a = nat] by simp
    then have u: "unat (ucast k :: u16) = unat k"
      by (simp add: unsigned_ucast_eq take_bit_nat_eq_self)
    have "unat k \<noteq> 0" using that by (simp add: word_unat_eq_iff)
    then show "1 \<le> (ucast k :: u16)" by (simp add: word_le_nat_alt u)
    show "(ucast k :: u16) \<le> 255" using lt by (simp add: word_le_nat_alt u)
    show "ucast (ucast k :: u16) = k"
      by (rule bit_word_eqI) (auto simp: bit_ucast_iff)
  qed
  then show ?thesis
    using new_string_loop_spec[where index = 1 and str = str and sp = sp] unfolding new_string_def
    by (auto split: sum.splits)
qed

section \<open>Properties\<close>

text \<open>The object pool never hands out an object that is in use: \<open>alloc\<close> fails exactly
  when all are in use and otherwise returns a free object of the pool and marks it;
  \<open>free\<close> succeeds exactly for objects in use (foreign pointers, null and double frees are
  refused and change nothing); \<open>available()\<close> is the number of free objects.\<close>

theorem object_pool_correct:
  assumes "pool_inv p"
  shows "pool_available p + card (pool_in_use p) = length (op_pool p) \<and>
    (case pool_alloc p of (obj, p') \<Rightarrow>
       pool_inv p' \<and>
       (if pool_available p = 0 then obj = 0 \<and> p' = p
        else obj \<noteq> 0 \<and> obj \<in> pool_objects p - pool_in_use p \<and>
             pool_in_use p' = insert obj (pool_in_use p))) \<and>
    (case pool_free q p of (b, p') \<Rightarrow>
       pool_inv p' \<and> (b \<longleftrightarrow> q \<in> pool_in_use p) \<and>
       (if b then pool_in_use p' = pool_in_use p - {q} else p' = p))"
proof -
  have "case pool_alloc p of (obj, p') \<Rightarrow>
       pool_inv p' \<and>
       (if pool_available p = 0 then obj = 0 \<and> p' = p
        else obj \<noteq> 0 \<and> obj \<in> pool_objects p - pool_in_use p \<and>
             pool_in_use p' = insert obj (pool_in_use p))"
  proof (cases "op_free_top p = 0")
    case True
    with assms show ?thesis by (simp add: pool_alloc_def pool_available_def)
  next
    case False
    with pool_alloc_spec[OF assms _ False] show ?thesis
      by (auto simp: pool_available_def split: prod.splits)
  qed
  moreover have "case pool_free q p of (b, p') \<Rightarrow>
       pool_inv p' \<and> (b \<longleftrightarrow> q \<in> pool_in_use p) \<and>
       (if b then pool_in_use p' = pool_in_use p - {q} else p' = p)"
    using pool_free_succeeds[OF assms, of q] pool_free_fails[OF assms, of q] assms
    by (cases "q \<in> pool_in_use p") (auto split: prod.splits)
  ultimately show ?thesis
    using free_top_count[OF assms] by (simp add: pool_available_def)
qed

theorem object_pool_correct_witness:
  "fst (pool_alloc (ObjectPool_new [30, 10])) \<in> {10, 30}"
proof -
  have inv: "pool_inv (ObjectPool_new [30, 10])" by (rule pool_new_inv) simp_all
  show ?thesis
    using object_pool_correct[OF inv, of 0] pool_new_inv(2,3)[of "[30, 10]"]
    by (auto simp: pool_available_def split: prod.splits if_splits)
       (simp_all add: ObjectPool_new_def)
qed

text \<open>\<open>new_string\<close> returns an index from 1 to 255 that was free, stores the string there and
  touches no other index; it fails only when all 255 indices are taken.\<close>

theorem string_pool_new_string:
  "case new_string str sp of
     Inl e \<Rightarrow> e = Pool_no_buffer_space \<and> (\<forall>k. k \<noteq> 0 \<longrightarrow> get_string k sp \<noteq> None)
   | Inr (k, sp') \<Rightarrow> k \<noteq> 0 \<and> get_string k sp = None \<and> get_string k sp' = Some str \<and>
       (\<forall>j. j \<noteq> k \<longrightarrow> get_string j sp' = get_string j sp)"
proof -
  have "new_string_loop i str sp = Inl e \<Longrightarrow> e = Pool_no_buffer_space" for i e
    by (induction i str sp rule: new_string_loop.induct)
       (subst (asm) new_string_loop.simps, auto split: if_splits)
  then show ?thesis
    using new_string_spec[where str = str and sp = sp] by (auto simp: get_string_def new_string_def split: sum.splits)
qed

theorem string_pool_new_string_witness:
  "case new_string [0x41] (Map.empty :: StringPool) of
     Inl e \<Rightarrow> False | Inr (k, sp') \<Rightarrow> k \<noteq> 0 \<and> get_string k sp' = Some [0x41]"
  using string_pool_new_string[where str = "[0x41]" and sp = "Map.empty"]
  by (auto simp: get_string_def split: sum.splits prod.splits dest: spec[of _ 1])

end
