(* ===== verification/Transfer_Scheduler.thy ===== *)
theory Transfer_Scheduler
  imports Protocol Slot_Containers "HOL-Library.Multiset"
begin

text \<open>
  \<open>virtual_device/TransferScheduler.h\<close> and \<open>TransferScheduler.cpp\<close>: pacing of URBs by
  endpoint. Times are whole microseconds of the steady clock since its epoch; an operation that
  reads the clock takes the reading as an argument. The timer and the tasks posted to the
  scheduler thread are part of the state: \<open>sch_timer\<close> is the expiry of the pending
  \<open>async_wait\<close> and \<open>sch_posts\<close> counts the pending \<open>asio::post\<close> tasks. Work the
  timer handler does outside the lock is a list of actions it returns.
\<close>

section \<open>Intervals and frames\<close>

definition frame_alignment_delay :: "int \<Rightarrow> int" where
  "frame_alignment_delay t = 1000 - t mod 1000"

definition align_to_frame :: "int \<Rightarrow> int" where
  "align_to_frame t = t + frame_alignment_delay t"

definition endpoint_interval :: "UsbEndpoint \<Rightarrow> UsbSpeed \<Rightarrow> int" where
  "endpoint_interval ep speed =
     (let interval = (if ep_interval ep = 0 then 1 else ep_interval ep)
      in case speed of
           Speed_High \<Rightarrow> 125 * uint (push_bit (unat (min interval 16 - 1)) (1 :: u64))
         | Speed_Super \<Rightarrow> 125 * uint interval
         | Speed_SuperPlus \<Rightarrow> 125 * uint interval
         | _ \<Rightarrow> 1000 * uint interval)"

section \<open>State\<close>

text \<open>A URB either waits for its handler (callback, endpoint, transfer) or is a finished
  response to be sent.\<close>

datatype 'tr urb_work =
  Work_process nat UsbEndpoint "'tr TransferHandle"
| Work_send "'tr UsbIpRetSubmit"

record 'tr PendingUrb =
  pu_service_time :: int
  pu_work :: "'tr urb_work"
  pu_type :: EndpointAttributes
  pu_seqnum :: u32
  pu_delay :: int
  pu_responder :: nat

record 'tr EndpointState =
  es_queue :: "'tr PendingUrb list"
  es_last_scheduled :: int
  es_processing :: bool
  es_processing_seqnum :: u32

definition endpoint_state_new :: "'tr EndpointState" where
  "endpoint_state_new =
     \<lparr>es_queue = [], es_last_scheduled = 0, es_processing = False, es_processing_seqnum = 0\<rparr>"

record 'tr TransferScheduler =
  sch_endpoints :: "(u8 \<times> 'tr EndpointState) list"
  sch_speed :: UsbSpeed
  sch_started :: bool
  sch_timer :: "int option"
  sch_posts :: nat

definition TransferScheduler_new :: "UsbSpeed \<Rightarrow> 'tr TransferScheduler" where
  "TransferScheduler_new speed =
     \<lparr>sch_endpoints = [], sch_speed = speed, sch_started = False, sch_timer = None, sch_posts = 0\<rparr>"

text \<open>\<open>endpoints[ep]\<close> creates the state of an endpoint it does not know.\<close>

fun ep_state :: "u8 \<Rightarrow> (u8 \<times> 'tr EndpointState) list \<Rightarrow> 'tr EndpointState" where
  "ep_state ep [] = endpoint_state_new"
| "ep_state ep ((e, st) # es) = (if e = ep then st else ep_state ep es)"

fun ep_update :: "u8 \<Rightarrow> 'tr EndpointState \<Rightarrow> (u8 \<times> 'tr EndpointState) list \<Rightarrow>
    (u8 \<times> 'tr EndpointState) list" where
  "ep_update ep st' [] = [(ep, st')]"
| "ep_update ep st' ((e, st) # es) = (if e = ep then (e, st') # es else (e, st) # ep_update ep st' es)"

section \<open>Operations\<close>

definition arm_next :: "int \<Rightarrow> 'tr EndpointState \<Rightarrow> 'tr EndpointState" where
  "arm_next now st =
     (case es_queue st of
        [] \<Rightarrow> st
      | front # rest \<Rightarrow>
          (let last = (if es_last_scheduled st = 0 then now else es_last_scheduled st);
               t = (if pu_type front = EA_Isochronous then max now (last + pu_delay front)
                    else align_to_frame (max now last))
           in st\<lparr>es_queue := front\<lparr>pu_service_time := t\<rparr> # rest, es_last_scheduled := t\<rparr>))"

definition sch_kick :: "'tr TransferScheduler \<Rightarrow> 'tr TransferScheduler" where
  "sch_kick s = (if sch_timer s \<noteq> None then s else s\<lparr>sch_posts := sch_posts s + 1\<rparr>)"

definition sch_start :: "'tr TransferScheduler \<Rightarrow> 'tr TransferScheduler" where
  "sch_start s = (if sch_started s then s else s\<lparr>sch_started := True\<rparr>)"

definition sch_stop :: "'tr TransferScheduler \<Rightarrow> 'tr TransferScheduler" where
  "sch_stop s =
     (if \<not> sch_started s then s
      else s\<lparr>sch_started := False, sch_endpoints := [], sch_timer := None\<rparr>)"

text \<open>The common tail of both \<open>submit\<close> overloads.\<close>

definition sch_enqueue :: "int \<Rightarrow> u8 \<Rightarrow> 'tr PendingUrb \<Rightarrow> 'tr TransferScheduler \<Rightarrow> 'tr TransferScheduler" where
  "sch_enqueue now ep u s =
     (let st = ep_state ep (sch_endpoints s); was_empty = (es_queue st = []);
          st1 = st\<lparr>es_queue := es_queue st @ [u]\<rparr>;
          st2 = (if was_empty then arm_next now st1 else st1);
          s2 = s\<lparr>sch_endpoints := ep_update ep st2 (sch_endpoints s)\<rparr>
      in if was_empty \<and> \<not> es_processing st2 then sch_kick s2 else s2)"

datatype 'tr sched_action =
  Run_processor nat nat UsbEndpoint u32 "'tr TransferHandle"
| Complete nat "'tr UsbIpRetSubmit"

definition sch_submit_processor ::
    "int \<Rightarrow> nat \<Rightarrow> UsbEndpoint \<Rightarrow> EndpointAttributes \<Rightarrow> int \<Rightarrow> u32 \<Rightarrow> 'tr TransferHandle \<Rightarrow> nat \<Rightarrow>
     'tr TransferScheduler \<Rightarrow> 'tr sched_action list \<times> 'tr TransferScheduler" where
  "sch_submit_processor now responder ep type data_duration seqnum th processor s =
     (if type = EA_Control then ([Run_processor processor responder ep seqnum th], s)
      else if \<not> sch_started s then ([], s)
      else ([], sch_enqueue now (ep_address ep)
              \<lparr>pu_service_time = 0, pu_work = Work_process processor ep th, pu_type = type,
               pu_seqnum = seqnum, pu_delay = data_duration, pu_responder = responder\<rparr> s))"

definition sch_submit_interval ::
    "int \<Rightarrow> nat \<Rightarrow> u8 \<Rightarrow> EndpointAttributes \<Rightarrow> int \<Rightarrow> int \<Rightarrow> 'tr UsbIpRetSubmit \<Rightarrow> int \<Rightarrow>
     'tr TransferScheduler \<Rightarrow> 'tr sched_action list \<times> 'tr TransferScheduler" where
  "sch_submit_interval now responder ep_addr type interval num_iso r data_duration s =
     (if type = EA_Control \<or> type = EA_Isochronous \<and> num_iso \<le> 0 then ([Complete responder r], s)
      else if \<not> sch_started s then ([], s)
      else
        (let delay = (if type = EA_Isochronous
                      then (if data_duration \<noteq> 0 then data_duration else interval * num_iso) else 0)
         in ([], sch_enqueue now ep_addr
               \<lparr>pu_service_time = 0, pu_work = Work_send r, pu_type = type,
                pu_seqnum = h_seqnum (rs_header r), pu_delay = delay, pu_responder = responder\<rparr> s)))"

definition sch_submit_endpoint ::
    "int \<Rightarrow> nat \<Rightarrow> UsbEndpoint \<Rightarrow> EndpointAttributes \<Rightarrow> int \<Rightarrow> 'tr UsbIpRetSubmit \<Rightarrow> int \<Rightarrow>
     'tr TransferScheduler \<Rightarrow> 'tr sched_action list \<times> 'tr TransferScheduler" where
  "sch_submit_endpoint now responder ep type num_iso r data_duration s =
     sch_submit_interval now responder (ep_address ep) type (endpoint_interval ep (sch_speed s))
       num_iso r data_duration s"

definition sch_on_urb_done :: "u8 \<Rightarrow> u32 \<Rightarrow> 'tr TransferScheduler \<Rightarrow> 'tr TransferScheduler" where
  "sch_on_urb_done ep seqnum s =
     (if \<not> sch_started s \<or> ep \<notin> fst ` set (sch_endpoints s) then s
      else
        (let st = ep_state ep (sch_endpoints s)
         in if \<not> es_processing st \<or> es_processing_seqnum st \<noteq> seqnum then s
            else
              (let s1 = s\<lparr>sch_endpoints := ep_update ep
                     (st\<lparr>es_processing := False, es_processing_seqnum := 0\<rparr>) (sch_endpoints s)\<rparr>
               in if es_queue st \<noteq> [] then sch_kick s1 else s1)))"

text \<open>\<open>cancel\<close>: the search over the endpoints in iteration order.\<close>

definition es_cancel :: "int \<Rightarrow> u32 \<Rightarrow> nat \<Rightarrow> 'tr EndpointState \<Rightarrow> 'tr EndpointState" where
  "es_cancel now seqnum i st =
     (let q = take i (es_queue st) @ drop (Suc i) (es_queue st);
          st1 = st\<lparr>es_queue := q,
                   es_last_scheduled := (if i = 0
                     then max (es_last_scheduled st) (pu_service_time (es_queue st ! i))
                     else es_last_scheduled st)\<rparr>
      in if \<not> es_processing st1 \<and> q \<noteq> [] then arm_next now st1 else st1)"

fun sch_cancel_loop :: "int \<Rightarrow> u32 \<Rightarrow> (u8 \<times> 'tr EndpointState) list \<Rightarrow>
    bool \<times> (u8 \<times> 'tr EndpointState) list" where
  "sch_cancel_loop now seqnum [] = (False, [])"
| "sch_cancel_loop now seqnum ((ep, st) # es) =
     (if es_processing st \<and> es_processing_seqnum st = seqnum then (False, (ep, st) # es)
      else (case find_idx (\<lambda>u. pu_seqnum u = seqnum) (es_queue st) of
              Some i \<Rightarrow> (True, (ep, es_cancel now seqnum i st) # es)
            | None \<Rightarrow> (case sch_cancel_loop now seqnum es of (b, es') \<Rightarrow> (b, (ep, st) # es'))))"

definition sch_cancel :: "int \<Rightarrow> u32 \<Rightarrow> 'tr TransferScheduler \<Rightarrow> bool \<times> 'tr TransferScheduler" where
  "sch_cancel now seqnum s =
     (case sch_cancel_loop now seqnum (sch_endpoints s) of (b, es) \<Rightarrow> (b, s\<lparr>sch_endpoints := es\<rparr>))"

text \<open>\<open>schedule_next\<close>: the earliest service time among idle endpoints with work.\<close>

definition ep_ready :: "'tr EndpointState \<Rightarrow> bool" where
  "ep_ready st \<longleftrightarrow> \<not> es_processing st \<and> es_queue st \<noteq> []"

definition sch_schedule_next :: "'tr TransferScheduler \<Rightarrow> 'tr TransferScheduler" where
  "sch_schedule_next s =
     (case map (\<lambda>(e, st). pu_service_time (hd (es_queue st)))
             (filter (\<lambda>(e, st). ep_ready st) (sch_endpoints s)) of
        [] \<Rightarrow> s
      | t # ts \<Rightarrow> s\<lparr>sch_timer := Some (fold min ts t)\<rparr>)"

definition sch_schedule_on_thread :: "'tr TransferScheduler \<Rightarrow> 'tr TransferScheduler" where
  "sch_schedule_on_thread s0 =
     (let s = s0\<lparr>sch_posts := sch_posts s0 - 1\<rparr>
      in if \<not> sch_started s then s
         else if sch_timer s \<noteq> None then s
         else sch_schedule_next s)"

record 'tr DueUrb =
  due_responder :: nat
  due_urb :: "'tr PendingUrb"
  due_ep :: u8

fun collect_due :: "int \<Rightarrow> (u8 \<times> 'tr EndpointState) list \<Rightarrow>
    'tr DueUrb list \<times> (u8 \<times> 'tr EndpointState) list" where
  "collect_due now [] = ([], [])"
| "collect_due now ((ep, st) # es) =
     (case collect_due now es of (due, es') \<Rightarrow>
        (if ep_ready st \<and> pu_service_time (hd (es_queue st)) \<le> now
         then (let u = hd (es_queue st)
               in (\<lparr>due_responder = pu_responder u, due_urb = u, due_ep = ep\<rparr> # due,
                   (ep, arm_next now (st\<lparr>es_queue := tl (es_queue st), es_processing := True,
                                        es_processing_seqnum := pu_seqnum u\<rparr>)) # es'))
         else (due, (ep, st) # es')))"

definition sch_on_timer :: "bool \<Rightarrow> int \<Rightarrow> 'tr TransferScheduler \<Rightarrow>
    'tr DueUrb list \<times> 'tr TransferScheduler" where
  "sch_on_timer aborted now s =
     (let s1 = s\<lparr>sch_timer := None\<rparr>
      in if aborted \<or> \<not> sch_started s1 then ([], s1)
         else (case collect_due now (sch_endpoints s1) of (due, es) \<Rightarrow>
                 (due, sch_schedule_next (s1\<lparr>sch_endpoints := es\<rparr>))))"

text \<open>The part of \<open>on_timer\<close> outside the lock, one URB at a time.\<close>

definition sch_dispatch :: "'tr DueUrb \<Rightarrow> 'tr TransferScheduler \<Rightarrow>
    'tr sched_action \<times> 'tr TransferScheduler" where
  "sch_dispatch d s =
     (case pu_work (due_urb d) of
        Work_process cb ep th \<Rightarrow> (Run_processor cb (due_responder d) ep (pu_seqnum (due_urb d)) th, s)
      | Work_send r \<Rightarrow> (Complete (due_responder d) r,
                        sch_on_urb_done (due_ep d) (pu_seqnum (due_urb d)) s))"

section \<open>Time\<close>

lemma align_to_frame_spec:
  "t < align_to_frame t" "align_to_frame t \<le> t + 1000" "1000 dvd align_to_frame t"
proof -
  show "t < align_to_frame t" "align_to_frame t \<le> t + 1000"
    by (simp_all add: align_to_frame_def frame_alignment_delay_def)
  have "align_to_frame t = 1000 * (t div 1000) + 1000"
    using minus_mod_eq_mult_div[of t 1000] by (simp add: align_to_frame_def frame_alignment_delay_def)
  then show "1000 dvd align_to_frame t" by simp
qed

lemma arm_next_spec:
  assumes "es_queue st = u # us"
  shows "es_queue (arm_next now st) = u\<lparr>pu_service_time := es_last_scheduled (arm_next now st)\<rparr> # us"
    and "now \<le> es_last_scheduled (arm_next now st)"
    and "es_processing (arm_next now st) = es_processing st"
  using assms align_to_frame_spec(1)[of "max now (es_last_scheduled st)"]
    align_to_frame_spec(1)[of now]
  by (auto simp: arm_next_def Let_def max_def split: if_splits)

lemma arm_next_frame [simp]:
  "es_processing (arm_next now st) = es_processing st"
  "es_processing_seqnum (arm_next now st) = es_processing_seqnum st"
  "(es_queue (arm_next now st) = []) = (es_queue st = [])"
  "map pu_seqnum (es_queue (arm_next now st)) = map pu_seqnum (es_queue st)"
  by (auto simp: arm_next_def Let_def split: list.splits)

lemma ep_ready_arm_next [simp]: "ep_ready (arm_next now st) = ep_ready st"
  by (simp add: ep_ready_def)

lemma u8_min_16:
  assumes "(v :: u8) \<noteq> 0"
  shows "unat (min v 16 - 1) \<le> 15" and "unat (min v 16 - 1) = min (unat v) 16 - 1"
proof -
  have "unat v \<noteq> 0" using assms by (simp add: word_unat_eq_iff)
  then have "1 \<le> min v 16" by (simp add: word_le_nat_alt min_def)
  then have "unat (min v 16 - 1) = unat (min v 16) - 1" by (simp add: unat_sub)
  also have "unat (min v 16) = min (unat v) 16" by (auto simp: min_def word_le_nat_alt)
  finally show "unat (min v 16 - 1) = min (unat v) 16 - 1" .
  then show "unat (min v 16 - 1) \<le> 15" by simp
qed

lemma endpoint_interval_high:
  "endpoint_interval ep Speed_High =
     125 * 2 ^ (min (max (unat (ep_interval ep)) 1) 16 - 1)"
proof -
  let ?v = "if ep_interval ep = 0 then 1 else ep_interval ep"
  have v: "?v \<noteq> 0" by simp
  have "unat ?v = max (unat (ep_interval ep)) 1"
    by (auto simp: max_def word_unat_eq_iff)
  then have k: "unat (min ?v 16 - 1) = min (max (unat (ep_interval ep)) 1) 16 - 1"
    using u8_min_16(2)[OF v] by simp
  have "uint (push_bit n (1 :: u64)) = 2 ^ n" if "n \<le> 15" for n
  proof -
    have "(2 :: int) ^ n < 2 ^ 64" using that by (intro power_strict_increasing) simp_all
    then have "take_bit 64 ((2 :: int) ^ n) = 2 ^ n" by (intro take_bit_int_eq_self) simp_all
    moreover have "uint (push_bit n (1 :: u64)) = take_bit LENGTH(64) (push_bit n (uint (1 :: u64)))"
      by (rule unsigned_push_bit_eq)
    ultimately show ?thesis by simp
  qed
  with u8_min_16(1)[OF v] k show ?thesis by (simp add: endpoint_interval_def Let_def)
qed

section \<open>No lost wake-up\<close>

definition any_ready :: "(u8 \<times> 'tr EndpointState) list \<Rightarrow> bool" where
  "any_ready es \<longleftrightarrow> (\<exists>(e, st) \<in> set es. ep_ready st)"

text \<open>While an idle endpoint has work, the timer is armed or a task that will arm it is posted;
  a stopped scheduler holds nothing.\<close>

definition sch_awake :: "'tr TransferScheduler \<Rightarrow> bool" where
  "sch_awake s \<longleftrightarrow>
     (any_ready (sch_endpoints s) \<longrightarrow> sch_timer s \<noteq> None \<or> 0 < sch_posts s) \<and>
     (\<not> sch_started s \<longrightarrow> sch_endpoints s = [] \<and> sch_timer s = None) \<and>
     distinct (map fst (sch_endpoints s))"

inductive sched_step :: "'tr TransferScheduler \<Rightarrow> 'tr TransferScheduler \<Rightarrow> bool" where
  start: "sched_step s (sch_start s)"
| stop: "sched_step s (sch_stop s)"
| submit_processor: "sched_step s (snd (sch_submit_processor now rsp ep ty dur sq th cb s))"
| submit_interval: "sched_step s (snd (sch_submit_interval now rsp epa ty iv n r dur s))"
| urb_done: "sched_step s (sch_on_urb_done epa sq s)"
| cancel: "sched_step s (snd (sch_cancel now sq s))"
| thread: "0 < sch_posts s \<Longrightarrow> sched_step s (sch_schedule_on_thread s)"
| timer: "sch_timer s = Some t \<Longrightarrow> t \<le> now \<Longrightarrow> sched_step s (snd (sch_on_timer False now s))"
| aborted: "\<not> sch_started s \<Longrightarrow> sched_step s (snd (sch_on_timer True now s))"

lemma any_ready_simps [simp]:
  "any_ready [] = False" "any_ready ((e, st) # es) = (ep_ready st \<or> any_ready es)"
  by (auto simp: any_ready_def)

lemma any_ready_update: "any_ready (ep_update ep st es) \<Longrightarrow> ep_ready st \<or> any_ready es"
  by (induction es) (auto split: if_splits)

lemma ep_update_keys:
  "map fst (ep_update ep st es) =
     (if ep \<in> set (map fst es) then map fst es else map fst es @ [ep])"
proof (induction es)
  case (Cons x es)
  then show ?case by (cases x) simp
qed simp

lemma ep_update_distinct: "distinct (map fst es) \<Longrightarrow> distinct (map fst (ep_update ep st es))"
  by (simp add: ep_update_keys)

lemma any_ready_state: "ep_ready (ep_state ep es) \<Longrightarrow> any_ready es"
  by (induction es) (auto simp: ep_ready_def endpoint_state_new_def split: if_splits)

lemma kick_awake: "sch_timer (sch_kick s) \<noteq> None \<or> 0 < sch_posts (sch_kick s)"
  by (simp add: sch_kick_def)

lemma kick_sel [simp]:
  "sch_endpoints (sch_kick s) = sch_endpoints s" "sch_started (sch_kick s) = sch_started s"
  by (simp_all add: sch_kick_def)

lemma enqueue_awake:
  assumes "sch_awake s" and "sch_started s"
  shows "sch_awake (sch_enqueue now ep u s)"
proof -
  define st where "st = ep_state ep (sch_endpoints s)"
  define st2 where "st2 = (if es_queue st = [] then arm_next now (st\<lparr>es_queue := es_queue st @ [u]\<rparr>)
      else st\<lparr>es_queue := es_queue st @ [u]\<rparr>)"
  define s2 where "s2 = s\<lparr>sch_endpoints := ep_update ep st2 (sch_endpoints s)\<rparr>"
  have e: "sch_enqueue now ep u s = (if es_queue st = [] \<and> \<not> es_processing st2 then sch_kick s2 else s2)"
    by (simp add: sch_enqueue_def Let_def s2_def st2_def st_def)
  have d: "distinct (map fst (sch_endpoints s2))"
    using assms(1) by (simp add: s2_def sch_awake_def ep_update_distinct)
  have p: "es_processing st2 = es_processing st" by (simp add: st2_def)
  have "sch_timer s \<noteq> None \<or> 0 < sch_posts s"
    if "any_ready (sch_endpoints s2)" "\<not> (es_queue st = [] \<and> \<not> es_processing st2)"
  proof -
    have "ep_ready st2 \<or> any_ready (sch_endpoints s)"
      using any_ready_update that(1) by (simp add: s2_def)
    moreover have "ep_ready st2 \<Longrightarrow> ep_ready st" using that(2) p by (auto simp: ep_ready_def)
    ultimately have "any_ready (sch_endpoints s)" using any_ready_state unfolding st_def by blast
    then show ?thesis using assms(1) by (simp add: sch_awake_def)
  qed
  then show ?thesis
    using d assms(2) kick_awake[of s2] unfolding e sch_awake_def by (auto simp: s2_def)
qed

lemma schedule_next_awake:
  "any_ready (sch_endpoints s) \<Longrightarrow> sch_timer (sch_schedule_next s) \<noteq> None"
  by (force simp: sch_schedule_next_def any_ready_def filter_empty_conv split: list.splits)

lemma schedule_next_sel [simp]:
  "sch_endpoints (sch_schedule_next s) = sch_endpoints s"
  "sch_started (sch_schedule_next s) = sch_started s" "sch_posts (sch_schedule_next s) = sch_posts s"
  by (simp_all add: sch_schedule_next_def split: list.splits)

lemma collect_due_keys: "map fst (snd (collect_due now es)) = map fst es"
  by (induction now es rule: collect_due.induct) (auto simp: Let_def split: prod.splits)

lemma cancel_loop_ready:
  "sch_cancel_loop now sq es = (b, es') \<Longrightarrow>
   map fst es' = map fst es \<and> (any_ready es' \<longrightarrow> any_ready es)"
proof (induction now sq es arbitrary: b es' rule: sch_cancel_loop.induct)
  case (2 now sq ep st es)
  have rd: "ep_ready (es_cancel now sq i st) \<Longrightarrow> ep_ready st" for i
    by (cases "es_queue st") (auto simp: es_cancel_def Let_def ep_ready_def split: if_splits)
  from 2 show ?case by (auto dest: rd split: if_splits option.splits prod.splits)
qed simp

lemma sched_step_awake: "sched_step s s' \<Longrightarrow> sch_awake s \<Longrightarrow> sch_awake s'"
proof (induction rule: sched_step.induct)
  case (submit_processor s now rsp ep ty dur sq th cb)
  then show ?case by (auto simp: sch_submit_processor_def enqueue_awake)
next
  case (submit_interval s now rsp epa ty iv n r dur)
  then show ?case by (auto simp: sch_submit_interval_def Let_def enqueue_awake)
next
  case (urb_done s epa sq)
  define st where "st = ep_state epa (sch_endpoints s)"
  define s1 where "s1 = s\<lparr>sch_endpoints := ep_update epa
      (st\<lparr>es_processing := False, es_processing_seqnum := 0\<rparr>) (sch_endpoints s)\<rparr>"
  have "sch_awake (if es_queue st \<noteq> [] then sch_kick s1 else s1)" if "sch_started s"
    using urb_done that kick_awake[of s1] any_ready_update[of epa
        "st\<lparr>es_processing := False, es_processing_seqnum := 0\<rparr>" "sch_endpoints s"]
    by (auto simp: sch_awake_def s1_def ep_update_distinct ep_ready_def)
  with urb_done show ?case by (simp add: sch_on_urb_done_def Let_def flip: st_def s1_def)
next
  case (cancel s now sq)
  obtain b es where c: "sch_cancel_loop now sq (sch_endpoints s) = (b, es)" by fastforce
  with cancel_loop_ready[OF c] cancel show ?case by (auto simp: sch_cancel_def sch_awake_def)
next
  case (thread s)
  then show ?case
    using schedule_next_awake[of "s\<lparr>sch_posts := sch_posts s - 1\<rparr>"]
    by (auto simp: sch_schedule_on_thread_def Let_def sch_awake_def)
next
  case (timer s t now)
  obtain due es where c: "collect_due now (sch_endpoints s) = (due, es)" by fastforce
  have "map fst es = map fst (sch_endpoints s)" using collect_due_keys[of now "sch_endpoints s"] c by simp
  with timer c schedule_next_awake[of "s\<lparr>sch_timer := None, sch_endpoints := es\<rparr>"] show ?case
    by (auto simp: sch_on_timer_def Let_def sch_awake_def)
next
  case (aborted s now)
  then show ?case by (auto simp: sch_on_timer_def Let_def sch_awake_def)
qed (auto simp: sch_start_def sch_stop_def sch_awake_def)

lemma sched_reachable_awake:
  "sched_step\<^sup>*\<^sup>* (TransferScheduler_new speed) s \<Longrightarrow> sch_awake s"
  by (induction rule: rtranclp_induct)
     (auto simp: sch_awake_def TransferScheduler_new_def dest: sched_step_awake)

section \<open>Service\<close>

lemma collect_due_eps: "set (map due_ep (fst (collect_due now es))) \<subseteq> set (map fst es)"
proof (induction now es rule: collect_due.induct)
  case (2 now ep st es)
  then show ?case by (auto simp: Let_def split: prod.splits if_splits) blast+
qed simp

lemma collect_due_distinct:
  assumes "distinct (map fst es)"
  shows "distinct (map due_ep (fst (collect_due now es)))"
  using assms
proof (induction now es rule: collect_due.induct)
  case (2 now ep st es)
  have "ep \<notin> set (map due_ep (fst (collect_due now es)))"
    using collect_due_eps[of now es] 2(2) by auto
  with 2 show ?case by (auto simp: Let_def split: prod.splits if_splits)
qed simp

lemma ep_state_notin: "ep \<notin> set (map fst es) \<Longrightarrow> ep_state ep es = endpoint_state_new"
  by (induction es) auto

lemma collect_due_state:
  assumes "collect_due now es = (due, es')"
  shows "ep_state ep es' =
    (let st = ep_state ep es
     in if ep_ready st \<and> pu_service_time (hd (es_queue st)) \<le> now
        then arm_next now (st\<lparr>es_queue := tl (es_queue st), es_processing := True,
               es_processing_seqnum := pu_seqnum (hd (es_queue st))\<rparr>)
        else st)"
  using assms
proof (induction now es arbitrary: due es' rule: collect_due.induct)
  case (1 now)
  then show ?case by (auto simp: endpoint_state_new_def ep_ready_def)
next
  case (2 now e st es)
  obtain due1 es1 where c: "collect_due now es = (due1, es1)" by fastforce
  show ?case
  proof (cases "e = ep")
    case True
    with 2(2) c show ?thesis by (auto simp: Let_def split: if_splits)
  next
    case False
    then have "ep_state ep es' = ep_state ep es1" "ep_state ep ((e, st) # es) = ep_state ep es"
      using 2(2) c by (auto simp: Let_def split: if_splits)
    with 2(1)[OF c] show ?thesis by simp
  qed
qed

lemma collect_due_served:
  assumes "collect_due now es = (due, es')" and "distinct (map fst es)" and "d \<in> set due"
  shows "let st = ep_state (due_ep d) es
    in ep_ready st \<and> pu_service_time (hd (es_queue st)) \<le> now \<and> due_urb d = hd (es_queue st)"
  using assms
proof (induction now es arbitrary: due es' rule: collect_due.induct)
  case (2 now e st es)
  obtain due1 es1 where c: "collect_due now es = (due1, es1)" by fastforce
  show ?case
  proof (cases "d \<in> set due1")
    case True
    then have "due_ep d \<in> set (map fst es)" using collect_due_eps[of now es] c by auto
    then have "due_ep d \<noteq> e" using 2(3) by auto
    with 2(1)[OF c _ True] 2(3) show ?thesis by simp
  next
    case False
    with 2(2,4) c show ?thesis by (cases d) (auto simp: Let_def split: if_splits)
  qed
qed simp

section \<open>Cancellation\<close>

definition sch_queued :: "(u8 \<times> 'tr EndpointState) list \<Rightarrow> u32 list" where
  "sch_queued es = concat (map (\<lambda>(e, st). map pu_seqnum (es_queue st)) es)"

definition sch_in_process :: "u32 \<Rightarrow> (u8 \<times> 'tr EndpointState) list \<Rightarrow> bool" where
  "sch_in_process sq es \<longleftrightarrow> (\<exists>(e, st) \<in> set es. es_processing st \<and> es_processing_seqnum st = sq)"

lemma sch_queued_Cons [simp]:
  "sch_queued ((e, st) # es) = map pu_seqnum (es_queue st) @ sch_queued es"
  by (simp add: sch_queued_def)

lemma sch_in_process_Cons [simp]:
  "sch_in_process sq ((e, st) # es) \<longleftrightarrow>
     es_processing st \<and> es_processing_seqnum st = sq \<or> sch_in_process sq es"
  by (auto simp: sch_in_process_def)

lemma es_cancel_queue:
  assumes "find_idx (\<lambda>u. pu_seqnum u = sq) (es_queue st) = Some i"
  shows "mset (map pu_seqnum (es_queue st)) =
    add_mset sq (mset (map pu_seqnum (es_queue (es_cancel now sq i st))))"
proof -
  note i = find_idx_Some[OF assms]
  have "map pu_seqnum (es_queue (es_cancel now sq i st)) =
      map pu_seqnum (take i (es_queue st) @ drop (Suc i) (es_queue st))"
    by (simp add: es_cancel_def Let_def del: map_append)
  moreover have "es_queue st = take i (es_queue st) @ es_queue st ! i # drop (Suc i) (es_queue st)"
    using i by (simp add: id_take_nth_drop)
  then have "mset (map pu_seqnum (es_queue st)) =
      mset (map pu_seqnum (take i (es_queue st) @ es_queue st ! i # drop (Suc i) (es_queue st)))"
    by simp
  ultimately show ?thesis using i by simp
qed

lemma cancel_loop_spec:
  assumes "sch_cancel_loop now sq es = (b, es')"
  shows "b \<Longrightarrow> mset (sch_queued es) = add_mset sq (mset (sch_queued es'))"
    and "\<not> b \<Longrightarrow> es' = es \<and> (sq \<notin> set (sch_queued es) \<or> sch_in_process sq es)"
proof -
  have "(b \<longrightarrow> mset (sch_queued es) = add_mset sq (mset (sch_queued es'))) \<and>
      (\<not> b \<longrightarrow> es' = es \<and> (sq \<notin> set (sch_queued es) \<or> sch_in_process sq es))"
    using assms
  proof (induction now sq es arbitrary: b es' rule: sch_cancel_loop.induct)
    case (1 now sq)
    then show ?case by (simp add: sch_queued_def)
  next
    case (2 now sq ep st es)
    show ?case
    proof (cases "find_idx (\<lambda>u. pu_seqnum u = sq) (es_queue st)")
      case None
      then have "sq \<notin> set (map pu_seqnum (es_queue st))" by (auto simp: find_idx_None)
      with 2 None show ?thesis by (auto split: if_splits prod.splits)
    next
      case (Some i)
      with 2(2) es_cancel_queue[OF Some, of now] show ?thesis by (auto split: if_splits)
    qed
  qed
  then show "b \<Longrightarrow> mset (sch_queued es) = add_mset sq (mset (sch_queued es'))"
    "\<not> b \<Longrightarrow> es' = es \<and> (sq \<notin> set (sch_queued es) \<or> sch_in_process sq es)" by auto
qed

section \<open>Properties\<close>

text \<open>C20: No wake-up is lost: in every reachable state of the scheduler in which an endpoint has a
  queued URB and is not waiting for its handler, the timer is armed or a task that will arm it
  is posted; a stopped scheduler holds no URB.\<close>

theorem scheduler_no_lost_wakeup:
  assumes "sched_step\<^sup>*\<^sup>* (TransferScheduler_new speed) s"
  shows "(any_ready (sch_endpoints s) \<longrightarrow> sch_timer s \<noteq> None \<or> 0 < sch_posts s) \<and>
    (\<not> sch_started s \<longrightarrow> sch_endpoints s = [])"
  using sched_reachable_awake[OF assms] by (simp add: sch_awake_def)

definition sample_scheduler :: "GenericTransfer TransferScheduler" where
  "sample_scheduler =
     snd (sch_submit_interval 5000 1 0x81 EA_Bulk 125 0 (create_ret_submit_ok_without_data 7 0) 0
       (sch_start (TransferScheduler_new Speed_Full)))"

theorem scheduler_no_lost_wakeup_witness:
  "0 < sch_posts sample_scheduler"
proof -
  have "sched_step\<^sup>*\<^sup>* (TransferScheduler_new Speed_Full) sample_scheduler"
    unfolding sample_scheduler_def
    by (rule rtranclp.rtrancl_into_rtrancl[OF r_into_rtranclp[of sched_step, OF sched_step.start]])
       (rule sched_step.submit_interval)
  from scheduler_no_lost_wakeup[OF this] show ?thesis
    by (simp add: sample_scheduler_def sch_submit_interval_def sch_start_def TransferScheduler_new_def
        sch_enqueue_def Let_def endpoint_state_new_def arm_next_def sch_kick_def ep_ready_def)
qed

text \<open>When the timer fires, each endpoint is served at most one URB, its oldest, and only when
  its service time has come and no earlier URB of the endpoint is still being handled; the endpoint
  is then marked busy with that URB and the next one has a service time that is not in the past.\<close>

theorem scheduler_serves_in_order:
  assumes "collect_due now (sch_endpoints s) = (due, es)" and "distinct (map fst (sch_endpoints s))"
  shows "distinct (map due_ep due) \<and>
    (\<forall>d \<in> set due.
       let st = ep_state (due_ep d) (sch_endpoints s); st' = ep_state (due_ep d) es
       in \<not> es_processing st \<and> es_queue st \<noteq> [] \<and> due_urb d = hd (es_queue st) \<and>
          pu_service_time (due_urb d) \<le> now \<and>
          es_processing st' \<and> es_processing_seqnum st' = pu_seqnum (due_urb d) \<and>
          map pu_seqnum (es_queue st') = map pu_seqnum (tl (es_queue st)) \<and>
          (es_queue st' \<noteq> [] \<longrightarrow> now \<le> pu_service_time (hd (es_queue st'))))"
proof (intro conjI ballI)
  show "distinct (map due_ep due)" using collect_due_distinct[OF assms(2), of now] assms(1) by simp
next
  fix d assume d: "d \<in> set due"
  let ?st = "ep_state (due_ep d) (sch_endpoints s)" and ?st' = "ep_state (due_ep d) es"
  let ?st1 = "?st\<lparr>es_queue := tl (es_queue ?st), es_processing := True,
      es_processing_seqnum := pu_seqnum (hd (es_queue ?st))\<rparr>"
  have r: "ep_ready ?st" "pu_service_time (hd (es_queue ?st)) \<le> now" "due_urb d = hd (es_queue ?st)"
    using collect_due_served[OF assms d] by (simp_all add: Let_def)
  have st': "?st' = arm_next now ?st1"
    using collect_due_state[OF assms(1), of "due_ep d"] r by (simp add: Let_def)
  have "now \<le> pu_service_time (hd (es_queue ?st'))" if "es_queue ?st' \<noteq> []"
  proof -
    have "es_queue ?st1 \<noteq> []" using that st' by simp
    then obtain u us where q: "es_queue ?st1 = u # us" by (auto simp: neq_Nil_conv)
    from arm_next_spec[OF q, of now] show ?thesis by (simp add: st')
  qed
  then show "let st = ?st; st' = ?st'
       in \<not> es_processing st \<and> es_queue st \<noteq> [] \<and> due_urb d = hd (es_queue st) \<and>
          pu_service_time (due_urb d) \<le> now \<and>
          es_processing st' \<and> es_processing_seqnum st' = pu_seqnum (due_urb d) \<and>
          map pu_seqnum (es_queue st') = map pu_seqnum (tl (es_queue st)) \<and>
          (es_queue st' \<noteq> [] \<longrightarrow> now \<le> pu_service_time (hd (es_queue st')))"
    using r st' by (simp add: Let_def ep_ready_def)
qed

theorem scheduler_serves_in_order_witness:
  "distinct (map due_ep (fst (collect_due 6000 (sch_endpoints sample_scheduler))))"
  using scheduler_serves_in_order[of 6000 sample_scheduler
      "fst (collect_due 6000 (sch_endpoints sample_scheduler))"
      "snd (collect_due 6000 (sch_endpoints sample_scheduler))"]
  by (simp add: sample_scheduler_def sch_submit_interval_def sch_start_def TransferScheduler_new_def
      sch_enqueue_def Let_def sch_kick_def)

text \<open>\<open>cancel\<close> succeeds only by removing one queued URB with that sequence number, which is
  then never served; it fails, changing nothing, only when no such URB is queued or a URB
  with that number is being handled.\<close>

theorem scheduler_cancel_correct:
  "case sch_cancel now sq s of (b, s') \<Rightarrow>
     (if b then mset (sch_queued (sch_endpoints s)) = add_mset sq (mset (sch_queued (sch_endpoints s')))
      else s' = s \<and> (sq \<notin> set (sch_queued (sch_endpoints s)) \<or> sch_in_process sq (sch_endpoints s)))"
  using cancel_loop_spec[of now sq "sch_endpoints s"]
  by (auto simp: sch_cancel_def split: prod.splits)

theorem scheduler_cancel_correct_witness:
  "mset (sch_queued (sch_endpoints sample_scheduler)) =
     add_mset 7 (mset (sch_queued (sch_endpoints (snd (sch_cancel 6000 7 sample_scheduler)))))"
proof -
  have "fst (sch_cancel 6000 7 sample_scheduler)"
    by (simp add: sch_cancel_def sample_scheduler_def sch_submit_interval_def sch_start_def
        TransferScheduler_new_def sch_enqueue_def Let_def endpoint_state_new_def arm_next_def
        sch_kick_def create_ret_submit_ok_without_data_def get_server_header_def
        create_ret_submit_with_status_and_no_data_def)
  then show ?thesis
    using scheduler_cancel_correct[where now = 6000 and sq = 7 and s = sample_scheduler]
    by (simp add: case_prod_beta)
qed

text \<open>The transaction interval of a high-speed endpoint is 125 microseconds times a power of
  two between 1 and 2^15 given by \<open>bInterval\<close> clamped to 1..16, and a service time aligned to
  a frame is the next multiple of one millisecond, strictly later and at most 1 ms away.\<close>

theorem scheduler_interval_and_frame:
  "endpoint_interval ep Speed_High = 125 * 2 ^ (min (max (unat (ep_interval ep)) 1) 16 - 1) \<and>
   t < align_to_frame t \<and> align_to_frame t \<le> t + 1000 \<and> 1000 dvd align_to_frame t"
  using endpoint_interval_high align_to_frame_spec by simp

end
