(* ===== verification/Server_Devices.thy ===== *)
theory Server_Devices
  imports Usb_Device
begin

text \<open>
  The server (\<open>Server.h\<close>, \<open>Server.cpp\<close>): the registry of exported devices (available or in use), the
  table of client sessions with the accept loop that fills it, the counter \<open>stop()\<close> waits
  for, and the observers. Every operation that the source performs under one lock is one function
  on the state. Session objects are the identifiers in \<open>sv_alive\<close>; the table holds weak pointers,
  so an entry can be locked exactly while its session is alive. A notification is recorded with
  the observers it was delivered to, in call order.
\<close>

section \<open>State\<close>

datatype AddDeviceStatus = Added | AlreadyBound | InUse

datatype DeviceReleaseReason = ClientDisconnected | DeviceRemoved | ServerStopped

datatype notification =
  On_session_started u64 string
| On_session_ended u64
| On_device_added string
| On_device_attached string
| On_device_released string DeviceReleaseReason

definition MAX_OBSERVERS :: nat where "MAX_OBSERVERS = 8"

record server =
  sv_running :: bool
  sv_listening :: bool
  sv_available :: "UsbDevice list"
  sv_using :: "string \<rightharpoonup> UsbDevice"
  sv_sessions :: "u64 list"
  sv_next_session_id :: u64
  sv_alive :: "u64 list"
  sv_active_sessions :: nat
  sv_observers :: "nat option list"
  sv_observer_count :: nat
  sv_notified :: "(notification \<times> nat option list) list"

definition Server_new :: "UsbDevice list \<Rightarrow> server" where
  "Server_new devices =
     \<lparr>sv_running = False, sv_listening = False, sv_available = devices, sv_using = Map.empty,
      sv_sessions = [], sv_next_session_id = 1, sv_alive = [], sv_active_sessions = 0,
      sv_observers = replicate MAX_OBSERVERS None, sv_observer_count = 0, sv_notified = []\<rparr>"

section \<open>Observers\<close>

definition add_observer :: "nat option \<Rightarrow> server \<Rightarrow> server" where
  "add_observer observer s =
     (if observer = None then s
      else if observer \<in> set (take (sv_observer_count s) (sv_observers s)) then s
      else if MAX_OBSERVERS \<le> sv_observer_count s then s
      else s\<lparr>sv_observers := (sv_observers s)[sv_observer_count s := observer],
             sv_observer_count := sv_observer_count s + 1\<rparr>)"

fun observer_index :: "nat option \<Rightarrow> nat option list \<Rightarrow> nat option" where
  "observer_index o' [] = None"
| "observer_index o' (x # xs) = (if x = o' then Some 0 else map_option Suc (observer_index o' xs))"

definition remove_observer :: "nat option \<Rightarrow> server \<Rightarrow> server" where
  "remove_observer observer s =
     (case observer_index observer (take (sv_observer_count s) (sv_observers s)) of
        None \<Rightarrow> s
      | Some i \<Rightarrow>
          (let n = sv_observer_count s - 1
           in s\<lparr>sv_observers := ((sv_observers s)[i := sv_observers s ! n])[n := None],
                sv_observer_count := n\<rparr>))"

definition observer_snapshot :: "server \<Rightarrow> nat option list" where
  "observer_snapshot s = take (sv_observer_count s) (sv_observers s)"

definition notify :: "notification \<Rightarrow> server \<Rightarrow> server" where
  "notify n s = s\<lparr>sv_notified := sv_notified s @ [(n, observer_snapshot s)]\<rparr>"

section \<open>Device registry\<close>

definition has_bound_device :: "string \<Rightarrow> server \<Rightarrow> bool" where
  "has_bound_device busid s =
     ((\<exists>d \<in> set (sv_available s). ud_busid d = busid) \<or> sv_using s busid \<noteq> None)"

definition is_device_using :: "string \<Rightarrow> server \<Rightarrow> bool" where
  "is_device_using busid s = (sv_using s busid \<noteq> None)"

definition add_device :: "UsbDevice \<Rightarrow> server \<Rightarrow> AddDeviceStatus \<times> server" where
  "add_device device s =
     (if \<exists>d \<in> set (sv_available s). ud_busid d = ud_busid device then (AlreadyBound, s)
      else if sv_using s (ud_busid device) \<noteq> None then (InUse, s)
      else (Added, notify (On_device_added (ud_busid device))
              (s\<lparr>sv_available := sv_available s @ [device]\<rparr>)))"

definition detach_available_device :: "string \<Rightarrow> server \<Rightarrow> UsbDevice option \<times> server" where
  "detach_available_device busid s =
     (case find (\<lambda>d. ud_busid d = busid) (sv_available s) of
        None \<Rightarrow> (None, s)
      | Some d \<Rightarrow>
          (Some d, notify (On_device_released busid DeviceRemoved)
             (s\<lparr>sv_available := remove_first (\<lambda>d. ud_busid d = busid) (sv_available s)\<rparr>)))"

definition try_moving_device_to_using :: "string \<Rightarrow> server \<Rightarrow> UsbDevice option \<times> server" where
  "try_moving_device_to_using wanted_busid s =
     (case find (\<lambda>d. ud_busid d = wanted_busid) (sv_available s) of
        None \<Rightarrow> (None, s)
      | Some d \<Rightarrow>
          (Some d, s\<lparr>sv_using := (sv_using s)(wanted_busid \<mapsto> d),
             sv_available := remove_first (\<lambda>d. ud_busid d = wanted_busid) (sv_available s)\<rparr>))"

text \<open>\<open>is_device_removed\<close> of the handler is a parameter: the handlers are behind an
  interface.\<close>

definition release_device :: "(nat \<Rightarrow> bool) \<Rightarrow> string \<Rightarrow> server \<Rightarrow> server" where
  "release_device is_device_removed busid s =
     (case sv_using s busid of
        None \<Rightarrow> s
      | Some d \<Rightarrow>
          (if \<exists>h. ud_handler d = Some h \<and> is_device_removed h
           then notify (On_device_released busid DeviceRemoved)
                  (s\<lparr>sv_using := (sv_using s)(busid := None)\<rparr>)
           else notify (On_device_released busid
                    (if sv_running s then ClientDisconnected else ServerStopped))
                  (s\<lparr>sv_available := sv_available s @ [d],
                     sv_using := (sv_using s)(busid := None)\<rparr>)))"

section \<open>Sessions\<close>

definition get_session_count :: "server \<Rightarrow> nat" where
  "get_session_count s = length (sv_sessions s)"

definition remove_session :: "u64 \<Rightarrow> server \<Rightarrow> server" where
  "remove_session i s =
     (if i \<notin> set (sv_sessions s) then s
      else notify (On_session_ended i) (s\<lparr>sv_sessions := remove1 i (sv_sessions s)\<rparr>))"

text \<open>The destructor of a session, whose last statement is \<open>notify_session_destroyed\<close>.\<close>

definition destroy_session :: "u64 \<Rightarrow> server \<Rightarrow> server" where
  "destroy_session i s =
     s\<lparr>sv_alive := remove1 i (sv_alive s), sv_active_sessions := sv_active_sessions s - 1\<rparr>"

text \<open>The thread of a session ends: its body removes the session, then the last reference goes.\<close>

definition session_thread_ends :: "u64 \<Rightarrow> server \<Rightarrow> server" where
  "session_thread_ends i s = destroy_session i (remove_session i s)"

subsection \<open>The accept loop\<close>

datatype accept_error =
  Connection_reset | Connection_aborted | Interrupted | Invalid_argument | Other_accept_error

datatype loop_result = Continue_loop | Co_return

datatype run_result = Run_ok | Run_no_thread | Run_callback_threw

record accept_env =
  ae_error :: "accept_error option"
  ae_remote :: "(string \<times> u16) option"
  ae_filter :: "(string \<times> u16 \<Rightarrow> bool option) option"
  ae_emplace_ok :: bool
  ae_run :: run_result

fun decimal :: "nat \<Rightarrow> string" where
  "decimal n = (if n < 10 then [char_of (48 + n)] else decimal (n div 10) @ [char_of (48 + n mod 10)])"

declare decimal.simps [simp del]

definition endpoint_name :: "string \<times> u16 \<Rightarrow> string" where
  "endpoint_name e = fst e @ '':'' @ decimal (unat (snd e))"

text \<open>The top of an iteration: the session is created and counted.\<close>

definition accept_create :: "server \<Rightarrow> u64 option \<times> server" where
  "accept_create s =
     (if \<not> sv_running s then (None, s)
      else (Some (sv_next_session_id s),
            s\<lparr>sv_next_session_id := sv_next_session_id s + 1,
              sv_alive := sv_alive s @ [sv_next_session_id s],
              sv_active_sessions := sv_active_sessions s + 1\<rparr>))"

text \<open>The check before the accept is registered.\<close>

definition accept_check :: "u64 \<Rightarrow> server \<Rightarrow> loop_result \<times> server" where
  "accept_check i s =
     (if \<not> sv_running s then (Co_return, destroy_session i s) else (Continue_loop, s))"

definition connection_allowed :: "accept_env \<Rightarrow> string \<times> u16 \<Rightarrow> bool" where
  "connection_allowed e peer =
     (case ae_filter e of
        None \<Rightarrow> True
      | Some f \<Rightarrow> (case f peer of Some allowed \<Rightarrow> allowed | None \<Rightarrow> False))"

text \<open>The rest of an iteration, once the accept has completed. A session that is not run goes
  out of scope at the end of the iteration.\<close>

definition accept_complete :: "accept_env \<Rightarrow> u64 \<Rightarrow> server \<Rightarrow> loop_result \<times> server" where
  "accept_complete e i s =
     (case ae_error e of
        Some Other_accept_error \<Rightarrow> (Co_return, destroy_session i (s\<lparr>sv_listening := False\<rparr>))
      | Some _ \<Rightarrow> (Continue_loop, destroy_session i s)
      | None \<Rightarrow>
          if \<not> sv_running s then (Co_return, destroy_session i s)
          else
            (case ae_remote e of
               None \<Rightarrow> (Continue_loop, destroy_session i s)
             | Some peer \<Rightarrow>
                 if \<not> connection_allowed e peer \<or> \<not> ae_emplace_ok e
                 then (Continue_loop, destroy_session i s)
                 else
                   (let s1 = notify (On_session_started i (endpoint_name peer))
                               (s\<lparr>sv_sessions := List.insert i (sv_sessions s)\<rparr>)
                    in (Continue_loop,
                        case ae_run e of
                          Run_ok \<Rightarrow> s1
                        | Run_no_thread \<Rightarrow> destroy_session i (remove_session i s1)
                        | Run_callback_threw \<Rightarrow> remove_session i s1))))"

subsection \<open>Start and stop\<close>

datatype start_env = Start_ok | Start_setup_error | Start_endpoint_error | Start_thread_error

definition server_start :: "start_env \<Rightarrow> server \<Rightarrow> bool \<times> server" where
  "server_start e s =
     (if sv_running s then (True, s)
      else (case e of
              Start_ok \<Rightarrow> (True, s\<lparr>sv_running := True, sv_listening := True\<rparr>)
            | _ \<Rightarrow> (False, s\<lparr>sv_running := False, sv_listening := False\<rparr>)))"

text \<open>\<open>stop()\<close> up to the snapshot of the sessions it asks to stop.\<close>

definition server_stop_request :: "server \<Rightarrow> u64 list \<times> server" where
  "server_stop_request s =
     (if \<not> sv_running s then ([], s)
      else (filter (\<lambda>i. i \<in> set (sv_alive s)) (sv_sessions s),
            s\<lparr>sv_running := False, sv_listening := False\<rparr>))"

text \<open>The rest of \<open>stop()\<close>: it waits until no session object is left; until then it has no
  result.\<close>

definition server_stop_finish :: "server \<Rightarrow> server option" where
  "server_stop_finish s = (if sv_active_sessions s = 0 then Some (s\<lparr>sv_sessions := []\<rparr>) else None)"

section \<open>The registry as an interface\<close>

text \<open>What a session relies on: a device handed out is in use until it is given back, nobody else
  gets it meanwhile, and the other devices are not affected.\<close>

locale device_registry =
  fixes acquire :: "'k \<Rightarrow> 's \<Rightarrow> 'd option \<times> 's"
    and give_back :: "'k \<Rightarrow> 's \<Rightarrow> 's"
    and in_use :: "'k \<Rightarrow> 's \<Rightarrow> bool"
    and inv :: "'s \<Rightarrow> bool"
  assumes acquire_Some: "inv s \<Longrightarrow> acquire k s = (Some d, s') \<Longrightarrow>
      inv s' \<and> \<not> in_use k s \<and> (\<forall>j. in_use j s' \<longleftrightarrow> j = k \<or> in_use j s)"
    and acquire_None: "acquire k s = (None, s') \<Longrightarrow> s' = s"
    and give_back: "inv s \<Longrightarrow>
      inv (give_back k s) \<and> (\<forall>j. in_use j (give_back k s) \<longleftrightarrow> j \<noteq> k \<and> in_use j s)"
begin

lemma exclusive:
  assumes "inv s" and "acquire k s = (Some d, s')" and "acquire k s' = (r, s'')"
  shows "r = None"
  using acquire_Some[OF assms(1,2)] acquire_Some[of s' k _ s''] assms(3) by (cases r) auto

lemma acquire_then_give_back:
  assumes "inv s" and "acquire k s = (Some d, s')"
  shows "inv (give_back k s') \<and> (\<forall>j. in_use j (give_back k s') \<longleftrightarrow> in_use j s)"
  using acquire_Some[OF assms] give_back[of s' k] by auto

end

text \<open>The busids are unique over both lists, and the index of the devices in use is their busid.\<close>

definition registry_inv :: "server \<Rightarrow> bool" where
  "registry_inv s \<longleftrightarrow>
     distinct (map ud_busid (sv_available s)) \<and>
     (\<forall>b d. sv_using s b = Some d \<longrightarrow> ud_busid d = b \<and> b \<notin> ud_busid ` set (sv_available s))"

lemma notify_sel [simp]:
  "sv_running (notify n s) = sv_running s" "sv_listening (notify n s) = sv_listening s"
  "sv_available (notify n s) = sv_available s" "sv_using (notify n s) = sv_using s"
  "sv_sessions (notify n s) = sv_sessions s" "sv_alive (notify n s) = sv_alive s"
  "sv_next_session_id (notify n s) = sv_next_session_id s"
  "sv_active_sessions (notify n s) = sv_active_sessions s"
  "sv_observers (notify n s) = sv_observers s"
  "sv_observer_count (notify n s) = sv_observer_count s"
  "sv_notified (notify n s) = sv_notified s @ [(n, observer_snapshot s)]"
  by (simp_all add: notify_def)

lemma registry_inv_cong:
  "sv_available s' = sv_available s \<Longrightarrow> sv_using s' = sv_using s \<Longrightarrow> registry_inv s' = registry_inv s"
  by (simp add: registry_inv_def)

lemma registry_inv_notify [simp]: "registry_inv (notify n s) = registry_inv s"
  by (rule registry_inv_cong) simp_all

lemma registry_add_device:
  "registry_inv s \<Longrightarrow> registry_inv (snd (add_device d s))"
  by (auto simp: add_device_def registry_inv_def)

lemma registry_without:
  assumes "registry_inv s"
  shows "distinct (map ud_busid (remove_first (\<lambda>d. ud_busid d = b) (sv_available s)))"
    and "ud_busid ` set (remove_first (\<lambda>d. ud_busid d = b) (sv_available s)) =
         ud_busid ` set (sv_available s) - {b}"
  using assms by (auto simp: registry_inv_def distinct_map_remove_first set_remove_first_key)

lemma registry_detach:
  "registry_inv s \<Longrightarrow> registry_inv (snd (detach_available_device b s))"
  using registry_without[of s b]
  by (auto simp: detach_available_device_def split: option.splits) (auto simp: registry_inv_def)

lemma registry_move:
  assumes "registry_inv s" "try_moving_device_to_using b s = (Some d, s')"
  shows "registry_inv s' \<and> sv_using s b = None \<and> sv_using s' = (sv_using s)(b \<mapsto> d) \<and>
         d \<in> set (sv_available s) \<and> ud_busid d = b \<and> set (sv_available s') = set (sv_available s) - {d}"
proof -
  from assms(2) have f: "find (\<lambda>d. ud_busid d = b) (sv_available s) = Some d"
    and s': "s' = s\<lparr>sv_using := (sv_using s)(b \<mapsto> d),
                 sv_available := remove_first (\<lambda>d. ud_busid d = b) (sv_available s)\<rparr>"
    by (auto simp: try_moving_device_to_using_def split: option.splits)
  from find_SomeD[OF f] have d: "d \<in> set (sv_available s)" "ud_busid d = b" by auto
  with assms(1) have "sv_using s b = None"
    by (cases "sv_using s b") (auto simp: registry_inv_def)
  moreover have "set (sv_available s') = set (sv_available s) - {d}"
    using assms(1) d s' by (auto simp: registry_inv_def set_remove_first_key distinct_map inj_on_def)
  moreover have "registry_inv s'"
    using assms(1) d s' registry_without[OF assms(1), of b] by (auto simp: registry_inv_def)
  ultimately show ?thesis using d s' by simp
qed

lemma registry_release:
  assumes "registry_inv s"
  shows "registry_inv (release_device removed b s) \<and>
         sv_using (release_device removed b s) = (sv_using s)(b := None)"
proof (cases "sv_using s b")
  case None
  then show ?thesis using assms by (auto simp: release_device_def)
next
  case (Some d)
  then show ?thesis using assms by (auto simp: release_device_def registry_inv_def)
qed

interpretation server_registry:
  device_registry try_moving_device_to_using "release_device removed" is_device_using registry_inv
proof (unfold_locales, goal_cases)
  case (1 s k d s')
  then show ?case using registry_move[of s k d s'] by (auto simp: is_device_using_def)
next
  case (2 k s s')
  then show ?case by (auto simp: try_moving_device_to_using_def split: option.splits)
next
  case (3 s k)
  then show ?case using registry_release[of s removed k] by (auto simp: is_device_using_def)
qed

section \<open>Observers as a set\<close>

definition observers_inv :: "server \<Rightarrow> bool" where
  "observers_inv s \<longleftrightarrow>
     length (sv_observers s) = MAX_OBSERVERS \<and> sv_observer_count s \<le> MAX_OBSERVERS \<and>
     distinct (observer_snapshot s) \<and> None \<notin> set (observer_snapshot s)"

lemma observers_inv_cong:
  "sv_observers s' = sv_observers s \<Longrightarrow> sv_observer_count s' = sv_observer_count s \<Longrightarrow>
   observers_inv s' = observers_inv s"
  by (simp add: observers_inv_def observer_snapshot_def)

lemma observer_index_Some:
  "observer_index x xs = Some i \<Longrightarrow> i < length xs \<and> xs ! i = x"
  by (induction xs arbitrary: i) (auto split: if_splits)

lemma observer_index_None: "observer_index x xs = None \<longleftrightarrow> x \<notin> set xs"
  by (induction xs) auto

lemma add_observer_spec:
  assumes "observers_inv s"
  shows "observers_inv (add_observer x s) \<and>
         set (observer_snapshot (add_observer x s)) =
           (if x = None \<or> MAX_OBSERVERS \<le> sv_observer_count s then set (observer_snapshot s)
            else insert x (set (observer_snapshot s)))"
proof (cases "x = None \<or> x \<in> set (observer_snapshot s) \<or> MAX_OBSERVERS \<le> sv_observer_count s")
  case True
  then have "add_observer x s = s" by (auto simp: add_observer_def observer_snapshot_def)
  with True assms show ?thesis by (auto simp: observers_inv_def)
next
  case False
  then have "add_observer x s = s\<lparr>sv_observers := (sv_observers s)[sv_observer_count s := x],
               sv_observer_count := sv_observer_count s + 1\<rparr>"
    by (auto simp: add_observer_def observer_snapshot_def)
  moreover from this have "observer_snapshot (add_observer x s) = observer_snapshot s @ [x]"
    using False assms by (simp add: observer_snapshot_def observers_inv_def take_Suc_conv_app_nth)
  ultimately show ?thesis using False assms by (auto simp: observers_inv_def)
qed

lemma set_swap_last:
  assumes "distinct xs" "i < length xs"
  shows "distinct (take (length xs - 1) (xs[i := last xs])) \<and>
         set (take (length xs - 1) (xs[i := last xs])) = set xs - {xs ! i}"
proof (cases "i = length xs - 1")
  case True
  then show ?thesis using assms
    by (cases xs rule: rev_cases) (auto simp: nth_append)
next
  case False
  then obtain ys x where xs: "xs = ys @ [x]" using assms by (cases xs rule: rev_cases) auto
  with False assms have i: "i < length ys" by auto
  have "set (ys[i := x]) = insert x (set ys - {ys ! i})"
    using assms xs i set_update_distinct[of ys i x] by simp
  with xs i assms show ?thesis
    by (auto simp: nth_append list_update_append distinct_list_update)
qed

lemma remove_observer_spec:
  assumes "observers_inv s"
  shows "observers_inv (remove_observer x s) \<and>
         set (observer_snapshot (remove_observer x s)) = set (observer_snapshot s) - {x}"
proof (cases "observer_index x (observer_snapshot s)")
  case None
  then have "remove_observer x s = s" by (simp add: remove_observer_def observer_snapshot_def)
  with None assms show ?thesis by (simp add: observer_index_None)
next
  case (Some i)
  define n where "n = sv_observer_count s - 1"
  let ?xs = "observer_snapshot s"
  from observer_index_Some[OF Some] have i: "i < length ?xs" "?xs ! i = x" by auto
  have len: "length ?xs = sv_observer_count s"
    using assms by (simp add: observers_inv_def observer_snapshot_def)
  with i have n: "sv_observer_count s = Suc n" "n < length (sv_observers s)"
    using assms by (auto simp: n_def observers_inv_def)
  have r: "remove_observer x s =
      s\<lparr>sv_observers := ((sv_observers s)[i := sv_observers s ! n])[n := None], sv_observer_count := n\<rparr>"
    using Some by (simp add: remove_observer_def observer_snapshot_def n_def Let_def)
  have "last ?xs = sv_observers s ! n"
    using n by (simp add: observer_snapshot_def take_Suc_conv_app_nth)
  then have snap: "observer_snapshot (remove_observer x s) = take (length ?xs - 1) (?xs[i := last ?xs])"
    using n len r by (simp add: observer_snapshot_def take_update_swap min_def list_update_beyond)
  show ?thesis
    using set_swap_last[of ?xs i] assms i snap r n
    by (auto simp: observers_inv_def dest: in_set_takeD)
qed

section \<open>The server and its sessions as a transition system\<close>

text \<open>\<open>sy_accept\<close> is the session the frame of the accept coroutine holds, \<open>sy_threads\<close> are the
  sessions whose main thread has not ended. The guard of \<open>create\<close> says that the 64-bit identifiers
  are not exhausted.\<close>

record server_sys =
  sy_server :: server
  sy_accept :: "u64 option"
  sy_threads :: "u64 set"

definition accept_spawns :: "accept_env \<Rightarrow> server \<Rightarrow> bool" where
  "accept_spawns e s \<longleftrightarrow>
     ae_error e = None \<and> sv_running s \<and>
     (case ae_remote e of None \<Rightarrow> False | Some peer \<Rightarrow> connection_allowed e peer) \<and>
     ae_emplace_ok e \<and> ae_run e \<noteq> Run_no_thread"

text \<open>The operations that leave the sessions alone.\<close>

inductive registry_step :: "server \<Rightarrow> server \<Rightarrow> bool" where
  add: "registry_step s (snd (add_device d s))"
| detach: "registry_step s (snd (detach_available_device b s))"
| move: "registry_step s (snd (try_moving_device_to_using b s))"
| give_back: "registry_step s (release_device removed b s)"
| attached: "registry_step s (notify (On_device_attached b) s)"
| observe: "registry_step s (add_observer x s)"
| unobserve: "registry_step s (remove_observer x s)"
| start: "registry_step s (snd (server_start e s))"
| stop_request: "registry_step s (snd (server_stop_request s))"

inductive server_step :: "server_sys \<Rightarrow> server_sys \<Rightarrow> bool" where
  registry: "registry_step (sy_server y) s' \<Longrightarrow> server_step y (y\<lparr>sy_server := s'\<rparr>)"
| create: "sy_accept y = None \<Longrightarrow> unat (sv_next_session_id (sy_server y)) < 2 ^ 64 - 1 \<Longrightarrow>
    accept_create (sy_server y) = (Some i, s') \<Longrightarrow>
    server_step y (y\<lparr>sy_server := s', sy_accept := Some i\<rparr>)"
| check: "sy_accept y = Some i \<Longrightarrow> accept_check i (sy_server y) = (Co_return, s') \<Longrightarrow>
    server_step y (y\<lparr>sy_server := s', sy_accept := None\<rparr>)"
| complete: "sy_accept y = Some i \<Longrightarrow> accept_complete e i (sy_server y) = (r, s') \<Longrightarrow>
    server_step y (y\<lparr>sy_server := s', sy_accept := None,
      sy_threads := (if accept_spawns e (sy_server y) then insert i (sy_threads y)
                     else sy_threads y)\<rparr>)"
| thread_ends: "i \<in> sy_threads y \<Longrightarrow>
    server_step y (y\<lparr>sy_server := session_thread_ends i (sy_server y),
      sy_threads := sy_threads y - {i}\<rparr>)"
| stop_finish: "server_stop_finish (sy_server y) = Some s' \<Longrightarrow>
    server_step y (y\<lparr>sy_server := s'\<rparr>)"

definition sys_init :: "UsbDevice list \<Rightarrow> server_sys" where
  "sys_init devices = \<lparr>sy_server = Server_new devices, sy_accept = None, sy_threads = {}\<rparr>"

text \<open>The session identifiers announced as started and as ended, in order.\<close>

fun started_ids :: "(notification \<times> nat option list) list \<Rightarrow> u64 list" where
  "started_ids [] = []"
| "started_ids ((On_session_started i p, os) # ns) = i # started_ids ns"
| "started_ids (n # ns) = started_ids ns"

fun ended_ids :: "(notification \<times> nat option list) list \<Rightarrow> u64 list" where
  "ended_ids [] = []"
| "ended_ids ((On_session_ended i, os) # ns) = i # ended_ids ns"
| "ended_ids (n # ns) = ended_ids ns"

lemma started_ids_append [simp]: "started_ids (xs @ ys) = started_ids xs @ started_ids ys"
  by (induction xs rule: started_ids.induct) auto

lemma ended_ids_append [simp]: "ended_ids (xs @ ys) = ended_ids xs @ ended_ids ys"
  by (induction xs rule: ended_ids.induct) auto

definition well_paired :: "(notification \<times> nat option list) list \<Rightarrow> bool" where
  "well_paired ns \<longleftrightarrow>
     distinct (started_ids ns) \<and> distinct (ended_ids ns) \<and>
     (\<forall>k. set (ended_ids (take k ns)) \<subseteq> set (started_ids (take k ns)))"

lemma well_paired_snoc:
  assumes "well_paired ns"
    and "distinct (started_ids (ns @ [x]))" and "distinct (ended_ids (ns @ [x]))"
    and "set (ended_ids (ns @ [x])) \<subseteq> set (started_ids (ns @ [x]))"
  shows "well_paired (ns @ [x])"
  using assms by (auto simp: well_paired_def take_Cons' split: if_splits)

text \<open>Sessions: every live object is held by the accept loop or by its thread and counted once;
  the table holds sessions with a thread; the table is what was announced as started and not yet as
  ended.\<close>

definition sess_ok :: "u64 option \<Rightarrow> u64 set \<Rightarrow> server \<Rightarrow> bool" where
  "sess_ok a ts s \<longleftrightarrow>
     distinct (sv_alive s) \<and> sv_active_sessions s = length (sv_alive s) \<and>
     set (sv_alive s) = set_option a \<union> ts \<and>
     set_option a \<inter> (ts \<union> set (started_ids (sv_notified s))) = {} \<and>
     distinct (sv_sessions s) \<and> set (sv_sessions s) \<subseteq> ts \<and>
     (\<forall>i \<in> set (sv_alive s) \<union> set (started_ids (sv_notified s)).
        unat i < unat (sv_next_session_id s)) \<and>
     set (sv_sessions s) = set (started_ids (sv_notified s)) - set (ended_ids (sv_notified s)) \<and>
     well_paired (sv_notified s)"

lemma sess_ok_init: "sess_ok None {} (Server_new ds)"
  by (simp add: sess_ok_def Server_new_def well_paired_def)

lemma well_paired_subset: "well_paired ns \<Longrightarrow> set (ended_ids ns) \<subseteq> set (started_ids ns)"
  unfolding well_paired_def by (metis order_refl take_all)

lemma well_paired_other:
  assumes "well_paired ns" "\<forall>i p. n \<noteq> On_session_started i p" "\<forall>i. n \<noteq> On_session_ended i"
  shows "started_ids (ns @ [(n, os)]) = started_ids ns \<and> ended_ids (ns @ [(n, os)]) = ended_ids ns \<and>
         well_paired (ns @ [(n, os)])"
proof -
  have "started_ids [(n, os)] = [] \<and> ended_ids [(n, os)] = []"
    using assms(2,3) by (cases n) auto
  then have ids: "started_ids (ns @ [(n, os)]) = started_ids ns"
      "ended_ids (ns @ [(n, os)]) = ended_ids ns" by simp_all
  moreover have "well_paired (ns @ [(n, os)])"
    by (rule well_paired_snoc[OF assms(1)], unfold ids)
       (use assms(1) well_paired_subset[OF assms(1)] in \<open>simp_all add: well_paired_def\<close>)
  ultimately show ?thesis by simp
qed

lemma sess_ok_cong:
  assumes "sess_ok a ts s"
    and "sv_alive s' = sv_alive s" "sv_active_sessions s' = sv_active_sessions s"
    and "sv_sessions s' = sv_sessions s" "sv_next_session_id s' = sv_next_session_id s"
    and "sv_notified s' = sv_notified s"
  shows "sess_ok a ts s'"
  using assms(1) unfolding sess_ok_def assms(2-6) .

lemma sess_ok_notify:
  assumes "sess_ok a ts s" "\<forall>i p. n \<noteq> On_session_started i p" "\<forall>i. n \<noteq> On_session_ended i"
  shows "sess_ok a ts (notify n s)"
proof -
  from assms(1) have "well_paired (sv_notified s)" by (simp add: sess_ok_def)
  note o = well_paired_other[OF this assms(2,3), of "observer_snapshot s"]
  then show ?thesis using assms(1) unfolding sess_ok_def notify_sel by metis
qed

lemma registry_step_sessions:
  assumes "registry_step s s'" "sess_ok a ts s"
  shows "sess_ok a ts s'"
  using assms
  by (cases rule: registry_step.cases)
     (auto intro!: sess_ok_notify elim!: sess_ok_cong simp: add_device_def detach_available_device_def
        try_moving_device_to_using_def release_device_def add_observer_def remove_observer_def
        server_start_def server_stop_request_def Let_def split: option.splits start_env.splits)

lemma sess_ok_create:
  assumes "sess_ok None ts s" "unat (sv_next_session_id s) < 2 ^ 64 - 1"
    "accept_create s = (Some i, s')"
  shows "sess_ok (Some i) ts s'"
proof -
  have i: "i = sv_next_session_id s" and
    s': "s' = s\<lparr>sv_next_session_id := i + 1, sv_alive := sv_alive s @ [i],
               sv_active_sessions := sv_active_sessions s + 1\<rparr>"
    using assms(3) by (auto simp: accept_create_def split: if_splits)
  have u: "unat (i + 1) = unat i + 1"
    using assms(2) i by (simp add: unat_word_ariths)
  show ?thesis
    using assms(1) s' u i unfolding sess_ok_def by (auto simp: less_Suc_eq)
qed

lemma sess_ok_destroy:
  assumes "sess_ok a ts s" "i \<in> set (sv_alive s)" "i \<notin> set (sv_sessions s)"
  shows "sess_ok (if a = Some i then None else a) (ts - {i}) (destroy_session i s)"
  using assms unfolding sess_ok_def destroy_session_def
  by (auto simp: length_remove1 Suc_diff_1)

lemma sess_ok_drop:
  assumes "sess_ok (Some i) ts s"
  shows "sess_ok None ts (destroy_session i s)"
proof -
  have "i \<in> set (sv_alive s)" "i \<notin> set (sv_sessions s)" "i \<notin> ts"
    using assms by (auto simp: sess_ok_def)
  with sess_ok_destroy[OF assms, of i] show ?thesis by simp
qed

lemma sess_ok_register:
  assumes "sess_ok (Some i) ts s"
  shows "sess_ok None (insert i ts)
           (notify (On_session_started i p) (s\<lparr>sv_sessions := List.insert i (sv_sessions s)\<rparr>))"
proof -
  have new: "i \<notin> ts" "i \<notin> set (started_ids (sv_notified s))" "i \<notin> set (sv_sessions s)"
    and wp: "well_paired (sv_notified s)"
    using assms by (auto simp: sess_ok_def)
  have "i \<notin> set (ended_ids (sv_notified s))" using new(2) well_paired_subset[OF wp] by auto
  moreover have "well_paired (sv_notified s @ [(On_session_started i p, observer_snapshot s)])"
    by (rule well_paired_snoc[OF wp])
       (use wp new well_paired_subset[OF wp] in \<open>auto simp: well_paired_def\<close>)
  moreover have "observer_snapshot (s\<lparr>sv_sessions := List.insert i (sv_sessions s)\<rparr>) = observer_snapshot s"
    by (simp add: observer_snapshot_def)
  ultimately show ?thesis
    using assms new unfolding sess_ok_def by auto
qed

lemma sess_ok_remove:
  assumes "sess_ok a ts s"
  shows "sess_ok a ts (remove_session i s) \<and> i \<notin> set (sv_sessions (remove_session i s))"
proof (cases "i \<in> set (sv_sessions s)")
  case False
  then show ?thesis using assms by (simp add: remove_session_def)
next
  case True
  have wp: "well_paired (sv_notified s)" using assms by (simp add: sess_ok_def)
  have i: "i \<in> set (started_ids (sv_notified s))" "i \<notin> set (ended_ids (sv_notified s))"
    using assms True by (auto simp: sess_ok_def)
  have "well_paired (sv_notified s @ [(On_session_ended i, observer_snapshot s)])"
    by (rule well_paired_snoc[OF wp])
       (use wp i well_paired_subset[OF wp] in \<open>auto simp: well_paired_def\<close>)
  moreover have "observer_snapshot (s\<lparr>sv_sessions := remove1 i (sv_sessions s)\<rparr>) = observer_snapshot s"
    by (simp add: observer_snapshot_def)
  ultimately show ?thesis
    using assms True i unfolding sess_ok_def remove_session_def by (auto simp: set_remove1_eq)
qed

lemma remove_session_alive [simp]: "sv_alive (remove_session i s) = sv_alive s"
  by (simp add: remove_session_def)

lemma sess_ok_thread_ends:
  assumes "sess_ok a ts s" "i \<in> ts"
  shows "sess_ok a (ts - {i}) (session_thread_ends i s)"
proof -
  have "a \<noteq> Some i" "i \<in> set (sv_alive s)" using assms by (auto simp: sess_ok_def)
  then show ?thesis
    using sess_ok_destroy[of a ts "remove_session i s" i] sess_ok_remove[OF assms(1), of i]
    by (simp add: session_thread_ends_def)
qed

lemma sess_ok_complete:
  assumes "sess_ok (Some i) ts s" "accept_complete e i s = (r, s')"
  shows "sess_ok None (if accept_spawns e s then insert i ts else ts) s'"
proof -
  have d: "sess_ok None ts (destroy_session i s)"
      "sess_ok None ts (destroy_session i (s\<lparr>sv_listening := False\<rparr>))"
    using assms(1) sess_ok_drop[of i ts] sess_ok_cong[OF assms(1), of "s\<lparr>sv_listening := False\<rparr>"]
    by auto
  show ?thesis
  proof (cases "ae_error e = None \<and> sv_running s \<and>
      (\<exists>peer. ae_remote e = Some peer \<and> connection_allowed e peer) \<and> ae_emplace_ok e")
    case False
    then have "s' \<in> {destroy_session i s, destroy_session i (s\<lparr>sv_listening := False\<rparr>)}"
      using assms(2) by (auto simp: accept_complete_def split: option.splits accept_error.splits if_splits)
    moreover have "\<not> accept_spawns e s"
      using False by (auto simp: accept_spawns_def split: option.splits)
    ultimately show ?thesis using d by auto
  next
    case True
    then obtain p where s': "s' = (let s1 = notify (On_session_started i p)
                       (s\<lparr>sv_sessions := List.insert i (sv_sessions s)\<rparr>)
        in case ae_run e of Run_ok \<Rightarrow> s1 | Run_no_thread \<Rightarrow> destroy_session i (remove_session i s1)
           | Run_callback_threw \<Rightarrow> remove_session i s1)"
      using assms(2) by (auto simp: accept_complete_def Let_def)
    note s1 = sess_ok_register[OF assms(1), of p]
    have sp: "accept_spawns e s \<longleftrightarrow> ae_run e \<noteq> Run_no_thread"
      using True by (auto simp: accept_spawns_def)
    have "insert i ts - {i} = ts" using assms(1) by (auto simp: sess_ok_def)
    with sp s' s1 sess_ok_remove[OF s1] sess_ok_thread_ends[OF s1, of i] show ?thesis
      by (cases "ae_run e") (simp_all add: session_thread_ends_def)
  qed
qed

lemma server_step_sessions:
  assumes "server_step y y'" "sess_ok (sy_accept y) (sy_threads y) (sy_server y)"
  shows "sess_ok (sy_accept y') (sy_threads y') (sy_server y')"
  using assms
proof (cases rule: server_step.cases)
  case (registry s')
  then show ?thesis using assms(2) registry_step_sessions by simp
next
  case (create i s')
  then show ?thesis using assms(2) sess_ok_create[of _ "sy_server y" i s'] by simp
next
  case (check i s')
  then show ?thesis using assms(2) sess_ok_drop[of i]
    by (auto simp: accept_check_def split: if_splits)
next
  case (complete i e r s')
  then show ?thesis using assms(2) sess_ok_complete[of i _ "sy_server y" e r s'] by simp
next
  case (thread_ends i)
  then show ?thesis using assms(2) sess_ok_thread_ends by simp
next
  case (stop_finish s')
  then have s': "s' = (sy_server y)\<lparr>sv_sessions := []\<rparr>" and "sv_alive (sy_server y) = []"
    using assms(2) by (auto simp: server_stop_finish_def sess_ok_def split: if_splits)
  then have "set (sv_sessions (sy_server y)) \<subseteq> {}" using assms(2) by (auto simp: sess_ok_def)
  then have "sv_sessions (sy_server y) = []" by simp
  then show ?thesis using stop_finish s' sess_ok_cong[OF assms(2), of s'] by simp
qed

lemma server_reachable_sessions:
  assumes "server_step\<^sup>*\<^sup>* (sys_init ds) y"
  shows "sess_ok (sy_accept y) (sy_threads y) (sy_server y)"
  using assms
proof (induction rule: rtranclp_induct)
  case base
  then show ?case by (simp add: sys_init_def sess_ok_init)
next
  case (step y z)
  then show ?case using server_step_sessions by blast
qed

lemma destroy_remove_registry [simp]:
  "registry_inv (destroy_session i s) = registry_inv s"
  "registry_inv (remove_session i s) = registry_inv s"
  "observers_inv (destroy_session i s) = observers_inv s"
  "observers_inv (remove_session i s) = observers_inv s"
  by (auto simp: destroy_session_def remove_session_def
      intro!: registry_inv_cong observers_inv_cong)

lemma observers_inv_notify [simp]: "observers_inv (notify n s) = observers_inv s"
  by (rule observers_inv_cong) simp_all

lemma registry_step_registry:
  assumes "registry_step s s'" "registry_inv s"
  shows "registry_inv s'"
  using assms
proof (cases rule: registry_step.cases)
  case (add d)
  then show ?thesis using assms registry_add_device by simp
next
  case (detach b)
  then show ?thesis using assms registry_detach by simp
next
  case (move b)
  obtain r t where t: "try_moving_device_to_using b s = (r, t)" by fastforce
  then have "registry_inv t"
    using assms(2) registry_move[of s b _ t] server_registry.acquire_None[of b s t] by (cases r) auto
  with t move show ?thesis by simp
next
  case (give_back removed b)
  then show ?thesis using assms registry_release by simp
qed (auto simp: registry_inv_def add_observer_def remove_observer_def server_start_def
      server_stop_request_def Let_def split: option.splits start_env.splits)

lemma registry_step_observers:
  assumes "registry_step s s'" "observers_inv s"
  shows "observers_inv s'"
  using assms
proof (cases rule: registry_step.cases)
  case (observe x)
  then show ?thesis using assms add_observer_spec by simp
next
  case (unobserve x)
  then show ?thesis using assms remove_observer_spec by simp
qed (auto simp: observers_inv_def observer_snapshot_def add_device_def detach_available_device_def
      try_moving_device_to_using_def release_device_def server_start_def server_stop_request_def
      split: option.splits start_env.splits)

text \<open>The session operations touch neither the registry nor the observers.\<close>

lemma session_ops_frame:
  "sv_available (snd (accept_complete e i s)) = sv_available s"
  "sv_using (snd (accept_complete e i s)) = sv_using s"
  "sv_observers (snd (accept_complete e i s)) = sv_observers s"
  "sv_observer_count (snd (accept_complete e i s)) = sv_observer_count s"
  by (simp_all add: accept_complete_def Let_def destroy_session_def remove_session_def
      split: option.split accept_error.split run_result.split)

lemma server_step_frame:
  assumes "server_step y y'"
  shows "registry_step (sy_server y) (sy_server y') \<or>
         sv_available (sy_server y') = sv_available (sy_server y) \<and>
         sv_using (sy_server y') = sv_using (sy_server y) \<and>
         sv_observers (sy_server y') = sv_observers (sy_server y) \<and>
         sv_observer_count (sy_server y') = sv_observer_count (sy_server y)"
  using assms
proof (cases rule: server_step.cases)
  case (complete i e r s')
  then show ?thesis using session_ops_frame[of e i "sy_server y"] by simp
qed (auto simp: accept_create_def accept_check_def destroy_session_def session_thread_ends_def
      remove_session_def server_stop_finish_def split: if_splits)

lemma server_reachable_registry:
  assumes "server_step\<^sup>*\<^sup>* (sys_init ds) y" "distinct (map ud_busid ds)"
  shows "registry_inv (sy_server y) \<and> observers_inv (sy_server y)"
  using assms(1)
proof (induction rule: rtranclp_induct)
  case base
  show ?case using assms(2)
    by (simp add: sys_init_def Server_new_def registry_inv_def observers_inv_def observer_snapshot_def)
next
  case (step y z)
  then show ?case
    using server_step_frame[OF step.hyps(2)] registry_step_registry registry_step_observers
      registry_inv_cong observers_inv_cong by metis
qed

section \<open>Properties\<close>

text \<open>However the server is used, no two exported devices share a busid, whether available
  or in use, a device in use is indexed by its own busid, and \<open>add_device\<close> adds a device exactly
  when no device with its busid is bound, saying otherwise whether that one is free or taken.
  The devices given to the constructor must have distinct busids, which it does not check.\<close>

theorem server_busid_unique:
  assumes "server_step\<^sup>*\<^sup>* (sys_init ds) y" "distinct (map ud_busid ds)"
  shows "distinct (map ud_busid (sv_available (sy_server y))) \<and>
         (\<forall>b d. sv_using (sy_server y) b = Some d \<longrightarrow>
            ud_busid d = b \<and> b \<notin> ud_busid ` set (sv_available (sy_server y))) \<and>
         fst (add_device d (sy_server y)) =
           (if \<not> has_bound_device (ud_busid d) (sy_server y) then Added
            else if is_device_using (ud_busid d) (sy_server y) then InUse else AlreadyBound)"
proof -
  from server_reachable_registry[OF assms] have r: "registry_inv (sy_server y)" by simp
  then have "ud_busid e \<noteq> ud_busid d"
    if "sv_using (sy_server y) (ud_busid d) = Some a" "e \<in> set (sv_available (sy_server y))" for a e
    using that unfolding registry_inv_def by (metis imageI)
  then have "fst (add_device d (sy_server y)) =
           (if \<not> has_bound_device (ud_busid d) (sy_server y) then Added
            else if is_device_using (ud_busid d) (sy_server y) then InUse else AlreadyBound)"
    by (cases "sv_using (sy_server y) (ud_busid d)")
       (auto simp: add_device_def has_bound_device_def is_device_using_def)
  with r show ?thesis by (simp add: registry_inv_def)
qed

theorem server_busid_unique_witness:
  "fst (add_device sample_device (Server_new [sample_device])) = AlreadyBound"
  using server_busid_unique[of "[sample_device]" "sys_init [sample_device]" sample_device]
  by (simp add: sys_init_def Server_new_def has_bound_device_def is_device_using_def)

text \<open>C8: A device is handed to one session at a time. When \<open>try_moving_device_to_using\<close> succeeds
  it returns the device with the busid asked for, which was not in use and is now, no other device
  changes state, a second attempt finds nothing, and \<open>release_device\<close> makes the device available again
  unless its handler reports it as removed, in which case it is dropped.\<close>

theorem server_import_exclusive:
  assumes "server_step\<^sup>*\<^sup>* (sys_init ds) y" "distinct (map ud_busid ds)"
    and "try_moving_device_to_using b (sy_server y) = (Some d, s1)"
  shows "ud_busid d = b \<and> \<not> is_device_using b (sy_server y) \<and>
         (\<forall>c. is_device_using c s1 \<longleftrightarrow> c = b \<or> is_device_using c (sy_server y)) \<and>
         fst (try_moving_device_to_using b s1) = None \<and>
         (\<forall>c. is_device_using c (release_device removed b s1) \<longleftrightarrow> is_device_using c (sy_server y)) \<and>
         set (sv_available (release_device removed b s1)) =
           set (sv_available (sy_server y)) -
             (if \<exists>h. ud_handler d = Some h \<and> removed h then {d} else {})"
proof -
  from server_reachable_registry[OF assms(1,2)] have r: "registry_inv (sy_server y)" by simp
  note m = registry_move[OF r assms(3)]
  note a = server_registry.acquire_Some[OF r assms(3)]
  have "fst (try_moving_device_to_using b s1) = None"
    using server_registry.exclusive[OF r assms(3), of "fst (try_moving_device_to_using b s1)"
        "snd (try_moving_device_to_using b s1)"] by simp
  moreover have "set (sv_available (release_device removed b s1)) =
           set (sv_available (sy_server y)) -
             (if \<exists>h. ud_handler d = Some h \<and> removed h then {d} else {})"
    using m by (auto simp: release_device_def)
  ultimately show ?thesis
    using m a server_registry.acquire_then_give_back[OF r assms(3), of removed] by simp
qed

theorem server_import_exclusive_witness:
  "fst (try_moving_device_to_using ''1-1''
     (snd (try_moving_device_to_using ''1-1'' (Server_new [sample_device])))) = None"
  using server_import_exclusive[of "[sample_device]" "sys_init [sample_device]" "''1-1''" sample_device
      "snd (try_moving_device_to_using ''1-1'' (Server_new [sample_device]))"]
  by (simp add: sys_init_def Server_new_def try_moving_device_to_using_def sample_device_def
      UsbDevice_make_def)



text \<open>The observers behave as a set of at most eight: registering adds an observer unless it is
  null, registered already or the table is full, removing takes it out, and every notification
  is delivered once to each registered observer and to nobody else, never to a null pointer.\<close>

theorem server_observers:
  assumes "server_step\<^sup>*\<^sup>* (sys_init ds) y" "distinct (map ud_busid ds)"
  shows "length (observer_snapshot (sy_server y)) \<le> MAX_OBSERVERS \<and>
         distinct (observer_snapshot (sy_server y)) \<and> None \<notin> set (observer_snapshot (sy_server y)) \<and>
         sv_notified (notify n (sy_server y)) =
           sv_notified (sy_server y) @ [(n, observer_snapshot (sy_server y))] \<and>
         set (observer_snapshot (add_observer x (sy_server y))) =
           (if x = None \<or> MAX_OBSERVERS \<le> length (observer_snapshot (sy_server y))
            then set (observer_snapshot (sy_server y))
            else insert x (set (observer_snapshot (sy_server y)))) \<and>
         set (observer_snapshot (remove_observer x (sy_server y))) =
           set (observer_snapshot (sy_server y)) - {x}"
proof -
  from server_reachable_registry[OF assms] have o: "observers_inv (sy_server y)" by simp
  then have "length (observer_snapshot (sy_server y)) = sv_observer_count (sy_server y)"
    by (simp add: observers_inv_def observer_snapshot_def)
  with o add_observer_spec[OF o, of x] remove_observer_spec[OF o, of x] show ?thesis
    by (simp add: observers_inv_def)
qed

theorem server_observers_witness:
  "set (observer_snapshot (add_observer (Some 3) (Server_new []))) = {Some 3}"
  using server_observers[of "[]" "sys_init []" "On_session_ended 1" "Some 3"]
  by (simp add: sys_init_def Server_new_def observer_snapshot_def MAX_OBSERVERS_def)

end
