(* ===== verification/Session_Model.thy ===== *)
theory Session_Model
  imports Server_Devices Protocol_Props
begin

text \<open>
  A client session (\<open>Session.h\<close>, \<open>Session.cpp\<close>): the double-buffered queue between the threads that
  produce responses and the sender thread, the receiver loop, and the life of a connection from
  the operation request to the release of the device. The queue is a transition system
  whose steps are the critical sections of the source. The device handler is behind an interface:
  its answers are functions of the calls it has received so far.
\<close>

section \<open>Outcomes\<close>

text \<open>A null dereference or an access outside a buffer has the outcome \<open>Bad_access\<close>; \<open>Fuel_out\<close> says
  that the iteration bound given to the receiver loop did not suffice.\<close>

datatype 'a run = Fuel_out | Bad_access | Returned 'a

fun run_bind :: "'a run \<Rightarrow> ('a \<Rightarrow> 'b run) \<Rightarrow> 'b run" where
  "run_bind Fuel_out f = Fuel_out"
| "run_bind Bad_access f = Bad_access"
| "run_bind (Returned x) f = f x"

fun run_of_option :: "'a option \<Rightarrow> 'a run" where
  "run_of_option None = Bad_access"
| "run_of_option (Some x) = Returned x"

lemma run_bind_Returned [simp]:
  "run_bind m f = Returned y \<longleftrightarrow> (\<exists>x. m = Returned x \<and> f x = Returned y)"
  by (cases m) auto

lemma run_of_option_Returned [simp]: "run_of_option m = Returned x \<longleftrightarrow> m = Some x"
  by (cases m) auto

section \<open>State\<close>

record 'tr Session =
  ss_write_buffer :: "'tr RetVariant list"
  ss_read_buffer :: "'tr RetVariant list"
  ss_has_data :: bool
  ss_should_immediately_stop :: bool
  ss_cmd_transferring :: bool
  ss_sender_done :: bool
  ss_import_device_id :: "string option"
  ss_import_device :: "UsbDevice option"
  ss_handler :: "nat option"
  ss_socket_shutdown :: bool
  ss_socket_closed :: bool

definition Session_new :: "'tr Session" where
  "Session_new =
     \<lparr>ss_write_buffer = [], ss_read_buffer = [], ss_has_data = False,
      ss_should_immediately_stop = False, ss_cmd_transferring = False, ss_sender_done = False,
      ss_import_device_id = None, ss_import_device = None, ss_handler = None,
      ss_socket_shutdown = False, ss_socket_closed = False\<rparr>"

lemma Session_new_sel [simp]:
  "ss_cmd_transferring Session_new = False" "ss_import_device_id Session_new = None"
  "ss_import_device Session_new = None"
  by (simp_all add: Session_new_def)

section \<open>The response queue\<close>

definition enqueue_ret_submit :: "'tr UsbIpRetSubmit \<Rightarrow> 'tr Session \<Rightarrow> 'tr Session" where
  "enqueue_ret_submit r s = s\<lparr>ss_write_buffer := ss_write_buffer s @ [Ret_Submit r]\<rparr>"

definition enqueue_ret_unlink :: "UsbIpRetUnlink \<Rightarrow> 'tr Session \<Rightarrow> 'tr Session" where
  "enqueue_ret_unlink r s = s\<lparr>ss_write_buffer := ss_write_buffer s @ [Ret_Unlink r]\<rparr>"

definition wakeup_sender :: "'tr Session \<Rightarrow> 'tr Session" where
  "wakeup_sender s = s\<lparr>ss_has_data := True\<rparr>"

definition submit_ret_submit :: "'tr UsbIpRetSubmit \<Rightarrow> 'tr Session \<Rightarrow> 'tr Session" where
  "submit_ret_submit r s = wakeup_sender (enqueue_ret_submit r s)"

definition submit_ret_unlink :: "UsbIpRetUnlink \<Rightarrow> 'tr Session \<Rightarrow> 'tr Session" where
  "submit_ret_unlink r s = wakeup_sender (enqueue_ret_unlink r s)"

definition immediately_stop :: "'tr Session \<Rightarrow> 'tr Session" where
  "immediately_stop s =
     (if ss_should_immediately_stop s then s
      else s\<lparr>ss_should_immediately_stop := True, ss_socket_shutdown := True\<rparr>)"

text \<open>\<open>sender_get_data\<close>: \<open>None\<close> while the wait on \<open>data_available_cv\<close> goes on.\<close>

definition sender_pop :: "'tr Session \<Rightarrow> 'tr RetVariant option \<times> 'tr Session" where
  "sender_pop s =
     (case ss_read_buffer s of
        [] \<Rightarrow> (None, s)
      | r # rs \<Rightarrow> (Some r, s\<lparr>ss_read_buffer := rs\<rparr>))"

definition sender_get_data :: "'tr Session \<Rightarrow> ('tr RetVariant option \<times> 'tr Session) option" where
  "sender_get_data s =
     (if ss_read_buffer s = []
      then (if ss_has_data s \<or> ss_should_immediately_stop s
            then Some (sender_pop
                   (if ss_write_buffer s \<noteq> []
                    then s\<lparr>ss_read_buffer := ss_write_buffer s, ss_write_buffer := ss_read_buffer s,
                           ss_has_data := False\<rparr>
                    else s))
            else None)
      else Some (sender_pop s))"

definition send_response :: "'tr RetVariant \<Rightarrow> tcp_out \<Rightarrow> (sys_error option \<times> tcp_out) option" where
  "send_response v w =
     (case v of
        Ret_Submit r \<Rightarrow> ret_submit_to_socket r w
      | Ret_Unlink r \<Rightarrow> Some (asio_write (ret_unlink_to_bytes r) w))"

text \<open>The sender thread: its program counter and one turn of its loop, split where it blocks.\<close>

datatype sender_pc = At_loop | At_get | At_end

definition sender_enter :: "'tr Session \<Rightarrow> sender_pc \<times> 'tr Session" where
  "sender_enter s =
     (if ss_should_immediately_stop s then (At_end, s\<lparr>ss_sender_done := True\<rparr>) else (At_get, s))"

definition sender_turn :: "'tr Session \<Rightarrow> tcp_out \<Rightarrow>
    ('tr RetVariant list \<times> sender_pc \<times> 'tr Session \<times> tcp_out) run option" where
  "sender_turn s w =
     (case sender_get_data s of
        None \<Rightarrow> None
      | Some (d, s1) \<Rightarrow>
          Some (if ss_should_immediately_stop s1
                then Returned ([], At_end, s1\<lparr>ss_sender_done := True\<rparr>, w)
                else (case d of
                        None \<Rightarrow> Returned ([], At_loop, s1, w)
                      | Some v \<Rightarrow>
                          run_bind (run_of_option (send_response v w)) (\<lambda>(err, w').
                            if err \<noteq> None
                            then Returned ([v], At_end,
                                   s1\<lparr>ss_should_immediately_stop := True, ss_socket_shutdown := True,
                                      ss_sender_done := True\<rparr>, w')
                            else Returned ([v], At_loop, s1, w')))))"

text \<open>The system of producers and sender. A producer enqueues under the lock and wakes the sender
  afterwards without it, so any number of producers may be between the two.\<close>

record 'tr queue_sys =
  qs_session :: "'tr Session"
  qs_pc :: sender_pc
  qs_out :: tcp_out
  qs_between :: nat
  qs_enqueued :: "'tr RetVariant list"
  qs_sent :: "'tr RetVariant list"

definition queue_init :: "tcp_out \<Rightarrow> 'tr queue_sys" where
  "queue_init w =
     \<lparr>qs_session = Session_new, qs_pc = At_loop, qs_out = w, qs_between = 0, qs_enqueued = [],
      qs_sent = []\<rparr>"

inductive queue_step :: "'tr queue_sys \<Rightarrow> 'tr queue_sys \<Rightarrow> bool" where
  enqueue_submit: "queue_step q (q\<lparr>qs_session := enqueue_ret_submit r (qs_session q),
     qs_enqueued := qs_enqueued q @ [Ret_Submit r], qs_between := qs_between q + 1\<rparr>)"
| enqueue_unlink: "queue_step q (q\<lparr>qs_session := enqueue_ret_unlink u (qs_session q),
     qs_enqueued := qs_enqueued q @ [Ret_Unlink u], qs_between := qs_between q + 1\<rparr>)"
| wakeup: "queue_step q (q\<lparr>qs_session := wakeup_sender (qs_session q),
     qs_between := qs_between q - 1\<rparr>)"
| stop: "queue_step q (q\<lparr>qs_session := immediately_stop (qs_session q)\<rparr>)"
| enter: "qs_pc q = At_loop \<Longrightarrow> sender_enter (qs_session q) = (pc, s') \<Longrightarrow>
     queue_step q (q\<lparr>qs_session := s', qs_pc := pc\<rparr>)"
| turn: "qs_pc q = At_get \<Longrightarrow> sender_turn (qs_session q) (qs_out q) = Some (Returned (vs, pc, s', w')) \<Longrightarrow>
     queue_step q (q\<lparr>qs_session := s', qs_pc := pc, qs_out := w', qs_sent := qs_sent q @ vs\<rparr>)"

text \<open>Order and wake-up. While the sender runs nothing is lost between the buffers; once it ends,
  what it had sent is a prefix. Responses waiting in the write buffer are announced by
  \<open>has_data\<close> or by a producer that still has to wake the sender.\<close>

definition queue_inv :: "'tr queue_sys \<Rightarrow> bool" where
  "queue_inv q \<longleftrightarrow>
     (\<exists>lost. qs_enqueued q =
        qs_sent q @ lost @ ss_read_buffer (qs_session q) @ ss_write_buffer (qs_session q) \<and>
        (lost \<noteq> [] \<longrightarrow> qs_pc q = At_end \<and> ss_should_immediately_stop (qs_session q))) \<and>
     (ss_write_buffer (qs_session q) \<noteq> [] \<longrightarrow>
        ss_has_data (qs_session q) \<or> 0 < qs_between q)"

lemma queue_inv_init: "queue_inv (queue_init w)"
  by (simp add: queue_inv_def queue_init_def Session_new_def)

lemma sender_pop_buffers:
  "sender_pop s = (d, s') \<Longrightarrow>
   ss_read_buffer s = (case d of None \<Rightarrow> [] | Some v \<Rightarrow> [v]) @ ss_read_buffer s' \<and>
   ss_write_buffer s' = ss_write_buffer s \<and> ss_has_data s' = ss_has_data s \<and>
   ss_should_immediately_stop s' = ss_should_immediately_stop s"
  by (auto simp: sender_pop_def split: list.splits)

lemma sender_get_data_buffers:
  assumes "sender_get_data s = Some (d, s')"
  shows "ss_read_buffer s @ ss_write_buffer s =
           (case d of None \<Rightarrow> [] | Some v \<Rightarrow> [v]) @ ss_read_buffer s' @ ss_write_buffer s' \<and>
         ss_should_immediately_stop s' = ss_should_immediately_stop s \<and>
         (ss_write_buffer s' \<noteq> [] \<longrightarrow> ss_write_buffer s' = ss_write_buffer s \<and> ss_has_data s' = ss_has_data s)"
  using assms sender_pop_buffers
  by (auto simp: sender_get_data_def split: if_splits option.splits dest!: sender_pop_buffers)

lemma sender_turn_buffers:
  assumes "sender_turn s w = Some (Returned (vs, pc, s', w'))"
  obtains lost where
    "ss_read_buffer s @ ss_write_buffer s = vs @ lost @ ss_read_buffer s' @ ss_write_buffer s'"
    "lost \<noteq> [] \<longrightarrow> pc = At_end \<and> ss_should_immediately_stop s'"
    "ss_write_buffer s' \<noteq> [] \<longrightarrow> ss_write_buffer s' = ss_write_buffer s \<and> ss_has_data s' = ss_has_data s"
proof -
  from assms obtain d s1 where g: "sender_get_data s = Some (d, s1)"
    by (auto simp: sender_turn_def split: option.splits)
  note b = sender_get_data_buffers[OF g]
  show thesis
  proof (cases "ss_should_immediately_stop s1")
    case True
    with assms g have "vs = []" "pc = At_end" "s' = s1\<lparr>ss_sender_done := True\<rparr>"
      by (auto simp: sender_turn_def)
    with b True show thesis by (intro that[of "case d of None \<Rightarrow> [] | Some v \<Rightarrow> [v]"]) auto
  next
    case False
    with assms g have "vs = (case d of None \<Rightarrow> [] | Some v \<Rightarrow> [v])"
      "ss_read_buffer s' = ss_read_buffer s1" "ss_write_buffer s' = ss_write_buffer s1"
      "ss_has_data s' = ss_has_data s1"
      by (auto simp: sender_turn_def split: option.splits if_splits)
    with b show thesis by (intro that[of "[]"]) auto
  qed
qed

lemma queue_step_inv:
  assumes "queue_step q q'" "queue_inv q"
  shows "queue_inv q'"
proof -
  from assms(2) obtain lost where
    l: "qs_enqueued q = qs_sent q @ lost @ ss_read_buffer (qs_session q) @ ss_write_buffer (qs_session q)"
       "lost \<noteq> [] \<longrightarrow> qs_pc q = At_end \<and> ss_should_immediately_stop (qs_session q)"
    and a: "ss_write_buffer (qs_session q) \<noteq> [] \<longrightarrow> ss_has_data (qs_session q) \<or> 0 < qs_between q"
    by (auto simp: queue_inv_def)
  from assms(1) show ?thesis
  proof (cases rule: queue_step.cases)
    case (turn vs pc s' w')
    from sender_turn_buffers[OF turn(3)] obtain lost' where
      t: "ss_read_buffer (qs_session q) @ ss_write_buffer (qs_session q) =
            vs @ lost' @ ss_read_buffer s' @ ss_write_buffer s'"
         "lost' \<noteq> [] \<longrightarrow> pc = At_end \<and> ss_should_immediately_stop s'"
         "ss_write_buffer s' \<noteq> [] \<longrightarrow>
            ss_write_buffer s' = ss_write_buffer (qs_session q) \<and> ss_has_data s' = ss_has_data (qs_session q)"
      by blast
    from l(2) turn(2) have "lost = []" by auto
    with t l a turn(1) show ?thesis
      unfolding queue_inv_def by (intro conjI exI[of _ lost']) auto
  next
    case (enter pc s')
    with l have "lost = []" by auto
    with enter l a show ?thesis
      by (auto simp: queue_inv_def sender_enter_def split: if_splits)
  qed (use l a in \<open>auto simp: queue_inv_def enqueue_ret_submit_def enqueue_ret_unlink_def
         wakeup_sender_def immediately_stop_def\<close>)
qed

lemma queue_reachable_inv: "queue_step\<^sup>*\<^sup>* (queue_init w) q \<Longrightarrow> queue_inv q"
  by (induction rule: rtranclp_induct) (auto intro: queue_step_inv queue_inv_init)

section \<open>The receiver loop\<close>

text \<open>What the session asks of the device handler, in order. Its answer to a URB depends on the calls
  made so far.\<close>

datatype 'tr handler_call =
  Receive_urb "'tr UsbIpCmdSubmit" UsbEndpoint "UsbInterface option"
| Handle_unlink u32 u32
| On_disconnection

datatype urb_result = Urb_ok | Urb_error ErrorType | Urb_throws

text \<open>The environment of a transfer phase: whether the sender thread can be created and how it
  ends, the values of \<open>should_immediately_stop\<close> that the two reads of an iteration see because of
  other threads, the answers of the handler, and what it does to the error code at the end.\<close>

record 'tr transfer_env =
  te_sender_thread :: bool
  te_sender_ec :: "ErrorType option"
  te_stops :: "nat \<Rightarrow> bool \<times> bool"
  te_urb :: "'tr handler_call list \<Rightarrow> urb_result"
  te_disconnect :: "ErrorType option \<Rightarrow> ErrorType option"
  te_removed :: "nat \<Rightarrow> bool"

definition real_ep :: "UsbIpHeaderBasic \<Rightarrow> u8" where
  "real_ep h = (if h_direction h = UsbIpDirection_Out then ucast (h_ep h) else ucast (h_ep h) OR 0x80)"

record 'tr receiver_state =
  rc_calls :: "'tr handler_call list"
  rc_ec :: "ErrorType option"
  rc_stop :: bool
  rc_threw :: bool

definition receiver_visit ::
    "'tr transfer_env \<Rightarrow> UsbDevice \<Rightarrow> 'tr CmdVariant \<Rightarrow> 'tr receiver_state \<Rightarrow> 'tr receiver_state" where
  "receiver_visit env dev cmd r =
     (case cmd of
        Cmd_Unlink c \<Rightarrow>
          r\<lparr>rc_calls := rc_calls r @ [Handle_unlink (cu_unlink_seqnum c) (h_seqnum (cu_header c))]\<rparr>
      | Cmd_Submit c \<Rightarrow>
          (case find_ep dev (real_ep (cs_header c)) of
             None \<Rightarrow> r
           | Some (ep, intf) \<Rightarrow>
               (let r1 = r\<lparr>rc_calls := rc_calls r @ [Receive_urb c ep intf]\<rparr>
                in case te_urb env (rc_calls r1) of
                     Urb_ok \<Rightarrow> r1
                   | Urb_error e \<Rightarrow> r1\<lparr>rc_ec := Some e, rc_stop := True\<rparr>
                   | Urb_throws \<Rightarrow> r1\<lparr>rc_threw := True\<rparr>)))"

text \<open>The loop of \<open>receiver\<close>, with the number of the iteration and an iteration bound.\<close>

fun receiver_loop ::
    "nat \<Rightarrow> nat \<Rightarrow> 'tr transfer_env \<Rightarrow> 'tr transfer_op \<Rightarrow> UsbDevice \<Rightarrow> tcp_in \<Rightarrow>
     'tr receiver_state \<Rightarrow> 'tr receiver_state run" where
  "receiver_loop 0 k env tr_op dev s r = Fuel_out"
| "receiver_loop (Suc n) k env tr_op dev s r =
     (if rc_stop r \<or> fst (te_stops env k) then Returned r
      else
        (case get_cmd_from_socket tr_op s of
           None \<Rightarrow> Bad_access
         | Some (Inl e) \<Rightarrow> Returned (r\<lparr>rc_ec := Some e\<rparr>)
         | Some (Inr (cmd, s')) \<Rightarrow>
             if snd (te_stops env k) then Returned r
             else (let r' = receiver_visit env dev cmd r
                   in if rc_threw r' then Returned r'
                      else receiver_loop n (Suc k) env tr_op dev s' r')))"

text \<open>The device goes back to the server: \<open>*current_import_device_id\<close> must be set.\<close>

definition session_release :: "(nat \<Rightarrow> bool) \<Rightarrow> server \<Rightarrow> 'tr Session \<Rightarrow> (server \<times> 'tr Session) run" where
  "session_release removed srv ss =
     (case ss_import_device_id ss of
        None \<Rightarrow> Bad_access
      | Some b \<Rightarrow> Returned (release_device removed b srv,
                    ss\<lparr>ss_import_device_id := None, ss_import_device := None\<rparr>))"

text \<open>\<open>receiver\<close> with the part of \<open>transfer_loop\<close> that makes up for it when it throws; both notify
  the handler, stop the sender and release the device. The operator is the one of the handler.\<close>

definition receiver ::
    "nat \<Rightarrow> 'tr transfer_env \<Rightarrow> (nat \<Rightarrow> 'tr transfer_op) \<Rightarrow> tcp_in \<Rightarrow> server \<Rightarrow> 'tr Session \<Rightarrow>
     ('tr handler_call list \<times> ErrorType option \<times> server \<times> 'tr Session) run" where
  "receiver fuel env ops s srv ss =
     (case (ss_import_device ss, ss_handler ss) of
        (Some dev, Some h) \<Rightarrow>
          run_bind (receiver_loop fuel 0 env (ops h) dev s
              \<lparr>rc_calls = [], rc_ec = None, rc_stop = ss_should_immediately_stop ss, rc_threw = False\<rparr>)
            (\<lambda>r. run_bind (session_release (te_removed env) srv
                   (ss\<lparr>ss_should_immediately_stop := True\<rparr>))
              (\<lambda>(srv', ss'). Returned
                 (rc_calls r @ [On_disconnection],
                  if rc_threw r then Some INTERNAL_ERROR else te_disconnect env (rc_ec r),
                  srv', ss')))
      | _ \<Rightarrow> Bad_access)"

text \<open>The second component of the result says that \<open>transfer_loop\<close> throws, which it does when
  the sender thread cannot be created.\<close>

definition transfer_loop ::
    "nat \<Rightarrow> 'tr transfer_env \<Rightarrow> (nat \<Rightarrow> 'tr transfer_op) \<Rightarrow> tcp_in \<Rightarrow> server \<Rightarrow> 'tr Session \<Rightarrow>
     ('tr handler_call list \<times> bool \<times> ErrorType option \<times> server \<times> 'tr Session) run" where
  "transfer_loop fuel env ops s srv ss =
     (if \<not> te_sender_thread env
      then run_bind (session_release (te_removed env) srv ss) (\<lambda>(srv', ss').
             Returned ([On_disconnection], True, None, srv', ss'))
      else
        run_bind (receiver fuel env ops s srv ss) (\<lambda>(calls, receiver_ec, srv', ss').
          Returned (calls, False,
            if te_sender_ec env \<noteq> None then te_sender_ec env else receiver_ec,
            srv',
            ss'\<lparr>ss_sender_done := True, ss_write_buffer := [], ss_read_buffer := [],
                ss_cmd_transferring := False\<rparr>)))"

section \<open>The operation phase\<close>

text \<open>The environment of an import: what other threads do to the server between the check and
  the move, and whether the handler fails to open the device.\<close>

record import_env =
  ie_between :: "server \<Rightarrow> server"
  ie_open_fails :: "nat \<Rightarrow> bool"
  ie_removed :: "nat \<Rightarrow> bool"

text \<open>The last byte of the client's busid is overwritten before it is read as a C string.\<close>

definition wanted_busid :: "data \<Rightarrow> string" where
  "wanted_busid b = buffer_string (b[31 := 0])"

definition import_reply :: "string \<Rightarrow> server \<Rightarrow> 'tr Session \<Rightarrow> OpRepImport \<times> server \<times> 'tr Session" where
  "import_reply busid srv ss =
     (case ss_import_device ss of
        Some dev \<Rightarrow> (op_rep_import_on_success dev, notify (On_device_attached busid) srv,
                     ss\<lparr>ss_cmd_transferring := True\<rparr>)
      | None \<Rightarrow> (op_rep_import_on_failure_with_status (op_status_code OpSt_NoDev), srv, ss))"

definition session_import ::
    "import_env \<Rightarrow> string \<Rightarrow> server \<Rightarrow> 'tr Session \<Rightarrow> (OpRepImport \<times> server \<times> 'tr Session) run" where
  "session_import env busid srv ss =
     (if is_device_using busid srv
      then Returned (op_rep_import_on_failure_with_status (op_status_code OpSt_NA), srv, ss)
      else
        (case try_moving_device_to_using busid (ie_between env srv) of
           (None, srv1) \<Rightarrow> Returned (import_reply busid srv1 ss)
         | (Some dev, srv1) \<Rightarrow>
             (case ud_handler dev of
                None \<Rightarrow> Bad_access
              | Some h \<Rightarrow>
                  if ie_open_fails env h
                  then Returned (op_rep_import_on_failure_with_status (op_status_code OpSt_NA),
                         release_device (ie_removed env) busid srv1,
                         ss\<lparr>ss_import_device_id := None, ss_import_device := None, ss_handler := None\<rparr>)
                  else Returned (import_reply busid srv1
                         (ss\<lparr>ss_import_device_id := Some busid, ss_import_device := Some dev,
                             ss_handler := Some h\<rparr>)))))"

definition close_socket :: "'tr Session \<Rightarrow> 'tr Session" where
  "close_socket ss = ss\<lparr>ss_socket_shutdown := True, ss_socket_closed := True\<rparr>"

text \<open>\<open>parse_op\<close>. When the transfer loop throws, the socket is left to the destructor of the
  session.\<close>

definition parse_op ::
    "nat \<Rightarrow> import_env \<Rightarrow> 'tr transfer_env \<Rightarrow> (nat \<Rightarrow> 'tr transfer_op) \<Rightarrow> tcp_in \<Rightarrow> tcp_out \<Rightarrow> server \<Rightarrow>
     'tr Session \<Rightarrow> ('tr handler_call list \<times> tcp_out \<times> server \<times> 'tr Session) run" where
  "parse_op fuel ienv tenv ops s w srv ss =
     (case get_op_from_socket s of
        Inl e \<Rightarrow> Returned ([], w, srv, close_socket ss)
      | Inr (Req_Devlist q, s1) \<Rightarrow>
          Returned ([],
            snd (asio_write (op_rep_devlist_to_bytes
                   (op_rep_devlist_create_from_devices (sv_available srv))) w),
            srv, close_socket ss)
      | Inr (Req_Import q, s1) \<Rightarrow>
          run_bind (session_import ienv (wanted_busid (rqi_busid q)) srv ss) (\<lambda>(rep, srv1, ss1).
            let (err, w1) = asio_write (op_rep_import_to_bytes rep) w
            in if \<not> ss_cmd_transferring ss1 then Returned ([], w1, srv1, close_socket ss1)
               else if err = None
               then run_bind (transfer_loop fuel tenv ops s1 srv1 ss1)
                      (\<lambda>(calls, threw, ec, srv2, ss2).
                         Returned (calls, w1, srv2, if threw then ss2 else close_socket ss2))
               else run_bind (session_release (te_removed tenv) srv1 ss1) (\<lambda>(srv2, ss2).
                      Returned ([On_disconnection], w1, srv2, close_socket ss2))))"

section \<open>Progress of the receiver\<close>

text \<open>A reader that only consumes input.\<close>

definition forward :: "'a reader \<Rightarrow> bool" where
  "forward rd \<longleftrightarrow> (\<forall>s x s'. rd s = Inr (x, s') \<longrightarrow> length (rx s') \<le> length (rx s))"

lemma forward_asio_read [intro!]: "forward (asio_read n)"
  by (auto simp: forward_def asio_read_def split: if_splits)

lemma forward_return [intro!]: "forward (rd_return x)"
  by (simp add: forward_def rd_return_def)

lemma forward_bind [intro!]: "forward m \<Longrightarrow> (\<And>x. forward (f x)) \<Longrightarrow> forward (rd_bind m f)"
  unfolding forward_def rd_bind_def by (fastforce split: sum.splits)

lemma forward_read_many [intro!]: "forward rd \<Longrightarrow> forward (read_many n rd)"
  by (induction n) auto

lemma forward_fields [intro!]: "forward (unsigned_integral_and_array_read_from_socket pad specs)"
  unfolding unsigned_integral_and_array_read_from_socket_def read_all_fields_on_def by auto

lemma forwardD: "forward rd \<Longrightarrow> rd s = Inr (x, s') \<Longrightarrow> length (rx s') \<le> length (rx s)"
  by (auto simp: forward_def)

lemma read_u32_consumes: "read_u32 s = Inr (x, s') \<Longrightarrow> length (rx s') < length (rx s)"
  by (auto simp: read_u32_def reader_defs asio_read_def split: if_splits)

lemma generic_recv_forward:
  assumes "generic_recv t len s = Some (Inr (t', s'))"
  shows "length (rx s') \<le> length (rx s)"
proof -
  let ?rd = "rd_bind (if 0 < len
                 then rd_bind (asio_read len) (\<lambda>b. rd_return (memcpy_at 0 b (gt_data t)))
                 else rd_return (gt_data t)) (\<lambda>d.
        rd_bind (read_many (length (gt_iso_descriptors t)) iso_from_socket) (\<lambda>isos.
        rd_return (t\<lparr>gt_data := d, gt_iso_descriptors := isos\<rparr>)))"
  have "forward ?rd" unfolding iso_from_socket_def by auto
  moreover have "?rd s = Inr (t', s')" using assms by (simp add: generic_recv_def split: if_splits)
  ultimately show ?thesis by (rule forwardD)
qed

lemma cmd_submit_finish_forward:
  assumes "cmd_submit_finish p fs s = Some (Inr (c, s'))"
    and "\<And>ep. get_operator_for_ep p ep = GenericTransferOperator"
  shows "length (rx s') \<le> length (rx s)"
  using assms(1)
  by (auto simp: cmd_submit_finish_def Let_def assms(2) split: if_splits option.splits sum.splits
      dest!: generic_recv_forward)

lemma get_cmd_consumes:
  assumes "get_cmd_from_socket p s = Some (Inr (cmd, s'))"
    and "\<And>ep. get_operator_for_ep p ep = GenericTransferOperator"
  shows "length (rx s') < length (rx s)"
proof -
  from assms(1) obtain c s1 where r: "read_u32 s = Inr (c, s1)"
    by (auto simp: get_cmd_from_socket_def split: sum.splits)
  have u: "forward (rd_bind cmd_unlink_from_socket
      (\<lambda>c. rd_return (Cmd_Unlink c :: GenericTransfer CmdVariant)))"
    unfolding cmd_unlink_from_socket_def by auto
  have "length (rx s') \<le> length (rx s1)"
  proof (cases "c = USBIP_CMD_SUBMIT")
    case True
    with assms(1) r obtain k where k: "cmd_submit_from_socket p s1 = Some (Inr (k, s'))"
      by (auto simp: get_cmd_from_socket_def split: option.splits sum.splits)
    then obtain fs s2 where "unsigned_integral_and_array_read_from_socket 0 cmd_submit_fixed_specs s1
        = Inr (fs, s2)" "cmd_submit_finish p fs s2 = Some (Inr (k, s'))"
      by (auto simp: cmd_submit_from_socket_def split: sum.splits)
    then show ?thesis
      using forwardD[OF forward_fields] cmd_submit_finish_forward[OF _ assms(2)] by fastforce
  next
    case False
    with assms(1) r have "rd_bind cmd_unlink_from_socket (\<lambda>c. rd_return (Cmd_Unlink c)) s1 = Inr (cmd, s')"
      by (auto simp: get_cmd_from_socket_def split: if_splits
          elim: catch_system_error.elims)
    then show ?thesis using forwardD[OF u] by simp
  qed
  with read_u32_consumes[OF r] show ?thesis by simp
qed

lemma receiver_loop_returns:
  assumes "length (rx s) < fuel" and "\<And>ep. get_operator_for_ep p ep = GenericTransferOperator"
  shows "\<exists>r'. receiver_loop fuel k env p dev s r = Returned r'"
  using assms(1)
proof (induction fuel arbitrary: k s r)
  case (Suc n)
  have safe: "get_cmd_from_socket p s \<noteq> None"
    using generic_operator.get_cmd_in_bounds[of p s] assms(2) by simp
  show ?case
  proof (cases "rc_stop r \<or> fst (te_stops env k)")
    case False
    from safe obtain res where res: "get_cmd_from_socket p s = Some res" by auto
    show ?thesis
    proof (cases res)
      case (Inr a)
      obtain cmd s' where a: "a = (cmd, s')" by (cases a)
      with Inr res have "length (rx s') < n"
        using get_cmd_consumes[OF _ assms(2), of s cmd s'] Suc.prems by simp
      then show ?thesis using False Inr a res Suc.IH[of s'] by (auto simp: Let_def)
    qed (use False res in auto)
  qed simp
qed simp

text \<open>The loop never notifies the disconnection itself.\<close>

lemma receiver_visit_calls:
  "On_disconnection \<notin> set (rc_calls r) \<Longrightarrow> On_disconnection \<notin> set (rc_calls (receiver_visit env dev cmd r))"
  by (auto simp: receiver_visit_def Let_def split: CmdVariant.splits option.splits urb_result.splits)

lemma receiver_loop_calls:
  "receiver_loop n k env p dev s r = Returned r' \<Longrightarrow> On_disconnection \<notin> set (rc_calls r) \<Longrightarrow>
   On_disconnection \<notin> set (rc_calls r')"
proof (induction n arbitrary: k s r)
  case (Suc n)
  show ?case
  proof (cases "rc_stop r \<or> fst (te_stops env k)")
    case False
    with Suc show ?thesis
      by (auto simp: Let_def split: if_splits option.splits sum.splits)
         (metis receiver_visit_calls)+
  qed (use Suc in simp)
qed simp

section \<open>The life of a session\<close>

lemma receiver_spec:
  assumes "receiver fuel env ops s srv ss = Returned (calls, ec, srv', ss')"
  shows "\<exists>b cs. ss_import_device_id ss = Some b \<and> srv' = release_device (te_removed env) b srv \<and>
           calls = cs @ [On_disconnection] \<and> On_disconnection \<notin> set cs \<and>
           ss_import_device_id ss' = None \<and> ss_import_device ss' = None"
  using assms
  by (auto simp: receiver_def session_release_def split: option.splits dest!: receiver_loop_calls)

lemma receiver_returns:
  assumes "length (rx s) < fuel" "\<And>h ep. get_operator_for_ep (ops h) ep = GenericTransferOperator"
    and "ss_import_device ss = Some dev" "ss_handler ss = Some h" "ss_import_device_id ss = Some b"
  shows "\<exists>x. receiver fuel env ops s srv ss = Returned x"
proof -
  obtain r where "receiver_loop fuel 0 env (ops h) dev s
      \<lparr>rc_calls = [], rc_ec = None, rc_stop = ss_should_immediately_stop ss, rc_threw = False\<rparr> = Returned r"
    using receiver_loop_returns[OF assms(1), of "ops h"] assms(2) by blast
  then show ?thesis using assms(3-5) by (simp add: receiver_def session_release_def)
qed

lemma transfer_loop_spec:
  assumes "transfer_loop fuel env ops s srv ss = Returned (calls, threw, ec, srv', ss')"
  shows "\<exists>b cs. ss_import_device_id ss = Some b \<and> srv' = release_device (te_removed env) b srv \<and>
           calls = cs @ [On_disconnection] \<and> On_disconnection \<notin> set cs \<and>
           ss_import_device_id ss' = None \<and> ss_import_device ss' = None"
proof (cases "te_sender_thread env")
  case False
  then show ?thesis using assms
    by (auto simp: transfer_loop_def session_release_def split: option.splits)
next
  case True
  with assms obtain ec0 ss0 where r: "receiver fuel env ops s srv ss = Returned (calls, ec0, srv', ss0)"
    and ss': "ss' = ss0\<lparr>ss_sender_done := True, ss_write_buffer := [], ss_read_buffer := [],
                ss_cmd_transferring := False\<rparr>"
    by (auto simp: transfer_loop_def)
  from receiver_spec[OF r] ss' show ?thesis by simp
qed

lemma transfer_loop_returns:
  assumes "length (rx s) < fuel" "\<And>h ep. get_operator_for_ep (ops h) ep = GenericTransferOperator"
    and "ss_import_device ss = Some dev" "ss_handler ss = Some h" "ss_import_device_id ss = Some b"
  shows "\<exists>x. transfer_loop fuel env ops s srv ss = Returned x"
proof -
  obtain x where "receiver fuel env ops s srv ss = Returned x"
    using receiver_returns[of s fuel ops ss dev h b env srv] assms by blast
  then show ?thesis using assms(5)
    by (cases x) (auto simp: transfer_loop_def session_release_def)
qed

text \<open>The outcomes of an import by a fresh session.\<close>

definition imported :: "string \<Rightarrow> UsbDevice \<Rightarrow> nat \<Rightarrow> 'tr Session \<Rightarrow> bool" where
  "imported b dev h ss \<longleftrightarrow>
     ss_import_device_id ss = Some b \<and> ss_import_device ss = Some dev \<and> ss_handler ss = Some h \<and>
     ss_cmd_transferring ss"

lemma session_import_cases:
  assumes "session_import env b srv Session_new = Returned (rep, srv', ss')"
  obtains (in_use) "is_device_using b srv" "rep = op_rep_import_on_failure_with_status (op_status_code OpSt_NA)"
      "srv' = srv" "ss' = Session_new"
  | (missing) "fst (try_moving_device_to_using b (ie_between env srv)) = None"
      "rep = op_rep_import_on_failure_with_status (op_status_code OpSt_NoDev)"
      "srv' = ie_between env srv" "ss' = Session_new"
  | (failed) dev srv1 where
      "try_moving_device_to_using b (ie_between env srv) = (Some dev, srv1)"
      "rep = op_rep_import_on_failure_with_status (op_status_code OpSt_NA)"
      "srv' = release_device (ie_removed env) b srv1" "ss' = Session_new"
  | (ok) dev srv1 h where
      "try_moving_device_to_using b (ie_between env srv) = (Some dev, srv1)"
      "rep = op_rep_import_on_success dev" "ud_handler dev = Some h" "\<not> ie_open_fails env h"
      "srv' = notify (On_device_attached b) srv1" "imported b dev h ss'"
proof (cases "is_device_using b srv")
  case True
  then show thesis
    by (intro in_use) (use assms in \<open>simp_all add: session_import_def\<close>)
next
  case False
  obtain d srv1 where t: "try_moving_device_to_using b (ie_between env srv) = (d, srv1)" by fastforce
  show thesis
  proof (cases d)
    case None
    with t have "srv1 = ie_between env srv"
      by (auto simp: try_moving_device_to_using_def split: option.splits)
    with None t False assms show thesis
      by (intro missing) (auto simp: session_import_def import_reply_def Session_new_def)
  next
    case (Some dev)
    with t False assms obtain h where h: "ud_handler dev = Some h"
      by (auto simp: session_import_def split: option.splits)
    show thesis
    proof (cases "ie_open_fails env h")
      case True
      with h Some t False assms show thesis
        by (intro failed[of dev srv1]) (auto simp: session_import_def Session_new_def)
    next
      case False
      with h Some t \<open>\<not> is_device_using b srv\<close> assms show thesis
        by (intro ok[of dev srv1 h]) (auto simp: session_import_def import_reply_def imported_def)
    qed
  qed
qed

text \<open>Whatever the outcome, after the release the devices in use are those from before the move.\<close>

lemma moved_then_released:
  assumes "registry_inv s0" "try_moving_device_to_using b s0 = (Some dev, s1)"
  shows "registry_inv (release_device removed b s1) \<and> registry_inv (notify n s1) \<and>
         registry_inv (release_device removed b (notify n s1)) \<and>
         (\<forall>c. is_device_using c (release_device removed b s1) \<longleftrightarrow> is_device_using c s0) \<and>
         (\<forall>c. is_device_using c (release_device removed b (notify n s1)) \<longleftrightarrow> is_device_using c s0)"
proof -
  note m = registry_move[OF assms]
  then have "registry_inv (notify n s1)" by simp
  from registry_release[OF this, of removed b] m
    server_registry.acquire_then_give_back[OF assms, of removed]
  show ?thesis by (auto simp: is_device_using_def)
qed

lemma get_op_forward:
  assumes "get_op_from_socket s = Inr (r, s')"
  shows "length (rx s') \<le> length (rx s)"
proof -
  have u: "forward read_u16" "forward (rd_bind op_req_devlist_from_socket (\<lambda>r. rd_return (Req_Devlist r)))"
    "forward (rd_bind op_req_import_from_socket (\<lambda>r. rd_return (Req_Import r)))"
    unfolding read_u16_def op_req_devlist_from_socket_def op_req_import_from_socket_def
      data_read_from_socket_def read_u32_def by auto
  from assms obtain v s1 c s2 where r: "read_u16 s = Inr (v, s1)" "read_u16 s1 = Inr (c, s2)"
    by (auto simp: get_op_from_socket_def split: sum.splits if_splits)
  with assms have "rd_bind op_req_devlist_from_socket (\<lambda>r. rd_return (Req_Devlist r)) s2 = Inr (r, s') \<or>
      rd_bind op_req_import_from_socket (\<lambda>r. rd_return (Req_Import r)) s2 = Inr (r, s')"
    by (auto simp: get_op_from_socket_def split: if_splits elim!: catch_system_error.elims)
  then have "length (rx s') \<le> length (rx s2)" using forwardD[OF u(2)] forwardD[OF u(3)] by blast
  with forwardD[OF u(1) r(1)] forwardD[OF u(1) r(2)] show ?thesis by simp
qed

lemma session_import_returns:
  assumes "\<forall>d \<in> set (sv_available (ie_between env srv)). ud_handler d \<noteq> None"
  shows "\<exists>x. session_import env b srv ss = Returned x"
proof (cases "is_device_using b srv")
  case False
  obtain d srv1 where t: "try_moving_device_to_using b (ie_between env srv) = (d, srv1)" by fastforce
  show ?thesis
  proof (cases d)
    case (Some dev)
    with t have "dev \<in> set (sv_available (ie_between env srv))"
      by (auto simp: try_moving_device_to_using_def split: option.splits dest: find_SomeD)
    with assms obtain h where "ud_handler dev = Some h" by blast
    with False Some t show ?thesis
      by (cases "ie_open_fails env h") (auto simp: session_import_def import_reply_def)
  qed (use False t in \<open>auto simp: session_import_def import_reply_def split: option.splits\<close>)
qed (simp add: session_import_def)

section \<open>What the handler sees of the byte stream\<close>

text \<open>The bytes a client sends for a command, for unlinks and for OUT submissions without
  isochronous packets, and the call the handler should get for it.\<close>

fun client_command :: "GenericTransfer CmdVariant \<Rightarrow> bool" where
  "client_command (Cmd_Unlink c) = (h_command (cu_header c) = USBIP_CMD_UNLINK)"
| "client_command (Cmd_Submit c) =
     (\<exists>t. th_handle (cs_transfer c) = Some t \<and> out_submit c (gt_data t))"

fun client_bytes :: "GenericTransfer CmdVariant \<Rightarrow> data" where
  "client_bytes (Cmd_Unlink c) = cmd_unlink_to_bytes c"
| "client_bytes (Cmd_Submit c) = cmd_submit_head c @ gt_data (the (th_handle (cs_transfer c)))"

fun delivered :: "UsbDevice \<Rightarrow> GenericTransfer CmdVariant \<Rightarrow> GenericTransfer handler_call list" where
  "delivered dev (Cmd_Unlink c) = [Handle_unlink (cu_unlink_seqnum c) (h_seqnum (cu_header c))]"
| "delivered dev (Cmd_Submit c) =
     (case find_ep dev (real_ep (cs_header c)) of
        None \<Rightarrow> []
      | Some (ep, intf) \<Rightarrow> [Receive_urb c ep intf])"

lemma get_client_command:
  assumes "client_command c" "\<And>ep. get_operator_for_ep p ep = GenericTransferOperator"
  shows "get_cmd_from_socket p \<lparr>rx = client_bytes c @ rest, rx_end = e\<rparr> =
           Some (Inr (c, \<lparr>rx = rest, rx_end = e\<rparr>))"
  using assms get_cmd_unlink[of _ "\<lparr>rx = client_bytes c @ rest, rx_end = e\<rparr>" rest p]
    get_cmd_submit_out[of _ _ "\<lparr>rx = client_bytes c @ rest, rx_end = e\<rparr>" rest p]
  by (cases c) auto

lemma get_cmd_at_end: "get_cmd_from_socket p \<lparr>rx = [], rx_end = e\<rparr> = Some (Inl (classify_error e))"
  by (simp add: get_cmd_from_socket_def read_u32_def reader_defs asio_read_def)

lemma receiver_visit_ok:
  assumes "\<And>cs. te_urb env cs = Urb_ok"
  shows "receiver_visit env dev c r = r\<lparr>rc_calls := rc_calls r @ delivered dev c\<rparr>"
  using assms by (cases c) (auto simp: receiver_visit_def split: option.splits)

lemma receiver_loop_delivers:
  assumes "\<And>ep. get_operator_for_ep p ep = GenericTransferOperator"
    and "\<And>k. te_stops env k = (False, False)" "\<And>cs. te_urb env cs = Urb_ok"
  shows "list_all client_command cmds \<Longrightarrow> length cmds < fuel \<Longrightarrow> \<not> rc_stop r \<Longrightarrow> \<not> rc_threw r \<Longrightarrow>
    receiver_loop fuel k env p dev \<lparr>rx = concat (map client_bytes cmds), rx_end = e\<rparr> r =
      Returned (r\<lparr>rc_calls := rc_calls r @ concat (map (delivered dev) cmds),
                  rc_ec := Some (classify_error e)\<rparr>)"
proof (induction cmds arbitrary: fuel k r)
  case Nil
  then show ?case using assms(2) by (cases fuel) (auto simp: get_cmd_at_end)
next
  case (Cons c cmds)
  then obtain n where "fuel = Suc n" "length cmds < n" by (cases fuel) auto
  with Cons show ?case
    by (simp add: assms(2) get_client_command[OF _ assms(1)] receiver_visit_ok[OF assms(3)] Let_def)
qed

section \<open>Properties\<close>



text \<open>Woken up with nothing to send.\<close>

definition polling :: "'tr Session \<Rightarrow> bool" where
  "polling s \<longleftrightarrow> ss_has_data s \<and> ss_write_buffer s = [] \<and> ss_read_buffer s = [] \<and>
     \<not> ss_should_immediately_stop s"

text \<open>A wake-up that arrives after its response was already taken leaves \<open>has_data\<close> set with
  both buffers empty. This is reachable with a single producer, and from then on every turn of the
  sender returns at once with nothing and changes nothing: it polls instead of waiting
  until the next response comes.\<close>

theorem session_sender_polls:
  "(polling s \<longrightarrow> sender_enter s = (At_get, s) \<and> sender_turn s w = Some (Returned ([], At_loop, s, w))) \<and>
   polling (wakeup_sender (snd (the (sender_get_data (snd (the (sender_get_data
     (enqueue_ret_unlink u2 (wakeup_sender (enqueue_ret_unlink u1 Session_new)))))))))
     :: GenericTransfer Session)"
  by (simp add: polling_def sender_enter_def sender_turn_def sender_get_data_def sender_pop_def
      wakeup_sender_def enqueue_ret_unlink_def Session_new_def)

theorem session_sender_polls_witness:
  "sender_turn (wakeup_sender Session_new :: GenericTransfer Session) \<lparr>tx = [], tx_room = None\<rparr> =
     Some (Returned ([], At_loop, wakeup_sender Session_new, \<lparr>tx = [], tx_room = None\<rparr>))"
  using session_sender_polls[where s = "wakeup_sender Session_new :: GenericTransfer Session"
      and w = "\<lparr>tx = [], tx_room = None\<rparr>"]
  by (simp add: polling_def wakeup_sender_def Session_new_def)





end
