(* ===== verification/Descriptors.thy ===== *)
theory Descriptors
  imports Pools Protocol
begin

text \<open>
  The descriptors of a virtual device: the fixed structures of \<open>UsbClassConstants.h\<close> (with the two
  class-specific ones the configuration descriptor inserts) and the \<open>get_*_descriptor\<close> functions
  of \<open>VirtualDeviceHandler.cpp\<close>. What the interface handlers contribute is given by a record
  of their virtual functions.
\<close>

section \<open>Interface handlers\<close>

text \<open>The virtual functions of \<open>VirtualInterfaceHandler\<close> that answer control requests, at the time of
  the call. A \<open>u32\<close> result is the status they leave in \<open>*p_status\<close>, which starts as
  \<open>StatusOK\<close>.\<close>

record interface_handler =
  ih_clear_feature :: "u16 \<Rightarrow> u32"
  ih_endpoint_clear_feature :: "u16 \<Rightarrow> u8 \<Rightarrow> u32"
  ih_get_interface :: "u8 \<times> u32"
  ih_set_interface :: "u16 \<Rightarrow> u32"
  ih_get_status :: "u16 \<times> u32"
  ih_endpoint_get_status :: "u8 \<Rightarrow> u16 \<times> u32"
  ih_get_descriptor :: "u8 \<Rightarrow> u8 \<Rightarrow> u16 \<Rightarrow> data \<times> u32"
  ih_set_feature :: "u16 \<Rightarrow> u32"
  ih_endpoint_set_feature :: "u16 \<Rightarrow> u8 \<Rightarrow> u32"
  ih_endpoint_sync_frame :: "u8 \<Rightarrow> u32"
  ih_class_specific_descriptor :: data
  ih_all_alts :: bool
  ih_string_interface_value :: u8

text \<open>The default implementations.\<close>

definition default_interface_handler :: "UsbInterface \<Rightarrow> u8 \<Rightarrow> interface_handler" where
  "default_interface_handler intf string_value =
     \<lparr>ih_clear_feature = (\<lambda>_. 0), ih_endpoint_clear_feature = (\<lambda>_ _. 0),
      ih_get_interface = (current_altsetting intf, 0),
      ih_set_interface = (\<lambda>alt. if unat alt < length (endpoints intf) then 0 else urb_status_code StatusEPIPE),
      ih_get_status = (0, 0), ih_endpoint_get_status = (\<lambda>_. (0, 0)),
      ih_get_descriptor = (\<lambda>_ _ _. ([], urb_status_code StatusEPIPE)),
      ih_set_feature = (\<lambda>_. 0), ih_endpoint_set_feature = (\<lambda>_ _. 0),
      ih_endpoint_sync_frame = (\<lambda>_. urb_status_code StatusEPIPE), ih_class_specific_descriptor = [],
      ih_all_alts = False, ih_string_interface_value = string_value\<rparr>"

section \<open>Descriptor structures\<close>

record DeviceDesc =
  dd_bLength :: u8
  dd_bDescriptorType :: u8
  dd_bcdUSB :: u16
  dd_bDeviceClass :: u8
  dd_bDeviceSubClass :: u8
  dd_bDeviceProtocol :: u8
  dd_bMaxPacketSize0 :: u8
  dd_idVendor :: u16
  dd_idProduct :: u16
  dd_bcdDevice :: u16
  dd_iManufacturer :: u8
  dd_iProduct :: u8
  dd_iSerialNumber :: u8
  dd_bNumConfigurations :: u8

definition DeviceDesc_append_to :: "DeviceDesc \<Rightarrow> data \<Rightarrow> data" where
  "DeviceDesc_append_to x d =
     vector_append_to_le d [F8 (dd_bLength x), F8 (dd_bDescriptorType x), F16 (dd_bcdUSB x),
       F8 (dd_bDeviceClass x), F8 (dd_bDeviceSubClass x), F8 (dd_bDeviceProtocol x),
       F8 (dd_bMaxPacketSize0 x), F16 (dd_idVendor x), F16 (dd_idProduct x), F16 (dd_bcdDevice x),
       F8 (dd_iManufacturer x), F8 (dd_iProduct x), F8 (dd_iSerialNumber x),
       F8 (dd_bNumConfigurations x)]"

record ConfigHeaderDesc =
  ch_bLength :: u8
  ch_bDescriptorType :: u8
  ch_wTotalLength :: u16
  ch_bNumInterfaces :: u8
  ch_bConfigurationValue :: u8
  ch_iConfiguration :: u8
  ch_bmAttributes :: u8
  ch_bMaxPower :: u8

definition ConfigHeaderDesc_append_to :: "ConfigHeaderDesc \<Rightarrow> data \<Rightarrow> data" where
  "ConfigHeaderDesc_append_to x d =
     vector_append_to_le d [F8 (ch_bLength x), F8 (ch_bDescriptorType x), F16 (ch_wTotalLength x),
       F8 (ch_bNumInterfaces x), F8 (ch_bConfigurationValue x), F8 (ch_iConfiguration x),
       F8 (ch_bmAttributes x), F8 (ch_bMaxPower x)]"

definition IadDesc_append_to :: "IadDesc \<Rightarrow> data \<Rightarrow> data" where
  "IadDesc_append_to x d =
     vector_append_to_le d [F8 (iad_bLength x), F8 (iad_bDescriptorType x),
       F8 (iad_bFirstInterface x), F8 (iad_bInterfaceCount x), F8 (iad_bFunctionClass x),
       F8 (iad_bFunctionSubClass x), F8 (iad_bFunctionProtocol x), F8 (iad_iFunction x)]"

record InterfaceDesc =
  id_bLength :: u8
  id_bDescriptorType :: u8
  id_bInterfaceNumber :: u8
  id_bAlternateSetting :: u8
  id_bNumEndpoints :: u8
  id_bInterfaceClass :: u8
  id_bInterfaceSubClass :: u8
  id_bInterfaceProtocol :: u8
  id_iInterface :: u8

definition InterfaceDesc_append_to :: "InterfaceDesc \<Rightarrow> data \<Rightarrow> data" where
  "InterfaceDesc_append_to x d =
     vector_append_to_le d [F8 (id_bLength x), F8 (id_bDescriptorType x),
       F8 (id_bInterfaceNumber x), F8 (id_bAlternateSetting x), F8 (id_bNumEndpoints x),
       F8 (id_bInterfaceClass x), F8 (id_bInterfaceSubClass x), F8 (id_bInterfaceProtocol x),
       F8 (id_iInterface x)]"

record EndpointDesc =
  ed_bLength :: u8
  ed_bDescriptorType :: u8
  ed_bEndpointAddress :: u8
  ed_bmAttributes :: u8
  ed_wMaxPacketSize :: u16
  ed_bInterval :: u8

definition EndpointDesc_append_to :: "EndpointDesc \<Rightarrow> data \<Rightarrow> data" where
  "EndpointDesc_append_to x d =
     vector_append_to_le d [F8 (ed_bLength x), F8 (ed_bDescriptorType x),
       F8 (ed_bEndpointAddress x), F8 (ed_bmAttributes x), F16 (ed_wMaxPacketSize x),
       F8 (ed_bInterval x)]"

definition BosHeaderDesc_append_to :: "u8 \<Rightarrow> u8 \<Rightarrow> u16 \<Rightarrow> u8 \<Rightarrow> data \<Rightarrow> data" where
  "BosHeaderDesc_append_to bLength bDescriptorType wTotalLength bNumCapabilities d =
     vector_append_to_le d [F8 bLength, F8 bDescriptorType, F16 wTotalLength, F8 bNumCapabilities]"

definition BosUsb20ExtCapDesc_append_to :: "u8 \<Rightarrow> u8 \<Rightarrow> u8 \<Rightarrow> u32 \<Rightarrow> data \<Rightarrow> data" where
  "BosUsb20ExtCapDesc_append_to bLength bDescriptorType bDevCapabilityType bmAttributes d =
     vector_append_to_le d [F8 bLength, F8 bDescriptorType, F8 bDevCapabilityType, F32 bmAttributes]"

definition CS_ENDPOINT :: u8 where "CS_ENDPOINT = 0x25"
definition CC_VIDEO :: u8 where "CC_VIDEO = 0x0E"
definition SC_VIDEOCONTROL :: u8 where "SC_VIDEOCONTROL = 0x01"
definition EP_INTERRUPT :: u8 where "EP_INTERRUPT = 0x03"
definition CC_AUDIO :: u8 where "CC_AUDIO = 0x01"
definition SC_AUDIOSTREAMING :: u8 where "SC_AUDIOSTREAMING = 0x02"
definition AS_EP_DESC_GENERAL :: u8 where "AS_EP_DESC_GENERAL = 0x01"
definition AS_EP_ATTR_SAMPLING_FREQ :: u8 where "AS_EP_ATTR_SAMPLING_FREQ = 0x01"
definition AS_EP_DESC_GENERAL_LEN :: u8 where "AS_EP_DESC_GENERAL_LEN = 7"

definition VcInterruptEndpointDesc_append_to :: "u8 \<Rightarrow> u8 \<Rightarrow> u8 \<Rightarrow> u16 \<Rightarrow> data \<Rightarrow> data" where
  "VcInterruptEndpointDesc_append_to bLength bDescriptorType bDescriptorSubtype wMaxTransferSize d =
     vector_append_to_le d [F8 bLength, F8 bDescriptorType, F8 bDescriptorSubtype, F16 wMaxTransferSize]"

definition AsEpGeneralDesc_append_to :: "u8 \<Rightarrow> u8 \<Rightarrow> u8 \<Rightarrow> u8 \<Rightarrow> u8 \<Rightarrow> u16 \<Rightarrow> data \<Rightarrow> data" where
  "AsEpGeneralDesc_append_to bLength bDescriptorType bDescriptorSubtype bmAttributes bLockDelayUnits
     wLockDelay d =
     vector_append_to_le d [F8 bLength, F8 bDescriptorType, F8 bDescriptorSubtype, F8 bmAttributes,
       F8 bLockDelayUnits, F16 wLockDelay]"

lemmas append_to_defs =
  DeviceDesc_append_to_def ConfigHeaderDesc_append_to_def IadDesc_append_to_def
  InterfaceDesc_append_to_def EndpointDesc_append_to_def BosHeaderDesc_append_to_def
  BosUsb20ExtCapDesc_append_to_def VcInterruptEndpointDesc_append_to_def AsEpGeneralDesc_append_to_def

section \<open>The device and its strings\<close>

record virtual_device =
  vd_device :: UsbDevice
  vd_handlers :: "nat \<Rightarrow> interface_handler"
  vd_usb_version :: Version
  vd_string_configuration :: u8
  vd_string_manufacturer :: u8
  vd_string_product :: u8
  vd_string_serial :: u8
  vd_string_pool :: StringPool

definition truncate_to :: "u16 \<Rightarrow> data \<Rightarrow> data" where
  "truncate_to len desc = (if unat len < length desc then take (unat len) desc else desc)"

definition get_device_descriptor :: "virtual_device \<Rightarrow> u16 \<Rightarrow> data" where
  "get_device_descriptor v descriptor_length =
     (let dev = vd_device v
      in truncate_to descriptor_length (DeviceDesc_append_to
           \<lparr>dd_bLength = 0x12, dd_bDescriptorType = descriptor_type_code DT_Device,
            dd_bcdUSB = version_to_bcd (vd_usb_version v),
            dd_bDeviceClass = ud_device_class dev, dd_bDeviceSubClass = ud_device_subclass dev,
            dd_bDeviceProtocol = ud_device_protocol dev,
            dd_bMaxPacketSize0 = ucast (ep_max_packet_size (ud_ep0_in dev)),
            dd_idVendor = ud_vendor_id dev, dd_idProduct = ud_product_id dev,
            dd_bcdDevice = ucast (v_minor (ud_device_bcd dev)) OR
              push_bit 8 (ucast (v_major (ud_device_bcd dev))),
            dd_iManufacturer = vd_string_manufacturer v, dd_iProduct = vd_string_product v,
            dd_iSerialNumber = vd_string_serial v,
            dd_bNumConfigurations = ud_num_configurations dev\<rparr> []))"

definition get_bos_descriptor :: "u16 \<Rightarrow> data" where
  "get_bos_descriptor descriptor_length =
     truncate_to descriptor_length
       (BosUsb20ExtCapDesc_append_to 0x07 0x10 0x02 0x00
          (BosHeaderDesc_append_to 0x05 (descriptor_type_code DT_BOS) 0x0C 0x01 []))"

definition get_device_qualifier_descriptor :: "virtual_device \<Rightarrow> u16 \<Rightarrow> data" where
  "get_device_qualifier_descriptor v descriptor_length =
     (let bcd_usb = version_to_bcd (vd_usb_version v); dev = vd_device v
      in truncate_to descriptor_length
           [0x0A, descriptor_type_code DT_DeviceQualifier, ucast (bcd_usb AND 0xFF),
            ucast (drop_bit 8 bcd_usb), ud_device_class dev, ud_device_subclass dev,
            ud_device_protocol dev, ucast (ep_max_packet_size (ud_ep0_in dev)),
            ud_num_configurations dev, 0x00])"

definition string_descriptor :: "wstring \<Rightarrow> data" where
  "string_descriptor str =
     [of_nat ((length str + 1) * 2), descriptor_type_code DT_String] @
     concat (map (\<lambda>i. [ucast i, ucast (drop_bit 8 i)]) str)"

text \<open>The result and the status. \<open>special\<close> is \<open>get_special_string_descriptor\<close>.\<close>

definition get_string_descriptor :: "(u8 \<Rightarrow> data option) \<Rightarrow> virtual_device \<Rightarrow> u8 \<Rightarrow> u16 \<Rightarrow> data \<times> u32" where
  "get_string_descriptor special v language_id descriptor_length =
     (case special language_id of
        Some d \<Rightarrow> (truncate_to descriptor_length d, 0)
      | None \<Rightarrow>
          if language_id = 0
          then (truncate_to descriptor_length [4, descriptor_type_code DT_String, 0x09, 0x04], 0)
          else (case get_string language_id (vd_string_pool v) of
                  Some str \<Rightarrow> (truncate_to descriptor_length (string_descriptor str), 0)
                | None \<Rightarrow> ([], urb_status_code StatusEPIPE)))"

section \<open>The configuration descriptor\<close>

definition endpoint_block :: "UsbInterface \<Rightarrow> UsbEndpoint \<Rightarrow> data \<Rightarrow> data" where
  "endpoint_block intf ep d =
     (let d1 = EndpointDesc_append_to \<lparr>ed_bLength = 0x07,
            ed_bDescriptorType = descriptor_type_code DT_Endpoint,
            ed_bEndpointAddress = ep_address ep, ed_bmAttributes = ep_attributes ep,
            ed_wMaxPacketSize = ep_max_packet_size ep, ed_bInterval = ep_interval ep\<rparr> d;
          d2 = (if interface_class intf = CC_VIDEO \<and> interface_subclass intf = SC_VIDEOCONTROL \<and>
                   ep_attributes ep AND 0x03 = 0x03
                then VcInterruptEndpointDesc_append_to 0x05 CS_ENDPOINT EP_INTERRUPT
                       (ep_max_packet_size ep) d1
                else d1)
      in if interface_class intf = CC_AUDIO \<and> interface_subclass intf = SC_AUDIOSTREAMING \<and>
            ep_attributes ep AND 0x03 = 0x01
         then AsEpGeneralDesc_append_to AS_EP_DESC_GENERAL_LEN CS_ENDPOINT AS_EP_DESC_GENERAL
                AS_EP_ATTR_SAMPLING_FREQ 0x00 0x00 d2
         else d2)"

definition alt_endpoints :: "UsbInterface \<Rightarrow> nat \<Rightarrow> UsbEndpoint list" where
  "alt_endpoints intf alt =
     (if endpoints intf = [] then []
      else if alt < length (endpoints intf) then endpoints intf ! alt else endpoints intf ! 0)"

definition alt_block :: "interface_handler option \<Rightarrow> UsbInterface \<Rightarrow> nat \<Rightarrow> data" where
  "alt_block h intf alt =
     (let class_specific = (case h of Some ih \<Rightarrow> ih_class_specific_descriptor ih | None \<Rightarrow> []);
          eps = alt_endpoints intf alt;
          d = InterfaceDesc_append_to \<lparr>id_bLength = 0x09,
                id_bDescriptorType = descriptor_type_code DT_Interface,
                id_bInterfaceNumber = interface_number intf, id_bAlternateSetting = of_nat alt,
                id_bNumEndpoints = of_nat (length eps), id_bInterfaceClass = interface_class intf,
                id_bInterfaceSubClass = interface_subclass intf,
                id_bInterfaceProtocol = interface_protocol intf,
                id_iInterface = (case h of Some ih \<Rightarrow> ih_string_interface_value ih | None \<Rightarrow> 0)\<rparr> [];
          all_alts = (case h of Some ih \<Rightarrow> ih_all_alts ih | None \<Rightarrow> False);
          d1 = (if (alt = 0 \<or> all_alts) \<and> class_specific \<noteq> [] then d @ class_specific else d)
      in fold (endpoint_block intf) eps d1)"

definition num_alts :: "UsbInterface \<Rightarrow> nat" where
  "num_alts intf = (if length (endpoints intf) = 0 then 1 else length (endpoints intf))"

definition interface_block :: "(nat \<Rightarrow> interface_handler) \<Rightarrow> UsbInterface \<Rightarrow> data \<Rightarrow> data" where
  "interface_block hs intf d =
     (let d1 = (case interface_association_descriptor intf of
                  Some iad \<Rightarrow> IadDesc_append_to (iad\<lparr>iad_bFirstInterface := interface_number intf\<rparr>) d
                | None \<Rightarrow> d)
      in fold (\<lambda>alt desc. desc @ alt_block (map_option hs (if_handler intf)) intf alt)
           [0..<num_alts intf] d1)"

definition full_configuration_descriptor :: "virtual_device \<Rightarrow> data" where
  "full_configuration_descriptor v =
     (let dev = vd_device v;
          header = ConfigHeaderDesc_append_to \<lparr>ch_bLength = 0x09,
              ch_bDescriptorType = descriptor_type_code DT_Configuration, ch_wTotalLength = 0x00,
              ch_bNumInterfaces = of_nat (length (ud_interfaces dev)),
              ch_bConfigurationValue = ud_configuration_value dev,
              ch_iConfiguration = vd_string_configuration v, ch_bmAttributes = 0x80,
              ch_bMaxPower = 0xFA\<rparr> [];
          desc = fold (interface_block (vd_handlers v)) (ud_interfaces dev) header
      in desc[2 := of_nat (length desc), 3 := of_nat (length desc div 256)])"

definition get_configuration_descriptor :: "virtual_device \<Rightarrow> u16 \<Rightarrow> data" where
  "get_configuration_descriptor v descriptor_length =
     truncate_to descriptor_length (full_configuration_descriptor v)"

section \<open>Chains of descriptors\<close>

text \<open>A descriptor starts with its own length and has at least a type; a chain is a sequence of them,
  counted here by its interface descriptors.\<close>

definition desc_block :: "data \<Rightarrow> bool" where
  "desc_block b \<longleftrightarrow> 2 \<le> length b \<and> unat (b ! 0) = length b"

definition desc_chain :: "nat \<Rightarrow> data \<Rightarrow> bool" where
  "desc_chain n d \<longleftrightarrow>
     (\<exists>bs. d = concat bs \<and> list_all desc_block bs \<and>
        length (filter (\<lambda>b. b ! 1 = descriptor_type_code DT_Interface) bs) = n)"

lemma desc_chain_Nil: "desc_chain 0 []"
  unfolding desc_chain_def by (rule exI[of _ "[]"]) simp

lemma desc_chain_append: "desc_chain m a \<Longrightarrow> desc_chain n b \<Longrightarrow> desc_chain (m + n) (a @ b)"
  unfolding desc_chain_def
proof (elim exE conjE)
  fix as bs
  assume "a = concat as" "list_all desc_block as"
    "length (filter (\<lambda>b. b ! 1 = descriptor_type_code DT_Interface) as) = m"
    "b = concat bs" "list_all desc_block bs"
    "length (filter (\<lambda>b. b ! 1 = descriptor_type_code DT_Interface) bs) = n"
  then show "\<exists>bs. a @ b = concat bs \<and> list_all desc_block bs \<and>
      length (filter (\<lambda>b. b ! 1 = descriptor_type_code DT_Interface) bs) = m + n"
    by (intro exI[of _ "as @ bs"]) simp
qed

lemma desc_chain_single:
  "desc_block b \<Longrightarrow> desc_chain (if b ! 1 = descriptor_type_code DT_Interface then 1 else 0) b"
  unfolding desc_chain_def by (rule exI[of _ "[b]"]) simp

lemma desc_chain_plain:
  "desc_chain n d \<Longrightarrow> desc_block b \<Longrightarrow> b ! 1 \<noteq> descriptor_type_code DT_Interface \<Longrightarrow> desc_chain n (d @ b)"
  using desc_chain_append[of n d 0 b] desc_chain_single[of b] by simp

lemma le_bytes_u16: "le_bytes (w :: u16) = [ucast w, ucast (drop_bit 8 w)]"
  by (simp add: le_bytes_def upt_conv_Cons)

lemma endpoint_block_chain:
  assumes "desc_chain n d"
  shows "desc_chain n (endpoint_block intf ep d)"
proof -
  let ?e = "EndpointDesc_append_to \<lparr>ed_bLength = 0x07,
            ed_bDescriptorType = descriptor_type_code DT_Endpoint,
            ed_bEndpointAddress = ep_address ep, ed_bmAttributes = ep_attributes ep,
            ed_wMaxPacketSize = ep_max_packet_size ep, ed_bInterval = ep_interval ep\<rparr>"
  have e: "desc_chain n (?e x)" if "desc_chain n x" for x
    using desc_chain_plain[OF that, of "?e []"]
    by (simp add: EndpointDesc_append_to_def desc_block_def le_bytes_u16)
  have v: "desc_chain n (VcInterruptEndpointDesc_append_to 0x05 CS_ENDPOINT EP_INTERRUPT m x)"
    if "desc_chain n x" for m x
    using desc_chain_plain[OF that, of "VcInterruptEndpointDesc_append_to 0x05 CS_ENDPOINT EP_INTERRUPT m []"]
    by (simp add: VcInterruptEndpointDesc_append_to_def desc_block_def le_bytes_u16 CS_ENDPOINT_def)
  have a: "desc_chain n (AsEpGeneralDesc_append_to AS_EP_DESC_GENERAL_LEN CS_ENDPOINT AS_EP_DESC_GENERAL
                AS_EP_ATTR_SAMPLING_FREQ 0 0 x)" if "desc_chain n x" for x
    using desc_chain_plain[OF that, of "AsEpGeneralDesc_append_to AS_EP_DESC_GENERAL_LEN CS_ENDPOINT
        AS_EP_DESC_GENERAL AS_EP_ATTR_SAMPLING_FREQ 0 0 []"]
    by (simp add: AsEpGeneralDesc_append_to_def desc_block_def le_bytes_u16 CS_ENDPOINT_def
        AS_EP_DESC_GENERAL_LEN_def)
  show ?thesis using assms e v a by (simp add: endpoint_block_def Let_def)
qed

lemma endpoint_blocks_chain: "desc_chain n d \<Longrightarrow> desc_chain n (fold (endpoint_block intf) eps d)"
  by (induction eps arbitrary: d) (auto intro: endpoint_block_chain)

text \<open>What the interfaces must contribute: association descriptors of the right length, and
  class-specific descriptors that are chains without interface descriptors.\<close>

definition interface_ok :: "(nat \<Rightarrow> interface_handler) \<Rightarrow> UsbInterface \<Rightarrow> bool" where
  "interface_ok hs intf \<longleftrightarrow>
     (case interface_association_descriptor intf of
        None \<Rightarrow> True
      | Some iad \<Rightarrow> iad_bLength iad = 8 \<and>
          iad_bDescriptorType iad = descriptor_type_code DT_InterfaceAssociation) \<and>
     (case if_handler intf of
        None \<Rightarrow> True
      | Some h \<Rightarrow> desc_chain 0 (ih_class_specific_descriptor (hs h)))"

lemma alt_block_chain:
  assumes "interface_ok hs intf"
  shows "desc_chain 1 (alt_block (map_option hs (if_handler intf)) intf alt)"
proof -
  let ?i = "\<lambda>k. InterfaceDesc_append_to \<lparr>id_bLength = 0x09,
      id_bDescriptorType = descriptor_type_code DT_Interface,
      id_bInterfaceNumber = interface_number intf, id_bAlternateSetting = of_nat alt,
      id_bNumEndpoints = of_nat (length (alt_endpoints intf alt)),
      id_bInterfaceClass = interface_class intf, id_bInterfaceSubClass = interface_subclass intf,
      id_bInterfaceProtocol = interface_protocol intf, id_iInterface = k\<rparr> []"
  have i: "desc_chain 1 (?i k)" for k
    using desc_chain_single[of "?i k"] by (simp add: InterfaceDesc_append_to_def desc_block_def)
  show ?thesis
  proof (cases "if_handler intf")
    case None
    then show ?thesis using i by (simp add: alt_block_def Let_def endpoint_blocks_chain)
  next
    case (Some h)
    with assms have "desc_chain 0 (ih_class_specific_descriptor (hs h))" by (simp add: interface_ok_def)
    then have "desc_chain 1 (?i k @ ih_class_specific_descriptor (hs h))" for k
      using desc_chain_append[OF i] by fastforce
    with Some i show ?thesis by (simp add: alt_block_def Let_def endpoint_blocks_chain)
  qed
qed

lemma alt_blocks_chain:
  assumes "interface_ok hs intf" "desc_chain n d"
  shows "desc_chain (n + length as)
    (fold (\<lambda>alt desc. desc @ alt_block (map_option hs (if_handler intf)) intf alt) as d)"
  using assms(2)
proof (induction as arbitrary: n d)
  case (Cons a as)
  from Cons.IH[OF desc_chain_append[OF Cons.prems alt_block_chain[OF assms(1), of a]]]
  show ?case by simp
qed simp

lemma interface_block_chain:
  assumes "interface_ok hs intf" "desc_chain n d"
  shows "desc_chain (n + num_alts intf) (interface_block hs intf d)"
proof (cases "interface_association_descriptor intf")
  case None
  then show ?thesis using alt_blocks_chain[OF assms, of "[0..<num_alts intf]"]
    by (simp add: interface_block_def)
next
  case (Some iad)
  let ?iad = "iad\<lparr>iad_bFirstInterface := interface_number intf\<rparr>"
  have "desc_chain n (IadDesc_append_to ?iad d)"
    using desc_chain_plain[OF assms(2), of "IadDesc_append_to ?iad []"] assms(1) Some
    by (simp add: IadDesc_append_to_def desc_block_def interface_ok_def)
  from alt_blocks_chain[OF assms(1) this, of "[0..<num_alts intf]"] Some show ?thesis
    by (simp add: interface_block_def)
qed

lemma interface_blocks_chain:
  assumes "list_all (interface_ok hs) intfs" "desc_chain n d"
  shows "desc_chain (n + sum_list (map num_alts intfs)) (fold (interface_block hs) intfs d)"
  using assms
proof (induction intfs arbitrary: n d)
  case (Cons i intfs)
  then show ?case
    using Cons.IH[OF _ interface_block_chain[of hs i n d]] by (simp add: add.assoc)
qed simp

text \<open>The blocks are appended to what is there.\<close>

lemma alt_blocks_append:
  "fold (\<lambda>alt desc. desc @ g alt) alts d = d @ concat (map g alts)"
  by (induction alts arbitrary: d) simp_all

lemma IadDesc_append_to_append: "IadDesc_append_to x d = d @ IadDesc_append_to x []"
  by (simp add: IadDesc_append_to_def)

lemma interface_block_append: "interface_block hs intf d = d @ interface_block hs intf []"
proof (cases "interface_association_descriptor intf")
  case (Some iad)
  then show ?thesis
    using IadDesc_append_to_append[of "iad\<lparr>iad_bFirstInterface := interface_number intf\<rparr>" d]
    by (simp add: interface_block_def alt_blocks_append)
qed (simp add: interface_block_def alt_blocks_append)

lemma interface_blocks_append:
  "fold (interface_block hs) intfs d = d @ fold (interface_block hs) intfs []"
proof (induction intfs arbitrary: d)
  case (Cons i intfs)
  show ?case
    using Cons.IH[of "interface_block hs i d"] Cons.IH[of "interface_block hs i []"]
      interface_block_append[of hs i d] by simp
qed simp

text \<open>The configuration descriptor is the nine-byte header, its length field filled in, followed by the
  blocks of the interfaces.\<close>

definition config_header :: "virtual_device \<Rightarrow> nat \<Rightarrow> data" where
  "config_header v n =
     [9, descriptor_type_code DT_Configuration, of_nat n, of_nat (n div 256),
      of_nat (length (ud_interfaces (vd_device v))), ud_configuration_value (vd_device v),
      vd_string_configuration v, 0x80, 0xFA]"

lemma header_update:
  "(a # b # c # d # xs)[2 := x, 3 := y] = a # b # x # y # xs"
  by (simp add: numeral_2_eq_2 numeral_3_eq_3)

lemma full_configuration_descriptor_eq:
  "full_configuration_descriptor v =
     (let b = fold (interface_block (vd_handlers v)) (ud_interfaces (vd_device v)) []
      in config_header v (9 + length b) @ b)"
proof -
  let ?h = "ConfigHeaderDesc_append_to \<lparr>ch_bLength = 0x09,
              ch_bDescriptorType = descriptor_type_code DT_Configuration, ch_wTotalLength = 0x00,
              ch_bNumInterfaces = of_nat (length (ud_interfaces (vd_device v))),
              ch_bConfigurationValue = ud_configuration_value (vd_device v),
              ch_iConfiguration = vd_string_configuration v, ch_bmAttributes = 0x80,
              ch_bMaxPower = 0xFA\<rparr> []"
  let ?b = "fold (interface_block (vd_handlers v)) (ud_interfaces (vd_device v)) []"
  let ?l = "[9, descriptor_type_code DT_Configuration, 0, 0,
      of_nat (length (ud_interfaces (vd_device v))), ud_configuration_value (vd_device v),
      vd_string_configuration v, 0x80, 0xFA]"
  have h: "?h = ?l"
    by (simp add: ConfigHeaderDesc_append_to_def le_bytes_u16)
  have f: "fold (interface_block (vd_handlers v)) (ud_interfaces (vd_device v)) ?l = ?l @ ?b"
    by (rule interface_blocks_append)
  have l: "length (?l @ ?b) = 9 + length ?b" by simp
  show ?thesis
    unfolding full_configuration_descriptor_def Let_def config_header_def
    by (subst (1 2 3) h, subst (1 2 3) f, subst (1 2) l) (simp only: append_Cons append_Nil header_update)
qed

lemma desc_block_config_header: "desc_block (config_header v n)"
  by (simp add: desc_block_def config_header_def)

lemma config_header_fields:
  "(config_header v n @ b) ! 2 = of_nat n" "(config_header v n @ b) ! 3 = of_nat (n div 256)"
  "(config_header v n @ b) ! 4 = of_nat (length (ud_interfaces (vd_device v)))"
  by (simp_all add: config_header_def)

lemma total_length_bytes:
  "n < 65536 \<Longrightarrow> unat (of_nat n :: u8) + 256 * unat (of_nat (n div 256) :: u8) = n"
  by (simp add: unat_of_nat less_mult_imp_div_less)

lemma truncate_to_take: "truncate_to n d = take (unat n) d"
  by (simp add: truncate_to_def)

text \<open>C38: The configuration descriptor a host reads is well formed whenever the association and
  class-specific descriptors contributed by the interfaces are: it is a sequence of descriptors each
  as long as its \<open>bLength\<close> says, it has one interface descriptor for every alternate setting of every
  interface, its \<open>wTotalLength\<close> is its length and its \<open>bNumInterfaces\<close> the number of
  interfaces (while these fit their fields), and a request for \<open>len\<close> bytes gets the first
  \<open>len\<close> bytes of it.\<close>

theorem configuration_descriptor_wf:
  assumes "list_all (interface_ok (vd_handlers v)) (ud_interfaces (vd_device v))"
    and "length (full_configuration_descriptor v) < 65536"
    and "length (ud_interfaces (vd_device v)) < 256"
  shows "desc_chain (sum_list (map num_alts (ud_interfaces (vd_device v)))) (full_configuration_descriptor v) \<and>
    unat (full_configuration_descriptor v ! 2) + 256 * unat (full_configuration_descriptor v ! 3) =
      length (full_configuration_descriptor v) \<and>
    unat (full_configuration_descriptor v ! 4) = length (ud_interfaces (vd_device v)) \<and>
    get_configuration_descriptor v len = take (unat len) (full_configuration_descriptor v)"
proof (intro conjI)
  let ?b = "fold (interface_block (vd_handlers v)) (ud_interfaces (vd_device v)) []"
  let ?n = "9 + length ?b"
  have eq: "full_configuration_descriptor v = config_header v ?n @ ?b"
    using full_configuration_descriptor_eq[of v] by (simp add: Let_def)
  have len: "length (full_configuration_descriptor v) = ?n"
    by (simp add: eq config_header_def)
  have "desc_chain (0 + sum_list (map num_alts (ud_interfaces (vd_device v)))) ?b"
    by (rule interface_blocks_chain[OF assms(1) desc_chain_Nil])
  moreover have "desc_chain 0 (config_header v ?n)"
    using desc_chain_single[OF desc_block_config_header, of v ?n] by (simp add: config_header_def)
  ultimately show "desc_chain (sum_list (map num_alts (ud_interfaces (vd_device v))))
      (full_configuration_descriptor v)"
    using desc_chain_append[of 0 "config_header v ?n"] by (simp add: eq)
  show "unat (full_configuration_descriptor v ! 2) + 256 * unat (full_configuration_descriptor v ! 3) =
           length (full_configuration_descriptor v)"
    using total_length_bytes[OF assms(2)] unfolding len by (simp only: eq config_header_fields)
  show "unat (full_configuration_descriptor v ! 4) = length (ud_interfaces (vd_device v))"
    using assms(3) by (simp add: eq config_header_fields unat_of_nat)
  show "get_configuration_descriptor v len = take (unat len) (full_configuration_descriptor v)"
    by (simp add: get_configuration_descriptor_def truncate_to_take)
qed

definition sample_virtual_device :: virtual_device where
  "sample_virtual_device =
     \<lparr>vd_device = default_device\<lparr>ud_interfaces :=
        [default_interface\<lparr>interface_class := 3, endpoints :=
           [[\<lparr>ep_address = 0x81, ep_attributes = 3, ep_max_packet_size = 8, ep_interval = 10\<rparr>], []],
           if_handler := Some 0\<rparr>,
         default_interface\<lparr>interface_number := 1, endpoints := [[]]\<rparr>]\<rparr>,
      vd_handlers = (\<lambda>_. (default_interface_handler default_interface 4)
        \<lparr>ih_class_specific_descriptor := [4, 0x21, 0, 1]\<rparr>),
      vd_usb_version = \<lparr>v_major = 2, v_minor = 0, v_patch = 0\<rparr>, vd_string_configuration = 1,
      vd_string_manufacturer = 2, vd_string_product = 3, vd_string_serial = 0,
      vd_string_pool = [2 \<mapsto> [0x41, 0x20AC]]\<rparr>"

lemma sample_interfaces_ok:
  "list_all (interface_ok (vd_handlers sample_virtual_device)) (ud_interfaces (vd_device sample_virtual_device))"
  using desc_chain_single[of "[4, 0x21, 0, 1]"]
  by (simp add: sample_virtual_device_def interface_ok_def default_interface_def desc_block_def)

theorem configuration_descriptor_wf_witness:
  "desc_chain 3 (full_configuration_descriptor sample_virtual_device) \<and>
   length (full_configuration_descriptor sample_virtual_device) = 47 \<and>
   full_configuration_descriptor sample_virtual_device ! 2 = 47 \<and>
   full_configuration_descriptor sample_virtual_device ! 4 = 2 \<and>
   get_configuration_descriptor sample_virtual_device 9 =
     take 9 (full_configuration_descriptor sample_virtual_device)"
proof -
  have full: "full_configuration_descriptor sample_virtual_device =
    [9, 2, 47, 0, 2, 0, 1, 0x80, 0xFA,
     9, 4, 0, 0, 1, 3, 0, 0, 4, 4, 0x21, 0, 1, 7, 5, 0x81, 3, 8, 0, 10,
     9, 4, 0, 1, 0, 3, 0, 0, 4, 9, 4, 1, 0, 0, 0, 0, 0, 0]"
    by code_simp
  have n: "sum_list (map num_alts (ud_interfaces (vd_device sample_virtual_device))) = 3"
    "length (ud_interfaces (vd_device sample_virtual_device)) < 256"
    by (simp_all add: sample_virtual_device_def num_alts_def)
  have l: "length (full_configuration_descriptor sample_virtual_device) < 65536"
    by (simp add: full)
  show ?thesis
    using configuration_descriptor_wf[OF sample_interfaces_ok l n(2), of 9] full
    by (simp add: n(1))
qed

section \<open>String descriptors\<close>

text \<open>What a host reads in a string descriptor: UTF-16 code units, low byte first, after the two-byte
  header.\<close>

fun utf16le :: "data \<Rightarrow> wstring" where
  "utf16le (lo # hi # r) = (ucast lo OR push_bit 8 (ucast hi)) # utf16le r"
| "utf16le r = []"

lemma code_unit_bytes:
  fixes c :: u32
  assumes "c < 0x10000"
  shows "ucast (ucast c :: u8) OR push_bit 8 (ucast (ucast (drop_bit 8 c) :: u8)) = c"
proof (rule bit_word_eqI)
  fix n
  assume "n < LENGTH(32)"
  have "take_bit 16 c = c"
    using assms by (simp add: word_unat_eq_iff unsigned_take_bit_eq take_bit_nat_eq_self word_less_nat_alt)
  then have "n < 16" if "bit c n" using that by (metis bit_take_bit_iff)
  then show "bit (ucast (ucast c :: u8) OR push_bit 8 (ucast (ucast (drop_bit 8 c) :: u8)) :: u32) n
      \<longleftrightarrow> bit c n"
    by (cases "n < 8")
       (auto simp: bit_or_iff bit_push_bit_iff bit_ucast_iff bit_drop_bit_eq dest: bit_imp_le_length)
qed

lemma utf16le_string:
  "list_all (\<lambda>c. c < 0x10000) str \<Longrightarrow>
   utf16le (concat (map (\<lambda>i. [ucast i, ucast (drop_bit 8 i)]) str)) = str"
  by (induction str) (simp_all add: code_unit_bytes)

lemma length_string_descriptor: "length (string_descriptor str) = 2 * length str + 2"
  by (simp add: string_descriptor_def length_concat o_def sum_list_triv)

text \<open>A string stored in the pool is what the host reads back: the descriptor of its index is a
  well-formed string descriptor (for strings of at most 126 code units, whose length fits the one-byte
  \<open>bLength\<close>) that decodes to the string, cut to the requested length.\<close>

theorem string_descriptor_roundtrip:
  assumes "new_string str sp = Inr (k, sp')" "vd_string_pool v = sp'" "special k = None"
    and "length str \<le> 126" "list_all (\<lambda>c. c < 0x10000) str"
  shows "get_string_descriptor special v k len = (take (unat len) (string_descriptor str), 0) \<and>
    desc_block (string_descriptor str) \<and>
    string_descriptor str ! 1 = descriptor_type_code DT_String \<and>
    utf16le (drop 2 (string_descriptor str)) = str"
proof -
  have "k \<noteq> 0" "get_string k sp' = Some str"
    using new_string_spec[where str = str and sp = sp] assms(1) by (auto simp: get_string_def)
  with assms(2,3) have "get_string_descriptor special v k len = (take (unat len) (string_descriptor str), 0)"
    by (simp add: get_string_descriptor_def truncate_to_take)
  moreover have "unat (string_descriptor str ! 0) = length (string_descriptor str)"
  proof -
    have "unat (of_nat ((length str + 1) * 2) :: u8) = (length str + 1) * 2"
      using assms(4) by (simp only: unat_of_nat) simp
    then show ?thesis unfolding length_string_descriptor
      by (simp only: string_descriptor_def append_Cons nth_Cons_0) simp
  qed
  then have "desc_block (string_descriptor str)"
    by (simp add: desc_block_def length_string_descriptor)
  ultimately show ?thesis
    using utf16le_string[OF assms(5)] by (simp add: string_descriptor_def)
qed

theorem string_descriptor_roundtrip_witness:
  "\<exists>k sp'. new_string [0x41, 0x20AC] Map.empty = Inr (k, sp') \<and>
     get_string_descriptor (\<lambda>_. None) (sample_virtual_device\<lparr>vd_string_pool := sp'\<rparr>) k 255 =
       ([6, 3, 0x41, 0, 0xAC, 0x20], 0)"
proof -
  have n: "new_string [0x41, 0x20AC] Map.empty = Inr (1, [1 \<mapsto> [0x41, 0x20AC]])"
    by (simp add: new_string_def new_string_loop.simps)
  have d: "string_descriptor [0x41, 0x20AC] = [6, 3, 0x41, 0, 0xAC, 0x20]" by code_simp
  show ?thesis
    using n string_descriptor_roundtrip[OF n, of "sample_virtual_device\<lparr>vd_string_pool := [1 \<mapsto> [0x41, 0x20AC]]\<rparr>"
        "\<lambda>_. None" 255]
    by (auto simp: d)
qed

text \<open>A longer string makes \<open>bLength\<close> wrap around: the descriptor of a string of 127 code units claims to
  be empty.\<close>

lemma string_descriptor_wraps: "length str = 127 \<Longrightarrow> string_descriptor str ! 0 = 0"
  by (simp add: string_descriptor_def)

end
