(* ===== verification/Virtual_Device.thy ===== *)
theory Virtual_Device
  imports Descriptors Transfer_Scheduler
begin

text \<open>
  The virtual device handler: dispatch of URBs, the standard control requests, the connection
  life cycle and the handling of CMD_UNLINK (\<open>VirtualDeviceHandler.cpp\<close>,
  \<open>SimpleVirtualDeviceHandler.cpp\<close>, the defaults of \<open>VirtualInterfaceHandler\<close>).
  The virtual functions of a derived device are a record of functions; what an operation passes on
  to other handlers or to the responder is the list of events it produces.
\<close>

section \<open>The virtual functions of the device\<close>

record device_hooks =
  dh_clear_feature :: "u16 \<Rightarrow> u32"
  dh_get_status :: "u16 \<times> u32"
  dh_set_address :: "u16 \<Rightarrow> u32"
  dh_set_configuration :: "u16 \<Rightarrow> u32"
  dh_set_descriptor :: "u8 \<Rightarrow> u8 \<Rightarrow> u16 \<Rightarrow> u16 \<Rightarrow> data \<Rightarrow> u32"
  dh_set_feature :: "u16 \<Rightarrow> u32"
  dh_other_speed_descriptor :: "u8 \<Rightarrow> u16 \<Rightarrow> data \<times> u32"
  dh_custom_descriptor :: "u8 \<Rightarrow> u8 \<Rightarrow> u16 \<Rightarrow> data \<times> u32"
  dh_special_string :: "u8 \<Rightarrow> data option"

text \<open>\<open>SimpleVirtualDeviceHandler\<close>.\<close>

definition simple_set_configuration :: "virtual_device \<Rightarrow> u16 \<Rightarrow> u32" where
  "simple_set_configuration v c =
     (if c = 0 \<or> c = ucast (ud_configuration_value (vd_device v)) then 0 else urb_status_code StatusEPIPE)"

definition simple_other_speed_descriptor :: "virtual_device \<Rightarrow> u8 \<Rightarrow> u16 \<Rightarrow> data \<times> u32" where
  "simple_other_speed_descriptor v language_id len =
     (let desc = get_configuration_descriptor v len
      in (if desc \<noteq> [] \<and> 2 \<le> length desc
          then desc[1 := descriptor_type_code DT_OtherSpeedConfiguration] else desc, 0))"

definition get_special_string_descriptor :: "u8 \<Rightarrow> data option" where
  "get_special_string_descriptor string_index = None"

definition get_custom_descriptor :: "u8 \<Rightarrow> u8 \<Rightarrow> u16 \<Rightarrow> data \<times> u32" where
  "get_custom_descriptor type language_id len = ([], 0)"

definition simple_hooks :: "virtual_device \<Rightarrow> device_hooks" where
  "simple_hooks v =
     \<lparr>dh_clear_feature = (\<lambda>_. 0), dh_get_status = (0, 0), dh_set_address = (\<lambda>_. 0),
      dh_set_configuration = simple_set_configuration v, dh_set_descriptor = (\<lambda>_ _ _ _ _. 0),
      dh_set_feature = (\<lambda>_. 0), dh_other_speed_descriptor = simple_other_speed_descriptor v,
      dh_custom_descriptor = get_custom_descriptor, dh_special_string = get_special_string_descriptor\<rparr>"

section \<open>Standard control requests\<close>

datatype vd_event =
  Vd_reply "GenericTransfer UsbIpRetSubmit"
| Vd_device_request "GenericTransfer TransferHandle"
| Vd_interface_request nat "GenericTransfer TransferHandle"
| Vd_endpoint_request nat "GenericTransfer TransferHandle"
| Vd_bulk nat "GenericTransfer TransferHandle"
| Vd_interrupt nat "GenericTransfer TransferHandle"
| Vd_isochronous nat int "GenericTransfer TransferHandle"

definition request_get_configuration :: "virtual_device \<Rightarrow> u8 \<times> u32" where
  "request_get_configuration v = (ud_configuration_value (vd_device v), 0)"

definition request_get_descriptor :: "device_hooks \<Rightarrow> virtual_device \<Rightarrow> u8 \<Rightarrow> u8 \<Rightarrow> u16 \<Rightarrow> data \<times> u32" where
  "request_get_descriptor dh v type language_id len =
     (if type = descriptor_type_code DT_Device then (get_device_descriptor v len, 0)
      else if type = descriptor_type_code DT_Configuration then (get_configuration_descriptor v len, 0)
      else if type = descriptor_type_code DT_DeviceQualifier then (get_device_qualifier_descriptor v len, 0)
      else if type = descriptor_type_code DT_BOS then (get_bos_descriptor len, 0)
      else if type = descriptor_type_code DT_String
      then get_string_descriptor (dh_special_string dh) v language_id len
      else if type = descriptor_type_code DT_OtherSpeedConfiguration
      then dh_other_speed_descriptor dh language_id len
      else dh_custom_descriptor dh type language_id len)"

text \<open>\<open>request_get_interface\<close> and \<open>request_set_interface\<close> of the device; indexing an interface that
  is not there is \<open>None\<close>.\<close>

definition request_get_interface :: "virtual_device \<Rightarrow> u16 \<Rightarrow> (u8 \<times> u32) option" where
  "request_get_interface v intf =
     (if unat intf < length (ud_interfaces (vd_device v))
      then Some (case if_handler (ud_interfaces (vd_device v) ! unat intf) of
                   Some h \<Rightarrow> ih_get_interface (vd_handlers v h)
                 | None \<Rightarrow> (- 1, urb_status_code StatusEPIPE))
      else None)"

definition update_altsetting :: "nat \<Rightarrow> u16 \<Rightarrow> virtual_device \<Rightarrow> virtual_device" where
  "update_altsetting i alt v =
     (let dev = vd_device v; intf = ud_interfaces dev ! i
      in v\<lparr>vd_device := dev\<lparr>ud_interfaces :=
             (ud_interfaces dev)[i := intf\<lparr>current_altsetting := ucast alt\<rparr>]\<rparr>\<rparr>)"

definition request_set_interface :: "u16 \<Rightarrow> u16 \<Rightarrow> virtual_device \<Rightarrow> (u32 \<times> virtual_device) option" where
  "request_set_interface alt intf v =
     (if unat intf < length (ud_interfaces (vd_device v))
      then (let i = ud_interfaces (vd_device v) ! unat intf
            in Some (case if_handler i of
                 Some h \<Rightarrow>
                   (let status = ih_set_interface (vd_handlers v h) alt
                    in (status, if status = 0 \<and> unat alt < length (endpoints i)
                                then update_altsetting (unat intf) alt v else v))
               | None \<Rightarrow> (urb_status_code StatusEPIPE, v)))
      else None)"

text \<open>The switch statements of \<open>handle_control_urb\<close>: the status an OUT request leaves, and the data
  and status of an IN request.\<close>

definition device_out_request ::
    "device_hooks \<Rightarrow> SetupPacket \<Rightarrow> u32 \<Rightarrow> GenericTransfer TransferHandle \<Rightarrow> u32 option" where
  "device_out_request dh sp transfer_buffer_length th =
     (case standard_request_of (calc_standard_request sp) of
        Some ClearFeature \<Rightarrow> Some (dh_clear_feature dh (sp_value sp))
      | Some SetAddress \<Rightarrow> Some (dh_set_address dh (sp_value sp))
      | Some SetConfiguration \<Rightarrow> Some (dh_set_configuration dh (sp_value sp))
      | Some SetDescriptor \<Rightarrow>
          (case th_handle th of
             None \<Rightarrow> None
           | Some trx \<Rightarrow>
               map_option (\<lambda>out_data. dh_set_descriptor dh (ucast (drop_bit 8 (sp_value sp)))
                   (ucast (sp_value sp AND 0x00FF)) (sp_index sp) (sp_length sp) out_data)
                 (slice 0 (unat transfer_buffer_length) (gt_data trx)))
      | Some SetFeature \<Rightarrow> Some (dh_set_feature dh (sp_value sp))
      | _ \<Rightarrow> Some (urb_status_code StatusEPIPE))"

definition device_in_request :: "device_hooks \<Rightarrow> virtual_device \<Rightarrow> SetupPacket \<Rightarrow> data \<times> u32" where
  "device_in_request dh v sp =
     (case standard_request_of (calc_standard_request sp) of
        Some GetConfiguration \<Rightarrow>
          (case request_get_configuration v of (r, status) \<Rightarrow> (vector_append_to_le [] [F8 r], status))
      | Some GetDescriptor \<Rightarrow>
          (case request_get_descriptor dh v (ucast (drop_bit 8 (sp_value sp))) (ucast (sp_value sp))
                  (sp_length sp) of
             (result, status) \<Rightarrow> (truncate_to (sp_length sp) result, status))
      | Some GetStatus \<Rightarrow>
          (case dh_get_status dh of (r, status) \<Rightarrow> (vector_append_to_le [] [F16 r], status))
      | _ \<Rightarrow> ([], urb_status_code StatusEPIPE))"

definition interface_out_request ::
    "interface_handler \<Rightarrow> nat \<Rightarrow> SetupPacket \<Rightarrow> virtual_device \<Rightarrow> u32 \<times> virtual_device" where
  "interface_out_request h i sp v =
     (case standard_request_of (calc_standard_request sp) of
        Some ClearFeature \<Rightarrow> (ih_clear_feature h (sp_value sp), v)
      | Some SetFeature \<Rightarrow> (ih_set_feature h (sp_value sp), v)
      | Some SetInterface \<Rightarrow>
          (let status = ih_set_interface h (sp_value sp)
           in (status,
               if status = 0 \<and> unat (sp_value sp) < length (endpoints (ud_interfaces (vd_device v) ! i))
               then update_altsetting i (sp_value sp) v else v))
      | _ \<Rightarrow> (urb_status_code StatusEPIPE, v))"

definition interface_in_request ::
    "interface_handler \<Rightarrow> SetupPacket \<Rightarrow> virtual_device \<Rightarrow> (data \<times> u32) option" where
  "interface_in_request h sp v =
     (case standard_request_of (calc_standard_request sp) of
        Some GetInterface \<Rightarrow>
          map_option (\<lambda>(r, status). (vector_append_to_le [] [F8 r], status))
            (request_get_interface v (sp_index sp))
      | Some GetStatus \<Rightarrow>
          Some (case ih_get_status h of (r, status) \<Rightarrow> (vector_append_to_le [] [F16 r], status))
      | Some GetDescriptor \<Rightarrow>
          Some (case ih_get_descriptor h (ucast (drop_bit 8 (sp_value sp)))
                       (ucast (sp_value sp AND 0x00FF)) (sp_length sp) of
                  (result, status) \<Rightarrow> (truncate_to (sp_length sp) result, status))
      | _ \<Rightarrow> Some ([], urb_status_code StatusEPIPE))"

definition endpoint_out_request :: "interface_handler \<Rightarrow> SetupPacket \<Rightarrow> u32" where
  "endpoint_out_request h sp =
     (case standard_request_of (calc_standard_request sp) of
        Some ClearFeature \<Rightarrow> ih_endpoint_clear_feature h (sp_value sp) (ucast (sp_index sp))
      | Some SetFeature \<Rightarrow> ih_endpoint_set_feature h (sp_value sp) (ucast (sp_index sp))
      | _ \<Rightarrow> urb_status_code StatusEPIPE)"

definition endpoint_in_request :: "interface_handler \<Rightarrow> SetupPacket \<Rightarrow> data \<times> u32" where
  "endpoint_in_request h sp =
     (case standard_request_of (calc_standard_request sp) of
        Some GetStatus \<Rightarrow>
          (case ih_endpoint_get_status h (ucast (sp_index sp)) of
             (r, status) \<Rightarrow> (vector_append_to_le [] [F16 r], status))
      | Some SynchFrame \<Rightarrow> ([], ih_endpoint_sync_frame h (ucast (sp_index sp)))
      | _ \<Rightarrow> ([], urb_status_code StatusEPIPE))"

text \<open>The two ways a standard request is answered.\<close>

definition status_reply :: "u32 \<Rightarrow> u32 \<Rightarrow> vd_event" where
  "status_reply seqnum status = Vd_reply (create_ret_submit_with_status_and_no_data seqnum status 0)"

definition stall_reply :: "u32 \<Rightarrow> vd_event" where
  "stall_reply seqnum = Vd_reply (create_ret_submit_epipe_without_data seqnum 0)"

definition data_reply :: "u32 \<Rightarrow> u32 \<Rightarrow> data \<Rightarrow> GenericTransfer TransferHandle \<Rightarrow> vd_event option" where
  "data_reply seqnum status result th =
     map_option (\<lambda>trx. Vd_reply (create_ret_submit_with_status_and_no_iso seqnum status
          (of_nat (length result))
          (th\<lparr>th_handle := Some (trx\<lparr>gt_data := result, gt_actual_length := length result,
                gt_data_offset := 0\<rparr>)\<rparr>)))
       (th_handle th)"

type_synonym vd_result = "(vd_event list \<times> ErrorType option \<times> virtual_device) option"

definition standard_to_device ::
    "device_hooks \<Rightarrow> virtual_device \<Rightarrow> u32 \<Rightarrow> u32 \<Rightarrow> SetupPacket \<Rightarrow> GenericTransfer TransferHandle \<Rightarrow> vd_result" where
  "standard_to_device dh v seqnum tbl sp th =
     (if setup_is_out sp
      then map_option (\<lambda>status. ([status_reply seqnum status], None, v)) (device_out_request dh sp tbl th)
      else (case device_in_request dh v sp of
              (result, status) \<Rightarrow> map_option (\<lambda>e. ([e], None, v)) (data_reply seqnum status result th)))"

definition standard_to_interface ::
    "virtual_device \<Rightarrow> u32 \<Rightarrow> SetupPacket \<Rightarrow> GenericTransfer TransferHandle \<Rightarrow> vd_result" where
  "standard_to_interface v seqnum sp th =
     (let i = unat (sp_index sp)
      in if length (ud_interfaces (vd_device v)) \<le> i then Some ([stall_reply seqnum], None, v)
         else (case if_handler (ud_interfaces (vd_device v) ! i) of
                 None \<Rightarrow> Some ([stall_reply seqnum], Some INVALID_ARG, v)
               | Some hid \<Rightarrow>
                   (let h = vd_handlers v hid
                    in if setup_is_out sp
                       then (case interface_out_request h i sp v of
                               (status, v') \<Rightarrow> Some ([status_reply seqnum status], None, v'))
                       else (case interface_in_request h sp v of
                               None \<Rightarrow> None
                             | Some (result, status) \<Rightarrow>
                                 map_option (\<lambda>e. ([e], None, v)) (data_reply seqnum status result th)))))"

definition standard_to_endpoint ::
    "virtual_device \<Rightarrow> u32 \<Rightarrow> SetupPacket \<Rightarrow> GenericTransfer TransferHandle \<Rightarrow> vd_result" where
  "standard_to_endpoint v seqnum sp th =
     (case find_ep (vd_device v) (ucast (sp_index sp)) of
        None \<Rightarrow> Some ([], None, v)
      | Some (_, None) \<Rightarrow> Some ([stall_reply seqnum], Some INVALID_ARG, v)
      | Some (_, Some intf) \<Rightarrow>
          (case if_handler intf of
             None \<Rightarrow> Some ([stall_reply seqnum], Some INVALID_ARG, v)
           | Some hid \<Rightarrow>
               (let h = vd_handlers v hid
                in if setup_is_out sp
                   then Some ([status_reply seqnum (endpoint_out_request h sp)], None, v)
                   else (case endpoint_in_request h sp of
                           (result, status) \<Rightarrow>
                             map_option (\<lambda>e. ([e], None, v)) (data_reply seqnum status result th)))))"

definition nonstandard_request ::
    "virtual_device \<Rightarrow> u32 \<Rightarrow> SetupPacket \<Rightarrow> GenericTransfer TransferHandle \<Rightarrow> vd_result" where
  "nonstandard_request v seqnum sp th =
     (case recipient_of (calc_recipient sp) of
        Some RR_Device \<Rightarrow> Some ([Vd_device_request th], None, v)
      | Some RR_Interface \<Rightarrow>
          (let i = unat (sp_index sp AND 0xFF)
           in if length (ud_interfaces (vd_device v)) \<le> i then Some ([stall_reply seqnum], None, v)
              else (case if_handler (ud_interfaces (vd_device v) ! i) of
                      Some h \<Rightarrow> Some ([Vd_interface_request h th], None, v)
                    | None \<Rightarrow> Some ([stall_reply seqnum], Some INVALID_ARG, v)))
      | Some RR_Endpoint \<Rightarrow>
          (case find_ep (vd_device v) (ucast (sp_index sp)) of
             Some (_, Some intf) \<Rightarrow>
               (case if_handler intf of
                  Some h \<Rightarrow> Some ([Vd_endpoint_request h th], None, v)
                | None \<Rightarrow> Some ([stall_reply seqnum], Some INVALID_ARG, v))
           | _ \<Rightarrow> Some ([stall_reply seqnum], Some INVALID_ARG, v))
      | _ \<Rightarrow> Some ([stall_reply seqnum], None, v))"

definition handle_control_urb ::
    "device_hooks \<Rightarrow> virtual_device \<Rightarrow> u32 \<Rightarrow> u32 \<Rightarrow> SetupPacket \<Rightarrow> GenericTransfer TransferHandle \<Rightarrow> vd_result" where
  "handle_control_urb dh v seqnum transfer_buffer_length sp th =
     (if calc_request_type sp = RequestType_Standard
      then (case recipient_of (calc_recipient sp) of
              Some RR_Device \<Rightarrow> standard_to_device dh v seqnum transfer_buffer_length sp th
            | Some RR_Interface \<Rightarrow> standard_to_interface v seqnum sp th
            | Some RR_Endpoint \<Rightarrow> standard_to_endpoint v seqnum sp th
            | _ \<Rightarrow> Some ([stall_reply seqnum], None, v))
      else nonstandard_request v seqnum sp th)"

section \<open>Dispatch\<close>

definition handle_bulk_transfer :: "u32 \<Rightarrow> UsbInterface \<Rightarrow> GenericTransfer TransferHandle \<Rightarrow> vd_event list" where
  "handle_bulk_transfer seqnum intf th =
     [case if_handler intf of Some h \<Rightarrow> Vd_bulk h th | None \<Rightarrow> stall_reply seqnum]"

definition handle_interrupt_transfer :: "u32 \<Rightarrow> UsbInterface \<Rightarrow> GenericTransfer TransferHandle \<Rightarrow> vd_event list" where
  "handle_interrupt_transfer seqnum intf th =
     [case if_handler intf of Some h \<Rightarrow> Vd_interrupt h th | None \<Rightarrow> stall_reply seqnum]"

definition handle_isochronous_transfer ::
    "u32 \<Rightarrow> UsbInterface \<Rightarrow> int \<Rightarrow> GenericTransfer TransferHandle \<Rightarrow> vd_event list" where
  "handle_isochronous_transfer seqnum intf num_iso th =
     [case if_handler intf of Some h \<Rightarrow> Vd_isochronous h num_iso th | None \<Rightarrow> stall_reply seqnum]"

definition dispatch_urb ::
    "device_hooks \<Rightarrow> virtual_device \<Rightarrow> GenericTransfer UsbIpCmdSubmit \<Rightarrow> UsbEndpoint \<Rightarrow> UsbInterface option \<Rightarrow> vd_result" where
  "dispatch_urb dh v cmd ep interface =
     (let seqnum = h_seqnum (cs_header cmd); xfer_type = ep_attributes ep AND 0x03; th = cs_transfer cmd
      in if xfer_type = ep_attr_code EA_Control
         then handle_control_urb dh v seqnum (cs_transfer_buffer_length cmd) (cs_setup cmd) th
         else (case interface of
                 Some intf \<Rightarrow>
                   if xfer_type = ep_attr_code EA_Bulk
                   then Some (handle_bulk_transfer seqnum intf th, None, v)
                   else if xfer_type = ep_attr_code EA_Interrupt
                   then Some (handle_interrupt_transfer seqnum intf th, None, v)
                   else if xfer_type = ep_attr_code EA_Isochronous
                   then Some (handle_isochronous_transfer seqnum intf
                          (if cs_number_of_packets cmd \<noteq> 0 \<and> cs_number_of_packets cmd \<noteq> 0xFFFFFFFF
                           then sint (cs_number_of_packets cmd) else 0) th, None, v)
                   else Some ([], Some INVALID_ARG, v)
               | None \<Rightarrow> Some ([], Some INTERNAL_ERROR, v)))"

definition receive_urb ::
    "device_hooks \<Rightarrow> virtual_device \<Rightarrow> GenericTransfer UsbIpCmdSubmit \<Rightarrow> UsbEndpoint \<Rightarrow> UsbInterface option \<Rightarrow> vd_result" where
  "receive_urb = dispatch_urb"

definition change_device_ep0_max_size_by_speed :: "UsbDevice \<Rightarrow> UsbDevice" where
  "change_device_ep0_max_size_by_speed dev =
     (let set_mps = (\<lambda>m. dev\<lparr>ud_ep0_in := (ud_ep0_in dev)\<lparr>ep_max_packet_size := m\<rparr>,
                              ud_ep0_out := (ud_ep0_out dev)\<lparr>ep_max_packet_size := m\<rparr>\<rparr>)
      in case speed_of (ud_speed dev) of
           Some Speed_Unknown \<Rightarrow> set_mps 8 | Some Speed_Low \<Rightarrow> set_mps 8
         | Some _ \<Rightarrow> set_mps 64
         | None \<Rightarrow> dev)"

section \<open>Connections\<close>

text \<open>The calls \<open>on_new_connection\<close> and \<open>on_disconnection\<close> make, in order. \<open>outcome h\<close> is the error code
  left by \<open>on_new_connection\<close> of interface handler \<open>h\<close>.\<close>

datatype conn_event =
  Register_responder | Remove_responder | Scheduler_start | Scheduler_stop | If_connect nat | If_disconnect nat

definition handlers_of :: "UsbInterface list \<Rightarrow> nat list" where
  "handlers_of intfs = concat (map (\<lambda>i. case if_handler i of Some h \<Rightarrow> [h] | None \<Rightarrow> []) intfs)"

fun connect_interfaces ::
    "(nat \<Rightarrow> ErrorType option) \<Rightarrow> bool \<Rightarrow> UsbInterface list \<Rightarrow> UsbInterface list \<Rightarrow> conn_event list \<times> ErrorType option" where
  "connect_interfaces outcome sched before [] = ([], None)"
| "connect_interfaces outcome sched before (intf # intfs) =
     (case if_handler intf of
        None \<Rightarrow> connect_interfaces outcome sched (before @ [intf]) intfs
      | Some h \<Rightarrow>
          (case outcome h of
             None \<Rightarrow> (case connect_interfaces outcome sched (before @ [intf]) intfs of
                        (evs, ec) \<Rightarrow> (If_connect h # evs, ec))
           | Some e \<Rightarrow>
               (If_connect h # map If_disconnect (handlers_of before) @
                  (if sched then [Scheduler_stop] else []) @ [Remove_responder], Some e)))"

definition vd_on_new_connection ::
    "(nat \<Rightarrow> ErrorType option) \<Rightarrow> bool \<Rightarrow> UsbInterface list \<Rightarrow> conn_event list \<times> ErrorType option" where
  "vd_on_new_connection outcome use_transfer_scheduler intfs =
     (case connect_interfaces outcome use_transfer_scheduler [] intfs of
        (evs, ec) \<Rightarrow>
          (Register_responder # (if use_transfer_scheduler then [Scheduler_start] else []) @ evs, ec))"

definition vd_on_disconnection :: "bool \<Rightarrow> UsbInterface list \<Rightarrow> conn_event list" where
  "vd_on_disconnection use_transfer_scheduler intfs =
     (if use_transfer_scheduler then [Scheduler_stop] else []) @
     map If_disconnect (handlers_of intfs) @ [Remove_responder]"

text \<open>What the calls leave behind.\<close>

record conn_state =
  cn_responder :: bool
  cn_scheduler :: bool
  cn_interfaces :: "nat set"

definition conn_idle :: conn_state where
  "conn_idle = \<lparr>cn_responder = False, cn_scheduler = False, cn_interfaces = {}\<rparr>"

fun conn_apply :: "(nat \<Rightarrow> ErrorType option) \<Rightarrow> conn_event \<Rightarrow> conn_state \<Rightarrow> conn_state" where
  "conn_apply outcome Register_responder c = c\<lparr>cn_responder := True\<rparr>"
| "conn_apply outcome Remove_responder c = c\<lparr>cn_responder := False\<rparr>"
| "conn_apply outcome Scheduler_start c = c\<lparr>cn_scheduler := True\<rparr>"
| "conn_apply outcome Scheduler_stop c = c\<lparr>cn_scheduler := False\<rparr>"
| "conn_apply outcome (If_connect h) c =
     (if outcome h = None then c\<lparr>cn_interfaces := insert h (cn_interfaces c)\<rparr> else c)"
| "conn_apply outcome (If_disconnect h) c = c\<lparr>cn_interfaces := cn_interfaces c - {h}\<rparr>"

section \<open>Unlink\<close>

text \<open>\<open>unlink h\<close> is \<open>handle_unlink_seqnum\<close> of interface handler \<open>h\<close>: the responses it sends and its
  effect on the state of the handlers.\<close>

definition default_handle_unlink :: "nat \<Rightarrow> u32 \<Rightarrow> u32 \<Rightarrow> 's \<Rightarrow> UsbIpRetUnlink list \<times> 's" where
  "default_handle_unlink h unlink_seqnum cmd_seqnum s = ([], s)"

fun unlink_handlers ::
    "(nat \<Rightarrow> u32 \<Rightarrow> u32 \<Rightarrow> 's \<Rightarrow> UsbIpRetUnlink list \<times> 's) \<Rightarrow> u32 \<Rightarrow> u32 \<Rightarrow> nat list \<Rightarrow> 's \<Rightarrow>
     UsbIpRetUnlink list \<times> 's" where
  "unlink_handlers unlink u c [] s = ([], s)"
| "unlink_handlers unlink u c (h # hs) s =
     (case unlink h u c s of (rs, s1) \<Rightarrow>
        (case unlink_handlers unlink u c hs s1 of (rs', s2) \<Rightarrow> (rs @ rs', s2)))"

definition vd_handle_unlink_seqnum ::
    "bool \<Rightarrow> int \<Rightarrow> (nat \<Rightarrow> u32 \<Rightarrow> u32 \<Rightarrow> 's \<Rightarrow> UsbIpRetUnlink list \<times> 's) \<Rightarrow> UsbInterface list \<Rightarrow>
     u32 \<Rightarrow> u32 \<Rightarrow> 'tr TransferScheduler \<Rightarrow> 's \<Rightarrow> UsbIpRetUnlink list \<times> 'tr TransferScheduler \<times> 's" where
  "vd_handle_unlink_seqnum use_transfer_scheduler now unlink intfs unlink_seqnum cmd_seqnum sch s =
     (case (if use_transfer_scheduler then sch_cancel now unlink_seqnum sch else (False, sch)) of
        (True, sch') \<Rightarrow> ([create_ret_unlink cmd_seqnum (urb_status_code StatusECONNRESET)], sch', s)
      | (False, sch') \<Rightarrow>
          (case unlink_handlers unlink unlink_seqnum cmd_seqnum (handlers_of intfs) s of
             (rs, s') \<Rightarrow> (rs, sch', s')))"

section \<open>Setup of the interfaces\<close>

text \<open>\<open>setup_interface_handlers\<close>: the transfer operator of each interface handler is registered for
  every endpoint of all its alternate settings (\<open>register_endpoint_operator\<close> overwrites), and
  \<open>on_setup_interface_handlers\<close> is called on each handler; the result is the routing table and
  the handlers called, in order. \<open>if_op h\<close> is the operator of handler \<open>h\<close>.\<close>

fun register_endpoints ::
    "'tr TransferOperator \<Rightarrow> UsbEndpoint list \<Rightarrow> (u8 \<rightharpoonup> 'tr TransferOperator) \<Rightarrow> (u8 \<rightharpoonup> 'tr TransferOperator)" where
  "register_endpoints p [] ep_operators = ep_operators"
| "register_endpoints p (ep # eps) ep_operators = register_endpoints p eps (ep_operators(ep_address ep \<mapsto> p))"

fun vd_setup_interface_handlers ::
    "(nat \<Rightarrow> 'tr TransferOperator) \<Rightarrow> UsbInterface list \<Rightarrow> (u8 \<rightharpoonup> 'tr TransferOperator) \<Rightarrow>
     (u8 \<rightharpoonup> 'tr TransferOperator) \<times> nat list" where
  "vd_setup_interface_handlers if_op [] ep_operators = (ep_operators, [])"
| "vd_setup_interface_handlers if_op (intf # intfs) ep_operators =
     (case if_handler intf of
        None \<Rightarrow> vd_setup_interface_handlers if_op intfs ep_operators
      | Some h \<Rightarrow>
          (case vd_setup_interface_handlers if_op intfs
                  (register_endpoints (if_op h) (concat (endpoints intf)) ep_operators) of
             (ops, hs) \<Rightarrow> (ops, h # hs)))"

lemma register_endpoints_lookup:
  "register_endpoints p eps m a = (if a \<in> ep_address ` set eps then Some p else m a)"
  by (induction eps arbitrary: m) auto

lemma vd_setup_calls: "snd (vd_setup_interface_handlers if_op intfs m) = handlers_of intfs"
  by (induction intfs arbitrary: m) (auto simp: handlers_of_def case_prod_beta split: option.splits)

lemma vd_setup_lookup_other:
  "(\<And>intf. intf \<in> set intfs \<Longrightarrow> a \<notin> ep_address ` set (concat (endpoints intf))) \<Longrightarrow>
   fst (vd_setup_interface_handlers if_op intfs m) a = m a"
proof (induction intfs arbitrary: m)
  case (Cons i intfs)
  have "a \<notin> ep_address ` set (concat (endpoints i))" using Cons.prems by simp
  with Cons show ?case
    by (auto simp: register_endpoints_lookup case_prod_beta split: option.splits)
qed simp

text \<open>A transfer for an endpoint that belongs to one interface is allocated by the operator of that
  interface's handler.\<close>

lemma vd_setup_routes:
  "intfs = before @ intf # after \<Longrightarrow> if_handler intf = Some h \<Longrightarrow>
   a \<in> ep_address ` set (concat (endpoints intf)) \<Longrightarrow>
   (\<And>i. i \<in> set after \<Longrightarrow> a \<notin> ep_address ` set (concat (endpoints i))) \<Longrightarrow>
   get_operator_for_ep (VirtualDevice_op (fst (vd_setup_interface_handlers if_op intfs m)) g) a = if_op h"
proof (induction before arbitrary: intfs m)
  case Nil
  then show ?case
    using vd_setup_lookup_other[of after a if_op] by (simp add: case_prod_beta register_endpoints_lookup)
next
  case (Cons b before)
  show ?case
  proof (cases "if_handler b")
    case None
    with Cons.IH[OF refl Cons.prems(2-4), of m] Cons.prems(1) show ?thesis by simp
  next
    case (Some h')
    with Cons.IH[OF refl Cons.prems(2-4), of "register_endpoints (if_op h') (concat (endpoints b)) m"]
      Cons.prems(1) show ?thesis by (simp add: case_prod_beta)
  qed
qed

section \<open>Strings of the device\<close>

text \<open>The four \<open>change_string_*\<close> functions: an unset index (0) is allocated first.\<close>

definition change_device_string :: "u8 \<Rightarrow> wstring \<Rightarrow> StringPool \<Rightarrow> pool_error + (u8 \<times> StringPool)" where
  "change_device_string index str sp =
     (if index = 0 then new_string str sp
      else (case change_string index str sp of Inl e \<Rightarrow> Inl e | Inr sp' \<Rightarrow> Inr (index, sp')))"

definition set_device_string ::
    "u8 \<Rightarrow> (u8 \<Rightarrow> virtual_device \<Rightarrow> virtual_device) \<Rightarrow> wstring \<Rightarrow> virtual_device \<Rightarrow> pool_error + virtual_device" where
  "set_device_string index set_index str v =
     (case change_device_string index str (vd_string_pool v) of
        Inl e \<Rightarrow> Inl e
      | Inr (k, sp) \<Rightarrow> Inr ((set_index k v)\<lparr>vd_string_pool := sp\<rparr>))"

definition change_string_configuration :: "wstring \<Rightarrow> virtual_device \<Rightarrow> pool_error + virtual_device" where
  "change_string_configuration str v =
     set_device_string (vd_string_configuration v) (\<lambda>k v. v\<lparr>vd_string_configuration := k\<rparr>) str v"

definition change_string_manufacturer :: "wstring \<Rightarrow> virtual_device \<Rightarrow> pool_error + virtual_device" where
  "change_string_manufacturer str v =
     set_device_string (vd_string_manufacturer v) (\<lambda>k v. v\<lparr>vd_string_manufacturer := k\<rparr>) str v"

definition change_string_product :: "wstring \<Rightarrow> virtual_device \<Rightarrow> pool_error + virtual_device" where
  "change_string_product str v =
     set_device_string (vd_string_product v) (\<lambda>k v. v\<lparr>vd_string_product := k\<rparr>) str v"

definition change_string_serial :: "wstring \<Rightarrow> virtual_device \<Rightarrow> pool_error + virtual_device" where
  "change_string_serial str v =
     set_device_string (vd_string_serial v) (\<lambda>k v. v\<lparr>vd_string_serial := k\<rparr>) str v"

definition get_string_manufacturer :: "virtual_device \<Rightarrow> wstring" where
  "get_string_manufacturer v = (case get_string (vd_string_manufacturer v) (vd_string_pool v) of Some s \<Rightarrow> s | None \<Rightarrow> [])"

definition get_string_product :: "virtual_device \<Rightarrow> wstring" where
  "get_string_product v = (case get_string (vd_string_product v) (vd_string_pool v) of Some s \<Rightarrow> s | None \<Rightarrow> [])"

definition get_string_serial :: "virtual_device \<Rightarrow> wstring" where
  "get_string_serial v = (case get_string (vd_string_serial v) (vd_string_pool v) of Some s \<Rightarrow> s | None \<Rightarrow> [])"

text \<open>A device string that was changed reads back.\<close>

lemma change_string_manufacturer_get:
  "change_string_manufacturer str v = Inr v' \<Longrightarrow> get_string_manufacturer v' = str"
  using new_string_spec[where str = str and sp = "vd_string_pool v"]
  by (auto simp: change_string_manufacturer_def get_string_manufacturer_def set_device_string_def
      change_device_string_def change_string_def get_string_def split: sum.splits if_splits)

section \<open>Connections: proofs\<close>

lemma handlers_of_simps [simp]:
  "handlers_of [] = []"
  "handlers_of (i # is) = (case if_handler i of Some h \<Rightarrow> [h] | None \<Rightarrow> []) @ handlers_of is"
  "handlers_of (xs @ ys) = handlers_of xs @ handlers_of ys"
  by (simp_all add: handlers_of_def)

lemma conn_disconnect_all:
  "fold (conn_apply outcome) (map If_disconnect hs) c =
     c\<lparr>cn_interfaces := cn_interfaces c - set hs\<rparr>"
proof (induction hs arbitrary: c)
  case (Cons a hs)
  have "cn_interfaces c - {a} - set hs = cn_interfaces c - set (a # hs)" by auto
  with Cons show ?case by simp
qed simp

lemma connect_interfaces_spec:
  assumes "connect_interfaces outcome sched before intfs = (evs, ec)"
    and "cn_interfaces c = set (handlers_of before)" "cn_scheduler c = sched"
  shows "fold (conn_apply outcome) evs c =
    (if ec = None then c\<lparr>cn_interfaces := set (handlers_of (before @ intfs))\<rparr> else conn_idle)"
  using assms
proof (induction intfs arbitrary: before evs c)
  case Nil
  then show ?case by simp
next
  case (Cons i intfs)
  show ?case
  proof (cases "if_handler i")
    case None
    with Cons.prems Cons.IH[of "before @ [i]" evs c] show ?thesis by simp
  next
    case (Some h)
    show ?thesis
    proof (cases "outcome h")
      case None
      with Cons.prems(1) Some obtain evs' where e: "evs = If_connect h # evs'"
        "connect_interfaces outcome sched (before @ [i]) intfs = (evs', ec)"
        by (auto split: prod.splits)
      from Cons.IH[OF e(2), of "c\<lparr>cn_interfaces := insert h (cn_interfaces c)\<rparr>"] Cons.prems(2,3) Some None e(1)
      show ?thesis by simp
    next
      case (Some e)
      with Cons.prems \<open>if_handler i = Some h\<close> show ?thesis
        by (auto simp: conn_disconnect_all conn_idle_def)
    qed
  qed
qed

lemma connect_interfaces_error:
  "snd (connect_interfaces outcome sched before intfs) = None \<longleftrightarrow>
     (\<forall>h \<in> set (handlers_of intfs). outcome h = None)"
  by (induction intfs arbitrary: before) (auto simp: case_prod_beta split: option.splits)

text \<open>Connecting a virtual device is all or nothing: it succeeds exactly when every interface
  handler does, and then the responder is registered, the scheduler runs if the device uses it and
  every interface is connected; when one fails, everything done before is undone. A disconnection
  undoes a successful connection.\<close>

theorem vd_connection_lifecycle:
  assumes "vd_on_new_connection outcome sched intfs = (evs, ec)"
  shows "(ec = None \<longleftrightarrow> (\<forall>h \<in> set (handlers_of intfs). outcome h = None)) \<and>
    fold (conn_apply outcome) evs conn_idle =
      (if ec = None
       then \<lparr>cn_responder = True, cn_scheduler = sched, cn_interfaces = set (handlers_of intfs)\<rparr>
       else conn_idle) \<and>
    fold (conn_apply outcome) (evs @ (if ec = None then vd_on_disconnection sched intfs else [])) conn_idle =
      conn_idle"
proof -
  from assms obtain es where es: "connect_interfaces outcome sched [] intfs = (es, ec)"
    "evs = Register_responder # (if sched then [Scheduler_start] else []) @ es"
    by (auto simp: vd_on_new_connection_def split: prod.splits)
  have ec: "ec = None \<longleftrightarrow> (\<forall>h \<in> set (handlers_of intfs). outcome h = None)"
    using connect_interfaces_error[of outcome sched "[]" intfs] es(1) by simp
  have st: "fold (conn_apply outcome) evs conn_idle =
      (if ec = None
       then \<lparr>cn_responder = True, cn_scheduler = sched, cn_interfaces = set (handlers_of intfs)\<rparr>
       else conn_idle)"
    using connect_interfaces_spec[OF es(1), of "\<lparr>cn_responder = True, cn_scheduler = sched, cn_interfaces = {}\<rparr>"]
    by (cases sched) (auto simp: es(2) conn_idle_def)
  then show ?thesis
    using ec by (simp add: vd_on_disconnection_def conn_disconnect_all) (simp add: conn_idle_def)
qed

theorem vd_connection_lifecycle_witness:
  "fold (conn_apply (\<lambda>h. if h = 1 then Some INTERNAL_ERROR else None))
     [Register_responder, Scheduler_start, If_connect 0, If_connect 1, If_disconnect 0, Scheduler_stop,
      Remove_responder] conn_idle = conn_idle"
proof -
  have "vd_on_new_connection (\<lambda>h. if h = 1 then Some INTERNAL_ERROR else None) True
      [default_interface\<lparr>if_handler := Some 0\<rparr>, default_interface\<lparr>if_handler := Some 1\<rparr>] =
    ([Register_responder, Scheduler_start, If_connect 0, If_connect 1, If_disconnect 0, Scheduler_stop,
      Remove_responder], Some INTERNAL_ERROR)"
    by (simp add: vd_on_new_connection_def)
  from vd_connection_lifecycle[OF this] show ?thesis by simp
qed

section \<open>Control requests: proofs\<close>

text \<open>What the reply to a request looks like: the sequence number of the request, and either no
  transfer and no data or the data of the transfer from its start, not longer than the host asked
  for (two bytes of status are always sent whole).\<close>

definition control_reply_ok :: "u32 \<Rightarrow> SetupPacket \<Rightarrow> GenericTransfer UsbIpRetSubmit \<Rightarrow> bool" where
  "control_reply_ok seqnum sp r \<longleftrightarrow>
     rs_header r = get_server_header USBIP_RET_SUBMIT seqnum \<and> rs_number_of_packets r = 0 \<and>
     (case th_handle (rs_transfer r) of
        None \<Rightarrow> rs_actual_length r = 0
      | Some t \<Rightarrow> unat (rs_actual_length r) = length (gt_data t) \<and> gt_data_offset t = 0 \<and>
          length (gt_data t) \<le> max 2 (unat (sp_length sp)))"

fun event_ok :: "u32 \<Rightarrow> SetupPacket \<Rightarrow> vd_event \<Rightarrow> bool" where
  "event_ok seqnum sp (Vd_reply r) = control_reply_ok seqnum sp r"
| "event_ok seqnum sp _ = True"

lemma event_ok_status [simp]:
  "event_ok seqnum sp (status_reply seqnum status)" "event_ok seqnum sp (stall_reply seqnum)"
  by (simp_all add: status_reply_def stall_reply_def control_reply_ok_def TransferHandle_empty_def
      create_ret_submit_with_status_and_no_data_def create_ret_submit_epipe_without_data_def)

lemma data_reply_ok:
  assumes "th_handle th = Some t" "length result \<le> max 2 (unat (sp_length sp))"
  shows "\<exists>e. data_reply seqnum status result th = Some e \<and> event_ok seqnum sp e"
proof -
  have "unat (sp_length sp) < 2 ^ 16" using unsigned_less[of "sp_length sp", where ?'a = nat] by simp
  with assms(2) have "length result < 2 ^ 32" by simp
  then have "unat (of_nat (length result) :: u32) = length result"
    by (simp add: unat_of_nat)
  with assms show ?thesis
    by (simp add: data_reply_def control_reply_ok_def create_ret_submit_with_status_and_no_iso_def)
qed

lemma in_request_bounds:
  "device_in_request dh v sp = (r, st) \<Longrightarrow> length r \<le> max 2 (unat (sp_length sp))"
  "interface_in_request h sp v = Some (r, st) \<Longrightarrow> length r \<le> max 2 (unat (sp_length sp))"
  "endpoint_in_request h sp = (r, st) \<Longrightarrow> length r \<le> max 2 (unat (sp_length sp))"
  by (auto simp: device_in_request_def interface_in_request_def endpoint_in_request_def truncate_to_take
      split: option.splits StandardRequest.splits prod.splits)

lemma interface_in_request_total:
  "unat (sp_index sp) < length (ud_interfaces (vd_device v)) \<Longrightarrow> interface_in_request h sp v \<noteq> None"
  by (auto simp: interface_in_request_def request_get_interface_def
      split: option.splits StandardRequest.splits)

text \<open>The alternate settings in use exist.\<close>

definition altsettings_ok :: "virtual_device \<Rightarrow> bool" where
  "altsettings_ok v \<longleftrightarrow>
     list_all (\<lambda>i. endpoints i = [] \<or> unat (current_altsetting i) < length (endpoints i))
       (ud_interfaces (vd_device v))"

lemma update_altsetting_ok:
  assumes "altsettings_ok v" "unat alt < length (endpoints (ud_interfaces (vd_device v) ! i))"
  shows "altsettings_ok (update_altsetting i alt v)"
proof -
  have "unat (ucast alt :: u8) \<le> unat alt"
    by (simp add: unsigned_ucast_eq take_bit_nat_less_eq_self)
  with assms show ?thesis
    by (cases "i < length (ud_interfaces (vd_device v))")
       (auto simp: altsettings_ok_def update_altsetting_def Let_def list_all_length nth_list_update)
qed

lemma interface_out_request_altsettings:
  "altsettings_ok v \<Longrightarrow> altsettings_ok (snd (interface_out_request h i sp v))"
  by (auto simp: interface_out_request_def Let_def intro: update_altsetting_ok
      split: option.splits StandardRequest.splits)

text \<open>The result of a request that is answered or passed on exactly once.\<close>

definition answered_once :: "u32 \<Rightarrow> SetupPacket \<Rightarrow> virtual_device \<Rightarrow> vd_result \<Rightarrow> bool" where
  "answered_once seqnum sp v res \<longleftrightarrow>
     (\<exists>e ec v'. res = Some ([e], ec, v') \<and> event_ok seqnum sp e \<and> (altsettings_ok v \<longrightarrow> altsettings_ok v'))"

lemma answered_onceI:
  "event_ok seqnum sp e \<Longrightarrow> altsettings_ok v \<longrightarrow> altsettings_ok v' \<Longrightarrow>
   answered_once seqnum sp v (Some ([e], ec, v'))"
  by (auto simp: answered_once_def)

lemma answered_once_data:
  assumes "th_handle th = Some t" "length result \<le> max 2 (unat (sp_length sp))"
  shows "answered_once seqnum sp v (map_option (\<lambda>e. ([e], None, v)) (data_reply seqnum status result th))"
  using data_reply_ok[OF assms, of seqnum status] by (auto simp: answered_once_def)

lemma standard_to_device_once:
  assumes "th_handle th = Some t" "unat tbl \<le> length (gt_data t)"
  shows "answered_once seqnum sp v (standard_to_device dh v seqnum tbl sp th)"
proof (cases "setup_is_out sp")
  case True
  from assms have "device_out_request dh sp tbl th \<noteq> None"
    by (auto simp: device_out_request_def slice_def split: option.splits StandardRequest.splits)
  with True show ?thesis by (auto simp: standard_to_device_def intro!: answered_onceI)
next
  case False
  obtain r st where r: "device_in_request dh v sp = (r, st)" by fastforce
  from False r answered_once_data[OF assms(1) in_request_bounds(1)[OF r]] show ?thesis
    by (simp add: standard_to_device_def)
qed

lemma standard_to_interface_once:
  assumes "th_handle th = Some t"
  shows "answered_once seqnum sp v (standard_to_interface v seqnum sp th)"
proof (cases "unat (sp_index sp) < length (ud_interfaces (vd_device v))")
  case True
  show ?thesis
  proof (cases "if_handler (ud_interfaces (vd_device v) ! unat (sp_index sp))")
    case None
    with True show ?thesis by (simp add: standard_to_interface_def answered_onceI)
  next
    case (Some hid)
    let ?h = "vd_handlers v hid"
    obtain r st where r: "interface_in_request ?h sp v = Some (r, st)"
      using interface_in_request_total[OF True, of ?h] by auto
    show ?thesis
      using True Some r answered_once_data[OF assms in_request_bounds(2)[OF r], of seqnum v st]
        interface_out_request_altsettings[of v ?h "unat (sp_index sp)" sp]
      by (auto simp: standard_to_interface_def Let_def intro!: answered_onceI split: prod.splits)
  qed
qed (simp add: standard_to_interface_def answered_onceI)

lemma standard_to_endpoint_once:
  assumes "th_handle th = Some t" "find_ep (vd_device v) (ucast (sp_index sp)) \<noteq> None"
  shows "answered_once seqnum sp v (standard_to_endpoint v seqnum sp th)"
proof -
  have "answered_once seqnum sp v
      (case endpoint_in_request h sp of (result, status) \<Rightarrow>
         map_option (\<lambda>e. ([e], None, v)) (data_reply seqnum status result th))" for h
    using answered_once_data[OF assms(1) in_request_bounds(3)] by (auto split: prod.splits)
  with assms(2) show ?thesis
    by (auto simp: standard_to_endpoint_def Let_def intro!: answered_onceI split: option.splits)
qed

lemma nonstandard_request_once: "answered_once seqnum sp v (nonstandard_request v seqnum sp th)"
  by (auto simp: nonstandard_request_def Let_def intro!: answered_onceI
      split: option.splits RequestRecipient.splits)

text \<open>A standard request to an endpoint the device does not have gets no answer.\<close>

definition lost_endpoint_request :: "virtual_device \<Rightarrow> SetupPacket \<Rightarrow> bool" where
  "lost_endpoint_request v sp \<longleftrightarrow>
     calc_request_type sp = RequestType_Standard \<and> recipient_of (calc_recipient sp) = Some RR_Endpoint \<and>
     find_ep (vd_device v) (ucast (sp_index sp)) = None"


definition sample_transfer :: "nat \<Rightarrow> GenericTransfer TransferHandle" where
  "sample_transfer n =
     \<lparr>th_handle = Some \<lparr>gt_data = replicate n 0, gt_iso_descriptors = [], gt_actual_length = 0,
        gt_data_offset = 0, gt_is_in = True\<rparr>, th_op = Some (Leaf_op GenericTransferOperator)\<rparr>"


end
