(* ===== verification/Unlink.thy ===== *)
theory Unlink
  imports Virtual_Device In_Channel Out_Channel
begin

text \<open>
  The contract of \<open>handle_unlink_seqnum\<close> in the class handlers: a request that waits in one of the
  handler's channels is taken out and the CMD_UNLINK is answered with \<open>-ECONNRESET\<close>, any other
  CMD_UNLINK is answered with 0. The contract is stated once and interpreted for the channels
  here and for the class handlers in their theories.
\<close>

definition unlink_reply :: "u32 \<Rightarrow> bool \<Rightarrow> UsbIpRetUnlink" where
  "unlink_reply cmd_seqnum cancelled =
     create_ret_unlink cmd_seqnum (if cancelled then urb_status_code StatusECONNRESET else 0)"

section \<open>Channels that can cancel a request\<close>

locale cancellable =
  fixes cancel :: "u32 \<Rightarrow> 'c \<Rightarrow> bool \<times> 'c"
    and pending :: "'c \<Rightarrow> u32 multiset"
  assumes cancel_found: "fst (cancel u c) \<longleftrightarrow> u \<in># pending c"
    and cancel_pending: "pending (snd (cancel u c)) = pending c - {#u#}"
begin

lemma cancel_twice:
  "count (pending c) u \<le> 1 \<Longrightarrow> \<not> fst (cancel u (snd (cancel u c)))"
  by (simp add: cancel_found cancel_pending in_diff_count)

lemma cancel_other: "v \<noteq> u \<Longrightarrow> v \<in># pending (snd (cancel u c)) \<longleftrightarrow> v \<in># pending c"
  by (simp add: cancel_pending in_diff_count)

end

definition ic_pending :: "('b, 'tr) in_channel \<Rightarrow> u32 multiset" where
  "ic_pending c = image_mset req_seqnum (mset (erq_all (ic_requests c)))"

definition oc_pending_seqnums :: "'tr out_channel \<Rightarrow> u32 multiset" where
  "oc_pending_seqnums c = image_mset pr_seqnum (mset (oc_pending c))"

lemma ic_cancel_found: "fst (ic_cancel_pending u c) \<longleftrightarrow> u \<in># ic_pending c"
  using ic_cancel_pending_spec(3)[of u c "fst (ic_cancel_pending u c)" "snd (ic_cancel_pending u c)"]
  by (simp add: ic_pending_def)

lemma ic_cancel_removes: "ic_pending (snd (ic_cancel_pending u c)) = ic_pending c - {#u#}"
proof -
  obtain b c' where c: "ic_cancel_pending u c = (b, c')" by fastforce
  have "ic_pending c = (if b then add_mset u (ic_pending c') else ic_pending c')"
    using ic_cancel_pending_spec(4,5)[OF c] by (auto simp: ic_account_def ic_pending_def split: if_splits)
  with ic_cancel_found[of u c] c show ?thesis by (cases b) (auto simp: diff_single_trivial)
qed

interpretation in_cancel: cancellable ic_cancel_pending ic_pending
  by unfold_locales (rule ic_cancel_found ic_cancel_removes)+

lemma mset_remove_first_map:
  "image_mset f (mset (remove_first (\<lambda>r. f r = u) xs)) = image_mset f (mset xs) - {#u#}"
  by (induction xs) auto

lemma oc_cancel_found: "fst (oc_cancel_pending u c) \<longleftrightarrow> u \<in># oc_pending_seqnums c"
  by (auto simp: oc_cancel_pending_def oc_pending_seqnums_def)

lemma oc_cancel_removes: "oc_pending_seqnums (snd (oc_cancel_pending u c)) = oc_pending_seqnums c - {#u#}"
proof (cases "fst (oc_cancel_pending u c)")
  case True
  then show ?thesis
    by (auto simp: oc_cancel_pending_def oc_pending_seqnums_def mset_remove_first_map split: if_splits)
next
  case False
  then show ?thesis
    using oc_cancel_found[of u c] by (auto simp: oc_cancel_pending_def diff_single_trivial split: if_splits)
qed

interpretation out_cancel: cancellable oc_cancel_pending oc_pending_seqnums
  by unfold_locales (rule oc_cancel_found oc_cancel_removes)+

section \<open>Handlers\<close>

locale unlink_handler =
  fixes unlink :: "u32 \<Rightarrow> u32 \<Rightarrow> 's \<Rightarrow> UsbIpRetUnlink list \<times> 's"
    and waiting :: "'s \<Rightarrow> u32 multiset"
  assumes unlink_answer: "fst (unlink u c s) = [unlink_reply c (u \<in># waiting s)]"
    and unlink_waiting: "waiting (snd (unlink u c s)) = waiting s - {#u#}"
begin

lemma unlink_once: "length (fst (unlink u c s)) = 1"
  by (simp add: unlink_answer)

lemma unlink_again:
  "count (waiting s) u \<le> 1 \<Longrightarrow> fst (unlink u c (snd (unlink u c' s))) = [unlink_reply c False]"
  by (simp add: unlink_answer unlink_waiting in_diff_count)

end

section \<open>Requests waiting in two channels\<close>

definition unlink_in_out ::
    "u32 \<Rightarrow> u32 \<Rightarrow> ('m, 'tr) in_channel \<times> 'tr out_channel \<Rightarrow>
     UsbIpRetUnlink list \<times> ('m, 'tr) in_channel \<times> 'tr out_channel" where
  "unlink_in_out unlink_seqnum cmd_seqnum chs =
     (case ic_cancel_pending unlink_seqnum (fst chs) of
        (cancelled, ich) \<Rightarrow>
          (if \<not> cancelled
           then (case oc_cancel_pending unlink_seqnum (snd chs) of
                   (cancelled', och) \<Rightarrow> ([unlink_reply cmd_seqnum cancelled'], ich, och))
           else ([unlink_reply cmd_seqnum cancelled], ich, snd chs)))"

definition in_out_waiting :: "('m, 'tr) in_channel \<times> 'tr out_channel \<Rightarrow> u32 multiset" where
  "in_out_waiting chs = ic_pending (fst chs) + oc_pending_seqnums (snd chs)"

interpretation in_out_unlink: unlink_handler unlink_in_out in_out_waiting
proof
  fix u c and s :: "('m, 'tr) in_channel \<times> 'tr out_channel"
  obtain i o' where s: "s = (i, o')" by (cases s)
  obtain b ich where i: "ic_cancel_pending u i = (b, ich)" by fastforce
  obtain b' och where o: "oc_cancel_pending u o' = (b', och)" by fastforce
  have b: "b \<longleftrightarrow> u \<in># ic_pending i" "ic_pending ich = ic_pending i - {#u#}"
    using in_cancel.cancel_found[of u i] in_cancel.cancel_pending[of u i] i by simp_all
  have b': "b' \<longleftrightarrow> u \<in># oc_pending_seqnums o'" "oc_pending_seqnums och = oc_pending_seqnums o' - {#u#}"
    using out_cancel.cancel_found[of u o'] out_cancel.cancel_pending[of u o'] o by simp_all
  show "fst (unlink_in_out u c s) = [unlink_reply c (u \<in># in_out_waiting s)]"
    using b(1) b'(1) by (simp add: unlink_in_out_def s i o in_out_waiting_def)
  show "in_out_waiting (snd (unlink_in_out u c s)) = in_out_waiting s - {#u#}"
    using b b' by (cases b) (auto simp: unlink_in_out_def s i o in_out_waiting_def
        multiset_eq_iff not_in_iff Suc_le_eq)
qed

text \<open>The state of a device with two handlers, 0 and 1.\<close>

definition both_handlers ::
    "(u32 \<Rightarrow> u32 \<Rightarrow> 's \<Rightarrow> UsbIpRetUnlink list \<times> 's) \<Rightarrow> (u32 \<Rightarrow> u32 \<Rightarrow> 't \<Rightarrow> UsbIpRetUnlink list \<times> 't) \<Rightarrow>
     nat \<Rightarrow> u32 \<Rightarrow> u32 \<Rightarrow> 's \<times> 't \<Rightarrow> UsbIpRetUnlink list \<times> 's \<times> 't" where
  "both_handlers unlink_a unlink_b h u c st =
     (if h = 0 then (case unlink_a u c (fst st) of (rs, s) \<Rightarrow> (rs, s, snd st))
      else (case unlink_b u c (snd st) of (rs, t) \<Rightarrow> (rs, fst st, t)))"

text \<open>Two handlers of one device: \<open>VirtualDeviceHandler::handle_unlink_seqnum\<close> calls both.\<close>

locale unlink_pair =
  a: unlink_handler unlink_a waiting_a + b: unlink_handler unlink_b waiting_b
  for unlink_a :: "u32 \<Rightarrow> u32 \<Rightarrow> 's \<Rightarrow> UsbIpRetUnlink list \<times> 's"
    and waiting_a :: "'s \<Rightarrow> u32 multiset"
    and unlink_b :: "u32 \<Rightarrow> u32 \<Rightarrow> 't \<Rightarrow> UsbIpRetUnlink list \<times> 't"
    and waiting_b :: "'t \<Rightarrow> u32 multiset"
begin

lemma both_replies:
  "fst (unlink_handlers (both_handlers unlink_a unlink_b) u c [0, 1] st) =
     [unlink_reply c (u \<in># waiting_a (fst st)), unlink_reply c (u \<in># waiting_b (snd st))]"
  using a.unlink_answer[of u c "fst st"] b.unlink_answer[of u c "snd st"]
  by (auto simp: both_handlers_def split: prod.splits)

end

end
