(* ===== verification/Hid.thy ===== *)
theory Hid
  imports Unlink
begin

text \<open>
  The base class of the HID devices (\<open>HidVirtualInterfaceHandler\<close>): interrupt transfers over the
  message channel, the class requests and the descriptors. The virtual functions of a device are a
  record; \<open>hid_default_hooks\<close> are the implementations of the base class.
\<close>

section \<open>Constants\<close>

datatype HIDRequest = Hid_GetReport | Hid_GetIdle | Hid_GetProtocol | Hid_SetReport | Hid_SetIdle | Hid_SetProtocol

fun hid_request_code :: "HIDRequest \<Rightarrow> u8" where
  "hid_request_code Hid_GetReport = 0x01"
| "hid_request_code Hid_GetIdle = 0x02"
| "hid_request_code Hid_GetProtocol = 0x03"
| "hid_request_code Hid_SetReport = 0x09"
| "hid_request_code Hid_SetIdle = 0x0A"
| "hid_request_code Hid_SetProtocol = 0x0B"

definition hid_request_of :: "u8 \<Rightarrow> HIDRequest option" where
  "hid_request_of c =
     find (\<lambda>r. hid_request_code r = c)
       [Hid_GetReport, Hid_GetIdle, Hid_GetProtocol, Hid_SetReport, Hid_SetIdle, Hid_SetProtocol]"

definition HIDReportType_Output :: u8 where "HIDReportType_Output = 0x01"
definition HIDReportType_Input :: u8 where "HIDReportType_Input = 0x02"
definition HIDProtocolType_Report :: u16 where "HIDProtocolType_Report = 0x01"
definition HidDescriptorType_Hid :: u8 where "HidDescriptorType_Hid = 0x21"
definition HidDescriptorType_Report :: u8 where "HidDescriptorType_Report = 0x22"
definition MAX_PENDING_INPUT_REPORTS :: nat where "MAX_PENDING_INPUT_REPORTS = 1024"

section \<open>The virtual functions\<close>

record hid_hooks =
  hh_report_descriptor :: data
  hh_report_descriptor_size :: u16
  hh_input_report_requested :: "u16 \<Rightarrow> data list"
  hh_get_protocol :: "u8 \<times> u32"
  hh_set_protocol :: "u16 \<Rightarrow> u32"
  hh_get_report :: "u8 \<Rightarrow> u8 \<Rightarrow> u16 \<Rightarrow> data \<times> u32"
  hh_set_report :: "u8 \<Rightarrow> u8 \<Rightarrow> u16 \<Rightarrow> data \<Rightarrow> u32"
  hh_get_idle :: "u8 \<Rightarrow> u8 \<Rightarrow> u16 \<Rightarrow> data \<times> u32"
  hh_set_idle :: "u8 \<Rightarrow> u32"

text \<open>\<open>hh_input_report_requested\<close> gives the reports the callback sends while it runs. The report
  descriptor has no default; its size is what \<open>get_report_descriptor_size\<close> returns.\<close>

definition hid_request_set_protocol :: "UsbInterface \<Rightarrow> u16 \<Rightarrow> u32" where
  "hid_request_set_protocol intf type =
     (if interface_subclass intf = 0x01 \<and> type \<le> HIDProtocolType_Report then urb_status_code StatusOK
      else urb_status_code StatusEPIPE)"

definition hid_request_get_report :: "u8 \<Rightarrow> u8 \<Rightarrow> u16 \<Rightarrow> data \<times> u32" where
  "hid_request_get_report type report_id len = (replicate (unat len) 0, urb_status_code StatusOK)"

definition hid_request_set_report :: "u8 \<Rightarrow> u8 \<Rightarrow> u16 \<Rightarrow> data \<Rightarrow> u32" where
  "hid_request_set_report type report_id len d = urb_status_code StatusOK"

definition hid_default_hooks :: "UsbInterface \<Rightarrow> data \<Rightarrow> u16 \<Rightarrow> hid_hooks" where
  "hid_default_hooks intf report_descriptor desc_size =
     \<lparr>hh_report_descriptor = report_descriptor, hh_report_descriptor_size = desc_size,
      hh_input_report_requested = (\<lambda>_. []), hh_get_protocol = (0, urb_status_code StatusOK),
      hh_set_protocol = hid_request_set_protocol intf, hh_get_report = hid_request_get_report,
      hh_set_report = hid_request_set_report, hh_get_idle = (\<lambda>_ _ _. ([0x00], urb_status_code StatusOK)),
      hh_set_idle = (\<lambda>_. urb_status_code StatusOK)\<rparr>"

section \<open>Operations\<close>

type_synonym hid_handler = "GenericTransfer MessageInChannel"
type_synonym reply = "GenericTransfer UsbIpRetSubmit"

definition hid_new :: hid_handler where
  "hid_new = msg_set_max_pending_messages MAX_PENDING_INPUT_REPORTS
     (in_channel_new \<lparr>mb_pending = [], mb_max = 0\<rparr>)"

definition hid_send_input_report :: "data \<Rightarrow> hid_handler \<Rightarrow> hid_handler" where
  "hid_send_input_report d h = snd (msg_push d True h)"

text \<open>The replies the handler sends itself (the channel records its own), the output report it
  passes to the device, and the handler.\<close>

definition hid_handle_interrupt_transfer ::
    "hid_hooks \<Rightarrow> UsbEndpoint \<Rightarrow> u32 \<Rightarrow> u32 \<Rightarrow> GenericTransfer TransferHandle \<Rightarrow> hid_handler \<Rightarrow>
     (reply list \<times> data option \<times> hid_handler) option" where
  "hid_handle_interrupt_transfer hk ep seqnum len th h =
     (if ep_is_in ep
      then (let h1 = fold hid_send_input_report (hh_input_report_requested hk (ucast len)) h
            in Some ([], None, ic_on_in_request message_ops (ep_address ep) seqnum len th h1))
      else map_option (\<lambda>trx. ([create_ret_submit_ok_without_data seqnum (of_nat (length (gt_data trx)))],
               Some (gt_data trx), h)) (th_handle th))"

definition hid_on_new_connection :: "nat \<Rightarrow> hid_handler \<Rightarrow> hid_handler" where
  "hid_on_new_connection session h = ic_on_new_connection message_ops (Some session) h"

definition hid_on_disconnection :: "hid_handler \<Rightarrow> hid_handler" where
  "hid_on_disconnection h = ic_on_disconnection message_ops h"

definition hid_handle_unlink_seqnum :: "u32 \<Rightarrow> u32 \<Rightarrow> hid_handler \<Rightarrow> UsbIpRetUnlink list \<times> hid_handler" where
  "hid_handle_unlink_seqnum unlink_seqnum cmd_seqnum h =
     (case ic_cancel_pending unlink_seqnum h of (cancelled, h') \<Rightarrow> ([unlink_reply cmd_seqnum cancelled], h'))"

definition hid_in_request :: "hid_hooks \<Rightarrow> SetupPacket \<Rightarrow> data \<times> u32" where
  "hid_in_request hk sp =
     (case hid_request_of (sp_request sp) of
        Some Hid_GetIdle \<Rightarrow>
          (case hh_get_idle hk (ucast (drop_bit 8 (sp_value sp))) (ucast (sp_value sp)) (sp_length sp) of
             (r, status) \<Rightarrow> (truncate_to (sp_length sp) r, status))
      | Some Hid_GetProtocol \<Rightarrow>
          (case hh_get_protocol hk of (r, status) \<Rightarrow> (vector_append_to_le [] [F8 r], status))
      | Some Hid_GetReport \<Rightarrow>
          (case hh_get_report hk (ucast (drop_bit 8 (sp_value sp))) (ucast (sp_value sp)) (sp_length sp) of
             (r, status) \<Rightarrow> (truncate_to (sp_length sp) r, status))
      | _ \<Rightarrow> ([], urb_status_code StatusEPIPE))"

definition hid_out_request :: "hid_hooks \<Rightarrow> SetupPacket \<Rightarrow> data \<Rightarrow> u32" where
  "hid_out_request hk sp out_data =
     (case hid_request_of (sp_request sp) of
        Some Hid_SetIdle \<Rightarrow> hh_set_idle hk (ucast (drop_bit 8 (sp_value sp)))
      | Some Hid_SetProtocol \<Rightarrow> hh_set_protocol hk (sp_value sp)
      | Some Hid_SetReport \<Rightarrow>
          hh_set_report hk (ucast (drop_bit 8 (sp_value sp))) (ucast (sp_value sp)) (sp_length sp) out_data
      | _ \<Rightarrow> urb_status_code StatusEPIPE)"

text \<open>The IN branch answers with \<open>create_ret_submit_ok_with_no_iso\<close>: the status computed by the request
  is not used. \<open>None\<close> is a transfer that is missing or shorter than the request.\<close>

definition hid_control_urb ::
    "hid_hooks \<Rightarrow> u32 \<Rightarrow> u32 \<Rightarrow> SetupPacket \<Rightarrow> GenericTransfer TransferHandle \<Rightarrow> reply option" where
  "hid_control_urb hk seqnum tbl sp th =
     (if calc_request_type sp = RequestType_Class
      then (case th_handle th of
              None \<Rightarrow> None
            | Some trx \<Rightarrow>
                if \<not> setup_is_out sp
                then (case hid_in_request hk sp of
                        (result, status) \<Rightarrow>
                          Some (create_ret_submit_ok_with_no_iso seqnum (of_nat (length result))
                            (th\<lparr>th_handle := Some (trx\<lparr>gt_data := result, gt_actual_length := length result,
                                  gt_data_offset := 0\<rparr>)\<rparr>)))
                else map_option (\<lambda>out_data.
                         create_ret_submit_with_status_and_no_data seqnum (hid_out_request hk sp out_data) 0)
                       (slice 0 (unat tbl) (gt_data trx)))
      else Some (create_ret_submit_epipe_without_data seqnum 0))"

definition hid_request_get_descriptor :: "hid_hooks \<Rightarrow> u8 \<Rightarrow> u8 \<Rightarrow> u16 \<Rightarrow> data \<times> u32" where
  "hid_request_get_descriptor hk type language_id len =
     (if type = HidDescriptorType_Report then (hh_report_descriptor hk, 0)
      else ([], urb_status_code StatusEPIPE))"

definition hid_class_specific_descriptor :: "hid_hooks \<Rightarrow> data" where
  "hid_class_specific_descriptor hk =
     (let desc_size = hh_report_descriptor_size hk
      in [0x09, HidDescriptorType_Hid, 0x11, 0x01, 0x00, 0x01, HidDescriptorType_Report,
          ucast desc_size, ucast (drop_bit 8 desc_size)])"

text \<open>As an interface handler of the virtual device.\<close>

definition hid_interface_handler :: "hid_hooks \<Rightarrow> u8 \<Rightarrow> interface_handler" where
  "hid_interface_handler hk string_value =
     \<lparr>ih_clear_feature = (\<lambda>_. 0), ih_endpoint_clear_feature = (\<lambda>_ _. 0), ih_get_interface = (0, 0),
      ih_set_interface = (\<lambda>_. 0), ih_get_status = (0, 0), ih_endpoint_get_status = (\<lambda>_. (0, 0)),
      ih_get_descriptor = hid_request_get_descriptor hk,
      ih_set_feature = (\<lambda>_. urb_status_code StatusEPIPE),
      ih_endpoint_set_feature = (\<lambda>_ _. urb_status_code StatusEPIPE),
      ih_endpoint_sync_frame = (\<lambda>_. urb_status_code StatusEPIPE),
      ih_class_specific_descriptor = hid_class_specific_descriptor hk, ih_all_alts = False,
      ih_string_interface_value = string_value\<rparr>"

section \<open>Facts\<close>

interpretation hid_unlink: unlink_handler hid_handle_unlink_seqnum ic_pending
proof
  fix u c and s :: hid_handler
  show "fst (hid_handle_unlink_seqnum u c s) = [unlink_reply c (u \<in># ic_pending s)]"
    using in_cancel.cancel_found[of u s] by (auto simp: hid_handle_unlink_seqnum_def split: prod.splits)
  show "ic_pending (snd (hid_handle_unlink_seqnum u c s)) = ic_pending s - {#u#}"
    using in_cancel.cancel_pending[of u s] by (auto simp: hid_handle_unlink_seqnum_def split: prod.splits)
qed

text \<open>The HID descriptor is one descriptor that announces the size of the report descriptor.\<close>

lemma hid_interface_ok:
  "if_handler intf = Some h \<Longrightarrow> interface_association_descriptor intf = None \<Longrightarrow>
   hs h = hid_interface_handler hk str \<Longrightarrow> interface_ok hs intf"
  using desc_chain_single[of "hid_class_specific_descriptor hk"]
  by (simp add: interface_ok_def hid_interface_handler_def hid_class_specific_descriptor_def Let_def
      desc_block_def HidDescriptorType_Hid_def)

text \<open>An unknown class request of the host is refused in the OUT direction, but reported as a
  success without data in the IN direction.\<close>

lemma hid_unknown_request:
  assumes "calc_request_type sp = RequestType_Class" "hid_request_of (sp_request sp) = None"
    and "th_handle th = Some t" "unat tbl \<le> length (gt_data t)"
  shows "\<exists>r. hid_control_urb hk seqnum tbl sp th = Some r \<and> rs_actual_length r = 0 \<and>
    rs_status r = (if setup_is_out sp then urb_status_code StatusEPIPE else urb_status_code StatusOK)"
  using assms by (simp add: hid_control_urb_def hid_in_request_def hid_out_request_def slice_def
      create_ret_submit_ok_with_no_iso_def create_ret_submit_with_status_and_no_iso_def
      create_ret_submit_with_status_and_no_data_def)

end
