(* ===== verification/Hid_Devices.thy ===== *)
theory Hid_Devices
  imports Hid
begin

text \<open>
  The HID devices of the library: keyboard, relative mouse, gamepad and digitizer. Each keeps
  a current state that its API changes, and a thread that sends a report when the current state
  differs from the last one sent. The thread and the API share a mutex, so an API call and an
  iteration of the thread are atomic steps; the condition variable is the flag that says whether the
  thread sleeps.
\<close>

section \<open>Report descriptors\<close>

text \<open>The items of a report descriptor (HID 1.11, 6.2.2): a prefix byte with the size of the data in its
  low two bits (3 stands for 4), then the data, low byte first.\<close>

function (sequential) hid_items :: "data \<Rightarrow> (u8 \<times> data) list option" where
  "hid_items [] = Some []"
| "hid_items (p # rest) =
     (let n = (if p AND 0x03 = 0x03 then 4 else unat (p AND 0x03))
      in if length rest < n then None
         else map_option (\<lambda>is. (p AND 0xFC, take n rest) # is) (hid_items (drop n rest)))"
  by pat_completeness auto
termination by (relation "measure length") auto

fun item_value :: "data \<Rightarrow> nat" where
  "item_value [] = 0"
| "item_value (b # bs) = unat b + 256 * item_value bs"

text \<open>The bits of input data each report has, by report ID (0 when the descriptor has no IDs).\<close>

record hid_parse =
  hp_size :: nat
  hp_count :: nat
  hp_id :: nat
  hp_bits :: "(nat \<times> nat) list"

fun add_bits :: "nat \<Rightarrow> nat \<Rightarrow> (nat \<times> nat) list \<Rightarrow> (nat \<times> nat) list" where
  "add_bits i n [] = [(i, n)]"
| "add_bits i n ((j, m) # bs) = (if i = j then (j, m + n) # bs else (j, m) # add_bits i n bs)"

definition hid_item :: "u8 \<times> data \<Rightarrow> hid_parse \<Rightarrow> hid_parse" where
  "hid_item it p =
     (case it of (tag, d) \<Rightarrow>
        if tag = 0x74 then p\<lparr>hp_size := item_value d\<rparr>
        else if tag = 0x94 then p\<lparr>hp_count := item_value d\<rparr>
        else if tag = 0x84 then p\<lparr>hp_id := item_value d\<rparr>
        else if tag = 0x80 then p\<lparr>hp_bits := add_bits (hp_id p) (hp_size p * hp_count p) (hp_bits p)\<rparr>
        else p)"

definition input_report_bits :: "data \<Rightarrow> (nat \<times> nat) list option" where
  "input_report_bits d =
     map_option (\<lambda>is. hp_bits (fold hid_item is \<lparr>hp_size = 0, hp_count = 0, hp_id = 0, hp_bits = []\<rparr>)) (hid_items d)"

text \<open>A report of the device: with IDs its first byte is the ID.\<close>

definition report_fits :: "data \<Rightarrow> data \<Rightarrow> bool" where
  "report_fits desc report =
     (case input_report_bits desc of
        None \<Rightarrow> False
      | Some [(0, n)] \<Rightarrow> n = 8 * length report
      | Some bits \<Rightarrow>
          (case report of
             [] \<Rightarrow> False
           | i # r \<Rightarrow> map_of bits (unat i) = Some (8 * length r)))"

section \<open>Keyboard\<close>

definition MAX_KEYS :: nat where "MAX_KEYS = 6"
definition REPORT_ID_KEYBOARD :: u8 where "REPORT_ID_KEYBOARD = 1"
definition REPORT_ID_CONSUMER :: u8 where "REPORT_ID_CONSUMER = 2"

definition keyboard_report_descriptor :: data where
  "keyboard_report_descriptor =
     [0x05, 0x01, 0x09, 0x06, 0xA1, 0x01, 0x85, 0x01, 0x05, 0x07, 0x19, 0xE0, 0x29, 0xE7, 0x15, 0x00,
      0x25, 0x01, 0x75, 0x01, 0x95, 0x08, 0x81, 0x02, 0x75, 0x08, 0x95, 0x01, 0x81, 0x01, 0x05, 0x07,
      0x19, 0x00, 0x29, 0x65, 0x15, 0x00, 0x25, 0x65, 0x75, 0x08, 0x95, 0x06, 0x81, 0x00, 0xC0,
      0x05, 0x0C, 0x09, 0x01, 0xA1, 0x01, 0x85, 0x02, 0x19, 0x00, 0x2A, 0xFF, 0x03, 0x15, 0x00,
      0x26, 0xFF, 0x03, 0x75, 0x10, 0x95, 0x01, 0x81, 0x00, 0xC0]"

record KeyboardState =
  kb_modifier :: u8
  kb_keys :: "u8 list"
  kb_consumer_usage :: u16

definition KeyboardState_new :: KeyboardState where
  "KeyboardState_new = \<lparr>kb_modifier = 0, kb_keys = replicate MAX_KEYS 0, kb_consumer_usage = 0\<rparr>"

definition first_free :: "u8 list \<Rightarrow> nat option" where
  "first_free ks = find_idx (\<lambda>k. k = 0) ks"

text \<open>Each operation gives whether it notifies the thread, and the state.\<close>

definition kb_press_key :: "u8 \<Rightarrow> KeyboardState \<Rightarrow> bool \<times> KeyboardState" where
  "kb_press_key keycode s =
     (if keycode = 0 then (False, s)
      else if keycode \<in> set (kb_keys s) then (False, s)
      else (case first_free (kb_keys s) of
              Some i \<Rightarrow> (True, s\<lparr>kb_keys := (kb_keys s)[i := keycode]\<rparr>)
            | None \<Rightarrow> (False, s)))"

definition kb_compress :: "u8 list \<Rightarrow> u8 list" where
  "kb_compress ks =
     (let used = filter (\<lambda>k. k \<noteq> 0) ks in used @ replicate (length ks - length used) 0)"

definition kb_release_key :: "u8 \<Rightarrow> KeyboardState \<Rightarrow> bool \<times> KeyboardState" where
  "kb_release_key keycode s =
     (if keycode = 0 then (False, s)
      else (case find_idx (\<lambda>k. k = keycode) (kb_keys s) of
              None \<Rightarrow> (False, s)
            | Some i \<Rightarrow> (True, s\<lparr>kb_keys := kb_compress ((kb_keys s)[i := 0])\<rparr>)))"

definition kb_release_all :: "KeyboardState \<Rightarrow> bool \<times> KeyboardState" where
  "kb_release_all s =
     (kb_modifier s \<noteq> 0 \<or> (\<exists>k \<in> set (kb_keys s). k \<noteq> 0),
      s\<lparr>kb_keys := map (\<lambda>_. 0) (kb_keys s), kb_modifier := 0\<rparr>)"

definition kb_press_keys :: "u8 list \<Rightarrow> KeyboardState \<Rightarrow> bool \<times> KeyboardState" where
  "kb_press_keys keycodes s =
     (let ks = take MAX_KEYS (filter (\<lambda>k. k \<noteq> 0) keycodes)
      in (True, s\<lparr>kb_keys := ks @ replicate (MAX_KEYS - length ks) 0\<rparr>))"

definition kb_is_key_pressed :: "u8 \<Rightarrow> KeyboardState \<Rightarrow> bool" where
  "kb_is_key_pressed keycode s \<longleftrightarrow> keycode \<in> set (kb_keys s)"

definition kb_set_modifier :: "u8 \<Rightarrow> KeyboardState \<Rightarrow> bool \<times> KeyboardState" where
  "kb_set_modifier msk s =
     (let m = kb_modifier s OR msk in (m \<noteq> kb_modifier s, s\<lparr>kb_modifier := m\<rparr>))"

definition kb_clear_modifier :: "u8 \<Rightarrow> KeyboardState \<Rightarrow> bool \<times> KeyboardState" where
  "kb_clear_modifier msk s =
     (let m = kb_modifier s AND NOT msk in (m \<noteq> kb_modifier s, s\<lparr>kb_modifier := m\<rparr>))"

definition kb_press_media_key :: "u16 \<Rightarrow> KeyboardState \<Rightarrow> bool \<times> KeyboardState" where
  "kb_press_media_key usage s = (True, s\<lparr>kb_consumer_usage := usage\<rparr>)"

definition keyboard_report :: "KeyboardState \<Rightarrow> data" where
  "keyboard_report s = [REPORT_ID_KEYBOARD, kb_modifier s, 0] @ kb_keys s"

definition consumer_report :: "u16 \<Rightarrow> data" where
  "consumer_report usage = [REPORT_ID_CONSUMER, ucast (usage AND 0xFF), ucast (drop_bit 8 usage AND 0xFF)]"

text \<open>One iteration of the thread after its wait: the reports it sends, and the current and the last
  state it leaves.\<close>

definition keyboard_send :: "KeyboardState \<Rightarrow> KeyboardState \<Rightarrow> data list \<times> KeyboardState \<times> KeyboardState" where
  "keyboard_send cur prev =
     (let kb_changed = (kb_modifier cur \<noteq> kb_modifier prev \<or> kb_keys cur \<noteq> kb_keys prev);
          consumer_set = (kb_consumer_usage cur \<noteq> 0);
          cur' = (if consumer_set then cur\<lparr>kb_consumer_usage := 0\<rparr> else cur)
      in ((if kb_changed then [keyboard_report cur] else []) @
          (if consumer_set then [consumer_report (kb_consumer_usage cur)] else []), cur', cur'))"

definition keyboard_get_report :: "KeyboardState \<Rightarrow> u8 \<Rightarrow> u8 \<Rightarrow> u16 \<Rightarrow> data \<times> u32" where
  "keyboard_get_report s type report_id len =
     (if type = HIDReportType_Input
      then (if report_id = REPORT_ID_CONSUMER then consumer_report (kb_consumer_usage s) else keyboard_report s, 0)
      else ([], urb_status_code StatusEPIPE))"

text \<open>\<open>request_set_report\<close>: the new LED status. Reading the second byte of a one-byte report is out of
  bounds.\<close>

definition keyboard_set_report :: "u8 \<Rightarrow> u16 \<Rightarrow> data \<Rightarrow> u8 \<Rightarrow> (u8 \<times> u32) option" where
  "keyboard_set_report type len d led_status =
     (if type = HIDReportType_Output \<and> d \<noteq> []
      then (if len > 1 \<and> d ! 0 \<le> 0x02
            then (if 2 \<le> length d then Some (d ! 1, 0) else None)
            else Some (d ! 0, 0))
      else Some (led_status, hid_request_set_report type 0 len d))"

definition keyboard_get_idle :: "16 word \<Rightarrow> data" where
  "keyboard_get_idle idle_speed = vector_append_to_le [] [F16 idle_speed]"

section \<open>Relative mouse\<close>

definition mouse_report_descriptor :: data where
  "mouse_report_descriptor =
     [0x05, 0x01, 0x09, 0x02, 0xA1, 0x01, 0x09, 0x01, 0xA1, 0x00,
      0x05, 0x09, 0x19, 0x01, 0x29, 0x05, 0x15, 0x00, 0x25, 0x01, 0x95, 0x05, 0x75, 0x01, 0x81, 0x02,
      0x95, 0x01, 0x75, 0x03, 0x81, 0x03,
      0x05, 0x01, 0x09, 0x30, 0x09, 0x31, 0x16, 0x01, 0x80, 0x26, 0xFF, 0x7F, 0x75, 0x10, 0x95, 0x02, 0x81, 0x06,
      0x09, 0x38, 0x15, 0x81, 0x25, 0x7F, 0x75, 0x08, 0x95, 0x01, 0x81, 0x06, 0xC0, 0xC0]"

record ButtonState =
  btn_left :: bool
  btn_right :: bool
  btn_middle :: bool
  btn_side :: bool
  btn_extra :: bool

record RelativeDataState =
  rel_dx :: "16 word"
  rel_dy :: "16 word"
  rel_wheel :: "8 word"

record MouseState =
  ms_button :: ButtonState
  ms_relative :: RelativeDataState

definition RelativeDataState_zero :: RelativeDataState where
  "RelativeDataState_zero = \<lparr>rel_dx = 0, rel_dy = 0, rel_wheel = 0\<rparr>"

definition MouseState_new :: MouseState where
  "MouseState_new =
     \<lparr>ms_button = \<lparr>btn_left = False, btn_right = False, btn_middle = False, btn_side = False, btn_extra = False\<rparr>,
      ms_relative = RelativeDataState_zero\<rparr>"

definition clamp :: "int \<Rightarrow> int \<Rightarrow> int \<Rightarrow> int" where
  "clamp v lo hi = (if v < lo then lo else if hi < v then hi else v)"

definition mouse_move :: "16 word \<Rightarrow> 16 word \<Rightarrow> MouseState \<Rightarrow> bool \<times> MouseState" where
  "mouse_move dx dy s =
     (let r = ms_relative s;
          new_dx = clamp (sint (rel_dx r) + sint dx) (- 32767) 32767;
          new_dy = clamp (sint (rel_dy r) + sint dy) (- 32767) 32767
      in (True, s\<lparr>ms_relative := r\<lparr>rel_dx := word_of_int new_dx, rel_dy := word_of_int new_dy\<rparr>\<rparr>))"

definition mouse_set_wheel :: "8 word \<Rightarrow> MouseState \<Rightarrow> bool \<times> MouseState" where
  "mouse_set_wheel delta s =
     (let r = ms_relative s; new_wheel = clamp (sint (rel_wheel r) + sint delta) (- 127) 127
      in (True, s\<lparr>ms_relative := r\<lparr>rel_wheel := word_of_int new_wheel\<rparr>\<rparr>))"

definition mouse_set_left_button :: "bool \<Rightarrow> MouseState \<Rightarrow> bool \<times> MouseState" where
  "mouse_set_left_button p s = (True, s\<lparr>ms_button := (ms_button s)\<lparr>btn_left := p\<rparr>\<rparr>)"

definition mouse_set_right_button :: "bool \<Rightarrow> MouseState \<Rightarrow> bool \<times> MouseState" where
  "mouse_set_right_button p s = (True, s\<lparr>ms_button := (ms_button s)\<lparr>btn_right := p\<rparr>\<rparr>)"

definition mouse_set_middle_button :: "bool \<Rightarrow> MouseState \<Rightarrow> bool \<times> MouseState" where
  "mouse_set_middle_button p s = (True, s\<lparr>ms_button := (ms_button s)\<lparr>btn_middle := p\<rparr>\<rparr>)"

definition mouse_set_side_button :: "bool \<Rightarrow> MouseState \<Rightarrow> bool \<times> MouseState" where
  "mouse_set_side_button p s = (True, s\<lparr>ms_button := (ms_button s)\<lparr>btn_side := p\<rparr>\<rparr>)"

definition mouse_set_extra_button :: "bool \<Rightarrow> MouseState \<Rightarrow> bool \<times> MouseState" where
  "mouse_set_extra_button p s = (True, s\<lparr>ms_button := (ms_button s)\<lparr>btn_extra := p\<rparr>\<rparr>)"

definition mouse_report :: "MouseState \<Rightarrow> data" where
  "mouse_report s =
     (let b = ms_button s; r = ms_relative s
      in [(if btn_left b then 0x01 else 0) OR (if btn_right b then 0x02 else 0) OR
          (if btn_middle b then 0x04 else 0) OR (if btn_side b then 0x08 else 0) OR
          (if btn_extra b then 0x10 else 0),
          ucast (rel_dx r AND 0xFF), ucast (drop_bit 8 (rel_dx r) AND 0xFF),
          ucast (rel_dy r AND 0xFF), ucast (drop_bit 8 (rel_dy r) AND 0xFF), rel_wheel r])"

definition mouse_send :: "MouseState \<Rightarrow> MouseState \<Rightarrow> data list \<times> MouseState \<times> MouseState" where
  "mouse_send cur prev =
     (if cur \<noteq> prev
      then (let cur' = cur\<lparr>ms_relative := RelativeDataState_zero\<rparr> in ([mouse_report cur], cur', cur'))
      else ([], cur, prev))"

section \<open>Gamepad\<close>

definition NUM_BUTTONS :: nat where "NUM_BUTTONS = 16"
definition NUM_AXES :: nat where "NUM_AXES = 4"

datatype HatDirection =
  Hat_North | Hat_NorthEast | Hat_East | Hat_SouthEast | Hat_South | Hat_SouthWest | Hat_West | Hat_NorthWest
| Hat_Center

fun hat_code :: "HatDirection \<Rightarrow> u8" where
  "hat_code Hat_North = 0" | "hat_code Hat_NorthEast = 1" | "hat_code Hat_East = 2"
| "hat_code Hat_SouthEast = 3" | "hat_code Hat_South = 4" | "hat_code Hat_SouthWest = 5"
| "hat_code Hat_West = 6" | "hat_code Hat_NorthWest = 7" | "hat_code Hat_Center = 0x0F"

definition gamepad_report_descriptor :: data where
  "gamepad_report_descriptor =
     [0x05, 0x01, 0x09, 0x05, 0xA1, 0x01, 0x05, 0x09, 0x19, 0x01, 0x29, 0x10, 0x15, 0x00, 0x25, 0x01,
      0x75, 0x01, 0x95, 0x10, 0x81, 0x02, 0x05, 0x01, 0x09, 0x39, 0x15, 0x00, 0x25, 0x07, 0x75, 0x08,
      0x95, 0x01, 0x81, 0x42, 0x05, 0x01, 0x09, 0x30, 0x09, 0x31, 0x09, 0x32, 0x09, 0x35,
      0x16, 0x00, 0x80, 0x26, 0xFF, 0x7F, 0x75, 0x10, 0x95, 0x04, 0x81, 0x02, 0xC0]"

record GamepadState =
  gp_buttons :: u16
  gp_hat :: u8
  gp_axes :: "16 word list"

definition GamepadState_new :: GamepadState where
  "GamepadState_new = \<lparr>gp_buttons = 0, gp_hat = hat_code Hat_Center, gp_axes = replicate NUM_AXES 0\<rparr>"

definition gp_set_button :: "u8 \<Rightarrow> bool \<Rightarrow> GamepadState \<Rightarrow> bool \<times> GamepadState" where
  "gp_set_button index pressed s =
     (if NUM_BUTTONS \<le> unat index then (False, s)
      else (let b = (if pressed then gp_buttons s OR push_bit (unat index) 1
                     else gp_buttons s AND NOT (push_bit (unat index) 1))
            in (b \<noteq> gp_buttons s, s\<lparr>gp_buttons := b\<rparr>)))"

definition gp_get_button :: "u8 \<Rightarrow> GamepadState \<Rightarrow> bool" where
  "gp_get_button index s =
     (if NUM_BUTTONS \<le> unat index then False else drop_bit (unat index) (gp_buttons s) AND 1 \<noteq> 0)"

definition gp_press_buttons :: "u8 list \<Rightarrow> GamepadState \<Rightarrow> bool \<times> GamepadState" where
  "gp_press_buttons indices s =
     (True, s\<lparr>gp_buttons :=
        fold (\<lambda>i b. if unat i < NUM_BUTTONS then b OR push_bit (unat i) 1 else b) indices 0\<rparr>)"

definition gp_release_all_buttons :: "GamepadState \<Rightarrow> bool \<times> GamepadState" where
  "gp_release_all_buttons s = (if gp_buttons s \<noteq> 0 then (True, s\<lparr>gp_buttons := 0\<rparr>) else (False, s))"

definition gp_set_hat :: "HatDirection \<Rightarrow> GamepadState \<Rightarrow> bool \<times> GamepadState" where
  "gp_set_hat dir s = (if gp_hat s \<noteq> hat_code dir then (True, s\<lparr>gp_hat := hat_code dir\<rparr>) else (False, s))"

definition gp_set_axis :: "u8 \<Rightarrow> 16 word \<Rightarrow> GamepadState \<Rightarrow> bool \<times> GamepadState" where
  "gp_set_axis index v s =
     (if NUM_AXES \<le> unat index then (False, s)
      else if gp_axes s ! unat index \<noteq> v then (True, s\<lparr>gp_axes := (gp_axes s)[unat index := v]\<rparr>)
      else (False, s))"

definition gp_get_axis :: "u8 \<Rightarrow> GamepadState \<Rightarrow> 16 word" where
  "gp_get_axis index s = (if NUM_AXES \<le> unat index then 0 else gp_axes s ! unat index)"

definition gamepad_report :: "GamepadState \<Rightarrow> data" where
  "gamepad_report s =
     [ucast (gp_buttons s AND 0xFF), ucast (drop_bit 8 (gp_buttons s) AND 0xFF), gp_hat s] @
     concat (map (\<lambda>v. [ucast (v AND 0xFF), ucast (drop_bit 8 v AND 0xFF)]) (gp_axes s))"

definition gamepad_send :: "GamepadState \<Rightarrow> GamepadState \<Rightarrow> data list \<times> GamepadState \<times> GamepadState" where
  "gamepad_send cur prev = ([gamepad_report cur], cur, cur)"

definition gamepad_get_report :: "GamepadState \<Rightarrow> u8 \<Rightarrow> u8 \<Rightarrow> u16 \<Rightarrow> data \<times> u32" where
  "gamepad_get_report s type report_id len =
     (if type = HIDReportType_Input then (gamepad_report s, 0) else ([], urb_status_code StatusEPIPE))"

section \<open>Digitizer\<close>

definition digitizer_report_descriptor :: "u16 \<Rightarrow> u16 \<Rightarrow> data" where
  "digitizer_report_descriptor x_max y_max =
     [0x05, 0x0D, 0x09, 0x04, 0xA1, 0x01, 0x09, 0x42, 0x15, 0x00, 0x25, 0x01, 0x75, 0x01, 0x95, 0x01, 0x81, 0x02,
      0x09, 0x32, 0x75, 0x01, 0x95, 0x01, 0x81, 0x02, 0x75, 0x06, 0x95, 0x01, 0x81, 0x01,
      0x05, 0x01, 0x09, 0x30, 0x15, 0x00, 0x26, ucast (x_max AND 0xFF), ucast (drop_bit 8 x_max AND 0xFF),
      0x75, 0x10, 0x95, 0x01, 0x81, 0x02,
      0x09, 0x31, 0x15, 0x00, 0x26, ucast (y_max AND 0xFF), ucast (drop_bit 8 y_max AND 0xFF),
      0x75, 0x10, 0x95, 0x01, 0x81, 0x02,
      0x05, 0x0D, 0x09, 0x30, 0x15, 0x00, 0x25, 0xFF, 0x75, 0x08, 0x95, 0x01, 0x81, 0x02, 0xC0]"

record TouchState =
  ts_touching :: bool
  ts_x :: u16
  ts_y :: u16
  ts_pressure :: u8

definition TouchState_new :: TouchState where
  "TouchState_new = \<lparr>ts_touching = False, ts_x = 0, ts_y = 0, ts_pressure = 0\<rparr>"

definition digitizer_touch :: "u16 \<Rightarrow> u16 \<Rightarrow> u8 \<Rightarrow> TouchState \<Rightarrow> bool \<times> TouchState" where
  "digitizer_touch x y pressure s =
     (\<not> ts_touching s \<or> ts_x s \<noteq> x \<or> ts_y s \<noteq> y \<or> ts_pressure s \<noteq> pressure,
      s\<lparr>ts_touching := True, ts_x := x, ts_y := y, ts_pressure := pressure\<rparr>)"

definition digitizer_release :: "TouchState \<Rightarrow> bool \<times> TouchState" where
  "digitizer_release s = (if ts_touching s then (True, s\<lparr>ts_touching := False\<rparr>) else (False, s))"

definition digitizer_report :: "TouchState \<Rightarrow> data" where
  "digitizer_report s =
     (if ts_touching s
      then [0x03, ucast (ts_x s AND 0xFF), ucast (drop_bit 8 (ts_x s) AND 0xFF),
            ucast (ts_y s AND 0xFF), ucast (drop_bit 8 (ts_y s) AND 0xFF), ts_pressure s]
      else replicate 6 0)"

definition digitizer_send :: "TouchState \<Rightarrow> TouchState \<Rightarrow> data list \<times> TouchState \<times> TouchState" where
  "digitizer_send cur prev = ([digitizer_report cur], cur, cur)"

section \<open>The sending thread\<close>

record 's sender =
  sd_current :: 's
  sd_last :: 's
  sd_sleeping :: bool
  sd_should_stop :: bool
  sd_running :: bool
  sd_reports :: "data list"

definition sender_new :: "'s \<Rightarrow> 's sender" where
  "sender_new s = \<lparr>sd_current = s, sd_last = s, sd_sleeping = False, sd_should_stop = False,
     sd_running = True, sd_reports = []\<rparr>"

text \<open>The steps of a device with the operations \<open>apply_op\<close> and the thread iteration \<open>send\<close>: an API call;
  the thread going to sleep when the predicate of its wait is false; a spurious wake-up; an iteration;
  \<open>on_disconnection\<close> setting \<open>should_stop_\<close> under the mutex and notifying; and the thread leaving its loop,
  which is what the \<open>join\<close> of \<open>on_disconnection\<close> waits for.\<close>

inductive sender_step ::
    "('o \<Rightarrow> 's \<Rightarrow> bool \<times> 's) \<Rightarrow> ('s \<Rightarrow> 's \<Rightarrow> data list \<times> 's \<times> 's) \<Rightarrow> 's sender \<Rightarrow> 's sender \<Rightarrow> bool"
  for apply_op send where
  api: "apply_op q (sd_current d) = (notify, s) \<Longrightarrow>
     sender_step apply_op send d (d\<lparr>sd_current := s, sd_sleeping := (sd_sleeping d \<and> \<not> notify)\<rparr>)"
| sleep: "sd_running d \<Longrightarrow> \<not> sd_should_stop d \<Longrightarrow> sd_current d = sd_last d \<Longrightarrow>
     sender_step apply_op send d (d\<lparr>sd_sleeping := True\<rparr>)"
| wake: "sender_step apply_op send d (d\<lparr>sd_sleeping := False\<rparr>)"
| send: "sd_running d \<Longrightarrow> \<not> sd_sleeping d \<Longrightarrow> \<not> sd_should_stop d \<Longrightarrow> sd_current d \<noteq> sd_last d \<Longrightarrow>
     send (sd_current d) (sd_last d) = (rs, cur, lst) \<Longrightarrow>
     sender_step apply_op send d (d\<lparr>sd_current := cur, sd_last := lst, sd_reports := sd_reports d @ rs\<rparr>)"
| stop: "sender_step apply_op send d (d\<lparr>sd_should_stop := True, sd_sleeping := False\<rparr>)"
| leave: "sd_running d \<Longrightarrow> \<not> sd_sleeping d \<Longrightarrow> sd_should_stop d \<Longrightarrow>
     sender_step apply_op send d (d\<lparr>sd_running := False\<rparr>)"

inductive_cases sender_stepE: "sender_step apply_op send d d'"

definition awake_when_needed :: "'s sender \<Rightarrow> bool" where
  "awake_when_needed d \<longleftrightarrow>
     (sd_sleeping d \<longrightarrow> sd_current d = sd_last d \<and> \<not> sd_should_stop d) \<and> (sd_should_stop d \<or> sd_running d)"

definition sender_responsive ::
    "('o \<Rightarrow> 's \<Rightarrow> bool \<times> 's) \<Rightarrow> ('s \<Rightarrow> 's \<Rightarrow> data list \<times> 's \<times> 's) \<Rightarrow> 's sender \<Rightarrow> bool" where
  "sender_responsive apply_op send d \<longleftrightarrow>
     (sd_current d \<noteq> sd_last d \<and> \<not> sd_should_stop d \<longrightarrow>
        (\<exists>d'. sender_step apply_op send d d' \<and> sd_current d' = sd_last d'))
     \<and> (sd_sleeping d \<longrightarrow> sd_current d = sd_last d \<and> \<not> sd_should_stop d)
     \<and> (sd_should_stop d \<and> sd_running d \<longrightarrow> sender_step apply_op send d (d\<lparr>sd_running := False\<rparr>))"

text \<open>The contract of a device: an operation that changes the state notifies the thread, and an iteration
  leaves the last state equal to the current one.\<close>

locale state_sender =
  fixes apply_op :: "'o \<Rightarrow> 's \<Rightarrow> bool \<times> 's"
    and send :: "'s \<Rightarrow> 's \<Rightarrow> data list \<times> 's \<times> 's"
  assumes op_notifies: "apply_op q s = (n, s') \<Longrightarrow> s' \<noteq> s \<Longrightarrow> n"
    and send_settles: "send cur prev = (rs, cur', prev') \<Longrightarrow> cur' = prev'"
begin

lemma awake_step: "sender_step apply_op send d d' \<Longrightarrow> awake_when_needed d \<Longrightarrow> awake_when_needed d'"
  by (erule sender_stepE) (auto simp: awake_when_needed_def dest: op_notifies send_settles)

lemma no_lost_wakeup: "(sender_step apply_op send)\<^sup>*\<^sup>* (sender_new s0) d \<Longrightarrow> awake_when_needed d"
  by (induction rule: rtranclp_induct) (simp add: sender_new_def awake_when_needed_def, rule awake_step)

lemma pending_is_sent:
  assumes "(sender_step apply_op send)\<^sup>*\<^sup>* (sender_new s0) d" "sd_current d \<noteq> sd_last d" "\<not> sd_should_stop d"
  shows "\<exists>d'. sender_step apply_op send d d' \<and> sd_current d' = sd_last d'"
proof -
  obtain rs cur prev where s: "send (sd_current d) (sd_last d) = (rs, cur, prev)" by (metis prod_cases3)
  have "sd_running d" "\<not> sd_sleeping d"
    using no_lost_wakeup[OF assms(1)] assms(2,3) by (auto simp: awake_when_needed_def)
  then have "sender_step apply_op send d
      (d\<lparr>sd_current := cur, sd_last := prev, sd_reports := sd_reports d @ rs\<rparr>)"
    using assms(3,2) s by (rule sender_step.send)
  with send_settles[OF s] show ?thesis by force
qed

lemma stop_is_joined:
  assumes "(sender_step apply_op send)\<^sup>*\<^sup>* (sender_new s0) d" "sd_should_stop d" "sd_running d"
  shows "sender_step apply_op send d (d\<lparr>sd_running := False\<rparr>)"
  using no_lost_wakeup[OF assms(1)] assms(2,3) by (intro sender_step.leave) (auto simp: awake_when_needed_def)

lemma responsive:
  "(sender_step apply_op send)\<^sup>*\<^sup>* (sender_new s0) d \<Longrightarrow> sender_responsive apply_op send d"
  using pending_is_sent stop_is_joined no_lost_wakeup
  unfolding sender_responsive_def awake_when_needed_def by meson

end

text \<open>A device whose thread sends one report of the current state.\<close>

locale report_sender = state_sender apply_op send
  for apply_op :: "'o \<Rightarrow> 's \<Rightarrow> bool \<times> 's" and send :: "'s \<Rightarrow> 's \<Rightarrow> data list \<times> 's \<times> 's" +
  fixes report :: "'s \<Rightarrow> data"
  assumes send_report: "send cur prev = ([report cur], cur, cur)"
begin

lemma last_report:
  "(sender_step apply_op send)\<^sup>*\<^sup>* (sender_new s0) d \<Longrightarrow>
   (if sd_reports d = [] then sd_last d = s0 else last (sd_reports d) = report (sd_last d))"
proof (induction rule: rtranclp_induct)
  case (step d d')
  from step.hyps(2) step.IH show ?case
    by (cases rule: sender_step.cases) (auto simp: send_report)
qed (simp add: sender_new_def)

end

subsection \<open>The devices\<close>

datatype keyboard_op =
  Kb_press_key u8 | Kb_release_key u8 | Kb_release_all | Kb_press_keys "u8 list" | Kb_set_modifier u8
| Kb_clear_modifier u8 | Kb_press_media_key u16

fun keyboard_apply :: "keyboard_op \<Rightarrow> KeyboardState \<Rightarrow> bool \<times> KeyboardState" where
  "keyboard_apply (Kb_press_key k) s = kb_press_key k s"
| "keyboard_apply (Kb_release_key k) s = kb_release_key k s"
| "keyboard_apply Kb_release_all s = kb_release_all s"
| "keyboard_apply (Kb_press_keys ks) s = kb_press_keys ks s"
| "keyboard_apply (Kb_set_modifier m) s = kb_set_modifier m s"
| "keyboard_apply (Kb_clear_modifier m) s = kb_clear_modifier m s"
| "keyboard_apply (Kb_press_media_key u) s = kb_press_media_key u s"

datatype mouse_op =
  Ms_move "16 word" "16 word" | Ms_wheel "8 word" | Ms_left bool | Ms_right bool | Ms_middle bool | Ms_side bool
| Ms_extra bool

fun mouse_apply :: "mouse_op \<Rightarrow> MouseState \<Rightarrow> bool \<times> MouseState" where
  "mouse_apply (Ms_move dx dy) s = mouse_move dx dy s"
| "mouse_apply (Ms_wheel w) s = mouse_set_wheel w s"
| "mouse_apply (Ms_left p) s = mouse_set_left_button p s"
| "mouse_apply (Ms_right p) s = mouse_set_right_button p s"
| "mouse_apply (Ms_middle p) s = mouse_set_middle_button p s"
| "mouse_apply (Ms_side p) s = mouse_set_side_button p s"
| "mouse_apply (Ms_extra p) s = mouse_set_extra_button p s"

datatype gamepad_op =
  Gp_set_button u8 bool | Gp_press_buttons "u8 list" | Gp_release_all_buttons | Gp_set_hat HatDirection
| Gp_set_axis u8 "16 word"

fun gamepad_apply :: "gamepad_op \<Rightarrow> GamepadState \<Rightarrow> bool \<times> GamepadState" where
  "gamepad_apply (Gp_set_button i p) s = gp_set_button i p s"
| "gamepad_apply (Gp_press_buttons is) s = gp_press_buttons is s"
| "gamepad_apply Gp_release_all_buttons s = gp_release_all_buttons s"
| "gamepad_apply (Gp_set_hat h) s = gp_set_hat h s"
| "gamepad_apply (Gp_set_axis i v) s = gp_set_axis i v s"

datatype digitizer_op = Dg_touch u16 u16 u8 | Dg_release

fun digitizer_apply :: "digitizer_op \<Rightarrow> TouchState \<Rightarrow> bool \<times> TouchState" where
  "digitizer_apply (Dg_touch x y p) s = digitizer_touch x y p s"
| "digitizer_apply Dg_release s = digitizer_release s"

lemmas keyboard_op_defs = kb_press_key_def kb_release_key_def kb_release_all_def kb_press_keys_def
  kb_set_modifier_def kb_clear_modifier_def kb_press_media_key_def

lemmas mouse_op_defs = mouse_move_def mouse_set_wheel_def mouse_set_left_button_def
  mouse_set_right_button_def mouse_set_middle_button_def mouse_set_side_button_def mouse_set_extra_button_def

lemmas gamepad_op_defs = gp_set_button_def gp_press_buttons_def gp_release_all_buttons_def gp_set_hat_def
  gp_set_axis_def

lemma map_zero_id: "\<forall>k \<in> set ks. k = (0 :: u8) \<Longrightarrow> map (\<lambda>_. 0) ks = ks"
  by (induction ks) auto

interpretation keyboard_sender: state_sender keyboard_apply keyboard_send
proof
  fix q s n s'
  assume "keyboard_apply q s = (n, s')" "s' \<noteq> s"
  then show n
    by (cases q) (auto simp: keyboard_op_defs Let_def map_zero_id split: if_splits option.splits)
next
  fix cur prev cur' prev' rs
  assume "keyboard_send cur prev = (rs, cur', prev')"
  then show "cur' = prev'" by (auto simp: keyboard_send_def Let_def)
qed

interpretation mouse_sender: state_sender mouse_apply mouse_send
proof
  fix q s n s'
  assume "mouse_apply q s = (n, s')" "s' \<noteq> s"
  then show n by (cases q) (auto simp: mouse_op_defs Let_def)
next
  fix cur prev cur' prev' rs
  assume "mouse_send cur prev = (rs, cur', prev')"
  then show "cur' = prev'" by (auto simp: mouse_send_def Let_def split: if_splits)
qed

interpretation gamepad_sender: report_sender gamepad_apply gamepad_send gamepad_report
proof
  fix q s n s'
  assume "gamepad_apply q s = (n, s')" "s' \<noteq> s"
  then show n by (cases q) (auto simp: gamepad_op_defs Let_def split: if_splits)
qed (auto simp: gamepad_send_def)

interpretation digitizer_sender: report_sender digitizer_apply digitizer_send digitizer_report
proof
  fix q s n s'
  assume "digitizer_apply q s = (n, s')" "s' \<noteq> s"
  then show n by (cases q) (auto simp: digitizer_touch_def digitizer_release_def split: if_splits)
qed (auto simp: digitizer_send_def)

section \<open>Interfaces\<close>

definition ClassCode_HID :: u8 where "ClassCode_HID = 0x03"

definition hid_make_interface :: "u8 \<Rightarrow> u8 \<Rightarrow> u8 \<Rightarrow> u16 \<Rightarrow> u8 \<Rightarrow> UsbInterface" where
  "hid_make_interface subclass protocol in_ep mps interval =
     default_interface\<lparr>interface_class := ClassCode_HID, interface_subclass := subclass,
       interface_protocol := protocol,
       endpoints := [[\<lparr>ep_address = in_ep, ep_attributes = ep_attr_code EA_Interrupt, ep_max_packet_size = mps,
                       ep_interval = interval\<rparr>]]\<rparr>"

definition keyboard_make_interface :: "u8 \<Rightarrow> UsbInterface" where
  "keyboard_make_interface in_ep = hid_make_interface 0x01 0x01 in_ep 16 10"

definition mouse_make_interface :: "u8 \<Rightarrow> UsbInterface" where
  "mouse_make_interface in_ep = hid_make_interface 0x00 0x00 in_ep 8 10"

definition gamepad_make_interface :: "u8 \<Rightarrow> UsbInterface" where
  "gamepad_make_interface in_ep = hid_make_interface 0x00 0x00 in_ep 16 8"

definition digitizer_make_interface :: "u8 \<Rightarrow> UsbInterface" where
  "digitizer_make_interface in_ep = hid_make_interface 0x00 0x00 in_ep 6 10"

lemmas make_interface_defs = hid_make_interface_def keyboard_make_interface_def mouse_make_interface_def
  gamepad_make_interface_def digitizer_make_interface_def

text \<open>The report matches the report descriptor and fits one packet of the interface's endpoint.\<close>

definition report_ok :: "data \<Rightarrow> UsbInterface \<Rightarrow> data \<Rightarrow> bool" where
  "report_ok desc intf report \<longleftrightarrow>
     report_fits desc report \<and> length report \<le> unat (ep_max_packet_size (hd (hd (endpoints intf))))"

lemma keyboard_bits: "input_report_bits keyboard_report_descriptor = Some [(1, 64), (2, 16)]"
  by code_simp

lemma mouse_bits: "input_report_bits mouse_report_descriptor = Some [(0, 48)]"
  by code_simp

lemma gamepad_bits: "input_report_bits gamepad_report_descriptor = Some [(0, 88)]"
  by code_simp

lemma digitizer_bits: "input_report_bits (digitizer_report_descriptor x y) = Some [(0, 48)]"
  by (simp add: input_report_bits_def digitizer_report_descriptor_def hid_item_def Let_def)

lemma keyboard_report_ok:
  "length (kb_keys s) = MAX_KEYS \<Longrightarrow>
   report_ok keyboard_report_descriptor (keyboard_make_interface ep) (keyboard_report s)"
  by (simp add: report_ok_def report_fits_def keyboard_bits keyboard_report_def REPORT_ID_KEYBOARD_def
      MAX_KEYS_def make_interface_defs)

lemma consumer_report_ok: "report_ok keyboard_report_descriptor (keyboard_make_interface ep) (consumer_report u)"
  by (simp add: report_ok_def report_fits_def keyboard_bits consumer_report_def REPORT_ID_CONSUMER_def
      make_interface_defs)

lemma mouse_report_ok: "report_ok mouse_report_descriptor (mouse_make_interface ep) (mouse_report s)"
  by (simp add: report_ok_def report_fits_def mouse_bits mouse_report_def Let_def make_interface_defs)

lemma gamepad_report_ok:
  "length (gp_axes s) = NUM_AXES \<Longrightarrow>
   report_ok gamepad_report_descriptor (gamepad_make_interface ep) (gamepad_report s)"
  by (simp add: report_ok_def report_fits_def gamepad_bits gamepad_report_def length_concat o_def
      sum_list_triv NUM_AXES_def make_interface_defs)

lemma digitizer_report_ok:
  "report_ok (digitizer_report_descriptor x y) (digitizer_make_interface ep) (digitizer_report s)"
  by (simp add: report_ok_def report_fits_def digitizer_bits digitizer_report_def make_interface_defs)

text \<open>The arrays of the states keep their sizes.\<close>

lemma kb_compress_length [simp]: "length (kb_compress ks) = length ks"
  by (simp add: kb_compress_def Let_def)

lemma keyboard_apply_length:
  "keyboard_apply q s = (n, s') \<Longrightarrow> length (kb_keys s) = MAX_KEYS \<Longrightarrow> length (kb_keys s') = MAX_KEYS"
  by (cases q) (auto simp: keyboard_op_defs Let_def split: if_splits option.splits)

lemma gamepad_apply_length:
  "gamepad_apply q s = (n, s') \<Longrightarrow> length (gp_axes s) = NUM_AXES \<Longrightarrow> length (gp_axes s') = NUM_AXES"
  by (cases q) (auto simp: gamepad_op_defs Let_def split: if_splits)

lemma keyboard_run_reports:
  assumes "(sender_step keyboard_apply keyboard_send)\<^sup>*\<^sup>* (sender_new KeyboardState_new) d"
  shows "length (kb_keys (sd_current d)) = MAX_KEYS \<and>
    list_all (report_ok keyboard_report_descriptor (keyboard_make_interface ep)) (sd_reports d)"
  using assms
proof (induction rule: rtranclp_induct)
  case (step d d')
  from step.hyps(2) step.IH show ?case
  proof (cases rule: sender_step.cases)
    case (send rs cur lst)
    then show ?thesis using step.IH
      by (auto simp: keyboard_send_def Let_def keyboard_report_ok consumer_report_ok split: if_splits)
  qed (auto dest: keyboard_apply_length)
qed (simp add: sender_new_def KeyboardState_new_def)

lemma mouse_run_reports:
  assumes "(sender_step mouse_apply mouse_send)\<^sup>*\<^sup>* (sender_new MouseState_new) d"
  shows "list_all (report_ok mouse_report_descriptor (mouse_make_interface ep)) (sd_reports d)"
  using assms
proof (induction rule: rtranclp_induct)
  case (step d d')
  from step.hyps(2) step.IH show ?case
    by (cases rule: sender_step.cases) (auto simp: mouse_send_def Let_def mouse_report_ok split: if_splits)
qed (simp add: sender_new_def)

lemma gamepad_run_reports:
  assumes "(sender_step gamepad_apply gamepad_send)\<^sup>*\<^sup>* (sender_new GamepadState_new) d"
  shows "length (gp_axes (sd_current d)) = NUM_AXES \<and>
    list_all (report_ok gamepad_report_descriptor (gamepad_make_interface ep)) (sd_reports d)"
  using assms
proof (induction rule: rtranclp_induct)
  case (step d d')
  from step.hyps(2) step.IH show ?case
    by (cases rule: sender_step.cases)
       (auto simp: gamepad_send_def gamepad_report_ok dest: gamepad_apply_length)
qed (simp add: sender_new_def GamepadState_new_def)

lemma digitizer_run_reports:
  assumes "(sender_step digitizer_apply digitizer_send)\<^sup>*\<^sup>* (sender_new TouchState_new) d"
  shows "list_all (report_ok (digitizer_report_descriptor x y) (digitizer_make_interface ep)) (sd_reports d)"
  using assms
proof (induction rule: rtranclp_induct)
  case (step d d')
  from step.hyps(2) step.IH show ?case
    by (cases rule: sender_step.cases) (auto simp: digitizer_send_def digitizer_report_ok)
qed (simp add: sender_new_def)

section \<open>The keyboard against its specification\<close>

text \<open>The specification keeps the pressed keys in the order in which they were pressed, at most six.\<close>

fun keyboard_spec :: "keyboard_op \<Rightarrow> u8 \<times> u8 list \<times> u16 \<Rightarrow> u8 \<times> u8 list \<times> u16" where
  "keyboard_spec (Kb_press_key k) (m, ks, u) =
     (m, if k = 0 \<or> k \<in> set ks \<or> length ks = MAX_KEYS then ks else ks @ [k], u)"
| "keyboard_spec (Kb_release_key k) (m, ks, u) = (m, remove1 k ks, u)"
| "keyboard_spec Kb_release_all (m, ks, u) = (0, [], u)"
| "keyboard_spec (Kb_press_keys l) (m, ks, u) = (m, take MAX_KEYS (filter (\<lambda>k. k \<noteq> 0) l), u)"
| "keyboard_spec (Kb_set_modifier b) (m, ks, u) = (m OR b, ks, u)"
| "keyboard_spec (Kb_clear_modifier b) (m, ks, u) = (m AND NOT b, ks, u)"
| "keyboard_spec (Kb_press_media_key v) (m, ks, u) = (m, ks, v)"

definition pressed_keys :: "KeyboardState \<Rightarrow> u8 list" where
  "pressed_keys s = filter (\<lambda>k. k \<noteq> 0) (kb_keys s)"

definition keyboard_abs :: "KeyboardState \<Rightarrow> u8 \<times> u8 list \<times> u16" where
  "keyboard_abs s = (kb_modifier s, pressed_keys s, kb_consumer_usage s)"

text \<open>The pressed keys are packed at the front of the six slots.\<close>

definition keyboard_wf :: "KeyboardState \<Rightarrow> bool" where
  "keyboard_wf s \<longleftrightarrow> length (kb_keys s) = MAX_KEYS \<and> kb_compress (kb_keys s) = kb_keys s"

lemma pressed_slots: "filter (\<lambda>k. k \<noteq> 0) (ks @ replicate n 0) = filter (\<lambda>k. k \<noteq> (0 :: u8)) ks"
  by (induction n) auto

lemma filter_nonzero: "0 \<notin> set ks \<Longrightarrow> filter (\<lambda>k. k \<noteq> (0 :: u8)) ks = ks"
  by (induction ks) auto

lemma compress_packed: "0 \<notin> set ks \<Longrightarrow> kb_compress (ks @ replicate n 0) = ks @ replicate n 0"
  by (simp add: kb_compress_def Let_def filter_nonzero)

lemma packed_slots:
  assumes "keyboard_wf s"
  obtains ks n where "kb_keys s = ks @ replicate n 0" "0 \<notin> set ks" "length ks + n = MAX_KEYS" "pressed_keys s = ks"
proof -
  let ?u = "filter (\<lambda>k. k \<noteq> 0) (kb_keys s)"
  have a: "kb_keys s = ?u @ replicate (length (kb_keys s) - length ?u) 0"
    using assms unfolding keyboard_wf_def kb_compress_def Let_def by (metis (no_types))
  have b: "length ?u + (length (kb_keys s) - length ?u) = MAX_KEYS"
    using assms unfolding keyboard_wf_def by (metis le_add_diff_inverse length_filter_le)
  show thesis by (rule that[OF a _ b]) (auto simp: pressed_keys_def)
qed

lemma find_idx_free: "0 \<notin> set ks \<Longrightarrow> first_free (ks @ replicate n 0) = (if n = 0 then None else Some (length ks))"
  unfolding first_free_def
  by (induction ks) (cases n; simp)+

lemma keyboard_wf_packed:
  "0 \<notin> set ks \<Longrightarrow> kb_keys s = ks @ replicate n 0 \<Longrightarrow> length ks + n = MAX_KEYS \<Longrightarrow>
   keyboard_wf s \<and> pressed_keys s = ks"
  by (simp add: keyboard_wf_def compress_packed pressed_keys_def filter_nonzero)

lemma press_key_refines:
  assumes "keyboard_wf s" "kb_press_key k s = (n, s')"
  shows "keyboard_wf s' \<and> keyboard_abs s' = keyboard_spec (Kb_press_key k) (keyboard_abs s)"
proof -
  obtain ks m where k: "kb_keys s = ks @ replicate m 0" "0 \<notin> set ks" "length ks + m = MAX_KEYS" "pressed_keys s = ks"
    using assms(1) by (rule packed_slots)
  show ?thesis
  proof (cases "k = 0 \<or> k \<in> set ks \<or> m = 0")
    case True
    then have "s' = s" using assms(2) k(1) find_idx_free[OF k(2), of m] by (auto simp: kb_press_key_def split: if_splits)
    then show ?thesis using True assms(1) k by (auto simp: keyboard_abs_def)
  next
    case False
    then obtain m' where m: "m = Suc m'" by (cases m) auto
    have "kb_keys s' = (ks @ [k]) @ replicate m' 0" "kb_modifier s' = kb_modifier s"
        "kb_consumer_usage s' = kb_consumer_usage s"
      using False assms(2) k(1) m find_idx_free[OF k(2), of m] by (auto simp: kb_press_key_def list_update_append)
    moreover have "0 \<notin> set (ks @ [k])" "length (ks @ [k]) + m' = MAX_KEYS" using False k m by auto
    ultimately show ?thesis
      using False k m keyboard_wf_packed[of "ks @ [k]" s' m'] by (auto simp: keyboard_abs_def)
  qed
qed

lemma compress_keeps_used: "filter (\<lambda>k. k \<noteq> 0) (kb_compress ks) = filter (\<lambda>k. k \<noteq> 0) ks"
  by (simp add: kb_compress_def Let_def pressed_slots)

lemma compress_idem: "kb_compress (kb_compress ks) = kb_compress ks"
  unfolding kb_compress_def[of "kb_compress ks"] compress_keeps_used kb_compress_length
  by (simp add: kb_compress_def)

lemma filter_remove_first:
  "find_idx (\<lambda>x. x = k) ks = Some i \<Longrightarrow> k \<noteq> 0 \<Longrightarrow>
   filter (\<lambda>x. x \<noteq> (0 :: u8)) (ks[i := 0]) = remove1 k (filter (\<lambda>x. x \<noteq> 0) ks)"
  by (induction ks arbitrary: i) (auto split: if_splits)

lemma release_key_refines:
  assumes "keyboard_wf s" "kb_release_key k s = (n, s')"
  shows "keyboard_wf s' \<and> keyboard_abs s' = keyboard_spec (Kb_release_key k) (keyboard_abs s)"
proof (cases "find_idx (\<lambda>x. x = k) (kb_keys s)")
  case None
  then have "k \<notin> set (kb_keys s)" by (auto simp: find_idx_None)
  then show ?thesis
    using None assms
    by (auto simp: kb_release_key_def keyboard_abs_def pressed_keys_def remove1_idem split: if_splits)
next
  case (Some i)
  show ?thesis
  proof (cases "k = 0")
    case True
    then show ?thesis
      using assms by (auto simp: kb_release_key_def keyboard_abs_def pressed_keys_def remove1_idem)
  next
    case False
    then show ?thesis
      using Some assms
      by (auto simp: kb_release_key_def keyboard_wf_def compress_idem keyboard_abs_def pressed_keys_def
          compress_keeps_used filter_remove_first)
  qed
qed

lemma press_keys_refines:
  assumes "kb_press_keys l s = (n, s')"
  shows "keyboard_wf s' \<and> keyboard_abs s' = keyboard_spec (Kb_press_keys l) (keyboard_abs s)"
proof -
  let ?ks = "take MAX_KEYS (filter (\<lambda>k. k \<noteq> 0) l)"
  have "0 \<notin> set ?ks" by (auto dest: in_set_takeD)
  then have "keyboard_wf s' \<and> pressed_keys s' = ?ks"
    using assms by (intro keyboard_wf_packed[of ?ks _ "MAX_KEYS - length ?ks"]) (auto simp: kb_press_keys_def Let_def)
  then show ?thesis using assms by (auto simp: keyboard_abs_def kb_press_keys_def Let_def)
qed

lemma release_all_refines:
  assumes "keyboard_wf s" "kb_release_all s = (n, s')"
  shows "keyboard_wf s' \<and> keyboard_abs s' = keyboard_spec Kb_release_all (keyboard_abs s)"
proof -
  have "kb_keys s' = [] @ replicate MAX_KEYS 0"
    using assms by (auto simp: kb_release_all_def keyboard_wf_def map_replicate_const)
  then have "keyboard_wf s' \<and> pressed_keys s' = []" by (intro keyboard_wf_packed) auto
  then show ?thesis using assms(2) by (auto simp: keyboard_abs_def kb_release_all_def)
qed

lemma keyboard_keys_kept:
  "kb_keys s' = kb_keys s \<Longrightarrow> keyboard_wf s \<Longrightarrow> keyboard_wf s' \<and> pressed_keys s' = pressed_keys s"
  by (simp add: keyboard_wf_def pressed_keys_def)

lemma keyboard_op_refines:
  assumes "keyboard_wf s" "keyboard_apply q s = (n, s')"
  shows "keyboard_wf s' \<and> keyboard_abs s' = keyboard_spec q (keyboard_abs s)"
proof (cases q)
  case (Kb_press_key k)
  then show ?thesis using assms press_key_refines by simp
next
  case (Kb_release_key k)
  then show ?thesis using assms release_key_refines by simp
next
  case Kb_release_all
  then show ?thesis using assms release_all_refines by simp
next
  case (Kb_press_keys l)
  then show ?thesis using assms press_keys_refines by simp
qed (use assms keyboard_keys_kept[of s' s] in
  \<open>auto simp: kb_set_modifier_def kb_clear_modifier_def kb_press_media_key_def Let_def keyboard_abs_def\<close>)

lemma keyboard_spec_fold:
  "keyboard_wf s \<Longrightarrow>
   keyboard_wf (fold (\<lambda>q s. snd (keyboard_apply q s)) qs s) \<and>
   keyboard_abs (fold (\<lambda>q s. snd (keyboard_apply q s)) qs s) = fold keyboard_spec qs (keyboard_abs s)"
proof (induction qs arbitrary: s)
  case (Cons q qs)
  obtain n s' where "keyboard_apply q s = (n, s')" by fastforce
  with keyboard_op_refines[OF Cons.prems] Cons.IH[of s'] show ?case by simp
qed simp

lemma keyboard_new_wf: "keyboard_wf KeyboardState_new"
  by (simp add: keyboard_wf_def KeyboardState_new_def kb_compress_def Let_def)

section \<open>Properties\<close>

text \<open>C24: The keyboard refines its specification: after any sequence of API calls the six slots hold, packed
  at the front, the keys the specification has pressed (press appends a new key while fewer than six are
  held, release removes one occurrence, \<open>press_keys\<close> keeps the first six non-zero codes), the modifier
  byte and the pending media key are those of the specification, and \<open>is_key_pressed\<close> answers from it.\<close>

theorem keyboard_refines_spec:
  assumes "s = fold (\<lambda>q s. snd (keyboard_apply q s)) qs KeyboardState_new"
  shows "keyboard_abs s = fold keyboard_spec qs (0, [], 0)
    \<and> kb_keys s = pressed_keys s @ replicate (MAX_KEYS - length (pressed_keys s)) 0
    \<and> length (kb_keys s) = MAX_KEYS
    \<and> (k \<noteq> 0 \<longrightarrow> kb_is_key_pressed k s = (k \<in> set (pressed_keys s)))"
proof -
  have s: "keyboard_wf s" "keyboard_abs s = fold keyboard_spec qs (keyboard_abs KeyboardState_new)"
    using keyboard_spec_fold[OF keyboard_new_wf, of qs] by (simp_all add: assms)
  have "keyboard_abs KeyboardState_new = (0, [], 0)"
    by (simp add: keyboard_abs_def pressed_keys_def KeyboardState_new_def)
  moreover obtain ks n where "kb_keys s = ks @ replicate n 0" "length ks + n = MAX_KEYS" "pressed_keys s = ks"
    using s(1) by (rule packed_slots)
  ultimately show ?thesis
    using s by (auto simp: kb_is_key_pressed_def keyboard_wf_def)
qed

theorem keyboard_refines_spec_witness:
  "pressed_keys (fold (\<lambda>q s. snd (keyboard_apply q s))
     [Kb_press_key 4, Kb_press_key 5, Kb_press_key 4, Kb_release_key 4, Kb_press_key 6] KeyboardState_new) = [5, 6]"
  using keyboard_refines_spec[OF refl, of "[Kb_press_key 4, Kb_press_key 5, Kb_press_key 4, Kb_release_key 4,
      Kb_press_key 6]"]
  by (simp add: keyboard_abs_def MAX_KEYS_def)


lemma press_and_send:
  "(sender_step digitizer_apply digitizer_send)\<^sup>*\<^sup>* (sender_new TouchState_new)
     \<lparr>sd_current = \<lparr>ts_touching = True, ts_x = 1, ts_y = 2, ts_pressure = 3\<rparr>,
      sd_last = \<lparr>ts_touching = True, ts_x = 1, ts_y = 2, ts_pressure = 3\<rparr>, sd_sleeping = False,
      sd_should_stop = False, sd_running = True, sd_reports = [[3, 1, 0, 2, 0, 3]]\<rparr>"
proof -
  let ?t = "\<lparr>ts_touching = True, ts_x = 1, ts_y = 2, ts_pressure = 3\<rparr>"
  let ?d = "(sender_new TouchState_new)\<lparr>sd_current := ?t\<rparr>"
  have a: "sender_step digitizer_apply digitizer_send (sender_new TouchState_new) ?d"
    using sender_step.api[of digitizer_apply "Dg_touch 1 2 3" "sender_new TouchState_new" True ?t digitizer_send]
    by (simp add: sender_new_def TouchState_new_def digitizer_touch_def)
  have b: "sender_step digitizer_apply digitizer_send ?d (?d\<lparr>sd_last := ?t, sd_reports := [[3, 1, 0, 2, 0, 3]]\<rparr>)"
    using sender_step.send[of ?d digitizer_send "[[3, 1, 0, 2, 0, 3]]" ?t ?t digitizer_apply]
    by (simp add: sender_new_def TouchState_new_def digitizer_send_def digitizer_report_def)
  from a b show ?thesis
    by (simp add: sender_new_def)
qed




section \<open>Mouse motion\<close>

text \<open>A run of the mouse as a list: an API call, or an iteration of the thread.\<close>

fun mouse_event :: "mouse_op option \<Rightarrow> MouseState sender \<Rightarrow> MouseState sender" where
  "mouse_event (Some q) d = d\<lparr>sd_current := snd (mouse_apply q (sd_current d)), sd_sleeping := False\<rparr>"
| "mouse_event None d =
     (if sd_current d = sd_last d then d
      else (case mouse_send (sd_current d) (sd_last d) of (rs, cur, lst) \<Rightarrow>
              d\<lparr>sd_current := cur, sd_last := lst, sd_reports := sd_reports d @ rs\<rparr>))"

fun moved_dx :: "mouse_op option \<Rightarrow> int" where
  "moved_dx (Some (Ms_move dx dy)) = sint dx"
| "moved_dx _ = 0"

fun moved_dy :: "mouse_op option \<Rightarrow> int" where
  "moved_dy (Some (Ms_move dx dy)) = sint dy"
| "moved_dy _ = 0"

definition report_axis :: "nat \<Rightarrow> data \<Rightarrow> int" where
  "report_axis i r = sint ((ucast (r ! i) :: 16 word) OR push_bit 8 (ucast (r ! Suc i)))"

lemma join_bytes:
  "(ucast (ucast (w AND 0xFF) :: u8) :: 16 word) OR push_bit 8 (ucast (ucast (drop_bit 8 w AND 0xFF) :: u8)) = w"
proof (rule bit_word_eqI)
  fix n assume "n < LENGTH(16)"
  have m: "(0xFF :: 16 word) = mask 8" by (simp add: mask_eq_exp_minus_1)
  have "n < 8 \<or> 8 \<le> n \<and> n - 8 < 8" using \<open>n < LENGTH(16)\<close> by auto
  then show "bit ((ucast (ucast (w AND 0xFF) :: u8) :: 16 word) OR
      push_bit 8 (ucast (ucast (drop_bit 8 w AND 0xFF) :: u8))) n = bit w n"
    unfolding m using \<open>n < LENGTH(16)\<close> by (auto simp: bit_simps)
qed

lemma report_axis_dx: "report_axis (Suc 0) (mouse_report s) = sint (rel_dx (ms_relative s))"
  by (simp add: report_axis_def mouse_report_def Let_def join_bytes)

lemma report_axis_dy: "report_axis 3 (mouse_report s) = sint (rel_dy (ms_relative s))"
  by (simp add: report_axis_def mouse_report_def Let_def join_bytes)

lemma sint_small: "\<bar>x\<bar> \<le> 32767 \<Longrightarrow> sint (word_of_int x :: 16 word) = x"
  by (simp add: signed_of_int signed_take_bit_int_eq_self)

lemma sint_add_small: "\<bar>sint a\<bar> + \<bar>sint b\<bar> \<le> 32767 \<Longrightarrow> sint (a + b :: 16 word) = sint a + sint b"
  using sint_small[of "sint a + sint b"] by simp

lemma clamp_bound: "\<bar>clamp v (- 32767) 32767\<bar> \<le> 32767"
  by (auto simp: clamp_def)

lemma clamp_inside: "\<bar>v\<bar> \<le> 32767 \<Longrightarrow> clamp v (- 32767) 32767 = v"
  by (auto simp: clamp_def)

definition pending_dx :: "MouseState sender \<Rightarrow> int" where
  "pending_dx d = sint (rel_dx (ms_relative (sd_current d)))"

definition pending_dy :: "MouseState sender \<Rightarrow> int" where
  "pending_dy d = sint (rel_dy (ms_relative (sd_current d)))"

definition reported :: "nat \<Rightarrow> MouseState sender \<Rightarrow> int" where
  "reported i d = sum_list (map (report_axis i) (sd_reports d))"

lemmas motion_defs = pending_dx_def pending_dy_def reported_def

lemma mouse_event_bound:
  "\<bar>pending_dx d\<bar> \<le> 32767 \<Longrightarrow> \<bar>pending_dy d\<bar> \<le> 32767 \<Longrightarrow>
   \<bar>pending_dx (mouse_event e d)\<bar> \<le> 32767 \<and> \<bar>pending_dy (mouse_event e d)\<bar> \<le> 32767"
proof (cases e)
  case (Some q)
  then show "\<bar>pending_dx d\<bar> \<le> 32767 \<Longrightarrow> \<bar>pending_dy d\<bar> \<le> 32767 \<Longrightarrow> ?thesis"
    by (cases q) (auto simp: mouse_op_defs Let_def motion_defs sint_small clamp_bound)
qed (auto simp: mouse_send_def Let_def motion_defs RelativeDataState_zero_def)

lemma mouse_event_dx:
  assumes "\<bar>pending_dx d\<bar> + \<bar>moved_dx e\<bar> \<le> 32767"
  shows "reported 1 (mouse_event e d) + pending_dx (mouse_event e d) = reported 1 d + pending_dx d + moved_dx e
    \<and> \<bar>pending_dx (mouse_event e d)\<bar> \<le> \<bar>pending_dx d\<bar> + \<bar>moved_dx e\<bar>"
proof (cases e)
  case (Some q)
  then show ?thesis using assms
    by (cases q) (auto simp: mouse_op_defs Let_def motion_defs sint_add_small clamp_inside)
qed (auto simp: mouse_send_def Let_def motion_defs RelativeDataState_zero_def report_axis_dx)

lemma mouse_event_dy:
  assumes "\<bar>pending_dy d\<bar> + \<bar>moved_dy e\<bar> \<le> 32767"
  shows "reported 3 (mouse_event e d) + pending_dy (mouse_event e d) = reported 3 d + pending_dy d + moved_dy e
    \<and> \<bar>pending_dy (mouse_event e d)\<bar> \<le> \<bar>pending_dy d\<bar> + \<bar>moved_dy e\<bar>"
proof (cases e)
  case (Some q)
  then show ?thesis using assms
    by (cases q) (auto simp: mouse_op_defs Let_def motion_defs sint_add_small clamp_inside)
qed (auto simp: mouse_send_def Let_def motion_defs RelativeDataState_zero_def report_axis_dy)

lemma mouse_run_dx:
  "\<bar>pending_dx d\<bar> + (\<Sum>e \<leftarrow> es. \<bar>moved_dx e\<bar>) \<le> 32767 \<Longrightarrow>
   reported 1 (fold mouse_event es d) + pending_dx (fold mouse_event es d) =
   reported 1 d + pending_dx d + (\<Sum>e \<leftarrow> es. moved_dx e)"
proof (induction es arbitrary: d)
  case (Cons e es)
  have n: "0 \<le> (\<Sum>e \<leftarrow> es. \<bar>moved_dx e\<bar>)" by (induction es) auto
  with Cons.prems have "\<bar>pending_dx d\<bar> + \<bar>moved_dx e\<bar> \<le> 32767" by simp
  from mouse_event_dx[OF this] Cons.prems Cons.IH[of "mouse_event e d"] show ?case by simp
qed simp

lemma mouse_run_dy:
  "\<bar>pending_dy d\<bar> + (\<Sum>e \<leftarrow> es. \<bar>moved_dy e\<bar>) \<le> 32767 \<Longrightarrow>
   reported 3 (fold mouse_event es d) + pending_dy (fold mouse_event es d) =
   reported 3 d + pending_dy d + (\<Sum>e \<leftarrow> es. moved_dy e)"
proof (induction es arbitrary: d)
  case (Cons e es)
  have n: "0 \<le> (\<Sum>e \<leftarrow> es. \<bar>moved_dy e\<bar>)" by (induction es) auto
  with Cons.prems have "\<bar>pending_dy d\<bar> + \<bar>moved_dy e\<bar> \<le> 32767" by simp
  from mouse_event_dy[OF this] Cons.prems Cons.IH[of "mouse_event e d"] show ?case by simp
qed simp

lemma mouse_run_bound:
  "\<bar>pending_dx d\<bar> \<le> 32767 \<Longrightarrow> \<bar>pending_dy d\<bar> \<le> 32767 \<Longrightarrow>
   \<bar>pending_dx (fold mouse_event es d)\<bar> \<le> 32767 \<and> \<bar>pending_dy (fold mouse_event es d)\<bar> \<le> 32767"
  by (induction es arbitrary: d) (auto dest: mouse_event_bound)

lemma mouse_new_zero:
  "pending_dx (sender_new MouseState_new) = 0" "pending_dy (sender_new MouseState_new) = 0"
  "reported i (sender_new MouseState_new) = 0"
  by (simp_all add: motion_defs sender_new_def MouseState_new_def RelativeDataState_zero_def)

text \<open>Mouse motion is neither lost nor wrapped. However moves, clicks and thread iterations interleave,
  the pending displacement stays within the range -32767..32767 of the report descriptor (moves saturate and never
  change sign); and while the total movement stays within that range, the displacement in the
  reports sent plus the pending one is exactly the displacement asked for, on both axes.\<close>

theorem mouse_motion_conserved:
  assumes "d = fold mouse_event es (sender_new MouseState_new)"
  shows "\<bar>pending_dx d\<bar> \<le> 32767 \<and> \<bar>pending_dy d\<bar> \<le> 32767
    \<and> ((\<Sum>e \<leftarrow> es. \<bar>moved_dx e\<bar>) \<le> 32767 \<longrightarrow> reported 1 d + pending_dx d = (\<Sum>e \<leftarrow> es. moved_dx e))
    \<and> ((\<Sum>e \<leftarrow> es. \<bar>moved_dy e\<bar>) \<le> 32767 \<longrightarrow> reported 3 d + pending_dy d = (\<Sum>e \<leftarrow> es. moved_dy e))"
  unfolding assms using mouse_run_bound[of "sender_new MouseState_new" es]
    mouse_run_dx[of "sender_new MouseState_new" es] mouse_run_dy[of "sender_new MouseState_new" es]
  by (simp add: mouse_new_zero)

theorem mouse_motion_conserved_witness:
  "reported 1 (fold mouse_event [Some (Ms_move 5 (- 3)), None, Some (Ms_left True), Some (Ms_move (- 7) 0)]
     (sender_new MouseState_new)) +
   pending_dx (fold mouse_event [Some (Ms_move 5 (- 3)), None, Some (Ms_left True), Some (Ms_move (- 7) 0)]
     (sender_new MouseState_new)) = - 2"
  using mouse_motion_conserved[OF refl, of "[Some (Ms_move 5 (- 3)), None, Some (Ms_left True), Some (Ms_move (- 7) 0)]"]
  by simp

text \<open>A media key is reported when it is pressed and its state is cleared without a report, so the host never
  sees the release of the usage.\<close>

lemma media_key_never_released:
  assumes "(sender_step keyboard_apply keyboard_send)\<^sup>*\<^sup>* (sender_new KeyboardState_new) d"
  shows "consumer_report 0 \<notin> set (sd_reports d)"
proof -
  have c: "consumer_report 0 = consumer_report u \<longleftrightarrow> u = 0" for u
    using join_bytes[of u] by (auto simp: consumer_report_def)
  have k: "consumer_report 0 \<noteq> keyboard_report s" for s
    by (simp add: consumer_report_def keyboard_report_def REPORT_ID_CONSUMER_def REPORT_ID_KEYBOARD_def)
  from assms show ?thesis
  proof (induction rule: rtranclp_induct)
    case (step d d')
    from step.hyps(2) step.IH show ?case
      by (cases rule: sender_step.cases) (auto simp: keyboard_send_def Let_def c k split: if_splits)
  qed (simp add: sender_new_def)
qed

end
