(* ===== verification/Cdc_Acm.thy ===== *)
theory Cdc_Acm
  imports Unlink
begin

text \<open>
  The serial port (\<open>CdcAcmVirtualInterfaceHandler\<close>): the communication interface with its line coding,
  control signals and notifications, and the data interface with its two channels.
\<close>

section \<open>Values\<close>

record LineCoding =
  dwDTERate :: u32
  bCharFormat :: u8
  bParityType :: u8
  bDataBits :: u8

definition LineCoding_default :: LineCoding where
  "LineCoding_default = \<lparr>dwDTERate = 115200, bCharFormat = 0, bParityType = 0, bDataBits = 8\<rparr>"

definition LineCoding_to_bytes :: "LineCoding \<Rightarrow> data" where
  "LineCoding_to_bytes c =
     [ucast (dwDTERate c AND 0xFF), ucast (drop_bit 8 (dwDTERate c) AND 0xFF),
      ucast (drop_bit 16 (dwDTERate c) AND 0xFF), ucast (drop_bit 24 (dwDTERate c) AND 0xFF),
      bCharFormat c, bParityType c, bDataBits c]"

definition LineCoding_from_bytes :: "data \<Rightarrow> LineCoding" where
  "LineCoding_from_bytes d =
     (if 7 \<le> length d
      then \<lparr>dwDTERate = ucast (d ! 0) OR push_bit 8 (ucast (d ! 1)) OR push_bit 16 (ucast (d ! 2)) OR
                       push_bit 24 (ucast (d ! 3)),
            bCharFormat = d ! 4, bParityType = d ! 5, bDataBits = d ! 6\<rparr>
      else LineCoding_default)"

record ControlSignalState =
  dtr :: bool
  rts :: bool

definition ControlSignal_DTR :: u16 where "ControlSignal_DTR = 0x01"
definition ControlSignal_RTS :: u16 where "ControlSignal_RTS = 0x02"
definition SerialState_CTS :: u16 where "SerialState_CTS = 0x80"

definition ControlSignalState_to_uint16 :: "ControlSignalState \<Rightarrow> u16" where
  "ControlSignalState_to_uint16 s =
     (if dtr s then ControlSignal_DTR else 0) OR (if rts s then ControlSignal_RTS else 0)"

definition ControlSignalState_from_uint16 :: "u16 \<Rightarrow> ControlSignalState" where
  "ControlSignalState_from_uint16 v =
     \<lparr>dtr = (v AND ControlSignal_DTR \<noteq> 0), rts = (v AND ControlSignal_RTS \<noteq> 0)\<rparr>"

record SerialStateNotification =
  sn_bmRequestType :: u8
  sn_bNotification :: u8
  sn_wValue :: u16
  sn_wIndex :: u16
  sn_wLength :: u16
  sn_data :: u16

definition SerialStateNotification_default :: SerialStateNotification where
  "SerialStateNotification_default =
     \<lparr>sn_bmRequestType = 0xA1, sn_bNotification = 0x20, sn_wValue = 0, sn_wIndex = 0, sn_wLength = 2,
      sn_data = 0\<rparr>"

definition SerialStateNotification_to_bytes :: "SerialStateNotification \<Rightarrow> data" where
  "SerialStateNotification_to_bytes n =
     [sn_bmRequestType n, sn_bNotification n,
      ucast (sn_wValue n AND 0xFF), ucast (drop_bit 8 (sn_wValue n) AND 0xFF),
      ucast (sn_wIndex n AND 0xFF), ucast (drop_bit 8 (sn_wIndex n) AND 0xFF),
      ucast (sn_wLength n AND 0xFF), ucast (drop_bit 8 (sn_wLength n) AND 0xFF),
      ucast (sn_data n AND 0xFF), ucast (drop_bit 8 (sn_data n) AND 0xFF)]"

datatype CdcAcmRequest =
  Acm_SendEncapsulatedCommand | Acm_GetEncapsulatedResponse | Acm_SetCommFeature | Acm_GetCommFeature
| Acm_ClearCommFeature | Acm_SetLineCoding | Acm_GetLineCoding | Acm_SetControlLineState | Acm_SendBreak

fun acm_request_code :: "CdcAcmRequest \<Rightarrow> u8" where
  "acm_request_code Acm_SendEncapsulatedCommand = 0x00"
| "acm_request_code Acm_GetEncapsulatedResponse = 0x01"
| "acm_request_code Acm_SetCommFeature = 0x02"
| "acm_request_code Acm_GetCommFeature = 0x03"
| "acm_request_code Acm_ClearCommFeature = 0x04"
| "acm_request_code Acm_SetLineCoding = 0x20"
| "acm_request_code Acm_GetLineCoding = 0x21"
| "acm_request_code Acm_SetControlLineState = 0x22"
| "acm_request_code Acm_SendBreak = 0x23"

section \<open>The communication interface\<close>

definition CS_INTERFACE :: u8 where "CS_INTERFACE = 0x24"
definition ClassCode_CDC :: u8 where "ClassCode_CDC = 0x02"
definition ClassCode_CDCData :: u8 where "ClassCode_CDCData = 0x0A"

definition CdcHeaderFunctionalDesc_append_to :: "u8 \<Rightarrow> u8 \<Rightarrow> u8 \<Rightarrow> u16 \<Rightarrow> data \<Rightarrow> data" where
  "CdcHeaderFunctionalDesc_append_to bLength bType bSubtype bcdCDC d =
     vector_append_to_le d [F8 bLength, F8 bType, F8 bSubtype, F16 bcdCDC]"

definition CdcCallManagementDesc_append_to :: "u8 \<Rightarrow> u8 \<Rightarrow> u8 \<Rightarrow> u8 \<Rightarrow> u8 \<Rightarrow> data \<Rightarrow> data" where
  "CdcCallManagementDesc_append_to bLength bType bSubtype bmCapabilities bDataInterface d =
     vector_append_to_le d [F8 bLength, F8 bType, F8 bSubtype, F8 bmCapabilities, F8 bDataInterface]"

definition CdcAcmFunctionalDesc_append_to :: "u8 \<Rightarrow> u8 \<Rightarrow> u8 \<Rightarrow> u8 \<Rightarrow> data \<Rightarrow> data" where
  "CdcAcmFunctionalDesc_append_to bLength bType bSubtype bmCapabilities d =
     vector_append_to_le d [F8 bLength, F8 bType, F8 bSubtype, F8 bmCapabilities]"

definition CdcUnionFunctionalDesc_append_to :: "u8 \<Rightarrow> u8 \<Rightarrow> u8 \<Rightarrow> u8 \<Rightarrow> u8 \<Rightarrow> data \<Rightarrow> data" where
  "CdcUnionFunctionalDesc_append_to bLength bType bSubtype bMasterInterface bSlaveInterface0 d =
     vector_append_to_le d [F8 bLength, F8 bType, F8 bSubtype, F8 bMasterInterface, F8 bSlaveInterface0]"

definition acm_comm_make_interface :: "u8 \<Rightarrow> UsbInterface" where
  "acm_comm_make_interface interrupt_in_ep =
     default_interface\<lparr>interface_class := ClassCode_CDC, interface_subclass := 0x02,
       interface_protocol := 0x01,
       endpoints := [[\<lparr>ep_address = interrupt_in_ep, ep_attributes = ep_attr_code EA_Interrupt,
                       ep_max_packet_size = 64, ep_interval = 16\<rparr>]],
       interface_association_descriptor := Some (IadDesc_make 2 ClassCode_CDC 0x02 0x01 0)\<rparr>"

definition acm_data_make_interface :: "u8 \<Rightarrow> u8 \<Rightarrow> UsbInterface" where
  "acm_data_make_interface in_ep out_ep =
     default_interface\<lparr>interface_class := ClassCode_CDCData, interface_subclass := 0x00,
       interface_protocol := 0x00,
       endpoints := [[\<lparr>ep_address = in_ep, ep_attributes = ep_attr_code EA_Bulk, ep_max_packet_size = 64,
                       ep_interval = 0\<rparr>,
                      \<lparr>ep_address = out_ep, ep_attributes = ep_attr_code EA_Bulk, ep_max_packet_size = 64,
                       ep_interval = 0\<rparr>]]\<rparr>"

text \<open>\<open>ac_data_interface\<close> is the interface number of the associated data handler, if any.\<close>

record acm_comm =
  ac_interface_number :: u8
  ac_data_interface :: "u8 option"
  ac_line_coding :: LineCoding
  ac_signals :: ControlSignalState
  ac_channel :: "GenericTransfer MessageInChannel"

definition acm_comm_new :: "u8 \<Rightarrow> acm_comm" where
  "acm_comm_new n =
     \<lparr>ac_interface_number = n, ac_data_interface = None, ac_line_coding = LineCoding_default,
      ac_signals = \<lparr>dtr = False, rts = False\<rparr>,
      ac_channel = msg_set_max_pending_messages 30 (in_channel_new \<lparr>mb_pending = [], mb_max = 0\<rparr>)\<rparr>"

definition set_data_handler :: "u8 option \<Rightarrow> acm_comm \<Rightarrow> acm_comm" where
  "set_data_handler h c = c\<lparr>ac_data_interface := h\<rparr>"

definition acm_comm_class_specific_descriptor :: "acm_comm \<Rightarrow> data" where
  "acm_comm_class_specific_descriptor c =
     (let data_if = (case ac_data_interface c of Some n \<Rightarrow> n | None \<Rightarrow> 1)
      in CdcUnionFunctionalDesc_append_to 0x05 CS_INTERFACE 0x06 (ac_interface_number c) data_if
           (CdcAcmFunctionalDesc_append_to 0x04 CS_INTERFACE 0x02 0x02
              (CdcCallManagementDesc_append_to 0x05 CS_INTERFACE 0x01 0x00 data_if
                 (CdcHeaderFunctionalDesc_append_to 0x05 CS_INTERFACE 0x00 0x0110 []))))"

text \<open>The callbacks of the device the class requests make.\<close>

datatype acm_callback =
  On_set_line_coding LineCoding | On_set_control_line_state ControlSignalState | On_rts_changed bool
| On_send_break u16

definition acm_comm_control ::
    "u32 \<Rightarrow> SetupPacket \<Rightarrow> GenericTransfer TransferHandle \<Rightarrow> acm_comm \<Rightarrow>
     (GenericTransfer UsbIpRetSubmit \<times> acm_callback list \<times> acm_comm) option" where
  "acm_comm_control seqnum sp th c =
     (if calc_request_type sp = RequestType_Class
      then (case th_handle th of
              None \<Rightarrow> None
            | Some trx \<Rightarrow>
                if \<not> setup_is_out sp
                then (if sp_request sp = acm_request_code Acm_GetLineCoding
                      then (let d = truncate_to (sp_length sp) (LineCoding_to_bytes (ac_line_coding c))
                            in Some (create_ret_submit_with_status_and_no_iso seqnum (urb_status_code StatusOK)
                                 (of_nat (length d))
                                 (th\<lparr>th_handle := Some (trx\<lparr>gt_data := d, gt_actual_length := length d\<rparr>)\<rparr>), [], c))
                      else Some (create_ret_submit_with_status_and_no_iso seqnum (urb_status_code StatusEPIPE) 0
                                 (th\<lparr>th_handle := Some (trx\<lparr>gt_actual_length := 0\<rparr>)\<rparr>), [], c))
                else if sp_request sp = acm_request_code Acm_SetLineCoding
                then (let coding = LineCoding_from_bytes (gt_data trx)
                      in Some (create_ret_submit_with_status_and_no_data seqnum (urb_status_code StatusOK) 0,
                               [On_set_line_coding coding], c\<lparr>ac_line_coding := coding\<rparr>))
                else if sp_request sp = acm_request_code Acm_SetControlLineState
                then (let state = ControlSignalState_from_uint16 (sp_value sp)
                      in Some (create_ret_submit_with_status_and_no_data seqnum (urb_status_code StatusOK) 0,
                               On_set_control_line_state state #
                                 (if ac_data_interface c \<noteq> None then [On_rts_changed (rts state)] else []),
                               c\<lparr>ac_signals := state\<rparr>))
                else if sp_request sp = acm_request_code Acm_SendBreak
                then Some (create_ret_submit_with_status_and_no_data seqnum (urb_status_code StatusOK) 0,
                           [On_send_break (sp_value sp)], c)
                else Some (create_ret_submit_with_status_and_no_data seqnum (urb_status_code StatusEPIPE) 0, [], c))
      else Some (create_ret_submit_epipe_without_data seqnum 0, [], c))"

definition acm_comm_interrupt ::
    "UsbEndpoint \<Rightarrow> u32 \<Rightarrow> u32 \<Rightarrow> GenericTransfer TransferHandle \<Rightarrow> acm_comm \<Rightarrow>
     GenericTransfer UsbIpRetSubmit list \<times> acm_comm" where
  "acm_comm_interrupt ep seqnum len th c =
     (if ep_is_in ep
      then ([], c\<lparr>ac_channel := ic_on_in_request message_ops (ep_address ep) seqnum len th (ac_channel c)\<rparr>)
      else ([create_ret_submit_epipe_without_data seqnum 0], c))"

definition send_serial_state_notification :: "u16 \<Rightarrow> acm_comm \<Rightarrow> acm_comm" where
  "send_serial_state_notification state_bits c =
     c\<lparr>ac_channel := snd (msg_push
         (SerialStateNotification_to_bytes (SerialStateNotification_default\<lparr>sn_data := state_bits\<rparr>)) True
         (ac_channel c))\<rparr>"

definition acm_comm_on_new_connection :: "nat \<Rightarrow> acm_comm \<Rightarrow> acm_comm" where
  "acm_comm_on_new_connection session c =
     c\<lparr>ac_channel := ic_on_new_connection message_ops (Some session) (ac_channel c)\<rparr>"

definition acm_comm_on_disconnection :: "acm_comm \<Rightarrow> acm_comm" where
  "acm_comm_on_disconnection c = c\<lparr>ac_channel := ic_on_disconnection message_ops (ac_channel c)\<rparr>"

definition acm_comm_handle_unlink_seqnum :: "u32 \<Rightarrow> u32 \<Rightarrow> acm_comm \<Rightarrow> UsbIpRetUnlink list \<times> acm_comm" where
  "acm_comm_handle_unlink_seqnum unlink_seqnum cmd_seqnum c =
     (case ic_cancel_pending unlink_seqnum (ac_channel c) of
        (cancelled, ch) \<Rightarrow> ([unlink_reply cmd_seqnum cancelled], c\<lparr>ac_channel := ch\<rparr>))"

section \<open>The data interface\<close>

record acm_data =
  ad_in :: "GenericTransfer ByteStreamInChannel"
  ad_out :: "GenericTransfer out_channel"
  ad_in_high_watermark :: nat
  ad_in_low_watermark :: nat

definition acm_data_new :: "(u16 \<Rightarrow> data) \<Rightarrow> GenericTransfer ByteStreamInChannel \<Rightarrow> acm_data" where
  "acm_data_new on_data_requested ch =
     \<lparr>ad_in = bs_set_pull_callback (Some (\<lambda>len. on_data_requested (ucast len))) ch,
      ad_out = out_channel_new, ad_in_high_watermark = 48 * 1024, ad_in_low_watermark = 16 * 1024\<rparr>"

definition acm_data_on_new_connection :: "nat \<Rightarrow> acm_data \<Rightarrow> acm_data" where
  "acm_data_on_new_connection session d =
     d\<lparr>ad_in := ic_on_new_connection stream_ops (Some session) (ad_in d),
       ad_out := oc_on_new_connection (Some session) (ad_out d)\<rparr>"

definition acm_data_on_disconnection :: "acm_data \<Rightarrow> acm_data" where
  "acm_data_on_disconnection d =
     d\<lparr>ad_out := oc_on_disconnection (ad_out d), ad_in := ic_on_disconnection stream_ops (ad_in d)\<rparr>"

definition acm_data_handle_unlink_seqnum :: "u32 \<Rightarrow> u32 \<Rightarrow> acm_data \<Rightarrow> UsbIpRetUnlink list \<times> acm_data" where
  "acm_data_handle_unlink_seqnum unlink_seqnum cmd_seqnum d =
     (case ic_cancel_pending unlink_seqnum (ad_in d) of
        (cancelled, ich) \<Rightarrow>
          (let d1 = d\<lparr>ad_in := ich\<rparr>
           in if \<not> cancelled
              then (case oc_cancel_pending unlink_seqnum (ad_out d1) of
                      (cancelled', och) \<Rightarrow> ([unlink_reply cmd_seqnum cancelled'], d1\<lparr>ad_out := och\<rparr>))
              else ([unlink_reply cmd_seqnum cancelled], d1)))"

text \<open>\<open>on_data_received\<close> is the callback of the derived class; it leaves the data in place when it
  returns false.\<close>

definition acm_data_bulk ::
    "(data \<Rightarrow> bool) \<Rightarrow> UsbEndpoint \<Rightarrow> u32 \<Rightarrow> u32 \<Rightarrow> GenericTransfer TransferHandle \<Rightarrow> acm_data \<Rightarrow>
     (GenericTransfer UsbIpRetSubmit list \<times> acm_data) option" where
  "acm_data_bulk on_data_received ep seqnum len th d =
     (if ep_is_in ep
      then Some ([], d\<lparr>ad_in := ic_on_in_request stream_ops (ep_address ep) seqnum len th (ad_in d)\<rparr>)
      else (case th_handle th of
              None \<Rightarrow> None
            | Some trx \<Rightarrow>
                if on_data_received (gt_data trx)
                then Some ([create_ret_submit_ok_without_data seqnum (of_nat (length (gt_data trx)))], d)
                else Some ([], d\<lparr>ad_out := oc_on_out_request (ep_address ep) seqnum th None (ad_out d)\<rparr>)))"

definition acm_data_control :: "u32 \<Rightarrow> GenericTransfer UsbIpRetSubmit" where
  "acm_data_control seqnum = create_ret_submit_epipe_without_data seqnum 0"

definition acm_send_data :: "data \<Rightarrow> acm_data \<Rightarrow> nat \<times> acm_data" where
  "acm_send_data b d = (case bs_write_nb b (ad_in d) of (n, ch) \<Rightarrow> (n, d\<lparr>ad_in := ch\<rparr>))"

definition acm_send_data_blocking ::
    "data \<Rightarrow> nat \<Rightarrow> ((GenericTransfer ByteStreamInChannel \<Rightarrow> GenericTransfer ByteStreamInChannel) \<times> bool) list \<Rightarrow>
     acm_data \<Rightarrow> (nat \<times> acm_data) option" where
  "acm_send_data_blocking b timeout_ms env d =
     map_option (\<lambda>(n, ch). (n, d\<lparr>ad_in := ch\<rparr>)) (bs_write b timeout_ms env (ad_in d) 0)"

definition acm_take_out ::
    "nat \<Rightarrow> ((GenericTransfer out_channel \<Rightarrow> GenericTransfer out_channel) \<times> bool) list \<Rightarrow> acm_data \<Rightarrow>
     (Pending option \<times> acm_data) option" where
  "acm_take_out timeout_ms env d =
     map_option (\<lambda>(p, ch). (p, d\<lparr>ad_out := ch\<rparr>)) (oc_take timeout_ms env (ad_out d))"

definition acm_try_take_out :: "acm_data \<Rightarrow> Pending option \<times> acm_data" where
  "acm_try_take_out d = (case oc_try_take (ad_out d) of (p, ch) \<Rightarrow> (p, d\<lparr>ad_out := ch\<rparr>))"

definition set_tx_buffer_capacity :: "nat \<Rightarrow> acm_data \<Rightarrow> acm_data" where
  "set_tx_buffer_capacity capacity d =
     d\<lparr>ad_in := bs_set_capacity capacity (ad_in d), ad_in_high_watermark := capacity * 3 div 4,
       ad_in_low_watermark := capacity div 4\<rparr>"

definition set_tx_watermarks :: "nat \<Rightarrow> nat \<Rightarrow> acm_data \<Rightarrow> acm_data" where
  "set_tx_watermarks high low d = d\<lparr>ad_in_high_watermark := high, ad_in_low_watermark := low\<rparr>"

definition get_tx_buffer_size :: "acm_data \<Rightarrow> nat" where
  "get_tx_buffer_size d = rb_count (bb_ring (ic_buffer (ad_in d)))"

definition get_tx_buffer_available :: "acm_data \<Rightarrow> nat" where
  "get_tx_buffer_available d = rb_available (bb_ring (ic_buffer (ad_in d)))"

text \<open>Flow control through the communication handler, which may be missing.\<close>

definition set_cts :: "bool \<Rightarrow> acm_comm option \<Rightarrow> acm_comm option" where
  "set_cts cts comm = map_option (send_serial_state_notification (if cts then SerialState_CTS else 0)) comm"

definition get_rts :: "acm_comm option \<Rightarrow> bool" where
  "get_rts comm = (case comm of Some c \<Rightarrow> rts (ac_signals c) | None \<Rightarrow> True)"

section \<open>Facts\<close>

lemma control_signals_roundtrip:
  "ControlSignalState_from_uint16 (ControlSignalState_to_uint16 s) = s"
  by (cases "dtr s"; cases "rts s")
     (simp_all add: ControlSignalState_from_uint16_def ControlSignalState_to_uint16_def
       ControlSignal_DTR_def ControlSignal_RTS_def)

lemma acm_comm_descriptor_chain: "desc_chain 0 (acm_comm_class_specific_descriptor c)"
proof -
  have step: "desc_chain 0 (d @ b)" if "desc_chain 0 d" "desc_block b" "b ! 1 = CS_INTERFACE" for d b
    using desc_chain_plain[OF that(1,2)] that(3) by (simp add: CS_INTERFACE_def)
  have h: "desc_chain 0 (CdcHeaderFunctionalDesc_append_to 5 CS_INTERFACE s v [])" for s v
    using step[OF desc_chain_Nil, of "CdcHeaderFunctionalDesc_append_to 5 CS_INTERFACE s v []"]
    by (simp add: CdcHeaderFunctionalDesc_append_to_def desc_block_def le_bytes_u16)
  have m: "desc_chain 0 (CdcCallManagementDesc_append_to 5 CS_INTERFACE s x y d)" if "desc_chain 0 d" for s x y d
    using step[OF that, of "[5, CS_INTERFACE, s, x, y]"]
    by (simp add: CdcCallManagementDesc_append_to_def desc_block_def)
  have a: "desc_chain 0 (CdcAcmFunctionalDesc_append_to 4 CS_INTERFACE s x d)" if "desc_chain 0 d" for s x d
    using step[OF that, of "[4, CS_INTERFACE, s, x]"]
    by (simp add: CdcAcmFunctionalDesc_append_to_def desc_block_def)
  have u: "desc_chain 0 (CdcUnionFunctionalDesc_append_to 5 CS_INTERFACE s x y d)" if "desc_chain 0 d" for s x y d
    using step[OF that, of "[5, CS_INTERFACE, s, x, y]"]
    by (simp add: CdcUnionFunctionalDesc_append_to_def desc_block_def)
  show ?thesis using h m a u by (simp add: acm_comm_class_specific_descriptor_def Let_def)
qed

interpretation acm_comm_unlink: unlink_handler acm_comm_handle_unlink_seqnum "\<lambda>c. ic_pending (ac_channel c)"
proof
  fix u c s
  show "fst (acm_comm_handle_unlink_seqnum u c s) = [unlink_reply c (u \<in># ic_pending (ac_channel s))]"
    using in_cancel.cancel_found[of u "ac_channel s"]
    by (auto simp: acm_comm_handle_unlink_seqnum_def split: prod.splits)
  show "ic_pending (ac_channel (snd (acm_comm_handle_unlink_seqnum u c s))) = ic_pending (ac_channel s) - {#u#}"
    using in_cancel.cancel_pending[of u "ac_channel s"]
    by (auto simp: acm_comm_handle_unlink_seqnum_def split: prod.splits)
qed

text \<open>The data handler looks at the IN channel first.\<close>

definition acm_data_waiting :: "acm_data \<Rightarrow> u32 multiset" where
  "acm_data_waiting d = ic_pending (ad_in d) + oc_pending_seqnums (ad_out d)"

lemma acm_data_unlink_eq:
  "acm_data_handle_unlink_seqnum u c d =
     (case unlink_in_out u c (ad_in d, ad_out d) of (rs, i, oc) \<Rightarrow> (rs, d\<lparr>ad_in := i, ad_out := oc\<rparr>))"
  by (simp add: acm_data_handle_unlink_seqnum_def unlink_in_out_def Let_def split: prod.split)

interpretation acm_data_unlink: unlink_handler acm_data_handle_unlink_seqnum acm_data_waiting
proof
  fix u c d
  have w: "acm_data_waiting d = in_out_waiting (ad_in d, ad_out d)" for d
    by (simp add: acm_data_waiting_def in_out_waiting_def)
  show "fst (acm_data_handle_unlink_seqnum u c d) = [unlink_reply c (u \<in># acm_data_waiting d)]"
    using in_out_unlink.unlink_answer[of u c "(ad_in d, ad_out d)"]
    by (auto simp: acm_data_unlink_eq w split: prod.split)
  show "acm_data_waiting (snd (acm_data_handle_unlink_seqnum u c d)) = acm_data_waiting d - {#u#}"
    using in_out_unlink.unlink_waiting[of u c "(ad_in d, ad_out d)"]
    by (auto simp: acm_data_unlink_eq w split: prod.split)
qed

interpretation acm_unlink: unlink_pair acm_comm_handle_unlink_seqnum "\<lambda>c. ic_pending (ac_channel c)"
  acm_data_handle_unlink_seqnum acm_data_waiting ..

section \<open>Properties\<close>

text \<open>The device of the two interfaces, the communication handler being handler 0.\<close>

definition acm_interfaces :: "UsbInterface list" where
  "acm_interfaces = [(acm_comm_make_interface 0x81)\<lparr>if_handler := Some 0\<rparr>,
     (acm_data_make_interface 0x82 0x02)\<lparr>if_handler := Some 1\<rparr>]"

definition acm_handle_unlink ::
    "u32 \<Rightarrow> u32 \<Rightarrow> 'tr TransferScheduler \<Rightarrow> acm_comm \<times> acm_data \<Rightarrow>
     UsbIpRetUnlink list \<times> 'tr TransferScheduler \<times> acm_comm \<times> acm_data" where
  "acm_handle_unlink =
     vd_handle_unlink_seqnum False 0
       (both_handlers acm_comm_handle_unlink_seqnum acm_data_handle_unlink_seqnum) acm_interfaces"

text \<open>A CMD_UNLINK for a serial port is answered twice, once by each interface handler, whichever
  of them the request belongs to: a request waiting in one of the channels is taken out and one
  answer says so, the other answer is 0.\<close>

theorem acm_unlink_answered_twice:
  "case acm_handle_unlink u c sch (comm, dat) of (rs, sch', comm', dat') \<Rightarrow>
     rs = [unlink_reply c (u \<in># ic_pending (ac_channel comm)), unlink_reply c (u \<in># acm_data_waiting dat)] \<and>
     ic_pending (ac_channel comm') = ic_pending (ac_channel comm) - {#u#} \<and>
     acm_data_waiting dat' = acm_data_waiting dat - {#u#}"
proof -
  have h: "handlers_of acm_interfaces = [0, 1]" by (simp add: acm_interfaces_def)
  show ?thesis
    using acm_unlink.both_replies[of u c "(comm, dat)"] acm_comm_unlink.unlink_waiting[of u c comm]
      acm_data_unlink.unlink_waiting[of u c dat]
    by (auto simp: acm_handle_unlink_def vd_handle_unlink_seqnum_def h both_handlers_def split: prod.splits)
qed

text \<open>The line coding a host sets is the one it reads back.\<close>

lemma u32_bytes:
  "ucast (ucast (w AND 0xFF) :: u8) OR push_bit 8 (ucast (ucast (drop_bit 8 w AND 0xFF) :: u8)) OR
   push_bit 16 (ucast (ucast (drop_bit 16 w AND 0xFF) :: u8)) OR
   push_bit 24 (ucast (ucast (drop_bit 24 w AND 0xFF) :: u8)) = (w :: u32)"
proof -
  have m: "v AND 0xFF = take_bit 8 v" for v :: u32
    by (simp add: take_bit_eq_mask mask_eq_exp_minus_1)
  show ?thesis
  proof (rule bit_word_eqI, unfold m)
    fix n
    assume "n < LENGTH(32)"
    then have n: "n < 32" by simp
    then consider "n < 8" | "8 \<le> n" "n < 16" | "16 \<le> n" "n < 24" | "24 \<le> n" "n < 32" by linarith
    then show "bit (ucast (ucast (take_bit 8 w) :: u8) OR
        push_bit 8 (ucast (ucast (take_bit 8 (drop_bit 8 w)) :: u8)) OR
        push_bit 16 (ucast (ucast (take_bit 8 (drop_bit 16 w)) :: u8)) OR
        push_bit 24 (ucast (ucast (take_bit 8 (drop_bit 24 w)) :: u8)) :: u32) n \<longleftrightarrow> bit w n"
      by cases (auto simp: bit_or_iff bit_take_bit_iff bit_push_bit_iff bit_ucast_iff bit_drop_bit_eq)
  qed
qed

lemma line_coding_roundtrip: "LineCoding_from_bytes (LineCoding_to_bytes c) = c"
  using u32_bytes[of "dwDTERate c"] by (simp add: LineCoding_from_bytes_def LineCoding_to_bytes_def)

end
