(* ===== verification/Storage.thy ===== *)
theory Storage
  imports Transfer_Op
begin

text \<open>
  The block stores under the mass-storage device: \<open>StorageBackend\<close> (the interface),
  \<open>MemoryBackend\<close> and \<open>RawImageBackend\<close>. The interface is a record of functions over the
  state of a backend. A pointer into the memory of a backend is the offset of its byte; reading or writing
  outside that memory is \<open>None\<close>.
\<close>

section \<open>Memory\<close>

definition mem_load :: "nat \<Rightarrow> nat \<Rightarrow> data \<Rightarrow> data option" where
  "mem_load off len xs = (if len = 0 then Some [] else slice off len xs)"

definition mem_store :: "nat \<Rightarrow> data \<Rightarrow> data \<Rightarrow> data option" where
  "mem_store off d xs = (if d = [] \<or> off + length d \<le> length xs then Some (memcpy_at off d xs) else None)"

lemma memcpy_at_Nil [simp]: "memcpy_at off [] xs = xs"
  by (simp add: memcpy_at_def)

lemma mem_load_inside: "off + len \<le> length xs \<Longrightarrow> mem_load off len xs = Some (take len (drop off xs))"
  by (simp add: mem_load_def slice_def)

lemma mem_store_inside: "off + length d \<le> length xs \<Longrightarrow> mem_store off d xs = Some (memcpy_at off d xs)"
  by (simp add: mem_store_def)

lemma memcpy_at_append:
  "off + length d + length e \<le> length xs \<Longrightarrow>
   memcpy_at (off + length d) e (memcpy_at off d xs) = memcpy_at off (d @ e) xs"
  by (simp add: memcpy_at_def ac_simps)

lemma read_memcpy_at:
  "off + length d \<le> length xs \<Longrightarrow> take (length d) (drop off (memcpy_at off d xs)) = d"
  by (simp add: memcpy_at_def)

lemma memcpy_at_outside:
  assumes "off + length d \<le> length xs" "i < length xs" "i < off \<or> off + length d \<le> i"
  shows "memcpy_at off d xs ! i = xs ! i"
  using assms by (auto simp: memcpy_at_def nth_append)

section \<open>The interface\<close>

record 'b StorageBackend =
  sb_read :: "'b \<Rightarrow> u64 \<Rightarrow> u16 \<Rightarrow> data option"
  sb_write :: "'b \<Rightarrow> u64 \<Rightarrow> u16 \<Rightarrow> data \<Rightarrow> 'b option"
  sb_punch_hole :: "'b \<Rightarrow> u64 \<Rightarrow> u64 \<Rightarrow> 'b option"
  sb_get_direct_buffer :: "'b \<Rightarrow> u64 \<Rightarrow> nat option"
  sb_load :: "'b \<Rightarrow> nat \<Rightarrow> nat \<Rightarrow> data option"
  sb_store :: "'b \<Rightarrow> nat \<Rightarrow> data \<Rightarrow> 'b option"
  sb_block_count :: "'b \<Rightarrow> u64"
  sb_block_size :: "'b \<Rightarrow> u32"

text \<open>\<open>sb_load\<close> and \<open>sb_store\<close> are what a dereference of the pointer from \<open>get_direct_buffer\<close> does.
  The offset and the length of an access are \<open>std::size_t\<close> products.\<close>

definition block_offset :: "u64 \<Rightarrow> u32 \<Rightarrow> nat" where
  "block_offset lba bs = unat (lba * ucast bs :: u64)"

definition block_total :: "u16 \<Rightarrow> u32 \<Rightarrow> nat" where
  "block_total cnt bs = unat (ucast cnt * ucast bs :: u64)"

lemma unat_bound: "unat (w :: 'a::len word) < 2 ^ LENGTH('a)"
  by (rule unsigned_less)

lemma unat_widen [simp]:
  "unat (ucast (x :: u32) :: u64) = unat x" "unat (ucast (y :: u16) :: u64) = unat y"
proof -
  have "unat x < 2 ^ 64" "unat y < 2 ^ 64" using unat_bound[of x] unat_bound[of y] by simp_all
  then show "unat (ucast x :: u64) = unat x" "unat (ucast y :: u64) = unat y"
    by (simp_all add: unsigned_ucast_eq take_bit_nat_eq_self)
qed

lemma block_total: "block_total cnt bs = unat cnt * unat bs"
proof -
  have "unat cnt * unat bs < 2 ^ 16 * 2 ^ 32"
    using unsigned_less[of cnt] unsigned_less[of bs] by (intro mult_strict_mono) auto
  then show ?thesis
    by (simp add: block_total_def unat_word_ariths)
qed

lemma block_offset:
  assumes "unat lba * unat bs < 2 ^ 64"
  shows "block_offset lba bs = unat lba * unat bs"
  using assms by (simp add: block_offset_def unat_word_ariths)

section \<open>MemoryBackend\<close>

record MemoryBackend =
  mb_block_count :: u64
  mb_block_size :: u32
  mb_data :: data

definition MemoryBackend_new :: "u64 \<Rightarrow> u32 \<Rightarrow> MemoryBackend" where
  "MemoryBackend_new blocks bs =
     \<lparr>mb_block_count = blocks, mb_block_size = bs, mb_data = replicate (block_offset blocks bs) 0\<rparr>"

definition memory_read :: "MemoryBackend \<Rightarrow> u64 \<Rightarrow> u16 \<Rightarrow> data option" where
  "memory_read b lba cnt = mem_load (block_offset lba (mb_block_size b)) (block_total cnt (mb_block_size b)) (mb_data b)"

definition memory_write :: "MemoryBackend \<Rightarrow> u64 \<Rightarrow> u16 \<Rightarrow> data \<Rightarrow> MemoryBackend option" where
  "memory_write b lba cnt d =
     (let total = block_total cnt (mb_block_size b)
      in if length d < total then None
         else map_option (\<lambda>xs. b\<lparr>mb_data := xs\<rparr>)
                (mem_store (block_offset lba (mb_block_size b)) (take total d) (mb_data b)))"

definition memory_punch_hole :: "MemoryBackend \<Rightarrow> u64 \<Rightarrow> u64 \<Rightarrow> MemoryBackend option" where
  "memory_punch_hole b lba cnt =
     map_option (\<lambda>xs. b\<lparr>mb_data := xs\<rparr>)
       (mem_store (block_offset lba (mb_block_size b)) (replicate (block_offset cnt (mb_block_size b)) 0) (mb_data b))"

definition memory_get_direct_buffer :: "MemoryBackend \<Rightarrow> u64 \<Rightarrow> nat option" where
  "memory_get_direct_buffer b lba = Some (block_offset lba (mb_block_size b))"

definition memory_ops :: "MemoryBackend StorageBackend" where
  "memory_ops =
     \<lparr>sb_read = memory_read, sb_write = memory_write, sb_punch_hole = memory_punch_hole,
      sb_get_direct_buffer = memory_get_direct_buffer,
      sb_load = (\<lambda>b off len. mem_load off len (mb_data b)),
      sb_store = (\<lambda>b off d. map_option (\<lambda>xs. b\<lparr>mb_data := xs\<rparr>) (mem_store off d (mb_data b))),
      sb_block_count = mb_block_count, sb_block_size = mb_block_size\<rparr>"

section \<open>RawImageBackend\<close>

text \<open>The bytes of the image file are \<open>rb_file\<close>; the mapping is shared, so the mapped memory and the file are
  the same bytes. \<open>rb_mapped\<close> says that \<open>mmap\<close> succeeded. \<open>rb_fallocate\<close> says whether the file system
  supports punching holes.\<close>

record RawImageBackend =
  rb_block_count :: u64
  rb_block_size :: u32
  rb_mapped :: bool
  rb_file :: data
  rb_fs_block_size :: nat
  rb_fallocate :: bool

text \<open>The constructor on a file with the bytes \<open>file\<close> (empty when it was just created). An existing file
  of at least one block keeps its size; a new file is extended with zeros; a shorter file is mapped as it
  is, and its bytes end before the mapping does.\<close>

definition RawImageBackend_new :: "data \<Rightarrow> u64 \<Rightarrow> u32 \<Rightarrow> nat \<Rightarrow> bool \<Rightarrow> bool \<Rightarrow> RawImageBackend" where
  "RawImageBackend_new file initial_blocks bs fs_bs mmap_ok falloc =
     (let exist_blocks = length file div unat bs
      in \<lparr>rb_block_count = (if file \<noteq> [] \<and> 0 < exist_blocks then of_nat exist_blocks else initial_blocks),
          rb_block_size = bs, rb_mapped = mmap_ok,
          rb_file = (if file \<noteq> [] then file else replicate (block_offset initial_blocks bs) 0),
          rb_fs_block_size = fs_bs, rb_fallocate = falloc\<rparr>)"

definition raw_load :: "RawImageBackend \<Rightarrow> nat \<Rightarrow> nat \<Rightarrow> data option" where
  "raw_load b off len = (if rb_mapped b then mem_load off len (rb_file b) else None)"

definition raw_store :: "RawImageBackend \<Rightarrow> nat \<Rightarrow> data \<Rightarrow> RawImageBackend option" where
  "raw_store b off d =
     (if rb_mapped b then map_option (\<lambda>xs. b\<lparr>rb_file := xs\<rparr>) (mem_store off d (rb_file b)) else None)"

definition raw_read :: "RawImageBackend \<Rightarrow> u64 \<Rightarrow> u16 \<Rightarrow> data option" where
  "raw_read b lba cnt = raw_load b (block_offset lba (rb_block_size b)) (block_total cnt (rb_block_size b))"

definition raw_write :: "RawImageBackend \<Rightarrow> u64 \<Rightarrow> u16 \<Rightarrow> data \<Rightarrow> RawImageBackend option" where
  "raw_write b lba cnt d =
     (let total = block_total cnt (rb_block_size b)
      in if length d < total then None else raw_store b (block_offset lba (rb_block_size b)) (take total d))"

text \<open>\<open>fallocate\<close> with \<open>FALLOC_FL_PUNCH_HOLE\<close> makes every byte of its range that the file has read as zero.\<close>

definition fallocate_punch :: "nat \<Rightarrow> nat \<Rightarrow> data \<Rightarrow> data" where
  "fallocate_punch off end_off xs = map (\<lambda>i. if off \<le> i \<and> i < end_off then 0 else xs ! i) [0..<length xs]"

definition raw_punch_hole :: "RawImageBackend \<Rightarrow> u64 \<Rightarrow> u64 \<Rightarrow> RawImageBackend option" where
  "raw_punch_hole b lba cnt =
     (let off = block_offset lba (rb_block_size b); len = block_offset cnt (rb_block_size b);
          fs = rb_fs_block_size b;
          aligned_off = (off div fs) * fs;
          aligned_end = ((off + len + fs - 1) div fs) * fs
      in map_option
           (\<lambda>b'. if rb_fallocate b' then b'\<lparr>rb_file := fallocate_punch aligned_off aligned_end (rb_file b')\<rparr> else b')
           (raw_store b off (replicate len 0)))"

definition raw_get_direct_buffer :: "RawImageBackend \<Rightarrow> u64 \<Rightarrow> nat option" where
  "raw_get_direct_buffer b lba = (if rb_mapped b then Some (block_offset lba (rb_block_size b)) else None)"

definition raw_ops :: "RawImageBackend StorageBackend" where
  "raw_ops =
     \<lparr>sb_read = raw_read, sb_write = raw_write, sb_punch_hole = raw_punch_hole,
      sb_get_direct_buffer = raw_get_direct_buffer, sb_load = raw_load, sb_store = raw_store,
      sb_block_count = rb_block_count, sb_block_size = rb_block_size\<rparr>"

section \<open>The contract\<close>

text \<open>What the mass-storage device relies on: accesses inside the bytes of the store succeed, read what was
  written last and keep the geometry.\<close>

definition same_geometry :: "'b StorageBackend \<Rightarrow> 'b \<Rightarrow> 'b \<Rightarrow> bool" where
  "same_geometry ops b b' \<longleftrightarrow>
     sb_block_count ops b' = sb_block_count ops b \<and> sb_block_size ops b' = sb_block_size ops b
     \<and> sb_get_direct_buffer ops b' = sb_get_direct_buffer ops b"

definition store_size :: "'b StorageBackend \<Rightarrow> 'b \<Rightarrow> nat" where
  "store_size ops b = unat (sb_block_count ops b) * unat (sb_block_size ops b)"

locale block_store =
  fixes ops :: "'b StorageBackend" and contents :: "'b \<Rightarrow> data" and wf :: "'b \<Rightarrow> bool"
  assumes size_ok: "wf b \<Longrightarrow>
      store_size ops b \<le> length (contents b) \<and> length (contents b) < 2 ^ 64 \<and> sb_block_size ops b \<noteq> 0"
    and load: "wf b \<Longrightarrow> off + len \<le> length (contents b) \<Longrightarrow>
      sb_load ops b off len = Some (take len (drop off (contents b)))"
    and store: "wf b \<Longrightarrow> off + length d \<le> length (contents b) \<Longrightarrow>
      \<exists>b'. sb_store ops b off d = Some b' \<and> wf b' \<and> contents b' = memcpy_at off d (contents b) \<and> same_geometry ops b b'"
    and direct: "wf b \<Longrightarrow> sb_get_direct_buffer ops b lba = Some off \<Longrightarrow> off = block_offset lba (sb_block_size ops b)"
    and read_load: "wf b \<Longrightarrow>
      sb_read ops b lba cnt =
        sb_load ops b (block_offset lba (sb_block_size ops b)) (block_total cnt (sb_block_size ops b))"
    and write_store: "wf b \<Longrightarrow> block_total cnt (sb_block_size ops b) \<le> length d \<Longrightarrow>
      sb_write ops b lba cnt d =
        sb_store ops b (block_offset lba (sb_block_size ops b)) (take (block_total cnt (sb_block_size ops b)) d)"
begin

lemma range_ok:
  assumes "wf b" "unat lba + n \<le> unat (sb_block_count ops b)"
  shows "block_offset lba (sb_block_size ops b) = unat lba * unat (sb_block_size ops b)"
    and "block_offset lba (sb_block_size ops b) + n * unat (sb_block_size ops b) \<le> length (contents b)"
proof -
  have "(unat lba + n) * unat (sb_block_size ops b) \<le> store_size ops b"
    using assms(2) by (simp add: store_size_def)
  then have r: "unat lba * unat (sb_block_size ops b) + n * unat (sb_block_size ops b) \<le> length (contents b)"
    using size_ok[OF assms(1)] by (simp add: algebra_simps)
  with size_ok[OF assms(1)] show "block_offset lba (sb_block_size ops b) = unat lba * unat (sb_block_size ops b)"
    by (intro block_offset) linarith
  with r show "block_offset lba (sb_block_size ops b) + n * unat (sb_block_size ops b) \<le> length (contents b)"
    by simp
qed

lemma read_range:
  assumes "wf b" "unat lba + unat cnt \<le> unat (sb_block_count ops b)"
  shows "sb_read ops b lba cnt =
    Some (take (unat cnt * unat (sb_block_size ops b)) (drop (unat lba * unat (sb_block_size ops b)) (contents b)))"
  using range_ok[OF assms] assms(1) by (simp add: read_load load block_total)

lemma write_range:
  assumes "wf b" "unat lba + unat cnt \<le> unat (sb_block_count ops b)" "unat cnt * unat (sb_block_size ops b) \<le> length d"
  shows "\<exists>b'. sb_write ops b lba cnt d = Some b' \<and> wf b' \<and> same_geometry ops b b' \<and>
    contents b' = memcpy_at (unat lba * unat (sb_block_size ops b)) (take (unat cnt * unat (sb_block_size ops b)) d) (contents b)"
proof -
  let ?d = "take (unat cnt * unat (sb_block_size ops b)) d"
  have "length ?d = unat cnt * unat (sb_block_size ops b)" using assms(3) by simp
  with range_ok[OF assms(1,2)] store[OF assms(1), of "unat lba * unat (sb_block_size ops b)" ?d] assms(1,3)
  show ?thesis by (simp add: write_store block_total) blast
qed

end

text \<open>A store whose \<open>punch_hole\<close> clears exactly the range of blocks.\<close>

locale punch_store = block_store +
  assumes punch: "wf b \<Longrightarrow> unat lba + unat cnt \<le> unat (sb_block_count ops b) \<Longrightarrow>
    \<exists>b'. sb_punch_hole ops b lba cnt = Some b' \<and> wf b' \<and> same_geometry ops b b' \<and>
      contents b' = memcpy_at (unat lba * unat (sb_block_size ops b))
        (replicate (unat cnt * unat (sb_block_size ops b)) 0) (contents b)"

definition memory_wf :: "MemoryBackend \<Rightarrow> bool" where
  "memory_wf b \<longleftrightarrow>
     length (mb_data b) = unat (mb_block_count b) * unat (mb_block_size b) \<and> length (mb_data b) < 2 ^ 64 \<and> mb_block_size b \<noteq> 0"

definition raw_wf :: "RawImageBackend \<Rightarrow> bool" where
  "raw_wf b \<longleftrightarrow>
     rb_mapped b \<and> unat (rb_block_count b) * unat (rb_block_size b) \<le> length (rb_file b) \<and>
     length (rb_file b) < 2 ^ 64 \<and> rb_block_size b \<noteq> 0"

lemma memory_store_ok:
  assumes "memory_wf b" "off + length d \<le> length (mb_data b)"
  shows "\<exists>b'. sb_store memory_ops b off d = Some b' \<and> memory_wf b' \<and>
      mb_data b' = memcpy_at off d (mb_data b) \<and> same_geometry memory_ops b b'"
  using assms
  by (simp add: memory_ops_def mem_store_inside memory_wf_def same_geometry_def memory_get_direct_buffer_def fun_eq_iff)

lemma memory_laws:
  "memory_wf b \<Longrightarrow>
     store_size memory_ops b \<le> length (mb_data b) \<and> length (mb_data b) < 2 ^ 64 \<and> sb_block_size memory_ops b \<noteq> 0"
  "memory_wf b \<Longrightarrow> off + len \<le> length (mb_data b) \<Longrightarrow>
     sb_load memory_ops b off len = Some (take len (drop off (mb_data b)))"
  "memory_wf b \<Longrightarrow> sb_get_direct_buffer memory_ops b lba = Some p \<Longrightarrow>
     p = block_offset lba (sb_block_size memory_ops b)"
  "memory_wf b \<Longrightarrow> sb_read memory_ops b lba cnt =
     sb_load memory_ops b (block_offset lba (sb_block_size memory_ops b)) (block_total cnt (sb_block_size memory_ops b))"
  "memory_wf b \<Longrightarrow> block_total cnt (sb_block_size memory_ops b) \<le> length d \<Longrightarrow>
     sb_write memory_ops b lba cnt d =
     sb_store memory_ops b (block_offset lba (sb_block_size memory_ops b)) (take (block_total cnt (sb_block_size memory_ops b)) d)"
  by (auto simp: memory_wf_def store_size_def memory_ops_def mem_load_inside memory_get_direct_buffer_def
      memory_read_def memory_write_def Let_def)

interpretation memory_store: block_store memory_ops mb_data memory_wf
  by unfold_locales (rule memory_laws memory_store_ok; assumption)+

lemma memory_punch_range:
  assumes "memory_wf b" "unat lba + unat cnt \<le> unat (mb_block_count b)"
  shows "\<exists>b'. sb_punch_hole memory_ops b lba cnt = Some b' \<and> memory_wf b' \<and> same_geometry memory_ops b b' \<and>
      mb_data b' = memcpy_at (unat lba * unat (mb_block_size b)) (replicate (unat cnt * unat (mb_block_size b)) 0) (mb_data b)"
proof -
  have o: "block_offset lba (mb_block_size b) = unat lba * unat (mb_block_size b)"
    "unat lba * unat (mb_block_size b) + unat cnt * unat (mb_block_size b) \<le> length (mb_data b)"
    using memory_store.range_ok[OF assms(1), of lba "unat cnt"] assms(2) by (simp_all add: memory_ops_def)
  moreover have "block_offset cnt (mb_block_size b) = unat cnt * unat (mb_block_size b)"
    using o assms(1) by (intro block_offset) (simp add: memory_wf_def)
  ultimately show ?thesis
    using assms(1)
    by (simp add: memory_ops_def memory_punch_hole_def mem_store_inside memory_wf_def same_geometry_def
        memory_get_direct_buffer_def fun_eq_iff)
qed

interpretation memory_store: punch_store memory_ops mb_data memory_wf
  by unfold_locales (use memory_punch_range in \<open>simp add: memory_ops_def\<close>)

lemma raw_store_ok:
  assumes "raw_wf b" "off + length d \<le> length (rb_file b)"
  shows "\<exists>b'. sb_store raw_ops b off d = Some b' \<and> raw_wf b' \<and>
      rb_file b' = memcpy_at off d (rb_file b) \<and> same_geometry raw_ops b b'"
  using assms
  by (simp add: raw_ops_def raw_store_def mem_store_inside raw_wf_def same_geometry_def raw_get_direct_buffer_def
      fun_eq_iff)

lemma raw_laws:
  "raw_wf b \<Longrightarrow>
     store_size raw_ops b \<le> length (rb_file b) \<and> length (rb_file b) < 2 ^ 64 \<and> sb_block_size raw_ops b \<noteq> 0"
  "raw_wf b \<Longrightarrow> off + len \<le> length (rb_file b) \<Longrightarrow>
     sb_load raw_ops b off len = Some (take len (drop off (rb_file b)))"
  "raw_wf b \<Longrightarrow> sb_get_direct_buffer raw_ops b lba = Some p \<Longrightarrow> p = block_offset lba (sb_block_size raw_ops b)"
  "raw_wf b \<Longrightarrow> sb_read raw_ops b lba cnt =
     sb_load raw_ops b (block_offset lba (sb_block_size raw_ops b)) (block_total cnt (sb_block_size raw_ops b))"
  "raw_wf b \<Longrightarrow> block_total cnt (sb_block_size raw_ops b) \<le> length d \<Longrightarrow>
     sb_write raw_ops b lba cnt d =
     sb_store raw_ops b (block_offset lba (sb_block_size raw_ops b)) (take (block_total cnt (sb_block_size raw_ops b)) d)"
  by (auto simp: raw_wf_def store_size_def raw_ops_def mem_load_inside raw_get_direct_buffer_def raw_load_def
      raw_read_def raw_write_def Let_def)

interpretation raw_image: block_store raw_ops rb_file raw_wf
  by unfold_locales (rule raw_laws raw_store_ok; assumption)+

text \<open>Punching a hole in an image file rounds the range outwards to blocks of the file system, so blocks of
  the disk that were not named lose their bytes: with 512-byte blocks on a 4096-byte file system,
  unmapping block 1 clears block 0.\<close>

lemma raw_punch_hole_overreach:
  assumes "b = RawImageBackend_new (replicate 4096 1) 0 512 4096 True True"
  shows "\<exists>b'. sb_punch_hole raw_ops b 1 1 = Some b' \<and> rb_file b ! 0 = 1 \<and> rb_file b' ! 0 = 0"
  unfolding assms
  by (simp add: RawImageBackend_new_def raw_ops_def raw_punch_hole_def Let_def block_offset_def raw_store_def
      mem_store_def fallocate_punch_def)

text \<open>A non-empty file shorter than one block is mapped without being extended.\<close>

lemma raw_short_file_not_wf: "\<not> raw_wf (RawImageBackend_new [0] 2048 512 4096 True True)"
  by (simp add: RawImageBackend_new_def raw_wf_def)

lemma raw_new_wf:
  assumes "file = [] \<or> unat bs \<le> length file" "unat initial_blocks * unat bs < 2 ^ 64" "length file < 2 ^ 64" "bs \<noteq> 0"
  shows "raw_wf (RawImageBackend_new file initial_blocks bs fs True fa)"
proof (cases "file = []")
  case True
  then show ?thesis using assms by (simp add: RawImageBackend_new_def raw_wf_def block_offset)
next
  case False
  have "0 < unat bs" using assms(4) by (simp add: unat_gt_0)
  moreover have "unat bs \<le> length file" using assms(1) False by simp
  ultimately have "0 < length file div unat bs" by (simp add: div_greater_zero_iff)
  moreover have "unat (of_nat (length file div unat bs) :: u64) = length file div unat bs"
    using le_less_trans[OF div_le_dividend assms(3), of "unat bs"] by (simp add: unat_of_nat)
  ultimately show ?thesis
    using False assms by (simp add: RawImageBackend_new_def raw_wf_def)
qed

end
