(* ===== verification/Msc.thy ===== *)
theory Msc
  imports Storage Virtual_Device
begin

text \<open>
  The mass-storage device (\<open>MscBulkOnlyHandler.cpp\<close>, \<open>MscConstants.h\<close>,
  \<open>StorageTransferOperator.cpp\<close>): the Bulk-Only Transport state machine with its SCSI commands over
  a block store. Every operation of the handler runs in the receiver thread; the sender reads the buffer of
  a reply later, through the pointer the reply carries. A read or write through a pointer outside its buffer,
  and a dereference of a null pointer, is \<open>None\<close>.
\<close>

section \<open>Constants and data\<close>

record CBW =
  dCBWSignature :: u32
  dCBWTag :: u32
  dCBWDataTransferLength :: u32
  bmCBWFlags :: u8
  bCBWLUN :: u8
  bCBWCBLength :: u8
  CBWCB :: data

datatype BotState = Bot_Idle | Bot_DataIn | Bot_DataOut | Bot_Status

definition CBW_SIGNATURE :: u32 where "CBW_SIGNATURE = 0x43425355"
definition CSW_SIGNATURE :: u32 where "CSW_SIGNATURE = 0x53425355"

datatype scsi_cmd =
  TestUnitReady | RequestSense | Inquiry | ModeSense6 | StartStopUnit | PreventAllowMediumRemoval
| ReadFormatCapacities | ReadCapacity10 | ReadCapacity16 | Read10 | Write10 | Verify10 | SynchronizeCache
| WriteSame10 | Unmap | ModeSense10 | AtaPassThrough | WriteSame16

fun scsi_code :: "scsi_cmd \<Rightarrow> u8" where
  "scsi_code TestUnitReady = 0x00" | "scsi_code RequestSense = 0x03" | "scsi_code Inquiry = 0x12"
| "scsi_code ModeSense6 = 0x1A" | "scsi_code StartStopUnit = 0x1B" | "scsi_code PreventAllowMediumRemoval = 0x1E"
| "scsi_code ReadFormatCapacities = 0x23" | "scsi_code ReadCapacity10 = 0x25" | "scsi_code ReadCapacity16 = 0x9E"
| "scsi_code Read10 = 0x28" | "scsi_code Write10 = 0x2A" | "scsi_code Verify10 = 0x2F"
| "scsi_code SynchronizeCache = 0x35" | "scsi_code WriteSame10 = 0x41" | "scsi_code Unmap = 0x42"
| "scsi_code ModeSense10 = 0x5A" | "scsi_code AtaPassThrough = 0x85" | "scsi_code WriteSame16 = 0x93"

definition put_be16 :: "u16 \<Rightarrow> data" where
  "put_be16 v = [ucast (drop_bit 8 v), ucast v]"

definition put_be24 :: "u32 \<Rightarrow> data" where
  "put_be24 v = [ucast (drop_bit 16 v), ucast (drop_bit 8 v), ucast v]"

definition put_be32 :: "u32 \<Rightarrow> data" where
  "put_be32 v = [ucast (drop_bit 24 v), ucast (drop_bit 16 v), ucast (drop_bit 8 v), ucast v]"

definition put_be64 :: "u64 \<Rightarrow> data" where
  "put_be64 v = put_be32 (ucast (drop_bit 32 v)) @ put_be32 (ucast v)"

text \<open>The readers take the bytes at the pointer.\<close>

definition get_be16 :: "data \<Rightarrow> u16" where
  "get_be16 p = push_bit 8 (ucast (p ! 0)) OR ucast (p ! 1)"

definition get_be32 :: "data \<Rightarrow> u32" where
  "get_be32 p =
     push_bit 24 (ucast (p ! 0)) OR push_bit 16 (ucast (p ! 1)) OR push_bit 8 (ucast (p ! 2)) OR ucast (p ! 3)"

definition get_be64 :: "data \<Rightarrow> u64" where
  "get_be64 p = push_bit 32 (ucast (get_be32 p)) OR ucast (get_be32 (drop 4 p))"

text \<open>\<open>memcpy\<close> into the packed structure on a little-endian host, and the bytes a host sends.\<close>

definition cbw_of_bytes :: "data \<Rightarrow> CBW" where
  "cbw_of_bytes d =
     \<lparr>dCBWSignature = word_of_le (take 4 d), dCBWTag = word_of_le (take 4 (drop 4 d)),
      dCBWDataTransferLength = word_of_le (take 4 (drop 8 d)), bmCBWFlags = d ! 12, bCBWLUN = d ! 13,
      bCBWCBLength = d ! 14, CBWCB = take 16 (drop 15 d)\<rparr>"

definition cbw_bytes :: "CBW \<Rightarrow> data" where
  "cbw_bytes c =
     le_bytes (dCBWSignature c) @ le_bytes (dCBWTag c) @ le_bytes (dCBWDataTransferLength c) @
     [bmCBWFlags c, bCBWLUN c, bCBWCBLength c] @ CBWCB c"

definition csw_bytes :: "u32 \<Rightarrow> u32 \<Rightarrow> u8 \<Rightarrow> data" where
  "csw_bytes tag residue status = le_bytes CSW_SIGNATURE @ le_bytes tag @ le_bytes residue @ [status]"

definition CBW_zero :: CBW where
  "CBW_zero = \<lparr>dCBWSignature = 0, dCBWTag = 0, dCBWDataTransferLength = 0, bmCBWFlags = 0, bCBWLUN = 0,
     bCBWCBLength = 0, CBWCB = replicate 16 0\<rparr>"

subsection \<open>Responses\<close>

definition pad_string :: "data \<Rightarrow> nat \<Rightarrow> data" where
  "pad_string s n = take n s @ replicate (n - length s) 0x20"

definition inquiry_data :: "data \<Rightarrow> data \<Rightarrow> data \<Rightarrow> data" where
  "inquiry_data vendor product revision =
     [0x00, 0x80, 0x07, 0x12, 31, 0, 0, 0x02] @ pad_string vendor 8 @ pad_string product 16 @ pad_string revision 4"

definition vpd_supported_pages :: data where
  "vpd_supported_pages = [0x00, 0x00, 5, 0x00, 0x80, 0xB0, 0xB1, 0xB2]"

text \<open>The structure has 35 bytes; \<open>sn_len\<close> is at most 32.\<close>

definition vpd_unit_serial :: "data \<Rightarrow> data" where
  "vpd_unit_serial serial =
     (let sn = take 32 serial in [0x00, 0x80, of_nat (length sn)] @ sn @ replicate (32 - length sn) 0)"

definition vpd_block_device_characteristics :: data where
  "vpd_block_device_characteristics = [0x00, 0xB0] @ put_be16 60 @ replicate 60 0"

definition vpd_block_limits :: data where
  "vpd_block_limits =
     [0x00, 0xB1] @ put_be16 0x3C @ replicate 20 0 @ put_be32 65536 @ put_be32 64 @ put_be32 8 @
     put_be32 0x80000008 @ put_be32 65535 @ replicate 20 0"

definition vpd_logical_block_provisioning :: data where
  "vpd_logical_block_provisioning = [0x00, 0xB2] @ put_be16 0x0004 @ [0, 0x80, 0x02, 0]"

definition sense_data :: data where
  "sense_data = [0x70, 0, 0, 0, 0, 0, 0, 10] @ replicate 10 0"

definition mode_sense6_data :: "bool \<Rightarrow> data" where
  "mode_sense6_data read_only = [3, 0, if read_only then 0x80 else 0, 0]"

definition mode_sense10_data :: "bool \<Rightarrow> data" where
  "mode_sense10_data read_only = put_be16 6 @ [0, if read_only then 0x80 else 0] @ replicate 4 0"

definition read_capacity10_data :: "u64 \<Rightarrow> u32 \<Rightarrow> data" where
  "read_capacity10_data blocks bs = put_be32 (ucast (blocks - 1)) @ put_be32 bs"

definition read_capacity16_data :: "u64 \<Rightarrow> u32 \<Rightarrow> data" where
  "read_capacity16_data blocks bs = put_be64 (blocks - 1) @ put_be32 bs @ replicate 4 0"

definition read_format_capacities_data :: "u64 \<Rightarrow> u32 \<Rightarrow> data" where
  "read_format_capacities_data blocks bs =
     [0, 0] @ put_be16 8 @ put_be32 (ucast blocks) @ [0x02] @ put_be24 bs"

section \<open>The handler\<close>

record MscConfig =
  mc_vendor :: data
  mc_product :: data
  mc_revision :: data
  mc_serial :: data

record 'b MscBulkOnlyHandler =
  bot_backend :: "'b option"
  bot_read_only :: bool
  bot_config :: MscConfig
  bot_state :: BotState
  bot_current_cbw :: CBW
  bot_staging_data :: data
  bot_staging_offset :: nat
  bot_data_residue :: u32
  bot_command_failed :: bool
  bot_write_lba :: u64
  bot_write_count :: u16
  bot_data_out_unmap :: bool
  bot_write_same_lba :: u64
  bot_write_same_count :: u64
  bot_data_out_write_same :: bool
  bot_read_lba :: u64
  bot_read_mmap_base :: "nat option"
  bot_read_total_size :: nat
  bot_write_mmap_base :: "nat option"
  bot_write_accumulated :: nat

definition MscBulkOnlyHandler_new :: "'b option \<Rightarrow> MscConfig \<Rightarrow> bool \<Rightarrow> 'b MscBulkOnlyHandler" where
  "MscBulkOnlyHandler_new b config read_only =
     \<lparr>bot_backend = b, bot_read_only = read_only, bot_config = config, bot_state = Bot_Idle, bot_current_cbw = CBW_zero,
      bot_staging_data = [], bot_staging_offset = 0, bot_data_residue = 0, bot_command_failed = False, bot_write_lba = 0,
      bot_write_count = 0, bot_data_out_unmap = False, bot_write_same_lba = 0, bot_write_same_count = 0,
      bot_data_out_write_same = False, bot_read_lba = 0, bot_read_mmap_base = None, bot_read_total_size = 0,
      bot_write_mmap_base = None, bot_write_accumulated = 0\<rparr>"

definition wstr_to_ascii :: "wstring \<Rightarrow> data \<Rightarrow> data" where
  "wstr_to_ascii ws fallback =
     (let result = map ucast (filter (\<lambda>c. 0 < c \<and> c < 128) ws) in if result = [] then fallback else result)"

definition ascii_bytes :: "string \<Rightarrow> data" where
  "ascii_bytes s = map (\<lambda>c. of_nat (of_char c)) s"

definition msc_on_setup_interface_handlers ::
    "wstring \<Rightarrow> wstring \<Rightarrow> wstring \<Rightarrow> 'b MscBulkOnlyHandler \<Rightarrow> 'b MscBulkOnlyHandler" where
  "msc_on_setup_interface_handlers manufacturer product serial m =
     (let c = bot_config m
      in m\<lparr>bot_config :=
        \<lparr>mc_vendor = (if mc_vendor c = [] then wstr_to_ascii manufacturer (ascii_bytes ''USBIPDC '') else mc_vendor c),
         mc_product = (if mc_product c = [] then wstr_to_ascii product (ascii_bytes ''USB Flash Drive '') else mc_product c),
         mc_revision = (if mc_revision c = [] then ascii_bytes ''1.00'' else mc_revision c),
         mc_serial = (if mc_serial c = [] then wstr_to_ascii serial (ascii_bytes ''USBIPDCPSN'') else mc_serial c)\<rparr>\<rparr>)"

text \<open>\<open>on_new_connection\<close> and \<open>on_disconnection\<close> reset the same members.\<close>

definition msc_reset :: "'b MscBulkOnlyHandler \<Rightarrow> 'b MscBulkOnlyHandler" where
  "msc_reset m =
     m\<lparr>bot_state := Bot_Idle, bot_current_cbw := CBW_zero, bot_staging_data := [], bot_staging_offset := 0, bot_data_residue := 0,
       bot_command_failed := False, bot_data_out_unmap := False, bot_data_out_write_same := False, bot_read_mmap_base := None,
       bot_read_total_size := 0, bot_write_mmap_base := None, bot_write_accumulated := 0\<rparr>"

definition msc_on_new_connection :: "'b MscBulkOnlyHandler \<Rightarrow> 'b MscBulkOnlyHandler" where
  "msc_on_new_connection m = msc_reset m"

definition msc_on_disconnection :: "'b MscBulkOnlyHandler \<Rightarrow> 'b MscBulkOnlyHandler" where
  "msc_on_disconnection m = msc_reset m"

subsection \<open>The transfer object\<close>

datatype msc_ptr = Ptr_null | Ptr_store nat | Ptr_staging nat | Ptr_fallback

record StorageIoTransfer =
  st_external_buf :: msc_ptr
  st_actual_length :: nat
  st_file_lba :: u64
  st_file_offset :: nat
  st_direct_io :: bool
  st_is_in :: bool
  st_fallback_data :: data

definition StorageIoTransfer_new :: StorageIoTransfer where
  "StorageIoTransfer_new =
     \<lparr>st_external_buf = Ptr_null, st_actual_length = 0, st_file_lba = 0, st_file_offset = 0, st_direct_io = False,
      st_is_in = False, st_fallback_data = []\<rparr>"

definition prepare_out_buffer ::
    "nat \<Rightarrow> StorageIoTransfer \<Rightarrow> 'b MscBulkOnlyHandler \<Rightarrow> msc_ptr \<times> StorageIoTransfer \<times> 'b MscBulkOnlyHandler" where
  "prepare_out_buffer len trx m =
     (case bot_state m of
        Bot_DataOut \<Rightarrow>
          (case bot_write_mmap_base m of
             Some base \<Rightarrow>
               (Ptr_store (base + bot_write_accumulated m),
                trx\<lparr>st_direct_io := True, st_file_lba := bot_write_lba m, st_file_offset := bot_write_accumulated m\<rparr>, m)
           | None \<Rightarrow>
               (Ptr_staging (length (bot_staging_data m)), trx,
                m\<lparr>bot_staging_data := bot_staging_data m @ replicate len 0\<rparr>))
      | _ \<Rightarrow> (Ptr_null, trx, m))"

definition sto_alloc_transfer_handle ::
    "nat \<Rightarrow> u32 \<Rightarrow> 'b MscBulkOnlyHandler \<Rightarrow> StorageIoTransfer \<times> 'b MscBulkOnlyHandler" where
  "sto_alloc_transfer_handle len dir m =
     (let trx = StorageIoTransfer_new\<lparr>st_is_in := (dir = UsbIpDirection_In)\<rparr>
      in if dir = UsbIpDirection_Out
         then (case prepare_out_buffer len trx m of (p, trx', m') \<Rightarrow> (trx'\<lparr>st_external_buf := p\<rparr>, m'))
         else (trx, m))"

section \<open>SCSI commands\<close>

definition to_status :: "'b MscBulkOnlyHandler \<Rightarrow> 'b MscBulkOnlyHandler" where
  "to_status m = m\<lparr>bot_state := Bot_Status\<rparr>"

definition fail_command :: "'b MscBulkOnlyHandler \<Rightarrow> 'b MscBulkOnlyHandler" where
  "fail_command m = m\<lparr>bot_command_failed := True, bot_state := Bot_Status\<rparr>"

text \<open>Staging the first \<open>min(transfer_len, n)\<close> bytes of a response structure.\<close>

definition stage_response :: "data \<Rightarrow> nat \<Rightarrow> 'b MscBulkOnlyHandler \<Rightarrow> 'b MscBulkOnlyHandler option" where
  "stage_response d n m =
     (let len = min (unat (dCBWDataTransferLength (bot_current_cbw m))) n
      in case slice 0 len d of
           None \<Rightarrow> None
         | Some r \<Rightarrow> Some (m\<lparr>bot_staging_offset := 0, bot_staging_data := r, bot_state := Bot_DataIn\<rparr>))"

definition scsi_inquiry :: "'b MscBulkOnlyHandler \<Rightarrow> 'b MscBulkOnlyHandler option" where
  "scsi_inquiry m =
     (let evpd = CBWCB (bot_current_cbw m) ! 1 AND 0x01 \<noteq> 0; page = CBWCB (bot_current_cbw m) ! 2; c = bot_config m
      in if \<not> evpd then stage_response (inquiry_data (mc_vendor c) (mc_product c) (mc_revision c)) 36 m
         else if page = 0x00 then stage_response vpd_supported_pages 8 m
         else if page = 0x80 then stage_response (vpd_unit_serial (mc_serial c)) (4 + min (length (mc_serial c)) 32) m
         else if page = 0xB0 then stage_response vpd_block_device_characteristics 64 m
         else if page = 0xB1 then stage_response vpd_block_limits 64 m
         else if page = 0xB2 then stage_response vpd_logical_block_provisioning 8 m
         else Some (m\<lparr>bot_staging_offset := 0, bot_staging_data := [], bot_state := Bot_DataIn\<rparr>))"

definition scsi_read_format_capacities ::
    "'b StorageBackend \<Rightarrow> 'b MscBulkOnlyHandler \<Rightarrow> 'b MscBulkOnlyHandler option" where
  "scsi_read_format_capacities ops m =
     (let blocks = (case bot_backend m of Some b \<Rightarrow> sb_block_count ops b | None \<Rightarrow> 0);
          bs = (case bot_backend m of Some b \<Rightarrow> sb_block_size ops b | None \<Rightarrow> 512)
      in stage_response (read_format_capacities_data blocks bs) 12 m)"

definition scsi_read_capacity16 ::
    "'b StorageBackend \<Rightarrow> 'b MscBulkOnlyHandler \<Rightarrow> 'b MscBulkOnlyHandler option" where
  "scsi_read_capacity16 ops m =
     (case bot_backend m of
        None \<Rightarrow> None
      | Some b \<Rightarrow> stage_response (read_capacity16_data (sb_block_count ops b) (sb_block_size ops b)) 12 m)"

definition scsi_read_capacity10 ::
    "'b StorageBackend \<Rightarrow> 'b MscBulkOnlyHandler \<Rightarrow> 'b MscBulkOnlyHandler option" where
  "scsi_read_capacity10 ops m =
     (case bot_backend m of
        None \<Rightarrow> None
      | Some b \<Rightarrow> stage_response (read_capacity10_data (sb_block_count ops b) (sb_block_size ops b)) 8 m)"

definition cdb10_lba :: "data \<Rightarrow> u32" where
  "cdb10_lba cb = get_be32 (drop 2 cb)"

definition cdb10_count :: "data \<Rightarrow> u16" where
  "cdb10_count cb = (let c = get_be16 (drop 7 cb) in if c = 0 then 256 else c)"

text \<open>The bounds check adds two 32-bit values before the comparison with the 64-bit block count.\<close>

definition rw10_in_range :: "'b StorageBackend \<Rightarrow> 'b MscBulkOnlyHandler \<Rightarrow> u32 \<Rightarrow> u16 \<Rightarrow> bool" where
  "rw10_in_range ops m lba cnt \<longleftrightarrow>
     \<not> ((ucast (lba + ucast cnt :: u32) :: u64) > (case bot_backend m of Some b \<Rightarrow> sb_block_count ops b | None \<Rightarrow> 0))"

definition scsi_read10 ::
    "'b StorageBackend \<Rightarrow> u32 \<Rightarrow> u16 \<Rightarrow> 'b MscBulkOnlyHandler \<Rightarrow> 'b MscBulkOnlyHandler option" where
  "scsi_read10 ops lba cnt m =
     (case bot_backend m of
        None \<Rightarrow> None
      | Some b \<Rightarrow>
          (let m1 = m\<lparr>bot_staging_offset := 0, bot_read_lba := ucast lba, bot_read_total_size := block_total cnt (sb_block_size ops b)\<rparr>
           in case sb_get_direct_buffer ops b (ucast lba) of
                Some p \<Rightarrow> Some (m1\<lparr>bot_read_mmap_base := Some p, bot_staging_data := [], bot_state := Bot_DataIn\<rparr>)
              | None \<Rightarrow>
                  (case sb_read ops b (ucast lba) cnt of
                     None \<Rightarrow> None
                   | Some d \<Rightarrow> Some (m1\<lparr>bot_read_mmap_base := None, bot_staging_data := d, bot_state := Bot_DataIn\<rparr>))))"

definition scsi_write10 ::
    "'b StorageBackend \<Rightarrow> u32 \<Rightarrow> u16 \<Rightarrow> 'b MscBulkOnlyHandler \<Rightarrow> 'b MscBulkOnlyHandler option" where
  "scsi_write10 ops lba cnt m =
     (case bot_backend m of
        None \<Rightarrow> None
      | Some b \<Rightarrow>
          (let p = sb_get_direct_buffer ops b (ucast lba);
               m1 = m\<lparr>bot_write_lba := ucast lba, bot_write_count := cnt, bot_write_accumulated := 0, bot_write_mmap_base := p,
                      bot_state := Bot_DataOut\<rparr>
           in Some (if p = None then m1\<lparr>bot_staging_data := []\<rparr> else m1)))"

definition scsi_read_write10 ::
    "'b StorageBackend \<Rightarrow> bool \<Rightarrow> 'b MscBulkOnlyHandler \<Rightarrow> 'b MscBulkOnlyHandler option" where
  "scsi_read_write10 ops is_read m =
     (let lba = cdb10_lba (CBWCB (bot_current_cbw m)); cnt = cdb10_count (CBWCB (bot_current_cbw m))
      in if \<not> rw10_in_range ops m lba cnt then Some (fail_command m)
         else if is_read then scsi_read10 ops lba cnt m
         else if bot_read_only m then Some (fail_command m)
         else scsi_write10 ops lba cnt m)"

definition scsi_write_same ::
    "'b StorageBackend \<Rightarrow> bool \<Rightarrow> 'b MscBulkOnlyHandler \<Rightarrow> 'b MscBulkOnlyHandler option" where
  "scsi_write_same ops is10 m =
     (let cb = CBWCB (bot_current_cbw m);
          unmap = cb ! 1 AND 0x08 \<noteq> 0;
          lba = (if is10 then ucast (get_be32 (drop 2 cb)) else get_be64 (drop 2 cb)) :: u64;
          cnt0 = (if is10 then ucast (get_be16 (drop 7 cb)) else ucast (get_be32 (drop 10 cb))) :: u64;
          blocks = (case bot_backend m of Some b \<Rightarrow> sb_block_count ops b | None \<Rightarrow> 0)
      in if lba \<ge> blocks then Some (fail_command m)
         else (let cnt = (if cnt0 = 0 then blocks - lba else cnt0)
               in if bot_read_only m \<or> cnt > blocks - lba then Some (fail_command m)
                  else (case bot_backend m of
                          None \<Rightarrow> None
                        | Some b \<Rightarrow>
                            if unmap
                            then map_option (\<lambda>b'. to_status (m\<lparr>bot_backend := Some b'\<rparr>)) (sb_punch_hole ops b lba cnt)
                            else (let tl = dCBWDataTransferLength (bot_current_cbw m); bs = sb_block_size ops b
                                  in Some (m\<lparr>bot_write_same_lba := lba, bot_write_same_count := cnt, bot_data_out_write_same := True,
                                       bot_staging_offset := 0, bot_staging_data := [],
                                       bot_data_residue := (if tl > bs then tl - bs else 0), bot_state := Bot_DataOut\<rparr>)))))"

text \<open>\<open>write_count_\<close> is a 16-bit member: a transfer length keeps its low half.\<close>

definition scsi_unmap :: "'b MscBulkOnlyHandler \<Rightarrow> 'b MscBulkOnlyHandler" where
  "scsi_unmap m =
     (let data_len = dCBWDataTransferLength (bot_current_cbw m)
      in if bot_read_only m then fail_command m
         else if data_len = 0 then to_status m
         else m\<lparr>bot_write_count := ucast data_len, bot_data_out_unmap := True, bot_staging_offset := 0, bot_staging_data := [],
                bot_state := Bot_DataOut\<rparr>)"

definition scsi_command ::
    "'b StorageBackend \<Rightarrow> 'b MscBulkOnlyHandler \<Rightarrow> 'b MscBulkOnlyHandler option" where
  "scsi_command ops m =
     (let cmd = CBWCB (bot_current_cbw m) ! 0
      in if cmd = scsi_code TestUnitReady then Some (m\<lparr>bot_command_failed := (bot_backend m = None), bot_state := Bot_Status\<rparr>)
         else if cmd = scsi_code RequestSense then stage_response sense_data 18 m
         else if cmd = scsi_code Inquiry then scsi_inquiry m
         else if cmd = scsi_code ModeSense6 then stage_response (mode_sense6_data (bot_read_only m)) 4 m
         else if cmd = scsi_code PreventAllowMediumRemoval then Some (to_status m)
         else if cmd = scsi_code ReadFormatCapacities then scsi_read_format_capacities ops m
         else if cmd = scsi_code ReadCapacity16 then scsi_read_capacity16 ops m
         else if cmd = scsi_code ReadCapacity10 then scsi_read_capacity10 ops m
         else if cmd = scsi_code Read10 then scsi_read_write10 ops True m
         else if cmd = scsi_code Write10 then scsi_read_write10 ops False m
         else if cmd = scsi_code StartStopUnit \<or> cmd = scsi_code Verify10 then Some (to_status m)
         else if cmd = scsi_code SynchronizeCache then Some (to_status m)
         else if cmd = scsi_code ModeSense10 then stage_response (mode_sense10_data (bot_read_only m)) 8 m
         else if cmd = scsi_code WriteSame10 then scsi_write_same ops True m
         else if cmd = scsi_code WriteSame16 then scsi_write_same ops False m
         else if cmd = scsi_code AtaPassThrough then Some (fail_command m)
         else if cmd = scsi_code Unmap then Some (scsi_unmap m)
         else Some (fail_command m))"

definition handle_cbw ::
    "'b StorageBackend \<Rightarrow> data \<Rightarrow> 'b MscBulkOnlyHandler \<Rightarrow> 'b MscBulkOnlyHandler option" where
  "handle_cbw ops d m =
     (let m1 = m\<lparr>bot_staging_data := [], bot_read_mmap_base := None, bot_read_total_size := 0, bot_write_mmap_base := None,
                 bot_write_accumulated := 0\<rparr>
      in if length d < 31 then Some (fail_command m1)
         else (let m2 = m1\<lparr>bot_current_cbw := cbw_of_bytes d\<rparr>
               in if dCBWSignature (bot_current_cbw m2) \<noteq> CBW_SIGNATURE then Some (fail_command m2)
                  else scsi_command ops m2))"

section \<open>The data phases\<close>

text \<open>The UNMAP parameter list: an 8-byte header, then 16-byte block descriptors.\<close>

fun unmap_descriptors :: "data \<Rightarrow> (u64 \<times> u32) list" where
  "unmap_descriptors d =
     (if 16 \<le> length d then (get_be64 d, get_be32 (drop 8 d)) # unmap_descriptors (drop 16 d) else [])"

declare unmap_descriptors.simps [simp del]

fun punch_all :: "'b StorageBackend \<Rightarrow> (u64 \<times> u32) list \<Rightarrow> 'b \<Rightarrow> 'b option" where
  "punch_all ops [] b = Some b"
| "punch_all ops ((lba, cnt) # ds) b =
     (case sb_punch_hole ops b lba (ucast cnt) of None \<Rightarrow> None | Some b' \<Rightarrow> punch_all ops ds b')"

fun fill_blocks :: "'b StorageBackend \<Rightarrow> nat \<Rightarrow> u64 \<Rightarrow> data \<Rightarrow> 'b \<Rightarrow> 'b option" where
  "fill_blocks ops 0 lba d b = Some b"
| "fill_blocks ops (Suc n) lba d b =
     (case sb_write ops b lba 1 d of None \<Rightarrow> None | Some b' \<Rightarrow> fill_blocks ops n (lba + 1) d b')"

definition data_out_unmap ::
    "'b StorageBackend \<Rightarrow> 'b MscBulkOnlyHandler \<Rightarrow> 'b MscBulkOnlyHandler option" where
  "data_out_unmap ops m =
     (if unat (bot_write_count m) \<le> length (bot_staging_data m)
      then (let ds = unmap_descriptors (drop 8 (bot_staging_data m));
                m' = m\<lparr>bot_staging_data := [], bot_data_out_unmap := False, bot_data_residue := 0, bot_state := Bot_Status\<rparr>
            in case bot_backend m of
                 None \<Rightarrow> (if ds = [] then Some m' else None)
               | Some b \<Rightarrow> map_option (\<lambda>b'. m'\<lparr>bot_backend := Some b'\<rparr>) (punch_all ops ds b))
      else Some m)"

definition data_out_write_same ::
    "'b StorageBackend \<Rightarrow> 'b MscBulkOnlyHandler \<Rightarrow> 'b MscBulkOnlyHandler option" where
  "data_out_write_same ops m =
     (case bot_backend m of
        None \<Rightarrow> None
      | Some b \<Rightarrow>
          if unat (sb_block_size ops b) \<le> length (bot_staging_data m)
          then map_option (\<lambda>b'. m\<lparr>bot_backend := Some b', bot_staging_data := [], bot_data_out_write_same := False,
                                  bot_state := Bot_Status\<rparr>)
                 (fill_blocks ops (unat (bot_write_same_count m)) (bot_write_same_lba m) (bot_staging_data m) b)
          else Some m)"

definition data_out_mmap ::
    "'b StorageBackend \<Rightarrow> nat \<Rightarrow> 'b MscBulkOnlyHandler \<Rightarrow> 'b MscBulkOnlyHandler option" where
  "data_out_mmap ops len m =
     (case bot_backend m of
        None \<Rightarrow> None
      | Some b \<Rightarrow>
          (let m1 = m\<lparr>bot_write_accumulated := bot_write_accumulated m + len\<rparr>
           in Some (if block_total (bot_write_count m) (sb_block_size ops b) \<le> bot_write_accumulated m1
                    then m1\<lparr>bot_write_mmap_base := None, bot_write_accumulated := 0, bot_data_residue := 0, bot_state := Bot_Status\<rparr>
                    else m1)))"

definition data_out_staging ::
    "'b StorageBackend \<Rightarrow> 'b MscBulkOnlyHandler \<Rightarrow> 'b MscBulkOnlyHandler option" where
  "data_out_staging ops m =
     (case bot_backend m of
        None \<Rightarrow> None
      | Some b \<Rightarrow>
          if bot_write_lba m + ucast (bot_write_count m) \<le> sb_block_count ops b
             \<and> block_total (bot_write_count m) (sb_block_size ops b) \<le> length (bot_staging_data m)
          then map_option (\<lambda>b'. m\<lparr>bot_backend := Some b', bot_staging_data := [], bot_data_residue := 0, bot_state := Bot_Status\<rparr>)
                 (sb_write ops b (bot_write_lba m) (bot_write_count m) (bot_staging_data m))
          else Some m)"

definition on_out_data_received ::
    "'b StorageBackend \<Rightarrow> StorageIoTransfer \<Rightarrow> nat \<Rightarrow> 'b MscBulkOnlyHandler \<Rightarrow> 'b MscBulkOnlyHandler option" where
  "on_out_data_received ops trx len m =
     (case bot_state m of
        Bot_Idle \<Rightarrow> handle_cbw ops (st_fallback_data trx) m
      | Bot_DataOut \<Rightarrow>
          (if bot_data_out_unmap m then data_out_unmap ops m
           else if bot_data_out_write_same m then data_out_write_same ops m
           else if bot_write_mmap_base m \<noteq> None then data_out_mmap ops len m
           else data_out_staging ops m)
      | _ \<Rightarrow> Some m)"

text \<open>\<open>recv_transfer_data\<close>: \<open>spliced\<close> says that the backend's \<open>recv_direct\<close> took the bytes from the socket to the
  file; otherwise they go through the pointer.\<close>

definition sto_place ::
    "'b StorageBackend \<Rightarrow> bool \<Rightarrow> StorageIoTransfer \<Rightarrow> data \<Rightarrow> 'b MscBulkOnlyHandler \<Rightarrow>
     (StorageIoTransfer \<times> 'b MscBulkOnlyHandler) option" where
  "sto_place ops spliced trx d m =
     (case (st_external_buf trx, bot_backend m) of
        (Ptr_null, _) \<Rightarrow> Some (trx\<lparr>st_fallback_data := d\<rparr>, m)
      | (Ptr_fallback, _) \<Rightarrow> Some (trx\<lparr>st_fallback_data := d\<rparr>, m)
      | (Ptr_staging off, _) \<Rightarrow>
          map_option (\<lambda>s. (trx, m\<lparr>bot_staging_data := s\<rparr>)) (mem_store off d (bot_staging_data m))
      | (Ptr_store off, None) \<Rightarrow> None
      | (Ptr_store off, Some b) \<Rightarrow>
          map_option (\<lambda>b'. (trx, m\<lparr>bot_backend := Some b'\<rparr>))
            (sb_store ops b
               (if st_direct_io trx \<and> spliced
                then block_offset (st_file_lba trx) (sb_block_size ops b) + st_file_offset trx else off) d))"

definition sto_recv_transfer_data ::
    "'b StorageBackend \<Rightarrow> bool \<Rightarrow> StorageIoTransfer \<Rightarrow> data \<Rightarrow> 'b MscBulkOnlyHandler \<Rightarrow>
     (StorageIoTransfer \<times> 'b MscBulkOnlyHandler) option" where
  "sto_recv_transfer_data ops spliced trx d m =
     (case sto_place ops spliced trx d m of
        None \<Rightarrow> None
      | Some (trx', m') \<Rightarrow> map_option (\<lambda>m''. (trx', m'')) (on_out_data_received ops trx' (length d) m'))"

type_synonym msc_reply = "StorageIoTransfer UsbIpRetSubmit"

definition msc_send_stall :: "u32 \<Rightarrow> msc_reply" where
  "msc_send_stall seqnum = create_ret_submit_epipe_without_data seqnum 0"

definition msc_handle_control :: "u32 \<Rightarrow> msc_reply" where
  "msc_handle_control seqnum = create_ret_submit_epipe_without_data seqnum 0"

definition data_in_reply ::
    "u32 \<Rightarrow> nat \<Rightarrow> StorageIoTransfer TransferHandle \<Rightarrow> 'b MscBulkOnlyHandler \<Rightarrow> msc_reply option" where
  "data_in_reply seqnum len transfer m =
     (if len = 0 then Some (create_ret_submit_with_status_and_no_data seqnum (urb_status_code StatusOK) 0)
      else (case th_handle transfer of
              None \<Rightarrow> None
            | Some trx \<Rightarrow>
                (let trx' = (case bot_read_mmap_base m of
                        Some base \<Rightarrow> trx\<lparr>st_direct_io := True, st_external_buf := Ptr_store (base + bot_staging_offset m),
                          st_file_lba := bot_read_lba m, st_file_offset := bot_staging_offset m\<rparr>
                      | None \<Rightarrow> trx\<lparr>st_external_buf := Ptr_staging (bot_staging_offset m)\<rparr>)
                 in Some (create_ret_submit_with_status_and_no_iso seqnum (urb_status_code StatusOK) (of_nat len)
                      (transfer\<lparr>th_handle := Some (trx'\<lparr>st_actual_length := len\<rparr>)\<rparr>)))))"

definition data_in_total :: "'b MscBulkOnlyHandler \<Rightarrow> nat" where
  "data_in_total m = (if bot_read_mmap_base m \<noteq> None then bot_read_total_size m else length (bot_staging_data m))"

definition bulk_data_in ::
    "u32 \<Rightarrow> u32 \<Rightarrow> StorageIoTransfer TransferHandle \<Rightarrow> 'b MscBulkOnlyHandler \<Rightarrow> (msc_reply \<times> 'b MscBulkOnlyHandler) option" where
  "bulk_data_in seqnum transfer_buffer_length transfer m =
     (let total = data_in_total m;
          len = min (unat transfer_buffer_length) (total - bot_staging_offset m);
          m1 = m\<lparr>bot_staging_offset := bot_staging_offset m + len\<rparr>
      in map_option (\<lambda>r. (r, if total \<le> bot_staging_offset m1
                            then m1\<lparr>bot_staging_offset := 0, bot_data_residue := 0, bot_state := Bot_Status\<rparr> else m1))
           (data_in_reply seqnum len transfer m))"

definition bulk_status ::
    "u32 \<Rightarrow> StorageIoTransfer TransferHandle \<Rightarrow> 'b MscBulkOnlyHandler \<Rightarrow> (msc_reply \<times> 'b MscBulkOnlyHandler) option" where
  "bulk_status seqnum transfer m =
     (let c = bot_current_cbw m;
          csw = (if bot_command_failed m then csw_bytes (dCBWTag c) (dCBWDataTransferLength c) 1
                 else csw_bytes (dCBWTag c) (bot_data_residue m) 0)
      in case th_handle transfer of
           None \<Rightarrow> None
         | Some trx \<Rightarrow>
             Some (create_ret_submit_with_status_and_no_iso seqnum (urb_status_code StatusOK) 13
                     (transfer\<lparr>th_handle := Some (trx\<lparr>st_fallback_data := csw, st_external_buf := Ptr_fallback,
                        st_actual_length := 13\<rparr>)\<rparr>),
                   m\<lparr>bot_command_failed := False, bot_state := Bot_Idle\<rparr>))"

definition msc_handle_bulk_transfer ::
    "u32 \<Rightarrow> UsbEndpoint \<Rightarrow> u32 \<Rightarrow> StorageIoTransfer TransferHandle \<Rightarrow> 'b MscBulkOnlyHandler \<Rightarrow>
     (msc_reply \<times> 'b MscBulkOnlyHandler) option" where
  "msc_handle_bulk_transfer seqnum ep transfer_buffer_length transfer m =
     (if ep_is_in ep
      then (case bot_state m of
              Bot_DataIn \<Rightarrow> bulk_data_in seqnum transfer_buffer_length transfer m
            | Bot_Status \<Rightarrow> bulk_status seqnum transfer m
            | _ \<Rightarrow> Some (msc_send_stall seqnum, m))
      else Some (create_ret_submit_with_status_and_no_data seqnum (urb_status_code StatusOK) transfer_buffer_length, m))"

text \<open>\<open>send_transfer_data\<close>: the bytes the sender puts on the socket. \<open>spliced\<close> says that the backend's
  \<open>send_direct\<close> took them from the file.\<close>

definition sto_send_transfer_data ::
    "'b StorageBackend \<Rightarrow> bool \<Rightarrow> 'b MscBulkOnlyHandler \<Rightarrow> StorageIoTransfer \<Rightarrow> nat \<Rightarrow> data option" where
  "sto_send_transfer_data ops spliced m trx len =
     (if st_direct_io trx \<and> spliced \<and> bot_backend m \<noteq> None
      then (let b = the (bot_backend m)
            in sb_load ops b (block_offset (st_file_lba trx) (sb_block_size ops b) + st_file_offset trx) len)
      else (case st_external_buf trx of
              Ptr_store off \<Rightarrow> (case bot_backend m of None \<Rightarrow> None | Some b \<Rightarrow> sb_load ops b off len)
            | Ptr_staging off \<Rightarrow> mem_load off len (bot_staging_data m)
            | _ \<Rightarrow> mem_load 0 len (st_fallback_data trx)))"

definition msc_make_interface :: "u8 \<Rightarrow> u8 \<Rightarrow> UsbInterface" where
  "msc_make_interface in_ep out_ep =
     default_interface\<lparr>interface_class := 0x08, interface_subclass := 0x06, interface_protocol := 0x50,
       endpoints := [[\<lparr>ep_address = in_ep, ep_attributes = ep_attr_code EA_Bulk, ep_max_packet_size = 512, ep_interval = 0\<rparr>,
                      \<lparr>ep_address = out_ep, ep_attributes = ep_attr_code EA_Bulk, ep_max_packet_size = 512, ep_interval = 0\<rparr>]]\<rparr>"

end
