(* ===== verification/Msc_Props.thy ===== *)
theory Msc_Props
  imports Msc
begin

text \<open>
  The mass-storage device seen by the host: exchanges of OUT and IN transfers, whole SCSI commands, and the
  properties of the Bulk-Only Transport state machine over any block store. The lemmas about a store
  are proved in the context of its locale and used on the backends through their interpretations.
\<close>

section \<open>Exchanges with the host\<close>

text \<open>An OUT transfer: allocation, reception and the acknowledgement; an IN transfer: allocation, handling and
  the bytes the sender puts on the socket.\<close>

definition msc_in_ep :: UsbEndpoint where
  "msc_in_ep = \<lparr>ep_address = 0x81, ep_attributes = ep_attr_code EA_Bulk, ep_max_packet_size = 512, ep_interval = 0\<rparr>"

definition msc_out ::
    "'b StorageBackend \<Rightarrow> bool \<Rightarrow> data \<Rightarrow> 'b MscBulkOnlyHandler \<Rightarrow> 'b MscBulkOnlyHandler option" where
  "msc_out ops spliced d m =
     (case sto_alloc_transfer_handle (length d) UsbIpDirection_Out m of
        (trx, m1) \<Rightarrow> map_option snd (sto_recv_transfer_data ops spliced trx d m1))"

definition msc_in ::
    "'b StorageBackend \<Rightarrow> bool \<Rightarrow> u32 \<Rightarrow> 'b MscBulkOnlyHandler \<Rightarrow> (u32 \<times> data \<times> 'b MscBulkOnlyHandler) option" where
  "msc_in ops spliced len m =
     (case sto_alloc_transfer_handle (unat len) UsbIpDirection_In m of
        (trx, m1) \<Rightarrow>
          (case msc_handle_bulk_transfer 0 msc_in_ep len \<lparr>th_handle = Some trx, th_op = None\<rparr> m1 of
             None \<Rightarrow> None
           | Some (r, m2) \<Rightarrow>
               (case th_handle (rs_transfer r) of
                  None \<Rightarrow> Some (rs_status r, [], m2)
                | Some t \<Rightarrow> map_option (\<lambda>d. (rs_status r, d, m2))
                             (sto_send_transfer_data ops spliced m2 t (unat (rs_actual_length r))))))"

fun msc_outs ::
    "'b StorageBackend \<Rightarrow> bool \<Rightarrow> data list \<Rightarrow> 'b MscBulkOnlyHandler \<Rightarrow> 'b MscBulkOnlyHandler option" where
  "msc_outs ops sp [] m = Some m"
| "msc_outs ops sp (d # ds) m = (case msc_out ops sp d m of None \<Rightarrow> None | Some m' \<Rightarrow> msc_outs ops sp ds m')"

fun msc_ins ::
    "'b StorageBackend \<Rightarrow> bool \<Rightarrow> u32 list \<Rightarrow> 'b MscBulkOnlyHandler \<Rightarrow> (data \<times> 'b MscBulkOnlyHandler) option" where
  "msc_ins ops sp [] m = Some ([], m)"
| "msc_ins ops sp (n # ns) m =
     (case msc_in ops sp n m of
        None \<Rightarrow> None
      | Some (st, d, m') \<Rightarrow> map_option (\<lambda>(e, m''). (d @ e, m'')) (msc_ins ops sp ns m'))"

text \<open>A command of the host: the CBW, the OUT transfers, the IN transfers, and the 13-byte IN transfer of the
  status; the result is the data read, the status bytes and the handler.\<close>

definition msc_command ::
    "'b StorageBackend \<Rightarrow> bool \<Rightarrow> CBW \<Rightarrow> data list \<Rightarrow> u32 list \<Rightarrow> 'b MscBulkOnlyHandler \<Rightarrow>
     (data \<times> data \<times> 'b MscBulkOnlyHandler) option" where
  "msc_command ops sp c outs ins m =
     (case msc_outs ops sp (cbw_bytes c # outs) m of
        None \<Rightarrow> None
      | Some m1 \<Rightarrow>
          (case msc_ins ops sp ins m1 of
             None \<Rightarrow> None
           | Some (d, m2) \<Rightarrow> map_option (\<lambda>(st, csw, m3). (d, csw, m3)) (msc_in ops sp 13 m2)))"

section \<open>Lemmas\<close>

lemma cbw_roundtrip: "length (CBWCB c) = 16 \<Longrightarrow> cbw_of_bytes (cbw_bytes c) = c"
  by (simp add: cbw_of_bytes_def cbw_bytes_def nth_append)

lemma length_cbw_bytes: "length (CBWCB c) = 16 \<Longrightarrow> length (cbw_bytes c) = 31"
  by (simp add: cbw_bytes_def)

lemma in_ep_is_in [simp]: "ep_is_in msc_in_ep"
  by (simp add: msc_in_ep_def ep_is_in_def ep_direction_def)

lemma msc_out_idle_any: "bot_state m = Bot_Idle \<Longrightarrow> msc_out ops sp d m = handle_cbw ops d m"
  by (simp add: msc_out_def sto_alloc_transfer_handle_def prepare_out_buffer_def sto_recv_transfer_data_def
      sto_place_def StorageIoTransfer_new_def on_out_data_received_def option.map_comp o_def option.map_ident)

lemma msc_out_ignored: "bot_state m = Bot_DataIn \<or> bot_state m = Bot_Status \<Longrightarrow> msc_out ops sp d m = Some m"
  by (auto simp: msc_out_def sto_alloc_transfer_handle_def prepare_out_buffer_def sto_recv_transfer_data_def
      sto_place_def StorageIoTransfer_new_def on_out_data_received_def)

lemma msc_out_append:
  assumes "bot_state m = Bot_DataOut" "bot_write_mmap_base m = None"
  shows "msc_out ops sp d m =
    (let m' = m\<lparr>bot_staging_data := bot_staging_data m @ d\<rparr>
     in if bot_data_out_unmap m then data_out_unmap ops m'
        else if bot_data_out_write_same m then data_out_write_same ops m' else data_out_staging ops m')"
  using assms
  by (simp add: msc_out_def sto_alloc_transfer_handle_def prepare_out_buffer_def
      sto_recv_transfer_data_def sto_place_def StorageIoTransfer_new_def on_out_data_received_def mem_store_def
      memcpy_at_def option.map_comp o_def option.map_ident Let_def)

lemma msc_in_stalled:
  "bot_state m = Bot_Idle \<or> bot_state m = Bot_DataOut \<Longrightarrow> msc_in ops sp len m = Some (urb_status_code StatusEPIPE, [], m)"
  by (auto simp: msc_in_def sto_alloc_transfer_handle_def UsbIpDirection_Out_def UsbIpDirection_In_def
      msc_handle_bulk_transfer_def msc_send_stall_def create_ret_submit_epipe_without_data_def TransferHandle_empty_def)

definition begin_command :: "CBW \<Rightarrow> 'b MscBulkOnlyHandler \<Rightarrow> 'b MscBulkOnlyHandler" where
  "begin_command c m =
     m\<lparr>bot_staging_data := [], bot_read_mmap_base := None, bot_read_total_size := 0, bot_write_mmap_base := None,
       bot_write_accumulated := 0, bot_current_cbw := c\<rparr>"

lemma msc_out_idle:
  assumes "bot_state m = Bot_Idle" "length (CBWCB c) = 16" "dCBWSignature c = CBW_SIGNATURE"
  shows "msc_out ops sp (cbw_bytes c) m = scsi_command ops (begin_command c m)"
  using assms
  by (simp add: msc_out_def sto_alloc_transfer_handle_def prepare_out_buffer_def sto_recv_transfer_data_def
      sto_place_def StorageIoTransfer_new_def on_out_data_received_def handle_cbw_def Let_def length_cbw_bytes
      cbw_roundtrip begin_command_def option.map_comp o_def option.map_ident)

lemma msc_in_status:
  assumes "bot_state m = Bot_Status"
  shows "msc_in ops sp len m =
    Some (urb_status_code StatusOK,
      (if bot_command_failed m then csw_bytes (dCBWTag (bot_current_cbw m)) (dCBWDataTransferLength (bot_current_cbw m)) 1
       else csw_bytes (dCBWTag (bot_current_cbw m)) (bot_data_residue m) 0),
      m\<lparr>bot_command_failed := False, bot_state := Bot_Idle\<rparr>)"
  using assms
  by (simp add: msc_in_def sto_alloc_transfer_handle_def UsbIpDirection_Out_def UsbIpDirection_In_def
      msc_handle_bulk_transfer_def bulk_status_def Let_def create_ret_submit_with_status_and_no_iso_def
      sto_send_transfer_data_def StorageIoTransfer_new_def mem_load_def slice_def csw_bytes_def)

text \<open>The bytes that the data-in phase of a handler sends.\<close>

definition in_source :: "'b StorageBackend \<Rightarrow> 'b MscBulkOnlyHandler \<Rightarrow> data \<Rightarrow> bool" where
  "in_source ops m D \<longleftrightarrow>
     (case bot_read_mmap_base m of
        None \<Rightarrow> bot_staging_data m = D
      | Some base \<Rightarrow>
          (\<exists>b. bot_backend m = Some b \<and> base = block_offset (bot_read_lba m) (sb_block_size ops b) \<and>
               bot_read_total_size m = length D \<and>
               (\<forall>off n. off + n \<le> length D \<longrightarrow> sb_load ops b (base + off) n = Some (take n (drop off D)))))"

lemma in_source_total: "in_source ops m D \<Longrightarrow> data_in_total m = length D"
  by (auto simp: in_source_def data_in_total_def split: option.splits)

definition finish_data :: "'b MscBulkOnlyHandler \<Rightarrow> 'b MscBulkOnlyHandler" where
  "finish_data m = m\<lparr>bot_staging_offset := 0, bot_data_residue := 0, bot_state := Bot_Status\<rparr>"

lemma unat_min_of_nat: "unat (of_nat (min (unat (len :: u32)) k) :: u32) = min (unat len) k"
proof -
  have "unat len < 2 ^ 32" using unsigned_less[of len] by simp
  then have "min (unat len) k < 2 ^ 32" by (rule min.strict_coboundedI1)
  then show ?thesis by (simp add: unat_of_nat)
qed

lemma data_in_sent:
  assumes "in_source ops m D" "bot_staging_offset m + n \<le> length D" "0 < n"
    and "data_in_reply seq n \<lparr>th_handle = Some StorageIoTransfer_new', th_op = None\<rparr> m = Some r"
    and "\<not> st_direct_io StorageIoTransfer_new'"
    and m': "bot_backend m' = bot_backend m" "bot_staging_data m' = bot_staging_data m"
  shows "\<exists>t. th_handle (rs_transfer r) = Some t \<and> rs_status r = urb_status_code StatusOK \<and>
    rs_actual_length r = of_nat n \<and>
    sto_send_transfer_data ops sp m' t n = Some (take n (drop (bot_staging_offset m) D))"
proof (cases "bot_read_mmap_base m")
  case None
  with assms show ?thesis
    by (auto simp: data_in_reply_def create_ret_submit_with_status_and_no_iso_def in_source_def Let_def
        sto_send_transfer_data_def mem_load_inside)
next
  case (Some base)
  with assms show ?thesis
    by (auto simp: data_in_reply_def create_ret_submit_with_status_and_no_iso_def in_source_def Let_def
        sto_send_transfer_data_def)
qed

lemma msc_in_data:
  assumes "bot_state m = Bot_DataIn" "in_source ops m D" "bot_staging_offset m \<le> length D"
  shows "msc_in ops sp len m =
    Some (urb_status_code StatusOK, take (unat len) (drop (bot_staging_offset m) D),
      (if length D \<le> bot_staging_offset m + unat len then finish_data m
       else m\<lparr>bot_staging_offset := bot_staging_offset m + unat len\<rparr>))"
proof -
  let ?t = "StorageIoTransfer_new\<lparr>st_is_in := True\<rparr>"
  let ?th = "\<lparr>th_handle = Some ?t, th_op = None\<rparr>"
  define n where "n = min (unat len) (length D - bot_staging_offset m)"
  define m1 where "m1 = m\<lparr>bot_staging_offset := bot_staging_offset m + n\<rparr>"
  define m2 where "m2 = (if length D \<le> bot_staging_offset m1
      then m1\<lparr>bot_staging_offset := 0, bot_data_residue := 0, bot_state := Bot_Status\<rparr> else m1)"
  have "\<exists>r. data_in_reply 0 n ?th m = Some r" by (simp add: data_in_reply_def Let_def)
  then obtain r where r: "data_in_reply 0 n ?th m = Some r" ..
  have h: "msc_handle_bulk_transfer 0 msc_in_ep len ?th m = Some (r, m2)"
    using assms(1) r in_source_total[OF assms(2)]
    by (simp add: msc_handle_bulk_transfer_def bulk_data_in_def Let_def n_def m1_def m2_def)
  have m2: "bot_backend m2 = bot_backend m" "bot_staging_data m2 = bot_staging_data m"
    by (simp_all add: m2_def m1_def)
  have fin: "m2 = (if length D \<le> bot_staging_offset m + unat len then finish_data m
       else m\<lparr>bot_staging_offset := bot_staging_offset m + unat len\<rparr>)"
    using assms(3) by (auto simp: m2_def m1_def n_def finish_data_def)
  have bytes: "take n (drop (bot_staging_offset m) D) = take (unat len) (drop (bot_staging_offset m) D)"
    by (simp add: n_def min_def)
  have al: "sto_alloc_transfer_handle (unat len) UsbIpDirection_In m = (?t, m)"
    by (simp add: sto_alloc_transfer_handle_def UsbIpDirection_Out_def UsbIpDirection_In_def)
  show ?thesis
  proof (cases "n = 0")
    case True
    with r bytes have "th_handle (rs_transfer r) = None" "rs_status r = urb_status_code StatusOK"
        "take (unat len) (drop (bot_staging_offset m) D) = []"
      by (auto simp: data_in_reply_def create_ret_submit_with_status_and_no_data_def TransferHandle_empty_def)
    then show ?thesis using h al fin by (simp add: msc_in_def)
  next
    case False
    have nd: "\<not> st_direct_io ?t" by (simp add: StorageIoTransfer_new_def)
    have "bot_staging_offset m + n \<le> length D" using assms(3) by (simp add: n_def)
    from data_in_sent[OF assms(2) this _ r nd m2] False obtain t where
      "th_handle (rs_transfer r) = Some t" "rs_status r = urb_status_code StatusOK" "rs_actual_length r = of_nat n"
      "sto_send_transfer_data ops sp m2 t n = Some (take n (drop (bot_staging_offset m) D))" by blast
    then show ?thesis using h al fin bytes unat_min_of_nat[of len] by (simp add: msc_in_def n_def)
  qed
qed

text \<open>A data-in phase: IN transfers of any positive sizes that add up to what is left give exactly that, and
  only the last one ends the phase.\<close>

lemma in_source_offset:
  "in_source ops (m\<lparr>bot_staging_offset := k\<rparr>) D = in_source ops m D"
  by (simp add: in_source_def split: option.split)

lemma msc_ins_data:
  assumes "bot_state m = Bot_DataIn" "in_source ops m D" "bot_staging_offset m < length D"
    and "sum_list (map unat ns) = length D - bot_staging_offset m" "0 \<notin> set ns"
  shows "msc_ins ops sp ns m = Some (drop (bot_staging_offset m) D, finish_data m)"
  using assms
proof (induction ns arbitrary: m)
  case Nil
  then show ?case by simp
next
  case (Cons n ns)
  let ?k = "bot_staging_offset m + unat n"
  note step = msc_in_data[OF Cons.prems(1,2), of sp n]
  have n: "0 < unat n" using Cons.prems(5) by (simp add: unat_gt_0)
  show ?case
  proof (cases "ns = []")
    case True
    then show ?thesis using Cons.prems(3,4) step by simp
  next
    case False
    then obtain n' ns' where ns: "ns = n' # ns'" by (cases ns) auto
    have "0 < unat n'" using Cons.prems(5) ns by (simp add: unat_gt_0)
    then have k: "?k < length D" using Cons.prems(3,4) ns by simp
    have "msc_ins ops sp ns (m\<lparr>bot_staging_offset := ?k\<rparr>) =
        Some (drop ?k D, finish_data (m\<lparr>bot_staging_offset := ?k\<rparr>))"
      using Cons.IH[of "m\<lparr>bot_staging_offset := ?k\<rparr>"] Cons.prems k by (simp add: in_source_offset)
    moreover have "take (unat n) (drop (bot_staging_offset m) D) @ drop ?k D = drop (bot_staging_offset m) D"
      by (metis add.commute append_take_drop_id drop_drop)
    ultimately show ?thesis using step k Cons.prems(3) by (simp add: finish_data_def)
  qed
qed

subsection \<open>The data-out phase of WRITE\<close>

definition plain_write :: "'b MscBulkOnlyHandler \<Rightarrow> bool" where
  "plain_write m \<longleftrightarrow> bot_state m = Bot_DataOut \<and> \<not> bot_data_out_unmap m \<and> \<not> bot_data_out_write_same m"

lemma msc_out_mmap:
  assumes "plain_write m" "bot_write_mmap_base m = Some base" "bot_backend m = Some b"
    and "base = block_offset (bot_write_lba m) (sb_block_size ops b)"
    and "sb_store ops b (base + bot_write_accumulated m) d = Some b'"
  shows "msc_out ops sp d m = data_out_mmap ops (length d) (m\<lparr>bot_backend := Some b'\<rparr>)"
  using assms
  by (simp add: plain_write_def msc_out_def sto_alloc_transfer_handle_def prepare_out_buffer_def
      sto_recv_transfer_data_def sto_place_def StorageIoTransfer_new_def on_out_data_received_def
      option.map_comp o_def option.map_ident)

lemma msc_out_staging:
  assumes "plain_write m" "bot_write_mmap_base m = None"
  shows "msc_out ops sp d m = data_out_staging ops (m\<lparr>bot_staging_data := bot_staging_data m @ d\<rparr>)"
  using assms by (simp add: plain_write_def msc_out_append Let_def)

definition write_done :: "'b \<Rightarrow> 'b MscBulkOnlyHandler \<Rightarrow> 'b MscBulkOnlyHandler \<Rightarrow> bool" where
  "write_done b' m m' \<longleftrightarrow>
     bot_backend m' = Some b' \<and> bot_state m' = Bot_Status \<and> bot_data_residue m' = 0
     \<and> bot_command_failed m' = bot_command_failed m \<and> bot_current_cbw m' = bot_current_cbw m
     \<and> bot_read_only m' = bot_read_only m \<and> \<not> bot_data_out_unmap m' \<and> \<not> bot_data_out_write_same m'"

context block_store
begin

lemma msc_outs_mmap:
  assumes "plain_write m" "bot_write_mmap_base m = Some base" "bot_backend m = Some b" "wf b"
    and "base = block_offset (bot_write_lba m) (sb_block_size ops b)"
    and "base + unat (bot_write_count m) * unat (sb_block_size ops b) \<le> length (contents b)"
    and "ds \<noteq> []" "[] \<notin> set ds"
    and "bot_write_accumulated m + length (concat ds) = unat (bot_write_count m) * unat (sb_block_size ops b)"
  shows "\<exists>m' b'. msc_outs ops sp ds m = Some m' \<and> write_done b' m m' \<and> wf b' \<and> same_geometry ops b b' \<and>
    contents b' = memcpy_at (base + bot_write_accumulated m) (concat ds) (contents b)"
  using assms
proof (induction ds arbitrary: m b)
  case (Cons d ds)
  let ?a = "bot_write_accumulated m" and ?total = "unat (bot_write_count m) * unat (sb_block_size ops b)"
  have len: "base + ?a + length d \<le> length (contents b)" using Cons.prems(6,9) by simp
  obtain b1 where b1: "sb_store ops b (base + ?a) d = Some b1" "wf b1"
      "contents b1 = memcpy_at (base + ?a) d (contents b)" "same_geometry ops b b1"
    using store[OF Cons.prems(4) len] by blast
  have out: "msc_out ops sp d m = data_out_mmap ops (length d) (m\<lparr>bot_backend := Some b1\<rparr>)"
    by (rule msc_out_mmap[OF Cons.prems(1-3,5) b1(1)])
  have bs: "sb_block_size ops b1 = sb_block_size ops b" using b1(4) by (simp add: same_geometry_def)
  show ?case
  proof (cases "ds = []")
    case True
    with Cons.prems(9) have "?total \<le> ?a + length d" by simp
    then show ?thesis
      using True out b1 bs Cons.prems(1)
      by (auto simp: data_out_mmap_def Let_def block_total write_done_def plain_write_def)
  next
    case False
    then have "0 < length (concat ds)" using Cons.prems(8) by (cases ds) auto
    moreover have "?a + (length d + length (concat ds)) = ?total" using Cons.prems(9) by simp
    ultimately have "?a + length d < ?total" by linarith
    then have out': "msc_out ops sp d m =
        Some (m\<lparr>bot_backend := Some b1, bot_write_accumulated := ?a + length d\<rparr>)" (is "_ = Some ?m1")
      using out bs by (simp add: data_out_mmap_def Let_def block_total)
    have "\<exists>m' b'. msc_outs ops sp ds ?m1 = Some m' \<and> write_done b' ?m1 m' \<and> wf b' \<and> same_geometry ops b1 b' \<and>
        contents b' = memcpy_at (base + bot_write_accumulated ?m1) (concat ds) (contents b1)"
      using False Cons.prems b1 bs len by (intro Cons.IH) (auto simp: plain_write_def)
    then obtain m' b' where m': "msc_outs ops sp ds ?m1 = Some m'" "write_done b' ?m1 m'" "wf b'" "same_geometry ops b1 b'"
        "contents b' = memcpy_at (base + (?a + length d)) (concat ds) (contents b1)" by auto
    have "contents b' = memcpy_at (base + ?a) (concat (d # ds)) (contents b)"
      using m'(5) b1(3) memcpy_at_append[of "base + ?a" d "concat ds" "contents b"] Cons.prems(6,9)
      by (simp add: add.assoc)
    then show ?thesis
      using m' out' b1(4) by (auto simp: write_done_def same_geometry_def)
  qed
qed simp

lemma msc_outs_staging:
  assumes "plain_write m" "bot_write_mmap_base m = None" "bot_backend m = Some b" "wf b"
    and "unat (bot_write_lba m) + unat (bot_write_count m) \<le> unat (sb_block_count ops b)"
    and "ds \<noteq> []" "[] \<notin> set ds"
    and "length (bot_staging_data m) + length (concat ds) = unat (bot_write_count m) * unat (sb_block_size ops b)"
  shows "\<exists>m' b'. msc_outs ops sp ds m = Some m' \<and> write_done b' m m' \<and> wf b' \<and> same_geometry ops b b' \<and>
    contents b' = memcpy_at (unat (bot_write_lba m) * unat (sb_block_size ops b)) (bot_staging_data m @ concat ds) (contents b)"
  using assms
proof (induction ds arbitrary: m)
  case (Cons d ds)
  let ?s = "bot_staging_data m @ d" and ?total = "unat (bot_write_count m) * unat (sb_block_size ops b)"
  note out = msc_out_staging[OF Cons.prems(1,2), of ops sp d]
  have "unat (bot_write_lba m + ucast (bot_write_count m)) = unat (bot_write_lba m) + unat (bot_write_count m)"
    using Cons.prems(5) unat_bound[of "sb_block_count ops b"] by (simp add: unat_word_ariths)
  then have guard: "bot_write_lba m + ucast (bot_write_count m) \<le> sb_block_count ops b"
    using Cons.prems(5) by (simp add: word_le_nat_alt)
  show ?case
  proof (cases "ds = []")
    case True
    then have t: "length ?s = ?total" using Cons.prems(8) by simp
    then obtain b' where "sb_write ops b (bot_write_lba m) (bot_write_count m) ?s = Some b'" "wf b'" "same_geometry ops b b'"
        "contents b' = memcpy_at (unat (bot_write_lba m) * unat (sb_block_size ops b)) ?s (contents b)"
      using write_range[OF Cons.prems(4,5), of ?s] by auto
    then show ?thesis
      using True out t guard Cons.prems(1,3)
      by (auto simp: data_out_staging_def block_total write_done_def plain_write_def)
  next
    case False
    then have "0 < length (concat ds)" using Cons.prems(7) by (cases ds) auto
    moreover have "length ?s + length (concat ds) = ?total" using Cons.prems(8) by simp
    ultimately have "length ?s < ?total" by linarith
    then have out': "msc_out ops sp d m = Some (m\<lparr>bot_staging_data := ?s\<rparr>)"
      using out Cons.prems(3) by (simp add: data_out_staging_def block_total)
    have "\<exists>m' b'. msc_outs ops sp ds (m\<lparr>bot_staging_data := ?s\<rparr>) = Some m' \<and> write_done b' (m\<lparr>bot_staging_data := ?s\<rparr>) m' \<and>
        wf b' \<and> same_geometry ops b b' \<and>
        contents b' = memcpy_at (unat (bot_write_lba m) * unat (sb_block_size ops b)) (?s @ concat ds) (contents b)"
      using False Cons.prems Cons.IH[of "m\<lparr>bot_staging_data := ?s\<rparr>"] by (simp add: plain_write_def)
    then show ?thesis using out' by (auto simp: write_done_def)
  qed
qed simp

end

definition bot_idle :: "'b MscBulkOnlyHandler \<Rightarrow> bool" where
  "bot_idle m \<longleftrightarrow>
     bot_state m = Bot_Idle \<and> \<not> bot_command_failed m \<and> \<not> bot_data_out_unmap m \<and> \<not> bot_data_out_write_same m"

definition rw10_command :: "scsi_cmd \<Rightarrow> CBW \<Rightarrow> u32 \<Rightarrow> u16 \<Rightarrow> bool" where
  "rw10_command cmd c lba cnt \<longleftrightarrow>
     dCBWSignature c = CBW_SIGNATURE \<and> length (CBWCB c) = 16 \<and> CBWCB c ! 0 = scsi_code cmd \<and>
     cdb10_lba (CBWCB c) = lba \<and> cdb10_count (CBWCB c) = cnt"

lemma rw10_range_iff:
  assumes "unat lba + unat cnt < 2 ^ 32" "bot_backend m = Some b"
  shows "rw10_in_range ops m lba cnt \<longleftrightarrow> unat lba + unat cnt \<le> unat (sb_block_count ops b)"
proof -
  have "unat (ucast cnt :: u32) = unat cnt"
    using unat_bound[of cnt] by (simp add: unsigned_ucast_eq take_bit_nat_eq_self)
  then have "unat (lba + ucast cnt) = unat lba + unat cnt" using assms(1) by (simp add: unat_word_ariths)
  then show ?thesis using assms(2) by (simp add: rw10_in_range_def word_less_nat_alt not_less)
qed

lemma cdb10_count_nonzero: "cdb10_count cb \<noteq> 0"
  by (simp add: cdb10_count_def Let_def)

lemma scsi_command_rw10:
  "CBWCB (bot_current_cbw m) ! 0 = scsi_code Read10 \<Longrightarrow> scsi_command ops m = scsi_read_write10 ops True m"
  "CBWCB (bot_current_cbw m) ! 0 = scsi_code Write10 \<Longrightarrow> scsi_command ops m = scsi_read_write10 ops False m"
  by (simp_all add: scsi_command_def Let_def)

context block_store
begin

lemma read10_starts:
  assumes "bot_backend m = Some b" "wf b" "unat lba + unat cnt \<le> unat (sb_block_count ops b)"
  shows "\<exists>m'. scsi_read10 ops lba cnt m = Some m' \<and> bot_state m' = Bot_DataIn \<and> bot_staging_offset m' = 0 \<and>
    in_source ops m' (take (unat cnt * unat (sb_block_size ops b)) (drop (unat lba * unat (sb_block_size ops b)) (contents b))) \<and>
    bot_backend m' = Some b \<and> bot_current_cbw m' = bot_current_cbw m \<and> bot_command_failed m' = bot_command_failed m \<and>
    bot_data_out_unmap m' = bot_data_out_unmap m \<and> bot_data_out_write_same m' = bot_data_out_write_same m \<and>
    bot_read_only m' = bot_read_only m"
proof -
  let ?bs = "unat (sb_block_size ops b)" and ?l = "ucast lba :: u64"
  have r: "unat ?l + unat cnt \<le> unat (sb_block_count ops b)" using assms(3) by simp
  note o = range_ok[OF assms(2) r]
  show ?thesis
  proof (cases "sb_get_direct_buffer ops b ?l")
    case None
    then show ?thesis
      using assms(1) read_range[OF assms(2) r] by (simp add: scsi_read10_def Let_def in_source_def)
  next
    case (Some base)
    have base: "base = unat lba * ?bs" using direct[OF assms(2) Some] o by simp
    have "sb_load ops b (base + off) n = Some (take n (drop off (take (unat cnt * ?bs) (drop (unat lba * ?bs) (contents b)))))"
      if "off + n \<le> unat cnt * ?bs" for off n
      using load[OF assms(2), of "base + off" n] o that
      by (simp add: base drop_take min_def add.commute)
    then show ?thesis
      using Some assms(1) direct[OF assms(2) Some] o
      by (auto simp: scsi_read10_def Let_def in_source_def block_total)
  qed
qed

lemma write10_starts:
  assumes "bot_backend m = Some b" "wf b" "unat lba + unat cnt \<le> unat (sb_block_count ops b)"
    and "bot_staging_data m = []" "\<not> bot_data_out_unmap m" "\<not> bot_data_out_write_same m"
    and "ds \<noteq> []" "[] \<notin> set ds" "length (concat ds) = unat cnt * unat (sb_block_size ops b)"
  shows "\<exists>m1 m' b'. scsi_write10 ops lba cnt m = Some m1 \<and> msc_outs ops sp ds m1 = Some m' \<and> write_done b' m m' \<and>
    wf b' \<and> same_geometry ops b b' \<and>
    contents b' = memcpy_at (unat lba * unat (sb_block_size ops b)) (concat ds) (contents b)"
proof -
  let ?bs = "unat (sb_block_size ops b)" and ?l = "ucast lba :: u64"
  obtain m1 where m1: "scsi_write10 ops lba cnt m = Some m1" "plain_write m1" "bot_backend m1 = Some b"
      "bot_write_lba m1 = ?l" "bot_write_count m1 = cnt" "bot_write_accumulated m1 = 0" "bot_staging_data m1 = []"
      "bot_write_mmap_base m1 = sb_get_direct_buffer ops b ?l"
      "bot_command_failed m1 = bot_command_failed m" "bot_current_cbw m1 = bot_current_cbw m"
      "bot_read_only m1 = bot_read_only m"
    using assms(1,4,5,6) by (simp add: scsi_write10_def Let_def plain_write_def)
  have r: "unat ?l + unat cnt \<le> unat (sb_block_count ops b)" using assms(3) by simp
  note o = range_ok[OF assms(2) r]
  have "\<exists>m' b'. msc_outs ops sp ds m1 = Some m' \<and> write_done b' m1 m' \<and> wf b' \<and> same_geometry ops b b' \<and>
      contents b' = memcpy_at (unat lba * ?bs) (concat ds) (contents b)"
  proof (cases "sb_get_direct_buffer ops b ?l")
    case None
    then show ?thesis
      using msc_outs_staging[OF m1(2) _ m1(3) assms(2), of ds sp] m1 r assms(7-9) by simp
  next
    case (Some base)
    have base: "base = block_offset ?l (sb_block_size ops b)" by (rule direct[OF assms(2) Some])
    then show ?thesis
      using msc_outs_mmap[OF m1(2) _ m1(3) assms(2), of base ds sp] m1 o Some assms(7-9) by simp
  qed
  then show ?thesis using m1 by (auto simp: write_done_def)
qed

lemma write10_command:
  assumes "bot_idle m" "\<not> bot_read_only m" "bot_backend m = Some b" "wf b" "rw10_command Write10 c lba cnt"
    and "unat lba + unat cnt \<le> unat (sb_block_count ops b)" "unat lba + unat cnt < 2 ^ 32"
    and "ds \<noteq> []" "[] \<notin> set ds" "length (concat ds) = unat cnt * unat (sb_block_size ops b)"
  shows "\<exists>m' b'. msc_command ops sp c ds [] m = Some ([], csw_bytes (dCBWTag c) 0 0, m') \<and> bot_idle m' \<and>
    bot_read_only m' = bot_read_only m \<and> bot_backend m' = Some b' \<and> wf b' \<and> same_geometry ops b b' \<and>
    contents b' = memcpy_at (unat lba * unat (sb_block_size ops b)) (concat ds) (contents b)"
proof -
  let ?m = "begin_command c m"
  have f: "bot_backend ?m = Some b" "bot_staging_data ?m = []" "bot_current_cbw ?m = c" "bot_read_only ?m = bot_read_only m"
      "bot_command_failed ?m = bot_command_failed m" "bot_data_out_unmap ?m = bot_data_out_unmap m"
      "bot_data_out_write_same ?m = bot_data_out_write_same m"
    using assms(3) by (simp_all add: begin_command_def)
  obtain m1 m2 b' where w: "scsi_write10 ops lba cnt ?m = Some m1" "msc_outs ops sp ds m1 = Some m2" "write_done b' ?m m2"
      "wf b'" "same_geometry ops b b'" "contents b' = memcpy_at (unat lba * unat (sb_block_size ops b)) (concat ds) (contents b)"
    using write10_starts[OF f(1) assms(4,6) f(2), of ds sp] f assms(1,8-10) by (auto simp: bot_idle_def)
  have "scsi_command ops ?m = Some m1"
    using assms(2,5,6,7) f w(1) rw10_range_iff[OF assms(7) f(1), of ops]
    by (subst scsi_command_rw10(2)) (auto simp: rw10_command_def scsi_read_write10_def Let_def)
  then have "msc_outs ops sp (cbw_bytes c # ds) m = Some m2"
    using w(2) msc_out_idle[of m c ops sp] assms(1,5) by (simp add: bot_idle_def rw10_command_def)
  moreover have "msc_in ops sp 13 m2 =
      Some (urb_status_code StatusOK, csw_bytes (dCBWTag c) 0 0, m2\<lparr>bot_command_failed := False, bot_state := Bot_Idle\<rparr>)"
    using w(3) f assms(1) by (subst msc_in_status) (auto simp: write_done_def bot_idle_def)
  ultimately show ?thesis
    using w f by (auto simp: msc_command_def bot_idle_def write_done_def)
qed

lemma read10_command:
  assumes "bot_idle m" "bot_backend m = Some b" "wf b" "rw10_command Read10 c lba cnt"
    and "unat lba + unat cnt \<le> unat (sb_block_count ops b)" "unat lba + unat cnt < 2 ^ 32"
    and "sum_list (map unat ns) = unat cnt * unat (sb_block_size ops b)" "0 \<notin> set ns"
  shows "\<exists>m'. msc_command ops sp c [] ns m =
      Some (take (unat cnt * unat (sb_block_size ops b)) (drop (unat lba * unat (sb_block_size ops b)) (contents b)),
        csw_bytes (dCBWTag c) 0 0, m') \<and> bot_idle m' \<and> bot_backend m' = Some b \<and> bot_read_only m' = bot_read_only m"
proof -
  let ?m = "begin_command c m" and ?bs = "unat (sb_block_size ops b)"
  let ?D = "take (unat cnt * ?bs) (drop (unat lba * ?bs) (contents b))"
  have f: "bot_backend ?m = Some b" "bot_current_cbw ?m = c" "bot_read_only ?m = bot_read_only m"
      "bot_command_failed ?m = bot_command_failed m" "bot_data_out_unmap ?m = bot_data_out_unmap m"
      "bot_data_out_write_same ?m = bot_data_out_write_same m"
    using assms(2) by (simp_all add: begin_command_def)
  obtain m1 where m1: "scsi_read10 ops lba cnt ?m = Some m1" "bot_state m1 = Bot_DataIn" "bot_staging_offset m1 = 0"
      "in_source ops m1 ?D" "bot_backend m1 = Some b" "bot_current_cbw m1 = c" "\<not> bot_command_failed m1"
      "\<not> bot_data_out_unmap m1" "\<not> bot_data_out_write_same m1" "bot_read_only m1 = bot_read_only m"
    using read10_starts[OF f(1) assms(3,5)] f assms(1) by (auto simp: bot_idle_def)
  have "(unat lba + unat cnt) * ?bs \<le> store_size ops b" using assms(5) by (simp add: store_size_def)
  then have "unat lba * ?bs + unat cnt * ?bs \<le> length (contents b)"
    using size_ok[OF assms(3)] by (simp add: algebra_simps)
  then have len: "length ?D = unat cnt * ?bs" by (simp add: min_absorb2)
  have "0 < unat cnt" "0 < ?bs"
    using assms(4) cdb10_count_nonzero size_ok[OF assms(3)] by (auto simp: rw10_command_def unat_gt_0)
  then have "0 < length ?D" unfolding len by simp
  then have "msc_ins ops sp ns m1 = Some (drop (bot_staging_offset m1) ?D, finish_data m1)"
    by (intro msc_ins_data[OF m1(2,4)]) (simp_all only: m1(3) len diff_zero assms(7) assms(8) not_False_eq_True)
  then have "msc_ins ops sp ns m1 = Some (?D, finish_data m1)" by (simp add: m1(3))
  moreover have "scsi_command ops ?m = Some m1"
    using assms(4) f m1(1) rw10_range_iff[OF assms(6) f(1), of ops] assms(5)
    by (subst scsi_command_rw10(1)) (auto simp: rw10_command_def scsi_read_write10_def Let_def)
  then have "msc_outs ops sp [cbw_bytes c] m = Some m1"
    using msc_out_idle[of m c ops sp] assms(1,4) by (simp add: bot_idle_def rw10_command_def)
  moreover have "msc_in ops sp 13 (finish_data m1) =
      Some (urb_status_code StatusOK, csw_bytes (dCBWTag c) 0 0, (finish_data m1)\<lparr>bot_command_failed := False, bot_state := Bot_Idle\<rparr>)"
    using m1 by (subst msc_in_status) (auto simp: finish_data_def)
  ultimately show ?thesis
    using m1 by (auto simp: msc_command_def bot_idle_def finish_data_def)
qed

lemma write_read_roundtrip:
  assumes "bot_idle m" "\<not> bot_read_only m" "bot_backend m = Some b" "wf b"
    and "rw10_command Write10 w lba cnt" "rw10_command Read10 r lba cnt"
    and "unat lba + unat cnt \<le> unat (sb_block_count ops b)" "unat lba + unat cnt < 2 ^ 32"
    and "ds \<noteq> []" "[] \<notin> set ds" "length (concat ds) = unat cnt * unat (sb_block_size ops b)"
    and "sum_list (map unat ns) = unat cnt * unat (sb_block_size ops b)" "0 \<notin> set ns"
  shows "\<exists>m1 m2 b'. msc_command ops sp w ds [] m = Some ([], csw_bytes (dCBWTag w) 0 0, m1) \<and>
    msc_command ops sp' r [] ns m1 = Some (concat ds, csw_bytes (dCBWTag r) 0 0, m2) \<and> bot_idle m2 \<and>
    bot_backend m2 = Some b' \<and> contents b' = memcpy_at (unat lba * unat (sb_block_size ops b)) (concat ds) (contents b)"
proof -
  obtain m1 b' where w: "msc_command ops sp w ds [] m = Some ([], csw_bytes (dCBWTag w) 0 0, m1)" "bot_idle m1"
      "bot_backend m1 = Some b'" "wf b'" "same_geometry ops b b'"
      "contents b' = memcpy_at (unat lba * unat (sb_block_size ops b)) (concat ds) (contents b)"
    using write10_command[OF assms(1-5,7-11), of sp] by auto
  have g: "sb_block_count ops b' = sb_block_count ops b" "sb_block_size ops b' = sb_block_size ops b"
    using w(5) by (simp_all add: same_geometry_def)
  obtain m2 where r: "msc_command ops sp' r [] ns m1 =
      Some (take (unat cnt * unat (sb_block_size ops b)) (drop (unat lba * unat (sb_block_size ops b)) (contents b')),
        csw_bytes (dCBWTag r) 0 0, m2)" "bot_idle m2" "bot_backend m2 = Some b'"
    using read10_command[OF w(2-4) assms(6), of ns sp'] assms(7,8,12,13) g by auto
  have "(unat lba + unat cnt) * unat (sb_block_size ops b) \<le> store_size ops b" using assms(7) by (simp add: store_size_def)
  then have "unat lba * unat (sb_block_size ops b) + length (concat ds) \<le> length (contents b)"
    using size_ok[OF assms(4)] assms(11) by (simp add: algebra_simps)
  from read_memcpy_at[OF this] w(6) assms(11)
  have "take (unat cnt * unat (sb_block_size ops b)) (drop (unat lba * unat (sb_block_size ops b)) (contents b')) = concat ds"
    by simp
  with w r show ?thesis by auto
qed

end

section \<open>Properties\<close>

text \<open>C14: Writing to the disk and reading back. Over an idle mass-storage device with a well-formed memory
  backend, a WRITE(10) inside the disk whose data comes in any OUT transfers, followed by a READ(10)
  of the same blocks with any IN transfers, reads exactly the bytes written. Each command ends with one status of
  its own tag, passed and with residue 0; the bytes of the disk outside the range are unchanged; and it
  does not matter whether the bytes move through the mapped memory or by the backend's direct transfer.\<close>

theorem disk_write_read_roundtrip:
  assumes "bot_idle m" "\<not> bot_read_only m" "bot_backend m = Some b" "memory_wf b"
    and "rw10_command Write10 w lba cnt" "rw10_command Read10 r lba cnt"
    and "unat lba + unat cnt \<le> unat (mb_block_count b)" "unat lba + unat cnt < 2 ^ 32"
    and "ds \<noteq> []" "[] \<notin> set ds" "length (concat ds) = unat cnt * unat (mb_block_size b)"
    and "sum_list (map unat ns) = unat cnt * unat (mb_block_size b)" "0 \<notin> set ns"
  shows "\<exists>m1 m2 b'. msc_command memory_ops sp w ds [] m = Some ([], csw_bytes (dCBWTag w) 0 0, m1) \<and>
    msc_command memory_ops sp' r [] ns m1 = Some (concat ds, csw_bytes (dCBWTag r) 0 0, m2) \<and> bot_idle m2 \<and>
    bot_backend m2 = Some b' \<and> length (mb_data b') = length (mb_data b) \<and>
    (\<forall>i < length (mb_data b). i < unat lba * unat (mb_block_size b) \<or> (unat lba + unat cnt) * unat (mb_block_size b) \<le> i \<longrightarrow>
       mb_data b' ! i = mb_data b ! i)"
proof -
  have o: "sb_block_count memory_ops = mb_block_count" "sb_block_size memory_ops = mb_block_size"
    by (simp_all add: memory_ops_def)
  have "(unat lba + unat cnt) * unat (mb_block_size b) \<le> length (mb_data b)"
    using assms(4,7) by (simp add: memory_wf_def)
  then have "unat lba * unat (mb_block_size b) + length (concat ds) \<le> length (mb_data b)"
    using assms(11) by (simp add: algebra_simps)
  note inside = this
  obtain m1 m2 b' where x: "msc_command memory_ops sp w ds [] m = Some ([], csw_bytes (dCBWTag w) 0 0, m1)"
      "msc_command memory_ops sp' r [] ns m1 = Some (concat ds, csw_bytes (dCBWTag r) 0 0, m2)" "bot_idle m2"
      "bot_backend m2 = Some b'" "mb_data b' = memcpy_at (unat lba * unat (mb_block_size b)) (concat ds) (mb_data b)"
    using memory_store.write_read_roundtrip[OF assms(1-6), of ds ns sp sp'] assms(7-13) unfolding o by blast
  have "mb_data b' ! i = mb_data b ! i"
    if "i < length (mb_data b)" "i < unat lba * unat (mb_block_size b) \<or> (unat lba + unat cnt) * unat (mb_block_size b) \<le> i"
    for i
    unfolding x(5) using that assms(11) by (intro memcpy_at_outside[OF inside]) (auto simp: algebra_simps)
  moreover have "length (mb_data b') = length (mb_data b)" unfolding x(5) by (rule length_memcpy_at[OF inside])
  ultimately show ?thesis using x(1-4) by blast
qed

definition sample_cbw :: "u32 \<Rightarrow> u32 \<Rightarrow> u8 \<Rightarrow> data \<Rightarrow> CBW" where
  "sample_cbw tag len flags cb =
     \<lparr>dCBWSignature = CBW_SIGNATURE, dCBWTag = tag, dCBWDataTransferLength = len, bmCBWFlags = flags, bCBWLUN = 0,
      bCBWCBLength = 10, CBWCB = cb @ replicate (16 - length cb) 0\<rparr>"

definition sample_disk :: "bool \<Rightarrow> MemoryBackend MscBulkOnlyHandler" where
  "sample_disk read_only =
     MscBulkOnlyHandler_new (Some (MemoryBackend_new 4 2)) \<lparr>mc_vendor = [], mc_product = [], mc_revision = [], mc_serial = []\<rparr>
       read_only"

lemma sample_disk_facts:
  "bot_idle (sample_disk ro)" "bot_read_only (sample_disk ro) = ro"
  "bot_backend (sample_disk ro) = Some (MemoryBackend_new 4 2)"
  "memory_wf (MemoryBackend_new 4 2)" "mb_block_count (MemoryBackend_new 4 2) = 4"
  "mb_block_size (MemoryBackend_new 4 2) = 2"
  by (simp_all add: sample_disk_def MscBulkOnlyHandler_new_def bot_idle_def MemoryBackend_new_def memory_wf_def block_offset_def)

lemma sample_rw10:
  "rw10_command Write10 (sample_cbw 7 4 0 [0x2A, 0, 0, 0, 0, 1, 0, 0, 2]) 1 2"
  "rw10_command Read10 (sample_cbw 8 4 0x80 [0x28, 0, 0, 0, 0, 1, 0, 0, 2]) 1 2"
  by (simp_all add: rw10_command_def sample_cbw_def cdb10_lba_def cdb10_count_def get_be32_def get_be16_def)

theorem disk_write_read_roundtrip_witness:
  "\<exists>m1 m2.
     msc_command memory_ops False (sample_cbw 7 4 0 [0x2A, 0, 0, 0, 0, 1, 0, 0, 2]) [[1, 2, 3], [4]] [] (sample_disk False)
       = Some ([], csw_bytes 7 0 0, m1)
     \<and> msc_command memory_ops True (sample_cbw 8 4 0x80 [0x28, 0, 0, 0, 0, 1, 0, 0, 2]) [] [1, 3] m1
       = Some ([1, 2, 3, 4], csw_bytes 8 0 0, m2)"
  using disk_write_read_roundtrip[OF sample_disk_facts(1) _ sample_disk_facts(3,4) sample_rw10,
      of False "[[1, 2, 3], [4]]" "[1, 3]" False True]
  by (simp add: sample_disk_facts sample_cbw_def) blast

subsection \<open>Refused commands\<close>

definition disk_blocks :: "'b StorageBackend \<Rightarrow> 'b MscBulkOnlyHandler \<Rightarrow> u64" where
  "disk_blocks ops m = (case bot_backend m of Some b \<Rightarrow> sb_block_count ops b | None \<Rightarrow> 0)"

definition supported_command :: "u8 \<Rightarrow> bool" where
  "supported_command cmd \<longleftrightarrow>
     list_ex (\<lambda>x. cmd = scsi_code x)
       [TestUnitReady, RequestSense, Inquiry, ModeSense6, StartStopUnit, PreventAllowMediumRemoval,
        ReadFormatCapacities, ReadCapacity10, ReadCapacity16, Read10, Write10, Verify10, SynchronizeCache,
        WriteSame10, Unmap, ModeSense10, WriteSame16]"

text \<open>The commands the device has to refuse: unknown opcodes, accesses past the end of the disk, and changes
  of a write-protected disk.\<close>

definition refused :: "'b StorageBackend \<Rightarrow> 'b MscBulkOnlyHandler \<Rightarrow> data \<Rightarrow> bool" where
  "refused ops m cb \<longleftrightarrow>
     \<not> supported_command (cb ! 0)
     \<or> (cb ! 0 \<in> {scsi_code Read10, scsi_code Write10} \<and> unat (cdb10_lba cb) + unat (cdb10_count cb) < 2 ^ 32
        \<and> unat (disk_blocks ops m) < unat (cdb10_lba cb) + unat (cdb10_count cb))
     \<or> (cb ! 0 \<in> {scsi_code Write10, scsi_code WriteSame10, scsi_code WriteSame16, scsi_code Unmap} \<and> bot_read_only m)
     \<or> (cb ! 0 = scsi_code WriteSame10
        \<and> unat (disk_blocks ops m) < unat (get_be32 (drop 2 cb)) + max 1 (unat (get_be16 (drop 7 cb))))
     \<or> (cb ! 0 = scsi_code WriteSame16
        \<and> unat (disk_blocks ops m) < unat (get_be64 (drop 2 cb)) + max 1 (unat (get_be32 (drop 10 cb))))"

lemma rw10_refused:
  assumes "unat lba + unat cnt < 2 ^ 32" "unat (disk_blocks ops m) < unat lba + unat cnt"
  shows "\<not> rw10_in_range ops m lba cnt"
proof -
  have "unat (ucast cnt :: u32) = unat cnt"
    using unat_bound[of cnt] by (simp add: unsigned_ucast_eq take_bit_nat_eq_self)
  then have "unat (lba + ucast cnt) = unat lba + unat cnt" using assms(1) by (simp add: unat_word_ariths)
  then show ?thesis using assms(2) by (simp add: rw10_in_range_def disk_blocks_def word_less_nat_alt)
qed

lemma write_same_past_end:
  fixes lba cnt blocks :: u64
  assumes "unat blocks < unat lba + max 1 (unat cnt)" "lba < blocks"
  shows "cnt \<noteq> 0 \<and> blocks - lba < cnt"
proof -
  have "unat (blocks - lba) = unat blocks - unat lba"
    using assms(2) by (simp add: unat_sub less_imp_le)
  with assms show ?thesis by (auto simp: word_less_nat_alt max_def unat_eq_0 split: if_splits)
qed

lemma write_same_refused:
  fixes is10 :: bool
  defines "lba \<equiv> \<lambda>cb. (if is10 then ucast (get_be32 (drop 2 cb)) else get_be64 (drop 2 cb)) :: u64"
    and "cnt \<equiv> \<lambda>cb. (if is10 then ucast (get_be16 (drop 7 cb)) else ucast (get_be32 (drop 10 cb))) :: u64"
  assumes "bot_read_only m \<or>
    unat (disk_blocks ops m) < unat (lba (CBWCB (bot_current_cbw m))) + max 1 (unat (cnt (CBWCB (bot_current_cbw m))))"
  shows "scsi_write_same ops is10 m = Some (fail_command m)"
proof (cases "lba (CBWCB (bot_current_cbw m)) \<ge> disk_blocks ops m")
  case True
  then show ?thesis by (simp add: scsi_write_same_def Let_def disk_blocks_def lba_def split: if_splits)
next
  case False
  let ?l = "lba (CBWCB (bot_current_cbw m))" and ?c = "cnt (CBWCB (bot_current_cbw m))"
  have "bot_read_only m \<or> (if ?c = 0 then disk_blocks ops m - ?l else ?c) > disk_blocks ops m - ?l"
    using assms(3) write_same_past_end[of "disk_blocks ops m" ?l ?c] False by (auto simp: not_le)
  then show ?thesis
    using False unfolding scsi_write_same_def Let_def disk_blocks_def lba_def cnt_def by (simp only: if_False if_True)
qed

lemma refused_fails:
  assumes "refused ops m (CBWCB (bot_current_cbw m))"
  shows "scsi_command ops m = Some (fail_command m)"
proof -
  let ?cb = "CBWCB (bot_current_cbw m)"
  consider "\<not> supported_command (?cb ! 0)" | "?cb ! 0 \<in> {scsi_code Read10, scsi_code Write10}"
      "unat (cdb10_lba ?cb) + unat (cdb10_count ?cb) < 2 ^ 32"
      "unat (disk_blocks ops m) < unat (cdb10_lba ?cb) + unat (cdb10_count ?cb)"
    | "?cb ! 0 \<in> {scsi_code Write10, scsi_code Unmap}" "bot_read_only m"
    | "?cb ! 0 = scsi_code WriteSame10" "bot_read_only m \<or>
        unat (disk_blocks ops m) < unat (get_be32 (drop 2 ?cb)) + max 1 (unat (get_be16 (drop 7 ?cb)))"
    | "?cb ! 0 = scsi_code WriteSame16" "bot_read_only m \<or>
        unat (disk_blocks ops m) < unat (get_be64 (drop 2 ?cb)) + max 1 (unat (get_be32 (drop 10 ?cb)))"
    using assms unfolding refused_def by blast
  then show ?thesis
  proof cases
    case 1
    then show ?thesis by (simp add: supported_command_def scsi_command_def Let_def)
  next
    case 2
    from rw10_refused[OF 2(2,3)] 2(1) show ?thesis
      by (auto simp: scsi_command_rw10 scsi_read_write10_def Let_def)
  next
    case 3
    then show ?thesis
      by (auto simp: scsi_command_def scsi_read_write10_def scsi_unmap_def Let_def)
  next
    case 4
    with write_same_refused[of m ops True] show ?thesis by (simp add: scsi_command_def)
  next
    case 5
    with write_same_refused[of m ops False] show ?thesis by (simp add: scsi_command_def)
  qed
qed

text \<open>C16: A command the device has to refuse (an unknown opcode, a READ, WRITE or WRITE SAME past the end of
  the disk, a WRITE, WRITE SAME or UNMAP on a write-protected disk) changes nothing on the disk, and the next
  IN transfer reports it: a status with the tag of the command, status byte 1 and the whole transfer
  length as residue, after which the device is idle again. The bound on READ and WRITE excludes the addresses
  whose 32-bit sum with the block count overflows.\<close>

theorem refused_command_reported:
  assumes "bot_idle m" "dCBWSignature c = CBW_SIGNATURE" "length (CBWCB c) = 16" "refused ops m (CBWCB c)"
  shows "\<exists>m'. msc_command ops sp c [] [] m = Some ([], csw_bytes (dCBWTag c) (dCBWDataTransferLength c) 1, m')
    \<and> bot_backend m' = bot_backend m \<and> bot_idle m'"
proof -
  let ?m = "begin_command c m"
  have "refused ops ?m (CBWCB (bot_current_cbw ?m))"
    using assms(4) by (simp add: refused_def disk_blocks_def begin_command_def)
  then have "msc_outs ops sp [cbw_bytes c] m = Some (fail_command ?m)"
    using assms(1-3) refused_fails[of ops ?m] by (simp add: msc_out_idle bot_idle_def)
  moreover have "bot_state (fail_command ?m) = Bot_Status" by (simp add: fail_command_def)
  ultimately show ?thesis
    using assms(1) msc_in_status[of "fail_command ?m" ops sp 13]
    by (simp add: msc_command_def fail_command_def begin_command_def bot_idle_def)
qed

theorem refused_command_reported_witness:
  "\<exists>m'. msc_command memory_ops False (sample_cbw 9 4 0 [0x2A, 0, 0, 0, 0, 3, 0, 0, 2]) [] [] (sample_disk False)
      = Some ([], csw_bytes 9 4 1, m') \<and> bot_backend m' = Some (MemoryBackend_new 4 2)"
proof -
  have "refused memory_ops (sample_disk False) (CBWCB (sample_cbw 9 4 0 [0x2A, 0, 0, 0, 0, 3, 0, 0, 2]))"
    by (simp add: refused_def sample_cbw_def disk_blocks_def sample_disk_facts cdb10_lba_def cdb10_count_def get_be32_def
        get_be16_def memory_ops_def)
  from refused_command_reported[OF sample_disk_facts(1) _ _ this, of False] show ?thesis
    by (simp add: sample_disk_facts) (simp add: sample_cbw_def, blast)
qed

text \<open>The bounds check wraps: READ(10) of block \<open>0xFFFFFFFF\<close> is accepted by a disk of four blocks, and the
  sender then reads outside the memory of the disk.\<close>

lemma read10_wraps_out_of_bounds:
  "msc_command memory_ops False (sample_cbw 1 2 0x80 [0x28, 0, 0xFF, 0xFF, 0xFF, 0xFF, 0, 0, 1]) [] [2] (sample_disk False) = None"
  (is "msc_command _ _ ?c _ _ ?d = None")
proof -
  let ?m = "begin_command ?c ?d"
  let ?m1 = "?m\<lparr>bot_staging_offset := 0, bot_read_lba := 0xFFFFFFFF, bot_read_total_size := 2,
    bot_read_mmap_base := Some 0x1FFFFFFFE, bot_staging_data := [], bot_state := Bot_DataIn\<rparr>"
  have c: "rw10_command Read10 ?c 0xFFFFFFFF 1"
    by (simp add: rw10_command_def sample_cbw_def cdb10_lba_def cdb10_count_def get_be32_def get_be16_def)
  have b: "bot_backend ?m = Some (MemoryBackend_new 4 2)" "bot_current_cbw ?m = ?c"
    by (simp_all add: begin_command_def sample_disk_facts)
  have "scsi_command memory_ops ?m = Some ?m1"
    using c b by (subst scsi_command_rw10(1)) (simp_all add: rw10_command_def scsi_read_write10_def Let_def rw10_in_range_def
        scsi_read10_def memory_ops_def memory_get_direct_buffer_def sample_disk_facts block_offset_def block_total)
  then have "msc_outs memory_ops False [cbw_bytes ?c] ?d = Some ?m1"
    using c sample_disk_facts(1)[of False] by (simp add: msc_out_idle rw10_command_def bot_idle_def)
  moreover have "msc_in memory_ops False 2 ?m1 = None"
    using b by (simp add: msc_in_def sto_alloc_transfer_handle_def UsbIpDirection_Out_def UsbIpDirection_In_def
        msc_handle_bulk_transfer_def bulk_data_in_def data_in_total_def data_in_reply_def Let_def
        create_ret_submit_with_status_and_no_iso_def sto_send_transfer_data_def StorageIoTransfer_new_def memory_ops_def
        mem_load_def slice_def MemoryBackend_new_def block_offset_def)
  ultimately show ?thesis by (simp add: msc_command_def)
qed

text \<open>An UNMAP descriptor past the end of the disk is not checked either.\<close>

lemma unmap_out_of_bounds:
  "msc_command memory_ops False (sample_cbw 1 24 0 [0x42])
     [replicate 8 0 @ [0, 0, 0, 0, 0, 0, 0, 9, 0, 0, 0, 1, 0, 0, 0, 0]] [] (sample_disk False) = None"
  by code_simp

text \<open>A serial number of 32 characters makes the unit serial page read one byte past its structure.\<close>

lemma serial_page_out_of_bounds:
  "scsi_inquiry (begin_command (sample_cbw 1 255 0x80 [0x12, 1, 0x80])
     (MscBulkOnlyHandler_new (None :: MemoryBackend option)
        \<lparr>mc_vendor = [], mc_product = [], mc_revision = [], mc_serial = replicate 32 0x41\<rparr> False)) = None"
  by code_simp

subsection \<open>Memory safety\<close>

definition disk_ok :: "'b StorageBackend \<Rightarrow> ('b \<Rightarrow> bool) \<Rightarrow> 'b MscBulkOnlyHandler \<Rightarrow> 'b \<Rightarrow> bool" where
  "disk_ok ops wfb m b \<longleftrightarrow>
     bot_backend m = Some b \<and> wfb b \<and> length (mc_serial (bot_config m)) < 32"

definition out_phase_ok :: "'b StorageBackend \<Rightarrow> 'b MscBulkOnlyHandler \<Rightarrow> 'b \<Rightarrow> bool" where
  "out_phase_ok ops m b \<longleftrightarrow>
     (if bot_data_out_unmap m then bot_write_mmap_base m = None \<and> \<not> bot_data_out_write_same m
      else if bot_data_out_write_same m
      then bot_write_mmap_base m = None
           \<and> unat (bot_write_same_lba m) + unat (bot_write_same_count m) \<le> unat (sb_block_count ops b)
      else unat (bot_write_lba m) + unat (bot_write_count m) \<le> unat (sb_block_count ops b)
           \<and> (\<forall>base. bot_write_mmap_base m = Some base \<longrightarrow>
                base = block_offset (bot_write_lba m) (sb_block_size ops b)
                \<and> bot_write_accumulated m \<le> unat (bot_write_count m) * unat (sb_block_size ops b)))"

definition msc_inv :: "'b StorageBackend \<Rightarrow> ('b \<Rightarrow> bool) \<Rightarrow> 'b MscBulkOnlyHandler \<Rightarrow> bool" where
  "msc_inv ops wfb m \<longleftrightarrow>
     (\<exists>b. disk_ok ops wfb m b
        \<and> (bot_state m = Bot_DataIn \<longrightarrow> (\<exists>D. in_source ops m D \<and> bot_staging_offset m \<le> length D))
        \<and> (if bot_state m = Bot_DataOut then out_phase_ok ops m b
           else \<not> bot_data_out_unmap m \<and> \<not> bot_data_out_write_same m))"

text \<open>What the device does not check of the host: that the sum of block address and block count of a READ or
  WRITE does not overflow 32 bits, that a WRITE sends no more data than it declared, and that the
  descriptors of an UNMAP lie on the disk.\<close>

definition host_ok :: "'b StorageBackend \<Rightarrow> data \<Rightarrow> 'b MscBulkOnlyHandler \<Rightarrow> bool" where
  "host_ok ops d m \<longleftrightarrow>
     (bot_state m = Bot_Idle \<longrightarrow>
        unat (cdb10_lba (CBWCB (cbw_of_bytes d))) + unat (cdb10_count (CBWCB (cbw_of_bytes d))) < 2 ^ 32)
     \<and> (\<forall>b. bot_state m = Bot_DataOut \<and> bot_backend m = Some b \<longrightarrow>
        (if bot_data_out_unmap m
         then list_all (\<lambda>(lba, cnt). unat lba + unat cnt \<le> unat (sb_block_count ops b))
                (unmap_descriptors (drop 8 (bot_staging_data m @ d)))
         else bot_write_mmap_base m \<noteq> None \<longrightarrow>
                bot_write_accumulated m + length d \<le> unat (bot_write_count m) * unat (sb_block_size ops b)))"

lemma msc_inv_status:
  "disk_ok ops wfb m b \<Longrightarrow> bot_state m = Bot_Status \<or> bot_state m = Bot_Idle \<Longrightarrow> \<not> bot_data_out_unmap m \<Longrightarrow>
   \<not> bot_data_out_write_same m \<Longrightarrow> msc_inv ops wfb m"
  by (auto simp: msc_inv_def)

lemma disk_ok_update:
  "bot_backend m' = bot_backend m \<Longrightarrow> bot_config m' = bot_config m \<Longrightarrow> disk_ok ops wfb m b \<Longrightarrow> disk_ok ops wfb m' b"
  by (simp add: disk_ok_def)

lemma disk_ok_store:
  "disk_ok ops wfb m b \<Longrightarrow> same_geometry ops b b' \<Longrightarrow> wfb b' \<Longrightarrow> bot_backend m' = Some b' \<Longrightarrow>
   bot_config m' = bot_config m \<Longrightarrow> disk_ok ops wfb m' b'"
  by (simp add: disk_ok_def same_geometry_def)

definition command_ready :: "'b StorageBackend \<Rightarrow> ('b \<Rightarrow> bool) \<Rightarrow> 'b MscBulkOnlyHandler \<Rightarrow> 'b \<Rightarrow> bool" where
  "command_ready ops wfb m b \<longleftrightarrow>
     disk_ok ops wfb m b \<and> bot_read_mmap_base m = None \<and> bot_write_mmap_base m = None \<and> bot_write_accumulated m = 0
     \<and> \<not> bot_data_out_unmap m \<and> \<not> bot_data_out_write_same m"

lemma stage_response_ok:
  assumes "command_ready ops wfb m b" "n \<le> length d"
  shows "\<exists>m'. stage_response d n m = Some m' \<and> msc_inv ops wfb m'"
proof -
  let ?r = "take (min (unat (dCBWDataTransferLength (bot_current_cbw m))) n) d"
  let ?m = "m\<lparr>bot_staging_offset := 0, bot_staging_data := ?r, bot_state := Bot_DataIn\<rparr>"
  have "in_source ops ?m ?r" using assms(1) by (simp add: in_source_def command_ready_def)
  then have "msc_inv ops wfb ?m"
    using assms(1) disk_ok_update[of ?m m ops wfb b] by (auto simp: msc_inv_def command_ready_def)
  moreover have "stage_response d n m = Some ?m" using assms(2) by (simp add: stage_response_def slice_def Let_def)
  ultimately show ?thesis by blast
qed

lemma simple_commands_ok:
  assumes "command_ready ops wfb m b"
  shows "msc_inv ops wfb (to_status m)" "msc_inv ops wfb (fail_command m)"
    "msc_inv ops wfb (m\<lparr>bot_command_failed := f, bot_state := Bot_Status\<rparr>)"
    "\<exists>m'. scsi_inquiry m = Some m' \<and> msc_inv ops wfb m'"
    "\<exists>m'. scsi_read_format_capacities ops m = Some m' \<and> msc_inv ops wfb m'"
    "\<exists>m'. scsi_read_capacity10 ops m = Some m' \<and> msc_inv ops wfb m'"
    "\<exists>m'. scsi_read_capacity16 ops m = Some m' \<and> msc_inv ops wfb m'"
    "msc_inv ops wfb (scsi_unmap m)"
proof -
  have d: "disk_ok ops wfb m b" "bot_backend m = Some b" "length (mc_serial (bot_config m)) < 32"
    using assms by (simp_all add: command_ready_def disk_ok_def)
  have st: "msc_inv ops wfb m'" if "bot_backend m' = bot_backend m" "bot_config m' = bot_config m" "bot_state m' = Bot_Status"
      "bot_data_out_unmap m' = bot_data_out_unmap m" "bot_data_out_write_same m' = bot_data_out_write_same m" for m'
    using assms that by (intro msc_inv_status[OF disk_ok_update[OF _ _ d(1)]]) (simp_all add: command_ready_def)
  show "msc_inv ops wfb (to_status m)" by (rule st) (simp_all add: to_status_def)
  show "msc_inv ops wfb (fail_command m)" by (rule st) (simp_all add: fail_command_def)
  show "msc_inv ops wfb (m\<lparr>bot_command_failed := f, bot_state := Bot_Status\<rparr>)" by (rule st) simp_all
  let ?m = "m\<lparr>bot_staging_offset := 0, bot_staging_data := [], bot_state := Bot_DataIn\<rparr>"
  have "in_source ops ?m []" using assms by (simp add: in_source_def command_ready_def)
  then have "msc_inv ops wfb ?m"
    using assms disk_ok_update[of ?m m ops wfb b] by (auto simp: msc_inv_def command_ready_def)
  then show "\<exists>m'. scsi_inquiry m = Some m' \<and> msc_inv ops wfb m'"
    using d(3) unfolding scsi_inquiry_def Let_def
    by (auto intro!: stage_response_ok[OF assms] simp: inquiry_data_def pad_string_def vpd_supported_pages_def
        vpd_unit_serial_def vpd_block_device_characteristics_def vpd_block_limits_def vpd_logical_block_provisioning_def
        put_be16_def put_be32_def Let_def)
  show "\<exists>m'. scsi_read_format_capacities ops m = Some m' \<and> msc_inv ops wfb m'"
    unfolding scsi_read_format_capacities_def Let_def
    by (rule stage_response_ok[OF assms]) (simp add: read_format_capacities_data_def put_be16_def put_be24_def put_be32_def)
  show "\<exists>m'. scsi_read_capacity10 ops m = Some m' \<and> msc_inv ops wfb m'"
    using d(2) by (simp add: scsi_read_capacity10_def)
      (rule stage_response_ok[OF assms], simp add: read_capacity10_data_def put_be32_def)
  show "\<exists>m'. scsi_read_capacity16 ops m = Some m' \<and> msc_inv ops wfb m'"
    using d(2) by (simp add: scsi_read_capacity16_def)
      (rule stage_response_ok[OF assms], simp add: read_capacity16_data_def put_be64_def put_be32_def)
  show "msc_inv ops wfb (scsi_unmap m)"
  proof (cases "bot_read_only m \<or> dCBWDataTransferLength (bot_current_cbw m) = 0")
    case True
    then show ?thesis using st by (auto simp: scsi_unmap_def Let_def fail_command_def to_status_def)
  next
    case False
    moreover have "disk_ok ops wfb (scsi_unmap m) b"
      using False by (intro disk_ok_update[OF _ _ d(1)]) (simp_all add: scsi_unmap_def Let_def)
    ultimately show ?thesis
      using assms unfolding msc_inv_def
      by (intro exI[of _ b]) (simp add: scsi_unmap_def Let_def out_phase_ok_def command_ready_def)
  qed
qed

context punch_store
begin

lemma read_write10_ok:
  assumes "command_ready ops wf m b"
    and no_wrap: "unat (cdb10_lba (CBWCB (bot_current_cbw m))) + unat (cdb10_count (CBWCB (bot_current_cbw m))) < 2 ^ 32"
  shows "\<exists>m'. scsi_read_write10 ops is_read m = Some m' \<and> msc_inv ops wf m'"
proof -
  let ?lba = "cdb10_lba (CBWCB (bot_current_cbw m))" and ?cnt = "cdb10_count (CBWCB (bot_current_cbw m))"
  have d: "disk_ok ops wf m b" "bot_backend m = Some b" "wf b"
    using assms(1) by (simp_all add: command_ready_def disk_ok_def)
  show ?thesis
  proof (cases "rw10_in_range ops m ?lba ?cnt")
    case False
    then show ?thesis using simple_commands_ok(2)[OF assms(1)] by (simp add: scsi_read_write10_def Let_def)
  next
    case range: True
    have r: "unat ?lba + unat ?cnt \<le> unat (sb_block_count ops b)"
      using range rw10_range_iff[OF no_wrap d(2)] by blast
    obtain mr where mr: "scsi_read10 ops ?lba ?cnt m = Some mr" "bot_state mr = Bot_DataIn" "bot_staging_offset mr = 0"
        "in_source ops mr (take (unat ?cnt * unat (sb_block_size ops b)) (drop (unat ?lba * unat (sb_block_size ops b)) (contents b)))"
        "bot_backend mr = Some b" "bot_data_out_unmap mr = bot_data_out_unmap m"
        "bot_data_out_write_same mr = bot_data_out_write_same m"
      using read10_starts[OF d(2,3) r] by auto
    have "bot_config mr = bot_config m"
      using mr(1) d(2) by (auto simp: scsi_read10_def Let_def split: option.splits)
    then have inv_r: "msc_inv ops wf mr"
      using mr assms(1) d disk_ok_update[of mr m ops wf b] by (auto simp: msc_inv_def command_ready_def)
    obtain mw where mw: "scsi_write10 ops ?lba ?cnt m = Some mw" "bot_state mw = Bot_DataOut" "bot_backend mw = Some b"
        "bot_write_lba mw = ucast ?lba" "bot_write_count mw = ?cnt" "bot_write_accumulated mw = 0"
        "bot_write_mmap_base mw = sb_get_direct_buffer ops b (ucast ?lba)" "bot_config mw = bot_config m"
        "bot_data_out_unmap mw = bot_data_out_unmap m" "bot_data_out_write_same mw = bot_data_out_write_same m"
      using d(2) by (simp add: scsi_write10_def Let_def)
    have "out_phase_ok ops mw b"
      using mw assms(1) r direct[OF d(3)] by (simp add: out_phase_ok_def command_ready_def)
    then have "msc_inv ops wf mw"
      using mw d disk_ok_update[of mw m ops wf b] by (auto simp: msc_inv_def)
    then show ?thesis
      using range inv_r mr(1) mw(1) simple_commands_ok(2)[OF assms(1)] by (simp add: scsi_read_write10_def Let_def)
  qed
qed

lemma write_same_ok:
  assumes "command_ready ops wf m b"
  shows "\<exists>m'. scsi_write_same ops is10 m = Some m' \<and> msc_inv ops wf m'"
proof -
  define cb where "cb = CBWCB (bot_current_cbw m)"
  define lba where "lba = ((if is10 then ucast (get_be32 (drop 2 cb)) else get_be64 (drop 2 cb)) :: u64)"
  define cnt0 where "cnt0 = ((if is10 then ucast (get_be16 (drop 7 cb)) else ucast (get_be32 (drop 10 cb))) :: u64)"
  define blocks where "blocks = sb_block_count ops b"
  define cnt where "cnt = (if cnt0 = 0 then blocks - lba else cnt0)"
  have d: "disk_ok ops wf m b" "bot_backend m = Some b" "wf b"
    using assms by (simp_all add: command_ready_def disk_ok_def)
  have eq: "scsi_write_same ops is10 m =
      (if lba \<ge> blocks \<or> bot_read_only m \<or> cnt > blocks - lba then Some (fail_command m)
       else if cb ! 1 AND 0x08 \<noteq> 0
       then map_option (\<lambda>b'. to_status (m\<lparr>bot_backend := Some b'\<rparr>)) (sb_punch_hole ops b lba cnt)
       else Some (m\<lparr>bot_write_same_lba := lba, bot_write_same_count := cnt, bot_data_out_write_same := True,
              bot_staging_offset := 0, bot_staging_data := [],
              bot_data_residue := (if dCBWDataTransferLength (bot_current_cbw m) > sb_block_size ops b
                then dCBWDataTransferLength (bot_current_cbw m) - sb_block_size ops b else 0),
              bot_state := Bot_DataOut\<rparr>))"
    using d(2) by (simp add: scsi_write_same_def Let_def cb_def lba_def cnt0_def blocks_def cnt_def)
  show ?thesis
  proof (cases "lba \<ge> blocks \<or> bot_read_only m \<or> cnt > blocks - lba")
    case True
    then show ?thesis using eq simple_commands_ok(2)[OF assms] by simp
  next
    case False
    then have "unat (blocks - lba) = unat blocks - unat lba" by (simp add: unat_sub not_le less_imp_le)
    with False have r: "unat lba + unat cnt \<le> unat (sb_block_count ops b)"
      by (auto simp: word_le_nat_alt word_less_nat_alt blocks_def not_less not_le)
    show ?thesis
    proof (cases "cb ! 1 AND 0x08 \<noteq> 0")
      case True
      obtain b' where "sb_punch_hole ops b lba cnt = Some b'" "wf b'" "same_geometry ops b b'"
        using punch[OF d(3) r] by blast
      moreover from this have "msc_inv ops wf (to_status (m\<lparr>bot_backend := Some b'\<rparr>))"
        using assms by (intro msc_inv_status[OF disk_ok_store[OF d(1)]]) (simp_all add: to_status_def command_ready_def)
      ultimately show ?thesis using eq True False by simp
    next
      case no_unmap: False
      let ?m = "m\<lparr>bot_write_same_lba := lba, bot_write_same_count := cnt, bot_data_out_write_same := True,
              bot_staging_offset := 0, bot_staging_data := [],
              bot_data_residue := (if dCBWDataTransferLength (bot_current_cbw m) > sb_block_size ops b
                then dCBWDataTransferLength (bot_current_cbw m) - sb_block_size ops b else 0),
              bot_state := Bot_DataOut\<rparr>"
      have "msc_inv ops wf ?m"
        using assms r disk_ok_update[of ?m m ops wf b] unfolding msc_inv_def
        by (intro exI[of _ b]) (simp add: out_phase_ok_def command_ready_def)
      then show ?thesis using eq no_unmap False by simp
    qed
  qed
qed

lemma scsi_command_ok:
  assumes "command_ready ops wf m b"
    and "unat (cdb10_lba (CBWCB (bot_current_cbw m))) + unat (cdb10_count (CBWCB (bot_current_cbw m))) < 2 ^ 32"
  shows "\<exists>m'. scsi_command ops m = Some m' \<and> msc_inv ops wf m'"
proof -
  note stage = stage_response_ok[OF assms(1)]
  have "\<exists>m'. stage_response sense_data 18 m = Some m' \<and> msc_inv ops wf m'"
    by (rule stage) (simp add: sense_data_def)
  moreover have "\<exists>m'. stage_response (mode_sense6_data (bot_read_only m)) 4 m = Some m' \<and> msc_inv ops wf m'"
    by (rule stage) (simp add: mode_sense6_data_def)
  moreover have "\<exists>m'. stage_response (mode_sense10_data (bot_read_only m)) 8 m = Some m' \<and> msc_inv ops wf m'"
    by (rule stage) (simp add: mode_sense10_data_def put_be16_def)
  ultimately show ?thesis
    using simple_commands_ok[OF assms(1)] read_write10_ok[OF assms] write_same_ok[OF assms(1)]
    unfolding scsi_command_def Let_def by (simp del: scsi_code.simps)
qed

lemma handle_cbw_ok:
  assumes "disk_ok ops wf m b" "\<not> bot_data_out_unmap m" "\<not> bot_data_out_write_same m"
    and "unat (cdb10_lba (CBWCB (cbw_of_bytes d))) + unat (cdb10_count (CBWCB (cbw_of_bytes d))) < 2 ^ 32"
  shows "\<exists>m'. handle_cbw ops d m = Some m' \<and> msc_inv ops wf m'"
proof -
  define m1 where "m1 = m\<lparr>bot_staging_data := [], bot_read_mmap_base := None, bot_read_total_size := 0,
    bot_write_mmap_base := None, bot_write_accumulated := 0\<rparr>"
  have d1: "command_ready ops wf m1 b"
    using assms disk_ok_update[of m1 m ops wf b] by (simp add: command_ready_def m1_def)
  then have d2: "command_ready ops wf (m1\<lparr>bot_current_cbw := cbw_of_bytes d\<rparr>) b"
    by (simp add: command_ready_def disk_ok_def)
  show ?thesis
    using simple_commands_ok(2)[OF d1] simple_commands_ok(2)[OF d2] scsi_command_ok[OF d2] assms(4)
    by (simp add: handle_cbw_def m1_def[symmetric] Let_def)
qed

lemma punch_all_ok:
  assumes "wf b" "list_all (\<lambda>(lba, cnt). unat lba + unat cnt \<le> unat (sb_block_count ops b)) ds"
  shows "\<exists>b'. punch_all ops ds b = Some b' \<and> wf b' \<and> same_geometry ops b b'"
  using assms
proof (induction ds arbitrary: b)
  case (Cons x ds)
  obtain lba cnt where x: "x = (lba, cnt)" by fastforce
  then have "unat lba + unat (ucast cnt :: u64) \<le> unat (sb_block_count ops b)" using Cons.prems(2) by simp
  from punch[OF Cons.prems(1) this] obtain b1 where b1: "sb_punch_hole ops b lba (ucast cnt) = Some b1" "wf b1"
      "same_geometry ops b b1" by blast
  with Cons.IH[OF b1(2)] Cons.prems(2) show ?case by (auto simp: x same_geometry_def)
qed (simp add: same_geometry_def)

lemma fill_blocks_ok:
  assumes "wf b" "unat lba + n \<le> unat (sb_block_count ops b)" "unat (sb_block_size ops b) \<le> length d"
  shows "\<exists>b'. fill_blocks ops n lba d b = Some b' \<and> wf b' \<and> same_geometry ops b b'"
  using assms
proof (induction n arbitrary: b lba)
  case (Suc n)
  have w: "unat lba + unat (1 :: u16) \<le> unat (sb_block_count ops b)" using Suc.prems(2) by simp
  obtain b1 where b1: "sb_write ops b lba 1 d = Some b1" "wf b1" "same_geometry ops b b1"
    using write_range[OF Suc.prems(1) w, of d] Suc.prems(3) by auto
  show ?case
  proof (cases n)
    case 0
    then show ?thesis using b1 by simp
  next
    case (Suc k)
    have "unat (lba + 1) = unat lba + 1"
      using Suc.prems(2) unat_bound[of "sb_block_count ops b"] by (simp add: unat_word_ariths)
    then show ?thesis
      using Suc.IH[OF b1(2), of "lba + 1"] Suc.prems b1 by (auto simp: same_geometry_def)
  qed
qed (simp add: same_geometry_def)

lemma out_unmap_ok:
  assumes "disk_ok ops wf m b" "bot_data_out_unmap m" "bot_state m = Bot_DataOut" "out_phase_ok ops m b"
    and "list_all (\<lambda>(lba, cnt). unat lba + unat cnt \<le> unat (sb_block_count ops b)) (unmap_descriptors (drop 8 (bot_staging_data m)))"
  shows "\<exists>m'. data_out_unmap ops m = Some m' \<and> msc_inv ops wf m'"
proof (cases "unat (bot_write_count m) \<le> length (bot_staging_data m)")
  case True
  have b: "bot_backend m = Some b" "wf b" using assms(1) by (simp_all add: disk_ok_def)
  obtain b' where b': "punch_all ops (unmap_descriptors (drop 8 (bot_staging_data m))) b = Some b'" "wf b'" "same_geometry ops b b'"
    using punch_all_ok[OF b(2) assms(5)] by blast
  let ?m = "m\<lparr>bot_staging_data := [], bot_data_out_unmap := False, bot_data_residue := 0, bot_state := Bot_Status,
    bot_backend := Some b'\<rparr>"
  have "msc_inv ops wf ?m"
    using assms(2,4)
    by (intro msc_inv_status[OF disk_ok_store[OF assms(1) b'(3,2)]]) (simp_all add: out_phase_ok_def)
  then show ?thesis using True b b'(1) by (simp add: data_out_unmap_def Let_def)
next
  case False
  then show ?thesis using assms by (auto simp: data_out_unmap_def msc_inv_def)
qed

lemma out_write_same_ok:
  assumes "disk_ok ops wf m b" "\<not> bot_data_out_unmap m" "bot_data_out_write_same m" "bot_state m = Bot_DataOut" "out_phase_ok ops m b"
  shows "\<exists>m'. data_out_write_same ops m = Some m' \<and> msc_inv ops wf m'"
proof (cases "unat (sb_block_size ops b) \<le> length (bot_staging_data m)")
  case True
  have b: "bot_backend m = Some b" "wf b" using assms(1) by (simp_all add: disk_ok_def)
  have "unat (bot_write_same_lba m) + unat (bot_write_same_count m) \<le> unat (sb_block_count ops b)"
    using assms(2,3,5) by (simp add: out_phase_ok_def)
  from fill_blocks_ok[OF b(2) this True] obtain b' where
    b': "fill_blocks ops (unat (bot_write_same_count m)) (bot_write_same_lba m) (bot_staging_data m) b = Some b'" "wf b'"
      "same_geometry ops b b'" by blast
  have "msc_inv ops wf (m\<lparr>bot_backend := Some b', bot_staging_data := [], bot_data_out_write_same := False, bot_state := Bot_Status\<rparr>)"
    using assms(2) by (intro msc_inv_status[OF disk_ok_store[OF assms(1) b'(3,2)]]) simp_all
  then show ?thesis using True b b'(1) by (simp add: data_out_write_same_def)
next
  case False
  then show ?thesis using assms by (auto simp: data_out_write_same_def msc_inv_def disk_ok_def)
qed

lemma out_mmap_ok:
  assumes "disk_ok ops wf m b" "plain_write m" "out_phase_ok ops m b" "bot_write_mmap_base m = Some base"
    and "bot_write_accumulated m + length d \<le> unat (bot_write_count m) * unat (sb_block_size ops b)"
  shows "\<exists>m'. msc_out ops sp d m = Some m' \<and> msc_inv ops wf m'"
proof -
  have b: "bot_backend m = Some b" "wf b" using assms(1) by (simp_all add: disk_ok_def)
  have o: "base = block_offset (bot_write_lba m) (sb_block_size ops b)"
      "unat (bot_write_lba m) + unat (bot_write_count m) \<le> unat (sb_block_count ops b)"
    using assms(2-4) by (simp_all add: out_phase_ok_def plain_write_def)
  have "base + bot_write_accumulated m + length d \<le> length (contents b)"
    using range_ok(2)[OF b(2) o(2)] o(1) assms(5) by simp
  from store[OF b(2) this] obtain b' where b': "sb_store ops b (base + bot_write_accumulated m) d = Some b'" "wf b'"
      "same_geometry ops b b'" by blast
  let ?m = "m\<lparr>bot_backend := Some b', bot_write_accumulated := bot_write_accumulated m + length d\<rparr>"
  let ?f = "?m\<lparr>bot_write_mmap_base := None, bot_write_accumulated := 0, bot_data_residue := 0, bot_state := Bot_Status\<rparr>"
  have g: "sb_block_size ops b' = sb_block_size ops b" "sb_block_count ops b' = sb_block_count ops b"
    using b'(3) by (simp_all add: same_geometry_def)
  have "msc_inv ops wf ?f"
    using assms(2) by (intro msc_inv_status[OF disk_ok_store[OF assms(1) b'(3,2)]]) (simp_all add: plain_write_def)
  moreover have "msc_inv ops wf ?m"
    using assms(2,5) o disk_ok_store[OF assms(1) b'(3,2), of ?m] assms(4) g unfolding msc_inv_def
    by (intro exI[of _ b']) (simp add: plain_write_def out_phase_ok_def)
  moreover have "msc_out ops sp d m = data_out_mmap ops (length d) (m\<lparr>bot_backend := Some b'\<rparr>)"
    by (rule msc_out_mmap[OF assms(2,4) b(1) o(1) b'(1)])
  ultimately show ?thesis by (simp add: data_out_mmap_def Let_def)
qed

lemma out_staging_ok:
  assumes "disk_ok ops wf m b" "plain_write m" "out_phase_ok ops m b" "bot_write_mmap_base m = None"
  shows "\<exists>m'. data_out_staging ops m = Some m' \<and> msc_inv ops wf m'"
proof (cases "bot_write_lba m + ucast (bot_write_count m) \<le> sb_block_count ops b
    \<and> unat (bot_write_count m) * unat (sb_block_size ops b) \<le> length (bot_staging_data m)")
  case True
  have b: "bot_backend m = Some b" "wf b" using assms(1) by (simp_all add: disk_ok_def)
  have "unat (bot_write_lba m) + unat (bot_write_count m) \<le> unat (sb_block_count ops b)"
    using assms(2,3) by (simp add: out_phase_ok_def plain_write_def)
  from write_range[OF b(2) this, of "bot_staging_data m"] True obtain b' where
    b': "sb_write ops b (bot_write_lba m) (bot_write_count m) (bot_staging_data m) = Some b'" "wf b'" "same_geometry ops b b'"
    by blast
  have "msc_inv ops wf (m\<lparr>bot_backend := Some b', bot_staging_data := [], bot_data_residue := 0, bot_state := Bot_Status\<rparr>)"
    using assms(2) by (intro msc_inv_status[OF disk_ok_store[OF assms(1) b'(3,2)]]) (simp_all add: plain_write_def)
  then show ?thesis using True b b'(1) by (simp add: data_out_staging_def block_total)
next
  case False
  then show ?thesis
    using assms by (auto simp: data_out_staging_def msc_inv_def plain_write_def disk_ok_def block_total)
qed

lemma msc_out_safe:
  assumes "msc_inv ops wf m" "host_ok ops d m"
  shows "\<exists>m'. msc_out ops sp d m = Some m' \<and> msc_inv ops wf m'"
proof -
  obtain b where b: "disk_ok ops wf m b" "if bot_state m = Bot_DataOut then out_phase_ok ops m b
      else \<not> bot_data_out_unmap m \<and> \<not> bot_data_out_write_same m" "bot_backend m = Some b"
    using assms(1) by (auto simp: msc_inv_def disk_ok_def)
  show ?thesis
  proof (cases "bot_state m")
    case Bot_Idle
    then show ?thesis
      using handle_cbw_ok[OF b(1), of d] b(2) assms(2) by (simp add: msc_out_idle_any host_ok_def)
  next
    case Bot_DataOut
    show ?thesis
    proof (cases "bot_write_mmap_base m")
      case (Some base)
      then have "plain_write m" using b(2) Bot_DataOut by (auto simp: plain_write_def out_phase_ok_def split: if_splits)
      then show ?thesis
        using out_mmap_ok[OF b(1) _ _ Some, of d sp] b assms(2) Bot_DataOut Some by (auto simp: host_ok_def plain_write_def)
    next
      case None
      let ?m = "m\<lparr>bot_staging_data := bot_staging_data m @ d\<rparr>"
      have m: "disk_ok ops wf ?m b" "out_phase_ok ops ?m b"
        using b Bot_DataOut by (simp_all add: disk_ok_def out_phase_ok_def)
      note out = msc_out_append[OF Bot_DataOut None, of ops sp d]
      consider "bot_data_out_unmap m" | "\<not> bot_data_out_unmap m" "bot_data_out_write_same m" | "plain_write ?m"
        using Bot_DataOut by (auto simp: plain_write_def)
      then show ?thesis
      proof cases
        case 1
        then show ?thesis
          using out_unmap_ok[OF m(1) _ _ m(2)] out Bot_DataOut b(3) assms(2) by (simp add: host_ok_def)
      next
        case 2
        then show ?thesis using out_write_same_ok[OF m(1) _ _ _ m(2)] out Bot_DataOut by simp
      next
        case 3
        then show ?thesis using out_staging_ok[OF m(1) 3 m(2)] out None by (simp add: plain_write_def)
      qed
    qed
  qed (use assms(1) in \<open>simp_all add: msc_out_ignored\<close>)
qed

lemma msc_in_safe:
  assumes "msc_inv ops wf m"
  shows "\<exists>st e m'. msc_in ops sp len m = Some (st, e, m') \<and> msc_inv ops wf m' \<and>
    (bot_state m = Bot_DataIn \<longrightarrow> length e \<le> unat len)"
proof (cases "bot_state m")
  case Bot_DataIn
  obtain b D where b: "disk_ok ops wf m b" "in_source ops m D" "bot_staging_offset m \<le> length D"
      "\<not> bot_data_out_unmap m" "\<not> bot_data_out_write_same m"
    using assms Bot_DataIn by (auto simp: msc_inv_def)
  let ?k = "m\<lparr>bot_staging_offset := bot_staging_offset m + unat len\<rparr>"
  have "msc_inv ops wf (finish_data m)"
    using b by (intro msc_inv_status[OF disk_ok_update[OF _ _ b(1)]]) (simp_all add: finish_data_def)
  moreover have "msc_inv ops wf ?k" if "bot_staging_offset m + unat len \<le> length D"
    using b that disk_ok_update[OF _ _ b(1), of ?k] Bot_DataIn unfolding msc_inv_def
    by (intro exI[of _ b]) (auto simp: in_source_offset)
  ultimately show ?thesis using msc_in_data[OF Bot_DataIn b(2,3), of sp len] by auto
next
  case Bot_Status
  then obtain b where b: "disk_ok ops wf m b" "\<not> bot_data_out_unmap m" "\<not> bot_data_out_write_same m"
    using assms by (auto simp: msc_inv_def)
  then have "msc_inv ops wf (m\<lparr>bot_command_failed := False, bot_state := Bot_Idle\<rparr>)"
    by (intro msc_inv_status[OF disk_ok_update[OF _ _ b(1)]]) simp_all
  then show ?thesis using msc_in_status[OF Bot_Status, of ops sp len] Bot_Status by auto
qed (use assms in \<open>auto simp: msc_in_stalled\<close>)

end



end
