(* ===== verification/Ethernet_Echo.thy ===== *)
theory Ethernet_Echo
  imports Storage
begin

text \<open>
  The network backend that answers on the device side of a virtual network card
  (\<open>EthernetEchoBackend\<close>): ARP replies, ICMP echo and a TCP echo service for one connection.  The
  protocol headers are packed structures over the bytes of the frame, read on a little-endian host;
  the replies are built in arrays of fixed size on the stack, and a copy beyond the end of one of them
  is \<open>None\<close>.
\<close>

section \<open>Network backends\<close>

text \<open>The base class: whether the callback is set, and the counters.\<close>

record NetworkBackend =
  nb_callback :: bool
  nb_rx_frames :: u64
  nb_rx_bytes :: u64
  nb_tx_frames :: u64
  nb_tx_bytes :: u64

definition nb_set_send_to_host :: "('m) NetworkBackend_scheme \<Rightarrow> ('m) NetworkBackend_scheme" where
  "nb_set_send_to_host b = b\<lparr>nb_callback := True\<rparr>"

definition count_rx :: "nat \<Rightarrow> ('m) NetworkBackend_scheme \<Rightarrow> ('m) NetworkBackend_scheme" where
  "count_rx n b = b\<lparr>nb_rx_frames := nb_rx_frames b + 1, nb_rx_bytes := nb_rx_bytes b + of_nat n\<rparr>"

text \<open>The frames given to the callback are the output of an operation.\<close>

definition send_to_host :: "data \<Rightarrow> ('m) NetworkBackend_scheme \<Rightarrow> data list \<times> ('m) NetworkBackend_scheme" where
  "send_to_host d b =
     (if nb_callback b
      then ([d], b\<lparr>nb_tx_frames := nb_tx_frames b + 1, nb_tx_bytes := nb_tx_bytes b + of_nat (length d)\<rparr>)
      else ([], b))"

section \<open>Constants\<close>

definition ETH_HLEN :: nat where "ETH_HLEN = 14"
definition ETH_MIN_FRAME :: nat where "ETH_MIN_FRAME = 60"
definition IPV4_HLEN :: nat where "IPV4_HLEN = 20"
definition TCP_HLEN :: nat where "TCP_HLEN = 20"
definition TCP_MAX_PAYLOAD :: nat where "TCP_MAX_PAYLOAD = 1500"
definition ETH_FRAME_MAX :: nat where "ETH_FRAME_MAX = ETH_HLEN + IPV4_HLEN + TCP_HLEN + TCP_MAX_PAYLOAD"
definition ETH_TYPE_ARP :: u16 where "ETH_TYPE_ARP = 0x0806"
definition ETH_TYPE_IPV4 :: u16 where "ETH_TYPE_IPV4 = 0x0800"
definition IP_PROTO_ICMP :: u8 where "IP_PROTO_ICMP = 1"
definition IP_PROTO_TCP :: u8 where "IP_PROTO_TCP = 6"
definition ARP_OP_REQUEST :: u16 where "ARP_OP_REQUEST = 1"
definition ARP_OP_REPLY :: u16 where "ARP_OP_REPLY = 2"
definition ICMP_ECHO_REQUEST :: u8 where "ICMP_ECHO_REQUEST = 8"
definition ICMP_ECHO_REPLY :: u8 where "ICMP_ECHO_REPLY = 0"
definition TCP_FLAG_FIN :: u8 where "TCP_FLAG_FIN = 0x01"
definition TCP_FLAG_SYN :: u8 where "TCP_FLAG_SYN = 0x02"
definition TCP_FLAG_PSH :: u8 where "TCP_FLAG_PSH = 0x08"
definition TCP_FLAG_ACK :: u8 where "TCP_FLAG_ACK = 0x10"

lemmas net_sizes = ETH_HLEN_def ETH_MIN_FRAME_def IPV4_HLEN_def TCP_HLEN_def TCP_MAX_PAYLOAD_def ETH_FRAME_MAX_def

lemmas net_codes = ETH_TYPE_ARP_def ETH_TYPE_IPV4_def IP_PROTO_ICMP_def IP_PROTO_TCP_def ARP_OP_REQUEST_def
  ARP_OP_REPLY_def ICMP_ECHO_REQUEST_def ICMP_ECHO_REPLY_def

section \<open>Byte order and checksum\<close>

definition bswap16 :: "u16 \<Rightarrow> u16" where "bswap16 v = byteswap v"

definition bswap32 :: "u32 \<Rightarrow> u32" where "bswap32 v = byteswap v"

definition read_be16 :: "data \<Rightarrow> u16" where
  "read_be16 p = bswap16 (word_of_le (take 2 p))"

definition read_be32 :: "data \<Rightarrow> u32" where
  "read_be32 p = bswap32 (word_of_le (take 4 p))"

text \<open>The two loops of \<open>checksum\<close>: adding up, and folding the carries.\<close>

fun checksum_add :: "data \<Rightarrow> u32 \<Rightarrow> u32" where
  "checksum_add (a # b # rest) acc = checksum_add rest (acc + ucast (read_be16 [a, b]))"
| "checksum_add [a] acc = acc + push_bit 8 (ucast a)"
| "checksum_add [] acc = acc"

lemma carry_arith:
  "(n :: nat) div 65536 \<noteq> 0 \<Longrightarrow> n mod 65536 + n div 65536 < n"
  "((n :: nat) mod 65536 + n div 65536) mod 65535 = n mod 65535"
  "(n :: nat) mod 65536 + n div 65536 = 0 \<longleftrightarrow> n = 0"
proof -
  have n: "n = n div 65536 * 65535 + (n mod 65536 + n div 65536)"
    using div_mult_mod_eq[of n 65536] by linarith
  show "n mod 65536 + n div 65536 < n" if "n div 65536 \<noteq> 0" using n that by linarith
  have "(n div 65536 * 65535 + (n mod 65536 + n div 65536)) mod 65535 = (n mod 65536 + n div 65536) mod 65535"
    by (rule mod_mult_self3)
  then show "(n mod 65536 + n div 65536) mod 65535 = n mod 65535" using n by argo
  show "n mod 65536 + n div 65536 = 0 \<longleftrightarrow> n = 0" using n by (metis add_is_0 mult_0 div_0 mod_0)
qed

lemma fold_step_less:
  assumes "drop_bit 16 (acc :: u32) \<noteq> 0"
  shows "unat ((acc AND 0xFFFF) + drop_bit 16 acc) < unat acc"
    and "unat ((acc AND 0xFFFF) + drop_bit 16 acc) = unat acc mod 2 ^ 16 + unat acc div 2 ^ 16"
proof -
  have "acc AND 0xFFFF = take_bit 16 acc" by (simp add: take_bit_eq_mask mask_eq_exp_minus_1)
  then have a: "unat (acc AND 0xFFFF) = unat acc mod 2 ^ 16"
    by (simp only: unsigned_take_bit_eq) (simp add: take_bit_eq_mod)
  have d: "unat (drop_bit 16 acc) = unat acc div 2 ^ 16"
    by (simp only: unat_drop_bit_eq) (simp add: drop_bit_eq_div)
  have le: "unat acc < 2 ^ 32" using unat_bound[of acc] by simp
  then have "unat acc div 2 ^ 16 < 2 ^ 16" by (simp add: less_mult_imp_div_less)
  then have "unat (acc AND 0xFFFF) + unat (drop_bit 16 acc) < 2 ^ 32" using a d by simp
  then show e: "unat ((acc AND 0xFFFF) + drop_bit 16 acc) = unat acc mod 2 ^ 16 + unat acc div 2 ^ 16"
    using a d by (simp add: unat_word_ariths(1) del: unat_add_lem)
  have "unat acc div 2 ^ 16 \<noteq> 0" using assms d by (metis unat_eq_zero)
  then show "unat ((acc AND 0xFFFF) + drop_bit 16 acc) < unat acc"
    unfolding e using carry_arith(1)[of "unat acc"] by simp
qed

function checksum_fold :: "u32 \<Rightarrow> u32" where
  "checksum_fold acc =
     (if drop_bit 16 acc \<noteq> 0 then checksum_fold ((acc AND 0xFFFF) + drop_bit 16 acc) else acc)"
  by pat_completeness auto
termination by (relation "measure unat") (simp_all only: wf_measure in_measure fold_step_less(1) not_False_eq_True)

declare checksum_fold.simps [simp del]

definition checksum :: "data \<Rightarrow> u32 \<Rightarrow> u16" where
  "checksum d initial = ucast (NOT (checksum_fold (checksum_add d initial)))"


text \<open>The sum a checksum is taken of, as a number.\<close>

fun be_sum :: "data \<Rightarrow> nat" where
  "be_sum (a # b # rest) = unat a * 256 + unat b + be_sum rest"
| "be_sum [a] = unat a * 256"
| "be_sum [] = 0"

lemma read_be16_pair: "read_be16 (a # b # rest) = push_bit 8 (ucast a) OR ucast b"
proof -
  have "le_bytes (word_of_le [a, b] :: u16) = [a, b]" by (rule le_bytes_word_of_le) simp
  then show ?thesis
    by (simp add: read_be16_def bswap16_def byteswap_def or.commute)
qed

lemma unat_read_be16: "unat (read_be16 (a # b # rest)) = unat a * 256 + unat b"
proof -
  have "push_bit 8 (ucast a :: u16) + ucast b = push_bit 8 (ucast a) OR ucast b"
    by (rule disjunctive_add) (auto simp: bit_push_bit_iff bit_ucast_iff dest: bit_imp_le_length)
  then have "read_be16 (a # b # rest) = push_bit 8 (ucast a) + ucast b"
    by (simp add: read_be16_pair)
  moreover have "unat a < 256" "unat b < 256" using unat_bound[of a] unat_bound[of b] by simp_all
  moreover from this have "unat (push_bit 8 (ucast a :: u16)) = unat a * 256"
    by (simp add: push_bit_eq_mult unat_word_ariths(2) unsigned_ucast_eq take_bit_eq_mod)
  ultimately show ?thesis
    by (simp add: unat_word_ariths(1) unsigned_ucast_eq take_bit_eq_mod)
qed

lemma be_sum_append: "even (length xs) \<Longrightarrow> be_sum (xs @ ys) = be_sum xs + be_sum ys"
  by (induction xs rule: be_sum.induct) auto

lemma be_sum_le: "be_sum d \<le> 65535 * ((length d + 1) div 2)"
proof (induction d rule: be_sum.induct)
  case (1 a b rest)
  then show ?case using unat_bound[of a] unat_bound[of b] by simp
next
  case (2 a)
  then show ?case using unat_bound[of a] by simp
qed simp

lemma unat_checksum_add:
  "be_sum d + unat acc < 2 ^ 32 \<Longrightarrow> unat (checksum_add d acc) = unat acc + be_sum d"
proof (induction d acc rule: checksum_add.induct)
  case (1 a b rest acc)
  have "unat (ucast (read_be16 [a, b]) :: u32) = unat a * 256 + unat b"
    using unat_bound[of "read_be16 [a, b]"] by (simp add: unsigned_ucast_eq take_bit_eq_mod flip: unat_read_be16[of a b "[]"])
  then have "unat (acc + ucast (read_be16 [a, b])) = unat acc + (unat a * 256 + unat b)"
    using "1.prems" by (simp add: unat_word_ariths(1))
  then show ?case using 1 by simp
next
  case (2 a acc)
  have "unat (push_bit 8 (ucast a :: u32)) = unat a * 256"
    using unat_bound[of a] by (simp add: push_bit_eq_mult unat_word_ariths(2) unsigned_ucast_eq take_bit_eq_mod)
  then show ?case using 2 by (simp add: unat_word_ariths(1))
qed simp

lemma checksum_fold_spec:
  "unat (checksum_fold acc) < 2 ^ 16 \<and> unat (checksum_fold acc) mod 65535 = unat acc mod 65535 \<and>
   (unat (checksum_fold acc) = 0 \<longleftrightarrow> unat acc = 0)"
proof (induction acc rule: checksum_fold.induct)
  case (1 acc)
  have d: "unat (drop_bit 16 acc) = unat acc div 2 ^ 16"
    by (simp only: unat_drop_bit_eq) (simp add: drop_bit_eq_div)
  show ?case
  proof (cases "drop_bit 16 acc = 0")
    case True
    then have "unat acc div 2 ^ 16 = 0" using d by (metis unat_0)
    then show ?thesis using True by (subst (1 2 3) checksum_fold.simps) (simp add: div_eq_0_iff)
  next
    case False
    let ?n = "unat acc"
    have e: "checksum_fold acc = checksum_fold ((acc AND 0xFFFF) + drop_bit 16 acc)"
      using False by (subst checksum_fold.simps) simp
    have s: "unat ((acc AND 0xFFFF) + drop_bit 16 acc) = ?n mod 2 ^ 16 + ?n div 2 ^ 16"
      using fold_step_less(2)[OF False] .
    show ?thesis using "1.IH"[OF False] unfolding e s using carry_arith(3)[of ?n] by (simp add: carry_arith(2))
  qed
qed


text \<open>A checksum put into a zeroed field makes the whole sum to a multiple of 65535, and then the
  checksum of the whole is zero, which is how a receiver verifies it.\<close>

lemma unat_checksum:
  "unat (checksum d initial) = 65535 - unat (checksum_fold (checksum_add d initial))"
proof -
  let ?f = "checksum_fold (checksum_add d initial)"
  have f: "unat ?f < 65536" using checksum_fold_spec[of "checksum_add d initial"] by simp
  have n: "unat (NOT w) = 65535 - unat w" for w :: u16
  proof -
    have "NOT w = -1 - w" by (simp add: not_eq_complement)
    moreover have "unat (-1 - w) = unat (-1 :: u16) - unat w" by (rule unat_sub) simp
    ultimately show ?thesis by (simp add: unsigned_minus_1_eq_mask mask_eq_exp_minus_1)
  qed
  have "(ucast (NOT ?f) :: u16) = NOT (ucast ?f)"
    by (rule bit_word_eqI) (simp add: bit_ucast_iff bit_not_iff)
  moreover have "unat (ucast ?f :: u16) = unat ?f"
    using f by (simp add: unsigned_ucast_eq take_bit_eq_mod)
  ultimately show ?thesis by (simp add: checksum_def n)
qed

lemma fold_max: "(n :: nat) < 65536 \<Longrightarrow> n mod 65535 = 0 \<Longrightarrow> n \<noteq> 0 \<Longrightarrow> n = 65535"
  using mod_less[of n 65535] by linarith

lemma checksum_zeroI:
  assumes "be_sum d + unat initial < 2 ^ 32" and "(be_sum d + unat initial) mod 65535 = 0"
    and "0 < be_sum d + unat initial"
  shows "checksum d initial = 0"
proof -
  let ?a = "checksum_add d initial"
  have a: "unat ?a = unat initial + be_sum d" using unat_checksum_add[OF assms(1)] .
  have "unat (checksum_fold ?a) = 65535"
    using fold_max[of "unat (checksum_fold ?a)"] checksum_fold_spec[of ?a] a assms by (simp add: add.commute)
  then have "unat (checksum d initial) = 0" by (simp add: unat_checksum)
  then show ?thesis by (simp add: unat_eq_zero)
qed

lemma read_be16_be_bytes: "read_be16 (be_bytes (w :: u16) @ r) = w"
proof -
  have "le_bytes (word_of_le (rev (le_bytes w)) :: u16) = rev (le_bytes w)" by (rule le_bytes_word_of_le) simp
  then show ?thesis by (simp add: read_be16_def bswap16_def byteswap_def be_bytes_def)
qed

lemma read_be32_be_bytes: "read_be32 (be_bytes (w :: u32) @ r) = w"
proof -
  have "le_bytes (word_of_le (rev (le_bytes w)) :: u32) = rev (le_bytes w)" by (rule le_bytes_word_of_le) simp
  then show ?thesis by (simp add: read_be32_def bswap32_def byteswap_def be_bytes_def)
qed

lemma be_bytes_u16: "be_bytes (w :: u16) = [ucast (drop_bit 8 w), ucast w]"
  by (simp add: be_bytes_def le_bytes_def upt_rec)

lemma be_sum_be_bytes: "be_sum (be_bytes (w :: u16) @ r) = unat w + be_sum r"
  using unat_read_be16[of "ucast (drop_bit 8 w)" "ucast w" "[]"] read_be16_be_bytes[of w "[]"]
  by (simp add: be_bytes_u16)

lemma mod_complement: "f \<le> k \<Longrightarrow> f mod k = n mod k \<Longrightarrow> (n + (k - f)) mod k = (0 :: nat)"
  by (metis le_add_diff_inverse mod_add_left_eq mod_self)

lemma checksum_verifies:
  assumes "even (length xs)" and "length xs + length ys \<le> 65000" and "unat initial < 2 ^ 31"
  shows "checksum (xs @ be_bytes (checksum (xs @ [0, 0] @ ys) initial) @ ys) initial = 0"
proof (rule checksum_zeroI)
  let ?z = "xs @ [0, 0] @ ys" and ?c = "checksum (xs @ [0, 0] @ ys) initial"
  let ?n = "be_sum ?z + unat initial" and ?f = "unat (checksum_fold (checksum_add ?z initial))"
  have s: "be_sum (xs @ be_bytes ?c @ ys) = be_sum ?z + unat ?c"
    using assms(1) by (simp add: be_sum_append be_sum_be_bytes)
  have "(length ?z + 1) div 2 \<le> 32501" using assms(2) by simp
  then have b: "be_sum ?z \<le> 65535 * 32501"
    using be_sum_le[of ?z] by (meson le_trans mult_le_mono2)
  then have n: "?n < 2 ^ 32" using assms(3) by simp
  have f: "?f < 65536" "?f mod 65535 = ?n mod 65535" "?f = 0 \<longleftrightarrow> ?n = 0"
    using checksum_fold_spec[of "checksum_add ?z initial"] unat_checksum_add[OF n] by (simp_all add: add.commute)
  have c: "unat ?c = 65535 - ?f" by (rule unat_checksum)
  then have "unat ?c \<le> 65535" by simp
  then show "be_sum (xs @ be_bytes ?c @ ys) + unat initial < 2 ^ 32" unfolding s using b assms(3) by simp
  have "(?n + (65535 - ?f)) mod 65535 = 0" using f by (intro mod_complement) simp_all
  then show "(be_sum (xs @ be_bytes ?c @ ys) + unat initial) mod 65535 = 0" unfolding s c by (simp add: ac_simps)
  show "0 < be_sum (xs @ be_bytes ?c @ ys) + unat initial" unfolding s c using f(1,3) by linarith
qed


section \<open>Protocol headers\<close>

text \<open>The members keep the order of the bytes in memory; \<open>bswap\<close> turns them into values.\<close>

record EthHeader =
  eth_dst :: data
  eth_src :: data
  eth_ethertype :: u16

definition eth_of_bytes :: "data \<Rightarrow> EthHeader" where
  "eth_of_bytes d =
     \<lparr>eth_dst = take 6 d, eth_src = take 6 (drop 6 d), eth_ethertype = word_of_le (take 2 (drop 12 d))\<rparr>"

definition eth_bytes :: "EthHeader \<Rightarrow> data" where
  "eth_bytes h = eth_dst h @ eth_src h @ le_bytes (eth_ethertype h)"

record ArpHeader =
  arp_htype :: u16
  arp_ptype :: u16
  arp_hlen :: u8
  arp_plen :: u8
  arp_op :: u16
  arp_sha :: data
  arp_spa :: data
  arp_tha :: data
  arp_tpa :: data

definition arp_of_bytes :: "data \<Rightarrow> ArpHeader" where
  "arp_of_bytes d =
     \<lparr>arp_htype = word_of_le (take 2 d), arp_ptype = word_of_le (take 2 (drop 2 d)), arp_hlen = d ! 4,
      arp_plen = d ! 5, arp_op = word_of_le (take 2 (drop 6 d)), arp_sha = take 6 (drop 8 d),
      arp_spa = take 4 (drop 14 d), arp_tha = take 6 (drop 18 d), arp_tpa = take 4 (drop 24 d)\<rparr>"

definition arp_bytes :: "ArpHeader \<Rightarrow> data" where
  "arp_bytes h =
     le_bytes (arp_htype h) @ le_bytes (arp_ptype h) @ [arp_hlen h, arp_plen h] @ le_bytes (arp_op h) @
     arp_sha h @ arp_spa h @ arp_tha h @ arp_tpa h"

record Ipv4Header =
  ip_version_ihl :: u8
  ip_tos :: u8
  ip_total_len :: u16
  ip_id :: u16
  ip_frag_offset :: u16
  ip_ttl :: u8
  ip_proto :: u8
  ip_checksum :: u16
  ip_src :: data
  ip_dst :: data

definition ipv4_of_bytes :: "data \<Rightarrow> Ipv4Header" where
  "ipv4_of_bytes d =
     \<lparr>ip_version_ihl = d ! 0, ip_tos = d ! 1, ip_total_len = word_of_le (take 2 (drop 2 d)),
      ip_id = word_of_le (take 2 (drop 4 d)), ip_frag_offset = word_of_le (take 2 (drop 6 d)), ip_ttl = d ! 8,
      ip_proto = d ! 9, ip_checksum = word_of_le (take 2 (drop 10 d)), ip_src = take 4 (drop 12 d),
      ip_dst = take 4 (drop 16 d)\<rparr>"

definition ipv4_bytes :: "Ipv4Header \<Rightarrow> data" where
  "ipv4_bytes h =
     [ip_version_ihl h, ip_tos h] @ le_bytes (ip_total_len h) @ le_bytes (ip_id h) @ le_bytes (ip_frag_offset h) @
     [ip_ttl h, ip_proto h] @ le_bytes (ip_checksum h) @ ip_src h @ ip_dst h"

record TcpHeader =
  tcp_src_port :: u16
  tcp_dst_port :: u16
  tcp_seq :: u32
  tcp_ack :: u32
  tcp_offset_flags_hi :: u8
  tcp_flags :: u8
  tcp_window :: u16
  tcp_checksum :: u16
  tcp_urgent :: u16

definition tcp_of_bytes :: "data \<Rightarrow> TcpHeader" where
  "tcp_of_bytes d =
     \<lparr>tcp_src_port = word_of_le (take 2 d), tcp_dst_port = word_of_le (take 2 (drop 2 d)),
      tcp_seq = word_of_le (take 4 (drop 4 d)), tcp_ack = word_of_le (take 4 (drop 8 d)),
      tcp_offset_flags_hi = d ! 12, tcp_flags = d ! 13, tcp_window = word_of_le (take 2 (drop 14 d)),
      tcp_checksum = word_of_le (take 2 (drop 16 d)), tcp_urgent = word_of_le (take 2 (drop 18 d))\<rparr>"

definition tcp_bytes :: "TcpHeader \<Rightarrow> data" where
  "tcp_bytes h =
     le_bytes (tcp_src_port h) @ le_bytes (tcp_dst_port h) @ le_bytes (tcp_seq h) @ le_bytes (tcp_ack h) @
     [tcp_offset_flags_hi h, tcp_flags h] @ le_bytes (tcp_window h) @ le_bytes (tcp_checksum h) @
     le_bytes (tcp_urgent h)"

record IcmpEchoHeader =
  icmp_type :: u8
  icmp_code :: u8
  icmp_checksum :: u16
  icmp_id :: u16
  icmp_seq :: u16

definition icmp_of_bytes :: "data \<Rightarrow> IcmpEchoHeader" where
  "icmp_of_bytes d =
     \<lparr>icmp_type = d ! 0, icmp_code = d ! 1, icmp_checksum = word_of_le (take 2 (drop 2 d)),
      icmp_id = word_of_le (take 2 (drop 4 d)), icmp_seq = word_of_le (take 2 (drop 6 d))\<rparr>"

definition icmp_bytes :: "IcmpEchoHeader \<Rightarrow> data" where
  "icmp_bytes h =
     [icmp_type h, icmp_code h] @ le_bytes (icmp_checksum h) @ le_bytes (icmp_id h) @ le_bytes (icmp_seq h)"

section \<open>The echo backend\<close>

record EthernetEchoBackend = NetworkBackend +
  eb_mac :: data
  eb_ip :: data
  eb_tcp_port :: u16
  eb_tcp_established :: bool
  eb_peer_mac :: data
  eb_tcp_my_seq :: u32
  eb_tcp_peer_seq :: u32

definition echo_backend_new :: "data \<Rightarrow> data \<Rightarrow> u16 \<Rightarrow> EthernetEchoBackend" where
  "echo_backend_new mac ip port =
     \<lparr>nb_callback = False, nb_rx_frames = 0, nb_rx_bytes = 0, nb_tx_frames = 0, nb_tx_bytes = 0,
      eb_mac = mac, eb_ip = ip, eb_tcp_port = port, eb_tcp_established = False, eb_peer_mac = replicate 6 0,
      eb_tcp_my_seq = 0x10000000, eb_tcp_peer_seq = 0\<rparr>"

type_synonym echo_result = "(data list \<times> EthernetEchoBackend) option"

text \<open>The frame array has \<open>ETH_FRAME_MAX\<close> bytes.\<close>

definition send_frame_to_host :: "data \<Rightarrow> u16 \<Rightarrow> data \<Rightarrow> EthernetEchoBackend \<Rightarrow> echo_result" where
  "send_frame_to_host dst_mac ethertype payload e =
     (if ETH_FRAME_MAX < ETH_HLEN + length payload then None
      else
        (let frame = eth_bytes \<lparr>eth_dst = dst_mac, eth_src = eb_mac e, eth_ethertype = bswap16 ethertype\<rparr> @ payload;
             total = ETH_HLEN + length payload
         in Some (send_to_host
              (if total < ETH_MIN_FRAME then frame @ replicate (ETH_MIN_FRAME - total) 0 else frame) e)))"

text \<open>The packet array has \<open>IPV4_HLEN + TCP_MAX_PAYLOAD\<close> bytes.\<close>

definition ipv4_reply_header :: "u8 \<Rightarrow> data \<Rightarrow> data \<Rightarrow> nat \<Rightarrow> Ipv4Header" where
  "ipv4_reply_header proto src dst payload_len =
     \<lparr>ip_version_ihl = 0x45, ip_tos = 0, ip_total_len = bswap16 (of_nat (IPV4_HLEN + payload_len)), ip_id = 0,
      ip_frag_offset = bswap16 0x4000, ip_ttl = 64, ip_proto = proto, ip_checksum = 0, ip_src = src, ip_dst = dst\<rparr>"

definition send_ipv4 :: "u8 \<Rightarrow> data \<Rightarrow> data \<Rightarrow> EthernetEchoBackend \<Rightarrow> echo_result" where
  "send_ipv4 proto dst_ip payload e =
     (let hdr = ipv4_reply_header proto (eb_ip e) dst_ip (length payload);
          hdr' = hdr\<lparr>ip_checksum := bswap16 (checksum (ipv4_bytes hdr) 0)\<rparr>
      in if IPV4_HLEN + TCP_MAX_PAYLOAD < IPV4_HLEN + length payload then None
         else send_frame_to_host (eb_peer_mac e) ETH_TYPE_IPV4 (ipv4_bytes hdr' @ payload) e)"

definition handle_arp :: "data \<Rightarrow> EthernetEchoBackend \<Rightarrow> echo_result" where
  "handle_arp frame e =
     (if length frame < ETH_HLEN + 28 then Some ([], e)
      else
        (let arp = arp_of_bytes (drop ETH_HLEN frame)
         in if bswap16 (arp_htype arp) \<noteq> 1 \<or> bswap16 (arp_ptype arp) \<noteq> ETH_TYPE_IPV4 \<or> arp_hlen arp \<noteq> 6 \<or>
               arp_plen arp \<noteq> 4 then Some ([], e)
            else if bswap16 (arp_op arp) \<noteq> ARP_OP_REQUEST \<or> arp_tpa arp \<noteq> eb_ip e then Some ([], e)
            else send_frame_to_host (arp_sha arp) ETH_TYPE_ARP
                   (arp_bytes \<lparr>arp_htype = arp_htype arp, arp_ptype = arp_ptype arp, arp_hlen = 6, arp_plen = 4,
                      arp_op = bswap16 ARP_OP_REPLY, arp_sha = eb_mac e, arp_spa = eb_ip e, arp_tha = arp_sha arp,
                      arp_tpa = arp_spa arp\<rparr>) e))"

text \<open>The whole ICMP message is copied, then the members of its header are overwritten.\<close>

definition handle_icmp :: "Ipv4Header \<Rightarrow> data \<Rightarrow> EthernetEchoBackend \<Rightarrow> echo_result" where
  "handle_icmp ip icmp e =
     (if length icmp < 8 \<or> TCP_MAX_PAYLOAD < length icmp then Some ([], e)
      else
        (let echo = icmp_of_bytes icmp
         in if icmp_type echo \<noteq> ICMP_ECHO_REQUEST \<or> icmp_code echo \<noteq> 0 then Some ([], e)
            else
              (let hdr = echo\<lparr>icmp_type := ICMP_ECHO_REPLY, icmp_checksum := 0\<rparr>;
                   reply = icmp_bytes hdr @ drop 8 icmp;
                   hdr' = hdr\<lparr>icmp_checksum := bswap16 (checksum reply 0)\<rparr>
               in send_ipv4 IP_PROTO_ICMP (ip_src ip) (icmp_bytes hdr' @ drop 8 icmp) e)))"

definition tcp_pseudo :: "data \<Rightarrow> data \<Rightarrow> nat \<Rightarrow> u32" where
  "tcp_pseudo src dst seg_len =
     ucast (push_bit 8 (ucast (src ! 0)) OR ucast (src ! 1) :: u16) +
     ucast (push_bit 8 (ucast (src ! 2)) OR ucast (src ! 3) :: u16) +
     ucast (push_bit 8 (ucast (dst ! 0)) OR ucast (dst ! 1) :: u16) +
     ucast (push_bit 8 (ucast (dst ! 2)) OR ucast (dst ! 3) :: u16) +
     ucast IP_PROTO_TCP + of_nat seg_len"

text \<open>The segment array has \<open>TCP_HLEN + TCP_MAX_PAYLOAD\<close> bytes.\<close>

definition send_segment ::
    "Ipv4Header \<Rightarrow> TcpHeader \<Rightarrow> u8 \<Rightarrow> u32 \<Rightarrow> u32 \<Rightarrow> data \<Rightarrow> EthernetEchoBackend \<Rightarrow> echo_result" where
  "send_segment ip tcp_hdr seg_flags seg_seq seg_ack seg_payload e =
     (let hdr = \<lparr>tcp_src_port = bswap16 (eb_tcp_port e), tcp_dst_port = tcp_src_port tcp_hdr,
                 tcp_seq = bswap32 seg_seq, tcp_ack = bswap32 seg_ack, tcp_offset_flags_hi = push_bit 4 5,
                 tcp_flags = seg_flags, tcp_window = bswap16 4096, tcp_checksum = 0, tcp_urgent = 0\<rparr>;
          pseudo = tcp_pseudo (ip_src ip) (ip_dst ip) (TCP_HLEN + length seg_payload);
          hdr' = hdr\<lparr>tcp_checksum := bswap16 (checksum (tcp_bytes hdr @ seg_payload) pseudo)\<rparr>
      in if TCP_HLEN + TCP_MAX_PAYLOAD < TCP_HLEN + length seg_payload then None
         else send_ipv4 IP_PROTO_TCP (ip_src ip) (tcp_bytes hdr' @ seg_payload) e)"

text \<open>The two parts of the connected branch: the data, then the end of the connection.\<close>

definition tcp_echo_data ::
    "Ipv4Header \<Rightarrow> TcpHeader \<Rightarrow> data \<Rightarrow> EthernetEchoBackend \<Rightarrow> echo_result" where
  "tcp_echo_data ip tcp_hdr payload e =
     (if 0 < length payload
      then (let e1 = e\<lparr>eb_tcp_peer_seq := bswap32 (tcp_seq tcp_hdr) + of_nat (length payload)\<rparr>
            in case send_segment ip tcp_hdr (TCP_FLAG_PSH OR TCP_FLAG_ACK) (eb_tcp_my_seq e1) (eb_tcp_peer_seq e1)
                      payload e1 of
                 None \<Rightarrow> None
               | Some (out, e2) \<Rightarrow> Some (out, e2\<lparr>eb_tcp_my_seq := eb_tcp_my_seq e2 + of_nat (length payload)\<rparr>))
      else Some ([], e))"

definition tcp_echo_close ::
    "Ipv4Header \<Rightarrow> TcpHeader \<Rightarrow> data \<Rightarrow> EthernetEchoBackend \<Rightarrow> echo_result" where
  "tcp_echo_close ip tcp_hdr payload e =
     (if tcp_flags tcp_hdr AND TCP_FLAG_FIN \<noteq> 0
      then (let e1 = e\<lparr>eb_tcp_peer_seq := bswap32 (tcp_seq tcp_hdr) + of_nat (length payload) + 1\<rparr>
            in case send_segment ip tcp_hdr (TCP_FLAG_ACK OR TCP_FLAG_FIN) (eb_tcp_my_seq e1) (eb_tcp_peer_seq e1) []
                      e1 of
                 None \<Rightarrow> None
               | Some (out, e2) \<Rightarrow> Some (out, e2\<lparr>eb_tcp_established := False\<rparr>))
      else if length payload = 0 \<and> bswap32 (tcp_ack tcp_hdr) > eb_tcp_my_seq e
      then Some ([], e\<lparr>eb_tcp_my_seq := bswap32 (tcp_ack tcp_hdr)\<rparr>)
      else Some ([], e))"

definition handle_tcp :: "Ipv4Header \<Rightarrow> data \<Rightarrow> EthernetEchoBackend \<Rightarrow> echo_result" where
  "handle_tcp ip tcp e =
     (if length tcp < 20 then Some ([], e)
      else
        (let tcp_hdr = tcp_of_bytes tcp;
             data_offset = unat (drop_bit 4 (tcp_offset_flags_hi tcp_hdr)) * 4;
             payload = drop data_offset tcp
         in if bswap16 (tcp_dst_port tcp_hdr) \<noteq> eb_tcp_port e then Some ([], e)
            else if data_offset < 20 \<or> length tcp < data_offset then Some ([], e)
            else if tcp_flags tcp_hdr AND TCP_FLAG_SYN \<noteq> 0 \<and> \<not> eb_tcp_established e
            then (let e1 = e\<lparr>eb_tcp_peer_seq := bswap32 (tcp_seq tcp_hdr) + 1, eb_tcp_established := True\<rparr>
                  in send_segment ip tcp_hdr (TCP_FLAG_SYN OR TCP_FLAG_ACK) (eb_tcp_my_seq e1) (eb_tcp_peer_seq e1) []
                       e1)
            else if eb_tcp_established e
            then (case tcp_echo_data ip tcp_hdr payload e of
                    None \<Rightarrow> None
                  | Some (out, e1) \<Rightarrow>
                      (case tcp_echo_close ip tcp_hdr payload e1 of
                         None \<Rightarrow> None
                       | Some (out', e2) \<Rightarrow> Some (out @ out', e2)))
            else Some ([], e)))"

definition handle_ipv4 :: "data \<Rightarrow> EthernetEchoBackend \<Rightarrow> echo_result" where
  "handle_ipv4 frame e =
     (if length frame < ETH_HLEN + 20 then Some ([], e)
      else
        (let ip = ipv4_of_bytes (drop ETH_HLEN frame);
             ihl = unat (ip_version_ihl ip AND 0x0F) * 4;
             total_len = unat (bswap16 (ip_total_len ip))
         in if ihl < IPV4_HLEN \<or> total_len < ihl \<or> length frame < ETH_HLEN + total_len then Some ([], e)
            else if ip_dst ip \<noteq> eb_ip e then Some ([], e)
            else
              (let payload = take (total_len - ihl) (drop (ETH_HLEN + ihl) frame)
               in if ip_proto ip = IP_PROTO_ICMP then handle_icmp ip payload e
                  else if ip_proto ip = IP_PROTO_TCP then handle_tcp ip payload e
                  else Some ([], e))))"

definition handle_frame :: "data \<Rightarrow> EthernetEchoBackend \<Rightarrow> echo_result" where
  "handle_frame frame e =
     (if length frame < ETH_HLEN then Some ([], e)
      else
        (let eth = eth_of_bytes frame; e1 = e\<lparr>eb_peer_mac := eth_src eth\<rparr>
         in if bswap16 (eth_ethertype eth) = ETH_TYPE_ARP then handle_arp frame e1
            else if bswap16 (eth_ethertype eth) = ETH_TYPE_IPV4 then handle_ipv4 frame e1
            else Some ([], e1)))"

definition echo_send_frame :: "data \<Rightarrow> EthernetEchoBackend \<Rightarrow> echo_result" where
  "echo_send_frame d e = handle_frame d (count_rx (length d) e)"


section \<open>Facts\<close>

lemma le_bytes_bswap16 [simp]: "le_bytes (bswap16 v) = be_bytes v"
  by (simp add: bswap16_def byteswap_def be_bytes_def)

lemma le_bytes_bswap32 [simp]: "le_bytes (bswap32 v) = be_bytes v"
  by (simp add: bswap32_def byteswap_def be_bytes_def)

lemma bswap16_bswap16 [simp]: "bswap16 (bswap16 v) = v"
proof -
  have "le_bytes (word_of_le (rev (le_bytes v)) :: u16) = rev (le_bytes v)" by (rule le_bytes_word_of_le) simp
  then show ?thesis by (simp add: bswap16_def byteswap_def)
qed

lemma unat_of_nat_u16: "n < 65536 \<Longrightarrow> unat (of_nat n :: u16) = n"
  by (simp add: unat_of_nat)

lemma bswap16_word_of_le [simp]: "bswap16 (word_of_le (be_bytes v)) = v"
  using read_be16_be_bytes[of v "[]"] by (simp add: read_be16_def)

lemma bswap32_word_of_le [simp]: "bswap32 (word_of_le (be_bytes v)) = v"
  using read_be32_be_bytes[of v "[]"] by (simp add: read_be32_def)

text \<open>A frame filled up to the minimal length.\<close>

definition padded :: "data \<Rightarrow> data" where
  "padded f = f @ replicate (ETH_MIN_FRAME - length f) 0"

lemma length_padded [simp]: "length (padded f) = max ETH_MIN_FRAME (length f)"
  by (simp add: padded_def max_def)

lemma take_padded: "n \<le> length f \<Longrightarrow> take n (padded f) = take n f"
  by (simp add: padded_def)

definition eth_frame :: "data \<Rightarrow> data \<Rightarrow> u16 \<Rightarrow> data \<Rightarrow> data" where
  "eth_frame dst src ethertype payload = padded (dst @ src @ be_bytes ethertype @ payload)"

lemma send_frame_to_host_eq:
  assumes "length dst = 6" and "length (eb_mac e) = 6" and "length payload \<le> 1540"
  shows "send_frame_to_host dst ty payload e = Some (send_to_host (eth_frame dst (eb_mac e) ty payload) e)"
  using assms by (simp add: send_frame_to_host_def eth_frame_def padded_def eth_bytes_def net_sizes Let_def)

lemma send_frame_to_host_None:
  "send_frame_to_host dst ty payload e = None \<longleftrightarrow> 1540 < length payload"
  by (auto simp: send_frame_to_host_def net_sizes Let_def)

definition ipv4_packet :: "u8 \<Rightarrow> data \<Rightarrow> data \<Rightarrow> data \<Rightarrow> data" where
  "ipv4_packet proto src dst payload =
     (let hdr = ipv4_reply_header proto src dst (length payload)
      in ipv4_bytes (hdr\<lparr>ip_checksum := bswap16 (checksum (ipv4_bytes hdr) 0)\<rparr>) @ payload)"

lemma length_ipv4_bytes [simp]:
  "length (ip_src h) = 4 \<Longrightarrow> length (ip_dst h) = 4 \<Longrightarrow> length (ipv4_bytes h) = 20"
  by (simp add: ipv4_bytes_def)

lemma length_ipv4_packet [simp]:
  "length src = 4 \<Longrightarrow> length dst = 4 \<Longrightarrow> length (ipv4_packet proto src dst payload) = 20 + length payload"
  by (simp add: ipv4_packet_def Let_def ipv4_reply_header_def)

lemma ipv4_packet_header:
  assumes "length src = 4" and "length dst = 4"
  shows "checksum (take 20 (ipv4_packet proto src dst payload)) 0 = 0"
proof -
  let ?hdr = "ipv4_reply_header proto src dst (length payload)"
  let ?xs = "[ip_version_ihl ?hdr, ip_tos ?hdr] @ le_bytes (ip_total_len ?hdr) @ le_bytes (ip_id ?hdr) @
      le_bytes (ip_frag_offset ?hdr) @ [ip_ttl ?hdr, ip_proto ?hdr]"
  have z: "ipv4_bytes ?hdr = ?xs @ [0, 0] @ src @ dst"
    by (simp add: ipv4_bytes_def ipv4_reply_header_def le_bytes_def upt_rec)
  have "take 20 (ipv4_packet proto src dst payload) = ?xs @ be_bytes (checksum (?xs @ [0, 0] @ src @ dst) 0) @ src @ dst"
    using assms unfolding ipv4_packet_def Let_def z[symmetric]
    by (simp add: ipv4_bytes_def ipv4_reply_header_def)
  also have "checksum \<dots> 0 = 0" by (rule checksum_verifies) (use assms in simp_all)
  finally show ?thesis .
qed

lemma send_ipv4_packet:
  "send_ipv4 proto dst payload e =
     (if 1500 < length payload then None
      else send_frame_to_host (eb_peer_mac e) ETH_TYPE_IPV4 (ipv4_packet proto (eb_ip e) dst payload) e)"
  by (simp add: send_ipv4_def ipv4_packet_def net_sizes Let_def)

lemma send_ipv4_eq:
  assumes "length (eb_peer_mac e) = 6" "length (eb_mac e) = 6" "length (eb_ip e) = 4" "length dst = 4"
    "length payload \<le> 1500"
  shows "send_ipv4 proto dst payload e =
     Some (send_to_host (eth_frame (eb_peer_mac e) (eb_mac e) ETH_TYPE_IPV4 (ipv4_packet proto (eb_ip e) dst payload)) e)"
  using assms by (simp add: send_ipv4_packet send_frame_to_host_eq)

lemma send_ipv4_None:
  assumes "length (eb_ip e) = 4" "length dst = 4"
  shows "send_ipv4 proto dst payload e = None \<longleftrightarrow> 1500 < length payload"
  using assms by (simp add: send_ipv4_packet send_frame_to_host_None)

text \<open>What the backend sends: frames of legal size from its own address that carry ARP, or IPv4 with a
  header whose checksum verifies and whose length fits the frame.\<close>

definition good_frame :: "data \<Rightarrow> data \<Rightarrow> data \<Rightarrow> bool" where
  "good_frame mac ip f \<longleftrightarrow>
     ETH_MIN_FRAME \<le> length f \<and> length f \<le> ETH_FRAME_MAX \<and> eth_src (eth_of_bytes f) = mac \<and>
     (let ty = bswap16 (eth_ethertype (eth_of_bytes f)); h = ipv4_of_bytes (drop ETH_HLEN f)
      in ty = ETH_TYPE_ARP \<or>
         ty = ETH_TYPE_IPV4 \<and> checksum (take IPV4_HLEN (drop ETH_HLEN f)) 0 = 0 \<and> ip_src h = ip \<and>
         ETH_HLEN + unat (bswap16 (ip_total_len h)) \<le> length f)"

lemma eth_frame_parts:
  assumes "length dst = 6" and "length src = 6"
  shows "eth_of_bytes (eth_frame dst src ty p) = \<lparr>eth_dst = dst, eth_src = src, eth_ethertype = bswap16 ty\<rparr>"
    and "n \<le> length p \<Longrightarrow> take n (drop 14 (eth_frame dst src ty p)) = take n p"
    and "length (eth_frame dst src ty p) = max 60 (14 + length p)"
    and "drop 14 (eth_frame dst src ty p) = p @ replicate (46 - length p) 0"
  using assms
  by (simp_all add: eth_frame_def eth_of_bytes_def padded_def ETH_MIN_FRAME_def bswap16_def byteswap_def
      be_bytes_def max_def)

lemma ipv4_of_packet:
  assumes "length src = 4" and "length dst = 4"
  shows "ip_version_ihl (ipv4_of_bytes (ipv4_packet proto src dst p @ r)) = 0x45"
    and "bswap16 (ip_total_len (ipv4_of_bytes (ipv4_packet proto src dst p @ r))) = of_nat (20 + length p)"
    and "ip_proto (ipv4_of_bytes (ipv4_packet proto src dst p @ r)) = proto"
    and "ip_src (ipv4_of_bytes (ipv4_packet proto src dst p @ r)) = src"
    and "ip_dst (ipv4_of_bytes (ipv4_packet proto src dst p @ r)) = dst"
  using assms
  by (simp_all add: ipv4_of_bytes_def ipv4_packet_def ipv4_bytes_def ipv4_reply_header_def Let_def IPV4_HLEN_def
      nth_append)

lemma good_arp:
  assumes "length dst = 6" "length mac = 6" "length p \<le> 1540"
  shows "good_frame mac ip (eth_frame dst mac ETH_TYPE_ARP p)"
  using assms by (simp add: good_frame_def eth_frame_parts net_sizes Let_def)

lemma good_ipv4:
  assumes "length dst = 6" "length mac = 6" "length ip = 4" "length dst_ip = 4" "length p \<le> 1500"
  shows "good_frame mac ip (eth_frame dst mac ETH_TYPE_IPV4 (ipv4_packet proto ip dst_ip p))"
proof -
  let ?f = "eth_frame dst mac ETH_TYPE_IPV4 (ipv4_packet proto ip dst_ip p)"
  have "drop 14 ?f = ipv4_packet proto ip dst_ip p @ replicate (46 - (20 + length p)) 0"
    using assms by (simp add: eth_frame_parts)
  moreover have "unat (of_nat (20 + length p) :: u16) = 20 + length p"
    using assms(5) by (intro unat_of_nat_u16) simp
  ultimately show ?thesis
    using assms ipv4_packet_header[of ip dst_ip proto p]
    by (simp add: good_frame_def eth_frame_parts net_sizes Let_def ipv4_of_packet)
qed


text \<open>The addresses have their sizes.\<close>

definition echo_ok :: "EthernetEchoBackend \<Rightarrow> bool" where
  "echo_ok e \<longleftrightarrow> length (eb_mac e) = 6 \<and> length (eb_ip e) = 4 \<and> length (eb_peer_mac e) = 6"

definition echo_keeps :: "EthernetEchoBackend \<Rightarrow> echo_result \<Rightarrow> bool" where
  "echo_keeps e r \<longleftrightarrow>
     (case r of None \<Rightarrow> True
      | Some (out, e') \<Rightarrow> (\<forall>f \<in> set out. good_frame (eb_mac e) (eb_ip e) f) \<and> echo_ok e' \<and>
          eb_mac e' = eb_mac e \<and> eb_ip e' = eb_ip e)"

lemma echo_keeps_none [simp]: "echo_ok e \<Longrightarrow> echo_keeps e (Some ([], e))"
  by (simp add: echo_keeps_def)

lemma send_to_host_sel [simp]:
  "eb_mac (snd (send_to_host f e)) = eb_mac e" "eb_ip (snd (send_to_host f e)) = eb_ip e"
  "eb_peer_mac (snd (send_to_host f e)) = eb_peer_mac e" "eb_tcp_my_seq (snd (send_to_host f e)) = eb_tcp_my_seq e"
  "eb_tcp_established (snd (send_to_host f e)) = eb_tcp_established e"
  "eb_tcp_port (snd (send_to_host f e)) = eb_tcp_port e"
  "nb_callback (snd (send_to_host f e)) = nb_callback e"
  "fst (send_to_host f e) = (if nb_callback e then [f] else [])"
  by (simp_all add: send_to_host_def)

lemma echo_keeps_send:
  assumes "echo_ok e" and "good_frame (eb_mac e) (eb_ip e) f"
  shows "echo_keeps e (Some (send_to_host f e))"
  using assms by (auto simp: echo_keeps_def echo_ok_def send_to_host_def)

lemma send_ipv4_keeps: "echo_ok e \<Longrightarrow> length dst = 4 \<Longrightarrow> echo_keeps e (send_ipv4 proto dst p e)"
  by (cases "1500 < length p")
     (simp_all add: send_ipv4_None echo_ok_def echo_keeps_send good_ipv4 send_ipv4_eq, simp add: echo_keeps_def send_ipv4_packet)

lemma echo_keeps_upd:
  "echo_keeps (e\<lparr>eb_tcp_peer_seq := x\<rparr>) r = echo_keeps e r" "echo_keeps (e\<lparr>eb_tcp_established := y\<rparr>) r = echo_keeps e r"
  by (simp_all add: echo_keeps_def split: option.split)

lemma echo_ok_upd [simp]:
  "echo_ok (e\<lparr>eb_tcp_peer_seq := x\<rparr>) = echo_ok e" "echo_ok (e\<lparr>eb_tcp_established := y\<rparr>) = echo_ok e"
  "echo_ok (e\<lparr>eb_tcp_my_seq := z\<rparr>) = echo_ok e"
  by (simp_all add: echo_ok_def)

lemma send_segment_keeps:
  "echo_ok e \<Longrightarrow> length (ip_src ip) = 4 \<Longrightarrow> echo_keeps e (send_segment ip t fl sq ak p e)"
  by (auto simp: send_segment_def Let_def send_ipv4_keeps) (simp add: echo_keeps_def)

lemma tcp_echo_data_keeps:
  assumes "echo_ok e" and "length (ip_src ip) = 4"
  shows "echo_keeps e (tcp_echo_data ip t p e)"
  using assms send_segment_keeps[of "e\<lparr>eb_tcp_peer_seq := bswap32 (tcp_seq t) + of_nat (length p)\<rparr>" ip t
      "TCP_FLAG_PSH OR TCP_FLAG_ACK" "eb_tcp_my_seq e" "bswap32 (tcp_seq t) + of_nat (length p)" p]
  by (auto simp: tcp_echo_data_def Let_def echo_keeps_def split: option.splits)

lemma tcp_echo_close_keeps:
  assumes "echo_ok e" and "length (ip_src ip) = 4"
  shows "echo_keeps e (tcp_echo_close ip t p e)"
  using assms send_segment_keeps[of "e\<lparr>eb_tcp_peer_seq := bswap32 (tcp_seq t) + of_nat (length p) + 1\<rparr>" ip t
      "TCP_FLAG_ACK OR TCP_FLAG_FIN" "eb_tcp_my_seq e" "bswap32 (tcp_seq t) + of_nat (length p) + 1" "[]"]
  by (auto simp: tcp_echo_close_def Let_def echo_keeps_def split: option.splits)

lemma handle_tcp_keeps:
  assumes "echo_ok e" and "length (ip_src ip) = 4"
  shows "echo_keeps e (handle_tcp ip tcp e)"
proof -
  have two: "echo_keeps e (case tcp_echo_data ip t p e of None \<Rightarrow> None
      | Some (out, e1) \<Rightarrow> (case tcp_echo_close ip t p e1 of None \<Rightarrow> None | Some (out', e2) \<Rightarrow> Some (out @ out', e2)))" for t p
  proof (cases "tcp_echo_data ip t p e")
    case (Some r)
    obtain out e1 where r: "tcp_echo_data ip t p e = Some (out, e1)" using Some by (cases r) auto
    then have "echo_ok e1" "eb_mac e1 = eb_mac e" "eb_ip e1 = eb_ip e"
      using tcp_echo_data_keeps[OF assms, of t p] by (simp_all add: echo_keeps_def)
    with r show ?thesis
      using tcp_echo_data_keeps[OF assms, of t p] tcp_echo_close_keeps[of e1 ip t p] assms(2)
      by (auto simp: echo_keeps_def split: option.splits)
  qed (simp add: echo_keeps_def)
  have syn: "echo_keeps e (send_segment ip t fl sq ak [] (e\<lparr>eb_tcp_peer_seq := x, eb_tcp_established := True\<rparr>))" for t fl sq ak x
    using send_segment_keeps[of "e\<lparr>eb_tcp_peer_seq := x, eb_tcp_established := True\<rparr>" ip t fl sq ak "[]"] assms
    by (simp add: echo_keeps_upd)
  show ?thesis using assms(1) two syn by (simp add: handle_tcp_def Let_def)
qed

lemma handle_icmp_keeps:
  "echo_ok e \<Longrightarrow> length (ip_src ip) = 4 \<Longrightarrow> echo_keeps e (handle_icmp ip d e)"
  by (simp add: handle_icmp_def Let_def send_ipv4_keeps)

lemma handle_ipv4_keeps: "echo_ok e \<Longrightarrow> echo_keeps e (handle_ipv4 f e)"
  by (simp add: handle_ipv4_def Let_def handle_icmp_keeps handle_tcp_keeps ipv4_of_bytes_def ETH_HLEN_def)

lemma handle_arp_keeps: "echo_ok e \<Longrightarrow> echo_keeps e (handle_arp f e)"
  by (simp add: handle_arp_def Let_def arp_of_bytes_def arp_bytes_def send_frame_to_host_eq echo_keeps_send good_arp
      echo_ok_def ETH_HLEN_def)

lemma echo_send_frame_keeps:
  assumes "echo_ok e"
  shows "echo_keeps e (echo_send_frame d e)"
proof -
  let ?e = "(count_rx (length d) e)\<lparr>eb_peer_mac := eth_src (eth_of_bytes d)\<rparr>"
  have k: "echo_keeps ?e r \<Longrightarrow> echo_keeps e r" for r by (auto simp: echo_keeps_def count_rx_def split: option.splits)
  have short: "echo_keeps e (Some ([], count_rx (length d) e))"
    using assms by (simp add: echo_keeps_def echo_ok_def count_rx_def)
  have ok: "echo_ok ?e" if "\<not> length d < ETH_HLEN"
    using assms that by (simp add: echo_ok_def count_rx_def eth_of_bytes_def ETH_HLEN_def)
  show ?thesis
    using k[OF handle_arp_keeps[OF ok]] k[OF handle_ipv4_keeps[OF ok]] k[OF echo_keeps_none[OF ok]] short
    by (simp add: echo_send_frame_def handle_frame_def Let_def)
qed

text \<open>Which frames make a copy run over the end of an array.\<close>

lemma send_segment_None:
  assumes "length (eb_ip e) = 4" "length (ip_src ip) = 4"
  shows "send_segment ip t fl sq ak p e = None \<longleftrightarrow> 1480 < length p"
  using assms by (auto simp: send_segment_def Let_def send_ipv4_None net_sizes tcp_bytes_def)

lemma tcp_echo_data_None:
  assumes "echo_ok e" "length (ip_src ip) = 4"
  shows "tcp_echo_data ip t p e = None \<longleftrightarrow> 1480 < length p"
  using assms send_segment_None[of "e\<lparr>eb_tcp_peer_seq := bswap32 (tcp_seq t) + of_nat (length p)\<rparr>" ip t
      "TCP_FLAG_PSH OR TCP_FLAG_ACK" "eb_tcp_my_seq e" "bswap32 (tcp_seq t) + of_nat (length p)" p]
  by (auto simp: tcp_echo_data_def Let_def echo_ok_def split: option.splits)

lemma tcp_echo_close_Some:
  assumes "echo_ok e" "length (ip_src ip) = 4"
  shows "tcp_echo_close ip t p e \<noteq> None"
  using assms send_segment_None[of "e\<lparr>eb_tcp_peer_seq := bswap32 (tcp_seq t) + of_nat (length p) + 1\<rparr>" ip t
      "TCP_FLAG_ACK OR TCP_FLAG_FIN" "eb_tcp_my_seq e" "bswap32 (tcp_seq t) + of_nat (length p) + 1" "[]"]
  by (auto simp: tcp_echo_close_def Let_def echo_ok_def split: option.splits)

lemma handle_tcp_None:
  assumes "echo_ok e" "length (ip_src ip) = 4" "handle_tcp ip tcp e = None"
  shows "1500 < length tcp"
proof -
  have syn: "send_segment ip t fl sq ak [] (e\<lparr>eb_tcp_peer_seq := x, eb_tcp_established := True\<rparr>) \<noteq> None" for t fl sq ak x
    using assms(1,2) by (simp add: send_segment_None echo_ok_def del: not_None_eq)
  have c: "tcp_echo_close ip t p e1 \<noteq> None" if "tcp_echo_data ip t p e = Some (out, e1)" for t p out e1
    using tcp_echo_data_keeps[OF assms(1,2), of t p] that tcp_echo_close_Some[of e1 ip t p] assms(2)
    by (simp add: echo_keeps_def del: not_None_eq)
  have est: "1480 < length p" if "(case tcp_echo_data ip t p e of None \<Rightarrow> None
      | Some (out, e1) \<Rightarrow> (case tcp_echo_close ip t p e1 of None \<Rightarrow> None | Some (out', e2) \<Rightarrow> Some (out @ out', e2))) = None"
    for t p
    using that c[of t p] tcp_echo_data_None[OF assms(1,2), of t p] by (auto split: option.splits)
  show ?thesis
    using assms(3) syn
      est[of "tcp_of_bytes tcp" "drop (unat (drop_bit 4 (tcp_offset_flags_hi (tcp_of_bytes tcp))) * 4) tcp"]
    by (simp add: handle_tcp_def Let_def del: not_None_eq split: if_splits)
qed

lemma handle_icmp_Some: "echo_ok e \<Longrightarrow> length (ip_src ip) = 4 \<Longrightarrow> handle_icmp ip d e \<noteq> None"
  by (simp add: handle_icmp_def Let_def send_ipv4_None echo_ok_def icmp_bytes_def TCP_MAX_PAYLOAD_def del: not_None_eq)
     arith

lemma handle_arp_Some: "echo_ok e \<Longrightarrow> handle_arp f e \<noteq> None"
  by (simp add: handle_arp_def Let_def send_frame_to_host_None arp_bytes_def arp_of_bytes_def echo_ok_def ETH_HLEN_def
      del: not_None_eq)

lemma handle_ipv4_None:
  assumes "echo_ok e" "handle_ipv4 f e = None"
  shows "1534 < length f"
proof -
  let ?ip = "ipv4_of_bytes (drop 14 f)"
  let ?ihl = "unat (ip_version_ihl ?ip AND 0x0F) * 4"
  let ?p = "take (unat (bswap16 (ip_total_len ?ip)) - ?ihl) (drop (14 + ?ihl) f)"
  have src: "length (ip_src ?ip) = 4" if "34 \<le> length f" using that by (simp add: ipv4_of_bytes_def)
  have i: "handle_icmp ?ip ?p e \<noteq> None" if "34 \<le> length f" by (rule handle_icmp_Some[OF assms(1) src[OF that]])
  have "34 \<le> length f \<and> 20 \<le> ?ihl \<and> handle_tcp ?ip ?p e = None"
    using assms(2) i by (simp add: handle_ipv4_def Let_def net_sizes del: not_None_eq split: if_splits)
  then have "1500 < length ?p" and "20 \<le> ?ihl" using handle_tcp_None[OF assms(1) src] by blast+
  moreover have "length ?p \<le> length f - (14 + ?ihl)" by simp
  ultimately show ?thesis by linarith
qed

lemma echo_send_frame_Some:
  assumes "echo_ok e" "length d \<le> 1534"
  shows "echo_send_frame d e \<noteq> None"
proof -
  let ?e = "(count_rx (length d) e)\<lparr>eb_peer_mac := eth_src (eth_of_bytes d)\<rparr>"
  have ok: "echo_ok ?e" if "\<not> length d < ETH_HLEN"
    using assms that by (simp add: echo_ok_def count_rx_def eth_of_bytes_def ETH_HLEN_def)
  then show ?thesis
    using handle_arp_Some[OF ok, of d] handle_ipv4_None[OF ok, of d] assms(2)
    by (auto simp: echo_send_frame_def handle_frame_def Let_def simp del: not_None_eq)
qed

section \<open>What a host sends\<close>

text \<open>Headers read back as they were written.\<close>

lemma ipv4_of_bytes_bytes:
  assumes "length (ip_src h) = 4" "length (ip_dst h) = 4"
  shows "ipv4_of_bytes (ipv4_bytes h @ r) = h"
  using assms by (simp add: ipv4_of_bytes_def ipv4_bytes_def nth_append)

lemma icmp_of_bytes_bytes: "icmp_of_bytes (icmp_bytes h @ r) = h"
  by (simp add: icmp_of_bytes_def icmp_bytes_def nth_append)

lemma tcp_of_bytes_bytes: "tcp_of_bytes (tcp_bytes h @ r) = h"
  by (simp add: tcp_of_bytes_def tcp_bytes_def nth_append)

lemma length_headers [simp]: "length (icmp_bytes i) = 8" "length (tcp_bytes t) = 20"
  by (simp_all add: icmp_bytes_def tcp_bytes_def)

text \<open>An IPv4 packet without options for the device, in an Ethernet frame.\<close>

definition host_header :: "data \<Rightarrow> u8 \<Rightarrow> nat \<Rightarrow> Ipv4Header \<Rightarrow> bool" where
  "host_header ip proto n h \<longleftrightarrow>
     length (ip_src h) = 4 \<and> ip_dst h = ip \<and> ip_proto h = proto \<and> ip_version_ihl h = 0x45 \<and>
     ip_total_len h = bswap16 (of_nat (20 + n))"

lemma echo_send_frame_ipv4:
  assumes "echo_ok e" "length src = 6" "length dst = 6" "host_header (eb_ip e) proto (length p) h" "length p \<le> 65000"
  shows "echo_send_frame (eth_frame dst src ETH_TYPE_IPV4 (ipv4_bytes h @ p)) e =
     (let f = eth_frame dst src ETH_TYPE_IPV4 (ipv4_bytes h @ p);
          e1 = (count_rx (length f) e)\<lparr>eb_peer_mac := src\<rparr>
      in if proto = IP_PROTO_ICMP then handle_icmp h p e1
         else if proto = IP_PROTO_TCP then handle_tcp h p e1 else Some ([], e1))"
proof -
  define f where "f = eth_frame dst src ETH_TYPE_IPV4 (ipv4_bytes h @ p)"
  have h: "length (ip_src h) = 4" "length (ip_dst h) = 4" using assms(1,4) by (auto simp: host_header_def echo_ok_def)
  have d: "drop 14 f = ipv4_bytes h @ p @ replicate (46 - (20 + length p)) 0"
    using assms(2,3) h by (simp add: eth_frame_parts f_def)
  have d34: "take (length p) (drop 34 f) = p"
    using arg_cong[OF d, of "drop 20"] h by simp
  have n: "unat (of_nat (20 + length p) :: u16) = 20 + length p" using assms(5) by (intro unat_of_nat_u16) simp
  have l: "length f = max 60 (34 + length p)" using assms(2,3) h by (simp add: eth_frame_parts f_def)
  have eth: "eth_of_bytes f = \<lparr>eth_dst = dst, eth_src = src, eth_ethertype = bswap16 ETH_TYPE_IPV4\<rparr>"
    using assms(2,3) by (simp add: eth_frame_parts f_def)
  have ip: "ipv4_of_bytes (drop 14 f) = h" using h by (simp add: d ipv4_of_bytes_bytes)
  have tl: "unat (bswap16 (ip_total_len h)) = 20 + length p" using assms(4) n by (simp add: host_header_def)
  have "ip_version_ihl h = 0x45" "ip_dst h = eb_ip e" "ip_proto h = proto" using assms(4) by (simp_all add: host_header_def)
  then have v: "handle_ipv4 f e1 = (if proto = IP_PROTO_ICMP then handle_icmp h p e1
      else if proto = IP_PROTO_TCP then handle_tcp h p e1 else Some ([], e1))" if "eb_ip e1 = eb_ip e" for e1
    using that by (simp add: handle_ipv4_def Let_def ip tl l d34 net_sizes)
  show ?thesis
    unfolding f_def[symmetric]
    by (simp add: echo_send_frame_def handle_frame_def Let_def eth ETH_HLEN_def l v count_rx_def)
       (simp add: ETH_TYPE_ARP_def ETH_TYPE_IPV4_def)
qed


section \<open>Ping\<close>

text \<open>What a receiver finds in an IPv4 frame: the header, and the message within the length of the header.\<close>

definition frame_ip :: "data \<Rightarrow> Ipv4Header" where
  "frame_ip f = ipv4_of_bytes (drop 14 f)"

definition frame_msg :: "data \<Rightarrow> data" where
  "frame_msg f = take (unat (bswap16 (ip_total_len (frame_ip f))) - 20) (drop 34 f)"

lemma reply_frame_parts:
  assumes "length dst = 6" "length mac = 6" "length ip = 4" "length pip = 4" "length p \<le> 1500"
  shows "frame_msg (eth_frame dst mac ETH_TYPE_IPV4 (ipv4_packet proto ip pip p)) = p"
    and "ip_proto (frame_ip (eth_frame dst mac ETH_TYPE_IPV4 (ipv4_packet proto ip pip p))) = proto"
    and "ip_src (frame_ip (eth_frame dst mac ETH_TYPE_IPV4 (ipv4_packet proto ip pip p))) = ip"
    and "ip_dst (frame_ip (eth_frame dst mac ETH_TYPE_IPV4 (ipv4_packet proto ip pip p))) = pip"
proof -
  let ?f = "eth_frame dst mac ETH_TYPE_IPV4 (ipv4_packet proto ip pip p)"
  have d: "drop 14 ?f = ipv4_packet proto ip pip p @ replicate (46 - (20 + length p)) 0"
    using assms by (simp add: eth_frame_parts)
  have h: "drop 20 (ipv4_packet proto ip pip p) = p"
    using assms by (simp add: ipv4_packet_def Let_def ipv4_reply_header_def)
  have "drop 34 ?f = p @ replicate (46 - (20 + length p)) 0"
    using arg_cong[OF d, of "drop 20"] h assms by simp
  moreover have "unat (of_nat (20 + length p) :: u16) = 20 + length p"
    using assms(5) by (intro unat_of_nat_u16) simp
  ultimately show "frame_msg ?f = p" "ip_proto (frame_ip ?f) = proto" "ip_src (frame_ip ?f) = ip" "ip_dst (frame_ip ?f) = pip"
    using assms by (simp_all add: frame_msg_def frame_ip_def d ipv4_of_packet)
qed

definition is_echo_reply :: "data \<Rightarrow> data \<Rightarrow> data \<Rightarrow> data \<Rightarrow> IcmpEchoHeader \<Rightarrow> data \<Rightarrow> data \<Rightarrow> bool" where
  "is_echo_reply mac ip peer_mac peer_ip i d f \<longleftrightarrow>
     good_frame mac ip f \<and> eth_dst (eth_of_bytes f) = peer_mac \<and> bswap16 (eth_ethertype (eth_of_bytes f)) = ETH_TYPE_IPV4 \<and>
     ip_proto (frame_ip f) = IP_PROTO_ICMP \<and> ip_dst (frame_ip f) = peer_ip \<and> checksum (frame_msg f) 0 = 0 \<and>
     icmp_type (icmp_of_bytes (frame_msg f)) = ICMP_ECHO_REPLY \<and> icmp_code (icmp_of_bytes (frame_msg f)) = 0 \<and>
     icmp_id (icmp_of_bytes (frame_msg f)) = icmp_id i \<and> icmp_seq (icmp_of_bytes (frame_msg f)) = icmp_seq i \<and>
     drop 8 (frame_msg f) = d"

definition icmp_reply :: "IcmpEchoHeader \<Rightarrow> data \<Rightarrow> data" where
  "icmp_reply i d =
     (let hdr = i\<lparr>icmp_type := ICMP_ECHO_REPLY, icmp_checksum := 0\<rparr>
      in icmp_bytes (hdr\<lparr>icmp_checksum := bswap16 (checksum (icmp_bytes hdr @ d) 0)\<rparr>) @ d)"

lemma icmp_reply_verifies:
  assumes "length d \<le> 60000"
  shows "checksum (icmp_reply i d) 0 = 0"
proof -
  let ?xs = "[ICMP_ECHO_REPLY, icmp_code i]" and ?ys = "le_bytes (icmp_id i) @ le_bytes (icmp_seq i) @ d"
  have z: "icmp_bytes (i\<lparr>icmp_type := ICMP_ECHO_REPLY, icmp_checksum := 0\<rparr>) @ d = ?xs @ [0, 0] @ ?ys"
    by (simp add: icmp_bytes_def le_bytes_def upt_rec)
  have "icmp_reply i d = ?xs @ be_bytes (checksum (?xs @ [0, 0] @ ?ys) 0) @ ?ys"
    unfolding icmp_reply_def Let_def z by (simp add: icmp_bytes_def)
  also have "checksum \<dots> 0 = 0" by (rule checksum_verifies) (use assms in simp_all)
  finally show ?thesis .
qed

lemma ping_reply:
  assumes "echo_ok e" "nb_callback e" "length src = 6" "length dst = 6" "length d \<le> 1492"
    "host_header (eb_ip e) IP_PROTO_ICMP (8 + length d) h" "icmp_type i = ICMP_ECHO_REQUEST" "icmp_code i = 0"
  shows "\<exists>f e'. echo_send_frame (eth_frame dst src ETH_TYPE_IPV4 (ipv4_bytes h @ icmp_bytes i @ d)) e = Some ([f], e') \<and>
     is_echo_reply (eb_mac e) (eb_ip e) src (ip_src h) i d f"
proof -
  let ?g = "eth_frame dst src ETH_TYPE_IPV4 (ipv4_bytes h @ icmp_bytes i @ d)"
  let ?e = "(count_rx (length ?g) e)\<lparr>eb_peer_mac := src\<rparr>"
  let ?f = "eth_frame src (eb_mac e) ETH_TYPE_IPV4 (ipv4_packet IP_PROTO_ICMP (eb_ip e) (ip_src h) (icmp_reply i d))"
  have s: "length (ip_src h) = 4" using assms(6) by (simp add: host_header_def)
  have l: "length (icmp_reply i d) = 8 + length d" by (simp add: icmp_reply_def Let_def)
  have e: "eb_mac ?e = eb_mac e" "eb_ip ?e = eb_ip e" "eb_peer_mac ?e = src" "nb_callback ?e"
    using assms(2) by (simp_all add: count_rx_def)
  have "echo_send_frame ?g e = handle_icmp h (icmp_bytes i @ d) ?e"
    using echo_send_frame_ipv4[of e src dst IP_PROTO_ICMP "icmp_bytes i @ d" h] assms by (simp add: Let_def)
  also have "\<dots> = send_ipv4 IP_PROTO_ICMP (ip_src h) (icmp_reply i d) ?e"
    using assms(5,7,8) by (simp add: handle_icmp_def icmp_of_bytes_bytes TCP_MAX_PAYLOAD_def icmp_reply_def Let_def)
  also have "\<dots> = Some (send_to_host ?f ?e)"
    using assms s e by (subst send_ipv4_eq) (simp_all add: l echo_ok_def)
  finally have out: "echo_send_frame ?g e = Some ([?f], snd (send_to_host ?f ?e))"
    using e(4) by (simp add: send_to_host_def)
  have i: "icmp_type (icmp_of_bytes (icmp_reply i d)) = ICMP_ECHO_REPLY" "icmp_code (icmp_of_bytes (icmp_reply i d)) = icmp_code i"
    "icmp_id (icmp_of_bytes (icmp_reply i d)) = icmp_id i" "icmp_seq (icmp_of_bytes (icmp_reply i d)) = icmp_seq i"
    "drop 8 (icmp_reply i d) = d"
    by (simp_all add: icmp_reply_def Let_def icmp_of_bytes_bytes)
  have sizes: "length (eb_mac e) = 6" "length (eb_ip e) = 4" "length (icmp_reply i d) \<le> 1500"
    using assms(1,5) l by (simp_all add: echo_ok_def)
  have "is_echo_reply (eb_mac e) (eb_ip e) src (ip_src h) i d ?f"
    unfolding is_echo_reply_def reply_frame_parts[OF assms(3) sizes(1,2) s sizes(3)]
    using i assms(5,8) icmp_reply_verifies[of d i] good_ipv4[OF assms(3) sizes(1,2) s sizes(3)]
      eth_frame_parts(1)[OF assms(3) sizes(1)]
    by simp
  with out show ?thesis by blast
qed

end
