(* ===== verification/Ethernet_Props.thy ===== *)
theory Ethernet_Props
  imports Ethernet_Echo
begin

text \<open>
  What the echo service gives a host: the frames it sends are well formed, TCP data comes back in
  order, and the limit on the size of the data it can answer.
\<close>

section \<open>TCP\<close>

lemma unat_add_le: "unat (a + b) \<le> unat a + unat (b :: 'a::len word)"
  by (simp add: unat_word_ariths(1))

lemma unat_ucast16_le: "unat (ucast (w :: u16) :: u32) \<le> 65535"
  using unat_bound[of w] by (simp add: unsigned_ucast_eq take_bit_eq_mod)

lemma tcp_pseudo_small:
  assumes "n \<le> 65535"
  shows "unat (tcp_pseudo src dst n) < 2 ^ 31"
proof -
  have "unat (of_nat n :: u32) = n" using assms by (simp add: unat_of_nat)
  moreover have "unat (ucast IP_PROTO_TCP :: u32) = 6" by (simp add: IP_PROTO_TCP_def)
  ultimately have "unat (tcp_pseudo src dst n) \<le> 65535 + 65535 + 65535 + 65535 + 6 + n"
    unfolding tcp_pseudo_def
    by (intro order_trans[OF unat_add_le] add_mono unat_ucast16_le) simp_all
  then show ?thesis using assms by simp
qed

lemma tcp_pseudo_sym: "tcp_pseudo src dst n = tcp_pseudo dst src n"
  by (simp add: tcp_pseudo_def)

text \<open>What a receiver finds in a segment: its numbers, flags and data; and whether it verifies.\<close>

definition seg_view :: "data \<Rightarrow> u32 \<times> u32 \<times> u8 \<times> data" where
  "seg_view f =
     (let t = tcp_of_bytes (frame_msg f)
      in (bswap32 (tcp_seq t), bswap32 (tcp_ack t), tcp_flags t, drop 20 (frame_msg f)))"

definition seg_valid :: "data \<Rightarrow> data \<Rightarrow> u16 \<Rightarrow> data \<Rightarrow> bool" where
  "seg_valid mac ip port f \<longleftrightarrow>
     good_frame mac ip f \<and> ip_proto (frame_ip f) = IP_PROTO_TCP \<and>
     bswap16 (tcp_src_port (tcp_of_bytes (frame_msg f))) = port \<and>
     checksum (frame_msg f) (tcp_pseudo (ip_src (frame_ip f)) (ip_dst (frame_ip f)) (length (frame_msg f))) = 0"

lemma bswap32_bswap32 [simp]: "bswap32 (bswap32 v) = v"
proof -
  have "le_bytes (word_of_le (rev (le_bytes v)) :: u32) = rev (le_bytes v)" by (rule le_bytes_word_of_le) simp
  then show ?thesis by (simp add: bswap32_def byteswap_def)
qed

lemma send_segment_spec:
  assumes "echo_ok e" "nb_callback e" "length (ip_src ip) = 4" "ip_dst ip = eb_ip e" "length p \<le> 1480"
  shows "\<exists>f. send_segment ip t fl sq ak p e = Some ([f], snd (send_to_host f e)) \<and>
     seg_view f = (sq, ak, fl, p) \<and> seg_valid (eb_mac e) (eb_ip e) (eb_tcp_port e) f"
proof -
  define hdr where "hdr = \<lparr>tcp_src_port = bswap16 (eb_tcp_port e), tcp_dst_port = tcp_src_port t,
                 tcp_seq = bswap32 sq, tcp_ack = bswap32 ak, tcp_offset_flags_hi = push_bit 4 5,
                 tcp_flags = fl, tcp_window = bswap16 4096, tcp_checksum = 0, tcp_urgent = 0\<rparr>"
  let ?ps = "tcp_pseudo (ip_src ip) (ip_dst ip) (20 + length p)"
  let ?xs = "be_bytes (eb_tcp_port e) @ le_bytes (tcp_src_port t) @ be_bytes sq @ be_bytes ak @ [push_bit 4 5, fl] @
      be_bytes (4096 :: u16)"
  define hdr' where "hdr' = hdr\<lparr>tcp_checksum := bswap16 (checksum (tcp_bytes hdr @ p) ?ps)\<rparr>"
  define m where "m = tcp_bytes hdr' @ p"
  let ?f = "eth_frame (eb_peer_mac e) (eb_mac e) ETH_TYPE_IPV4 (ipv4_packet IP_PROTO_TCP (eb_ip e) (ip_src ip) m)"
  have sz: "length (eb_peer_mac e) = 6" "length (eb_mac e) = 6" "length (eb_ip e) = 4" "length m \<le> 1500"
    using assms(1,5) by (simp_all add: echo_ok_def m_def)
  have "send_segment ip t fl sq ak p e = send_ipv4 IP_PROTO_TCP (ip_src ip) m e"
    using assms(5) by (simp add: send_segment_def Let_def m_def hdr'_def hdr_def net_sizes)
  also have "\<dots> = Some ([?f], snd (send_to_host ?f e))"
    using assms(2) by (subst send_ipv4_eq[OF sz(1-3) assms(3) sz(4)]) (simp add: send_to_host_def)
  finally have out: "send_segment ip t fl sq ak p e = Some ([?f], snd (send_to_host ?f e))" .
  have z: "tcp_bytes hdr @ p = ?xs @ [0, 0] @ [0, 0] @ p"
    by (simp add: tcp_bytes_def hdr_def) (simp add: le_bytes_def upt_rec)
  have "m = ?xs @ be_bytes (checksum (?xs @ [0, 0] @ [0, 0] @ p) ?ps) @ [0, 0] @ p"
    unfolding m_def hdr'_def z by (simp add: tcp_bytes_def hdr_def) (simp add: le_bytes_def upt_rec)
  moreover have "checksum (?xs @ be_bytes (checksum (?xs @ [0, 0] @ [0, 0] @ p) ?ps) @ [0, 0] @ p) ?ps = 0"
    by (rule checksum_verifies) (use assms(5) tcp_pseudo_small[of "20 + length p"] in simp_all)
  ultimately have c: "checksum m ?ps = 0" by simp
  note parts = reply_frame_parts[OF sz(1-3) assms(3) sz(4), of IP_PROTO_TCP]
  have h: "tcp_of_bytes m = hdr'" by (simp add: m_def tcp_of_bytes_bytes)
  have "seg_view ?f = (sq, ak, fl, p)"
    unfolding seg_view_def parts h by (simp add: hdr'_def hdr_def m_def)
  moreover have "seg_valid (eb_mac e) (eb_ip e) (eb_tcp_port e) ?f"
    unfolding seg_valid_def parts h
    using good_ipv4[OF sz(1-3) assms(3) sz(4)] c assms(4) tcp_pseudo_sym[of "eb_ip e" "ip_src ip"]
    by (simp add: hdr'_def hdr_def m_def)
  ultimately show ?thesis using out by blast
qed


text \<open>A host's segment: no options, for the port of the service, without FIN.\<close>

definition host_segment :: "data \<Rightarrow> u16 \<Rightarrow> u32 \<Rightarrow> Ipv4Header \<times> TcpHeader \<times> data \<Rightarrow> bool" where
  "host_segment ip port sq seg =
     (case seg of (h, t, p) \<Rightarrow>
        host_header ip IP_PROTO_TCP (20 + length p) h \<and> bswap16 (tcp_dst_port t) = port \<and> bswap32 (tcp_seq t) = sq \<and>
        tcp_offset_flags_hi t = 0x50 \<and> tcp_flags t AND TCP_FLAG_FIN = 0 \<and> p \<noteq> [] \<and> length p \<le> 1480)"

definition segment_frame :: "data \<Rightarrow> data \<Rightarrow> Ipv4Header \<times> TcpHeader \<times> data \<Rightarrow> data" where
  "segment_frame dst src seg = (case seg of (h, t, p) \<Rightarrow> eth_frame dst src ETH_TYPE_IPV4 (ipv4_bytes h @ tcp_bytes t @ p))"

text \<open>Segments in order from \<open>sq\<close> on.\<close>

fun host_stream :: "data \<Rightarrow> u16 \<Rightarrow> u32 \<Rightarrow> (Ipv4Header \<times> TcpHeader \<times> data) list \<Rightarrow> bool" where
  "host_stream ip port sq [] = True"
| "host_stream ip port sq (seg # segs) =
     (host_segment ip port sq seg \<and> host_stream ip port (sq + of_nat (length (snd (snd seg)))) segs)"

text \<open>The segments that echo them, from the device's number \<open>m\<close> on.\<close>

fun echo_stream :: "u32 \<Rightarrow> u32 \<Rightarrow> data list \<Rightarrow> (u32 \<times> u32 \<times> u8 \<times> data) list" where
  "echo_stream m sq [] = []"
| "echo_stream m sq (p # ps) =
     (m, sq + of_nat (length p), TCP_FLAG_PSH OR TCP_FLAG_ACK, p) #
     echo_stream (m + of_nat (length p)) (sq + of_nat (length p)) ps"

text \<open>Frames handed to the backend one after the other.\<close>

fun echo_frames :: "data list \<Rightarrow> EthernetEchoBackend \<Rightarrow> echo_result" where
  "echo_frames [] e = Some ([], e)"
| "echo_frames (f # fs) e =
     (case echo_send_frame f e of
        None \<Rightarrow> None
      | Some (out, e1) \<Rightarrow> map_option (\<lambda>(out', e2). (out @ out', e2)) (echo_frames fs e1))"

lemma echo_segment:
  assumes "echo_ok e" "nb_callback e" "eb_tcp_established e" "length src = 6" "length dst = 6"
    "host_segment (eb_ip e) (eb_tcp_port e) sq (h, t, p)"
  shows "\<exists>f e'. echo_send_frame (segment_frame dst src (h, t, p)) e = Some ([f], e') \<and>
     seg_view f = (eb_tcp_my_seq e, sq + of_nat (length p), TCP_FLAG_PSH OR TCP_FLAG_ACK, p) \<and>
     seg_valid (eb_mac e) (eb_ip e) (eb_tcp_port e) f \<and> echo_ok e' \<and> nb_callback e' \<and> eb_tcp_established e' \<and>
     eb_mac e' = eb_mac e \<and> eb_ip e' = eb_ip e \<and> eb_tcp_port e' = eb_tcp_port e \<and>
     eb_tcp_my_seq e' = eb_tcp_my_seq e + of_nat (length p)"
proof -
  let ?g = "segment_frame dst src (h, t, p)"
  let ?e = "(count_rx (length ?g) e)\<lparr>eb_peer_mac := src\<rparr>"
  let ?e1 = "?e\<lparr>eb_tcp_peer_seq := sq + of_nat (length p)\<rparr>"
  have seg: "host_header (eb_ip e) IP_PROTO_TCP (20 + length p) h" "bswap16 (tcp_dst_port t) = eb_tcp_port e"
    "bswap32 (tcp_seq t) = sq" "tcp_offset_flags_hi t = 0x50" "tcp_flags t AND TCP_FLAG_FIN = 0" "p \<noteq> []" "length p \<le> 1480"
    using assms(6) by (simp_all add: host_segment_def)
  have ip: "length (ip_src h) = 4" "ip_dst h = eb_ip e" using seg(1) by (simp_all add: host_header_def)
  have ok: "echo_ok ?e1" "nb_callback ?e1" "ip_dst h = eb_ip ?e1"
    using assms(1,2,4) ip(2) by (simp_all add: echo_ok_def count_rx_def)
  obtain f where f: "send_segment h t (TCP_FLAG_PSH OR TCP_FLAG_ACK) (eb_tcp_my_seq e) (sq + of_nat (length p)) p ?e1 =
      Some ([f], snd (send_to_host f ?e1))"
    "seg_view f = (eb_tcp_my_seq e, sq + of_nat (length p), TCP_FLAG_PSH OR TCP_FLAG_ACK, p)"
    "seg_valid (eb_mac ?e1) (eb_ip ?e1) (eb_tcp_port ?e1) f"
    using send_segment_spec[OF ok(1,2) ip(1) ok(3) seg(7)] by blast
  let ?e2 = "(snd (send_to_host f ?e1))\<lparr>eb_tcp_my_seq := eb_tcp_my_seq e + of_nat (length p)\<rparr>"
  have "tcp_echo_data h t p ?e = Some ([f], ?e2)"
    using seg(3,6) f(1) by (simp add: tcp_echo_data_def Let_def count_rx_def)
  moreover have "tcp_echo_close h t p ?e2 = Some ([], ?e2)"
    using seg(5,6) by (simp add: tcp_echo_close_def)
  ultimately have "handle_tcp h (tcp_bytes t @ p) ?e = Some ([f], ?e2)"
    using assms(3) seg(2,4) by (simp add: handle_tcp_def tcp_of_bytes_bytes Let_def count_rx_def)
  then have "echo_send_frame ?g e = Some ([f], ?e2)"
    using echo_send_frame_ipv4[of e src dst IP_PROTO_TCP "tcp_bytes t @ p" h] assms(1,4,5) seg(1,7)
    by (simp add: segment_frame_def Let_def IP_PROTO_ICMP_def IP_PROTO_TCP_def)
  moreover have "echo_ok ?e2" using ok(1) by (simp add: echo_ok_def)
  ultimately show ?thesis using f(2,3) assms(2,3) by (intro exI[of _ f] exI[of _ ?e2]) (simp add: count_rx_def)
qed


lemma echo_stream_run:
  assumes "length src = 6" "length dst = 6"
  shows "echo_ok e \<Longrightarrow> nb_callback e \<Longrightarrow> eb_tcp_established e \<Longrightarrow> host_stream (eb_ip e) (eb_tcp_port e) sq segs \<Longrightarrow>
     \<exists>outs e'. echo_frames (map (segment_frame dst src) segs) e = Some (outs, e') \<and>
       map seg_view outs = echo_stream (eb_tcp_my_seq e) sq (map (\<lambda>s. snd (snd s)) segs) \<and>
       (\<forall>f \<in> set outs. seg_valid (eb_mac e) (eb_ip e) (eb_tcp_port e) f)"
proof (induction segs arbitrary: e sq)
  case (Cons seg segs)
  obtain h t p where seg: "seg = (h, t, p)" by (cases seg)
  have "host_segment (eb_ip e) (eb_tcp_port e) sq (h, t, p)" using Cons.prems(4) seg by simp
  from echo_segment[OF Cons.prems(1-3) assms this] obtain f e1 where
    f: "echo_send_frame (segment_frame dst src seg) e = Some ([f], e1)"
      "seg_view f = (eb_tcp_my_seq e, sq + of_nat (length p), TCP_FLAG_PSH OR TCP_FLAG_ACK, p)"
      "seg_valid (eb_mac e) (eb_ip e) (eb_tcp_port e) f"
    and e1: "echo_ok e1" "nb_callback e1" "eb_tcp_established e1" "eb_mac e1 = eb_mac e" "eb_ip e1 = eb_ip e"
      "eb_tcp_port e1 = eb_tcp_port e" "eb_tcp_my_seq e1 = eb_tcp_my_seq e + of_nat (length p)"
    using seg by blast
  have "host_stream (eb_ip e1) (eb_tcp_port e1) (sq + of_nat (length p)) segs" using Cons.prems(4) e1 seg by simp
  from Cons.IH[OF e1(1-3) this] obtain outs e2 where
    "echo_frames (map (segment_frame dst src) segs) e1 = Some (outs, e2)"
    "map seg_view outs = echo_stream (eb_tcp_my_seq e1) (sq + of_nat (length p)) (map (\<lambda>s. snd (snd s)) segs)"
    "\<forall>f \<in> set outs. seg_valid (eb_mac e1) (eb_ip e1) (eb_tcp_port e1) f"
    by blast
  with f e1 seg show ?case by (intro exI[of _ "f # outs"] exI[of _ e2]) simp
qed simp

text \<open>The handshake.\<close>

lemma handshake:
  assumes "echo_ok e" "nb_callback e" "\<not> eb_tcp_established e" "length (ip_src h) = 4" "ip_dst h = eb_ip e"
    "bswap16 (tcp_dst_port t) = eb_tcp_port e" "tcp_offset_flags_hi t = 0x50" "tcp_flags t AND TCP_FLAG_SYN \<noteq> 0"
  shows "\<exists>f. handle_tcp h (tcp_bytes t) e = Some ([f], snd (send_to_host f
       (e\<lparr>eb_tcp_peer_seq := bswap32 (tcp_seq t) + 1, eb_tcp_established := True\<rparr>))) \<and>
     seg_view f = (eb_tcp_my_seq e, bswap32 (tcp_seq t) + 1, TCP_FLAG_SYN OR TCP_FLAG_ACK, [])"
  using send_segment_spec[of "e\<lparr>eb_tcp_peer_seq := bswap32 (tcp_seq t) + 1, eb_tcp_established := True\<rparr>" h "[]" t
      "TCP_FLAG_SYN OR TCP_FLAG_ACK" "eb_tcp_my_seq e" "bswap32 (tcp_seq t) + 1"] assms tcp_of_bytes_bytes[of t "[]"]
  by (auto simp: handle_tcp_def Let_def echo_ok_def)

section \<open>Properties\<close>


definition demo_backend :: EthernetEchoBackend where
  "demo_backend = (echo_backend_new [2, 0, 0, 0, 0, 1] [192, 168, 7, 2] 7)
     \<lparr>nb_callback := True, eb_tcp_established := True\<rparr>"

definition demo_segment :: "u32 \<Rightarrow> data \<Rightarrow> Ipv4Header \<times> TcpHeader \<times> data" where
  "demo_segment sq p =
     ((ipv4_reply_header IP_PROTO_TCP [192, 168, 7, 1] [192, 168, 7, 2] (20 + length p)),
      \<lparr>tcp_src_port = 0x3412, tcp_dst_port = bswap16 7, tcp_seq = bswap32 sq, tcp_ack = 0, tcp_offset_flags_hi = 0x50,
       tcp_flags = 0x18, tcp_window = 0, tcp_checksum = 0, tcp_urgent = 0\<rparr>, p)"

lemma demo_segment_ok:
  "p \<noteq> [] \<Longrightarrow> length p \<le> 1480 \<Longrightarrow> host_segment (eb_ip demo_backend) (eb_tcp_port demo_backend) sq (demo_segment sq p)"
  by (simp add: host_segment_def demo_segment_def host_header_def ipv4_reply_header_def demo_backend_def
      echo_backend_new_def TCP_FLAG_FIN_def IPV4_HLEN_def)


text \<open>Every frame of up to 1534 bytes is handled within the arrays the replies are built in, and what is
  sent back is a legal Ethernet frame from the device's address, with a verifying header checksum when
  it is IPv4.  The bound is exact: a connected host that sends a frame of 1535 bytes, with 1481 bytes of
  TCP data, makes the service write beyond the end of the array of the IPv4 packet.\<close>

theorem echo_buffer_bound:
  "(\<forall>d e. echo_ok e \<longrightarrow> length d \<le> 1534 \<longrightarrow>
      (\<exists>outs e'. echo_send_frame d e = Some (outs, e') \<and> echo_ok e' \<and>
         (\<forall>f \<in> set outs. good_frame (eb_mac e) (eb_ip e) f))) \<and>
   (\<exists>d e. echo_ok e \<and> length d = 1535 \<and> echo_send_frame d e = None)"
proof (intro conjI allI impI)
  fix d :: data and e
  assume a: "echo_ok e" "length d \<le> 1534"
  obtain outs e' where "echo_send_frame d e = Some (outs, e')" using echo_send_frame_Some[OF a] by auto
  then show "\<exists>outs e'. echo_send_frame d e = Some (outs, e') \<and> echo_ok e' \<and>
      (\<forall>f \<in> set outs. good_frame (eb_mac e) (eb_ip e) f)"
    using echo_send_frame_keeps[OF a(1), of d] by (simp add: echo_keeps_def)
next
  let ?p = "replicate 1481 (0 :: u8)" and ?src = "replicate 6 (1 :: u8)"
  obtain h t where ht: "demo_segment 0 ?p = (h, t, ?p)" by (simp add: demo_segment_def)
  let ?f = "eth_frame ?src ?src ETH_TYPE_IPV4 (ipv4_bytes h @ tcp_bytes t @ ?p)"
  let ?e = "(count_rx (length ?f) demo_backend)\<lparr>eb_peer_mac := ?src\<rparr>"
  have hdr: "host_header (eb_ip demo_backend) IP_PROTO_TCP (20 + 1481) h" "tcp_offset_flags_hi t = 0x50"
    "bswap16 (tcp_dst_port t) = eb_tcp_port demo_backend"
    using ht by (auto simp: demo_segment_def host_header_def ipv4_reply_header_def demo_backend_def echo_backend_new_def IPV4_HLEN_def)
  have ok: "echo_ok demo_backend" "echo_ok ?e" "eb_tcp_established ?e" "eb_tcp_port ?e = eb_tcp_port demo_backend"
    by (simp_all add: demo_backend_def echo_backend_new_def echo_ok_def count_rx_def)
  have src: "length (ip_src h) = 4" "length (ip_dst h) = 4"
    using hdr(1) ok(1) by (auto simp: host_header_def echo_ok_def)
  have "tcp_echo_data h t ?p ?e = None" using tcp_echo_data_None[OF ok(2) src(1)] by simp
  then have "handle_tcp h (tcp_bytes t @ ?p) ?e = None"
    using ok(3,4) hdr(2,3) by (simp add: handle_tcp_def tcp_of_bytes_bytes Let_def)
  then have "echo_send_frame ?f demo_backend = None"
    using echo_send_frame_ipv4[of demo_backend ?src ?src IP_PROTO_TCP "tcp_bytes t @ ?p" h] ok(1) hdr(1)
    by (simp add: Let_def IP_PROTO_ICMP_def IP_PROTO_TCP_def)
  moreover have "length ?f = 1535" using src by (simp add: eth_frame_parts)
  ultimately show "\<exists>d e. echo_ok e \<and> length d = 1535 \<and> echo_send_frame d e = None" using ok(1) by blast
qed

theorem echo_buffer_bound_witness:
  "\<exists>outs e'. echo_send_frame (replicate 60 0) demo_backend = Some (outs, e') \<and> echo_ok e'"
proof -
  have "echo_ok demo_backend" by (simp add: demo_backend_def echo_backend_new_def echo_ok_def)
  moreover have "length (replicate 60 0 :: data) \<le> 1534" by simp
  ultimately show ?thesis using echo_buffer_bound by blast
qed

text \<open>While a connection is open, another SYN is ignored, and nothing but a FIN closes the connection: RST
  does not, nor does the reset of the backend, which this class does not override.\<close>

lemma syn_ignored_when_established:
  assumes "eb_tcp_established e" "tcp_flags t AND TCP_FLAG_FIN = 0" "bswap32 (tcp_ack t) \<le> eb_tcp_my_seq e"
    "tcp_offset_flags_hi t = 0x50"
  shows "handle_tcp h (tcp_bytes t) e = Some ([], e)"
  using assms tcp_of_bytes_bytes[of t "[]"]
  by (simp add: handle_tcp_def Let_def tcp_echo_data_def tcp_echo_close_def)

end
