(* ===== verification/Rndis_Packet.thy ===== *)
theory Rndis_Packet
  imports Descriptors
begin

text \<open>
  RNDIS messages (\<open>RndisConstants.h\<close>) and the framing of the data channel: \<open>wrap_rndis_packet\<close> and
  \<open>unwrap_rndis_packets\<close>.  The headers are packed structures of 32-bit words, written little-endian and
  read by copying on a little-endian host; \<open>std::size_t\<close> has 64 bits, so the sums of a position and
  32-bit offsets do not wrap.
\<close>

section \<open>Constants\<close>

datatype RndisMessageType =
  Rm_Packet | Rm_Init | Rm_InitComplete | Rm_Halt | Rm_Query | Rm_QueryComplete | Rm_Set | Rm_SetComplete
| Rm_Reset | Rm_ResetComplete | Rm_Indicate | Rm_Keepalive | Rm_KeepaliveComplete

fun rndis_msg :: "RndisMessageType \<Rightarrow> u32" where
  "rndis_msg Rm_Packet = 0x00000001"
| "rndis_msg Rm_Init = 0x00000002"
| "rndis_msg Rm_InitComplete = 0x80000002"
| "rndis_msg Rm_Halt = 0x00000003"
| "rndis_msg Rm_Query = 0x00000004"
| "rndis_msg Rm_QueryComplete = 0x80000004"
| "rndis_msg Rm_Set = 0x00000005"
| "rndis_msg Rm_SetComplete = 0x80000005"
| "rndis_msg Rm_Reset = 0x00000006"
| "rndis_msg Rm_ResetComplete = 0x80000006"
| "rndis_msg Rm_Indicate = 0x00000007"
| "rndis_msg Rm_Keepalive = 0x00000008"
| "rndis_msg Rm_KeepaliveComplete = 0x80000008"

datatype RndisStatus = Rs_Success | Rs_MediaConnect | Rs_MediaDisconnect | Rs_NotSupported | Rs_InvalidData

fun rndis_status :: "RndisStatus \<Rightarrow> u32" where
  "rndis_status Rs_Success = 0x00000000"
| "rndis_status Rs_MediaConnect = 0x4001000B"
| "rndis_status Rs_MediaDisconnect = 0x4001000C"
| "rndis_status Rs_NotSupported = 0xC00000BB"
| "rndis_status Rs_InvalidData = 0xC0010015"

definition RNDIS_HOST_HEADER_LEN :: nat where "RNDIS_HOST_HEADER_LEN = 24"

section \<open>Packets\<close>

record RndisPacketHeader =
  rp_message_type :: u32
  rp_message_length :: u32
  rp_data_offset :: u32
  rp_data_length :: u32
  rp_oob_data_offset :: u32
  rp_oob_data_length :: u32
  rp_num_oob_data_elements :: u32
  rp_per_packet_info_offset :: u32
  rp_per_packet_info_length :: u32
  rp_vc_handle :: u32
  rp_reserved :: u32

definition RndisPacketHeader_append_to :: "RndisPacketHeader \<Rightarrow> data \<Rightarrow> data" where
  "RndisPacketHeader_append_to h d =
     vector_append_to_le d
       [F32 (rp_message_type h), F32 (rp_message_length h), F32 (rp_data_offset h), F32 (rp_data_length h),
        F32 (rp_oob_data_offset h), F32 (rp_oob_data_length h), F32 (rp_num_oob_data_elements h),
        F32 (rp_per_packet_info_offset h), F32 (rp_per_packet_info_length h), F32 (rp_vc_handle h), F32 (rp_reserved h)]"

definition wrap_rndis_packet :: "data \<Rightarrow> data" where
  "wrap_rndis_packet d =
     (let wrapped = RndisPacketHeader_append_to
            \<lparr>rp_message_type = 1, rp_message_length = of_nat (44 + length d), rp_data_offset = 36,
             rp_data_length = of_nat (length d), rp_oob_data_offset = 0, rp_oob_data_length = 0,
             rp_num_oob_data_elements = 0, rp_per_packet_info_offset = 0, rp_per_packet_info_length = 0,
             rp_vc_handle = 0, rp_reserved = 0\<rparr> [] @ d
      in if (44 + length d) mod 64 = 0 then wrapped @ [0] else wrapped)"

text \<open>A member of a structure at a position of the buffer.\<close>

definition le32_at :: "nat \<Rightarrow> data \<Rightarrow> u32" where
  "le32_at i d = word_of_le (take 4 (drop i d))"

definition data_start_offset :: "u32 \<Rightarrow> nat" where
  "data_start_offset data_offset = 8 + unat data_offset"

function unwrap_loop :: "data \<Rightarrow> nat \<Rightarrow> data list" where
  "unwrap_loop d pos =
     (if pos + RNDIS_HOST_HEADER_LEN \<le> length d
      then (let message_type = le32_at pos d; message_length = le32_at (pos + 4) d;
                frame_off = pos + data_start_offset (le32_at (pos + 8) d);
                frame_len = unat (le32_at (pos + 12) d)
            in if unat message_length < RNDIS_HOST_HEADER_LEN \<or> pos + unat message_length > length d then []
               else if message_type \<noteq> rndis_msg Rm_Packet then []
               else if frame_off + frame_len > length d then []
               else (if 14 \<le> frame_len then [take frame_len (drop frame_off d)] else []) @
                    unwrap_loop d (pos + unat message_length))
      else [])"
  by pat_completeness auto
termination by (relation "measure (\<lambda>(d, pos). length d - pos)") (auto simp: RNDIS_HOST_HEADER_LEN_def)

declare unwrap_loop.simps [simp del]

definition unwrap_rndis_packets :: "data \<Rightarrow> data list" where
  "unwrap_rndis_packets d = unwrap_loop d 0"

section \<open>Facts\<close>

lemma le32_at_append [simp]: "le32_at (length pre + i) (pre @ d) = le32_at i d"
  by (simp add: le32_at_def)

text \<open>A message of a host: the words of the header that are read, the eight bytes of the header that are
  not, a gap before the frame, the frame, and padding up to the length of the message.\<close>

definition host_packet :: "data \<times> data \<times> data \<times> data \<Rightarrow> data" where
  "host_packet m =
     (case m of (oob, gap, frame, pad) \<Rightarrow>
        le_bytes (rndis_msg Rm_Packet) @ le_bytes (of_nat (24 + length gap + length frame + length pad) :: u32) @
        le_bytes (of_nat (16 + length gap) :: u32) @ le_bytes (of_nat (length frame) :: u32) @ oob @ gap @ frame @ pad)"

fun host_packet_ok :: "data \<times> data \<times> data \<times> data \<Rightarrow> bool" where
  "host_packet_ok (oob, gap, frame, pad) \<longleftrightarrow>
     length oob = 8 \<and> 24 + length gap + length frame + length pad < 2 ^ 32"

fun packet_frame :: "data \<times> data \<times> data \<times> data \<Rightarrow> data" where
  "packet_frame (oob, gap, frame, pad) = frame"

lemma unat_of_nat_u32: "n < 2 ^ 32 \<Longrightarrow> unat (of_nat n :: u32) = n"
  by (simp add: unat_of_nat)

lemma host_packet_words:
  "le32_at 0 (host_packet (oob, gap, frame, pad) @ r) = rndis_msg Rm_Packet"
  "le32_at 4 (host_packet (oob, gap, frame, pad) @ r) = of_nat (24 + length gap + length frame + length pad)"
  "le32_at 8 (host_packet (oob, gap, frame, pad) @ r) = of_nat (16 + length gap)"
  "le32_at 12 (host_packet (oob, gap, frame, pad) @ r) = of_nat (length frame)"
  by (simp_all add: le32_at_def host_packet_def del: rndis_msg.simps of_nat_add)

lemma unwrap_step:
  assumes "host_packet_ok (oob, gap, frame, pad)"
    and d: "d = pre @ host_packet (oob, gap, frame, pad) @ rest"
  shows "unwrap_loop d (length pre) =
     (if 14 \<le> length frame then [frame] else []) @
     unwrap_loop d (length pre + length (host_packet (oob, gap, frame, pad)))"
proof -
  let ?m = "host_packet (oob, gap, frame, pad)"
  have oob: "length oob = 8" and n: "24 + length gap + length frame + length pad < 2 ^ 32" using assms(1) by simp_all
  have len: "length ?m = 24 + length gap + length frame + length pad" using oob by (simp add: host_packet_def)
  have words: "le32_at (length pre) d = rndis_msg Rm_Packet"
    "unat (le32_at (length pre + 4) d) = 24 + length gap + length frame + length pad"
    "unat (le32_at (length pre + 8) d) = 16 + length gap" "unat (le32_at (length pre + 12) d) = length frame"
    using le32_at_append[of pre 0 "?m @ rest"] host_packet_words(1)[of oob gap frame pad rest] n
    by (simp_all add: d host_packet_words unat_of_nat_u32 del: of_nat_add)
  have "drop (24 + length gap) (?m @ rest) = frame @ pad @ rest"
    using oob by (simp add: host_packet_def)
  then have frame: "take (length frame) (drop (length pre + (8 + (16 + length gap))) d) = frame"
    using d by (simp add: ac_simps flip: drop_drop)
  show ?thesis
    using frame words len d
    by (subst unwrap_loop.simps)
       (simp add: Let_def RNDIS_HOST_HEADER_LEN_def data_start_offset_def del: rndis_msg.simps)
qed

lemma unwrap_rest: "length d < pos + 24 \<Longrightarrow> unwrap_loop d pos = []"
  by (subst unwrap_loop.simps) (simp add: RNDIS_HOST_HEADER_LEN_def)

lemma unwrap_messages:
  assumes "\<forall>m \<in> set ms. host_packet_ok m" and "length rest < 24"
  shows "d = pre @ concat (map host_packet ms) @ rest \<Longrightarrow>
     unwrap_loop d (length pre) = filter (\<lambda>f. 14 \<le> length f) (map packet_frame ms)"
  using assms(1)
proof (induction ms arbitrary: pre)
  case Nil
  then show ?case using assms(2) by (simp add: unwrap_rest)
next
  case (Cons m ms)
  obtain oob gap frame pad where m: "m = (oob, gap, frame, pad)" by (cases m)
  have "unwrap_loop d (length pre) = (if 14 \<le> length frame then [frame] else []) @ unwrap_loop d (length (pre @ host_packet m))"
    using unwrap_step[of oob gap frame pad d pre "concat (map host_packet ms) @ rest"] Cons.prems m by simp
  moreover have "unwrap_loop d (length (pre @ host_packet m)) = filter (\<lambda>f. 14 \<le> length f) (map packet_frame ms)"
    using Cons by (intro Cons.IH) simp_all
  ultimately show ?case using m by simp
qed

text \<open>A packet of the device is such a message, with the rest of its header as a gap.\<close>

lemma wrap_is_host_packet:
  "\<exists>rest. length rest < 24 \<and> wrap_rndis_packet d = host_packet (replicate 8 0, replicate 20 0, d, []) @ rest"
proof -
  have z: "le_bytes (0 :: u32) = replicate 4 0" by (simp add: le_bytes_def map_replicate_const)
  have zeros: "replicate 4 0 @ replicate 4 0 @ replicate 4 0 @ replicate 4 0 @ replicate 4 0 @ replicate 4 0 @
      replicate 4 0 @ d = replicate 8 0 @ replicate 20 (0 :: u8) @ d"
    by (simp add: numeral_eq_Suc)
  have l: "(16 :: nat) + length (replicate 20 (0 :: u8)) = 36" "24 + length (replicate 20 (0 :: u8)) + length d + length ([] :: data) = 44 + length d"
    by simp_all
  have "host_packet (replicate 8 0, replicate 20 0, d, []) =
      le_bytes (rndis_msg Rm_Packet) @ le_bytes (of_nat (44 + length d) :: u32) @ le_bytes (of_nat 36 :: u32) @
      le_bytes (of_nat (length d) :: u32) @ replicate 8 0 @ replicate 20 0 @ d"
    unfolding host_packet_def prod.case l by simp
  then have "wrap_rndis_packet d =
      host_packet (replicate 8 0, replicate 20 0, d, []) @ (if (44 + length d) mod 64 = 0 then [0] else [])"
    by (simp add: wrap_rndis_packet_def RndisPacketHeader_append_to_def Let_def z zeros del: of_nat_add)
  then show ?thesis by (intro exI[of _ "if (44 + length d) mod 64 = 0 then [0] else []"]) auto
qed

lemma unwrap_wrap:
  assumes "14 \<le> length d" "length d < 2 ^ 31"
  shows "unwrap_rndis_packets (wrap_rndis_packet d) = [d]"
proof -
  obtain rest where rest: "length rest < 24" "wrap_rndis_packet d = host_packet (replicate 8 0, replicate 20 0, d, []) @ rest"
    using wrap_is_host_packet by blast
  show ?thesis
    using unwrap_messages[of "[(replicate 8 0, replicate 20 0, d, [])]" rest "wrap_rndis_packet d" "[]"] rest assms
    by (simp add: unwrap_rndis_packets_def)
qed

end
