(* ===== verification/Net_Function.thy ===== *)
theory Net_Function
  imports Ethernet_Echo Unlink
begin

text \<open>
  The interface between the handlers of a virtual network card and its backend, and what the two kinds
  of handlers (CDC ECM and RNDIS) share: the frames of a transfer are handed to the backend one by one,
  the frames the backend sends meanwhile go into the IN channel.
\<close>

section \<open>Backends behind their interface\<close>

text \<open>\<open>send_frame\<close> returns the frames passed to \<open>send_to_host\<close>, \<open>None\<close> if it leaves the memory it owns.\<close>

record 'b net_ops =
  net_send_frame :: "data \<Rightarrow> 'b \<Rightarrow> (data list \<times> 'b) option"
  net_reset :: "'b \<Rightarrow> 'b"

definition NetworkBackend_reset :: "'b \<Rightarrow> 'b" where
  "NetworkBackend_reset b = b"

definition echo_ops :: "EthernetEchoBackend net_ops" where
  "echo_ops = \<lparr>net_send_frame = echo_send_frame, net_reset = NetworkBackend_reset\<rparr>"

fun feed_frames :: "'b net_ops \<Rightarrow> data list \<Rightarrow> 'b \<Rightarrow> (data list \<times> 'b) option" where
  "feed_frames ops [] b = Some ([], b)"
| "feed_frames ops (f # fs) b =
     (case net_send_frame ops f b of
        None \<Rightarrow> None
      | Some (out, b1) \<Rightarrow> map_option (\<lambda>(out', b2). (out @ out', b2)) (feed_frames ops fs b1))"

definition push_all :: "data list \<Rightarrow> 'tr MessageInChannel \<Rightarrow> 'tr MessageInChannel" where
  "push_all ms c = fold (\<lambda>m c. snd (msg_push m True c)) ms c"

text \<open>The contract: the backend answers every frame up to a limit with legal frames and stays in its
  invariant.\<close>

locale network_backend =
  fixes ops :: "'b net_ops" and inv :: "'b \<Rightarrow> bool" and limit :: nat and legal :: "data \<Rightarrow> bool"
  assumes send_ok: "inv b \<Longrightarrow> length f \<le> limit \<Longrightarrow>
      \<exists>out b'. net_send_frame ops f b = Some (out, b') \<and> inv b' \<and> (\<forall>g \<in> set out. legal g)"
    and reset_ok: "inv b \<Longrightarrow> inv (net_reset ops b)"
begin

lemma feed_ok:
  assumes "inv b" and "\<forall>f \<in> set fs. length f \<le> limit"
  shows "\<exists>out b'. feed_frames ops fs b = Some (out, b') \<and> inv b' \<and> (\<forall>g \<in> set out. legal g)"
  using assms
proof (induction fs arbitrary: b)
  case (Cons f fs)
  obtain out b1 where f: "net_send_frame ops f b = Some (out, b1)" "inv b1" "\<forall>g \<in> set out. legal g"
    using send_ok[of b f] Cons.prems by auto
  obtain out' b2 where fs: "feed_frames ops fs b1 = Some (out', b2)" "inv b2" "\<forall>g \<in> set out'. legal g"
    using Cons.IH[OF f(2)] Cons.prems by auto
  show ?case using f fs by (intro exI[of _ "out @ out'"] exI[of _ b2]) auto
qed simp

end

text \<open>Frames of the echo backend are of legal Ethernet size.\<close>

definition legal_size :: "data \<Rightarrow> bool" where
  "legal_size f \<longleftrightarrow> ETH_MIN_FRAME \<le> length f \<and> length f \<le> ETH_FRAME_MAX"

lemma echo_send_ok:
  assumes "echo_ok e" "length d \<le> 1534"
  shows "\<exists>out e'. echo_send_frame d e = Some (out, e') \<and> echo_ok e' \<and> (\<forall>f \<in> set out. legal_size f)"
proof -
  obtain out e' where o: "echo_send_frame d e = Some (out, e')" using echo_send_frame_Some[OF assms] by auto
  then show ?thesis using echo_send_frame_keeps[OF assms(1), of d] by (simp add: echo_keeps_def good_frame_def legal_size_def)
qed

interpretation echo_network: network_backend echo_ops echo_ok 1534 legal_size
  by unfold_locales (simp_all add: echo_ops_def NetworkBackend_reset_def echo_send_ok)

section \<open>Messages through a connected channel\<close>

text \<open>A channel no host request waits in only keeps what is pushed.\<close>

lemma push_all_idle:
  assumes "\<not> ic_disconnected c" "erq_all (ic_requests c) = []" "mb_max (ic_buffer c) = 0"
  shows "push_all ms c = c\<lparr>ic_buffer := (ic_buffer c)\<lparr>mb_pending := mb_pending (ic_buffer c) @ ms\<rparr>\<rparr>"
  using assms
proof (induction ms arbitrary: c)
  case (Cons m ms)
  have n: "erq_dequeue_any (ic_requests c) = None" using Cons.prems(2) by (simp add: erq_dequeue_any_None)
  then have "snd (msg_push m True c) = c\<lparr>ic_buffer := (ic_buffer c)\<lparr>mb_pending := mb_pending (ic_buffer c) @ [m]\<rparr>\<rparr>"
    using Cons.prems by (simp add: msg_push_def msg_push_and_send_def mb_push_locked_def ic_try_send_pending.simps message_ops_def)
  then show ?case using Cons.IH[of "snd (msg_push m True c)"] Cons.prems by (simp add: push_all_def)
qed (simp add: push_all_def)

end
