(* ===== verification/Rndis.thy ===== *)
theory Rndis
  imports Rndis_Packet Net_Function Cdc_Acm
begin

text \<open>
  The RNDIS network card (\<open>RndisVirtualInterfaceHandler\<close>): the communication interface, which takes
  encapsulated commands, keeps the state of the protocol and queues the responses, and the data
  interface, which moves Ethernet frames between the host and a network backend.
\<close>

section \<open>Constants\<close>

definition OID_GEN_SUPPORTED_LIST :: u32 where "OID_GEN_SUPPORTED_LIST = 0x00010101"
definition OID_GEN_HARDWARE_STATUS :: u32 where "OID_GEN_HARDWARE_STATUS = 0x00010102"
definition OID_GEN_MEDIA_SUPPORTED :: u32 where "OID_GEN_MEDIA_SUPPORTED = 0x00010103"
definition OID_GEN_MEDIA_IN_USE :: u32 where "OID_GEN_MEDIA_IN_USE = 0x00010104"
definition OID_GEN_MAXIMUM_FRAME_SIZE :: u32 where "OID_GEN_MAXIMUM_FRAME_SIZE = 0x00010106"
definition OID_GEN_LINK_SPEED :: u32 where "OID_GEN_LINK_SPEED = 0x00010107"
definition OID_GEN_TRANSMIT_BLOCK_SIZE :: u32 where "OID_GEN_TRANSMIT_BLOCK_SIZE = 0x0001010A"
definition OID_GEN_RECEIVE_BLOCK_SIZE :: u32 where "OID_GEN_RECEIVE_BLOCK_SIZE = 0x0001010B"
definition OID_GEN_VENDOR_ID :: u32 where "OID_GEN_VENDOR_ID = 0x0001010C"
definition OID_GEN_VENDOR_DESCRIPTION :: u32 where "OID_GEN_VENDOR_DESCRIPTION = 0x0001010D"
definition OID_GEN_CURRENT_PACKET_FILTER :: u32 where "OID_GEN_CURRENT_PACKET_FILTER = 0x0001010E"
definition OID_GEN_MAXIMUM_TOTAL_SIZE :: u32 where "OID_GEN_MAXIMUM_TOTAL_SIZE = 0x00010111"
definition OID_GEN_MAC_OPTIONS :: u32 where "OID_GEN_MAC_OPTIONS = 0x00010113"
definition OID_GEN_MEDIA_CONNECT_STATUS :: u32 where "OID_GEN_MEDIA_CONNECT_STATUS = 0x00010114"
definition OID_GEN_VENDOR_DRIVER_VERSION :: u32 where "OID_GEN_VENDOR_DRIVER_VERSION = 0x00010116"
definition OID_GEN_PHYSICAL_MEDIUM :: u32 where "OID_GEN_PHYSICAL_MEDIUM = 0x00010202"
definition OID_GEN_XMIT_OK :: u32 where "OID_GEN_XMIT_OK = 0x00020101"
definition OID_GEN_RCV_OK :: u32 where "OID_GEN_RCV_OK = 0x00020102"
definition OID_GEN_XMIT_ERROR :: u32 where "OID_GEN_XMIT_ERROR = 0x00020103"
definition OID_GEN_RCV_ERROR :: u32 where "OID_GEN_RCV_ERROR = 0x00020104"
definition OID_GEN_RCV_NO_BUFFER :: u32 where "OID_GEN_RCV_NO_BUFFER = 0x00020105"
definition OID_802_3_PERMANENT_ADDRESS :: u32 where "OID_802_3_PERMANENT_ADDRESS = 0x01010101"
definition OID_802_3_CURRENT_ADDRESS :: u32 where "OID_802_3_CURRENT_ADDRESS = 0x01010102"
definition OID_802_3_MULTICAST_LIST :: u32 where "OID_802_3_MULTICAST_LIST = 0x01010103"
definition OID_802_3_MAXIMUM_LIST_SIZE :: u32 where "OID_802_3_MAXIMUM_LIST_SIZE = 0x01010104"
definition OID_802_3_MAC_OPTIONS :: u32 where "OID_802_3_MAC_OPTIONS = 0x01010105"
definition OID_802_3_RCV_ERROR_ALIGNMENT :: u32 where "OID_802_3_RCV_ERROR_ALIGNMENT = 0x01020101"
definition OID_802_3_XMIT_ONE_COLLISION :: u32 where "OID_802_3_XMIT_ONE_COLLISION = 0x01020102"
definition OID_802_3_XMIT_MORE_COLLISIONS :: u32 where "OID_802_3_XMIT_MORE_COLLISIONS = 0x01020103"

lemmas oid_defs = OID_GEN_SUPPORTED_LIST_def OID_GEN_HARDWARE_STATUS_def OID_GEN_MEDIA_SUPPORTED_def
  OID_GEN_MEDIA_IN_USE_def OID_GEN_MAXIMUM_FRAME_SIZE_def OID_GEN_LINK_SPEED_def OID_GEN_TRANSMIT_BLOCK_SIZE_def
  OID_GEN_RECEIVE_BLOCK_SIZE_def OID_GEN_VENDOR_ID_def OID_GEN_VENDOR_DESCRIPTION_def OID_GEN_CURRENT_PACKET_FILTER_def
  OID_GEN_MAXIMUM_TOTAL_SIZE_def OID_GEN_MAC_OPTIONS_def OID_GEN_MEDIA_CONNECT_STATUS_def
  OID_GEN_VENDOR_DRIVER_VERSION_def OID_GEN_PHYSICAL_MEDIUM_def OID_GEN_XMIT_OK_def OID_GEN_RCV_OK_def
  OID_GEN_XMIT_ERROR_def OID_GEN_RCV_ERROR_def OID_GEN_RCV_NO_BUFFER_def OID_802_3_PERMANENT_ADDRESS_def
  OID_802_3_CURRENT_ADDRESS_def OID_802_3_MULTICAST_LIST_def OID_802_3_MAXIMUM_LIST_SIZE_def OID_802_3_MAC_OPTIONS_def
  OID_802_3_RCV_ERROR_ALIGNMENT_def OID_802_3_XMIT_ONE_COLLISION_def OID_802_3_XMIT_MORE_COLLISIONS_def

definition RNDIS_MAJOR_VERSION :: u32 where "RNDIS_MAJOR_VERSION = 1"
definition RNDIS_MINOR_VERSION :: u32 where "RNDIS_MINOR_VERSION = 0"
definition RNDIS_DF_CONNECTIONLESS :: u32 where "RNDIS_DF_CONNECTIONLESS = 1"
definition RNDIS_MEDIUM_802_3 :: u32 where "RNDIS_MEDIUM_802_3 = 0"
definition RNDIS_MAX_TOTAL_SIZE :: u32 where "RNDIS_MAX_TOTAL_SIZE = 1558"
definition RNDIS_MAX_TRANSFER_SIZE :: u32 where "RNDIS_MAX_TRANSFER_SIZE = 1580"
definition RNDIS_RESPONSE_QUEUE_LIMIT :: nat where "RNDIS_RESPONSE_QUEUE_LIMIT = 64"
definition RNDIS_MAC_OPTIONS_SERIALIZED_FULL_DUPLEX :: u32 where "RNDIS_MAC_OPTIONS_SERIALIZED_FULL_DUPLEX = 0x12"

section \<open>Messages of the control channel\<close>

text \<open>Each structure by its size and the members that are read, each response by its serialiser.\<close>

definition sizeof_RndisMessageHeader :: nat where "sizeof_RndisMessageHeader = 12"
definition sizeof_RndisInitMsg :: nat where "sizeof_RndisInitMsg = 24"
definition sizeof_RndisQueryMsg :: nat where "sizeof_RndisQueryMsg = 28"
definition sizeof_RndisSetMsg :: nat where "sizeof_RndisSetMsg = 28"

text \<open>\<open>copy_msg\<close> with the size of its structure.\<close>

definition copy_msg :: "data \<Rightarrow> nat \<Rightarrow> nat \<Rightarrow> data option" where
  "copy_msg d offset sizeof =
     (if length d < offset + sizeof then None else Some (take sizeof (drop offset d)))"

definition RndisInitCmplt_append_to ::
    "u32 \<Rightarrow> u32 \<Rightarrow> u32 \<Rightarrow> u32 \<Rightarrow> u32 \<Rightarrow> u32 \<Rightarrow> u32 \<Rightarrow> u32 \<Rightarrow> u32 \<Rightarrow> u32 \<Rightarrow> u32 \<Rightarrow> u32 \<Rightarrow> u32 \<Rightarrow> data \<Rightarrow> data" where
  "RndisInitCmplt_append_to message_type message_length request_id status major minor device_flags medium
     max_packets max_transfer alignment af_offset af_size d =
     vector_append_to_le d [F32 message_type, F32 message_length, F32 request_id, F32 status, F32 major, F32 minor,
       F32 device_flags, F32 medium, F32 max_packets, F32 max_transfer, F32 alignment, F32 af_offset, F32 af_size]"

definition RndisQueryCmplt_append_to :: "u32 \<Rightarrow> u32 \<Rightarrow> u32 \<Rightarrow> u32 \<Rightarrow> u32 \<Rightarrow> u32 \<Rightarrow> data \<Rightarrow> data" where
  "RndisQueryCmplt_append_to message_type message_length request_id status info_length info_offset d =
     vector_append_to_le d [F32 message_type, F32 message_length, F32 request_id, F32 status, F32 info_length, F32 info_offset]"

definition RndisSetCmplt_append_to :: "u32 \<Rightarrow> u32 \<Rightarrow> u32 \<Rightarrow> u32 \<Rightarrow> data \<Rightarrow> data" where
  "RndisSetCmplt_append_to message_type message_length request_id status d =
     vector_append_to_le d [F32 message_type, F32 message_length, F32 request_id, F32 status]"

definition RndisResetCmplt_append_to :: "u32 \<Rightarrow> u32 \<Rightarrow> u32 \<Rightarrow> u32 \<Rightarrow> data \<Rightarrow> data" where
  "RndisResetCmplt_append_to message_type message_length status addressing_reset d =
     vector_append_to_le d [F32 message_type, F32 message_length, F32 status, F32 addressing_reset]"

definition RndisKeepaliveCmplt_append_to :: "u32 \<Rightarrow> u32 \<Rightarrow> u32 \<Rightarrow> u32 \<Rightarrow> data \<Rightarrow> data" where
  "RndisKeepaliveCmplt_append_to message_type message_length request_id status d =
     vector_append_to_le d [F32 message_type, F32 message_length, F32 request_id, F32 status]"

definition RndisIndicateStatusMsg_append_to :: "u32 \<Rightarrow> u32 \<Rightarrow> u32 \<Rightarrow> u32 \<Rightarrow> u32 \<Rightarrow> data \<Rightarrow> data" where
  "RndisIndicateStatusMsg_append_to message_type message_length status buffer_length buffer_offset d =
     vector_append_to_le d [F32 message_type, F32 message_length, F32 status, F32 buffer_length, F32 buffer_offset]"

definition le32_bytes :: "u32 \<Rightarrow> data" where
  "le32_bytes v = vector_append_to_le [] [F32 v]"

definition make_indicate :: "RndisStatus \<Rightarrow> data" where
  "make_indicate status = RndisIndicateStatusMsg_append_to (rndis_msg Rm_Indicate) 20 (rndis_status status) 0 0 []"

definition make_rndis_response_available_notification :: data where
  "make_rndis_response_available_notification = [1, 0, 0, 0, 0, 0, 0, 0]"

lemmas rndis_serialisers = RndisInitCmplt_append_to_def RndisQueryCmplt_append_to_def RndisSetCmplt_append_to_def
  RndisResetCmplt_append_to_def RndisKeepaliveCmplt_append_to_def RndisIndicateStatusMsg_append_to_def le32_bytes_def
  make_indicate_def

section \<open>The communication interface\<close>

datatype RndisState = Uninitialized | Initialized | DataInitialized

record rndis_comm =
  rc_response_queue :: "data list"
  rc_state :: RndisState
  rc_packet_filter :: u16
  rc_mac_address :: data
  rc_link_speed_100bps :: u32
  rc_interface_number :: u8
  rc_data_interface :: "u8 option"
  rc_channel :: "GenericTransfer MessageInChannel"

fun rndis_link_speed :: "UsbSpeed \<Rightarrow> u32" where
  "rndis_link_speed Speed_Full = 97280"
| "rndis_link_speed Speed_High = 4259840"
| "rndis_link_speed Speed_Super = 37500000"
| "rndis_link_speed Speed_SuperPlus = 42500000"
| "rndis_link_speed _ = 0"


definition rndis_comm_new :: "data \<Rightarrow> UsbSpeed \<Rightarrow> u8 \<Rightarrow> rndis_comm" where
  "rndis_comm_new mac_address speed n =
     \<lparr>rc_response_queue = [], rc_state = Uninitialized, rc_packet_filter = 0, rc_mac_address = mac_address,
      rc_link_speed_100bps = rndis_link_speed speed, rc_interface_number = n, rc_data_interface = None,
      rc_channel = msg_set_max_pending_messages 30 (in_channel_new \<lparr>mb_pending = [], mb_max = 0\<rparr>)\<rparr>"

definition rndis_set_data_handler :: "u8 option \<Rightarrow> rndis_comm \<Rightarrow> rndis_comm" where
  "rndis_set_data_handler h c = c\<lparr>rc_data_interface := h\<rparr>"

definition rndis_comm_make_interface :: "u8 \<Rightarrow> UsbInterface" where
  "rndis_comm_make_interface interrupt_in_ep =
     default_interface\<lparr>interface_class := ClassCode_CDC, interface_subclass := 0x02, interface_protocol := 0xFF,
       endpoints := [[\<lparr>ep_address = interrupt_in_ep, ep_attributes = ep_attr_code EA_Interrupt,
                       ep_max_packet_size = 8, ep_interval = 32\<rparr>]],
       interface_association_descriptor := Some (IadDesc_make 2 ClassCode_CDC 0x06 0 0)\<rparr>"

definition rndis_comm_class_specific_descriptor :: "rndis_comm \<Rightarrow> data" where
  "rndis_comm_class_specific_descriptor c =
     (let data_if = (case rc_data_interface c of Some n \<Rightarrow> n | None \<Rightarrow> 1)
      in CdcUnionFunctionalDesc_append_to 0x05 CS_INTERFACE 0x06 (rc_interface_number c) data_if
           (CdcAcmFunctionalDesc_append_to 0x04 CS_INTERFACE 0x02 0x00
              (CdcCallManagementDesc_append_to 0x05 CS_INTERFACE 0x01 0x00 data_if
                 (CdcHeaderFunctionalDesc_append_to 0x05 CS_INTERFACE 0x00 0x0110 []))))"

definition is_data_enabled :: "rndis_comm \<Rightarrow> bool" where
  "is_data_enabled c \<longleftrightarrow> rc_state c = DataInitialized"

definition rndis_supported_oids :: "u32 list" where
  "rndis_supported_oids =
     [OID_GEN_SUPPORTED_LIST, OID_GEN_HARDWARE_STATUS, OID_GEN_MEDIA_SUPPORTED, OID_GEN_MEDIA_IN_USE,
      OID_GEN_MAXIMUM_FRAME_SIZE, OID_GEN_LINK_SPEED, OID_GEN_TRANSMIT_BLOCK_SIZE, OID_GEN_RECEIVE_BLOCK_SIZE,
      OID_GEN_VENDOR_ID, OID_GEN_VENDOR_DESCRIPTION, OID_GEN_VENDOR_DRIVER_VERSION, OID_GEN_CURRENT_PACKET_FILTER,
      OID_GEN_MAXIMUM_TOTAL_SIZE, OID_GEN_MEDIA_CONNECT_STATUS, OID_GEN_MAC_OPTIONS, OID_GEN_PHYSICAL_MEDIUM,
      OID_802_3_PERMANENT_ADDRESS, OID_802_3_CURRENT_ADDRESS, OID_802_3_MULTICAST_LIST, OID_802_3_MAXIMUM_LIST_SIZE,
      OID_802_3_MAC_OPTIONS]"

definition query_oid :: "u32 \<Rightarrow> rndis_comm \<Rightarrow> data" where
  "query_oid oid c =
     (if oid = OID_GEN_SUPPORTED_LIST then foldl (\<lambda>buf v. vector_append_to_le buf [F32 v]) [] rndis_supported_oids
      else if oid = OID_GEN_HARDWARE_STATUS then le32_bytes 0
      else if oid = OID_GEN_MEDIA_SUPPORTED \<or> oid = OID_GEN_MEDIA_IN_USE then le32_bytes RNDIS_MEDIUM_802_3
      else if oid = OID_GEN_MAXIMUM_FRAME_SIZE then le32_bytes 1500
      else if oid = OID_GEN_LINK_SPEED then le32_bytes (rc_link_speed_100bps c)
      else if oid = OID_GEN_TRANSMIT_BLOCK_SIZE \<or> oid = OID_GEN_RECEIVE_BLOCK_SIZE then le32_bytes 1500
      else if oid = OID_GEN_VENDOR_ID then le32_bytes 0
      else if oid = OID_GEN_VENDOR_DESCRIPTION then le32_bytes 0
      else if oid = OID_GEN_VENDOR_DRIVER_VERSION then le32_bytes 1
      else if oid = OID_GEN_CURRENT_PACKET_FILTER then le32_bytes (ucast (rc_packet_filter c))
      else if oid = OID_GEN_MAXIMUM_TOTAL_SIZE then le32_bytes RNDIS_MAX_TOTAL_SIZE
      else if oid = OID_GEN_MEDIA_CONNECT_STATUS then le32_bytes 0
      else if oid = OID_GEN_MAC_OPTIONS then le32_bytes RNDIS_MAC_OPTIONS_SERIALIZED_FULL_DUPLEX
      else if oid = OID_GEN_PHYSICAL_MEDIUM then le32_bytes 0
      else if oid = OID_GEN_XMIT_OK \<or> oid = OID_GEN_RCV_OK \<or> oid = OID_GEN_XMIT_ERROR \<or> oid = OID_GEN_RCV_ERROR \<or>
              oid = OID_GEN_RCV_NO_BUFFER then le32_bytes 0
      else if oid = OID_802_3_PERMANENT_ADDRESS \<or> oid = OID_802_3_CURRENT_ADDRESS then rc_mac_address c
      else if oid = OID_802_3_MULTICAST_LIST then le32_bytes 0xE0000000
      else if oid = OID_802_3_MAXIMUM_LIST_SIZE then le32_bytes 1
      else if oid = OID_802_3_MAC_OPTIONS then le32_bytes 0
      else if oid = OID_802_3_RCV_ERROR_ALIGNMENT \<or> oid = OID_802_3_XMIT_ONE_COLLISION \<or>
              oid = OID_802_3_XMIT_MORE_COLLISIONS then le32_bytes 0
      else [])"

definition enqueue_response :: "data \<Rightarrow> rndis_comm \<Rightarrow> rndis_comm" where
  "enqueue_response response c =
     (let q = (if RNDIS_RESPONSE_QUEUE_LIMIT \<le> length (rc_response_queue c) then tl (rc_response_queue c)
               else rc_response_queue c)
      in c\<lparr>rc_response_queue := q @ [response],
           rc_channel := snd (msg_push make_rndis_response_available_notification True (rc_channel c))\<rparr>)"

definition reset_device_state :: "rndis_comm \<Rightarrow> rndis_comm" where
  "reset_device_state c = c\<lparr>rc_state := Uninitialized, rc_packet_filter := 0, rc_response_queue := []\<rparr>"

text \<open>The branches of \<open>process_rndis_message\<close>.\<close>

definition rndis_init :: "data \<Rightarrow> rndis_comm \<Rightarrow> rndis_comm" where
  "rndis_init msg c =
     (case copy_msg msg 0 sizeof_RndisInitMsg of
        None \<Rightarrow> c
      | Some m \<Rightarrow>
          enqueue_response (make_indicate Rs_MediaConnect)
            (enqueue_response
               (RndisInitCmplt_append_to (rndis_msg Rm_InitComplete) 52 (le32_at 8 m) (rndis_status Rs_Success)
                  RNDIS_MAJOR_VERSION RNDIS_MINOR_VERSION RNDIS_DF_CONNECTIONLESS RNDIS_MEDIUM_802_3 1
                  RNDIS_MAX_TRANSFER_SIZE 0 0 0 [])
               (c\<lparr>rc_state := Initialized\<rparr>)))"

definition rndis_query :: "data \<Rightarrow> rndis_comm \<Rightarrow> rndis_comm" where
  "rndis_query msg c =
     (case copy_msg msg 0 sizeof_RndisQueryMsg of
        None \<Rightarrow> c
      | Some m \<Rightarrow>
          (let payload = query_oid (le32_at 12 m) c; status = (if payload = [] then Rs_NotSupported else Rs_Success)
           in enqueue_response
                (RndisQueryCmplt_append_to (rndis_msg Rm_QueryComplete) (of_nat (24 + length payload)) (le32_at 8 m)
                   (rndis_status status) (of_nat (length payload)) 16 [] @ payload) c))"

definition rndis_set :: "data \<Rightarrow> rndis_comm \<Rightarrow> rndis_comm" where
  "rndis_set msg c =
     (case copy_msg msg 0 sizeof_RndisSetMsg of
        None \<Rightarrow> c
      | Some m \<Rightarrow>
          (let buf_off = 8 + unat (le32_at 20 m); oid = le32_at 12 m;
               (status, c1) =
                 (if oid = OID_GEN_CURRENT_PACKET_FILTER
                  then (if length msg < buf_off + 4 then (Rs_InvalidData, c)
                        else (let filter_word = ucast (le32_at buf_off msg) :: u16
                              in (Rs_Success, c\<lparr>rc_packet_filter := filter_word,
                                    rc_state := (if filter_word \<noteq> 0 then DataInitialized else Initialized)\<rparr>)))
                  else if oid = OID_802_3_MULTICAST_LIST then (Rs_Success, c)
                  else (Rs_NotSupported, c))
           in enqueue_response
                (RndisSetCmplt_append_to (rndis_msg Rm_SetComplete) 16 (le32_at 8 m) (rndis_status status) []) c1))"

definition rndis_reset :: "rndis_comm \<Rightarrow> rndis_comm" where
  "rndis_reset c =
     enqueue_response
       (RndisResetCmplt_append_to (rndis_msg Rm_ResetComplete) 16 (rndis_status Rs_Success) 1 [])
       (c\<lparr>rc_response_queue := []\<rparr>)"

definition rndis_keepalive :: "data \<Rightarrow> rndis_comm \<Rightarrow> rndis_comm" where
  "rndis_keepalive msg c =
     (case copy_msg msg 0 sizeof_RndisMessageHeader of
        None \<Rightarrow> c
      | Some m \<Rightarrow>
          enqueue_response
            (RndisKeepaliveCmplt_append_to (rndis_msg Rm_KeepaliveComplete) 16 (le32_at 8 m) (rndis_status Rs_Success) []) c)"

definition process_rndis_message :: "data \<Rightarrow> rndis_comm \<Rightarrow> rndis_comm" where
  "process_rndis_message msg c =
     (case copy_msg msg 0 sizeof_RndisMessageHeader of
        None \<Rightarrow> c
      | Some hdr \<Rightarrow>
          (let message_type = le32_at 0 hdr; message_length = unat (le32_at 4 hdr)
           in if message_length < sizeof_RndisMessageHeader \<or> length msg < message_length then c
              else if message_type = rndis_msg Rm_Init then rndis_init msg c
              else if message_type = rndis_msg Rm_Halt then reset_device_state c
              else if message_type = rndis_msg Rm_Query then rndis_query msg c
              else if message_type = rndis_msg Rm_Set then rndis_set msg c
              else if message_type = rndis_msg Rm_Reset then rndis_reset c
              else if message_type = rndis_msg Rm_Keepalive then rndis_keepalive msg c
              else c))"

definition rndis_comm_control ::
    "u32 \<Rightarrow> u32 \<Rightarrow> SetupPacket \<Rightarrow> GenericTransfer TransferHandle \<Rightarrow> rndis_comm \<Rightarrow>
     (GenericTransfer UsbIpRetSubmit \<times> rndis_comm) option" where
  "rndis_comm_control seqnum transfer_buffer_length sp th c =
     (if calc_request_type sp \<noteq> RequestType_Class then Some (create_ret_submit_epipe_without_data seqnum 0, c)
      else if sp_request sp = acm_request_code Acm_SendEncapsulatedCommand \<and> setup_is_out sp
      then (case th_handle th of
              None \<Rightarrow> None
            | Some trx \<Rightarrow> Some (create_ret_submit_with_status_and_no_data seqnum (urb_status_code StatusOK) 0,
                                process_rndis_message (gt_data trx) c))
      else if sp_request sp = acm_request_code Acm_GetEncapsulatedResponse \<and> \<not> setup_is_out sp
      then (if rc_response_queue c = [] then Some (create_ret_submit_epipe_without_data seqnum 0, c)
            else (case th_handle th of
                    None \<Rightarrow> None
                  | Some trx \<Rightarrow>
                      (let d0 = hd (rc_response_queue c);
                           d = (if unat transfer_buffer_length < length d0 then take (unat transfer_buffer_length) d0 else d0)
                       in Some (create_ret_submit_ok_with_no_iso seqnum (of_nat (length d))
                                  (th\<lparr>th_handle := Some (trx\<lparr>gt_data := d\<rparr>)\<rparr>),
                                c\<lparr>rc_response_queue := tl (rc_response_queue c)\<rparr>))))
      else Some (create_ret_submit_epipe_without_data seqnum 0, c))"

definition rndis_comm_interrupt ::
    "UsbEndpoint \<Rightarrow> u32 \<Rightarrow> u32 \<Rightarrow> GenericTransfer TransferHandle \<Rightarrow> rndis_comm \<Rightarrow>
     GenericTransfer UsbIpRetSubmit list \<times> rndis_comm" where
  "rndis_comm_interrupt ep seqnum len th c =
     (if ep_is_in ep
      then ([], c\<lparr>rc_channel := ic_on_in_request message_ops (ep_address ep) seqnum len th (rc_channel c)\<rparr>)
      else ([create_ret_submit_epipe_without_data seqnum 0], c))"

definition rndis_comm_on_new_connection :: "nat \<Rightarrow> rndis_comm \<Rightarrow> rndis_comm" where
  "rndis_comm_on_new_connection session c =
     (let c1 = reset_device_state c
      in c1\<lparr>rc_channel := ic_on_new_connection message_ops (Some session) (rc_channel c1)\<rparr>)"

definition rndis_comm_on_disconnection :: "rndis_comm \<Rightarrow> rndis_comm" where
  "rndis_comm_on_disconnection c =
     reset_device_state (c\<lparr>rc_channel := ic_on_disconnection message_ops (rc_channel c)\<rparr>)"

definition rndis_comm_handle_unlink_seqnum :: "u32 \<Rightarrow> u32 \<Rightarrow> rndis_comm \<Rightarrow> UsbIpRetUnlink list \<times> rndis_comm" where
  "rndis_comm_handle_unlink_seqnum unlink_seqnum cmd_seqnum c =
     (case ic_cancel_pending unlink_seqnum (rc_channel c) of
        (cancelled, ch) \<Rightarrow> ([unlink_reply cmd_seqnum cancelled], c\<lparr>rc_channel := ch\<rparr>))"

section \<open>The data interface\<close>

text \<open>The backend, if there is one, is behind its interface; without one \<open>on_frame_received\<close> is the callback
  of the derived class, which keeps a state of type \<open>'c\<close>.  The handler of the communication interface is
  kept by the class and never used.\<close>

record 'b rndis_data =
  rd_in :: "GenericTransfer MessageInChannel"
  rd_out :: "GenericTransfer out_channel"
  rd_backend :: "'b option"

definition rndis_data_new :: "('b \<Rightarrow> 'b) \<Rightarrow> 'b option \<Rightarrow> 'b rndis_data" where
  "rndis_data_new set_send_to_host backend =
     \<lparr>rd_in = in_channel_new \<lparr>mb_pending = [], mb_max = 0\<rparr>, rd_out = out_channel_new,
      rd_backend = map_option set_send_to_host backend\<rparr>"

definition rndis_data_make_interface :: "u8 \<Rightarrow> u8 \<Rightarrow> UsbInterface" where
  "rndis_data_make_interface in_ep out_ep =
     default_interface\<lparr>interface_class := ClassCode_CDCData, interface_subclass := 0x00, interface_protocol := 0x00,
       endpoints := [[\<lparr>ep_address = in_ep, ep_attributes = ep_attr_code EA_Bulk, ep_max_packet_size = 64,
                       ep_interval = 0\<rparr>,
                      \<lparr>ep_address = out_ep, ep_attributes = ep_attr_code EA_Bulk, ep_max_packet_size = 64,
                       ep_interval = 0\<rparr>]]\<rparr>"

text \<open>The frames of a transfer given to the callback, up to the first that is not consumed.\<close>

fun offer_frames :: "(data \<Rightarrow> 'c \<Rightarrow> bool \<times> 'c) \<Rightarrow> data list \<Rightarrow> 'c \<Rightarrow> bool \<times> 'c" where
  "offer_frames cb [] s = (True, s)"
| "offer_frames cb (f # fs) s = (case cb f s of (taken, s1) \<Rightarrow> if taken then offer_frames cb fs s1 else (False, s1))"

definition rndis_data_bulk ::
    "'b net_ops \<Rightarrow> (data \<Rightarrow> 'c \<Rightarrow> bool \<times> 'c) \<Rightarrow> UsbEndpoint \<Rightarrow> u32 \<Rightarrow> u32 \<Rightarrow> GenericTransfer TransferHandle \<Rightarrow>
     'b rndis_data \<times> 'c \<Rightarrow> (GenericTransfer UsbIpRetSubmit list \<times> 'b rndis_data \<times> 'c) option" where
  "rndis_data_bulk ops on_frame_received ep seqnum len th st =
     (case st of (d, s) \<Rightarrow>
        if ep_is_in ep
        then Some ([], d\<lparr>rd_in := ic_on_in_request message_ops (ep_address ep) seqnum len th (rd_in d)\<rparr>, s)
        else (case th_handle th of
                None \<Rightarrow> None
              | Some trx \<Rightarrow>
                  (let received_size = of_nat (length (gt_data trx));
                       frames = unwrap_rndis_packets (gt_data trx);
                       ok = [create_ret_submit_ok_without_data seqnum received_size]
                   in case rd_backend d of
                        Some b \<Rightarrow>
                          (case feed_frames ops frames b of
                             None \<Rightarrow> None
                           | Some (out, b') \<Rightarrow>
                               Some (ok, d\<lparr>rd_backend := Some b', rd_in := push_all (map wrap_rndis_packet out) (rd_in d)\<rparr>, s))
                      | None \<Rightarrow>
                          (let (consumed, s1) = (if frames \<noteq> [] then offer_frames on_frame_received frames s else (False, s))
                           in if consumed then Some (ok, d, s1)
                              else Some ([], d\<lparr>rd_out := oc_on_out_request (ep_address ep) seqnum th None (rd_out d)\<rparr>, s1)))))"

definition rndis_data_control :: "u32 \<Rightarrow> GenericTransfer UsbIpRetSubmit" where
  "rndis_data_control seqnum = create_ret_submit_epipe_without_data seqnum 0"

definition rndis_on_frame_received :: "data \<Rightarrow> 'c \<Rightarrow> bool \<times> 'c" where
  "rndis_on_frame_received frame s = (True, s)"

definition rndis_send_frame :: "data \<Rightarrow> 'b rndis_data \<Rightarrow> nat \<times> 'b rndis_data" where
  "rndis_send_frame f d =
     (if length f = 0 then (0, d)
      else (length f, d\<lparr>rd_in := snd (msg_push (wrap_rndis_packet f) True (rd_in d))\<rparr>))"

definition rndis_take_frame ::
    "nat \<Rightarrow> ((GenericTransfer out_channel \<Rightarrow> GenericTransfer out_channel) \<times> bool) list \<Rightarrow> 'b rndis_data \<Rightarrow>
     (Pending option \<times> 'b rndis_data) option" where
  "rndis_take_frame timeout_ms env d =
     map_option (\<lambda>(p, ch). (p, d\<lparr>rd_out := ch\<rparr>)) (oc_take timeout_ms env (rd_out d))"

definition rndis_try_take_frame :: "'b rndis_data \<Rightarrow> Pending option \<times> 'b rndis_data" where
  "rndis_try_take_frame d = (case oc_try_take (rd_out d) of (p, ch) \<Rightarrow> (p, d\<lparr>rd_out := ch\<rparr>))"

definition rndis_set_tx_max_pending :: "nat \<Rightarrow> 'b rndis_data \<Rightarrow> 'b rndis_data" where
  "rndis_set_tx_max_pending n d = d\<lparr>rd_in := msg_set_max_pending_messages n (rd_in d)\<rparr>"

definition rndis_data_on_new_connection :: "nat \<Rightarrow> 'b rndis_data \<Rightarrow> 'b rndis_data" where
  "rndis_data_on_new_connection session d =
     d\<lparr>rd_in := ic_on_new_connection message_ops (Some session) (rd_in d),
       rd_out := oc_on_new_connection (Some session) (rd_out d)\<rparr>"

definition rndis_data_on_disconnection :: "'b net_ops \<Rightarrow> 'b rndis_data \<Rightarrow> 'b rndis_data" where
  "rndis_data_on_disconnection ops d =
     d\<lparr>rd_out := oc_on_disconnection (rd_out d), rd_in := ic_on_disconnection message_ops (rd_in d),
       rd_backend := map_option (net_reset ops) (rd_backend d)\<rparr>"

definition rndis_data_handle_unlink_seqnum :: "u32 \<Rightarrow> u32 \<Rightarrow> 'b rndis_data \<Rightarrow> UsbIpRetUnlink list \<times> 'b rndis_data" where
  "rndis_data_handle_unlink_seqnum unlink_seqnum cmd_seqnum d =
     (case unlink_in_out unlink_seqnum cmd_seqnum (rd_in d, rd_out d) of
        (rs, i, oc) \<Rightarrow> (rs, d\<lparr>rd_in := i, rd_out := oc\<rparr>))"

end
