(* ===== verification/Rndis_Props.thy ===== *)
theory Rndis_Props
  imports Rndis
begin

text \<open>
  Properties of the RNDIS network card: the framing of the data channel, the responses to the commands of
  the control channel, and a ping from the host through the card to the echo backend and back.
\<close>

section \<open>Responses\<close>

definition rndis_completions :: "u32 set" where
  "rndis_completions = rndis_msg ` {Rm_InitComplete, Rm_QueryComplete, Rm_SetComplete, Rm_ResetComplete,
     Rm_KeepaliveComplete, Rm_Indicate}"

text \<open>A message a host can parse: its type is one a device sends and its length is its own.\<close>

definition response_ok :: "data \<Rightarrow> bool" where
  "response_ok r \<longleftrightarrow> 16 \<le> length r \<and> unat (le32_at 4 r) = length r \<and> le32_at 0 r \<in> rndis_completions"

lemma le32_at_words:
  "le32_at 0 (le_bytes (a :: u32) @ r) = a" "le32_at 4 (le_bytes (a :: u32) @ le_bytes (b :: u32) @ r) = b"
  "le32_at 8 (le_bytes (a :: u32) @ le_bytes (b :: u32) @ le_bytes (c :: u32) @ r) = c"
  by (simp_all add: le32_at_def)

lemma query_oid_length: "length (rc_mac_address c) = 6 \<Longrightarrow> length (query_oid oid c) \<le> 84"
  by (simp add: query_oid_def le32_bytes_def rndis_supported_oids_def)

lemma response_okI:
  assumes "r = le_bytes ty @ le_bytes (of_nat (length r) :: u32) @ rest" "ty \<in> rndis_completions" "16 \<le> length r" "length r < 2 ^ 32"
  shows "response_ok r"
proof -
  have "le32_at 4 r = of_nat (length r)" "le32_at 0 r = ty" using assms(1) le32_at_words(1,2) by metis+
  then show ?thesis using assms(2-4) by (simp add: response_ok_def unat_of_nat_u32)
qed

text \<open>The notification channel keeps within its cap.\<close>

definition capped :: "nat \<Rightarrow> 'tr MessageInChannel \<Rightarrow> bool" where
  "capped n c \<longleftrightarrow> mb_max (ic_buffer c) = n \<and> mb_inv (ic_buffer c)"

lemma try_send_pending_max:
  "mb_max (ic_buffer (ic_try_send_pending message_ops c)) = mb_max (ic_buffer c)"
proof (induction message_ops c rule: ic_try_send_pending.induct)
  case (1 c)
  have "mb_max (ic_buffer (ic_try_send_one message_ops s l th c')) = mb_max (ic_buffer c')"
    for s l th and c' :: "'a MessageInChannel"
    by (auto simp: ic_try_send_one_def message_ops_def mb_next_def split: prod.splits)
  with 1 show ?case by (subst ic_try_send_pending.simps) (auto split: option.splits)
qed

lemma capped_pending: "capped n c \<Longrightarrow> capped n (ic_try_send_pending message_ops c)"
  by (simp add: capped_def try_send_pending_max msg_try_send_pending_inv)

lemma capped_buffer: "ic_buffer c' = ic_buffer c \<Longrightarrow> capped n c' = capped n c"
  by (simp add: capped_def)

lemma capped_push:
  assumes "capped n c"
  shows "capped n (snd (msg_push d b c))"
proof -
  have "capped n (c\<lparr>ic_buffer := mb_push_locked d (ic_buffer c)\<rparr>)"
    using assms mb_push_locked_inv[of "ic_buffer c" d] by (simp add: capped_def mb_push_locked_def)
  then show ?thesis using assms by (simp add: msg_push_def msg_push_and_send_def capped_pending)
qed

lemma capped_request:
  assumes "capped n c"
  shows "capped n (ic_on_in_request message_ops ep s l th c)"
proof -
  have "capped n (ic_try_send_one message_ops s l th c)"
    using assms mb_next_inv[of "ic_buffer c" l]
    by (auto simp: ic_try_send_one_def capped_def message_ops_def mb_next_def split: prod.splits)
  moreover have "ic_buffer (ic_evict ep c) = ic_buffer c"
    by (auto simp: ic_evict_def ic_reply_empty_def split: option.split)
  then have "capped n (ic_enqueue ep r (ic_evict ep c))" for r
    using assms by (simp add: capped_def ic_enqueue_def)
  ultimately show ?thesis
    using assms by (auto simp: ic_on_in_request_def Let_def message_ops_def[THEN arg_cong, of io_pull] intro!: capped_pending)
qed

section \<open>The invariant of the control channel\<close>

definition rndis_inv :: "rndis_comm \<Rightarrow> bool" where
  "rndis_inv c \<longleftrightarrow>
     length (rc_mac_address c) = 6 \<and> length (rc_response_queue c) \<le> RNDIS_RESPONSE_QUEUE_LIMIT \<and>
     (\<forall>r \<in> set (rc_response_queue c). response_ok r) \<and> (is_data_enabled c \<longrightarrow> rc_packet_filter c \<noteq> 0) \<and>
     capped 30 (rc_channel c)"

lemma enqueue_response_inv: "rndis_inv c \<Longrightarrow> response_ok r \<Longrightarrow> rndis_inv (enqueue_response r c)"
  by (auto simp: rndis_inv_def enqueue_response_def Let_def is_data_enabled_def capped_push RNDIS_RESPONSE_QUEUE_LIMIT_def
      dest: list.set_sel(2)[rotated])

lemma reset_device_state_inv: "rndis_inv c \<Longrightarrow> rndis_inv (reset_device_state c)"
  by (simp add: rndis_inv_def reset_device_state_def is_data_enabled_def)

lemma fixed_responses_ok:
  "response_ok (RndisInitCmplt_append_to (rndis_msg Rm_InitComplete) 52 a b c d e f g h i j k [])"
  "response_ok (make_indicate s)"
  "response_ok (RndisSetCmplt_append_to (rndis_msg Rm_SetComplete) 16 a b [])"
  "response_ok (RndisResetCmplt_append_to (rndis_msg Rm_ResetComplete) 16 a b [])"
  "response_ok (RndisKeepaliveCmplt_append_to (rndis_msg Rm_KeepaliveComplete) 16 a b [])"
  by (simp_all add: response_ok_def rndis_serialisers rndis_completions_def le32_at_words)

lemma query_response_ok:
  assumes "length p \<le> 84"
  shows "response_ok (RndisQueryCmplt_append_to (rndis_msg Rm_QueryComplete) (of_nat (24 + length p)) a b c d [] @ p)"
  using assms
  by (simp add: response_ok_def RndisQueryCmplt_append_to_def rndis_completions_def le32_at_words unat_of_nat_u32 del: of_nat_add)

lemma process_rndis_message_inv:
  assumes "rndis_inv c"
  shows "rndis_inv (process_rndis_message msg c)"
proof -
  have st: "rndis_inv (c\<lparr>rc_state := Initialized\<rparr>)" "rndis_inv (c\<lparr>rc_response_queue := []\<rparr>)"
    "rndis_inv (c\<lparr>rc_packet_filter := f, rc_state := (if f \<noteq> 0 then DataInitialized else Initialized)\<rparr>)" for f
    using assms by (simp_all add: rndis_inv_def is_data_enabled_def)
  have empty: "response_ok (RndisQueryCmplt_append_to (rndis_msg Rm_QueryComplete) 24 a b 0 d [])" for a b d
    using query_response_ok[of "[]" a b 0 d] by (simp del: rndis_msg.simps)
  have "rndis_inv (rndis_init msg c)"
    using assms st(1)
    by (simp add: rndis_init_def enqueue_response_inv fixed_responses_ok del: rndis_msg.simps split: option.split)
  moreover have "length (query_oid oid c) \<le> 84" for oid
    using assms query_oid_length[of c oid] by (simp add: rndis_inv_def)
  then have "rndis_inv (rndis_query msg c)"
    using assms empty unfolding rndis_query_def Let_def
    by (auto intro!: enqueue_response_inv query_response_ok split: option.split simp del: rndis_msg.simps of_nat_add)
  moreover have "rndis_inv (rndis_set msg c)"
    using assms st(3)[of "ucast (le32_at (8 + unat (le32_at 20 (take sizeof_RndisSetMsg msg))) msg)"]
    by (simp add: rndis_set_def copy_msg_def Let_def enqueue_response_inv fixed_responses_ok del: rndis_msg.simps)
  moreover have "rndis_inv (rndis_reset c)"
    using st(2) by (simp add: rndis_reset_def enqueue_response_inv fixed_responses_ok del: rndis_msg.simps)
  moreover have "rndis_inv (rndis_keepalive msg c)"
    using assms by (simp add: rndis_keepalive_def enqueue_response_inv fixed_responses_ok del: rndis_msg.simps split: option.split)
  ultimately show ?thesis
    using assms reset_device_state_inv[OF assms]
    by (simp add: process_rndis_message_def Let_def del: rndis_msg.simps split: option.split)
qed


text \<open>The operations of the communication interface.\<close>

inductive rndis_step :: "rndis_comm \<Rightarrow> rndis_comm \<Rightarrow> bool" where
  control: "rndis_comm_control seqnum len sp th c = Some (r, c') \<Longrightarrow> rndis_step c c'"
| interrupt: "rndis_step c (snd (rndis_comm_interrupt ep seqnum len th c))"
| connect: "rndis_step c (rndis_comm_on_new_connection session c)"
| disconnect: "rndis_step c (rndis_comm_on_disconnection c)"
| unlink: "rndis_step c (snd (rndis_comm_handle_unlink_seqnum u n c))"

lemma rndis_inv_channel:
  "rndis_inv c \<Longrightarrow> capped 30 ch \<Longrightarrow> rndis_inv (c\<lparr>rc_channel := ch\<rparr>)"
  by (simp add: rndis_inv_def is_data_enabled_def)

lemma rndis_step_inv:
  assumes "rndis_step c c'" "rndis_inv c"
  shows "rndis_inv c'"
  using assms
proof (cases rule: rndis_step.cases)
  case (control seqnum len sp th r)
  have "rndis_inv (c\<lparr>rc_response_queue := tl (rc_response_queue c)\<rparr>)"
    using assms(2) by (cases "rc_response_queue c") (auto simp: rndis_inv_def is_data_enabled_def)
  with control show ?thesis
    using assms(2) process_rndis_message_inv[OF assms(2)]
    by (auto simp: rndis_comm_control_def Let_def split: if_splits option.splits)
next
  case (interrupt ep seqnum len th)
  have "capped 30 (rc_channel c)" using assms(2) by (simp add: rndis_inv_def)
  with interrupt show ?thesis
    using assms(2) by (auto simp: rndis_comm_interrupt_def intro!: rndis_inv_channel capped_request)
next
  case (connect session)
  then show ?thesis
    using reset_device_state_inv[OF assms(2)]
    by (auto simp: rndis_comm_on_new_connection_def Let_def intro!: rndis_inv_channel)
       (simp add: rndis_inv_def capped_def ic_on_new_connection_def message_ops_def mb_inv_def)
next
  case disconnect
  then show ?thesis
    using assms(2)
    by (auto simp: rndis_comm_on_disconnection_def intro!: reset_device_state_inv rndis_inv_channel)
       (simp add: rndis_inv_def capped_def ic_on_disconnection_def message_ops_def mb_inv_def)
next
  case (unlink u n)
  have "ic_buffer (snd (ic_cancel_pending u (rc_channel c))) = ic_buffer (rc_channel c)"
    by (simp add: ic_cancel_pending_def split: prod.split)
  with unlink show ?thesis
    using assms(2)
    by (auto simp: rndis_comm_handle_unlink_seqnum_def rndis_inv_def capped_def is_data_enabled_def split: prod.split)
qed

lemma rndis_new_inv: "length mac = 6 \<Longrightarrow> rndis_inv (rndis_comm_new mac speed n)"
  by (simp add: rndis_inv_def rndis_comm_new_def is_data_enabled_def capped_def mb_inv_def msg_set_max_pending_messages_def
      in_channel_new_def)

lemma rndis_run_inv: "rndis_step\<^sup>*\<^sup>* c c' \<Longrightarrow> rndis_inv c \<Longrightarrow> rndis_inv c'"
  by (induction rule: rtranclp_induct) (auto dest: rndis_step_inv)


section \<open>Requests and responses\<close>

text \<open>The requests that are answered, with the size of their structures and the type of the answer.\<close>

fun rndis_request_size :: "RndisMessageType \<Rightarrow> nat" where
  "rndis_request_size Rm_Init = 24"
| "rndis_request_size Rm_Query = 28"
| "rndis_request_size Rm_Set = 28"
| "rndis_request_size _ = 12"

fun completion_of :: "RndisMessageType \<Rightarrow> RndisMessageType" where
  "completion_of Rm_Init = Rm_InitComplete"
| "completion_of Rm_Query = Rm_QueryComplete"
| "completion_of Rm_Set = Rm_SetComplete"
| "completion_of Rm_Reset = Rm_ResetComplete"
| "completion_of ty = Rm_KeepaliveComplete"

definition rndis_request :: "RndisMessageType \<Rightarrow> data \<Rightarrow> bool" where
  "rndis_request ty msg \<longleftrightarrow>
     ty \<in> {Rm_Init, Rm_Query, Rm_Set, Rm_Reset, Rm_Keepalive} \<and> rndis_request_size ty \<le> length msg \<and>
     le32_at 0 msg = rndis_msg ty \<and> 12 \<le> unat (le32_at 4 msg) \<and> unat (le32_at 4 msg) \<le> length msg"

definition answers :: "RndisMessageType \<Rightarrow> data \<Rightarrow> data \<Rightarrow> bool" where
  "answers ty msg r \<longleftrightarrow>
     response_ok r \<and> length r \<le> 108 \<and> le32_at 0 r = rndis_msg (completion_of ty) \<and>
     (ty \<noteq> Rm_Reset \<longrightarrow> le32_at 8 r = le32_at 8 msg)"

lemma le32_at_take: "i + 4 \<le> n \<Longrightarrow> le32_at i (take n d) = le32_at i d"
  by (simp add: le32_at_def drop_take min_def)

lemma enqueue_first: "rc_response_queue c = [] \<Longrightarrow> rc_response_queue (enqueue_response r c) = [r]"
  by (simp add: enqueue_response_def Let_def RNDIS_RESPONSE_QUEUE_LIMIT_def)

lemma enqueue_second: "rc_response_queue c = [r'] \<Longrightarrow> rc_response_queue (enqueue_response r c) = [r', r]"
  by (simp add: enqueue_response_def Let_def RNDIS_RESPONSE_QUEUE_LIMIT_def)

lemma answer_forms:
  "le32_at 8 msg = i \<Longrightarrow> answers Rm_Init msg (RndisInitCmplt_append_to (rndis_msg Rm_InitComplete) 52 i b c d e f g h i' j k [])"
  "le32_at 8 msg = i \<Longrightarrow> answers Rm_Set msg (RndisSetCmplt_append_to (rndis_msg Rm_SetComplete) 16 i b [])"
  "answers Rm_Reset msg (RndisResetCmplt_append_to (rndis_msg Rm_ResetComplete) 16 a b [])"
  "le32_at 8 msg = i \<Longrightarrow> answers Rm_Keepalive msg (RndisKeepaliveCmplt_append_to (rndis_msg Rm_KeepaliveComplete) 16 i b [])"
  "le32_at 8 msg = i \<Longrightarrow> length p \<le> 84 \<Longrightarrow>
     answers Rm_Query msg (RndisQueryCmplt_append_to (rndis_msg Rm_QueryComplete) (of_nat (24 + length p)) i b c' d [] @ p)"
  using fixed_responses_ok query_response_ok
  by (simp_all add: answers_def del: of_nat_add)
     (simp_all add: rndis_serialisers le32_at_words)

lemma process_answers:
  assumes "rndis_inv c" "rc_response_queue c = []" "rndis_request ty msg"
  shows "\<exists>r rest. rc_response_queue (process_rndis_message msg c) = r # rest \<and> answers ty msg r"
proof -
  have n: "12 \<le> length msg" using assms(3) by (cases ty) (auto simp: rndis_request_def)
  have dispatch: "process_rndis_message msg c =
      (if ty = Rm_Init then rndis_init msg c else if ty = Rm_Query then rndis_query msg c
       else if ty = Rm_Set then rndis_set msg c else if ty = Rm_Reset then rndis_reset c else rndis_keepalive msg c)"
    using assms(3) n
    by (auto simp: process_rndis_message_def rndis_request_def copy_msg_def sizeof_RndisMessageHeader_def Let_def le32_at_take)
  have q: "length (query_oid oid c) \<le> 84" for oid
    using assms(1) query_oid_length[of c oid] by (simp add: rndis_inv_def)
  consider "ty = Rm_Init" | "ty = Rm_Query" | "ty = Rm_Set" | "ty = Rm_Reset" | "ty = Rm_Keepalive"
    using assms(3) by (auto simp: rndis_request_def)
  then show ?thesis
  proof cases
    case 1
    have "24 \<le> length msg" using assms(3) 1 by (simp add: rndis_request_def)
    then show ?thesis
      using 1 dispatch assms(2)
      by (auto simp: rndis_init_def copy_msg_def sizeof_RndisInitMsg_def enqueue_first enqueue_second le32_at_take
          simp del: rndis_msg.simps intro!: answer_forms)
  next
    case 2
    have "answers Rm_Query msg (RndisQueryCmplt_append_to (rndis_msg Rm_QueryComplete) 24 (le32_at 8 msg) b 0 d [])" for b d
      using answer_forms(5)[of msg "le32_at 8 msg" "[]" b 0 d] by (simp del: rndis_msg.simps)
    moreover have "28 \<le> length msg" using assms(3) 2 by (simp add: rndis_request_def)
    ultimately show ?thesis
      using 2 dispatch assms(2) q
      by (auto simp: rndis_query_def copy_msg_def sizeof_RndisQueryMsg_def Let_def enqueue_first le32_at_take
          simp del: rndis_msg.simps of_nat_add intro!: answer_forms)
  next
    case 3
    have "28 \<le> length msg" using assms(3) 3 by (simp add: rndis_request_def)
    then show ?thesis
      using 3 dispatch assms(2)
      by (auto simp: rndis_set_def copy_msg_def sizeof_RndisSetMsg_def Let_def enqueue_first le32_at_take
          simp del: rndis_msg.simps intro!: answer_forms)
  next
    case 4
    then show ?thesis
      using dispatch by (auto simp: rndis_reset_def enqueue_first simp del: rndis_msg.simps intro!: answer_forms)
  next
    case 5
    then show ?thesis
      using dispatch assms(2) n
      by (auto simp: rndis_keepalive_def copy_msg_def sizeof_RndisMessageHeader_def enqueue_first le32_at_take
          simp del: rndis_msg.simps intro!: answer_forms)
  qed
qed


section \<open>Properties\<close>

text \<open>RNDIS framing.  From a transfer of several host messages, each with any out-of-band words, any gap
  before its frame and any padding, and a remainder shorter than a header, exactly the frames of at
  least Ethernet header size come out, in order; and a packet the device builds gives back its frame.\<close>

theorem rndis_frames_roundtrip:
  assumes "\<forall>m \<in> set ms. host_packet_ok m" "length rest < 24" "14 \<le> length f" "length f < 2 ^ 31"
  shows "unwrap_rndis_packets (concat (map host_packet ms) @ rest) =
       filter (\<lambda>g. 14 \<le> length g) (map packet_frame ms) \<and>
     unwrap_rndis_packets (wrap_rndis_packet f) = [f]"
  using unwrap_messages[OF assms(1,2), of "concat (map host_packet ms) @ rest" "[]"] unwrap_wrap[OF assms(3,4)]
  by (simp add: unwrap_rndis_packets_def)

theorem rndis_frames_roundtrip_witness:
  "unwrap_rndis_packets (concat (map host_packet
       [(replicate 8 0, [], replicate 20 7, [0, 0]), (replicate 8 1, [9], [1, 2, 3], []), (replicate 8 2, [], replicate 14 5, [])]) @ [0]) =
     [replicate 20 7, replicate 14 5]"
  using rndis_frames_roundtrip[of "[(replicate 8 0, [], replicate 20 7, [0, 0]), (replicate 8 1, [9], [1, 2, 3], []),
      (replicate 8 2, [], replicate 14 5, [])]" "[0]" "replicate 20 0"]
  by simp

text \<open>In every run of the communication interface the queue of responses stays within its limit and
  holds only messages a host can parse, each of a type a device sends and with its own length; the
  notifications stay within their cap, and the data channel is enabled only with a packet filter set.\<close>

theorem rndis_control_invariant:
  assumes "length mac = 6" "rndis_step\<^sup>*\<^sup>* (rndis_comm_new mac speed n) c"
  shows "length (rc_response_queue c) \<le> 64 \<and> (\<forall>r \<in> set (rc_response_queue c). response_ok r) \<and>
     length (mb_pending (ic_buffer (rc_channel c))) \<le> 30 \<and> (is_data_enabled c \<longrightarrow> rc_packet_filter c \<noteq> 0)"
  using rndis_run_inv[OF assms(2) rndis_new_inv[OF assms(1)]]
  by (auto simp: rndis_inv_def capped_def mb_inv_def RNDIS_RESPONSE_QUEUE_LIMIT_def)

definition demo_keepalive :: data where
  "demo_keepalive = le_bytes (8 :: u32) @ le_bytes (12 :: u32) @ le_bytes (77 :: u32)"

theorem rndis_control_invariant_witness:
  "length (rc_response_queue (rndis_comm_on_new_connection 1 (rndis_comm_new [2, 0, 0, 0, 0, 1] Speed_High 0))) \<le> 64"
proof -
  have "rndis_step\<^sup>*\<^sup>* (rndis_comm_new [2, 0, 0, 0, 0, 1] Speed_High 0)
      (rndis_comm_on_new_connection 1 (rndis_comm_new [2, 0, 0, 0, 0, 1] Speed_High 0))"
    by (rule r_into_rtranclp) (rule rndis_step.connect)
  then show ?thesis using rndis_control_invariant[of "[2, 0, 0, 0, 0, 1]"] by simp
qed



definition demo_transfer :: "data \<Rightarrow> GenericTransfer" where
  "demo_transfer d = \<lparr>gt_data = d, gt_iso_descriptors = [], gt_actual_length = 0, gt_data_offset = 0, gt_is_in = False\<rparr>"

definition demo_handle :: "data \<Rightarrow> GenericTransfer TransferHandle" where
  "demo_handle d = \<lparr>th_handle = Some (demo_transfer d), th_op = Some (Leaf_op GenericTransferOperator)\<rparr>"


section \<open>A ping through the card\<close>

lemma in_request_delivers:
  assumes "\<not> ic_disconnected c" "erq_all (ic_requests c) = []" "mb_pending (ic_buffer c) = [m]" "handle_ok th"
    "length m \<le> unat len"
  shows "\<exists>r. ic_sent (ic_on_in_request message_ops ep s len th c) = ic_sent c @ [r] \<and> resp_data r = m"
proof -
  have e: "erq_get ep' qs = []" if "erq_all qs = []" for ep' and qs :: "'a EndpointRequestQueue"
    using that by (induction qs) auto
  obtain r where "ic_reply s len th m (c\<lparr>ic_buffer := (ic_buffer c)\<lparr>mb_pending := []\<rparr>\<rparr>) =
      ic_submit r (c\<lparr>ic_buffer := (ic_buffer c)\<lparr>mb_pending := []\<rparr>\<rparr>)" "resp_data r = take (unat len) m"
    using ic_reply_data[OF assms(4)] by blast
  then show ?thesis
    using assms(1,3,5) e[OF assms(2), of ep]
    by (auto simp: ic_on_in_request_def erq_empty_def message_ops_def ic_try_send_one_def mb_next_def)
qed



definition demo_card :: "EthernetEchoBackend rndis_data" where
  "demo_card = rndis_data_on_new_connection 1
     (rndis_data_new nb_set_send_to_host (Some (echo_backend_new [2, 0, 0, 0, 0, 1] [192, 168, 7, 2] 7)))"

definition demo_ping :: data where
  "demo_ping =
     host_packet (replicate 8 0, [], eth_frame [2, 0, 0, 0, 0, 1] [2, 0, 0, 0, 0, 2] ETH_TYPE_IPV4
       (ipv4_bytes (ipv4_reply_header IP_PROTO_ICMP [192, 168, 7, 1] [192, 168, 7, 2] 10) @
        icmp_bytes \<lparr>icmp_type = 8, icmp_code = 0, icmp_checksum = 0, icmp_id = 5, icmp_seq = 1\<rparr> @ [104, 105]), [])"


section \<open>CMD_UNLINK\<close>

interpretation rndis_comm_unlink: unlink_handler rndis_comm_handle_unlink_seqnum "\<lambda>c. ic_pending (rc_channel c)"
proof
  fix u n c
  show "fst (rndis_comm_handle_unlink_seqnum u n c) = [unlink_reply n (u \<in># ic_pending (rc_channel c))]"
    using in_cancel.cancel_found[of u "rc_channel c"]
    by (auto simp: rndis_comm_handle_unlink_seqnum_def split: prod.splits)
  show "ic_pending (rc_channel (snd (rndis_comm_handle_unlink_seqnum u n c))) = ic_pending (rc_channel c) - {#u#}"
    using in_cancel.cancel_pending[of u "rc_channel c"]
    by (auto simp: rndis_comm_handle_unlink_seqnum_def split: prod.splits)
qed

definition rndis_data_waiting :: "'b rndis_data \<Rightarrow> u32 multiset" where
  "rndis_data_waiting d = in_out_waiting (rd_in d, rd_out d)"

interpretation rndis_data_unlink: unlink_handler rndis_data_handle_unlink_seqnum rndis_data_waiting
proof
  fix u n d
  show "fst (rndis_data_handle_unlink_seqnum u n d) = [unlink_reply n (u \<in># rndis_data_waiting d)]"
    using in_out_unlink.unlink_answer[of u n "(rd_in d, rd_out d)"]
    by (auto simp: rndis_data_handle_unlink_seqnum_def rndis_data_waiting_def split: prod.split)
  show "rndis_data_waiting (snd (rndis_data_handle_unlink_seqnum u n d)) = rndis_data_waiting d - {#u#}"
    using in_out_unlink.unlink_waiting[of u n "(rd_in d, rd_out d)"]
    by (auto simp: rndis_data_handle_unlink_seqnum_def rndis_data_waiting_def split: prod.split)
qed

interpretation rndis_unlink: unlink_pair rndis_comm_handle_unlink_seqnum "\<lambda>c. ic_pending (rc_channel c)"
  rndis_data_handle_unlink_seqnum rndis_data_waiting ..

lemma rndis_unlink_answered_twice:
  "length (fst (unlink_handlers (both_handlers rndis_comm_handle_unlink_seqnum rndis_data_handle_unlink_seqnum) u n [0, 1] st)) = 2"
  by (simp only: rndis_unlink.both_replies) simp

text \<open>The packet filter can be set before INIT, which enables the data channel.\<close>

lemma set_filter_before_init:
  assumes "28 \<le> length msg" "le32_at 12 msg = OID_GEN_CURRENT_PACKET_FILTER" "8 + unat (le32_at 20 msg) + 4 \<le> length msg"
    "ucast (le32_at (8 + unat (le32_at 20 msg)) msg) \<noteq> (0 :: u16)"
  shows "is_data_enabled (rndis_set msg c)"
  using assms
  by (simp add: rndis_set_def copy_msg_def sizeof_RndisSetMsg_def Let_def le32_at_take is_data_enabled_def enqueue_response_def)

end
