(* ===== verification/Ecm.thy ===== *)
theory Ecm
  imports Net_Function Cdc_Acm
begin

text \<open>
  The CDC ECM network card (\<open>EcmVirtualInterfaceHandler\<close>): the communication interface with its packet
  filter and notifications, and the data interface, which carries one Ethernet frame per transfer.
\<close>

section \<open>Constants\<close>

datatype EcmRequest =
  Ecm_SetEthernetMulticastFilters | Ecm_SetEthernetPowerManagementPatternFilter
| Ecm_GetEthernetPowerManagementPatternFilter | Ecm_SetEthernetPacketFilter | Ecm_GetEthernetStatistic

fun ecm_request_code :: "EcmRequest \<Rightarrow> u8" where
  "ecm_request_code Ecm_SetEthernetMulticastFilters = 0x40"
| "ecm_request_code Ecm_SetEthernetPowerManagementPatternFilter = 0x41"
| "ecm_request_code Ecm_GetEthernetPowerManagementPatternFilter = 0x42"
| "ecm_request_code Ecm_SetEthernetPacketFilter = 0x43"
| "ecm_request_code Ecm_GetEthernetStatistic = 0x44"

datatype EcmNotification = En_NetworkConnection | En_ResponseAvailable | En_ConnectionSpeedChange

fun ecm_notification_code :: "EcmNotification \<Rightarrow> u8" where
  "ecm_notification_code En_NetworkConnection = 0x00"
| "ecm_notification_code En_ResponseAvailable = 0x01"
| "ecm_notification_code En_ConnectionSpeedChange = 0x2A"

definition CdcEthernetFunctionalDesc_append_to ::
    "u8 \<Rightarrow> u8 \<Rightarrow> u8 \<Rightarrow> u8 \<Rightarrow> u32 \<Rightarrow> u16 \<Rightarrow> u16 \<Rightarrow> u8 \<Rightarrow> data \<Rightarrow> data" where
  "CdcEthernetFunctionalDesc_append_to bLength bType bSubtype iMACAddress bmEthernetStatistics wMaxSegmentSize
     wNumberMCFilters bNumberPowerFilters d =
     vector_append_to_le d [F8 bLength, F8 bType, F8 bSubtype, F8 iMACAddress, F32 bmEthernetStatistics,
       F16 wMaxSegmentSize, F16 wNumberMCFilters, F8 bNumberPowerFilters]"

definition CdcNotificationHeader_append_to :: "u8 \<Rightarrow> u8 \<Rightarrow> u16 \<Rightarrow> u16 \<Rightarrow> u16 \<Rightarrow> data \<Rightarrow> data" where
  "CdcNotificationHeader_append_to bmRequestType bNotificationCode wValue wIndex wLength d =
     vector_append_to_le d [F8 bmRequestType, F8 bNotificationCode, F16 wValue, F16 wIndex, F16 wLength]"

text \<open>The data of a notification is null when there is none; its length is the length of the array.\<close>

definition make_cdc_notification :: "EcmNotification \<Rightarrow> u16 \<Rightarrow> u16 \<Rightarrow> data \<Rightarrow> data" where
  "make_cdc_notification code w_value w_index d =
     CdcNotificationHeader_append_to 0xA1 (ecm_notification_code code) w_value w_index (of_nat (length d)) [] @ d"

section \<open>The communication interface\<close>

record ecm_comm =
  ec_packet_filter :: u16
  ec_mac_string_index :: u8
  ec_interface_number :: u8
  ec_data_interface :: "u8 option"
  ec_channel :: "GenericTransfer MessageInChannel"

text \<open>\<open>%02X\<close> of \<open>snprintf\<close>, as wide characters.\<close>

definition hex_digit :: "u8 \<Rightarrow> u32" where
  "hex_digit v = (if v < 10 then 0x30 + ucast v else 0x41 + ucast (v - 10))"

definition hex2 :: "u8 \<Rightarrow> u32 list" where
  "hex2 b = [hex_digit (drop_bit 4 b), hex_digit (b AND 0x0F)]"

definition mac_string :: "data \<Rightarrow> wstring" where
  "mac_string mac = concat (map hex2 mac)"

definition ecm_comm_new :: "data \<Rightarrow> u8 \<Rightarrow> StringPool \<Rightarrow> pool_error + (ecm_comm \<times> StringPool)" where
  "ecm_comm_new mac_address n sp =
     (case new_string (mac_string mac_address) sp of
        Inl err \<Rightarrow> Inl err
      | Inr (index, sp') \<Rightarrow>
          Inr (\<lparr>ec_packet_filter = 0, ec_mac_string_index = index, ec_interface_number = n, ec_data_interface = None,
                ec_channel = msg_set_max_pending_messages 30 (in_channel_new \<lparr>mb_pending = [], mb_max = 0\<rparr>)\<rparr>, sp'))"

definition ecm_set_data_handler :: "u8 option \<Rightarrow> ecm_comm \<Rightarrow> ecm_comm" where
  "ecm_set_data_handler h c = c\<lparr>ec_data_interface := h\<rparr>"

definition ecm_comm_make_interface :: "u8 \<Rightarrow> UsbInterface" where
  "ecm_comm_make_interface interrupt_in_ep =
     default_interface\<lparr>interface_class := ClassCode_CDC, interface_subclass := 0x06, interface_protocol := 0x00,
       endpoints := [[\<lparr>ep_address = interrupt_in_ep, ep_attributes = ep_attr_code EA_Interrupt,
                       ep_max_packet_size = 16, ep_interval = 32\<rparr>]],
       interface_association_descriptor := Some (IadDesc_make 2 ClassCode_CDC 0x06 0 0)\<rparr>"

text \<open>The callback of the device is reported as the filter it is given.\<close>

definition ecm_comm_control ::
    "u32 \<Rightarrow> SetupPacket \<Rightarrow> ecm_comm \<Rightarrow> GenericTransfer UsbIpRetSubmit \<times> u16 list \<times> ecm_comm" where
  "ecm_comm_control seqnum sp c =
     (if calc_request_type sp = RequestType_Class
      then (let reply = (\<lambda>status. create_ret_submit_with_status_and_no_data seqnum (urb_status_code status) 0)
            in if \<not> setup_is_out sp then (reply StatusEPIPE, [], c)
               else if sp_request sp = ecm_request_code Ecm_SetEthernetPacketFilter
               then (if sp_length sp \<noteq> 0 then (reply StatusEPIPE, [], c)
                     else (reply StatusOK, [sp_value sp], c\<lparr>ec_packet_filter := sp_value sp\<rparr>))
               else (reply StatusEPIPE, [], c))
      else (create_ret_submit_epipe_without_data seqnum 0, [], c))"

definition ecm_comm_interrupt ::
    "UsbEndpoint \<Rightarrow> u32 \<Rightarrow> u32 \<Rightarrow> GenericTransfer TransferHandle \<Rightarrow> ecm_comm \<Rightarrow>
     GenericTransfer UsbIpRetSubmit list \<times> ecm_comm" where
  "ecm_comm_interrupt ep seqnum len th c =
     (if ep_is_in ep
      then ([], c\<lparr>ec_channel := ic_on_in_request message_ops (ep_address ep) seqnum len th (ec_channel c)\<rparr>)
      else ([create_ret_submit_epipe_without_data seqnum 0], c))"

definition ecm_comm_class_specific_descriptor :: "ecm_comm \<Rightarrow> data" where
  "ecm_comm_class_specific_descriptor c =
     CdcEthernetFunctionalDesc_append_to 0x0D CS_INTERFACE 0x0F (ec_mac_string_index c) 0 1514 0 0
       (CdcUnionFunctionalDesc_append_to 0x05 CS_INTERFACE 0x06 (ec_interface_number c)
          (case ec_data_interface c of Some n \<Rightarrow> n | None \<Rightarrow> 1)
          (CdcHeaderFunctionalDesc_append_to 0x05 CS_INTERFACE 0x00 0x0110 []))"

definition send_network_connection :: "bool \<Rightarrow> ecm_comm \<Rightarrow> ecm_comm" where
  "send_network_connection up c =
     c\<lparr>ec_channel := snd (msg_push
         (make_cdc_notification En_NetworkConnection (if up then 1 else 0) (ucast (ec_interface_number c)) []) True
         (ec_channel c))\<rparr>"

definition speed_data :: "u32 \<Rightarrow> u32 \<Rightarrow> data" where
  "speed_data up_speed down_speed =
     [ucast (up_speed AND 0xFF), ucast (drop_bit 8 up_speed AND 0xFF), ucast (drop_bit 16 up_speed AND 0xFF),
      ucast (drop_bit 24 up_speed AND 0xFF), ucast (down_speed AND 0xFF), ucast (drop_bit 8 down_speed AND 0xFF),
      ucast (drop_bit 16 down_speed AND 0xFF), ucast (drop_bit 24 down_speed AND 0xFF)]"

definition send_speed_change :: "u32 \<Rightarrow> u32 \<Rightarrow> ecm_comm \<Rightarrow> ecm_comm" where
  "send_speed_change up_speed down_speed c =
     c\<lparr>ec_channel := snd (msg_push
         (make_cdc_notification En_ConnectionSpeedChange 0 (ucast (ec_interface_number c)) (speed_data up_speed down_speed))
         True (ec_channel c))\<rparr>"

definition ecm_comm_on_new_connection :: "nat \<Rightarrow> ecm_comm \<Rightarrow> ecm_comm" where
  "ecm_comm_on_new_connection session c =
     c\<lparr>ec_channel := ic_on_new_connection message_ops (Some session) (ec_channel c)\<rparr>"

definition ecm_comm_on_disconnection :: "ecm_comm \<Rightarrow> ecm_comm" where
  "ecm_comm_on_disconnection c = c\<lparr>ec_channel := ic_on_disconnection message_ops (ec_channel c)\<rparr>"

definition ecm_comm_handle_unlink_seqnum :: "u32 \<Rightarrow> u32 \<Rightarrow> ecm_comm \<Rightarrow> UsbIpRetUnlink list \<times> ecm_comm" where
  "ecm_comm_handle_unlink_seqnum unlink_seqnum cmd_seqnum c =
     (case ic_cancel_pending unlink_seqnum (ec_channel c) of
        (cancelled, ch) \<Rightarrow> ([unlink_reply cmd_seqnum cancelled], c\<lparr>ec_channel := ch\<rparr>))"

section \<open>The data interface\<close>

record 'b ecm_data =
  ed_in :: "GenericTransfer MessageInChannel"
  ed_out :: "GenericTransfer out_channel"
  ed_backend :: "'b option"

definition ecm_data_new :: "('b \<Rightarrow> 'b) \<Rightarrow> 'b option \<Rightarrow> 'b ecm_data" where
  "ecm_data_new set_send_to_host backend =
     \<lparr>ed_in = in_channel_new \<lparr>mb_pending = [], mb_max = 0\<rparr>, ed_out = out_channel_new,
      ed_backend = map_option set_send_to_host backend\<rparr>"

definition ecm_data_make_interface :: "u8 \<Rightarrow> u8 \<Rightarrow> UsbInterface" where
  "ecm_data_make_interface in_ep out_ep =
     default_interface\<lparr>interface_class := ClassCode_CDCData, interface_subclass := 0x00, interface_protocol := 0x00,
       endpoints := [[], [\<lparr>ep_address = in_ep, ep_attributes = ep_attr_code EA_Bulk, ep_max_packet_size = 64,
                           ep_interval = 0\<rparr>,
                          \<lparr>ep_address = out_ep, ep_attributes = ep_attr_code EA_Bulk, ep_max_packet_size = 64,
                           ep_interval = 0\<rparr>]]\<rparr>"

text \<open>\<open>on_frame_received\<close> is the callback of the derived class; it leaves the data in place when it returns
  false.\<close>

definition ecm_data_bulk ::
    "'b net_ops \<Rightarrow> (data \<Rightarrow> 'c \<Rightarrow> bool \<times> 'c) \<Rightarrow> UsbEndpoint \<Rightarrow> u32 \<Rightarrow> u32 \<Rightarrow> GenericTransfer TransferHandle \<Rightarrow>
     'b ecm_data \<times> 'c \<Rightarrow> (GenericTransfer UsbIpRetSubmit list \<times> 'b ecm_data \<times> 'c) option" where
  "ecm_data_bulk ops on_frame_received ep seqnum len th st =
     (case st of (d, s) \<Rightarrow>
        if ep_is_in ep
        then Some ([], d\<lparr>ed_in := ic_on_in_request message_ops (ep_address ep) seqnum len th (ed_in d)\<rparr>, s)
        else (case th_handle th of
                None \<Rightarrow> None
              | Some trx \<Rightarrow>
                  (let ok = [create_ret_submit_ok_without_data seqnum (of_nat (length (gt_data trx)))]
                   in case ed_backend d of
                        Some b \<Rightarrow>
                          (case net_send_frame ops (gt_data trx) b of
                             None \<Rightarrow> None
                           | Some (out, b') \<Rightarrow> Some (ok, d\<lparr>ed_backend := Some b', ed_in := push_all out (ed_in d)\<rparr>, s))
                      | None \<Rightarrow>
                          (case on_frame_received (gt_data trx) s of
                             (taken, s1) \<Rightarrow>
                               if taken then Some (ok, d, s1)
                               else Some ([], d\<lparr>ed_out := oc_on_out_request (ep_address ep) seqnum th None (ed_out d)\<rparr>, s1)))))"

definition ecm_data_control :: "u32 \<Rightarrow> GenericTransfer UsbIpRetSubmit" where
  "ecm_data_control seqnum = create_ret_submit_epipe_without_data seqnum 0"

definition ecm_on_frame_received :: "data \<Rightarrow> 'c \<Rightarrow> bool \<times> 'c" where
  "ecm_on_frame_received frame s = (True, s)"

definition ecm_send_frame :: "data \<Rightarrow> 'b ecm_data \<Rightarrow> nat \<times> 'b ecm_data" where
  "ecm_send_frame f d =
     (if length f = 0 then (0, d) else (length f, d\<lparr>ed_in := snd (msg_push f True (ed_in d))\<rparr>))"

definition ecm_take_frame ::
    "nat \<Rightarrow> ((GenericTransfer out_channel \<Rightarrow> GenericTransfer out_channel) \<times> bool) list \<Rightarrow> 'b ecm_data \<Rightarrow>
     (Pending option \<times> 'b ecm_data) option" where
  "ecm_take_frame timeout_ms env d =
     map_option (\<lambda>(p, ch). (p, d\<lparr>ed_out := ch\<rparr>)) (oc_take timeout_ms env (ed_out d))"

definition ecm_try_take_frame :: "'b ecm_data \<Rightarrow> Pending option \<times> 'b ecm_data" where
  "ecm_try_take_frame d = (case oc_try_take (ed_out d) of (p, ch) \<Rightarrow> (p, d\<lparr>ed_out := ch\<rparr>))"

definition ecm_set_tx_max_pending :: "nat \<Rightarrow> 'b ecm_data \<Rightarrow> 'b ecm_data" where
  "ecm_set_tx_max_pending n d = d\<lparr>ed_in := msg_set_max_pending_messages n (ed_in d)\<rparr>"

definition ecm_data_on_new_connection :: "nat \<Rightarrow> 'b ecm_data \<Rightarrow> 'b ecm_data" where
  "ecm_data_on_new_connection session d =
     d\<lparr>ed_in := ic_on_new_connection message_ops (Some session) (ed_in d),
       ed_out := oc_on_new_connection (Some session) (ed_out d)\<rparr>"

definition ecm_data_on_disconnection :: "'b net_ops \<Rightarrow> 'b ecm_data \<Rightarrow> 'b ecm_data" where
  "ecm_data_on_disconnection ops d =
     d\<lparr>ed_out := oc_on_disconnection (ed_out d), ed_in := ic_on_disconnection message_ops (ed_in d),
       ed_backend := map_option (net_reset ops) (ed_backend d)\<rparr>"

definition ecm_data_handle_unlink_seqnum :: "u32 \<Rightarrow> u32 \<Rightarrow> 'b ecm_data \<Rightarrow> UsbIpRetUnlink list \<times> 'b ecm_data" where
  "ecm_data_handle_unlink_seqnum unlink_seqnum cmd_seqnum d =
     (case unlink_in_out unlink_seqnum cmd_seqnum (ed_in d, ed_out d) of
        (rs, i, oc) \<Rightarrow> (rs, d\<lparr>ed_in := i, ed_out := oc\<rparr>))"

section \<open>Facts\<close>

text \<open>The string of the address has the form a host accepts, upper-case digits, two for each byte, and reading
  them gives the address back.\<close>

definition hex_value :: "u32 \<Rightarrow> u8" where
  "hex_value c = (if c \<le> 0x39 then ucast (c - 0x30) else ucast (c - 0x41) + 10)"

fun read_hex :: "wstring \<Rightarrow> data" where
  "read_hex (a # b # r) = (push_bit 4 (hex_value a) OR hex_value b) # read_hex r"
| "read_hex _ = []"

definition is_hex_digit :: "u32 \<Rightarrow> bool" where
  "is_hex_digit c \<longleftrightarrow> 0x30 \<le> c \<and> c \<le> 0x39 \<or> 0x41 \<le> c \<and> c \<le> 0x46"

lemma hex_digit_value:
  assumes "unat (v :: u8) < 16"
  shows "hex_value (hex_digit v) = v \<and> is_hex_digit (hex_digit v)"
proof -
  have v: "v = of_nat (unat v)" by simp
  have "unat v \<in> {0, 1, 2, 3, 4, 5, 6, 7, 8, 9, 10, 11, 12, 13, 14, 15}"
    using assms unfolding insert_iff empty_iff by presburger
  then have "of_nat (unat v) \<in> (of_nat :: nat \<Rightarrow> u8) ` {0, 1, 2, 3, 4, 5, 6, 7, 8, 9, 10, 11, 12, 13, 14, 15}"
    by (rule imageI)
  then have "v \<in> {0, 1, 2, 3, 4, 5, 6, 7, 8, 9, 10, 11, 12, 13, 14, 15}" unfolding v[symmetric] by simp
  then show ?thesis
    by (elim insertE emptyE) (simp_all add: hex_value_def hex_digit_def is_hex_digit_def)
qed

lemma nibbles:
  "unat (drop_bit 4 (b :: u8)) < 16" "unat (b AND 0x0F) < 16" "push_bit 4 (drop_bit 4 b) OR (b AND 0x0F) = b"
proof -
  have m: "b AND 0x0F = take_bit 4 b" by (simp add: take_bit_eq_mask mask_eq_exp_minus_1)
  have "unat (drop_bit 4 b) = drop_bit 4 (unat b)" by (rule unat_drop_bit_eq)
  then show "unat (drop_bit 4 b) < 16" using unat_bound[of b] by (simp add: drop_bit_eq_div)
  have "unat (take_bit 4 b) = take_bit 4 (unat b)" by (rule unsigned_take_bit_eq)
  then show "unat (b AND 0x0F) < 16" by (simp add: m take_bit_eq_mod)
  show "push_bit 4 (drop_bit 4 b) OR (b AND 0x0F) = b"
    unfolding m by (rule bit_word_eqI) (auto simp: bit_or_iff bit_push_bit_iff bit_drop_bit_eq bit_take_bit_iff)
qed

lemma mac_string_roundtrip:
  "read_hex (mac_string mac) = mac \<and> length (mac_string mac) = 2 * length mac \<and> (\<forall>c \<in> set (mac_string mac). is_hex_digit c)"
  by (induction mac) (auto simp: mac_string_def hex2_def hex_digit_value nibbles)

lemma ecm_comm_new_ok:
  assumes "ecm_comm_new mac n sp = Inr (c, sp')"
  shows "get_string (ec_mac_string_index c) sp' = Some (mac_string mac) \<and> ec_mac_string_index c \<noteq> 0"
  using assms new_string_spec[where str = "mac_string mac" and sp = sp]
  by (auto simp: ecm_comm_new_def get_string_def split: sum.splits prod.splits)

text \<open>Notifications fit into one packet of the status endpoint.\<close>

lemma ecm_notifications_fit:
  "length (make_cdc_notification En_NetworkConnection v i []) = 8"
  "length (make_cdc_notification En_ConnectionSpeedChange v i (speed_data up down)) = 16"
  by (simp_all add: make_cdc_notification_def CdcNotificationHeader_append_to_def speed_data_def)

text \<open>A frame from the host goes to the backend as it is, and what the backend sends comes to the host frame
  by frame; with the echo backend no transfer of up to 1534 bytes is undefined.\<close>

lemma ecm_bulk_out:
  assumes "ed_backend d = Some e" "echo_ok e" "th_handle th = Some trx" "length (gt_data trx) \<le> 1534" "\<not> ep_is_in ep"
  shows "\<exists>out e'. ecm_data_bulk echo_ops cb ep s len th (d, st) =
     Some ([create_ret_submit_ok_without_data s (of_nat (length (gt_data trx)))],
           d\<lparr>ed_backend := Some e', ed_in := push_all out (ed_in d)\<rparr>, st) \<and> echo_ok e' \<and> (\<forall>f \<in> set out. legal_size f)"
proof -
  obtain out e' where "net_send_frame echo_ops (gt_data trx) e = Some (out, e')" "echo_ok e'" "\<forall>f \<in> set out. legal_size f"
    using echo_network.send_ok[OF assms(2,4)] by blast
  with assms show ?thesis by (intro exI[of _ out] exI[of _ e']) (simp add: ecm_data_bulk_def Let_def)
qed

interpretation ecm_comm_unlink: unlink_handler ecm_comm_handle_unlink_seqnum "\<lambda>c. ic_pending (ec_channel c)"
proof
  fix u n c
  show "fst (ecm_comm_handle_unlink_seqnum u n c) = [unlink_reply n (u \<in># ic_pending (ec_channel c))]"
    using in_cancel.cancel_found[of u "ec_channel c"]
    by (auto simp: ecm_comm_handle_unlink_seqnum_def split: prod.splits)
  show "ic_pending (ec_channel (snd (ecm_comm_handle_unlink_seqnum u n c))) = ic_pending (ec_channel c) - {#u#}"
    using in_cancel.cancel_pending[of u "ec_channel c"]
    by (auto simp: ecm_comm_handle_unlink_seqnum_def split: prod.splits)
qed

definition ecm_data_waiting :: "'b ecm_data \<Rightarrow> u32 multiset" where
  "ecm_data_waiting d = in_out_waiting (ed_in d, ed_out d)"

interpretation ecm_data_unlink: unlink_handler ecm_data_handle_unlink_seqnum ecm_data_waiting
proof
  fix u n d
  show "fst (ecm_data_handle_unlink_seqnum u n d) = [unlink_reply n (u \<in># ecm_data_waiting d)]"
    using in_out_unlink.unlink_answer[of u n "(ed_in d, ed_out d)"]
    by (auto simp: ecm_data_handle_unlink_seqnum_def ecm_data_waiting_def split: prod.split)
  show "ecm_data_waiting (snd (ecm_data_handle_unlink_seqnum u n d)) = ecm_data_waiting d - {#u#}"
    using in_out_unlink.unlink_waiting[of u n "(ed_in d, ed_out d)"]
    by (auto simp: ecm_data_handle_unlink_seqnum_def ecm_data_waiting_def split: prod.split)
qed

interpretation ecm_unlink: unlink_pair ecm_comm_handle_unlink_seqnum "\<lambda>c. ic_pending (ec_channel c)"
  ecm_data_handle_unlink_seqnum ecm_data_waiting ..

end
