(* ===== verification/Pipe.thy ===== *)
theory Pipe
  imports Unlink "HOL-Library.AList"
begin

text \<open>
  The pipe device of \<open>virtual_device/PipeDeviceHandler\<close>: every endpoint of the device is a pipe the
  application reads and writes like a file. The device keeps one channel per endpoint, created on
  first use; \<open>read\<close> takes the oldest request over all OUT channels, \<open>write\<close> feeds the FIFO of one
  IN channel. \<open>pipe_mutex\<close> makes every operation one atomic step; the blocking calls get the list of
  what other threads did before each wake-up, as in \<open>In_Channel\<close>.
\<close>

section \<open>Sequence numbers\<close>

text \<open>\<open>utils.h\<close>: comparison of sequence numbers on the 32-bit circle.\<close>

definition seqnum_newer :: "u32 \<Rightarrow> u32 \<Rightarrow> bool" where
  "seqnum_newer a b \<longleftrightarrow> 0 < sint (a - b)"

section \<open>The device\<close>

record PipeXfer =
  px_ep :: u8
  px_setup_req :: "SetupPacket option"
  px_data :: data

text \<open>\<open>out_channels\<close> is a \<open>std::map\<close>, iterated in the order of the endpoint addresses;
  \<open>in_channels\<close> is an unordered map, only searched (the model appends a new endpoint).\<close>

record 'tr PipeDeviceHandler =
  pp_out_channels :: "(u8 \<times> 'tr out_channel) list"
  pp_in_channels :: "(u8 \<times> 'tr ByteStreamInChannel) list"
  pp_disconnected :: bool
  pp_responder :: "nat option"
  pp_fifo_capacity :: nat
  pp_class_specific_descriptor :: data
  pp_custom_descriptors :: "u8 \<rightharpoonup> data"

definition PipeDeviceHandler_new :: "'tr PipeDeviceHandler" where
  "PipeDeviceHandler_new =
     \<lparr>pp_out_channels = [], pp_in_channels = [], pp_disconnected = True, pp_responder = None,
      pp_fifo_capacity = 64 * 1024, pp_class_specific_descriptor = [], pp_custom_descriptors = (\<lambda>_. None)\<rparr>"

definition set_in_fifo_capacity :: "nat \<Rightarrow> 'tr PipeDeviceHandler \<Rightarrow> 'tr PipeDeviceHandler" where
  "set_in_fifo_capacity capacity p = p\<lparr>pp_fifo_capacity := capacity\<rparr>"

definition set_class_specific_descriptor :: "data \<Rightarrow> 'tr PipeDeviceHandler \<Rightarrow> 'tr PipeDeviceHandler" where
  "set_class_specific_descriptor d p = p\<lparr>pp_class_specific_descriptor := d\<rparr>"

definition set_custom_descriptor :: "u8 \<Rightarrow> data \<Rightarrow> 'tr PipeDeviceHandler \<Rightarrow> 'tr PipeDeviceHandler" where
  "set_custom_descriptor type d p = p\<lparr>pp_custom_descriptors := (pp_custom_descriptors p)(type \<mapsto> d)\<rparr>"

text \<open>\<open>std::map::try_emplace\<close> of a key that is not there.\<close>

fun map_emplace :: "u8 \<Rightarrow> 'c \<Rightarrow> (u8 \<times> 'c) list \<Rightarrow> (u8 \<times> 'c) list" where
  "map_emplace k c [] = [(k, c)]"
| "map_emplace k c ((k', c') # m) = (if k < k' then (k, c) # (k', c') # m else (k', c') # map_emplace k c m)"

definition get_in_channel ::
    "u8 \<Rightarrow> 'tr PipeDeviceHandler \<Rightarrow> 'tr ByteStreamInChannel \<times> 'tr PipeDeviceHandler" where
  "get_in_channel ep_addr p =
     (case map_of (pp_in_channels p) ep_addr of
        Some ch \<Rightarrow> (ch, p)
      | None \<Rightarrow>
          (let ch = ic_on_new_connection stream_ops (pp_responder p)
                      (bs_set_capacity (pp_fifo_capacity p)
                         (in_channel_new \<lparr>bb_ring = RingBuffer_new (64 * 1024), bb_pull = None\<rparr>))
           in (ch, p\<lparr>pp_in_channels := pp_in_channels p @ [(ep_addr, ch)]\<rparr>)))"

definition get_out_channel ::
    "u8 \<Rightarrow> 'tr PipeDeviceHandler \<Rightarrow> 'tr out_channel \<times> 'tr PipeDeviceHandler" where
  "get_out_channel ep_addr p =
     (case map_of (pp_out_channels p) ep_addr of
        Some ch \<Rightarrow> (ch, p)
      | None \<Rightarrow>
          (let ch = oc_on_new_connection (pp_responder p) out_channel_new
           in (ch, p\<lparr>pp_out_channels := map_emplace ep_addr ch (pp_out_channels p)\<rparr>)))"

text \<open>An operation on the channel the two functions return.\<close>

definition with_in_channel ::
    "u8 \<Rightarrow> ('tr ByteStreamInChannel \<Rightarrow> 'tr ByteStreamInChannel) \<Rightarrow> 'tr PipeDeviceHandler \<Rightarrow> 'tr PipeDeviceHandler" where
  "with_in_channel ep_addr f p =
     (case get_in_channel ep_addr p of
        (ch, p') \<Rightarrow> p'\<lparr>pp_in_channels := AList.update ep_addr (f ch) (pp_in_channels p')\<rparr>)"

definition with_out_channel ::
    "u8 \<Rightarrow> ('tr out_channel \<Rightarrow> 'tr out_channel) \<Rightarrow> 'tr PipeDeviceHandler \<Rightarrow> 'tr PipeDeviceHandler" where
  "with_out_channel ep_addr f p =
     (case get_out_channel ep_addr p of
        (ch, p') \<Rightarrow> p'\<lparr>pp_out_channels := AList.update ep_addr (f ch) (pp_out_channels p')\<rparr>)"

section \<open>Requests of the host\<close>

definition on_pipe_in_request ::
    "u8 \<Rightarrow> u32 \<Rightarrow> u32 \<Rightarrow> 'tr TransferHandle \<Rightarrow> 'tr PipeDeviceHandler \<Rightarrow> 'tr PipeDeviceHandler" where
  "on_pipe_in_request ep_addr seqnum len th p =
     with_in_channel ep_addr (ic_on_in_request stream_ops ep_addr seqnum len th) p"

definition on_pipe_out_transfer ::
    "u8 \<Rightarrow> u32 \<Rightarrow> 'tr TransferHandle \<Rightarrow> 'tr PipeDeviceHandler \<Rightarrow> 'tr PipeDeviceHandler" where
  "on_pipe_out_transfer ep_addr seqnum th p =
     with_out_channel ep_addr (oc_on_out_request ep_addr seqnum th None) p"

definition on_pipe_control_request ::
    "SetupPacket \<Rightarrow> u32 \<Rightarrow> u32 \<Rightarrow> 'tr TransferHandle \<Rightarrow> 'tr PipeDeviceHandler \<Rightarrow> 'tr PipeDeviceHandler" where
  "on_pipe_control_request setup seqnum transfer_buffer_length th p =
     (if setup_is_out setup
      then with_out_channel 0 (oc_on_out_request 0 seqnum th (Some setup)) p
      else with_out_channel 0 (oc_on_out_request 0 seqnum TransferHandle_empty (Some setup))
             (with_in_channel 0 (ic_on_in_request stream_ops 0 seqnum transfer_buffer_length th) p))"

text \<open>\<open>PipeInterfaceHandler\<close>: transfers and non-standard requests go to the device.\<close>

definition forward_transfer ::
    "u32 \<Rightarrow> UsbEndpoint \<Rightarrow> u32 \<Rightarrow> 'tr TransferHandle \<Rightarrow> 'tr PipeDeviceHandler \<Rightarrow> 'tr PipeDeviceHandler" where
  "forward_transfer seqnum ep transfer_buffer_length th p =
     (if ep_is_in ep then on_pipe_in_request (ep_address ep) seqnum transfer_buffer_length th p
      else on_pipe_out_transfer (ep_address ep) seqnum th p)"

definition pipe_handle_bulk_transfer ::
    "u32 \<Rightarrow> UsbEndpoint \<Rightarrow> u32 \<Rightarrow> 'tr TransferHandle \<Rightarrow> 'tr PipeDeviceHandler \<Rightarrow> 'tr PipeDeviceHandler" where
  "pipe_handle_bulk_transfer = forward_transfer"

definition pipe_handle_interrupt_transfer ::
    "u32 \<Rightarrow> UsbEndpoint \<Rightarrow> u32 \<Rightarrow> 'tr TransferHandle \<Rightarrow> 'tr PipeDeviceHandler \<Rightarrow> 'tr PipeDeviceHandler" where
  "pipe_handle_interrupt_transfer = forward_transfer"

section \<open>Unlink\<close>

text \<open>The loops of \<open>on_pipe_unlink\<close>: each channel in turn until one cancels.\<close>

fun cancel_first :: "('c \<Rightarrow> bool \<times> 'c) \<Rightarrow> (u8 \<times> 'c) list \<Rightarrow> bool \<times> (u8 \<times> 'c) list" where
  "cancel_first cancel [] = (False, [])"
| "cancel_first cancel ((ep, ch) # chs) =
     (case cancel ch of
        (True, ch') \<Rightarrow> (True, (ep, ch') # chs)
      | (False, ch') \<Rightarrow> (case cancel_first cancel chs of (b, chs') \<Rightarrow> (b, (ep, ch') # chs')))"

definition on_pipe_unlink ::
    "u32 \<Rightarrow> u32 \<Rightarrow> 'tr PipeDeviceHandler \<Rightarrow> UsbIpRetUnlink list \<times> 'tr PipeDeviceHandler" where
  "on_pipe_unlink unlink_seqnum cmd_seqnum p =
     (case cancel_first (ic_cancel_pending unlink_seqnum) (pp_in_channels p) of
        (cancelled, ins) \<Rightarrow>
          (case (if \<not> cancelled then cancel_first (oc_cancel_pending unlink_seqnum) (pp_out_channels p)
                 else (True, pp_out_channels p)) of
             (cancelled', outs) \<Rightarrow>
               ([unlink_reply cmd_seqnum cancelled'], p\<lparr>pp_in_channels := ins, pp_out_channels := outs\<rparr>)))"

section \<open>Read and write\<close>

text \<open>The scan of \<open>take_one\<close>: the endpoint whose first request is the oldest so far.\<close>

fun oldest_channel :: "(u8 \<times> u32) option \<Rightarrow> (u8 \<times> 'tr out_channel) list \<Rightarrow> (u8 \<times> u32) option" where
  "oldest_channel oldest [] = oldest"
| "oldest_channel oldest ((ep, ch) # chs) =
     (case oc_front_seqnum ch of
        None \<Rightarrow> oldest_channel oldest chs
      | Some sn \<Rightarrow>
          oldest_channel
            (case oldest of
               None \<Rightarrow> Some (ep, sn)
             | Some (_, old) \<Rightarrow> if seqnum_newer old sn then Some (ep, sn) else oldest) chs)"

definition pipe_take_one :: "'tr PipeDeviceHandler \<Rightarrow> PipeXfer option \<times> 'tr PipeDeviceHandler" where
  "pipe_take_one p =
     (case oldest_channel None (pp_out_channels p) of
        None \<Rightarrow> (None, p)
      | Some (ep, _) \<Rightarrow>
          (case map_of (pp_out_channels p) ep of
             None \<Rightarrow> (None, p)
           | Some ch \<Rightarrow>
               (case oc_try_take ch of
                  (taken, ch') \<Rightarrow>
                    (map_option (\<lambda>d. \<lparr>px_ep = pd_ep d, px_setup_req = pd_setup_req d, px_data = pd_data d\<rparr>) taken,
                     p\<lparr>pp_out_channels := AList.update ep ch' (pp_out_channels p)\<rparr>))))"

text \<open>\<open>read\<close>; the outer result is \<open>None\<close> while the call still waits, the inner one where it
  returns false.\<close>

fun pipe_read ::
    "nat \<Rightarrow> (('tr PipeDeviceHandler \<Rightarrow> 'tr PipeDeviceHandler) \<times> bool) list \<Rightarrow> 'tr PipeDeviceHandler \<Rightarrow>
     (PipeXfer option \<times> 'tr PipeDeviceHandler) option" where
  "pipe_read timeout_ms [] p =
     (if pp_disconnected p then Some (pipe_take_one p)
      else (case pipe_take_one p of
              (Some x, p') \<Rightarrow> Some (Some x, p')
            | (None, _) \<Rightarrow> None))"
| "pipe_read timeout_ms ((others, timed_out) # env) p =
     (if pp_disconnected p then Some (pipe_take_one p)
      else (case pipe_take_one p of
              (Some x, p') \<Rightarrow> Some (Some x, p')
            | (None, p') \<Rightarrow>
                if timeout_ms \<noteq> 0 \<and> timed_out then Some (pipe_take_one (others p'))
                else pipe_read timeout_ms env (others p')))"

text \<open>\<open>write\<close> holds \<open>pipe_mutex\<close> only to look up the channel; the interferences are what the other
  threads do to this channel while the session lasts.\<close>

definition pipe_write ::
    "PipeXfer \<Rightarrow> nat \<Rightarrow> (('tr ByteStreamInChannel \<Rightarrow> 'tr ByteStreamInChannel) \<times> bool) list \<Rightarrow>
     'tr PipeDeviceHandler \<Rightarrow> (nat \<times> 'tr PipeDeviceHandler) option" where
  "pipe_write xfer timeout_ms env p =
     (if pp_disconnected p then Some (0, p)
      else (case get_in_channel (px_ep xfer) p of
              (ch, p') \<Rightarrow>
                map_option (\<lambda>(n, ch'). (n, p'\<lparr>pp_in_channels :=
                    AList.update (px_ep xfer) ch' (pp_in_channels p')\<rparr>))
                  (bs_write (px_data xfer) timeout_ms env ch 0)))"

section \<open>Connections\<close>

text \<open>The base class registers the session and connects the interfaces; \<open>outcome\<close> is what their
  \<open>on_new_connection\<close> leaves.\<close>

definition pipe_on_new_connection ::
    "(nat \<Rightarrow> ErrorType option) \<Rightarrow> bool \<Rightarrow> UsbInterface list \<Rightarrow> nat \<Rightarrow> 'tr PipeDeviceHandler \<Rightarrow>
     conn_event list \<times> ErrorType option \<times> 'tr PipeDeviceHandler" where
  "pipe_on_new_connection outcome use_transfer_scheduler intfs session p =
     (case vd_on_new_connection outcome use_transfer_scheduler intfs of
        (evs, ec) \<Rightarrow>
          (evs, ec,
           if ec \<noteq> None then p\<lparr>pp_responder := None\<rparr>
           else p\<lparr>pp_responder := Some session, pp_disconnected := False, pp_in_channels := [],
                  pp_out_channels := []\<rparr>))"

definition pipe_on_disconnection ::
    "bool \<Rightarrow> UsbInterface list \<Rightarrow> 'tr PipeDeviceHandler \<Rightarrow> conn_event list \<times> 'tr PipeDeviceHandler" where
  "pipe_on_disconnection use_transfer_scheduler intfs p =
     (vd_on_disconnection use_transfer_scheduler intfs,
      p\<lparr>pp_disconnected := True, pp_in_channels := [], pp_out_channels := [], pp_responder := None\<rparr>)"

section \<open>Standard requests\<close>

text \<open>The callbacks of \<open>PipeStandardRequestHandler\<close>; each gets the device and may use its public
  operations. An absent callback is the default of the base class.\<close>

record 'p PipeStandardRequestHandler =
  cb_clear_feature :: "('p \<Rightarrow> u16 \<Rightarrow> u32 \<times> 'p) option"
  cb_endpoint_clear_feature :: "('p \<Rightarrow> u16 \<Rightarrow> u8 \<Rightarrow> u32 \<times> 'p) option"
  cb_get_interface :: "('p \<Rightarrow> (u8 \<times> u32) \<times> 'p) option"
  cb_set_interface :: "('p \<Rightarrow> u16 \<Rightarrow> u32 \<times> 'p) option"
  cb_get_status :: "('p \<Rightarrow> (u16 \<times> u32) \<times> 'p) option"
  cb_endpoint_get_status :: "('p \<Rightarrow> u8 \<Rightarrow> (u16 \<times> u32) \<times> 'p) option"
  cb_set_feature :: "('p \<Rightarrow> u16 \<Rightarrow> u32 \<times> 'p) option"
  cb_endpoint_set_feature :: "('p \<Rightarrow> u16 \<Rightarrow> u8 \<Rightarrow> u32 \<times> 'p) option"

definition pipe_clear_feature ::
    "'p PipeStandardRequestHandler \<Rightarrow> interface_handler \<Rightarrow> u16 \<Rightarrow> 'p \<Rightarrow> u32 \<times> 'p" where
  "pipe_clear_feature cbs base feature_selector p =
     (case cb_clear_feature cbs of Some f \<Rightarrow> f p feature_selector
      | None \<Rightarrow> (ih_clear_feature base feature_selector, p))"

definition pipe_endpoint_clear_feature ::
    "'p PipeStandardRequestHandler \<Rightarrow> interface_handler \<Rightarrow> u16 \<Rightarrow> u8 \<Rightarrow> 'p \<Rightarrow> u32 \<times> 'p" where
  "pipe_endpoint_clear_feature cbs base feature_selector ep p =
     (case cb_endpoint_clear_feature cbs of Some f \<Rightarrow> f p feature_selector ep
      | None \<Rightarrow> (ih_endpoint_clear_feature base feature_selector ep, p))"

definition pipe_get_interface ::
    "'p PipeStandardRequestHandler \<Rightarrow> interface_handler \<Rightarrow> 'p \<Rightarrow> (u8 \<times> u32) \<times> 'p" where
  "pipe_get_interface cbs base p =
     (case cb_get_interface cbs of Some f \<Rightarrow> f p | None \<Rightarrow> (ih_get_interface base, p))"

definition pipe_set_interface ::
    "'p PipeStandardRequestHandler \<Rightarrow> interface_handler \<Rightarrow> u16 \<Rightarrow> 'p \<Rightarrow> u32 \<times> 'p" where
  "pipe_set_interface cbs base alternate_setting p =
     (case cb_set_interface cbs of Some f \<Rightarrow> f p alternate_setting
      | None \<Rightarrow> (ih_set_interface base alternate_setting, p))"

definition pipe_get_status ::
    "'p PipeStandardRequestHandler \<Rightarrow> interface_handler \<Rightarrow> 'p \<Rightarrow> (u16 \<times> u32) \<times> 'p" where
  "pipe_get_status cbs base p =
     (case cb_get_status cbs of Some f \<Rightarrow> f p | None \<Rightarrow> (ih_get_status base, p))"

definition pipe_endpoint_get_status ::
    "'p PipeStandardRequestHandler \<Rightarrow> interface_handler \<Rightarrow> u8 \<Rightarrow> 'p \<Rightarrow> (u16 \<times> u32) \<times> 'p" where
  "pipe_endpoint_get_status cbs base ep p =
     (case cb_endpoint_get_status cbs of Some f \<Rightarrow> f p ep
      | None \<Rightarrow> (ih_endpoint_get_status base ep, p))"

definition pipe_set_feature ::
    "'p PipeStandardRequestHandler \<Rightarrow> interface_handler \<Rightarrow> u16 \<Rightarrow> 'p \<Rightarrow> u32 \<times> 'p" where
  "pipe_set_feature cbs base feature_selector p =
     (case cb_set_feature cbs of Some f \<Rightarrow> f p feature_selector
      | None \<Rightarrow> (ih_set_feature base feature_selector, p))"

definition pipe_endpoint_set_feature ::
    "'p PipeStandardRequestHandler \<Rightarrow> interface_handler \<Rightarrow> u16 \<Rightarrow> u8 \<Rightarrow> 'p \<Rightarrow> u32 \<times> 'p" where
  "pipe_endpoint_set_feature cbs base feature_selector ep p =
     (case cb_endpoint_set_feature cbs of Some f \<Rightarrow> f p feature_selector ep
      | None \<Rightarrow> (ih_endpoint_set_feature base feature_selector ep, p))"

definition pipe_get_descriptor :: "u8 \<Rightarrow> 'tr PipeDeviceHandler \<Rightarrow> data \<times> u32" where
  "pipe_get_descriptor type p =
     (case pp_custom_descriptors p type of
        Some d \<Rightarrow> (d, 0)
      | None \<Rightarrow> ([], urb_status_code StatusEPIPE))"

text \<open>What the device handler sees of a pipe interface in a given state of the device.\<close>

definition pipe_interface_handler ::
    "'tr PipeDeviceHandler PipeStandardRequestHandler \<Rightarrow> interface_handler \<Rightarrow> 'tr PipeDeviceHandler \<Rightarrow>
     interface_handler" where
  "pipe_interface_handler cbs base p =
     base\<lparr>ih_clear_feature := (\<lambda>f. fst (pipe_clear_feature cbs base f p)),
       ih_endpoint_clear_feature := (\<lambda>f ep. fst (pipe_endpoint_clear_feature cbs base f ep p)),
       ih_get_interface := fst (pipe_get_interface cbs base p),
       ih_set_interface := (\<lambda>alt. fst (pipe_set_interface cbs base alt p)),
       ih_get_status := fst (pipe_get_status cbs base p),
       ih_endpoint_get_status := (\<lambda>ep. fst (pipe_endpoint_get_status cbs base ep p)),
       ih_get_descriptor := (\<lambda>type _ _. pipe_get_descriptor type p),
       ih_set_feature := (\<lambda>f. fst (pipe_set_feature cbs base f p)),
       ih_endpoint_set_feature := (\<lambda>f ep. fst (pipe_endpoint_set_feature cbs base f ep p)),
       ih_class_specific_descriptor := pp_class_specific_descriptor p\<rparr>"

text \<open>\<open>setup_interface_handlers\<close>: every interface gets a pipe handler, whatever handler it had; each
  handler allocates the interface string in the pool. Handlers are numbered from \<open>next\<close>.\<close>

definition virtual_interface_string :: wstring where
  "virtual_interface_string = map (of_nat \<circ> of_char) ''Usbipdcpp Virtual Interface''"

fun bind_pipe_handlers ::
    "nat \<Rightarrow> UsbInterface list \<Rightarrow> StringPool \<Rightarrow> pool_error + (UsbInterface list \<times> u8 list \<times> StringPool)" where
  "bind_pipe_handlers h [] sp = Inr ([], [], sp)"
| "bind_pipe_handlers h (intf # intfs) sp =
     (case new_string virtual_interface_string sp of
        Inl e \<Rightarrow> Inl e
      | Inr (k, sp1) \<Rightarrow>
          (case bind_pipe_handlers (Suc h) intfs sp1 of
             Inl e \<Rightarrow> Inl e
           | Inr (intfs', ks, sp2) \<Rightarrow> Inr (intf\<lparr>if_handler := Some h\<rparr> # intfs', k # ks, sp2)))"

text \<open>The base class then registers the operators; a pipe handler has the generic one.\<close>

definition pipe_setup_interface_handlers ::
    "virtual_device \<Rightarrow> (u8 \<rightharpoonup> GenericTransfer TransferOperator) \<Rightarrow>
     pool_error + (u8 list \<times> virtual_device \<times> (u8 \<rightharpoonup> GenericTransfer TransferOperator))" where
  "pipe_setup_interface_handlers v ep_operators =
     (case bind_pipe_handlers 0 (ud_interfaces (vd_device v)) (vd_string_pool v) of
        Inl e \<Rightarrow> Inl e
      | Inr (intfs, ks, sp) \<Rightarrow>
          Inr (ks, v\<lparr>vd_device := (vd_device v)\<lparr>ud_interfaces := intfs\<rparr>, vd_string_pool := sp\<rparr>,
               fst (vd_setup_interface_handlers (\<lambda>_. GenericTransferOperator) intfs ep_operators)))"

section \<open>Sequence numbers: proofs\<close>

text \<open>On the counter behind the sequence numbers the comparison is the order of the counter, across
  the wrap-around, for numbers less than \<open>2 ^ 31\<close> apart.\<close>

lemma sint_window: "- (2 ^ 31) \<le> k \<Longrightarrow> k < 2 ^ 31 \<Longrightarrow> sint (of_int k :: u32) = k"
  by (simp add: signed_of_int signed_take_bit_int_eq_self)

lemma seqnum_newer_of_nat:
  assumes "a < b + 2 ^ 31" and "b < a + 2 ^ 31"
  shows "seqnum_newer (of_nat a) (of_nat b) \<longleftrightarrow> b < a"
proof -
  have "sint (of_int (int a - int b) :: u32) = int a - int b"
    using assms by (intro sint_window) simp_all
  then show ?thesis by (simp add: seqnum_newer_def)
qed

lemma of_nat_window:
  assumes "a < b + 2 ^ 31" and "b < a + 2 ^ 31" and "(of_nat a :: u32) = of_nat b"
  shows "a = b"
  using seqnum_newer_of_nat[OF assms(1,2)] seqnum_newer_of_nat[OF assms(2,1)] assms(3)
  by (auto simp: seqnum_newer_def)

section \<open>The oldest channel\<close>

lemma oldest_channel_append:
  "oldest_channel acc (xs @ ys) = oldest_channel (oldest_channel acc xs) ys"
  by (induction acc xs rule: oldest_channel.induct) (auto split: option.splits)

definition front_seqnums :: "(u8 \<times> 'tr out_channel) list \<Rightarrow> u32 set" where
  "front_seqnums chs = {sn. \<exists>(ep, ch) \<in> set chs. oc_front_seqnum ch = Some sn}"

lemma front_seqnums_simps [simp]:
  "front_seqnums [] = {}"
  "front_seqnums ((ep, ch) # chs) = set_option (oc_front_seqnum ch) \<union> front_seqnums chs"
  by (auto simp: front_seqnums_def)

lemma oldest_channel_range:
  "oldest_channel acc chs = Some (ep, sn) \<Longrightarrow> acc = Some (ep, sn) \<or> sn \<in> front_seqnums chs"
  by (induction acc chs rule: oldest_channel.induct) (auto split: option.splits if_splits)

lemma oldest_channel_keeps:
  "(\<And>s. s \<in> front_seqnums chs \<Longrightarrow> \<not> seqnum_newer sn s) \<Longrightarrow>
   oldest_channel (Some (ep, sn)) chs = Some (ep, sn)"
  by (induction chs) (auto split: option.splits)

lemma oldest_channel_finds:
  assumes "chs = xs @ (ep, ch) # ys" and "oc_front_seqnum ch = Some sn"
    and "\<And>s. s \<in> front_seqnums xs \<Longrightarrow> seqnum_newer s sn"
    and "\<And>s. s \<in> front_seqnums ys \<Longrightarrow> \<not> seqnum_newer sn s"
  shows "oldest_channel None chs = Some (ep, sn)"
proof -
  have "oldest_channel None xs = None \<or>
      (\<exists>e s. oldest_channel None xs = Some (e, s) \<and> seqnum_newer s sn)"
    using oldest_channel_range[of None xs] assms(3) by (cases "oldest_channel None xs") auto
  with assms(2) oldest_channel_keeps[OF assms(4)] show ?thesis
    by (auto simp: assms(1) oldest_channel_append)
qed

lemma oldest_channel_none: "front_seqnums chs = {} \<Longrightarrow> oldest_channel None chs = None"
  using oldest_channel_range[of None chs] by (cases "oldest_channel None chs") auto

section \<open>One queue for all endpoints\<close>

text \<open>The specification of \<open>read\<close>: the waiting requests form one queue in the order of their arrival,
  and each channel holds the part of the queue that belongs to its endpoint. A request comes with
  the value of the host's counter its sequence number is taken from.\<close>

definition out_pending :: "(u8 \<times> 'tr out_channel) list \<Rightarrow> u8 \<Rightarrow> 'tr PendingRequest list" where
  "out_pending chs ep = (case map_of chs ep of Some ch \<Rightarrow> oc_pending ch | None \<Rightarrow> [])"

definition window_ok :: "(nat \<times> 'tr PendingRequest) list \<Rightarrow> bool" where
  "window_ok q \<longleftrightarrow> sorted_wrt (\<lambda>x y. fst x < fst y \<and> fst y < fst x + 2 ^ 31) q \<and>
     (\<forall>x \<in> set q. pr_seqnum (snd x) = of_nat (fst x))"

definition pipe_queue :: "(nat \<times> 'tr PendingRequest) list \<Rightarrow> 'tr PipeDeviceHandler \<Rightarrow> bool" where
  "pipe_queue q p \<longleftrightarrow> distinct (map fst (pp_out_channels p)) \<and>
     (\<forall>ep ch. map_of (pp_out_channels p) ep = Some ch \<longrightarrow> \<not> oc_disconnected ch \<and> oc_max_pending ch = 0) \<and>
     (\<forall>ep. out_pending (pp_out_channels p) ep = filter (\<lambda>r. pr_ep r = ep) (map snd q))"

definition xfer_of :: "'tr PendingRequest \<Rightarrow> PipeXfer" where
  "xfer_of r = (let d = oc_deliver r in \<lparr>px_ep = pd_ep d, px_setup_req = pd_setup_req d, px_data = pd_data d\<rparr>)"

lemma out_pending_front:
  assumes "distinct (map fst chs)" and "sn \<in> front_seqnums chs"
  shows "\<exists>ep r rs. out_pending chs ep = r # rs \<and> pr_seqnum r = sn \<and> ep \<in> fst ` set chs"
proof -
  from assms(2) obtain ep ch where c: "(ep, ch) \<in> set chs" "oc_front_seqnum ch = Some sn"
    by (auto simp: front_seqnums_def)
  then have "map_of chs ep = Some ch" using assms(1) by simp
  with c show ?thesis
    by (intro exI[of _ ep]) (force simp: out_pending_def oc_front_seqnum_def split: list.splits)
qed

lemma window_ok_hd:
  assumes "window_ok ((t, r) # q)" and "(t', r') \<in> set q"
  shows "seqnum_newer (pr_seqnum r') (pr_seqnum r)" and "\<not> seqnum_newer (pr_seqnum r) (pr_seqnum r')"
proof -
  have w: "t < t'" "t' < t + 2 ^ 31" "pr_seqnum r = of_nat t" "pr_seqnum r' = of_nat t'"
    using assms by (auto simp: window_ok_def)
  then show "seqnum_newer (pr_seqnum r') (pr_seqnum r)" "\<not> seqnum_newer (pr_seqnum r) (pr_seqnum r')"
    using seqnum_newer_of_nat[of t t'] seqnum_newer_of_nat[of t' t] by auto
qed

lemma out_pending_update:
  "out_pending (AList.update ep ch chs) ep' = (if ep' = ep then oc_pending ch else out_pending chs ep')"
  by (simp add: out_pending_def update_conv')

lemma oc_try_take_hd: "oc_pending ch = r # rs \<Longrightarrow> fst (oc_try_take ch) = Some (oc_deliver r)"
  by (simp add: oc_try_take_def oc_take_locked_def oc_deliver_def Let_def case_prod_beta)

lemma front_others:
  assumes q: "pipe_queue ((t, r) # q) p" and w: "window_ok ((t, r) # q)"
    and chs: "set chs \<subseteq> set (pp_out_channels p)" "pr_ep r \<notin> fst ` set chs" "distinct (map fst chs)"
    and s: "s \<in> front_seqnums chs"
  shows "seqnum_newer s (pr_seqnum r) \<and> \<not> seqnum_newer (pr_seqnum r) s"
proof -
  obtain ep r' rs where r': "out_pending chs ep = r' # rs" "pr_seqnum r' = s" "ep \<in> fst ` set chs"
    using out_pending_front[OF chs(3) s] by blast
  have "map_of (pp_out_channels p) ep = map_of chs ep"
  proof -
    obtain ch where c: "(ep, ch) \<in> set chs" using r'(3) by auto
    then have "map_of chs ep = Some ch" "map_of (pp_out_channels p) ep = Some ch"
      using chs(1,3) q by (auto simp: pipe_queue_def)
    then show ?thesis by simp
  qed
  then have "out_pending (pp_out_channels p) ep = r' # rs" using r'(1) by (simp add: out_pending_def)
  then have f: "filter (\<lambda>r. pr_ep r = ep) (map snd ((t, r) # q)) = r' # rs"
    using q unfolding pipe_queue_def by metis
  have "pr_ep r \<noteq> ep" using chs(2) r'(3) by auto
  then have "filter (\<lambda>r. pr_ep r = ep) (map snd q) = r' # rs" using f by simp
  then have "r' \<in> set (filter (\<lambda>r. pr_ep r = ep) (map snd q))" by simp
  then have "r' \<in> snd ` set q" by auto
  with window_ok_hd[OF w] r'(2) show ?thesis by auto
qed

lemma pipe_take_one_empty:
  assumes "pipe_queue [] p"
  shows "pipe_take_one p = (None, p)"
proof -
  have "front_seqnums (pp_out_channels p) = {}"
    using assms out_pending_front[of "pp_out_channels p"] by (fastforce simp: pipe_queue_def)
  then show ?thesis by (simp add: pipe_take_one_def oldest_channel_none)
qed

lemma pipe_take_one_queue:
  assumes q: "pipe_queue ((t, r) # q) p" and w: "window_ok ((t, r) # q)"
  shows "\<exists>p'. pipe_take_one p = (Some (xfer_of r), p') \<and> pipe_queue q p'"
proof -
  let ?chs = "pp_out_channels p" and ?ep = "pr_ep r"
  have d: "distinct (map fst ?chs)" using q by (simp add: pipe_queue_def)
  have "out_pending ?chs ?ep = r # filter (\<lambda>x. pr_ep x = ?ep) (map snd q)"
    using q by (simp add: pipe_queue_def)
  then obtain ch where m: "map_of ?chs ?ep = Some ch"
    and pend: "oc_pending ch = r # filter (\<lambda>x. pr_ep x = ?ep) (map snd q)"
    by (auto simp: out_pending_def split: option.splits)
  obtain xs ys where split: "?chs = xs @ (?ep, ch) # ys" using map_of_SomeD[OF m] by (metis split_list)
  have parts: "?ep \<notin> fst ` set xs" "?ep \<notin> fst ` set ys" "distinct (map fst xs)" "distinct (map fst ys)"
    using d unfolding split by auto
  have "oldest_channel None ?chs = Some (?ep, pr_seqnum r)"
  proof (rule oldest_channel_finds[OF split])
    show "oc_front_seqnum ch = Some (pr_seqnum r)" by (simp add: oc_front_seqnum_def pend)
    show "seqnum_newer s (pr_seqnum r)" if "s \<in> front_seqnums xs" for s
      using front_others[OF q w _ parts(1,3) that] split by auto
    show "\<not> seqnum_newer (pr_seqnum r) s" if "s \<in> front_seqnums ys" for s
      using front_others[OF q w _ parts(2,4) that] split by auto
  qed
  moreover obtain ch' where t: "oc_try_take ch = (Some (oc_deliver r), ch')"
    using oc_try_take_hd[OF pend] by (metis prod.collapse)
  ultimately have "pipe_take_one p = (Some (xfer_of r), p\<lparr>pp_out_channels := AList.update ?ep ch' ?chs\<rparr>)"
    using m by (simp add: pipe_take_one_def xfer_of_def Let_def)
  moreover have "pipe_queue q (p\<lparr>pp_out_channels := AList.update ?ep ch' ?chs\<rparr>)"
    using q oc_try_take_sel[OF t] m pend
    by (auto simp: pipe_queue_def out_pending_update update_conv' distinct_update)
  ultimately show ?thesis by blast
qed

lemma map_of_emplace:
  "map_of m k = None \<Longrightarrow> map_of (map_emplace k c m) = (map_of m)(k \<mapsto> c)"
  by (induction m) (auto split: if_splits)

lemma set_emplace [simp]: "set (map_emplace k c m) = insert (k, c) (set m)"
  by (induction m) (auto split: if_splits)

lemma distinct_emplace:
  "map_of m k = None \<Longrightarrow> distinct (map fst m) \<Longrightarrow> distinct (map fst (map_emplace k c m))"
proof (induction m)
  case (Cons x m)
  then show ?case by (cases x) (auto simp: map_of_eq_None_iff split: if_splits)
qed simp

definition arrives :: "'tr PendingRequest \<Rightarrow> 'tr PipeDeviceHandler \<Rightarrow> 'tr PipeDeviceHandler" where
  "arrives r p =
     with_out_channel (pr_ep r) (oc_on_out_request (pr_ep r) (pr_seqnum r) (pr_transfer r) (pr_setup_req r)) p"

lemma get_out_channel_spec:
  assumes g: "get_out_channel ep p = (ch, p')" and d: "distinct (map fst (pp_out_channels p))"
    and ok: "\<forall>ep ch. map_of (pp_out_channels p) ep = Some ch \<longrightarrow> \<not> oc_disconnected ch \<and> oc_max_pending ch = 0"
  shows "distinct (map fst (pp_out_channels p')) \<and>
    map_of (pp_out_channels p') = (map_of (pp_out_channels p))(ep \<mapsto> ch) \<and>
    \<not> oc_disconnected ch \<and> oc_max_pending ch = 0 \<and> oc_pending ch = out_pending (pp_out_channels p) ep"
proof (cases "map_of (pp_out_channels p) ep")
  case None
  with g have ch: "ch = oc_on_new_connection (pp_responder p) out_channel_new"
    and p': "p' = p\<lparr>pp_out_channels := map_emplace ep ch (pp_out_channels p)\<rparr>"
    by (auto simp: get_out_channel_def Let_def)
  show ?thesis
    unfolding p' using None d map_of_emplace[OF None] distinct_emplace[OF None d]
    by (simp add: ch oc_on_new_connection_def out_channel_new_def out_pending_def)
next
  case (Some c)
  with g d ok[rule_format, OF Some] show ?thesis
    by (simp add: get_out_channel_def out_pending_def fun_upd_idem)
qed

lemma arrives_queue:
  assumes q: "pipe_queue q p"
  shows "pipe_queue (q @ [(t, r)]) (arrives r p)"
proof -
  let ?ep = "pr_ep r"
  obtain ch p' where g: "get_out_channel ?ep p = (ch, p')" by fastforce
  have p': "distinct (map fst (pp_out_channels p'))"
      "map_of (pp_out_channels p') = (map_of (pp_out_channels p))(?ep \<mapsto> ch)"
    and ch: "\<not> oc_disconnected ch" "oc_max_pending ch = 0" "oc_pending ch = out_pending (pp_out_channels p) ?ep"
    using get_out_channel_spec[OF g] q unfolding pipe_queue_def by blast+
  let ?ch = "oc_on_out_request ?ep (pr_seqnum r) (pr_transfer r) (pr_setup_req r) ch"
  have ch': "\<not> oc_disconnected ?ch" "oc_max_pending ?ch = 0" "oc_pending ?ch = oc_pending ch @ [r]"
    using ch by (simp_all add: oc_on_out_request_def)
  have "pp_out_channels (arrives r p) = AList.update ?ep ?ch (pp_out_channels p')"
    by (simp add: arrives_def with_out_channel_def g)
  with p' ch(3) ch' q show ?thesis
    by (auto simp: pipe_queue_def out_pending_def update_conv' distinct_update)
qed

section \<open>Unlink: proofs\<close>

text \<open>Searching several cancellable channels is again cancellable.\<close>

definition pending_all :: "('c \<Rightarrow> u32 multiset) \<Rightarrow> (u8 \<times> 'c) list \<Rightarrow> u32 multiset" where
  "pending_all pending chs = sum_list (map (pending \<circ> snd) chs)"

lemma pending_all_simps [simp]:
  "pending_all pending [] = {#}"
  "pending_all pending ((ep, ch) # chs) = pending ch + pending_all pending chs"
  by (simp_all add: pending_all_def)

context cancellable
begin

lemma cancel_first_found: "fst (cancel_first (cancel u) chs) \<longleftrightarrow> u \<in># pending_all pending chs"
proof (induction chs)
  case (Cons x chs)
  obtain ep ch where x: "x = (ep, ch)" by (cases x)
  obtain b ch' where c: "cancel u ch = (b, ch')" by fastforce
  show ?case
    using Cons cancel_found[of u ch] c by (cases b) (auto simp: x case_prod_beta)
qed simp

lemma cancel_first_removes:
  "pending_all pending (snd (cancel_first (cancel u) chs)) = pending_all pending chs - {#u#}"
proof (induction chs)
  case (Cons x chs)
  obtain ep ch where x: "x = (ep, ch)" by (cases x)
  obtain b ch' where c: "cancel u ch = (b, ch')" by fastforce
  have "pending ch' = pending ch - {#u#}" "b \<longleftrightarrow> u \<in># pending ch"
    using cancel_found[of u ch] cancel_pending[of u ch] c by simp_all
  with Cons show ?case
    by (cases b) (auto simp: x c case_prod_beta multiset_eq_iff not_in_iff Suc_le_eq)
qed simp

end

interpretation in_channels: cancellable "\<lambda>u. cancel_first (ic_cancel_pending u)" "pending_all ic_pending"
  by unfold_locales (rule in_cancel.cancel_first_found in_cancel.cancel_first_removes)+

interpretation out_channels: cancellable "\<lambda>u. cancel_first (oc_cancel_pending u)" "pending_all oc_pending_seqnums"
  by unfold_locales (rule out_cancel.cancel_first_found out_cancel.cancel_first_removes)+

definition pipe_waiting :: "'tr PipeDeviceHandler \<Rightarrow> u32 multiset" where
  "pipe_waiting p = pending_all ic_pending (pp_in_channels p) + pending_all oc_pending_seqnums (pp_out_channels p)"

interpretation pipe_unlink: unlink_handler on_pipe_unlink pipe_waiting
proof
  fix u c and p :: "'tr PipeDeviceHandler"
  obtain b ins where i: "cancel_first (ic_cancel_pending u) (pp_in_channels p) = (b, ins)" by fastforce
  obtain b' outs where o: "cancel_first (oc_cancel_pending u) (pp_out_channels p) = (b', outs)" by fastforce
  have b: "b \<longleftrightarrow> u \<in># pending_all ic_pending (pp_in_channels p)"
      "pending_all ic_pending ins = pending_all ic_pending (pp_in_channels p) - {#u#}"
    using in_channels.cancel_found[of u "pp_in_channels p"] in_channels.cancel_pending[of u "pp_in_channels p"] i
    by simp_all
  have b': "b' \<longleftrightarrow> u \<in># pending_all oc_pending_seqnums (pp_out_channels p)"
      "pending_all oc_pending_seqnums outs = pending_all oc_pending_seqnums (pp_out_channels p) - {#u#}"
    using out_channels.cancel_found[of u "pp_out_channels p"] out_channels.cancel_pending[of u "pp_out_channels p"] o
    by simp_all
  show "fst (on_pipe_unlink u c p) = [unlink_reply c (u \<in># pipe_waiting p)]"
    using b(1) b'(1) by (simp add: on_pipe_unlink_def i o pipe_waiting_def)
  show "pipe_waiting (snd (on_pipe_unlink u c p)) = pipe_waiting p - {#u#}"
    using b b' by (cases b) (auto simp: on_pipe_unlink_def i o pipe_waiting_def multiset_eq_iff not_in_iff Suc_le_eq)
qed

lemma window_ok_Cons:
  "window_ok (x # q) \<longleftrightarrow> (\<forall>y \<in> set q. fst x < fst y \<and> fst y < fst x + 2 ^ 31) \<and>
     pr_seqnum (snd x) = of_nat (fst x) \<and> window_ok q"
  by (auto simp: window_ok_def)

lemma window_ok_unique:
  "window_ok q \<Longrightarrow> x \<in> set q \<Longrightarrow> y \<in> set q \<Longrightarrow> pr_seqnum (snd x) = pr_seqnum (snd y) \<Longrightarrow> x = y"
proof (induction q)
  case (Cons z q)
  have "v = z" if "v \<in> set q" "pr_seqnum (snd v) = pr_seqnum (snd z)" for v
  proof -
    have "seqnum_newer (pr_seqnum (snd v)) (pr_seqnum (snd z))"
      using window_ok_hd(1)[of "fst z" "snd z" q "fst v" "snd v"] Cons.prems(1) that(1) by simp
    with that(2) show ?thesis by (simp add: seqnum_newer_def)
  qed
  with Cons.IH Cons.prems show ?case by (metis set_ConsD window_ok_Cons)
qed simp

lemma window_ok_remove: "window_ok q \<Longrightarrow> window_ok (remove_first P q)"
proof (induction q)
  case (Cons x q)
  then show ?case using set_remove_first_subset[of P q] by (auto simp: window_ok_Cons)
qed simp

lemma window_ok_snoc:
  "window_ok (q @ [(t, r)]) \<longleftrightarrow>
     window_ok q \<and> (\<forall>x \<in> set q. fst x < t \<and> t < fst x + 2 ^ 31) \<and> pr_seqnum r = of_nat t"
  by (auto simp: window_ok_def sorted_wrt_append)

lemma filter_key_remove_first:
  "(\<forall>x \<in> set xs. P x \<longrightarrow> f x = e) \<Longrightarrow>
   filter (\<lambda>x. f x = e') (remove_first P xs) =
     (if e' = e then remove_first P (filter (\<lambda>x. f x = e') xs) else filter (\<lambda>x. f x = e') xs)"
  by (induction xs) auto

lemma map_snd_remove_first: "map snd (remove_first (\<lambda>x. P (snd x)) q) = remove_first P (map snd q)"
  by (induction q) auto

lemma cancel_first_out_cases:
  assumes "cancel_first (oc_cancel_pending u) chs = (b, chs')"
  obtains (absent) "chs' = chs" "\<And>ep ch. (ep, ch) \<in> set chs \<Longrightarrow> u \<notin> pr_seqnum ` set (oc_pending ch)"
  | (found) xs ep ch ys where "chs = xs @ (ep, ch) # ys" "u \<in> pr_seqnum ` set (oc_pending ch)"
      "chs' = xs @ (ep, ch\<lparr>oc_pending := remove_first (\<lambda>r. pr_seqnum r = u) (oc_pending ch)\<rparr>) # ys"
  using assms
proof (induction chs arbitrary: b chs' thesis)
  case (Cons x chs)
  obtain ep ch where x: "x = (ep, ch)" by (cases x)
  show ?case
  proof (cases "\<exists>r \<in> set (oc_pending ch). pr_seqnum r = u")
    case True
    with Cons.prems(3) show ?thesis
      by (intro Cons.prems(2)[of "[]" ep ch chs]) (auto simp: x oc_cancel_pending_def)
  next
    case False
    obtain b1 chs1 where r: "cancel_first (oc_cancel_pending u) chs = (b1, chs1)" by fastforce
    have "oc_cancel_pending u ch = (False, ch)" using False by (simp add: oc_cancel_pending_def)
    then have c: "chs' = x # chs1" using Cons.prems(3) r by (simp add: x)
    show ?thesis
    proof (rule Cons.IH[OF _ _ r])
      show ?thesis if "chs1 = chs" "\<And>ep ch. (ep, ch) \<in> set chs \<Longrightarrow> u \<notin> pr_seqnum ` set (oc_pending ch)"
        using that False by (intro Cons.prems(1)) (auto simp: c x)
      show ?thesis if "chs = xs @ (ep', ch') # ys" "u \<in> pr_seqnum ` set (oc_pending ch')"
        "chs1 = xs @ (ep', ch'\<lparr>oc_pending := remove_first (\<lambda>r. pr_seqnum r = u) (oc_pending ch')\<rparr>) # ys"
        for xs ep' ch' ys
        using that by (intro Cons.prems(2)[of "x # xs" ep' ch' ys]) (auto simp: c)
    qed
  qed
qed simp

lemma cancel_out_queue:
  assumes q: "pipe_queue q p" and w: "window_ok q"
    and c: "cancel_first (oc_cancel_pending u) (pp_out_channels p) = (b, outs)"
  shows "pipe_queue (remove_first (\<lambda>x. pr_seqnum (snd x) = u) q) (p\<lparr>pp_out_channels := outs\<rparr>)"
  using c
proof (cases rule: cancel_first_out_cases)
  case absent
  have "\<forall>x \<in> set q. pr_seqnum (snd x) \<noteq> u"
  proof
    fix x assume "x \<in> set q"
    then have "snd x \<in> set (out_pending (pp_out_channels p) (pr_ep (snd x)))"
      using q by (auto simp: pipe_queue_def)
    then obtain ch where "map_of (pp_out_channels p) (pr_ep (snd x)) = Some ch" "snd x \<in> set (oc_pending ch)"
      by (cases "map_of (pp_out_channels p) (pr_ep (snd x))") (auto simp: out_pending_def)
    with absent(2) show "pr_seqnum (snd x) \<noteq> u" by (metis image_eqI map_of_SomeD)
  qed
  then have "remove_first (\<lambda>x. pr_seqnum (snd x) = u) q = q" by (rule remove_first_notin)
  with absent(1) q show ?thesis by simp
next
  case (found xs ep ch ys)
  let ?ch = "ch\<lparr>oc_pending := remove_first (\<lambda>r. pr_seqnum r = u) (oc_pending ch)\<rparr>"
  have d: "distinct (map fst (xs @ (ep, ch) # ys))" using q found(1) by (simp add: pipe_queue_def)
  then have n: "map_of xs ep = None" by (simp add: map_of_eq_None_iff)
  have m: "map_of (xs @ (ep, v) # ys) = (map_of (xs @ (ep, ch) # ys))(ep \<mapsto> v)" for v
    by (rule ext) (simp add: map_add_def n split: option.splits)
  have mch: "map_of (pp_out_channels p) ep = Some ch" by (simp add: found(1) map_add_def n)
  have pend: "oc_pending ch = filter (\<lambda>r. pr_ep r = ep) (map snd q)"
    using q mch by (auto simp: pipe_queue_def out_pending_def split: option.splits dest: spec[of _ ep])
  have u: "\<forall>r \<in> set (map snd q). pr_seqnum r = u \<longrightarrow> pr_ep r = ep"
  proof (intro ballI impI)
    fix r assume r: "r \<in> set (map snd q)" "pr_seqnum r = u"
    obtain x where x: "x \<in> set q" "pr_ep (snd x) = ep" "pr_seqnum (snd x) = u" using found(2) pend by auto
    obtain y where y: "y \<in> set q" "snd y = r" using r(1) by auto
    from window_ok_unique[OF w x(1) y(1)] x y r(2) show "pr_ep r = ep" by simp
  qed
  have M: "map_of outs = (map_of (pp_out_channels p))(ep \<mapsto> ?ch)"
    unfolding found(3) found(1) by (rule m)
  have D: "distinct (map fst outs)" using d by (simp add: found(3))
  have P: "out_pending outs e = filter (\<lambda>r. pr_ep r = e)
      (map snd (remove_first (\<lambda>x. pr_seqnum (snd x) = u) q))" for e
    using q by (simp add: out_pending_def M pipe_queue_def pend
        map_snd_remove_first[of "\<lambda>r. pr_seqnum r = u"] filter_key_remove_first[OF u])
  have "\<not> oc_disconnected ch" "oc_max_pending ch = 0" using q mch by (auto simp: pipe_queue_def)
  then have "\<forall>e c. map_of outs e = Some c \<longrightarrow> \<not> oc_disconnected c \<and> oc_max_pending c = 0"
    using q unfolding M pipe_queue_def by auto
  with D P show ?thesis by (simp add: pipe_queue_def)
qed

section \<open>Runs\<close>

text \<open>What a run shows: a request of the host that reaches the OUT side (with the host's counter), the
  result of a \<open>read\<close>, a read that finds nothing, a CMD_UNLINK (and whether it got past the IN
  channels), the beginning or end of a session, and any other step.\<close>

datatype 'tr pipe_obs =
  Arrive nat "'tr PendingRequest" | Deliver PipeXfer | Nothing | Cancel u32 bool | Reset | Quiet

inductive pipe_step :: "'tr PipeDeviceHandler \<Rightarrow> 'tr pipe_obs \<Rightarrow> 'tr PipeDeviceHandler \<Rightarrow> bool" where
  out_request: "pipe_step p
     (Arrive t \<lparr>pr_ep = ep, pr_seqnum = of_nat t, pr_setup_req = None, pr_transfer = th\<rparr>)
     (on_pipe_out_transfer ep (of_nat t) th p)"
| control_request: "pipe_step p
     (Arrive t \<lparr>pr_ep = 0, pr_seqnum = of_nat t, pr_setup_req = Some setup,
        pr_transfer = (if setup_is_out setup then th else TransferHandle_empty)\<rparr>)
     (on_pipe_control_request setup (of_nat t) len th p)"
| in_request: "pipe_step p Quiet (on_pipe_in_request ep sn len th p)"
| wrote: "pipe_write xfer timeout_ms env p = Some (n, p') \<Longrightarrow> pipe_step p Quiet p'"
| received: "pipe_take_one p = (Some x, p') \<Longrightarrow> pipe_step p (Deliver x) p'"
| read_nothing: "pipe_take_one p = (None, p') \<Longrightarrow> pipe_step p Nothing p'"
| unlinked: "pipe_step p (Cancel u (\<not> fst (cancel_first (ic_cancel_pending u) (pp_in_channels p))))
     (snd (on_pipe_unlink u c p))"
| connect: "pipe_on_new_connection outcome sched intfs session p = (evs, None, p') \<Longrightarrow> pipe_step p Reset p'"
| disconnect: "pipe_step p Reset (snd (pipe_on_disconnection sched intfs p))"

inductive pipe_run :: "'tr PipeDeviceHandler \<Rightarrow> 'tr pipe_obs list \<Rightarrow> 'tr PipeDeviceHandler \<Rightarrow> bool" where
  finish: "pipe_run p [] p"
| more: "pipe_step p e p1 \<Longrightarrow> pipe_run p1 es p' \<Longrightarrow> pipe_run p (e # es) p'"

text \<open>The specification: one queue. The host's part of the contract: the counter grows, and the oldest
  waiting request is less than \<open>2 ^ 31\<close> behind the newest.\<close>

fun host_ok :: "(nat \<times> 'tr PendingRequest) list \<Rightarrow> 'tr pipe_obs list \<Rightarrow> bool" where
  "host_ok q [] = True"
| "host_ok q (Arrive t r # es) =
     ((\<forall>x \<in> set q. fst x < t \<and> t < fst x + 2 ^ 31) \<and> host_ok (q @ [(t, r)]) es)"
| "host_ok q (Deliver x # es) = host_ok (tl q) es"
| "host_ok q (Nothing # es) = host_ok q es"
| "host_ok q (Cancel u b # es) =
     host_ok (if b then remove_first (\<lambda>x. pr_seqnum (snd x) = u) q else q) es"
| "host_ok q (Reset # es) = host_ok [] es"
| "host_ok q (Quiet # es) = host_ok q es"

fun fifo_trace :: "'tr PendingRequest list \<Rightarrow> 'tr pipe_obs list \<Rightarrow> bool" where
  "fifo_trace q [] = True"
| "fifo_trace q (Arrive t r # es) = fifo_trace (q @ [r]) es"
| "fifo_trace q (Deliver x # es) =
     (case q of [] \<Rightarrow> False | r # q' \<Rightarrow> x = xfer_of r \<and> fifo_trace q' es)"
| "fifo_trace q (Nothing # es) = (q = [] \<and> fifo_trace q es)"
| "fifo_trace q (Cancel u b # es) = fifo_trace (if b then remove_first (\<lambda>r. pr_seqnum r = u) q else q) es"
| "fifo_trace q (Reset # es) = fifo_trace [] es"
| "fifo_trace q (Quiet # es) = fifo_trace q es"

lemma pipe_queue_in [simp]: "pipe_queue q (p\<lparr>pp_in_channels := x\<rparr>) = pipe_queue q p"
  by (simp add: pipe_queue_def)

lemma get_in_channel_out [simp]: "pipe_queue q (snd (get_in_channel ep p)) = pipe_queue q p"
  by (simp add: get_in_channel_def Let_def split: option.splits)

lemma with_in_channel_queue [simp]: "pipe_queue q (with_in_channel ep f p) = pipe_queue q p"
  using get_in_channel_out[of q ep p] by (simp add: with_in_channel_def case_prod_beta del: get_in_channel_out)

lemma pipe_write_queue: "pipe_write xfer timeout_ms env p = Some (n, p') \<Longrightarrow> pipe_queue q p' = pipe_queue q p"
  using get_in_channel_out[of q "px_ep xfer" p]
  by (auto simp: pipe_write_def case_prod_beta simp del: get_in_channel_out split: if_splits)

lemma unlink_queue:
  assumes "pipe_queue q p" and "window_ok q"
  shows "pipe_queue (if fst (cancel_first (ic_cancel_pending u) (pp_in_channels p)) then q
      else remove_first (\<lambda>x. pr_seqnum (snd x) = u) q) (snd (on_pipe_unlink u c p))"
proof -
  obtain b outs where o: "cancel_first (oc_cancel_pending u) (pp_out_channels p) = (b, outs)" by fastforce
  have "p\<lparr>pp_in_channels := ins, pp_out_channels := outs\<rparr> = p\<lparr>pp_out_channels := outs, pp_in_channels := ins\<rparr>"
    for ins by simp
  with cancel_out_queue[OF assms o] assms(1) show ?thesis
    by (auto simp: on_pipe_unlink_def case_prod_beta o pipe_queue_def)
qed

lemma pipe_step_refines:
  assumes "pipe_step p e p'" and "pipe_queue q p" and "window_ok q" and "host_ok q (e # es)"
  shows "\<exists>q'. pipe_queue q' p' \<and> window_ok q' \<and> host_ok q' es \<and>
    (fifo_trace (map snd q') es \<longrightarrow> fifo_trace (map snd q) (e # es))"
  using assms
proof (induction rule: pipe_step.induct)
  case (out_request p t ep th)
  let ?r = "\<lparr>pr_ep = ep, pr_seqnum = of_nat t, pr_setup_req = None, pr_transfer = th\<rparr>"
  have "pipe_queue (q @ [(t, ?r)]) (on_pipe_out_transfer ep (of_nat t) th p)"
    using arrives_queue[OF out_request(1), of t ?r] by (simp add: arrives_def on_pipe_out_transfer_def)
  with out_request show ?case by (intro exI[of _ "q @ [(t, ?r)]"]) (simp add: window_ok_snoc)
next
  case (control_request p t sp th len)
  let ?r = "\<lparr>pr_ep = 0, pr_seqnum = of_nat t, pr_setup_req = Some sp,
        pr_transfer = (if setup_is_out sp then th else TransferHandle_empty)\<rparr>"
  have "pipe_queue (q @ [(t, ?r)]) (on_pipe_control_request sp (of_nat t) len th p)"
    using arrives_queue[of q p t ?r] control_request(1)
      arrives_queue[of q "with_in_channel 0 (ic_on_in_request stream_ops 0 (of_nat t) len th) p" t ?r]
    by (cases "setup_is_out sp") (simp_all add: arrives_def on_pipe_control_request_def)
  with control_request show ?case by (intro exI[of _ "q @ [(t, ?r)]"]) (simp add: window_ok_snoc)
next
  case (in_request p ep sn len th)
  then show ?case by (intro exI[of _ q]) (simp add: on_pipe_in_request_def)
next
  case (wrote xfer timeout_ms env p n p')
  then show ?case by (intro exI[of _ q]) (simp add: pipe_write_queue)
next
  case (received p x p')
  then obtain t r q' where q: "q = (t, r) # q'" using pipe_take_one_empty[of p] by (cases q) auto
  with received pipe_take_one_queue[of t r q' p] show ?case
    by (intro exI[of _ q']) (auto simp: window_ok_Cons)
next
  case (read_nothing p p')
  then have "q = []" using pipe_take_one_queue[of _ _ _ p] by (cases q) fastforce+
  with read_nothing pipe_take_one_empty[of p] show ?case by (intro exI[of _ q]) simp
next
  case (unlinked p u c)
  let ?b = "fst (cancel_first (ic_cancel_pending u) (pp_in_channels p))"
  let ?q = "if ?b then q else remove_first (\<lambda>x. pr_seqnum (snd x) = u) q"
  from unlinked unlink_queue[of q p u c] show ?case
    by (intro exI[of _ ?q]) (auto simp: window_ok_remove map_snd_remove_first[of "\<lambda>r. pr_seqnum r = u"])
next
  case (connect outcome sched intfs session p evs p')
  then have "pipe_queue [] p'"
    by (auto simp: pipe_on_new_connection_def pipe_queue_def out_pending_def split: prod.splits if_splits)
  with connect show ?case by (intro exI[of _ "[]"]) (simp add: window_ok_def)
next
  case (disconnect p sched intfs)
  then show ?case
    by (intro exI[of _ "[]"]) (simp add: window_ok_def pipe_on_disconnection_def pipe_queue_def out_pending_def)
qed

lemma pipe_run_refines:
  "pipe_run p es p' \<Longrightarrow> pipe_queue q p \<Longrightarrow> window_ok q \<Longrightarrow> host_ok q es \<Longrightarrow> fifo_trace (map snd q) es"
proof (induction arbitrary: q rule: pipe_run.induct)
  case (more p e p1 es p')
  then show ?case using pipe_step_refines[OF more(1,4-6)] by blast
qed simp

section \<open>Properties\<close>

text \<open>C25: Every run of a pipe device, from a session's start, is a run of one FIFO queue over all its
  endpoints: \<open>read\<close> returns the OUT transfers and control requests in the order in which the host sent
  them, each with its endpoint, setup packet and data, and returns nothing only when none waits,
  across the wrap-around of the 32-bit sequence numbers, as long as the host's counter grows and no
  waiting request is \<open>2 ^ 31\<close> or more behind the newest.\<close>

theorem pipe_reads_in_arrival_order:
  assumes "pipe_on_new_connection outcome sched intfs session p0 = (evs, None, p)"
    and "pipe_run p obs p'" and "host_ok [] obs"
  shows "fifo_trace [] obs"
proof -
  have "pipe_queue [] p"
    using assms(1)
    by (auto simp: pipe_on_new_connection_def pipe_queue_def out_pending_def split: prod.splits if_splits)
  from pipe_run_refines[OF assms(2) this _ assms(3)] show ?thesis by (simp add: window_ok_def)
qed

theorem pipe_reads_in_arrival_order_witness:
  "fifo_trace []
     [Arrive (2 ^ 32 - 1) (\<lparr>pr_ep = 2, pr_seqnum = of_nat (2 ^ 32 - 1), pr_setup_req = None,
        pr_transfer = TransferHandle_empty\<rparr> :: GenericTransfer PendingRequest),
      Arrive (2 ^ 32) \<lparr>pr_ep = 1, pr_seqnum = of_nat (2 ^ 32), pr_setup_req = None,
        pr_transfer = TransferHandle_empty\<rparr>,
      Deliver \<lparr>px_ep = 2, px_setup_req = None, px_data = []\<rparr>]"
proof -
  let ?p0 = "PipeDeviceHandler_new :: GenericTransfer PipeDeviceHandler"
  let ?p = "?p0\<lparr>pp_responder := Some 1, pp_disconnected := False\<rparr>"
  let ?p1 = "on_pipe_out_transfer 2 (of_nat (2 ^ 32 - 1)) TransferHandle_empty ?p"
  let ?p2 = "on_pipe_out_transfer 1 (of_nat (2 ^ 32)) TransferHandle_empty ?p1"
  have c: "pipe_on_new_connection (\<lambda>_. None) False [] 1 ?p0 = ([Register_responder], None, ?p)"
    by (simp add: pipe_on_new_connection_def vd_on_new_connection_def PipeDeviceHandler_new_def)
  have r: "pipe_take_one ?p2 = (Some \<lparr>px_ep = 2, px_setup_req = None, px_data = []\<rparr>, snd (pipe_take_one ?p2))"
    by (simp add: pipe_take_one_def on_pipe_out_transfer_def with_out_channel_def get_out_channel_def
        PipeDeviceHandler_new_def oc_on_new_connection_def out_channel_new_def oc_on_out_request_def
        oc_front_seqnum_def seqnum_newer_def oc_try_take_def oc_take_locked_def TransferHandle_empty_def Let_def)
  show ?thesis
    by (rule pipe_reads_in_arrival_order[OF c], (rule pipe_run.intros out_request received[OF r])+)
       (simp add: xfer_of_def)
qed

section \<open>Behaviour at the edges\<close>

text \<open>A disconnection drops the queued requests: a read after it returns false at once.\<close>

lemma pipe_read_disconnected:
  "pipe_read timeout_ms env (snd (pipe_on_disconnection sched intfs p)) =
     Some (None, snd (pipe_on_disconnection sched intfs p))"
proof (cases env)
  case (Cons x env')
  then show ?thesis by (cases x) (simp add: pipe_on_disconnection_def pipe_take_one_def)
qed (simp add: pipe_on_disconnection_def pipe_take_one_def)

text \<open>A control IN request that is unlinked leaves its notification behind: the host has been told the
  request was cancelled, and the next \<open>read\<close> still returns it to the application.\<close>

lemma pipe_unlinked_control_still_read:
  assumes "pp_in_channels p = []" and "pp_out_channels p = []" and "\<not> setup_is_out sp"
  shows "\<exists>p1 p2. on_pipe_unlink s c (on_pipe_control_request sp s len th p) = ([unlink_reply c True], p1) \<and>
    pipe_take_one p1 = (Some \<lparr>px_ep = 0, px_setup_req = Some sp, px_data = []\<rparr>, p2)"
proof -
  let ?ch = "ic_on_new_connection stream_ops (pp_responder p) (bs_set_capacity (pp_fifo_capacity p)
      (in_channel_new \<lparr>bb_ring = RingBuffer_new (64 * 1024), bb_pull = None\<rparr>)) :: 'a ByteStreamInChannel"
  let ?ic = "ic_on_in_request stream_ops 0 s len th ?ch"
  let ?oc = "oc_on_out_request 0 s TransferHandle_empty (Some sp)
      (oc_on_new_connection (pp_responder p) out_channel_new) :: 'a out_channel"
  have p: "on_pipe_control_request sp s len th p =
      p\<lparr>pp_in_channels := [(0, ?ic)], pp_out_channels := [(0, ?oc)]\<rparr>"
    using assms
    by (simp add: on_pipe_control_request_def with_in_channel_def with_out_channel_def get_in_channel_def
        get_out_channel_def Let_def)
  have e: "rb_is_empty (bb_ring (ic_buffer ?ch))" "bb_pull (ic_buffer ?ch) = None" "\<not> ic_disconnected ?ch"
      "ic_requests ?ch = []" "ic_max_requests ?ch = 0"
    by (simp_all add: ic_on_new_connection_def bs_set_capacity_def in_channel_new_def stream_ops_def rb_clear_def
        rb_is_empty_def)
  have "ic_requests ?ic = [(0, [\<lparr>req_seqnum = s, req_length = len, req_transfer = th\<rparr>])]"
    using e by (simp add: ic_on_in_request_def stream_ops_def erq_empty_def ic_enqueue_def ic_evict_def
        erq_enqueue_def ic_try_send_pending.simps)
  then have "fst (ic_cancel_pending s ?ic)" by (simp add: ic_cancel_pending_def)
  then obtain ic' where "ic_cancel_pending s ?ic = (True, ic')" by (metis prod.collapse)
  then have "on_pipe_unlink s c (on_pipe_control_request sp s len th p) =
      ([unlink_reply c True], p\<lparr>pp_in_channels := [(0, ic')], pp_out_channels := [(0, ?oc)]\<rparr>)"
    by (simp add: on_pipe_unlink_def p)
  then show ?thesis
    by (simp add: pipe_take_one_def oc_on_out_request_def oc_on_new_connection_def out_channel_new_def
        oc_front_seqnum_def oc_try_take_def oc_take_locked_def TransferHandle_empty_def)
qed

end
