(* ===== verification/Ms_Os.thy ===== *)
theory Ms_Os
  imports Virtual_Device
begin

text \<open>
  Microsoft OS 1.0 descriptors (\<open>MSOSSimpleVirtualDeviceHandler\<close>, \<open>MsOsConstants.h\<close>) and the RNDIS
  preset \<open>RndisMsOsDeviceHandler\<close>: the signature string at index 0xEE, and the Compatible ID
  descriptor a vendor request with the code of that string returns.
\<close>

section \<open>Descriptors\<close>

definition MS_OS_STRING_INDEX :: u8 where "MS_OS_STRING_INDEX = 0xEE"
definition MS_OS_COMPAT_ID_WINDEX :: u16 where "MS_OS_COMPAT_ID_WINDEX = 0x0004"
definition MS_OS_DEFAULT_VENDOR_CODE :: u8 where "MS_OS_DEFAULT_VENDOR_CODE = 0x01"
definition RequestType_Vendor :: u8 where "RequestType_Vendor = 0x40"

definition MS_OS_SIGNATURE_UTF16LE :: data where
  "MS_OS_SIGNATURE_UTF16LE =
     [0x4D, 0x00, 0x53, 0x00, 0x46, 0x00, 0x54, 0x00, 0x31, 0x00, 0x30, 0x00, 0x30, 0x00]"

lemmas ms_os_constants =
  MS_OS_STRING_INDEX_def MS_OS_COMPAT_ID_WINDEX_def MS_OS_DEFAULT_VENDOR_CODE_def RequestType_Vendor_def

record MsOsStringDesc =
  ms_b_length :: u8
  ms_b_descriptor_type :: u8
  ms_qw_signature :: data
  ms_b_vendor_code :: u8
  ms_b_pad :: u8

definition MsOsStringDesc_append_to :: "MsOsStringDesc \<Rightarrow> data \<Rightarrow> data" where
  "MsOsStringDesc_append_to m d =
     vector_append_to_le d [F8 (ms_b_length m), F8 (ms_b_descriptor_type m), FArr (ms_qw_signature m),
       F8 (ms_b_vendor_code m), F8 (ms_b_pad m)]"

definition MsOsCompatIdHeader_append_to :: "u32 \<Rightarrow> u16 \<Rightarrow> u16 \<Rightarrow> u8 \<Rightarrow> data \<Rightarrow> data \<Rightarrow> data" where
  "MsOsCompatIdHeader_append_to dw_length bcd_version w_index b_count reserved d =
     vector_append_to_le d [F32 dw_length, F16 bcd_version, F16 w_index, F8 b_count, FArr reserved]"

record MsOsCompatIdSection =
  mc_b_first_interface :: u8
  mc_reserved1 :: u8
  mc_compatible_id :: data
  mc_sub_compatible_id :: data
  mc_reserved2 :: data

definition MsOsCompatIdSection_append_to :: "MsOsCompatIdSection \<Rightarrow> data \<Rightarrow> data" where
  "MsOsCompatIdSection_append_to s d =
     vector_append_to_le d [F8 (mc_b_first_interface s), F8 (mc_reserved1 s), FArr (mc_compatible_id s),
       FArr (mc_sub_compatible_id s), FArr (mc_reserved2 s)]"

text \<open>\<open>memcpy\<close> of at most 8 characters of a string into a zeroed array of 8 bytes.\<close>

definition id_array :: "data \<Rightarrow> data" where
  "id_array s = (let n = min (length s) 8 in take n s @ replicate (8 - n) 0)"

section \<open>The device\<close>

record MSOSSimpleVirtualDeviceHandler =
  ms_os_compatible_id :: data
  ms_os_sub_compatible_id :: data
  ms_os_vendor_code :: u8

definition MSOSSimpleVirtualDeviceHandler_new :: MSOSSimpleVirtualDeviceHandler where
  "MSOSSimpleVirtualDeviceHandler_new =
     \<lparr>ms_os_compatible_id = [], ms_os_sub_compatible_id = [], ms_os_vendor_code = MS_OS_DEFAULT_VENDOR_CODE\<rparr>"

definition set_ms_os_compatible_id ::
    "data \<Rightarrow> MSOSSimpleVirtualDeviceHandler \<Rightarrow> MSOSSimpleVirtualDeviceHandler" where
  "set_ms_os_compatible_id compatible_id h = h\<lparr>ms_os_compatible_id := compatible_id\<rparr>"

definition set_ms_os_sub_compatible_id ::
    "data \<Rightarrow> MSOSSimpleVirtualDeviceHandler \<Rightarrow> MSOSSimpleVirtualDeviceHandler" where
  "set_ms_os_sub_compatible_id sub_compatible_id h = h\<lparr>ms_os_sub_compatible_id := sub_compatible_id\<rparr>"

definition set_ms_os_vendor_code ::
    "u8 \<Rightarrow> MSOSSimpleVirtualDeviceHandler \<Rightarrow> MSOSSimpleVirtualDeviceHandler" where
  "set_ms_os_vendor_code vendor_code h = h\<lparr>ms_os_vendor_code := vendor_code\<rparr>"

definition ms_os_special_string_descriptor :: "MSOSSimpleVirtualDeviceHandler \<Rightarrow> u8 \<Rightarrow> data option" where
  "ms_os_special_string_descriptor h string_index =
     (if string_index = MS_OS_STRING_INDEX \<and> ms_os_compatible_id h \<noteq> []
      then Some (MsOsStringDesc_append_to
             \<lparr>ms_b_length = 18, ms_b_descriptor_type = descriptor_type_code DT_String,
              ms_qw_signature = MS_OS_SIGNATURE_UTF16LE, ms_b_vendor_code = ms_os_vendor_code h, ms_b_pad = 0\<rparr> [])
      else None)"

definition ms_os_compat_id_data :: "MSOSSimpleVirtualDeviceHandler \<Rightarrow> data" where
  "ms_os_compat_id_data h =
     MsOsCompatIdSection_append_to
       \<lparr>mc_b_first_interface = 0, mc_reserved1 = 0x01, mc_compatible_id = id_array (ms_os_compatible_id h),
        mc_sub_compatible_id = id_array (ms_os_sub_compatible_id h), mc_reserved2 = replicate 6 0\<rparr>
       (MsOsCompatIdHeader_append_to 40 0x0100 MS_OS_COMPAT_ID_WINDEX 1 (replicate 7 0) [])"

text \<open>A null transfer is dereferenced: \<open>None\<close>. The base class answers EPIPE.\<close>

definition simple_nonstandard_control :: "u32 \<Rightarrow> GenericTransfer UsbIpRetSubmit" where
  "simple_nonstandard_control seqnum = create_ret_submit_epipe_without_data seqnum 0"

definition ms_os_nonstandard_control ::
    "MSOSSimpleVirtualDeviceHandler \<Rightarrow> u32 \<Rightarrow> u32 \<Rightarrow> SetupPacket \<Rightarrow> GenericTransfer TransferHandle \<Rightarrow>
     GenericTransfer UsbIpRetSubmit option" where
  "ms_os_nonstandard_control h seqnum transfer_buffer_length sp th =
     (if ms_os_compatible_id h \<noteq> [] \<and>
         sp_request_type sp = RequestType_Vendor OR recipient_code RR_Device OR 0x80 \<and>
         sp_request sp = ms_os_vendor_code h \<and> sp_index sp = MS_OS_COMPAT_ID_WINDEX \<and>
         sp_value sp AND 0xFF = 0
      then (case th_handle th of
              None \<Rightarrow> None
            | Some trx \<Rightarrow>
                (let d = ms_os_compat_id_data h;
                     d' = (if unat transfer_buffer_length < length d
                           then take (unat transfer_buffer_length) d else d)
                 in Some (create_ret_submit_ok_with_no_iso seqnum (of_nat (length d'))
                       (th\<lparr>th_handle := Some (trx\<lparr>gt_data := d'\<rparr>)\<rparr>))))
      else Some (simple_nonstandard_control seqnum))"

definition ms_os_hooks :: "MSOSSimpleVirtualDeviceHandler \<Rightarrow> virtual_device \<Rightarrow> device_hooks" where
  "ms_os_hooks h v = (simple_hooks v)\<lparr>dh_special_string := ms_os_special_string_descriptor h\<rparr>"

definition RndisMsOsDeviceHandler_new :: MSOSSimpleVirtualDeviceHandler where
  "RndisMsOsDeviceHandler_new =
     set_ms_os_sub_compatible_id [0x35, 0x31, 0x36, 0x32, 0x30, 0x30, 0x31]
       (set_ms_os_compatible_id [0x52, 0x4E, 0x44, 0x49, 0x53] MSOSSimpleVirtualDeviceHandler_new)"

section \<open>Proofs\<close>

lemma length_id_array [simp]: "length (id_array s) = 8"
  by (simp add: id_array_def Let_def)

text \<open>An identifier of at most 8 characters, none of them 0, is read back from its array.\<close>

lemma id_array_roundtrip:
  assumes "length s \<le> 8" and "0 \<notin> set s"
  shows "takeWhile (\<lambda>c. c \<noteq> 0) (id_array s) = s"
proof -
  have "\<forall>c \<in> set s. c \<noteq> 0" using assms(2) by auto
  then show ?thesis using assms(1) by (simp add: id_array_def Let_def takeWhile_append min_def)
qed

text \<open>The lengths the specification fixes: \<open>dwLength\<close> is the length of the data.\<close>

lemma le_bytes_40: "le_bytes (40 :: u32) = [40, 0, 0, 0]"
  by code_simp

lemma ms_os_compat_id_length:
  "length (ms_os_compat_id_data h) = 40" "take 4 (ms_os_compat_id_data h) = [40, 0, 0, 0]"
  by (simp_all add: ms_os_compat_id_data_def MsOsCompatIdSection_append_to_def MsOsCompatIdHeader_append_to_def
      le_bytes_40)

lemma ms_os_compat_id_fields:
  "take 8 (drop 18 (ms_os_compat_id_data h)) = id_array (ms_os_compatible_id h)"
  "take 8 (drop 26 (ms_os_compat_id_data h)) = id_array (ms_os_sub_compatible_id h)"
  by (simp_all add: ms_os_compat_id_data_def MsOsCompatIdSection_append_to_def MsOsCompatIdHeader_append_to_def)

text \<open>The two steps of the host: the signature string carries the code of the vendor request, and the
  request with that code returns the identifiers.\<close>

lemma ms_os_signature:
  assumes "ms_os_compatible_id h \<noteq> []"
  shows "\<exists>d. get_string_descriptor (dh_special_string (ms_os_hooks h v)) v MS_OS_STRING_INDEX 18 = (d, 0) \<and>
    length d = 18 \<and> take 14 (drop 2 d) = MS_OS_SIGNATURE_UTF16LE \<and> d ! 16 = ms_os_vendor_code h"
  using assms
  by (simp add: get_string_descriptor_def ms_os_hooks_def ms_os_special_string_descriptor_def
      MsOsStringDesc_append_to_def MS_OS_SIGNATURE_UTF16LE_def truncate_to_def)

lemma ms_os_compat_id_request:
  assumes "ms_os_compatible_id h \<noteq> []" and "th_handle th = Some trx" and "40 \<le> unat len"
  shows "ms_os_nonstandard_control h seqnum len
      \<lparr>sp_request_type = 0xC0, sp_request = ms_os_vendor_code h, sp_value = 0, sp_index = 4, sp_length = n\<rparr> th =
    Some (create_ret_submit_ok_with_no_iso seqnum 40
      (th\<lparr>th_handle := Some (trx\<lparr>gt_data := ms_os_compat_id_data h\<rparr>)\<rparr>))"
  using assms by (simp add: ms_os_nonstandard_control_def ms_os_constants ms_os_compat_id_length Let_def)

lemma rndis_ms_os_ids:
  "takeWhile (\<lambda>c. c \<noteq> 0) (take 8 (drop 18 (ms_os_compat_id_data RndisMsOsDeviceHandler_new))) =
     [0x52, 0x4E, 0x44, 0x49, 0x53]"
  "takeWhile (\<lambda>c. c \<noteq> 0) (take 8 (drop 26 (ms_os_compat_id_data RndisMsOsDeviceHandler_new))) =
     [0x35, 0x31, 0x36, 0x32, 0x30, 0x30, 0x31]"
  unfolding ms_os_compat_id_fields
  by (subst id_array_roundtrip; simp add: RndisMsOsDeviceHandler_new_def set_ms_os_compatible_id_def
      set_ms_os_sub_compatible_id_def MSOSSimpleVirtualDeviceHandler_new_def)+

text \<open>Without a Compatible ID the device behaves as a \<open>SimpleVirtualDeviceHandler\<close>.\<close>

lemma ms_os_disabled:
  "ms_os_compatible_id h = [] \<Longrightarrow> ms_os_hooks h v = simple_hooks v \<and>
     ms_os_nonstandard_control h seqnum len sp th = Some (simple_nonstandard_control seqnum)"
  by (simp add: ms_os_hooks_def ms_os_special_string_descriptor_def simple_hooks_def ms_os_nonstandard_control_def
      get_special_string_descriptor_def fun_eq_iff)

end
