(* ===== verification/Audio.thy ===== *)
theory Audio
  imports Network
begin

text \<open>
  Audio sources and sinks (\<open>audio_sources/\<close>, \<open>audio_sinks/\<close>): the interfaces \<open>AudioSource\<close> and
  \<open>AudioSink\<close> as records of functions over the state of an implementation, the generated sources
  \<open>SineWaveSource\<close> and \<open>FourierSource\<close>, and the WAV file writer \<open>WavFileSink\<close>. The samples the
  sources compute in floating point are a function parameter, \<open>wave rate i\<close> (and for
  \<open>FourierSource\<close> the normalisation flag).
\<close>

section \<open>The interfaces\<close>

record AudioFormatInfo =
  af_channels :: u16
  af_bits_per_sample :: u8
  af_sample_rate :: u32

record 's format_ops =
  fo_supported_formats :: "'s \<Rightarrow> AudioFormatInfo list"
  fo_current_format :: "'s \<Rightarrow> AudioFormatInfo"
  fo_set_format :: "u16 \<Rightarrow> u8 \<Rightarrow> u32 \<Rightarrow> 's \<Rightarrow> bool \<times> 's"

record 's AudioSource = "'s format_ops" +
  src_get_chunk :: "'s \<Rightarrow> data option \<times> 's"

record 's AudioSink = "'s format_ops" +
  snk_write_pcm :: "data \<Rightarrow> 's \<Rightarrow> 's"
  snk_reset :: "'s \<Rightarrow> 's"

text \<open>What the audio handlers rely on: the current format is one of the supported ones, and a format
  that is accepted becomes the current one.\<close>

locale audio_format =
  fixes ops :: "('s, 'z) format_ops_scheme" and inv :: "'s \<Rightarrow> bool"
  assumes current_supported: "inv s \<Longrightarrow> fo_current_format ops s \<in> set (fo_supported_formats ops s)"
    and set_accepted: "inv s \<Longrightarrow> fo_set_format ops c b r s = (True, s') \<Longrightarrow>
      fo_current_format ops s' = \<lparr>af_channels = c, af_bits_per_sample = b, af_sample_rate = r\<rparr>"
    and set_accepted_inv: "inv s \<Longrightarrow> c = af_channels (fo_current_format ops s) \<Longrightarrow>
      b = af_bits_per_sample (fo_current_format ops s) \<Longrightarrow>
      \<lparr>af_channels = c, af_bits_per_sample = b, af_sample_rate = r\<rparr> \<in> set (fo_supported_formats ops s) \<Longrightarrow>
      \<exists>s'. fo_set_format ops c b r s = (True, s') \<and> inv s'"
    and set_refused: "fo_set_format ops c b r s = (False, s') \<Longrightarrow> s' = s"

text \<open>A source never hands out an empty chunk.\<close>

locale audio_source = audio_format ops inv
  for ops :: "('s, 'z) AudioSource_scheme" and inv :: "'s \<Rightarrow> bool" +
  assumes chunk_nonempty: "inv s \<Longrightarrow> src_get_chunk ops s = (Some d, s') \<Longrightarrow> d \<noteq> [] \<and> inv s'"
    and chunk_none: "inv s \<Longrightarrow> src_get_chunk ops s = (None, s') \<Longrightarrow> inv s'"

section \<open>Generated sources\<close>

record SineWaveSource =
  sw_sample_rates :: "u32 list"
  sw_channels :: u16
  sw_sample_rate :: u32
  sw_buffer :: data

text \<open>\<open>regenerate\<close>: one second of samples, each written to every channel, in the memory order of a
  little-endian host. Rates of \<open>2 ^ 30\<close> and more, where the 32-bit size of the buffer overflows,
  are excluded by the invariant.\<close>

definition sine_regenerate :: "(u32 \<Rightarrow> nat \<Rightarrow> u16) \<Rightarrow> ('z) SineWaveSource_scheme \<Rightarrow> ('z) SineWaveSource_scheme" where
  "sine_regenerate wave s =
     s\<lparr>sw_buffer := concat (map (\<lambda>i. concat (replicate (unat (sw_channels s)) (le_bytes (wave (sw_sample_rate s) i))))
         [0..<unat (sw_sample_rate s)])\<rparr>"

definition usable_rates :: "u32 list \<Rightarrow> u32 list" where
  "usable_rates sample_rates =
     (let rs = filter (\<lambda>r. r \<noteq> 0) sample_rates in if rs = [] then [48000] else rs)"

definition SineWaveSource_new :: "(u32 \<Rightarrow> nat \<Rightarrow> u16) \<Rightarrow> u32 list \<Rightarrow> u16 \<Rightarrow> SineWaveSource" where
  "SineWaveSource_new wave sample_rates channels =
     (let rs = usable_rates sample_rates
      in sine_regenerate wave
           \<lparr>sw_sample_rates = rs, sw_channels = channels, sw_sample_rate = hd rs, sw_buffer = []\<rparr>)"

definition sine_supported_formats :: "('z) SineWaveSource_scheme \<Rightarrow> AudioFormatInfo list" where
  "sine_supported_formats s =
     map (\<lambda>rate. \<lparr>af_channels = sw_channels s, af_bits_per_sample = 16, af_sample_rate = rate\<rparr>) (sw_sample_rates s)"

definition sine_current_format :: "('z) SineWaveSource_scheme \<Rightarrow> AudioFormatInfo" where
  "sine_current_format s =
     \<lparr>af_channels = sw_channels s, af_bits_per_sample = 16, af_sample_rate = sw_sample_rate s\<rparr>"

definition sine_set_format ::
    "(u32 \<Rightarrow> nat \<Rightarrow> u16) \<Rightarrow> u16 \<Rightarrow> u8 \<Rightarrow> u32 \<Rightarrow> ('z) SineWaveSource_scheme \<Rightarrow> bool \<times> ('z) SineWaveSource_scheme" where
  "sine_set_format wave new_channels bits_per_sample new_sample_rate s =
     (if bits_per_sample \<noteq> 16 \<or> (new_channels \<noteq> 1 \<and> new_channels \<noteq> 2) then (False, s)
      else if new_sample_rate \<notin> set (sw_sample_rates s) then (False, s)
      else (True, sine_regenerate wave (s\<lparr>sw_channels := new_channels, sw_sample_rate := new_sample_rate\<rparr>)))"

definition sine_get_chunk :: "('z) SineWaveSource_scheme \<Rightarrow> data option \<times> ('z) SineWaveSource_scheme" where
  "sine_get_chunk s = (Some (sw_buffer s), s)"

definition sine_ops :: "(u32 \<Rightarrow> nat \<Rightarrow> u16) \<Rightarrow> SineWaveSource AudioSource" where
  "sine_ops wave =
     \<lparr>fo_supported_formats = sine_supported_formats, fo_current_format = sine_current_format,
      fo_set_format = sine_set_format wave, src_get_chunk = sine_get_chunk\<rparr>"

text \<open>\<open>FourierSource\<close> has the same members and operations, and the flag its samples depend on.\<close>

record FourierSource = SineWaveSource +
  fs_normalize :: bool

definition fourier_set_format ::
    "(bool \<Rightarrow> u32 \<Rightarrow> nat \<Rightarrow> u16) \<Rightarrow> u16 \<Rightarrow> u8 \<Rightarrow> u32 \<Rightarrow> FourierSource \<Rightarrow> bool \<times> FourierSource" where
  "fourier_set_format wave new_channels bits_per_sample new_sample_rate s =
     (if bits_per_sample \<noteq> 16 \<or> (new_channels \<noteq> 1 \<and> new_channels \<noteq> 2) then (False, s)
      else if new_sample_rate \<notin> set (sw_sample_rates s) then (False, s)
      else (True, sine_regenerate (wave (fs_normalize s))
              (s\<lparr>sw_channels := new_channels, sw_sample_rate := new_sample_rate\<rparr>)))"

definition set_normalize :: "(bool \<Rightarrow> u32 \<Rightarrow> nat \<Rightarrow> u16) \<Rightarrow> bool \<Rightarrow> FourierSource \<Rightarrow> FourierSource" where
  "set_normalize wave n s =
     (if fs_normalize s = n then s
      else sine_regenerate (wave n) (s\<lparr>fs_normalize := n\<rparr>))"

definition fourier_ops :: "(bool \<Rightarrow> u32 \<Rightarrow> nat \<Rightarrow> u16) \<Rightarrow> FourierSource AudioSource" where
  "fourier_ops wave =
     \<lparr>fo_supported_formats = sine_supported_formats, fo_current_format = sine_current_format,
      fo_set_format = fourier_set_format wave, src_get_chunk = sine_get_chunk\<rparr>"

definition sine_inv :: "('z) SineWaveSource_scheme \<Rightarrow> bool" where
  "sine_inv s \<longleftrightarrow> sw_sample_rate s \<in> set (sw_sample_rates s) \<and>
     (\<forall>r \<in> set (sw_sample_rates s). 0 < r \<and> unat r < 2 ^ 30) \<and>
     sw_channels s \<in> {1, 2} \<and> sw_buffer s \<noteq> []"

lemma sine_regenerate_sel [simp]:
  "sw_sample_rates (sine_regenerate wave s) = sw_sample_rates s"
  "sw_channels (sine_regenerate wave s) = sw_channels s"
  "sw_sample_rate (sine_regenerate wave s) = sw_sample_rate s"
  by (simp_all add: sine_regenerate_def)

text \<open>The buffer holds one second: rate times channels samples of two bytes.\<close>

lemma sine_regenerate_length:
  "length (sw_buffer (sine_regenerate wave s)) = unat (sw_sample_rate s) * unat (sw_channels s) * 2"
  by (simp add: sine_regenerate_def length_concat comp_def sum_list_triv sum_list_replicate)

lemma sine_regenerate_empty [simp]:
  "sw_buffer (sine_regenerate wave s) = [] \<longleftrightarrow> sw_sample_rate s = 0 \<or> sw_channels s = 0"
proof -
  have "sw_buffer (sine_regenerate wave s) = [] \<longleftrightarrow>
      unat (sw_sample_rate s) * unat (sw_channels s) * 2 = 0"
    by (simp only: length_0_conv[symmetric] sine_regenerate_length)
  then show ?thesis by (simp add: unat_eq_0)
qed

lemma SineWaveSource_new_inv:
  assumes "channels \<in> {1, 2}" and "\<forall>r \<in> set rates. unat r < 2 ^ 30"
  shows "sine_inv (SineWaveSource_new wave rates channels)"
proof -
  have "usable_rates rates \<noteq> []" "\<forall>r \<in> set (usable_rates rates). 0 < r \<and> unat r < 2 ^ 30"
    using assms(2) by (auto simp: usable_rates_def Let_def word_gt_0)
  moreover from this have "hd (usable_rates rates) \<noteq> 0" by (metis hd_in_set less_irrefl)
  ultimately show ?thesis
    using assms(1) by (auto simp: SineWaveSource_new_def sine_inv_def Let_def)
qed

text \<open>The laws of the interface, for both sources: \<open>w\<close> are the samples after the change.\<close>

lemma sine_current_in: "sine_inv s \<Longrightarrow> sine_current_format s \<in> set (sine_supported_formats s)"
  by (auto simp: sine_current_format_def sine_supported_formats_def sine_inv_def)

lemma sine_format_changed:
  "sine_inv s \<Longrightarrow> r \<in> set (sw_sample_rates s) \<Longrightarrow> c \<in> {1, 2} \<Longrightarrow>
   sine_inv (sine_regenerate w (s\<lparr>sw_channels := c, sw_sample_rate := r\<rparr>))"
  by (auto simp: sine_inv_def)

lemmas sine_ops_defs = sine_ops_def fourier_ops_def sine_set_format_def fourier_set_format_def
  sine_current_format_def sine_supported_formats_def sine_get_chunk_def

interpretation sine_source: audio_source "sine_ops wave" sine_inv
  by unfold_locales
     (auto simp: sine_ops_defs sine_inv_def split: if_splits)

interpretation fourier_source: audio_source "fourier_ops wave" sine_inv
  by unfold_locales
     (auto simp: sine_ops_defs sine_inv_def split: if_splits)

section \<open>The WAV file sink\<close>

text \<open>\<open>ws_file\<close> is the content of the file; \<open>openable\<close> says whether \<open>file.open\<close> succeeds. A stream
  that is not open drops what is written to it.\<close>

record WavFileSink =
  ws_format :: AudioFormatInfo
  ws_file_open :: bool
  ws_file :: data
  ws_data_size :: u32
  ws_last_reported_mb :: u32

definition WavFileSink_new :: WavFileSink where
  "WavFileSink_new =
     \<lparr>ws_format = \<lparr>af_channels = 1, af_bits_per_sample = 16, af_sample_rate = 48000\<rparr>, ws_file_open = False,
      ws_file = [], ws_data_size = 0, ws_last_reported_mb = 0\<rparr>"

definition write_u32le :: "u32 \<Rightarrow> data" where
  "write_u32le value =
     [ucast (value AND 0xFF), ucast (drop_bit 8 value AND 0xFF), ucast (drop_bit 16 value AND 0xFF),
      ucast (drop_bit 24 value AND 0xFF)]"

definition write_u16le :: "u16 \<Rightarrow> data" where
  "write_u16le value = [ucast (value AND 0xFF), ucast (drop_bit 8 value AND 0xFF)]"

definition wav_header :: "u32 \<Rightarrow> u32 \<Rightarrow> AudioFormatInfo \<Rightarrow> data" where
  "wav_header riff_size data_size fmt =
     [0x52, 0x49, 0x46, 0x46] @ write_u32le riff_size @ [0x57, 0x41, 0x56, 0x45, 0x66, 0x6D, 0x74, 0x20] @
     write_u32le 16 @ write_u16le 1 @ write_u16le (af_channels fmt) @ write_u32le (af_sample_rate fmt) @
     write_u32le (af_sample_rate fmt * ucast (af_channels fmt) * 2) @ write_u16le (af_channels fmt * 2) @
     write_u16le (ucast (af_bits_per_sample fmt)) @ [0x64, 0x61, 0x74, 0x61] @ write_u32le data_size"

definition wav_open_file :: "bool \<Rightarrow> WavFileSink \<Rightarrow> WavFileSink" where
  "wav_open_file openable w =
     (if openable then w\<lparr>ws_file := wav_header 0 0 (ws_format w), ws_file_open := True\<rparr> else w)"

definition update_header_locked :: "WavFileSink \<Rightarrow> WavFileSink" where
  "update_header_locked w =
     (if ws_file_open w
      then w\<lparr>ws_file := memcpy_at 40 (write_u32le (ws_data_size w))
                 (memcpy_at 4 (write_u32le (36 + ws_data_size w)) (ws_file w))\<rparr>
      else w)"

definition finalize_locked :: "WavFileSink \<Rightarrow> WavFileSink" where
  "finalize_locked w =
     (if \<not> ws_file_open w then w
      else (update_header_locked w)\<lparr>ws_file_open := False, ws_data_size := 0\<rparr>)"

definition wav_write_pcm :: "bool \<Rightarrow> data \<Rightarrow> WavFileSink \<Rightarrow> WavFileSink" where
  "wav_write_pcm openable d w =
     (let w1 = (if \<not> ws_file_open w then wav_open_file openable w else w);
          w2 = (if ws_file_open w1 then w1\<lparr>ws_file := ws_file w1 @ d\<rparr> else w1);
          w3 = update_header_locked (w2\<lparr>ws_data_size := ws_data_size w2 + of_nat (length d)\<rparr>);
          mb = ws_data_size w3 div (1024 * 1024)
      in if ws_last_reported_mb w3 < mb then w3\<lparr>ws_last_reported_mb := mb\<rparr> else w3)"

definition wav_reset :: "WavFileSink \<Rightarrow> WavFileSink" where
  "wav_reset = finalize_locked"

definition wav_supported_formats :: "AudioFormatInfo list" where
  "wav_supported_formats =
     concat (map (\<lambda>rate. [\<lparr>af_channels = 1, af_bits_per_sample = 16, af_sample_rate = rate\<rparr>,
                         \<lparr>af_channels = 2, af_bits_per_sample = 16, af_sample_rate = rate\<rparr>])
       [8000, 16000, 22050, 32000, 44100, 48000, 96000])"

definition wav_set_format :: "u16 \<Rightarrow> u8 \<Rightarrow> u32 \<Rightarrow> WavFileSink \<Rightarrow> bool \<times> WavFileSink" where
  "wav_set_format channels bits_per_sample sample_rate w =
     (if bits_per_sample \<noteq> 16 \<or> (channels \<noteq> 1 \<and> channels \<noteq> 2) then (False, w)
      else if channels \<noteq> af_channels (ws_format w) \<or> sample_rate \<noteq> af_sample_rate (ws_format w)
      then (True, (finalize_locked w)\<lparr>ws_format :=
              \<lparr>af_channels = channels, af_bits_per_sample = bits_per_sample, af_sample_rate = sample_rate\<rparr>\<rparr>)
      else (True, w))"

definition wav_ops :: "bool \<Rightarrow> WavFileSink AudioSink" where
  "wav_ops openable =
     \<lparr>fo_supported_formats = (\<lambda>_. wav_supported_formats), fo_current_format = ws_format,
      fo_set_format = wav_set_format, snk_write_pcm = wav_write_pcm openable, snk_reset = wav_reset\<rparr>"

definition wav_inv :: "WavFileSink \<Rightarrow> bool" where
  "wav_inv w \<longleftrightarrow> ws_format w \<in> set wav_supported_formats"

lemma finalize_locked_format [simp]: "ws_format (finalize_locked w) = ws_format w"
  by (simp add: finalize_locked_def update_header_locked_def)

interpretation wav_sink: audio_format "wav_ops openable" wav_inv
proof
  fix s c b r s'
  show "fo_current_format (wav_ops openable) s \<in> set (fo_supported_formats (wav_ops openable) s)" if "wav_inv s"
    using that by (simp add: wav_ops_def wav_inv_def)
  have b: "af_bits_per_sample (ws_format s) = 16" if "wav_inv s"
    using that by (auto simp: wav_inv_def wav_supported_formats_def)
  show "fo_current_format (wav_ops openable) s' = \<lparr>af_channels = c, af_bits_per_sample = b, af_sample_rate = r\<rparr>"
    if "wav_inv s" "fo_set_format (wav_ops openable) c b r s = (True, s')"
    using that b by (auto simp: wav_ops_def wav_set_format_def split: if_splits)
  show "s' = s" if "fo_set_format (wav_ops openable) c b r s = (False, s')"
    using that by (auto simp: wav_ops_def wav_set_format_def split: if_splits)
  show "\<exists>s'. fo_set_format (wav_ops openable) c b r s = (True, s') \<and> wav_inv s'"
    if "wav_inv s" "\<lparr>af_channels = c, af_bits_per_sample = b, af_sample_rate = r\<rparr> \<in>
      set (fo_supported_formats (wav_ops openable) s)"
  proof -
    have "c = 1 \<or> c = 2" "b = 16" using that(2) by (auto simp: wav_ops_def wav_supported_formats_def)
    with that show ?thesis by (auto simp: wav_ops_def wav_set_format_def wav_inv_def)
  qed
qed

text \<open>While the file is open it is a WAV file of everything written since it was opened, with its
  sizes filled in, and not only after it is closed.\<close>

definition wav_file_of :: "AudioFormatInfo \<Rightarrow> data \<Rightarrow> data" where
  "wav_file_of fmt pcm = wav_header (36 + of_nat (length pcm)) (of_nat (length pcm)) fmt @ pcm"

definition wav_holds :: "data \<Rightarrow> WavFileSink \<Rightarrow> bool" where
  "wav_holds pcm w \<longleftrightarrow> ws_file_open w \<and> ws_file w = wav_file_of (ws_format w) pcm \<and>
     ws_data_size w = of_nat (length pcm)"

lemma length_write_le [simp]: "length (write_u32le x) = 4" "length (write_u16le y) = 2"
  by (simp_all add: write_u32le_def write_u16le_def)

lemma length_wav_header [simp]: "length (wav_header a b fmt) = 44"
  by (simp add: wav_header_def)

lemma wav_header_update:
  "memcpy_at 40 (write_u32le b') (memcpy_at 4 (write_u32le a') (wav_header a b fmt @ pcm)) =
     wav_header a' b' fmt @ pcm"
  by (simp add: memcpy_at_def wav_header_def)

lemma update_header_holds:
  assumes "ws_file_open w" and "ws_file w = wav_header a b (ws_format w) @ pcm"
    and "ws_data_size w = of_nat (length pcm)"
  shows "wav_holds pcm (update_header_locked w)"
  using assms by (simp add: update_header_locked_def wav_holds_def wav_file_of_def wav_header_update)

lemma wav_holds_reported [simp]: "wav_holds pcm (w\<lparr>ws_last_reported_mb := m\<rparr>) = wav_holds pcm w"
  by (simp add: wav_holds_def)

lemma wav_write_appends:
  assumes "wav_holds pcm w"
  shows "wav_holds (pcm @ d) (wav_write_pcm openable d w)"
proof -
  have "wav_holds (pcm @ d) (update_header_locked
      (w\<lparr>ws_file := ws_file w @ d, ws_data_size := ws_data_size w + of_nat (length d)\<rparr>))"
    using assms by (intro update_header_holds[where a = "36 + of_nat (length pcm)" and b = "of_nat (length pcm)"])
      (simp_all add: wav_holds_def wav_file_of_def)
  with assms show ?thesis by (simp add: wav_write_pcm_def Let_def wav_holds_def[of pcm])
qed

lemma wav_write_first:
  assumes "\<not> ws_file_open w" and "ws_data_size w = 0"
  shows "wav_holds d (wav_write_pcm True d w)"
proof -
  have "wav_holds d (update_header_locked
      (w\<lparr>ws_file_open := True, ws_file := wav_header 0 0 (ws_format w) @ d, ws_data_size := of_nat (length d)\<rparr>))"
    by (intro update_header_holds[where a = 0 and b = 0]) simp_all
  with assms show ?thesis by (simp add: wav_write_pcm_def wav_open_file_def Let_def)
qed

lemma wav_writes:
  "wav_holds pcm w \<Longrightarrow> wav_holds (pcm @ concat ds) (fold (wav_write_pcm openable) ds w)"
proof (induction ds arbitrary: pcm w)
  case (Cons d ds)
  from Cons.IH[OF wav_write_appends[OF Cons.prems], of d openable] show ?case by simp
qed simp

text \<open>A write that cannot open the file is still counted: a file opened later announces bytes it does
  not hold.\<close>

lemma wav_failed_open_counted:
  "ws_file (wav_write_pcm True [1, 2] (wav_write_pcm False [3, 4] WavFileSink_new)) =
     wav_header 40 4 (ws_format WavFileSink_new) @ [1, 2]"
  by (simp add: wav_write_pcm_def wav_open_file_def WavFileSink_new_def update_header_locked_def Let_def
      wav_header_update)

text \<open>A rate outside the supported list is accepted.\<close>

lemma wav_accepts_unsupported:
  "fst (wav_set_format 1 16 12345 WavFileSink_new)"
  "\<lparr>af_channels = 1, af_bits_per_sample = 16, af_sample_rate = 12345\<rparr> \<notin> set wav_supported_formats"
  by (simp_all add: wav_set_format_def WavFileSink_new_def wav_supported_formats_def)

end
