(* ===== verification/Uac.thy ===== *)
theory Uac
  imports Audio Cdc_Acm
begin

text \<open>
  The USB audio function (\<open>UacVirtualInterfaceHandler\<close>, UAC 1.0): the AudioControl interface with its
  feature unit (mute, volume), the AudioStreaming interface of a microphone, which fills isochronous
  IN packets from an \<open>AudioSource\<close>, and that of a speaker, which hands the packets of isochronous
  OUT transfers to an \<open>AudioSink\<close>. A null transfer and an access outside a buffer are the outcome
  \<open>None\<close>. Every operation is one atomic step.
\<close>

section \<open>Constants and descriptors\<close>

definition SET_CUR :: u8 where "SET_CUR = 0x01"
definition GET_CUR :: u8 where "GET_CUR = 0x81"
definition GET_MIN :: u8 where "GET_MIN = 0x82"
definition GET_MAX :: u8 where "GET_MAX = 0x83"
definition GET_RES :: u8 where "GET_RES = 0x84"
definition GET_DEF :: u8 where "GET_DEF = 0x87"
definition AC_DESC_HEADER :: u8 where "AC_DESC_HEADER = 0x01"
definition AC_DESC_INPUT_TERMINAL :: u8 where "AC_DESC_INPUT_TERMINAL = 0x02"
definition AC_DESC_OUTPUT_TERMINAL :: u8 where "AC_DESC_OUTPUT_TERMINAL = 0x03"
definition AC_DESC_FEATURE_UNIT :: u8 where "AC_DESC_FEATURE_UNIT = 0x06"
definition AS_DESC_GENERAL :: u8 where "AS_DESC_GENERAL = 0x01"
definition AS_DESC_FORMAT_TYPE :: u8 where "AS_DESC_FORMAT_TYPE = 0x02"
definition TT_USB_STREAMING :: u16 where "TT_USB_STREAMING = 0x0101"
definition ITT_MICROPHONE :: u16 where "ITT_MICROPHONE = 0x0201"
definition ITT_SPEAKER :: u16 where "ITT_SPEAKER = 0x0301"
definition CHANNEL_CONFIG_MONO :: u16 where "CHANNEL_CONFIG_MONO = 0x0004"
definition CHANNEL_CONFIG_STEREO :: u16 where "CHANNEL_CONFIG_STEREO = 0x0003"
definition UAC_ENTITY_INPUT_TERMINAL :: u8 where "UAC_ENTITY_INPUT_TERMINAL = 0x01"
definition UAC_ENTITY_FEATURE_UNIT :: u8 where "UAC_ENTITY_FEATURE_UNIT = 0x02"
definition UAC_ENTITY_OUTPUT_TERMINAL :: u8 where "UAC_ENTITY_OUTPUT_TERMINAL = 0x03"
definition FU_MUTE_CONTROL :: u8 where "FU_MUTE_CONTROL = 0x01"
definition FU_VOLUME_CONTROL :: u8 where "FU_VOLUME_CONTROL = 0x02"
definition AS_SAMPLING_FREQ_CONTROL :: u8 where "AS_SAMPLING_FREQ_CONTROL = 0x01"
definition AUDIO_FORMAT_PCM :: u16 where "AUDIO_FORMAT_PCM = 0x0001"
definition UAC_BCD_1_00 :: u16 where "UAC_BCD_1_00 = 0x0100"

lemmas uac_constants =
  SET_CUR_def GET_CUR_def GET_MIN_def GET_MAX_def GET_RES_def GET_DEF_def CC_AUDIO_def AC_DESC_HEADER_def
  AC_DESC_INPUT_TERMINAL_def AC_DESC_OUTPUT_TERMINAL_def AC_DESC_FEATURE_UNIT_def AS_DESC_GENERAL_def
  AS_DESC_FORMAT_TYPE_def TT_USB_STREAMING_def ITT_MICROPHONE_def ITT_SPEAKER_def CHANNEL_CONFIG_MONO_def
  CHANNEL_CONFIG_STEREO_def UAC_ENTITY_INPUT_TERMINAL_def UAC_ENTITY_FEATURE_UNIT_def
  UAC_ENTITY_OUTPUT_TERMINAL_def FU_MUTE_CONTROL_def FU_VOLUME_CONTROL_def AS_SAMPLING_FREQ_CONTROL_def
  AUDIO_FORMAT_PCM_def UAC_BCD_1_00_def CS_INTERFACE_def

definition AcHeaderDesc_append_to :: "u8 \<Rightarrow> u8 \<Rightarrow> u8 \<Rightarrow> u16 \<Rightarrow> u16 \<Rightarrow> u8 \<Rightarrow> u8 \<Rightarrow> data \<Rightarrow> data" where
  "AcHeaderDesc_append_to bLength bType bSubtype bcdADC wTotalLength bInCollection baInterfaceNr d =
     vector_append_to_le d [F8 bLength, F8 bType, F8 bSubtype, F16 bcdADC, F16 wTotalLength, F8 bInCollection,
       F8 baInterfaceNr]"

definition AcInputTerminalDesc_append_to ::
    "u8 \<Rightarrow> u8 \<Rightarrow> u8 \<Rightarrow> u8 \<Rightarrow> u16 \<Rightarrow> u8 \<Rightarrow> u8 \<Rightarrow> u16 \<Rightarrow> u8 \<Rightarrow> u8 \<Rightarrow> data \<Rightarrow> data" where
  "AcInputTerminalDesc_append_to bLength bType bSubtype bTerminalID wTerminalType bAssocTerminal bNrChannels
       wChannelConfig iChannelNames iTerminal d =
     vector_append_to_le d [F8 bLength, F8 bType, F8 bSubtype, F8 bTerminalID, F16 wTerminalType,
       F8 bAssocTerminal, F8 bNrChannels, F16 wChannelConfig, F8 iChannelNames, F8 iTerminal]"

definition AcOutputTerminalDesc_append_to ::
    "u8 \<Rightarrow> u8 \<Rightarrow> u8 \<Rightarrow> u8 \<Rightarrow> u16 \<Rightarrow> u8 \<Rightarrow> u8 \<Rightarrow> u8 \<Rightarrow> data \<Rightarrow> data" where
  "AcOutputTerminalDesc_append_to bLength bType bSubtype bTerminalID wTerminalType bAssocTerminal bSourceID
       iTerminal d =
     vector_append_to_le d [F8 bLength, F8 bType, F8 bSubtype, F8 bTerminalID, F16 wTerminalType,
       F8 bAssocTerminal, F8 bSourceID, F8 iTerminal]"

definition AcFeatureUnitHead_append_to ::
    "u8 \<Rightarrow> u8 \<Rightarrow> u8 \<Rightarrow> u8 \<Rightarrow> u8 \<Rightarrow> u8 \<Rightarrow> u8 \<Rightarrow> u8 \<Rightarrow> data \<Rightarrow> data" where
  "AcFeatureUnitHead_append_to bLength bType bSubtype bUnitID bSourceID bControlSize bma_controls channels d =
     vector_append_to_le d [F8 bLength, F8 bType, F8 bSubtype, F8 bUnitID, F8 bSourceID, F8 bControlSize] @
     replicate (unat channels + 1) bma_controls @ [0x00]"

definition AsGeneralDesc_append_to :: "u8 \<Rightarrow> u8 \<Rightarrow> u8 \<Rightarrow> u8 \<Rightarrow> u8 \<Rightarrow> u16 \<Rightarrow> data \<Rightarrow> data" where
  "AsGeneralDesc_append_to bLength bType bSubtype bTerminalLink bDelay wFormatTag d =
     vector_append_to_le d [F8 bLength, F8 bType, F8 bSubtype, F8 bTerminalLink, F8 bDelay, F16 wFormatTag]"

text \<open>A sample rate on the wire: 24 bits, little endian.\<close>

definition rate_bytes :: "u32 \<Rightarrow> data" where
  "rate_bytes rate =
     [ucast (rate AND 0xFF), ucast (drop_bit 8 rate AND 0xFF), ucast (drop_bit 16 rate AND 0xFF)]"

definition AsFormatTypeIHead_append_to ::
    "u8 \<Rightarrow> u8 \<Rightarrow> u8 \<Rightarrow> u8 \<Rightarrow> u8 \<Rightarrow> u8 \<Rightarrow> u8 \<Rightarrow> u8 \<Rightarrow> u32 list \<Rightarrow> data \<Rightarrow> data" where
  "AsFormatTypeIHead_append_to bLength bType bSubtype bFormatType bNrChannels bSubframeSize bBitResolution
       bSamFreqType rates d =
     vector_append_to_le d [F8 bLength, F8 bType, F8 bSubtype, F8 bFormatType, F8 bNrChannels, F8 bSubframeSize,
       F8 bBitResolution, F8 bSamFreqType] @ concat (map rate_bytes rates)"

section \<open>The AudioControl interface\<close>

text \<open>Volumes are signed 16-bit numbers of 1/256 dB.\<close>

record UacDeviceConfig =
  uc_input_terminal_type :: u16
  uc_output_terminal_type :: u16
  uc_channels :: u8
  uc_feature_unit_mute :: bool
  uc_feature_unit_volume :: bool
  uc_volume_min_db256 :: u16
  uc_volume_max_db256 :: u16

definition UacDeviceConfig_default :: UacDeviceConfig where
  "UacDeviceConfig_default =
     \<lparr>uc_input_terminal_type = ITT_MICROPHONE, uc_output_terminal_type = ITT_SPEAKER, uc_channels = 0,
      uc_feature_unit_mute = True, uc_feature_unit_volume = True, uc_volume_min_db256 = - 0x2A00,
      uc_volume_max_db256 = 0\<rparr>"

record UacAudioControlHandler =
  ac_class_desc :: data
  ac_desc_built :: bool
  ac_config :: UacDeviceConfig
  ac_mute :: bool
  ac_volume_db :: u16
  ac_gain_q16 :: u32
  ac_as_interface_number :: u8
  ac_status_channel :: "GenericTransfer MessageInChannel"

definition UacAudioControlHandler_new :: UacAudioControlHandler where
  "UacAudioControlHandler_new =
     \<lparr>ac_class_desc = [], ac_desc_built = False, ac_config = UacDeviceConfig_default, ac_mute = False,
      ac_volume_db = 0, ac_gain_q16 = 65536, ac_as_interface_number = 1,
      ac_status_channel = in_channel_new \<lparr>mb_pending = [], mb_max = 0\<rparr>\<rparr>"

definition uac_set_config :: "UacDeviceConfig \<Rightarrow> UacAudioControlHandler \<Rightarrow> UacAudioControlHandler" where
  "uac_set_config new_config h =
     h\<lparr>ac_config := (if uc_channels new_config \<noteq> 1 \<and> uc_channels new_config \<noteq> 2
                     then new_config\<lparr>uc_channels := 1\<rparr> else new_config)\<rparr>"

definition set_as_handler :: "UsbInterface \<Rightarrow> UacAudioControlHandler \<Rightarrow> UacAudioControlHandler" where
  "set_as_handler as_interface h = h\<lparr>ac_as_interface_number := interface_number as_interface\<rparr>"

definition ac_class_descriptor :: "UacDeviceConfig \<Rightarrow> u8 \<Rightarrow> data" where
  "ac_class_descriptor config as_if_num =
     (let is_speaker = (uc_input_terminal_type config = TT_USB_STREAMING);
          fu_len = 7 + uc_channels config + 1;
          bma_controls = (if uc_feature_unit_mute config then 0x01 else 0) OR
                         (if uc_feature_unit_volume config then 0x02 else 0);
          channel_config = (if uc_channels config = 2 then CHANNEL_CONFIG_STEREO else CHANNEL_CONFIG_MONO);
          output_type = (if is_speaker then uc_output_terminal_type config else TT_USB_STREAMING);
          d1 = AcHeaderDesc_append_to 9 CS_INTERFACE AC_DESC_HEADER UAC_BCD_1_00 0x00 0x01 as_if_num [];
          d2 = AcInputTerminalDesc_append_to 12 CS_INTERFACE AC_DESC_INPUT_TERMINAL UAC_ENTITY_INPUT_TERMINAL
                 (uc_input_terminal_type config) 0x00 (uc_channels config) channel_config 0x00 0x00 d1;
          d3 = AcFeatureUnitHead_append_to fu_len CS_INTERFACE AC_DESC_FEATURE_UNIT UAC_ENTITY_FEATURE_UNIT
                 UAC_ENTITY_INPUT_TERMINAL 0x01 bma_controls (uc_channels config) d2;
          d4 = AcOutputTerminalDesc_append_to 9 CS_INTERFACE AC_DESC_OUTPUT_TERMINAL UAC_ENTITY_OUTPUT_TERMINAL
                 output_type 0x00 UAC_ENTITY_FEATURE_UNIT 0x00 d3;
          n = length d4
      in d4[5 := of_nat (n mod 256), 6 := of_nat (n div 256 mod 256)])"

definition ac_build_class_descriptor :: "UacAudioControlHandler \<Rightarrow> UacAudioControlHandler" where
  "ac_build_class_descriptor h =
     (if ac_desc_built h then h
      else h\<lparr>ac_desc_built := True,
             ac_class_desc := ac_class_descriptor (ac_config h) (ac_as_interface_number h)\<rparr>)"

definition send_ac_status :: "data \<Rightarrow> UacAudioControlHandler \<Rightarrow> UacAudioControlHandler" where
  "send_ac_status status h = h\<lparr>ac_status_channel := snd (msg_push status True (ac_status_channel h))\<rparr>"

text \<open>A successful answer with data in the transfer, and the answer of a class-specific
  \<open>GET_DESCRIPTOR\<close>.\<close>

definition class_data_reply ::
    "u32 \<Rightarrow> data \<Rightarrow> GenericTransfer TransferHandle \<Rightarrow> GenericTransfer \<Rightarrow> GenericTransfer UsbIpRetSubmit" where
  "class_data_reply seqnum d th trx =
     create_ret_submit_with_status_and_no_iso seqnum (urb_status_code StatusOK) (of_nat (length d))
       (th\<lparr>th_handle := Some (trx\<lparr>gt_data := d, gt_actual_length := length d\<rparr>)\<rparr>)"

definition class_empty_reply ::
    "u32 \<Rightarrow> GenericTransfer TransferHandle \<Rightarrow> GenericTransfer \<Rightarrow> GenericTransfer UsbIpRetSubmit" where
  "class_empty_reply seqnum th trx =
     create_ret_submit_with_status_and_no_iso seqnum (urb_status_code StatusOK) 0
       (th\<lparr>th_handle := Some (trx\<lparr>gt_actual_length := 0\<rparr>)\<rparr>)"

definition class_stall :: "u32 \<Rightarrow> GenericTransfer UsbIpRetSubmit" where
  "class_stall seqnum = create_ret_submit_epipe_without_data seqnum 0"

definition class_descriptor_reply ::
    "u32 \<Rightarrow> u32 \<Rightarrow> SetupPacket \<Rightarrow> data \<Rightarrow> GenericTransfer TransferHandle \<Rightarrow> GenericTransfer \<Rightarrow>
     GenericTransfer UsbIpRetSubmit" where
  "class_descriptor_reply seqnum len sp class_desc th trx =
     (if drop_bit 8 (sp_value sp) = ucast CS_INTERFACE
      then class_data_reply seqnum (take (unat len) class_desc) th trx
      else class_stall seqnum)"

definition i16_bytes :: "u16 \<Rightarrow> data" where
  "i16_bytes v = [ucast (v AND 0xFF), ucast (drop_bit 8 v AND 0xFF)]"

definition clamp_i16 :: "u16 \<Rightarrow> u16 \<Rightarrow> u16 \<Rightarrow> u16" where
  "clamp_i16 v lo hi = (if sint v < sint lo then lo else if sint hi < sint v then hi else v)"

text \<open>The status word \<open>send_ac_status\<close> pushes: interrupt pending, originator AudioControl, feature unit.\<close>

definition fu_status :: data where
  "fu_status = [0x01 OR 0x00, UAC_ENTITY_FEATURE_UNIT]"

text \<open>The two controls of the feature unit. \<open>pow_q16 v\<close> is the rounded value of
  \<open>10 ^ (v / 256 / 20) * 65536\<close> in double precision.\<close>

definition ac_mute_control ::
    "u8 \<Rightarrow> u32 \<Rightarrow> GenericTransfer TransferHandle \<Rightarrow> GenericTransfer \<Rightarrow> UacAudioControlHandler \<Rightarrow>
     GenericTransfer UsbIpRetSubmit \<times> UacAudioControlHandler" where
  "ac_mute_control request seqnum th trx h =
     (if \<not> uc_feature_unit_mute (ac_config h) then (class_stall seqnum, h)
      else if request = GET_CUR then (class_data_reply seqnum [if ac_mute h then 1 else 0] th trx, h)
      else if request = SET_CUR
      then (class_empty_reply seqnum th trx,
            case gt_data trx of
              [] \<Rightarrow> h
            | b # _ \<Rightarrow>
                if (b \<noteq> 0) \<noteq> ac_mute h then send_ac_status fu_status (h\<lparr>ac_mute := (b \<noteq> 0)\<rparr>) else h)
      else (class_stall seqnum, h))"

definition ac_set_volume :: "(u16 \<Rightarrow> u32) \<Rightarrow> u16 \<Rightarrow> UacAudioControlHandler \<Rightarrow> UacAudioControlHandler" where
  "ac_set_volume pow_q16 v h =
     (let clamped = clamp_i16 v (uc_volume_min_db256 (ac_config h)) (uc_volume_max_db256 (ac_config h))
      in if clamped \<noteq> ac_volume_db h
         then send_ac_status fu_status
                (h\<lparr>ac_volume_db := clamped,
                   ac_gain_q16 := (if sint clamped \<le> - 0x7800 then 0 else pow_q16 clamped)\<rparr>)
         else h)"

definition ac_volume_control ::
    "(u16 \<Rightarrow> u32) \<Rightarrow> u8 \<Rightarrow> u32 \<Rightarrow> GenericTransfer TransferHandle \<Rightarrow> GenericTransfer \<Rightarrow> UacAudioControlHandler \<Rightarrow>
     GenericTransfer UsbIpRetSubmit \<times> UacAudioControlHandler" where
  "ac_volume_control pow_q16 request seqnum th trx h =
     (if \<not> uc_feature_unit_volume (ac_config h) then (class_stall seqnum, h)
      else if request = GET_CUR then (class_data_reply seqnum (i16_bytes (ac_volume_db h)) th trx, h)
      else if request = GET_MIN
      then (class_data_reply seqnum (i16_bytes (uc_volume_min_db256 (ac_config h))) th trx, h)
      else if request = GET_MAX
      then (class_data_reply seqnum (i16_bytes (uc_volume_max_db256 (ac_config h))) th trx, h)
      else if request = GET_DEF then (class_data_reply seqnum (i16_bytes 0) th trx, h)
      else if request = GET_RES then (class_data_reply seqnum (i16_bytes 0x0100) th trx, h)
      else if request = SET_CUR
      then (class_empty_reply seqnum th trx,
            case gt_data trx of
              b0 # b1 # _ \<Rightarrow> ac_set_volume pow_q16 (ucast b0 OR push_bit 8 (ucast b1)) h
            | _ \<Rightarrow> h)
      else (class_stall seqnum, h))"

definition ac_control ::
    "(u16 \<Rightarrow> u32) \<Rightarrow> u32 \<Rightarrow> u32 \<Rightarrow> SetupPacket \<Rightarrow> GenericTransfer TransferHandle \<Rightarrow> UacAudioControlHandler \<Rightarrow>
     (GenericTransfer UsbIpRetSubmit \<times> UacAudioControlHandler) option" where
  "ac_control pow_q16 seqnum len sp th h =
     (if calc_request_type sp \<noteq> RequestType_Class then Some (class_stall seqnum, h)
      else (case th_handle th of
              None \<Rightarrow> None
            | Some trx \<Rightarrow>
                Some (let entity = drop_bit 8 (sp_index sp); control_selector = drop_bit 8 (sp_value sp)
                      in if sp_request sp = standard_request_code GetDescriptor
                         then (class_descriptor_reply seqnum len sp (ac_class_desc h) th trx, h)
                         else if entity = ucast UAC_ENTITY_INPUT_TERMINAL \<or> entity = ucast UAC_ENTITY_OUTPUT_TERMINAL
                         then (class_empty_reply seqnum th trx, h)
                         else if entity \<noteq> ucast UAC_ENTITY_FEATURE_UNIT then (class_stall seqnum, h)
                         else if control_selector = ucast FU_MUTE_CONTROL
                         then ac_mute_control (sp_request sp) seqnum th trx h
                         else if control_selector = ucast FU_VOLUME_CONTROL
                         then ac_volume_control pow_q16 (sp_request sp) seqnum th trx h
                         else (class_stall seqnum, h))))"

definition ac_interrupt ::
    "UsbEndpoint \<Rightarrow> u32 \<Rightarrow> u32 \<Rightarrow> GenericTransfer TransferHandle \<Rightarrow> UacAudioControlHandler \<Rightarrow>
     GenericTransfer UsbIpRetSubmit list \<times> UacAudioControlHandler" where
  "ac_interrupt ep seqnum len th h =
     (if ep_is_in ep
      then ([], h\<lparr>ac_status_channel :=
                  ic_on_in_request message_ops (ep_address ep) seqnum len th (ac_status_channel h)\<rparr>)
      else ([class_stall seqnum], h))"

definition ac_on_new_connection :: "nat \<Rightarrow> UacAudioControlHandler \<Rightarrow> UacAudioControlHandler" where
  "ac_on_new_connection session h =
     h\<lparr>ac_status_channel := ic_on_new_connection message_ops (Some session) (ac_status_channel h)\<rparr>"

definition ac_on_disconnection :: "UacAudioControlHandler \<Rightarrow> UacAudioControlHandler" where
  "ac_on_disconnection h = h\<lparr>ac_status_channel := ic_on_disconnection message_ops (ac_status_channel h)\<rparr>"

definition ac_handle_unlink_seqnum ::
    "u32 \<Rightarrow> u32 \<Rightarrow> UacAudioControlHandler \<Rightarrow> UsbIpRetUnlink list \<times> UacAudioControlHandler" where
  "ac_handle_unlink_seqnum unlink_seqnum cmd_seqnum h =
     (case ic_cancel_pending unlink_seqnum (ac_status_channel h) of
        (cancelled, ch) \<Rightarrow> ([unlink_reply cmd_seqnum cancelled], h\<lparr>ac_status_channel := ch\<rparr>))"

definition class_get_descriptor :: "u8 \<Rightarrow> data \<Rightarrow> data \<times> u32" where
  "class_get_descriptor type class_desc =
     (if type = CS_INTERFACE then (class_desc, 0) else ([], urb_status_code StatusEPIPE))"

section \<open>Sampling frequency\<close>

text \<open>The rates the device supports with the channels and sample size of a format: sorted, and for the
  microphone without duplicates.\<close>

definition matching_rates :: "('s, 'z) format_ops_scheme \<Rightarrow> AudioFormatInfo \<Rightarrow> 's \<Rightarrow> u32 list" where
  "matching_rates ops fmt s =
     sort (map af_sample_rate (filter (\<lambda>f. af_channels f = af_channels fmt \<and>
        af_bits_per_sample f = af_bits_per_sample fmt) (fo_supported_formats ops s)))"

definition supported_sample_rates :: "('s, 'z) format_ops_scheme \<Rightarrow> AudioFormatInfo \<Rightarrow> 's \<Rightarrow> u32 list" where
  "supported_sample_rates ops fmt s = remdups_adj (matching_rates ops fmt s)"

text \<open>\<open>std::min_element\<close> by distance to the requested rate; \<open>None\<close> on an empty range.\<close>

definition rate_distance :: "u32 \<Rightarrow> u32 \<Rightarrow> int" where
  "rate_distance rate a = \<bar>uint a - uint rate\<bar>"

fun nearest_rate :: "u32 \<Rightarrow> u32 list \<Rightarrow> u32 option" where
  "nearest_rate rate [] = None"
| "nearest_rate rate (r # rs) =
     Some (foldl (\<lambda>best x. if rate_distance rate x < rate_distance rate best then x else best) r rs)"

definition request_rate :: "data \<Rightarrow> u32" where
  "request_rate d = ucast (d ! 0) OR push_bit 8 (ucast (d ! 1)) OR push_bit 16 (ucast (d ! 2))"

text \<open>\<open>handle_sampling_freq_control\<close>: the answer, \<open>None\<close> where it returns false, and whether the format
  was changed; the outer \<open>None\<close> is an access to an empty list of rates.\<close>

definition sampling_freq_control ::
    "('s, 'z) format_ops_scheme \<Rightarrow> u32 list \<Rightarrow> u32 \<Rightarrow> u8 \<Rightarrow> u32 \<Rightarrow> GenericTransfer TransferHandle \<Rightarrow>
     GenericTransfer \<Rightarrow> 's \<Rightarrow> (GenericTransfer UsbIpRetSubmit option \<times> bool \<times> 's) option" where
  "sampling_freq_control ops rates seqnum request len th trx s =
     (let fmt = fo_current_format ops s
      in if request = GET_CUR
         then Some (Some (class_data_reply seqnum (rate_bytes (af_sample_rate fmt)) th trx), False, s)
         else if request = GET_MIN \<or> request = GET_MAX
         then (if rates = [] then None
               else Some (Some (class_data_reply seqnum
                      (rate_bytes (if request = GET_MIN then hd rates else last rates)) th trx), False, s))
         else if request = SET_CUR
         then (if length (gt_data trx) < 3 then Some (None, False, s)
               else (case nearest_rate (request_rate (gt_data trx)) rates of
                       None \<Rightarrow> None
                     | Some rate \<Rightarrow>
                         (case fo_set_format ops (af_channels fmt) (af_bits_per_sample fmt) rate s of
                            (False, s') \<Rightarrow> Some (None, False, s')
                          | (True, s') \<Rightarrow>
                              Some (Some (create_ret_submit_with_status_and_no_data seqnum
                                 (urb_status_code StatusOK) len), True, s'))))
         else Some (None, False, s))"

text \<open>The class descriptor of a streaming interface.\<close>

definition as_class_descriptor :: "u8 \<Rightarrow> AudioFormatInfo \<Rightarrow> u32 list \<Rightarrow> data" where
  "as_class_descriptor terminal fmt rates =
     AsFormatTypeIHead_append_to (of_nat (8 + length rates * 3)) CS_INTERFACE AS_DESC_FORMAT_TYPE 0x01
       (ucast (af_channels fmt)) 0x02 (af_bits_per_sample fmt) (of_nat (length rates)) rates
       (AsGeneralDesc_append_to 7 CS_INTERFACE AS_DESC_GENERAL terminal 0x01 AUDIO_FORMAT_PCM [])"

section \<open>Volume\<close>

text \<open>What a streaming handler reads of its AudioControl handler, if it has one.\<close>

definition ac_gain :: "UacAudioControlHandler \<Rightarrow> bool \<times> u32" where
  "ac_gain h = (ac_mute h, ac_gain_q16 h)"

text \<open>\<open>fill_pcm\<close> multiplies a sample converted to 32 bits by the unsigned gain and shifts the unsigned
  product; \<open>process_iso_out\<close> multiplies signed numbers, shifts arithmetically and stores two bytes.\<close>

definition scale_sample_in :: "u32 \<Rightarrow> u16 \<Rightarrow> u16" where
  "scale_sample_in scale s = ucast (drop_bit 16 (scast s * scale) :: u32)"

definition scale_sample_out :: "u32 \<Rightarrow> u8 \<Rightarrow> u8 \<Rightarrow> u8 \<times> u8" where
  "scale_sample_out scale b0 b1 =
     (let s = scast (ucast b0 OR push_bit 8 (ucast b1) :: u16) :: u32;
          s' = signed_drop_bit 16 (s * scale)
      in (ucast (s' AND 0xFF), ucast (signed_drop_bit 8 s' AND 0xFF)))"

text \<open>Scaling the whole samples of a piece of PCM; an odd last byte of the destination keeps its
  value.\<close>

fun scale_in :: "u32 \<Rightarrow> data \<Rightarrow> data \<Rightarrow> data" where
  "scale_in scale (b0 # b1 # src) (d0 # d1 # dst) =
     le_bytes (scale_sample_in scale (word_of_le [b0, b1])) @ scale_in scale src dst"
| "scale_in scale src dst = dst"

definition copy_scaled :: "u32 \<Rightarrow> data \<Rightarrow> data \<Rightarrow> data" where
  "copy_scaled scale src dst =
     (if scale = 65536 then src
      else if scale = 0 then replicate (length dst) 0
      else scale_in scale src dst)"

fun scale_out :: "u32 \<Rightarrow> data \<Rightarrow> data" where
  "scale_out scale (b0 # b1 # d) =
     (case scale_sample_out scale b0 b1 of (c0, c1) \<Rightarrow> c0 # c1 # scale_out scale d)"
| "scale_out scale d = d"

section \<open>The microphone\<close>

record 's UacSourceHandler =
  mi_source :: 's
  mi_class_desc :: data
  mi_streaming :: bool
  mi_packet_framesize :: nat
  mi_packet_interval :: nat
  mi_packet_base :: nat
  mi_packet_residue_step :: nat
  mi_packet_residue_acc :: nat
  mi_chunk :: data
  mi_chunk_offset :: nat

definition update_packet_bytes :: "('s, 'z) format_ops_scheme \<Rightarrow> 's UacSourceHandler \<Rightarrow> 's UacSourceHandler" where
  "update_packet_bytes ops m =
     (let fmt = fo_current_format ops (mi_source m);
          framesize = unat (af_channels fmt) * (unat (af_bits_per_sample fmt) div 8);
          rate = unat (af_sample_rate fmt)
      in m\<lparr>mi_packet_framesize := framesize, mi_packet_interval := 1000,
           mi_packet_base := framesize * (rate div 1000), mi_packet_residue_step := framesize * (rate mod 1000),
           mi_packet_residue_acc := 0\<rparr>)"

definition UacSourceHandler_new :: "('s, 'z) format_ops_scheme \<Rightarrow> 's \<Rightarrow> 's UacSourceHandler" where
  "UacSourceHandler_new ops source =
     update_packet_bytes ops
       \<lparr>mi_source = source, mi_class_desc = [], mi_streaming = False, mi_packet_framesize = 0,
        mi_packet_interval = 0, mi_packet_base = 0, mi_packet_residue_step = 0, mi_packet_residue_acc = 0,
        mi_chunk = [], mi_chunk_offset = 0\<rparr>"

definition mi_build_class_descriptor :: "('s, 'z) format_ops_scheme \<Rightarrow> 's UacSourceHandler \<Rightarrow> 's UacSourceHandler" where
  "mi_build_class_descriptor ops m =
     (let fmt = fo_current_format ops (mi_source m)
      in m\<lparr>mi_class_desc := as_class_descriptor UAC_ENTITY_OUTPUT_TERMINAL fmt
              (supported_sample_rates ops fmt (mi_source m))\<rparr>)"

text \<open>The answer to the host, \<open>None\<close> where \<open>handle_sampling_freq_control\<close> returns false.\<close>

definition mi_sampling_freq_control ::
    "('s, 'z) format_ops_scheme \<Rightarrow> u32 \<Rightarrow> u8 \<Rightarrow> u32 \<Rightarrow> GenericTransfer TransferHandle \<Rightarrow> GenericTransfer \<Rightarrow>
     's UacSourceHandler \<Rightarrow> (GenericTransfer UsbIpRetSubmit option \<times> 's UacSourceHandler) option" where
  "mi_sampling_freq_control ops seqnum request len th trx m =
     map_option (\<lambda>(r, changed, s).
         let m1 = m\<lparr>mi_source := s\<rparr>
         in (r, if changed
                then mi_build_class_descriptor ops
                       ((update_packet_bytes ops m1)\<lparr>mi_chunk := [], mi_chunk_offset := 0\<rparr>)
                else m1))
       (sampling_freq_control ops
          (supported_sample_rates ops (fo_current_format ops (mi_source m)) (mi_source m))
          seqnum request len th trx (mi_source m))"

text \<open>The control requests of a streaming interface, to the interface and to the endpoint.\<close>

definition as_control ::
    "data \<Rightarrow> (GenericTransfer \<Rightarrow> 'm \<Rightarrow> (GenericTransfer UsbIpRetSubmit option \<times> 'm) option) \<Rightarrow>
     u32 \<Rightarrow> u32 \<Rightarrow> SetupPacket \<Rightarrow> GenericTransfer TransferHandle \<Rightarrow> 'm \<Rightarrow>
     (GenericTransfer UsbIpRetSubmit \<times> 'm) option" where
  "as_control class_desc freq_control seqnum len sp th m =
     (if calc_request_type sp \<noteq> RequestType_Class then Some (class_stall seqnum, m)
      else (case th_handle th of
              None \<Rightarrow> None
            | Some trx \<Rightarrow>
                if sp_request sp = standard_request_code GetDescriptor
                then Some (class_descriptor_reply seqnum len sp class_desc th trx, m)
                else if drop_bit 8 (sp_index sp) \<noteq> 0 \<or> drop_bit 8 (sp_value sp) \<noteq> ucast AS_SAMPLING_FREQ_CONTROL
                then Some (class_stall seqnum, m)
                else map_option (\<lambda>(r, m'). (case r of Some x \<Rightarrow> x | None \<Rightarrow> class_stall seqnum, m'))
                       (freq_control trx m)))"

definition as_endpoint_control ::
    "(GenericTransfer \<Rightarrow> 'm \<Rightarrow> (GenericTransfer UsbIpRetSubmit option \<times> 'm) option) \<Rightarrow>
     u32 \<Rightarrow> SetupPacket \<Rightarrow> GenericTransfer TransferHandle \<Rightarrow> 'm \<Rightarrow> (GenericTransfer UsbIpRetSubmit \<times> 'm) option" where
  "as_endpoint_control freq_control seqnum sp th m =
     (if drop_bit 8 (sp_value sp) \<noteq> ucast AS_SAMPLING_FREQ_CONTROL then Some (class_stall seqnum, m)
      else (case th_handle th of
              None \<Rightarrow> None
            | Some trx \<Rightarrow> map_option (\<lambda>(r, m'). (case r of Some x \<Rightarrow> x | None \<Rightarrow> class_stall seqnum, m'))
                            (freq_control trx m)))"

definition mi_control ::
    "('s, 'z) format_ops_scheme \<Rightarrow> u32 \<Rightarrow> u32 \<Rightarrow> SetupPacket \<Rightarrow> GenericTransfer TransferHandle \<Rightarrow>
     's UacSourceHandler \<Rightarrow> (GenericTransfer UsbIpRetSubmit \<times> 's UacSourceHandler) option" where
  "mi_control ops seqnum len sp th m =
     as_control (mi_class_desc m) (mi_sampling_freq_control ops seqnum (sp_request sp) len th) seqnum len sp th m"

definition mi_endpoint_control ::
    "('s, 'z) format_ops_scheme \<Rightarrow> u32 \<Rightarrow> u32 \<Rightarrow> SetupPacket \<Rightarrow> GenericTransfer TransferHandle \<Rightarrow>
     's UacSourceHandler \<Rightarrow> (GenericTransfer UsbIpRetSubmit \<times> 's UacSourceHandler) option" where
  "mi_endpoint_control ops seqnum len sp th m =
     as_endpoint_control (mi_sampling_freq_control ops seqnum (sp_request sp) len th) seqnum sp th m"

text \<open>The loop of \<open>fill_pcm\<close>: \<open>dst\<close> are the bytes of the destination still to be filled, the result
  the bytes they become. A source that hands out empty chunks keeps it running.\<close>

definition mi_refill :: "('s, 'z) AudioSource_scheme \<Rightarrow> 's UacSourceHandler \<Rightarrow> bool \<times> 's UacSourceHandler" where
  "mi_refill ops m =
     (if length (mi_chunk m) \<le> mi_chunk_offset m
      then (case src_get_chunk ops (mi_source m) of
              (None, s) \<Rightarrow> (False, m\<lparr>mi_source := s\<rparr>)
            | (Some d, s) \<Rightarrow> (True, m\<lparr>mi_source := s, mi_chunk := d, mi_chunk_offset := 0\<rparr>))
      else (True, m))"

partial_function (option) fill_pcm_loop ::
    "('s, 'z) AudioSource_scheme \<Rightarrow> u32 \<Rightarrow> data \<Rightarrow> 's UacSourceHandler \<Rightarrow> (data \<times> 's UacSourceHandler) option" where
  "fill_pcm_loop ops scale dst m =
     (if dst = [] then Some ([], m)
      else (case mi_refill ops m of
              (filled, m1) \<Rightarrow>
                if \<not> filled then Some (replicate (length dst) 0, m1)
                else (let n = min (length dst) (length (mi_chunk m1) - mi_chunk_offset m1);
                          out = copy_scaled scale (take n (drop (mi_chunk_offset m1) (mi_chunk m1))) (take n dst)
                      in Option.bind (fill_pcm_loop ops scale (drop n dst)
                             (m1\<lparr>mi_chunk_offset := mi_chunk_offset m1 + n\<rparr>))
                           (\<lambda>(rest, m2). Some (out @ rest, m2)))))"

definition fill_pcm ::
    "('s, 'z) AudioSource_scheme \<Rightarrow> (bool \<times> u32) option \<Rightarrow> data \<Rightarrow> 's UacSourceHandler \<Rightarrow>
     (data \<times> 's UacSourceHandler) option" where
  "fill_pcm ops ac dst m =
     (case ac of
        Some (True, _) \<Rightarrow> Some (replicate (length dst) 0, m)
      | Some (False, scale) \<Rightarrow> fill_pcm_loop ops scale dst m
      | None \<Rightarrow> fill_pcm_loop ops 65536 dst m)"

text \<open>The length of the next packet.\<close>

definition next_packet :: "'s UacSourceHandler \<Rightarrow> nat \<times> 's UacSourceHandler" where
  "next_packet m =
     (let acc = mi_packet_residue_acc m + mi_packet_residue_step m;
          limit = mi_packet_framesize m * mi_packet_interval m
      in if limit \<le> acc
         then (mi_packet_base m + mi_packet_framesize m, m\<lparr>mi_packet_residue_acc := acc - limit\<rparr>)
         else (mi_packet_base m, m\<lparr>mi_packet_residue_acc := acc\<rparr>))"

fun iso_in_loop ::
    "('s, 'z) AudioSource_scheme \<Rightarrow> (bool \<times> u32) option \<Rightarrow> UsbIpIsoPacketDescriptor list \<Rightarrow> data \<Rightarrow> u32 \<Rightarrow>
     's UacSourceHandler \<Rightarrow> (UsbIpIsoPacketDescriptor list \<times> data \<times> u32 \<times> 's UacSourceHandler) option" where
  "iso_in_loop ops ac [] d sent m = Some ([], d, sent, m)"
| "iso_in_loop ops ac (pkt # pkts) d sent m =
     (case next_packet m of
        (packet_bytes, m1) \<Rightarrow>
          (let want = min (unat (iso_length pkt)) packet_bytes; off = unat (iso_offset pkt)
           in if want = 0
              then map_option (\<lambda>(pkts', r). (pkt # pkts', r)) (iso_in_loop ops ac pkts d sent m1)
              else Option.bind (slice off want d) (\<lambda>dst.
                   Option.bind (fill_pcm ops ac dst m1) (\<lambda>(pcm, m2).
                     map_option (\<lambda>(pkts', r). (pkt\<lparr>iso_actual_length := of_nat want\<rparr> # pkts', r))
                       (iso_in_loop ops ac pkts (memcpy_at off pcm d) (sent + of_nat want) m2)))))"

definition clear_status :: "UsbIpIsoPacketDescriptor list \<Rightarrow> UsbIpIsoPacketDescriptor list" where
  "clear_status = map (\<lambda>pkt. pkt\<lparr>iso_status := 0\<rparr>)"

definition process_iso_in ::
    "('s, 'z) AudioSource_scheme \<Rightarrow> (bool \<times> u32) option \<Rightarrow> UsbEndpoint \<Rightarrow> u32 \<Rightarrow> int \<Rightarrow>
     GenericTransfer TransferHandle \<Rightarrow> GenericTransfer TransferScheduler \<Rightarrow> 's UacSourceHandler \<Rightarrow>
     (GenericTransfer UsbIpRetSubmit \<times> GenericTransfer TransferScheduler \<times> 's UacSourceHandler) option" where
  "process_iso_in ops ac ep seqnum num_iso_packets th sch m =
     (case th_handle th of
        None \<Rightarrow> None
      | Some trx \<Rightarrow>
          (let pkts = clear_status (gt_iso_descriptors trx); n = nat num_iso_packets
           in if length pkts < n then None
              else map_option (\<lambda>(pkts', d, sent, m').
                     (create_ret_submit seqnum (urb_status_code StatusOK) sent 0 (of_nat (length pkts))
                        (th\<lparr>th_handle := Some (trx\<lparr>gt_data := d, gt_iso_descriptors := pkts' @ drop n pkts\<rparr>)\<rparr>),
                      sch_on_urb_done (ep_address ep) seqnum sch, m'))
                     (iso_in_loop ops ac (take n pkts) (gt_data trx) 0 m)))"

text \<open>The time the declared amount of data lasts, in microseconds.\<close>

definition iso_data_duration :: "AudioFormatInfo \<Rightarrow> UsbIpIsoPacketDescriptor list \<Rightarrow> int" where
  "iso_data_duration fmt pkts =
     (let bytes_per_second = uint (af_sample_rate fmt) * (uint (af_bits_per_sample fmt) div 8) * uint (af_channels fmt);
          declared = uint (sum_list (map iso_length pkts))
      in if 0 < bytes_per_second \<and> 0 < declared then declared * 1000000 div bytes_per_second else 0)"

definition mi_isochronous ::
    "('s, 'z) format_ops_scheme \<Rightarrow> int \<Rightarrow> nat \<Rightarrow> nat \<Rightarrow> UsbEndpoint \<Rightarrow> u32 \<Rightarrow> GenericTransfer TransferHandle \<Rightarrow>
     GenericTransfer TransferScheduler \<Rightarrow> 's UacSourceHandler \<Rightarrow>
     (GenericTransfer UsbIpRetSubmit list \<times> GenericTransfer TransferScheduler) option" where
  "mi_isochronous ops now responder processor ep seqnum th sch m =
     (if \<not> mi_streaming m then Some ([class_stall seqnum], sch)
      else (case th_handle th of
              None \<Rightarrow> None
            | Some trx \<Rightarrow>
                Some ([], snd (sch_submit_processor now responder ep EA_Isochronous
                   (iso_data_duration (fo_current_format ops (mi_source m)) (gt_iso_descriptors trx))
                   seqnum th processor sch))))"

definition mi_idle :: "'s UacSourceHandler \<Rightarrow> 's UacSourceHandler" where
  "mi_idle m = m\<lparr>mi_streaming := False, mi_chunk := [], mi_chunk_offset := 0\<rparr>"

definition mi_on_new_connection :: "'s UacSourceHandler \<Rightarrow> 's UacSourceHandler" where
  "mi_on_new_connection = mi_idle"

definition mi_on_disconnection :: "'s UacSourceHandler \<Rightarrow> 's UacSourceHandler" where
  "mi_on_disconnection = mi_idle"

definition mi_set_interface :: "u16 \<Rightarrow> 's UacSourceHandler \<Rightarrow> u32 \<times> 's UacSourceHandler" where
  "mi_set_interface alternate_setting m =
     (if alternate_setting = 0 then (0, m\<lparr>mi_streaming := False\<rparr>)
      else if alternate_setting = 1
      then (0, m\<lparr>mi_streaming := True, mi_chunk_offset := 0, mi_packet_residue_acc := 0\<rparr>)
      else (urb_status_code StatusEPIPE, m))"

section \<open>The speaker\<close>

record 's UacSinkHandler =
  sp_sink :: 's
  sp_class_desc :: data
  sp_streaming :: bool
  sp_pacing_delta_us :: int
  sp_urb_stat_count :: u32
  sp_urb_stat_bytes :: u64
  sp_urb_stat_last_bytes :: int
  sp_urb_stat_last_time_us :: int

definition UacSinkHandler_new :: "'s \<Rightarrow> 's UacSinkHandler" where
  "UacSinkHandler_new sink =
     \<lparr>sp_sink = sink, sp_class_desc = [], sp_streaming = False, sp_pacing_delta_us = 0, sp_urb_stat_count = 0,
      sp_urb_stat_bytes = 0, sp_urb_stat_last_bytes = 0, sp_urb_stat_last_time_us = 0\<rparr>"

definition spk_build_class_descriptor :: "('s, 'z) format_ops_scheme \<Rightarrow> 's UacSinkHandler \<Rightarrow> 's UacSinkHandler" where
  "spk_build_class_descriptor ops m =
     (let fmt = fo_current_format ops (sp_sink m)
      in m\<lparr>sp_class_desc := as_class_descriptor UAC_ENTITY_INPUT_TERMINAL fmt
              (remdups_adj (matching_rates ops fmt (sp_sink m)))\<rparr>)"

definition spk_sampling_freq_control ::
    "('s, 'z) format_ops_scheme \<Rightarrow> u32 \<Rightarrow> u8 \<Rightarrow> u32 \<Rightarrow> GenericTransfer TransferHandle \<Rightarrow> GenericTransfer \<Rightarrow>
     's UacSinkHandler \<Rightarrow> (GenericTransfer UsbIpRetSubmit option \<times> 's UacSinkHandler) option" where
  "spk_sampling_freq_control ops seqnum request len th trx m =
     map_option (\<lambda>(r, changed, s).
         let m1 = m\<lparr>sp_sink := s\<rparr> in (r, if changed then spk_build_class_descriptor ops m1 else m1))
       (sampling_freq_control ops (matching_rates ops (fo_current_format ops (sp_sink m)) (sp_sink m))
          seqnum request len th trx (sp_sink m))"

definition spk_control ::
    "('s, 'z) format_ops_scheme \<Rightarrow> u32 \<Rightarrow> u32 \<Rightarrow> SetupPacket \<Rightarrow> GenericTransfer TransferHandle \<Rightarrow>
     's UacSinkHandler \<Rightarrow> (GenericTransfer UsbIpRetSubmit \<times> 's UacSinkHandler) option" where
  "spk_control ops seqnum len sp th m =
     as_control (sp_class_desc m) (spk_sampling_freq_control ops seqnum (sp_request sp) len th) seqnum len sp th m"

definition spk_endpoint_control ::
    "('s, 'z) format_ops_scheme \<Rightarrow> u32 \<Rightarrow> u32 \<Rightarrow> SetupPacket \<Rightarrow> GenericTransfer TransferHandle \<Rightarrow>
     's UacSinkHandler \<Rightarrow> (GenericTransfer UsbIpRetSubmit \<times> 's UacSinkHandler) option" where
  "spk_endpoint_control ops seqnum len sp th m =
     as_endpoint_control (spk_sampling_freq_control ops seqnum (sp_request sp) len th) seqnum sp th m"

text \<open>The gain as \<open>process_iso_out\<close> applies it to the data of one packet.\<close>

definition apply_gain :: "(bool \<times> u32) option \<Rightarrow> data \<Rightarrow> data" where
  "apply_gain ac d =
     (case ac of
        Some (True, _) \<Rightarrow> replicate (length d) 0
      | Some (False, scale) \<Rightarrow> if scale \<noteq> 65536 then scale_out scale d else d
      | None \<Rightarrow> d)"

text \<open>The packet loop. The remaining size \<open>data.size() - data_pos\<close> is unsigned 64-bit arithmetic: past the
  end of the data it wraps around.\<close>

fun iso_out_loop ::
    "('s, 'z) AudioSink_scheme \<Rightarrow> (bool \<times> u32) option \<Rightarrow> UsbIpIsoPacketDescriptor list \<Rightarrow> data \<Rightarrow> nat \<Rightarrow> u32 \<Rightarrow>
     's \<Rightarrow> (UsbIpIsoPacketDescriptor list \<times> data \<times> u32 \<times> 's) option" where
  "iso_out_loop ops ac [] d pos received s = Some ([], d, received, s)"
| "iso_out_loop ops ac (pkt # pkts) d pos received s =
     (let n = min (unat (iso_length pkt)) (unat (of_nat (length d) - of_nat pos :: u64));
          pos' = pos + unat (iso_length pkt)
      in if n = 0
         then map_option (\<lambda>(pkts', r). (pkt # pkts', r)) (iso_out_loop ops ac pkts d pos' received s)
         else Option.bind (slice pos n d) (\<lambda>x.
                let pcm = apply_gain ac x
                in map_option (\<lambda>(pkts', r). (pkt\<lparr>iso_actual_length := of_nat n\<rparr> # pkts', r))
                     (iso_out_loop ops ac pkts (memcpy_at pos pcm d) pos' (received + of_nat n)
                        (snk_write_pcm ops pcm s))))"

text \<open>The rate loop, every 100 URBs: the received rate is measured against the wall clock and the
  response delay corrected, within 600 microseconds. C++ division truncates.\<close>

definition quot :: "int \<Rightarrow> int \<Rightarrow> int" where
  "quot a b = (if (a < 0) = (b < 0) then \<bar>a\<bar> div \<bar>b\<bar> else - (\<bar>a\<bar> div \<bar>b\<bar>))"

definition update_pacing :: "AudioFormatInfo \<Rightarrow> int \<Rightarrow> u32 \<Rightarrow> 's UacSinkHandler \<Rightarrow> 's UacSinkHandler" where
  "update_pacing fmt now_us received m =
     (let frame_bytes = (uint (af_bits_per_sample fmt) div 8) * uint (af_channels fmt);
          m1 = m\<lparr>sp_urb_stat_count := sp_urb_stat_count m + 1,
                 sp_urb_stat_bytes := sp_urb_stat_bytes m + ucast received\<rparr>
      in if 100 \<le> sp_urb_stat_count m1
         then (let time_delta = now_us - sp_urb_stat_last_time_us m1;
                   bytes_delta = sint (sp_urb_stat_bytes m1) - sp_urb_stat_last_bytes m1;
                   r_hz = quot (quot (bytes_delta * 1000000) time_delta) frame_bytes;
                   delta = sp_pacing_delta_us m1 + quot ((r_hz - uint (af_sample_rate fmt)) * 50) 1000;
                   m2 = (if 0 < time_delta \<and> 0 < frame_bytes
                         then m1\<lparr>sp_pacing_delta_us := (if delta < - 600 then - 600 else if 600 < delta then 600 else delta)\<rparr>
                         else m1)
               in m2\<lparr>sp_urb_stat_count := 0, sp_urb_stat_last_bytes := sint (sp_urb_stat_bytes m1),
                     sp_urb_stat_last_time_us := now_us\<rparr>)
         else m1)"

definition process_iso_out ::
    "('s, 'z) AudioSink_scheme \<Rightarrow> (bool \<times> u32) option \<Rightarrow> int \<Rightarrow> UsbEndpoint \<Rightarrow> u32 \<Rightarrow>
     GenericTransfer TransferHandle \<Rightarrow> GenericTransfer TransferScheduler \<Rightarrow> 's UacSinkHandler \<Rightarrow>
     (GenericTransfer UsbIpRetSubmit \<times> GenericTransfer TransferScheduler \<times> 's UacSinkHandler) option" where
  "process_iso_out ops ac now_us ep seqnum th sch m =
     (case th_handle th of
        None \<Rightarrow> None
      | Some trx \<Rightarrow>
          (let pkts = clear_status (gt_iso_descriptors trx)
           in map_option (\<lambda>(pkts', d, received, s).
                (create_ret_submit seqnum (urb_status_code StatusOK) received 0 (of_nat (length pkts))
                   (th\<lparr>th_handle := Some (trx\<lparr>gt_data := d, gt_iso_descriptors := pkts'\<rparr>)\<rparr>),
                 sch_on_urb_done (ep_address ep) seqnum sch,
                 update_pacing (fo_current_format ops s) now_us received (m\<lparr>sp_sink := s\<rparr>)))
                (iso_out_loop ops ac pkts (gt_data trx) 0 0 (sp_sink m))))"

definition spk_isochronous ::
    "('s, 'z) format_ops_scheme \<Rightarrow> int \<Rightarrow> nat \<Rightarrow> nat \<Rightarrow> UsbEndpoint \<Rightarrow> u32 \<Rightarrow> GenericTransfer TransferHandle \<Rightarrow>
     GenericTransfer TransferScheduler \<Rightarrow> 's UacSinkHandler \<Rightarrow>
     (GenericTransfer UsbIpRetSubmit list \<times> GenericTransfer TransferScheduler) option" where
  "spk_isochronous ops now responder processor ep seqnum th sch m =
     (if \<not> sp_streaming m then Some ([class_stall seqnum], sch)
      else (case th_handle th of
              None \<Rightarrow> None
            | Some trx \<Rightarrow>
                (let fmt = fo_current_format ops (sp_sink m); pkts = gt_iso_descriptors trx;
                     bytes_per_second = uint (af_sample_rate fmt) * (uint (af_bits_per_sample fmt) div 8) * uint (af_channels fmt);
                     declared = uint (sum_list (map iso_length pkts));
                     data_duration = (if 0 < bytes_per_second \<and> 0 < declared
                       then iso_data_duration fmt pkts + sp_pacing_delta_us m else 0)
                 in Some ([], snd (sch_submit_processor now responder ep EA_Isochronous data_duration
                      seqnum th processor sch)))))"

definition spk_on_new_connection :: "('s, 'z) AudioSink_scheme \<Rightarrow> 's UacSinkHandler \<Rightarrow> 's UacSinkHandler" where
  "spk_on_new_connection ops m =
     m\<lparr>sp_streaming := False, sp_sink := snk_reset ops (sp_sink m), sp_pacing_delta_us := 0,
       sp_urb_stat_count := 0, sp_urb_stat_bytes := 0, sp_urb_stat_last_bytes := 0, sp_urb_stat_last_time_us := 0\<rparr>"

definition spk_on_disconnection :: "('s, 'z) AudioSink_scheme \<Rightarrow> 's UacSinkHandler \<Rightarrow> 's UacSinkHandler" where
  "spk_on_disconnection ops m = m\<lparr>sp_streaming := False, sp_sink := snk_reset ops (sp_sink m)\<rparr>"

definition spk_set_interface ::
    "('s, 'z) AudioSink_scheme \<Rightarrow> u16 \<Rightarrow> 's UacSinkHandler \<Rightarrow> u32 \<times> 's UacSinkHandler" where
  "spk_set_interface ops alternate_setting m =
     (if alternate_setting = 0 then (0, m\<lparr>sp_streaming := False\<rparr>)
      else if alternate_setting = 1 then (0, m\<lparr>sp_streaming := True, sp_sink := snk_reset ops (sp_sink m)\<rparr>)
      else (urb_status_code StatusEPIPE, m))"

section \<open>Assembly\<close>

text \<open>\<open>UacDeviceHelper\<close>: the two adjacent interfaces get their handlers (numbers \<open>ac_id\<close>, \<open>as_id\<close>), the
  AudioControl handler its configuration and the number of the streaming interface, and its
  interface the association descriptor. \<open>iInterface\<close> is the string index of the AudioControl
  handler. The base class's \<open>setup_interface_handlers\<close> then builds the class descriptors.\<close>

definition resolve_channels :: "AudioFormatInfo \<Rightarrow> UacDeviceConfig \<Rightarrow> UacDeviceConfig" where
  "resolve_channels fmt config =
     (if uc_channels config = 0 then config\<lparr>uc_channels := ucast (af_channels fmt)\<rparr> else config)"

definition bind_interfaces ::
    "IadDesc \<Rightarrow> nat \<Rightarrow> nat \<Rightarrow> nat \<Rightarrow> nat \<Rightarrow> UsbDevice \<Rightarrow> UsbDevice" where
  "bind_interfaces iad ac as_i ac_id as_id dev =
     (let intfs = ud_interfaces dev;
          intfs1 = intfs[ac := (intfs ! ac)\<lparr>if_handler := Some ac_id, interface_association_descriptor := Some iad\<rparr>]
      in dev\<lparr>ud_interfaces := intfs1[as_i := (intfs1 ! as_i)\<lparr>if_handler := Some as_id\<rparr>]\<rparr>)"

definition uac_setup_control :: "UacDeviceConfig \<Rightarrow> UsbInterface \<Rightarrow> UacAudioControlHandler" where
  "uac_setup_control config as_interface =
     ac_build_class_descriptor (set_as_handler as_interface (uac_set_config config UacAudioControlHandler_new))"

definition setup_microphone ::
    "('s, 'z) format_ops_scheme \<Rightarrow> nat \<Rightarrow> nat \<Rightarrow> u8 \<Rightarrow> u8 \<Rightarrow> 's \<Rightarrow> UacDeviceConfig \<Rightarrow> UsbDevice \<Rightarrow>
     ErrorType + (UsbDevice \<times> UacAudioControlHandler \<times> 's UacSourceHandler)" where
  "setup_microphone ops ac_id as_id iInterface first source config dev =
     (case find_interfaces_by_number 2 first dev of
        [Some ac, Some as_i] \<Rightarrow>
          (let resolved = resolve_channels (fo_current_format ops source) config
           in Inr (bind_interfaces (IadDesc_make 2 CC_AUDIO 0 0 iInterface) ac as_i ac_id as_id dev,
                   uac_setup_control resolved (ud_interfaces dev ! as_i),
                   mi_build_class_descriptor ops (UacSourceHandler_new ops source)))
      | _ \<Rightarrow> Inl INVALID_ARG)"

definition setup_speaker ::
    "('s, 'z) format_ops_scheme \<Rightarrow> nat \<Rightarrow> nat \<Rightarrow> u8 \<Rightarrow> u8 \<Rightarrow> 's \<Rightarrow> UacDeviceConfig \<Rightarrow> UsbDevice \<Rightarrow>
     ErrorType + (UsbDevice \<times> UacAudioControlHandler \<times> 's UacSinkHandler)" where
  "setup_speaker ops ac_id as_id iInterface first sink config dev =
     (case find_interfaces_by_number 2 first dev of
        [Some ac, Some as_i] \<Rightarrow>
          (let resolved = resolve_channels (fo_current_format ops sink)
                 (config\<lparr>uc_input_terminal_type := TT_USB_STREAMING\<rparr>)
           in Inr (bind_interfaces (IadDesc_make 2 CC_AUDIO 0 0 iInterface) ac as_i ac_id as_id dev,
                   uac_setup_control resolved (ud_interfaces dev ! as_i),
                   spk_build_class_descriptor ops (UacSinkHandler_new sink)))
      | _ \<Rightarrow> Inl INVALID_ARG)"

end
