(* ===== verification/Uac_Props.thy ===== *)
theory Uac_Props
  imports Uac
begin

text \<open>
  Properties of the audio function: the packets of the microphone carry whole frames at exactly the
  negotiated rate, sampling rates are negotiated to the nearest supported one, the gain is a
  multiplication rounded down, \<open>fill_pcm\<close> returns and continues the source's stream, and the
  speaker hands its sink exactly the data of the packets.
\<close>

section \<open>Packet lengths\<close>

fun packet_lengths :: "nat \<Rightarrow> 's UacSourceHandler \<Rightarrow> nat list" where
  "packet_lengths 0 m = []"
| "packet_lengths (Suc n) m = (case next_packet m of (k, m') \<Rightarrow> k # packet_lengths n m')"

text \<open>The state of the packet clock after \<open>k\<close> packets at \<open>rate\<close> frames a second.\<close>

definition packet_clock :: "nat \<Rightarrow> nat \<Rightarrow> nat \<Rightarrow> 's UacSourceHandler \<Rightarrow> bool" where
  "packet_clock framesize rate k m \<longleftrightarrow>
     mi_packet_framesize m = framesize \<and> mi_packet_interval m = 1000 \<and>
     mi_packet_base m = framesize * (rate div 1000) \<and> mi_packet_residue_step m = framesize * (rate mod 1000) \<and>
     mi_packet_residue_acc m = framesize * (k * rate mod 1000)"

lemma div_mod_1000:
  "x = 1000 * q + r \<Longrightarrow> r < 1000 \<Longrightarrow> x div 1000 = q" "x = 1000 * q + r \<Longrightarrow> r < 1000 \<Longrightarrow> x mod 1000 = (r :: nat)"
  by simp_all

lemma next_packet_clock:
  assumes "packet_clock f rate k m" and "next_packet m = (p, m')"
  shows "packet_clock f rate (Suc k) m' \<and> p = f * (Suc k * rate div 1000 - k * rate div 1000)"
proof -
  define a where "a = k * rate mod 1000"
  define b where "b = rate mod 1000"
  have ab: "a < 1000" "b < 1000" by (simp_all add: a_def b_def)
  have m: "mi_packet_residue_acc m + mi_packet_residue_step m = f * (a + b)"
    using assms(1) by (simp add: packet_clock_def a_def b_def distrib_left)
  have step: "Suc k * rate = 1000 * (k * rate div 1000 + rate div 1000) + (a + b)"
  proof -
    have "rate + x = 1000 * (x div 1000 + rate div 1000) + (x mod 1000 + rate mod 1000)" for x :: nat
      using mult_div_mod_eq[of 1000 x] mult_div_mod_eq[of 1000 rate] by (simp only: distrib_left)
    from this[of "k * rate"] show ?thesis by (simp only: a_def b_def mult_Suc)
  qed
  show ?thesis
  proof (cases "f = 0")
    case True
    with assms show ?thesis by (auto simp: next_packet_def packet_clock_def Let_def)
  next
    case f: False
    show ?thesis
    proof (cases "1000 \<le> a + b")
      case True
      define c where "c = a + b - 1000"
      have c: "a + b = 1000 + c" "c < 1000" using True ab unfolding c_def by linarith+
      have "Suc k * rate = 1000 * (k * rate div 1000 + rate div 1000 + 1) + c"
        unfolding step c(1) by (simp only: distrib_left)
      note d = div_mod_1000[OF this c(2)]
      have "f * 1000 \<le> f * (a + b)" using True by simp
      then have "p = f * (rate div 1000) + f" "m' = m\<lparr>mi_packet_residue_acc := f * (a + b) - f * 1000\<rparr>"
        using assms m by (auto simp: next_packet_def packet_clock_def Let_def)
      with d c assms(1) show ?thesis by (simp add: packet_clock_def distrib_left)
    next
      case False
      then have "a + b < 1000" by simp
      note d = div_mod_1000[OF step this]
      have "f * (a + b) < f * 1000" using False f by simp
      then have "p = f * (rate div 1000)" "m' = m\<lparr>mi_packet_residue_acc := f * (a + b)\<rparr>"
        using assms m by (auto simp: next_packet_def packet_clock_def Let_def)
      with d assms(1) show ?thesis by (simp add: packet_clock_def)
    qed
  qed
qed

lemma packet_lengths_from:
  "packet_clock f rate k m \<Longrightarrow>
   sum_list (packet_lengths n m) = f * ((k + n) * rate div 1000 - k * rate div 1000) \<and>
   (\<forall>p \<in> set (packet_lengths n m). f dvd p \<and> p \<le> f * (rate div 1000 + 1))"
proof (induction n arbitrary: k m)
  case (Suc n)
  obtain p m' where np: "next_packet m = (p, m')" by fastforce
  note s = next_packet_clock[OF Suc.prems np]
  note IH = Suc.IH[OF s[THEN conjunct1]]
  have mono: "k * rate div 1000 \<le> Suc k * rate div 1000" "Suc k * rate div 1000 \<le> (Suc k + n) * rate div 1000"
    by (rule div_le_mono, simp)+
  have "p \<le> f * (rate div 1000 + 1)"
    using s np Suc.prems by (auto simp: next_packet_def packet_clock_def Let_def distrib_left split: if_splits)
  moreover have "f * (Suc k * rate div 1000 - k * rate div 1000) +
      f * ((Suc k + n) * rate div 1000 - Suc k * rate div 1000) = f * ((Suc k + n) * rate div 1000 - k * rate div 1000)"
    using mono by (simp only: distrib_left[symmetric]) simp
  ultimately show ?case using IH s by (auto simp: np)
qed simp

lemma update_packet_bytes_clock:
  "packet_clock (unat (af_channels (fo_current_format ops (mi_source m))) *
       (unat (af_bits_per_sample (fo_current_format ops (mi_source m))) div 8))
     (unat (af_sample_rate (fo_current_format ops (mi_source m)))) 0 (update_packet_bytes ops m)"
  by (simp add: update_packet_bytes_def packet_clock_def Let_def)

section \<open>Sampling rates\<close>

lemma nearest_foldl:
  defines "f \<equiv> \<lambda>rate best x. if rate_distance rate x < rate_distance rate best then x else best"
  shows "foldl (f rate) r rs \<in> set (r # rs)"
    and "x \<in> set (r # rs) \<Longrightarrow> rate_distance rate (foldl (f rate) r rs) \<le> rate_distance rate x"
proof (induction rs arbitrary: r x)
  case (Cons y rs)
  { case 1 show ?case using Cons.IH(1)[where r = "f rate r y"] by (auto simp: f_def) }
  { case 2
    have a: "rate_distance rate (foldl (f rate) (f rate r y) rs) \<le> rate_distance rate (f rate r y)"
      and b: "z \<in> set rs \<Longrightarrow> rate_distance rate (foldl (f rate) (f rate r y) rs) \<le> rate_distance rate z" for z
      using Cons.IH(2)[where x = "f rate r y" and r = "f rate r y"] Cons.IH(2)[where x = z and r = "f rate r y"]
      by simp_all
    show ?case
    proof (cases "x \<in> set rs")
      case True
      then show ?thesis using b by simp
    next
      case False
      then have "rate_distance rate (f rate r y) \<le> rate_distance rate x" using 2 by (auto simp: f_def)
      with a show ?thesis by simp
    qed }
qed (simp_all add: f_def)

lemma nearest_rate_spec:
  assumes "nearest_rate rate rs = Some r"
  shows "r \<in> set rs" and "x \<in> set rs \<Longrightarrow> rate_distance rate r \<le> rate_distance rate x"
proof -
  obtain y ys where rs: "rs = y # ys" using assms by (cases rs) auto
  show "r \<in> set rs" using nearest_foldl(1)[where rate = rate and r = y and rs = ys] assms by (simp add: rs)
  show "rate_distance rate r \<le> rate_distance rate x" if "x \<in> set rs"
    using nearest_foldl(2)[where x = x and rate = rate and r = y and rs = ys] assms that by (simp add: rs)
qed

lemma nearest_rate_exact: "rate \<in> set rs \<Longrightarrow> nearest_rate rate rs = Some rate"
proof -
  assume r: "rate \<in> set rs"
  then obtain x where x: "nearest_rate rate rs = Some x" by (cases rs) auto
  have "rate_distance rate x \<le> rate_distance rate rate" using nearest_rate_spec(2)[OF x r] .
  then have "uint x = uint rate" by (simp add: rate_distance_def)
  then have "x = rate" by (metis word_of_int_uint)
  then show ?thesis using x by simp
qed

lemma matching_rates_set:
  "r \<in> set (matching_rates ops fmt s) \<longleftrightarrow>
     \<lparr>af_channels = af_channels fmt, af_bits_per_sample = af_bits_per_sample fmt, af_sample_rate = r\<rparr>
       \<in> set (fo_supported_formats ops s)"
proof
  assume "r \<in> set (matching_rates ops fmt s)"
  then obtain f where f: "f \<in> set (fo_supported_formats ops s)" "af_channels f = af_channels fmt"
    "af_bits_per_sample f = af_bits_per_sample fmt" "r = af_sample_rate f"
    by (auto simp: matching_rates_def)
  then have e: "f = \<lparr>af_channels = af_channels fmt, af_bits_per_sample = af_bits_per_sample fmt, af_sample_rate = r\<rparr>"
    by (intro AudioFormatInfo.equality) simp_all
  from f(1) show "\<lparr>af_channels = af_channels fmt, af_bits_per_sample = af_bits_per_sample fmt, af_sample_rate = r\<rparr>
       \<in> set (fo_supported_formats ops s)" by (simp only: e)
next
  let ?f = "\<lparr>af_channels = af_channels fmt, af_bits_per_sample = af_bits_per_sample fmt, af_sample_rate = r\<rparr>"
  assume "?f \<in> set (fo_supported_formats ops s)"
  then have "af_sample_rate ?f \<in> set (matching_rates ops fmt s)"
    unfolding matching_rates_def set_sort set_map by (intro imageI) simp
  then show "r \<in> set (matching_rates ops fmt s)" by simp
qed

lemma ucast_and_255: "ucast (x AND 255 :: u32) = (ucast x :: u8)"
proof -
  have "(255 :: u32) = mask 8" by (simp add: mask_eq_exp_minus_1)
  then show ?thesis by (simp add: bit_eq_iff bit_simps) 
qed

lemma request_rate_bytes:
  assumes "unat rate < 2 ^ 24"
  shows "request_rate (rate_bytes rate) = rate"
proof (rule bit_word_eqI)
  fix n :: nat assume n: "n < LENGTH(32)"
  have "rate = take_bit 24 rate" using assms by (simp add: word_unat_eq_iff unsigned_take_bit_eq take_bit_nat_eq_self)
  then have b: "bit rate n \<longrightarrow> n < 24" by (metis bit_take_bit_iff)
  have e: "ucast (x AND 0xFF :: u32) = (ucast x :: u8)" for x by (simp add: ucast_and_255)
  show "bit (request_rate (rate_bytes rate)) n \<longleftrightarrow> bit rate n"
    using b n by (cases "n < 16") (auto simp: request_rate_def rate_bytes_def bit_or_iff bit_push_bit_iff bit_ucast_iff e
        bit_drop_bit_eq)
qed

context audio_format
begin

text \<open>Whatever rate the host asks for, the handler ends on a supported rate at the least distance from
  it, with the channels and the sample size unchanged.\<close>

lemma set_cur_rate:
  assumes "inv s" and "3 \<le> length (gt_data trx)"
    and "set rates = set (matching_rates ops (fo_current_format ops s) s)"
  shows "\<exists>r s'. sampling_freq_control ops rates seqnum SET_CUR len th trx s =
      Some (Some (create_ret_submit_with_status_and_no_data seqnum (urb_status_code StatusOK) len), True, s') \<and>
    inv s' \<and> fo_current_format ops s' = (fo_current_format ops s)\<lparr>af_sample_rate := r\<rparr> \<and>
    nearest_rate (request_rate (gt_data trx)) rates = Some r \<and> r \<in> set rates"
proof -
  let ?fmt = "fo_current_format ops s"
  have "?fmt = \<lparr>af_channels = af_channels ?fmt, af_bits_per_sample = af_bits_per_sample ?fmt,
      af_sample_rate = af_sample_rate ?fmt\<rparr>" by simp
  then have "af_sample_rate ?fmt \<in> set rates"
    using current_supported[OF assms(1)] by (simp only: assms(3) matching_rates_set)
  then obtain r where r: "nearest_rate (request_rate (gt_data trx)) rates = Some r" by (cases rates) auto
  have rs: "r \<in> set rates" by (rule nearest_rate_spec(1)[OF r])
  then have sup: "\<lparr>af_channels = af_channels ?fmt, af_bits_per_sample = af_bits_per_sample ?fmt, af_sample_rate = r\<rparr>
      \<in> set (fo_supported_formats ops s)" by (simp add: assms(3) matching_rates_set)
  obtain s' where s': "fo_set_format ops (af_channels ?fmt) (af_bits_per_sample ?fmt) r s = (True, s')" "inv s'"
    using set_accepted_inv[OF assms(1) refl refl sup] by blast
  have "fo_current_format ops s' = ?fmt\<lparr>af_sample_rate := r\<rparr>" using set_accepted[OF assms(1) s'(1)] by simp
  with r rs s' assms(2) show ?thesis
    by (auto simp: sampling_freq_control_def Let_def uac_constants)
qed

end

section \<open>The gain\<close>

lemma ucast_drop_bit_of_int: "ucast (drop_bit 16 (word_of_int k :: u32)) = (word_of_int (k div 2 ^ 16) :: u16)"
proof (rule bit_word_eqI)
  fix n assume n: "n < LENGTH(16)"
  have "bit (word_of_int (k div 2 ^ 16) :: u16) n \<longleftrightarrow> bit (drop_bit 16 k) n"
    using n by (simp add: bit_word_of_int_iff drop_bit_eq_div)
  moreover have "bit (ucast (drop_bit 16 (word_of_int k :: u32)) :: u16) n \<longleftrightarrow> bit k (16 + n)"
    using n by (simp add: bit_ucast_iff bit_drop_bit_eq bit_word_of_int_iff)
  ultimately show "bit (ucast (drop_bit 16 (word_of_int k :: u32)) :: u16) n \<longleftrightarrow> bit (word_of_int (k div 2 ^ 16) :: u16) n"
    by (simp add: bit_drop_bit_eq)
qed

lemma scale_sample_in_of_int:
  "scale_sample_in scale s = word_of_int (sint s * uint scale div 2 ^ 16)"
proof -
  have "(scast s * scale :: u32) = word_of_int (sint s * uint scale)"
    by (simp only: of_int_mult word_of_int_uint scast_eq)
  then show ?thesis by (simp only: scale_sample_in_def ucast_drop_bit_of_int)
qed

text \<open>Up to 0 dB (65536) the product fits: a sample is multiplied by the gain and rounded down.\<close>

lemma scale_sample_in_sint:
  assumes "unat scale \<le> 65536"
  shows "sint (scale_sample_in scale s) = sint s * uint scale div 65536"
proof -
  let ?k = "sint s * uint scale div 65536"
  have "int (unat scale) \<le> 65536" using assms by linarith
  then have u: "0 \<le> uint scale" "uint scale \<le> 65536" by simp_all
  have r: "- 32768 \<le> sint s" "sint s < 32768" using sint_greater_eq[of s] sint_less[of s] by simp_all
  have a: "- 32768 * 65536 \<le> sint s * uint scale"
  proof (cases "0 \<le> sint s")
    case False
    then have "sint s * 65536 \<le> sint s * uint scale" using u by (intro mult_left_mono_neg) simp_all
    then show ?thesis using r by linarith
  next
    case True
    then have "0 \<le> sint s * uint scale" using u by simp
    then show ?thesis by linarith
  qed
  have b: "sint s * uint scale \<le> 32767 * 65536"
  proof (cases "0 \<le> sint s")
    case True
    then show ?thesis using u r by (intro mult_mono) simp_all
  next
    case False
    then have "sint s * uint scale \<le> 0" using u by (intro mult_nonpos_nonneg) simp_all
    then show ?thesis by linarith
  qed
  have "- 32768 \<le> ?k" "?k < 32768" using zdiv_mono1[OF a, of 65536] zdiv_mono1[OF b, of 65536] by simp_all
  then have "sint (word_of_int ?k :: u16) = ?k"
    by (simp add: signed_of_int signed_take_bit_int_eq_self)
  then show ?thesis by (simp add: scale_sample_in_of_int)
qed

lemma length_scale_in [simp]: "length (scale_in scale src dst) = length dst"
  by (induction scale src dst rule: scale_in.induct) simp_all

lemma length_scale_out [simp]: "length (scale_out scale d) = length d"
  by (induction scale d rule: scale_out.induct) (simp_all split: prod.splits)

lemma length_copy_scaled: "length src = length dst \<Longrightarrow> length (copy_scaled scale src dst) = length dst"
  by (simp add: copy_scaled_def)

lemma length_apply_gain [simp]: "length (apply_gain ac d) = length d"
  by (auto simp: apply_gain_def split: option.splits prod.splits bool.splits)

text \<open>Both directions compute the same samples.\<close>

lemma word_of_le_2: "word_of_le [b0, b1] = (ucast b0 OR push_bit 8 (ucast b1) :: u16)"
  by simp

lemma scale_sample_out_in:
  "scale_sample_out scale b0 b1 = (c0, c1) \<Longrightarrow> le_bytes (scale_sample_in scale (word_of_le [b0, b1])) = [c0, c1]"
proof -
  assume a: "scale_sample_out scale b0 b1 = (c0, c1)"
  define p where "p = (scast (word_of_le [b0, b1] :: u16) * scale :: u32)"
  have c: "c0 = ucast (signed_drop_bit 16 p AND 255)" "c1 = ucast (signed_drop_bit 8 (signed_drop_bit 16 p) AND 255)"
    using a by (simp_all add: scale_sample_out_def Let_def p_def)
  have "c0 = ucast (drop_bit 16 p)" "c1 = ucast (drop_bit 24 p)"
    unfolding c ucast_and_255
    by (auto intro!: bit_word_eqI simp: bit_ucast_iff bit_drop_bit_eq bit_signed_drop_bit_iff)
  moreover have "le_bytes (scale_sample_in scale (word_of_le [b0, b1])) = [ucast (drop_bit 16 p), ucast (drop_bit 24 p)]"
    unfolding scale_sample_in_def p_def[symmetric]
    by (auto simp: le_bytes_def upt_rec intro!: bit_word_eqI simp: bit_ucast_iff bit_drop_bit_eq)
  ultimately show ?thesis by simp
qed

lemma scale_out_in: "length src = length dst \<Longrightarrow> even (length src) \<Longrightarrow> scale_in scale src dst = scale_out scale src"
proof (induction scale src dst rule: scale_in.induct)
  case (1 scale b0 b1 src d0 d1 dst)
  obtain c0 c1 where c: "scale_sample_out scale b0 b1 = (c0, c1)" by fastforce
  with 1 scale_sample_out_in[OF c] show ?case by simp
qed auto

section \<open>Filling a packet\<close>

definition same_clock :: "'s UacSourceHandler \<Rightarrow> 's UacSourceHandler \<Rightarrow> bool" where
  "same_clock m m' \<longleftrightarrow>
     mi_packet_framesize m' = mi_packet_framesize m \<and> mi_packet_interval m' = mi_packet_interval m \<and>
     mi_packet_base m' = mi_packet_base m \<and> mi_packet_residue_step m' = mi_packet_residue_step m \<and>
     mi_packet_residue_acc m' = mi_packet_residue_acc m"

lemma same_clock_packet_clock: "same_clock m m' \<Longrightarrow> packet_clock f rate k m' = packet_clock f rate k m"
  by (simp add: same_clock_def packet_clock_def)

lemma same_clock_packet_lengths: "same_clock m m' \<Longrightarrow> packet_lengths n m' = packet_lengths n m"
proof (induction n arbitrary: m m')
  case (Suc n)
  obtain k m1 k' m1' where np: "next_packet m = (k, m1)" "next_packet m' = (k', m1')" by fastforce
  then have "k' = k" "same_clock m1 m1'"
    using Suc.prems by (auto simp: next_packet_def same_clock_def Let_def split: if_splits)
  with Suc.IH np show ?case by simp
qed simp

context audio_source
begin

lemma refill:
  assumes "inv (mi_source m)" and "mi_refill ops m = (b, m')"
  shows "inv (mi_source m')" and "b \<Longrightarrow> mi_chunk_offset m' < length (mi_chunk m')" and "same_clock m m'"
  using assms chunk_nonempty[OF assms(1)] chunk_none[OF assms(1)]
  by (auto simp: mi_refill_def same_clock_def split: if_splits prod.splits option.splits)

text \<open>\<open>fill_pcm\<close> returns, with every byte of the packet filled.\<close>

lemma fill_pcm_loop_returns:
  "inv (mi_source m) \<Longrightarrow> \<exists>pcm m'. fill_pcm_loop ops scale dst m = Some (pcm, m') \<and>
     length pcm = length dst \<and> inv (mi_source m') \<and> same_clock m m'"
proof (induction "length dst" arbitrary: dst m rule: less_induct)
  case less
  obtain b m1 where r: "mi_refill ops m = (b, m1)" by fastforce
  note inv1 = refill[OF less.prems r]
  show ?case
  proof (cases "dst = [] \<or> \<not> b")
    case True
    then show ?thesis using less.prems inv1 r by (subst fill_pcm_loop.simps) (auto simp: same_clock_def)
  next
    case False
    define n where "n = min (length dst) (length (mi_chunk m1) - mi_chunk_offset m1)"
    let ?m = "m1\<lparr>mi_chunk_offset := mi_chunk_offset m1 + n\<rparr>"
    have n: "0 < n" "n \<le> length dst" using False inv1(2) by (auto simp: n_def)
    then have lt: "length (drop n dst) < length dst" unfolding length_drop by linarith
    have "inv (mi_source ?m)" using inv1(1) by simp
    from less.hyps[OF lt this] obtain rest m2 where rec: "fill_pcm_loop ops scale (drop n dst) ?m = Some (rest, m2)"
      "length rest = length dst - n" "inv (mi_source m2)" "same_clock ?m m2" by auto
    have "same_clock m m2" using inv1(3) rec(4) by (simp add: same_clock_def)
    moreover have "length (copy_scaled scale (take n (drop (mi_chunk_offset m1) (mi_chunk m1))) (take n dst)) = n"
      using n by (subst length_copy_scaled) (auto simp: n_def)
    ultimately show ?thesis
      using False rec n r by (subst fill_pcm_loop.simps) (simp add: Let_def n_def[symmetric])
  qed
qed

lemma fill_pcm_returns:
  "inv (mi_source m) \<Longrightarrow> \<exists>pcm m'. fill_pcm ops ac dst m = Some (pcm, m') \<and>
     length pcm = length dst \<and> inv (mi_source m') \<and> same_clock m m'"
  using fill_pcm_loop_returns
  by (auto simp: fill_pcm_def same_clock_def split: option.splits prod.splits bool.splits)

text \<open>The packets of one transfer, when every descriptor lies in the buffer and holds the longest
  packet: each gets its length by the packet clock.\<close>

lemma iso_in_loop_returns:
  assumes "inv (mi_source m)" and "packet_clock f rate k m"
    and "\<And>p. p \<in> set pkts \<Longrightarrow> unat (iso_offset p) + unat (iso_length p) \<le> length d \<and>
      f * (rate div 1000 + 1) \<le> unat (iso_length p)"
  shows "\<exists>pkts' d' m'. iso_in_loop ops ac pkts d sent m =
      Some (pkts', d', sent + of_nat (sum_list (packet_lengths (length pkts) m)), m') \<and>
    length d' = length d \<and> length pkts' = length pkts \<and> inv (mi_source m') \<and>
    packet_clock f rate (k + length pkts) m'"
  using assms
proof (induction pkts arbitrary: d sent k m)
  case (Cons p pkts)
  obtain n m1 where np: "next_packet m = (n, m1)" by fastforce
  note c1 = next_packet_clock[OF Cons.prems(2) np]
  have "n \<in> set (packet_lengths 1 m)" by (simp add: np)
  then have "n \<le> f * (rate div 1000 + 1)" using packet_lengths_from[OF Cons.prems(2), of 1] by blast
  then have n: "min (unat (iso_length p)) n = n" and off: "unat (iso_offset p) + n \<le> length d"
    using Cons.prems(3)[of p] by auto
  have m1: "inv (mi_source m1)"
    using np Cons.prems(1) by (auto simp: next_packet_def Let_def split: if_splits)
  have pl: "packet_lengths (Suc (length pkts)) m = n # packet_lengths (length pkts) m1" by (simp add: np)
  show ?case
  proof (cases "n = 0")
    case True
    from Cons.IH[OF m1 c1[THEN conjunct1], of d sent] Cons.prems(3) show ?thesis
      by (auto simp: np True pl simp del: packet_lengths.simps)
  next
    case False
    let ?dst = "take n (drop (unat (iso_offset p)) d)"
    obtain pcm m2 where f: "fill_pcm ops ac ?dst m1 = Some (pcm, m2)" "length pcm = length ?dst"
      "inv (mi_source m2)" "same_clock m1 m2" using fill_pcm_returns[OF m1] by blast
    have len: "length pcm = n" using f(2) off by simp
    have c2: "packet_clock f rate (Suc k) m2" and pl2: "packet_lengths j m2 = packet_lengths j m1" for j
      using c1 f(4) by (simp_all add: same_clock_packet_clock same_clock_packet_lengths)
    let ?d = "memcpy_at (unat (iso_offset p)) pcm d"
    have ld: "length ?d = length d" using len off by simp
    have "unat (iso_offset x) + unat (iso_length x) \<le> length ?d \<and> f * (rate div 1000 + 1) \<le> unat (iso_length x)"
      if "x \<in> set pkts" for x using Cons.prems(3)[of x] that unfolding ld by simp
    from Cons.IH[OF f(3) c2 this, of "sent + of_nat n"] show ?thesis
      using False f off ld
      by (auto simp: np n pl pl2 slice_def simp del: packet_lengths.simps length_memcpy_at)
  qed
qed simp

end

section \<open>A stream of transfers\<close>

definition iso_packets :: "GenericTransfer TransferHandle \<Rightarrow> nat" where
  "iso_packets th = (case th_handle th of None \<Rightarrow> 0 | Some trx \<Rightarrow> length (gt_iso_descriptors trx))"

text \<open>The transfers the scheduler hands to \<open>process_iso_in\<close>, one after the other: the answers.\<close>

fun mi_run ::
    "('s, 'z) AudioSource_scheme \<Rightarrow> (bool \<times> u32) option \<Rightarrow> UsbEndpoint \<Rightarrow> (u32 \<times> GenericTransfer TransferHandle) list \<Rightarrow>
     GenericTransfer TransferScheduler \<Rightarrow> 's UacSourceHandler \<Rightarrow>
     (GenericTransfer UsbIpRetSubmit list \<times> 's UacSourceHandler) option" where
  "mi_run ops ac ep [] sch m = Some ([], m)"
| "mi_run ops ac ep ((seqnum, th) # ts) sch m =
     Option.bind (process_iso_in ops ac ep seqnum (int (iso_packets th)) th sch m)
       (\<lambda>(r, sch', m'). map_option (\<lambda>(rs, m''). (r # rs, m'')) (mi_run ops ac ep ts sch' m'))"

text \<open>A transfer whose packets lie in its buffer and hold the longest packet of the format.\<close>

definition iso_in_ok :: "nat \<Rightarrow> GenericTransfer TransferHandle \<Rightarrow> bool" where
  "iso_in_ok longest th \<longleftrightarrow>
     (case th_handle th of
        None \<Rightarrow> False
      | Some trx \<Rightarrow>
          (\<forall>p \<in> set (gt_iso_descriptors trx).
             unat (iso_offset p) + unat (iso_length p) \<le> length (gt_data trx) \<and> longest \<le> unat (iso_length p)) \<and>
          length (gt_iso_descriptors trx) * longest < 2 ^ 32)"

lemma clear_status_simps [simp]:
  "length (clear_status pkts) = length pkts" "map iso_length (clear_status pkts) = map iso_length pkts"
  "map iso_offset (clear_status pkts) = map iso_offset pkts"
  by (simp_all add: clear_status_def)

lemma packet_lengths_bound:
  assumes "packet_clock f rate k m"
  shows "sum_list (packet_lengths n m) \<le> n * (f * (rate div 1000 + 1))"
proof -
  have "length (packet_lengths n m) = n" by (induction n arbitrary: m) (simp_all split: prod.splits)
  moreover have "\<And>p. p \<in> set (packet_lengths n m) \<Longrightarrow> p \<le> f * (rate div 1000 + 1)"
    using packet_lengths_from[OF assms] by blast
  ultimately show ?thesis using sum_list_mono[of "packet_lengths n m" id "\<lambda>_. f * (rate div 1000 + 1)"]
    by (simp add: sum_list_triv)
qed

context audio_source
begin

lemma process_iso_in_returns:
  assumes "inv (mi_source m)" and "packet_clock f rate k m" and "iso_in_ok (f * (rate div 1000 + 1)) th"
  shows "\<exists>r sch' m'. process_iso_in ops ac ep seqnum (int (iso_packets th)) th sch m = Some (r, sch', m') \<and>
    unat (rs_actual_length r) = sum_list (packet_lengths (iso_packets th) m) \<and>
    inv (mi_source m') \<and> packet_clock f rate (k + iso_packets th) m'"
proof -
  obtain trx where t: "th_handle th = Some trx" using assms(3) by (auto simp: iso_in_ok_def split: option.splits)
  let ?pkts = "clear_status (gt_iso_descriptors trx)"
  have n: "iso_packets th = length ?pkts" by (simp add: iso_packets_def t)
  have "unat (iso_offset p) + unat (iso_length p) \<le> length (gt_data trx) \<and> f * (rate div 1000 + 1) \<le> unat (iso_length p)"
    if "p \<in> set ?pkts" for p
    using assms(3) that by (auto simp: iso_in_ok_def t clear_status_def)
  from iso_in_loop_returns[OF assms(1,2), where pkts = ?pkts and d = "gt_data trx" and ac = ac and sent = 0, OF this] obtain pkts' d' m' where
    l: "iso_in_loop ops ac ?pkts (gt_data trx) 0 m = Some (pkts', d', of_nat (sum_list (packet_lengths (length ?pkts) m)), m')"
      "inv (mi_source m')" "packet_clock f rate (k + length ?pkts) m'" by auto
  have "sum_list (packet_lengths (length ?pkts) m) < 2 ^ 32"
    using packet_lengths_bound[OF assms(2), of "length ?pkts"] assms(3) by (simp add: iso_in_ok_def t)
  then have "unat (of_nat (sum_list (packet_lengths (length ?pkts) m)) :: u32) = sum_list (packet_lengths (length ?pkts) m)"
    by (simp add: unat_of_nat)
  with l show ?thesis
    by (simp add: process_iso_in_def t n create_ret_submit_def Let_def)
qed

lemma run_rate:
  "inv (mi_source m) \<Longrightarrow> packet_clock f rate k m \<Longrightarrow> (\<And>x. x \<in> set ts \<Longrightarrow> iso_in_ok (f * (rate div 1000 + 1)) (snd x)) \<Longrightarrow>
   \<exists>rs m'. mi_run ops ac ep ts sch m = Some (rs, m') \<and>
     (\<Sum>r\<leftarrow>rs. unat (rs_actual_length r)) =
       f * ((k + (\<Sum>x\<leftarrow>ts. iso_packets (snd x))) * rate div 1000 - k * rate div 1000)"
proof (induction ts arbitrary: k m sch)
  case (Cons x ts)
  obtain seqnum th where x: "x = (seqnum, th)" by (cases x)
  have ok: "iso_in_ok (f * (rate div 1000 + 1)) th" using Cons.prems(3)[of x] by (simp add: x)
  let ?n = "iso_packets th"
  obtain r sch' m1 where p: "process_iso_in ops ac ep seqnum (int ?n) th sch m = Some (r, sch', m1)"
    "unat (rs_actual_length r) = sum_list (packet_lengths ?n m)" "inv (mi_source m1)" "packet_clock f rate (k + ?n) m1"
    using process_iso_in_returns[OF Cons.prems(1,2) ok] by blast
  let ?N = "\<Sum>x\<leftarrow>ts. iso_packets (snd x)"
  have "\<And>y. y \<in> set ts \<Longrightarrow> iso_in_ok (f * (rate div 1000 + 1)) (snd y)" using Cons.prems(3) by simp
  from Cons.IH[OF p(3,4) this, where sch = sch'] obtain rs m2 where
    rec: "mi_run ops ac ep ts sch' m1 = Some (rs, m2)"
      "(\<Sum>r\<leftarrow>rs. unat (rs_actual_length r)) = f * ((k + ?n + ?N) * rate div 1000 - (k + ?n) * rate div 1000)"
    by blast
  have mono: "k * rate div 1000 \<le> (k + ?n) * rate div 1000" "(k + ?n) * rate div 1000 \<le> (k + ?n + ?N) * rate div 1000"
    by (rule div_le_mono, simp)+
  have "sum_list (packet_lengths ?n m) = f * ((k + ?n) * rate div 1000 - k * rate div 1000)"
    using packet_lengths_from[OF Cons.prems(2)] by blast
  then have "unat (rs_actual_length r) + f * ((k + ?n + ?N) * rate div 1000 - (k + ?n) * rate div 1000) =
      f * ((k + (?n + ?N)) * rate div 1000 - k * rate div 1000)"
    using mono p(2) by (simp only: distrib_left[symmetric] add.assoc) simp
  then show ?case using p(1) rec by (simp add: x)
qed simp

end

section \<open>The samples of the microphone\<close>

text \<open>The stream of a generated source: its buffer, repeated. \<open>stream_at p\<close>: the next byte the handler
  takes is the one at position \<open>p\<close>.\<close>

definition stream_byte :: "SineWaveSource \<Rightarrow> nat \<Rightarrow> u8" where
  "stream_byte s i = sw_buffer s ! (i mod length (sw_buffer s))"

definition stream_at :: "SineWaveSource \<Rightarrow> nat \<Rightarrow> SineWaveSource UacSourceHandler \<Rightarrow> bool" where
  "stream_at s p m \<longleftrightarrow> mi_source m = s \<and>
     (if length (mi_chunk m) \<le> mi_chunk_offset m then p mod length (sw_buffer s) = 0
      else mi_chunk m = sw_buffer s \<and> mi_chunk_offset m = p mod length (sw_buffer s))"

lemma refill_stream:
  assumes "stream_at s p m" and "sw_buffer s \<noteq> []"
  shows "\<exists>m'. mi_refill (sine_ops wave) m = (True, m') \<and> stream_at s p m' \<and> mi_chunk m' = sw_buffer s \<and>
    mi_chunk_offset m' = p mod length (sw_buffer s)"
  using assms by (auto simp: stream_at_def mi_refill_def sine_ops_def sine_get_chunk_def)

lemma map_upt_append: "i \<le> j \<Longrightarrow> j \<le> k \<Longrightarrow> map f [i..<j] @ map f [j..<k] = map f [i..<k]"
  by (metis map_append le_iff_add upt_add_eq_append)

lemma take_drop_stream:
  assumes "sw_buffer s \<noteq> []" and "p mod length (sw_buffer s) + n \<le> length (sw_buffer s)"
  shows "take n (drop (p mod length (sw_buffer s)) (sw_buffer s)) = map (stream_byte s) [p..<p + n]"
proof (rule nth_equalityI)
  let ?L = "length (sw_buffer s)"
  fix i assume "i < length (take n (drop (p mod ?L) (sw_buffer s)))"
  then have i: "i < n" by simp
  have "(p + i) mod ?L = (p mod ?L + i) mod ?L" by (rule mod_add_left_eq[symmetric])
  also have "\<dots> = p mod ?L + i" using i assms(2) by simp
  finally show "take n (drop (p mod ?L) (sw_buffer s)) ! i = map (stream_byte s) [p..<p + n] ! i"
    using i assms(2) by (simp add: stream_byte_def)
qed (use assms(2) in simp)

lemma fill_pcm_loop_stream:
  "stream_at s p m \<Longrightarrow> sw_buffer s \<noteq> [] \<Longrightarrow>
   \<exists>m'. fill_pcm_loop (sine_ops wave) 65536 dst m = Some (map (stream_byte s) [p..<p + length dst], m') \<and>
     stream_at s (p + length dst) m' \<and> same_clock m m'"
proof (induction "length dst" arbitrary: dst m p rule: less_induct)
  case less
  let ?L = "length (sw_buffer s)"
  obtain m1 where r: "mi_refill (sine_ops wave) m = (True, m1)" "stream_at s p m1" "mi_chunk m1 = sw_buffer s"
    "mi_chunk_offset m1 = p mod ?L" using refill_stream[OF less.prems] by blast
  have sc: "same_clock m m1" using r(1) by (auto simp: mi_refill_def same_clock_def split: if_splits prod.splits option.splits)
  show ?case
  proof (cases "dst = []")
    case True
    then show ?thesis using less.prems by (subst fill_pcm_loop.simps) (simp add: same_clock_def)
  next
    case False
    have L: "p mod ?L < ?L" using less.prems(2) by simp
    define n where "n = min (length dst) (?L - p mod ?L)"
    have n: "0 < n" "n \<le> length dst" "p mod ?L + n \<le> ?L" using False L by (auto simp: n_def)
    let ?m = "m1\<lparr>mi_chunk_offset := p mod ?L + n\<rparr>"
    have "stream_at s (p + n) ?m"
    proof (cases "p mod ?L + n = ?L")
      case True
      then have "(p + n) mod ?L = 0" by (metis mod_add_left_eq mod_self)
      with True r show ?thesis by (simp add: stream_at_def)
    next
      case lt: False
      then have "(p + n) mod ?L = p mod ?L + n" using n(3) by (metis mod_add_left_eq mod_less le_neq_implies_less)
      with lt n r show ?thesis by (simp add: stream_at_def)
    qed
    moreover have "length (drop n dst) < length dst" using n by simp
    ultimately obtain m2 where rec: "fill_pcm_loop (sine_ops wave) 65536 (drop n dst) ?m =
        Some (map (stream_byte s) [p + n..<p + n + length (drop n dst)], m2)"
      "stream_at s (p + n + length (drop n dst)) m2" "same_clock ?m m2" using less.hyps less.prems(2) by blast
    have "map (stream_byte s) [p..<p + n] @ map (stream_byte s) [p + n..<p + length dst] =
        map (stream_byte s) [p..<p + length dst]"
      using n(2) by (simp add: map_upt_append)
    moreover have "same_clock m m2" using sc rec(3) by (simp add: same_clock_def)
    ultimately show ?thesis
      using False rec r n take_drop_stream[OF less.prems(2) n(3)]
      by (subst fill_pcm_loop.simps) (simp add: Let_def n_def[symmetric] copy_scaled_def)
  qed
qed

text \<open>Packets one after the other in a buffer of \<open>n\<close> bytes, each holding at least \<open>longest\<close>; what they carry.\<close>

fun iso_layout :: "nat \<Rightarrow> nat \<Rightarrow> nat \<Rightarrow> UsbIpIsoPacketDescriptor list \<Rightarrow> bool" where
  "iso_layout longest n lo [] \<longleftrightarrow> True"
| "iso_layout longest n lo (p # ps) \<longleftrightarrow>
     lo \<le> unat (iso_offset p) \<and> longest \<le> unat (iso_length p) \<and> unat (iso_offset p) + unat (iso_length p) \<le> n \<and>
     iso_layout longest n (unat (iso_offset p) + unat (iso_length p)) ps"

definition iso_payload :: "UsbIpIsoPacketDescriptor list \<Rightarrow> data \<Rightarrow> data" where
  "iso_payload ps d = concat (map (\<lambda>p. take (unat (iso_actual_length p)) (drop (unat (iso_offset p)) d)) ps)"

definition unity_gain :: "(bool \<times> u32) option \<Rightarrow> bool" where
  "unity_gain ac \<longleftrightarrow> ac = None \<or> ac = Some (False, 65536)"

lemma iso_in_loop_stream:
  assumes "stream_at s p m" and "packet_clock f rate k m" and "iso_layout (f * (rate div 1000 + 1)) (length d) lo pkts"
    and "sw_buffer s \<noteq> []" and "0 < f" and "1000 \<le> rate" and "unity_gain ac"
  defines "e j \<equiv> p + f * (j * rate div 1000 - k * rate div 1000)"
  shows "\<exists>pkts' d' sent' m'. iso_in_loop (sine_ops wave) ac pkts d sent m = Some (pkts', d', sent', m') \<and>
    iso_payload pkts' d' = map (stream_byte s) [p..<e (k + length pkts)] \<and> stream_at s (e (k + length pkts)) m' \<and>
    packet_clock f rate (k + length pkts) m' \<and> take lo d' = take lo d \<and> length d' = length d"
  using assms(1-3) unfolding e_def
proof (induction pkts arbitrary: d sent k m p lo)
  case Nil
  then show ?case by (simp add: iso_payload_def)
next
  case (Cons pk pkts)
  obtain n m1 where np: "next_packet m = (n, m1)" by fastforce
  note c1 = next_packet_clock[OF Cons.prems(2) np]
  have "n \<in> set (packet_lengths 1 m)" by (simp add: np)
  then have nb: "n \<le> f * (rate div 1000 + 1)" using packet_lengths_from[OF Cons.prems(2), of 1] by blast
  have "k * rate + 1000 \<le> Suc k * rate" using assms(6) by simp
  then have "k * rate div 1000 + 1 \<le> Suc k * rate div 1000" using div_le_mono[of "k * rate + 1000" "Suc k * rate" 1000] by simp
  then have n0: "0 < n" using c1 assms(5) by simp
  let ?off = "unat (iso_offset pk)" and ?len = "unat (iso_length pk)"
  have lay: "lo \<le> ?off" "n \<le> ?len" "?off + ?len \<le> length d"
    "iso_layout (f * (rate div 1000 + 1)) (length d) (?off + ?len) pkts" using Cons.prems(3) nb by auto
  have st1: "stream_at s p m1"
    using np Cons.prems(1) by (auto simp: next_packet_def stream_at_def Let_def split: if_splits)
  let ?dst = "take n (drop ?off d)" and ?pcm = "map (stream_byte s) [p..<p + n]"
  have ld: "length ?dst = n" using lay by simp
  obtain m2 where f: "fill_pcm (sine_ops wave) ac ?dst m1 = Some (?pcm, m2)" "stream_at s (p + n) m2" "same_clock m1 m2"
    using fill_pcm_loop_stream[OF st1 assms(4), where dst = ?dst and wave = wave] unfolding ld using assms(7)[unfolded unity_gain_def]
    by (auto simp: fill_pcm_def)
  have c2: "packet_clock f rate (Suc k) m2" using c1 f(3) by (simp add: same_clock_packet_clock)
  let ?d = "memcpy_at ?off ?pcm d"
  have len: "length ?d = length d" using lay by simp
  from Cons.IH[OF f(2) c2, of ?d "?off + ?len" "sent + of_nat n"] lay(4) obtain pkts' d' sent' m' where
    rec: "iso_in_loop (sine_ops wave) ac pkts ?d (sent + of_nat n) m2 = Some (pkts', d', sent', m')"
      "iso_payload pkts' d' = map (stream_byte s)
         [p + n..<p + n + f * ((Suc k + length pkts) * rate div 1000 - Suc k * rate div 1000)]"
      "stream_at s (p + n + f * ((Suc k + length pkts) * rate div 1000 - Suc k * rate div 1000)) m'"
      "packet_clock f rate (Suc k + length pkts) m'" "take (?off + ?len) d' = take (?off + ?len) ?d" "length d' = length ?d"
    unfolding len by blast
  have "Suc k * rate div 1000 \<le> (Suc k + length pkts) * rate div 1000" by (rule div_le_mono) simp
  moreover have "k * rate div 1000 \<le> Suc k * rate div 1000" by (rule div_le_mono) simp
  ultimately have e: "p + n + f * ((Suc k + length pkts) * rate div 1000 - Suc k * rate div 1000) =
      p + f * ((k + length (pk # pkts)) * rate div 1000 - k * rate div 1000)"
    using c1 by (simp add: distrib_left[symmetric] del: mult_Suc)
  have "take n (drop ?off d') = take n (drop ?off (take (?off + ?len) d'))" using lay(2) by (simp add: take_drop min_def)
  also have "\<dots> = ?pcm" unfolding rec(5) using lay by (simp add: memcpy_at_def)
  finally have pay: "take n (drop ?off d') = ?pcm" .
  have "n < 2 ^ 32" using lay(2) unsigned_less[of "iso_length pk", where 'a = nat] by simp
  then have nn: "unat (of_nat n :: u32) = n" by (simp add: unat_of_nat)
  have "take lo d' = take lo (take (?off + ?len) d')" using lay(1) by (simp add: min_def)
  also have "\<dots> = take lo d" unfolding rec(5) using lay by (simp add: memcpy_at_def min_def)
  finally have lo: "take lo d' = take lo d" .
  have loop: "iso_in_loop (sine_ops wave) ac (pk # pkts) d sent m =
      Some (pk\<lparr>iso_actual_length := of_nat n\<rparr> # pkts', d', sent', m')"
    using rec(1) n0 lay(2,3) f(1) by (simp add: np Let_def slice_def min_def)
  have "iso_payload (pk\<lparr>iso_actual_length := of_nat n\<rparr> # pkts') d' = ?pcm @ iso_payload pkts' d'"
    using pay nn by (simp add: iso_payload_def)
  then have "iso_payload (pk\<lparr>iso_actual_length := of_nat n\<rparr> # pkts') d' =
      map (stream_byte s) [p..<p + f * ((k + length (pk # pkts)) * rate div 1000 - k * rate div 1000)]"
    unfolding rec(2) e[symmetric] by (simp add: map_upt_append)
  moreover have "packet_clock f rate (k + length (pk # pkts)) m'" using rec(4) by simp
  ultimately show ?case using loop rec(3,6) lo len unfolding e by metis
qed

text \<open>A transfer whose packets lie one after the other in its buffer; the data an answer carries.\<close>

definition iso_in_layout :: "nat \<Rightarrow> GenericTransfer TransferHandle \<Rightarrow> bool" where
  "iso_in_layout longest th \<longleftrightarrow>
     (case th_handle th of
        None \<Rightarrow> False
      | Some trx \<Rightarrow> iso_layout longest (length (gt_data trx)) 0 (gt_iso_descriptors trx))"

definition ret_payload :: "GenericTransfer UsbIpRetSubmit \<Rightarrow> data" where
  "ret_payload r =
     (case th_handle (rs_transfer r) of
        None \<Rightarrow> [] | Some trx \<Rightarrow> iso_payload (gt_iso_descriptors trx) (gt_data trx))"

lemma iso_layout_clear [simp]: "iso_layout longest n lo (clear_status ps) = iso_layout longest n lo ps"
  by (induction ps arbitrary: lo) (simp_all add: clear_status_def)

lemma process_iso_in_stream:
  assumes "stream_at s p m" and "packet_clock f rate k m" and "iso_in_layout (f * (rate div 1000 + 1)) th"
    and "sw_buffer s \<noteq> []" and "0 < f" and "1000 \<le> rate" and "unity_gain ac"
  defines "e \<equiv> p + f * ((k + iso_packets th) * rate div 1000 - k * rate div 1000)"
  shows "\<exists>r sch' m'. process_iso_in (sine_ops wave) ac ep seqnum (int (iso_packets th)) th sch m = Some (r, sch', m') \<and>
    ret_payload r = map (stream_byte s) [p..<e] \<and> stream_at s e m' \<and> packet_clock f rate (k + iso_packets th) m'"
proof -
  obtain trx where t: "th_handle th = Some trx" and l: "iso_layout (f * (rate div 1000 + 1)) (length (gt_data trx)) 0
      (clear_status (gt_iso_descriptors trx))" using assms(3) by (auto simp: iso_in_layout_def split: option.splits)
  let ?pkts = "clear_status (gt_iso_descriptors trx)"
  have n: "iso_packets th = length ?pkts" by (simp add: iso_packets_def t)
  from iso_in_loop_stream[OF assms(1,2) l assms(4-7), where wave = wave and sent = 0] show ?thesis
    unfolding e_def n
    by (auto simp: process_iso_in_def t Let_def create_ret_submit_def ret_payload_def)
qed

lemma mi_run_stream:
  assumes "sw_buffer s \<noteq> []" and "0 < f" and "1000 \<le> rate" and "unity_gain ac"
  shows "stream_at s p m \<Longrightarrow> packet_clock f rate k m \<Longrightarrow>
    (\<And>x. x \<in> set ts \<Longrightarrow> iso_in_layout (f * (rate div 1000 + 1)) (snd x)) \<Longrightarrow>
    \<exists>rs m'. mi_run (sine_ops wave) ac ep ts sch m = Some (rs, m') \<and> concat (map ret_payload rs) =
      map (stream_byte s) [p..<p + f * ((k + (\<Sum>x\<leftarrow>ts. iso_packets (snd x))) * rate div 1000 - k * rate div 1000)]"
proof (induction ts arbitrary: p k m sch)
  case (Cons x ts)
  obtain seqnum th where x: "x = (seqnum, th)" by (cases x)
  have ok: "iso_in_layout (f * (rate div 1000 + 1)) th" using Cons.prems(3)[of x] by (simp add: x)
  let ?n = "iso_packets th" and ?N = "\<Sum>x\<leftarrow>ts. iso_packets (snd x)"
  let ?e = "p + f * ((k + ?n) * rate div 1000 - k * rate div 1000)"
  obtain r sch' m1 where p: "process_iso_in (sine_ops wave) ac ep seqnum (int ?n) th sch m = Some (r, sch', m1)"
    "ret_payload r = map (stream_byte s) [p..<?e]" "stream_at s ?e m1" "packet_clock f rate (k + ?n) m1"
    using process_iso_in_stream[OF Cons.prems(1,2) ok assms] by blast
  have "\<And>y. y \<in> set ts \<Longrightarrow> iso_in_layout (f * (rate div 1000 + 1)) (snd y)" using Cons.prems(3) by simp
  from Cons.IH[OF p(3,4) this, where sch = sch'] obtain rs m2 where
    rec: "mi_run (sine_ops wave) ac ep ts sch' m1 = Some (rs, m2)" "concat (map ret_payload rs) =
      map (stream_byte s) [?e..<?e + f * ((k + ?n + ?N) * rate div 1000 - (k + ?n) * rate div 1000)]"
    by blast
  have mono: "k * rate div 1000 \<le> (k + ?n) * rate div 1000" "(k + ?n) * rate div 1000 \<le> (k + ?n + ?N) * rate div 1000"
    by (rule div_le_mono, simp)+
  then have e: "?e + f * ((k + ?n + ?N) * rate div 1000 - (k + ?n) * rate div 1000) =
      p + f * ((k + (?n + ?N)) * rate div 1000 - k * rate div 1000)"
    by (simp add: add.assoc distrib_left[symmetric] del: distrib_left_numeral)
  have "concat (map ret_payload (r # rs)) =
      map (stream_byte s) [p..<p + f * ((k + (?n + ?N)) * rate div 1000 - k * rate div 1000)]"
    unfolding e[symmetric] using p(2) rec(2) by (simp add: map_upt_append)
  then show ?case using p(1) rec(1) by (simp add: x)
qed simp


definition iso_sample :: "u32 \<Rightarrow> GenericTransfer TransferHandle" where
  "iso_sample len =
     TransferHandle_empty\<lparr>th_handle := Some \<lparr>gt_data = replicate (2 * unat len) 7, gt_iso_descriptors =
        [default_iso\<lparr>iso_length := len\<rparr>, default_iso\<lparr>iso_offset := len, iso_length := len\<rparr>],
        gt_actual_length = 0, gt_data_offset = 0, gt_is_in = True\<rparr>\<rparr>"


section \<open>The speaker\<close>

text \<open>The data of the packets of an OUT transfer: one after the other, by their declared lengths.\<close>

fun split_packets :: "UsbIpIsoPacketDescriptor list \<Rightarrow> data \<Rightarrow> data list" where
  "split_packets [] d = []"
| "split_packets (p # ps) d = take (unat (iso_length p)) d # split_packets ps (drop (unat (iso_length p)) d)"

definition declared_length :: "UsbIpIsoPacketDescriptor list \<Rightarrow> nat" where
  "declared_length ps = (\<Sum>p\<leftarrow>ps. unat (iso_length p))"

lemma apply_gain_Nil [simp]: "apply_gain ac [] = []"
  using length_apply_gain[of ac "[]"] by (simp only: list.size(3) length_0_conv)

lemma split_packets_clear [simp]: "split_packets (clear_status ps) d = split_packets ps d"
  by (induction ps arbitrary: d) (simp_all add: clear_status_def)

lemma declared_length_clear [simp]: "declared_length (clear_status ps) = declared_length ps"
  by (simp add: declared_length_def clear_status_def comp_def)

lemma drop_memcpy_at: "pos + length x \<le> length d \<Longrightarrow> drop (pos + length x) (memcpy_at pos x d) = drop (pos + length x) d"
  by (simp add: memcpy_at_def)

text \<open>Every packet is handed to the sink once, in order, with the gain applied.\<close>

lemma iso_out_loop_writes:
  "pos + declared_length pkts \<le> length d \<Longrightarrow> length d < 2 ^ 64 \<Longrightarrow>
   \<exists>pkts' d'. iso_out_loop ops ac pkts d pos received s = Some (pkts', d', received + of_nat (declared_length pkts),
     fold (snk_write_pcm ops) (filter (\<lambda>x. x \<noteq> []) (map (apply_gain ac) (split_packets pkts (drop pos d)))) s)"
proof (induction pkts arbitrary: d pos received s)
  case (Cons p pkts)
  let ?n = "unat (iso_length p)"
  have le: "pos + ?n + declared_length pkts \<le> length d" using Cons.prems(1) by (simp add: declared_length_def)
  have "unat (of_nat (length d) - of_nat pos :: u64) = length d - pos"
    using le Cons.prems(2) by (simp add: of_nat_diff[symmetric] unat_of_nat del: of_nat_diff)
  then have n: "min ?n (unat (of_nat (length d) - of_nat pos :: u64)) = ?n" using le by simp
  have split: "split_packets (p # pkts) (drop pos d) = take ?n (drop pos d) # split_packets pkts (drop (pos + ?n) d)"
    by (simp add: add.commute)
  show ?case
  proof (cases "?n = 0")
    case True
    then show ?thesis using Cons.IH[OF le Cons.prems(2), of received s] n
      by (auto simp: split declared_length_def Let_def simp del: split_packets.simps)
  next
    case False
    let ?x = "apply_gain ac (take ?n (drop pos d))"
    have lx: "length ?x = ?n" using le by simp
    have x: "?x \<noteq> []" using False lx by (metis list.size(3))
    let ?d = "memcpy_at pos ?x d"
    have ld: "length ?d = length d" using lx le by simp
    have dd: "drop (pos + ?n) ?d = drop (pos + ?n) d" using drop_memcpy_at[of pos ?x d] lx le by simp
    from Cons.IH[of "pos + ?n" ?d "received + of_nat ?n" "snk_write_pcm ops ?x s"] le Cons.prems(2) ld dd
    obtain pkts' d' where "iso_out_loop ops ac pkts ?d (pos + ?n) (received + of_nat ?n) (snk_write_pcm ops ?x s) =
        Some (pkts', d', received + of_nat ?n + of_nat (declared_length pkts), fold (snk_write_pcm ops)
          (filter (\<lambda>x. x \<noteq> []) (map (apply_gain ac) (split_packets pkts (drop (pos + ?n) d)))) (snk_write_pcm ops ?x s))"
      by auto
    then show ?thesis using False n le x
      by (simp add: split declared_length_def Let_def slice_def add.assoc del: split_packets.simps)
  qed
qed (simp add: declared_length_def)

lemma concat_filter_Nil: "concat (filter (\<lambda>x. x \<noteq> []) xs) = concat xs"
  by (induction xs) simp_all

text \<open>The transfers the scheduler hands to \<open>process_iso_out\<close>, one after the other, with the times it
  reads; the bytes answered in all.\<close>

fun spk_run ::
    "('s, 'z) AudioSink_scheme \<Rightarrow> (bool \<times> u32) option \<Rightarrow> UsbEndpoint \<Rightarrow>
     (int \<times> u32 \<times> GenericTransfer TransferHandle) list \<Rightarrow>
     GenericTransfer TransferScheduler \<Rightarrow> 's UacSinkHandler \<Rightarrow> (nat \<times> 's UacSinkHandler) option" where
  "spk_run ops ac ep [] sch m = Some (0, m)"
| "spk_run ops ac ep ((now, seqnum, th) # ts) sch m =
     Option.bind (process_iso_out ops ac now ep seqnum th sch m)
       (\<lambda>(r, sch', m'). map_option (\<lambda>(n, m''). (unat (rs_actual_length r) + n, m'')) (spk_run ops ac ep ts sch' m'))"

definition iso_out_ok :: "GenericTransfer TransferHandle \<Rightarrow> bool" where
  "iso_out_ok th \<longleftrightarrow>
     (case th_handle th of
        None \<Rightarrow> False
      | Some trx \<Rightarrow> declared_length (gt_iso_descriptors trx) \<le> length (gt_data trx) \<and> length (gt_data trx) < 2 ^ 32)"

definition out_packets :: "GenericTransfer TransferHandle \<Rightarrow> data list" where
  "out_packets th = (case th_handle th of None \<Rightarrow> [] | Some trx \<Rightarrow> split_packets (gt_iso_descriptors trx) (gt_data trx))"

lemma update_pacing_sink [simp]: "sp_sink (update_pacing fmt now received m) = sp_sink m"
  by (simp add: update_pacing_def Let_def)

lemma length_split_packets: "declared_length ps \<le> length d \<Longrightarrow> length (concat (split_packets ps d)) = declared_length ps"
  by (induction ps arbitrary: d) (simp_all add: declared_length_def)

lemma process_iso_out_writes:
  assumes "iso_out_ok th"
  shows "\<exists>r sch' m'. process_iso_out ops ac now ep seqnum th sch m = Some (r, sch', m') \<and>
    unat (rs_actual_length r) = length (concat (out_packets th)) \<and>
    sp_sink m' = fold (snk_write_pcm ops) (filter (\<lambda>x. x \<noteq> []) (map (apply_gain ac) (out_packets th))) (sp_sink m)"
proof -
  obtain trx where t: "th_handle th = Some trx" and l: "declared_length (gt_iso_descriptors trx) \<le> length (gt_data trx)"
    "length (gt_data trx) < 2 ^ 32" using assms by (auto simp: iso_out_ok_def split: option.splits)
  let ?pkts = "clear_status (gt_iso_descriptors trx)"
  from iso_out_loop_writes[of 0 ?pkts "gt_data trx" ops ac 0 "sp_sink m"] l obtain pkts' d' where
    loop: "iso_out_loop ops ac ?pkts (gt_data trx) 0 0 (sp_sink m) = Some (pkts', d',
      of_nat (declared_length (gt_iso_descriptors trx)), fold (snk_write_pcm ops)
        (filter (\<lambda>x. x \<noteq> []) (map (apply_gain ac) (split_packets (gt_iso_descriptors trx) (gt_data trx)))) (sp_sink m))"
    by auto
  have "unat (of_nat (declared_length (gt_iso_descriptors trx)) :: u32) = declared_length (gt_iso_descriptors trx)"
    using l by (simp add: unat_of_nat)
  with loop show ?thesis
    by (simp add: process_iso_out_def t create_ret_submit_def Let_def out_packets_def length_split_packets[OF l(1)])
qed

lemma snk_write_wav: "snk_write_pcm (wav_ops openable) = wav_write_pcm openable"
  by (simp add: wav_ops_def)

text \<open>C37: The speaker records exactly what the host sends. With a WAV file sink whose file holds \<open>pcm\<close>,
  any sequence of transfers whose packets fit their data is answered, every packet counted once, and
  afterwards the file is a WAV file of the sink's format (header and chunk sizes included) with
  \<open>pcm\<close> followed by the data of all packets in order, with the gain of the feature unit applied.\<close>

theorem speaker_records_stream:
  assumes "wav_holds pcm (sp_sink m)" and "\<And>x. x \<in> set ts \<Longrightarrow> iso_out_ok (snd (snd x))"
  shows "\<exists>m'. spk_run (wav_ops openable) ac ep ts sch m =
      Some (length (concat (concat (map (\<lambda>x. out_packets (snd (snd x))) ts))), m') \<and>
    wav_holds (pcm @ concat (map (apply_gain ac) (concat (map (\<lambda>x. out_packets (snd (snd x))) ts)))) (sp_sink m')"
  using assms
proof (induction ts arbitrary: pcm m sch)
  case (Cons x ts)
  obtain now seqnum th where x: "x = (now, seqnum, th)" by (cases x)
  have ok: "iso_out_ok th" using Cons.prems(2)[of x] by (simp add: x)
  let ?w = "filter (\<lambda>x. x \<noteq> []) (map (apply_gain ac) (out_packets th))"
  obtain r sch' m1 where p: "process_iso_out (wav_ops openable) ac now ep seqnum th sch m = Some (r, sch', m1)"
    "unat (rs_actual_length r) = length (concat (out_packets th))"
    "sp_sink m1 = fold (wav_write_pcm openable) ?w (sp_sink m)"
    using process_iso_out_writes[OF ok, where ops = "wav_ops openable"] unfolding snk_write_wav by blast
  have "wav_holds (pcm @ concat (map (apply_gain ac) (out_packets th))) (sp_sink m1)"
    using wav_writes[OF Cons.prems(1), of ?w openable] p(3) by (simp add: concat_filter_Nil)
  from Cons.IH[OF this, of sch'] Cons.prems(2) p(1,2) show ?case by (auto simp: x)
qed simp

theorem speaker_records_stream_witness:
  "\<exists>m'. spk_run (wav_ops True) (Some (False, 32768)) default_endpoint [(0, 9, iso_sample 2)] (TransferScheduler_new Speed_High)
      (UacSinkHandler_new (wav_write_pcm True [1, 2] WavFileSink_new)) = Some (4, m') \<and>
    wav_holds ([1, 2] @ [131, 3, 131, 3]) (sp_sink m')"
proof -
  have "wav_holds [1, 2] (wav_write_pcm True [1, 2] WavFileSink_new)"
    by (rule wav_write_first) (simp_all add: WavFileSink_new_def)
  moreover have "iso_out_ok (iso_sample 2)"
    by (simp add: iso_out_ok_def iso_sample_def default_iso_def declared_length_def)
  moreover have "out_packets (iso_sample 2) = [[7, 7], [7, 7]]"
    by (simp add: out_packets_def iso_sample_def default_iso_def) (simp add: numeral_2_eq_2)
  moreover have "apply_gain (Some (False, 32768)) [7, 7] = [131, 3]"
    by (simp add: apply_gain_def scale_sample_out_def Let_def)
  ultimately show ?thesis
    using speaker_records_stream[of "[1, 2]" "UacSinkHandler_new (wav_write_pcm True [1, 2] WavFileSink_new)"
        "[(0, 9, iso_sample 2)]" True "Some (False, 32768)" default_endpoint "TransferScheduler_new Speed_High"]
    by (simp add: UacSinkHandler_new_def eval_nat_numeral del: spk_run.simps)
qed

section \<open>Accesses outside the buffer\<close>

text \<open>The loops trust the lengths and offsets of the client's packet descriptors. Two OUT packets of 20
  and 5 bytes on 10 bytes of data: after the first the remaining size wraps around, and the second
  reads past the end. An IN packet at an offset past the end of the buffer is written there.\<close>

lemma iso_out_past_end:
  "iso_out_loop ops None [default_iso\<lparr>iso_length := 20\<rparr>, default_iso\<lparr>iso_length := 5\<rparr>] (replicate 10 0) 0 0 s = None"
  by (simp add: Let_def slice_def default_iso_def apply_gain_def)

lemma iso_in_past_end:
  "mi_packet_base m \<noteq> 0 \<Longrightarrow>
   iso_in_loop ops ac [default_iso\<lparr>iso_offset := 100, iso_length := 5\<rparr>] (replicate 10 0) 0 m = None"
  by (simp add: Let_def slice_def default_iso_def next_packet_def min_def)

section \<open>The feature unit\<close>

interpretation uac_control_unlink: unlink_handler ac_handle_unlink_seqnum "\<lambda>h. ic_pending (ac_status_channel h)"
proof
  fix u c s
  show "fst (ac_handle_unlink_seqnum u c s) = [unlink_reply c (u \<in># ic_pending (ac_status_channel s))]"
    using in_cancel.cancel_found[of u "ac_status_channel s"]
    by (auto simp: ac_handle_unlink_seqnum_def split: prod.splits)
  show "ic_pending (ac_status_channel (snd (ac_handle_unlink_seqnum u c s))) = ic_pending (ac_status_channel s) - {#u#}"
    using in_cancel.cancel_pending[of u "ac_status_channel s"]
    by (auto simp: ac_handle_unlink_seqnum_def split: prod.splits)
qed

text \<open>The class descriptor of the control interface: \<open>wTotalLength\<close> is its length.\<close>

lemma ac_class_descriptor_length:
  assumes "uc_channels config \<in> {1, 2}"
  shows "length (ac_class_descriptor config n) = 38 + unat (uc_channels config)"
    and "word_of_le [ac_class_descriptor config n ! 5, ac_class_descriptor config n ! 6] =
      (of_nat (length (ac_class_descriptor config n)) :: u16)"
  using assms
  by (auto simp: ac_class_descriptor_def AcHeaderDesc_append_to_def AcInputTerminalDesc_append_to_def
      AcFeatureUnitHead_append_to_def AcOutputTerminalDesc_append_to_def Let_def)

text \<open>The volume stays within the range the device declares.\<close>

definition volume_ok :: "UacAudioControlHandler \<Rightarrow> bool" where
  "volume_ok h \<longleftrightarrow> sint (uc_volume_min_db256 (ac_config h)) \<le> sint (ac_volume_db h) \<and>
     sint (ac_volume_db h) \<le> sint (uc_volume_max_db256 (ac_config h))"

lemma ac_set_volume_ok:
  assumes "sint (uc_volume_min_db256 (ac_config h)) \<le> sint (uc_volume_max_db256 (ac_config h))"
  shows "volume_ok (ac_set_volume pow v h)"
  using assms by (auto simp: volume_ok_def ac_set_volume_def clamp_i16_def send_ac_status_def Let_def)

end
