(* ===== verification/Video.thy ===== *)
theory Video
  imports Network
begin

text \<open>
  The video sources of the UVC function: the interface \<open>VideoSource\<close> as a record of functions with
  its laws as a locale, and the colour bar generator \<open>ColorBarSource\<close>.
\<close>

section \<open>The interface\<close>

record VideoFormatInfo =
  vf_fourcc :: u32
  vf_width :: u16
  vf_height :: u16
  vf_max_frame_size :: u32
  vf_default_frame_interval :: u32
  vf_min_frame_interval :: u32
  vf_max_frame_interval :: u32
  vf_bits_per_pixel :: u8

text \<open>\<open>get_frame\<close> hands out the bytes of a frame, or nothing; \<open>set_format\<close> may fail outside its array
  (the outer \<open>None\<close>).\<close>

record 's VideoSource =
  vo_supported_formats :: "'s \<Rightarrow> VideoFormatInfo list"
  vo_current_format :: "'s \<Rightarrow> VideoFormatInfo"
  vo_set_format :: "u32 \<Rightarrow> u16 \<Rightarrow> u16 \<Rightarrow> u32 \<Rightarrow> 's \<Rightarrow> (bool \<times> 's) option"
  vo_get_frame :: "'s \<Rightarrow> data option \<times> 's"
  vo_max_frame_size :: "'s \<Rightarrow> nat"
  vo_frame_interval :: "'s \<Rightarrow> u32"

text \<open>A source hands out frames that are not empty and not larger than it says, and takes a new
  frame interval for its own format.\<close>

locale video_source =
  fixes ops :: "('s, 'z) VideoSource_scheme" and inv :: "'s \<Rightarrow> bool"
  assumes frame_some: "inv s \<Longrightarrow> vo_get_frame ops s = (Some d, s') \<Longrightarrow>
      d \<noteq> [] \<and> length d \<le> vo_max_frame_size ops s \<and> inv s' \<and> vo_frame_interval ops s' = vo_frame_interval ops s"
    and frame_none: "inv s \<Longrightarrow> vo_get_frame ops s = (None, s') \<Longrightarrow>
      inv s' \<and> vo_frame_interval ops s' = vo_frame_interval ops s"
    and set_interval: "inv s \<Longrightarrow> f = vo_current_format ops s \<Longrightarrow>
      \<exists>s'. vo_set_format ops (vf_fourcc f) (vf_width f) (vf_height f) i s = Some (True, s') \<and> inv s' \<and>
        vo_frame_interval ops s' = i"

section \<open>Colour bars\<close>

definition UvcFourCC_YUY2 :: u32 where "UvcFourCC_YUY2 = 0x32595559"

record ColorBarSource =
  cb_width :: u16
  cb_height :: u16
  cb_frame_interval :: u32
  cb_buffer :: data

definition INTERVAL_100NS :: "u8 \<Rightarrow> u32 option" where
  "INTERVAL_100NS fps = (if fps = 0 then None else Some (of_nat (10000000 div unat fps)))"

definition bar_colors :: "(u8 \<times> u8 \<times> u8) list" where
  "bar_colors =
     [(235, 128, 128), (210, 16, 146), (170, 166, 16), (145, 54, 34), (106, 202, 222), (81, 90, 240),
      (41, 240, 110), (16, 128, 128)]"

text \<open>Two pixels of a row: \<open>x\<close> is the position of the first.\<close>

definition bar_pixels :: "nat \<Rightarrow> nat \<Rightarrow> data" where
  "bar_pixels bar_width x =
     (case bar_colors ! min 7 (x div bar_width) of (Y, Cb, Cr) \<Rightarrow> [Y, Cb, Y, Cr])"

definition bar_row :: "nat \<Rightarrow> data" where
  "bar_row width = concat (map (\<lambda>k. bar_pixels (width div 8) (2 * k)) [0..<(width + 1) div 2])"

text \<open>\<open>generate_color_bars\<close>. \<open>None\<close>: with fewer than 8 columns the width of a bar is 0 and the column is
  divided by it; with an odd number of columns more bytes are written than the buffer has.\<close>

definition generate_color_bars :: "ColorBarSource \<Rightarrow> ColorBarSource option" where
  "generate_color_bars s =
     (let w = unat (cb_width s); h = unat (cb_height s); pixels = concat (replicate h (bar_row w))
      in if 0 < w \<and> 0 < h \<and> w div 8 = 0 then None
         else if w * h * 2 < length pixels then None
         else Some (s\<lparr>cb_buffer := pixels @ replicate (w * h * 2 - length pixels) 0\<rparr>))"

definition ColorBarSource_new :: "u16 \<Rightarrow> u16 \<Rightarrow> u8 \<Rightarrow> ColorBarSource option" where
  "ColorBarSource_new width height fps =
     Option.bind (INTERVAL_100NS fps) (\<lambda>interval.
       generate_color_bars
         \<lparr>cb_width = width, cb_height = height, cb_frame_interval = interval, cb_buffer = []\<rparr>)"

definition cb_supported_formats :: "ColorBarSource \<Rightarrow> VideoFormatInfo list" where
  "cb_supported_formats s =
     [\<lparr>vf_fourcc = UvcFourCC_YUY2, vf_width = cb_width s, vf_height = cb_height s,
       vf_max_frame_size = ucast (cb_width s) * ucast (cb_height s) * 2,
       vf_default_frame_interval = cb_frame_interval s, vf_min_frame_interval = cb_frame_interval s,
       vf_max_frame_interval = cb_frame_interval s * 10, vf_bits_per_pixel = 16\<rparr>]"

definition cb_current_format :: "ColorBarSource \<Rightarrow> VideoFormatInfo" where
  "cb_current_format s = hd (cb_supported_formats s)"

definition cb_set_format :: "u32 \<Rightarrow> u16 \<Rightarrow> u16 \<Rightarrow> u32 \<Rightarrow> ColorBarSource \<Rightarrow> (bool \<times> ColorBarSource) option" where
  "cb_set_format fourcc width height frame_interval s =
     (if fourcc \<noteq> UvcFourCC_YUY2 then Some (False, s)
      else map_option (\<lambda>s'. (True, s'))
             (generate_color_bars (s\<lparr>cb_width := width, cb_height := height, cb_frame_interval := frame_interval\<rparr>)))"

definition cb_get_frame :: "ColorBarSource \<Rightarrow> data option \<times> ColorBarSource" where
  "cb_get_frame s = (Some (cb_buffer s), s)"

definition color_bar_ops :: "ColorBarSource VideoSource" where
  "color_bar_ops =
     \<lparr>vo_supported_formats = cb_supported_formats, vo_current_format = cb_current_format,
      vo_set_format = cb_set_format, vo_get_frame = cb_get_frame, vo_max_frame_size = (\<lambda>s. length (cb_buffer s)),
      vo_frame_interval = cb_frame_interval\<rparr>"

subsection \<open>Facts\<close>

definition cb_inv :: "ColorBarSource \<Rightarrow> bool" where
  "cb_inv s \<longleftrightarrow> 8 \<le> unat (cb_width s) \<and> even (unat (cb_width s)) \<and> 0 < unat (cb_height s) \<and>
     cb_buffer s = concat (replicate (unat (cb_height s)) (bar_row (unat (cb_width s))))"

lemma length_bar_pixels [simp]: "length (bar_pixels b x) = 4"
  by (simp add: bar_pixels_def split: prod.splits)

lemma length_bar_row [simp]: "length (bar_row w) = 4 * ((w + 1) div 2)"
  by (simp add: bar_row_def length_concat comp_def sum_list_triv)

lemma generate_color_bars_wf:
  assumes "8 \<le> unat (cb_width s)" and "even (unat (cb_width s))" and "0 < unat (cb_height s)"
  shows "\<exists>s'. generate_color_bars s = Some s' \<and> cb_inv s' \<and> cb_width s' = cb_width s \<and> cb_height s' = cb_height s \<and>
    cb_frame_interval s' = cb_frame_interval s"
proof -
  have "unat (cb_height s) * (4 * ((unat (cb_width s) + 1) div 2)) = unat (cb_width s) * unat (cb_height s) * 2"
    using assms(2) by auto
  then have "length (concat (replicate (unat (cb_height s)) (bar_row (unat (cb_width s))))) =
      unat (cb_width s) * unat (cb_height s) * 2"
    by (simp add: length_concat sum_list_replicate)
  then show ?thesis using assms by (simp add: generate_color_bars_def cb_inv_def Let_def)
qed

interpretation color_bars: video_source color_bar_ops cb_inv
proof
  fix s f i
  assume "cb_inv s" and f: "f = vo_current_format color_bar_ops s"
  then show "\<exists>s'. vo_set_format color_bar_ops (vf_fourcc f) (vf_width f) (vf_height f) i s = Some (True, s') \<and> cb_inv s' \<and>
      vo_frame_interval color_bar_ops s' = i"
    using generate_color_bars_wf[of "s\<lparr>cb_frame_interval := i\<rparr>"]
    by (auto simp: color_bar_ops_def cb_current_format_def cb_supported_formats_def cb_set_format_def cb_inv_def)
next
  fix s d s'
  assume inv: "cb_inv s" and g: "vo_get_frame color_bar_ops s = (Some d, s')"
  have "bar_row (unat (cb_width s)) \<noteq> []"
    using inv by (simp add: cb_inv_def flip: length_greater_0_conv)
  then have "cb_buffer s \<noteq> []" using inv by (auto simp: cb_inv_def)
  with inv g show "d \<noteq> [] \<and> length d \<le> vo_max_frame_size color_bar_ops s \<and> cb_inv s' \<and>
      vo_frame_interval color_bar_ops s' = vo_frame_interval color_bar_ops s"
    by (auto simp: color_bar_ops_def cb_get_frame_def)
qed (simp add: color_bar_ops_def cb_get_frame_def)

text \<open>Sizes for which the constructor fails: an odd width writes past the buffer, a width below 8 divides by
  zero, and so does a rate of 0 frames.\<close>

lemma color_bars_odd_width:
  "8 \<le> unat w \<Longrightarrow> odd (unat w) \<Longrightarrow> 0 < unat h \<Longrightarrow> ColorBarSource_new w h fps = None"
proof -
  assume a: "8 \<le> unat w" "odd (unat w)" "0 < unat h"
  have "unat w * unat h * 2 < unat h * (4 * ((unat w + 1) div 2))" using a(2,3) by (auto elim!: oddE)
  then have "unat w * unat h * 2 < length (concat (replicate (unat h) (bar_row (unat w))))"
    by (simp add: length_concat sum_list_replicate)
  then show ?thesis
    by (simp add: ColorBarSource_new_def generate_color_bars_def Let_def split: Option.bind_split)
qed

lemma color_bars_narrow:
  "w \<noteq> 0 \<Longrightarrow> unat w < 8 \<Longrightarrow> h \<noteq> 0 \<Longrightarrow> ColorBarSource_new w h fps = None"
  by (simp add: ColorBarSource_new_def generate_color_bars_def Let_def unat_gt_0 split: Option.bind_split)

end
