(* ===== verification/Uvc.thy ===== *)
theory Uvc
  imports Video Uac
begin

text \<open>
  The USB video function (\<open>UvcVirtualInterfaceHandler\<close>, UVC 1.5): the VideoControl interface with its
  terminals and processing unit, and the VideoStreaming interface with the PROBE and COMMIT negotiation and
  the isochronous transfers that carry the frames of a \<open>VideoSource\<close>. A null transfer and an access
  outside a buffer are the outcome \<open>None\<close>; times are nanoseconds of the steady clock.
\<close>

section \<open>Constants and descriptors\<close>

definition GET_LEN :: u8 where "GET_LEN = 0x85"
definition GET_INFO :: u8 where "GET_INFO = 0x86"
definition SC_VIDEO_INTERFACE_COLLECTION :: u8 where "SC_VIDEO_INTERFACE_COLLECTION = 0x03"
definition VC_DESC_HEADER :: u8 where "VC_DESC_HEADER = 0x01"
definition VC_DESC_INPUT_TERMINAL :: u8 where "VC_DESC_INPUT_TERMINAL = 0x02"
definition VC_DESC_OUTPUT_TERMINAL :: u8 where "VC_DESC_OUTPUT_TERMINAL = 0x03"
definition VC_DESC_PROCESSING_UNIT :: u8 where "VC_DESC_PROCESSING_UNIT = 0x05"
definition VS_DESC_INPUT_HEADER :: u8 where "VS_DESC_INPUT_HEADER = 0x01"
definition VS_DESC_FORMAT_MJPEG :: u8 where "VS_DESC_FORMAT_MJPEG = 0x06"
definition VS_DESC_FRAME_MJPEG :: u8 where "VS_DESC_FRAME_MJPEG = 0x07"
definition VS_DESC_FORMAT_UNCOMPRESSED :: u8 where "VS_DESC_FORMAT_UNCOMPRESSED = 0x04"
definition VS_DESC_FRAME_UNCOMPRESSED :: u8 where "VS_DESC_FRAME_UNCOMPRESSED = 0x05"
definition VS_DESC_FORMAT_FRAME_BASED :: u8 where "VS_DESC_FORMAT_FRAME_BASED = 0x10"
definition VS_DESC_FRAME_FRAME_BASED :: u8 where "VS_DESC_FRAME_FRAME_BASED = 0x11"
definition VS_DESC_FORMAT_H264 :: u8 where "VS_DESC_FORMAT_H264 = 0x13"
definition VS_DESC_FRAME_H264 :: u8 where "VS_DESC_FRAME_H264 = 0x14"
definition VS_DESC_COLORFORMAT :: u8 where "VS_DESC_COLORFORMAT = 0x0D"
definition TT_STREAMING :: u16 where "TT_STREAMING = 0x0101"
definition ITT_CAMERA :: u16 where "ITT_CAMERA = 0x0201"
definition VC_VIDEO_POWER_MODE_CONTROL :: u8 where "VC_VIDEO_POWER_MODE_CONTROL = 0x01"
definition VC_REQUEST_ERROR_CODE_CONTROL :: u8 where "VC_REQUEST_ERROR_CODE_CONTROL = 0x02"
definition ENTITY_VC_INTERFACE :: u8 where "ENTITY_VC_INTERFACE = 0x00"
definition ENTITY_INPUT_TERMINAL :: u8 where "ENTITY_INPUT_TERMINAL = 0x01"
definition ENTITY_PROCESSING_UNIT :: u8 where "ENTITY_PROCESSING_UNIT = 0x02"
definition ENTITY_OUTPUT_TERMINAL :: u8 where "ENTITY_OUTPUT_TERMINAL = 0x03"
definition PU_BRIGHTNESS :: u8 where "PU_BRIGHTNESS = 0x02"
definition PU_CONTRAST :: u8 where "PU_CONTRAST = 0x03"
definition PU_GAIN :: u8 where "PU_GAIN = 0x04"
definition PU_HUE :: u8 where "PU_HUE = 0x06"
definition PU_SATURATION :: u8 where "PU_SATURATION = 0x07"
definition PU_SHARPNESS :: u8 where "PU_SHARPNESS = 0x08"
definition VS_PROBE_CONTROL :: u8 where "VS_PROBE_CONTROL = 0x01"
definition VS_COMMIT_CONTROL :: u8 where "VS_COMMIT_CONTROL = 0x02"
definition VS_STREAM_ERROR_CODE_CONTROL :: u8 where "VS_STREAM_ERROR_CODE_CONTROL = 0x06"
definition UVC_BCD_1_50 :: u16 where "UVC_BCD_1_50 = 0x0150"
definition VIDEO_COLOR_PRIMARIES_BT709 :: u8 where "VIDEO_COLOR_PRIMARIES_BT709 = 0x01"
definition VIDEO_COLOR_XFER_CH_BT709 :: u8 where "VIDEO_COLOR_XFER_CH_BT709 = 0x01"
definition VIDEO_COLOR_COEF_SMPTE170M :: u8 where "VIDEO_COLOR_COEF_SMPTE170M = 0x04"
definition UVC_PAYLOAD_HEADER_SIZE :: nat where "UVC_PAYLOAD_HEADER_SIZE = 2"
definition UVC_PAYLOAD_HEADER_FID :: u8 where "UVC_PAYLOAD_HEADER_FID = 0x01"
definition UVC_PAYLOAD_HEADER_EOF :: u8 where "UVC_PAYLOAD_HEADER_EOF = 0x80"
definition UvcFourCC_MJPEG :: u32 where "UvcFourCC_MJPEG = 0x47504A4D"
definition UvcFourCC_H264 :: u32 where "UvcFourCC_H264 = 0x34363248"

definition VcHeaderDesc_append_to :: "u8 \<Rightarrow> u8 \<Rightarrow> u8 \<Rightarrow> u16 \<Rightarrow> u16 \<Rightarrow> u32 \<Rightarrow> u8 \<Rightarrow> u8 \<Rightarrow> data \<Rightarrow> data" where
  "VcHeaderDesc_append_to bLength bType bSubtype bcdUVC wTotalLength dwClockFrequency bInCollection baInterfaceNr d =
     vector_append_to_le d [F8 bLength, F8 bType, F8 bSubtype, F16 bcdUVC, F16 wTotalLength, F32 dwClockFrequency,
       F8 bInCollection, F8 baInterfaceNr]"

definition VcCameraTerminalDesc_append_to ::
    "u8 \<Rightarrow> u8 \<Rightarrow> u8 \<Rightarrow> u8 \<Rightarrow> u16 \<Rightarrow> u8 \<Rightarrow> u8 \<Rightarrow> u16 \<Rightarrow> u16 \<Rightarrow> u16 \<Rightarrow> u8 \<Rightarrow> data \<Rightarrow> data \<Rightarrow> data" where
  "VcCameraTerminalDesc_append_to bLength bType bSubtype bTerminalID wTerminalType bAssocTerminal iTerminal
       wObjectiveFocalLengthMin wObjectiveFocalLengthMax wOcularFocalLength bControlSize bmControls d =
     vector_append_to_le d [F8 bLength, F8 bType, F8 bSubtype, F8 bTerminalID, F16 wTerminalType, F8 bAssocTerminal,
       F8 iTerminal, F16 wObjectiveFocalLengthMin, F16 wObjectiveFocalLengthMax, F16 wOcularFocalLength,
       F8 bControlSize, FArr bmControls]"

definition VcProcessingUnitDesc_append_to ::
    "u8 \<Rightarrow> u8 \<Rightarrow> u8 \<Rightarrow> u8 \<Rightarrow> u8 \<Rightarrow> u16 \<Rightarrow> u8 \<Rightarrow> data \<Rightarrow> u8 \<Rightarrow> u8 \<Rightarrow> data \<Rightarrow> data" where
  "VcProcessingUnitDesc_append_to bLength bType bSubtype bUnitID bSourceID wMaxMultiplier bControlSize bmControls
       iProcessing bmVideoStandards d =
     vector_append_to_le d [F8 bLength, F8 bType, F8 bSubtype, F8 bUnitID, F8 bSourceID, F16 wMaxMultiplier,
       F8 bControlSize, FArr bmControls, F8 iProcessing, F8 bmVideoStandards]"

definition VcOutputTerminalDesc_append_to ::
    "u8 \<Rightarrow> u8 \<Rightarrow> u8 \<Rightarrow> u8 \<Rightarrow> u16 \<Rightarrow> u8 \<Rightarrow> u8 \<Rightarrow> u8 \<Rightarrow> data \<Rightarrow> data" where
  "VcOutputTerminalDesc_append_to bLength bType bSubtype bTerminalID wTerminalType bAssocTerminal bSourceID iTerminal d =
     vector_append_to_le d [F8 bLength, F8 bType, F8 bSubtype, F8 bTerminalID, F16 wTerminalType, F8 bAssocTerminal,
       F8 bSourceID, F8 iTerminal]"

definition VsInputHeaderDesc_append_to ::
    "u8 \<Rightarrow> u8 \<Rightarrow> u8 \<Rightarrow> u8 \<Rightarrow> u16 \<Rightarrow> u8 \<Rightarrow> u8 \<Rightarrow> u8 \<Rightarrow> u8 \<Rightarrow> u8 \<Rightarrow> u8 \<Rightarrow> u8 \<Rightarrow> u8 \<Rightarrow> data \<Rightarrow> data" where
  "VsInputHeaderDesc_append_to bLength bType bSubtype bNumFormats wTotalLength bEndpointAddress bmInfo bTerminalLink
       bStillCaptureMethod bTriggerSupport bTriggerUsage bControlSize bmaControls d =
     vector_append_to_le d [F8 bLength, F8 bType, F8 bSubtype, F8 bNumFormats, F16 wTotalLength, F8 bEndpointAddress,
       F8 bmInfo, F8 bTerminalLink, F8 bStillCaptureMethod, F8 bTriggerSupport, F8 bTriggerUsage, F8 bControlSize,
       F8 bmaControls]"

definition VsColorMatchingDesc_append_to :: "u8 \<Rightarrow> u8 \<Rightarrow> u8 \<Rightarrow> u8 \<Rightarrow> u8 \<Rightarrow> u8 \<Rightarrow> data \<Rightarrow> data" where
  "VsColorMatchingDesc_append_to bLength bType bSubtype bColorPrimaries bTransferCharacteristics bMatrixCoefficients d =
     vector_append_to_le d [F8 bLength, F8 bType, F8 bSubtype, F8 bColorPrimaries, F8 bTransferCharacteristics,
       F8 bMatrixCoefficients]"

datatype UvcFormatCategory = Uncompressed | Mjpeg | FrameBased | H264

definition uvc_format_category :: "u32 \<Rightarrow> UvcFormatCategory" where
  "uvc_format_category fourcc =
     (if fourcc = UvcFourCC_MJPEG then Mjpeg else if fourcc = UvcFourCC_H264 then H264 else Uncompressed)"

definition UvcGuid_from_fourcc :: "u32 \<Rightarrow> data" where
  "UvcGuid_from_fourcc fourcc =
     le_bytes fourcc @ [0x00, 0x00, 0x10, 0x00, 0x80, 0x00, 0x00, 0xAA, 0x00, 0x38, 0x9B, 0x71]"

section \<open>PROBE and COMMIT data\<close>

record UvcStreamingControl =
  bmHint :: u16
  bFormatIndex :: u8
  bFrameIndex :: u8
  dwFrameInterval :: u32
  wKeyFrameRate :: u16
  wPFrameRate :: u16
  wCompQuality :: u16
  wCompWindowSize :: u16
  wDelay :: u16
  dwMaxVideoFrameSize :: u32
  dwMaxPayloadTransferSize :: u32
  dwClockFrequency :: u32
  bmFramingInfo :: u8
  bPreferredVersion :: u8
  bMinVersion :: u8
  bMaxVersion :: u8
  bUsage :: u8
  bBitDepthLuma :: u8
  bmSettings :: u8
  bMaxNumberOfRefFramesPlus1 :: u8
  bmRateControlModes :: u16
  bmLayoutPerStream :: u64

definition UvcStreamingControl_default :: UvcStreamingControl where
  "UvcStreamingControl_default =
     \<lparr>bmHint = 0, bFormatIndex = 1, bFrameIndex = 1, dwFrameInterval = 333333, wKeyFrameRate = 0, wPFrameRate = 0,
      wCompQuality = 0, wCompWindowSize = 0, wDelay = 0, dwMaxVideoFrameSize = 0, dwMaxPayloadTransferSize = 0,
      dwClockFrequency = 27000000, bmFramingInfo = 0x03, bPreferredVersion = 1, bMinVersion = 1, bMaxVersion = 1,
      bUsage = 0, bBitDepthLuma = 0, bmSettings = 0, bMaxNumberOfRefFramesPlus1 = 0, bmRateControlModes = 0,
      bmLayoutPerStream = 0\<rparr>"

definition UvcStreamingControl_SIZE :: nat where "UvcStreamingControl_SIZE = 48"

definition UvcStreamingControl_serialize :: "UvcStreamingControl \<Rightarrow> data" where
  "UvcStreamingControl_serialize c =
     le_bytes (bmHint c) @ [bFormatIndex c, bFrameIndex c] @ le_bytes (dwFrameInterval c) @
     le_bytes (wKeyFrameRate c) @ le_bytes (wPFrameRate c) @ le_bytes (wCompQuality c) @
     le_bytes (wCompWindowSize c) @ le_bytes (wDelay c) @ le_bytes (dwMaxVideoFrameSize c) @
     le_bytes (dwMaxPayloadTransferSize c) @ le_bytes (dwClockFrequency c) @
     [bmFramingInfo c, bPreferredVersion c, bMinVersion c, bMaxVersion c, bUsage c, bBitDepthLuma c, bmSettings c,
      bMaxNumberOfRefFramesPlus1 c] @ le_bytes (bmRateControlModes c) @ le_bytes (bmLayoutPerStream c)"

text \<open>\<open>n\<close> bytes of \<open>d\<close> at \<open>i\<close> as a little-endian number.\<close>

definition le_at :: "nat \<Rightarrow> nat \<Rightarrow> data \<Rightarrow> 'a::len word" where
  "le_at i n d = word_of_le (take n (drop i d))"

definition UvcStreamingControl_deserialize :: "data \<Rightarrow> UvcStreamingControl \<Rightarrow> UvcStreamingControl" where
  "UvcStreamingControl_deserialize d c =
     (if length d < 26 then c
      else
        (let c1 = c\<lparr>bmHint := le_at 0 2 d, bFormatIndex := d ! 2, bFrameIndex := d ! 3, dwFrameInterval := le_at 4 4 d,
                wKeyFrameRate := le_at 8 2 d, wPFrameRate := le_at 10 2 d, wCompQuality := le_at 12 2 d,
                wCompWindowSize := le_at 14 2 d, wDelay := le_at 16 2 d, dwMaxVideoFrameSize := le_at 18 4 d,
                dwMaxPayloadTransferSize := le_at 22 4 d\<rparr>;
             c2 = (if 34 \<le> length d
                   then c1\<lparr>dwClockFrequency := le_at 26 4 d, bmFramingInfo := d ! 30, bPreferredVersion := d ! 31,
                           bMinVersion := d ! 32, bMaxVersion := d ! 33\<rparr>
                   else c1)
         in if 48 \<le> length d
            then c2\<lparr>bUsage := d ! 34, bBitDepthLuma := d ! 35, bmSettings := d ! 36,
                    bMaxNumberOfRefFramesPlus1 := d ! 37, bmRateControlModes := le_at 38 2 d,
                    bmLayoutPerStream := le_at 40 8 d\<rparr>
            else c2))"

section \<open>The VideoControl interface\<close>

text \<open>\<open>vc_vs_interface\<close> is the number of the streaming interface the handler is linked to.\<close>

record UvcVideoControlHandler =
  vc_class_desc :: data
  vc_desc_built :: bool
  vc_power_on :: bool
  vc_vs_interface :: "u8 option"
  vc_status_channel :: "GenericTransfer MessageInChannel"

definition UvcVideoControlHandler_new :: UvcVideoControlHandler where
  "UvcVideoControlHandler_new =
     \<lparr>vc_class_desc = [], vc_desc_built = False, vc_power_on = True, vc_vs_interface = None,
      vc_status_channel = in_channel_new \<lparr>mb_pending = [], mb_max = 0\<rparr>\<rparr>"

definition vc_class_descriptor :: "u8 \<Rightarrow> data" where
  "vc_class_descriptor vs_if_num =
     (let d1 = VcHeaderDesc_append_to 13 CS_INTERFACE VC_DESC_HEADER UVC_BCD_1_50 0x00 0x019BFCC0 0x01 vs_if_num [];
          d2 = VcCameraTerminalDesc_append_to 18 CS_INTERFACE VC_DESC_INPUT_TERMINAL 0x01 ITT_CAMERA 0x00 0x00 0x00 0x00
                 0x00 0x03 [0x00, 0x00, 0x00] d1;
          d3 = VcProcessingUnitDesc_append_to 13 CS_INTERFACE VC_DESC_PROCESSING_UNIT 0x02 0x01 0x00 0x03
                 [0x1F, 0x02, 0x00] 0x00 0x00 d2;
          d4 = VcOutputTerminalDesc_append_to 9 CS_INTERFACE VC_DESC_OUTPUT_TERMINAL 0x03 TT_STREAMING 0x00 0x02 0x00 d3;
          n = length d4
      in d4[5 := of_nat (n mod 256), 6 := of_nat (n div 256 mod 256)])"

definition vc_build_class_descriptor :: "UvcVideoControlHandler \<Rightarrow> UvcVideoControlHandler" where
  "vc_build_class_descriptor h =
     (if vc_desc_built h then h
      else h\<lparr>vc_desc_built := True,
             vc_class_desc := vc_class_descriptor (case vc_vs_interface h of Some n \<Rightarrow> n | None \<Rightarrow> 1)\<rparr>)"

text \<open>The controls of the interface itself: the power mode and the error code. The flag of the result says
  that the linked streaming handler is told to stop.\<close>

definition vc_interface_control ::
    "u8 \<Rightarrow> u16 \<Rightarrow> u32 \<Rightarrow> GenericTransfer TransferHandle \<Rightarrow> GenericTransfer \<Rightarrow> UvcVideoControlHandler \<Rightarrow>
     GenericTransfer UsbIpRetSubmit \<times> bool \<times> UvcVideoControlHandler" where
  "vc_interface_control request control_selector seqnum th trx h =
     (if control_selector = ucast VC_VIDEO_POWER_MODE_CONTROL
      then (if request = GET_CUR
            then (class_data_reply seqnum [if vc_power_on h then 1 else 0] th trx, False, h)
            else if request = GET_INFO then (class_data_reply seqnum [0x03] th trx, False, h)
            else if request = SET_CUR
            then (class_empty_reply seqnum th trx,
                  gt_data trx \<noteq> [] \<and> hd (gt_data trx) = 0 \<and> vc_vs_interface h \<noteq> None,
                  if gt_data trx = [] then h else h\<lparr>vc_power_on := (hd (gt_data trx) \<noteq> 0)\<rparr>)
            else (class_stall seqnum, False, h))
      else if control_selector = ucast VC_REQUEST_ERROR_CODE_CONTROL
      then (if request = GET_CUR then (class_data_reply seqnum [0x00] th trx, False, h)
            else if request = GET_INFO then (class_data_reply seqnum [0x01] th trx, False, h)
            else (class_stall seqnum, False, h))
      else (class_stall seqnum, False, h))"

record PuControl =
  pu_selector :: u8
  pu_cur :: u16
  pu_min :: u16
  pu_max :: u16
  pu_def :: u16
  pu_step :: u16

definition pu_controls :: "PuControl list" where
  "pu_controls =
     [\<lparr>pu_selector = PU_BRIGHTNESS, pu_cur = 128, pu_min = 0, pu_max = 255, pu_def = 128, pu_step = 1\<rparr>,
      \<lparr>pu_selector = PU_CONTRAST, pu_cur = 128, pu_min = 0, pu_max = 255, pu_def = 128, pu_step = 1\<rparr>,
      \<lparr>pu_selector = PU_HUE, pu_cur = 0, pu_min = - 180, pu_max = 180, pu_def = 0, pu_step = 1\<rparr>,
      \<lparr>pu_selector = PU_SATURATION, pu_cur = 128, pu_min = 0, pu_max = 255, pu_def = 128, pu_step = 1\<rparr>,
      \<lparr>pu_selector = PU_SHARPNESS, pu_cur = 2, pu_min = 0, pu_max = 15, pu_def = 2, pu_step = 1\<rparr>,
      \<lparr>pu_selector = PU_GAIN, pu_cur = 64, pu_min = 0, pu_max = 255, pu_def = 64, pu_step = 1\<rparr>]"

definition processing_unit_control ::
    "u8 \<Rightarrow> u16 \<Rightarrow> u32 \<Rightarrow> GenericTransfer TransferHandle \<Rightarrow> GenericTransfer \<Rightarrow> GenericTransfer UsbIpRetSubmit" where
  "processing_unit_control request control_selector seqnum th trx =
     (let ctrl = find (\<lambda>c. ucast (pu_selector c) = control_selector) pu_controls;
          respond_16 = (\<lambda>f dflt. class_data_reply seqnum (i16_bytes (case ctrl of Some c \<Rightarrow> f c | None \<Rightarrow> dflt)) th trx)
      in if request = GET_CUR then respond_16 pu_cur 0
         else if request = GET_MIN then respond_16 pu_min 0
         else if request = GET_MAX then respond_16 pu_max 0
         else if request = GET_DEF then respond_16 pu_def 0
         else if request = GET_RES then respond_16 pu_step 1
         else if request = GET_LEN then class_data_reply seqnum [0x02, 0x00] th trx
         else if request = GET_INFO
         then class_data_reply seqnum [if ctrl \<noteq> None then 0x03 else 0x00] th trx
         else if request = SET_CUR then class_empty_reply seqnum th trx
         else class_stall seqnum)"

definition vc_control ::
    "u32 \<Rightarrow> u32 \<Rightarrow> SetupPacket \<Rightarrow> GenericTransfer TransferHandle \<Rightarrow> UvcVideoControlHandler \<Rightarrow>
     (GenericTransfer UsbIpRetSubmit \<times> bool \<times> UvcVideoControlHandler) option" where
  "vc_control seqnum len sp th h =
     (if calc_request_type sp \<noteq> RequestType_Class then Some (class_stall seqnum, False, h)
      else (case th_handle th of
              None \<Rightarrow> None
            | Some trx \<Rightarrow>
                Some (let entity = drop_bit 8 (sp_index sp); control_selector = drop_bit 8 (sp_value sp)
                      in if sp_request sp = standard_request_code GetDescriptor
                         then (class_descriptor_reply seqnum len sp (vc_class_desc h) th trx, False, h)
                         else if entity = ucast ENTITY_VC_INTERFACE
                         then vc_interface_control (sp_request sp) control_selector seqnum th trx h
                         else if entity = ucast ENTITY_INPUT_TERMINAL \<or> entity = ucast ENTITY_OUTPUT_TERMINAL
                         then (class_empty_reply seqnum th trx, False, h)
                         else if entity \<noteq> ucast ENTITY_PROCESSING_UNIT then (class_stall seqnum, False, h)
                         else (processing_unit_control (sp_request sp) control_selector seqnum th trx, False, h))))"

definition vc_interrupt ::
    "UsbEndpoint \<Rightarrow> u32 \<Rightarrow> u32 \<Rightarrow> GenericTransfer TransferHandle \<Rightarrow> UvcVideoControlHandler \<Rightarrow>
     GenericTransfer UsbIpRetSubmit list \<times> UvcVideoControlHandler" where
  "vc_interrupt ep seqnum len th h =
     (if ep_is_in ep
      then ([], h\<lparr>vc_status_channel :=
                  ic_on_in_request message_ops (ep_address ep) seqnum len th (vc_status_channel h)\<rparr>)
      else ([class_stall seqnum], h))"

definition send_vc_status :: "data \<Rightarrow> UvcVideoControlHandler \<Rightarrow> UvcVideoControlHandler" where
  "send_vc_status status h = h\<lparr>vc_status_channel := snd (msg_push status True (vc_status_channel h))\<rparr>"

definition vc_on_new_connection :: "nat \<Rightarrow> UvcVideoControlHandler \<Rightarrow> UvcVideoControlHandler" where
  "vc_on_new_connection session h =
     h\<lparr>vc_status_channel := ic_on_new_connection message_ops (Some session) (vc_status_channel h)\<rparr>"

definition vc_on_disconnection :: "UvcVideoControlHandler \<Rightarrow> UvcVideoControlHandler" where
  "vc_on_disconnection h = h\<lparr>vc_status_channel := ic_on_disconnection message_ops (vc_status_channel h)\<rparr>"

definition vc_handle_unlink_seqnum ::
    "u32 \<Rightarrow> u32 \<Rightarrow> UvcVideoControlHandler \<Rightarrow> UsbIpRetUnlink list \<times> UvcVideoControlHandler" where
  "vc_handle_unlink_seqnum unlink_seqnum cmd_seqnum h =
     (case ic_cancel_pending unlink_seqnum (vc_status_channel h) of
        (cancelled, ch) \<Rightarrow> ([unlink_reply cmd_seqnum cancelled], h\<lparr>vc_status_channel := ch\<rparr>))"

definition vc_request_get_descriptor :: "u8 \<Rightarrow> UvcVideoControlHandler \<Rightarrow> data \<times> u32" where
  "vc_request_get_descriptor type h = class_get_descriptor type (vc_class_desc h)"

section \<open>The VideoStreaming interface\<close>

record 's UvcVideoStreamingHandler =
  vs_source :: 's
  vs_class_desc :: data
  vs_probe_data :: UvcStreamingControl
  vs_committed :: bool
  vs_streaming :: bool
  vs_frame_buffer :: data
  vs_frame_offset :: nat
  vs_current_fid :: bool
  vs_frame_started_at :: int
  vs_frame_interval :: nat

definition UvcVideoStreamingHandler_new ::
    "('s, 'z) VideoSource_scheme \<Rightarrow> 's \<Rightarrow> 's UvcVideoStreamingHandler" where
  "UvcVideoStreamingHandler_new ops source =
     \<lparr>vs_source = source, vs_class_desc = [],
      vs_probe_data = UvcStreamingControl_default\<lparr>dwMaxVideoFrameSize := of_nat (vo_max_frame_size ops source),
        dwMaxPayloadTransferSize := 512, dwFrameInterval := vo_frame_interval ops source\<rparr>,
      vs_committed = False, vs_streaming = False, vs_frame_buffer = [], vs_frame_offset = 0, vs_current_fid = False,
      vs_frame_started_at = 0, vs_frame_interval = unat (vo_frame_interval ops source) div 10\<rparr>"

definition streaming_endpoint :: "UsbInterface \<Rightarrow> u8" where
  "streaming_endpoint intf =
     (if 1 < length (endpoints intf) \<and> endpoints intf ! 1 \<noteq> [] then ep_address (hd (endpoints intf ! 1))
      else if endpoints intf \<noteq> [] \<and> hd (endpoints intf) \<noteq> [] then ep_address (hd (hd (endpoints intf)))
      else 0x81)"

definition vs_format_descriptor :: "VideoFormatInfo \<Rightarrow> data" where
  "vs_format_descriptor fmt =
     (let guid = UvcGuid_from_fourcc (vf_fourcc fmt); bpp = vf_bits_per_pixel fmt
      in case uvc_format_category (vf_fourcc fmt) of
           Uncompressed \<Rightarrow>
             (memcpy_at 5 guid ((replicate 27 0)[0 := 27, 1 := 0x24, 2 := VS_DESC_FORMAT_UNCOMPRESSED, 3 := 0x01, 4 := 0x01]))
               [21 := bpp, 22 := 0x01, 23 := 0x00, 24 := 0x00]
         | Mjpeg \<Rightarrow>
             (replicate 11 0)[0 := 11, 1 := 0x24, 2 := VS_DESC_FORMAT_MJPEG, 3 := 0x01, 4 := 0x01, 5 := 0x01, 6 := 0x01]
         | FrameBased \<Rightarrow>
             (memcpy_at 5 guid ((replicate 28 0)[0 := 28, 1 := 0x24, 2 := VS_DESC_FORMAT_FRAME_BASED, 3 := 0x01, 4 := 0x01]))
               [21 := bpp, 22 := 0x01, 23 := 0x00, 24 := 0x00, 27 := 0x01]
         | H264 \<Rightarrow>
             (memcpy_at 21 guid ((replicate 52 0)[0 := 52, 1 := 0x24, 2 := VS_DESC_FORMAT_H264, 3 := 0x01, 4 := 0x01, 5 := 0x01]))
               [37 := bpp, 38 := 0x01, 39 := 0x01])"

definition vs_frame_subtype :: "UvcFormatCategory \<Rightarrow> u8" where
  "vs_frame_subtype cat =
     (case cat of
        Uncompressed \<Rightarrow> VS_DESC_FRAME_UNCOMPRESSED | Mjpeg \<Rightarrow> VS_DESC_FRAME_MJPEG
      | FrameBased \<Rightarrow> VS_DESC_FRAME_FRAME_BASED | H264 \<Rightarrow> VS_DESC_FRAME_H264)"

text \<open>The frame descriptor: \<open>None\<close> when the frame interval is 0, by which the code divides.\<close>

definition vs_frame_descriptor :: "VideoFormatInfo \<Rightarrow> data option" where
  "vs_frame_descriptor fmt =
     (if vf_default_frame_interval fmt = 0 then None
      else Some
        (let cat = uvc_format_category (vf_fourcc fmt);
             fps_val = 10000000 div unat (vf_default_frame_interval fmt);
             bit_rate = vf_max_frame_size fmt * 8 * of_nat fps_val;
             frame_base = (if cat = H264 then 44 else 26);
             frame = (replicate (frame_base + 12) 0)[0 := of_nat (frame_base + 12), 1 := 0x24, 2 := vs_frame_subtype cat,
                       3 := 0x01, 4 := 0x00];
             frame1 = memcpy_at 5 (le_bytes (vf_width fmt)) frame;
             frame2 = memcpy_at 7 (le_bytes (vf_height fmt)) frame1;
             frame3 = memcpy_at 13 (le_bytes bit_rate) (memcpy_at 9 (le_bytes bit_rate) frame2);
             frame4 = memcpy_at 17 (le_bytes (vf_max_frame_size fmt)) frame3;
             frame5 = (memcpy_at 21 (le_bytes (vf_default_frame_interval fmt)) frame4)[25 := 0x00];
             frame6 = memcpy_at frame_base (le_bytes (vf_min_frame_interval fmt)) frame5;
             frame7 = memcpy_at (frame_base + 4) (le_bytes (vf_max_frame_interval fmt)) frame6
         in memcpy_at (frame_base + 8) (le_bytes (vf_min_frame_interval fmt)) frame7))"

definition vs_color_descriptor :: "UvcFormatCategory \<Rightarrow> data" where
  "vs_color_descriptor cat =
     (if cat = Uncompressed \<or> cat = Mjpeg
      then VsColorMatchingDesc_append_to 6 CS_INTERFACE VS_DESC_COLORFORMAT VIDEO_COLOR_PRIMARIES_BT709
             VIDEO_COLOR_XFER_CH_BT709 VIDEO_COLOR_COEF_SMPTE170M []
      else [])"

definition vs_class_descriptor :: "VideoFormatInfo \<Rightarrow> u8 \<Rightarrow> data option" where
  "vs_class_descriptor fmt ep_addr =
     map_option (\<lambda>frame.
       let header = VsInputHeaderDesc_append_to 14 CS_INTERFACE VS_DESC_INPUT_HEADER 0x01 0x00 ep_addr 0x00 0x03 0x00 0x00
                      0x00 1 0x00 [];
           d = header @ vs_format_descriptor fmt @ frame @ vs_color_descriptor (uvc_format_category (vf_fourcc fmt));
           n = length d
       in d[4 := of_nat (n mod 256), 5 := of_nat (n div 256 mod 256)])
       (vs_frame_descriptor fmt)"

definition vs_build_class_descriptor ::
    "('s, 'z) VideoSource_scheme \<Rightarrow> UsbInterface \<Rightarrow> 's UvcVideoStreamingHandler \<Rightarrow> 's UvcVideoStreamingHandler option" where
  "vs_build_class_descriptor ops intf m =
     map_option (\<lambda>d. m\<lparr>vs_class_desc := d\<rparr>)
       (vs_class_descriptor (vo_current_format ops (vs_source m)) (streaming_endpoint intf))"

subsection \<open>Negotiation\<close>

definition set_device_fields :: "UvcStreamingControl \<Rightarrow> UvcStreamingControl" where
  "set_device_fields c =
     c\<lparr>bmFramingInfo := 0x03, bPreferredVersion := 1, bMinVersion := 1, bMaxVersion := 1, dwClockFrequency := 27000000\<rparr>"

definition clear_encoding_fields :: "UvcStreamingControl \<Rightarrow> UvcStreamingControl" where
  "clear_encoding_fields c =
     c\<lparr>bUsage := 0, bBitDepthLuma := 0, bmSettings := 0, bMaxNumberOfRefFramesPlus1 := 0, bmRateControlModes := 0,
       bmLayoutPerStream := 0\<rparr>"

definition vs_get_control :: "('s, 'z) VideoSource_scheme \<Rightarrow> u8 \<Rightarrow> 's UvcVideoStreamingHandler \<Rightarrow> UvcStreamingControl" where
  "vs_get_control ops request m =
     (let fmt = vo_current_format ops (vs_source m);
          max_frame_size = of_nat (vo_max_frame_size ops (vs_source m));
          ctrl = (set_device_fields (vs_probe_data m))
            \<lparr>wKeyFrameRate := 0, wPFrameRate := 0, wCompQuality := 0, wCompWindowSize := 0, wDelay := 0\<rparr>
      in if request = GET_MIN
         then ctrl\<lparr>dwMaxVideoFrameSize := 1, dwMaxPayloadTransferSize := 1, dwFrameInterval := vf_max_frame_interval fmt\<rparr>
         else if request = GET_MAX
         then ctrl\<lparr>dwMaxVideoFrameSize := max_frame_size, dwMaxPayloadTransferSize := max_frame_size,
                   dwFrameInterval := vf_min_frame_interval fmt\<rparr>
         else if request = GET_DEF
         then ctrl\<lparr>bFormatIndex := 1, bFrameIndex := 1, dwFrameInterval := vf_default_frame_interval fmt,
                   dwMaxVideoFrameSize := max_frame_size, dwMaxPayloadTransferSize := 512\<rparr>
         else ctrl\<lparr>dwMaxVideoFrameSize := (if dwMaxVideoFrameSize ctrl = 0 then max_frame_size else dwMaxVideoFrameSize ctrl),
                   dwFrameInterval := (if dwFrameInterval ctrl = 0 then vf_default_frame_interval fmt
                     else dwFrameInterval ctrl)\<rparr>)"

text \<open>\<open>SET_CUR\<close> of PROBE and COMMIT store the data of the host.\<close>

definition vs_store_control ::
    "('s, 'z) VideoSource_scheme \<Rightarrow> data \<Rightarrow> 's UvcVideoStreamingHandler \<Rightarrow> 's UvcVideoStreamingHandler" where
  "vs_store_control ops d m =
     (if 26 \<le> length d
      then (let c = set_device_fields (UvcStreamingControl_deserialize d (vs_probe_data m))
            in m\<lparr>vs_probe_data :=
                  (if uvc_format_category (vf_fourcc (vo_current_format ops (vs_source m))) \<noteq> H264
                   then clear_encoding_fields c else c)\<rparr>)
      else m)"

definition vector_resize :: "nat \<Rightarrow> data \<Rightarrow> data" where
  "vector_resize n d = take n d @ replicate (n - length d) 0"

definition vs_commit :: "('s, 'z) VideoSource_scheme \<Rightarrow> 's UvcVideoStreamingHandler \<Rightarrow> 's UvcVideoStreamingHandler option" where
  "vs_commit ops m =
     (let fmt = vo_current_format ops (vs_source m)
      in map_option (\<lambda>(_, s).
           m\<lparr>vs_source := s, vs_committed := True,
             vs_frame_buffer := vector_resize (vo_max_frame_size ops s) (vs_frame_buffer m), vs_frame_offset := 0,
             vs_current_fid := False, vs_frame_started_at := 0, vs_frame_interval := unat (vo_frame_interval ops s) div 10\<rparr>)
           (vo_set_format ops (vf_fourcc fmt) (vf_width fmt) (vf_height fmt) (dwFrameInterval (vs_probe_data m))
              (vs_source m)))"

definition vs_control ::
    "('s, 'z) VideoSource_scheme \<Rightarrow> u32 \<Rightarrow> u32 \<Rightarrow> SetupPacket \<Rightarrow> GenericTransfer TransferHandle \<Rightarrow>
     's UvcVideoStreamingHandler \<Rightarrow> (GenericTransfer UsbIpRetSubmit \<times> 's UvcVideoStreamingHandler) option" where
  "vs_control ops seqnum len sp th m =
     (let ctrl_code = drop_bit 8 (sp_value sp); request = sp_request sp
      in if calc_request_type sp \<noteq> RequestType_Class then Some (class_stall seqnum, m)
         else (case th_handle th of
             None \<Rightarrow> None
           | Some trx \<Rightarrow>
               if request = standard_request_code GetDescriptor
               then Some (class_descriptor_reply seqnum len sp (vs_class_desc m) th trx, m)
               else if ctrl_code \<noteq> ucast VS_PROBE_CONTROL \<and> ctrl_code \<noteq> ucast VS_COMMIT_CONTROL \<and>
                 ctrl_code \<noteq> ucast VS_STREAM_ERROR_CODE_CONTROL
               then Some (class_stall seqnum, m)
               else if ctrl_code = ucast VS_STREAM_ERROR_CODE_CONTROL
               then Some (if request = GET_CUR then class_data_reply seqnum [0x00] th trx
                          else if request = GET_INFO then class_data_reply seqnum [0x01] th trx
                          else class_stall seqnum, m)
               else if request = GET_CUR \<or> request = GET_MIN \<or> request = GET_MAX \<or> request = GET_DEF
               then Some (class_data_reply seqnum
                      (take (unat len) (UvcStreamingControl_serialize (vs_get_control ops request m))) th trx, m)
               else if request = GET_LEN
               then Some (class_data_reply seqnum (le_bytes (of_nat UvcStreamingControl_SIZE :: u16)) th trx, m)
               else if request = GET_INFO then Some (class_data_reply seqnum [0x03] th trx, m)
               else if request = SET_CUR
               then map_option (\<lambda>m'. (create_ret_submit_with_status_and_no_data seqnum (urb_status_code StatusOK) len, m'))
                      (let m1 = vs_store_control ops (gt_data trx) m
                       in if ctrl_code = ucast VS_COMMIT_CONTROL then vs_commit ops m1 else Some m1)
               else Some (class_stall seqnum, m)))"

subsection \<open>Frames\<close>

text \<open>The packet loop: a packet that holds a payload header gets the header and the next piece of the frame. The
  number of packets is that of the request; a missing descriptor is an access outside the array.\<close>

definition payload_header :: "bool \<Rightarrow> bool \<Rightarrow> data" where
  "payload_header fid eof =
     [of_nat UVC_PAYLOAD_HEADER_SIZE,
      (if fid then UVC_PAYLOAD_HEADER_FID else 0) OR (if eof then UVC_PAYLOAD_HEADER_EOF else 0)]"

primrec video_packets ::
    "nat \<Rightarrow> UsbIpIsoPacketDescriptor list \<Rightarrow> bool \<Rightarrow> data \<Rightarrow> data \<Rightarrow> nat \<Rightarrow> u32 \<Rightarrow>
     (UsbIpIsoPacketDescriptor list \<times> data \<times> nat \<times> u32) option" where
  "video_packets 0 pkts fid frame d off sent = Some (pkts, d, off, sent)"
| "video_packets (Suc n) pkts fid frame d off sent =
     (if length frame \<le> off then Some (pkts, d, off, sent)
      else (case pkts of
          [] \<Rightarrow> None
        | pkt # ps \<Rightarrow>
            if unat (iso_length pkt) < UVC_PAYLOAD_HEADER_SIZE
            then map_option (\<lambda>(ps', r). (pkt\<lparr>iso_actual_length := 0\<rparr> # ps', r))
                   (video_packets n ps fid frame d off sent)
            else
              (let chunk = min (unat (iso_length pkt) - UVC_PAYLOAD_HEADER_SIZE) (length frame - off);
                   eof = (length frame \<le> off + chunk);
                   payload = payload_header fid eof @ take chunk (drop off frame);
                   i = unat (iso_offset pkt)
               in if length d < i + length payload then None
                  else map_option
                    (\<lambda>(ps', r). (pkt\<lparr>iso_actual_length := of_nat (UVC_PAYLOAD_HEADER_SIZE + chunk)\<rparr> # ps', r))
                    (video_packets n ps fid frame (memcpy_at i payload d) (off + chunk)
                       (sent + of_nat (UVC_PAYLOAD_HEADER_SIZE + chunk))))))"

definition iso_reply ::
    "u32 \<Rightarrow> u32 \<Rightarrow> UsbIpIsoPacketDescriptor list \<Rightarrow> data \<Rightarrow> GenericTransfer TransferHandle \<Rightarrow> GenericTransfer \<Rightarrow>
     GenericTransfer UsbIpRetSubmit" where
  "iso_reply seqnum sent pkts d th trx =
     create_ret_submit seqnum (urb_status_code StatusOK) sent 0 (of_nat (length pkts))
       (th\<lparr>th_handle := Some (trx\<lparr>gt_data := d, gt_iso_descriptors := pkts\<rparr>)\<rparr>)"

text \<open>The frame clock: the next frame is not due yet.\<close>

definition frame_pending :: "int \<Rightarrow> 's UvcVideoStreamingHandler \<Rightarrow> bool" where
  "frame_pending now m \<longleftrightarrow>
     0 < vs_frame_interval m \<and> vs_frame_offset m = 0 \<and> now < vs_frame_started_at m + int (vs_frame_interval m) * 1000"

definition vs_next_frame ::
    "('s, 'z) VideoSource_scheme \<Rightarrow> int \<Rightarrow> 's UvcVideoStreamingHandler \<Rightarrow> bool \<times> 's UvcVideoStreamingHandler" where
  "vs_next_frame ops now m =
     (if vs_frame_offset m \<noteq> 0 then (True, m)
      else (case vo_get_frame ops (vs_source m) of
              (None, s) \<Rightarrow> (False, m\<lparr>vs_source := s\<rparr>)
            | (Some d, s) \<Rightarrow>
                (True, m\<lparr>vs_source := s, vs_frame_buffer := d, vs_current_fid := \<not> vs_current_fid m,
                         vs_frame_started_at := now\<rparr>)))"

definition vs_isochronous ::
    "('s, 'z) VideoSource_scheme \<Rightarrow> int \<Rightarrow> u32 \<Rightarrow> int \<Rightarrow> GenericTransfer TransferHandle \<Rightarrow>
     's UvcVideoStreamingHandler \<Rightarrow> (GenericTransfer UsbIpRetSubmit \<times> 's UvcVideoStreamingHandler) option" where
  "vs_isochronous ops now seqnum num_iso_packets th m =
     (if \<not> vs_streaming m \<or> \<not> vs_committed m then Some (class_stall seqnum, m)
      else (case th_handle th of
          None \<Rightarrow> None
        | Some trx \<Rightarrow>
            (let pkts = clear_status (gt_iso_descriptors trx)
             in if frame_pending now m then Some (iso_reply seqnum 0 pkts (gt_data trx) th trx, m)
                else (case vs_next_frame ops now m of
                    (False, m1) \<Rightarrow> Some (class_stall seqnum, m1)
                  | (True, m1) \<Rightarrow>
                      map_option (\<lambda>(pkts', d, off, sent).
                          (iso_reply seqnum sent pkts' d th trx,
                           m1\<lparr>vs_frame_offset := (if length (vs_frame_buffer m1) \<le> off then 0 else off)\<rparr>))
                        (video_packets (nat num_iso_packets) pkts (vs_current_fid m1) (vs_frame_buffer m1)
                           (gt_data trx) (vs_frame_offset m1) 0)))))"

subsection \<open>Life cycle\<close>

definition notify_stop_streaming :: "'s UvcVideoStreamingHandler \<Rightarrow> 's UvcVideoStreamingHandler" where
  "notify_stop_streaming m = m\<lparr>vs_streaming := False\<rparr>"

definition vs_on_new_connection :: "'s UvcVideoStreamingHandler \<Rightarrow> 's UvcVideoStreamingHandler" where
  "vs_on_new_connection m =
     m\<lparr>vs_committed := False, vs_streaming := False, vs_frame_offset := 0, vs_current_fid := False,
       vs_frame_started_at := 0\<rparr>"

definition vs_on_disconnection :: "'s UvcVideoStreamingHandler \<Rightarrow> 's UvcVideoStreamingHandler" where
  "vs_on_disconnection m = m\<lparr>vs_streaming := False, vs_committed := False, vs_frame_started_at := 0\<rparr>"

definition vs_set_interface :: "u16 \<Rightarrow> 's UvcVideoStreamingHandler \<Rightarrow> u32 \<times> 's UvcVideoStreamingHandler" where
  "vs_set_interface alternate_setting m =
     (if alternate_setting = 0 then (0, m\<lparr>vs_streaming := False\<rparr>)
      else if alternate_setting = 1
      then (0, if vs_committed m then m\<lparr>vs_streaming := True, vs_frame_offset := 0, vs_current_fid := False\<rparr> else m)
      else (urb_status_code StatusEPIPE, m))"

definition vs_get_interface :: "'s UvcVideoStreamingHandler \<Rightarrow> u8" where
  "vs_get_interface m = (if vs_streaming m then 1 else 0)"

definition vs_request_get_descriptor :: "u8 \<Rightarrow> 's UvcVideoStreamingHandler \<Rightarrow> data \<times> u32" where
  "vs_request_get_descriptor type m = class_get_descriptor type (vs_class_desc m)"

text \<open>A request to the control interface with its effect on the streaming interface.\<close>

definition uvc_control ::
    "u32 \<Rightarrow> u32 \<Rightarrow> SetupPacket \<Rightarrow> GenericTransfer TransferHandle \<Rightarrow> UvcVideoControlHandler \<Rightarrow>
     's UvcVideoStreamingHandler \<Rightarrow>
     (GenericTransfer UsbIpRetSubmit \<times> UvcVideoControlHandler \<times> 's UvcVideoStreamingHandler) option" where
  "uvc_control seqnum len sp th vc vs =
     map_option (\<lambda>(r, stop, vc'). (r, vc', if stop then notify_stop_streaming vs else vs)) (vc_control seqnum len sp th vc)"

section \<open>Assembly\<close>

text \<open>\<open>UvcDeviceHelper::setup\<close>: as for audio, with the handlers linked to each other and the streaming
  interface using the string of the control interface.\<close>

definition uvc_setup ::
    "('s, 'z) VideoSource_scheme \<Rightarrow> nat \<Rightarrow> nat \<Rightarrow> u8 \<Rightarrow> u8 \<Rightarrow> 's \<Rightarrow> UsbDevice \<Rightarrow>
     (ErrorType + (UsbDevice \<times> UvcVideoControlHandler \<times> 's UvcVideoStreamingHandler)) option" where
  "uvc_setup ops vc_id vs_id iInterface first source dev =
     (case find_interfaces_by_number 2 first dev of
        [Some vc, Some vs_i] \<Rightarrow>
          map_option (\<lambda>vs. Inr (bind_interfaces (IadDesc_make 2 CC_VIDEO SC_VIDEO_INTERFACE_COLLECTION 0 iInterface) vc vs_i
                vc_id vs_id dev,
              vc_build_class_descriptor (UvcVideoControlHandler_new
                \<lparr>vc_vs_interface := Some (interface_number (ud_interfaces dev ! vs_i))\<rparr>), vs))
            (vs_build_class_descriptor ops (ud_interfaces dev ! vs_i) (UvcVideoStreamingHandler_new ops source))
      | _ \<Rightarrow> Some (Inl INVALID_ARG))"

end
