(* ===== verification/Uvc_Props.thy ===== *)
theory Uvc_Props
  imports Uvc Uac_Props
begin

text \<open>
  Properties of the video function: the negotiation data survives its encoding, the class descriptors
  are well-formed, and a host that puts the payloads together by frame identifier and end-of-frame bit
  gets exactly the frames of the source, no faster than the negotiated interval.
\<close>

section \<open>Negotiation\<close>

lemma length_serialize [simp]: "length (UvcStreamingControl_serialize c) = UvcStreamingControl_SIZE"
  by (simp add: UvcStreamingControl_serialize_def UvcStreamingControl_SIZE_def)

text \<open>The 48 bytes of the structure decode to it, whatever was stored before.\<close>

lemma streaming_control_roundtrip: "UvcStreamingControl_deserialize (UvcStreamingControl_serialize c) c0 = c"
  by (rule UvcStreamingControl.equality)
     (simp_all add: UvcStreamingControl_deserialize_def UvcStreamingControl_serialize_def Let_def le_at_def
       nth_append)

section \<open>What the host puts together\<close>

text \<open>The bytes of the packets of an answer, and a host that collects payloads: a packet with another
  frame identifier than the collected data drops it and starts a frame, the end-of-frame bit completes
  the frame.\<close>

definition host_packets :: "UsbIpIsoPacketDescriptor list \<Rightarrow> data \<Rightarrow> data list" where
  "host_packets ps d = map (\<lambda>p. take (unat (iso_actual_length p)) (drop (unat (iso_offset p)) d)) ps"

definition host_packet :: "data \<Rightarrow> (bool \<times> data) option \<times> (bool \<times> data) list \<Rightarrow> (bool \<times> data) option \<times> (bool \<times> data) list" where
  "host_packet p h =
     (if length p < 2 then h
      else (let fid = bit (p ! 1) 0;
                x = (case fst h of Some (f, a) \<Rightarrow> if f = fid then a @ drop 2 p else drop 2 p | None \<Rightarrow> drop 2 p)
            in if bit (p ! 1) 7 then (None, snd h @ [(fid, x)]) else (Some (fid, x), snd h)))"

definition frame_part :: "nat \<Rightarrow> bool \<Rightarrow> data \<Rightarrow> (bool \<times> data) option" where
  "frame_part off fid frame = (if off = 0 then None else Some (fid, take off frame))"

lemma payload_header_bits:
  "length (payload_header fid eof) = 2" "bit (payload_header fid eof ! 1) 0 = fid" "bit (payload_header fid eof ! 1) 7 = eof"
  by (simp_all add: payload_header_def UVC_PAYLOAD_HEADER_FID_def UVC_PAYLOAD_HEADER_EOF_def)

lemma host_packet_payload:
  assumes "off < length frame" and "0 < chunk" and "off + chunk \<le> length frame"
  shows "host_packet (payload_header fid (length frame \<le> off + chunk) @ take chunk (drop off frame)) (frame_part off fid frame, fs) =
    (if length frame \<le> off + chunk then (None, fs @ [(fid, frame)]) else (frame_part (off + chunk) fid frame, fs))"
proof -
  define p where "p = payload_header fid (length frame \<le> off + chunk) @ take chunk (drop off frame)"
  have p: "\<not> length p < 2" "bit (p ! 1) 0 = fid" "bit (p ! 1) 7 \<longleftrightarrow> length frame \<le> off + chunk"
    "drop 2 p = take chunk (drop off frame)"
    by (simp_all add: p_def payload_header_bits payload_header_bits[simplified] nth_append)
  have "take off frame @ take chunk (drop off frame) = take (off + chunk) frame" by (simp only: take_add)
  then have "(case frame_part off fid frame of Some (f, a) \<Rightarrow> if f = fid then a @ drop 2 p else drop 2 p
      | None \<Rightarrow> drop 2 p) = take (off + chunk) frame"
    by (simp add: frame_part_def p(4))
  then have "host_packet p (frame_part off fid frame, fs) =
      (if length frame \<le> off + chunk then (None, fs @ [(fid, take (off + chunk) frame)])
       else (Some (fid, take (off + chunk) frame), fs))"
    using p(1) by (simp add: host_packet_def p(2,3) Let_def del: One_nat_def)
  then show ?thesis using assms unfolding p_def[symmetric] by (simp add: frame_part_def)
qed

text \<open>Packets without data change nothing.\<close>

definition fresh_packets :: "UsbIpIsoPacketDescriptor list \<Rightarrow> bool" where
  "fresh_packets ps \<longleftrightarrow> (\<forall>p \<in> set ps. iso_actual_length p = 0)"

lemma host_fresh: "fresh_packets ps \<Longrightarrow> fold host_packet (host_packets ps d) h = h"
  by (induction ps) (simp_all add: fresh_packets_def host_packets_def host_packet_def)

lemma fresh_clear [simp]: "fresh_packets (clear_status ps) = fresh_packets ps"
  by (auto simp: fresh_packets_def clear_status_def)

lemma video_packets_done: "length frame \<le> off \<Longrightarrow> video_packets n pkts fid frame d off sent = Some (pkts, d, off, sent)"
  by (cases n) simp_all

lemma video_packets_host:
  assumes "iso_layout 3 (length d) lo pkts" and "fresh_packets pkts" and "off < length frame"
  shows "\<exists>pkts' d' off' sent'. video_packets (length pkts) pkts fid frame d off sent = Some (pkts', d', off', sent') \<and>
    fold host_packet (host_packets pkts' d') (frame_part off fid frame, fs) =
      (if length frame \<le> off' then (None, fs @ [(fid, frame)]) else (frame_part off' fid frame, fs)) \<and>
    take lo d' = take lo d \<and> length d' = length d \<and> off \<le> off' \<and> (pkts \<noteq> [] \<longrightarrow> off < off')"
  using assms
proof (induction pkts arbitrary: d off sent lo)
  case Nil
  then show ?case by (simp add: host_packets_def)
next
  case (Cons pk pkts)
  let ?i = "unat (iso_offset pk)" and ?len = "unat (iso_length pk)"
  have lay: "lo \<le> ?i" "3 \<le> ?len" "?i + ?len \<le> length d" "iso_layout 3 (length d) (?i + ?len) pkts"
    using Cons.prems(1) by auto
  define chunk where "chunk = min (?len - 2) (length frame - off)"
  have c: "0 < chunk" "chunk + 2 \<le> ?len" "off + chunk \<le> length frame" using lay Cons.prems(3) by (auto simp: chunk_def)
  let ?p = "payload_header fid (length frame \<le> off + chunk) @ take chunk (drop off frame)"
  have lp: "length ?p = 2 + chunk" using c by (simp add: payload_header_bits)
  let ?d = "memcpy_at ?i ?p d" and ?pk = "pk\<lparr>iso_actual_length := of_nat (2 + chunk)\<rparr>"
  have ld: "length ?d = length d" using lp c lay by (subst length_memcpy_at) simp_all
  have "2 + chunk < 2 ^ 32" using c(2) unsigned_less[of "iso_length pk", where 'a = nat] by simp
  then have n: "unat (of_nat (2 + chunk) :: u32) = 2 + chunk" by (simp only: unat_of_nat) simp
  have fr: "fresh_packets pkts" using Cons.prems(2) by (simp add: fresh_packets_def)
  have rec: "\<exists>pkts' d' off' sent'. video_packets (length pkts) pkts fid frame ?d (off + chunk) (sent + of_nat (2 + chunk)) =
      Some (pkts', d', off', sent') \<and>
    fold host_packet (host_packets pkts' d')
        (if length frame \<le> off + chunk then (None, fs @ [(fid, frame)]) else (frame_part (off + chunk) fid frame, fs)) =
      (if length frame \<le> off' then (None, fs @ [(fid, frame)]) else (frame_part off' fid frame, fs)) \<and>
    take (?i + ?len) d' = take (?i + ?len) ?d \<and> length d' = length d \<and> off < off'"
  proof (cases "length frame \<le> off + chunk")
    case True
    then show ?thesis using c ld by (simp add: video_packets_done host_fresh[OF fr])
  next
    case False
    then obtain pkts' d' off' sent' where IH:
      "video_packets (length pkts) pkts fid frame ?d (off + chunk) (sent + of_nat (2 + chunk)) = Some (pkts', d', off', sent')"
      "fold host_packet (host_packets pkts' d') (frame_part (off + chunk) fid frame, fs) =
        (if length frame \<le> off' then (None, fs @ [(fid, frame)]) else (frame_part off' fid frame, fs))"
      "take (?i + ?len) d' = take (?i + ?len) ?d" "length d' = length d" "off + chunk \<le> off'"
      using Cons.IH[of ?d "?i + ?len" "off + chunk" "sent + of_nat (2 + chunk)"] lay(4) fr unfolding ld by force
    have "off < off'" using IH(5) c(1) by linarith
    with IH False show ?thesis by (simp only: if_False) blast
  qed
  then obtain pkts' d' off' sent' where r: "video_packets (length pkts) pkts fid frame ?d (off + chunk) (sent + of_nat (2 + chunk)) =
      Some (pkts', d', off', sent')"
    "fold host_packet (host_packets pkts' d')
        (if length frame \<le> off + chunk then (None, fs @ [(fid, frame)]) else (frame_part (off + chunk) fid frame, fs)) =
      (if length frame \<le> off' then (None, fs @ [(fid, frame)]) else (frame_part off' fid frame, fs))"
    "take (?i + ?len) d' = take (?i + ?len) ?d" "length d' = length d" "off < off'" by blast
  have "take (2 + chunk) (drop ?i d') = take (2 + chunk) (drop ?i (take (?i + ?len) d'))"
    using c(2) by (simp add: take_drop min_def)
  also have "\<dots> = ?p" unfolding r(3) using lay c lp by (simp add: memcpy_at_def)
  finally have pay: "take (2 + chunk) (drop ?i d') = ?p" .
  have "take lo d' = take lo (take (?i + ?len) d')" using lay(1) by (simp add: min_def)
  also have "\<dots> = take lo d" unfolding r(3) using lay by (simp add: memcpy_at_def min_def)
  finally have lo: "take lo d' = take lo d" .
  have "video_packets (length (pk # pkts)) (pk # pkts) fid frame d off sent = Some (?pk # pkts', d', off', sent')"
    using Cons.prems(3) r(1) lay(2,3) c lp
    by (simp add: Let_def UVC_PAYLOAD_HEADER_SIZE_def chunk_def[symmetric])
  moreover have "fold host_packet (host_packets (?pk # pkts') d') (frame_part off fid frame, fs) =
      (if length frame \<le> off' then (None, fs @ [(fid, frame)]) else (frame_part off' fid frame, fs))"
    using r(2) host_packet_payload[OF Cons.prems(3) c(1,3), of fid fs] pay n
    by (simp add: host_packets_def del: of_nat_add)
  ultimately show ?case using lo r(4) less_imp_le[OF r(5)] r(5) by blast
qed

section \<open>Runs\<close>

text \<open>The frame the handler takes from the source for a transfer, with the time; a sequence of transfers.\<close>

definition vs_fetched :: "('s, 'z) VideoSource_scheme \<Rightarrow> int \<Rightarrow> 's UvcVideoStreamingHandler \<Rightarrow> (int \<times> data) list" where
  "vs_fetched ops now m =
     (if frame_pending now m \<or> vs_frame_offset m \<noteq> 0 then []
      else (case fst (vo_get_frame ops (vs_source m)) of None \<Rightarrow> [] | Some d \<Rightarrow> [(now, d)]))"

fun vs_run ::
    "('s, 'z) VideoSource_scheme \<Rightarrow> (int \<times> u32 \<times> GenericTransfer TransferHandle) list \<Rightarrow> 's UvcVideoStreamingHandler \<Rightarrow>
     (GenericTransfer UsbIpRetSubmit list \<times> (int \<times> data) list \<times> 's UvcVideoStreamingHandler) option" where
  "vs_run ops [] m = Some ([], [], m)"
| "vs_run ops ((now, seqnum, th) # ts) m =
     Option.bind (vs_isochronous ops now seqnum (int (iso_packets th)) th m)
       (\<lambda>(r, m'). map_option (\<lambda>(rs, fetched, m''). (r # rs, vs_fetched ops now m @ fetched, m'')) (vs_run ops ts m'))"

definition ret_packets :: "GenericTransfer UsbIpRetSubmit \<Rightarrow> data list" where
  "ret_packets r =
     (case th_handle (rs_transfer r) of
        None \<Rightarrow> [] | Some trx \<Rightarrow> host_packets (gt_iso_descriptors trx) (gt_data trx))"

text \<open>A transfer with packets one after the other in its buffer, each with room for data.\<close>

definition video_transfer_ok :: "GenericTransfer TransferHandle \<Rightarrow> bool" where
  "video_transfer_ok th \<longleftrightarrow>
     (case th_handle th of
        None \<Rightarrow> False
      | Some trx \<Rightarrow>
          gt_iso_descriptors trx \<noteq> [] \<and> fresh_packets (gt_iso_descriptors trx) \<and>
          iso_layout 3 (length (gt_data trx)) 0 (gt_iso_descriptors trx))"

text \<open>The state of the handler against what the host has and the frames fetched so far: the frame
  identifier and the clock, and a frame of which the host has the part sent so far.\<close>

definition frame_clock :: "nat \<Rightarrow> 's UvcVideoStreamingHandler \<Rightarrow> (int \<times> data) list \<Rightarrow> bool" where
  "frame_clock i m F \<longleftrightarrow>
     vs_streaming m \<and> vs_committed m \<and> vs_frame_interval m = i \<and> 0 < i \<and>
     vs_current_fid m = odd (length F) \<and> (F \<noteq> [] \<longrightarrow> vs_frame_started_at m = fst (last F)) \<and>
     sorted_wrt (\<lambda>a b. fst a + int i * 1000 \<le> fst b) F"

definition host_frames :: "(int \<times> data) list \<Rightarrow> (bool \<times> data) list" where
  "host_frames F = zip (map even [0..<length F]) (map snd F)"

definition frame_open ::
    "'s UvcVideoStreamingHandler \<Rightarrow> (bool \<times> data) option \<times> (bool \<times> data) list \<Rightarrow> (int \<times> data) list \<Rightarrow> bool" where
  "frame_open m h F \<longleftrightarrow>
     F \<noteq> [] \<and> vs_frame_buffer m = snd (last F) \<and> vs_frame_offset m < length (vs_frame_buffer m) \<and>
     h = (frame_part (vs_frame_offset m) (vs_current_fid m) (vs_frame_buffer m), host_frames (butlast F))"

definition frames_inv ::
    "('s \<Rightarrow> bool) \<Rightarrow> nat \<Rightarrow> 's UvcVideoStreamingHandler \<Rightarrow> (bool \<times> data) option \<times> (bool \<times> data) list \<Rightarrow> (int \<times> data) list \<Rightarrow> bool" where
  "frames_inv ok i m h F \<longleftrightarrow>
     ok (vs_source m) \<and> frame_clock i m F \<and>
     (if vs_frame_offset m = 0 then h = (None, host_frames F) else frame_open m h F)"

lemma host_frames_snoc: "host_frames (F @ [(t, d)]) = host_frames F @ [(even (length F), d)]"
  by (simp add: host_frames_def)

lemma host_frames_last:
  assumes "F \<noteq> []"
  shows "host_frames F = host_frames (butlast F) @ [(odd (length F), snd (last F))]"
proof -
  obtain G x where F: "F = G @ [x]" using assms by (metis append_butlast_last_id)
  then show ?thesis using host_frames_snoc[of G "fst x" "snd x"] by simp
qed

lemma frame_clock_next:
  assumes "frame_clock i m F" and "F = [] \<or> fst (last F) + int i * 1000 \<le> now"
  shows "sorted_wrt (\<lambda>a b. fst a + int i * 1000 \<le> fst b) (F @ [(now, d)])"
proof -
  have "fst x + int i * 1000 \<le> now" if x: "x \<in> set F" for x
  proof -
    obtain G y where F: "F = G @ [y]" using x by (cases F rule: rev_cases) auto
    have "x = y \<or> fst x + int i * 1000 \<le> fst y"
      using assms(1) x unfolding F frame_clock_def by (auto simp: sorted_wrt_append)
    moreover have "fst y + int i * 1000 \<le> now" using assms(2) F by simp
    moreover have "0 \<le> int i * 1000" by simp
    ultimately show ?thesis by auto
  qed
  then show ?thesis using assms(1) by (simp add: frame_clock_def sorted_wrt_append)
qed

lemma frame_clock_cong:
  "vs_streaming m' = vs_streaming m \<Longrightarrow> vs_committed m' = vs_committed m \<Longrightarrow> vs_frame_interval m' = vs_frame_interval m \<Longrightarrow>
   vs_current_fid m' = vs_current_fid m \<Longrightarrow> vs_frame_started_at m' = vs_frame_started_at m \<Longrightarrow>
   frame_clock i m' F = frame_clock i m F"
  by (simp add: frame_clock_def)

text \<open>The packets of one transfer, once a frame is there.\<close>

lemma packets_frames:
  assumes "ok (vs_source m)" and "frame_clock i m F" and "frame_open m h F"
    and t: "th_handle th = Some trx" "video_transfer_ok th"
  defines "go \<equiv> video_packets (iso_packets th) (clear_status (gt_iso_descriptors trx)) (vs_current_fid m) (vs_frame_buffer m)
      (gt_data trx) (vs_frame_offset m) 0"
  shows "\<exists>pkts' d off sent. go = Some (pkts', d, off, sent) \<and>
    frames_inv ok i (m\<lparr>vs_frame_offset := (if length (vs_frame_buffer m) \<le> off then 0 else off)\<rparr>)
      (fold host_packet (host_packets pkts' d) h) F"
proof -
  let ?pkts = "clear_status (gt_iso_descriptors trx)"
  have ok: "?pkts \<noteq> []" "fresh_packets ?pkts" "iso_layout 3 (length (gt_data trx)) 0 ?pkts"
    using t by (simp_all add: video_transfer_ok_def clear_status_def[symmetric]) (simp add: clear_status_def)
  have n: "iso_packets th = length ?pkts" by (simp add: iso_packets_def t(1))
  have off: "vs_frame_offset m < length (vs_frame_buffer m)" and F: "F \<noteq> []" "vs_frame_buffer m = snd (last F)"
    and h: "h = (frame_part (vs_frame_offset m) (vs_current_fid m) (vs_frame_buffer m), host_frames (butlast F))"
    using assms(3) unfolding frame_open_def by blast+
  obtain pkts' d off' sent where v: "go = Some (pkts', d, off', sent)"
    "fold host_packet (host_packets pkts' d) h = (if length (vs_frame_buffer m) \<le> off'
      then (None, host_frames (butlast F) @ [(vs_current_fid m, vs_frame_buffer m)])
      else (frame_part off' (vs_current_fid m) (vs_frame_buffer m), host_frames (butlast F)))"
    "vs_frame_offset m < off'"
    using video_packets_host[OF ok(3,2) off] ok(1) unfolding go_def n h by blast
  have fid: "vs_current_fid m = odd (length F)" using assms(2) by (simp add: frame_clock_def)
  have "frames_inv ok i (m\<lparr>vs_frame_offset := (if length (vs_frame_buffer m) \<le> off' then 0 else off')\<rparr>)
      (fold host_packet (host_packets pkts' d) h) F"
    using assms(1,2) F v(2,3) host_frames_last[OF F(1)] fid
    by (auto simp: frames_inv_def frame_open_def frame_clock_def)
  with v(1) show ?thesis by blast
qed

lemma ret_packets_iso_reply: "ret_packets (iso_reply seqnum sent pkts d th trx) = host_packets pkts d"
  by (simp add: ret_packets_def iso_reply_def create_ret_submit_def)

lemma frame_wait: "\<not> frame_pending now m \<Longrightarrow> vs_frame_offset m = 0 \<Longrightarrow> frame_clock i m F \<Longrightarrow>
   F = [] \<or> fst (last F) + int i * 1000 \<le> now"
  by (auto simp: frame_pending_def frame_clock_def)

context video_source
begin

lemma isochronous_frames:
  assumes "frames_inv inv i m h F" and ok: "video_transfer_ok th"
  shows "\<exists>r m'. vs_isochronous ops now seqnum (int (iso_packets th)) th m = Some (r, m') \<and>
    frames_inv inv i m' (fold host_packet (ret_packets r) h) (F @ vs_fetched ops now m)"
proof -
  obtain trx where t: "th_handle th = Some trx" using ok by (auto simp: video_transfer_ok_def split: option.splits)
  have run: "vs_streaming m" "vs_committed m" and src: "inv (vs_source m)" and clk: "frame_clock i m F"
    using assms(1) by (auto simp: frames_inv_def frame_clock_def)
  have go: "\<exists>r m'. vs_isochronous ops now seqnum (int (iso_packets th)) th m = Some (r, m') \<and>
      frames_inv inv i m' (fold host_packet (ret_packets r) h) (F @ vs_fetched ops now m)"
    if "\<not> frame_pending now m" "vs_next_frame ops now m = (True, m1)" "inv (vs_source m1)"
      "frame_clock i m1 (F @ vs_fetched ops now m)" "frame_open m1 h (F @ vs_fetched ops now m)" for m1
  proof -
    from packets_frames[where ok = inv, OF that(3-5) t ok] obtain pkts' d off sent where
      v: "video_packets (iso_packets th) (clear_status (gt_iso_descriptors trx)) (vs_current_fid m1) (vs_frame_buffer m1)
          (gt_data trx) (vs_frame_offset m1) 0 = Some (pkts', d, off, sent)"
        "frames_inv inv i (m1\<lparr>vs_frame_offset := (if length (vs_frame_buffer m1) \<le> off then 0 else off)\<rparr>)
          (fold host_packet (host_packets pkts' d) h) (F @ vs_fetched ops now m)" by blast
    have "vs_isochronous ops now seqnum (int (iso_packets th)) th m = Some (iso_reply seqnum sent pkts' d th trx,
        m1\<lparr>vs_frame_offset := (if length (vs_frame_buffer m1) \<le> off then 0 else off)\<rparr>)"
      using that(1,2) run v(1) by (simp add: vs_isochronous_def t Let_def)
    with v(2) show ?thesis by (simp add: ret_packets_iso_reply)
  qed
  show ?thesis
  proof (cases "frame_pending now m")
    case True
    have "fresh_packets (gt_iso_descriptors trx)" using ok by (simp add: video_transfer_ok_def t)
    then have "fold host_packet (ret_packets (iso_reply seqnum 0 (clear_status (gt_iso_descriptors trx)) (gt_data trx) th trx)) h = h"
      by (simp add: ret_packets_iso_reply host_fresh)
    then show ?thesis using True assms(1) run by (simp add: vs_isochronous_def t Let_def vs_fetched_def)
  next
    case np: False
    show ?thesis
    proof (cases "vs_frame_offset m = 0")
      case False
      then show ?thesis
        using go[of m] np assms(1) by (simp add: vs_next_frame_def vs_fetched_def frames_inv_def)
    next
      case off: True
      have h: "h = (None, host_frames F)" using assms(1) off by (simp add: frames_inv_def)
      obtain fr s where g: "vo_get_frame ops (vs_source m) = (fr, s)" by fastforce
      show ?thesis
      proof (cases fr)
        case None
        have "inv s" using frame_none[OF src] g None by blast
        then have "frames_inv inv i (m\<lparr>vs_source := s\<rparr>) h F" using assms(1) off
          by (simp add: frames_inv_def frame_clock_def)
        then show ?thesis using np off g None run
          by (simp add: vs_isochronous_def t Let_def vs_next_frame_def vs_fetched_def ret_packets_def class_stall_def
              create_ret_submit_epipe_without_data_def TransferHandle_empty_def)
      next
        case (Some d)
        let ?m = "m\<lparr>vs_source := s, vs_frame_buffer := d, vs_current_fid := \<not> vs_current_fid m, vs_frame_started_at := now\<rparr>"
        have d: "d \<noteq> []" "inv s" using frame_some[OF src] g Some by blast+
        have f: "vs_fetched ops now m = [(now, d)]" using np off g Some by (simp add: vs_fetched_def)
        have "frame_clock i ?m (F @ [(now, d)])"
          using clk frame_clock_next[OF clk frame_wait[OF np off clk], of d] by (simp add: frame_clock_def)
        moreover have "frame_open ?m h (F @ [(now, d)])" using d off h by (simp add: frame_open_def frame_part_def)
        ultimately show ?thesis using go[of ?m] np off g Some d f by (simp add: vs_next_frame_def)
      qed
    qed
  qed
qed

lemma run_frames:
  "frames_inv inv i m h F \<Longrightarrow> (\<And>x. x \<in> set ts \<Longrightarrow> video_transfer_ok (snd (snd x))) \<Longrightarrow>
   \<exists>rs fetched m'. vs_run ops ts m = Some (rs, fetched, m') \<and>
     frames_inv inv i m' (fold host_packet (concat (map ret_packets rs)) h) (F @ fetched)"
proof (induction ts arbitrary: m h F)
  case (Cons x ts)
  obtain now seqnum th where x: "x = (now, seqnum, th)" by (cases x)
  have "video_transfer_ok th" using Cons.prems(2)[of x] by (simp add: x)
  from isochronous_frames[OF Cons.prems(1) this, of now seqnum] obtain r m1 where
    s: "vs_isochronous ops now seqnum (int (iso_packets th)) th m = Some (r, m1)"
      "frames_inv inv i m1 (fold host_packet (ret_packets r) h) (F @ vs_fetched ops now m)" by blast
  have "\<And>y. y \<in> set ts \<Longrightarrow> video_transfer_ok (snd (snd y))" using Cons.prems(2) by simp
  from Cons.IH[OF s(2) this] obtain rs fetched m' where "vs_run ops ts m1 = Some (rs, fetched, m')"
    "frames_inv inv i m' (fold host_packet (concat (map ret_packets rs)) (fold host_packet (ret_packets r) h))
      ((F @ vs_fetched ops now m) @ fetched)" by blast
  with s(1) show ?case by (simp add: x)
qed simp

end

text \<open>The colour bar source keeps its image.\<close>

lemma color_bar_source_kept:
  "vs_isochronous color_bar_ops now seqnum n th m = Some (r, m') \<Longrightarrow> vs_source m' = vs_source m"
  by (auto simp: vs_isochronous_def vs_next_frame_def color_bar_ops_def cb_get_frame_def Let_def
      split: if_splits option.splits)

lemma color_bar_fetched:
  "vs_run color_bar_ops ts m = Some (rs, F, m') \<Longrightarrow> x \<in> set F \<Longrightarrow> snd x = cb_buffer (vs_source m)"
proof (induction ts arbitrary: m rs F)
  case (Cons y ts)
  obtain now seqnum th where y: "y = (now, seqnum, th)" by (cases y)
  obtain r m1 rs' F' where s: "vs_isochronous color_bar_ops now seqnum (int (iso_packets th)) th m = Some (r, m1)"
    "vs_run color_bar_ops ts m1 = Some (rs', F', m')" "F = vs_fetched color_bar_ops now m @ F'"
    using Cons.prems(1) by (auto simp: y bind_eq_Some_conv)
  then show ?case
    using Cons.IH[OF s(2)] Cons.prems(2) color_bar_source_kept[OF s(1)]
    by (auto simp: vs_fetched_def color_bar_ops_def cb_get_frame_def split: if_splits)
qed simp

lemma len32: "LENGTH(32) = 32"
  by simp

lemma webcam_started:
  assumes "8 \<le> unat w" and "even (unat w)" and "0 < unat h" and "fps \<noteq> 0"
  shows "\<exists>s m. ColorBarSource_new w h fps = Some s \<and>
    vs_commit color_bar_ops (UvcVideoStreamingHandler_new color_bar_ops s) = Some m \<and> cb_buffer (vs_source m) = cb_buffer s \<and>
    frames_inv cb_inv (10000000 div unat fps div 10) (snd (vs_set_interface 1 m)) (None, []) []"
proof -
  let ?i = "of_nat (10000000 div unat fps) :: u32"
  have f: "0 < unat fps" "unat fps < 256" using assms(4) unsigned_less[of fps, where 'a = nat] by (simp_all add: unat_gt_0)
  have "10000000 div unat fps \<le> 10000000" by simp
  then have "10000000 div unat fps < 2 ^ 32" by (rule le_less_trans) simp
  then have i: "unat ?i = 10000000 div unat fps" by (simp only: unat_of_nat len32 mod_less)
  have "100 * unat fps \<le> 10000000" using f(2) by simp
  then have "100 \<le> 10000000 div unat fps" using f(1) by (simp add: less_eq_div_iff_mult_less_eq)
  then have i0: "0 < 10000000 div unat fps div 10" by simp
  obtain s where s: "ColorBarSource_new w h fps = Some s" "cb_inv s" "cb_frame_interval s = ?i"
    using generate_color_bars_wf[of "\<lparr>cb_width = w, cb_height = h, cb_frame_interval = ?i, cb_buffer = []\<rparr>"] assms
    by (auto simp: ColorBarSource_new_def INTERVAL_100NS_def)
  let ?m = "UvcVideoStreamingHandler_new color_bar_ops s"
  have src: "vs_source ?m = s" "dwFrameInterval (vs_probe_data ?m) = ?i"
    using s(3) by (simp_all add: UvcVideoStreamingHandler_new_def color_bar_ops_def)
  obtain s' where s': "vo_set_format color_bar_ops (vf_fourcc (vo_current_format color_bar_ops s))
      (vf_width (vo_current_format color_bar_ops s)) (vf_height (vo_current_format color_bar_ops s)) ?i s = Some (True, s')"
    "cb_inv s'" "vo_frame_interval color_bar_ops s' = ?i"
    using color_bars.set_interval[OF s(2) refl] by blast
  have "cb_width s' = cb_width s \<and> cb_height s' = cb_height s"
    using s'(1) by (auto simp: color_bar_ops_def cb_current_format_def cb_supported_formats_def cb_set_format_def
        generate_color_bars_def Let_def split: if_splits)
  then have "cb_buffer s' = cb_buffer s" using s(2) s'(2) by (simp add: cb_inv_def)
  moreover have "vs_commit color_bar_ops ?m = Some (?m\<lparr>vs_source := s', vs_committed := True,
      vs_frame_buffer := vector_resize (vo_max_frame_size color_bar_ops s') (vs_frame_buffer ?m), vs_frame_offset := 0,
      vs_current_fid := False, vs_frame_started_at := 0, vs_frame_interval := unat ?i div 10\<rparr>)"
    using s'(1,3) src by (simp add: vs_commit_def Let_def)
  ultimately show ?thesis
    using s(1) s'(2) i i0 by (simp add: frames_inv_def frame_clock_def host_frames_def vs_set_interface_def)
qed



section \<open>Control\<close>

interpretation uvc_control_unlink: unlink_handler vc_handle_unlink_seqnum "\<lambda>h. ic_pending (vc_status_channel h)"
proof
  fix u c s
  show "fst (vc_handle_unlink_seqnum u c s) = [unlink_reply c (u \<in># ic_pending (vc_status_channel s))]"
    using in_cancel.cancel_found[of u "vc_status_channel s"]
    by (auto simp: vc_handle_unlink_seqnum_def split: prod.splits)
  show "ic_pending (vc_status_channel (snd (vc_handle_unlink_seqnum u c s))) = ic_pending (vc_status_channel s) - {#u#}"
    using in_cancel.cancel_pending[of u "vc_status_channel s"]
    by (auto simp: vc_handle_unlink_seqnum_def split: prod.splits)
qed

text \<open>The class descriptors: their total lengths, and of the streaming interface the chain of its
  descriptors for every format.\<close>

lemma vc_class_descriptor_length:
  "length (vc_class_descriptor n) = 53"
  "word_of_le [vc_class_descriptor n ! 5, vc_class_descriptor n ! 6] = (53 :: u16)"
  by (simp_all add: vc_class_descriptor_def VcHeaderDesc_append_to_def VcCameraTerminalDesc_append_to_def
      VcProcessingUnitDesc_append_to_def VcOutputTerminalDesc_append_to_def Let_def)

lemma nth_memcpy_before: "i < off \<Longrightarrow> off \<le> length buf \<Longrightarrow> memcpy_at off src buf ! i = buf ! i"
  by (simp add: memcpy_at_def nth_append)

lemma vs_format_block: "desc_block (vs_format_descriptor fmt)" "vs_format_descriptor fmt ! 1 = CS_INTERFACE"
  by (cases "uvc_format_category (vf_fourcc fmt)";
      simp add: vs_format_descriptor_def desc_block_def UvcGuid_from_fourcc_def CS_INTERFACE_def nth_memcpy_before Let_def)+

definition block_front :: "nat \<Rightarrow> u8 \<Rightarrow> data \<Rightarrow> bool" where
  "block_front n a x \<longleftrightarrow> length x = n \<and> x ! 0 = a \<and> x ! 1 = CS_INTERFACE"

lemma block_front_memcpy:
  "block_front n a x \<Longrightarrow> 2 \<le> off \<Longrightarrow> off + length src \<le> n \<Longrightarrow> block_front n a (memcpy_at off src x)"
  unfolding block_front_def by (subst length_memcpy_at) (simp_all add: nth_memcpy_before)

lemma block_front_update: "block_front n a x \<Longrightarrow> block_front n a (x[25 := v])"
  by (simp add: block_front_def)

lemma block_front_start: "2 \<le> n \<Longrightarrow> block_front n a ((replicate n 0)[0 := a, Suc 0 := 0x24, 2 := u, 3 := v, 4 := w])"
  by (simp add: block_front_def CS_INTERFACE_def)

lemma vs_frame_block:
  assumes "vs_frame_descriptor fmt = Some d"
  shows "desc_block d" and "d ! 1 = CS_INTERFACE"
proof -
  define k :: nat where "k = (if uvc_format_category (vf_fourcc fmt) = H264 then 44 else 26)"
  have "26 \<le> k" by (simp add: k_def)
  then have "block_front (k + 12) (of_nat (k + 12)) d"
    using assms unfolding vs_frame_descriptor_def k_def[symmetric] Let_def
    by (auto split: if_splits intro!: block_front_memcpy block_front_update block_front_start simp del: of_nat_add)
  moreover have "unat (of_nat (k + 12) :: u8) = k + 12" "2 \<le> k + 12" by (simp_all add: k_def)
  ultimately show "desc_block d" "d ! 1 = CS_INTERFACE" by (simp_all add: block_front_def desc_block_def)
qed

lemma vs_color_chain: "vs_color_descriptor cat = [] \<or> desc_block (vs_color_descriptor cat) \<and> vs_color_descriptor cat ! 1 = CS_INTERFACE"
  by (simp add: vs_color_descriptor_def VsColorMatchingDesc_append_to_def desc_block_def)

lemma word_of_le_length: "word_of_le [of_nat (n mod 256), of_nat (n div 256 mod 256)] = (of_nat n :: u16)"
proof -
  have "n mod 256 = take_bit 8 n" "n div 256 mod 256 = take_bit 8 (drop_bit 8 n)"
    by (simp_all add: take_bit_nat_def drop_bit_nat_def)
  then have "(of_nat (n mod 256) :: u8) = ucast (of_nat n :: u16)"
    "(of_nat (n div 256 mod 256) :: u8) = ucast (drop_bit 8 (of_nat n :: u16))"
    by (auto intro!: bit_word_eqI simp: bit_of_nat_iff bit_ucast_iff bit_drop_bit_eq bit_take_bit_iff)
  then have "[of_nat (n mod 256), of_nat (n div 256 mod 256)] = le_bytes (of_nat n :: u16)" by (simp add: le_bytes_u16)
  then show ?thesis by simp
qed

lemma vs_class_descriptor_chain:
  assumes "vs_class_descriptor fmt ep = Some d"
  shows "desc_chain 0 d" and "word_of_le [d ! 4, d ! 5] = (of_nat (length d) :: u16)"
proof -
  obtain frame where f: "vs_frame_descriptor fmt = Some frame" using assms by (auto simp: vs_class_descriptor_def)
  let ?c = "vs_color_descriptor (uvc_format_category (vf_fourcc fmt))"
  let ?r = "vs_format_descriptor fmt @ frame @ ?c" and ?n = "14 + length (vs_format_descriptor fmt @ frame @ ?c)"
  let ?h = "[14, CS_INTERFACE, VS_DESC_INPUT_HEADER, 1, of_nat (?n mod 256), of_nat (?n div 256 mod 256), ep, 0, 3, 0, 0, 0, 1, 0] :: data"
  have d: "d = ?h @ ?r" using assms f
    by (auto simp: vs_class_descriptor_def VsInputHeaderDesc_append_to_def Let_def list_update_append le_bytes_u16)
  have plain: "desc_chain 0 (x @ b)" if "desc_chain 0 x" "desc_block b" "b ! 1 = CS_INTERFACE" for x b
    using desc_chain_plain[OF that(1,2)] that(3) by (simp add: CS_INTERFACE_def)
  have "desc_chain 0 ?h" using plain[OF desc_chain_Nil, of ?h] by (simp add: desc_block_def)
  from plain[OF plain[OF this vs_format_block] vs_frame_block[OF f]]
  have "desc_chain 0 ((?h @ vs_format_descriptor fmt) @ frame)" .
  moreover have "desc_chain 0 (((?h @ vs_format_descriptor fmt) @ frame) @ ?c)"
    using vs_color_chain[of "uvc_format_category (vf_fourcc fmt)"] plain[OF calculation, of ?c] calculation by auto
  ultimately show "desc_chain 0 d" unfolding d by simp
  show "word_of_le [d ! 4, d ! 5] = (of_nat (length d) :: u16)"
    unfolding d using word_of_le_length[of ?n] by simp
qed

text \<open>What the host sets with PROBE is what it reads back, apart from the fields that belong to the device
  and those of a video encoder the format does not have.\<close>

lemma probe_readback:
  assumes "uvc_format_category (vf_fourcc (vo_current_format ops (vs_source m))) \<noteq> H264"
    and "dwFrameInterval c \<noteq> 0" and "dwMaxVideoFrameSize c \<noteq> 0"
  shows "vs_get_control ops GET_CUR (vs_store_control ops (UvcStreamingControl_serialize c) m) =
    (clear_encoding_fields (set_device_fields c))
      \<lparr>wKeyFrameRate := 0, wPFrameRate := 0, wCompQuality := 0, wCompWindowSize := 0, wDelay := 0\<rparr>"
  using assms
  by (simp add: vs_get_control_def vs_store_control_def streaming_control_roundtrip UvcStreamingControl_SIZE_def
      clear_encoding_fields_def set_device_fields_def Let_def GET_CUR_def GET_MIN_def GET_MAX_def GET_DEF_def)

text \<open>Switching the camera off stops the stream.\<close>

lemma power_off_stops:
  assumes "th_handle th = Some trx" and "gt_data trx = 0 # d" and "vc_vs_interface vc = Some n"
    and "calc_request_type sp = RequestType_Class" and "sp_request sp = SET_CUR" and "drop_bit 8 (sp_index sp) = 0"
    and "drop_bit 8 (sp_value sp) = ucast VC_VIDEO_POWER_MODE_CONTROL"
  shows "uvc_control seqnum len sp th vc vs =
    Some (class_empty_reply seqnum th trx, vc\<lparr>vc_power_on := False\<rparr>, vs\<lparr>vs_streaming := False\<rparr>)"
  using assms
  by (simp add: uvc_control_def vc_control_def vc_interface_control_def notify_stop_streaming_def ENTITY_VC_INTERFACE_def
      SET_CUR_def GET_CUR_def GET_INFO_def)

text \<open>A packet descriptor with an offset past the buffer is written there.\<close>

lemma video_past_end:
  "frame \<noteq> [] \<Longrightarrow> video_packets 1 [default_iso\<lparr>iso_offset := 100, iso_length := 12\<rparr>] fid frame (replicate 10 0) 0 0 = None"
  by (simp add: Let_def default_iso_def UVC_PAYLOAD_HEADER_SIZE_def payload_header_bits)

text \<open>The controls of the processing unit: \<open>GET_INFO\<close> says that the brightness can be set, \<open>SET_CUR\<close> is
  acknowledged, and nothing is stored.\<close>

lemma brightness_not_stored:
  "processing_unit_control GET_INFO 2 seqnum th trx = class_data_reply seqnum [3] th trx"
  "processing_unit_control SET_CUR 2 seqnum th trx = class_empty_reply seqnum th trx"
  "processing_unit_control GET_CUR 2 seqnum th trx = class_data_reply seqnum [128, 0] th trx"
  by (simp_all add: processing_unit_control_def pu_controls_def PU_BRIGHTNESS_def Let_def i16_bytes_def
      SET_CUR_def GET_CUR_def GET_INFO_def GET_MIN_def GET_MAX_def GET_DEF_def GET_RES_def GET_LEN_def)

end
