(* ===== verification/Libusb_Transfer.thy ===== *)
theory Libusb_Transfer
  imports Protocol_Props Pools
begin

text \<open>
  The transfers of the libusb back end: \<open>LibusbTransferOperator\<close> with the conversion of the status codes
  (\<open>trxstat2error\<close>, \<open>error2trxstat\<close> of \<open>LibusbDeviceHandler\<close>) and \<open>libusb_speed_to_usb_speed\<close>. libusb itself is
  not part of the sources: its enumerations are datatypes with its names, the fields of \<open>libusb_transfer\<close> are those the
  sources use, and a new transfer is what its documentation says: initialised, with the requested number of
  packet descriptors. What the documentation leaves open (the fields of a reused transfer, the bytes of
  allocated memory, whether an allocation succeeds) is an argument.
\<close>

section \<open>libusb\<close>

datatype libusb_transfer_status =
  Lu_completed | Lu_error | Lu_timed_out | Lu_cancelled | Lu_stall | Lu_no_device | Lu_overflow | Lu_unknown_status

datatype libusb_transfer_type = Type_control | Type_isochronous | Type_bulk | Type_interrupt

datatype libusb_transfer_flag = Lu_short_not_ok | Lu_add_zero_packet

text \<open>The length of a setup packet.\<close>

definition LIBUSB_CONTROL_SETUP_SIZE :: nat where "LIBUSB_CONTROL_SETUP_SIZE = 8"

record libusb_iso_packet =
  lip_length :: u32
  lip_actual_length :: u32
  lip_status :: libusb_transfer_status

record libusb_transfer =
  lt_flags :: "libusb_transfer_flag set"
  lt_endpoint :: u8
  lt_type :: libusb_transfer_type
  lt_status :: libusb_transfer_status
  lt_length :: nat
  lt_actual_length :: nat
  lt_buffer :: data
  lt_num_iso_packets :: nat
  lt_iso_packet_desc :: "libusb_iso_packet list"

datatype libusb_speed =
  Lu_speed_low | Lu_speed_full | Lu_speed_high | Lu_speed_super | Lu_speed_super_plus | Lu_speed_unknown

fun libusb_speed_to_usb_speed :: "libusb_speed \<Rightarrow> UsbSpeed" where
  "libusb_speed_to_usb_speed Lu_speed_low = Speed_Low"
| "libusb_speed_to_usb_speed Lu_speed_full = Speed_Full"
| "libusb_speed_to_usb_speed Lu_speed_high = Speed_High"
| "libusb_speed_to_usb_speed Lu_speed_super = Speed_Super"
| "libusb_speed_to_usb_speed Lu_speed_super_plus = Speed_SuperPlus"
| "libusb_speed_to_usb_speed Lu_speed_unknown = Speed_Unknown"

section \<open>Status codes\<close>

fun trxstat2error :: "libusb_transfer_status \<Rightarrow> u32" where
  "trxstat2error Lu_completed = urb_status_code StatusOK"
| "trxstat2error Lu_cancelled = urb_status_code StatusECONNRESET"
| "trxstat2error Lu_error = urb_status_code StatusEPIPE"
| "trxstat2error Lu_stall = urb_status_code StatusEPIPE"
| "trxstat2error Lu_timed_out = urb_status_code StatusEPIPE"
| "trxstat2error Lu_overflow = urb_status_code StatusEPIPE"
| "trxstat2error Lu_no_device = urb_status_code StatusESHUTDOWN"
| "trxstat2error Lu_unknown_status = urb_status_code StatusENOENT"

definition error2trxstat :: "u32 \<Rightarrow> libusb_transfer_status" where
  "error2trxstat e =
     (if e = urb_status_code StatusOK then Lu_completed
      else if e = urb_status_code StatusENOENT then Lu_error
      else if e = urb_status_code StatusECONNRESET then Lu_cancelled
      else if e = urb_status_code StatusETIMEDOUT then Lu_timed_out
      else if e = urb_status_code StatusEPIPE then Lu_stall
      else if e = urb_status_code StatusESHUTDOWN then Lu_no_device
      else if e = urb_status_code StatusEEOVERFLOW then Lu_overflow
      else Lu_error)"

section \<open>Allocation\<close>

definition LibusbTransferReset :: "libusb_transfer \<Rightarrow> libusb_transfer" where
  "LibusbTransferReset t = t\<lparr>lt_actual_length := 0, lt_status := Lu_completed, lt_num_iso_packets := 0\<rparr>"

text \<open>The pool keeps transfers without packet descriptors. \<open>le_pooled\<close> is the object the pool hands out (none when it
  is exhausted), \<open>le_library\<close> the fields of a transfer libusb allocates, \<open>le_malloc\<close> the bytes of the buffer.\<close>

record libusb_alloc_env =
  le_pooled :: "libusb_transfer option"
  le_library :: "nat \<Rightarrow> libusb_transfer option"
  le_malloc :: "nat \<Rightarrow> (nat \<Rightarrow> u8) option"

definition libusb_alloc_transfer :: "libusb_alloc_env \<Rightarrow> nat \<Rightarrow> libusb_transfer option" where
  "libusb_alloc_transfer e n =
     map_option (\<lambda>t. t\<lparr>lt_num_iso_packets := 0,
         lt_iso_packet_desc := replicate n \<lparr>lip_length = 0, lip_actual_length = 0, lip_status = Lu_completed\<rparr>\<rparr>)
       (le_library e n)"

definition lto_alloc_transfer_handle ::
    "libusb_alloc_env \<Rightarrow> nat \<Rightarrow> nat \<Rightarrow> UsbIpHeaderBasic \<Rightarrow> SetupPacket \<Rightarrow> libusb_transfer option" where
  "lto_alloc_transfer_handle e buffer_length num_iso_packets header setup_packet =
     Option.bind
       (if num_iso_packets = 0
        then (case le_pooled e of
                Some t \<Rightarrow> Some (LibusbTransferReset (t\<lparr>lt_iso_packet_desc := []\<rparr>))
              | None \<Rightarrow> libusb_alloc_transfer e 0)
        else map_option (\<lambda>t. t\<lparr>lt_num_iso_packets := num_iso_packets\<rparr>) (libusb_alloc_transfer e num_iso_packets))
       (\<lambda>t. let write_offset = (if h_ep header = 0 then LIBUSB_CONTROL_SETUP_SIZE else 0);
                actual_buffer_length = buffer_length + write_offset
            in map_option (\<lambda>b. t\<lparr>lt_buffer := map b [0..<actual_buffer_length], lt_length := actual_buffer_length\<rparr>)
                 (le_malloc e actual_buffer_length))"

text \<open>Where the object comes from and where it goes: \<open>from_library\<close> is the address of a transfer libusb allocates; the
  flag of \<open>lto_give\<close> says that libusb frees it.\<close>

definition lto_take :: "nat \<Rightarrow> nat \<Rightarrow> ObjectPool \<Rightarrow> nat \<times> ObjectPool" where
  "lto_take num_iso_packets from_library transfer_pool =
     (if num_iso_packets = 0
      then (case pool_alloc transfer_pool of (trx, p) \<Rightarrow> (if trx = 0 then from_library else trx, p))
      else (from_library, transfer_pool))"

definition lto_give :: "nat \<Rightarrow> nat \<Rightarrow> ObjectPool \<Rightarrow> bool \<times> ObjectPool" where
  "lto_give num_iso_packets trx transfer_pool =
     (if num_iso_packets = 0 then (case pool_free trx transfer_pool of (pooled, p) \<Rightarrow> (\<not> pooled, p))
      else (True, transfer_pool))"

section \<open>Packet descriptors\<close>

definition lto_get_iso_descriptor :: "libusb_transfer \<Rightarrow> nat \<Rightarrow> UsbIpIsoPacketDescriptor option" where
  "lto_get_iso_descriptor t index =
     (if index < length (lt_iso_packet_desc t)
      then (let iso = lt_iso_packet_desc t ! index
            in Some \<lparr>iso_offset = (\<Sum>p\<leftarrow>take index (lt_iso_packet_desc t). lip_length p), iso_length = lip_length iso,
                     iso_actual_length = lip_actual_length iso, iso_status = trxstat2error (lip_status iso)\<rparr>)
      else None)"

definition lto_set_iso_descriptor :: "libusb_transfer \<Rightarrow> nat \<Rightarrow> UsbIpIsoPacketDescriptor \<Rightarrow> libusb_transfer option" where
  "lto_set_iso_descriptor t index desc =
     (if index < length (lt_iso_packet_desc t)
      then Some (t\<lparr>lt_iso_packet_desc := (lt_iso_packet_desc t)
             [index := \<lparr>lip_length = iso_length desc, lip_actual_length = iso_actual_length desc,
                       lip_status = error2trxstat (iso_status desc)\<rparr>]\<rparr>)
      else None)"

section \<open>Sending and receiving\<close>

definition lto_transfer_is_in :: "libusb_transfer \<Rightarrow> bool" where
  "lto_transfer_is_in t =
     (if lt_type t = Type_control then hd (lt_buffer t) AND 0x80 \<noteq> 0 else lt_endpoint t AND 0x80 \<noteq> 0)"

text \<open>The packets of an answer, from the slot at \<open>offset\<close> on: their data and their descriptors.\<close>

primrec iso_packets_out :: "bool \<Rightarrow> data \<Rightarrow> libusb_iso_packet list \<Rightarrow> u32 \<Rightarrow> (data \<times> data) option" where
  "iso_packets_out need_to_send_buffer buf [] offset = Some ([], [])"
| "iso_packets_out need_to_send_buffer buf (p # ps) offset =
     Option.bind (if need_to_send_buffer then slice (unat offset) (unat (lip_actual_length p)) buf else Some []) (\<lambda>b.
       map_option (\<lambda>(bs, ds).
           (b @ bs,
            iso_to_bytes \<lparr>iso_offset = offset, iso_length = lip_length p, iso_actual_length = lip_actual_length p,
              iso_status = trxstat2error (lip_status p)\<rparr> @ ds))
         (iso_packets_out need_to_send_buffer buf ps (offset + lip_length p)))"

definition lto_send_transfer_data :: "libusb_transfer \<Rightarrow> nat \<Rightarrow> tcp_out \<Rightarrow> (sys_error option \<times> tcp_out) option" where
  "lto_send_transfer_data t len w =
     (if lt_type t = Type_isochronous \<and> 0 < lt_num_iso_packets t
      then (if length (lt_iso_packet_desc t) < lt_num_iso_packets t then None
            else map_option (\<lambda>(bs, ds). asio_write (bs @ ds) w)
                   (iso_packets_out (0 < len) (lt_buffer t) (take (lt_num_iso_packets t) (lt_iso_packet_desc t)) 0))
      else if 0 < len
      then map_option (\<lambda>b. asio_write b w)
             (slice (if lt_type t = Type_control then LIBUSB_CONTROL_SETUP_SIZE else 0) len (lt_buffer t))
      else Some (None, w))"

text \<open>The descriptor loop: \<open>n\<close> packets are left.\<close>

primrec recv_iso_packets :: "nat \<Rightarrow> nat \<Rightarrow> libusb_transfer \<Rightarrow> tcp_in \<Rightarrow> (sys_error + (libusb_transfer \<times> tcp_in)) option" where
  "recv_iso_packets 0 total_length t s = Some (Inr (t, s))"
| "recv_iso_packets (Suc n) total_length t s =
     (case iso_from_socket s of
        Inl e \<Rightarrow> Some (Inl e)
      | Inr (d, s1) \<Rightarrow>
          if iso_length d < iso_actual_length d \<or> lt_length t < total_length + unat (iso_length d)
          then Some (Inl Errc_invalid_argument)
          else Option.bind (lto_set_iso_descriptor t (lt_num_iso_packets t - Suc n) d)
                 (\<lambda>t1. recv_iso_packets n (total_length + unat (iso_length d)) t1 s1))"

definition lto_recv_transfer_data ::
    "libusb_transfer \<Rightarrow> nat \<Rightarrow> tcp_in \<Rightarrow> (sys_error + (libusb_transfer \<times> tcp_in)) option" where
  "lto_recv_transfer_data t len s =
     (let is_control = (len < lt_length t); off = (if is_control then LIBUSB_CONTROL_SETUP_SIZE else 0)
      in if 0 < len \<and> length (lt_buffer t) < off + len then None
         else (case (if 0 < len then asio_read len s else Inr ([], s)) of
                 Inl e \<Rightarrow> Some (Inl e)
               | Inr (b, s1) \<Rightarrow>
                   recv_iso_packets (lt_num_iso_packets t) 0
                     (if 0 < len then t\<lparr>lt_buffer := memcpy_at off b (lt_buffer t)\<rparr> else t) s1))"

text \<open>The operator; \<open>set_transfer_data\<close> and \<open>get_transfer_data\<close> are the defaults of the base class.\<close>

definition LibusbTransferOperator :: "libusb_alloc_env \<Rightarrow> libusb_transfer TransferOperator" where
  "LibusbTransferOperator e =
     \<lparr>alloc_transfer_handle = lto_alloc_transfer_handle e, get_actual_length = lt_actual_length,
      set_transfer_data = (\<lambda>t d n. (0, t)), get_transfer_data = (\<lambda>t. None), transfer_is_in = lto_transfer_is_in,
      send_transfer_data = lto_send_transfer_data, recv_transfer_data = lto_recv_transfer_data\<rparr>"

section \<open>Decoding\<close>

text \<open>What the library may rely on when it gets a transfer: the buffer has the length of the transfer, and the
  slots of the packets lie inside it one after the other, with their data inside the slots.\<close>

definition iso_slots_ok :: "nat \<Rightarrow> libusb_iso_packet list \<Rightarrow> bool" where
  "iso_slots_ok n ps \<longleftrightarrow>
     (\<Sum>p\<leftarrow>ps. unat (lip_length p)) \<le> n \<and> (\<forall>p \<in> set ps. lip_actual_length p \<le> lip_length p)"

definition libusb_transfer_ok :: "libusb_transfer \<Rightarrow> bool" where
  "libusb_transfer_ok t \<longleftrightarrow>
     length (lt_buffer t) = lt_length t \<and> length (lt_iso_packet_desc t) = lt_num_iso_packets t \<and>
     iso_slots_ok (lt_length t) (lt_iso_packet_desc t)"

lemma recv_iso_packets_ok:
  assumes "length (lt_iso_packet_desc t) = lt_num_iso_packets t" and "n \<le> lt_num_iso_packets t"
    and "tot = (\<Sum>p\<leftarrow>take (lt_num_iso_packets t - n) (lt_iso_packet_desc t). unat (lip_length p))"
    and "iso_slots_ok (lt_length t) (take (lt_num_iso_packets t - n) (lt_iso_packet_desc t))"
  shows "\<exists>r. recv_iso_packets n tot t s = Some r \<and>
    (\<forall>t' s'. r = Inr (t', s') \<longrightarrow> (\<exists>ps. t' = t\<lparr>lt_iso_packet_desc := ps\<rparr> \<and> length ps = lt_num_iso_packets t \<and>
       iso_slots_ok (lt_length t) ps))"
  using assms
proof (induction n arbitrary: tot t s)
  case 0
  then show ?case by (auto intro!: exI[of _ "lt_iso_packet_desc t"])
next
  case (Suc n)
  let ?i = "lt_num_iso_packets t - Suc n"
  have i: "?i < length (lt_iso_packet_desc t)" "lt_num_iso_packets t - n = Suc ?i" using Suc.prems by auto
  show ?case
  proof (cases "iso_from_socket s")
    case (Inr x)
    obtain d s1 where d: "iso_from_socket s = Inr (d, s1)" using Inr by (cases x) auto
    show ?thesis
    proof (cases "iso_length d < iso_actual_length d \<or> lt_length t < tot + unat (iso_length d)")
      case False
      let ?p = "\<lparr>lip_length = iso_length d, lip_actual_length = iso_actual_length d, lip_status = error2trxstat (iso_status d)\<rparr>"
      let ?t = "t\<lparr>lt_iso_packet_desc := (lt_iso_packet_desc t)[?i := ?p]\<rparr>"
      have set: "lto_set_iso_descriptor t ?i d = Some ?t" using i(1) by (simp add: lto_set_iso_descriptor_def)
      have tk: "take (lt_num_iso_packets t - n) ((lt_iso_packet_desc t)[?i := ?p]) = take ?i (lt_iso_packet_desc t) @ [?p]"
        using i by (simp add: take_Suc_conv_app_nth)
      have sum: "tot + unat (iso_length d) = (\<Sum>p\<leftarrow>take (lt_num_iso_packets t - n) (lt_iso_packet_desc ?t). unat (lip_length p))"
        using Suc.prems(3) tk by simp
      have "iso_slots_ok (lt_length ?t) (take (lt_num_iso_packets t - n) (lt_iso_packet_desc ?t))"
        using Suc.prems(3,4) False tk by (auto simp: iso_slots_ok_def)
      with Suc.IH[of ?t "tot + unat (iso_length d)" s1] sum Suc.prems(1,2)
      obtain r where "recv_iso_packets n (tot + unat (iso_length d)) ?t s1 = Some r"
        "\<forall>t' s'. r = Inr (t', s') \<longrightarrow> (\<exists>ps. t' = ?t\<lparr>lt_iso_packet_desc := ps\<rparr> \<and> length ps = lt_num_iso_packets t \<and>
           iso_slots_ok (lt_length t) ps)" by auto
      then show ?thesis using d set False by simp
    qed (use d in simp)
  qed simp
qed

lemma lto_alloc_ok:
  assumes "lto_alloc_transfer_handle e len niso h sp = Some t"
  shows "libusb_transfer_ok t" and "lt_num_iso_packets t = niso"
    and "lt_length t = len + (if h_ep h = 0 then LIBUSB_CONTROL_SETUP_SIZE else 0)"
  using assms
  by (auto simp: lto_alloc_transfer_handle_def libusb_transfer_ok_def libusb_alloc_transfer_def LibusbTransferReset_def
      iso_slots_ok_def Let_def bind_eq_Some_conv map_replicate_const sum_list_replicate split: if_splits option.splits)

text \<open>The buffer of a control transfer has room for the setup packet in front of the data.\<close>

definition data_capacity :: "libusb_transfer \<Rightarrow> nat \<Rightarrow> bool" where
  "data_capacity t len \<longleftrightarrow> lt_length t = len \<or> lt_length t = len + LIBUSB_CONTROL_SETUP_SIZE"

lemma lto_recv_ok:
  assumes "libusb_transfer_ok t" and "len = 0 \<or> data_capacity t len"
  shows "\<exists>r. lto_recv_transfer_data t len s = Some r \<and>
    (\<forall>t' s'. r = Inr (t', s') \<longrightarrow> libusb_transfer_ok t' \<and> lt_length t' = lt_length t \<and>
       lt_num_iso_packets t' = lt_num_iso_packets t)"
proof (cases "if 0 < len then asio_read len s else Inr ([], s)")
  case (Inl e)
  then show ?thesis using assms
    by (auto simp: lto_recv_transfer_data_def libusb_transfer_ok_def data_capacity_def Let_def LIBUSB_CONTROL_SETUP_SIZE_def
        split: if_splits)
next
  case (Inr x)
  obtain b s1 where b: "(if 0 < len then asio_read len s else Inr ([], s)) = Inr (b, s1)" using Inr by (cases x) auto
  let ?off = "if len < lt_length t then LIBUSB_CONTROL_SETUP_SIZE else 0"
  let ?t = "if 0 < len then t\<lparr>lt_buffer := memcpy_at ?off b (lt_buffer t)\<rparr> else t"
  have fit: "0 < len \<Longrightarrow> ?off + len \<le> length (lt_buffer t)"
    using assms by (auto simp: libusb_transfer_ok_def data_capacity_def)
  have lb: "0 < len \<Longrightarrow> length b = len" using b asio_read_length by (auto split: if_splits)
  have "0 < len \<Longrightarrow> length (memcpy_at ?off b (lt_buffer t)) = length (lt_buffer t)"
    by (rule length_memcpy_at) (use fit lb in simp)
  then have ok: "libusb_transfer_ok ?t" "lt_length ?t = lt_length t" "lt_num_iso_packets ?t = lt_num_iso_packets t"
    using assms(1) by (simp_all add: libusb_transfer_ok_def)
  have "lto_recv_transfer_data t len s = recv_iso_packets (lt_num_iso_packets t) 0 ?t s1"
    using b fit by (auto simp: lto_recv_transfer_data_def Let_def split: sum.splits)
  moreover have "\<exists>r. recv_iso_packets (lt_num_iso_packets ?t) 0 ?t s1 = Some r \<and>
    (\<forall>t' s'. r = Inr (t', s') \<longrightarrow> (\<exists>ps. t' = ?t\<lparr>lt_iso_packet_desc := ps\<rparr> \<and> length ps = lt_num_iso_packets ?t \<and>
       iso_slots_ok (lt_length ?t) ps))"
    by (rule recv_iso_packets_ok) (use ok(1) in \<open>simp_all add: libusb_transfer_ok_def iso_slots_ok_def\<close>)
  ultimately show ?thesis using ok unfolding libusb_transfer_ok_def by auto
qed

lemma recv_iso_packets_shape:
  "recv_iso_packets n k t s = Some (Inr (t', s')) \<Longrightarrow>
   lt_length t' = lt_length t \<and> lt_num_iso_packets t' = lt_num_iso_packets t"
  by (induction n arbitrary: k t s)
     (auto simp: lto_set_iso_descriptor_def bind_eq_Some_conv split: sum.splits if_splits prod.splits)

interpretation libusb_operator: transfer_receiver "LibusbTransferOperator e" lt_length lt_num_iso_packets
  for e
proof unfold_locales
  fix len niso h sp t n s
  assume a: "alloc_transfer_handle (LibusbTransferOperator e) len niso h sp = Some t"
  then have t: "lto_alloc_transfer_handle e len niso h sp = Some t" by (simp add: LibusbTransferOperator_def)
  show "len \<le> lt_length t \<and> lt_num_iso_packets t = niso" using lto_alloc_ok[OF t] by simp
  assume "n = 0 \<or> n = len"
  then have "n = 0 \<or> data_capacity t n" using lto_alloc_ok(3)[OF t] by (auto simp: data_capacity_def)
  from lto_recv_ok[OF lto_alloc_ok(1)[OF t] this, of s]
  show "recv_transfer_data (LibusbTransferOperator e) t n s \<noteq> None" by (auto simp: LibusbTransferOperator_def)
next
  fix t len s t' s'
  assume "recv_transfer_data (LibusbTransferOperator e) t len s = Some (Inr (t', s'))"
  then show "lt_length t' = lt_length t \<and> lt_num_iso_packets t' = lt_num_iso_packets t"
    by (auto simp: LibusbTransferOperator_def lto_recv_transfer_data_def Let_def
        split: if_splits sum.splits prod.splits dest!: recv_iso_packets_shape)
qed

section \<open>Answers\<close>

text \<open>The slots of the packets inside the buffer: what is sent are the bytes of each slot and the descriptors that
  \<open>get_iso_descriptor\<close> reports, in packet order.\<close>

lemma iso_packets_out_ok:
  assumes "iso_slots_ok m ps" and "unat off + (\<Sum>p\<leftarrow>ps. unat (lip_length p)) \<le> length buf" and "length buf < 2 ^ 32"
  shows "iso_packets_out need buf ps off \<noteq> None"
  using assms
proof (induction ps arbitrary: off)
  case (Cons p ps)
  have p: "unat (lip_actual_length p) \<le> unat (lip_length p)" using Cons.prems(1) by (simp add: iso_slots_ok_def word_le_nat_alt)
  have "unat off + unat (lip_length p) < 2 ^ LENGTH(32)" using Cons.prems by simp
  then have o: "unat (off + lip_length p) = unat off + unat (lip_length p)" by (rule unat_add_lem[THEN iffD1])
  have "iso_slots_ok m ps" using Cons.prems(1) by (auto simp: iso_slots_ok_def)
  then have "iso_packets_out need buf ps (off + lip_length p) \<noteq> None"
    by (rule Cons.IH) (use o Cons.prems in simp_all)
  moreover have "slice (unat off) (unat (lip_actual_length p)) buf \<noteq> None"
    using p Cons.prems(2) by (simp add: slice_def)
  ultimately show ?case by auto
qed simp

lemma iso_packets_out_descriptors:
  assumes "iso_packets_out need buf ps off = Some (bs, ds)"
  shows "ds = concat (map (\<lambda>i. iso_to_bytes \<lparr>iso_offset = off + (\<Sum>p\<leftarrow>take i ps. lip_length p), iso_length = lip_length (ps ! i),
      iso_actual_length = lip_actual_length (ps ! i), iso_status = trxstat2error (lip_status (ps ! i))\<rparr>) [0..<length ps])"
  using assms
proof (induction ps arbitrary: off bs ds)
  case (Cons p ps)
  obtain bs' ds' where r: "iso_packets_out need buf ps (off + lip_length p) = Some (bs', ds')"
    "ds = iso_to_bytes \<lparr>iso_offset = off, iso_length = lip_length p, iso_actual_length = lip_actual_length p,
       iso_status = trxstat2error (lip_status p)\<rparr> @ ds'"
    using Cons.prems by (auto simp: bind_eq_Some_conv)
  have "[0..<length (p # ps)] = 0 # map Suc [0..<length ps]" by (simp add: map_Suc_upt upt_conv_Cons del: upt_Suc)
  then show ?case using r(2) Cons.IH[OF r(1)] by (simp add: o_def add.assoc del: upt_Suc)
qed simp

text \<open>An answer of an isochronous transfer the library left inside its slots is sent without leaving the buffer.\<close>

lemma lto_send_iso_ok:
  assumes "libusb_transfer_ok t" and "lt_type t = Type_isochronous" and "lt_length t < 2 ^ 32"
    and "len = 0 \<or> 0 < lt_num_iso_packets t"
  shows "lto_send_transfer_data t len w \<noteq> None"
proof -
  have "iso_packets_out (0 < len) (lt_buffer t) (lt_iso_packet_desc t) 0 \<noteq> None"
    by (rule iso_packets_out_ok[of "lt_length t"]) (use assms in \<open>auto simp: libusb_transfer_ok_def iso_slots_ok_def\<close>)
  then show ?thesis using assms(1,2,4) by (auto simp: lto_send_transfer_data_def libusb_transfer_ok_def)
qed

text \<open>Which status codes of a packet survive the library: a timeout and an overflow come back as \<open>EPIPE\<close>.\<close>

lemma status_roundtrip:
  "trxstat2error (error2trxstat (urb_status_code x)) =
     (if x \<in> {StatusOK, StatusECONNRESET, StatusESHUTDOWN} then urb_status_code x else urb_status_code StatusEPIPE)"
  by (cases x) (simp_all add: error2trxstat_def)

text \<open>A transfer goes back to where it came from.\<close>

lemma lto_take_give:
  assumes "pool_inv p" and "lto_take n lib p = (trx, p')" and "lib \<notin> pool_objects p"
  shows "pool_inv p' \<and> (fst (lto_give n trx p') \<longleftrightarrow> trx = lib)"
proof (cases "n = 0 \<and> op_free_top p \<noteq> 0")
  case True
  obtain obj q where al: "pool_alloc p = (obj, q)" by fastforce
  have q: "pool_inv q" "obj \<noteq> 0" "obj \<in> pool_objects p" "obj \<in> pool_in_use q"
    using pool_alloc_spec[OF assms(1) al] True by auto
  have t: "trx = obj" "p' = q" using assms(2) True al q(2) by (simp_all add: lto_take_def)
  obtain b r where f: "pool_free obj q = (b, r)" by fastforce
  have "b" using pool_free_succeeds[OF q(1,4) f] by blast
  then show ?thesis using True t f q(1,3) assms(3) by (auto simp: lto_give_def)
next
  case False
  then have t: "trx = lib" "p' = p"
    using assms(2) by (auto simp: lto_take_def pool_alloc_def split: if_splits prod.splits)
  have "lib \<notin> pool_in_use p" using assms(3) by (force simp: pool_in_use_def pool_objects_def)
  then have "pool_free lib p = (False, p)" by (rule pool_free_fails[OF assms(1)])
  then show ?thesis using t assms(1) by (simp add: lto_give_def)
qed

end
