(* ===== verification/Libusb_Device.thy ===== *)
theory Libusb_Device
  imports Libusb_Transfer
begin

text \<open>
  \<open>LibusbDeviceHandler\<close> without its transfers: the state of the handler, the transfer flags, the
  requests that are handled with a library call of their own, and opening, claiming and releasing a
  device. The calls to libusb are recorded in a trace with their outcomes; an outcome is an argument
  that may depend on all calls before (\<open>None\<close> is success).
\<close>

section \<open>Calls to the library\<close>

datatype libusb_error =
  Err_no_device | Err_not_found | Err_not_supported | Err_interrupted | Err_other

datatype libusb_call =
  Call_open | Call_wrap_sys_device int | Call_get_config | Call_free_config | Call_close
| Call_detach_kernel_driver nat | Call_attach_kernel_driver nat
| Call_claim_interface nat | Call_release_interface nat | Call_set_alt_setting nat nat
| Call_clear_halt u16

type_synonym libusb_trace = "(libusb_call \<times> libusb_error option) list"

type_synonym libusb_oracle = "libusb_trace \<Rightarrow> libusb_call \<Rightarrow> libusb_error option"

definition lu_call :: "libusb_oracle \<Rightarrow> libusb_call \<Rightarrow> libusb_trace \<Rightarrow> libusb_error option \<times> libusb_trace" where
  "lu_call lib c tr = (lib tr c, tr @ [(c, lib tr c)])"

section \<open>State\<close>

datatype LibusbSubmitErrorPolicy = DisconnectOnAnyError | DisconnectOnDeviceGone

record LibusbDeviceHandler =
  lh_device :: UsbDevice
  lh_responder :: bool
  lh_client_disconnection :: bool
  lh_device_removed :: bool
  lh_transfers :: "(u32 \<times> nat) list"
  lh_pending_count :: nat
  lh_args_pool :: ObjectPool
  lh_submit_error_policy :: LibusbSubmitErrorPolicy
  lh_native_handle :: bool
  lh_native_device :: bool
  lh_wrapped_fd :: int
  lh_interfaces_claimed :: bool

text \<open>Both constructors; the pool gets the addresses of its objects.\<close>

definition LibusbDeviceHandler_new :: "nat list \<Rightarrow> UsbDevice \<Rightarrow> LibusbSubmitErrorPolicy \<Rightarrow> LibusbDeviceHandler" where
  "LibusbDeviceHandler_new objects device policy =
     \<lparr>lh_device = device, lh_responder = False, lh_client_disconnection = False, lh_device_removed = False,
      lh_transfers = [], lh_pending_count = 0, lh_args_pool = ObjectPool_new objects, lh_submit_error_policy = policy,
      lh_native_handle = False, lh_native_device = True, lh_wrapped_fd = -1, lh_interfaces_claimed = False\<rparr>"

definition LibusbDeviceHandler_new_fd ::
    "nat list \<Rightarrow> UsbDevice \<Rightarrow> int \<Rightarrow> LibusbSubmitErrorPolicy \<Rightarrow> LibusbDeviceHandler" where
  "LibusbDeviceHandler_new_fd objects device fd policy =
     (LibusbDeviceHandler_new objects device policy)\<lparr>lh_native_device := False, lh_wrapped_fd := fd\<rparr>"

definition lh_is_device_removed :: "LibusbDeviceHandler \<Rightarrow> bool" where
  "lh_is_device_removed h = lh_device_removed h"

definition lh_on_device_removed :: "LibusbDeviceHandler \<Rightarrow> LibusbDeviceHandler" where
  "lh_on_device_removed h = h\<lparr>lh_device_removed := True\<rparr>"

definition should_disconnect_on_submit_error :: "libusb_error \<Rightarrow> LibusbSubmitErrorPolicy \<Rightarrow> bool" where
  "should_disconnect_on_submit_error err policy \<longleftrightarrow> err = Err_no_device \<or> policy = DisconnectOnAnyError"

section \<open>Flags\<close>

definition URB_SHORT_NOT_OK :: u32 where "URB_SHORT_NOT_OK = 0x0001"
definition URB_ZERO_PACKET :: u32 where "URB_ZERO_PACKET = 0x0040"

definition get_libusb_transfer_flags :: "u32 \<Rightarrow> libusb_transfer_flag set" where
  "get_libusb_transfer_flags n =
     (if n AND URB_SHORT_NOT_OK \<noteq> 0 then {Lu_short_not_ok} else {}) \<union>
     (if n AND URB_ZERO_PACKET \<noteq> 0 then {Lu_add_zero_packet} else {})"

definition masking_bogus_flags :: "bool \<Rightarrow> libusb_transfer \<Rightarrow> libusb_transfer" where
  "masking_bogus_flags is_out t =
     (let allowed =
        (if lt_type t = Type_isochronous then {}
         else (if lt_type t = Type_bulk \<and> is_out then {Lu_add_zero_packet} else {}) \<union>
              (if \<not> is_out then {Lu_short_not_ok} else {}))
      in t\<lparr>lt_flags := lt_flags t \<inter> allowed\<rparr>)"

section \<open>Requests with a call of their own\<close>

text \<open>The result 0, an error of the library, or -1 for a request that is not special.\<close>

datatype tweak_result = Tweak_done | Tweak_failed libusb_error | Tweak_none

definition tweak_clear_halt_cmd :: "libusb_oracle \<Rightarrow> SetupPacket \<Rightarrow> libusb_trace \<Rightarrow> tweak_result \<times> libusb_trace" where
  "tweak_clear_halt_cmd lib sp tr =
     (case lu_call lib (Call_clear_halt (sp_index sp)) tr of
        (None, tr1) \<Rightarrow> (Tweak_done, tr1) | (Some e, tr1) \<Rightarrow> (Tweak_failed e, tr1))"

text \<open>The first interface with the number gets the alternate setting, if it has that many.\<close>

primrec switch_altsetting :: "u16 \<Rightarrow> u16 \<Rightarrow> UsbInterface list \<Rightarrow> UsbInterface list" where
  "switch_altsetting num alternate [] = []"
| "switch_altsetting num alternate (i # is') =
     (if ucast (interface_number i) \<noteq> num then i # switch_altsetting num alternate is'
      else (if unat alternate < length (endpoints i) then i\<lparr>current_altsetting := ucast alternate\<rparr> else i) # is')"

definition tweak_set_interface_cmd ::
    "libusb_oracle \<Rightarrow> SetupPacket \<Rightarrow> LibusbDeviceHandler \<Rightarrow> libusb_trace \<Rightarrow>
     tweak_result \<times> LibusbDeviceHandler \<times> libusb_trace" where
  "tweak_set_interface_cmd lib sp h tr =
     (case lu_call lib (Call_set_alt_setting (unat (sp_index sp)) (unat (sp_value sp))) tr of
        (Some e, tr1) \<Rightarrow> (Tweak_failed e, h, tr1)
      | (None, tr1) \<Rightarrow>
          (Tweak_done,
           h\<lparr>lh_device := (lh_device h)\<lparr>ud_interfaces :=
               switch_altsetting (sp_index sp) (sp_value sp) (ud_interfaces (lh_device h))\<rparr>\<rparr>, tr1))"

definition tweak_set_configuration_cmd :: "SetupPacket \<Rightarrow> tweak_result" where
  "tweak_set_configuration_cmd sp = Tweak_none"

definition tweak_reset_device_cmd :: "SetupPacket \<Rightarrow> tweak_result" where
  "tweak_reset_device_cmd sp = Tweak_done"

definition tweak_special_requests ::
    "libusb_oracle \<Rightarrow> SetupPacket \<Rightarrow> LibusbDeviceHandler \<Rightarrow> libusb_trace \<Rightarrow>
     tweak_result \<times> LibusbDeviceHandler \<times> libusb_trace" where
  "tweak_special_requests lib sp h tr =
     (if is_clear_halt_cmd sp then (case tweak_clear_halt_cmd lib sp tr of (r, tr1) \<Rightarrow> (r, h, tr1))
      else if is_set_interface_cmd sp then tweak_set_interface_cmd lib sp h tr
      else if is_set_configuration_cmd sp then (tweak_set_configuration_cmd sp, h, tr)
      else if is_reset_device_cmd sp then (tweak_reset_device_cmd sp, h, tr)
      else (Tweak_none, h, tr))"

section \<open>Opening and releasing\<close>

text \<open>The calls without a result to look at.\<close>

definition lu_do :: "libusb_oracle \<Rightarrow> libusb_call \<Rightarrow> libusb_trace \<Rightarrow> libusb_trace" where
  "lu_do lib c tr = snd (lu_call lib c tr)"

definition interface_number_at :: "UsbDevice \<Rightarrow> nat \<Rightarrow> nat" where
  "interface_number_at dev i =
     (if i < length (ud_interfaces dev) then unat (interface_number (ud_interfaces dev ! i)) else i)"

text \<open>The way back when the interface at \<open>i\<close> cannot be claimed. With a wrapped file descriptor the interfaces
  before it are released, but their drivers not attached.\<close>

definition claim_rollback :: "libusb_oracle \<Rightarrow> bool \<Rightarrow> UsbDevice \<Rightarrow> nat \<Rightarrow> libusb_trace \<Rightarrow> libusb_trace" where
  "claim_rollback lib wrapped dev i tr =
     (let tr1 = lu_do lib (Call_attach_kernel_driver (interface_number_at dev i)) tr;
          tr2 = fold (\<lambda>j t.
                   (let t1 = lu_do lib (Call_release_interface (interface_number_at dev j)) t
                    in if wrapped then t1 else lu_do lib (Call_attach_kernel_driver (interface_number_at dev j)) t1))
                [0..<i] tr1
      in lu_do lib Call_close (lu_do lib Call_free_config tr2))"

text \<open>The claim loop: \<open>n\<close> interfaces are left from index \<open>i\<close> on.\<close>

primrec claim_interfaces ::
    "libusb_oracle \<Rightarrow> bool \<Rightarrow> UsbDevice \<Rightarrow> nat \<Rightarrow> nat \<Rightarrow> libusb_trace \<Rightarrow> bool \<times> libusb_trace" where
  "claim_interfaces lib wrapped dev 0 i tr = (True, tr)"
| "claim_interfaces lib wrapped dev (Suc n) i tr =
     (let tr1 = lu_do lib (Call_detach_kernel_driver (interface_number_at dev i)) tr
      in case lu_call lib (Call_claim_interface (interface_number_at dev i)) tr1 of
           (None, tr2) \<Rightarrow> claim_interfaces lib wrapped dev n (Suc i) tr2
         | (Some e, tr2) \<Rightarrow> (False, claim_rollback lib wrapped dev i tr2))"

text \<open>Afterwards every interface gets its first alternate setting.\<close>

definition reset_altsettings ::
    "libusb_oracle \<Rightarrow> nat \<Rightarrow> UsbDevice \<Rightarrow> libusb_trace \<Rightarrow> UsbDevice \<times> libusb_trace" where
  "reset_altsettings lib n dev tr =
     (dev\<lparr>ud_interfaces := map (\<lambda>i. i\<lparr>current_altsetting := 0\<rparr>) (take n (ud_interfaces dev)) @ drop n (ud_interfaces dev)\<rparr>,
      fold (\<lambda>i t. lu_do lib (Call_set_alt_setting (interface_number_at dev i) 0) t) [0..<n] tr)"

text \<open>\<open>num_interfaces\<close> is the number of interfaces of the configuration descriptor. The two modes differ in the call
  that opens the device.\<close>

definition claim_device ::
    "libusb_oracle \<Rightarrow> bool \<Rightarrow> nat \<Rightarrow> LibusbDeviceHandler \<Rightarrow> libusb_trace \<Rightarrow> bool \<times> LibusbDeviceHandler \<times> libusb_trace" where
  "claim_device lib wrapped num_interfaces h tr =
     (case lu_call lib Call_get_config tr of
        (Some e, tr1) \<Rightarrow> (False, h\<lparr>lh_native_handle := False\<rparr>, lu_do lib Call_close tr1)
      | (None, tr1) \<Rightarrow>
          (case claim_interfaces lib wrapped (lh_device h) num_interfaces 0 tr1 of
             (False, tr2) \<Rightarrow> (False, h\<lparr>lh_native_handle := False\<rparr>, tr2)
           | (True, tr2) \<Rightarrow>
               (case reset_altsettings lib num_interfaces (lh_device h) tr2 of
                  (dev, tr3) \<Rightarrow>
                    (True, h\<lparr>lh_device := dev, lh_native_handle := True, lh_interfaces_claimed := True\<rparr>,
                     lu_do lib Call_free_config tr3))))"

definition open_and_claim_device ::
    "libusb_oracle \<Rightarrow> nat \<Rightarrow> LibusbDeviceHandler \<Rightarrow> libusb_trace \<Rightarrow> bool \<times> LibusbDeviceHandler \<times> libusb_trace" where
  "open_and_claim_device lib num_interfaces h tr =
     (if \<not> lh_native_device h then (False, h, tr)
      else (case lu_call lib Call_open tr of
              (Some e, tr1) \<Rightarrow> (False, h, tr1)
            | (None, tr1) \<Rightarrow> claim_device lib False num_interfaces h tr1))"

definition wrap_fd_and_claim_interfaces ::
    "libusb_oracle \<Rightarrow> nat \<Rightarrow> LibusbDeviceHandler \<Rightarrow> libusb_trace \<Rightarrow> bool \<times> LibusbDeviceHandler \<times> libusb_trace" where
  "wrap_fd_and_claim_interfaces lib num_interfaces h tr =
     (if lh_wrapped_fd h < 0 then (False, h, tr)
      else (case lu_call lib (Call_wrap_sys_device (lh_wrapped_fd h)) tr of
              (Some e, tr1) \<Rightarrow> (False, h, tr1)
            | (None, tr1) \<Rightarrow> claim_device lib True num_interfaces h tr1))"

definition release_and_close_device ::
    "libusb_oracle \<Rightarrow> LibusbDeviceHandler \<Rightarrow> libusb_trace \<Rightarrow> LibusbDeviceHandler \<times> libusb_trace" where
  "release_and_close_device lib h tr =
     (if \<not> lh_native_handle h then (h, tr)
      else
        (let dev = lh_device h;
             tr1 = fold (\<lambda>i t. lu_do lib (Call_attach_kernel_driver (interface_number_at dev i))
                       (lu_do lib (Call_release_interface (interface_number_at dev i)) t))
                     [0..<length (ud_interfaces dev)] tr
         in (h\<lparr>lh_interfaces_claimed := False, lh_native_handle := False\<rparr>, lu_do lib Call_close tr1)))"

text \<open>\<open>on_new_connection\<close>: the device is opened in the mode of its constructor. A failure takes the
  registration of the session back.\<close>

definition lh_on_new_connection ::
    "libusb_oracle \<Rightarrow> nat \<Rightarrow> LibusbDeviceHandler \<Rightarrow> libusb_trace \<Rightarrow>
     ErrorType option \<times> LibusbDeviceHandler \<times> libusb_trace" where
  "lh_on_new_connection lib num_interfaces h tr =
     (let h1 = h\<lparr>lh_responder := True\<rparr>
      in case (if lh_native_device h then open_and_claim_device lib num_interfaces h1 tr
               else if 0 \<le> lh_wrapped_fd h then wrap_fd_and_claim_interfaces lib num_interfaces h1 tr
               else (True, h1, tr)) of
           (False, h2, tr2) \<Rightarrow> (Some NO_DEVICE, h2\<lparr>lh_responder := False\<rparr>, tr2)
         | (True, h2, tr2) \<Rightarrow> (None, h2\<lparr>lh_client_disconnection := False\<rparr>, tr2))"

section \<open>What a connection leaves behind\<close>

text \<open>Read off a trace: whether the device is open, the interfaces that are claimed, and those whose driver was
  detached and not attached since.\<close>

record usb_claims =
  uc_open :: bool
  uc_claimed :: "nat set"
  uc_detached :: "nat set"

fun claim_effect :: "libusb_call \<times> libusb_error option \<Rightarrow> usb_claims \<Rightarrow> usb_claims" where
  "claim_effect (Call_open, None) u = u\<lparr>uc_open := True\<rparr>"
| "claim_effect (Call_wrap_sys_device fd, None) u = u\<lparr>uc_open := True\<rparr>"
| "claim_effect (Call_close, r) u = u\<lparr>uc_open := False\<rparr>"
| "claim_effect (Call_detach_kernel_driver n, None) u = u\<lparr>uc_detached := insert n (uc_detached u)\<rparr>"
| "claim_effect (Call_attach_kernel_driver n, r) u = u\<lparr>uc_detached := uc_detached u - {n}\<rparr>"
| "claim_effect (Call_claim_interface n, None) u = u\<lparr>uc_claimed := insert n (uc_claimed u)\<rparr>"
| "claim_effect (Call_release_interface n, r) u = u\<lparr>uc_claimed := uc_claimed u - {n}\<rparr>"
| "claim_effect e u = u"

definition no_claims :: usb_claims where "no_claims = \<lparr>uc_open = False, uc_claimed = {}, uc_detached = {}\<rparr>"

definition claims_of :: "libusb_trace \<Rightarrow> usb_claims" where
  "claims_of tr = fold claim_effect tr no_claims"

lemma claims_of_call [simp]:
  "claims_of (lu_do lib c tr) = claim_effect (c, lib tr c) (claims_of tr)"
  "lu_call lib c tr = (r, tr') \<Longrightarrow> claims_of tr' = claim_effect (c, r) (claims_of tr)"
  by (auto simp: claims_of_def lu_do_def lu_call_def)

lemma claim_effect_ignored [simp]:
  "claim_effect (Call_get_config, r) u = u" "claim_effect (Call_free_config, r) u = u"
  "claim_effect (Call_set_alt_setting n a, r) u = u" "claim_effect (Call_clear_halt ep, r) u = u"
  by (cases r; simp)+

text \<open>Releasing and attaching a list of interfaces.\<close>

lemma claims_give_back:
  "claims_of (fold (\<lambda>j t. lu_do lib (Call_attach_kernel_driver (f j)) (lu_do lib (Call_release_interface (f j)) t)) js tr) =
     (claims_of tr)\<lparr>uc_claimed := uc_claimed (claims_of tr) - f ` set js,
        uc_detached := uc_detached (claims_of tr) - f ` set js\<rparr>"
  by (induction js arbitrary: tr) (simp_all add: Diff_insert2[symmetric])

lemma claims_set_alt:
  "claims_of (fold (\<lambda>i t. lu_do lib (Call_set_alt_setting (f i) 0) t) js tr) = claims_of tr"
  by (induction js arbitrary: tr) auto

lemma claim_rollback_claims:
  assumes "uc_claimed (claims_of tr) \<subseteq> interface_number_at dev ` {0..<i}"
    and "uc_detached (claims_of tr) \<subseteq> interface_number_at dev ` {0..<Suc i}"
  shows "claims_of (claim_rollback lib False dev i tr) = no_claims"
proof -
  have "uc_claimed (claims_of tr) - interface_number_at dev ` {0..<i} = {}"
    "uc_detached (claims_of tr) - {interface_number_at dev i} - interface_number_at dev ` {0..<i} = {}"
    using assms by (auto simp: atLeast0_lessThan_Suc)
  then show ?thesis by (simp add: claim_rollback_def Let_def claims_give_back no_claims_def)
qed

lemma claim_interfaces_claims:
  assumes "uc_open (claims_of tr)" and "uc_claimed (claims_of tr) = interface_number_at dev ` {0..<i}"
    and "uc_detached (claims_of tr) \<subseteq> interface_number_at dev ` {0..<i}"
    and "claim_interfaces lib False dev n i tr = (ok, tr')"
  shows "if ok then uc_open (claims_of tr') \<and> uc_claimed (claims_of tr') = interface_number_at dev ` {0..<i + n} \<and>
      uc_detached (claims_of tr') \<subseteq> interface_number_at dev ` {0..<i + n}
    else claims_of tr' = no_claims"
  using assms
proof (induction n arbitrary: i tr)
  case (Suc n)
  let ?k = "interface_number_at dev i"
  let ?tr = "lu_do lib (Call_detach_kernel_driver ?k) tr"
  obtain r tr2 where c: "lu_call lib (Call_claim_interface ?k) ?tr = (r, tr2)" by fastforce
  have d: "uc_open (claims_of ?tr)" "uc_claimed (claims_of ?tr) = interface_number_at dev ` {0..<i}"
    "uc_detached (claims_of ?tr) \<subseteq> interface_number_at dev ` {0..<Suc i}"
    using Suc.prems(1-3) by (cases "lib tr (Call_detach_kernel_driver ?k)"; auto simp: atLeast0_lessThan_Suc)+
  show ?case
  proof (cases r)
    case None
    have "uc_open (claims_of tr2)" "uc_claimed (claims_of tr2) = interface_number_at dev ` {0..<Suc i}"
      "uc_detached (claims_of tr2) \<subseteq> interface_number_at dev ` {0..<Suc i}"
      using d claims_of_call(2)[OF c] None by (auto simp: atLeast0_lessThan_Suc)
    moreover have "claim_interfaces lib False dev n (Suc i) tr2 = (ok, tr')"
      using Suc.prems(4) c None by (simp add: Let_def)
    ultimately show ?thesis using Suc.IH[of tr2 "Suc i"] unfolding add_Suc_shift by blast
  next
    case (Some e)
    have u: "claims_of tr2 = claims_of ?tr" using claims_of_call(2)[OF c] Some by simp
    have "ok = False" "tr' = claim_rollback lib False dev i tr2" using Suc.prems(4) c Some by (simp_all add: Let_def)
    moreover have "claims_of (claim_rollback lib False dev i tr2) = no_claims"
      by (rule claim_rollback_claims) (use d u in auto)
    ultimately show ?thesis by simp
  qed
qed simp

lemma interface_numbers:
  "interface_number_at dev ` {0..<length (ud_interfaces dev)} = (\<lambda>i. unat (interface_number i)) ` set (ud_interfaces dev)"
  by (force simp: interface_number_at_def in_set_conv_nth image_iff)

lemma reset_altsettings_keeps:
  "reset_altsettings lib n dev tr = (dev', tr') \<Longrightarrow>
     length (ud_interfaces dev') = length (ud_interfaces dev) \<and> interface_number_at dev' = interface_number_at dev \<and>
     claims_of tr' = claims_of tr"
  by (auto simp: reset_altsettings_def claims_set_alt interface_number_at_def fun_eq_iff nth_append)



text \<open>With a wrapped file descriptor the interfaces before the one that cannot be claimed stay without their
  driver.\<close>

lemma wrapped_rollback_keeps_detached:
  "uc_detached (claims_of (snd (snd (wrap_fd_and_claim_interfaces
      (\<lambda>tr c. if c = Call_claim_interface 1 then Some Err_other else None) 2
      (LibusbDeviceHandler_new_fd [1] (default_device\<lparr>ud_interfaces := [default_interface,
         default_interface\<lparr>interface_number := 1\<rparr>]\<rparr>) 5 DisconnectOnAnyError) [])))) = {0}"
  by (simp add: wrap_fd_and_claim_interfaces_def claim_device_def claim_rollback_def LibusbDeviceHandler_new_fd_def
      LibusbDeviceHandler_new_def interface_number_at_def lu_call_def lu_do_def claims_of_def Let_def no_claims_def
      default_interface_def numeral_2_eq_2)

end
