(* ===== verification/Libusb_Urbs.thy ===== *)
theory Libusb_Urbs
  imports Libusb_Device
begin

text \<open>
  The transfers of \<open>LibusbDeviceHandler\<close>: \<open>receive_urb\<close>, \<open>handle_unlink_seqnum\<close>, \<open>transfer_callback\<close> and
  \<open>on_disconnection\<close> as the steps of two threads, the receiver of the session and the event thread of libusb.
  Callback arguments are objects at addresses, so a use after free and a double free can be told from
  correct runs: they are the outcome \<open>None\<close>, as is the use of a responder that is not
  registered. What a section of the code under \<open>transfers_mutex_\<close> does is one step, and the steps of one function are
  separate where another thread can run between them.
\<close>

section \<open>Filling transfers\<close>

text \<open>The inline functions of \<open>libusb.h\<close> that fill a transfer are parameters.\<close>

record libusb_fill =
  fill_control_setup :: "SetupPacket \<Rightarrow> data \<Rightarrow> data"
  fill_control_transfer :: "libusb_transfer \<Rightarrow> libusb_transfer"
  fill_bulk_transfer :: "u8 \<Rightarrow> nat \<Rightarrow> libusb_transfer \<Rightarrow> libusb_transfer"
  fill_interrupt_transfer :: "u8 \<Rightarrow> nat \<Rightarrow> libusb_transfer \<Rightarrow> libusb_transfer"
  fill_iso_transfer :: "u8 \<Rightarrow> nat \<Rightarrow> nat \<Rightarrow> libusb_transfer \<Rightarrow> libusb_transfer"

section \<open>State\<close>

record libusb_callback_args =
  ca_seqnum :: u32
  ca_is_out :: bool
  ca_transfer :: "libusb_transfer TransferHandle"
  ca_unlinking :: bool
  ca_unlink_cmd_seqnum :: u32

definition libusb_callback_args_reset :: libusb_callback_args where
  "libusb_callback_args_reset =
     \<lparr>ca_seqnum = 0, ca_is_out = False, ca_transfer = TransferHandle_empty, ca_unlinking = False,
      ca_unlink_cmd_seqnum = 0\<rparr>"

datatype responder_call =
  Enqueue_submit "libusb_transfer UsbIpRetSubmit" | Enqueue_unlink UsbIpRetUnlink | Wakeup_sender

text \<open>Where the threads are: the receiver between \<open>transfers_.emplace\<close> and the result of \<open>libusb_submit_transfer\<close>,
  or waiting in \<open>on_disconnection\<close>; the event thread in a callback, before and after its section under the lock. The
  flag says that the callback found the client disconnected.\<close>

datatype receiver_at = Rx_idle | Rx_submitting u32 nat | Rx_waiting | Rx_gone

datatype event_thread_at = Et_idle | Et_callback nat bool | Et_finish nat bool

text \<open>The last four fields are history: the requests taken on, the requests to cancel taken on, those whose
  number was overwritten by a second one for the same transfer, and the transfers dropped with the
  connection.\<close>

record libusb_world =
  lw_handler :: LibusbDeviceHandler
  lw_args :: "nat \<Rightarrow> libusb_callback_args option"
  lw_submitted :: "nat list"
  lw_rx :: receiver_at
  lw_et :: event_thread_at
  lw_sent :: "responder_call list"
  lw_trace :: libusb_trace
  lw_commands :: "u32 list"
  lw_unlinks :: "u32 list"
  lw_overwritten :: "u32 list"
  lw_settled :: "u32 list"
  lw_dropped :: "libusb_callback_args list"

definition set_handler :: "(LibusbDeviceHandler \<Rightarrow> LibusbDeviceHandler) \<Rightarrow> libusb_world \<Rightarrow> libusb_world" where
  "set_handler f w = w\<lparr>lw_handler := f (lw_handler w)\<rparr>"

definition set_args :: "nat \<Rightarrow> libusb_callback_args option \<Rightarrow> libusb_world \<Rightarrow> libusb_world" where
  "set_args a x w = w\<lparr>lw_args := (lw_args w)(a := x)\<rparr>"

definition respond :: "responder_call list \<Rightarrow> libusb_world \<Rightarrow> libusb_world option" where
  "respond rs w = (if lh_responder (lw_handler w) then Some (w\<lparr>lw_sent := lw_sent w @ rs\<rparr>) else None)"

definition epipe_reply :: "u32 \<Rightarrow> responder_call list" where
  "epipe_reply seqnum = [Enqueue_submit (create_ret_submit_epipe_without_data seqnum 0), Wakeup_sender]"

section \<open>Callback arguments\<close>

text \<open>From the pool, or from the heap when it is exhausted; back to where they came from. Freeing an object that is
  not allocated, or deleting one of the pool, is \<open>None\<close>.\<close>

definition alloc_args :: "nat \<Rightarrow> libusb_world \<Rightarrow> nat \<times> libusb_world" where
  "alloc_args heap w =
     (case pool_alloc (lh_args_pool (lw_handler w)) of
        (obj, p) \<Rightarrow>
          (let a = (if obj = 0 then heap else obj)
           in (a, set_args a (Some libusb_callback_args_reset) (set_handler (\<lambda>h. h\<lparr>lh_args_pool := p\<rparr>) w))))"

definition free_args :: "nat \<Rightarrow> libusb_world \<Rightarrow> libusb_world option" where
  "free_args a w =
     (if lw_args w a = None then None
      else (case pool_free a (lh_args_pool (lw_handler w)) of
              (pooled, p) \<Rightarrow>
                if \<not> pooled \<and> a \<in> set (map fst (op_pool p)) then None
                else Some (set_args a None (set_handler (\<lambda>h. h\<lparr>lh_args_pool := p\<rparr>) w))))"

section \<open>Receiving a URB\<close>

text \<open>A transfer that is not submitted: its arguments are freed, with the transfer, and the answer is \<open>EPIPE\<close>.\<close>

definition refuse_urb :: "u32 \<Rightarrow> nat \<Rightarrow> libusb_world \<Rightarrow> libusb_world option" where
  "refuse_urb seqnum a w = Option.bind (free_args a w) (respond (epipe_reply seqnum))"

text \<open>The filled transfer is tracked under its sequence number, unless that is in use.\<close>

definition track_urb ::
    "u32 \<Rightarrow> bool \<Rightarrow> libusb_transfer TransferHandle \<Rightarrow> nat \<Rightarrow> libusb_world \<Rightarrow> libusb_world option" where
  "track_urb seqnum is_out th heap w =
     (case alloc_args heap w of
        (a, w1) \<Rightarrow>
          (let w2 = set_args a (Some (libusb_callback_args_reset\<lparr>ca_seqnum := seqnum, ca_is_out := is_out,
                 ca_transfer := th\<rparr>)) w1
           in if map_of (lh_transfers (lw_handler w)) seqnum \<noteq> None then refuse_urb seqnum a w2
              else Some ((set_handler (\<lambda>h. h\<lparr>lh_transfers := (seqnum, a) # lh_transfers h,
                       lh_pending_count := lh_pending_count h + 1\<rparr>) w2)\<lparr>lw_rx := Rx_submitting seqnum a\<rparr>)))"

definition fill_by_type ::
    "libusb_fill \<Rightarrow> UsbEndpoint \<Rightarrow> nat \<Rightarrow> nat \<Rightarrow> libusb_transfer \<Rightarrow> libusb_transfer option" where
  "fill_by_type F ep len num_iso trx =
     (if ep_attributes ep = ep_attr_code EA_Bulk then Some (fill_bulk_transfer F (ep_address ep) len trx)
      else if ep_attributes ep = ep_attr_code EA_Interrupt then Some (fill_interrupt_transfer F (ep_address ep) len trx)
      else if ep_attributes ep = ep_attr_code EA_Isochronous then Some (fill_iso_transfer F (ep_address ep) len num_iso trx)
      else None)"

definition receive_control_urb ::
    "libusb_fill \<Rightarrow> libusb_oracle \<Rightarrow> nat \<Rightarrow> libusb_transfer UsbIpCmdSubmit \<Rightarrow> libusb_world \<Rightarrow> libusb_world option" where
  "receive_control_urb F lib heap cmd w =
     (let seqnum = h_seqnum (cs_header cmd); sp = cs_setup cmd
      in case tweak_special_requests lib sp (lw_handler w) (lw_trace w) of
           (Tweak_done, h1, tr1) \<Rightarrow>
             respond [Enqueue_submit (create_ret_submit_ok_without_data seqnum (cs_transfer_buffer_length cmd)), Wakeup_sender]
               (w\<lparr>lw_handler := h1, lw_trace := tr1\<rparr>)
         | (_, h1, tr1) \<Rightarrow>
             (let w1 = w\<lparr>lw_handler := h1, lw_trace := tr1\<rparr>
              in if cs_transfer_buffer_length cmd < ucast (sp_length sp) then respond (epipe_reply seqnum) w1
                 else (case th_handle (cs_transfer cmd) of
                         None \<Rightarrow> None
                       | Some trx \<Rightarrow>
                           if length (lt_buffer trx) < LIBUSB_CONTROL_SETUP_SIZE then None
                           else
                             (let t1 = fill_control_transfer F (trx\<lparr>lt_buffer := fill_control_setup F sp (lt_buffer trx)\<rparr>);
                                  t2 = masking_bogus_flags (setup_is_out sp)
                                         (t1\<lparr>lt_flags := get_libusb_transfer_flags (cs_transfer_flags cmd)\<rparr>)
                              in track_urb seqnum (setup_is_out sp) ((cs_transfer cmd)\<lparr>th_handle := Some t2\<rparr>) heap w1))))"

definition receive_data_urb ::
    "libusb_fill \<Rightarrow> nat \<Rightarrow> libusb_transfer UsbIpCmdSubmit \<Rightarrow> UsbEndpoint \<Rightarrow> libusb_world \<Rightarrow> libusb_world option" where
  "receive_data_urb F heap cmd ep w =
     (let seqnum = h_seqnum (cs_header cmd); is_out = (\<not> ep_is_in ep)
      in case th_handle (cs_transfer cmd) of
           None \<Rightarrow> None
         | Some trx \<Rightarrow>
             (case fill_by_type F ep (unat (cs_transfer_buffer_length cmd)) (cmd_submit_num_iso (cs_number_of_packets cmd)) trx of
                None \<Rightarrow> (case alloc_args heap w of (a, w1) \<Rightarrow> refuse_urb seqnum a w1)
              | Some t1 \<Rightarrow>
                  track_urb seqnum is_out ((cs_transfer cmd)\<lparr>th_handle := Some (masking_bogus_flags is_out
                    (t1\<lparr>lt_flags := get_libusb_transfer_flags (cs_transfer_flags cmd)\<rparr>))\<rparr>) heap w))"

text \<open>\<open>receive_urb\<close> up to the call of \<open>libusb_submit_transfer\<close>; \<open>heap\<close> is the address a heap allocation would return.\<close>

definition lh_receive_urb ::
    "libusb_fill \<Rightarrow> libusb_oracle \<Rightarrow> nat \<Rightarrow> libusb_transfer UsbIpCmdSubmit \<Rightarrow> UsbEndpoint \<Rightarrow> bool \<Rightarrow> libusb_world \<Rightarrow>
     (ErrorType option \<times> libusb_world) option" where
  "lh_receive_urb F lib heap cmd ep has_interface w =
     (if lh_device_removed (lw_handler w) then Some (Some NO_DEVICE, w)
      else
        (let w1 = w\<lparr>lw_commands := lw_commands w @ [h_seqnum (cs_header cmd)]\<rparr>
         in map_option (\<lambda>w2. (None, w2))
              (if ep_attributes ep = ep_attr_code EA_Control then receive_control_urb F lib heap cmd w1
               else if has_interface then receive_data_urb F heap cmd ep w1
               else respond (epipe_reply (h_seqnum (cs_header cmd))) w1)))"

text \<open>The rest of \<open>receive_urb\<close>, with the result of \<open>libusb_submit_transfer\<close>.\<close>

definition erase_transfer :: "u32 \<Rightarrow> (u32 \<times> nat) list \<Rightarrow> (u32 \<times> nat) list" where
  "erase_transfer seqnum ts = filter (\<lambda>e. fst e \<noteq> seqnum) ts"

definition urb_submitted ::
    "libusb_error option \<Rightarrow> u32 \<Rightarrow> nat \<Rightarrow> libusb_world \<Rightarrow> (ErrorType option \<times> libusb_world) option" where
  "urb_submitted r seqnum a w =
     (case r of
        None \<Rightarrow> Some (None, w\<lparr>lw_rx := Rx_idle, lw_submitted := lw_submitted w @ [a]\<rparr>)
      | Some err \<Rightarrow>
          (let w1 = set_handler (\<lambda>h. if map_of (lh_transfers h) seqnum \<noteq> None
                     then h\<lparr>lh_transfers := erase_transfer seqnum (lh_transfers h),
                            lh_pending_count := lh_pending_count h - 1\<rparr>
                     else h) (w\<lparr>lw_rx := Rx_idle\<rparr>)
           in map_option (\<lambda>w2.
                if should_disconnect_on_submit_error err (lh_submit_error_policy (lw_handler w2))
                then (Some NO_DEVICE, set_handler (\<lambda>h. h\<lparr>lh_device_removed := True\<rparr>) w2)
                else (None, w2)) (refuse_urb seqnum a w1)))"

section \<open>Cancelling\<close>

text \<open>\<open>libusb_cancel_transfer\<close> is asynchronous and its result only logged; it is given the transfer, which must
  exist.\<close>

definition handle_unlink_seqnum :: "u32 \<Rightarrow> u32 \<Rightarrow> libusb_world \<Rightarrow> libusb_world option" where
  "handle_unlink_seqnum unlink_seqnum cmd_seqnum w =
     (if lh_device_removed (lw_handler w) then Some w
      else
        (let w1 = w\<lparr>lw_unlinks := lw_unlinks w @ [cmd_seqnum]\<rparr>
         in case map_of (lh_transfers (lw_handler w)) unlink_seqnum of
              None \<Rightarrow> respond [Enqueue_unlink (create_ret_unlink cmd_seqnum 0), Wakeup_sender] w1
            | Some a \<Rightarrow>
                (case lw_args w a of
                   None \<Rightarrow> None
                 | Some cb \<Rightarrow>
                     if th_handle (ca_transfer cb) = None then None
                     else Some ((set_args a (Some (cb\<lparr>ca_unlinking := True, ca_unlink_cmd_seqnum := cmd_seqnum\<rparr>)) w1)
                       \<lparr>lw_overwritten := lw_overwritten w @ (if ca_unlinking cb then [ca_unlink_cmd_seqnum cb] else [])\<rparr>))))"

section \<open>The callback\<close>

definition callback_status :: "libusb_transfer \<Rightarrow> libusb_transfer" where
  "callback_status t =
     (if lt_status t = Lu_error \<and> Lu_short_not_ok \<notin> lt_flags t then t\<lparr>lt_status := Lu_completed\<rparr> else t)"

text \<open>The callback starts: \<open>done\<close> is what libusb wrote into the transfer.\<close>

definition callback_entry :: "(libusb_transfer \<Rightarrow> libusb_transfer) \<Rightarrow> nat \<Rightarrow> libusb_world \<Rightarrow> libusb_world option" where
  "callback_entry done' a w =
     (case lw_args w a of
        None \<Rightarrow> None
      | Some cb \<Rightarrow>
          (case th_handle (ca_transfer cb) of
             None \<Rightarrow> None
           | Some t \<Rightarrow>
               (let gone = lh_client_disconnection (lw_handler w);
                    t1 = (if gone then done' t else callback_status (done' t))
                in Some ((set_args a (Some (cb\<lparr>ca_transfer := (ca_transfer cb)\<lparr>th_handle := Some t1\<rparr>\<rparr>))
                    (set_handler (\<lambda>h. if \<not> gone \<and> lt_status t1 = Lu_no_device then h\<lparr>lh_device_removed := True\<rparr> else h) w))
                    \<lparr>lw_submitted := remove1 a (lw_submitted w), lw_et := Et_callback a gone\<rparr>))))"

definition callback_actual_length :: "bool \<Rightarrow> libusb_transfer \<Rightarrow> u32" where
  "callback_actual_length is_out t =
     (if lt_type t = Type_isochronous \<and> \<not> is_out
      then of_nat (\<Sum>p\<leftarrow>take (lt_num_iso_packets t) (lt_iso_packet_desc t). unat (lip_actual_length p))
      else of_nat (lt_actual_length t))"

definition callback_error_count :: "libusb_transfer \<Rightarrow> u32" where
  "callback_error_count t =
     (if lt_type t = Type_isochronous
      then of_nat (length (filter (\<lambda>p. lip_status p \<noteq> Lu_completed) (take (lt_num_iso_packets t) (lt_iso_packet_desc t))))
      else 0)"

text \<open>The answer, and whether the transfer moves into it.\<close>

definition callback_ret_submit :: "libusb_callback_args \<Rightarrow> libusb_transfer \<Rightarrow> libusb_transfer UsbIpRetSubmit" where
  "callback_ret_submit cb t =
     (let n = callback_actual_length (ca_is_out cb) t; status = trxstat2error (lt_status t);
          with_transfer = create_ret_submit (ca_seqnum cb) status n 0 (of_nat (lt_num_iso_packets t)) (ca_transfer cb);
          ret = (if ca_is_out cb \<and> lt_type t \<noteq> Type_isochronous
                 then create_ret_submit_with_status_and_no_data (ca_seqnum cb) status n
                 else with_transfer)
      in ret\<lparr>rs_error_count := callback_error_count t\<rparr>)"

text \<open>The section under the lock.\<close>

definition callback_locked :: "nat \<Rightarrow> bool \<Rightarrow> libusb_world \<Rightarrow> libusb_world option" where
  "callback_locked a gone w =
     (case lw_args w a of
        None \<Rightarrow> None
      | Some cb \<Rightarrow>
          (let w1 = (set_handler (\<lambda>h. h\<lparr>lh_transfers := erase_transfer (ca_seqnum cb) (lh_transfers h)\<rparr>) w)
                 \<lparr>lw_et := Et_finish a gone\<rparr>;
               w2 = set_args a (Some (cb\<lparr>ca_transfer := TransferHandle_empty\<rparr>)) w1
           in if gone then Some (w1\<lparr>lw_dropped := lw_dropped w @ [cb]\<rparr>)
              else if ca_unlinking cb
              then (case th_handle (ca_transfer cb) of
                      None \<Rightarrow> None
                    | Some t \<Rightarrow>
                        respond [Enqueue_unlink (create_ret_unlink (ca_unlink_cmd_seqnum cb) (trxstat2error (lt_status t)))]
                          (w2\<lparr>lw_settled := lw_settled w @ [ca_seqnum cb]\<rparr>))
              else (case th_handle (ca_transfer cb) of
                      None \<Rightarrow> None
                    | Some t \<Rightarrow> respond [Enqueue_submit (callback_ret_submit cb t)] w2)))"

text \<open>The rest: the sender is woken, the arguments are freed, the count goes down.\<close>

definition callback_finish :: "nat \<Rightarrow> bool \<Rightarrow> libusb_world \<Rightarrow> libusb_world option" where
  "callback_finish a gone w =
     Option.bind (if gone then Some w else respond [Wakeup_sender] w) (\<lambda>w1.
     map_option (\<lambda>w2. (set_handler (\<lambda>h. h\<lparr>lh_pending_count := lh_pending_count h - 1\<rparr>) w2)\<lparr>lw_et := Et_idle\<rparr>)
       (free_args a w1))"

section \<open>Connections\<close>

definition begin_disconnection :: "libusb_world \<Rightarrow> libusb_world option" where
  "begin_disconnection w =
     (if list_all (\<lambda>e. case lw_args w (snd e) of None \<Rightarrow> False | Some cb \<Rightarrow> th_handle (ca_transfer cb) \<noteq> None)
           (lh_transfers (lw_handler w))
      then Some ((set_handler (\<lambda>h. h\<lparr>lh_client_disconnection := True\<rparr>) w)\<lparr>lw_rx := Rx_waiting\<rparr>)
      else None)"

text \<open>After the wait for \<open>pending_count_\<close> to become 0. The pool is reset: arguments still in use would be handed out
  again.\<close>

definition end_disconnection :: "libusb_oracle \<Rightarrow> libusb_world \<Rightarrow> libusb_world" where
  "end_disconnection lib w =
     (let h1 = (lw_handler w)\<lparr>lh_args_pool := pool_reset (lh_args_pool (lw_handler w))\<rparr>;
          (h2, tr2) = (if lh_interfaces_claimed h1 then release_and_close_device lib h1 (lw_trace w) else (h1, lw_trace w))
      in w\<lparr>lw_handler := h2\<lparr>lh_responder := False\<rparr>, lw_trace := tr2, lw_rx := Rx_gone\<rparr>)"

definition begin_connection :: "libusb_oracle \<Rightarrow> nat \<Rightarrow> libusb_world \<Rightarrow> ErrorType option \<times> libusb_world" where
  "begin_connection lib num_interfaces w =
     (case lh_on_new_connection lib num_interfaces (lw_handler w) (lw_trace w) of
        (ec, h1, tr1) \<Rightarrow> (ec, w\<lparr>lw_handler := h1, lw_trace := tr1, lw_rx := (if ec = None then Rx_idle else Rx_gone)\<rparr>))"

end
