(* ===== verification/Libusb_Urbs_Props.thy ===== *)
theory Libusb_Urbs_Props
  imports Libusb_Urbs "HOL-Library.Multiset"
begin

text \<open>
  The runs of a physical device: the receiver of the session, the event thread of libusb and the removal of the device
  interleave in any order. Nothing is used after it is freed, every command is accounted for by exactly one
  answer, and a disconnection ends once libusb has completed the transfers it was given.
\<close>

section \<open>Runs\<close>

text \<open>libusb calls the callback of each submitted transfer once, with what it wrote into it. The heap does
  not return an address in use, and the protocol layer passes a transfer with every command, with room for the
  setup packet when it is for a control endpoint.\<close>

datatype urb_event =
  Ev_connect nat
| Ev_urb nat "libusb_transfer UsbIpCmdSubmit" UsbEndpoint bool
| Ev_submit_result "libusb_error option"
| Ev_unlink u32 u32
| Ev_callback "libusb_transfer \<Rightarrow> libusb_transfer" nat
| Ev_callback_locked
| Ev_callback_finish
| Ev_disconnect
| Ev_disconnected
| Ev_removed

fun urb_enabled :: "urb_event \<Rightarrow> libusb_world \<Rightarrow> bool" where
  "urb_enabled (Ev_connect n) w = (lw_rx w = Rx_gone)"
| "urb_enabled (Ev_urb heap cmd ep b) w =
     (lw_rx w = Rx_idle \<and> heap \<noteq> 0 \<and> lw_args w heap = None \<and> heap \<notin> pool_objects (lh_args_pool (lw_handler w)) \<and>
      (case th_handle (cs_transfer cmd) of None \<Rightarrow> False
       | Some t \<Rightarrow> ep_attributes ep = ep_attr_code EA_Control \<longrightarrow> LIBUSB_CONTROL_SETUP_SIZE \<le> length (lt_buffer t)))"
| "urb_enabled (Ev_submit_result r) w = (case lw_rx w of Rx_submitting s a \<Rightarrow> True | _ \<Rightarrow> False)"
| "urb_enabled (Ev_unlink u c) w = (lw_rx w = Rx_idle)"
| "urb_enabled (Ev_callback d a) w = (lw_et w = Et_idle \<and> a \<in> set (lw_submitted w))"
| "urb_enabled Ev_callback_locked w = (case lw_et w of Et_callback a g \<Rightarrow> True | _ \<Rightarrow> False)"
| "urb_enabled Ev_callback_finish w = (case lw_et w of Et_finish a g \<Rightarrow> True | _ \<Rightarrow> False)"
| "urb_enabled Ev_disconnect w = (lw_rx w = Rx_idle)"
| "urb_enabled Ev_disconnected w = (lw_rx w = Rx_waiting \<and> lh_pending_count (lw_handler w) = 0)"
| "urb_enabled Ev_removed w = True"

fun urb_step :: "libusb_fill \<Rightarrow> libusb_oracle \<Rightarrow> urb_event \<Rightarrow> libusb_world \<Rightarrow> libusb_world option" where
  "urb_step F lib (Ev_connect n) w = Some (snd (begin_connection lib n w))"
| "urb_step F lib (Ev_urb heap cmd ep b) w = map_option snd (lh_receive_urb F lib heap cmd ep b w)"
| "urb_step F lib (Ev_submit_result r) w =
     (case lw_rx w of Rx_submitting s a \<Rightarrow> map_option snd (urb_submitted r s a w) | _ \<Rightarrow> None)"
| "urb_step F lib (Ev_unlink u c) w = handle_unlink_seqnum u c w"
| "urb_step F lib (Ev_callback d a) w = callback_entry d a w"
| "urb_step F lib Ev_callback_locked w = (case lw_et w of Et_callback a g \<Rightarrow> callback_locked a g w | _ \<Rightarrow> None)"
| "urb_step F lib Ev_callback_finish w = (case lw_et w of Et_finish a g \<Rightarrow> callback_finish a g w | _ \<Rightarrow> None)"
| "urb_step F lib Ev_disconnect w = begin_disconnection w"
| "urb_step F lib Ev_disconnected w = Some (end_disconnection lib w)"
| "urb_step F lib Ev_removed w = Some (set_handler lh_on_device_removed w)"

definition libusb_world_new :: "LibusbDeviceHandler \<Rightarrow> libusb_world" where
  "libusb_world_new h =
     \<lparr>lw_handler = h, lw_args = (\<lambda>a. None), lw_submitted = [], lw_rx = Rx_gone, lw_et = Et_idle, lw_sent = [], lw_trace = [],
      lw_commands = [], lw_unlinks = [], lw_overwritten = [], lw_settled = [], lw_dropped = []\<rparr>"

inductive urb_reach :: "libusb_fill \<Rightarrow> libusb_oracle \<Rightarrow> libusb_world \<Rightarrow> bool" for F lib where
  urb_start: "distinct objects \<Longrightarrow> 0 \<notin> set objects \<Longrightarrow>
     h = LibusbDeviceHandler_new objects dev policy \<or> h = LibusbDeviceHandler_new_fd objects dev fd policy \<Longrightarrow>
     urb_reach F lib (libusb_world_new h)"
| urb_next: "urb_reach F lib w \<Longrightarrow> urb_enabled e w \<Longrightarrow> urb_step F lib e w = Some w' \<Longrightarrow> urb_reach F lib w'"

section \<open>The state\<close>

lemma lw_sel [simp]:
  "lw_handler (set_handler f w) = f (lw_handler w)" "lw_args (set_handler f w) = lw_args w"
  "lw_submitted (set_handler f w) = lw_submitted w" "lw_rx (set_handler f w) = lw_rx w"
  "lw_et (set_handler f w) = lw_et w" "lw_sent (set_handler f w) = lw_sent w"
  "lw_commands (set_handler f w) = lw_commands w" "lw_unlinks (set_handler f w) = lw_unlinks w"
  "lw_overwritten (set_handler f w) = lw_overwritten w" "lw_settled (set_handler f w) = lw_settled w"
  "lw_dropped (set_handler f w) = lw_dropped w"
  "lw_handler (set_args a x w) = lw_handler w" "lw_args (set_args a x w) = (lw_args w)(a := x)"
  "lw_submitted (set_args a x w) = lw_submitted w" "lw_rx (set_args a x w) = lw_rx w"
  "lw_et (set_args a x w) = lw_et w" "lw_sent (set_args a x w) = lw_sent w"
  "lw_commands (set_args a x w) = lw_commands w" "lw_unlinks (set_args a x w) = lw_unlinks w"
  "lw_overwritten (set_args a x w) = lw_overwritten w" "lw_settled (set_args a x w) = lw_settled w"
  "lw_dropped (set_args a x w) = lw_dropped w"
  by (simp_all add: set_handler_def set_args_def)

text \<open>The objects of the pool that are allocated are those the pool has marked.\<close>

definition args_ok :: "ObjectPool \<Rightarrow> (nat \<Rightarrow> libusb_callback_args option) \<Rightarrow> bool" where
  "args_ok p args \<longleftrightarrow> pool_inv p \<and> args 0 = None \<and> (\<forall>a \<in> pool_objects p. args a \<noteq> None \<longleftrightarrow> a \<in> pool_in_use p)"

lemma args_ok_update: "args_ok p args \<Longrightarrow> args a = Some x \<Longrightarrow> args_ok p (args(a := Some y))"
  by (cases "a = 0") (auto simp: args_ok_def)

lemma alloc_args_ok:
  assumes "args_ok (lh_args_pool (lw_handler w)) (lw_args w)" and "heap \<noteq> 0" and "lw_args w heap = None"
    and "heap \<notin> pool_objects (lh_args_pool (lw_handler w))"
  shows "\<exists>a p. alloc_args heap w = (a, set_args a (Some libusb_callback_args_reset) (set_handler (\<lambda>h. h\<lparr>lh_args_pool := p\<rparr>) w)) \<and>
    lw_args w a = None \<and> (\<forall>x. args_ok p ((lw_args w)(a := Some x)))"
proof -
  let ?p = "lh_args_pool (lw_handler w)"
  obtain obj p where al: "pool_alloc ?p = (obj, p)" by fastforce
  have inv: "pool_inv ?p" using assms(1) by (simp add: args_ok_def)
  show ?thesis
  proof (cases "op_free_top ?p = 0")
    case True
    then have "obj = 0" "p = ?p" using al by (simp_all add: pool_alloc_def)
    then show ?thesis using assms al by (auto simp: alloc_args_def args_ok_def intro!: exI[of _ ?p])
  next
    case False
    have p: "pool_inv p" "pool_objects p = pool_objects ?p" "obj \<noteq> 0" "obj \<in> pool_objects ?p" "obj \<notin> pool_in_use ?p"
      "pool_in_use p = insert obj (pool_in_use ?p)"
      using pool_alloc_spec[OF inv al False] by auto
    then show ?thesis using assms(1) al by (auto simp: alloc_args_def args_ok_def intro!: exI[of _ p])
  qed
qed

lemma free_args_ok:
  assumes "args_ok (lh_args_pool (lw_handler w)) (lw_args w)" and "lw_args w a \<noteq> None"
  shows "\<exists>p. free_args a w = Some (set_args a None (set_handler (\<lambda>h. h\<lparr>lh_args_pool := p\<rparr>) w)) \<and>
    args_ok p ((lw_args w)(a := None))"
proof -
  let ?p = "lh_args_pool (lw_handler w)"
  have inv: "pool_inv ?p" and zero: "a \<noteq> 0" using assms by (auto simp: args_ok_def intro!: Nat.gr0I)
  show ?thesis
  proof (cases "a \<in> pool_objects ?p")
    case True
    then have u: "a \<in> pool_in_use ?p" using assms by (simp add: args_ok_def)
    obtain b p where f: "pool_free a ?p = (b, p)" by fastforce
    have p: "b" "pool_inv p" "pool_objects p = pool_objects ?p" "pool_in_use p = pool_in_use ?p - {a}"
      using pool_free_succeeds[OF inv u f] by auto
    then show ?thesis using assms f by (auto simp: free_args_def args_ok_def intro!: exI[of _ p])
  next
    case False
    then have "a \<notin> pool_in_use ?p" by (force simp: pool_in_use_def pool_objects_def)
    then have "pool_free a ?p = (False, ?p)" by (rule pool_free_fails[OF inv])
    then show ?thesis using assms False zero
      by (auto simp: free_args_def args_ok_def pool_objects_def intro!: exI[of _ ?p])
  qed
qed

definition rx_owns :: "libusb_world \<Rightarrow> nat list" where
  "rx_owns w = (case lw_rx w of Rx_submitting s a \<Rightarrow> [a] | _ \<Rightarrow> [])"

definition et_owns :: "libusb_world \<Rightarrow> nat list" where
  "et_owns w = (case lw_et w of Et_callback a g \<Rightarrow> [a] | _ \<Rightarrow> [])"

definition et_frees :: "libusb_world \<Rightarrow> nat list" where
  "et_frees w = (case lw_et w of Et_finish a g \<Rightarrow> [a] | _ \<Rightarrow> [])"

definition live_args :: "libusb_world \<Rightarrow> u32 \<times> nat \<Rightarrow> bool" where
  "live_args w e \<longleftrightarrow>
     (case lw_args w (snd e) of None \<Rightarrow> False
      | Some cb \<Rightarrow> ca_seqnum cb = fst e \<and> th_handle (ca_transfer cb) \<noteq> None \<and>
          (snd e \<in> set (rx_owns w) \<longrightarrow> \<not> ca_unlinking cb))"

text \<open>The invariant: every tracked transfer is owned by exactly one of libusb, the receiver and the callback; the
  allocated arguments are those of tracked transfers and the one the callback is about to free; the count is
  their number; and as long as a connection exists, or anything is tracked, the responder is there.\<close>

definition urbs_inv :: "libusb_world \<Rightarrow> bool" where
  "urbs_inv w \<longleftrightarrow>
     (let h = lw_handler w; ts = lh_transfers h
      in args_ok (lh_args_pool h) (lw_args w) \<and> distinct (map fst ts) \<and>
         distinct (map snd ts @ et_frees w) \<and>
         mset (map snd ts) = mset (lw_submitted w @ rx_owns w @ et_owns w) \<and>
         (\<forall>e \<in> set ts. live_args w e) \<and>
         (\<forall>a. lw_args w a \<noteq> None \<longleftrightarrow> a \<in> set (map snd ts @ et_frees w)) \<and>
         lh_pending_count h = length ts + length (et_frees w) \<and>
         (lw_rx w \<noteq> Rx_gone \<longrightarrow> lh_responder h) \<and>
         (lw_rx w = Rx_gone \<longrightarrow> ts = [] \<and> lw_et w = Et_idle) \<and>
         (\<forall>s a. lw_rx w = Rx_submitting s a \<longrightarrow> (s, a) \<in> set ts) \<and>
         (lw_rx w = Rx_waiting \<longrightarrow> lh_client_disconnection h))"

text \<open>The accounts, up to commands whose answer is being decided: each command taken on is answered by a RET_SUBMIT, settled by the RET_UNLINK of its cancellation,
  dropped with the connection, or still tracked; each request to cancel is answered, overwritten, dropped, or
  waits with its transfer.\<close>

definition submit_answers :: "responder_call list \<Rightarrow> u32 list" where
  "submit_answers cs = concat (map (\<lambda>c. case c of Enqueue_submit r \<Rightarrow> [h_seqnum (rs_header r)] | _ \<Rightarrow> []) cs)"

definition unlink_answers :: "responder_call list \<Rightarrow> u32 list" where
  "unlink_answers cs = concat (map (\<lambda>c. case c of Enqueue_unlink r \<Rightarrow> [h_seqnum (ru_header r)] | _ \<Rightarrow> []) cs)"

definition unlink_of :: "libusb_callback_args \<Rightarrow> u32 list" where
  "unlink_of cb = (if ca_unlinking cb then [ca_unlink_cmd_seqnum cb] else [])"

definition tracked_unlinks :: "libusb_world \<Rightarrow> u32 list" where
  "tracked_unlinks w =
     concat (map (\<lambda>e. case lw_args w (snd e) of Some cb \<Rightarrow> unlink_of cb | None \<Rightarrow> []) (lh_transfers (lw_handler w)))"

definition accounts :: "u32 list \<Rightarrow> libusb_world \<Rightarrow> bool" where
  "accounts undecided w \<longleftrightarrow>
     mset (lw_commands w) = mset undecided + mset (submit_answers (lw_sent w)) + mset (lw_settled w) + mset (map ca_seqnum (lw_dropped w)) +
       mset (map fst (lh_transfers (lw_handler w))) \<and>
     mset (lw_unlinks w) = mset (unlink_answers (lw_sent w)) + mset (lw_overwritten w) +
       mset (concat (map unlink_of (lw_dropped w))) + mset (tracked_unlinks w)"

lemma answers_append [simp]:
  "submit_answers (xs @ ys) = submit_answers xs @ submit_answers ys"
  "unlink_answers (xs @ ys) = unlink_answers xs @ unlink_answers ys"
  "submit_answers [] = []" "unlink_answers [] = []"
  "submit_answers (Enqueue_submit r # xs) = h_seqnum (rs_header r) # submit_answers xs"
  "submit_answers (Enqueue_unlink u # xs) = submit_answers xs" "submit_answers (Wakeup_sender # xs) = submit_answers xs"
  "unlink_answers (Enqueue_submit r # xs) = unlink_answers xs"
  "unlink_answers (Enqueue_unlink u # xs) = h_seqnum (ru_header u) # unlink_answers xs"
  "unlink_answers (Wakeup_sender # xs) = unlink_answers xs"
  by (simp_all add: submit_answers_def unlink_answers_def)

lemma answer_seqnums [simp]:
  "h_seqnum (rs_header (create_ret_submit_epipe_without_data s n)) = s"
  "h_seqnum (rs_header (create_ret_submit_ok_without_data s n)) = s"
  "h_seqnum (ru_header (create_ret_unlink s n)) = s"
  "h_seqnum (rs_header (callback_ret_submit cb t)) = ca_seqnum cb"
  by (simp_all add: create_ret_submit_epipe_without_data_def create_ret_submit_ok_without_data_def create_ret_unlink_def
      callback_ret_submit_def create_ret_submit_def create_ret_submit_with_status_and_no_data_def get_server_header_def Let_def)

lemma tracked_unlinks_cong:
  assumes "lh_transfers (lw_handler w') = lh_transfers (lw_handler w)"
    and "\<And>s a. (s, a) \<in> set (lh_transfers (lw_handler w)) \<Longrightarrow>
      map_option unlink_of (lw_args w' a) = map_option unlink_of (lw_args w a)"
  shows "tracked_unlinks w' = tracked_unlinks w"
  unfolding tracked_unlinks_def assms(1)
  by (rule arg_cong[where f = concat], rule map_cong)
     (use assms(2) in \<open>force split: option.splits\<close>)+

text \<open>What the proofs of the steps need about a state.\<close>

definition urbs_ok :: "u32 list \<Rightarrow> libusb_world \<Rightarrow> bool" where
  "urbs_ok us w \<longleftrightarrow> urbs_inv w \<and> accounts us w"

lemma urbs_okD:
  assumes "urbs_ok us w"
  shows "args_ok (lh_args_pool (lw_handler w)) (lw_args w)" and "distinct (map fst (lh_transfers (lw_handler w)))"
    and "distinct (map snd (lh_transfers (lw_handler w)) @ et_frees w)"
    and "mset (map snd (lh_transfers (lw_handler w))) = mset (lw_submitted w @ rx_owns w @ et_owns w)"
    and "\<And>s a. (s, a) \<in> set (lh_transfers (lw_handler w)) \<Longrightarrow> live_args w (s, a)"
    and "\<And>a. lw_args w a \<noteq> None \<longleftrightarrow> a \<in> snd ` set (lh_transfers (lw_handler w)) \<or> a \<in> set (et_frees w)"
    and "lh_pending_count (lw_handler w) = length (lh_transfers (lw_handler w)) + length (et_frees w)"
    and "lw_rx w \<noteq> Rx_gone \<Longrightarrow> lh_responder (lw_handler w)"
    and "lw_rx w = Rx_gone \<Longrightarrow> lh_transfers (lw_handler w) = [] \<and> lw_et w = Et_idle"
    and "\<And>s a. lw_rx w = Rx_submitting s a \<Longrightarrow> (s, a) \<in> set (lh_transfers (lw_handler w))"
    and "lw_rx w = Rx_waiting \<Longrightarrow> lh_client_disconnection (lw_handler w)"
    and "accounts us w"
  using assms unfolding urbs_ok_def urbs_inv_def Let_def by auto

lemma respond_ok: "lh_responder (lw_handler w) \<Longrightarrow> respond rs w = Some (w\<lparr>lw_sent := lw_sent w @ rs\<rparr>)"
  by (simp add: respond_def)

section \<open>Steps of the receiver\<close>

text \<open>A command taken on or an answer sent, without a change to the transfers; the handler may have changed in
  parts that do not matter here.\<close>

lemma urbs_ok_answered:
  assumes "urbs_ok us w"
    and "args_ok (lh_args_pool (lw_handler w')) (lw_args w)"
    and "lh_transfers (lw_handler w') = lh_transfers (lw_handler w)" "lh_pending_count (lw_handler w') = lh_pending_count (lw_handler w)"
      "lh_responder (lw_handler w') = lh_responder (lw_handler w)"
      "lh_client_disconnection (lw_handler w') = lh_client_disconnection (lw_handler w)"
    and "lw_args w' = lw_args w" "lw_submitted w' = lw_submitted w" "lw_rx w' = lw_rx w" "lw_et w' = lw_et w"
      "lw_settled w' = lw_settled w" "lw_dropped w' = lw_dropped w" "lw_overwritten w' = lw_overwritten w"
    and "lw_commands w' = lw_commands w @ cs" "lw_unlinks w' = lw_unlinks w @ xs" "lw_sent w' = lw_sent w @ rs"
      "mset (submit_answers rs) + mset us' = mset cs + mset us" "unlink_answers rs = xs"
  shows "urbs_ok us' w'"
proof -
  have o: "rx_owns w' = rx_owns w" "et_owns w' = et_owns w" "et_frees w' = et_frees w"
    using assms by (simp_all add: rx_owns_def et_owns_def et_frees_def)
  have l: "live_args w' = live_args w" by (rule ext) (simp only: live_args_def o assms(7))
  have t: "tracked_unlinks w' = tracked_unlinks w" by (rule tracked_unlinks_cong) (use assms in simp_all)
  have "urbs_inv w'" using assms o l unfolding urbs_ok_def urbs_inv_def Let_def by simp
  moreover have "accounts us' w'"
    using assms(1,3,11-18) t unfolding urbs_ok_def accounts_def by (simp add: ac_simps)
  ultimately show ?thesis by (simp add: urbs_ok_def)
qed

text \<open>Arguments that were allocated and are freed again, and the answer \<open>EPIPE\<close>.\<close>

lemma refuse_fresh:
  assumes "urbs_ok [seqnum] w" and "lw_rx w = Rx_idle" and "lw_args w a = None" and "args_ok p ((lw_args w)(a := Some cb))"
  shows "\<exists>w'. refuse_urb seqnum a (set_args a (Some cb) (set_handler (\<lambda>h. h\<lparr>lh_args_pool := p\<rparr>) w)) = Some w' \<and> urbs_ok [] w'"
proof -
  let ?w = "set_args a (Some cb) (set_handler (\<lambda>h. h\<lparr>lh_args_pool := p\<rparr>) w)"
  have resp: "lh_responder (lw_handler w)" using urbs_okD(8)[OF assms(1)] assms(2) by simp
  obtain q where f: "free_args a ?w = Some (set_args a None (set_handler (\<lambda>h. h\<lparr>lh_args_pool := q\<rparr>) ?w))"
    "args_ok q ((lw_args ?w)(a := None))"
    using free_args_ok[of ?w a] assms(4) by auto
  let ?w' = "(set_args a None (set_handler (\<lambda>h. h\<lparr>lh_args_pool := q\<rparr>) ?w))\<lparr>lw_sent := lw_sent w @ epipe_reply seqnum\<rparr>"
  have same: "(lw_args w)(a := None) = lw_args w" using assms(3) by (auto simp: fun_eq_iff)
  have "urbs_ok [] ?w'"
    by (rule urbs_ok_answered[OF assms(1), where rs = "epipe_reply seqnum" and cs = "[]" and xs = "[]"])
       (use f(2) same in \<open>simp_all add: epipe_reply_def\<close>)
  then show ?thesis using f(1) resp by (simp add: refuse_urb_def respond_def)
qed

lemma track_urb_ok:
  assumes ok: "urbs_ok [seqnum] w" and rx: "lw_rx w = Rx_idle" and th: "th_handle th \<noteq> None"
    and heap: "heap \<noteq> 0" "lw_args w heap = None" "heap \<notin> pool_objects (lh_args_pool (lw_handler w))"
  shows "\<exists>w'. track_urb seqnum is_out th heap w = Some w' \<and> urbs_ok [] w'"
proof -
  have "args_ok (lh_args_pool (lw_handler w)) (lw_args w)" by (rule urbs_okD(1)[OF ok])
  from alloc_args_ok[OF this heap] obtain a p where
    al: "alloc_args heap w = (a, set_args a (Some libusb_callback_args_reset) (set_handler (\<lambda>h. h\<lparr>lh_args_pool := p\<rparr>) w))"
      "lw_args w a = None" "\<And>x. args_ok p ((lw_args w)(a := Some x))" by blast
  let ?cb = "libusb_callback_args_reset\<lparr>ca_seqnum := seqnum, ca_is_out := is_out, ca_transfer := th\<rparr>"
  have sa: "set_args a (Some ?cb) (set_args a (Some libusb_callback_args_reset) (set_handler (\<lambda>h. h\<lparr>lh_args_pool := p\<rparr>) w)) =
      set_args a (Some ?cb) (set_handler (\<lambda>h. h\<lparr>lh_args_pool := p\<rparr>) w)" by (simp add: set_args_def)
  show ?thesis
  proof (cases "map_of (lh_transfers (lw_handler w)) seqnum")
    case (Some b)
    then show ?thesis using refuse_fresh[OF ok rx al(2,3), of ?cb] al(1) sa by (simp add: track_urb_def Let_def)
  next
    case None
    let ?w = "(set_handler (\<lambda>h. h\<lparr>lh_transfers := (seqnum, a) # lh_transfers h, lh_pending_count := Suc (lh_pending_count h)\<rparr>)
        (set_args a (Some ?cb) (set_handler (\<lambda>h. h\<lparr>lh_args_pool := p\<rparr>) w)))\<lparr>lw_rx := Rx_submitting seqnum a\<rparr>"
    have t: "track_urb seqnum is_out th heap w = Some ?w" using None al(1) sa by (simp add: track_urb_def Let_def)
    have o: "rx_owns ?w = [a]" "rx_owns w = []" "et_owns ?w = et_owns w" "et_frees ?w = et_frees w"
      using rx by (simp_all add: rx_owns_def et_owns_def et_frees_def)
    have fr: "a \<notin> snd ` set (lh_transfers (lw_handler w))" "a \<notin> set (et_frees w)"
      using urbs_okD(6)[OF ok, of a] al(2) by auto
    have sq: "seqnum \<notin> fst ` set (lh_transfers (lw_handler w))" using None by (simp add: map_of_eq_None_iff)
    have live: "live_args ?w e" if "e \<in> set ((seqnum, a) # lh_transfers (lw_handler w))" for e
    proof (cases "e = (seqnum, a)")
      case True
      then show ?thesis using th by (simp add: live_args_def o libusb_callback_args_reset_def)
    next
      case False
      then have e: "e \<in> set (lh_transfers (lw_handler w))" "snd e \<noteq> a" using that fr(1) by auto
      then have "live_args w e" using urbs_okD(5)[OF ok, of "fst e" "snd e"] by simp
      with e show ?thesis unfolding live_args_def o by (auto split: option.splits)
    qed
    have tu: "tracked_unlinks ?w = tracked_unlinks w"
      using fr(1) by (auto simp: tracked_unlinks_def libusb_callback_args_reset_def unlink_of_def intro!: arg_cong[where f = concat])
    show ?thesis
    proof (intro exI conjI, rule t)
      show "urbs_ok [] ?w" unfolding urbs_ok_def
      proof
        show "urbs_inv ?w"
          using urbs_okD[OF ok] al(3)[of ?cb] fr sq live rx
          by (auto simp: urbs_inv_def Let_def o)
        show "accounts [] ?w" using urbs_okD(12)[OF ok] tu by (simp add: accounts_def)
      qed
    qed
  qed
qed

lemma tweak_keeps:
  assumes "tweak_special_requests lib sp h tr = (r, h1, tr1)"
  shows "lh_args_pool h1 = lh_args_pool h" "lh_transfers h1 = lh_transfers h" "lh_pending_count h1 = lh_pending_count h"
    "lh_responder h1 = lh_responder h" "lh_client_disconnection h1 = lh_client_disconnection h"
  using assms
  by (auto simp: tweak_special_requests_def tweak_set_interface_cmd_def tweak_clear_halt_cmd_def
      split: if_splits prod.splits option.splits)

lemma answer_ok:
  assumes "urbs_ok [s] w" and "lw_rx w \<noteq> Rx_gone" and "submit_answers rs = [s]" and "unlink_answers rs = []"
  shows "\<exists>w'. respond rs w = Some w' \<and> urbs_ok [] w'"
proof (intro exI conjI)
  show "respond rs w = Some (w\<lparr>lw_sent := lw_sent w @ rs\<rparr>)"
    using urbs_okD(8)[OF assms(1)] assms(2) by (simp add: respond_def)
  show "urbs_ok [] (w\<lparr>lw_sent := lw_sent w @ rs\<rparr>)"
    by (rule urbs_ok_answered[OF assms(1), where rs = rs and cs = "[]" and xs = "[]"])
       (use assms urbs_okD(1)[OF assms(1)] in simp_all)
qed

lemma receive_control_urb_ok:
  assumes ok: "urbs_ok [h_seqnum (cs_header cmd)] w" and rx: "lw_rx w = Rx_idle"
    and heap: "heap \<noteq> 0" "lw_args w heap = None" "heap \<notin> pool_objects (lh_args_pool (lw_handler w))"
    and t: "th_handle (cs_transfer cmd) = Some t" "LIBUSB_CONTROL_SETUP_SIZE \<le> length (lt_buffer t)"
  shows "\<exists>w'. receive_control_urb F lib heap cmd w = Some w' \<and> urbs_ok [] w'"
proof -
  let ?s = "h_seqnum (cs_header cmd)"
  obtain r h1 tr1 where tw: "tweak_special_requests lib (cs_setup cmd) (lw_handler w) (lw_trace w) = (r, h1, tr1)"
    by (metis prod_cases3)
  let ?w = "w\<lparr>lw_handler := h1, lw_trace := tr1\<rparr>"
  note k = tweak_keeps[OF tw]
  have ok1: "urbs_ok [?s] ?w"
    by (rule urbs_ok_answered[OF ok, where rs = "[]" and cs = "[]" and xs = "[]"])
       (use k urbs_okD(1)[OF ok] in simp_all)
  have rx1: "lw_rx ?w = Rx_idle" using rx by simp
  have go: "\<exists>w'. track_urb ?s io ((cs_transfer cmd)\<lparr>th_handle := Some t2\<rparr>) heap ?w = Some w' \<and> urbs_ok [] w'" for io t2
    by (rule track_urb_ok[OF ok1 rx1]) (use heap k in simp_all)
  have done': "\<exists>w'. respond [Enqueue_submit (create_ret_submit_ok_without_data ?s n), Wakeup_sender] ?w = Some w' \<and> urbs_ok [] w'" for n
    by (rule answer_ok[OF ok1]) (use rx in simp_all)
  have no: "\<exists>w'. respond (epipe_reply ?s) ?w = Some w' \<and> urbs_ok [] w'"
    by (rule answer_ok[OF ok1]) (use rx in \<open>simp_all add: epipe_reply_def\<close>)
  show ?thesis
    using go done' no t unfolding receive_control_urb_def Let_def tw by (cases r) (auto simp: not_less)
qed

lemma receive_data_urb_ok:
  assumes ok: "urbs_ok [h_seqnum (cs_header cmd)] w" and rx: "lw_rx w = Rx_idle"
    and heap: "heap \<noteq> 0" "lw_args w heap = None" "heap \<notin> pool_objects (lh_args_pool (lw_handler w))"
    and t: "th_handle (cs_transfer cmd) = Some t"
  shows "\<exists>w'. receive_data_urb F heap cmd ep w = Some w' \<and> urbs_ok [] w'"
proof -
  have go: "\<exists>w'. track_urb (h_seqnum (cs_header cmd)) io ((cs_transfer cmd)\<lparr>th_handle := Some t2\<rparr>) heap w = Some w' \<and> urbs_ok [] w'"
    for io t2
    by (rule track_urb_ok[OF ok rx]) (use heap in simp_all)
  obtain a p where al: "alloc_args heap w = (a, set_args a (Some libusb_callback_args_reset) (set_handler (\<lambda>h. h\<lparr>lh_args_pool := p\<rparr>) w))"
      "lw_args w a = None" "\<And>x. args_ok p ((lw_args w)(a := Some x))"
    using alloc_args_ok[OF urbs_okD(1)[OF ok] heap] by blast
  have "\<exists>w'. refuse_urb (h_seqnum (cs_header cmd)) a (snd (alloc_args heap w)) = Some w' \<and> urbs_ok [] w'"
    using refuse_fresh[OF ok rx al(2,3)] al(1) by simp
  then show ?thesis using go t al(1) by (auto simp: receive_data_urb_def Let_def split: option.splits)
qed

lemma receive_urb_ok:
  assumes ok: "urbs_ok [] w" and en: "urb_enabled (Ev_urb heap cmd ep b) w"
  shows "\<exists>r w'. lh_receive_urb F lib heap cmd ep b w = Some (r, w') \<and> urbs_ok [] w'"
proof (cases "lh_device_removed (lw_handler w)")
  case True
  then show ?thesis using ok by (simp add: lh_receive_urb_def)
next
  case False
  let ?w = "w\<lparr>lw_commands := lw_commands w @ [h_seqnum (cs_header cmd)]\<rparr>"
  obtain t where t: "th_handle (cs_transfer cmd) = Some t" "lw_rx ?w = Rx_idle" "heap \<noteq> 0" "lw_args ?w heap = None"
    "heap \<notin> pool_objects (lh_args_pool (lw_handler ?w))"
    "ep_attributes ep = ep_attr_code EA_Control \<longrightarrow> LIBUSB_CONTROL_SETUP_SIZE \<le> length (lt_buffer t)"
    using en by (auto split: option.splits)
  have ok1: "urbs_ok [h_seqnum (cs_header cmd)] ?w"
    by (rule urbs_ok_answered[OF ok, where rs = "[]" and cs = "[h_seqnum (cs_header cmd)]" and xs = "[]"])
       (use urbs_okD(1)[OF ok] in simp_all)
  have no: "\<exists>w'. respond (epipe_reply (h_seqnum (cs_header cmd))) ?w = Some w' \<and> urbs_ok [] w'"
    by (rule answer_ok[OF ok1]) (use t(2) in \<open>simp_all add: epipe_reply_def\<close>)
  have c: "\<exists>w'. receive_control_urb F lib heap cmd ?w = Some w' \<and> urbs_ok [] w'" if "ep_attributes ep = ep_attr_code EA_Control"
    by (rule receive_control_urb_ok[OF ok1 t(2-5,1)]) (use t(6) that in simp)
  have d: "\<exists>w'. receive_data_urb F heap cmd ep ?w = Some w' \<and> urbs_ok [] w'"
    by (rule receive_data_urb_ok[OF ok1 t(2-5,1)])
  show ?thesis using False c d no unfolding lh_receive_urb_def Let_def by auto
qed

subsection \<open>Taking a transfer out\<close>

lemma erase_transfer_mset:
  "distinct (map fst ts) \<Longrightarrow> (s, a) \<in> set ts \<Longrightarrow> mset ts = add_mset (s, a) (mset (erase_transfer s ts))"
proof (induction ts)
  case (Cons e ts)
  show ?case
  proof (cases "e = (s, a)")
    case True
    then have "\<forall>x \<in> set ts. fst x \<noteq> s" using Cons.prems(1) by (auto simp: image_iff)
    then have "erase_transfer s ts = ts" by (simp add: erase_transfer_def)
    then show ?thesis using True by (simp add: erase_transfer_def)
  next
    case False
    then have m: "(s, a) \<in> set ts" using Cons.prems(2) by auto
    have "s \<in> fst ` set ts" using m by force
    then have "fst e \<noteq> s" using Cons.prems(1) by auto
    then show ?thesis using Cons.IH m Cons.prems(1) by (simp add: erase_transfer_def add_mset_commute)
  qed
qed simp

lemma mset_concat_map: "mset (concat (map f xs)) = (\<Sum>x\<in>#mset xs. mset (f x))"
  by (induction xs) simp_all

lemma untrack:
  assumes ok: "urbs_ok us w" and m: "(s, a) \<in> set (lh_transfers (lw_handler w))"
  defines "ts \<equiv> lh_transfers (lw_handler w)" and "ts' \<equiv> erase_transfer s (lh_transfers (lw_handler w))"
  shows "set ts' \<subseteq> set ts" and "set ts = insert (s, a) (set ts')" and "length ts = Suc (length ts')"
    and "a \<notin> snd ` set ts'" and "distinct (map fst ts')" and "distinct (map snd ts')"
    and "mset (map fst ts) = add_mset s (mset (map fst ts'))" and "mset (map snd ts) = add_mset a (mset (map snd ts'))"
    and "mset (concat (map f ts)) = mset (f (s, a)) + mset (concat (map f ts'))"
    and "snd ` set ts' \<inter> set (et_frees w) = {}"
proof -
  have d: "distinct (map fst ts)" "distinct (map snd ts @ et_frees w)"
    using urbs_okD(2,3)[OF ok] by (simp_all add: ts_def)
  have e: "mset ts = add_mset (s, a) (mset ts')"
    using erase_transfer_mset[OF _ m] d(1) by (simp add: ts_def ts'_def)
  show "set ts' \<subseteq> set ts" by (auto simp: ts'_def ts_def erase_transfer_def)
  then show "snd ` set ts' \<inter> set (et_frees w) = {}" using d(2) by auto
  show "set ts = insert (s, a) (set ts')" by (simp only: set_mset_mset[symmetric] e) simp
  show "length ts = Suc (length ts')" using e size_mset[of ts] size_mset[of ts'] by simp
  show 1: "mset (map fst ts) = add_mset s (mset (map fst ts'))" and 2: "mset (map snd ts) = add_mset a (mset (map snd ts'))"
    using e by simp_all
  show "distinct (map fst ts')" using d(1) by (simp add: ts'_def ts_def erase_transfer_def distinct_map_filter)
  have "distinct (a # map snd ts')" using d(2) 2 by (metis distinct_append mset.simps(2) mset_eq_imp_distinct_iff)
  then show "a \<notin> snd ` set ts'" "distinct (map snd ts')" by simp_all
  show "mset (concat (map f ts)) = mset (f (s, a)) + mset (concat (map f ts'))"
    by (simp only: mset_concat_map e) simp
qed

lemma urb_submitted_ok:
  assumes ok: "urbs_ok [] w" and rx: "lw_rx w = Rx_submitting s a"
  shows "\<exists>r' w'. urb_submitted r s a w = Some (r', w') \<and> urbs_ok [] w'"
proof -
  have m: "(s, a) \<in> set (lh_transfers (lw_handler w))" by (rule urbs_okD(10)[OF ok rx])
  have o: "rx_owns w = [a]" using rx by (simp add: rx_owns_def)
  obtain cb where cb: "lw_args w a = Some cb" "ca_seqnum cb = s" "\<not> ca_unlinking cb"
    using urbs_okD(5)[OF ok m] by (auto simp: live_args_def o split: option.splits)
  show ?thesis
  proof (cases r)
    case None
    let ?w = "w\<lparr>lw_rx := Rx_idle, lw_submitted := lw_submitted w @ [a]\<rparr>"
    have o': "rx_owns ?w = []" "et_owns ?w = et_owns w" "et_frees ?w = et_frees w"
      by (simp_all add: rx_owns_def et_owns_def et_frees_def)
    have t: "tracked_unlinks ?w = tracked_unlinks w" by (rule tracked_unlinks_cong) simp_all
    have l: "live_args ?w e" if "live_args w e" for e
      using that by (auto simp: live_args_def o' split: option.splits)
    have "urbs_ok [] ?w"
      using urbs_okD[OF ok] rx l t unfolding urbs_ok_def urbs_inv_def accounts_def Let_def o' o by auto
    then show ?thesis using None by (simp add: urb_submitted_def)
  next
    case (Some err)
    let ?ts = "erase_transfer s (lh_transfers (lw_handler w))"
    note u = untrack[OF ok m]
    have mo: "map_of (lh_transfers (lw_handler w)) s = Some a" using m urbs_okD(2)[OF ok] by simp
    let ?w1 = "set_handler (\<lambda>h. h\<lparr>lh_transfers := erase_transfer s (lh_transfers h),
        lh_pending_count := lh_pending_count h - 1\<rparr>) (w\<lparr>lw_rx := Rx_idle\<rparr>)"
    obtain q where f: "free_args a ?w1 = Some (set_args a None (set_handler (\<lambda>h. h\<lparr>lh_args_pool := q\<rparr>) ?w1))"
      "args_ok q ((lw_args w)(a := None))"
      using free_args_ok[of ?w1 a] urbs_okD(1)[OF ok] cb(1) by auto
    let ?w2 = "(set_args a None (set_handler (\<lambda>h. h\<lparr>lh_args_pool := q\<rparr>) ?w1))\<lparr>lw_sent := lw_sent w @ epipe_reply s\<rparr>"
    have w1: "set_handler (\<lambda>h. if map_of (lh_transfers h) s \<noteq> None
        then h\<lparr>lh_transfers := erase_transfer s (lh_transfers h), lh_pending_count := lh_pending_count h - 1\<rparr> else h) (w\<lparr>lw_rx := Rx_idle\<rparr>) = ?w1"
      using mo by (simp add: set_handler_def)
    have resp: "lh_responder (lw_handler w)" using urbs_okD(8)[OF ok] rx by simp
    have r: "refuse_urb s a ?w1 = Some ?w2" using f(1) resp by (simp add: refuse_urb_def respond_def)
    have o': "rx_owns ?w2 = []" "et_owns ?w2 = et_owns w" "et_frees ?w2 = et_frees w"
      by (simp_all add: rx_owns_def et_owns_def et_frees_def)
    have l: "live_args ?w2 e" if "e \<in> set ?ts" for e
    proof -
      have "live_args w e" using urbs_okD(5)[OF ok, of "fst e" "snd e"] u(1) that by auto
      then show ?thesis using u(4) that unfolding live_args_def o' by (auto split: option.splits)
    qed
    have uu: "mset (tracked_unlinks ?w2) = mset (tracked_unlinks w)"
    proof -
      have "tracked_unlinks ?w2 = concat (map (\<lambda>e. case lw_args w (snd e) of Some cb \<Rightarrow> unlink_of cb | None \<Rightarrow> []) ?ts)"
        using u(4) by (auto simp: tracked_unlinks_def intro!: arg_cong[where f = concat])
      moreover have "mset (tracked_unlinks w) = mset (concat (map (\<lambda>e. case lw_args w (snd e) of Some cb \<Rightarrow> unlink_of cb | None \<Rightarrow> []) ?ts))"
        using u(9)[of "\<lambda>e. case lw_args w (snd e) of Some cb \<Rightarrow> unlink_of cb | None \<Rightarrow> []"] cb by (simp add: tracked_unlinks_def unlink_of_def)
      ultimately show ?thesis by simp
    qed
    have inv: "urbs_inv ?w2"
      using urbs_okD[OF ok] u(2-6,8,10) f(2) l o resp unfolding urbs_inv_def Let_def o' by (auto simp: o)
    have "accounts [] ?w2"
      using urbs_okD(12)[OF ok] u(7) uu by (simp add: accounts_def epipe_reply_def)
    with inv have ok2: "urbs_ok [] ?w2" by (simp add: urbs_ok_def)
    have "urbs_ok [] (set_handler (\<lambda>h. h\<lparr>lh_device_removed := True\<rparr>) ?w2)"
      by (rule urbs_ok_answered[OF ok2, where rs = "[]" and cs = "[]" and xs = "[]"]) (use f(2) in simp_all)
    then show ?thesis using Some r w1 ok2 by (simp add: urb_submitted_def Let_def)
  qed
qed

text \<open>A request to cancel marks the tracked transfer, or is answered at once.\<close>

lemma tracked_unlinks_update:
  assumes "urbs_ok us w" and "(s, a) \<in> set (lh_transfers (lw_handler w))" and "lw_args w a = Some cb"
    and "lh_transfers (lw_handler w') = lh_transfers (lw_handler w)" and "lw_args w' = (lw_args w)(a := Some cb')"
  shows "mset (tracked_unlinks w) + mset (unlink_of cb') = mset (tracked_unlinks w') + mset (unlink_of cb)"
proof -
  let ?ts = "erase_transfer s (lh_transfers (lw_handler w))"
  let ?f = "\<lambda>w e. case lw_args w (snd e) of Some cb \<Rightarrow> unlink_of cb | None \<Rightarrow> []"
  note u = untrack[OF assms(1,2)]
  have "map (?f w') ?ts = map (?f w) ?ts" using u(4) assms(5) by auto
  moreover have "mset (tracked_unlinks w) = mset (unlink_of cb) + mset (concat (map (?f w) ?ts))"
    using u(9)[of "?f w"] assms(3) by (simp add: tracked_unlinks_def)
  moreover have "mset (tracked_unlinks w') = mset (unlink_of cb') + mset (concat (map (?f w') ?ts))"
    using u(9)[of "?f w'"] assms(4,5) by (simp add: tracked_unlinks_def)
  ultimately show ?thesis by (simp only: ac_simps)
qed

text \<open>The arguments of a tracked transfer change, and perhaps its owner.\<close>

lemma urbs_inv_update:
  assumes ok: "urbs_ok us w" and a: "lw_args w a = Some cb" and args: "lw_args w' = (lw_args w)(a := Some cb')"
    and h: "lh_args_pool (lw_handler w') = lh_args_pool (lw_handler w)" "lh_transfers (lw_handler w') = lh_transfers (lw_handler w)"
      "lh_pending_count (lw_handler w') = lh_pending_count (lw_handler w)" "lh_responder (lw_handler w') = lh_responder (lw_handler w)"
      "lh_client_disconnection (lw_handler w') = lh_client_disconnection (lw_handler w)"
    and live: "\<And>e. live_args w e \<Longrightarrow> live_args w' e"
    and own: "mset (lw_submitted w' @ rx_owns w' @ et_owns w') = mset (lw_submitted w @ rx_owns w @ et_owns w)"
    and fr: "et_frees w' = et_frees w" and rx: "lw_rx w' = lw_rx w" "lw_rx w \<noteq> Rx_gone"
  shows "urbs_inv w'"
proof -
  have "args_ok (lh_args_pool (lw_handler w')) (lw_args w')"
    unfolding h args by (rule args_ok_update[OF urbs_okD(1)[OF ok] a])
  moreover have "lw_args w' b \<noteq> None \<longleftrightarrow> lw_args w b \<noteq> None" for b using a by (simp add: args)
  ultimately show ?thesis
    using ok live rx(2) unfolding urbs_ok_def urbs_inv_def Let_def h own fr rx(1) by blast
qed

lemma handle_unlink_ok:
  assumes ok: "urbs_ok [] w" and rx: "lw_rx w = Rx_idle"
  shows "\<exists>w'. handle_unlink_seqnum u c w = Some w' \<and> urbs_ok [] w'"
proof (cases "lh_device_removed (lw_handler w)")
  case True
  then show ?thesis using ok by (simp add: handle_unlink_seqnum_def)
next
  case False
  have o: "rx_owns w = []" using rx by (simp add: rx_owns_def)
  show ?thesis
  proof (cases "map_of (lh_transfers (lw_handler w)) u")
    case None
    let ?rs = "[Enqueue_unlink (create_ret_unlink c 0), Wakeup_sender]"
    let ?w = "w\<lparr>lw_unlinks := lw_unlinks w @ [c], lw_sent := lw_sent w @ ?rs\<rparr>"
    have "urbs_ok [] ?w"
      by (rule urbs_ok_answered[OF ok, where rs = ?rs and cs = "[]" and xs = "[c]"]) (use urbs_okD(1)[OF ok] in simp_all)
    then show ?thesis using False None urbs_okD(8)[OF ok] rx by (simp add: handle_unlink_seqnum_def respond_def Let_def)
  next
    case (Some a)
    have m: "(u, a) \<in> set (lh_transfers (lw_handler w))" using Some by (rule map_of_SomeD)
    obtain cb where cb: "lw_args w a = Some cb" "ca_seqnum cb = u" "th_handle (ca_transfer cb) \<noteq> None"
      using urbs_okD(5)[OF ok m] by (auto simp: live_args_def split: option.splits)
    let ?cb = "cb\<lparr>ca_unlinking := True, ca_unlink_cmd_seqnum := c\<rparr>"
    let ?w = "(set_args a (Some ?cb) (w\<lparr>lw_unlinks := lw_unlinks w @ [c]\<rparr>))\<lparr>lw_overwritten := lw_overwritten w @ unlink_of cb\<rparr>"
    have r: "handle_unlink_seqnum u c w = Some ?w"
      using False Some cb by (simp add: handle_unlink_seqnum_def unlink_of_def Let_def)
    have o': "rx_owns ?w = []" "et_owns ?w = et_owns w" "et_frees ?w = et_frees w"
      using rx by (simp_all add: rx_owns_def et_owns_def et_frees_def)
    have l: "live_args ?w e" if "live_args w e" for e
      using that cb unfolding live_args_def o' o by (auto split: option.splits)
    have uu: "mset (tracked_unlinks w) + mset (unlink_of ?cb) = mset (tracked_unlinks ?w) + mset (unlink_of cb)"
      by (rule tracked_unlinks_update[OF ok m cb(1)]) simp_all
    have "urbs_inv ?w" by (rule urbs_inv_update[OF ok cb(1)]) (use l rx o o' in simp_all)
    moreover have "accounts [] ?w"
      using urbs_okD(12)[OF ok] uu by (auto simp: accounts_def unlink_of_def ac_simps split: if_splits)
    ultimately show ?thesis using r by (simp add: urbs_ok_def)
  qed
qed

section \<open>Steps of the event thread\<close>

lemma callback_entry_ok:
  assumes ok: "urbs_ok [] w" and et: "lw_et w = Et_idle" and a: "a \<in> set (lw_submitted w)"
  shows "\<exists>w'. callback_entry d a w = Some w' \<and> urbs_ok [] w'"
proof -
  have o: "et_owns w = []" "et_frees w = []" using et by (simp_all add: et_owns_def et_frees_def)
  have "a \<in># mset (map snd (lh_transfers (lw_handler w)))" using urbs_okD(4)[OF ok] a by simp
  then obtain s where m: "(s, a) \<in> set (lh_transfers (lw_handler w))" by auto
  obtain cb t where cb: "lw_args w a = Some cb" "ca_seqnum cb = s" "th_handle (ca_transfer cb) = Some t"
    using urbs_okD(5)[OF ok m] by (auto simp: live_args_def split: option.splits)
  let ?g = "lh_client_disconnection (lw_handler w)"
  let ?t = "if ?g then d t else callback_status (d t)"
  let ?cb = "cb\<lparr>ca_transfer := (ca_transfer cb)\<lparr>th_handle := Some ?t\<rparr>\<rparr>"
  let ?w = "(set_args a (Some ?cb) (set_handler (\<lambda>h. if \<not> ?g \<and> lt_status ?t = Lu_no_device then h\<lparr>lh_device_removed := True\<rparr> else h) w))
    \<lparr>lw_submitted := remove1 a (lw_submitted w), lw_et := Et_callback a ?g\<rparr>"
  have r: "callback_entry d a w = Some ?w" using cb by (simp add: callback_entry_def Let_def)
  have o': "rx_owns ?w = rx_owns w" "et_owns ?w = [a]" "et_frees ?w = []"
    by (simp_all add: rx_owns_def et_owns_def et_frees_def)
  have h: "lh_transfers (lw_handler ?w) = lh_transfers (lw_handler w)" "lh_args_pool (lw_handler ?w) = lh_args_pool (lw_handler w)"
    "lh_pending_count (lw_handler ?w) = lh_pending_count (lw_handler w)" "lh_responder (lw_handler ?w) = lh_responder (lw_handler w)"
    "lh_client_disconnection (lw_handler ?w) = lh_client_disconnection (lw_handler w)" by simp_all
  have l: "live_args ?w e" if "live_args w e" for e
    using that cb unfolding live_args_def o' by (auto split: option.splits)
  have t: "tracked_unlinks ?w = tracked_unlinks w"
    by (rule tracked_unlinks_cong) (use h cb(1) in \<open>auto simp: unlink_of_def\<close>)
  have ms: "mset (lw_submitted w) = add_mset a (mset (remove1 a (lw_submitted w)))" using a by simp
  have ng: "lw_rx w \<noteq> Rx_gone" using urbs_okD(9)[OF ok] m by auto
  have "urbs_inv ?w" by (rule urbs_inv_update[OF ok cb(1)]) (use l ms ng o o' in simp_all)
  moreover have "accounts [] ?w" using urbs_okD(12)[OF ok] t h by (simp add: accounts_def)
  ultimately show ?thesis using r by (simp add: urbs_ok_def)
qed

text \<open>The section under the lock takes the transfer out of the table; what it was is in the answer, or among the
  dropped ones.\<close>

lemma locked_inv:
  assumes ok: "urbs_ok [] w" and et: "lw_et w = Et_callback a g" and m: "(s, a) \<in> set (lh_transfers (lw_handler w))"
    and h: "lh_args_pool (lw_handler w') = lh_args_pool (lw_handler w)"
      "lh_transfers (lw_handler w') = erase_transfer s (lh_transfers (lw_handler w))"
      "lh_pending_count (lw_handler w') = lh_pending_count (lw_handler w)" "lh_responder (lw_handler w') = lh_responder (lw_handler w)"
      "lh_client_disconnection (lw_handler w') = lh_client_disconnection (lw_handler w)"
    and args: "lw_args w' = (lw_args w)(a := Some cb')"
    and w': "lw_submitted w' = lw_submitted w" "lw_rx w' = lw_rx w" "lw_et w' = Et_finish a g"
  shows "urbs_inv w'" and "mset (tracked_unlinks w) = mset (case lw_args w a of Some cb \<Rightarrow> unlink_of cb | None \<Rightarrow> []) + mset (tracked_unlinks w')"
proof -
  note u = untrack[OF ok m]
  have o: "et_owns w = [a]" "et_frees w = []" "et_owns w' = []" "et_frees w' = [a]" "rx_owns w' = rx_owns w"
    using et w' by (simp_all add: et_owns_def et_frees_def rx_owns_def)
  obtain cb where cb: "lw_args w a = Some cb" using urbs_okD(5)[OF ok m] by (auto simp: live_args_def split: option.splits)
  have nrx: "lw_rx w \<noteq> Rx_submitting s' a" for s'
  proof
    assume "lw_rx w = Rx_submitting s' a"
    then have "mset (map snd (lh_transfers (lw_handler w))) = mset (lw_submitted w) + {#a, a#}"
      using urbs_okD(4)[OF ok] o by (simp add: rx_owns_def)
    then have "add_mset a (mset (map snd (erase_transfer s (lh_transfers (lw_handler w))))) = add_mset a (add_mset a (mset (lw_submitted w)))"
      unfolding u(8) by simp
    then have "a \<in># mset (map snd (erase_transfer s (lh_transfers (lw_handler w))))" by simp
    then show False using u(4) by simp
  qed
  show "urbs_inv w'"
    unfolding urbs_inv_def Let_def h o w'
  proof (intro conjI allI impI ballI)
    show "args_ok (lh_args_pool (lw_handler w)) (lw_args w')"
      unfolding args by (rule args_ok_update[OF urbs_okD(1)[OF ok] cb])
    show "mset (map snd (erase_transfer s (lh_transfers (lw_handler w)))) = mset (lw_submitted w @ rx_owns w @ [])"
      using u(8) urbs_okD(4)[OF ok] o by simp
    fix e assume e: "e \<in> set (erase_transfer s (lh_transfers (lw_handler w)))"
    have "live_args w e" using urbs_okD(5)[OF ok, of "fst e" "snd e"] u(1) e by auto
    then show "live_args w' e" using u(4) e unfolding live_args_def o args by (auto split: option.splits)
  next
    fix b
    show "(lw_args w' b \<noteq> None) = (b \<in> set (map snd (erase_transfer s (lh_transfers (lw_handler w))) @ [a]))"
      using urbs_okD(6)[OF ok, of b] u(2) o cb by (auto simp: args)
  next
    fix s' b assume r: "lw_rx w = Rx_submitting s' b"
    then have "(s', b) \<in> set (lh_transfers (lw_handler w))" "b \<noteq> a" using urbs_okD(10)[OF ok] nrx by auto
    then show "(s', b) \<in> set (erase_transfer s (lh_transfers (lw_handler w)))" using u(2) by auto
  qed (use urbs_okD(7-11)[OF ok] u(3-6) o m et in auto)
  let ?f = "\<lambda>w e. case lw_args w (snd e) of Some cb \<Rightarrow> unlink_of cb | None \<Rightarrow> []"
  have "map (?f w) (erase_transfer s (lh_transfers (lw_handler w))) = map (?f w') (lh_transfers (lw_handler w'))"
    using u(4) by (auto simp: h args)
  then show "mset (tracked_unlinks w) = mset (case lw_args w a of Some cb \<Rightarrow> unlink_of cb | None \<Rightarrow> []) + mset (tracked_unlinks w')"
    using u(9)[of "?f w"] by (simp add: tracked_unlinks_def)
qed

lemma callback_locked_ok:
  assumes ok: "urbs_ok [] w" and et: "lw_et w = Et_callback a g"
  shows "\<exists>w'. callback_locked a g w = Some w' \<and> urbs_ok [] w'"
proof -
  have "a \<in># mset (map snd (lh_transfers (lw_handler w)))" using urbs_okD(4)[OF ok] et by (simp add: et_owns_def)
  then obtain s where m: "(s, a) \<in> set (lh_transfers (lw_handler w))" by auto
  obtain cb t where cb: "lw_args w a = Some cb" "ca_seqnum cb = s" "th_handle (ca_transfer cb) = Some t"
    using urbs_okD(5)[OF ok m] by (auto simp: live_args_def split: option.splits)
  have resp: "lh_responder (lw_handler w)"
    by (cases "lw_rx w = Rx_gone") (use urbs_okD(8,9)[OF ok] m in auto)
  note u = untrack[OF ok m]
  let ?w1 = "(set_handler (\<lambda>h. h\<lparr>lh_transfers := erase_transfer s (lh_transfers h)\<rparr>) w)\<lparr>lw_et := Et_finish a g\<rparr>"
  let ?w2 = "set_args a (Some (cb\<lparr>ca_transfer := TransferHandle_empty\<rparr>)) ?w1"
  let ?ru = "[Enqueue_unlink (create_ret_unlink (ca_unlink_cmd_seqnum cb) (trxstat2error (lt_status t)))]"
  let ?rs = "[Enqueue_submit (callback_ret_submit cb t)]"
  let ?w = "if g then ?w1\<lparr>lw_dropped := lw_dropped w @ [cb]\<rparr>
    else if ca_unlinking cb then ?w2\<lparr>lw_settled := lw_settled w @ [s], lw_sent := lw_sent w @ ?ru\<rparr>
    else ?w2\<lparr>lw_sent := lw_sent w @ ?rs\<rparr>"
  have r: "callback_locked a g w = Some ?w"
    using cb resp by (simp add: callback_locked_def respond_def Let_def)
  have args: "lw_args ?w = (lw_args w)(a := Some (if g then cb else cb\<lparr>ca_transfer := TransferHandle_empty\<rparr>))"
    using cb(1) by (auto simp: fun_eq_iff)
  have inv: "urbs_inv ?w" and uu: "mset (tracked_unlinks w) = mset (case lw_args w a of Some cb \<Rightarrow> unlink_of cb | None \<Rightarrow> []) + mset (tracked_unlinks ?w)"
    by (rule locked_inv[OF ok et m _ _ _ _ _ args]; simp)+
  have "accounts [] ?w"
    using urbs_okD(12)[OF ok] u(7) uu cb(1,2) by (simp add: accounts_def unlink_of_def)
  with inv r show ?thesis by (auto simp: urbs_ok_def)
qed

lemma callback_finish_ok:
  assumes ok: "urbs_ok [] w" and et: "lw_et w = Et_finish a g"
  shows "\<exists>w'. callback_finish a g w = Some w' \<and> urbs_ok [] w'"
proof -
  have o: "et_owns w = []" "et_frees w = [a]" using et by (simp_all add: et_owns_def et_frees_def)
  have ng: "lw_rx w \<noteq> Rx_gone" using urbs_okD(9)[OF ok] et by auto
  let ?rs = "if g then [] else [Wakeup_sender]"
  let ?w1 = "w\<lparr>lw_sent := lw_sent w @ ?rs\<rparr>"
  have live: "lw_args w a \<noteq> None" using urbs_okD(6)[OF ok, of a] o by simp
  obtain q where f: "free_args a ?w1 = Some (set_args a None (set_handler (\<lambda>h. h\<lparr>lh_args_pool := q\<rparr>) ?w1))"
    "args_ok q ((lw_args w)(a := None))"
    using free_args_ok[of ?w1 a] urbs_okD(1)[OF ok] live by auto
  let ?w = "(set_handler (\<lambda>h. h\<lparr>lh_pending_count := lh_pending_count h - 1\<rparr>)
      (set_args a None (set_handler (\<lambda>h. h\<lparr>lh_args_pool := q\<rparr>) ?w1)))\<lparr>lw_et := Et_idle\<rparr>"
  have r: "callback_finish a g w = Some ?w"
    by (cases g) (use f(1) urbs_okD(8)[OF ok ng] in \<open>simp_all add: callback_finish_def respond_def\<close>)
  have o': "rx_owns ?w = rx_owns w" "et_owns ?w = []" "et_frees ?w = []"
    by (simp_all add: rx_owns_def et_owns_def et_frees_def)
  have nm: "a \<notin> snd ` set (lh_transfers (lw_handler w))" using urbs_okD(3)[OF ok] o by auto
  have l: "live_args ?w e" if "e \<in> set (lh_transfers (lw_handler w))" for e
  proof -
    have "live_args w e" using urbs_okD(5)[OF ok, of "fst e" "snd e"] that by simp
    then show ?thesis using nm that unfolding live_args_def o' by (auto split: option.splits)
  qed
  have tu: "tracked_unlinks ?w = tracked_unlinks w" by (rule tracked_unlinks_cong) (use nm in force)+
  have "urbs_inv ?w"
    using urbs_okD[OF ok] f(2) l ng o nm unfolding urbs_inv_def Let_def o' by auto
  moreover have "accounts [] ?w" using urbs_okD(12)[OF ok] tu by (simp add: accounts_def)
  ultimately show ?thesis using r by (auto simp: urbs_ok_def)
qed

section \<open>Connections\<close>

lemma claim_device_keeps:
  "claim_device lib wrapped n h tr = (ok, h', tr') \<Longrightarrow>
     lh_args_pool h' = lh_args_pool h \<and> lh_transfers h' = lh_transfers h \<and> lh_pending_count h' = lh_pending_count h \<and>
     lh_responder h' = lh_responder h"
  by (auto simp: claim_device_def split: prod.splits option.splits bool.splits)

lemma open_keeps:
  "open_and_claim_device lib n h tr = (ok, h', tr') \<Longrightarrow>
     lh_args_pool h' = lh_args_pool h \<and> lh_transfers h' = lh_transfers h \<and> lh_pending_count h' = lh_pending_count h \<and>
     lh_responder h' = lh_responder h"
  by (auto simp: open_and_claim_device_def split: prod.splits option.splits if_splits dest: claim_device_keeps)

lemma wrap_keeps:
  "wrap_fd_and_claim_interfaces lib n h tr = (ok, h', tr') \<Longrightarrow>
     lh_args_pool h' = lh_args_pool h \<and> lh_transfers h' = lh_transfers h \<and> lh_pending_count h' = lh_pending_count h \<and>
     lh_responder h' = lh_responder h"
  by (auto simp: wrap_fd_and_claim_interfaces_def split: prod.splits option.splits if_splits dest: claim_device_keeps)

lemma connection_keeps:
  assumes "lh_on_new_connection lib n h tr = (ec, h', tr')"
  shows "lh_args_pool h' = lh_args_pool h" "lh_transfers h' = lh_transfers h" "lh_pending_count h' = lh_pending_count h"
    "ec = None \<Longrightarrow> lh_responder h'"
  using assms
  by (auto simp: lh_on_new_connection_def Let_def split: prod.splits bool.splits if_splits
      dest!: open_keeps wrap_keeps)

lemma begin_connection_ok:
  assumes ok: "urbs_ok [] w" and rx: "lw_rx w = Rx_gone"
  shows "urbs_ok [] (snd (begin_connection lib n w))"
proof -
  obtain ec h tr where c: "lh_on_new_connection lib n (lw_handler w) (lw_trace w) = (ec, h, tr)" by (metis prod_cases3)
  note k = connection_keeps[OF c]
  let ?w = "w\<lparr>lw_handler := h, lw_trace := tr, lw_rx := (if ec = None then Rx_idle else Rx_gone)\<rparr>"
  have o: "rx_owns ?w = []" "rx_owns w = []" "et_owns ?w = et_owns w" "et_frees ?w = et_frees w"
    using rx by (simp_all add: rx_owns_def et_owns_def et_frees_def)
  have ts: "lh_transfers (lw_handler w) = []" "lw_et w = Et_idle" using urbs_okD(9)[OF ok rx] by simp_all
  have tu: "tracked_unlinks ?w = tracked_unlinks w" by (rule tracked_unlinks_cong) (use k ts in simp_all)
  have "urbs_inv ?w"
    using urbs_okD[OF ok] k ts unfolding urbs_inv_def Let_def o by (simp add: o)
  moreover have "accounts [] ?w" using urbs_okD(12)[OF ok] tu k by (simp add: accounts_def)
  ultimately show ?thesis using c by (simp add: begin_connection_def urbs_ok_def)
qed

lemma begin_disconnection_ok:
  assumes ok: "urbs_ok [] w" and rx: "lw_rx w = Rx_idle"
  shows "\<exists>w'. begin_disconnection w = Some w' \<and> urbs_ok [] w'"
proof -
  let ?w = "(set_handler (\<lambda>h. h\<lparr>lh_client_disconnection := True\<rparr>) w)\<lparr>lw_rx := Rx_waiting\<rparr>"
  have "list_all (\<lambda>e. case lw_args w (snd e) of None \<Rightarrow> False | Some cb \<Rightarrow> th_handle (ca_transfer cb) \<noteq> None)
      (lh_transfers (lw_handler w))"
    using urbs_okD(5)[OF ok] by (fastforce simp: list_all_iff live_args_def split: option.splits)
  then have r: "begin_disconnection w = Some ?w" by (simp add: begin_disconnection_def)
  have o: "rx_owns ?w = rx_owns w" "et_owns ?w = et_owns w" "et_frees ?w = et_frees w"
    using rx by (simp_all add: rx_owns_def et_owns_def et_frees_def)
  have l: "live_args ?w e = live_args w e" for e unfolding live_args_def o by simp
  have tu: "tracked_unlinks ?w = tracked_unlinks w" by (rule tracked_unlinks_cong) simp_all
  have "urbs_inv ?w" using urbs_okD[OF ok] rx l unfolding urbs_inv_def Let_def o by auto
  moreover have "accounts [] ?w" using urbs_okD(12)[OF ok] tu by (simp add: accounts_def)
  ultimately show ?thesis using r by (simp add: urbs_ok_def)
qed

lemma release_keeps:
  "release_and_close_device lib h tr = (h', tr') \<Longrightarrow>
     lh_args_pool h' = lh_args_pool h \<and> lh_transfers h' = lh_transfers h \<and> lh_pending_count h' = lh_pending_count h"
  by (auto simp: release_and_close_device_def Let_def split: if_splits)

text \<open>When the count is 0 nothing is tracked, nothing is allocated and no callback runs, so the pool can be reset.\<close>

lemma pending_none:
  assumes ok: "urbs_ok us w" and "lh_pending_count (lw_handler w) = 0"
  shows "lh_transfers (lw_handler w) = []" and "et_frees w = []" and "et_owns w = []" and "lw_submitted w = []"
    and "lw_args w = (\<lambda>a. None)" and "lw_et w = Et_idle"
proof -
  show e: "lh_transfers (lw_handler w) = []" "et_frees w = []" using urbs_okD(7)[OF ok] assms(2) by simp_all
  then show o: "et_owns w = []" "lw_submitted w = []" using urbs_okD(4)[OF ok] by simp_all
  show "lw_args w = (\<lambda>a. None)"
  proof
    fix a show "lw_args w a = None" using urbs_okD(6)[OF ok, of a] e by (cases "lw_args w a") simp_all
  qed
  show "lw_et w = Et_idle" using o(1) e(2) by (cases "lw_et w") (simp_all add: et_owns_def et_frees_def)
qed

lemma end_disconnection_ok:
  assumes ok: "urbs_ok [] w" and rx: "lw_rx w = Rx_waiting" and n: "lh_pending_count (lw_handler w) = 0"
  shows "urbs_ok [] (end_disconnection lib w)"
    and "lh_transfers (lw_handler (end_disconnection lib w)) = []" "pool_in_use (lh_args_pool (lw_handler (end_disconnection lib w))) = {}"
      "lw_args (end_disconnection lib w) = (\<lambda>a. None)" "lw_rx (end_disconnection lib w) = Rx_gone"
proof -
  note e = pending_none[OF ok n]
  let ?h = "(lw_handler w)\<lparr>lh_args_pool := pool_reset (lh_args_pool (lw_handler w))\<rparr>"
  obtain h tr where h: "(if lh_interfaces_claimed ?h then release_and_close_device lib ?h (lw_trace w) else (?h, lw_trace w)) = (h, tr)"
    by fastforce
  then have k: "lh_args_pool h = pool_reset (lh_args_pool (lw_handler w))" "lh_transfers h = []" "lh_pending_count h = 0"
    using release_keeps[of lib ?h "lw_trace w" h tr] e(1) n by (auto split: if_splits)
  let ?w = "w\<lparr>lw_handler := h\<lparr>lh_responder := False\<rparr>, lw_trace := tr, lw_rx := Rx_gone\<rparr>"
  have w: "end_disconnection lib w = ?w" using h by (simp add: end_disconnection_def Let_def del: if_split)
  have p: "pool_inv (lh_args_pool (lw_handler w))" using urbs_okD(1)[OF ok] by (simp add: args_ok_def)
  note r = pool_reset_spec[OF p]
  have o: "rx_owns ?w = []" "et_owns ?w = []" "et_frees ?w = []"
    using e(2,3) by (simp_all add: rx_owns_def et_owns_def et_frees_def)
  have tu: "tracked_unlinks ?w = tracked_unlinks w" by (rule tracked_unlinks_cong) (use k e in simp_all)
  have "urbs_inv ?w"
    using k e r unfolding urbs_inv_def Let_def o by (simp add: args_ok_def)
  moreover have "accounts [] ?w" using urbs_okD(12)[OF ok] tu k e by (simp add: accounts_def)
  ultimately show "urbs_ok [] (end_disconnection lib w)" unfolding w by (simp add: urbs_ok_def)
  show "lh_transfers (lw_handler (end_disconnection lib w)) = []" "pool_in_use (lh_args_pool (lw_handler (end_disconnection lib w))) = {}"
    "lw_args (end_disconnection lib w) = (\<lambda>a. None)" "lw_rx (end_disconnection lib w) = Rx_gone"
    unfolding w using k r e by simp_all
qed

section \<open>Runs\<close>

lemma urb_step_ok:
  assumes ok: "urbs_ok [] w" and en: "urb_enabled e w"
  shows "\<exists>w'. urb_step F lib e w = Some w' \<and> urbs_ok [] w'"
proof (cases e)
  case (Ev_connect n)
  then show ?thesis using begin_connection_ok[OF ok] en by simp
next
  case (Ev_urb heap cmd ep b)
  then show ?thesis using receive_urb_ok[OF ok, of heap cmd ep b F lib] en by (auto simp del: urb_enabled.simps)
next
  case (Ev_submit_result r)
  then obtain s a where rx: "lw_rx w = Rx_submitting s a" using en by (auto split: receiver_at.splits)
  from urb_submitted_ok[OF ok this, of r] show ?thesis using Ev_submit_result rx by auto
next
  case (Ev_unlink u c)
  then show ?thesis using handle_unlink_ok[OF ok] en by simp
next
  case (Ev_callback d a)
  then show ?thesis using callback_entry_ok[OF ok] en by simp
next
  case Ev_callback_locked
  then obtain a g where et: "lw_et w = Et_callback a g" using en by (auto split: event_thread_at.splits)
  from callback_locked_ok[OF ok this] show ?thesis using Ev_callback_locked et by simp
next
  case Ev_callback_finish
  then obtain a g where et: "lw_et w = Et_finish a g" using en by (auto split: event_thread_at.splits)
  from callback_finish_ok[OF ok this] show ?thesis using Ev_callback_finish et by simp
next
  case Ev_disconnect
  then show ?thesis using begin_disconnection_ok[OF ok] en by simp
next
  case Ev_disconnected
  then show ?thesis using end_disconnection_ok(1)[OF ok] en by simp
next
  case Ev_removed
  have "urbs_ok [] (set_handler lh_on_device_removed w)"
    by (rule urbs_ok_answered[OF ok, where rs = "[]" and cs = "[]" and xs = "[]"])
       (use urbs_okD(1)[OF ok] in \<open>simp_all add: lh_on_device_removed_def\<close>)
  then show ?thesis using Ev_removed by simp
qed

lemma urb_reach_ok: "urb_reach F lib w \<Longrightarrow> urbs_ok [] w"
proof (induction rule: urb_reach.induct)
  case (urb_start objects h dev policy fd)
  have p: "pool_inv (ObjectPool_new objects)" "pool_in_use (ObjectPool_new objects) = {}"
    using pool_new_inv[OF urb_start(1,2)] by simp_all
  have h: "lh_transfers h = []" "lh_pending_count h = 0" "lh_args_pool h = ObjectPool_new objects"
    using urb_start(3) by (auto simp: LibusbDeviceHandler_new_fd_def LibusbDeviceHandler_new_def)
  show ?case
    using p h by (simp add: urbs_ok_def urbs_inv_def accounts_def tracked_unlinks_def libusb_world_new_def args_ok_def
        rx_owns_def et_owns_def et_frees_def Let_def)
next
  case (urb_next w e w')
  then show ?case using urb_step_ok[of w e F lib] by auto
qed

text \<open>A sequence of events, each enabled when it happens.\<close>

fun urb_run :: "libusb_fill \<Rightarrow> libusb_oracle \<Rightarrow> urb_event list \<Rightarrow> libusb_world \<Rightarrow> libusb_world option" where
  "urb_run F lib [] w = Some w"
| "urb_run F lib (e # es) w = (if urb_enabled e w then Option.bind (urb_step F lib e w) (urb_run F lib es) else None)"

lemma urb_run_append:
  "urb_run F lib (xs @ ys) w = Option.bind (urb_run F lib xs w) (urb_run F lib ys)"
  by (induction xs arbitrary: w) (auto split: bind_splits)

text \<open>libusb completes a transfer: the three parts of its callback.\<close>

definition completion :: "(nat \<Rightarrow> libusb_transfer \<Rightarrow> libusb_transfer) \<Rightarrow> nat \<Rightarrow> urb_event list" where
  "completion d a = [Ev_callback (d a) a, Ev_callback_locked, Ev_callback_finish]"

lemma callback_threads:
  "callback_entry d a w = Some w' \<Longrightarrow>
     lw_submitted w' = remove1 a (lw_submitted w) \<and> lw_rx w' = lw_rx w \<and> (\<exists>g. lw_et w' = Et_callback a g)"
  "callback_locked a g w = Some w' \<Longrightarrow> lw_submitted w' = lw_submitted w \<and> lw_rx w' = lw_rx w \<and> lw_et w' = Et_finish a g"
  "callback_finish a g w = Some w' \<Longrightarrow> lw_submitted w' = lw_submitted w \<and> lw_rx w' = lw_rx w \<and> lw_et w' = Et_idle"
  by (auto simp: callback_entry_def callback_locked_def callback_finish_def free_args_def respond_def Let_def
      bind_eq_Some_conv split: option.splits if_splits prod.splits)

lemma completion_ok:
  assumes ok: "urbs_ok [] w" and et: "lw_et w = Et_idle" and s: "lw_submitted w = a # as"
  shows "\<exists>w'. urb_run F lib (completion d a) w = Some w' \<and> urbs_ok [] w' \<and> lw_submitted w' = as \<and> lw_et w' = Et_idle \<and>
    lw_rx w' = lw_rx w"
proof -
  obtain w1 where 1: "callback_entry (d a) a w = Some w1" "urbs_ok [] w1"
    using callback_entry_ok[OF ok et, of a "d a"] s by auto
  obtain g where g: "lw_et w1 = Et_callback a g" "lw_submitted w1 = as" "lw_rx w1 = lw_rx w"
    using callback_threads(1)[OF 1(1)] s by auto
  obtain w2 where 2: "callback_locked a g w1 = Some w2" "urbs_ok [] w2" using callback_locked_ok[OF 1(2) g(1)] by blast
  note t2 = callback_threads(2)[OF 2(1)]
  have et2: "lw_et w2 = Et_finish a g" using t2 by simp
  obtain w3 where 3: "callback_finish a g w2 = Some w3" "urbs_ok [] w3" using callback_finish_ok[OF 2(2) et2] by blast
  note t3 = callback_threads(3)[OF 3(1)]
  show ?thesis using 1 2 3 g t2 t3 et s by (simp add: completion_def)
qed

lemma completions_ok:
  assumes "urbs_ok [] w" and "lw_et w = Et_idle"
  shows "\<exists>w'. urb_run F lib (concat (map (completion d) (lw_submitted w))) w = Some w' \<and> urbs_ok [] w' \<and>
    lw_submitted w' = [] \<and> lw_et w' = Et_idle \<and> lw_rx w' = lw_rx w"
  using assms
proof (induction "lw_submitted w" arbitrary: w)
  case Nil
  then show ?case by simp
next
  case (Cons a as)
  from completion_ok[OF Cons.prems Cons.hyps(2)[symmetric], of F lib d] obtain w1 where
    1: "urb_run F lib (completion d a) w = Some w1" "urbs_ok [] w1" "lw_submitted w1 = as" "lw_et w1 = Et_idle" "lw_rx w1 = lw_rx w"
    by blast
  from Cons.hyps(1)[OF 1(3)[symmetric] 1(2,4)] obtain w2 where
    "urb_run F lib (concat (map (completion d) (lw_submitted w1))) w1 = Some w2" "urbs_ok [] w2"
    "lw_submitted w2 = []" "lw_et w2 = Et_idle" "lw_rx w2 = lw_rx w1" by blast
  then show ?case using 1 Cons.hyps(2)[symmetric] by (simp add: urb_run_append)
qed

section \<open>Filling\<close>

text \<open>What the documentation of libusb says about the functions that fill a transfer: the setup packet goes to the
  front of the buffer, and the length of a control transfer is that of the setup packet and of the data
  stage it announces.\<close>

definition fill_documented :: "libusb_fill \<Rightarrow> bool" where
  "fill_documented F \<longleftrightarrow>
     (\<forall>sp b. fill_control_setup F sp b = memcpy_at 0 (setup_to_bytes sp) b) \<and>
     (\<forall>t. fill_control_transfer F t = t\<lparr>lt_type := Type_control, lt_endpoint := 0,
        lt_length := LIBUSB_CONTROL_SETUP_SIZE + unat (sp_length (setup_parse (take 8 (lt_buffer t))))\<rparr>) \<and>
     (\<forall>a n t. fill_bulk_transfer F a n t = t\<lparr>lt_type := Type_bulk, lt_endpoint := a, lt_length := n\<rparr>) \<and>
     (\<forall>a n t. fill_interrupt_transfer F a n t = t\<lparr>lt_type := Type_interrupt, lt_endpoint := a, lt_length := n\<rparr>) \<and>
     (\<forall>a n k t. fill_iso_transfer F a n k t =
        t\<lparr>lt_type := Type_isochronous, lt_endpoint := a, lt_length := n, lt_num_iso_packets := k\<rparr>)"

definition documented_fill :: libusb_fill where
  "documented_fill =
     \<lparr>fill_control_setup = (\<lambda>sp b. memcpy_at 0 (setup_to_bytes sp) b),
      fill_control_transfer = (\<lambda>t. t\<lparr>lt_type := Type_control, lt_endpoint := 0,
        lt_length := LIBUSB_CONTROL_SETUP_SIZE + unat (sp_length (setup_parse (take 8 (lt_buffer t))))\<rparr>),
      fill_bulk_transfer = (\<lambda>a n t. t\<lparr>lt_type := Type_bulk, lt_endpoint := a, lt_length := n\<rparr>),
      fill_interrupt_transfer = (\<lambda>a n t. t\<lparr>lt_type := Type_interrupt, lt_endpoint := a, lt_length := n\<rparr>),
      fill_iso_transfer = (\<lambda>a n k t. t\<lparr>lt_type := Type_isochronous, lt_endpoint := a, lt_length := n, lt_num_iso_packets := k\<rparr>)\<rparr>"

lemma documented_fill: "fill_documented documented_fill"
  by (simp add: fill_documented_def documented_fill_def)

text \<open>What libusb may read and write: the length of the transfer, and the slots of its packets.\<close>

definition within_buffer :: "libusb_transfer \<Rightarrow> bool" where
  "within_buffer t \<longleftrightarrow>
     lt_length t \<le> length (lt_buffer t) \<and> lt_num_iso_packets t \<le> length (lt_iso_packet_desc t) \<and>
     iso_slots_ok (length (lt_buffer t)) (take (lt_num_iso_packets t) (lt_iso_packet_desc t))"

text \<open>The transfer as the protocol layer passes it (theorem \<open>libusb_decode_in_bounds\<close>).\<close>

definition decoded_transfer :: "libusb_transfer UsbIpCmdSubmit \<Rightarrow> libusb_transfer \<Rightarrow> bool" where
  "decoded_transfer c t \<longleftrightarrow>
     th_handle (cs_transfer c) = Some t \<and> libusb_transfer_ok t \<and>
     lt_num_iso_packets t = cmd_submit_num_iso (cs_number_of_packets c) \<and>
     lt_length t = unat (cs_transfer_buffer_length c) + (if h_ep (cs_header c) = 0 then LIBUSB_CONTROL_SETUP_SIZE else 0)"

lemma masking_within [simp]: "within_buffer (masking_bogus_flags b t) = within_buffer t" "within_buffer (t\<lparr>lt_flags := f\<rparr>) = within_buffer t"
  by (simp_all add: within_buffer_def masking_bogus_flags_def Let_def)

lemma libusb_decoded_submit:
  assumes "cmd_submit_finish (Leaf_op (LibusbTransferOperator e)) fs s = Some (Inr (c, s'))"
  shows "\<exists>t. decoded_transfer c t"
proof -
  let ?op = "LibusbTransferOperator e"
  from assms obtain t t' n where al: "alloc_transfer_handle ?op (unat (cs_transfer_buffer_length c))
      (cmd_submit_num_iso (cs_number_of_packets c)) (cs_header c) (cs_setup c) = Some t"
    and n: "n = 0 \<or> n = unat (cs_transfer_buffer_length c)"
    and rc: "recv_transfer_data ?op t n s = Some (Inr (t', s'))" and th: "th_handle (cs_transfer c) = Some t'"
    unfolding cmd_submit_finish_def Let_def
    by (auto simp: th_set_handle_def split: if_split_asm option.split_asm sum.split_asm) blast+
  have a: "lto_alloc_transfer_handle e (unat (cs_transfer_buffer_length c))
      (cmd_submit_num_iso (cs_number_of_packets c)) (cs_header c) (cs_setup c) = Some t"
    and r: "lto_recv_transfer_data t n s = Some (Inr (t', s'))"
    using al rc by (simp_all add: LibusbTransferOperator_def)
  have "n = 0 \<or> data_capacity t n" using n lto_alloc_ok(3)[OF a] by (auto simp: data_capacity_def)
  from lto_recv_ok[OF lto_alloc_ok(1)[OF a] this, of s] r
  show ?thesis using th lto_alloc_ok[OF a] by (auto simp: decoded_transfer_def)
qed

lemma unat_setup_length: "unat (ucast (n :: u16) :: u32) = unat n"
proof -
  have "unat n < 2 ^ LENGTH(16)" by (rule unsigned_less)
  then show ?thesis by (simp add: unsigned_ucast_eq take_bit_nat_eq_self)
qed

lemma track_urb_args:
  assumes "track_urb s b th heap w = Some w'" and "lw_rx w' = Rx_submitting s' a" and "lw_rx w = Rx_idle"
  shows "\<exists>cb. lw_args w' a = Some cb \<and> ca_transfer cb = th \<and> s' = s"
  using assms
  by (auto simp: track_urb_def Let_def refuse_urb_def free_args_def respond_def alloc_args_def set_args_def set_handler_def
      bind_eq_Some_conv split: prod.splits if_splits option.splits)

section \<open>An example\<close>

definition sample_bulk_cmd :: "libusb_transfer UsbIpCmdSubmit" where
  "sample_bulk_cmd =
     \<lparr>cs_header = \<lparr>h_command = 1, h_seqnum = 7, h_devid = 0, h_direction = 1, h_ep = 1\<rparr>, cs_transfer_flags = 0,
      cs_transfer_buffer_length = 2, cs_start_frame = 0, cs_number_of_packets = 0, cs_interval = 0,
      cs_setup = setup_parse [0, 0, 0, 0, 0, 0, 0, 0],
      cs_transfer = \<lparr>th_handle = Some \<lparr>lt_flags = {}, lt_endpoint = 0, lt_type = Type_bulk, lt_status = Lu_completed,
        lt_length = 2, lt_actual_length = 0, lt_buffer = [0, 0], lt_num_iso_packets = 0, lt_iso_packet_desc = []\<rparr>,
        th_op = None\<rparr>\<rparr>"

definition sample_control_cmd :: "libusb_transfer UsbIpCmdSubmit" where
  "sample_control_cmd = sample_bulk_cmd\<lparr>cs_setup :=
     \<lparr>sp_request_type = 0x80, sp_request = 0, sp_value = 0, sp_index = 0, sp_length = 2\<rparr>\<rparr>"

definition sample_bulk_ep :: UsbEndpoint where
  "sample_bulk_ep = \<lparr>ep_address = 0x81, ep_attributes = ep_attr_code EA_Bulk, ep_max_packet_size = 64, ep_interval = 0\<rparr>"

definition sample_handler :: LibusbDeviceHandler where
  "sample_handler = LibusbDeviceHandler_new [1] default_device DisconnectOnAnyError"


lemma urb_run_reach: "urb_reach F lib w \<Longrightarrow> urb_run F lib es w = Some w' \<Longrightarrow> urb_reach F lib w'"
  by (induction es arbitrary: w) (auto simp: bind_eq_Some_conv split: if_splits intro: urb_next)

lemma sample_start: "urb_reach F lib (libusb_world_new sample_handler)"
  by (rule urb_start[where objects = "[1]" and dev = default_device and policy = DisconnectOnAnyError])
     (simp_all add: sample_handler_def)

lemmas sample_defs = sample_handler_def sample_bulk_cmd_def sample_bulk_ep_def libusb_world_new_def begin_connection_def
  lh_on_new_connection_def open_and_claim_device_def claim_device_def reset_altsettings_def lu_call_def lu_do_def
  LibusbDeviceHandler_new_def lh_receive_urb_def receive_data_urb_def fill_by_type_def track_urb_def alloc_args_def
  urb_submitted_def handle_unlink_seqnum_def begin_disconnection_def set_args_def set_handler_def documented_fill_def
  ObjectPool_new_def pool_alloc_def pool_objects_def libusb_callback_args_reset_def default_device_def

lemma sample_run:
  "\<exists>w. urb_run documented_fill (\<lambda>tr c. None) [Ev_connect 0, Ev_urb 5 sample_bulk_cmd sample_bulk_ep True, Ev_submit_result None,
       Ev_unlink 7 8, Ev_disconnect] (libusb_world_new sample_handler) = Some w \<and>
     lw_submitted w = [1] \<and> lw_rx w = Rx_waiting \<and> lw_et w = Et_idle \<and> lw_commands w = [7]"
  by (simp add: sample_defs Let_def ep_is_in_def)

section \<open>Properties\<close>

text \<open>C28: The back end for physical devices frees each callback argument once and uses none after it is freed. However the
  receiver, the callbacks of libusb and the removal of the device interleave, no step reads freed
  arguments, frees twice, deletes an object of the pool, or answers without a responder; and
  \<open>pending_count_\<close> is the number of arguments that are allocated.\<close>

theorem libusb_callbacks_safe:
  assumes "urb_reach F lib w" and "urb_enabled e w"
  shows "urb_step F lib e w \<noteq> None \<and> lh_pending_count (lw_handler w) = card {a. lw_args w a \<noteq> None}"
proof
  note ok = urb_reach_ok[OF assms(1)]
  show "urb_step F lib e w \<noteq> None" using urb_step_ok[OF ok assms(2), of F lib] by auto
  have "{a. lw_args w a \<noteq> None} = set (map snd (lh_transfers (lw_handler w)) @ et_frees w)"
    using urbs_okD(6)[OF ok] by auto
  moreover have "card (set (map snd (lh_transfers (lw_handler w)) @ et_frees w)) =
      length (map snd (lh_transfers (lw_handler w)) @ et_frees w)"
    by (rule distinct_card[OF urbs_okD(3)[OF ok]])
  ultimately show "lh_pending_count (lw_handler w) = card {a. lw_args w a \<noteq> None}"
    using urbs_okD(7)[OF ok] by simp
qed

theorem libusb_callbacks_safe_witness:
  "\<exists>w :: libusb_world. lw_submitted w = [1] \<and> urb_step documented_fill (\<lambda>tr c. None) (Ev_callback (\<lambda>t. t) 1) w \<noteq> None \<and>
    lh_pending_count (lw_handler w) = card {a. lw_args w a \<noteq> None}"
proof -
  from sample_run obtain w where w: "urb_run documented_fill (\<lambda>tr c. None) [Ev_connect 0, Ev_urb 5 sample_bulk_cmd sample_bulk_ep True,
      Ev_submit_result None, Ev_unlink 7 8, Ev_disconnect] (libusb_world_new sample_handler) = Some w"
    "lw_submitted w = [1]" "lw_et w = Et_idle" by blast
  have "urb_enabled (Ev_callback (\<lambda>t. t) 1) w" using w by simp
  from libusb_callbacks_safe[OF urb_run_reach[OF sample_start w(1)] this] show ?thesis using w(2) by blast
qed





text \<open>C31: Decoding a command for a physical device never writes outside the transfer that was allocated for it,
  whatever the client sends; and a decoded CMD_SUBMIT has its transfer, with a buffer of the announced
  length (and room for the setup packet on endpoint 0), the announced number of packets, and every packet inside the
  buffer.\<close>

theorem libusb_decode_in_bounds:
  "case get_cmd_from_socket (Leaf_op (LibusbTransferOperator e)) s of
     None \<Rightarrow> False
   | Some (Inl err) \<Rightarrow> True
   | Some (Inr (Cmd_Unlink c, s')) \<Rightarrow> True
   | Some (Inr (Cmd_Submit c, s')) \<Rightarrow> \<exists>t. decoded_transfer c t"
proof -
  have "get_cmd_from_socket (Leaf_op (LibusbTransferOperator e)) s \<noteq> None"
    by (rule libusb_operator.get_cmd_in_bounds) simp
  moreover have "\<exists>t. decoded_transfer c t"
    if "get_cmd_from_socket (Leaf_op (LibusbTransferOperator e)) s = Some (Inr (Cmd_Submit c, s'))" for c s'
  proof -
    from that obtain fs s2 where "cmd_submit_finish (Leaf_op (LibusbTransferOperator e)) fs s2 = Some (Inr (c, s'))"
      by (auto simp: get_cmd_from_socket_def cmd_submit_from_socket_def rd_bind_def rd_return_def
          split: sum.split_asm option.split_asm if_split_asm prod.split_asm)
    then show ?thesis by (rule libusb_decoded_submit)
  qed
  ultimately show ?thesis by (auto split: option.split sum.split CmdVariant.split)
qed

text \<open>C32: What is submitted to libusb stays inside the buffer that was allocated for it: for every command the protocol layer
  decodes, the length of the transfer the handler submits is at most that of its buffer, and the slots of its
  packets lie inside it, when only endpoint 0 is a control endpoint.\<close>

theorem libusb_submits_within_buffer:
  assumes "fill_documented F" and "decoded_transfer cmd t" and "ep_attributes ep = ep_attr_code EA_Control \<Longrightarrow> h_ep (cs_header cmd) = 0"
    and "lh_receive_urb F lib heap cmd ep b w = Some (r, w')" and "lw_rx w = Rx_idle" and "lw_rx w' = Rx_submitting s a"
  shows "\<exists>cb t'. lw_args w' a = Some cb \<and> th_handle (ca_transfer cb) = Some t' \<and> s = h_seqnum (cs_header cmd) \<and> within_buffer t'"
proof -
  let ?s = "h_seqnum (cs_header cmd)" and ?w = "w\<lparr>lw_commands := lw_commands w @ [h_seqnum (cs_header cmd)]\<rparr>"
  let ?flags = "\<lambda>io t. masking_bogus_flags io (t\<lparr>lt_flags := get_libusb_transfer_flags (cs_transfer_flags cmd)\<rparr>)"
  have th: "th_handle (cs_transfer cmd) = Some t" and n: "lt_num_iso_packets t = cmd_submit_num_iso (cs_number_of_packets cmd)"
    and t: "length (lt_buffer t) = lt_length t" "length (lt_iso_packet_desc t) = lt_num_iso_packets t"
      "iso_slots_ok (lt_length t) (lt_iso_packet_desc t)"
    and l: "lt_length t = unat (cs_transfer_buffer_length cmd) + (if h_ep (cs_header cmd) = 0 then LIBUSB_CONTROL_SETUP_SIZE else 0)"
    using assms(2) unfolding decoded_transfer_def libusb_transfer_ok_def by blast+
  have tracked: "\<exists>cb t'. lw_args w' a = Some cb \<and> th_handle (ca_transfer cb) = Some t' \<and> s = ?s \<and> within_buffer t'"
    if "track_urb ?s io ((cs_transfer cmd)\<lparr>th_handle := Some (?flags io t1)\<rparr>) heap w1 = Some w'" "lw_rx w1 = Rx_idle" "within_buffer t1"
    for io t1 w1
    using track_urb_args[OF that(1) assms(6) that(2)] that(3) by auto
  have data: ?thesis if "receive_data_urb F heap cmd ep ?w = Some w'"
  proof -
    from that assms(5,6) obtain t1 where f: "fill_by_type F ep (unat (cs_transfer_buffer_length cmd))
        (cmd_submit_num_iso (cs_number_of_packets cmd)) t = Some t1"
      "track_urb ?s (\<not> ep_is_in ep) ((cs_transfer cmd)\<lparr>th_handle := Some (?flags (\<not> ep_is_in ep) t1)\<rparr>) heap ?w = Some w'"
      by (auto simp: receive_data_urb_def th Let_def refuse_urb_def free_args_def respond_def alloc_args_def set_args_def set_handler_def
          bind_eq_Some_conv split: option.splits prod.splits if_splits)
    have "within_buffer t1"
      using f(1) assms(1) t l n by (auto simp: fill_by_type_def fill_documented_def within_buffer_def split: if_splits)
    then show ?thesis using tracked[OF f(2)] assms(5) by simp
  qed
  have control: ?thesis if c: "receive_control_urb F lib heap cmd ?w = Some w'" and e: "h_ep (cs_header cmd) = 0"
  proof -
    obtain tr h1 tr1 where tw: "tweak_special_requests lib (cs_setup cmd) (lw_handler ?w) (lw_trace ?w) = (tr, h1, tr1)"
      by (metis prod_cases3)
    let ?t1 = "fill_control_transfer F (t\<lparr>lt_buffer := fill_control_setup F (cs_setup cmd) (lt_buffer t)\<rparr>)"
    have k: "\<not> cs_transfer_buffer_length cmd < ucast (sp_length (cs_setup cmd))"
      "track_urb ?s (setup_is_out (cs_setup cmd)) ((cs_transfer cmd)\<lparr>th_handle := Some (?flags (setup_is_out (cs_setup cmd)) ?t1)\<rparr>) heap
         (?w\<lparr>lw_handler := h1, lw_trace := tr1\<rparr>) = Some w'"
      using c assms(5,6) tw th
      by (cases tr; auto simp: receive_control_urb_def Let_def respond_def split: if_splits)+
    have len: "LIBUSB_CONTROL_SETUP_SIZE + unat (sp_length (cs_setup cmd)) \<le> length (lt_buffer t)"
      using k(1) e t(1) l by (simp add: not_less word_le_nat_alt unat_setup_length)
    have b: "take 8 (memcpy_at 0 (setup_to_bytes (cs_setup cmd)) (lt_buffer t)) = setup_to_bytes (cs_setup cmd)"
      by (simp add: memcpy_at_def)
    have bl: "length (memcpy_at 0 (setup_to_bytes (cs_setup cmd)) (lt_buffer t)) = length (lt_buffer t)"
      by (rule length_memcpy_at) (use len in \<open>simp add: LIBUSB_CONTROL_SETUP_SIZE_def\<close>)
    have "within_buffer ?t1" using assms(1) len t b bl by (simp add: fill_documented_def within_buffer_def)
    then show ?thesis using tracked[OF k(2)] assms(5) by simp
  qed
  show ?thesis
    using assms(3-6) data control by (auto simp: lh_receive_urb_def Let_def respond_def split: if_splits)
qed

theorem libusb_submits_within_buffer_witness:
  "\<exists>w' cb t'. lh_receive_urb documented_fill (\<lambda>tr c. None) 5 sample_bulk_cmd sample_bulk_ep True
      ((libusb_world_new (sample_handler\<lparr>lh_responder := True\<rparr>))\<lparr>lw_rx := Rx_idle\<rparr>) = Some (None, w') \<and>
    lw_args w' 1 = Some cb \<and> th_handle (ca_transfer cb) = Some t' \<and> within_buffer t'"
proof -
  obtain w' where w: "lh_receive_urb documented_fill (\<lambda>tr c. None) 5 sample_bulk_cmd sample_bulk_ep True
      ((libusb_world_new (sample_handler\<lparr>lh_responder := True\<rparr>))\<lparr>lw_rx := Rx_idle\<rparr>) = Some (None, w')"
    "lw_rx w' = Rx_submitting 7 1"
    by (simp add: sample_defs Let_def ep_is_in_def)
  have t: "decoded_transfer sample_bulk_cmd (the (th_handle (cs_transfer sample_bulk_cmd)))"
    by (simp add: decoded_transfer_def sample_bulk_cmd_def libusb_transfer_ok_def iso_slots_ok_def cmd_submit_num_iso_def)
  from libusb_submits_within_buffer[OF documented_fill t _ w(1) _ w(2)] w(1)
  show ?thesis by (simp add: sample_bulk_ep_def) blast
qed

section \<open>Limits\<close>

text \<open>A control endpoint other than 0: the protocol layer leaves room for the setup packet only on endpoint 0, while
  \<open>receive_urb\<close> decides by the type of the endpoint and writes the setup packet past the end of the buffer.\<close>

lemma control_endpoint_overruns:
  "decoded_transfer sample_control_cmd (the (th_handle (cs_transfer sample_control_cmd))) \<and>
   lh_receive_urb documented_fill (\<lambda>tr c. None) 5 sample_control_cmd (sample_bulk_ep\<lparr>ep_attributes := ep_attr_code EA_Control\<rparr>) True
      ((libusb_world_new (sample_handler\<lparr>lh_responder := True\<rparr>))\<lparr>lw_rx := Rx_idle\<rparr>) = None"
  by (simp add: sample_defs sample_control_cmd_def decoded_transfer_def libusb_transfer_ok_def iso_slots_ok_def
      cmd_submit_num_iso_def Let_def receive_control_urb_def tweak_special_requests_def is_clear_halt_cmd_def
      is_set_interface_cmd_def is_set_configuration_cmd_def is_reset_device_cmd_def LIBUSB_CONTROL_SETUP_SIZE_def)

text \<open>The number of a first CMD_UNLINK is lost when a second one names the same transfer.\<close>

lemma second_unlink_overwrites:
  "\<exists>w. urb_run documented_fill (\<lambda>tr c. None) [Ev_connect 0, Ev_urb 5 sample_bulk_cmd sample_bulk_ep True, Ev_submit_result None,
       Ev_unlink 7 8, Ev_unlink 7 9] (libusb_world_new sample_handler) = Some w \<and> lw_overwritten w = [8]"
  by (simp add: sample_defs Let_def ep_is_in_def)

text \<open>With the strict policy a transient failure of a submission marks the device as removed, so the server drops it
  from the registry at the end of the session although it is still there.\<close>

lemma strict_policy_drops_device:
  assumes "urb_submitted (Some Err_other) s a w = Some (r, w')"
    and "lh_submit_error_policy (lw_handler w) = DisconnectOnAnyError"
  shows "lh_is_device_removed (lw_handler w')"
  using assms
  by (auto simp: urb_submitted_def Let_def refuse_urb_def free_args_def respond_def should_disconnect_on_submit_error_def
      lh_is_device_removed_def bind_eq_Some_conv split: if_splits prod.splits option.splits)

end
