(* ===== verification/Libusb_Server.thy ===== *)
theory Libusb_Server
  imports Libusb_Device Server_Devices
begin

text \<open>
  \<open>LibusbServer\<close>: the physical devices of the registry. Binding and unbinding, hotplug, removal, start and stop, over the
  server of \<open>Server_Devices\<close>. The libusb devices are counted references: \<open>ls_refs\<close> is what the program
  holds, \<open>ls_owned\<close> (history) the part of it in the hands of callers, who pass it on to
  \<open>bind_host_device\<close> and \<open>unbind_host_device\<close>. Dropping a reference that is not held is the outcome \<open>None\<close>. What
  libusb reports about a device is an argument. A handler is numbered in the order of creation, and is of this
  back end if the table \<open>ls_handlers\<close> has it (the \<open>dynamic_pointer_cast\<close> of the code).
\<close>

section \<open>What libusb reports\<close>

record libusb_endpoint_descriptor =
  led_bEndpointAddress :: u8
  led_bmAttributes :: u8
  led_wMaxPacketSize :: u16
  led_bInterval :: u8

record libusb_interface_descriptor =
  lid_bInterfaceNumber :: u8
  lid_bInterfaceClass :: u8
  lid_bInterfaceSubClass :: u8
  lid_bInterfaceProtocol :: u8
  lid_endpoint :: "libusb_endpoint_descriptor list"

record libusb_config_descriptor =
  lcd_bConfigurationValue :: u8
  lcd_interface :: "libusb_interface_descriptor list list"

record libusb_device_descriptor =
  ldd_idVendor :: u16
  ldd_idProduct :: u16
  ldd_bcdDevice :: u16
  ldd_bDeviceClass :: u8
  ldd_bDeviceSubClass :: u8
  ldd_bDeviceProtocol :: u8
  ldd_bMaxPacketSize0 :: u8
  ldd_bNumConfigurations :: u8

definition LIBUSB_CLASS_HUB :: u8 where "LIBUSB_CLASS_HUB = 9"

text \<open>A descriptor that cannot be read is \<open>None\<close>; no port numbers is the empty list.\<close>

record libusb_device_info =
  li_descriptor :: "libusb_device_descriptor option"
  li_config :: "libusb_config_descriptor option"
  li_bus_number :: u8
  li_address :: u8
  li_port_number :: u8
  li_ports :: "u8 list"
  li_speed :: libusb_speed

section \<open>The exported device\<close>

definition port_path :: "u8 list \<Rightarrow> string" where
  "port_path ports =
     concat (map (\<lambda>(i, p). (if i = 0 then ''-'' else ''.'') @ decimal (unat p)) (List.enumerate 0 ports))"

definition get_device_busid :: "libusb_device_info \<Rightarrow> string" where
  "get_device_busid d =
     decimal (unat (li_bus_number d)) @
     (if li_ports d \<noteq> [] then port_path (li_ports d)
      else ''-'' @ decimal (unat (li_address d)) @ '':'' @ decimal (unat (li_port_number d)))"

definition libusb_endpoint :: "libusb_endpoint_descriptor \<Rightarrow> UsbEndpoint" where
  "libusb_endpoint e =
     \<lparr>ep_address = led_bEndpointAddress e, ep_attributes = led_bmAttributes e AND 0x03,
      ep_max_packet_size = led_wMaxPacketSize e, ep_interval = led_bInterval e\<rparr>"

text \<open>The class, subclass, protocol and number are those of the first alternate setting; there is none to read in an
  empty list.\<close>

definition libusb_interface :: "libusb_interface_descriptor list \<Rightarrow> UsbInterface option" where
  "libusb_interface alts =
     (case alts of
        [] \<Rightarrow> None
      | a # _ \<Rightarrow>
          Some (default_interface\<lparr>interface_class := lid_bInterfaceClass a, interface_subclass := lid_bInterfaceSubClass a,
             interface_protocol := lid_bInterfaceProtocol a, interface_number := lid_bInterfaceNumber a,
             endpoints := map (\<lambda>d. map libusb_endpoint (lid_endpoint d)) alts\<rparr>))"

definition libusb_usb_device ::
    "libusb_device_info \<Rightarrow> libusb_device_descriptor \<Rightarrow> libusb_config_descriptor \<Rightarrow> UsbDevice option" where
  "libusb_usb_device info desc conf =
     map_option (\<lambda>interfaces.
       \<lparr>ud_path = ''/sys/bus/'' @ decimal (unat (li_bus_number info)) @ ''/'' @ decimal (unat (li_address info)) @ ''/'' @
          decimal (unat (li_port_number info)),
        ud_busid = get_device_busid info, ud_bus_num = ucast (li_bus_number info), ud_dev_num = ucast (li_port_number info),
        ud_speed = speed_code (libusb_speed_to_usb_speed (li_speed info)),
        ud_vendor_id = ldd_idVendor desc, ud_product_id = ldd_idProduct desc,
        ud_device_bcd = version_of_bcd (ldd_bcdDevice desc), ud_device_class = ldd_bDeviceClass desc,
        ud_device_subclass = ldd_bDeviceSubClass desc, ud_device_protocol = ldd_bDeviceProtocol desc,
        ud_configuration_value = lcd_bConfigurationValue conf, ud_num_configurations = ldd_bNumConfigurations desc,
        ud_interfaces = interfaces, ud_ep0_in = get_ep0_in (ucast (ldd_bMaxPacketSize0 desc)),
        ud_ep0_out = get_ep0_out (ucast (ldd_bMaxPacketSize0 desc)), ud_handler = None\<rparr>)
       (those (map libusb_interface (lcd_interface conf)))"

section \<open>State\<close>

datatype DeviceOperationResult =
  Op_Success | DeviceNotFound | DeviceInUse | DeviceAlreadyBound | DeviceOpenFailed | GetDescriptorFailed
| GetConfigFailed | ClaimInterfaceFailed | HubFiltered | DeviceFiltered

record LibusbServerConfig =
  lc_skip_hub :: bool
  lc_auto_bind_hotplug :: bool
  lc_submit_error_policy :: LibusbSubmitErrorPolicy
  lc_device_bind_filter :: "(nat \<Rightarrow> libusb_device_descriptor \<Rightarrow> bool) option"

text \<open>A handler with the device it points to (none in the mode with a file descriptor) and its calls to libusb.\<close>

record libusb_handler_entry =
  he_handler :: LibusbDeviceHandler
  he_device :: nat
  he_trace :: libusb_trace

record libusb_server =
  ls_server :: server
  ls_handlers :: "nat \<Rightarrow> libusb_handler_entry option"
  ls_next_handler :: nat
  ls_refs :: "nat \<Rightarrow> nat"
  ls_owned :: "nat \<Rightarrow> nat"
  ls_stops :: "nat list"
  ls_hotplug_by_user :: bool
  ls_hotplug_enabled :: bool
  ls_event_thread :: bool

text \<open>The outside: the devices, the outcomes of calls for a handler, the pool objects of a new handler.\<close>

record libusb_host =
  lib_info :: "nat \<Rightarrow> libusb_device_info"
  lib_outcome :: "nat \<Rightarrow> libusb_oracle"
  lib_objects :: "nat \<Rightarrow> nat list"

section \<open>References\<close>

definition ref_device :: "nat \<Rightarrow> libusb_server \<Rightarrow> libusb_server" where
  "ref_device dev s = s\<lparr>ls_refs := (ls_refs s)(dev := ls_refs s dev + 1), ls_owned := (ls_owned s)(dev := ls_owned s dev + 1)\<rparr>"

definition unref_device :: "nat \<Rightarrow> libusb_server \<Rightarrow> libusb_server option" where
  "unref_device dev s = (if ls_refs s dev = 0 then None else Some (s\<lparr>ls_refs := (ls_refs s)(dev := ls_refs s dev - 1)\<rparr>))"

text \<open>A caller passes its reference on; using a device without any reference to it is \<open>None\<close>.\<close>

definition take_reference :: "nat \<Rightarrow> libusb_server \<Rightarrow> libusb_server option" where
  "take_reference dev s =
     (if ls_refs s dev = 0 then None else Some (s\<lparr>ls_owned := (ls_owned s)(dev := ls_owned s dev - 1)\<rparr>))"

text \<open>\<open>libusb_get_device_list\<close> and \<open>libusb_free_device_list(\<dots>, 1)\<close>: the list holds a reference to each device.\<close>

definition get_device_list :: "nat list \<Rightarrow> libusb_server \<Rightarrow> libusb_server" where
  "get_device_list devs s = fold ref_device devs s"

primrec free_device_list :: "nat list \<Rightarrow> libusb_server \<Rightarrow> libusb_server option" where
  "free_device_list [] s = Some s"
| "free_device_list (d # ds) s =
     Option.bind (Option.bind (take_reference d s) (unref_device d)) (free_device_list ds)"

definition find_by_busid ::
    "libusb_host \<Rightarrow> nat list option \<Rightarrow> string \<Rightarrow> libusb_server \<Rightarrow> (nat option \<times> libusb_server) option" where
  "find_by_busid H devs busid s =
     (case devs of
        None \<Rightarrow> Some (None, s)
      | Some ds \<Rightarrow>
          (let s1 = get_device_list ds s
           in case find (\<lambda>d. get_device_busid (lib_info H d) = busid) ds of
                None \<Rightarrow> map_option (Pair None) (free_device_list ds s1)
              | Some d \<Rightarrow> map_option (Pair (Some d)) (free_device_list ds (ref_device d s1))))"

section \<open>Handlers\<close>

definition set_entry :: "nat \<Rightarrow> (libusb_handler_entry \<Rightarrow> libusb_handler_entry) \<Rightarrow> libusb_server \<Rightarrow> libusb_server" where
  "set_entry i f s = s\<lparr>ls_handlers := (ls_handlers s)(i := map_option f (ls_handlers s i))\<rparr>"

text \<open>\<open>native_device_\<close> is dropped and cleared; the destructor drops what is left.\<close>

definition unref_native :: "nat \<Rightarrow> libusb_server \<Rightarrow> libusb_server option" where
  "unref_native i s =
     (case ls_handlers s i of
        Some e \<Rightarrow>
          if lh_native_device (he_handler e)
          then map_option (set_entry i (\<lambda>e. e\<lparr>he_handler := (he_handler e)\<lparr>lh_native_device := False\<rparr>\<rparr>))
                 (unref_device (he_device e) s)
          else Some s
      | None \<Rightarrow> Some s)"

definition destroy_handler :: "nat \<Rightarrow> libusb_server \<Rightarrow> libusb_server option" where
  "destroy_handler i s =
     map_option (\<lambda>s1. s1\<lparr>ls_handlers := (ls_handlers s1)(i := None)\<rparr>) (unref_native i s)"

definition close_native :: "libusb_host \<Rightarrow> nat \<Rightarrow> libusb_server \<Rightarrow> libusb_server" where
  "close_native H i s =
     set_entry i (\<lambda>e. if lh_native_handle (he_handler e)
                      then e\<lparr>he_handler := (he_handler e)\<lparr>lh_native_handle := False\<rparr>,
                             he_trace := lu_do (lib_outcome H i) Call_close (he_trace e)\<rparr>
                      else e) s"

definition release_native :: "libusb_host \<Rightarrow> nat \<Rightarrow> libusb_server \<Rightarrow> libusb_server" where
  "release_native H i s =
     set_entry i (\<lambda>e. if lh_interfaces_claimed (he_handler e)
                      then (case release_and_close_device (lib_outcome H i) (he_handler e) (he_trace e) of
                              (h, tr) \<Rightarrow> e\<lparr>he_handler := h, he_trace := tr\<rparr>)
                      else e) s"

definition with_handler :: "UsbDevice \<Rightarrow> (nat \<Rightarrow> 's \<Rightarrow> 's option) \<Rightarrow> 's \<Rightarrow> 's option" where
  "with_handler d f s = (case ud_handler d of None \<Rightarrow> Some s | Some i \<Rightarrow> f i s)"

text \<open>A device in use is removed: its session is stopped and ends with \<open>release_device\<close>.\<close>

definition remove_in_use :: "nat \<Rightarrow> libusb_server \<Rightarrow> libusb_server" where
  "remove_in_use i s =
     (set_entry i (\<lambda>e. e\<lparr>he_handler := lh_on_device_removed (he_handler e)\<rparr>) s)\<lparr>ls_stops := ls_stops s @ [i]\<rparr>"

section \<open>Binding\<close>

text \<open>The device gets its handler and goes to the server; if the server refuses it both are destroyed.\<close>

definition add_with_handler ::
    "UsbDevice \<Rightarrow> (UsbDevice \<Rightarrow> libusb_handler_entry) \<Rightarrow> libusb_server \<Rightarrow> (DeviceOperationResult \<times> libusb_server) option" where
  "add_with_handler device entry s =
     (let i = ls_next_handler s; d = device\<lparr>ud_handler := Some i\<rparr>
      in case add_device d (ls_server s) of
           (status, sv) \<Rightarrow>
             (let s1 = s\<lparr>ls_next_handler := i + 1, ls_handlers := (ls_handlers s)(i := Some (entry d)), ls_server := sv\<rparr>
              in if status = Added then Some (Op_Success, s1)
                 else map_option (Pair (if status = InUse then DeviceInUse else DeviceAlreadyBound)) (destroy_handler i s1)))"

definition bind_host_device ::
    "libusb_host \<Rightarrow> LibusbServerConfig \<Rightarrow> nat option \<Rightarrow> libusb_server \<Rightarrow> (DeviceOperationResult \<times> libusb_server) option" where
  "bind_host_device H cfg dev s =
     (case dev of
        None \<Rightarrow> Some (DeviceNotFound, s)
      | Some d \<Rightarrow>
          Option.bind (take_reference d s) (\<lambda>s0.
            let info = lib_info H d; refused = (\<lambda>r. map_option (Pair r) (unref_device d s0))
            in case li_descriptor info of
                 None \<Rightarrow> refused GetDescriptorFailed
               | Some desc \<Rightarrow>
                   if lc_skip_hub cfg \<and> ldd_bDeviceClass desc = LIBUSB_CLASS_HUB then refused HubFiltered
                   else if (case lc_device_bind_filter cfg of None \<Rightarrow> False | Some f \<Rightarrow> f d desc) then refused DeviceFiltered
                   else (case li_config info of
                           None \<Rightarrow> refused GetConfigFailed
                         | Some conf \<Rightarrow>
                             Option.bind (libusb_usb_device info desc conf) (\<lambda>device.
                               add_with_handler device
                                 (\<lambda>ud. \<lparr>he_handler = LibusbDeviceHandler_new (lib_objects H (ls_next_handler s0)) ud
                                          (lc_submit_error_policy cfg), he_device = d, he_trace = []\<rparr>) s0))))"

text \<open>\<open>wrapped\<close> is the outcome of \<open>libusb_wrap_sys_device\<close> and, inside, of \<open>libusb_get_device\<close>. The temporary handle is
  closed on every path.\<close>

definition bind_host_device_with_wrapped_fd ::
    "libusb_host \<Rightarrow> LibusbServerConfig \<Rightarrow> int \<Rightarrow> libusb_device_info option option \<Rightarrow> libusb_server \<Rightarrow>
     (DeviceOperationResult \<times> libusb_server) option" where
  "bind_host_device_with_wrapped_fd H cfg fd wrapped s =
     (if fd < 0 then Some (DeviceNotFound, s)
      else (case wrapped of
              None \<Rightarrow> Some (DeviceOpenFailed, s)
            | Some None \<Rightarrow> Some (DeviceNotFound, s)
            | Some (Some info) \<Rightarrow>
                (case li_descriptor info of
                   None \<Rightarrow> Some (GetDescriptorFailed, s)
                 | Some desc \<Rightarrow>
                     (case li_config info of
                        None \<Rightarrow> Some (GetConfigFailed, s)
                      | Some conf \<Rightarrow>
                          Option.bind (libusb_usb_device info desc conf) (\<lambda>device.
                            add_with_handler device
                              (\<lambda>ud. \<lparr>he_handler = LibusbDeviceHandler_new_fd (lib_objects H (ls_next_handler s)) ud fd
                                       (lc_submit_error_policy cfg), he_device = 0, he_trace = []\<rparr>) s)))))"

section \<open>Unbinding and removal\<close>

text \<open>A detached device: its handler gives back what it holds and is destroyed with the device.\<close>

definition discard_released :: "libusb_host \<Rightarrow> nat \<Rightarrow> libusb_server \<Rightarrow> libusb_server option" where
  "discard_released H i s = Option.bind (unref_native i (release_native H i s)) (destroy_handler i)"

definition discard_closed :: "libusb_host \<Rightarrow> nat \<Rightarrow> libusb_server \<Rightarrow> libusb_server option" where
  "discard_closed H i s = Option.bind (unref_native i (close_native H i s)) (destroy_handler i)"

definition unbind_host_device ::
    "libusb_host \<Rightarrow> nat \<Rightarrow> libusb_server \<Rightarrow> (DeviceOperationResult \<times> libusb_server) option" where
  "unbind_host_device H dev s =
     Option.bind (take_reference dev s) (\<lambda>s0.
       let busid = get_device_busid (lib_info H dev)
       in case detach_available_device busid (ls_server s0) of
            (Some d, sv) \<Rightarrow>
              Option.bind (with_handler d (discard_released H) (s0\<lparr>ls_server := sv\<rparr>))
                (\<lambda>s1. map_option (Pair Op_Success) (unref_device dev s1))
          | (None, sv) \<Rightarrow>
              map_option (Pair (if is_device_using busid sv then DeviceInUse else DeviceNotFound)) (unref_device dev s0))"

definition wrapped_fd_of :: "libusb_server \<Rightarrow> UsbDevice \<Rightarrow> int option" where
  "wrapped_fd_of s d =
     Option.bind (ud_handler d) (\<lambda>i. map_option (\<lambda>e. lh_wrapped_fd (he_handler e)) (ls_handlers s i))"

text \<open>The loop over the devices in use looks for the handler with the descriptor; \<open>using\<close> are their bus ids. In this mode
  there is no device reference to drop.\<close>

definition unbind_host_device_by_fd ::
    "libusb_host \<Rightarrow> int \<Rightarrow> string list \<Rightarrow> libusb_server \<Rightarrow> (DeviceOperationResult \<times> libusb_server) option" where
  "unbind_host_device_by_fd H fd using s =
     (let target_busid = (case find (\<lambda>d. wrapped_fd_of s d = Some fd) (sv_available (ls_server s)) of
                            None \<Rightarrow> [] | Some d \<Rightarrow> ud_busid d)
      in case (if target_busid \<noteq> [] then detach_available_device target_busid (ls_server s) else (None, ls_server s)) of
           (Some d, sv) \<Rightarrow>
             map_option (Pair Op_Success)
               (with_handler d (\<lambda>i s1. destroy_handler i (release_native H i s1)) (s\<lparr>ls_server := sv\<rparr>))
         | (None, sv) \<Rightarrow>
             Some (if \<exists>b \<in> set using. (case sv_using sv b of Some d \<Rightarrow> wrapped_fd_of s d = Some fd | None \<Rightarrow> False)
                   then DeviceInUse else DeviceNotFound, s))"

definition try_remove_dead_device ::
    "libusb_host \<Rightarrow> string \<Rightarrow> libusb_server \<Rightarrow> (DeviceOperationResult \<times> libusb_server) option" where
  "try_remove_dead_device H busid s =
     (case detach_available_device busid (ls_server s) of
        (Some d, sv) \<Rightarrow> map_option (Pair Op_Success) (with_handler d (discard_closed H) (s\<lparr>ls_server := sv\<rparr>))
      | (None, sv) \<Rightarrow>
          Some (case sv_using sv busid of
                  None \<Rightarrow> (DeviceNotFound, s)
                | Some d \<Rightarrow>
                    (case ud_handler d of
                       None \<Rightarrow> (DeviceNotFound, s)
                     | Some i \<Rightarrow> if ls_handlers s i \<noteq> None then (Op_Success, remove_in_use i s) else (DeviceNotFound, s))))"

definition notify_device_removed ::
    "libusb_host \<Rightarrow> string \<Rightarrow> libusb_server \<Rightarrow> (DeviceOperationResult \<times> libusb_server) option" where
  "notify_device_removed H busid s =
     (case detach_available_device busid (ls_server s) of
        (Some d, sv) \<Rightarrow> map_option (Pair Op_Success) (with_handler d (discard_closed H) (s\<lparr>ls_server := sv\<rparr>))
      | (None, sv) \<Rightarrow>
          Some (case sv_using sv busid of
                  None \<Rightarrow> (DeviceNotFound, s)
                | Some d \<Rightarrow> (Op_Success, case ud_handler d of None \<Rightarrow> s | Some i \<Rightarrow> remove_in_use i s)))"

definition handle_device_left :: "libusb_host \<Rightarrow> string \<Rightarrow> libusb_server \<Rightarrow> libusb_server option" where
  "handle_device_left H busid s =
     (case detach_available_device busid (ls_server s) of
        (Some d, sv) \<Rightarrow> with_handler d (discard_closed H) (s\<lparr>ls_server := sv\<rparr>)
      | (None, sv) \<Rightarrow>
          Some (case sv_using sv busid of
                  None \<Rightarrow> s
                | Some d \<Rightarrow> (case ud_handler d of None \<Rightarrow> s | Some i \<Rightarrow> remove_in_use i s)))"

section \<open>Arrival\<close>

definition handle_device_arrived :: "libusb_host \<Rightarrow> LibusbServerConfig \<Rightarrow> nat \<Rightarrow> libusb_server \<Rightarrow> libusb_server option" where
  "handle_device_arrived H cfg dev s =
     (if has_bound_device (get_device_busid (lib_info H dev)) (ls_server s) then Some s
      else if lc_auto_bind_hotplug cfg then map_option snd (bind_host_device H cfg (Some dev) (ref_device dev s))
      else Some s)"

datatype hotplug_event = Device_arrived | Device_left

fun hotplug_callback ::
    "libusb_host \<Rightarrow> LibusbServerConfig \<Rightarrow> nat \<Rightarrow> hotplug_event \<Rightarrow> libusb_server \<Rightarrow> libusb_server option" where
  "hotplug_callback H cfg dev Device_arrived s = handle_device_arrived H cfg dev s"
| "hotplug_callback H cfg dev Device_left s = handle_device_left H (get_device_busid (lib_info H dev)) s"

text \<open>The loop of \<open>bind_existing_devices\<close>, with the counts of devices bound and skipped.\<close>

primrec bind_devices ::
    "libusb_host \<Rightarrow> LibusbServerConfig \<Rightarrow> nat list \<Rightarrow> nat \<times> nat \<Rightarrow> libusb_server \<Rightarrow> ((nat \<times> nat) \<times> libusb_server) option" where
  "bind_devices H cfg [] n s = Some (n, s)"
| "bind_devices H cfg (d # ds) n s =
     (if has_bound_device (get_device_busid (lib_info H d)) (ls_server s) then bind_devices H cfg ds n s
      else Option.bind (bind_host_device H cfg (Some d) (ref_device d s)) (\<lambda>(r, s1).
             bind_devices H cfg ds
               (if r = Op_Success then (fst n + 1, snd n)
                else if r = HubFiltered \<or> r = DeviceFiltered then (fst n, snd n + 1) else n) s1))"

definition bind_existing_devices ::
    "libusb_host \<Rightarrow> LibusbServerConfig \<Rightarrow> nat list option \<Rightarrow> libusb_server \<Rightarrow> ((nat \<times> nat) \<times> libusb_server) option" where
  "bind_existing_devices H cfg devs s =
     (case devs of
        None \<Rightarrow> Some ((0, 0), s)
      | Some ds \<Rightarrow>
          Option.bind (bind_devices H cfg ds (0, 0) (get_device_list ds s))
            (\<lambda>(n, s1). map_option (Pair n) (free_device_list ds s1)))"

section \<open>Start and stop\<close>

definition start_hotplug_monitor :: "bool \<Rightarrow> bool \<Rightarrow> libusb_server \<Rightarrow> libusb_server" where
  "start_hotplug_monitor has_capability registered s =
     (if \<not> ls_hotplug_by_user s then s
      else if \<not> has_capability then s
      else if registered then s\<lparr>ls_hotplug_enabled := True\<rparr> else s)"

definition stop_hotplug_monitor :: "libusb_server \<Rightarrow> libusb_server" where
  "stop_hotplug_monitor s = (if ls_hotplug_enabled s then s\<lparr>ls_hotplug_enabled := False\<rparr> else s)"

text \<open>The result says that no error is reported. A server that does not start takes the event thread with it.\<close>

definition libusb_server_start :: "bool \<Rightarrow> bool \<Rightarrow> bool \<Rightarrow> start_env \<Rightarrow> libusb_server \<Rightarrow> bool \<times> libusb_server" where
  "libusb_server_start has_capability registered thread_ok e s =
     (let s1 = start_hotplug_monitor has_capability registered s
      in if \<not> thread_ok then (False, stop_hotplug_monitor s1)
         else (case server_start e (ls_server s1) of
                 (ok, sv) \<Rightarrow>
                   (let s2 = s1\<lparr>ls_server := sv, ls_event_thread := True\<rparr>
                    in if ok then (True, s2) else (False, (stop_hotplug_monitor s2)\<lparr>ls_event_thread := False\<rparr>))))"

text \<open>\<open>stop()\<close> up to the wait of \<open>Server::stop\<close>, and from there on. The devices are cleaned up in the order of the
  available list, then those in use, and all are destroyed.\<close>

definition libusb_server_stop_request :: "libusb_server \<Rightarrow> u64 list \<times> libusb_server" where
  "libusb_server_stop_request s =
     (case server_stop_request (ls_server s) of
        (stopped, sv) \<Rightarrow> (stopped, (stop_hotplug_monitor s)\<lparr>ls_server := sv\<rparr>))"

primrec clean_up :: "libusb_host \<Rightarrow> nat list \<Rightarrow> libusb_server \<Rightarrow> libusb_server option" where
  "clean_up H [] s = Some s"
| "clean_up H (i # is') s = Option.bind (discard_released H i s) (clean_up H is')"

definition handlers_available :: "libusb_server \<Rightarrow> nat list" where
  "handlers_available s = List.map_filter ud_handler (sv_available (ls_server s))"

definition libusb_server_stop_finish :: "libusb_host \<Rightarrow> libusb_server \<Rightarrow> libusb_server option" where
  "libusb_server_stop_finish H s =
     Option.bind (server_stop_finish (ls_server s)) (\<lambda>sv.
     Option.bind (clean_up H (handlers_available s) (s\<lparr>ls_server := sv\<rparr>)) (\<lambda>s1.
     Option.bind (clean_up H (filter (\<lambda>i. ls_handlers s1 i \<noteq> None) [0..<ls_next_handler s1]) s1) (\<lambda>s2.
       Some (s2\<lparr>ls_server := (ls_server s2)\<lparr>sv_available := [], sv_using := Map.empty\<rparr>, ls_event_thread := False\<rparr>))))"

section \<open>Sessions\<close>

text \<open>The end of a session gives its device back, or drops it with its handler when the device is gone.\<close>

definition handler_removed :: "libusb_server \<Rightarrow> nat \<Rightarrow> bool" where
  "handler_removed s i = (case ls_handlers s i of Some e \<Rightarrow> lh_is_device_removed (he_handler e) | None \<Rightarrow> False)"

definition session_gives_back :: "string \<Rightarrow> libusb_server \<Rightarrow> libusb_server option" where
  "session_gives_back busid s =
     (let s1 = s\<lparr>ls_server := release_device (handler_removed s) busid (ls_server s)\<rparr>
      in case sv_using (ls_server s) busid of
           None \<Rightarrow> Some s1
         | Some d \<Rightarrow>
             with_handler d (\<lambda>i s2. if handler_removed s i then destroy_handler i s2 else Some s2) s1)"

definition LibusbServer_new :: libusb_server where
  "LibusbServer_new =
     \<lparr>ls_server = Server_new [], ls_handlers = (\<lambda>i. None), ls_next_handler = 0, ls_refs = (\<lambda>d. 0), ls_owned = (\<lambda>d. 0),
      ls_stops = [], ls_hotplug_by_user = True, ls_hotplug_enabled = False, ls_event_thread = False\<rparr>"

end
