(* ===== verification/Libusb_Server_Props.thy ===== *)
theory Libusb_Server_Props
  imports Libusb_Server
begin

text \<open>
  The physical devices of a server over all runs: binding, hotplug, imports and the ends of sessions, calls by the user
  and the devices the user adds itself, in any order. Every reference to a libusb device is accounted
  for, no reference is dropped twice, and the handlers of the back end are those of registered devices.
\<close>

section \<open>Runs\<close>

text \<open>A session changes its handler in any way that keeps the mode. libusb passes descriptors in which every interface
  has an alternate setting.\<close>

datatype lsv_event =
  Lv_find "nat list option" string
| Lv_bind nat
| Lv_bind_fd int "libusb_device_info option option"
| Lv_unbind nat
| Lv_unbind_fd int "string list"
| Lv_dead string
| Lv_removed string
| Lv_hotplug nat hotplug_event
| Lv_existing "nat list option"
| Lv_virtual UsbDevice
| Lv_import string
| Lv_session nat LibusbDeviceHandler
| Lv_give_back string
| Lv_start bool bool bool start_env
| Lv_stop_request
| Lv_stop_finish

definition config_ok :: "libusb_device_info \<Rightarrow> bool" where
  "config_ok info \<longleftrightarrow> (case li_config info of None \<Rightarrow> True | Some conf \<Rightarrow> [] \<notin> set (lcd_interface conf))"

fun lsv_enabled :: "lsv_event \<Rightarrow> libusb_server \<Rightarrow> bool" where
  "lsv_enabled (Lv_bind d) s = (0 < ls_owned s d)"
| "lsv_enabled (Lv_unbind d) s = (0 < ls_owned s d)"
| "lsv_enabled (Lv_bind_fd fd w) s = (case w of Some (Some info) \<Rightarrow> config_ok info | _ \<Rightarrow> True)"
| "lsv_enabled (Lv_session i h) s =
     (case ls_handlers s i of None \<Rightarrow> False | Some e \<Rightarrow> lh_native_device h = lh_native_device (he_handler e))"
| "lsv_enabled Lv_stop_finish s = (sv_active_sessions (ls_server s) = 0)"
| "lsv_enabled _ s = True"

fun lsv_step :: "libusb_host \<Rightarrow> LibusbServerConfig \<Rightarrow> lsv_event \<Rightarrow> libusb_server \<Rightarrow> libusb_server option" where
  "lsv_step H cfg (Lv_find devs b) s = map_option snd (find_by_busid H devs b s)"
| "lsv_step H cfg (Lv_bind d) s = map_option snd (bind_host_device H cfg (Some d) s)"
| "lsv_step H cfg (Lv_bind_fd fd w) s = map_option snd (bind_host_device_with_wrapped_fd H cfg fd w s)"
| "lsv_step H cfg (Lv_unbind d) s = map_option snd (unbind_host_device H d s)"
| "lsv_step H cfg (Lv_unbind_fd fd bs) s = map_option snd (unbind_host_device_by_fd H fd bs s)"
| "lsv_step H cfg (Lv_dead b) s = map_option snd (try_remove_dead_device H b s)"
| "lsv_step H cfg (Lv_removed b) s = map_option snd (notify_device_removed H b s)"
| "lsv_step H cfg (Lv_hotplug d e) s = hotplug_callback H cfg d e s"
| "lsv_step H cfg (Lv_existing devs) s = map_option snd (bind_existing_devices H cfg devs s)"
| "lsv_step H cfg (Lv_virtual d) s =
     Some (s\<lparr>ls_next_handler := ls_next_handler s + 1,
             ls_server := snd (add_device (d\<lparr>ud_handler := Some (ls_next_handler s)\<rparr>) (ls_server s))\<rparr>)"
| "lsv_step H cfg (Lv_import b) s = Some (s\<lparr>ls_server := snd (try_moving_device_to_using b (ls_server s))\<rparr>)"
| "lsv_step H cfg (Lv_session i h) s = Some (set_entry i (\<lambda>e. e\<lparr>he_handler := h\<rparr>) s)"
| "lsv_step H cfg (Lv_give_back b) s = session_gives_back b s"
| "lsv_step H cfg (Lv_start c r t e) s = Some (snd (libusb_server_start c r t e s))"
| "lsv_step H cfg Lv_stop_request s = Some (snd (libusb_server_stop_request s))"
| "lsv_step H cfg Lv_stop_finish s = libusb_server_stop_finish H s"

inductive lsv_reach :: "libusb_host \<Rightarrow> LibusbServerConfig \<Rightarrow> libusb_server \<Rightarrow> bool" for H cfg where
  lsv_start: "lsv_reach H cfg LibusbServer_new"
| lsv_next: "lsv_reach H cfg s \<Longrightarrow> lsv_enabled e s \<Longrightarrow> lsv_step H cfg e s = Some s' \<Longrightarrow> lsv_reach H cfg s'"

section \<open>References\<close>

definition holders :: "libusb_server \<Rightarrow> nat \<Rightarrow> nat set" where
  "holders s d = {i. \<exists>e. ls_handlers s i = Some e \<and> lh_native_device (he_handler e) \<and> he_device e = d}"

text \<open>\<open>x\<close> is the device of the reference an operation has in its hands.\<close>

definition refs_ok :: "nat option \<Rightarrow> libusb_server \<Rightarrow> bool" where
  "refs_ok x s \<longleftrightarrow>
     finite (dom (ls_handlers s)) \<and>
     (\<forall>d. ls_refs s d = ls_owned s d + card (holders s d) + (if x = Some d then 1 else 0))"

definition same_frame :: "libusb_server \<Rightarrow> libusb_server \<Rightarrow> bool" where
  "same_frame s s' \<longleftrightarrow>
     ls_server s' = ls_server s \<and> ls_next_handler s' = ls_next_handler s \<and> ls_owned s' = ls_owned s"

lemma holders_subset: "holders s d \<subseteq> dom (ls_handlers s)" by (auto simp: holders_def)

lemma finite_holders: "refs_ok x s \<Longrightarrow> finite (holders s d)"
  unfolding refs_ok_def by (metis finite_subset holders_subset)

lemma holders_cong: "ls_handlers s' = ls_handlers s \<Longrightarrow> holders s' d = holders s d"
  by (simp add: holders_def)

lemma refs_ok_cong:
  "ls_handlers s' = ls_handlers s \<Longrightarrow> ls_refs s' = ls_refs s \<Longrightarrow> ls_owned s' = ls_owned s \<Longrightarrow> refs_ok x s' = refs_ok x s"
  by (simp add: refs_ok_def holders_cong[of s' s])

lemma ref_device_ok: "refs_ok x s \<Longrightarrow> refs_ok x (ref_device d s)"
  by (simp add: refs_ok_def ref_device_def holders_cong[of "s\<lparr>ls_refs := r, ls_owned := t\<rparr>" s for r t])

lemma ref_device_sel [simp]:
  "ls_server (ref_device d s) = ls_server s" "ls_handlers (ref_device d s) = ls_handlers s"
  "ls_next_handler (ref_device d s) = ls_next_handler s"
  "ls_owned (ref_device d s) = (ls_owned s)(d := ls_owned s d + 1)"
  by (simp_all add: ref_device_def)

lemma take_reference_ok:
  assumes "refs_ok None s" and "0 < ls_owned s d"
  shows "\<exists>s'. take_reference d s = Some s' \<and> refs_ok (Some d) s' \<and> ls_server s' = ls_server s \<and>
    ls_next_handler s' = ls_next_handler s \<and> ls_handlers s' = ls_handlers s \<and> ls_owned s' = (ls_owned s)(d := ls_owned s d - 1)"
proof -
  have "ls_refs s d \<noteq> 0" using assms by (simp add: refs_ok_def)
  then show ?thesis
    using assms by (auto simp: take_reference_def refs_ok_def holders_cong[of "s\<lparr>ls_owned := t\<rparr>" s for t])
qed

lemma unref_device_ok:
  assumes "refs_ok (Some d) s"
  shows "\<exists>s'. unref_device d s = Some s' \<and> refs_ok None s' \<and> same_frame s s' \<and> ls_handlers s' = ls_handlers s"
proof -
  have "ls_refs s d \<noteq> 0" using assms by (simp add: refs_ok_def)
  then show ?thesis
    using assms by (auto simp: unref_device_def refs_ok_def same_frame_def holders_cong[of "s\<lparr>ls_refs := t\<rparr>" s for t])
qed

lemma get_device_list_ok:
  "refs_ok x s \<Longrightarrow> refs_ok x (get_device_list ds s) \<and> ls_server (get_device_list ds s) = ls_server s \<and>
   ls_handlers (get_device_list ds s) = ls_handlers s \<and> ls_next_handler (get_device_list ds s) = ls_next_handler s \<and>
   (\<forall>d. ls_owned (get_device_list ds s) d = ls_owned s d + count_list ds d)"
  by (induction ds arbitrary: s) (auto simp: get_device_list_def ref_device_ok)

lemma free_device_list_ok:
  assumes "refs_ok None s" and "\<And>d. count_list ds d \<le> ls_owned s d"
  shows "\<exists>s'. free_device_list ds s = Some s' \<and> refs_ok None s' \<and> ls_server s' = ls_server s \<and>
    ls_handlers s' = ls_handlers s \<and> ls_next_handler s' = ls_next_handler s"
  using assms
proof (induction ds arbitrary: s)
  case (Cons d ds)
  have "0 < ls_owned s d" using Cons.prems(2)[of d] by simp
  from take_reference_ok[OF Cons.prems(1) this] obtain s1 where 1: "take_reference d s = Some s1" "refs_ok (Some d) s1"
    "ls_server s1 = ls_server s" "ls_next_handler s1 = ls_next_handler s" "ls_handlers s1 = ls_handlers s"
    "ls_owned s1 = (ls_owned s)(d := ls_owned s d - 1)" by blast
  from unref_device_ok[OF 1(2)] obtain s2 where 2: "unref_device d s1 = Some s2" "refs_ok None s2" "same_frame s1 s2"
    "ls_handlers s2 = ls_handlers s1" by blast
  have "count_list ds e \<le> ls_owned s2 e" for e
    using Cons.prems(2)[of e] 1(6) 2(3) by (auto simp: same_frame_def split: if_splits)
  from Cons.IH[OF 2(2) this] show ?case using 1 2 by (auto simp: same_frame_def)
qed simp

text \<open>The handlers.\<close>

lemma set_entry_sel [simp]:
  "ls_server (set_entry i f s) = ls_server s" "ls_next_handler (set_entry i f s) = ls_next_handler s"
  "ls_owned (set_entry i f s) = ls_owned s" "ls_refs (set_entry i f s) = ls_refs s"
  "ls_handlers (set_entry i f s) = (ls_handlers s)(i := map_option f (ls_handlers s i))"
  "dom (ls_handlers (set_entry i f s)) = dom (ls_handlers s)"
  by (auto simp: set_entry_def dom_def)

lemma set_entry_holders:
  assumes "\<And>e. ls_handlers s i = Some e \<Longrightarrow>
    lh_native_device (he_handler (f e)) = lh_native_device (he_handler e) \<and> he_device (f e) = he_device e"
  shows "holders (set_entry i f s) d = holders s d"
proof (cases "ls_handlers s i")
  case (Some e)
  then show ?thesis using assms[OF Some] by (auto simp: holders_def)
qed (auto simp: holders_def)

lemma set_entry_ok:
  assumes "refs_ok x s" and "\<And>e. ls_handlers s i = Some e \<Longrightarrow>
    lh_native_device (he_handler (f e)) = lh_native_device (he_handler e) \<and> he_device (f e) = he_device e"
  shows "refs_ok x (set_entry i f s)"
  using assms(1) set_entry_holders[OF assms(2)] unfolding refs_ok_def set_entry_sel by simp

lemma release_keeps_mode:
  "release_and_close_device lib h tr = (h', tr') \<Longrightarrow> lh_native_device h' = lh_native_device h"
  by (auto simp: release_and_close_device_def Let_def split: if_splits)

lemma close_native_ok: "refs_ok x s \<Longrightarrow> refs_ok x (close_native H i s)"
  unfolding close_native_def by (erule set_entry_ok) simp

lemma release_native_ok: "refs_ok x s \<Longrightarrow> refs_ok x (release_native H i s)"
  unfolding release_native_def by (erule set_entry_ok) (auto split: prod.splits dest: release_keeps_mode)

lemma remove_in_use_ok: "refs_ok x s \<Longrightarrow> refs_ok x (remove_in_use i s)"
proof -
  assume r: "refs_ok x s"
  have "refs_ok x (set_entry i (\<lambda>e. e\<lparr>he_handler := lh_on_device_removed (he_handler e)\<rparr>) s)"
    by (rule set_entry_ok[OF r]) (simp add: lh_on_device_removed_def)
  then show ?thesis unfolding remove_in_use_def by (subst refs_ok_cong) simp_all
qed

lemma unref_native_ok:
  assumes "refs_ok x s"
  shows "\<exists>s'. unref_native i s = Some s' \<and> refs_ok x s' \<and> same_frame s s' \<and> dom (ls_handlers s') = dom (ls_handlers s) \<and>
    (\<forall>e. ls_handlers s' i = Some e \<longrightarrow> \<not> lh_native_device (he_handler e))"
proof (cases "ls_handlers s i")
  case None
  then show ?thesis using assms by (auto simp: unref_native_def same_frame_def)
next
  case (Some e)
  show ?thesis
  proof (cases "lh_native_device (he_handler e)")
    case False
    then show ?thesis using assms Some by (auto simp: unref_native_def same_frame_def)
  next
    case True
    let ?d = "he_device e"
    let ?s = "set_entry i (\<lambda>e. e\<lparr>he_handler := (he_handler e)\<lparr>lh_native_device := False\<rparr>\<rparr>) (s\<lparr>ls_refs := (ls_refs s)(?d := ls_refs s ?d - 1)\<rparr>)"
    have i: "i \<in> holders s ?d" using Some True by (simp add: holders_def)
    have h: "holders ?s d = holders s d - (if d = ?d then {i} else {})" for d
      using Some by (auto simp: holders_def)
    have pos: "0 < card (holders s ?d)" using i finite_holders[OF assms] by (auto simp: card_gt_0_iff)
    have c: "card (holders ?s d) = card (holders s d) - (if d = ?d then 1 else 0)" for d
      using i finite_holders[OF assms] unfolding h by simp
    have "ls_refs s ?d \<noteq> 0" using assms pos by (simp add: refs_ok_def)
    then have "unref_native i s = Some ?s" using Some True by (simp add: unref_native_def unref_device_def)
    moreover have "dom (ls_handlers ?s) = dom (ls_handlers s)" using Some by (auto simp: dom_def)
    then have "refs_ok x ?s" using assms pos unfolding refs_ok_def c by auto
    ultimately show ?thesis using Some by (auto simp: same_frame_def dom_def)
  qed
qed

lemma destroy_handler_ok:
  assumes "refs_ok x s"
  shows "\<exists>s'. destroy_handler i s = Some s' \<and> refs_ok x s' \<and> same_frame s s' \<and> dom (ls_handlers s') = dom (ls_handlers s) - {i}"
proof -
  from unref_native_ok[OF assms, of i] obtain s1 where 1: "unref_native i s = Some s1" "refs_ok x s1" "same_frame s s1"
    "dom (ls_handlers s1) = dom (ls_handlers s)" "\<forall>e. ls_handlers s1 i = Some e \<longrightarrow> \<not> lh_native_device (he_handler e)" by blast
  let ?s = "s1\<lparr>ls_handlers := (ls_handlers s1)(i := None)\<rparr>"
  have "holders ?s d = holders s1 d" for d using 1(5) by (auto simp: holders_def)
  then have "refs_ok x ?s" using 1(2) by (simp add: refs_ok_def)
  then show ?thesis using 1 by (auto simp: destroy_handler_def same_frame_def)
qed

lemma discard_ok:
  assumes "refs_ok x s"
  shows "\<exists>s'. Option.bind (unref_native i s) (destroy_handler i) = Some s' \<and> refs_ok x s' \<and> same_frame s s' \<and>
    dom (ls_handlers s') = dom (ls_handlers s) - {i}"
proof -
  from unref_native_ok[OF assms, of i] obtain s1 where 1: "unref_native i s = Some s1" "refs_ok x s1" "same_frame s s1"
    "dom (ls_handlers s1) = dom (ls_handlers s)" by blast
  from destroy_handler_ok[OF 1(2), of i] show ?thesis using 1 by (auto simp: same_frame_def)
qed

lemma native_frame:
  "same_frame s (release_native H i s)" "dom (ls_handlers (release_native H i s)) = dom (ls_handlers s)"
  "same_frame s (close_native H i s)" "dom (ls_handlers (close_native H i s)) = dom (ls_handlers s)"
  by (auto simp: release_native_def close_native_def same_frame_def dom_def)

lemma same_frame_trans: "same_frame s t \<Longrightarrow> same_frame t u \<Longrightarrow> same_frame s u"
  by (simp add: same_frame_def)

lemma discard_released_ok:
  "refs_ok x s \<Longrightarrow> \<exists>s'. discard_released H i s = Some s' \<and> refs_ok x s' \<and> same_frame s s' \<and>
     dom (ls_handlers s') = dom (ls_handlers s) - {i}"
  unfolding discard_released_def
  using discard_ok[OF release_native_ok[of x s H i], of i] native_frame(1,2)[where H = H and i = i and s = s] same_frame_trans by metis

lemma discard_closed_ok:
  "refs_ok x s \<Longrightarrow> \<exists>s'. discard_closed H i s = Some s' \<and> refs_ok x s' \<and> same_frame s s' \<and>
     dom (ls_handlers s') = dom (ls_handlers s) - {i}"
  unfolding discard_closed_def
  using discard_ok[OF close_native_ok[of x s H i], of i] native_frame(3,4)[where H = H and i = i and s = s] same_frame_trans by metis

section \<open>The registry and the handlers\<close>

definition registered :: "server \<Rightarrow> UsbDevice set" where
  "registered sv = set (sv_available sv) \<union> ran (sv_using sv)"

definition link_inv :: "server \<Rightarrow> nat set \<Rightarrow> nat \<Rightarrow> bool" where
  "link_inv sv hs n \<longleftrightarrow>
     registry_inv sv \<and>
     (\<forall>d \<in> registered sv. \<forall>i. ud_handler d = Some i \<longrightarrow> i < n) \<and>
     (\<forall>d \<in> registered sv. \<forall>d' \<in> registered sv. ud_handler d = ud_handler d' \<longrightarrow> ud_handler d \<noteq> None \<longrightarrow> d = d') \<and>
     (\<forall>i \<in> hs. \<exists>d \<in> registered sv. ud_handler d = Some i)"

lemma registered_notify [simp]: "registered (notify n sv) = registered sv" by (simp add: registered_def)

lemma link_inv_cong:
  "sv_available sv' = sv_available sv \<Longrightarrow> sv_using sv' = sv_using sv \<Longrightarrow> link_inv sv' hs n = link_inv sv hs n"
  by (simp add: link_inv_def registered_def registry_inv_cong[of sv' sv])

lemma registered_detach:
  assumes "registry_inv sv" and "detach_available_device b sv = (Some d, sv')"
  shows "registry_inv sv' \<and> registered sv' = registered sv - {d} \<and> sv_active_sessions sv' = sv_active_sessions sv"
proof -
  from assms(2) have f: "find (\<lambda>d. ud_busid d = b) (sv_available sv) = Some d"
    and sv': "sv' = notify (On_device_released b DeviceRemoved)
      (sv\<lparr>sv_available := remove_first (\<lambda>d. ud_busid d = b) (sv_available sv)\<rparr>)"
    by (auto simp: detach_available_device_def split: option.splits)
  from find_SomeD[OF f] have d: "d \<in> set (sv_available sv)" "ud_busid d = b" by auto
  have "set (remove_first (\<lambda>d. ud_busid d = b) (sv_available sv)) = set (sv_available sv) - {d}"
    using assms(1) d by (auto simp: registry_inv_def set_remove_first_key distinct_map inj_on_def)
  moreover have "d \<notin> ran (sv_using sv)" using assms(1) d by (auto simp: registry_inv_def ran_def)
  moreover have "registry_inv sv'" using registry_detach[OF assms(1), of b] assms(2) by simp
  ultimately show ?thesis using sv' by (auto simp: registered_def)
qed

lemma link_inv_without:
  assumes "link_inv sv hs n" and "registry_inv sv'" and "registered sv' = registered sv - {d}"
  shows "link_inv sv' (hs - set_option (ud_handler d)) n"
  using assms unfolding link_inv_def by (auto; fastforce)

lemma link_inv_detach:
  assumes "link_inv sv hs n" and "detach_available_device b sv = (Some d, sv')"
  shows "link_inv sv' (hs - set_option (ud_handler d)) n"
proof -
  have "registry_inv sv" using assms(1) by (simp add: link_inv_def)
  from registered_detach[OF this assms(2)] show ?thesis by (blast intro: link_inv_without[OF assms(1)])
qed

lemma link_inv_add:
  assumes "link_inv sv hs n" and "add_device (d\<lparr>ud_handler := Some n\<rparr>) sv = (st, sv')"
  shows "if st = Added then link_inv sv' (insert n hs) (Suc n) else sv' = sv \<and> link_inv sv' hs (Suc n)"
proof -
  let ?d = "d\<lparr>ud_handler := Some n\<rparr>"
  have reg: "registry_inv sv'" using registry_add_device[of sv ?d] assms by (simp add: link_inv_def)
  show ?thesis
  proof (cases "st = Added")
    case True
    then have "registered sv' = insert ?d (registered sv)"
      using assms(2) by (auto simp: add_device_def registered_def split: if_splits)
    then show ?thesis using assms(1) reg True unfolding link_inv_def by (auto simp: less_Suc_eq; fastforce)
  next
    case False
    then have "sv' = sv" using assms(2) by (auto simp: add_device_def split: if_splits)
    then show ?thesis using assms(1) False unfolding link_inv_def by (auto simp: less_Suc_eq)
  qed
qed

lemma link_inv_mono: "link_inv sv hs n \<Longrightarrow> hs' \<subseteq> hs \<Longrightarrow> link_inv sv hs' n"
  unfolding link_inv_def by blast

lemma link_inv_move:
  assumes "link_inv sv hs n"
  shows "link_inv (snd (try_moving_device_to_using b sv)) hs n"
proof (cases "try_moving_device_to_using b sv")
  case (Pair r sv')
  show ?thesis
  proof (cases r)
    case None
    then have "sv' = sv" using Pair by (auto simp: try_moving_device_to_using_def split: option.splits)
    then show ?thesis using Pair assms by simp
  next
    case (Some d)
    have "registry_inv sv" using assms by (simp add: link_inv_def)
    from registry_move[OF this] Pair Some have m: "registry_inv sv'" "sv_using sv b = None"
      "sv_using sv' = (sv_using sv)(b \<mapsto> d)" "d \<in> set (sv_available sv)" "set (sv_available sv') = set (sv_available sv) - {d}"
      by blast+
    then have "registered sv' = registered sv" by (auto simp: registered_def)
    then show ?thesis using assms m(1) Pair by (simp add: link_inv_def)
  qed
qed

lemma link_inv_release:
  assumes "link_inv sv hs n"
  shows "case sv_using sv b of None \<Rightarrow> release_device r b sv = sv
    | Some d \<Rightarrow> link_inv (release_device r b sv)
        (hs - (if \<exists>h. ud_handler d = Some h \<and> r h then set_option (ud_handler d) else {})) n"
proof (cases "sv_using sv b")
  case None
  then show ?thesis by (simp add: release_device_def)
next
  case (Some d)
  let ?sv = "release_device r b sv"
  have reg: "registry_inv sv" using assms by (simp add: link_inv_def)
  have ri: "registry_inv ?sv" and us: "sv_using ?sv = (sv_using sv)(b := None)" using registry_release[OF reg] by blast+
  have other: "d' \<noteq> d" if "d' \<in> set (sv_available sv) \<or> (\<exists>c. c \<noteq> b \<and> sv_using sv c = Some d')" for d'
    using that reg Some unfolding registry_inv_def by (metis imageI)
  show ?thesis
  proof (cases "\<exists>h. ud_handler d = Some h \<and> r h")
    case True
    then have "sv_available ?sv = sv_available sv" using Some by (auto simp: release_device_def)
    then have "registered ?sv = registered sv - {d}"
      using us Some other unfolding registered_def by (auto simp: ran_def split: if_splits) (metis option.inject)
    from link_inv_without[OF assms ri this] show ?thesis using Some True by simp
  next
    case False
    then have "sv_available ?sv = sv_available sv @ [d]" using Some by (auto simp: release_device_def)
    then have "registered ?sv = registered sv"
      using us Some unfolding registered_def by (auto simp: ran_def split: if_splits) (metis option.inject)
    then show ?thesis using assms ri Some False by (simp add: link_inv_def)
  qed
qed

section \<open>Steps\<close>

definition lsv_inv :: "nat option \<Rightarrow> libusb_server \<Rightarrow> bool" where
  "lsv_inv x s \<longleftrightarrow> refs_ok x s \<and> link_inv (ls_server s) (dom (ls_handlers s)) (ls_next_handler s)"

lemma lsv_inv_frame:
  assumes "lsv_inv x s" and "refs_ok y s'" and "ls_server s' = ls_server s" and "ls_next_handler s' = ls_next_handler s"
    and "dom (ls_handlers s') \<subseteq> dom (ls_handlers s)"
  shows "lsv_inv y s'"
  using assms link_inv_mono unfolding lsv_inv_def by metis

lemma lsv_inv_other [simp]:
  "lsv_inv x (s\<lparr>ls_stops := a\<rparr>) = lsv_inv x s" "lsv_inv x (s\<lparr>ls_hotplug_enabled := b\<rparr>) = lsv_inv x s"
  "lsv_inv x (s\<lparr>ls_event_thread := c\<rparr>) = lsv_inv x s"
  by (simp_all add: lsv_inv_def refs_ok_def holders_def)

text \<open>A new server with the same devices, or without the device whose handler is discarded.\<close>

lemma refs_ok_server [simp]: "refs_ok x (s\<lparr>ls_server := sv\<rparr>) = refs_ok x s"
  by (rule refs_ok_cong) simp_all

lemma lsv_inv_server:
  "lsv_inv x s \<Longrightarrow> link_inv sv (dom (ls_handlers s)) (ls_next_handler s) \<Longrightarrow> lsv_inv x (s\<lparr>ls_server := sv\<rparr>)"
  by (simp add: lsv_inv_def)

lemma without_handler:
  assumes "lsv_inv x s" and "link_inv sv (dom (ls_handlers s) - set_option (ud_handler d)) (ls_next_handler s)"
    and "\<And>i. \<exists>s'. f i (s\<lparr>ls_server := sv\<rparr>) = Some s' \<and> refs_ok x s' \<and> same_frame (s\<lparr>ls_server := sv\<rparr>) s' \<and>
      dom (ls_handlers s') = dom (ls_handlers s) - {i}"
  shows "\<exists>s'. with_handler d f (s\<lparr>ls_server := sv\<rparr>) = Some s' \<and> lsv_inv x s' \<and> ls_owned s' = ls_owned s"
proof (cases "ud_handler d")
  case None
  then show ?thesis using assms(1,2) by (auto simp: with_handler_def lsv_inv_def)
next
  case (Some i)
  from assms(3)[of i] obtain s' where "f i (s\<lparr>ls_server := sv\<rparr>) = Some s'" "refs_ok x s'"
    "same_frame (s\<lparr>ls_server := sv\<rparr>) s'" "dom (ls_handlers s') = dom (ls_handlers s) - {i}" by blast
  then show ?thesis using assms(2) Some by (auto simp: with_handler_def lsv_inv_def same_frame_def)
qed

lemma without_released:
  assumes "lsv_inv x s" and "detach_available_device b (ls_server s) = (Some d, sv)"
  shows "\<exists>s'. with_handler d (discard_released H) (s\<lparr>ls_server := sv\<rparr>) = Some s' \<and> lsv_inv x s' \<and> ls_owned s' = ls_owned s"
  by (rule without_handler[OF assms(1)])
     (use assms link_inv_detach[OF _ assms(2)] discard_released_ok[of x "s\<lparr>ls_server := sv\<rparr>" H] in \<open>auto simp: lsv_inv_def\<close>)

lemma without_closed:
  assumes "lsv_inv x s" and "detach_available_device b (ls_server s) = (Some d, sv)"
  shows "\<exists>s'. with_handler d (discard_closed H) (s\<lparr>ls_server := sv\<rparr>) = Some s' \<and> lsv_inv x s' \<and> ls_owned s' = ls_owned s"
  by (rule without_handler[OF assms(1)])
     (use assms link_inv_detach[OF _ assms(2)] discard_closed_ok[of x "s\<lparr>ls_server := sv\<rparr>" H] in \<open>auto simp: lsv_inv_def\<close>)

lemma detach_None: "detach_available_device b sv = (None, sv') \<Longrightarrow> sv' = sv"
  by (auto simp: detach_available_device_def split: option.splits)

lemma remove_in_use_frame:
  "ls_server (remove_in_use i s) = ls_server s" "ls_next_handler (remove_in_use i s) = ls_next_handler s"
  "dom (ls_handlers (remove_in_use i s)) \<subseteq> dom (ls_handlers s)" "ls_owned (remove_in_use i s) = ls_owned s"
  by (auto simp: remove_in_use_def dom_def)

lemma remove_in_use_inv: "lsv_inv x s \<Longrightarrow> lsv_inv x (remove_in_use i s)"
proof -
  assume a: "lsv_inv x s"
  then have "refs_ok x s" by (simp add: lsv_inv_def)
  from lsv_inv_frame[OF a remove_in_use_ok[OF this] remove_in_use_frame(1,2,3)] show ?thesis .
qed

text \<open>The caller's reference is in hand when the device is added.\<close>

lemma add_with_handler_ok:
  assumes "lsv_inv x s" and "\<And>d. lh_native_device (he_handler (entry d)) \<longleftrightarrow> x \<noteq> None"
    and "\<And>d. x \<noteq> None \<Longrightarrow> x = Some (he_device (entry d))"
  shows "\<exists>r s'. add_with_handler device entry s = Some (r, s') \<and> lsv_inv None s' \<and> ls_owned s' = ls_owned s \<and>
    r \<in> {Op_Success, DeviceInUse, DeviceAlreadyBound} \<and>
    (r \<noteq> Op_Success \<longrightarrow> ls_server s' = ls_server s \<and> dom (ls_handlers s') = dom (ls_handlers s)) \<and>
    (r = Op_Success \<longrightarrow> sv_available (ls_server s') = sv_available (ls_server s) @ [device\<lparr>ud_handler := Some (ls_next_handler s)\<rparr>])"
proof -
  let ?i = "ls_next_handler s" let ?d = "device\<lparr>ud_handler := Some ?i\<rparr>"
  obtain st sv where a: "add_device ?d (ls_server s) = (st, sv)" by fastforce
  let ?s = "s\<lparr>ls_next_handler := ?i + 1, ls_handlers := (ls_handlers s)(?i := Some (entry ?d)), ls_server := sv\<rparr>"
  have li: "link_inv (ls_server s) (dom (ls_handlers s)) ?i" and rx: "refs_ok x s" using assms(1) by (simp_all add: lsv_inv_def)
  have new: "ls_handlers s ?i = None" using li unfolding link_inv_def by (metis domIff less_irrefl)
  have h: "holders ?s e = holders s e \<union> (if x = Some e then {?i} else {})" for e
    using assms(2)[of ?d] assms(3)[of ?d] new by (auto simp: holders_def split: if_splits)
  have "?i \<notin> holders s e" for e using new by (simp add: holders_def)
  then have c: "card (holders ?s e) = card (holders s e) + (if x = Some e then 1 else 0)" for e
    using finite_holders[OF rx] unfolding h by simp
  have "dom (ls_handlers ?s) = insert ?i (dom (ls_handlers s))" by auto
  then have r1: "refs_ok None ?s" using rx unfolding refs_ok_def c by simp
  note l = link_inv_add[OF li a]
  show ?thesis
  proof (cases "st = Added")
    case True
    have "sv_available sv = sv_available (ls_server s) @ [?d]"
      using a True by (auto simp: add_device_def split: if_splits)
    then show ?thesis using a True r1 l by (auto simp: add_with_handler_def Let_def lsv_inv_def)
  next
    case False
    from destroy_handler_ok[OF r1, of ?i] obtain s' where "destroy_handler ?i ?s = Some s'" "refs_ok None s'" "same_frame ?s s'"
      "dom (ls_handlers s') = dom (ls_handlers ?s) - {?i}" by blast
    moreover have "insert ?i (dom (ls_handlers s)) - {?i} = dom (ls_handlers s)" using new by auto
    ultimately show ?thesis using a False l by (auto simp: add_with_handler_def Let_def lsv_inv_def same_frame_def)
  qed
qed

lemma those_map_some: "\<forall>a \<in> set xs. f a \<noteq> None \<Longrightarrow> \<exists>ys. those (map f xs) = Some ys"
  by (induction xs) auto

lemma usb_device_some:
  assumes "config_ok info" and "li_config info = Some conf"
  shows "\<exists>d. libusb_usb_device info desc conf = Some d \<and> ud_busid d = get_device_busid info"
proof -
  have "\<forall>a \<in> set (lcd_interface conf). libusb_interface a \<noteq> None"
    using assms by (auto simp: config_ok_def libusb_interface_def split: list.splits)
  from those_map_some[OF this] obtain ifs where "those (map libusb_interface (lcd_interface conf)) = Some ifs" by blast
  then show ?thesis by (auto simp: libusb_usb_device_def)
qed

lemma unref_keeps:
  assumes "lsv_inv None s" and "take_reference d s = Some s0" and "refs_ok (Some d) s0" and "ls_server s0 = ls_server s"
    and "ls_next_handler s0 = ls_next_handler s" and "ls_handlers s0 = ls_handlers s"
  shows "\<exists>s'. unref_device d s0 = Some s' \<and> lsv_inv None s' \<and> ls_owned s' = ls_owned s0 \<and> ls_server s' = ls_server s \<and>
    ls_handlers s' = ls_handlers s"
  using unref_device_ok[OF assms(3)] assms(1,4-6) by (auto simp: lsv_inv_def same_frame_def)

lemma bind_host_device_ok:
  assumes "lsv_inv None s" and "0 < ls_owned s d" and "config_ok (lib_info H d)"
  shows "\<exists>r s'. bind_host_device H cfg (Some d) s = Some (r, s') \<and> lsv_inv None s' \<and>
    ls_owned s' = (ls_owned s)(d := ls_owned s d - 1) \<and>
    (r \<noteq> Op_Success \<longrightarrow> ls_server s' = ls_server s \<and> dom (ls_handlers s') = dom (ls_handlers s)) \<and>
    (r = Op_Success \<longrightarrow> (\<exists>ud. sv_available (ls_server s') = sv_available (ls_server s) @ [ud] \<and>
       ud_busid ud = get_device_busid (lib_info H d)))"
proof -
  have "refs_ok None s" using assms(1) by (simp add: lsv_inv_def)
  from take_reference_ok[OF this assms(2)] obtain s0 where s0: "take_reference d s = Some s0" "refs_ok (Some d) s0"
    "ls_server s0 = ls_server s" "ls_next_handler s0 = ls_next_handler s" "ls_handlers s0 = ls_handlers s"
    "ls_owned s0 = (ls_owned s)(d := ls_owned s d - 1)" by blast
  from unref_keeps[OF assms(1) s0(1-5)] obtain s1 where s1: "unref_device d s0 = Some s1" "lsv_inv None s1"
    "ls_owned s1 = ls_owned s0" "ls_server s1 = ls_server s" "ls_handlers s1 = ls_handlers s" by blast
  have i0: "lsv_inv (Some d) s0" using assms(1) s0 by (simp add: lsv_inv_def)
  show ?thesis
  proof (cases "\<exists>desc conf. li_descriptor (lib_info H d) = Some desc \<and> li_config (lib_info H d) = Some conf \<and>
      \<not> (lc_skip_hub cfg \<and> ldd_bDeviceClass desc = LIBUSB_CLASS_HUB) \<and>
      \<not> (case lc_device_bind_filter cfg of None \<Rightarrow> False | Some f \<Rightarrow> f d desc)")
    case False
    then have "\<exists>r. bind_host_device H cfg (Some d) s = Some (r, s1) \<and> r \<noteq> Op_Success"
      using s0(1) s1(1) by (auto simp: bind_host_device_def Let_def split: option.splits)
    then show ?thesis using s1 s0(6) by auto
  next
    case True
    then obtain desc conf where c: "li_descriptor (lib_info H d) = Some desc" "li_config (lib_info H d) = Some conf"
      "\<not> (lc_skip_hub cfg \<and> ldd_bDeviceClass desc = LIBUSB_CLASS_HUB)"
      "\<not> (case lc_device_bind_filter cfg of None \<Rightarrow> False | Some f \<Rightarrow> f d desc)" by blast
    from usb_device_some[OF assms(3) c(2)] obtain ud where ud: "libusb_usb_device (lib_info H d) desc conf = Some ud"
      "ud_busid ud = get_device_busid (lib_info H d)" by blast
    let ?entry = "\<lambda>ud. \<lparr>he_handler = LibusbDeviceHandler_new (lib_objects H (ls_next_handler s0)) ud (lc_submit_error_policy cfg),
        he_device = d, he_trace = []\<rparr>"
    have "bind_host_device H cfg (Some d) s = add_with_handler ud ?entry s0"
      using s0(1) c ud(1) by (auto simp: bind_host_device_def Let_def)
    moreover have "\<exists>r s'. add_with_handler ud ?entry s0 = Some (r, s') \<and> lsv_inv None s' \<and> ls_owned s' = ls_owned s0 \<and>
      r \<in> {Op_Success, DeviceInUse, DeviceAlreadyBound} \<and>
      (r \<noteq> Op_Success \<longrightarrow> ls_server s' = ls_server s0 \<and> dom (ls_handlers s') = dom (ls_handlers s0)) \<and>
      (r = Op_Success \<longrightarrow> sv_available (ls_server s') = sv_available (ls_server s0) @ [ud\<lparr>ud_handler := Some (ls_next_handler s0)\<rparr>])"
      by (rule add_with_handler_ok[OF i0]) (simp_all add: LibusbDeviceHandler_new_def)
    ultimately show ?thesis using s0 ud(2) by fastforce
  qed
qed

lemma bind_fd_ok:
  assumes "lsv_inv None s" and "case w of Some (Some info) \<Rightarrow> config_ok info | _ \<Rightarrow> True"
  shows "\<exists>r s'. bind_host_device_with_wrapped_fd H cfg fd w s = Some (r, s') \<and> lsv_inv None s' \<and> ls_owned s' = ls_owned s"
proof (cases "\<exists>info desc conf. 0 \<le> fd \<and> w = Some (Some info) \<and> li_descriptor info = Some desc \<and> li_config info = Some conf")
  case False
  then have "\<exists>r. bind_host_device_with_wrapped_fd H cfg fd w s = Some (r, s)"
    by (auto simp: bind_host_device_with_wrapped_fd_def split: option.splits)
  then show ?thesis using assms(1) by auto
next
  case True
  then obtain info desc conf where c: "0 \<le> fd" "w = Some (Some info)" "li_descriptor info = Some desc" "li_config info = Some conf" by blast
  from usb_device_some[OF _ c(4)] assms(2) c(2) obtain ud where ud: "libusb_usb_device info desc conf = Some ud" by fastforce
  let ?entry = "\<lambda>ud. \<lparr>he_handler = LibusbDeviceHandler_new_fd (lib_objects H (ls_next_handler s)) ud fd (lc_submit_error_policy cfg),
      he_device = 0, he_trace = []\<rparr>"
  have "bind_host_device_with_wrapped_fd H cfg fd w s = add_with_handler ud ?entry s"
    using c ud by (simp add: bind_host_device_with_wrapped_fd_def)
  moreover have "\<exists>r s'. add_with_handler ud ?entry s = Some (r, s') \<and> lsv_inv None s' \<and> ls_owned s' = ls_owned s \<and>
      r \<in> {Op_Success, DeviceInUse, DeviceAlreadyBound} \<and>
      (r \<noteq> Op_Success \<longrightarrow> ls_server s' = ls_server s \<and> dom (ls_handlers s') = dom (ls_handlers s)) \<and>
      (r = Op_Success \<longrightarrow> sv_available (ls_server s') = sv_available (ls_server s) @ [ud\<lparr>ud_handler := Some (ls_next_handler s)\<rparr>])"
    by (rule add_with_handler_ok[OF assms(1)]) (simp_all add: LibusbDeviceHandler_new_fd_def)
  ultimately show ?thesis by auto
qed

lemma unbind_ok:
  assumes "lsv_inv None s" and "0 < ls_owned s d"
  shows "\<exists>r s'. unbind_host_device H d s = Some (r, s') \<and> lsv_inv None s'"
proof -
  have "refs_ok None s" using assms(1) by (simp add: lsv_inv_def)
  from take_reference_ok[OF this assms(2)] obtain s0 where s0: "take_reference d s = Some s0" "refs_ok (Some d) s0"
    "ls_server s0 = ls_server s" "ls_next_handler s0 = ls_next_handler s" "ls_handlers s0 = ls_handlers s" by blast
  have i0: "lsv_inv (Some d) s0" using assms(1) s0 by (simp add: lsv_inv_def)
  obtain x sv where dt: "detach_available_device (get_device_busid (lib_info H d)) (ls_server s0) = (x, sv)" by fastforce
  show ?thesis
  proof (cases x)
    case None
    from unref_keeps[OF assms(1) s0] dt None s0(1) show ?thesis by (auto simp: unbind_host_device_def Let_def)
  next
    case (Some ud)
    from without_released[OF i0 dt[unfolded Some], of H] obtain s1 where
      s1: "with_handler ud (discard_released H) (s0\<lparr>ls_server := sv\<rparr>) = Some s1" "lsv_inv (Some d) s1" by blast
    from unref_device_ok[of d s1] s1(2) obtain s2 where "unref_device d s1 = Some s2" "lsv_inv None s2"
      by (auto simp: lsv_inv_def same_frame_def)
    then show ?thesis using dt Some s0(1) s1(1) by (auto simp: unbind_host_device_def Let_def)
  qed
qed

lemma unbind_fd_ok:
  assumes "lsv_inv None s"
  shows "\<exists>r s'. unbind_host_device_by_fd H fd bs s = Some (r, s') \<and> lsv_inv None s'"
proof -
  let ?b = "case find (\<lambda>d. wrapped_fd_of s d = Some fd) (sv_available (ls_server s)) of None \<Rightarrow> [] | Some d \<Rightarrow> ud_busid d"
  obtain x sv where dt: "(if ?b \<noteq> [] then detach_available_device ?b (ls_server s) else (None, ls_server s)) = (x, sv)" by fastforce
  show ?thesis
  proof (cases x)
    case None
    then show ?thesis using dt assms by (auto simp: unbind_host_device_by_fd_def Let_def)
  next
    case (Some d)
    then have dd: "detach_available_device ?b (ls_server s) = (Some d, sv)" using dt by (auto split: if_splits)
    let ?f = "\<lambda>i s1. destroy_handler i (release_native H i s1)"
    have "\<exists>s'. with_handler d ?f (s\<lparr>ls_server := sv\<rparr>) = Some s' \<and> lsv_inv None s' \<and> ls_owned s' = ls_owned s"
    proof (rule without_handler[OF assms])
      show "link_inv sv (dom (ls_handlers s) - set_option (ud_handler d)) (ls_next_handler s)"
        using link_inv_detach[OF _ dd] assms by (simp add: lsv_inv_def)
    next
      fix i
      let ?s = "s\<lparr>ls_server := sv\<rparr>"
      have "refs_ok None ?s" using assms by (simp add: lsv_inv_def)
      from destroy_handler_ok[OF release_native_ok[OF this, of H i], of i]
      show "\<exists>s'. ?f i ?s = Some s' \<and> refs_ok None s' \<and> same_frame ?s s' \<and> dom (ls_handlers s') = dom (ls_handlers s) - {i}"
        using native_frame(1,2)[where H = H and i = i and s = ?s] same_frame_trans by simp metis
    qed
    then show ?thesis using dt Some by (auto simp: unbind_host_device_by_fd_def Let_def)
  qed
qed

lemma removal_ok:
  assumes "lsv_inv None s"
  shows "\<exists>r s'. try_remove_dead_device H b s = Some (r, s') \<and> lsv_inv None s'"
    and "\<exists>r s'. notify_device_removed H b s = Some (r, s') \<and> lsv_inv None s'"
    and "\<exists>s'. handle_device_left H b s = Some s' \<and> lsv_inv None s'"
proof -
  obtain x sv where dt: "detach_available_device b (ls_server s) = (x, sv)" by fastforce
  note r = remove_in_use_inv[OF assms]
  show "\<exists>r s'. try_remove_dead_device H b s = Some (r, s') \<and> lsv_inv None s'"
    "\<exists>r s'. notify_device_removed H b s = Some (r, s') \<and> lsv_inv None s'"
    "\<exists>s'. handle_device_left H b s = Some s' \<and> lsv_inv None s'"
    using dt r assms without_closed[OF assms, of b _ sv H]
    by (cases x; auto simp: try_remove_dead_device_def notify_device_removed_def handle_device_left_def split: option.splits)+
qed

lemma find_by_busid_ok:
  assumes "lsv_inv None s"
  shows "\<exists>r s'. find_by_busid H devs b s = Some (r, s') \<and> lsv_inv None s'"
proof (cases devs)
  case None
  then show ?thesis using assms by (simp add: find_by_busid_def)
next
  case (Some ds)
  have r: "refs_ok None s" using assms by (simp add: lsv_inv_def)
  note g = get_device_list_ok[OF r, of ds]
  have "\<exists>s'. free_device_list ds t = Some s' \<and> lsv_inv None s'"
    if "t = get_device_list ds s \<or> (\<exists>d. t = ref_device d (get_device_list ds s))" for t
  proof -
    have t: "refs_ok None t" "ls_server t = ls_server s" "ls_handlers t = ls_handlers s" "ls_next_handler t = ls_next_handler s"
      "\<And>d. count_list ds d \<le> ls_owned t d"
      using that g ref_device_ok by auto
    from free_device_list_ok[OF t(1,5)] show ?thesis using t assms by (auto simp: lsv_inv_def)
  qed
  then show ?thesis using Some by (auto simp: find_by_busid_def Let_def split: option.splits)
qed

lemma bind_devices_ok:
  assumes "lsv_inv None s" and "\<And>d. config_ok (lib_info H d)"
  shows "\<exists>m s'. bind_devices H cfg ds n s = Some (m, s') \<and> lsv_inv None s' \<and> ls_owned s' = ls_owned s"
  using assms(1)
proof (induction ds arbitrary: n s)
  case (Cons d ds)
  show ?case
  proof (cases "has_bound_device (get_device_busid (lib_info H d)) (ls_server s)")
    case True
    then show ?thesis using Cons.IH[OF Cons.prems] by simp
  next
    case False
    have i: "lsv_inv None (ref_device d s)" using Cons.prems by (simp add: lsv_inv_def ref_device_ok)
    from bind_host_device_ok[OF i _ assms(2), of d cfg] obtain r s1 where 1: "bind_host_device H cfg (Some d) (ref_device d s) = Some (r, s1)"
      "lsv_inv None s1" "ls_owned s1 = ls_owned s" by auto
    then show ?thesis using False Cons.IH[OF 1(2)] by simp
  qed
qed simp

lemma bind_existing_ok:
  assumes "lsv_inv None s" and "\<And>d. config_ok (lib_info H d)"
  shows "\<exists>m s'. bind_existing_devices H cfg devs s = Some (m, s') \<and> lsv_inv None s'"
proof (cases devs)
  case None
  then show ?thesis using assms(1) by (simp add: bind_existing_devices_def)
next
  case (Some ds)
  let ?s = "get_device_list ds s"
  have r: "refs_ok None s" using assms(1) by (simp add: lsv_inv_def)
  note g = get_device_list_ok[OF r, of ds]
  then have "lsv_inv None ?s" using assms(1) by (simp add: lsv_inv_def)
  from bind_devices_ok[OF this assms(2)] obtain m s1 where 1: "bind_devices H cfg ds (0, 0) ?s = Some (m, s1)"
    "lsv_inv None s1" "ls_owned s1 = ls_owned ?s" by blast
  have "refs_ok None s1" using 1(2) by (simp add: lsv_inv_def)
  moreover have "count_list ds d \<le> ls_owned s1 d" for d using g 1(3) by simp
  ultimately obtain s2 where "free_device_list ds s1 = Some s2" "refs_ok None s2" "ls_server s2 = ls_server s1"
    "ls_handlers s2 = ls_handlers s1" "ls_next_handler s2 = ls_next_handler s1" using free_device_list_ok by blast
  then show ?thesis using 1 Some by (auto simp: bind_existing_devices_def lsv_inv_def)
qed

lemma hotplug_ok:
  assumes "lsv_inv None s" and "\<And>d. config_ok (lib_info H d)"
  shows "\<exists>s'. hotplug_callback H cfg d e s = Some s' \<and> lsv_inv None s'"
proof (cases e)
  case Device_left
  then show ?thesis using removal_ok(3)[OF assms(1)] by simp
next
  case Device_arrived
  have "lsv_inv None (ref_device d s)" using assms(1) by (simp add: lsv_inv_def ref_device_ok)
  from bind_host_device_ok[OF this _ assms(2), of d cfg] show ?thesis
    using assms(1) Device_arrived by (auto simp: handle_device_arrived_def)
qed

lemma give_back_ok:
  assumes "lsv_inv None s"
  shows "\<exists>s'. session_gives_back b s = Some s' \<and> lsv_inv None s'"
proof (cases "sv_using (ls_server s) b")
  case None
  then show ?thesis using assms by (simp add: session_gives_back_def release_device_def)
next
  case (Some d)
  let ?r = "handler_removed s" let ?sv = "release_device ?r b (ls_server s)" let ?s = "s\<lparr>ls_server := ?sv\<rparr>"
  have l: "link_inv ?sv (dom (ls_handlers s) - (if \<exists>h. ud_handler d = Some h \<and> ?r h then set_option (ud_handler d) else {}))
      (ls_next_handler s)"
    using link_inv_release[of "ls_server s" "dom (ls_handlers s)" "ls_next_handler s", where b = b and r = ?r] assms Some by (simp add: lsv_inv_def)
  have r: "refs_ok None ?s" using assms by (simp add: lsv_inv_def)
  show ?thesis
  proof (cases "\<exists>i. ud_handler d = Some i \<and> ?r i")
    case True
    then obtain i where i: "ud_handler d = Some i" "?r i" by blast
    from destroy_handler_ok[OF r, of i] show ?thesis
      using l i Some by (auto simp: session_gives_back_def Let_def with_handler_def lsv_inv_def same_frame_def)
  next
    case False
    then show ?thesis using l r Some
      by (auto simp: session_gives_back_def Let_def with_handler_def lsv_inv_def split: option.splits)
  qed
qed

lemma clean_up_ok:
  assumes "refs_ok None s"
  shows "\<exists>s'. clean_up H js s = Some s' \<and> refs_ok None s' \<and> same_frame s s' \<and> dom (ls_handlers s') = dom (ls_handlers s) - set js"
  using assms
proof (induction js arbitrary: s)
  case Nil
  then show ?case by (simp add: same_frame_def)
next
  case (Cons i js)
  from discard_released_ok[OF Cons.prems, of H i] obtain s1 where 1: "discard_released H i s = Some s1" "refs_ok None s1"
    "same_frame s s1" "dom (ls_handlers s1) = dom (ls_handlers s) - {i}" by blast
  from Cons.IH[OF 1(2)] obtain s2 where "clean_up H js s1 = Some s2" "refs_ok None s2" "same_frame s1 s2"
    "dom (ls_handlers s2) = dom (ls_handlers s1) - set js" by blast
  then show ?case using 1 by (auto simp: same_frame_def)
qed

lemma stop_finish_ok:
  assumes "lsv_inv None s" and "sv_active_sessions (ls_server s) = 0"
  shows "\<exists>s'. libusb_server_stop_finish H s = Some s' \<and> lsv_inv None s' \<and> ls_handlers s' = (\<lambda>i. None) \<and>
    registered (ls_server s') = {} \<and> ls_owned s' = ls_owned s"
proof -
  let ?sv = "(ls_server s)\<lparr>sv_sessions := []\<rparr>" let ?s = "s\<lparr>ls_server := ?sv\<rparr>"
  have f: "server_stop_finish (ls_server s) = Some ?sv" using assms(2) by (simp add: server_stop_finish_def)
  have r: "refs_ok None ?s" using assms(1) by (simp add: lsv_inv_def)
  have lt: "\<forall>i \<in> dom (ls_handlers s). i < ls_next_handler s"
    using assms(1) unfolding lsv_inv_def link_inv_def by blast
  from clean_up_ok[OF r, of H "handlers_available s"] obtain s1 where 1: "clean_up H (handlers_available s) ?s = Some s1"
    "refs_ok None s1" "same_frame ?s s1" "dom (ls_handlers s1) = dom (ls_handlers s) - set (handlers_available s)" by auto
  let ?js = "filter (\<lambda>i. ls_handlers s1 i \<noteq> None) [0..<ls_next_handler s1]"
  from clean_up_ok[OF 1(2), of H ?js] obtain s2 where 2: "clean_up H ?js s1 = Some s2" "refs_ok None s2" "same_frame s1 s2"
    "dom (ls_handlers s2) = dom (ls_handlers s1) - set ?js" by blast
  have "dom (ls_handlers s1) \<subseteq> set ?js" using lt 1(3,4) by (auto simp: same_frame_def)
  then have "dom (ls_handlers s2) = {}" using 2(4) by blast
  then have e: "ls_handlers s2 = (\<lambda>i. None)" by auto
  let ?s3 = "s2\<lparr>ls_server := (ls_server s2)\<lparr>sv_available := [], sv_using := Map.empty\<rparr>, ls_event_thread := False\<rparr>"
  have "libusb_server_stop_finish H s = Some ?s3" using f 1(1) 2(1) by (simp add: libusb_server_stop_finish_def)
  moreover have "registered (ls_server ?s3) = {}" by (simp add: registered_def)
  moreover have "lsv_inv None ?s3"
    using 2(2) e by (auto simp: lsv_inv_def link_inv_def registered_def registry_inv_def refs_ok_def holders_def)
  ultimately show ?thesis using e 1(3) 2(3) by (simp add: same_frame_def)
qed

lemma lsv_step_ok:
  assumes "lsv_inv None s" and "lsv_enabled e s" and "\<And>d. config_ok (lib_info H d)"
  shows "\<exists>s'. lsv_step H cfg e s = Some s' \<and> lsv_inv None s'"
proof (cases e)
  case (Lv_find devs b)
  then show ?thesis using find_by_busid_ok[OF assms(1), of H devs b] by auto
next
  case (Lv_bind d)
  then show ?thesis using bind_host_device_ok[OF assms(1) _ assms(3), of d cfg] assms(2) by auto
next
  case (Lv_bind_fd fd w)
  then show ?thesis using bind_fd_ok[OF assms(1), of w H cfg fd] assms(2) by auto
next
  case (Lv_unbind d)
  then show ?thesis using unbind_ok[OF assms(1), of d H] assms(2) by auto
next
  case (Lv_unbind_fd fd bs)
  then show ?thesis using unbind_fd_ok[OF assms(1), of H fd bs] by auto
next
  case (Lv_dead b)
  then show ?thesis using removal_ok(1)[OF assms(1), of H b] by auto
next
  case (Lv_removed b)
  then show ?thesis using removal_ok(2)[OF assms(1), of H b] by auto
next
  case (Lv_hotplug d x)
  then show ?thesis using hotplug_ok[OF assms(1,3)] by auto
next
  case (Lv_existing devs)
  then show ?thesis using bind_existing_ok[OF assms(1,3), of cfg devs] by auto
next
  case (Lv_virtual d)
  obtain st sv where a: "add_device (d\<lparr>ud_handler := Some (ls_next_handler s)\<rparr>) (ls_server s) = (st, sv)" by fastforce
  have "link_inv (ls_server s) (dom (ls_handlers s)) (ls_next_handler s)" using assms(1) by (simp add: lsv_inv_def)
  from link_inv_add[OF this a] have l: "link_inv sv (dom (ls_handlers s)) (Suc (ls_next_handler s))"
    using link_inv_mono by (auto split: if_splits)
  have "refs_ok None (s\<lparr>ls_next_handler := ls_next_handler s + 1, ls_server := sv\<rparr>)"
    using refs_ok_cong[of "s\<lparr>ls_next_handler := ls_next_handler s + 1, ls_server := sv\<rparr>" s None] assms(1) by (simp add: lsv_inv_def)
  then show ?thesis using Lv_virtual a l by (simp add: lsv_inv_def)
next
  case (Lv_import b)
  then show ?thesis using assms(1) link_inv_move by (simp add: lsv_inv_def)
next
  case (Lv_session i h)
  let ?s = "set_entry i (\<lambda>e. e\<lparr>he_handler := h\<rparr>) s"
  have "refs_ok None ?s"
    by (rule set_entry_ok) (use assms(1,2) Lv_session in \<open>auto simp: lsv_inv_def\<close>)
  then have "lsv_inv None ?s" by (rule lsv_inv_frame[OF assms(1)]) (auto simp: dom_def)
  then show ?thesis using Lv_session by simp
next
  case (Lv_give_back b)
  then show ?thesis using give_back_ok[OF assms(1)] by simp
next
  case (Lv_start c r t x)
  have "lsv_inv None (snd (libusb_server_start c r t x s))"
    using assms(1)
    by (auto simp: libusb_server_start_def start_hotplug_monitor_def stop_hotplug_monitor_def server_start_def Let_def lsv_inv_def
        refs_ok_def holders_def link_inv_def registered_def registry_inv_def split: start_env.split prod.split if_splits)
  then show ?thesis using Lv_start by simp
next
  case Lv_stop_request
  have "lsv_inv None (snd (libusb_server_stop_request s))"
    using assms(1)
    by (auto simp: libusb_server_stop_request_def stop_hotplug_monitor_def server_stop_request_def lsv_inv_def
        refs_ok_def holders_def link_inv_def registered_def registry_inv_def)
  then show ?thesis using Lv_stop_request by simp
next
  case Lv_stop_finish
  then show ?thesis using stop_finish_ok[OF assms(1), of H] assms(2) by auto
qed

lemma lsv_reach_inv:
  assumes "lsv_reach H cfg s" and "\<And>d. config_ok (lib_info H d)"
  shows "lsv_inv None s"
  using assms(1)
proof induction
  case lsv_start
  show ?case
    by (simp add: lsv_inv_def refs_ok_def holders_def LibusbServer_new_def link_inv_def registered_def Server_new_def registry_inv_def)
next
  case (lsv_next s e s')
  then show ?case using lsv_step_ok[OF lsv_next.IH lsv_next.hyps(2) assms(2), of cfg] by auto
qed

section \<open>Bus identifiers\<close>

definition digits :: "char set" where "digits = (\<lambda>n. char_of (48 + n)) ` {0..<10 :: nat}"

lemma char_digit_inj: "a < 10 \<Longrightarrow> b < 10 \<Longrightarrow> (char_of (48 + a :: nat) :: char) = char_of (48 + b) \<Longrightarrow> a = b"
  by (drule arg_cong[where f = "of_char :: char \<Rightarrow> nat"]) simp

lemma unat_u8_eq: "unat (p :: u8) = unat q \<longleftrightarrow> p = q"
  by (auto intro: unsigned_word_eqI)

lemma decimal_small: "n < 10 \<Longrightarrow> decimal n = [char_of (48 + n)]"
  by (subst decimal.simps) simp

lemma decimal_large: "10 \<le> n \<Longrightarrow> decimal n = decimal (n div 10) @ [char_of (48 + n mod 10)]"
  by (subst decimal.simps) simp

lemma decimal_digits: "decimal n \<noteq> [] \<and> set (decimal n) \<subseteq> digits"
proof (induction n rule: less_induct)
  case (less n)
  show ?case
  proof (cases "n < 10")
    case True
    then show ?thesis by (auto simp: decimal_small digits_def)
  next
    case False
    then show ?thesis using less.IH[of "n div 10"] decimal_large[of n] by (auto simp: digits_def)
  qed
qed

lemma decimal_inj: "decimal m = decimal n \<Longrightarrow> m = n"
proof (induction m arbitrary: n rule: less_induct)
  case (less m)
  have d: "m div 10 = n div 10 \<Longrightarrow> m mod 10 = n mod 10 \<Longrightarrow> m = n" by (metis div_mult_mod_eq)
  consider "m < 10" "n < 10" | "m < 10" "10 \<le> n" | "10 \<le> m" "n < 10" | "10 \<le> m" "10 \<le> n" by linarith
  then show ?case
  proof cases
    case 1
    then show ?thesis using less.prems char_digit_inj[of m n] decimal_small[of m] decimal_small[of n] by auto
  next
    case 2
    then show ?thesis using less.prems decimal_digits[of "n div 10"] decimal_small[of m] decimal_large[of n] by auto
  next
    case 3
    then show ?thesis using less.prems decimal_digits[of "m div 10"] decimal_small[of n] decimal_large[of m] by auto
  next
    case 4
    then have e: "decimal (m div 10) = decimal (n div 10)" "(char_of (48 + m mod 10) :: char) = char_of (48 + n mod 10)"
      using less.prems decimal_large[of m] decimal_large[of n] by auto
    have "m div 10 = n div 10" by (rule less.IH[OF _ e(1)]) (use 4 in simp)
    moreover have "m mod 10 = n mod 10" using char_digit_inj[of "m mod 10" "n mod 10"] e(2) by simp
    ultimately show ?thesis by (rule d)
  qed
qed

text \<open>Where a number ends.\<close>

definition number_end :: "string \<Rightarrow> bool" where "number_end r \<longleftrightarrow> (case r of [] \<Rightarrow> True | c # _ \<Rightarrow> c \<notin> digits)"

lemma decimal_split:
  assumes "decimal m @ r = decimal n @ r'" and "number_end r" and "number_end r'"
  shows "m = n \<and> r = r'"
proof -
  have t: "takeWhile (\<lambda>c. c \<in> digits) (decimal k @ q) = decimal k" if "number_end q" for k q
  proof -
    have "takeWhile (\<lambda>c. c \<in> digits) q = []" using that by (cases q) (auto simp: number_end_def)
    then show ?thesis using decimal_digits[of k] by (subst takeWhile_append2) auto
  qed
  have "decimal m = decimal n" using t[OF assms(2), of m] t[OF assms(3), of n] assms(1) by simp
  then show ?thesis using assms(1) decimal_inj by simp
qed

lemma delimiters [simp]: "number_end []" "number_end (CHR ''-'' # r)" "number_end (CHR ''.'' # r)" "number_end (CHR '':'' # r)"
  by (auto simp: number_end_def digits_def dest!: arg_cong[where f = "of_char :: char \<Rightarrow> nat"])

definition more_ports :: "u8 list \<Rightarrow> string" where
  "more_ports ps = concat (map (\<lambda>p. ''.'' @ decimal (unat p)) ps)"

lemma more_ports_end [simp]: "number_end (more_ports ps)"
  by (cases ps) (simp_all add: more_ports_def)

lemma port_path_Cons: "port_path (p # ps) = ''-'' @ decimal (unat p) @ more_ports ps"
proof -
  have "map (\<lambda>(i, p). (if i = 0 then ''-'' else ''.'') @ decimal (unat p)) (List.enumerate (Suc n) ps) =
      map (\<lambda>p. ''.'' @ decimal (unat p)) ps" for n
    by (induction ps arbitrary: n) auto
  then show ?thesis by (simp add: port_path_def more_ports_def)
qed

lemma more_ports_inj: "more_ports ps = more_ports qs \<Longrightarrow> ps = qs"
proof (induction ps arbitrary: qs)
  case Nil
  then show ?case by (cases qs) (simp_all add: more_ports_def)
next
  case (Cons p ps)
  then obtain q qs' where q: "qs = q # qs'" by (cases qs) (auto simp: more_ports_def)
  have "decimal (unat p) @ more_ports ps = decimal (unat q) @ more_ports qs'" using Cons.prems q by (simp add: more_ports_def)
  from decimal_split[OF this] Cons.IH q show ?case by (simp add: unat_u8_eq)
qed

section \<open>An example\<close>

definition sample_info :: libusb_device_info where
  "sample_info =
     \<lparr>li_descriptor = Some \<lparr>ldd_idVendor = 0x1234, ldd_idProduct = 0x5678, ldd_bcdDevice = 0x0100, ldd_bDeviceClass = 0,
        ldd_bDeviceSubClass = 0, ldd_bDeviceProtocol = 0, ldd_bMaxPacketSize0 = 64, ldd_bNumConfigurations = 1\<rparr>,
      li_config = Some \<lparr>lcd_bConfigurationValue = 1, lcd_interface =
        [[\<lparr>lid_bInterfaceNumber = 0, lid_bInterfaceClass = 3, lid_bInterfaceSubClass = 0, lid_bInterfaceProtocol = 0, lid_endpoint = []\<rparr>]]\<rparr>,
      li_bus_number = 1, li_address = 5, li_port_number = 2, li_ports = [2], li_speed = Lu_speed_high\<rparr>"

definition sample_host :: libusb_host where
  "sample_host = \<lparr>lib_info = (\<lambda>d. sample_info), lib_outcome = (\<lambda>i tr c. None), lib_objects = (\<lambda>i. [])\<rparr>"

definition sample_config :: LibusbServerConfig where
  "sample_config = \<lparr>lc_skip_hub = True, lc_auto_bind_hotplug = False, lc_submit_error_policy = DisconnectOnAnyError,
     lc_device_bind_filter = None\<rparr>"

lemma sample_config_ok: "config_ok (lib_info sample_host d)"
  by (simp add: config_ok_def sample_host_def sample_info_def)

lemma sample_found:
  "\<exists>s. lsv_reach sample_host sample_config s \<and> ls_owned s 3 = 1 \<and> sv_active_sessions (ls_server s) = 0 \<and>
     sv_available (ls_server s) = [] \<and> sv_using (ls_server s) = Map.empty"
proof -
  let ?e = "Lv_find (Some [3]) (get_device_busid sample_info)"
  obtain s where s: "lsv_step sample_host sample_config ?e LibusbServer_new = Some s" "ls_owned s 3 = 1"
    "sv_active_sessions (ls_server s) = 0" "sv_available (ls_server s) = []" "sv_using (ls_server s) = Map.empty"
    by (simp add: find_by_busid_def sample_host_def get_device_list_def ref_device_def take_reference_def unref_device_def Let_def
        LibusbServer_new_def Server_new_def)
  have "lsv_reach sample_host sample_config s" by (rule lsv_next[OF lsv_start _ s(1)]) simp
  then show ?thesis using s by blast
qed

section \<open>Properties\<close>

text \<open>C34: The references to libusb devices balance. However binding, hotplug, removal, imports, the ends of sessions and stopping
  follow each other, no reference is dropped that is not held, and none is passed on that the caller does not have; the
  references the program holds are those in the hands of callers and one for each handler in the normal mode; and every
  handler is the handler of a registered device, so that none is left behind.\<close>

theorem libusb_references_balanced:
  assumes "lsv_reach H cfg s" and "\<And>d. config_ok (lib_info H d)" and "lsv_enabled e s"
  shows "lsv_step H cfg e s \<noteq> None \<and> (\<forall>d. ls_refs s d = ls_owned s d + card (holders s d)) \<and>
    (\<forall>i \<in> dom (ls_handlers s). \<exists>d \<in> registered (ls_server s). ud_handler d = Some i)"
proof -
  note i = lsv_reach_inv[OF assms(1,2)]
  have "lsv_step H cfg e s \<noteq> None" using lsv_step_ok[OF i assms(3,2), of cfg] by auto
  then show ?thesis using i by (simp add: lsv_inv_def refs_ok_def link_inv_def)
qed

theorem libusb_references_balanced_witness:
  "\<exists>s. ls_owned s 3 = 1 \<and> lsv_step sample_host sample_config (Lv_bind 3) s \<noteq> None \<and> (\<forall>d. ls_refs s d = ls_owned s d + card (holders s d))"
proof -
  from sample_found obtain s where s: "lsv_reach sample_host sample_config s" "ls_owned s 3 = 1" by blast
  have "lsv_enabled (Lv_bind 3) s" using s(2) by simp
  from libusb_references_balanced[OF s(1) sample_config_ok this] s(2) show ?thesis by blast
qed



text \<open>Stopping the server gives everything back. Once the sessions are gone, \<open>stop\<close> releases the interfaces and the
  references of all devices, available or in use; no device and no handler is left, and what the program
  still holds of libusb is in the hands of callers.\<close>

theorem libusb_stop_releases_all:
  assumes "lsv_reach H cfg s" and "\<And>d. config_ok (lib_info H d)" and "sv_active_sessions (ls_server s) = 0"
  shows "\<exists>s'. libusb_server_stop_finish H s = Some s' \<and> registered (ls_server s') = {} \<and> ls_handlers s' = (\<lambda>i. None) \<and>
    ls_refs s' = ls_owned s"
proof -
  from stop_finish_ok[OF lsv_reach_inv[OF assms(1,2)] assms(3), of H] obtain s' where s': "libusb_server_stop_finish H s = Some s'"
    "lsv_inv None s'" "ls_handlers s' = (\<lambda>i. None)" "registered (ls_server s') = {}" "ls_owned s' = ls_owned s" by blast
  have "ls_refs s' d = ls_owned s d" for d using s'(2,3,5) by (simp add: lsv_inv_def refs_ok_def holders_def)
  then show ?thesis using s' by blast
qed

theorem libusb_stop_releases_all_witness:
  "\<exists>s s'. ls_owned s 3 = 1 \<and> libusb_server_stop_finish sample_host s = Some s' \<and> registered (ls_server s') = {} \<and> ls_refs s' 3 = 1"
proof -
  from sample_found obtain s where s: "lsv_reach sample_host sample_config s" "ls_owned s 3 = 1" "sv_active_sessions (ls_server s) = 0" by blast
  from libusb_stop_releases_all[OF s(1) sample_config_ok s(3)] s(2) show ?thesis by metis
qed

text \<open>C36: A bus id names one device. Two devices get the same bus id only if they are on the same bus and at the same
  path of ports or, where the path is not known, at the same address and port; a device with a path and one without never
  share it.\<close>

theorem device_busid_unique:
  assumes "get_device_busid a = get_device_busid b"
  shows "li_bus_number a = li_bus_number b \<and> li_ports a = li_ports b \<and>
    (if li_ports a = [] then li_address a = li_address b \<and> li_port_number a = li_port_number b else True)"
proof -
  define tail where "tail = (\<lambda>d :: libusb_device_info. case li_ports d of
      [] \<Rightarrow> (unat (li_address d), CHR '':'' # decimal (unat (li_port_number d))) | p # ps \<Rightarrow> (unat p, more_ports ps))"
  have e: "get_device_busid d = decimal (unat (li_bus_number d)) @ CHR ''-'' # decimal (fst (tail d)) @ snd (tail d)"
    "number_end (snd (tail d))" for d
    by (cases "li_ports d"; simp add: get_device_busid_def tail_def port_path_Cons)+
  from assms have "li_bus_number a = li_bus_number b \<and> decimal (fst (tail a)) @ snd (tail a) = decimal (fst (tail b)) @ snd (tail b)"
    unfolding e(1) by (auto dest!: decimal_split simp: unat_u8_eq)
  then have "li_bus_number a = li_bus_number b" and t: "fst (tail a) = fst (tail b)" "snd (tail a) = snd (tail b)"
    using decimal_split[OF _ e(2) e(2)] by blast+
  moreover have "CHR '':'' # x \<noteq> more_ports ps" for x ps by (cases ps) (simp_all add: more_ports_def)
  moreover from this have "more_ports ps \<noteq> CHR '':'' # x" for x ps by metis
  ultimately show ?thesis
    by (cases "li_ports a"; cases "li_ports b") (auto simp: tail_def unat_u8_eq dest: decimal_inj more_ports_inj)
qed

theorem device_busid_unique_witness:
  "get_device_busid sample_info = get_device_busid (sample_info\<lparr>li_address := 7\<rparr>) \<and> li_ports sample_info = li_ports (sample_info\<lparr>li_address := 7\<rparr>)"
  using device_busid_unique[of sample_info "sample_info\<lparr>li_address := 7\<rparr>"] by (simp add: get_device_busid_def sample_info_def)

section \<open>A race\<close>

text \<open>After \<open>add_device\<close> the reference belongs to the handler, but \<open>bind_host_device\<close> goes on to read the device for its log.
  When the device is unplugged in between, that is a device without any reference.\<close>

lemma bind_then_left_unreferenced:
  "\<exists>s s' s''. bind_host_device sample_host sample_config (Some 3) s = Some (Op_Success, s') \<and>
     handle_device_left sample_host (get_device_busid sample_info) s' = Some s'' \<and> ls_refs s' 3 = 1 \<and> ls_refs s'' 3 = 0"
proof -
  let ?s = "ref_device 3 LibusbServer_new"
  show ?thesis
    by (rule exI[of _ ?s])
       (simp add: bind_host_device_def add_with_handler_def add_device_def Let_def sample_host_def sample_info_def
        sample_config_def libusb_usb_device_def libusb_interface_def LIBUSB_CLASS_HUB_def take_reference_def ref_device_def
        LibusbServer_new_def Server_new_def handle_device_left_def detach_available_device_def with_handler_def discard_closed_def
        close_native_def unref_native_def destroy_handler_def unref_device_def set_entry_def LibusbDeviceHandler_new_def)
qed

end
