(* ===== verification/Spec2Isabelle.thy ===== *)
theory Spec2Isabelle
  imports Protocol_Props In_Channel Out_Channel Pools Transfer_Scheduler Session_Model Hid_Devices Cdc_Acm Msc_Props
    Ethernet_Props Rndis_Props Ecm Pipe Ms_Os Uac_Props Uvc_Props Libusb_Urbs_Props Libusb_Server_Props
begin

text \<open>
  \<^bold>\<open>usbipdcpp: a verification library.\<close>

  usbipdcpp is a USB/IP server in C++. A client connects over TCP, asks for the list of exported devices,
  imports one by its bus id, and from then on sends URBs (CMD_SUBMIT) and cancellations
  (CMD_UNLINK) that the server answers with RET_SUBMIT and RET_UNLINK. Devices are either physical
  ones behind libusb or virtual ones whose interfaces are C++ handlers.

  \<^bold>\<open>The parts and how they interact.\<close> \<open>Server\<close> owns the registry of devices and the table of sessions;
  a \<open>Session\<close> runs a receiver that decodes messages (\<open>protocol\<close> over \<open>network\<close>) and a sender that
  writes queued responses. Every message with a data stage owns a transfer object through a
  \<open>TransferHandle\<close> whose \<open>TransferOperator\<close> allocates, reads, writes and frees it. The receiver passes URBs to the
  device handler; \<open>VirtualDeviceHandler\<close> answers the standard control requests and dispatches the rest to
  the handlers of its interfaces, immediately or through the \<open>TransferScheduler\<close>. Interface handlers
  keep host requests and device data in IN and OUT channels, and answer through the responder, which
  is the session's queue.

  \<^bold>\<open>Theories and sources.\<close> Paths are below \<open>src/include/usbipdcpp\<close> and \<open>src/src\<close>.
  \<^item> \<open>Prelude\<close>: word types, \<open>memcpy\<close> on lists, theorem collections and shared list lemmas.
  \<^item> \<open>Bytes\<close>, \<open>Network\<close>: \<open>network.h\<close>, \<open>utils/utils.h\<close>. Byte order, the variadic serialisers, and readers over a
    TCP stream that can end or fail. The endianness of the host is a parameter, proved irrelevant.
  \<^item> \<open>Setup_Packet\<close>, \<open>Usb_Device\<close>: \<open>SetupPacket.h\<close>, \<open>constant.h\<close>, \<open>Version.h\<close>, \<open>Endpoint.h\<close>, \<open>Interface.h\<close>,
    \<open>Device.h\<close>, \<open>Device.cpp\<close>. The data of a device with its wire format and endpoint lookup.
  \<^item> \<open>Transfer_Op\<close>, \<open>Transfer_Handle\<close>: \<open>TransferOperator.h\<close>, \<open>GenericTransferOperator.cpp\<close>,
    \<open>VirtualDeviceTransferOperator.cpp\<close>, and the ownership of transfer objects as a step relation over the
    store of handle objects.
  \<^item> \<open>Protocol\<close>, \<open>Protocol_Props\<close>: \<open>protocol.h\<close>, \<open>protocol.cpp\<close>. All messages, both dispatchers, and their
    limits.
  \<^item> \<open>Slot_Containers\<close>, \<open>Ring_Buffer\<close>, \<open>Pools\<close>: \<open>ReuseMap.h\<close>, \<open>ReuseSet.h\<close>, \<open>RingBuffer.h/.cpp\<close>,
    \<open>ObjectPool.h\<close>, \<open>StringPool.h\<close>.
  \<^item> \<open>In_Channel\<close>, \<open>Out_Channel\<close>: \<open>InEndpointChannel.h\<close>, \<open>OutEndpointChannel.h\<close>.
  \<^item> \<open>Transfer_Scheduler\<close>: \<open>TransferScheduler.h/.cpp\<close>, with the clock as an argument.
  \<^item> \<open>Server_Devices\<close>, \<open>Session_Model\<close>: \<open>Server.h/.cpp\<close>, \<open>Session.h/.cpp\<close> as transition systems.
  \<^item> \<open>Descriptors\<close>, \<open>Virtual_Device\<close>, \<open>Unlink\<close>: \<open>UsbClassConstants.h\<close>, \<open>VirtualDeviceHandler.h/.cpp\<close>,
    \<open>SimpleVirtualDeviceHandler.cpp\<close>, the defaults of \<open>VirtualInterfaceHandler.h\<close>; and the contract
    of a handler that answers CMD_UNLINK over its channels.
  \<^item> \<open>Hid\<close>, \<open>Hid_Devices\<close>: \<open>HidVirtualInterfaceHandler\<close>, \<open>KeyboardHandler\<close>, \<open>RelativeMouseHandler\<close>,
    \<open>GamepadHandler\<close>, \<open>DigitizerHandler\<close> with their sending threads.
  \<^item> \<open>Cdc_Acm\<close>: \<open>CdcAcmVirtualInterfaceHandler\<close> (both interfaces of a serial port).
  \<^item> \<open>Storage\<close>, \<open>Msc\<close>, \<open>Msc_Props\<close>: \<open>StorageBackend.h\<close>, \<open>MemoryBackend.h\<close>, \<open>RawImageBackend\<close>,
    \<open>StorageTransferOperator\<close>, \<open>MscBulkOnlyHandler\<close>.
  \<^item> \<open>Ethernet_Echo\<close>, \<open>Ethernet_Props\<close>: \<open>NetworkBackend.h\<close>, \<open>NetworkingConstants.h\<close>, \<open>EthernetEchoBackend\<close>, a small
    ARP, ICMP and TCP stack behind a virtual network card.
  \<^item> \<open>Net_Function\<close>, \<open>Rndis_Packet\<close>, \<open>Rndis\<close>, \<open>Rndis_Props\<close>, \<open>Ecm\<close>: \<open>RndisConstants.h\<close>,
    \<open>RndisVirtualInterfaceHandler\<close>, \<open>EcmConstants.h\<close>, \<open>EcmVirtualInterfaceHandler\<close>, the two kinds of network card.
  \<^item> \<open>Pipe\<close>, \<open>Ms_Os\<close>: \<open>PipeDeviceHandler\<close>, which hands the transfers of a device to a user program through
    \<open>read\<close> and \<open>write\<close>; \<open>MSOSSimpleVirtualDeviceHandler\<close>, \<open>RndisMsOsDeviceHandler.h\<close>, \<open>MsOsConstants.h\<close>.
  \<^item> \<open>Audio\<close>, \<open>Uac\<close>, \<open>Uac_Props\<close>: \<open>AudioSource.h\<close>, \<open>AudioSink.h\<close>, \<open>SineWaveSource\<close>, \<open>FourierSource\<close>,
    \<open>WavFileSink\<close>, \<open>UacConstants.h\<close>, \<open>UacVirtualInterfaceHandler\<close> (microphone and speaker).
  \<^item> \<open>Video\<close>, \<open>Uvc\<close>, \<open>Uvc_Props\<close>: \<open>VideoSource.h\<close>, \<open>ColorBarSource\<close>, \<open>UvcConstants.h\<close>,
    \<open>UvcVirtualInterfaceHandler\<close> (the camera).
  \<^item> \<open>Libusb_Transfer\<close>, \<open>Libusb_Device\<close>, \<open>Libusb_Urbs\<close>, \<open>Libusb_Urbs_Props\<close>: \<open>LibusbTransferOperator\<close>, \<open>tools.cpp\<close>,
    \<open>LibusbDeviceHandler\<close>, \<open>LibusbDeviceHandlerConfig.h\<close>. The transfers of physical devices, opening and claiming, and the
    life of every transfer as the steps of two threads.
  \<^item> \<open>Libusb_Server\<close>, \<open>Libusb_Server_Props\<close>: \<open>LibusbServer\<close>, \<open>tools.h\<close>. The physical devices of the registry, with
    counted references to the devices of libusb.

  \<^bold>\<open>Conventions.\<close> Machine integers are words of their width; sizes and positions in buffers are natural
  numbers where the code keeps them in range. A read or write outside a buffer and the dereference of a null
  pointer are \<open>None\<close> (\<open>Bad_access\<close> in the runs of a session), so a safety theorem says that the result is
  \<open>Some\<close>; errors the code reports are values of a sum. Operations under a mutex are atomic; waits on condition
  variables take what other threads do meanwhile as an argument, or are a flag of a step relation.
  Virtual functions are records of functions, user callbacks are arguments, and calls to other
  components are events in the order they are made. The outcomes of the asio and kernel calls are arguments or
  their documented effect; so are those of libusb, whose filling functions are a parameter with their documentation as
  a hypothesis (\<open>fill_documented\<close>). Callback arguments and handlers are objects at addresses, so using or freeing one
  that is not allocated is \<open>None\<close> too.

  \<^bold>\<open>Interfaces.\<close> The contracts between components are locales, each interpreted on the model: the
  buffer of an IN channel (message list and byte stream), the laws of slot containers, what decoding needs of a transfer
  operator (virtual devices and libusb) and what answering needs beyond that, the
  cancellation of a pending request and the answer to CMD_UNLINK (HID, CDC ACM, RNDIS, ECM, UAC, UVC, pipe), a thread that
  reports state changes (the four HID devices), a block store (memory and image file), a network
  backend (the echo service), the format and data of an audio source or sink (sine, Fourier, WAV), and the
  frames of a video source (colour bars).

  \<^bold>\<open>What the theorems show.\<close>
  \<^item> Wire formats: round trips of the messages and of the device data, independence of the host, acceptance of
    exactly the valid CMD_SUBMITs, and no access outside the allocated transfer while decoding.
  \<^item> Sessions and server: the import of a device is exclusive and ends with its return, each session ends, responses keep
    their order and the receiver passes every URB on once and in order.
  \<^item> Ownership: a transfer object is freed exactly once.
  \<^item> Channels and scheduler: no request waits while data is there, each request is answered once, bytes
    are neither lost nor duplicated, queues are bounded, no wake-up is lost, service is in order.
  \<^item> Virtual devices: each control URB has one answer of the requested length (apart from the
    request to an endpoint that does not exist, which the code does not answer), descriptors are
    well-formed chains with the right total length, connection and disconnection of the interfaces match.
  \<^item> HID: the reports match the report descriptors and the endpoint, the threads lose no change and stop when
    told, the keyboard refines its specification, mouse motion is conserved and never wraps.
  \<^item> Mass storage: what is written is read back and nothing else changes, refused commands report the
    failure and leave the disk alone, and no access leaves the disk or a buffer, for hosts that
    respect the conditions the code does not check.
  \<^item> Network cards: a ping comes back through the whole card, TCP data is echoed in order with verifying
    checksums, frames survive the RNDIS framing, every command has its completion, and the exact size
    of frame up to which the echo service stays within its arrays.
  \<^item> Pipe: \<open>read\<close> delivers the host's requests of all endpoints in the order of their arrival, across
    the wrap-around of sequence numbers.
  \<^item> Audio: the microphone sends the samples of its source without gap at exactly the rate of its
    format, the speaker records exactly what the host sends, rates are negotiated to the nearest supported one.
  \<^item> Camera: a host that puts the payloads together gets whole frames, alternating in their identifier and no faster
    than the negotiated interval; the negotiation data survives its encoding and the class descriptors are
    well-formed for every format.
  \<^item> Physical devices: decoding stays inside the transfer and what is submitted stays inside its buffer; in every
    interleaving callback arguments are freed once and never used afterwards, every command is accounted for by one
    answer, and a disconnection ends; a device that cannot be claimed is handed back as it was found; references to
    devices balance over all runs of the server, each failure of binding leaves no trace, bus ids are unique.

  \<^bold>\<open>Bounds and fuel.\<close> The receiver loop of \<open>Session_Model\<close> takes a number of iterations; each iteration
  consumes at least one byte of the input, so more iterations than input bytes are enough,
  and the termination theorem is stated for that number. The loop of \<open>fill_pcm\<close> in \<open>Uac\<close> does not end for a source
  that hands out empty chunks and is a partial function; it is proved to return for the sources of the repository.
  Every other loop is a recursion on the data.

  \<^bold>\<open>Not modelled.\<close> The absolute mouse (its movement is floating-point and random), the TUN backend (system calls),
  the values of floating-point samples and gains (parameters), the functions that only print a list of devices,
  logging, latency measurement, \<open>SmallVector\<close>, the language bindings, the examples and the
  platform-specific code for Windows and macOS. In \<open>Libusb_Urbs\<close> the steps of a function are separate where another
  thread can take the lock; weaker interleavings of atomic flags are not. The theorems on physical devices rest on the
  contract of libusb that each submitted transfer gets one callback.
\<close>

end
